(* ===== verification/Prelude.thy ===== *)
theory Prelude
  imports Main "HOL-Library.Word" "HOL-Library.AList" "HOL-Library.List_Lexorder"
    "HOL-Library.Char_ord"
begin

text \<open>
  The vocabulary the components share: results that are either a raised error or a value,
  Python's indexing and slicing, big-endian octets, decimal numerals, text as code points,
  and dictionaries as association lists. Each group comes with the lemmas the component
  proofs lean on, declared to the simplifier or put into a named collection.
\<close>

unbundle bit_operations_syntax

named_theorems guard_simps \<open>equations that turn a guarded operation into its branches\<close>
named_theorems octet_simps \<open>facts on single octets and on octet sequences\<close>
named_theorems invariant_intros \<open>introduction rules of the component invariants\<close>

section \<open>Results\<close>

text \<open>
  A Python call either returns or raises. \<open>Inl\<close> carries the exception, \<open>Inr\<close> the value;
  \<open>rbind\<close> runs the rest of a body only when the call before it returned.
\<close>

definition rbind :: "'e + 'a \<Rightarrow> ('a \<Rightarrow> 'e + 'b) \<Rightarrow> 'e + 'b" where
  "rbind r f = (case r of Inl e \<Rightarrow> Inl e | Inr x \<Rightarrow> f x)"

lemma rbind_simps [simp]:
  "rbind (Inl e) f = Inl e"
  "rbind (Inr x) f = f x"
  by (simp_all add: rbind_def)

lemma rbind_eq_Inr_iff: "rbind r f = Inr y \<longleftrightarrow> (\<exists>x. r = Inr x \<and> f x = Inr y)"
  by (cases r) auto

lemma rbind_eq_Inl_iff: "rbind r f = Inl e \<longleftrightarrow> r = Inl e \<or> (\<exists>x. r = Inr x \<and> f x = Inl e)"
  by (cases r) auto

lemma rbind_InrE:
  assumes "rbind r f = Inr y"
  obtains x where "r = Inr x" "f x = Inr y"
  using assms by (auto simp: rbind_eq_Inr_iff)

lemma not_Inl_iff: "(\<forall>e. r \<noteq> Inl e) \<longleftrightarrow> (\<exists>x. r = Inr x)"
  by (cases r) auto

text \<open>\<open>for x in xs\<close> with a body that may raise: the first error ends the loop.\<close>

fun rfold :: "('s \<Rightarrow> 'i \<Rightarrow> 'e + 's) \<Rightarrow> 's \<Rightarrow> 'i list \<Rightarrow> 'e + 's" where
  "rfold step s [] = Inr s"
| "rfold step s (x # xs) = rbind (step s x) (\<lambda>s'. rfold step s' xs)"

lemma rfold_append:
  "rfold step s (xs @ ys) = rbind (rfold step s xs) (\<lambda>s'. rfold step s' ys)"
  by (induction xs arbitrary: s) (auto simp: rbind_def split: sum.splits)

section \<open>Octets, indexing and slicing\<close>

type_synonym byte = "8 word"
type_synonym bytes = "byte list"

text \<open>
  \<open>buf[i]\<close>: a negative index counts from the end, an index out of range raises
  (\<open>None\<close>). \<open>buf[i:j]\<close> never raises; for \<open>0 \<le> i\<close> it is the octets from \<open>i\<close> up to
  \<open>j\<close> or the end, and a negative bound counts from the end, clamped at the start.
\<close>

definition py_get :: "'a list \<Rightarrow> int \<Rightarrow> 'a option" where
  "py_get xs i =
     (let n = int (length xs); j = (if i < 0 then n + i else i)
      in if 0 \<le> j \<and> j < n then Some (xs ! nat j) else None)"

definition py_bound :: "'a list \<Rightarrow> int \<Rightarrow> nat" where
  "py_bound xs i = nat (if i < 0 then int (length xs) + i else i)"

definition py_slice :: "'a list \<Rightarrow> int \<Rightarrow> int \<Rightarrow> 'a list" where
  "py_slice xs i j = drop (py_bound xs i) (take (py_bound xs j) xs)"

lemma py_get_int [simp]:
  "py_get xs (int n) = (if n < length xs then Some (xs ! n) else None)"
  by (simp add: py_get_def)

lemma py_slice_int [simp]:
  "py_slice xs (int i) (int j) = drop i (take j xs)"
  by (simp add: py_slice_def py_bound_def)

lemma uint_byte_bounds [simp]: "0 \<le> uint (b :: byte)" "uint (b :: byte) < 256"
  using uint_lt2p [of b] by simp_all

lemma word_of_int_uint_byte [simp]: "word_of_int (uint (b :: byte)) = b"
  by simp

lemma uint_word_of_int_byte: "0 \<le> v \<Longrightarrow> v < 256 \<Longrightarrow> uint (word_of_int v :: byte) = v"
  by (simp add: uint_word_of_int)

lemma byte_eq_iff: "(a :: byte) = b \<longleftrightarrow> uint a = uint b"
  by (metis word_of_int_uint)

text \<open>Masks and shifts on Python integers as arithmetic.\<close>

lemma and_mask_int:
  "(x :: int) AND 0x7F = x mod 128" "x AND 0xFF = x mod 256" "x AND 0xFFFF = x mod 65536"
proof -
  have *: "x AND (2 ^ n - 1) = x mod 2 ^ n" for n
    by (simp add: take_bit_eq_mask [symmetric] mask_eq_exp_minus_1 [symmetric] take_bit_eq_mod)
  show "x AND 0x7F = x mod 128" using * [of 7] by simp
  show "x AND 0xFF = x mod 256" using * [of 8] by simp
  show "x AND 0xFFFF = x mod 65536" using * [of 16] by simp
qed

lemma and_mask_nat: "(x :: nat) AND 0x7F = x mod 128"
proof -
  have "x AND mask 7 = x mod 2 ^ 7"
    by (simp only: take_bit_eq_mask [symmetric] take_bit_eq_mod)
  then show ?thesis by (simp add: mask_eq_exp_minus_1)
qed

lemma top_bit_int:
  assumes "0 \<le> (x :: int)" and "x < 256"
  shows "x AND 0x80 = 0 \<longleftrightarrow> x < 128"
proof -
  have "x AND 2 ^ 7 = 0 \<longleftrightarrow> \<not> bit x 7" by (rule and_exp_eq_0_iff_not_bit)
  also have "bit x 7 \<longleftrightarrow> odd (x div 128)" by (simp add: bit_iff_odd)
  also have "x div 128 = (if x < 128 then 0 else 1)" using assms by auto
  finally show ?thesis by (simp split: if_splits)
qed

lemma shift_or_int:
  assumes "0 \<le> (w :: int)" and "w < 2 ^ n"
  shows "push_bit n v OR w = v * 2 ^ n + w"
proof -
  have "take_bit n w = w" using assms by (simp add: take_bit_int_eq_self)
  then have low: "bit w i \<Longrightarrow> i < n" for i by (metis bit_take_bit_iff)
  have "push_bit n v AND w = 0"
  proof (rule bit_eqI)
    fix i show "bit (push_bit n v AND w) i \<longleftrightarrow> bit 0 i"
      using low [of i] by (auto simp: bit_and_iff bit_push_bit_iff)
  qed
  then have "push_bit n v + w = push_bit n v OR w" by (rule disjunctive_add_eq_or)
  then show ?thesis by (simp add: push_bit_eq_mult)
qed

lemma flag_or_nat:
  assumes "(g :: nat) < 128"
  shows "0x80 OR g = 128 + g"
proof -
  have "take_bit 7 g = g" using assms by (simp add: take_bit_nat_eq_self)
  then have low: "bit g i \<Longrightarrow> i < 7" for i by (metis bit_take_bit_iff)
  have "2 ^ 7 AND g = 0"
  proof (rule bit_eqI)
    fix i show "bit (2 ^ 7 AND g) i \<longleftrightarrow> bit 0 i"
      unfolding bit_and_iff bit_exp_iff using low [of i] by auto
  qed
  then have "2 ^ 7 + g = 2 ^ 7 OR g" by (rule disjunctive_add_eq_or)
  then show ?thesis by simp
qed

text \<open>\<open>int.from_bytes(bs, 'big')\<close> and \<open>v.to_bytes(n, 'big')\<close>.\<close>

definition be_value :: "bytes \<Rightarrow> int" where
  "be_value bs = foldl (\<lambda>a b. a * 256 + uint b) 0 bs"

fun to_be :: "nat \<Rightarrow> int \<Rightarrow> bytes" where
  "to_be 0 v = []"
| "to_be (Suc n) v = to_be n (v div 256) @ [word_of_int v]"

lemma be_value_Nil [simp]: "be_value [] = 0"
  by (simp add: be_value_def)

lemma be_value_snoc [simp]: "be_value (bs @ [b]) = be_value bs * 256 + uint b"
  by (simp add: be_value_def)

lemma be_value_bounds: "0 \<le> be_value bs \<and> be_value bs < 256 ^ length bs"
proof (induction bs rule: rev_induct)
  case (snoc b bs)
  have "be_value bs * 256 + uint b < 256 ^ length bs * 256"
    using snoc uint_byte_bounds [of b] by linarith
  with snoc show ?case by simp
qed simp

lemma length_to_be [simp]: "length (to_be n v) = n"
  by (induction n arbitrary: v) auto

lemma be_value_to_be: "0 \<le> v \<Longrightarrow> v < 256 ^ n \<Longrightarrow> be_value (to_be n v) = v"
proof (induction n arbitrary: v)
  case (Suc n)
  then have "0 \<le> v div 256" "v div 256 < 256 ^ n" by auto
  then have "be_value (to_be n (v div 256)) = v div 256" by (rule Suc.IH)
  moreover have "uint (word_of_int v :: byte) = v mod 256"
    by (simp add: uint_word_of_int)
  ultimately show ?case by simp
qed simp

lemma to_be_be_value: "to_be (length bs) (be_value bs) = bs"
proof (induction bs rule: rev_induct)
  case (snoc b bs)
  have "(be_value bs * 256 + uint b) div 256 = be_value bs"
    using uint_byte_bounds [of b] by linarith
  moreover have "word_of_int (be_value bs * 256 + uint b) = b"
  proof -
    have "uint (word_of_int (be_value bs * 256 + uint b) :: byte) = uint b"
      by (subst uint_word_of_int) simp
    then show ?thesis by (simp only: byte_eq_iff)
  qed
  ultimately show ?case using snoc by simp
qed simp

lemma be_value_inj: "length as = length bs \<Longrightarrow> be_value as = be_value bs \<Longrightarrow> as = bs"
  by (metis to_be_be_value)

text \<open>\<open>int.bit_length\<close> of a non-negative integer.\<close>

fun bit_length :: "nat \<Rightarrow> nat" where
  "bit_length n = (if n = 0 then 0 else Suc (bit_length (n div 2)))"

declare bit_length.simps [simp del]

lemma bit_length_0 [simp]: "bit_length 0 = 0"
  by (simp add: bit_length.simps)

lemma less_two_power_bit_length: "n < 2 ^ bit_length n"
proof (induction n rule: bit_length.induct)
  case (1 n)
  show ?case
  proof (cases "n = 0")
    case False
    with 1 have "n div 2 < 2 ^ bit_length (n div 2)" by blast
    with False show ?thesis by (subst bit_length.simps) auto
  qed simp
qed

lemma two_power_bit_length_le: "0 < n \<Longrightarrow> 2 ^ (bit_length n - 1) \<le> n"
proof (induction n rule: bit_length.induct)
  case (1 n)
  show ?case
  proof (cases "n div 2 = 0")
    case True
    then have "n = 1" using 1 by auto
    then show ?thesis by (simp add: bit_length.simps)
  next
    case False
    then have "bit_length (n div 2) \<noteq> 0" by (subst bit_length.simps) simp
    then obtain k where k: "bit_length (n div 2) = Suc k" by (cases "bit_length (n div 2)") auto
    have "2 ^ k \<le> n div 2" using 1 False k by fastforce
    with 1 k show ?thesis by (subst bit_length.simps) auto
  qed
qed

section \<open>Text and decimal numerals\<close>

text \<open>
  A Python \<open>str\<close> is a sequence of code points. \<open>asc\<close> turns an ASCII literal into one.
  \<open>dec\<close> is \<open>str(n)\<close> for \<open>n \<ge> 0\<close>, \<open>undec\<close> is \<open>int(t)\<close> on decimal digits.
\<close>

type_synonym pytext = "nat list"

definition asc :: "string \<Rightarrow> pytext" where
  "asc s = map of_char s"

lemma asc_append [simp]: "asc (a @ b) = asc a @ asc b"
  by (simp add: asc_def)

lemma asc_simps [simp]: "asc [] = []" "asc (c # s) = of_char c # asc s"
  by (simp_all add: asc_def)

fun dec :: "nat \<Rightarrow> pytext" where
  "dec n = (if n < 10 then [48 + n] else dec (n div 10) @ [48 + n mod 10])"

declare dec.simps [simp del]

definition undec :: "pytext \<Rightarrow> nat" where
  "undec t = foldl (\<lambda>a c. a * 10 + (c - 48)) 0 t"

definition is_digit :: "nat \<Rightarrow> bool" where
  "is_digit c \<longleftrightarrow> 48 \<le> c \<and> c \<le> 57"

lemma undec_snoc [simp]: "undec (t @ [c]) = undec t * 10 + (c - 48)"
  by (simp add: undec_def)

lemma undec_dec [simp]: "undec (dec n) = n"
proof (induction n rule: dec.induct)
  case (1 n)
  show ?case
  proof (cases "n < 10")
    case True
    then show ?thesis by (subst dec.simps) (simp add: undec_def)
  next
    case False
    with 1 show ?thesis by (subst dec.simps) simp
  qed
qed

lemma dec_inj: "dec m = dec n \<longleftrightarrow> m = n"
  by (metis undec_dec)

lemma dec_digits: "c \<in> set (dec n) \<Longrightarrow> is_digit c"
proof (induction n rule: dec.induct)
  case (1 n)
  show ?case
  proof (cases "n < 10")
    case True
    with 1 show ?thesis by (subst (asm) dec.simps) (auto simp: is_digit_def)
  next
    case False
    then have "c \<in> set (dec (n div 10)) \<or> c = 48 + n mod 10"
      using 1(2) by (subst (asm) dec.simps) auto
    then show ?thesis
    proof
      assume "c \<in> set (dec (n div 10))"
      with False 1(1) show ?thesis by simp
    next
      assume "c = 48 + n mod 10"
      then show ?thesis by (simp add: is_digit_def)
    qed
  qed
qed

lemma dec_nonempty [simp]: "dec n \<noteq> []"
  by (subst dec.simps) simp

lemma length_dec_bound: "n < 10 ^ w \<Longrightarrow> 0 < w \<Longrightarrow> length (dec n) \<le> w"
proof (induction n arbitrary: w rule: dec.induct)
  case (1 n)
  show ?case
  proof (cases "n < 10")
    case True
    with 1 show ?thesis by (subst dec.simps) simp
  next
    case False
    with 1(2,3) obtain w' where w: "w = Suc w'" "0 < w'"
      by (cases w; cases "w - 1") auto
    with 1(2) have "n div 10 < 10 ^ w'" by (simp add: div_less_iff_less_mult)
    with 1(1) [OF False, of w'] w False show ?thesis by (subst dec.simps) simp
  qed
qed

section \<open>Dictionaries\<close>

text \<open>
  A Python dict keeps insertion order and updates a key in place: exactly
  \<open>AList.update\<close>. Reading is \<open>map_of\<close>, \<open>del d[k]\<close> is \<open>AList.delete\<close>, and
  \<open>len(d)\<close> is \<open>length\<close>, because the keys stay distinct.
\<close>

type_synonym ('k, 'v) dict = "('k \<times> 'v) list"

definition keys_distinct :: "('k, 'v) dict \<Rightarrow> bool" where
  "keys_distinct d \<longleftrightarrow> distinct (map fst d)"

definition dkeys :: "('k, 'v) dict \<Rightarrow> 'k set" where
  "dkeys d = fst ` set d"

lemma keys_distinct_Nil [simp, intro]: "keys_distinct []"
  by (simp add: keys_distinct_def)

lemma keys_distinct_update [simp]: "keys_distinct d \<Longrightarrow> keys_distinct (AList.update k v d)"
  by (simp add: keys_distinct_def AList.distinct_update)

lemma keys_distinct_delete [simp]: "keys_distinct d \<Longrightarrow> keys_distinct (AList.delete k d)"
  by (simp add: keys_distinct_def AList.distinct_delete)

lemma map_of_update [simp]: "map_of (AList.update k v d) = (map_of d)(k \<mapsto> v)"
  by (rule AList.update_conv')

lemma map_of_delete [simp]: "map_of (AList.delete k d) = (map_of d)(k := None)"
  by (rule AList.delete_conv')

lemma dkeys_update [simp]: "dkeys (AList.update k v d) = insert k (dkeys d)"
  by (simp add: dkeys_def AList.dom_update)

lemma dkeys_delete [simp]: "dkeys (AList.delete k d) = dkeys d - {k}"
  unfolding dkeys_def by (induction d) auto

lemma dkeys_Nil [simp]: "dkeys [] = {}"
  by (simp add: dkeys_def)

lemma in_dkeys_iff: "k \<in> dkeys d \<longleftrightarrow> map_of d k \<noteq> None"
  unfolding dkeys_def by (simp add: map_of_eq_None_iff)

lemma map_of_mem: "keys_distinct d \<Longrightarrow> map_of d k = Some v \<longleftrightarrow> (k, v) \<in> set d"
  unfolding keys_distinct_def by (rule map_of_eq_Some_iff)

lemma length_update: "length (AList.update k v d) =
    (if k \<in> dkeys d then length d else Suc (length d))"
  unfolding dkeys_def by (induction d) auto

lemma length_delete_le: "length (AList.delete k d) \<le> length d"
  by (rule AList.length_delete_le)

lemma card_dkeys: "keys_distinct d \<Longrightarrow> card (dkeys d) = length d"
  unfolding keys_distinct_def dkeys_def
  by (metis distinct_card length_map list.set_map)

text \<open>A weight summed over the values of a dictionary, and how updates change it.\<close>

definition dsum :: "('v \<Rightarrow> nat) \<Rightarrow> ('k, 'v) dict \<Rightarrow> nat" where
  "dsum w d = sum_list (map (w \<circ> snd) d)"

lemma dsum_Nil [simp]: "dsum w [] = 0"
  by (simp add: dsum_def)

lemma dsum_update_new:
  "map_of d k = None \<Longrightarrow> dsum w (AList.update k v d) = dsum w d + w v"
  unfolding dsum_def by (induction d) (auto split: if_splits)

lemma dsum_update_old:
  "keys_distinct d \<Longrightarrow> map_of d k = Some u \<Longrightarrow> dsum w (AList.update k v d) + w u = dsum w d + w v"
  unfolding dsum_def keys_distinct_def by (induction d) (auto split: if_splits)

lemma dsum_delete:
  "keys_distinct d \<Longrightarrow> map_of d k = Some u \<Longrightarrow> dsum w (AList.delete k d) + w u = dsum w d"
proof (induction d)
  case (Cons p d)
  show ?case
  proof (cases "fst p = k")
    case True
    have "AList.delete k d = d"
      using Cons.prems(1) True by (auto simp: keys_distinct_def AList.delete_idem)
    with True Cons.prems show ?thesis by (auto simp: dsum_def)
  next
    case False
    with Cons show ?thesis by (auto simp: dsum_def keys_distinct_def)
  qed
qed simp

text \<open>A frozenset whose size the code reads: a list without repetitions.\<close>

lemma length_list_insert: "length (List.insert x xs) = (if x \<in> set xs then length xs else Suc (length xs))"
  by (simp add: List.insert_def)

end
