(* ===== verification/Interfaces.thy ===== *)
theory Interfaces
  imports Prelude
begin

text \<open>
  The contracts components rely on, as locales. \<open>prefix_codec\<close> is an encoder and a decoder
  reading at an offset; \<open>guarded_machine\<close> is a step that either refuses or moves to a new
  state keeping an invariant. Both are interpreted on the model's own definitions in the
  theories of the components that provide them.
\<close>

section \<open>Codecs that read at an offset\<close>

text \<open>
  \<open>enc v\<close> is the encoding of \<open>v\<close>; \<open>dec buf i\<close> reads one value at offset \<open>i\<close> and
  returns it with the offset just past it. The laws: what was written is read back wherever
  it stands, and whatever is read was written in the one accepted spelling.
\<close>

locale prefix_codec =
  fixes enc :: "'a \<Rightarrow> bytes" and dec :: "bytes \<Rightarrow> int \<Rightarrow> 'e + 'a \<times> int" and ok :: "'a \<Rightarrow> bool"
  assumes dec_enc: "ok v \<Longrightarrow>
      dec (pre @ enc v @ post) (int (length pre)) = Inr (v, int (length pre + length (enc v)))"
    and enc_dec: "dec buf (int n) = Inr (v, m) \<Longrightarrow>
      ok v \<and> m = int (n + length (enc v)) \<and> take (length (enc v)) (drop n buf) = enc v"
    and enc_nonempty: "ok v \<Longrightarrow> enc v \<noteq> []"
begin

lemma dec_enc_start: "ok v \<Longrightarrow> dec (enc v @ post) 0 = Inr (v, int (length (enc v)))"
  using dec_enc [of v "[]" post] by simp

lemma enc_inj: "ok v \<Longrightarrow> ok w \<Longrightarrow> enc v = enc w \<Longrightarrow> v = w"
  using dec_enc_start [of v "[]"] dec_enc_start [of w "[]"] by simp

lemma prefix_free:
  assumes "ok v" and "ok w" and "enc v @ xs = enc w @ ys"
  shows "v = w \<and> xs = ys"
proof -
  have "dec (enc v @ xs) 0 = Inr (v, int (length (enc v)))"
    using assms(1) by (rule dec_enc_start)
  moreover have "dec (enc v @ xs) 0 = Inr (w, int (length (enc w)))"
    using dec_enc_start [OF assms(2), of ys] assms(3) by simp
  ultimately have "v = w" by simp
  with assms(3) show ?thesis by simp
qed

lemma dec_split:
  assumes "dec buf (int n) = Inr (v, m)" and "n \<le> length buf"
  shows "\<exists>post. buf = take n buf @ enc v @ post \<and> m = int (n + length (enc v))"
proof -
  from enc_dec [OF assms(1)]
  have m: "m = int (n + length (enc v))" and t: "take (length (enc v)) (drop n buf) = enc v"
    by auto
  have "buf = take n buf @ enc v @ drop (length (enc v)) (drop n buf)"
    using append_take_drop_id [of n buf] append_take_drop_id [of "length (enc v)" "drop n buf"] t
    by metis
  with m show ?thesis by blast
qed

lemma dec_within:
  assumes "dec buf (int n) = Inr (v, m)"
  shows "int n < m \<and> m \<le> int (length buf)"
proof -
  from enc_dec [OF assms] have ok: "ok v" and m: "m = int (n + length (enc v))"
    and t: "take (length (enc v)) (drop n buf) = enc v" by auto
  from ok have pos: "0 < length (enc v)" using enc_nonempty by simp
  have "min (length buf - n) (length (enc v)) = length (enc v)"
    using arg_cong [OF t, of length] by simp
  then have "length (enc v) \<le> length buf - n" by linarith
  with pos m show ?thesis by linarith
qed

lemma dec_unique: "dec buf (int n) = Inr (v, m) \<Longrightarrow> dec buf (int n) = Inr (w, k) \<Longrightarrow> v = w \<and> m = k"
  by simp

end

section \<open>Machines whose steps may refuse\<close>

text \<open>
  \<open>step s i\<close> either refuses the input (\<open>Inl\<close>, the state unchanged) or answers with the
  next state. The one law is that an accepted step keeps the invariant; runs then keep it.
\<close>

locale guarded_machine =
  fixes step :: "'s \<Rightarrow> 'i \<Rightarrow> 'e + 's" and inv :: "'s \<Rightarrow> bool"
  assumes step_inv: "inv s \<Longrightarrow> step s i = Inr s' \<Longrightarrow> inv s'"
begin

lemma run_inv: "inv s \<Longrightarrow> rfold step s is = Inr s' \<Longrightarrow> inv s'"
proof (induction "is" arbitrary: s)
  case (Cons i "is")
  from Cons.prems(2) obtain t where "step s i = Inr t" "rfold step t is = Inr s'"
    by (auto simp: rbind_eq_Inr_iff)
  with Cons show ?case using step_inv by blast
qed simp

end

text \<open>
  A machine with a measure that no accepted step lowers: a sequence number, a fence, a count.
\<close>

locale monotone_machine = guarded_machine step inv
  for step :: "'s \<Rightarrow> 'i \<Rightarrow> 'e + 's" and inv :: "'s \<Rightarrow> bool" +
  fixes level :: "'s \<Rightarrow> nat"
  assumes step_level: "inv s \<Longrightarrow> step s i = Inr s' \<Longrightarrow> level s \<le> level s'"
begin

lemma run_level: "inv s \<Longrightarrow> rfold step s is = Inr s' \<Longrightarrow> level s \<le> level s'"
proof (induction "is" arbitrary: s)
  case (Cons i "is")
  from Cons.prems(2) obtain t where t: "step s i = Inr t" "rfold step t is = Inr s'"
    by (auto simp: rbind_eq_Inr_iff)
  from Cons.prems(1) t(1) have "inv t" "level s \<le> level t"
    by (auto intro: step_inv step_level)
  with Cons.IH t(2) show ?case by fastforce
qed simp

end

end
