(* ===== verification/Klv_Framing.thy ===== *)
theory Klv_Framing
  imports Interfaces
begin

text \<open>
  The UAS Datalink Local Set framing layer,
  \<^verbatim>\<open>packages/cdm/synapse_cdm/adapters/klv_codec.py\<close>: the 16-octet key, BER-OID tags, BER
  lengths, the packet checksum and the walk over a local set. Buffers are octet lists, offsets
  and values are Python's unbounded integers, and each refusal is a constructor carrying the
  numbers its message quotes.
\<close>

unbundle bit_operations_syntax

section \<open>Constants and refusals\<close>

definition UAS_LOCAL_SET_KEY :: bytes where
  "UAS_LOCAL_SET_KEY = [0x06, 0x0E, 0x2B, 0x34, 0x02, 0x0B, 0x01, 0x01,
                        0x0E, 0x01, 0x03, 0x01, 0x01, 0x00, 0x00, 0x00]"

definition KEY_LENGTH :: nat where "KEY_LENGTH = 16"
definition BER_OID_MAX :: int where "BER_OID_MAX = push_bit 14 1 - 1"
definition BER_OID_SINGLE_OCTET_MAX :: int where "BER_OID_SINGLE_OCTET_MAX = 127"
definition BER_LENGTH_SHORT_FORM_MAX :: int where "BER_LENGTH_SHORT_FORM_MAX = 127"
definition BER_LENGTH_OF_LENGTH_MAX :: nat where "BER_LENGTH_OF_LENGTH_MAX = 127"
definition BER_LENGTH_INDEFINITE_OCTET :: int where "BER_LENGTH_INDEFINITE_OCTET = 0x80"

lemmas klv_constants = UAS_LOCAL_SET_KEY_def KEY_LENGTH_def BER_OID_SINGLE_OCTET_MAX_def
  BER_LENGTH_SHORT_FORM_MAX_def BER_LENGTH_OF_LENGTH_MAX_def BER_LENGTH_INDEFINITE_OCTET_def

datatype framing_fault =
    KeyTruncated int nat             \<comment> \<open>offset, octets remaining\<close>
  | KeyMismatch int nat byte         \<comment> \<open>offset of the octet, its index in the key, the octet\<close>
  | OidNoOctets int
  | OidRunsOff int int               \<comment> \<open>where the octets ended, where the value began\<close>
  | OidLeadingZero int
  | OidNegative int
  | ChecksumNegative int
  | ChecksumRange int nat
  | LengthNegativeOffset int
  | LengthNoOctets int
  | LengthIndefinite int
  | LengthTruncated int byte nat     \<comment> \<open>offset, first octet, octets remaining\<close>
  | LengthShortable int byte int     \<comment> \<open>offset, first octet, the length\<close>
  | LengthPadded int int             \<comment> \<open>offset of the padding octet, the length\<close>
  | LengthNegative int
  | PacketTruncated int int int      \<comment> \<open>offset, declared, remaining\<close>
  | ItemOverrun int int int int      \<comment> \<open>offset, tag, tag offset, declared\<close>

datatype klv_error =
    KLVFramingError framing_fault
  | UnderivableFromPinnedCopy int nat
  | KlvIndexError

section \<open>The key\<close>

definition is_local_set_key :: "bytes \<Rightarrow> int \<Rightarrow> bool" where
  "is_local_set_key buf offset \<longleftrightarrow>
     py_slice buf offset (offset + int KEY_LENGTH) = UAS_LOCAL_SET_KEY"

definition first_difference :: "bytes \<Rightarrow> bytes \<Rightarrow> nat" where
  "first_difference xs ys = length (takeWhile (\<lambda>(x, y). x = y) (zip xs ys))"

definition read_local_set_key :: "bytes \<Rightarrow> int \<Rightarrow> klv_error + int" where
  "read_local_set_key buf offset =
     (let chunk = py_slice buf offset (offset + int KEY_LENGTH) in
      if length chunk < KEY_LENGTH then Inl (KLVFramingError (KeyTruncated offset (length chunk)))
      else if chunk \<noteq> UAS_LOCAL_SET_KEY then
        (let differs = first_difference chunk UAS_LOCAL_SET_KEY
         in Inl (KLVFramingError (KeyMismatch (offset + int differs) differs (chunk ! differs))))
      else Inr (offset + int KEY_LENGTH))"

section \<open>BER-OID tags\<close>

function ber_oid_loop :: "bytes \<Rightarrow> int \<Rightarrow> int \<Rightarrow> int \<Rightarrow> nat \<Rightarrow> klv_error + int \<times> int" where
  "ber_oid_loop buf offset value index octet_number =
     (let octet_number = octet_number + 1 in
      if int (length buf) \<le> index then
        (if octet_number = 1 then Inl (KLVFramingError (OidNoOctets offset))
         else Inl (KLVFramingError (OidRunsOff index offset)))
      else case py_get buf index of
        None \<Rightarrow> Inl KlvIndexError
      | Some b \<Rightarrow>
          (let octet = uint b in
           if octet_number = 1 \<and> octet = 0x80 then Inl (KLVFramingError (OidLeadingZero offset))
           else
             (let value = push_bit 7 value OR (octet AND 0x7F); index = index + 1 in
              if octet AND 0x80 = 0 then Inr (value, index)
              else ber_oid_loop buf offset value index octet_number)))"
  by pat_completeness auto
termination
  by (relation "measure (\<lambda>(buf, offset, value, index, k). nat (int (length buf) - index))") auto

declare ber_oid_loop.simps [simp del]

definition decode_ber_oid :: "bytes \<Rightarrow> int \<Rightarrow> klv_error + int \<times> int" where
  "decode_ber_oid buf offset = ber_oid_loop buf offset 0 offset 0"

function ber_oid_groups :: "nat \<Rightarrow> nat list" where
  "ber_oid_groups remaining =
     (if remaining = 0 then []
      else (remaining AND 0x7F) # ber_oid_groups (drop_bit 7 remaining))"
  by pat_completeness auto
termination
  by (relation "measure id") (auto simp: drop_bit_eq_div)

declare ber_oid_groups.simps [simp del]

definition encode_ber_oid :: "int \<Rightarrow> klv_error + bytes" where
  "encode_ber_oid value =
     (if value < 0 then Inl (KLVFramingError (OidNegative value))
      else if value \<le> BER_OID_SINGLE_OCTET_MAX then Inr [word_of_int value]
      else
        (let groups = rev (ber_oid_groups (nat value))
         in Inr (map (\<lambda>g. word_of_nat (0x80 OR g)) (butlast groups) @ [word_of_nat (last groups)])))"

section \<open>The packet checksum\<close>

definition bcc_16 :: "bytes \<Rightarrow> int option \<Rightarrow> klv_error + int" where
  "bcc_16 buf len =
     (let n = (case len of None \<Rightarrow> int (length buf) | Some l \<Rightarrow> l) in
      if n < 0 then Inl (KLVFramingError (ChecksumNegative n))
      else if int (length buf) < n then Inl (KLVFramingError (ChecksumRange n (length buf)))
      else Inr (foldl (\<lambda>bcc i. bcc + push_bit (8 * ((i + 1) mod 2)) (uint (buf ! i))) 0 [0..<nat n]
                AND 0xFFFF))"

section \<open>BER lengths\<close>

definition decode_ber_length :: "bytes \<Rightarrow> int \<Rightarrow> klv_error + int \<times> int" where
  "decode_ber_length buf offset =
     (if offset < 0 then Inl (KLVFramingError (LengthNegativeOffset offset))
      else if int (length buf) \<le> offset then Inl (KLVFramingError (LengthNoOctets offset))
      else case py_get buf offset of
        None \<Rightarrow> Inl KlvIndexError
      | Some b \<Rightarrow>
          (let first = uint b in
           if first \<le> BER_LENGTH_SHORT_FORM_MAX then Inr (first, offset + 1)
           else if first = BER_LENGTH_INDEFINITE_OCTET
             then Inl (KLVFramingError (LengthIndefinite offset))
           else
             (let count = first AND 0x7F;
                  payload = py_slice buf (offset + 1) (offset + 1 + count) in
              if int (length payload) < count
                then Inl (KLVFramingError (LengthTruncated offset b (length payload)))
              else
                (let len = be_value payload in
                 if len \<le> BER_LENGTH_SHORT_FORM_MAX
                   then Inl (KLVFramingError (LengthShortable offset b len))
                 else if payload ! 0 = 0
                   then Inl (KLVFramingError (LengthPadded (offset + 1) len))
                 else Inr (len, offset + 1 + count)))))"

definition encode_ber_length :: "int \<Rightarrow> klv_error + bytes" where
  "encode_ber_length value =
     (if value < 0 then Inl (KLVFramingError (LengthNegative value))
      else if value \<le> BER_LENGTH_SHORT_FORM_MAX then Inr [word_of_int value]
      else
        (let count = (bit_length (nat value) + 7) div 8 in
         if BER_LENGTH_OF_LENGTH_MAX < count then Inl (UnderivableFromPinnedCopy value count)
         else Inr (word_of_nat (0x80 OR count) # to_be count value)))"

section \<open>The walk\<close>

record local_set_item =
  tag :: int
  item_length :: int
  item_value :: bytes
  tag_offset :: int
  value_offset :: int

lemma ber_oid_loop_advances:
  "ber_oid_loop buf offset v index k = Inr (w, next_index) \<Longrightarrow> index < next_index"
proof (induction buf offset v index k rule: ber_oid_loop.induct)
  case (1 buf offset v index k)
  show ?case
    using "1.prems" by (subst (asm) ber_oid_loop.simps)
      (auto simp: Let_def split: if_splits option.splits dest!: "1.IH" [rotated -1])
qed

lemma decode_ber_oid_advances: "decode_ber_oid buf i = Inr (v, j) \<Longrightarrow> i < j"
  by (auto simp: decode_ber_oid_def dest: ber_oid_loop_advances)

lemma decode_ber_length_advances: "decode_ber_length buf i = Inr (v, j) \<Longrightarrow> i < j \<and> 0 \<le> v"
  by (auto simp: decode_ber_length_def Let_def be_value_bounds and_mask_int add_pos_nonneg split: if_splits option.splits)

text \<open>
  The walk is a generator: it yields items until the value is used up or an item is malformed.
  The model returns the items yielded and the exception that ended the walk, if any.
  \<open>walk_items\<close> is the loop; every round consumes at least the two octets of a tag and a
  length, so it stops.
\<close>

function walk_items :: "bytes \<Rightarrow> int \<Rightarrow> int \<Rightarrow> local_set_item list \<times> klv_error option" where
  "walk_items buf end_at cursor =
     (if cursor < end_at then
        (case decode_ber_oid buf cursor of
          Inl e \<Rightarrow> ([], Some e)
        | Inr (t, c1) \<Rightarrow>
            (case decode_ber_length buf c1 of
              Inl e \<Rightarrow> ([], Some e)
            | Inr (len, c2) \<Rightarrow>
                (if end_at < c2 + len
                   then ([], Some (KLVFramingError (ItemOverrun c2 t cursor len)))
                 else
                   (let rest = walk_items buf end_at (c2 + len)
                    in (\<lparr>tag = t, item_length = len, item_value = py_slice buf c2 (c2 + len),
                         tag_offset = cursor, value_offset = c2\<rparr> # fst rest, snd rest)))))
      else ([], None))"
  by pat_completeness auto
termination
proof (relation "measure (\<lambda>(buf, end_at, cursor). nat (end_at - cursor))")
  fix buf end_at cursor x t c1 y len c2
  assume "cursor < end_at" and "decode_ber_oid buf cursor = Inr x" and "(t, c1) = x"
    and "decode_ber_length buf c1 = Inr y" and "(len, c2) = y"
  then have "cursor < c1" and "c1 < c2" and "0 \<le> len"
    by (auto dest: decode_ber_oid_advances decode_ber_length_advances)
  with \<open>cursor < end_at\<close>
  show "((buf, end_at, c2 + len), (buf, end_at, cursor))
      \<in> measure (\<lambda>(buf, end_at, cursor). nat (end_at - cursor))" by simp
qed simp

declare walk_items.simps [simp del]

definition walk_local_set :: "bytes \<Rightarrow> int \<Rightarrow> local_set_item list \<times> klv_error option" where
  "walk_local_set buf offset =
     (case read_local_set_key buf offset of
        Inl e \<Rightarrow> ([], Some e)
      | Inr cursor \<Rightarrow>
          (case decode_ber_length buf cursor of
             Inl e \<Rightarrow> ([], Some e)
           | Inr (declared, cursor) \<Rightarrow>
               (let end_at = cursor + declared in
                if int (length buf) < end_at
                  then ([], Some (KLVFramingError
                         (PacketTruncated cursor declared (int (length buf) - cursor))))
                else walk_items buf end_at cursor)))"

end
