(* ===== verification/Klv_Framing_Correct.thy ===== *)
theory Klv_Framing_Correct
  imports Klv_Framing
begin

text \<open>
  Correctness of the framing layer: BER-OID tags and BER lengths are exact inverses of their
  encoders, each accepted octet sequence is the one canonical spelling of its value, and the
  walk reads back exactly the items a packet was assembled from.
\<close>

unbundle bit_operations_syntax

section \<open>BER-OID: seven-bit groups and their octets\<close>

definition group_octets :: "nat list \<Rightarrow> bytes" where
  "group_octets gs = map (\<lambda>g. word_of_nat (0x80 OR g)) (butlast gs) @ [word_of_nat (last gs)]"

definition group_value :: "int \<Rightarrow> nat list \<Rightarrow> int" where
  "group_value a gs = foldl (\<lambda>a g. a * 128 + int g) a gs"

lemma group_value_simps [simp]:
  "group_value a [] = a"
  "group_value a (g # gs) = group_value (a * 128 + int g) gs"
  "group_value a (gs @ [g]) = group_value a gs * 128 + int g"
  by (simp_all add: group_value_def)

lemma length_group_octets: "gs \<noteq> [] \<Longrightarrow> length (group_octets gs) = length gs"
  by (simp add: group_octets_def)

lemma group_octets_Cons:
  "gs \<noteq> [] \<Longrightarrow> group_octets (g # gs) = word_of_nat (0x80 OR g) # group_octets gs"
  by (simp add: group_octets_def)

lemma uint_low_octet: "g < 128 \<Longrightarrow> uint (word_of_nat g :: byte) = int g"
  by (simp add: uint_nat unat_of_nat)

lemma uint_high_octet: "g < 128 \<Longrightarrow> uint (word_of_nat (0x80 OR g) :: byte) = 128 + int g"
  by (simp only: flag_or_nat uint_nat unat_of_nat) simp

lemma ber_oid_loop_step:
  assumes "i < length buf"
  shows "ber_oid_loop buf off a (int i) k =
    (let octet = uint (buf ! i) in
     if k = 0 \<and> octet = 128 then Inl (KLVFramingError (OidLeadingZero off))
     else if octet < 128 then Inr (a * 128 + octet, int (Suc i))
     else ber_oid_loop buf off (a * 128 + (octet - 128)) (int (Suc i)) (Suc k))"
proof -
  let ?x = "uint (buf ! i)"
  have x: "0 \<le> ?x" "?x < 256" by simp_all
  then have "?x mod 128 = (if ?x < 128 then ?x else ?x - 128)" by presburger
  then have low: "?x AND 127 = (if ?x < 128 then ?x else ?x - 128)" by (simp add: and_mask_int)
  have sh: "push_bit 7 a OR (?x AND 127) = a * 128 + (?x AND 127)"
    using shift_or_int [of "?x AND 127" 7 a] by (simp add: and_mask_int)
  show ?thesis
    using assms top_bit_int [OF x] low sh
    by (subst ber_oid_loop.simps) (auto simp: Let_def add.commute)
qed

lemma ber_oid_loop_octets:
  assumes "gs \<noteq> []" and "\<forall>g \<in> set gs. g < 128" and "k = 0 \<longrightarrow> length gs = 1 \<or> hd gs \<noteq> 0"
  shows "ber_oid_loop (pre @ group_octets gs @ post) off a (int (length pre)) k =
    Inr (group_value a gs, int (length pre + length gs))"
  using assms
proof (induction gs arbitrary: pre a k)
  case (Cons g gs)
  show ?case
  proof (cases "gs = []")
    case True
    with Cons.prems show ?thesis
      by (subst ber_oid_loop_step) (auto simp: group_octets_def uint_low_octet Let_def nth_append)
  next
    case False
    let ?b = "word_of_nat (0x80 OR g) :: byte"
    have rest: "ber_oid_loop ((pre @ [?b]) @ group_octets gs @ post) off (a * 128 + int g)
        (int (length (pre @ [?b]))) (Suc k) =
        Inr (group_value (a * 128 + int g) gs, int (length (pre @ [?b]) + length gs))"
      using Cons.prems False by (intro Cons.IH) auto
    have "uint ?b = 128 + int g" using Cons.prems by (simp add: uint_high_octet)
    moreover have "k = 0 \<Longrightarrow> g \<noteq> 0" using Cons.prems(3) False by simp
    ultimately show ?thesis
      using rest False
      by (subst ber_oid_loop_step) (auto simp: group_octets_Cons Let_def nth_append)
  qed
qed simp

lemma ber_oid_loop_inverse:
  assumes "ber_oid_loop buf off a (int i) k = Inr (v, j)"
  shows "\<exists>gs. gs \<noteq> [] \<and> (\<forall>g \<in> set gs. g < 128) \<and> (k = 0 \<longrightarrow> length gs = 1 \<or> hd gs \<noteq> 0) \<and>
    take (length gs) (drop i buf) = group_octets gs \<and> v = group_value a gs \<and> j = int (i + length gs)"
  using assms
proof (induction "length buf - i" arbitrary: i a k)
  case 0
  then show ?case by (subst (asm) ber_oid_loop.simps) (auto simp: Let_def split: if_splits)
next
  case (Suc d)
  let ?x = "uint (buf ! i)"
  from Suc.hyps(2) have i: "i < length buf" by linarith
  then have dr: "drop i buf = buf ! i # drop (Suc i) buf" by (simp add: Cons_nth_drop_Suc)
  have x: "0 \<le> ?x" "?x < 256" by simp_all
  have nz: "\<not> (k = 0 \<and> ?x = 128)"
    using Suc.prems ber_oid_loop_step [OF i, of off a k] by (auto simp: Let_def)
  show ?case
  proof (cases "?x < 128")
    case True
    have "nat ?x < 128" using x True by linarith
    moreover have "buf ! i = word_of_nat (nat ?x)" using x by simp
    ultimately show ?thesis using True Suc.prems nz dr
        ber_oid_loop_step [OF i, of off a k]
      by (intro exI [of _ "[nat ?x]"]) (auto simp: Let_def group_octets_def)
  next
    case False
    let ?g = "nat (?x - 128)"
    have "ber_oid_loop buf off (a * 128 + (?x - 128)) (int (Suc i)) (Suc k) = Inr (v, j)"
      using Suc.prems nz False ber_oid_loop_step [OF i, of off a k] by (simp add: Let_def)
    moreover have "d = length buf - Suc i" using Suc.hyps(2) by linarith
    ultimately obtain gs where
      gs: "gs \<noteq> []" "\<forall>g \<in> set gs. g < 128" "take (length gs) (drop (Suc i) buf) = group_octets gs"
        "v = group_value (a * 128 + (?x - 128)) gs" "j = int (Suc i + length gs)"
      using Suc.hyps(1) [of "Suc i" "a * 128 + (?x - 128)" "Suc k"] by blast
    have "int ?g = ?x - 128" using x False by simp
    then have g: "?g < 128" using x(2) by linarith
    then have "uint (word_of_nat (0x80 OR ?g) :: byte) = ?x"
      using uint_high_octet [OF g] \<open>int ?g = ?x - 128\<close> by linarith
    then have "buf ! i = word_of_nat (0x80 OR ?g)" by (simp add: byte_eq_iff)
    with gs g dr nz False \<open>int ?g = ?x - 128\<close> show ?thesis
      by (intro exI [of _ "?g # gs"]) (auto simp: group_octets_Cons)
  qed
qed

lemma ber_oid_groups_pos:
  "0 < n \<Longrightarrow> ber_oid_groups n = n mod 128 # ber_oid_groups (n div 128)"
  by (subst ber_oid_groups.simps) (simp add: and_mask_nat drop_bit_eq_div)

lemma ber_oid_groups_0 [simp]: "ber_oid_groups 0 = []"
  by (simp add: ber_oid_groups.simps)

lemma ber_oid_groups_value: "group_value 0 (rev (ber_oid_groups n)) = int n"
proof (induction n rule: less_induct)
  case (less n)
  show ?case
  proof (cases "n = 0")
    case False
    with less [of "n div 128"] show ?thesis
      by (simp add: ber_oid_groups_pos flip: of_nat_mult of_nat_add) (metis add.commute div_mult_mod_eq of_nat_add of_nat_mult of_nat_numeral)
  qed simp
qed

lemma ber_oid_groups_range: "g \<in> set (ber_oid_groups n) \<Longrightarrow> g < 128"
proof (induction n rule: less_induct)
  case (less n)
  show ?case
  proof (cases "n = 0")
    case False
    with less.prems have "g = n mod 128 \<or> g \<in> set (ber_oid_groups (n div 128))"
      by (simp add: ber_oid_groups_pos)
    with less.IH [of "n div 128"] False show ?thesis by auto
  qed (use less.prems in simp)
qed

lemma ber_oid_groups_last: "0 < n \<Longrightarrow> ber_oid_groups n \<noteq> [] \<and> last (ber_oid_groups n) \<noteq> 0"
proof (induction n rule: less_induct)
  case (less n)
  show ?case
  proof (cases "n div 128 = 0")
    case True
    with less.prems show ?thesis by (auto simp: ber_oid_groups_pos div_eq_0_iff)
  next
    case False
    then have "ber_oid_groups (n div 128) \<noteq> []" "last (ber_oid_groups (n div 128)) \<noteq> 0"
      using less.IH [of "n div 128"] less.prems by auto
    with less.prems show ?thesis by (simp add: ber_oid_groups_pos)
  qed
qed

lemma group_value_nonneg: "0 \<le> group_value 0 gs"
  by (induction gs rule: rev_induct) auto

lemma ber_oid_groups_unique:
  "gs \<noteq> [] \<Longrightarrow> hd gs \<noteq> 0 \<Longrightarrow> \<forall>g \<in> set gs. g < 128 \<Longrightarrow>
   0 < group_value 0 gs \<and> rev (ber_oid_groups (nat (group_value 0 gs))) = gs"
proof (induction gs rule: rev_induct)
  case (snoc g gs)
  show ?case
  proof (cases "gs = []")
    case True
    with snoc.prems show ?thesis by (simp add: ber_oid_groups_pos)
  next
    case False
    then have pos: "0 < group_value 0 gs" and r: "rev (ber_oid_groups (nat (group_value 0 gs))) = gs"
      using snoc by auto
    let ?m = "nat (group_value 0 gs)"
    have v: "nat (group_value 0 gs * 128 + int g) = ?m * 128 + g"
      using pos by (simp add: nat_add_distrib nat_mult_distrib)
    have "ber_oid_groups (?m * 128 + g) = g # ber_oid_groups ?m"
      using pos snoc.prems(3) by (subst ber_oid_groups_pos) auto
    with r pos v show ?thesis by simp
  qed
qed simp

section \<open>The two codecs\<close>

text \<open>The octets an encoder returns; both encoders succeed on the values below.\<close>

definition oid_octets :: "int \<Rightarrow> bytes" where
  "oid_octets v = (case encode_ber_oid v of Inl _ \<Rightarrow> [] | Inr bs \<Rightarrow> bs)"

definition length_octets :: "int \<Rightarrow> bytes" where
  "length_octets v = (case encode_ber_length v of Inl _ \<Rightarrow> [] | Inr bs \<Rightarrow> bs)"

definition encodable_length :: "int \<Rightarrow> bool" where
  "encodable_length v \<longleftrightarrow> (\<exists>bs. encode_ber_length v = Inr bs)"

lemma oid_octets_groups:
  assumes "0 \<le> v"
  obtains gs where "gs \<noteq> []" "\<forall>g \<in> set gs. g < 128" "length gs = 1 \<or> hd gs \<noteq> 0"
    "group_value 0 gs = v" "encode_ber_oid v = Inr (group_octets gs)"
proof (cases "v \<le> 127")
  case True
  show ?thesis
  proof (rule that [of "[nat v]"])
    show "encode_ber_oid v = Inr (group_octets [nat v])"
      using assms True by (simp add: encode_ber_oid_def klv_constants group_octets_def)
  qed (use assms True in auto)
next
  case False
  let ?gs = "rev (ber_oid_groups (nat v))"
  have l: "ber_oid_groups (nat v) \<noteq> []" "last (ber_oid_groups (nat v)) \<noteq> 0"
    using ber_oid_groups_last [of "nat v"] False by auto
  show ?thesis
  proof (rule that [of ?gs])
    show "length ?gs = 1 \<or> hd ?gs \<noteq> 0" using l by (simp add: hd_rev)
    show "group_value 0 ?gs = v" using ber_oid_groups_value [of "nat v"] assms by simp
    show "encode_ber_oid v = Inr (group_octets ?gs)"
      using assms False by (simp add: encode_ber_oid_def klv_constants group_octets_def Let_def)
  qed (use l ber_oid_groups_range in auto)
qed

interpretation oid: prefix_codec oid_octets decode_ber_oid "\<lambda>v. 0 \<le> v"
proof unfold_locales
  fix v :: int and pre post :: bytes
  assume "0 \<le> v"
  then obtain gs where gs: "gs \<noteq> []" "\<forall>g \<in> set gs. g < 128" "length gs = 1 \<or> hd gs \<noteq> 0"
    "group_value 0 gs = v" "encode_ber_oid v = Inr (group_octets gs)" by (rule oid_octets_groups)
  then have "oid_octets v = group_octets gs" by (simp add: oid_octets_def)
  with gs show "decode_ber_oid (pre @ oid_octets v @ post) (int (length pre)) =
      Inr (v, int (length pre + length (oid_octets v)))"
    by (simp add: decode_ber_oid_def ber_oid_loop_octets length_group_octets)
next
  fix buf n v m
  assume "decode_ber_oid buf (int n) = Inr (v, m)"
  then obtain gs where gs: "gs \<noteq> []" "\<forall>g \<in> set gs. g < 128" "length gs = 1 \<or> hd gs \<noteq> 0"
    "take (length gs) (drop n buf) = group_octets gs" "v = group_value 0 gs"
    "m = int (n + length gs)"
    using ber_oid_loop_inverse [of buf "int n" 0 n 0] by (auto simp: decode_ber_oid_def)
  have v: "0 \<le> v" using gs(5) by (simp add: group_value_nonneg)
  have "encode_ber_oid v = Inr (group_octets gs)"
  proof (cases "v \<le> 127")
    case True
    have "length gs = 1"
    proof (rule ccontr)
      assume "length gs \<noteq> 1"
      with gs(3) have "hd gs \<noteq> 0" by simp
      from ber_oid_groups_unique [OF gs(1) this gs(2)] gs(5) True
      have "gs = rev (ber_oid_groups (nat v))" "0 < nat v" "nat v div 128 = 0" by auto
      then have "length gs = 1" by (simp add: ber_oid_groups_pos)
      with \<open>length gs \<noteq> 1\<close> show False by simp
    qed
    then obtain g where "gs = [g]" by (auto simp: length_Suc_conv)
    with gs True show ?thesis
      by (simp add: encode_ber_oid_def klv_constants group_octets_def)
  next
    case False
    have "hd gs \<noteq> 0"
    proof
      assume "hd gs = 0"
      with gs(1,3) have "gs = [0]" by (cases gs) auto
      with gs(5) False show False by simp
    qed
    from ber_oid_groups_unique [OF gs(1) this gs(2)] gs(5) False show ?thesis
      by (simp add: encode_ber_oid_def klv_constants group_octets_def Let_def)
  qed
  then have "oid_octets v = group_octets gs" by (simp add: oid_octets_def)
  with v gs show "0 \<le> v \<and> m = int (n + length (oid_octets v)) \<and>
      take (length (oid_octets v)) (drop n buf) = oid_octets v"
    by (simp add: length_group_octets)
next
  fix v :: int assume "0 \<le> v"
  then show "oid_octets v \<noteq> []"
    by (auto elim!: oid_octets_groups [of v] simp: oid_octets_def group_octets_def)
qed

text \<open>BER lengths: the byte count an encoder picks is the least that holds the value.\<close>

lemma be_value_Cons: "be_value (b # bs) = uint b * 256 ^ length bs + be_value bs"
proof (induction bs rule: rev_induct)
  case (snoc c bs)
  have "be_value ((b # bs) @ [c]) = be_value (b # bs) * 256 + uint c" by (rule be_value_snoc)
  with snoc show ?case by (simp add: algebra_simps)
qed (simp add: be_value_def)

lemma byte_count_bounds:
  assumes "0 < v"
  defines "c \<equiv> (bit_length (nat v) + 7) div 8"
  shows "0 < c" and "256 ^ (c - 1) \<le> v" and "v < 256 ^ c"
proof -
  let ?b = "bit_length (nat v)"
  have "nat v < 2 ^ ?b" by (rule less_two_power_bit_length)
  then have up: "v < 2 ^ ?b" by (metis nat_less_iff assms(1) less_imp_le of_nat_numeral of_nat_power)
  have "2 ^ (?b - 1) \<le> nat v" using assms(1) by (intro two_power_bit_length_le) simp
  then have lo: "2 ^ (?b - 1) \<le> v" by (metis le_nat_iff assms(1) less_imp_le of_nat_numeral of_nat_power)
  have "?b \<noteq> 0" using up assms(1) by (cases "?b = 0") auto
  then show pos: "0 < c" by (simp add: c_def)
  have "?b \<le> 8 * c" by (simp add: c_def)
  then have "(2 :: int) ^ ?b \<le> 2 ^ (8 * c)" by (intro power_increasing) auto
  with up show "v < 256 ^ c" by (simp add: power_mult)
  have "8 * (c - 1) \<le> ?b - 1" using \<open>?b \<noteq> 0\<close> unfolding c_def by linarith
  then have "(2 :: int) ^ (8 * (c - 1)) \<le> 2 ^ (?b - 1)" by (intro power_increasing) auto
  with lo show "256 ^ (c - 1) \<le> v" by (simp add: power_mult)
qed

lemma byte_count_unique:
  assumes "256 ^ (c - 1) \<le> (v :: int)" and "v < 256 ^ c" and "0 < c" and "0 < v"
  shows "(bit_length (nat v) + 7) div 8 = c"
proof -
  let ?d = "(bit_length (nat v) + 7) div 8"
  note d = byte_count_bounds [OF assms(4)]
  have "(256 :: int) ^ (c - 1) < 256 ^ ?d" "(256 :: int) ^ (?d - 1) < 256 ^ c"
    using assms d by linarith+
  then have "c - 1 < ?d" "?d - 1 < c" by (simp_all add: power_strict_increasing_iff)
  with assms(3) d(1) show ?thesis by linarith
qed

lemma encode_ber_length_long:
  assumes "127 < v" and "v < 256 ^ 127"
  obtains c where "0 < c" "c \<le> 127" "256 ^ (c - 1) \<le> v" "v < 256 ^ c"
    "encode_ber_length v = Inr (word_of_nat (0x80 OR c) # to_be c v)"
proof -
  let ?c = "(bit_length (nat v) + 7) div 8"
  note c = byte_count_bounds [of v]
  have "(256 :: int) ^ (?c - 1) < 256 ^ 127" using c assms by linarith
  then have "?c - 1 < 127" by (rule power_less_imp_less_exp [rotated]) simp
  with c(1) assms have "?c \<le> 127" by linarith
  with c assms show ?thesis
    by (intro that [of ?c]) (auto simp: encode_ber_length_def klv_constants Let_def)
qed

lemma encodable_length_iff: "encodable_length v \<longleftrightarrow> 0 \<le> v \<and> v < 256 ^ 127"
proof
  assume "encodable_length v"
  then obtain bs where bs: "encode_ber_length v = Inr bs" by (auto simp: encodable_length_def)
  then have "0 \<le> v" by (auto simp: encode_ber_length_def split: if_splits)
  moreover have "v < 256 ^ 127"
  proof (cases "v \<le> 127")
    case False
    let ?c = "(bit_length (nat v) + 7) div 8"
    have "?c \<le> 127" using bs False
      by (auto simp: encode_ber_length_def klv_constants Let_def split: if_splits)
    then have "(256 :: int) ^ ?c \<le> 256 ^ 127" by (intro power_increasing) auto
    with byte_count_bounds(3) [of v] False show ?thesis by linarith
  qed simp
  ultimately show "0 \<le> v \<and> v < 256 ^ 127" ..
next
  assume "0 \<le> v \<and> v < 256 ^ 127"
  then show "encodable_length v"
    using encode_ber_length_long [of v]
    by (cases "v \<le> 127") (auto simp: encodable_length_def encode_ber_length_def klv_constants)
qed

lemma decode_ber_length_step:
  assumes "n < length buf"
  shows "decode_ber_length buf (int n) =
    (let first = uint (buf ! n); count = nat (first - 128);
         payload = drop (Suc n) (take (Suc n + count) buf); len = be_value payload in
     if first \<le> 127 then Inr (first, int (Suc n))
     else if first = 128 then Inl (KLVFramingError (LengthIndefinite (int n)))
     else if length payload < count
       then Inl (KLVFramingError (LengthTruncated (int n) (buf ! n) (length payload)))
     else if len \<le> 127 then Inl (KLVFramingError (LengthShortable (int n) (buf ! n) len))
     else if payload ! 0 = 0 then Inl (KLVFramingError (LengthPadded (int (Suc n)) len))
     else Inr (len, int (Suc n + count)))"
proof -
  let ?x = "uint (buf ! n)"
  have x: "0 \<le> ?x" "?x < 256" by simp_all
  show ?thesis
  proof (cases "?x \<le> 127")
    case True
    then show ?thesis using assms
      by (simp add: decode_ber_length_def klv_constants Let_def)
  next
    case False
    then have "?x mod 128 = ?x - 128" using x by presburger
    then have c: "?x AND 127 = int (nat (?x - 128))" using False by (simp add: and_mask_int)
    have at: "int n + 1 + int k = int (Suc n + k)" for k by simp
    have sl: "py_slice buf (int n + 1) (int (Suc n + k)) = drop (Suc n) (take (Suc n + k) buf)" for k
    proof -
      have "int n + 1 = int (Suc n)" by simp
      then show ?thesis by (simp only: py_slice_int)
    qed
    have cmp: "int a < int b \<longleftrightarrow> a < b" "int n + 1 = int (Suc n)" for a b by simp_all
    show ?thesis
      unfolding decode_ber_length_def klv_constants Let_def py_get_int if_P [OF assms]
        option.case c at sl cmp(1)
      using assms False by (simp only: cmp(2)) simp
  qed
qed

interpretation len: prefix_codec length_octets decode_ber_length encodable_length
proof unfold_locales
  fix v :: int and pre post :: bytes
  assume ok: "encodable_length v"
  then have v: "0 \<le> v" "v < 256 ^ 127" by (simp_all only: encodable_length_iff)
  show "decode_ber_length (pre @ length_octets v @ post) (int (length pre)) =
      Inr (v, int (length pre + length (length_octets v)))"
  proof (cases "v \<le> 127")
    case True
    with v have "length_octets v = [word_of_int v]"
      by (simp add: length_octets_def encode_ber_length_def klv_constants)
    with v True show ?thesis
      by (subst decode_ber_length_step) (auto simp: Let_def nth_append uint_word_of_int_byte)
  next
    case False
    then obtain c where c: "0 < c" "c \<le> 127" "256 ^ (c - 1) \<le> v" "v < 256 ^ c"
      and e: "encode_ber_length v = Inr (word_of_nat (0x80 OR c) # to_be c v)"
      using encode_ber_length_long [of v] v(2) by auto
    have u: "uint (word_of_nat (0x80 OR c) :: byte) = 128 + int c"
      using c(2) by (intro uint_high_octet) simp
    have val: "be_value (to_be c v) = v" using v(1) c(4) by (rule be_value_to_be)
    have "to_be c v ! 0 \<noteq> 0"
    proof
      assume z: "to_be c v ! 0 = 0"
      obtain b bs where b: "to_be c v = b # bs" and l: "length bs = c - 1"
        using c(1) length_to_be [of c v] by (cases "to_be c v") auto
      from z b have "b = 0" by simp
      then have "be_value (b # bs) = be_value bs" by (simp add: be_value_Cons)
      with be_value_bounds [of bs] val b l c(3) show False by simp
    qed
    with u val c False show ?thesis
      by (subst decode_ber_length_step) (auto simp: length_octets_def e Let_def nth_append)
  qed
next
  fix buf n v m
  assume d: "decode_ber_length buf (int n) = Inr (v, m)"
  then have n: "n < length buf" by (auto simp: decode_ber_length_def split: if_splits)
  let ?x = "uint (buf ! n)"
  have x: "0 \<le> ?x" "?x < 256" by simp_all
  have dr: "drop n buf = buf ! n # drop (Suc n) buf" using n by (simp add: Cons_nth_drop_Suc)
  show "encodable_length v \<and> m = int (n + length (length_octets v)) \<and>
      take (length (length_octets v)) (drop n buf) = length_octets v"
  proof (cases "?x \<le> 127")
    case True
    with d n have "v = ?x" "m = int (Suc n)" by (auto simp: decode_ber_length_step Let_def)
    then have "encode_ber_length v = Inr [buf ! n]" and "m = int (Suc n)"
      using True by (simp_all add: encode_ber_length_def klv_constants)
    with dr show ?thesis by (simp add: encodable_length_def length_octets_def)
  next
    case False
    define c where "c = nat (?x - 128)"
    let ?p = "drop (Suc n) (take (Suc n + c) buf)"
    have r: "\<not> ?x = 128" "\<not> length ?p < c" "\<not> be_value ?p \<le> 127" "?p ! 0 \<noteq> 0"
      "v = be_value ?p" "m = int (Suc n + c)"
      using d n False by (auto simp: decode_ber_length_step Let_def c_def split: if_splits)
    have xc: "?x = 128 + int c" using False by (simp add: c_def)
    with r(1) x(2) have c: "0 < c" "c \<le> 127" by linarith+
    have lp: "length ?p = c" using r(2) by simp
    then obtain b bs where b: "?p = b # bs"
      using c(1) by (cases ?p) auto
    then have l: "length bs = c - 1" using arg_cong [OF b, of length] lp by simp
    have "uint b \<noteq> 0" using r(4) b by (simp add: byte_eq_iff)
    then have "1 \<le> uint b" using uint_byte_bounds(1) [of b] by linarith
    then have "1 * 256 ^ (c - 1) \<le> uint b * 256 ^ (c - 1)"
      by (rule mult_right_mono) simp
    moreover have "v = uint b * 256 ^ (c - 1) + be_value bs"
      using r(5) b l by (simp add: be_value_Cons)
    ultimately have lo: "256 ^ (c - 1) \<le> v"
      using be_value_bounds [of bs] by linarith
    have hi: "v < 256 ^ c" using be_value_bounds [of ?p] lp r(5) by simp
    have cnt: "(bit_length (nat v) + 7) div 8 = c"
      using lo hi c(1) r(3,5) by (intro byte_count_unique) auto
    have "uint (word_of_nat (0x80 OR c) :: byte) = ?x"
      using c(2) xc by (subst uint_high_octet) auto
    then have "word_of_nat (0x80 OR c) = buf ! n" by (simp add: byte_eq_iff)
    moreover have "to_be c v = ?p" using to_be_be_value [of ?p] lp r(5) by simp
    ultimately have e: "encode_ber_length v = Inr (buf ! n # ?p)"
      using r(3,5) c cnt by (simp add: encode_ber_length_def klv_constants Let_def)
    have "take (Suc c) (drop n buf) = buf ! n # ?p"
      using dr by (simp add: take_drop add.commute)
    with e r(6) lp show ?thesis by (simp add: encodable_length_def length_octets_def)
  qed
next
  fix v assume "encodable_length v"
  then show "length_octets v \<noteq> []"
    by (auto simp: encodable_length_def length_octets_def encode_ber_length_def Let_def split: if_splits)
qed

section \<open>The walk\<close>

text \<open>
  A packet assembled from items: the key, the length of the value, and for each item its tag,
  its length and its octets. \<open>placed\<close> is what the walk reports for items laid out from an
  offset.
\<close>

definition item_octets :: "int \<times> bytes \<Rightarrow> bytes" where
  "item_octets it = oid_octets (fst it) @ length_octets (int (length (snd it))) @ snd it"

definition items_octets :: "(int \<times> bytes) list \<Rightarrow> bytes" where
  "items_octets its = concat (map item_octets its)"

definition packet_octets :: "(int \<times> bytes) list \<Rightarrow> bytes" where
  "packet_octets its =
     UAS_LOCAL_SET_KEY @ length_octets (int (length (items_octets its))) @ items_octets its"

definition item_ok :: "int \<times> bytes \<Rightarrow> bool" where
  "item_ok it \<longleftrightarrow> 0 \<le> fst it \<and> encodable_length (int (length (snd it)))"

fun placed :: "nat \<Rightarrow> (int \<times> bytes) list \<Rightarrow> local_set_item list" where
  "placed n [] = []"
| "placed n (it # its) =
     (let v = n + length (oid_octets (fst it)) + length (length_octets (int (length (snd it))))
      in \<lparr>tag = fst it, item_length = int (length (snd it)), item_value = snd it,
          tag_offset = int n, value_offset = int v\<rparr> # placed (v + length (snd it)) its)"

lemma items_octets_simps [simp]:
  "items_octets [] = []"
  "items_octets (it # its) = item_octets it @ items_octets its"
  by (simp_all add: items_octets_def)

lemma walk_items_step:
  assumes "decode_ber_oid buf i = Inr (t, c1)" and "decode_ber_length buf c1 = Inr (l, c2)"
    and "i < end_at" and "c2 + l \<le> end_at"
  shows "walk_items buf end_at i =
    (let rest = walk_items buf end_at (c2 + l)
     in (\<lparr>tag = t, item_length = l, item_value = py_slice buf c2 (c2 + l),
          tag_offset = i, value_offset = c2\<rparr> # fst rest, snd rest))"
  using assms by (subst walk_items.simps) simp

text \<open>Well-formed items are read one by one, whatever follows them in the value.\<close>

lemma walk_items_prefix:
  assumes "\<forall>it \<in> set its. item_ok it"
    and "int (length pre + length (items_octets its)) \<le> end_at"
    and "end_at \<le> int (length (pre @ items_octets its @ post))"
  shows "walk_items (pre @ items_octets its @ post) end_at (int (length pre)) =
    (let rest = walk_items (pre @ items_octets its @ post) end_at
                  (int (length pre + length (items_octets its)))
     in (placed (length pre) its @ fst rest, snd rest))"
  using assms
proof (induction its arbitrary: pre)
  case (Cons it its)
  obtain t v where it: "it = (t, v)" by force
  let ?buf = "pre @ items_octets (it # its) @ post"
  let ?o = "oid_octets t" and ?l = "length_octets (int (length v))"
  have ok: "0 \<le> t" "encodable_length (int (length v))"
    using Cons.prems(1) it by (auto simp: item_ok_def)
  have buf: "?buf = pre @ ?o @ (?l @ v @ items_octets its @ post)"
    "?buf = (pre @ ?o) @ ?l @ (v @ items_octets its @ post)"
    "?buf = (pre @ ?o @ ?l @ v) @ items_octets its @ post"
    by (simp_all add: it item_octets_def)
  have 1: "decode_ber_oid ?buf (int (length pre)) = Inr (t, int (length pre + length ?o))"
    using oid.dec_enc [OF ok(1), of pre "?l @ v @ items_octets its @ post"] buf(1) by simp
  have 2: "decode_ber_length ?buf (int (length pre + length ?o)) =
      Inr (int (length v), int (length pre + length ?o + length ?l))"
    using len.dec_enc [OF ok(2), of "pre @ ?o" "v @ items_octets its @ post"] buf(2) by simp
  have 3: "py_slice ?buf (int (length pre + length ?o + length ?l))
      (int (length pre + length ?o + length ?l) + int (length v)) = v"
  proof -
    have e: "int (length pre + length ?o + length ?l) + int (length v) =
        int (length pre + length ?o + length ?l + length v)" by simp
    show ?thesis unfolding e py_slice_int by (simp add: it item_octets_def)
  qed
  have pos: "0 < length ?o" using oid.enc_nonempty [OF ok(1)] by simp
  have len_its: "length (items_octets (it # its)) =
      length ?o + length ?l + length v + length (items_octets its)"
    by (simp add: it item_octets_def)
  have IH: "walk_items ?buf end_at (int (length (pre @ ?o @ ?l @ v))) =
    (let rest = walk_items ?buf end_at
                  (int (length (pre @ ?o @ ?l @ v) + length (items_octets its)))
     in (placed (length (pre @ ?o @ ?l @ v)) its @ fst rest, snd rest))"
    using Cons.IH [of "pre @ ?o @ ?l @ v"] Cons.prems buf(3) len_its by (simp add: add.assoc)
  have next_at: "int (length pre + length ?o + length ?l) + int (length v) =
      int (length (pre @ ?o @ ?l @ v))" by simp
  have lt: "int (length pre) < end_at"
    "int (length pre + length ?o + length ?l) + int (length v) \<le> end_at"
    using Cons.prems(2) len_its pos by linarith+
  have tot: "int (length (pre @ ?o @ ?l @ v) + length (items_octets its)) =
      int (length pre + length (items_octets (it # its)))"
    using len_its by simp
  have nat_at: "length (pre @ ?o @ ?l @ v) = length pre + length ?o + length ?l + length v" by simp
  show ?case
    unfolding walk_items_step [OF 1 2 lt] 3 unfolding next_at IH tot
    by (simp add: it Let_def nat_at del: length_append)
qed (simp add: Let_def)

lemma walk_items_end: "walk_items buf end_at end_at = ([], None)"
  by (subst walk_items.simps) simp

lemma read_local_set_key_at:
  "read_local_set_key (pre @ UAS_LOCAL_SET_KEY @ post) (int (length pre)) = Inr (int (length pre + 16))"
proof -
  have k: "int (length pre) + int KEY_LENGTH = int (length pre + 16)"
    by (simp add: KEY_LENGTH_def)
  have "length UAS_LOCAL_SET_KEY = 16" by (simp add: klv_constants)
  then have "py_slice (pre @ UAS_LOCAL_SET_KEY @ post) (int (length pre)) (int (length pre + 16)) =
      UAS_LOCAL_SET_KEY"
    by (subst py_slice_int) simp
  then show ?thesis
    unfolding read_local_set_key_def k by (simp add: Let_def klv_constants)
qed

lemma walk_local_set_unfold:
  assumes "encodable_length (int (length body))"
  defines "l \<equiv> length_octets (int (length body))"
  shows "walk_local_set (pre @ UAS_LOCAL_SET_KEY @ l @ body @ post) (int (length pre)) =
    walk_items (pre @ UAS_LOCAL_SET_KEY @ l @ body @ post)
      (int (length pre + 16 + length l + length body)) (int (length pre + 16 + length l))"
proof -
  let ?buf = "pre @ UAS_LOCAL_SET_KEY @ l @ body @ post"
  have "length UAS_LOCAL_SET_KEY = 16" by (simp add: klv_constants)
  then have "decode_ber_length ?buf (int (length pre + 16)) =
      Inr (int (length body), int (length pre + 16 + length l))"
    using len.dec_enc [OF assms(1), of "pre @ UAS_LOCAL_SET_KEY" "body @ post"]
    by (simp add: l_def)
  moreover have "int (length pre + 16 + length l) + int (length body) =
      int (length pre + 16 + length l + length body)" by simp
  moreover have "\<not> int (length ?buf) < int (length pre + 16 + length l + length body)"
    by (simp add: klv_constants)
  ultimately show ?thesis
    unfolding walk_local_set_def read_local_set_key_at sum.case prod.case Let_def
    by (simp only: sum.case prod.case if_False)
qed

text \<open>
  What a completed walk says about the octets it read: they are the re-encoding of its items.
\<close>

lemma walk_items_inverse:
  assumes "walk_items buf (int e) (int i) = (items, None)" and "i \<le> e" and "e \<le> length buf"
  shows "(\<forall>it \<in> set items. item_ok (tag it, item_value it)) \<and>
    take (e - i) (drop i buf) = items_octets (map (\<lambda>it. (tag it, item_value it)) items)"
  using assms
proof (induction "e - i" arbitrary: i items rule: less_induct)
  case less
  show ?case
  proof (cases "i < e")
    case False
    with less.prems show ?thesis by (subst (asm) walk_items.simps) auto
  next
    case True
    from less.prems(1) True obtain t c1 l c2 where
      d: "decode_ber_oid buf (int i) = Inr (t, c1)" "decode_ber_length buf c1 = Inr (l, c2)"
        "c2 + l \<le> int e"
      by (subst (asm) walk_items.simps) (auto split: sum.splits if_splits)
    note o = oid.dec_within [OF d(1)] oid.enc_dec [OF d(1)]
    obtain n1 where n1: "c1 = int n1" "n1 = i + length (oid_octets t)" using o(2) by auto
    note k = len.dec_within [OF d(2) [unfolded n1(1)]] len.enc_dec [OF d(2) [unfolded n1(1)]]
    obtain n2 where n2: "c2 = int n2" "n2 = n1 + length (length_octets l)" using k(2) by auto
    from k(2) have "0 \<le> l" by (simp add: encodable_length_iff)
    then obtain m where m: "l = int m" using nonneg_int_cases by blast
    let ?v = "take m (drop n2 buf)"
    have lv: "length ?v = m" using d(3) less.prems(3) n2 m by simp
    have sum: "int n2 + int m = int (n2 + m)" by simp
    have step: "walk_items buf (int e) (int i) =
      (let rest = walk_items buf (int e) (int (n2 + m))
       in (\<lparr>tag = t, item_length = l, item_value = ?v, tag_offset = int i, value_offset = c2\<rparr> # fst rest,
           snd rest))"
    proof -
      have "py_slice buf c2 (c2 + l) = ?v"
        unfolding n2(1) m sum py_slice_int by (simp add: take_drop add.commute)
      with walk_items_step [OF d(1,2) _ d(3)] True show ?thesis by (simp add: n2(1) m)
    qed
    obtain rest where items: "items = \<lparr>tag = t, item_length = l, item_value = ?v,
        tag_offset = int i, value_offset = c2\<rparr> # rest"
      and rest: "walk_items buf (int e) (int (n2 + m)) = (rest, None)"
      using less.prems(1) step by (cases "walk_items buf (int e) (int (n2 + m))") (auto simp: Let_def)
    have le: "n2 + m \<le> e" using d(3) n2(1) m by simp
    have "i < n2 + m" using o(1) k(1) n1(1) n2(1) by linarith
    then have "e - (n2 + m) < e - i" using True le by linarith
    from less.hyps [OF this rest le less.prems(3)] have
      IH: "\<forall>it \<in> set rest. item_ok (tag it, item_value it)"
        "take (e - (n2 + m)) (drop (n2 + m) buf) =
          items_octets (map (\<lambda>it. (tag it, item_value it)) rest)" by auto
    have "take (e - i) (drop i buf) = take (length (oid_octets t)) (drop i buf) @
        take (length (length_octets l)) (drop n1 buf) @ ?v @ take (e - (n2 + m)) (drop (n2 + m) buf)"
    proof -
      have "e - i = length (oid_octets t) + (length (length_octets l) + (m + (e - (n2 + m))))"
        using n1 n2 le by linarith
      moreover have "n2 + m = m + (length (length_octets l) + (length (oid_octets t) + i))"
        "n2 = length (length_octets l) + (length (oid_octets t) + i)"
        "n1 = length (oid_octets t) + i"
        using n1 n2 by linarith+
      ultimately show ?thesis by (simp only: take_add drop_drop) 
    qed
    then have "take (e - i) (drop i buf) =
        items_octets (map (\<lambda>it. (tag it, item_value it)) items)"
      using o(2) k(2) IH(2) items lv m by (simp add: item_octets_def)
    moreover have "item_ok (t, ?v)" using o(2) k(2) lv m by (simp add: item_ok_def)
    ultimately show ?thesis using IH(1) items by auto
  qed
qed

section \<open>Properties\<close>

text \<open>
  C1. A packet assembled from any items (tags non-negative, lengths the encoder accepts),
  standing anywhere in a buffer, is walked to its end without an error and yields exactly those
  items, each with the offsets it stands at.
\<close>

theorem walk_reads_packet:
  assumes "\<forall>it \<in> set its. item_ok it" and "encodable_length (int (length (items_octets its)))"
  shows "walk_local_set (pre @ packet_octets its @ post) (int (length pre)) =
    (placed (length pre + 16 + length (length_octets (int (length (items_octets its))))) its, None)"
proof -
  let ?l = "length_octets (int (length (items_octets its)))"
  let ?pre = "pre @ UAS_LOCAL_SET_KEY @ ?l"
  have k: "length ?pre = length pre + 16 + length ?l" by (simp add: klv_constants)
  have "walk_items (?pre @ items_octets its @ post)
      (int (length ?pre + length (items_octets its))) (int (length ?pre)) =
      (placed (length ?pre) its, None)"
    using walk_items_prefix [OF assms(1), of ?pre "int (length ?pre + length (items_octets its))" post]
    by (simp add: walk_items_end Let_def)
  with walk_local_set_unfold [OF assms(2), of pre post] show ?thesis
    unfolding k by (simp add: packet_octets_def)
qed

text \<open>
  C2. Whenever a walk ends without an error, the octets it consumed are exactly the canonical
  assembly of the items it yielded: no other spelling of a packet is accepted.
\<close>

theorem walk_accepts_only_assembled_packets:
  assumes "walk_local_set buf (int n) = (items, None)"
  shows "\<exists>post. buf = take n buf @ packet_octets (map (\<lambda>it. (tag it, item_value it)) items) @ post"
proof -
  from assms obtain c0 where key: "read_local_set_key buf (int n) = Inr c0"
    by (auto simp: walk_local_set_def split: sum.splits)
  have sixteen: "int n + int KEY_LENGTH = int (n + 16)" by (simp add: KEY_LENGTH_def)
  from key have sl: "drop n (take (n + 16) buf) = UAS_LOCAL_SET_KEY" and c0: "c0 = int (n + 16)"
    unfolding read_local_set_key_def sixteen py_slice_int by (auto simp: Let_def split: if_splits)
  from assms key c0 obtain l c1 where l: "decode_ber_length buf (int (n + 16)) = Inr (l, c1)"
    and within: "c1 + l \<le> int (length buf)" and w: "walk_items buf (c1 + l) c1 = (items, None)"
    by (auto simp: walk_local_set_def Let_def split: sum.splits if_splits)
  note k = len.enc_dec [OF l]
  from k have "0 \<le> l" by (simp add: encodable_length_iff)
  then obtain m where m: "l = int m" using nonneg_int_cases by blast
  define i where "i = n + 16 + length (length_octets l)"
  have c1: "c1 = int i" using k by (simp add: i_def)
  have sum: "int i + int m = int (i + m)" by simp
  have body: "take m (drop i buf) = items_octets (map (\<lambda>it. (tag it, item_value it)) items)"
    using walk_items_inverse [of buf "i + m" i items] w within by (simp add: c1 m)
  have "length (take m (drop i buf)) = m" using within c1 m by simp
  then have lb: "length (items_octets (map (\<lambda>it. (tag it, item_value it)) items)) = m"
    by (simp only: body)
  have "buf = take n buf @ drop n buf" by simp
  also have "drop n buf = take 16 (drop n buf) @ take (length (length_octets l)) (drop (n + 16) buf) @
      take m (drop i buf) @ drop (i + m) buf"
    by (metis append_take_drop_id drop_drop add.commute i_def)
  finally have "buf = take n buf @ packet_octets (map (\<lambda>it. (tag it, item_value it)) items) @
      drop (i + m) buf"
    using sl k lb body m by (simp add: packet_octets_def take_drop add.commute)
  then show ?thesis by blast
qed

text \<open>
  C3. Reading a BER length is exactly the inverse of writing one: the decoder returns \<open>v\<close> at
  an offset precisely when the octets there are the encoder's own octets of \<open>v\<close>. So every
  value has one accepted spelling, and padded or long forms of short values are refused.
\<close>

theorem decode_ber_length_exact:
  "decode_ber_length buf (int n) = Inr (v, m) \<longleftrightarrow>
   (\<exists>bs. encode_ber_length v = Inr bs \<and> take (length bs) (drop n buf) = bs \<and>
      m = int (n + length bs))"
proof
  assume d: "decode_ber_length buf (int n) = Inr (v, m)"
  from len.enc_dec [OF d] obtain bs where "encode_ber_length v = Inr bs" "length_octets v = bs"
    by (auto simp: encodable_length_def length_octets_def)
  with len.enc_dec [OF d] show "\<exists>bs. encode_ber_length v = Inr bs \<and>
      take (length bs) (drop n buf) = bs \<and> m = int (n + length bs)" by auto
next
  assume "\<exists>bs. encode_ber_length v = Inr bs \<and> take (length bs) (drop n buf) = bs \<and>
    m = int (n + length bs)"
  then obtain bs where bs: "encode_ber_length v = Inr bs" "take (length bs) (drop n buf) = bs"
    "m = int (n + length bs)" by blast
  then have ok: "encodable_length v" and oc: "length_octets v = bs"
    by (auto simp: encodable_length_def length_octets_def)
  have "bs \<noteq> []" using len.enc_nonempty [OF ok] oc by simp
  with bs(2) have n: "n \<le> length buf" by (cases "n \<le> length buf") auto
  have "buf = take n buf @ bs @ drop (length bs) (drop n buf)"
    using bs(2) by (metis append_take_drop_id)
  with len.dec_enc [OF ok, of "take n buf" "drop (length bs) (drop n buf)"] oc n bs(3)
  show "decode_ber_length buf (int n) = Inr (v, m)" by simp
qed

text \<open>
  The same for tags: a BER-OID value is returned at an offset precisely when the octets
  there are its one minimal spelling, of whatever width.
\<close>

theorem decode_ber_oid_exact:
  "decode_ber_oid buf (int n) = Inr (v, m) \<longleftrightarrow>
   (\<exists>bs. encode_ber_oid v = Inr bs \<and> take (length bs) (drop n buf) = bs \<and>
      m = int (n + length bs))"
proof
  assume d: "decode_ber_oid buf (int n) = Inr (v, m)"
  from oid.enc_dec [OF d] have "0 \<le> v" by simp
  then obtain bs where "encode_ber_oid v = Inr bs" "oid_octets v = bs"
    by (rule oid_octets_groups) (auto simp: oid_octets_def)
  with oid.enc_dec [OF d] show "\<exists>bs. encode_ber_oid v = Inr bs \<and>
      take (length bs) (drop n buf) = bs \<and> m = int (n + length bs)" by auto
next
  assume "\<exists>bs. encode_ber_oid v = Inr bs \<and> take (length bs) (drop n buf) = bs \<and>
    m = int (n + length bs)"
  then obtain bs where bs: "encode_ber_oid v = Inr bs" "take (length bs) (drop n buf) = bs"
    "m = int (n + length bs)" by blast
  then have ok: "0 \<le> v" and oc: "oid_octets v = bs"
    by (auto simp: encode_ber_oid_def oid_octets_def split: if_splits)
  have "bs \<noteq> []" using oid.enc_nonempty [OF ok] oc by simp
  with bs(2) have n: "n \<le> length buf" by (cases "n \<le> length buf") auto
  have "buf = take n buf @ bs @ drop (length bs) (drop n buf)"
    using bs(2) by (metis append_take_drop_id)
  with oid.dec_enc [OF ok, of "take n buf" "drop (length bs) (drop n buf)"] oc n bs(3)
  show "decode_ber_oid buf (int n) = Inr (v, m)" by simp
qed

text \<open>The checksum as the standard words it: big-endian 16-bit words summed modulo \<open>2 ^ 16\<close>.\<close>

fun word_sum :: "bytes \<Rightarrow> int" where
  "word_sum [] = 0"
| "word_sum [a] = 256 * uint a"
| "word_sum (a # b # bs) = 256 * uint a + uint b + word_sum bs"

definition bcc_fold :: "bytes \<Rightarrow> int \<Rightarrow> nat list \<Rightarrow> int" where
  "bcc_fold buf a is = foldl (\<lambda>bcc i. bcc + push_bit (8 * ((i + 1) mod 2)) (uint (buf ! i))) a is"

lemma bcc_fold_simps [simp]:
  "bcc_fold buf a [] = a"
  "bcc_fold buf a (i # is) = bcc_fold buf (a + uint (buf ! i) * 2 ^ (8 * ((i + 1) mod 2))) is"
  by (simp_all add: bcc_fold_def push_bit_eq_mult)

lemma bcc_fold_word_sum:
  "even i \<Longrightarrow> i + length bs \<le> length buf \<Longrightarrow> take (length bs) (drop i buf) = bs \<Longrightarrow>
   bcc_fold buf a [i..<i + length bs] = a + word_sum bs"
proof (induction bs arbitrary: a i rule: word_sum.induct)
  case (2 b)
  then have "i < length buf" by simp
  then have "take 1 (drop i buf) = [buf ! i]" by (simp add: take_Suc_conv_app_nth)
  then have "buf ! i = b" using "2.prems"(3) by simp
  moreover from \<open>even i\<close> have "Suc i mod 2 = 1" by presburger
  ultimately show ?case by simp
next
  case (3 b c bs)
  have dr: "drop i buf = buf ! i # buf ! Suc i # drop (Suc (Suc i)) buf"
    using "3.prems"(2) by (simp add: Cons_nth_drop_Suc)
  then have e: "buf ! i = b" "buf ! Suc i = c" "take (length bs) (drop (Suc (Suc i)) buf) = bs"
    using "3.prems"(3) by simp_all
  have up: "[i..<i + length (b # c # bs)] = i # Suc i # [Suc (Suc i)..<Suc (Suc i) + length bs]"
    by (simp add: upt_rec)
  from \<open>even i\<close> have "Suc i mod 2 = 1" "Suc (Suc i) mod 2 = 0" by presburger+
  with "3.IH" [of "Suc (Suc i)" "a + 256 * uint b + uint c"] "3.prems" e show ?case
    unfolding up by (simp del: upt_Suc add: mult.commute)
qed simp

text \<open>
  The checksum loop computes the 16-bit sum of the big-endian words of the range, an odd
  last octet counting as a high octet, for every range inside the buffer.
\<close>

theorem bcc_16_is_word_sum:
  assumes "n \<le> length buf"
  shows "bcc_16 buf (Some (int n)) = Inr (word_sum (take n buf) mod 65536)"
proof -
  have "bcc_fold buf 0 [0..<n] = word_sum (take n buf)"
    using bcc_fold_word_sum [of 0 "take n buf" buf 0] assms by simp
  with assms show ?thesis by (simp add: bcc_16_def bcc_fold_def and_mask_int Let_def)
qed

section \<open>Witnesses\<close>

lemma walk_reads_packet_witness:
  "walk_local_set (0xFF # packet_octets [(2, [1, 2, 3]), (200, [])] @ [9]) 1 =
    (placed 18 [(2, [1, 2, 3]), (200, [])], None)"
proof -
  have l: "encodable_length 0" "encodable_length 3" "encodable_length 8"
    by (simp_all add: encodable_length_iff)
  have o: "length_octets 3 = [3]" "length_octets 0 = [0]" "oid_octets 2 = [2]"
    by (simp_all add: length_octets_def encode_ber_length_def klv_constants oid_octets_def
        encode_ber_oid_def)
  have "oid_octets 200 = [0x81, 0x48]"
    by (simp add: oid_octets_def encode_ber_oid_def klv_constants ber_oid_groups_pos flag_or_nat)
  with o have body: "items_octets [(2, [1, 2, 3]), (200, [])] = [2, 3, 1, 2, 3, 0x81, 0x48, 0]"
    by (simp add: item_octets_def)
  have "length_octets 8 = [8]"
    by (simp add: length_octets_def encode_ber_length_def klv_constants)
  with l body show ?thesis
    using walk_reads_packet [of "[(2, [1, 2, 3]), (200, [])]" "[0xFF]" "[9]"]
    by (simp add: item_ok_def)
qed

lemma walk_accepts_only_assembled_packets_witness:
  "\<exists>post. UAS_LOCAL_SET_KEY @ [0] = packet_octets [] @ post"
proof -
  have "walk_local_set (UAS_LOCAL_SET_KEY @ [0]) (int 0) = ([], None)"
    using walk_local_set_unfold [of "[]" "[]" "[]"]
    by (simp add: encodable_length_iff length_octets_def encode_ber_length_def klv_constants
        walk_items_end)
  from walk_accepts_only_assembled_packets [OF this] show ?thesis by simp
qed

lemma bcc_16_is_word_sum_witness:
  "bcc_16 [0x06, 0x0E, 0x2B, 0x34, 0x02, 0x00, 0x81, 0xBB] (Some 8) = Inr 0xB4FD"
  using bcc_16_is_word_sum [of 8 "[0x06, 0x0E, 0x2B, 0x34, 0x02, 0x00, 0x81, 0xBB]"] by simp

end
