(* ===== verification/Bit_Fields.thy ===== *)
theory Bit_Fields
  imports Interfaces
begin

text \<open>
  Bit fields of an unsigned integer as binary formats number them (bit 1 is the least significant),
  packing them again, lists of single bits, and hexadecimal text. \<open>join_fields\<close> is the step on which
  the item codecs rest: two neighbouring fields, each shifted to its place, are one field.
\<close>

unbundle bit_operations_syntax

section \<open>Fields\<close>

definition bits :: "int \<Rightarrow> nat \<Rightarrow> nat \<Rightarrow> int" where
  "bits value high low = drop_bit (low - 1) value AND (push_bit (high - low + 1) 1 - 1)"

definition flag :: "int \<Rightarrow> nat \<Rightarrow> bool" where
  "flag value at \<longleftrightarrow> bits value at at \<noteq> 0"

lemma bits_take_bit: "bits v high low = take_bit (high - low + 1) (drop_bit (low - 1) v)"
  by (simp add: bits_def take_bit_eq_mask mask_eq_exp_minus_1 push_bit_eq_mult)

lemma bits_nonneg [simp]: "0 \<le> bits v high low"
  by (simp add: bits_take_bit)

lemma bits_less [simp]: "bits v high low < 2 ^ (high - low + 1)"
  unfolding bits_take_bit by (rule take_bit_int_less_exp)

lemma bits_full: "0 \<le> v \<Longrightarrow> v < 2 ^ w \<Longrightarrow> 0 < w \<Longrightarrow> bits v w (Suc 0) = v"
  by (simp add: bits_take_bit take_bit_int_eq_self)

lemma bits_single: "bits v k k = of_bool (bit v (k - 1))"
  by (simp add: bits_take_bit take_bit_Suc mod_2_eq_odd bit_iff_odd_drop_bit)

lemma of_bool_flag [simp]: "of_bool (flag v k) = bits v k k"
  by (simp add: flag_def bits_single)

text \<open>The least bits of \<open>v\<close> down to \<open>l\<close>, left in their place.\<close>

definition upper :: "int \<Rightarrow> nat \<Rightarrow> nat \<Rightarrow> int" where
  "upper v high l = push_bit l (bits v high (Suc l))"

lemma bit_bits: "bit (bits v high low) i \<longleftrightarrow> i < high - low + 1 \<and> bit v (low - 1 + i)"
  by (auto simp: bits_take_bit bit_take_bit_iff bit_drop_bit_eq)

lemma bit_upper: "bit (upper v high l) i \<longleftrightarrow> l \<le> i \<and> i < max high (Suc l) \<and> bit v i"
  by (auto simp: upper_def bit_push_bit_iff_int bit_bits)

lemma first_field: "l' = Suc l \<Longrightarrow> push_bit l (bits v high l') = upper v high l"
  by (simp add: upper_def)

lemma lowest_field: "bits v high (Suc 0) = upper v high 0" "bits v high 1 = upper v high 0"
  by (simp_all add: upper_def)

lemma join_upper:
  assumes "l \<le> k" "k < high"
  shows "upper v high k OR upper v k l = upper v high l"
  using assms by (intro bit_eqI) (auto simp: bit_or_iff bit_upper)

lemma upper_whole: "0 \<le> v \<Longrightarrow> v < 2 ^ w \<Longrightarrow> 0 < w \<Longrightarrow> upper v w 0 = v"
  by (simp add: upper_def bits_full)

text \<open>The continuation bit under an octet's fields.\<close>

lemma upper_octet:
  assumes "0 \<le> v" "v < 256"
  shows "upper v 8 1 OR of_bool (bit v 0) = v"
proof -
  have "of_bool (bit v 0) = upper v 1 0"
    by (simp add: upper_def bits_take_bit take_bit_Suc bit_0 mod_2_eq_odd)
  then show ?thesis using join_upper [of 0 1 8 v] upper_whole [of v 8] assms by simp
qed

section \<open>Single bits\<close>

lemma and_one: "(v :: int) AND 1 = of_bool (bit v 0)"
  by (simp add: and_one_eq bit_0 mod_2_eq_odd)

lemma and_single: "(v :: int) AND push_bit k 1 = push_bit k (of_bool (bit v k))"
  by (intro bit_eqI) (auto simp: bit_and_iff bit_push_bit_iff_int push_bit_of_1 bit_exp_iff bit_1_iff)

definition from_bits :: "int list \<Rightarrow> int" where
  "from_bits bs = foldl (\<lambda>raw b. push_bit 1 raw OR (b AND 1)) 0 bs"

lemma from_bits_snoc [simp]: "from_bits (bs @ [b]) = push_bit 1 (from_bits bs) OR (b AND 1)"
  by (simp add: from_bits_def)

lemma from_bits_of: "from_bits (map (\<lambda>i. drop_bit (n - Suc i) v AND 1) [0..<k]) = take_bit k (drop_bit (n - k) v)"
  if "k \<le> n" for v :: int
  using that
proof (induction k)
  case 0
  then show ?case by (simp add: from_bits_def)
next
  case (Suc k)
  define u where "u = drop_bit (n - Suc k) v"
  have "drop_bit (n - k) v = drop_bit 1 u"
  proof -
    from Suc.prems have "n - k = 1 + (n - Suc k)" by simp
    then show ?thesis by (simp only: u_def drop_bit_drop_bit)
  qed
  moreover have "push_bit 1 (take_bit k (drop_bit 1 u)) OR ((u AND 1) AND 1) = take_bit (Suc k) u"
  proof (rule bit_eqI)
    fix i
    show "bit (push_bit 1 (take_bit k (drop_bit 1 u)) OR ((u AND 1) AND 1)) i \<longleftrightarrow> bit (take_bit (Suc k) u) i"
      unfolding bit_or_iff bit_push_bit_iff_int bit_take_bit_iff bit_drop_bit_eq bit_and_iff bit_1_iff
      by (cases i) auto
  qed
  ultimately show ?case using Suc by (simp add: u_def)
qed

section \<open>Results over a sequence\<close>

fun rmap :: "('a \<Rightarrow> 'e + 'b) \<Rightarrow> 'a list \<Rightarrow> 'e + 'b list" where
  "rmap f [] = Inr []"
| "rmap f (x # xs) = rbind (f x) (\<lambda>y. rbind (rmap f xs) (\<lambda>ys. Inr (y # ys)))"

lemma rmap_Inr: "(\<And>x. x \<in> set xs \<Longrightarrow> f x = Inr (g x)) \<Longrightarrow> rmap f xs = Inr (map g xs)"
  by (induction xs) auto

lemma rmap_nth:
  "length xs = length ys \<Longrightarrow> (\<And>i. i < length xs \<Longrightarrow> f (xs ! i) = Inr (ys ! i)) \<Longrightarrow> rmap f xs = Inr ys"
proof (induction xs ys rule: list_induct2)
  case (Cons x xs y ys)
  from Cons.prems [of 0] have "f x = Inr y" by simp
  moreover have "rmap f xs = Inr ys" using Cons.prems [of "Suc _"] by (intro Cons.IH) simp
  ultimately show ?case by simp
qed simp

lemma rmap_exact:
  "(\<And>x. x \<in> set xs \<Longrightarrow> \<exists>y. f x = Inr y \<and> P x y) \<Longrightarrow> \<exists>ys. rmap f xs = Inr ys \<and> list_all2 P xs ys"
proof (induction xs)
  case (Cons x xs)
  obtain y where "f x = Inr y" "P x y" using Cons.prems [of x] by auto
  moreover obtain ys where "rmap f xs = Inr ys" "list_all2 P xs ys" using Cons.IH Cons.prems by auto
  ultimately show ?case by simp
qed simp

section \<open>Hexadecimal text\<close>

text \<open>\<open>bytes.hex\<close> writes two lower-case digits an octet; \<open>bytes.fromhex\<close> reads digits of
  either case in pairs, with white space between the pairs.\<close>

definition hex_char :: "int \<Rightarrow> char" where
  "hex_char v = (''0123456789abcdef'') ! nat v"

definition hex :: "bytes \<Rightarrow> string" where
  "hex bs = concat (map (\<lambda>b. [hex_char (uint b div 16), hex_char (uint b mod 16)]) bs)"

definition hex_value :: "char \<Rightarrow> int option" where
  "hex_value c =
     (let n = of_char c :: int in
      if 48 \<le> n \<and> n \<le> 57 then Some (n - 48)
      else if 97 \<le> n \<and> n \<le> 102 then Some (n - 87)
      else if 65 \<le> n \<and> n \<le> 70 then Some (n - 55) else None)"

definition hex_space :: "char \<Rightarrow> bool" where
  "hex_space c \<longleftrightarrow> of_char c \<in> {9, 10, 11, 12, 13, 32 :: nat}"

fun fromhex :: "string \<Rightarrow> bytes option" where
  "fromhex [] = Some []"
| "fromhex (c # s) =
     (if hex_space c then fromhex s
      else case s of
        [] \<Rightarrow> None
      | d # s' \<Rightarrow>
          (case (hex_value c, hex_value d) of
             (Some a, Some b) \<Rightarrow> map_option ((#) (word_of_int (a * 16 + b))) (fromhex s')
           | _ \<Rightarrow> None))"

lemma hex_char_read: "0 \<le> v \<Longrightarrow> v < 16 \<Longrightarrow> hex_value (hex_char v) = Some v \<and> \<not> hex_space (hex_char v)"
proof -
  have "\<forall>v \<in> set (map int [0..<16]). hex_value (hex_char v) = Some v \<and> \<not> hex_space (hex_char v)"
    by code_simp
  moreover assume "0 \<le> v" "v < 16"
  then have "v \<in> set (map int [0..<16])" by (auto simp: image_iff intro!: bexI [of _ "nat v"])
  ultimately show ?thesis by blast
qed

lemma fromhex_hex [simp]: "fromhex (hex bs) = Some bs"
proof (induction bs)
  case (Cons b bs)
  have "0 \<le> uint b div 16" "uint b div 16 < 16" "0 \<le> uint b mod 16" "uint b mod 16 < 16"
    using uint_byte_bounds [of b] by (simp_all add: pos_imp_zdiv_nonneg_iff del: uint_byte_bounds)
  then have "hex_value (hex_char (uint b div 16)) = Some (uint b div 16)" "\<not> hex_space (hex_char (uint b div 16))"
    "hex_value (hex_char (uint b mod 16)) = Some (uint b mod 16)"
    using hex_char_read by blast+
  moreover have "uint b div 16 * 16 + uint b mod 16 = uint b" by simp
  ultimately show ?case using Cons by (simp add: hex_def)
qed (simp add: hex_def)

lemma hex_inj: "hex as = hex bs \<longleftrightarrow> as = bs"
  by (metis fromhex_hex option.inject)

end
