(* ===== verification/Cat048_Codec.thy ===== *)
theory Cat048_Codec
  imports Complex_Main Bit_Fields
begin

text \<open>
  The wire codec of ASTERIX category 048, \<^verbatim>\<open>packages/cdm/synapse_cdm/adapters/cat048_codec.py\<close>:
  the FSPEC, big-endian integers, two's complement, the scaled forms and the two alphabets. A
  decoded value is its raw integer times the form's least significant bit. Every such bit is a
  dyadic number of at most six binary digits and every raw value has at most 24, so the product
  of the two doubles is exact, and it is a rational number here.
\<close>

unbundle bit_operations_syntax

datatype codec_fault =
    FspecPastEnd nat nat                  \<comment> \<open>where it starts, octets of the block\<close>
  | FspecTooLong nat byte                 \<comment> \<open>where the fourth octet is, the octet\<close>
  | NoItems
  | FrnsOutside "int list"
  | ReadPastEnd nat nat nat               \<comment> \<open>width, offset, octets of the buffer\<close>
  | UnsignedOutside int nat
  | TwosOutside int nat
  | CharacterUndefined string char

text \<open>
  What the two modules raise: \<open>CodecError\<close>, the refusals of \<open>Cat048ParseError\<close> with the octet, the
  length of the block and the octets the message quotes, and Python's own errors.
\<close>

datatype cat048_refusal =
    FspecRefused nat codec_fault
  | FrnUndefined nat int
  | ItemTruncated nat string nat nat      \<comment> \<open>record, item, octets needed, octets left\<close>
  | MissingItems nat "string list"
  | ModeSItemMissing nat int string       \<comment> \<open>record, TYP, item\<close>
  | ExtensionPastEnd string
  | ExtensionUndefined string nat nat     \<comment> \<open>item, the octet, octets defined\<close>
  | LengthPastEnd string
  | LengthZero
  | SpareSubfields
  | PrimaryExtended string
  | CategoryForeign int
  | LengthDiffers int nat

datatype cat048_error =
    CodecError codec_fault
  | Refused cat048_refusal nat nat bytes
  | BlockTooShort bytes
  | BlockEmpty int bytes
  | ReencodingDiffers string string string
  | Py_IndexError
  | Py_KeyError string
  | Py_ValueError

section \<open>The FSPEC\<close>

definition FSPEC_GROUPS :: nat where "FSPEC_GROUPS = 7"
definition MAX_FSPEC_OCTETS :: nat where "MAX_FSPEC_OCTETS = 4"
definition MAX_FRN :: int where "MAX_FRN = 28"
definition FX :: int where "FX = 0x01"

definition group_frns :: "nat \<Rightarrow> int \<Rightarrow> int list" where
  "group_frns base octet =
     map (\<lambda>bit. int (base + (8 - bit))) (filter (\<lambda>bit. octet AND push_bit bit 1 \<noteq> 0) (rev [1..<8]))"

function fspec_loop :: "bytes \<Rightarrow> nat \<Rightarrow> nat \<Rightarrow> int list \<Rightarrow> codec_fault + int list \<times> bytes \<times> nat" where
  "fspec_loop data start offset frns =
     (if length data \<le> offset then Inl (FspecPastEnd start (length data))
      else
        (let octet = data ! offset;
             frns = frns @ group_frns ((offset - start) * FSPEC_GROUPS) (uint octet);
             offset = offset + 1 in
         if uint octet AND FX = 0 then Inr (frns, take (offset - start) (drop start data), offset)
         else if MAX_FSPEC_OCTETS \<le> offset - start then Inl (FspecTooLong (offset - 1) octet)
         else fspec_loop data start offset frns))"
  by pat_completeness auto
termination
  by (relation "measure (\<lambda>(data, start, offset, frns). length data - offset)") auto

declare fspec_loop.simps [simp del]

definition read_fspec :: "bytes \<Rightarrow> nat \<Rightarrow> codec_fault + int list \<times> bytes \<times> nat" where
  "read_fspec data offset = fspec_loop data offset offset []"

definition frn_bit :: "int \<Rightarrow> int list \<Rightarrow> int list" where
  "frn_bit frn octets =
     (let index = nat ((frn - 1) div int FSPEC_GROUPS);
          bit = nat (8 - ((frn - 1) mod int FSPEC_GROUPS + 1))
      in octets[index := octets ! index OR push_bit bit 1])"

definition write_fspec :: "int list \<Rightarrow> codec_fault + bytes" where
  "write_fspec frns =
     (if frns = [] then Inl NoItems
      else
        (let bad = filter (\<lambda>f. \<not> (1 \<le> f \<and> f \<le> MAX_FRN)) frns in
         if bad \<noteq> [] then Inl (FrnsOutside bad)
         else
           (let octets = replicate (nat ((Max (set frns) - 1) div int FSPEC_GROUPS + 1)) 0;
                octets = fold frn_bit frns octets
            in Inr (map word_of_int (map (\<lambda>octet. octet OR FX) (butlast octets) @ [last octets])))))"

section \<open>Integers\<close>

definition read_unsigned :: "bytes \<Rightarrow> nat \<Rightarrow> nat \<Rightarrow> codec_fault + int" where
  "read_unsigned data offset width =
     (if length data < offset + width then Inl (ReadPastEnd width offset (length data))
      else Inr (be_value (take width (drop offset data))))"

definition write_unsigned :: "int \<Rightarrow> nat \<Rightarrow> codec_fault + bytes" where
  "write_unsigned value width =
     (let limit = push_bit (8 * width) 1 in
      if \<not> (0 \<le> value \<and> value < limit) then Inl (UnsignedOutside value (8 * width))
      else Inr (to_be width value))"

definition twos_from_raw :: "int \<Rightarrow> nat \<Rightarrow> int" where
  "twos_from_raw raw width =
     (let sign = push_bit (width - 1) 1 in if raw AND sign \<noteq> 0 then raw - push_bit width 1 else raw)"

definition twos_to_raw :: "int \<Rightarrow> nat \<Rightarrow> codec_fault + int" where
  "twos_to_raw value width =
     (let low = - push_bit (width - 1) 1; high = push_bit (width - 1) 1 - 1 in
      if \<not> (low \<le> value \<and> value \<le> high) then Inl (TwosOutside value width)
      else Inr (value AND (push_bit width 1 - 1)))"

section \<open>Scaled forms\<close>

datatype form =
    Rho | Theta | Cartesian | Flight_level | Height_3d | Doppler | Runlength | Amplitude
  | Range_difference | Azimuth_difference | Tod | Groundspeed | Heading
  | Sigma_position | Sigma_speed | Sigma_heading

record form_row =
  fm_bits :: nat
  fm_signed :: bool
  fm_lsb :: rat
  fm_low :: rat
  fm_high :: rat

definition row :: "nat \<Rightarrow> bool \<Rightarrow> rat \<Rightarrow> int \<Rightarrow> int \<Rightarrow> form_row" where
  "row width twos lsb low high =
     \<lparr>fm_bits = width, fm_signed = twos, fm_lsb = lsb, fm_low = of_int low * lsb, fm_high = of_int high * lsb\<rparr>"

fun FORMS :: "form \<Rightarrow> form_row" where
  "FORMS Rho = row 16 False (1 / 256) 0 65535"
| "FORMS Theta = row 16 False (360 / 65536) 0 65535"
| "FORMS Cartesian = row 16 True (1 / 128) (- 32768) 32767"
| "FORMS Flight_level = row 14 True (1 / 4) (- 8192) 8191"
| "FORMS Height_3d = row 14 True 25 (- 8192) 8191"
| "FORMS Doppler = row 10 True 1 (- 512) 511"
| "FORMS Runlength = row 8 False (360 / 8192) 0 255"
| "FORMS Amplitude = row 8 True 1 (- 128) 127"
| "FORMS Range_difference = row 8 True (1 / 256) (- 128) 127"
| "FORMS Azimuth_difference = row 8 True (360 / 16384) (- 128) 127"
| "FORMS Tod = row 24 False (1 / 128) 0 (86400 * 128)"
| "FORMS Groundspeed = row 16 False (1 / 16384) 0 65535"
| "FORMS Heading = row 16 False (360 / 65536) 0 65535"
| "FORMS Sigma_position = row 8 False (1 / 128) 0 255"
| "FORMS Sigma_speed = row 8 False (1 / 16384) 0 255"
| "FORMS Sigma_heading = row 8 False (360 / 4096) 0 255"

definition form_bounds :: "form \<Rightarrow> rat \<times> rat \<times> rat" where
  "form_bounds f = (fm_low (FORMS f), fm_high (FORMS f), fm_lsb (FORMS f))"

definition from_raw :: "form \<Rightarrow> int \<Rightarrow> rat" where
  "from_raw f raw =
     of_int (if fm_signed (FORMS f) then twos_from_raw raw (fm_bits (FORMS f)) else raw) * fm_lsb (FORMS f)"

section \<open>The two alphabets\<close>

definition SIX_BIT_ALPHABET :: string where
  "SIX_BIT_ALPHABET =
     ''#ABCDEFGHIJKLMNOPQRSTUVWXYZ#####'' @ '' ###############0123456789######''"

definition rstrip :: "string \<Rightarrow> string" where
  "rstrip s = rev (dropWhile (\<lambda>c. c = CHR '' '') (rev s))"

definition decode_six_bit :: "int \<Rightarrow> nat \<Rightarrow> string" where
  "decode_six_bit raw characters =
     rstrip (map (\<lambda>index. SIX_BIT_ALPHABET ! nat (drop_bit (6 * (characters - 1 - index)) raw AND 0x3F))
               [0..<characters])"

definition ascii_upper :: "char \<Rightarrow> char" where
  "ascii_upper c = (if CHR ''a'' \<le> c \<and> c \<le> CHR ''z'' then char_of (of_char c - 32 :: nat) else c)"

definition six_bit_code :: "char \<Rightarrow> int option" where
  "six_bit_code c =
     (let code = length (takeWhile (\<lambda>x. x \<noteq> ascii_upper c) SIX_BIT_ALPHABET) in
      if code = length SIX_BIT_ALPHABET \<or> c = CHR ''#'' then None else Some (int code))"

definition encode_six_bit :: "string \<Rightarrow> nat \<Rightarrow> codec_fault + int" where
  "encode_six_bit text characters =
     (let padded = take characters (text @ replicate (characters - length text) (CHR '' '')) in
      rfold (\<lambda>raw (index, c).
          case six_bit_code c of
            None \<Rightarrow> Inl (CharacterUndefined text c)
          | Some code \<Rightarrow> Inr (raw OR push_bit (6 * (characters - 1 - index)) code))
        0 (enumerate 0 padded))"

fun octal_digits :: "nat \<Rightarrow> string" where
  "octal_digits n = (if n < 8 then [char_of (48 + n)] else octal_digits (n div 8) @ [char_of (48 + n mod 8)])"

declare octal_digits.simps [simp del]

definition decode_octal :: "int \<Rightarrow> nat \<Rightarrow> string" where
  "decode_octal raw digits =
     (let s = octal_digits (nat raw) in replicate (digits - length s) (CHR ''0'') @ s)"

end
