(* ===== verification/Cat048_Items.thy ===== *)
theory Cat048_Items
  imports Cat048_Codec
begin

text \<open>
  The data items of ASTERIX category 048, \<^verbatim>\<open>packages/cdm/synapse_cdm/adapters/asterix_cat048.py\<close>: the
  vocabularies, one record for the dictionary each decoder returns, the decoders and the encoders. A
  decoder keeps every bit of its item, spare bits included. A decoder reads octets it may not have, and
  an encoder writes integers that may not fit, so both can raise.
\<close>

unbundle bit_operations_syntax

section \<open>Vocabularies\<close>

type_synonym vocabulary = "(int \<times> string) list"

definition TYP_TEXT :: vocabulary where
  "TYP_TEXT =
     [(0, ''No detection''), (1, ''Single PSR detection''), (2, ''Single SSR detection''),
      (3, ''SSR + PSR detection''), (4, ''Single ModeS All-Call''), (5, ''Single ModeS Roll-Call''),
      (6, ''ModeS All-Call + PSR''), (7, ''ModeS Roll-Call +PSR'')]"

definition MODE_S_TYP :: "int set" where
  "MODE_S_TYP = {4, 5, 6, 7}"

definition FOE_FRI_TEXT :: vocabulary where
  "FOE_FRI_TEXT = [(0, ''No Mode 4 interrogation''), (1, ''Friendly target''), (2, ''Unknown target''), (3, ''No reply'')]"

definition RAD_TEXT :: vocabulary where
  "RAD_TEXT = [(0, ''Combined Track''), (1, ''PSR Track''), (2, ''SSR/Mode S Track''), (3, ''Invalid'')]"

definition CDM_TEXT :: vocabulary where
  "CDM_TEXT = [(0, ''Maintaining''), (1, ''Climbing''), (2, ''Descending''), (3, ''Unknown'')]"

definition COM_TEXT :: vocabulary where
  "COM_TEXT =
     [(0, ''No communications capability (surveillance only)''), (1, ''Comm. A and Comm. B capability''),
      (2, ''Comm. A, Comm. B and Uplink ELM''), (3, ''Comm. A, Comm. B, Uplink ELM and Downlink ELM''),
      (4, ''Level 5 Transponder capability'')]"

definition STAT_TEXT :: vocabulary where
  "STAT_TEXT =
     [(0, ''No alert, no SPI, aircraft airborne''), (1, ''No alert, no SPI, aircraft on ground''),
      (2, ''Alert, no SPI, aircraft airborne''), (3, ''Alert, no SPI, aircraft on ground''),
      (4, ''Alert, SPI, aircraft airborne or on ground''), (5, ''No alert, SPI, aircraft airborne or on ground''),
      (7, ''Unknown'')]"

definition ACASXV_TEXT :: vocabulary where
  "ACASXV_TEXT = [(0, ''Non-Extended Version''), (1, ''ACAS Xa Version 1''), (2, ''ACAS Xu Version 1'')]"

definition WARNING_ERROR_TEXT :: vocabulary where
  "WARNING_ERROR_TEXT =
     [(0, ''Not defined; never used.''), (1, ''Multipath Reply (Reflection)''),
      (2, ''Reply due to sidelobe interrogation/reception''), (3, ''Split plot''),
      (4, ''Second time around reply''), (5, ''Angel''),
      (6, ''Slow moving target correlated with road infrastructure (terrestrial vehicle)''),
      (7, ''Fixed PSR plot''), (8, ''Slow PSR target''), (9, ''Low quality PSR plot''), (10, ''Phantom SSR plot''),
      (11, ''Non-Matching Mode-3/A Code''),
      (12, ''Mode C code / Mode S altitude code abnormal value compared to the track''),
      (13, ''Target in Clutter Area''), (14, ''Maximum Doppler Response in Zero Filter''),
      (15, ''Transponder anomaly detected -see Note 4 below''), (16, ''Duplicated or Illegal Mode S Aircraft Address''),
      (17, ''Mode S error correction applied''), (18, ''Undecodable Mode C code / Mode S altitude code''),
      (19, ''Birds''), (20, ''Flock of Birds''), (21, ''Mode-1 was present in original reply''),
      (22, ''Mode-2 was present in original reply''), (23, ''Plot potentially caused by Wind Turbine''),
      (24, ''Helicopter''), (25, ''Maximum number of re-interrogations reached (surveillance information)''),
      (26, ''Maximum number of re-interrogations reached (BDS Extractions)''), (27, ''BDS Overlay Incoherence''),
      (28, ''Potential BDS Swap Detected''), (29, ''Track Update in the Zenithal Gap''),
      (30, ''Mode S Track re-acquired''), (31, ''Duplicated Mode 5 Pair NO/PIN detected''),
      (32, ''Wrong DF reply format detected''),
      (33, ''Transponder anomaly (MS XPD replies with Mode A/C to Mode A/C-only all-call) -see Note 5 below''),
      (34, ''Transponder anomaly (SI capability report wrong) -see Note 5 below''), (35, ''Potential IC Conflict''),
      (36, ''IC Conflict detection possible -no conflict currently detected''),
      (37, ''Duplicate Mode 5 PIN (refer to the Mode 5 items in the REF)'')]"

definition entry :: "string \<Rightarrow> vocabulary \<Rightarrow> int \<Rightarrow> cat048_error + string" where
  "entry name table k = (case map_of table k of Some text \<Rightarrow> Inr text | None \<Rightarrow> Inl (Py_KeyError name))"

section \<open>Reading and writing\<close>

definition in_codec :: "codec_fault + 'a \<Rightarrow> cat048_error + 'a" where
  "in_codec r = (case r of Inl e \<Rightarrow> Inl (CodecError e) | Inr v \<Rightarrow> Inr v)"

definition octet_at :: "bytes \<Rightarrow> nat \<Rightarrow> cat048_error + int" where
  "octet_at block i = (if i < length block then Inr (uint (block ! i)) else Inl Py_IndexError)"

definition number_at :: "bytes \<Rightarrow> nat \<Rightarrow> nat \<Rightarrow> cat048_error + int" where
  "number_at block offset width = in_codec (read_unsigned block offset width)"

definition number_out :: "int \<Rightarrow> nat \<Rightarrow> cat048_error + bytes" where
  "number_out value width = in_codec (write_unsigned value width)"

text \<open>\<open>bytes\<close> of a list of integers.\<close>

definition octets_out :: "int list \<Rightarrow> cat048_error + bytes" where
  "octets_out vs = (if \<forall>v \<in> set vs. 0 \<le> v \<and> v < 256 then Inr (map word_of_int vs) else Inl Py_ValueError)"

definition hex_out :: "string \<Rightarrow> cat048_error + bytes" where
  "hex_out text = (case fromhex text of Some octets \<Rightarrow> Inr octets | None \<Rightarrow> Inl Py_ValueError)"

definition quality_bits_of :: "int \<Rightarrow> nat \<Rightarrow> int list" where
  "quality_bits_of value count = map (\<lambda>i. drop_bit (count - 1 - i) value AND 1) [0..<count]"

section \<open>The items\<close>

record data_source =
  sac :: int
  sic :: int

text \<open>The extensions of a target report; a pair is whether an element is populated, and its value.\<close>

datatype extension =
    Ext_1 (tst: bool) (err: bool) (xpp: bool) (me: bool) (mi: bool) (foe_fri: int) (foe_fri_text: string)
  | Ext_2 (adsb: "bool \<times> bool") (scn: "bool \<times> bool") (pai: "bool \<times> bool") (spare_bit_2: int)
  | Ext_3 (acasxv: "bool \<times> int \<times> string option") (poxpr: "bool \<times> bool")
  | Ext_4 (poact: "bool \<times> bool") (dtfxpr: "bool \<times> bool") (dtfact: "bool \<times> bool") (spare_bit_2: int)
  | Ext_5 (irmxpr: "bool \<times> bool") (irmact: "bool \<times> bool") (spare_bits_4_2: int)

record target_report =
  tr_typ :: int
  typ_text :: string
  sim :: bool
  rdp :: int
  spi :: bool
  rab :: bool
  extensions :: "extension list"

record polar =
  rho_raw :: int
  rho_nm :: rat
  theta_raw :: int
  theta_deg :: rat

record cartesian =
  x_raw :: int
  x_nm :: rat
  y_raw :: int
  y_nm :: rat

record mode_code =
  mc_v :: int
  mc_g :: int
  mc_l :: int
  mc_spare_bit_13 :: int
  mc_code_raw :: int
  mc_code_octal :: string

record mode_1_code =
  m1_v :: int
  m1_g :: int
  m1_l :: int
  m1_code_raw :: int
  m1_code_octal :: string

record confidence =
  cf_spare_bits :: int
  cf_quality_bits :: "int list"

record level =
  fl_v :: int
  fl_g :: int
  flight_level_raw :: int
  flight_level :: rat

record mode_c =
  mo_v :: int
  mo_g :: int
  mo_spare_bits_30_29 :: int
  mode_c_gray_raw :: int
  mo_spare_bits_16_13 :: int
  mo_quality_bits :: "int list"

record height =
  spare_bits_16_15 :: int
  height_raw :: int
  height_ft :: rat

record calculated_doppler =
  doubtful :: bool
  spare_bits_15_11 :: int
  cal_raw :: int
  calculated_doppler_mps :: rat

record raw_doppler =
  dp_rep :: int
  dop_raw :: int
  amb_raw :: int
  frq_raw :: int
  doppler_mps :: rat
  ambiguity_mps :: rat
  frequency_mhz :: rat

record radial_doppler =
  primary_cal :: bool
  primary_rds :: bool
  rd_cal :: "calculated_doppler option"
  rd_rds :: "raw_doppler option"

text \<open>The present subfields by flag: the raw octet, the name of its value and the value.\<close>

record plot_characteristics =
  primary :: "(string \<times> bool) list"
  subfields :: "(string \<times> int \<times> string \<times> rat) list"

record time_of_day =
  time_of_day_raw :: int
  time_of_day_s :: rat

record track_number =
  tn_spare_bits_16_13 :: int
  tn_track_number :: int

record track_extent =
  tre :: int
  gho :: int
  sup :: int
  tcc :: int
  te_spare_bits_4_2 :: int

record track_status =
  cnf :: int
  rad :: int
  rad_text :: string
  dou :: int
  mah :: int
  cdm :: int
  cdm_text :: string
  extent :: "track_extent option"

record velocity =
  groundspeed_raw :: int
  groundspeed_nm_s :: rat
  heading_raw :: int
  heading_deg :: rat

record track_quality =
  sigma_x_raw :: int
  sigma_x_nm :: rat
  sigma_y_raw :: int
  sigma_y_nm :: rat
  sigma_v_raw :: int
  sigma_v_nm_s :: rat
  sigma_h_raw :: int
  sigma_h_deg :: rat

record aircraft_address =
  address_raw :: int
  address :: string

record capability =
  com :: int
  com_text :: "string option"
  stat :: int
  stat_text :: "string option"
  si :: int
  spare_bit_9 :: int
  mssc :: int
  arc :: int
  aic :: int
  b1a :: int
  b1b :: int

record identification =
  identification_raw :: int
  identification :: string

record bds_register =
  bds_data :: string
  bds1 :: int
  bds2 :: int
  extraction :: string

record bds_registers =
  rep :: int
  registers :: "bds_register list"

record opaque_field =
  of_length :: int
  of_contents :: string

datatype item048 =
    I010 data_source | I020 target_report | I030 "(int \<times> string option) list" | I040 polar | I042 cartesian
  | Mode_code mode_code | I055 mode_1_code | Quality_12 confidence | Quality_5 confidence | I090 level
  | I100 mode_c | I110 height | I120 radial_doppler | I130 plot_characteristics | I140 time_of_day
  | I161 track_number | I170 track_status | I200 velocity | I210 track_quality | I220 aircraft_address
  | I230 capability | I240 identification | I250 bds_registers | I260 string | Opaque opaque_field

section \<open>Decoders\<close>

definition decode_010 :: "bytes \<Rightarrow> cat048_error + item048" where
  "decode_010 block =
     rbind (octet_at block 0) (\<lambda>a. rbind (octet_at block 1) (\<lambda>b. Inr (I010 \<lparr>sac = a, sic = b\<rparr>)))"

definition decode_extension :: "nat \<Rightarrow> int \<Rightarrow> cat048_error + extension" where
  "decode_extension index octet =
     (let f = flag octet in
      if index = 1
      then rbind (entry ''FOE_FRI_TEXT'' FOE_FRI_TEXT (bits octet 3 2)) (\<lambda>text.
             Inr (Ext_1 (f 8) (f 7) (f 6) (f 5) (f 4) (bits octet 3 2) text))
      else if index = 2 then Inr (Ext_2 (f 8, f 7) (f 6, f 5) (f 4, f 3) (bits octet 2 2))
      else if index = 3 then Inr (Ext_3 (f 8, bits octet 7 4, map_of ACASXV_TEXT (bits octet 7 4)) (f 3, f 2))
      else if index = 4 then Inr (Ext_4 (f 8, f 7) (f 6, f 5) (f 4, f 3) (bits octet 2 2))
      else Inr (Ext_5 (f 8, f 7) (f 6, f 5) (bits octet 4 2)))"

definition decode_020 :: "bytes \<Rightarrow> cat048_error + item048" where
  "decode_020 block =
     rbind (octet_at block 0) (\<lambda>first.
     rbind (entry ''TYP_TEXT'' TYP_TEXT (bits first 8 6)) (\<lambda>text.
     rbind (rmap (\<lambda>(index, octet). decode_extension index (uint octet)) (enumerate 1 (drop 1 block))) (\<lambda>exts.
     Inr (I020 \<lparr>tr_typ = bits first 8 6, typ_text = text, sim = flag first 5, rdp = bits first 4 4, spi = flag first 3,
       rab = flag first 2, extensions = exts\<rparr>))))"

definition decode_030 :: "bytes \<Rightarrow> cat048_error + item048" where
  "decode_030 block =
     Inr (I030 (map (\<lambda>octet. let code = bits (uint octet) 8 2 in (code, map_of WARNING_ERROR_TEXT code)) block))"

definition decode_040 :: "bytes \<Rightarrow> cat048_error + item048" where
  "decode_040 block =
     rbind (number_at block 0 2) (\<lambda>rho. rbind (number_at block 2 2) (\<lambda>theta.
     Inr (I040 \<lparr>rho_raw = rho, rho_nm = from_raw Rho rho, theta_raw = theta, theta_deg = from_raw Theta theta\<rparr>)))"

definition decode_042 :: "bytes \<Rightarrow> cat048_error + item048" where
  "decode_042 block =
     rbind (number_at block 0 2) (\<lambda>x. rbind (number_at block 2 2) (\<lambda>y.
     Inr (I042 \<lparr>x_raw = x, x_nm = from_raw Cartesian x, y_raw = y, y_nm = from_raw Cartesian y\<rparr>)))"

definition decode_mode_code_2octet :: "bytes \<Rightarrow> cat048_error + item048" where
  "decode_mode_code_2octet block =
     rbind (number_at block 0 2) (\<lambda>raw.
     Inr (Mode_code \<lparr>mc_v = bits raw 16 16, mc_g = bits raw 15 15, mc_l = bits raw 14 14,
       mc_spare_bit_13 = bits raw 13 13, mc_code_raw = bits raw 12 1,
       mc_code_octal = decode_octal (bits raw 12 1) 4\<rparr>))"

definition decode_055 :: "bytes \<Rightarrow> cat048_error + item048" where
  "decode_055 block =
     rbind (octet_at block 0) (\<lambda>raw.
     Inr (I055 \<lparr>m1_v = bits raw 8 8, m1_g = bits raw 7 7, m1_l = bits raw 6 6, m1_code_raw = bits raw 5 1,
       m1_code_octal = decode_octal (bits raw 5 1) 2\<rparr>))"

definition decode_060 :: "bytes \<Rightarrow> cat048_error + item048" where
  "decode_060 block =
     rbind (number_at block 0 2) (\<lambda>raw.
     Inr (Quality_12 \<lparr>cf_spare_bits = bits raw 16 13, cf_quality_bits = quality_bits_of raw 12\<rparr>))"

definition decode_065 :: "bytes \<Rightarrow> cat048_error + item048" where
  "decode_065 block =
     rbind (octet_at block 0) (\<lambda>raw.
     Inr (Quality_5 \<lparr>cf_spare_bits = bits raw 8 6, cf_quality_bits = quality_bits_of raw 5\<rparr>))"

definition decode_090 :: "bytes \<Rightarrow> cat048_error + item048" where
  "decode_090 block =
     rbind (number_at block 0 2) (\<lambda>raw.
     let level_raw = bits raw 14 1 in
     Inr (I090 \<lparr>fl_v = bits raw 16 16, fl_g = bits raw 15 15, flight_level_raw = level_raw,
       flight_level = from_raw Flight_level level_raw\<rparr>))"

definition decode_100 :: "bytes \<Rightarrow> cat048_error + item048" where
  "decode_100 block =
     rbind (number_at block 0 4) (\<lambda>raw.
     Inr (I100 \<lparr>mo_v = bits raw 32 32, mo_g = bits raw 31 31, mo_spare_bits_30_29 = bits raw 30 29,
       mode_c_gray_raw = bits raw 28 17, mo_spare_bits_16_13 = bits raw 16 13,
       mo_quality_bits = quality_bits_of (bits raw 12 1) 12\<rparr>))"

definition decode_110 :: "bytes \<Rightarrow> cat048_error + item048" where
  "decode_110 block =
     rbind (number_at block 0 2) (\<lambda>raw.
     let h = bits raw 14 1 in
     Inr (I110 \<lparr>spare_bits_16_15 = bits raw 16 15, height_raw = h, height_ft = from_raw Height_3d h\<rparr>))"

definition decode_cal :: "bytes \<Rightarrow> nat \<Rightarrow> cat048_error + calculated_doppler" where
  "decode_cal block pos =
     rbind (number_at block pos 2) (\<lambda>raw.
     let c = bits raw 10 1 in
     Inr \<lparr>doubtful = flag raw 16, spare_bits_15_11 = bits raw 15 11, cal_raw = c,
       calculated_doppler_mps = from_raw Doppler c\<rparr>)"

definition decode_rds :: "bytes \<Rightarrow> nat \<Rightarrow> cat048_error + raw_doppler" where
  "decode_rds block pos =
     rbind (octet_at block pos) (\<lambda>r.
     rbind (number_at block (pos + 1) 2) (\<lambda>dop.
     rbind (number_at block (pos + 3) 2) (\<lambda>amb.
     rbind (number_at block (pos + 5) 2) (\<lambda>frq.
     Inr \<lparr>dp_rep = r, dop_raw = dop, amb_raw = amb, frq_raw = frq, doppler_mps = of_int dop,
       ambiguity_mps = of_int amb, frequency_mhz = of_int frq\<rparr>))))"

definition optionally :: "bool \<Rightarrow> 'e + 'a \<Rightarrow> 'e + 'a option" where
  "optionally b r = (if b then rbind r (\<lambda>x. Inr (Some x)) else Inr None)"

definition decode_120 :: "bytes \<Rightarrow> cat048_error + item048" where
  "decode_120 block =
     rbind (octet_at block 0) (\<lambda>p.
     let pos = 1 in
     rbind (optionally (flag p 8) (decode_cal block pos)) (\<lambda>cal.
     let pos = (if flag p 8 then pos + 2 else pos) in
     rbind (optionally (flag p 7) (decode_rds block pos)) (\<lambda>rds.
     Inr (I120 \<lparr>primary_cal = flag p 8, primary_rds = flag p 7, rd_cal = cal, rd_rds = rds\<rparr>))))"

definition SUBFIELDS_130 :: "(string \<times> string \<times> form option) list" where
  "SUBFIELDS_130 =
     [(''srl'', ''ssr_plot_runlength_deg'', Some Runlength), (''srr'', ''ssr_reply_count'', None),
      (''sam'', ''ssr_amplitude_dbm'', Some Amplitude), (''prl'', ''psr_plot_runlength_deg'', Some Runlength),
      (''pam'', ''psr_amplitude_dbm'', Some Amplitude), (''rpd'', ''range_difference_nm'', Some Range_difference),
      (''apd'', ''azimuth_difference_deg'', Some Azimuth_difference)]"

fun decode_subfields ::
    "(string \<times> string \<times> form option) list \<Rightarrow> (string \<times> bool) list \<Rightarrow> bytes \<Rightarrow> nat \<Rightarrow>
     cat048_error + (string \<times> int \<times> string \<times> rat) list" where
  "decode_subfields [] present block pos = Inr []"
| "decode_subfields ((name, key, form) # rest) present block pos =
     (if map_of present name \<noteq> Some True then decode_subfields rest present block pos
      else
        rbind (octet_at block pos) (\<lambda>raw.
        rbind (decode_subfields rest present block (pos + 1)) (\<lambda>subs.
        Inr ((name, raw, key, case form of None \<Rightarrow> of_int raw | Some f \<Rightarrow> from_raw f raw) # subs))))"

definition decode_130 :: "bytes \<Rightarrow> cat048_error + item048" where
  "decode_130 block =
     rbind (octet_at block 0) (\<lambda>p.
     let present = map (\<lambda>(index, name, key, form). (name, p AND push_bit (7 - index) 1 \<noteq> 0))
                     (enumerate 0 SUBFIELDS_130) in
     rbind (decode_subfields SUBFIELDS_130 present block 1) (\<lambda>subs.
     Inr (I130 \<lparr>primary = present, subfields = subs\<rparr>)))"

definition decode_140 :: "bytes \<Rightarrow> cat048_error + item048" where
  "decode_140 block =
     rbind (number_at block 0 3) (\<lambda>raw. Inr (I140 \<lparr>time_of_day_raw = raw, time_of_day_s = from_raw Tod raw\<rparr>))"

definition decode_161 :: "bytes \<Rightarrow> cat048_error + item048" where
  "decode_161 block =
     rbind (number_at block 0 2) (\<lambda>raw.
     Inr (I161 \<lparr>tn_spare_bits_16_13 = bits raw 16 13, tn_track_number = bits raw 12 1\<rparr>))"

definition decode_extent :: "int \<Rightarrow> track_extent" where
  "decode_extent octet =
     \<lparr>tre = bits octet 8 8, gho = bits octet 7 7, sup = bits octet 6 6, tcc = bits octet 5 5,
      te_spare_bits_4_2 = bits octet 4 2\<rparr>"

definition decode_170 :: "bytes \<Rightarrow> cat048_error + item048" where
  "decode_170 block =
     rbind (octet_at block 0) (\<lambda>first.
     rbind (entry ''RAD_TEXT'' RAD_TEXT (bits first 7 6)) (\<lambda>rad_t.
     rbind (entry ''CDM_TEXT'' CDM_TEXT (bits first 3 2)) (\<lambda>cdm_t.
     Inr (I170 \<lparr>cnf = bits first 8 8, rad = bits first 7 6, rad_text = rad_t, dou = bits first 5 5,
       mah = bits first 4 4, cdm = bits first 3 2, cdm_text = cdm_t,
       extent = (if 1 < length block then Some (decode_extent (uint (block ! 1))) else None)\<rparr>))))"

definition decode_200 :: "bytes \<Rightarrow> cat048_error + item048" where
  "decode_200 block =
     rbind (number_at block 0 2) (\<lambda>speed. rbind (number_at block 2 2) (\<lambda>heading.
     Inr (I200 \<lparr>groundspeed_raw = speed, groundspeed_nm_s = from_raw Groundspeed speed, heading_raw = heading,
       heading_deg = from_raw Heading heading\<rparr>)))"

definition decode_210 :: "bytes \<Rightarrow> cat048_error + item048" where
  "decode_210 block =
     rbind (octet_at block 0) (\<lambda>x. rbind (octet_at block 1) (\<lambda>y. rbind (octet_at block 2) (\<lambda>v.
     rbind (octet_at block 3) (\<lambda>h.
     Inr (I210 \<lparr>sigma_x_raw = x, sigma_x_nm = from_raw Sigma_position x, sigma_y_raw = y,
       sigma_y_nm = from_raw Sigma_position y, sigma_v_raw = v, sigma_v_nm_s = from_raw Sigma_speed v,
       sigma_h_raw = h, sigma_h_deg = from_raw Sigma_heading h\<rparr>)))))"

definition decode_220 :: "bytes \<Rightarrow> cat048_error + item048" where
  "decode_220 block =
     rbind (number_at block 0 3) (\<lambda>raw. Inr (I220 \<lparr>address_raw = raw, address = map ascii_upper (hex block)\<rparr>))"

definition decode_230 :: "bytes \<Rightarrow> cat048_error + item048" where
  "decode_230 block =
     rbind (number_at block 0 2) (\<lambda>raw.
     Inr (I230 \<lparr>com = bits raw 16 14, com_text = map_of COM_TEXT (bits raw 16 14), stat = bits raw 13 11,
       stat_text = map_of STAT_TEXT (bits raw 13 11), si = bits raw 10 10, spare_bit_9 = bits raw 9 9,
       mssc = bits raw 8 8, arc = bits raw 7 7, aic = bits raw 6 6, b1a = bits raw 5 5, b1b = bits raw 4 1\<rparr>))"

definition decode_240 :: "bytes \<Rightarrow> cat048_error + item048" where
  "decode_240 block =
     rbind (number_at block 0 6) (\<lambda>raw.
     Inr (I240 \<lparr>identification_raw = raw, identification = decode_six_bit raw 8\<rparr>))"

definition register_name :: "int \<Rightarrow> int \<Rightarrow> string" where
  "register_name b1 b2 =
     (if b1 = 0 \<and> b2 = 0 then ''Comm-B broadcast, register unidentified''
      else ''GICB register '' @ map char_of (dec (nat b1)) @ '','' @ map char_of (dec (nat b2)))"

definition decode_register :: "bytes \<Rightarrow> nat \<Rightarrow> cat048_error + bds_register" where
  "decode_register block index =
     (let pos = 1 + index * 8; data = take 7 (drop pos block) in
      rbind (octet_at block (pos + 7)) (\<lambda>code.
      let b1 = bits code 8 5; b2 = bits code 4 1 in
      Inr \<lparr>bds_data = hex data, bds1 = b1, bds2 = b2, extraction = register_name b1 b2\<rparr>))"

definition decode_250 :: "bytes \<Rightarrow> cat048_error + item048" where
  "decode_250 block =
     rbind (octet_at block 0) (\<lambda>r.
     rbind (rmap (decode_register block) [0..<nat r]) (\<lambda>regs.
     Inr (I250 \<lparr>rep = r, registers = regs\<rparr>)))"

definition decode_260 :: "bytes \<Rightarrow> cat048_error + item048" where
  "decode_260 block = Inr (I260 (hex block))"

definition decode_explicit :: "bytes \<Rightarrow> cat048_error + item048" where
  "decode_explicit block =
     rbind (octet_at block 0) (\<lambda>n. Inr (Opaque \<lparr>of_length = n, of_contents = hex (drop 1 block)\<rparr>))"

end
