(* ===== verification/Cat048_Block.thy ===== *)
theory Cat048_Block
  imports Cat048_Items
begin

text \<open>
  Encoders, length rules and the block of ASTERIX category 048,
  \<^verbatim>\<open>packages/cdm/synapse_cdm/adapters/asterix_cat048.py\<close>: the profile of 28 items, the walk over the
  items of a record and the records of a block, and the way back to octets. Offsets are natural
  numbers, because the code never makes a negative one.
\<close>

unbundle bit_operations_syntax

section \<open>Encoders\<close>

text \<open>An encoder reads the keys of its own item's dictionary; on another one it is a \<open>KeyError\<close>.\<close>

definition encode_010 :: "item048 \<Rightarrow> cat048_error + bytes" where
  "encode_010 item = (case item of I010 r \<Rightarrow> octets_out [sac r, sic r] | _ \<Rightarrow> Inl (Py_KeyError ''sac''))"

definition pair_out :: "nat \<Rightarrow> bool \<times> bool \<Rightarrow> int" where
  "pair_out k p = push_bit k (of_bool (fst p)) OR push_bit (k - 1) (of_bool (snd p))"

definition encode_extension :: "nat \<Rightarrow> extension \<Rightarrow> cat048_error + int" where
  "encode_extension index ext =
     (if index = 1 then
        (case ext of
           Ext_1 t e x m i foe text \<Rightarrow>
             Inr (push_bit 7 (of_bool t) OR push_bit 6 (of_bool e) OR push_bit 5 (of_bool x) OR push_bit 4 (of_bool m)
                  OR push_bit 3 (of_bool i) OR push_bit 1 foe)
         | _ \<Rightarrow> Inl (Py_KeyError ''tst''))
      else if index = 2 then
        (case ext of
           Ext_2 a s p spare \<Rightarrow>
             Inr (push_bit 7 (of_bool (fst a)) OR push_bit 6 (of_bool (snd a)) OR push_bit 5 (of_bool (fst s))
                  OR push_bit 4 (of_bool (snd s)) OR push_bit 3 (of_bool (fst p)) OR push_bit 2 (of_bool (snd p))
                  OR push_bit 1 spare)
         | _ \<Rightarrow> Inl (Py_KeyError ''adsb''))
      else if index = 3 then
        (case ext of
           Ext_3 (populated, v, text) p \<Rightarrow>
             Inr (push_bit 7 (of_bool populated) OR push_bit 3 v OR push_bit 2 (of_bool (fst p))
                  OR push_bit 1 (of_bool (snd p)))
         | _ \<Rightarrow> Inl (Py_KeyError ''acasxv''))
      else if index = 4 then
        (case ext of
           Ext_4 a s p spare \<Rightarrow>
             Inr (push_bit 7 (of_bool (fst a)) OR push_bit 6 (of_bool (snd a)) OR push_bit 5 (of_bool (fst s))
                  OR push_bit 4 (of_bool (snd s)) OR push_bit 3 (of_bool (fst p)) OR push_bit 2 (of_bool (snd p))
                  OR push_bit 1 spare)
         | _ \<Rightarrow> Inl (Py_KeyError ''poact''))
      else
        (case ext of
           Ext_5 x a spare \<Rightarrow>
             Inr (push_bit 7 (of_bool (fst x)) OR push_bit 6 (of_bool (snd x)) OR push_bit 5 (of_bool (fst a))
                  OR push_bit 4 (of_bool (snd a)) OR push_bit 1 spare)
         | _ \<Rightarrow> Inl (Py_KeyError ''irmxpr'')))"

definition encode_020 :: "item048 \<Rightarrow> cat048_error + bytes" where
  "encode_020 item =
     (case item of
        I020 r \<Rightarrow>
          (let exts = extensions r;
               first = push_bit 5 (tr_typ r) OR push_bit 4 (of_bool (sim r)) OR push_bit 3 (rdp r)
                 OR push_bit 2 (of_bool (spi r)) OR push_bit 1 (of_bool (rab r)) in
           rbind (rmap (\<lambda>(index, ext). rbind (encode_extension index ext) (\<lambda>octet.
                    Inr (octet OR (if index = length exts then 0 else FX)))) (enumerate 1 exts)) (\<lambda>octets.
           octets_out ((first OR (if exts \<noteq> [] then FX else 0)) # octets)))
      | _ \<Rightarrow> Inl (Py_KeyError ''typ''))"

definition encode_030 :: "item048 \<Rightarrow> cat048_error + bytes" where
  "encode_030 item =
     (case item of
        I030 codes \<Rightarrow>
          octets_out (map (\<lambda>(index, code, text). push_bit 1 code OR (if index = length codes - 1 then 0 else FX))
            (enumerate 0 codes))
      | _ \<Rightarrow> Inl (Py_KeyError ''codes''))"

definition append_out :: "cat048_error + bytes \<Rightarrow> cat048_error + bytes \<Rightarrow> cat048_error + bytes" where
  "append_out r s = rbind r (\<lambda>a. rbind s (\<lambda>b. Inr (a @ b)))"

definition encode_040 :: "item048 \<Rightarrow> cat048_error + bytes" where
  "encode_040 item =
     (case item of I040 r \<Rightarrow> append_out (number_out (rho_raw r) 2) (number_out (theta_raw r) 2)
      | _ \<Rightarrow> Inl (Py_KeyError ''rho_raw''))"

definition encode_042 :: "item048 \<Rightarrow> cat048_error + bytes" where
  "encode_042 item =
     (case item of I042 r \<Rightarrow> append_out (number_out (x_raw r) 2) (number_out (y_raw r) 2)
      | _ \<Rightarrow> Inl (Py_KeyError ''x_raw''))"

definition encode_mode_code_2octet :: "item048 \<Rightarrow> cat048_error + bytes" where
  "encode_mode_code_2octet item =
     (case item of
        Mode_code r \<Rightarrow>
          number_out (push_bit 15 (mc_v r) OR push_bit 14 (mc_g r) OR push_bit 13 (mc_l r)
            OR push_bit 12 (mc_spare_bit_13 r) OR mc_code_raw r) 2
      | _ \<Rightarrow> Inl (Py_KeyError ''v''))"

definition encode_055 :: "item048 \<Rightarrow> cat048_error + bytes" where
  "encode_055 item =
     (case item of
        I055 r \<Rightarrow> octets_out [push_bit 7 (m1_v r) OR push_bit 6 (m1_g r) OR push_bit 5 (m1_l r) OR m1_code_raw r]
      | _ \<Rightarrow> Inl (Py_KeyError ''v''))"

definition encode_060 :: "item048 \<Rightarrow> cat048_error + bytes" where
  "encode_060 item =
     (case item of
        Quality_12 r \<Rightarrow> number_out (push_bit 12 (cf_spare_bits r) OR from_bits (cf_quality_bits r)) 2
      | _ \<Rightarrow> Inl (Py_KeyError ''spare_bits_16_13''))"

definition encode_065 :: "item048 \<Rightarrow> cat048_error + bytes" where
  "encode_065 item =
     (case item of
        Quality_5 r \<Rightarrow> octets_out [push_bit 5 (cf_spare_bits r) OR from_bits (cf_quality_bits r)]
      | _ \<Rightarrow> Inl (Py_KeyError ''spare_bits_8_6''))"

definition encode_090 :: "item048 \<Rightarrow> cat048_error + bytes" where
  "encode_090 item =
     (case item of
        I090 r \<Rightarrow> number_out (push_bit 15 (fl_v r) OR push_bit 14 (fl_g r) OR flight_level_raw r) 2
      | _ \<Rightarrow> Inl (Py_KeyError ''v''))"

definition encode_100 :: "item048 \<Rightarrow> cat048_error + bytes" where
  "encode_100 item =
     (case item of
        I100 r \<Rightarrow>
          number_out (push_bit 31 (mo_v r) OR push_bit 30 (mo_g r) OR push_bit 28 (mo_spare_bits_30_29 r)
            OR push_bit 16 (mode_c_gray_raw r) OR push_bit 12 (mo_spare_bits_16_13 r) OR from_bits (mo_quality_bits r)) 4
      | _ \<Rightarrow> Inl (Py_KeyError ''v''))"

definition encode_110 :: "item048 \<Rightarrow> cat048_error + bytes" where
  "encode_110 item =
     (case item of I110 r \<Rightarrow> number_out (push_bit 14 (spare_bits_16_15 r) OR height_raw r) 2
      | _ \<Rightarrow> Inl (Py_KeyError ''spare_bits_16_15''))"

definition cal_out :: "calculated_doppler option \<Rightarrow> cat048_error + bytes" where
  "cal_out c =
     (case c of
        Some r \<Rightarrow> number_out (push_bit 15 (of_bool (doubtful r)) OR push_bit 10 (spare_bits_15_11 r) OR cal_raw r) 2
      | None \<Rightarrow> Inl (Py_KeyError ''cal''))"

definition rds_out :: "raw_doppler option \<Rightarrow> cat048_error + bytes" where
  "rds_out c =
     (case c of
        Some r \<Rightarrow> append_out (append_out (append_out (octets_out [dp_rep r]) (number_out (dop_raw r) 2))
                    (number_out (amb_raw r) 2)) (number_out (frq_raw r) 2)
      | None \<Rightarrow> Inl (Py_KeyError ''rds''))"

definition encode_120 :: "item048 \<Rightarrow> cat048_error + bytes" where
  "encode_120 item =
     (case item of
        I120 r \<Rightarrow>
          append_out
            (append_out (octets_out [push_bit 7 (of_bool (primary_cal r)) OR push_bit 6 (of_bool (primary_rds r))])
              (if primary_cal r then cal_out (rd_cal r) else Inr []))
            (if primary_rds r then rds_out (rd_rds r) else Inr [])
      | _ \<Rightarrow> Inl (Py_KeyError ''primary''))"

definition subfield_out :: "plot_characteristics \<Rightarrow> string \<Rightarrow> cat048_error + bytes" where
  "subfield_out r name =
     (case map_of (subfields r) name of
        Some (raw, _) \<Rightarrow> octets_out [raw] | None \<Rightarrow> Inl (Py_KeyError name))"

definition encode_130 :: "item048 \<Rightarrow> cat048_error + bytes" where
  "encode_130 item =
     (case item of
        I130 r \<Rightarrow>
          (let present = (\<lambda>name. map_of (primary r) name = Some True);
               p = foldl (\<lambda>p (index, name, key, form). if present name then p OR push_bit (7 - index) 1 else p) 0
                     (enumerate 0 SUBFIELDS_130) in
           append_out (octets_out [p])
             (rbind (rmap (subfield_out r) (filter present (map fst SUBFIELDS_130))) (\<lambda>os. Inr (concat os))))
      | _ \<Rightarrow> Inl (Py_KeyError ''primary''))"

definition encode_140 :: "item048 \<Rightarrow> cat048_error + bytes" where
  "encode_140 item =
     (case item of I140 r \<Rightarrow> number_out (time_of_day_raw r) 3 | _ \<Rightarrow> Inl (Py_KeyError ''time_of_day_raw''))"

definition encode_161 :: "item048 \<Rightarrow> cat048_error + bytes" where
  "encode_161 item =
     (case item of I161 r \<Rightarrow> number_out (push_bit 12 (tn_spare_bits_16_13 r) OR tn_track_number r) 2
      | _ \<Rightarrow> Inl (Py_KeyError ''spare_bits_16_13''))"

definition extent_out :: "track_extent \<Rightarrow> int" where
  "extent_out e =
     push_bit 7 (tre e) OR push_bit 6 (gho e) OR push_bit 5 (sup e) OR push_bit 4 (tcc e)
       OR push_bit 1 (te_spare_bits_4_2 e)"

definition encode_170 :: "item048 \<Rightarrow> cat048_error + bytes" where
  "encode_170 item =
     (case item of
        I170 r \<Rightarrow>
          octets_out
            ((push_bit 7 (cnf r) OR push_bit 5 (rad r) OR push_bit 4 (dou r) OR push_bit 3 (mah r) OR push_bit 1 (cdm r)
              OR (if extent r \<noteq> None then FX else 0))
             # (case extent r of Some e \<Rightarrow> [extent_out e] | None \<Rightarrow> []))
      | _ \<Rightarrow> Inl (Py_KeyError ''cnf''))"

definition encode_200 :: "item048 \<Rightarrow> cat048_error + bytes" where
  "encode_200 item =
     (case item of I200 r \<Rightarrow> append_out (number_out (groundspeed_raw r) 2) (number_out (heading_raw r) 2)
      | _ \<Rightarrow> Inl (Py_KeyError ''groundspeed_raw''))"

definition encode_210 :: "item048 \<Rightarrow> cat048_error + bytes" where
  "encode_210 item =
     (case item of I210 r \<Rightarrow> octets_out [sigma_x_raw r, sigma_y_raw r, sigma_v_raw r, sigma_h_raw r]
      | _ \<Rightarrow> Inl (Py_KeyError ''sigma_x_raw''))"

definition encode_220 :: "item048 \<Rightarrow> cat048_error + bytes" where
  "encode_220 item =
     (case item of I220 r \<Rightarrow> number_out (address_raw r) 3 | _ \<Rightarrow> Inl (Py_KeyError ''address_raw''))"

definition encode_230 :: "item048 \<Rightarrow> cat048_error + bytes" where
  "encode_230 item =
     (case item of
        I230 r \<Rightarrow>
          number_out (push_bit 13 (com r) OR push_bit 10 (stat r) OR push_bit 9 (si r) OR push_bit 8 (spare_bit_9 r)
            OR push_bit 7 (mssc r) OR push_bit 6 (arc r) OR push_bit 5 (aic r) OR push_bit 4 (b1a r) OR b1b r) 2
      | _ \<Rightarrow> Inl (Py_KeyError ''com''))"

definition encode_240 :: "item048 \<Rightarrow> cat048_error + bytes" where
  "encode_240 item =
     (case item of I240 r \<Rightarrow> number_out (identification_raw r) 6 | _ \<Rightarrow> Inl (Py_KeyError ''identification_raw''))"

definition register_out :: "bds_register \<Rightarrow> cat048_error + bytes" where
  "register_out r = append_out (hex_out (bds_data r)) (octets_out [push_bit 4 (bds1 r) OR bds2 r])"

definition encode_250 :: "item048 \<Rightarrow> cat048_error + bytes" where
  "encode_250 item =
     (case item of
        I250 r \<Rightarrow>
          append_out (octets_out [rep r]) (rbind (rmap register_out (registers r)) (\<lambda>rs. Inr (concat rs)))
      | _ \<Rightarrow> Inl (Py_KeyError ''rep''))"

definition encode_260 :: "item048 \<Rightarrow> cat048_error + bytes" where
  "encode_260 item = (case item of I260 text \<Rightarrow> hex_out text | _ \<Rightarrow> Inl (Py_KeyError ''acas_ra''))"

definition encode_explicit :: "item048 \<Rightarrow> cat048_error + bytes" where
  "encode_explicit item =
     (case item of Opaque r \<Rightarrow> append_out (octets_out [of_length r]) (hex_out (of_contents r))
      | _ \<Rightarrow> Inl (Py_KeyError ''length''))"

section \<open>Length rules\<close>

type_synonym length_rule = "bytes \<Rightarrow> nat \<Rightarrow> cat048_error + nat"

definition refuse_block :: "cat048_refusal \<Rightarrow> bytes \<Rightarrow> nat \<Rightarrow> cat048_error" where
  "refuse_block r data offset = Refused r offset (length data) (drop (offset - 2) (take (offset + 8) data))"

definition len_fixed :: "nat \<Rightarrow> length_rule" where
  "len_fixed width data offset = Inr width"

function variable_loop :: "string \<Rightarrow> nat option \<Rightarrow> bytes \<Rightarrow> nat \<Rightarrow> nat \<Rightarrow> cat048_error + nat" where
  "variable_loop item max_octets data offset n =
     (if length data \<le> offset + n - 1 then Inl (refuse_block (ExtensionPastEnd item) data offset)
      else if uint (data ! (offset + n - 1)) AND FX = 0 then Inr n
      else if (case max_octets of Some m \<Rightarrow> m \<le> n | None \<Rightarrow> False)
      then Inl (refuse_block (ExtensionUndefined item n (the max_octets)) data offset)
      else variable_loop item max_octets data offset (n + 1))"
  by pat_completeness auto
termination
  by (relation "measure (\<lambda>(item, m, data, offset, n). Suc (length data) - (offset + n))") auto

declare variable_loop.simps [simp del]

definition len_variable :: "string \<Rightarrow> nat option \<Rightarrow> length_rule" where
  "len_variable item max_octets data offset = variable_loop item max_octets data offset 1"

definition len_explicit :: length_rule where
  "len_explicit data offset =
     (if length data \<le> offset then Inl (refuse_block (LengthPastEnd ''explicit'') data offset)
      else
        (let stated = uint (data ! offset) in
         if stated < 1 then Inl (refuse_block LengthZero data offset) else Inr (nat stated)))"

definition len_250 :: length_rule where
  "len_250 data offset =
     (if length data \<le> offset then Inl (refuse_block (LengthPastEnd ''I048/250'') data offset)
      else Inr (1 + 8 * nat (uint (data ! offset))))"

definition len_120 :: length_rule where
  "len_120 data offset =
     (if length data \<le> offset then Inl (refuse_block (LengthPastEnd ''I048/120'') data offset)
      else
        (let p = uint (data ! offset) in
         if bits p 6 2 \<noteq> 0 then Inl (refuse_block SpareSubfields data offset)
         else if p AND FX \<noteq> 0 then Inl (refuse_block (PrimaryExtended ''I048/120'') data offset)
         else Inr (1 + (if flag p 8 then 2 else 0) + (if flag p 7 then 7 else 0))))"

fun ones :: "nat \<Rightarrow> nat" where
  "ones n = (if n = 0 then 0 else n mod 2 + ones (n div 2))"

declare ones.simps [simp del]

definition len_130 :: length_rule where
  "len_130 data offset =
     (if length data \<le> offset then Inl (refuse_block (LengthPastEnd ''I048/130'') data offset)
      else
        (let p = uint (data ! offset) in
         if p AND FX \<noteq> 0 then Inl (refuse_block (PrimaryExtended ''I048/130'') data offset)
         else Inr (1 + ones (nat (drop_bit 1 p)))))"

section \<open>The profile\<close>

record uap_entry =
  ue_frn :: int
  ue_item :: string
  ue_name :: string
  ue_table_name :: string
  ue_rule :: length_rule
  ue_decode :: "bytes \<Rightarrow> cat048_error + item048"
  ue_encode :: "item048 \<Rightarrow> cat048_error + bytes"

definition UAP :: "uap_entry list" where
  "UAP =
     [uap_entry.make 1 ''I048/010'' ''Data Source Identifier'' ''Data Source Identifier''
        (len_fixed 2) decode_010 encode_010,
      uap_entry.make 2 ''I048/140'' ''Time of Day'' ''Time-of-Day'' (len_fixed 3) decode_140 encode_140,
      uap_entry.make 3 ''I048/020'' ''Type and Properties of the Target Report and Target Capabilities''
        ''Type and Properties of the Target Report and Target Capabilities''
        (len_variable ''I048/020'' (Some 6)) decode_020 encode_020,
      uap_entry.make 4 ''I048/040'' ''Measured Position in Polar Co-ordinates''
        ''Measured Position in Slant Polar Coordinates'' (len_fixed 4) decode_040 encode_040,
      uap_entry.make 5 ''I048/070'' ''Mode-3/A Code in Octal Representation'' ''Mode-3/A Code in Octal Representation''
        (len_fixed 2) decode_mode_code_2octet encode_mode_code_2octet,
      uap_entry.make 6 ''I048/090'' ''Flight Level in Binary Representation'' ''Flight Level in Binary Representation''
        (len_fixed 2) decode_090 encode_090,
      uap_entry.make 7 ''I048/130'' ''Radar Plot Characteristics'' ''Radar Plot Characteristics''
        len_130 decode_130 encode_130,
      uap_entry.make 8 ''I048/220'' ''Aircraft Address'' ''Aircraft Address'' (len_fixed 3) decode_220 encode_220,
      uap_entry.make 9 ''I048/240'' ''Aircraft Identification'' ''Aircraft Identification''
        (len_fixed 6) decode_240 encode_240,
      uap_entry.make 10 ''I048/250'' ''BDS Register Data'' ''Mode S MB Data'' len_250 decode_250 encode_250,
      uap_entry.make 11 ''I048/161'' ''Track Number'' ''Track Number'' (len_fixed 2) decode_161 encode_161,
      uap_entry.make 12 ''I048/042'' ''Calculated Position in Cartesian Co-ordinates''
        ''Calculated Position in Cartesian Coordinates'' (len_fixed 4) decode_042 encode_042,
      uap_entry.make 13 ''I048/200'' ''Calculated Track Velocity in Polar Co-ordinates''
        ''Calculated Track Velocity in Polar Representation'' (len_fixed 4) decode_200 encode_200,
      uap_entry.make 14 ''I048/170'' ''Track Status'' ''Track Status''
        (len_variable ''I048/170'' (Some 2)) decode_170 encode_170,
      uap_entry.make 15 ''I048/210'' ''Track Quality'' ''Track Quality'' (len_fixed 4) decode_210 encode_210,
      uap_entry.make 16 ''I048/030'' ''Warning/Error Conditions and Target Classification''
        ''Warning/Error Conditions/Target Classification'' (len_variable ''I048/030'' None) decode_030 encode_030,
      uap_entry.make 17 ''I048/080'' ''Mode-3/A Code Confidence Indicator'' ''Mode-3/A Code Confidence Indicator''
        (len_fixed 2) decode_060 encode_060,
      uap_entry.make 18 ''I048/100'' ''Mode-C Code and Code Confidence Indicator''
        ''Mode-C Code and Confidence Indicator'' (len_fixed 4) decode_100 encode_100,
      uap_entry.make 19 ''I048/110'' ''Height Measured by a 3D Radar'' ''Height Measured by 3D Radar''
        (len_fixed 2) decode_110 encode_110,
      uap_entry.make 20 ''I048/120'' ''Radial Doppler Speed'' ''Radial Doppler Speed'' len_120 decode_120 encode_120,
      uap_entry.make 21 ''I048/230'' ''Communications/ACAS Capability and Flight Status''
        ''Communications / ACAS Capability and Flight Status'' (len_fixed 2) decode_230 encode_230,
      uap_entry.make 22 ''I048/260'' ''ACAS Resolution Advisory Report'' ''ACAS Resolution Advisory Report''
        (len_fixed 7) decode_260 encode_260,
      uap_entry.make 23 ''I048/055'' ''Mode-1 Code in Octal Representation'' ''Mode-1 Code in Octal Representation''
        (len_fixed 1) decode_055 encode_055,
      uap_entry.make 24 ''I048/050'' ''Mode-2 Code in Octal Representation'' ''Mode-2 Code in Octal Representation''
        (len_fixed 2) decode_mode_code_2octet encode_mode_code_2octet,
      uap_entry.make 25 ''I048/065'' ''Mode-1 Code Confidence Indicator'' ''Mode-1 Code Confidence Indicator''
        (len_fixed 1) decode_065 encode_065,
      uap_entry.make 26 ''I048/060'' ''Mode-2 Code Confidence Indicator'' ''Mode-2 Code Confidence Indicator''
        (len_fixed 2) decode_060 encode_060,
      uap_entry.make 27 ''SP'' ''Special Purpose Field'' ''Special Purpose Field''
        len_explicit decode_explicit encode_explicit,
      uap_entry.make 28 ''RE'' ''Reserved Expansion Field'' ''Reserved Expansion Field''
        len_explicit decode_explicit encode_explicit]"

definition UAP_BY_FRN :: "int \<Rightarrow> uap_entry option" where
  "UAP_BY_FRN frn = find (\<lambda>e. ue_frn e = frn) UAP"

definition ENCODERS :: "string \<Rightarrow> (item048 \<Rightarrow> cat048_error + bytes) option" where
  "ENCODERS item = map_option ue_encode (find (\<lambda>e. ue_item e = item) (rev UAP))"

definition MANDATORY_ITEMS :: "string list" where
  "MANDATORY_ITEMS = [''I048/010'', ''I048/020'']"

section \<open>A block\<close>

type_synonym item_dict = "(string, item048) dict"

record parsed_record =
  pc_index :: nat
  pc_fspec :: string
  pc_items :: item_dict
  pc_item_octets :: "(string, string) dict"
  pc_record_count :: "nat option"

record parsed_block =
  pb_category :: int
  pb_length :: int
  pb_record_count :: nat
  pb_records :: "parsed_record list"

text \<open>One item: its entry, its length, its octets and what they decode to.\<close>

definition parse_item :: "bytes \<Rightarrow> nat \<Rightarrow> nat \<Rightarrow> int \<Rightarrow> nat \<Rightarrow> cat048_error + string \<times> bytes \<times> item048" where
  "parse_item data start index frn pos =
     (case UAP_BY_FRN frn of
        None \<Rightarrow> Inl (refuse_block (FrnUndefined index frn) data start)
      | Some e \<Rightarrow>
          rbind (ue_rule e data pos) (\<lambda>n.
          let block = take n (drop pos data) in
          if length block \<noteq> n then Inl (refuse_block (ItemTruncated index (ue_item e) n (length block)) data pos)
          else rbind (ue_decode e block) (\<lambda>v. Inr (ue_item e, block, v))))"

fun parse_items ::
    "bytes \<Rightarrow> nat \<Rightarrow> nat \<Rightarrow> int list \<Rightarrow> nat \<Rightarrow> item_dict \<Rightarrow> (string, string) dict \<Rightarrow>
     cat048_error + item_dict \<times> (string, string) dict \<times> nat" where
  "parse_items data start index [] pos items octets = Inr (items, octets, pos)"
| "parse_items data start index (frn # frns) pos items octets =
     rbind (parse_item data start index frn pos) (\<lambda>(name, block, v).
     parse_items data start index frns (pos + length block) (AList.update name v items)
       (AList.update name (hex block) octets))"

definition is_track_end :: "item_dict \<Rightarrow> bool" where
  "is_track_end items =
     (case map_of items ''I048/170'' of
        Some (I170 r) \<Rightarrow> (case extent r of Some e \<Rightarrow> tre e \<noteq> 0 | None \<Rightarrow> False)
      | _ \<Rightarrow> False)"

definition check_mode_s_items :: "item_dict \<Rightarrow> bytes \<Rightarrow> nat \<Rightarrow> nat \<Rightarrow> cat048_error + unit" where
  "check_mode_s_items items data offset index =
     (case map_of items ''I048/020'' of
        Some (I020 r) \<Rightarrow>
          if tr_typ r \<notin> MODE_S_TYP \<or> is_track_end items then Inr ()
          else
            (case find (\<lambda>item. map_of items item = None) [''I048/220'', ''I048/230''] of
               Some item \<Rightarrow> Inl (refuse_block (ModeSItemMissing index (tr_typ r) item) data offset)
             | None \<Rightarrow> Inr ())
      | _ \<Rightarrow> Inl (Py_KeyError ''I048/020''))"

definition parse_record :: "bytes \<Rightarrow> nat \<Rightarrow> nat \<Rightarrow> cat048_error + parsed_record \<times> nat" where
  "parse_record data offset index =
     (case read_fspec data offset of
        Inl fault \<Rightarrow> Inl (refuse_block (FspecRefused index fault) data offset)
      | Inr (frns, fspec, pos) \<Rightarrow>
          rbind (parse_items data offset index frns pos [] []) (\<lambda>(items, octets, pos).
          let missing = filter (\<lambda>item. map_of items item = None) MANDATORY_ITEMS in
          if missing \<noteq> [] then Inl (refuse_block (MissingItems index missing) data offset)
          else
            rbind (check_mode_s_items items data offset index) (\<lambda>_.
            Inr (\<lparr>pc_index = index, pc_fspec = hex fspec, pc_items = items, pc_item_octets = octets,
                  pc_record_count = None\<rparr>, pos))))"

text \<open>A record takes at least its first FSPEC octet.\<close>

lemma fspec_loop_advances: "fspec_loop data start offset frns = Inr (fs, octets, pos) \<Longrightarrow> offset < pos"
proof (induction data start offset frns rule: fspec_loop.induct)
  case (1 data start offset frns)
  from 1(2) show ?case
    by (subst (asm) fspec_loop.simps) (auto simp: Let_def split: if_splits dest: 1(1) [OF _ refl refl refl])
qed

lemma parse_items_advances:
  "parse_items data start index frns pos items octets = Inr (items', octets', pos') \<Longrightarrow> pos \<le> pos'"
  by (induction frns arbitrary: pos items octets) (fastforce simp: rbind_eq_Inr_iff)+

lemma parse_record_advances: "parse_record data offset index = Inr (r, pos) \<Longrightarrow> offset < pos"
  by (auto simp: parse_record_def read_fspec_def rbind_eq_Inr_iff Let_def split: sum.splits if_splits
      dest!: fspec_loop_advances parse_items_advances)

function parse_records :: "bytes \<Rightarrow> nat \<Rightarrow> parsed_record list \<Rightarrow> cat048_error + parsed_record list" where
  "parse_records data offset records =
     (if offset < length data then
        (case parse_record data offset (length records) of
           Inl e \<Rightarrow> Inl e
         | Inr (r, pos) \<Rightarrow> parse_records data pos (records @ [r]))
      else Inr records)"
  by pat_completeness auto
termination
  by (relation "measure (\<lambda>(data, offset, records). length data - offset)")
    (auto dest: parse_record_advances intro!: diff_less_mono2)

declare parse_records.simps [simp del]

definition CATEGORY :: int where "CATEGORY = 48"
definition BLOCK_HEADER_OCTETS :: nat where "BLOCK_HEADER_OCTETS = 3"

definition parse_block :: "bytes \<Rightarrow> cat048_error + parsed_block" where
  "parse_block data =
     (if length data < BLOCK_HEADER_OCTETS then Inl (BlockTooShort data)
      else
        (let category = uint (data ! 0) in
         if category \<noteq> CATEGORY then Inl (refuse_block (CategoryForeign category) data 0)
         else
           rbind (number_at data 1 2) (\<lambda>stated.
           if stated \<noteq> int (length data) then Inl (refuse_block (LengthDiffers stated (length data)) data 1)
           else
             rbind (parse_records data BLOCK_HEADER_OCTETS []) (\<lambda>records.
             if records = [] then Inl (BlockEmpty stated data)
             else
               Inr \<lparr>pb_category = category, pb_length = stated, pb_record_count = length records,
                    pb_records = map (pc_record_count_update (\<lambda>_. Some (length records))) records\<rparr>))))"

section \<open>Back to octets\<close>

definition get_key :: "string \<Rightarrow> 'a option \<Rightarrow> cat048_error + 'a" where
  "get_key name v = (case v of Some x \<Rightarrow> Inr x | None \<Rightarrow> Inl (Py_KeyError name))"

definition build_item :: "parsed_record \<Rightarrow> int \<Rightarrow> cat048_error + bytes" where
  "build_item r frn =
     rbind (get_key ''UAP_BY_FRN'' (UAP_BY_FRN frn)) (\<lambda>e.
     let item = ue_item e in
     rbind (get_key item (map_of (pc_items r) item)) (\<lambda>parsed.
     rbind (get_key item (ENCODERS item)) (\<lambda>encode.
     rbind (encode parsed) (\<lambda>emitted.
     case map_of (pc_item_octets r) item of
       None \<Rightarrow> Inr emitted
     | Some parked \<Rightarrow>
         if hex emitted \<noteq> parked then Inl (ReencodingDiffers item (hex emitted) parked) else Inr emitted))))"

definition build_record :: "parsed_record \<Rightarrow> cat048_error + bytes" where
  "build_record r =
     rbind (hex_out (pc_fspec r)) (\<lambda>fspec.
     rbind (in_codec (read_fspec fspec 0)) (\<lambda>(frns, _, _).
     rbind (rmap (build_item r) frns) (\<lambda>items. Inr (fspec @ concat items))))"

definition build_block :: "parsed_record list \<Rightarrow> cat048_error + bytes" where
  "build_block records =
     rbind (rmap build_record records) (\<lambda>parts.
     let body = concat parts in
     rbind (number_out (int (length body + BLOCK_HEADER_OCTETS)) 2) (\<lambda>len.
     Inr (word_of_int CATEGORY # len @ body)))"

end
