(* ===== verification/Cat048_Exact.thy ===== *)
theory Cat048_Exact
  imports Cat048_Block
begin

text \<open>
  Every item of the profile is carried without loss: on the octets its length rule finds, the decoder
  returns, and the encoder gives the same octets back. The law is the locale \<open>item_codec\<close>, with
  \<open>fixed_codec\<close> for the items of one width; it is interpreted for the codec of each of the 28 items,
  and \<open>uap_item\<close> states it of whatever entry the profile holds.
\<close>

unbundle bit_operations_syntax

section \<open>Items that lose nothing\<close>

locale item_codec =
  fixes rule :: length_rule and decode :: "bytes \<Rightarrow> cat048_error + 'v" and encode :: "'v \<Rightarrow> cat048_error + bytes"
  assumes exact: "rule data pos = Inr n \<Longrightarrow> pos + n \<le> length data \<Longrightarrow>
    \<exists>v. decode (take n (drop pos data)) = Inr v \<and> encode v = Inr (take n (drop pos data))"
begin

lemma never_raises: "rule data pos = Inr n \<Longrightarrow> pos + n \<le> length data \<Longrightarrow> decode (take n (drop pos data)) \<noteq> Inl e"
  using exact by force

lemma reencodes:
  "rule data pos = Inr n \<Longrightarrow> pos + n \<le> length data \<Longrightarrow> decode (take n (drop pos data)) = Inr v \<Longrightarrow>
   encode v = Inr (take n (drop pos data))"
  using exact by force

end

locale fixed_codec =
  fixes width :: nat and decode :: "bytes \<Rightarrow> cat048_error + 'v" and encode :: "'v \<Rightarrow> cat048_error + bytes"
  assumes exact_block: "length block = width \<Longrightarrow> \<exists>v. decode block = Inr v \<and> encode v = Inr block"

sublocale fixed_codec \<subseteq> item_codec "len_fixed width" decode encode
  by unfold_locales (auto simp: len_fixed_def intro!: exact_block)

lemma join_upper_more: "l \<le> k \<Longrightarrow> k < high \<Longrightarrow> upper v high k OR (upper v k l OR x) = upper v high l OR x"
  by (simp add: join_upper flip: or.assoc)

lemmas pack = first_field lowest_field join_upper join_upper_more upper_whole

lemma number_block:
  assumes "length block = w"
  shows "number_at block 0 w = Inr (be_value block)" "number_out (be_value block) w = Inr block"
    "0 \<le> be_value block" "be_value block < 2 ^ (8 * w)"
proof -
  have b: "0 \<le> be_value block" "be_value block < 256 ^ w" using be_value_bounds [of block] assms by auto
  then show "0 \<le> be_value block" "be_value block < 2 ^ (8 * w)" by (simp_all add: power_mult)
  then show "number_at block 0 w = Inr (be_value block)" "number_out (be_value block) w = Inr block"
    using assms to_be_be_value [of block]
    by (auto simp: number_at_def number_out_def read_unsigned_def write_unsigned_def in_codec_def push_bit_of_1)
qed

lemma octet_list: "(\<forall>i < length vs. vs ! i = uint (bs ! i)) \<Longrightarrow> length vs = length bs \<Longrightarrow> octets_out vs = Inr bs"
  unfolding octets_out_def by (auto simp: in_set_conv_nth intro: nth_equalityI)

lemma number_part:
  assumes "pos + w \<le> length block"
  shows "number_at block pos w = Inr (be_value (take w (drop pos block)))"
    "number_out (be_value (take w (drop pos block))) w = Inr (take w (drop pos block))"
    "0 \<le> be_value (take w (drop pos block))" "be_value (take w (drop pos block)) < 2 ^ (8 * w)"
  using assms number_block [of "take w (drop pos block)" w]
  by (auto simp: number_at_def read_unsigned_def in_codec_def)

lemma take_pair: "length block = 4 \<Longrightarrow> take 2 block @ take 2 (drop 2 block) = block"
  using append_take_drop_id [of 2 block] by simp

interpretation item_010: fixed_codec 2 decode_010 encode_010
proof
  fix block :: bytes assume "length block = 2"
  then obtain a b where "block = [a, b]" by (auto simp: length_Suc_conv numeral_2_eq_2)
  then show "\<exists>v. decode_010 block = Inr v \<and> encode_010 v = Inr block"
    by (simp add: decode_010_def encode_010_def octet_at_def octets_out_def)
qed

interpretation item_040: fixed_codec 4 decode_040 encode_040
proof
  fix block :: bytes assume l: "length block = 4"
  show "\<exists>v. decode_040 block = Inr v \<and> encode_040 v = Inr block"
    using number_part [of 0 2 block] number_part [of 2 2 block] l take_pair [OF l]
    by (simp add: decode_040_def encode_040_def append_out_def)
qed

interpretation item_042: fixed_codec 4 decode_042 encode_042
proof
  fix block :: bytes assume l: "length block = 4"
  show "\<exists>v. decode_042 block = Inr v \<and> encode_042 v = Inr block"
    using number_part [of 0 2 block] number_part [of 2 2 block] l take_pair [OF l]
    by (simp add: decode_042_def encode_042_def append_out_def)
qed

interpretation item_200: fixed_codec 4 decode_200 encode_200
proof
  fix block :: bytes assume l: "length block = 4"
  show "\<exists>v. decode_200 block = Inr v \<and> encode_200 v = Inr block"
    using number_part [of 0 2 block] number_part [of 2 2 block] l take_pair [OF l]
    by (simp add: decode_200_def encode_200_def append_out_def)
qed

interpretation item_210: fixed_codec 4 decode_210 encode_210
proof
  fix block :: bytes assume "length block = 4"
  then obtain a b c d where "block = [a, b, c, d]" by (auto simp: length_Suc_conv eval_nat_numeral)
  then show "\<exists>v. decode_210 block = Inr v \<and> encode_210 v = Inr block"
    by (simp add: decode_210_def encode_210_def octet_at_def octets_out_def)
qed

lemma quality_12: "0 \<le> v \<Longrightarrow> from_bits (quality_bits_of v 12) = bits v 12 1"
  using from_bits_of [of 12 12 v] by (simp add: quality_bits_of_def bits_take_bit)

lemma quality_5: "0 \<le> v \<Longrightarrow> from_bits (quality_bits_of v 5) = bits v 5 1"
  using from_bits_of [of 5 5 v] by (simp add: quality_bits_of_def bits_take_bit)

lemma quality_field: "from_bits (quality_bits_of (upper v 12 0) 12) = upper v 12 0"
  using from_bits_of [of 12 12 "upper v 12 0"] by (simp add: quality_bits_of_def upper_def bits_take_bit)

lemma number_field:
  assumes l: "length block = w" and d: "\<And>raw. number_at block 0 w = Inr raw \<Longrightarrow> decode block = Inr (f raw)"
    and e: "\<And>raw. 0 \<le> raw \<Longrightarrow> raw < 2 ^ (8 * w) \<Longrightarrow> encode (f raw) = number_out raw w"
  shows "\<exists>v. decode block = Inr v \<and> encode v = Inr block"
  using number_block [OF l] d e by auto

interpretation mode_code_item: fixed_codec 2 decode_mode_code_2octet encode_mode_code_2octet
  by standard
    (erule number_field, simp add: decode_mode_code_2octet_def, simp add: encode_mode_code_2octet_def pack)

interpretation item_060: fixed_codec 2 decode_060 encode_060
  by standard (erule number_field, simp add: decode_060_def, simp add: encode_060_def quality_12 pack)

interpretation item_090: fixed_codec 2 decode_090 encode_090
  by standard (erule number_field, simp add: decode_090_def Let_def, simp add: encode_090_def pack)

interpretation item_100: fixed_codec 4 decode_100 encode_100
  by standard (erule number_field, simp add: decode_100_def, simp add: encode_100_def quality_field pack)

interpretation item_110: fixed_codec 2 decode_110 encode_110
  by standard (erule number_field, simp add: decode_110_def Let_def, simp add: encode_110_def pack)

interpretation item_140: fixed_codec 3 decode_140 encode_140
  by standard (erule number_field, simp add: decode_140_def, simp add: encode_140_def)

interpretation item_161: fixed_codec 2 decode_161 encode_161
  by standard (erule number_field, simp add: decode_161_def, simp add: encode_161_def pack)

interpretation item_230: fixed_codec 2 decode_230 encode_230
  by standard (erule number_field, simp add: decode_230_def, simp add: encode_230_def pack)

interpretation item_240: fixed_codec 6 decode_240 encode_240
  by standard (erule number_field, simp add: decode_240_def, simp add: encode_240_def)

interpretation item_220: fixed_codec 3 decode_220 encode_220
proof
  fix block :: bytes assume "length block = 3"
  from number_block [OF this] show "\<exists>v. decode_220 block = Inr v \<and> encode_220 v = Inr block"
    by (simp add: decode_220_def encode_220_def)
qed

interpretation item_260: fixed_codec 7 decode_260 encode_260
  by standard (simp add: decode_260_def encode_260_def hex_out_def)

interpretation item_055: fixed_codec 1 decode_055 encode_055
proof
  fix block :: bytes assume "length block = 1"
  then obtain a where "block = [a]" by (auto simp: length_Suc_conv)
  then show "\<exists>v. decode_055 block = Inr v \<and> encode_055 v = Inr block"
    by (simp add: decode_055_def encode_055_def octet_at_def octets_out_def pack)
qed

interpretation item_065: fixed_codec 1 decode_065 encode_065
proof
  fix block :: bytes assume "length block = 1"
  then obtain a where "block = [a]" by (auto simp: length_Suc_conv)
  then show "\<exists>v. decode_065 block = Inr v \<and> encode_065 v = Inr block"
    by (simp add: decode_065_def encode_065_def octet_at_def octets_out_def quality_5 pack)
qed

lemma octets_out_uints: "octets_out (map uint block) = Inr block"
  by (rule octet_list) auto

text \<open>What the length rule of an extending item finds: FX set in every octet but the last.\<close>

definition chained_octets :: "bytes \<Rightarrow> bool" where
  "chained_octets block \<longleftrightarrow> block \<noteq> [] \<and> (\<forall>i < length block. bit (uint (block ! i)) 0 \<longleftrightarrow> Suc i < length block)"

lemma variable_loop_Inr:
  assumes "variable_loop item m data pos n = Inr k" "0 < n"
  shows "n \<le> k \<and> pos + k \<le> length data \<and> (\<forall>i. n \<le> Suc i \<longrightarrow> i < k \<longrightarrow> (bit (uint (data ! (pos + i))) 0 \<longleftrightarrow> Suc i < k)) \<and>
    (\<forall>b. m = Some b \<longrightarrow> k \<le> max n b)"
  using assms
proof (induction item m data pos n rule: variable_loop.induct)
  case (1 item m data pos n)
  show ?case
  proof (cases "uint (data ! (pos + n - 1)) AND FX = 0")
    case True
    with 1(2,3) show ?thesis
      by (subst (asm) variable_loop.simps) (auto simp: FX_def and_one split: if_splits dest!: le_antisym)
  next
    case False
    then have fx: "bit (uint (data ! (pos + (n - 1)))) 0" using 1(3) by (simp add: FX_def and_one)
    from 1(2) False have r: "\<not> length data \<le> pos + n - 1" "\<not> (case m of Some b \<Rightarrow> b \<le> n | None \<Rightarrow> False)"
      "variable_loop item m data pos (n + 1) = Inr k"
      by (subst (asm) (1) variable_loop.simps; auto split: if_splits)+
    from 1(1) [OF r(1) False r(2,3)]
    have ih: "n + 1 \<le> k" "pos + k \<le> length data" "\<forall>b. m = Some b \<longrightarrow> k \<le> max (n + 1) b"
      "\<And>i. n + 1 \<le> Suc i \<Longrightarrow> i < k \<Longrightarrow> bit (uint (data ! (pos + i))) 0 \<longleftrightarrow> Suc i < k" by auto
    have "bit (uint (data ! (pos + i))) 0 \<longleftrightarrow> Suc i < k" if "n \<le> Suc i" "i < k" for i
      using ih(1,4) fx that by (cases "Suc i = n") auto
    with ih r(2) show ?thesis by auto
  qed
qed

lemma len_variable_chained:
  assumes "len_variable item m data pos = Inr k"
  shows "chained_octets (take k (drop pos data))" "m = Some b \<Longrightarrow> 0 < b \<Longrightarrow> length (take k (drop pos data)) \<le> b"
  using variable_loop_Inr [OF assms [unfolded len_variable_def]] by (auto simp: chained_octets_def)

lemma fx_octet: "push_bit 1 (bits (uint b) 8 2) OR of_bool (bit (uint b) 0) = uint (b :: byte)"
  using upper_octet [of "uint b"] by (simp add: first_field del: push_bit_Suc)

lemma chained_fx:
  "chained_octets b \<Longrightarrow> i < length b \<Longrightarrow> (if Suc i = length b then 0 else FX) = of_bool (bit (uint (b ! i)) 0)"
  by (auto simp: chained_octets_def FX_def)

lemma chained_codec:
  assumes "\<And>b. chained_octets b \<Longrightarrow> (case m of Some k \<Rightarrow> length b \<le> k | None \<Rightarrow> True) \<Longrightarrow>
      \<exists>v. decode b = Inr v \<and> encode v = Inr b" and "m \<noteq> Some 0"
  shows "item_codec (len_variable item m) decode encode"
proof
  fix data pos n assume "len_variable item m data pos = Inr n"
  from len_variable_chained [OF this] assms(2)
  show "\<exists>v. decode (take n (drop pos data)) = Inr v \<and> encode v = Inr (take n (drop pos data))"
    by (intro assms(1)) (auto split: option.splits)
qed

lemma exact_030: assumes c: "chained_octets b" shows "\<exists>v. decode_030 b = Inr v \<and> encode_030 v = Inr b"
proof -
  let ?codes = "map (\<lambda>octet. let code = bits (uint octet) 8 2 in (code, map_of WARNING_ERROR_TEXT code)) b"
  have "(if i = length b - 1 then 0 else FX) = of_bool (bit (uint (b ! i)) 0)" if "i < length b" for i
    using c that unfolding chained_octets_def FX_def by auto
  then have "octets_out (map (\<lambda>(index, code, text). push_bit 1 code OR (if index = length ?codes - 1 then 0 else FX))
      (enumerate 0 ?codes)) = Inr b"
    using fx_octet by (intro octet_list) (auto simp: nth_enumerate_eq Let_def simp del: push_bit_Suc)
  then show ?thesis by (simp add: decode_030_def encode_030_def)
qed

interpretation item_030: item_codec "len_variable ''I048/030'' None" decode_030 encode_030
  by (rule chained_codec) (simp_all add: exact_030)

lemma entry_covers: "k \<in> set (map fst table) \<Longrightarrow> \<exists>text. entry name table k = Inr text"
  by (auto simp: entry_def split: option.splits dest: weak_map_of_SomeI)

lemma few_bits: "bits v 3 2 \<in> {0, 1, 2, 3}" "bits v 7 6 \<in> {0, 1, 2, 3}" "bits v 8 6 \<in> {0, 1, 2, 3, 4, 5, 6, 7}"
  using bits_nonneg [of v 3 2] bits_less [of v 3 2] bits_nonneg [of v 7 6] bits_less [of v 7 6]
    bits_nonneg [of v 8 6] bits_less [of v 8 6] by (simp_all del: bits_nonneg bits_less; arith)+

lemma texts_cover:
  "\<exists>text. entry ''FOE_FRI_TEXT'' FOE_FRI_TEXT (bits v 3 2) = Inr text"
  "\<exists>text. entry ''RAD_TEXT'' RAD_TEXT (bits v 7 6) = Inr text"
  "\<exists>text. entry ''CDM_TEXT'' CDM_TEXT (bits v 3 2) = Inr text"
  "\<exists>text. entry ''TYP_TEXT'' TYP_TEXT (bits v 8 6) = Inr text"
  using few_bits [of v] by (intro entry_covers; simp add: FOE_FRI_TEXT_def RAD_TEXT_def CDM_TEXT_def TYP_TEXT_def)+

lemma exact_extension:
  "\<exists>x. decode_extension index v = Inr x \<and> encode_extension index x = Inr (upper v 8 1)"
proof -
  obtain t where "entry ''FOE_FRI_TEXT'' FOE_FRI_TEXT (bits v 3 2) = Inr t" using texts_cover(1) by blast
  then show ?thesis
    by (simp add: decode_extension_def encode_extension_def Let_def pack del: push_bit_Suc One_nat_def)
qed

lemma exact_020:
  assumes c: "chained_octets b"
  shows "\<exists>v. decode_020 b = Inr v \<and> encode_020 v = Inr b"
proof -
  from c have b: "b \<noteq> []" by (simp add: chained_octets_def)
  then obtain a r where ar: "b = a # r" by (cases b) auto
  obtain t where t: "entry ''TYP_TEXT'' TYP_TEXT (bits (uint a) 8 6) = Inr t" using texts_cover(4) by blast
  obtain exts where e: "rmap (\<lambda>(index, octet). decode_extension index (uint octet)) (enumerate 1 r) = Inr exts"
      "list_all2 (\<lambda>(index, octet) x. encode_extension index x = Inr (upper (uint octet) 8 1)) (enumerate 1 r) exts"
    using rmap_exact [of "enumerate 1 r" "\<lambda>(index, octet). decode_extension index (uint octet)"
        "\<lambda>(index, octet) x. encode_extension index x = Inr (upper (uint octet) 8 1)"] exact_extension by fastforce
  have len: "length exts = length r" using list_all2_lengthD [OF e(2)] by simp
  have x: "encode_extension (1 + i) (exts ! i) = Inr (upper (uint (r ! i)) 8 1)" if "i < length r" for i
    using list_all2_nthD [OF e(2), of i] that by (simp add: nth_enumerate_eq)
  have fx: "upper (uint (r ! i)) 8 1 OR (if 1 + i = length r then 0 else FX) = uint (r ! i)" if "i < length r" for i
  proof -
    have "bit (uint ((a # r) ! Suc i)) 0 \<longleftrightarrow> Suc (Suc i) < length (a # r)"
      using c that unfolding ar chained_octets_def by (metis Suc_less_eq length_Cons)
    then have "(if 1 + i = length r then 0 else FX) = of_bool (bit (uint (r ! i)) 0)"
      using that by (auto simp: FX_def)
    then show ?thesis using upper_octet [of "uint (r ! i)"] by (simp only: uint_byte_bounds)
  qed
  have "rmap (\<lambda>(index, ext). rbind (encode_extension index ext) (\<lambda>octet.
      Inr (octet OR (if index = length exts then 0 else FX)))) (enumerate 1 exts) = Inr (map uint r)"
    by (rule rmap_nth) (simp_all add: len nth_enumerate_eq x fx del: One_nat_def split del: if_split)
  moreover have "upper (uint a) 8 1 OR (if exts \<noteq> [] then FX else 0) = uint a"
  proof -
    have "(if exts \<noteq> [] then FX else 0) = of_bool (bit (uint a) 0)"
      using c len unfolding ar chained_octets_def FX_def by auto
    then show ?thesis using upper_octet [of "uint a"] by (simp only: uint_byte_bounds)
  qed
  ultimately have "encode_020 (I020 \<lparr>tr_typ = bits (uint a) 8 6, typ_text = t, sim = flag (uint a) 5,
      rdp = bits (uint a) 4 4, spi = flag (uint a) 3, rab = flag (uint a) 2, extensions = exts\<rparr>) = Inr b"
    using octets_out_uints [of b]
    by (simp add: encode_020_def ar Let_def pack del: push_bit_Suc One_nat_def split del: if_split)
  moreover have "decode_020 b = Inr (I020 \<lparr>tr_typ = bits (uint a) 8 6, typ_text = t, sim = flag (uint a) 5,
      rdp = bits (uint a) 4 4, spi = flag (uint a) 3, rab = flag (uint a) 2, extensions = exts\<rparr>)"
    using e(1) t by (simp add: decode_020_def octet_at_def ar)
  ultimately show ?thesis by blast
qed

interpretation item_020: item_codec "len_variable ''I048/020'' (Some 6)" decode_020 encode_020
  by (rule chained_codec) (simp_all add: exact_020)

lemma exact_170:
  assumes c: "chained_octets b" and l: "length b \<le> 2"
  shows "\<exists>v. decode_170 b = Inr v \<and> encode_170 v = Inr b"
proof -
  obtain a r where b: "b = a # r" using c by (cases b) (auto simp: chained_octets_def)
  obtain t u where t: "entry ''RAD_TEXT'' RAD_TEXT (bits (uint a) 7 6) = Inr t" 
    "entry ''CDM_TEXT'' CDM_TEXT (bits (uint a) 3 2) = Inr u" using texts_cover(2,3) by metis
  have o: "upper (uint x) 8 1 OR (if bit (uint x) 0 then FX else 0) = uint x" for x :: byte
    using upper_octet [of "uint x"] by (auto simp: FX_def split: if_splits)
  show ?thesis
  proof (cases r)
    case Nil
    then have "\<not> bit (uint a) 0" using c b by (simp add: chained_octets_def)
    then have "upper (uint a) 8 1 = uint a" using o [of a] by simp
    then show ?thesis using octets_out_uints [of b] Nil b t
      by (simp add: decode_170_def encode_170_def octet_at_def pack del: push_bit_Suc One_nat_def)
  next
    case (Cons d r')
    then have r: "r = [d]" using l b by simp
    with b c have "bit (uint a) 0" "\<not> bit (uint d) 0"
      by (auto simp: chained_octets_def less_Suc_eq dest: spec [of _ 0] spec [of _ 1])
    then have "upper (uint a) 8 1 OR FX = uint a" "upper (uint d) 8 1 = uint d" using o [of a] o [of d] by simp_all
    then show ?thesis using octets_out_uints [of b] r b t
      by (simp add: decode_170_def encode_170_def octet_at_def decode_extent_def extent_out_def pack del: push_bit_Suc One_nat_def)
  qed
qed

interpretation item_170: item_codec "len_variable ''I048/170'' (Some 2)" decode_170 encode_170
  by (rule chained_codec) (simp_all add: exact_170)

lemma block_Cons:
  "pos < length data \<Longrightarrow> take (Suc n) (drop pos data) = data ! pos # take n (drop (Suc pos) data)"
  by (simp add: Cons_nth_drop_Suc [symmetric])

interpretation item_explicit: item_codec len_explicit decode_explicit encode_explicit
proof
  fix data pos n assume l: "len_explicit data pos = Inr n"
  then have n: "pos < length data" "1 \<le> uint (data ! pos)" "n = nat (uint (data ! pos))"
    by (auto simp: len_explicit_def Let_def split: if_splits)
  then have "n \<noteq> 0" by linarith
  then obtain m where "n = Suc m" by (cases n) auto
  with n(1) have "take n (drop pos data) = data ! pos # take m (drop (Suc pos) data)" by (simp add: block_Cons)
  then show "\<exists>v. decode_explicit (take n (drop pos data)) = Inr v \<and> encode_explicit v = Inr (take n (drop pos data))"
    by (simp add: decode_explicit_def encode_explicit_def octet_at_def octets_out_def append_out_def hex_out_def)
qed

lemma number_at_drop:
  "pos + w \<le> length block \<Longrightarrow> number_at (a # block) (Suc pos) w = number_at block pos w"
  by (simp add: number_at_def read_unsigned_def)

lemma exact_cal:
  assumes "length block = 2"
  shows "\<exists>c. decode_cal block 0 = Inr c \<and> cal_out (Some c) = Inr block"
  by (rule number_field [OF assms, of "\<lambda>b. decode_cal b 0"])
    (simp add: decode_cal_def Let_def, simp add: cal_out_def pack)

lemma exact_rds:
  assumes "length block = 7"
  shows "\<exists>c. decode_rds block 0 = Inr c \<and> rds_out (Some c) = Inr block"
proof -
  obtain a r where b: "block = a # r" "length r = 6" using assms by (cases block) auto
  have "take 2 r @ take 2 (drop 2 r) @ take 2 (drop 4 r) = r"
    using b(2) by (auto simp: length_Suc_conv eval_nat_numeral)
  then show ?thesis
    using number_part [of 0 2 r] number_part [of 2 2 r] number_part [of 4 2 r] b
    by (simp add: decode_rds_def rds_out_def octet_at_def octets_out_def append_out_def
        number_at_drop [of 0, simplified] number_at_drop [of 2, simplified] number_at_drop [of 4, simplified])
qed


lemma number_at_from:
  "pos + k + w \<le> length block \<Longrightarrow> number_at block (pos + k) w = number_at (drop pos block) k w"
  by (auto simp: number_at_def read_unsigned_def in_codec_def add.commute split: if_splits)

lemma cal_at: "pos + 2 \<le> length block \<Longrightarrow> decode_cal block pos = decode_cal (drop pos block) 0"
  using number_at_from [of pos 0 2 block] by (simp add: decode_cal_def)

lemma rds_at: "pos + 7 \<le> length block \<Longrightarrow> decode_rds block pos = decode_rds (drop pos block) 0"
  using number_at_from [of pos 1 2 block] number_at_from [of pos 3 2 block] number_at_from [of pos 5 2 block]
  by (simp add: decode_rds_def octet_at_def)

lemma cal_take: "2 \<le> length block \<Longrightarrow> decode_cal block 0 = decode_cal (take 2 block) 0"
  by (simp add: decode_cal_def number_at_def read_unsigned_def)

lemma exact_120:
  assumes b: "block = p # r" and s: "bits (uint p) 6 2 = 0" "\<not> bit (uint p) 0"
    and l: "length r = (if flag (uint p) 8 then 2 else 0) + (if flag (uint p) 7 then 7 else 0)"
  shows "\<exists>v. decode_120 block = Inr v \<and> encode_120 v = Inr block"
proof -
  have "upper (uint p) 8 6 = upper (uint p) 8 6 OR upper (uint p) 6 1"
    using s(1) by (simp add: upper_def numeral_2_eq_2)
  then have "upper (uint p) 8 6 = uint p"
    using s(2) upper_octet [of "uint p"] by (simp add: join_upper)
  then have p: "octets_out [push_bit 7 (of_bool (flag (uint p) 8)) OR push_bit 6 (of_bool (flag (uint p) 7))] = Inr [p]"
    using octets_out_uints [of "[p]"] by (simp add: pack)
  obtain c where c: "flag (uint p) 8 \<Longrightarrow> decode_cal r 0 = Inr c \<and> cal_out (Some c) = Inr (take 2 r)"
    using exact_cal [of "take 2 r"] cal_take [of r] l by (cases "flag (uint p) 8") auto
  let ?k = "if flag (uint p) 8 then 2 else 0"
  obtain d where d: "flag (uint p) 7 \<Longrightarrow> decode_rds (drop ?k r) 0 = Inr d \<and> rds_out (Some d) = Inr (drop ?k r)"
    using exact_rds [of "drop ?k r"] l by (cases "flag (uint p) 7") auto
  let ?v = "I120 \<lparr>primary_cal = flag (uint p) 8, primary_rds = flag (uint p) 7,
    rd_cal = (if flag (uint p) 8 then Some c else None), rd_rds = (if flag (uint p) 7 then Some d else None)\<rparr>"
  have "decode_120 block = Inr ?v"
    using c d l cal_at [of 1 block] rds_at [of 1 block] rds_at [of 3 block]
    by (auto simp: decode_120_def octet_at_def optionally_def b numeral_3_eq_3 numeral_2_eq_2)
  moreover have "encode_120 ?v = Inr block"
    using c d l p by (auto simp: encode_120_def append_out_def b split: if_splits)
  ultimately show ?thesis by blast
qed

interpretation item_120: item_codec len_120 decode_120 encode_120
proof
  fix data pos n assume l: "len_120 data pos = Inr n" and e: "pos + n \<le> length data"
  then have n: "pos < length data" "bits (uint (data ! pos)) 6 2 = 0" "\<not> bit (uint (data ! pos)) 0"
    "n = Suc ((if flag (uint (data ! pos)) 8 then 2 else 0) + (if flag (uint (data ! pos)) 7 then 7 else 0))"
    by (auto simp: len_120_def Let_def FX_def and_one split: if_splits)
  from n(4) e show "\<exists>v. decode_120 (take n (drop pos data)) = Inr v \<and> encode_120 v = Inr (take n (drop pos data))"
    by (intro exact_120 [OF _ n(2,3)]) (simp only: block_Cons [OF n(1)], simp)
qed


lemma ones_step: "ones n = n mod 2 + ones (n div 2)"
  by (cases "n = 0") (simp_all add: ones.simps [of n] ones.simps [of 0])

lemma ones_bits: "n < 2 ^ k \<Longrightarrow> ones n = (\<Sum>i<k. of_bool (bit n i))"
proof (induction k arbitrary: n)
  case 0
  then show ?case by (simp add: ones.simps)
next
  case (Suc k)
  then have "ones (n div 2) = (\<Sum>i<k. of_bool (bit (n div 2) i))" by (intro Suc.IH) simp
  then show ?case
    by (simp add: ones_step [of n] sum.lessThan_Suc_shift bit_0 bit_Suc mod_2_eq_odd del: sum.lessThan_Suc)
qed

lemma length_filter_of_bool: "length (filter P xs) = sum_list (map (\<lambda>x. of_bool (P x)) xs)"
  by (induction xs) auto

lemma subfields_exact:
  assumes "distinct (map fst subs)" "pos + length (filter (\<lambda>name. map_of present name = Some True) (map fst subs)) \<le> length block"
  shows "\<exists>ss. decode_subfields subs present block pos = Inr ss \<and>
    map fst ss = filter (\<lambda>name. map_of present name = Some True) (map fst subs) \<and>
    map (\<lambda>s. fst (snd s)) ss = map uint (take (length ss) (drop pos block))"
  using assms
proof (induction subs arbitrary: pos)
  case (Cons sub subs)
  obtain name key form where s: "sub = (name, key, form)" by (cases sub)
  show ?case
  proof (cases "map_of present name = Some True")
    case True
    with Cons.prems s have "pos < length block" by simp
    moreover obtain ss where "decode_subfields subs present block (pos + 1) = Inr ss"
      "map fst ss = filter (\<lambda>name. map_of present name = Some True) (map fst subs)"
      "map (\<lambda>s. fst (snd s)) ss = map uint (take (length ss) (drop (pos + 1) block))"
      using Cons.IH [of "pos + 1"] Cons.prems True s by auto
    ultimately show ?thesis using True s by (simp add: octet_at_def block_Cons)
  next
    case False
    with Cons.IH [of pos] Cons.prems s show ?thesis by simp
  qed
qed simp

lemma if_or_bit: "(if bit v k then x OR push_bit k 1 else x) = x OR push_bit k (bits v (Suc k) (Suc k))" for v :: int
  by (simp add: bits_single)

lemma primary_130:
  fixes v :: int
  assumes "0 \<le> v" "v < 256" "\<not> bit v 0"
  shows "foldl (\<lambda>p (index, name, key, form). if bit v (7 - index) then p OR push_bit (7 - index) 1 else p) 0
     (enumerate 0 SUBFIELDS_130) = v"
proof -
  have "upper v 8 1 = v" using upper_octet [OF assms(1,2)] assms(3) by simp
  then show ?thesis
    by (simp add: SUBFIELDS_130_def if_or_bit pack del: push_bit_Suc One_nat_def)
qed


lemma names_130: "map fst SUBFIELDS_130 = [''srl'', ''srr'', ''sam'', ''prl'', ''pam'', ''rpd'', ''apd'']"
  by (simp add: SUBFIELDS_130_def)

definition present_130 :: "int \<Rightarrow> (string \<times> bool) list" where
  "present_130 p = map (\<lambda>(index, name, key, form). (name, p AND push_bit (7 - index) 1 \<noteq> 0)) (enumerate 0 SUBFIELDS_130)"

lemma and_flag: "p AND push_bit k 1 \<noteq> 0 \<longleftrightarrow> bit p k" for p :: int
  unfolding and_single by (simp add: push_bit_eq_0_iff)

lemma present_130_bits: "present_130 p = map (\<lambda>(index, name, key, form). (name, bit p (7 - index))) (enumerate 0 SUBFIELDS_130)"
  unfolding present_130_def and_flag ..

lemma present_130_lookup:
  "map_of (present_130 p) ''srl'' = Some (bit p 7)" "map_of (present_130 p) ''srr'' = Some (bit p 6)"
  "map_of (present_130 p) ''sam'' = Some (bit p 5)" "map_of (present_130 p) ''prl'' = Some (bit p 4)"
  "map_of (present_130 p) ''pam'' = Some (bit p 3)" "map_of (present_130 p) ''rpd'' = Some (bit p 2)"
  "map_of (present_130 p) ''apd'' = Some (bit p 1)"
  by (simp_all add: present_130_bits SUBFIELDS_130_def)

lemma primary_130_lookup:
  assumes "0 \<le> v" "v < 256" "\<not> bit v 0"
  shows "foldl (\<lambda>p (index, name, key, form). if map_of (present_130 v) name = Some True then p OR push_bit (7 - index) 1 else p) 0
     (enumerate 0 SUBFIELDS_130) = v"
  using primary_130 [OF assms]
  by (simp add: SUBFIELDS_130_def present_130_lookup del: push_bit_Suc One_nat_def split del: if_split)

lemma count_130:
  assumes "\<not> bit v 0" "0 \<le> v" "v < 256"
  shows "length (filter (\<lambda>name. map_of (present_130 v) name = Some True) (map fst SUBFIELDS_130)) = ones (nat (drop_bit 1 v))"
proof -
  have "nat (drop_bit 1 v) < 2 ^ 7" using assms by (simp add: drop_bit_Suc)
  moreover have "bit (nat (drop_bit 1 v)) i \<longleftrightarrow> bit v (Suc i)" for i
    using assms by (simp add: bit_nat_iff bit_drop_bit_eq)
  ultimately have "ones (nat (drop_bit 1 v)) = (\<Sum>i<7. of_bool (bit v (Suc i)))"
    using ones_bits [of "nat (drop_bit 1 v)" 7] by simp
  also have "\<dots> = of_bool (bit v 1) + of_bool (bit v 2) + of_bool (bit v 3) + of_bool (bit v 4) + of_bool (bit v 5)
      + of_bool (bit v 6) + of_bool (bit v 7)"
    by (simp add: lessThan_nat_numeral lessThan_Suc eval_nat_numeral add.commute del: sum_of_bool_eq split del: split_of_bool)
  finally show ?thesis
    by (simp add: length_filter_of_bool names_130 present_130_lookup split del: split_of_bool)
qed

lemma exact_130:
  assumes b: "block = p # r" and s: "\<not> bit (uint p) 0" and l: "length r = ones (nat (drop_bit 1 (uint p)))"
  shows "\<exists>v. decode_130 block = Inr v \<and> encode_130 v = Inr block"
proof -
  let ?here = "\<lambda>name. map_of (present_130 (uint p)) name = Some True"
  let ?names = "filter ?here (map fst SUBFIELDS_130)"
  have n: "length ?names = length r" using count_130 [OF s] l by simp
  have "distinct (map fst SUBFIELDS_130)" by (simp add: names_130)
  from subfields_exact [OF this, of 1 "present_130 (uint p)" block] n b
  obtain ss where ss: "decode_subfields SUBFIELDS_130 (present_130 (uint p)) block 1 = Inr ss" "map fst ss = ?names"
    "map (\<lambda>s. fst (snd s)) ss = map uint (take (length ss) r)" by auto
  have len: "length ss = length r" using n ss(2) by (metis length_map)
  have d: "distinct (map fst ss)" unfolding ss(2) by (simp add: names_130)
  let ?v = "\<lparr>primary = present_130 (uint p), subfields = ss\<rparr>"
  have "subfield_out ?v (?names ! i) = Inr [r ! i]" if "i < length r" for i
  proof -
    obtain name raw rest where x: "ss ! i = (name, raw, rest)" by (cases "ss ! i")
    have "?names ! i = name" using x that len unfolding ss(2) [symmetric] by simp
    moreover have "map_of ss name = Some (raw, rest)"
      using x that len d by (metis map_of_eq_Some_iff nth_mem)
    moreover have "raw = uint (r ! i)"
      using arg_cong [OF ss(3), of "\<lambda>xs. xs ! i"] x that len by simp
    ultimately show ?thesis by (simp add: subfield_out_def octets_out_def)
  qed
  then have "rmap (subfield_out ?v) ?names = Inr (map (\<lambda>b. [b]) r)" using n by (intro rmap_nth) auto
  moreover have "concat (map (\<lambda>b. [b]) r) = r" by (induction r) auto
  ultimately have "encode_130 (I130 ?v) = Inr block"
    using primary_130_lookup [of "uint p"] s octets_out_uints [of "[p]"] b
    by (simp add: encode_130_def append_out_def Let_def)
  moreover have "decode_130 block = Inr (I130 ?v)"
    unfolding decode_130_def present_130_def [symmetric] using ss(1) by (simp add: b octet_at_def)
  ultimately show ?thesis by blast
qed

interpretation item_130: item_codec len_130 decode_130 encode_130
proof
  fix data pos n assume l: "len_130 data pos = Inr n" and e: "pos + n \<le> length data"
  then have n: "pos < length data" "\<not> bit (uint (data ! pos)) 0" "n = Suc (ones (nat (drop_bit 1 (uint (data ! pos)))))"
    by (auto simp: len_130_def Let_def FX_def and_one split: if_splits)
  from n(3) e show "\<exists>v. decode_130 (take n (drop pos data)) = Inr v \<and> encode_130 v = Inr (take n (drop pos data))"
    by (intro exact_130 [OF _ n(2)]) (simp only: block_Cons [OF n(1)], simp)
qed

lemma exact_250:
  assumes b: "block = p # r" and l: "length r = 8 * nat (uint p)"
  shows "\<exists>v. decode_250 block = Inr v \<and> encode_250 v = Inr block"
proof -
  let ?n = "nat (uint p)"
  let ?part = "\<lambda>i. take 8 (drop (8 * i) r)"
  have one: "\<exists>x. decode_register block i = Inr x \<and> register_out x = Inr (?part i)" if "i < ?n" for i
  proof -
    have "8 * Suc i \<le> 8 * ?n" using that by (intro mult_le_mono2) simp
    then have i: "8 * i + 7 < length r" using l by simp
    then have "?part i = take 7 (drop (8 * i) r) @ [r ! (8 * i + 7)]"
      using take_Suc_conv_app_nth [of 7 "drop (8 * i) r"] by simp
    moreover have "octet_at block (1 + i * 8 + 7) = Inr (uint (r ! (8 * i + 7)))"
      "take 7 (drop (1 + i * 8) block) = take 7 (drop (8 * i) r)"
      using i by (simp_all add: octet_at_def b ac_simps)
    moreover have "octets_out [push_bit 4 (bits (uint x) 8 5) OR bits (uint x) 4 1] = Inr [x]" for x :: byte
      using octets_out_uints [of "[x]"] by (simp add: pack del: One_nat_def)
    ultimately show ?thesis
      by (simp add: decode_register_def register_out_def Let_def hex_out_def append_out_def del: One_nat_def)
  qed
  have "\<exists>xs. rmap (decode_register block) [0..<?n] = Inr xs \<and> list_all2 (\<lambda>i x. register_out x = Inr (?part i)) [0..<?n] xs"
    using one by (intro rmap_exact) auto
  then obtain xs where xs: "rmap (decode_register block) [0..<?n] = Inr xs"
    "list_all2 (\<lambda>i x. register_out x = Inr (?part i)) [0..<?n] xs" by blast
  have "length xs = ?n" using list_all2_lengthD [OF xs(2)] by simp
  then have "rmap register_out xs = Inr (map ?part [0..<?n])"
    using list_all2_nthD2 [OF xs(2)] by (intro rmap_nth) auto
  moreover have "concat (map ?part [0..<k]) = take (8 * k) r" for k
    by (induction k) (simp_all add: take_add [symmetric] add.commute)
  ultimately have "encode_250 (I250 \<lparr>rep = uint p, registers = xs\<rparr>) = Inr block"
    using l b octets_out_uints [of "[p]"] by (simp add: encode_250_def append_out_def)
  moreover have "decode_250 block = Inr (I250 \<lparr>rep = uint p, registers = xs\<rparr>)"
    using xs(1) b by (simp add: decode_250_def octet_at_def)
  ultimately show ?thesis by blast
qed

interpretation item_250: item_codec len_250 decode_250 encode_250
proof
  fix data pos n assume l: "len_250 data pos = Inr n" and e: "pos + n \<le> length data"
  then have n: "pos < length data" "n = Suc (8 * nat (uint (data ! pos)))"
    by (auto simp: len_250_def split: if_splits)
  from n(2) e show "\<exists>v. decode_250 (take n (drop pos data)) = Inr v \<and> encode_250 v = Inr (take n (drop pos data))"
    by (intro exact_250) (simp only: block_Cons [OF n(1)], simp)
qed

lemmas item_codecs =
  item_010.item_codec_axioms item_140.item_codec_axioms item_020.item_codec_axioms item_040.item_codec_axioms
  mode_code_item.item_codec_axioms item_090.item_codec_axioms item_130.item_codec_axioms item_220.item_codec_axioms
  item_240.item_codec_axioms item_250.item_codec_axioms item_161.item_codec_axioms item_042.item_codec_axioms
  item_200.item_codec_axioms item_170.item_codec_axioms item_210.item_codec_axioms item_030.item_codec_axioms
  item_060.item_codec_axioms item_100.item_codec_axioms item_110.item_codec_axioms item_120.item_codec_axioms
  item_230.item_codec_axioms item_260.item_codec_axioms item_055.item_codec_axioms item_065.item_codec_axioms
  item_explicit.item_codec_axioms

lemma uap_item:
  assumes "e \<in> set UAP"
  shows "item_codec (ue_rule e) (ue_decode e) (ue_encode e)"
  using assms unfolding UAP_def uap_entry.defs
  by (auto intro: item_codecs simp del: One_nat_def)

end
