(* ===== verification/Cat048_Fspec.thy ===== *)
theory Cat048_Fspec
  imports Cat048_Codec
begin

text \<open>
  The FSPEC of a record: what \<open>read_fspec\<close> returns stands in the octets it read alone, its field
  reference numbers ascend from 1 to 28, and it reads back every list that \<open>write_fspec\<close> wrote.
\<close>

unbundle bit_operations_syntax

section \<open>The FSPEC\<close>

lemma fspec_loop_slice:
  assumes "fspec_loop data start offset frns = Inr (fs, octets, pos)" "start \<le> offset"
  shows "offset < pos \<and> pos \<le> length data \<and> octets = take (pos - start) (drop start data) \<and>
    fspec_loop octets 0 (offset - start) frns = Inr (fs, octets, pos - start)"
  using assms
proof (induction data start offset frns rule: fspec_loop.induct)
  case (1 data start offset frns)
  let ?frns = "frns @ group_frns ((offset - start) * FSPEC_GROUPS) (uint (data ! offset))"
  from 1(2) have o: "offset < length data" by (subst (asm) fspec_loop.simps) (auto split: if_splits)
  show ?case
  proof (cases "uint (data ! offset) AND FX = 0")
    case True
    with 1(2) o have r: "fs = ?frns" "octets = take (offset + 1 - start) (drop start data)" "pos = offset + 1"
      by (subst (asm) (1) fspec_loop.simps; auto simp: Let_def)+
    then have l: "octets ! (offset - start) = data ! offset" "length octets = Suc (offset - start)"
      using o 1(3) by auto
    have "fspec_loop octets 0 (offset - start) frns = Inr (fs, octets, pos - start)"
      using True 1(3) by (simp add: fspec_loop.simps [of octets 0 "offset - start"] Let_def l r(1,3) Suc_diff_le)
    with r 1(3) o show ?thesis by simp
  next
    case False
    with 1(2) o have r: "\<not> MAX_FSPEC_OCTETS \<le> offset + 1 - start"
      "fspec_loop data start (offset + 1) ?frns = Inr (fs, octets, pos)"
      by (subst (asm) (1) fspec_loop.simps; auto simp: Let_def split: if_splits)+
    from 1(1) [OF _ refl refl refl False r] o 1(3)
    have ih: "offset + 1 < pos" "pos \<le> length data" "octets = take (pos - start) (drop start data)"
      "fspec_loop octets 0 (offset + 1 - start) ?frns = Inr (fs, octets, pos - start)" by auto
    have "octets ! (offset - start) = data ! offset" "offset - start < length octets"
      using ih 1(3) by auto
    then have "fspec_loop octets 0 (offset - start) frns = Inr (fs, octets, pos - start)"
      using False r(1) ih(4) 1(3)
      by (simp add: fspec_loop.simps [of octets 0 "offset - start"] Let_def Suc_diff_le)
    with ih 1(3) show ?thesis by simp
  qed
qed

lemma read_fspec_slice:
  assumes "read_fspec data offset = Inr (fs, octets, pos)"
  shows "offset < pos" "pos \<le> length data" "octets = take (pos - offset) (drop offset data)"
    "read_fspec octets 0 = Inr (fs, octets, pos - offset)"
  using fspec_loop_slice [OF assms [unfolded read_fspec_def]] by (auto simp: read_fspec_def)

lemma group_frns_bounds: "f \<in> set (group_frns base v) \<Longrightarrow> int base < f \<and> f \<le> int base + 7"
  by (auto simp: group_frns_def)

lemma group_frns_ascending: "sorted_wrt (<) (group_frns base v)"
proof -
  have "sorted_wrt (\<lambda>a b. b < a) (rev [1..<8 :: nat])" by (simp add: sorted_wrt_rev)
  then have "sorted_wrt (\<lambda>a b. b < a) (filter (\<lambda>k. v AND push_bit k 1 \<noteq> 0) (rev [1..<8 :: nat]))"
    by (rule sorted_wrt_filter)
  then show ?thesis
    unfolding group_frns_def sorted_wrt_map by (rule sorted_wrt_mono_rel [rotated]) auto
qed

lemma fspec_loop_ascending:
  assumes "fspec_loop data start offset frns = Inr (fs, octets, pos)" "start \<le> offset"
    "offset - start < MAX_FSPEC_OCTETS"
    "sorted_wrt (<) frns" "\<forall>f \<in> set frns. 1 \<le> f \<and> f \<le> int ((offset - start) * FSPEC_GROUPS)"
  shows "sorted_wrt (<) fs \<and> (\<forall>f \<in> set fs. 1 \<le> f \<and> f \<le> MAX_FRN)"
  using assms
proof (induction data start offset frns rule: fspec_loop.induct)
  case (1 data start offset frns)
  let ?group = "group_frns ((offset - start) * FSPEC_GROUPS) (uint (data ! offset))"
  have s: "sorted_wrt (<) (frns @ ?group)"
    unfolding sorted_wrt_append
  proof (intro conjI ballI)
    fix f g assume "f \<in> set frns" "g \<in> set ?group"
    then have "f \<le> int ((offset - start) * FSPEC_GROUPS)" "int ((offset - start) * FSPEC_GROUPS) < g"
      using 1(6) group_frns_bounds by blast+
    then show "f < g" by linarith
  qed (rule 1(5), rule group_frns_ascending)
  note low = 1(6)
  have b: "\<forall>f \<in> set (frns @ ?group). 1 \<le> f \<and> f \<le> int ((Suc offset - start) * FSPEC_GROUPS)"
  proof
    fix f assume "f \<in> set (frns @ ?group)"
    then consider "f \<in> set frns" | "f \<in> set ?group" by auto
    then have "1 \<le> f \<and> f \<le> int ((offset - start) * FSPEC_GROUPS) + 7"
    proof cases
      case 1
      from bspec [OF low this] show ?thesis by linarith
    next
      case 2
      moreover have "0 \<le> int ((offset - start) * FSPEC_GROUPS)" by (rule of_nat_0_le_iff)
      ultimately show ?thesis
        using group_frns_bounds [of f "(offset - start) * FSPEC_GROUPS" "uint (data ! offset)"] by linarith
    qed
    moreover have "int ((Suc offset - start) * FSPEC_GROUPS) = int ((offset - start) * FSPEC_GROUPS) + 7"
      using 1(3) by (simp add: FSPEC_GROUPS_def Suc_diff_le)
    ultimately show "1 \<le> f \<and> f \<le> int ((Suc offset - start) * FSPEC_GROUPS)" by linarith
  qed
  from 1(2) have o: "offset < length data" by (subst (asm) fspec_loop.simps) (auto split: if_splits)
  show ?case
  proof (cases "uint (data ! offset) AND FX = 0")
    case True
    with 1(2) o have "fs = frns @ ?group" by (subst (asm) fspec_loop.simps) (auto simp: Let_def)
    moreover have "int ((Suc offset - start) * FSPEC_GROUPS) \<le> 28"
      using 1(4) by (simp add: MAX_FSPEC_OCTETS_def FSPEC_GROUPS_def)
    ultimately have "f \<le> MAX_FRN" if "f \<in> set (frns @ ?group)" for f
      using bspec [OF b that] unfolding MAX_FRN_def by linarith
    with \<open>fs = _\<close> s b show ?thesis by blast
  next
    case False
    with 1(2) o have r: "\<not> MAX_FSPEC_OCTETS \<le> offset + 1 - start"
      "fspec_loop data start (offset + 1) (frns @ ?group) = Inr (fs, octets, pos)"
      by (subst (asm) (1) fspec_loop.simps; auto simp: Let_def split: if_splits)+
    show ?thesis using 1(1) [OF _ refl refl refl False r] o 1(3) r(1) s b by simp
  qed
qed

lemma read_fspec_ascending:
  assumes "read_fspec data offset = Inr (fs, octets, pos)"
  shows "sorted_wrt (<) fs" "\<forall>f \<in> set fs. 1 \<le> f \<and> f \<le> MAX_FRN"
  using fspec_loop_ascending [OF assms [unfolded read_fspec_def]]
  by (auto simp: MAX_FSPEC_OCTETS_def)

section \<open>Writing and reading back\<close>

lemma frn_bit_length [simp]: "length (frn_bit f octets) = length octets"
  by (simp add: frn_bit_def Let_def)

lemma fold_frn_bit_length [simp]: "length (fold frn_bit frns octets) = length octets"
  by (induction frns arbitrary: octets) auto

definition frn_group :: "int \<Rightarrow> nat" where
  "frn_group f = nat ((f - 1) div 7)"

definition frn_place :: "int \<Rightarrow> nat" where
  "frn_place f = nat (8 - ((f - 1) mod 7 + 1))"

lemma bit_fold_frn_bit:
  assumes "i < length octets" "\<forall>f \<in> set frns. frn_group f < length octets"
  shows "bit (fold frn_bit frns octets ! i) k \<longleftrightarrow>
    bit (octets ! i) k \<or> (\<exists>f \<in> set frns. frn_group f = i \<and> frn_place f = k)"
  using assms
proof (induction frns arbitrary: octets)
  case (Cons f frns)
  have "frn_bit f octets = octets[frn_group f := octets ! frn_group f OR push_bit (frn_place f) 1]"
    by (simp add: frn_bit_def frn_group_def frn_place_def FSPEC_GROUPS_def Let_def)
  then have "bit (frn_bit f octets ! i) k \<longleftrightarrow> bit (octets ! i) k \<or> frn_group f = i \<and> frn_place f = k"
    using Cons.prems by (auto simp: nth_list_update bit_or_iff push_bit_of_1 bit_exp_iff)
  with Cons show ?case by auto
qed simp

lemma frn_of_place: "1 \<le> f \<Longrightarrow> frn_group f = i \<Longrightarrow> frn_place f = k \<Longrightarrow> f = int (i * 7 + (8 - k)) \<and> 1 \<le> k \<and> k \<le> 7"
proof -
  assume f: "1 \<le> f" "frn_group f = i" "frn_place f = k"
  have "0 \<le> (f - 1) mod 7" "(f - 1) mod 7 < 7" "0 \<le> (f - 1) div 7" using f(1) by auto
  then have "int k = 7 - (f - 1) mod 7" "int i = (f - 1) div 7" using f(2,3) by (auto simp: frn_group_def frn_place_def)
  moreover have "f - 1 = 7 * ((f - 1) div 7) + (f - 1) mod 7" by simp
  ultimately show ?thesis using \<open>(f - 1) mod 7 < 7\<close> \<open>0 \<le> (f - 1) mod 7\<close> by linarith
qed

lemma place_of_frn:
  assumes "1 \<le> k" "k \<le> 7"
  shows "frn_group (int (i * 7 + (8 - k))) = i" "frn_place (int (i * 7 + (8 - k))) = k"
proof -
  define r where "r = 7 - int k"
  have e: "int (i * 7 + (8 - k)) - 1 = r + int i * 7" using assms by (simp add: r_def)
  have "0 \<le> r" "r < 7" using assms by (simp_all add: r_def)
  then have "(r + int i * 7) mod 7 = r" "(r + int i * 7) div 7 = int i" by simp_all
  then show "frn_group (int (i * 7 + (8 - k))) = i" "frn_place (int (i * 7 + (8 - k))) = k"
    unfolding frn_group_def frn_place_def e by (simp_all add: r_def)
qed

lemma set_group_frns:
  assumes bits: "\<And>k. 0 < k \<Longrightarrow> bit v k \<longleftrightarrow> (\<exists>f \<in> F. frn_group f = i \<and> frn_place f = k)" and pos: "\<forall>f \<in> F. 1 \<le> f"
  shows "set (group_frns (i * FSPEC_GROUPS) v) = {f \<in> F. frn_group f = i}"
proof -
  have g: "set (group_frns (i * FSPEC_GROUPS) v) = {int (i * 7 + (8 - k)) |k. 1 \<le> k \<and> k \<le> 7 \<and> bit v k}"
    unfolding group_frns_def and_single
    by (auto simp: push_bit_eq_0_iff FSPEC_GROUPS_def image_iff split: if_splits) (force intro: exI)+
  show ?thesis
  proof (rule set_eqI, rule iffI)
    fix f assume "f \<in> set (group_frns (i * FSPEC_GROUPS) v)"
    then obtain k where k: "f = int (i * 7 + (8 - k))" "1 \<le> k" "k \<le> 7" "bit v k" unfolding g by blast
    then obtain f' where "f' \<in> F" "frn_group f' = i" "frn_place f' = k" using bits [of k] by auto
    moreover have "f' = f" using frn_of_place [of f' i k] calculation pos k(1) by auto
    ultimately show "f \<in> {f \<in> F. frn_group f = i}" by simp
  next
    fix f assume "f \<in> {f \<in> F. frn_group f = i}"
    then have f: "f \<in> F" "frn_group f = i" by auto
    with pos have "f = int (i * 7 + (8 - frn_place f)) \<and> 1 \<le> frn_place f \<and> frn_place f \<le> 7"
      using frn_of_place [of f i "frn_place f"] by blast
    moreover then have "bit v (frn_place f)" using bits [of "frn_place f"] f by auto
    ultimately show "f \<in> set (group_frns (i * FSPEC_GROUPS) v)" unfolding g by blast
  qed
qed

text \<open>The loop over octets whose continuation bits are those of a whole FSPEC.\<close>

lemma fspec_loop_reads:
  assumes "length octets \<le> MAX_FSPEC_OCTETS" "i < length octets"
    "\<And>j. j < length octets \<Longrightarrow> bit (uint (octets ! j)) 0 \<longleftrightarrow> Suc j < length octets"
  shows "fspec_loop (octets @ rest) 0 i acc =
    Inr (acc @ concat (map (\<lambda>j. group_frns (j * FSPEC_GROUPS) (uint (octets ! j))) [i..<length octets]),
         octets, length octets)"
  using assms(2)
proof (induction "length octets - i" arbitrary: i acc)
  case (Suc n)
  have up: "[i..<length octets] = i # [Suc i..<length octets]" using Suc.prems by (simp add: upt_conv_Cons)
  have fx: "uint (octets ! i) AND FX = 0 \<longleftrightarrow> \<not> Suc i < length octets"
    using assms(3) [OF Suc.prems] by (simp add: FX_def and_one)
  show ?case
  proof (cases "Suc i < length octets")
    case True
    then have "\<not> MAX_FSPEC_OCTETS \<le> Suc i" using assms(1) by simp
    with True fx Suc.prems Suc.hyps(1) [of "Suc i" "acc @ group_frns (i * FSPEC_GROUPS) (uint (octets ! i))"] Suc.hyps(2) up
    show ?thesis by (subst fspec_loop.simps) (simp add: Let_def nth_append)
  next
    case False
    then have "Suc i = length octets" using Suc.prems by simp
    with False fx Suc.prems up show ?thesis
      by (subst fspec_loop.simps) (simp add: Let_def nth_append)
  qed
qed simp

lemma write_fspec_octets:
  assumes "frns \<noteq> []" "\<forall>f \<in> set frns. 1 \<le> f \<and> f \<le> MAX_FRN"
  shows "\<exists>octets. write_fspec frns = Inr octets \<and> octets \<noteq> [] \<and> length octets \<le> MAX_FSPEC_OCTETS \<and>
    (\<forall>f \<in> set frns. frn_group f < length octets) \<and>
    (\<forall>i < length octets. \<forall>k. bit (uint (octets ! i)) k \<longleftrightarrow>
       (if k = 0 then Suc i < length octets else \<exists>f \<in> set frns. frn_group f = i \<and> frn_place f = k))"
proof -
  define n where "n = nat ((Max (set frns) - 1) div 7 + 1)"
  define places where "places = fold frn_bit frns (replicate n 0)"
  define octets :: bytes where "octets = map word_of_int (map (\<lambda>v. v OR FX) (butlast places) @ [last places])"
  have "Max (set frns) \<in> set frns" using assms(1) by simp
  then have m: "1 \<le> Max (set frns)" "Max (set frns) \<le> 28" using assms(2) by (auto simp: MAX_FRN_def)
  then have n: "0 < n" "n \<le> 4" by (auto simp: n_def)
  have group: "frn_group f < n" if "f \<in> set frns" for f
  proof -
    have "f \<le> Max (set frns)" using that by simp
    then have "(f - 1) div 7 \<le> (Max (set frns) - 1) div 7" by (intro zdiv_mono1) auto
    then show ?thesis using m by (auto simp: frn_group_def n_def nat_less_iff)
  qed
  have bit: "bit (places ! i) k \<longleftrightarrow> (\<exists>f \<in> set frns. frn_group f = i \<and> frn_place f = k)" if "i < n" for i k
    using bit_fold_frn_bit [of i "replicate n 0" frns k] that group by (simp add: places_def)
  have len: "length places = n" "length octets = n" using n by (simp_all add: places_def octets_def)
  have low: "0 < k \<and> k < 8" if "i < n" "bit (places ! i) k" for i k
    using that bit [of i k] assms(2) frn_of_place by fastforce
  have "bit (uint (octets ! i)) k \<longleftrightarrow> bit (places ! i) k \<or> k = 0 \<and> Suc i < n" if "i < n" for i k
  proof -
    have "octets ! i = word_of_int (if Suc i < n then places ! i OR FX else places ! i)"
      using that len(1) n last_conv_nth [of places, unfolded length_0_conv [symmetric]]
      by (cases "Suc i < n") (auto simp: octets_def nth_append nth_butlast less_diff_conv not_less le_Suc_eq)
    then show ?thesis
      using low [OF that, of k] by (auto simp: bit_uint_iff bit_word_of_int_iff bit_or_iff FX_def bit_1_iff)
  qed
  then have "bit (uint (octets ! i)) k \<longleftrightarrow>
      (if k = 0 then Suc i < n else \<exists>f \<in> set frns. frn_group f = i \<and> frn_place f = k)" if "i < n" for i k
    using that low [of i 0] bit by auto
  moreover have "write_fspec frns = Inr octets"
    using assms by (auto simp: write_fspec_def octets_def places_def n_def FSPEC_GROUPS_def Let_def filter_empty_conv)
  ultimately show ?thesis using n group len by (intro exI [of _ octets]) (auto simp: MAX_FSPEC_OCTETS_def)
qed

text \<open>
  C6. Every ascending list of field reference numbers of the profile is read back from the octets
  \<open>write_fspec\<close> makes of it, whatever follows them, and reading stops right behind them.
\<close>

theorem fspec_reads_back:
  assumes "frns \<noteq> []" "sorted_wrt (<) frns" "\<forall>f \<in> set frns. 1 \<le> f \<and> f \<le> MAX_FRN"
  shows "\<exists>octets. write_fspec frns = Inr octets \<and> read_fspec (octets @ rest) 0 = Inr (frns, octets, length octets)"
proof -
  obtain octets where w: "write_fspec frns = Inr octets" "octets \<noteq> []" "length octets \<le> MAX_FSPEC_OCTETS"
    "\<forall>f \<in> set frns. frn_group f < length octets"
    "\<And>i k. i < length octets \<Longrightarrow> bit (uint (octets ! i)) k \<longleftrightarrow>
       (if k = 0 then Suc i < length octets else \<exists>f \<in> set frns. frn_group f = i \<and> frn_place f = k)"
    using write_fspec_octets [OF assms(1,3)] by blast
  let ?read = "concat (map (\<lambda>j. group_frns (j * FSPEC_GROUPS) (uint (octets ! j))) [0..<length octets])"
  have r: "read_fspec (octets @ rest) 0 = Inr (?read, octets, length octets)"
    using fspec_loop_reads [OF w(3), of 0 rest "[]"] w(2) w(5) [of _ 0] by (simp add: read_fspec_def)
  have "set (group_frns (j * FSPEC_GROUPS) (uint (octets ! j))) = {f \<in> set frns. frn_group f = j}" if "j < length octets" for j
    using w(5) [OF that] assms(3) by (intro set_group_frns) auto
  then have "set ?read = set frns" using w(4) by auto
  then have "?read = frns" using read_fspec_ascending(1) [OF r] assms(2) by (intro strict_sorted_equal) auto
  with r w(1) show ?thesis by auto
qed

theorem fspec_reads_back_witness:
  "\<exists>octets. write_fspec [1, 3, 8, 28] = Inr octets \<and> read_fspec (octets @ [7]) 0 = Inr ([1, 3, 8, 28], octets, length octets)"
  by (rule fspec_reads_back) (simp_all add: MAX_FRN_def)

end
