(* ===== verification/Cat048_Correct.thy ===== *)
theory Cat048_Correct
  imports Cat048_Exact Cat048_Fspec
begin

text \<open>
  What the block parser of ASTERIX category 048 promises: a block that is read is written back octet
  for octet, a block that is refused is refused with the adapter's own error, the FSPEC of a record is
  read as it was written, and a record of a Mode S target has the items its encoding rule asks for.
\<close>

unbundle bit_operations_syntax

section \<open>One item\<close>

lemma UAP_BY_FRN_Some: "UAP_BY_FRN frn = Some e \<Longrightarrow> e \<in> set UAP \<and> ue_frn e = frn"
  unfolding UAP_BY_FRN_def find_Some_iff by auto

lemma frns_covered: "1 \<le> f \<Longrightarrow> f \<le> MAX_FRN \<Longrightarrow> UAP_BY_FRN f \<noteq> None"
proof -
  have "set (map ue_frn UAP) = set (map int [1..<29])"
    by (simp add: UAP_def uap_entry.defs upt_rec)
  moreover assume "1 \<le> f" "f \<le> MAX_FRN"
  then have "f \<in> set (map int [1..<29])" by (auto simp: MAX_FRN_def image_iff intro!: bexI [of _ "nat f"])
  ultimately have "f \<in> ue_frn ` set UAP" by simp
  then show ?thesis by (auto simp: UAP_BY_FRN_def find_None_iff)
qed

lemma item_names_distinct: "distinct (map ue_item UAP)"
  by (simp add: UAP_def uap_entry.defs)

lemma ENCODERS_item:
  assumes "e \<in> set UAP"
  shows "ENCODERS (ue_item e) = Some (ue_encode e)"
proof -
  have "find (\<lambda>x. ue_item x = ue_item e) (rev UAP) = Some e"
  proof (cases "find (\<lambda>x. ue_item x = ue_item e) (rev UAP)")
    case None
    with assms show ?thesis by (auto simp: find_None_iff)
  next
    case (Some x)
    then have "x \<in> set UAP" "ue_item x = ue_item e" unfolding find_Some_iff by (auto simp: rev_nth)
    with assms item_names_distinct have "x = e" by (auto simp: distinct_map dest: inj_onD)
    with Some show ?thesis by simp
  qed
  then show ?thesis by (simp add: ENCODERS_def)
qed

lemma parse_item_Inr:
  assumes "parse_item data start index frn pos = Inr (name, block, v)" "pos \<le> length data"
  obtains e where "UAP_BY_FRN frn = Some e" "name = ue_item e" "block = take (length block) (drop pos data)"
    "pos + length block \<le> length data" "ue_decode e block = Inr v" "ue_encode e v = Inr block"
proof -
  from assms(1) obtain e n where e: "UAP_BY_FRN frn = Some e" "ue_rule e data pos = Inr n" "name = ue_item e"
    "block = take n (drop pos data)" "length block = n" "ue_decode e block = Inr v"
    by (auto simp: parse_item_def rbind_eq_Inr_iff Let_def split: option.splits if_splits)
  then have "n \<le> length data - pos" by auto
  then have p: "pos + n \<le> length data" using assms(2) by simp
  with e have "ue_encode e v = Inr block"
    using item_codec.reencodes [OF uap_item e(2) p] UAP_BY_FRN_Some [OF e(1)] by auto
  with e p show ?thesis by (intro that [of e]) auto
qed

text \<open>A refusal of the adapter's own about this block.\<close>

definition is_refusal :: "bytes \<Rightarrow> cat048_error \<Rightarrow> bool" where
  "is_refusal data ex \<longleftrightarrow> (\<exists>r offset. ex = refuse_block r data offset)"

lemma is_refusal_refuse [simp]: "is_refusal data (refuse_block r data offset)"
  by (auto simp: is_refusal_def)

lemma parse_item_Inl:
  assumes "parse_item data start index frn pos = Inl ex" "pos \<le> length data"
  shows "is_refusal data ex"
proof -
  have variable: "is_refusal data ex" if "variable_loop item m data pos n = Inl ex" for item m n
    using that
    by (induction item m data pos n rule: variable_loop.induct)
      (subst (asm) (2) variable_loop.simps, auto split: if_splits option.splits)
  show ?thesis
  proof (cases "UAP_BY_FRN frn")
    case None
    with assms show ?thesis by (auto simp: parse_item_def)
  next
    case (Some e)
    then have e: "e \<in> set UAP" using UAP_BY_FRN_Some by blast
    show ?thesis
    proof (cases "ue_rule e data pos")
      case (Inl ex')
      with assms Some have "ex' = ex" by (simp add: parse_item_def)
      with Inl e show ?thesis
        by (auto simp: UAP_def uap_entry.defs len_fixed_def len_variable_def len_explicit_def len_120_def len_130_def
            len_250_def Let_def dest: variable split: if_splits)
    next
      case (Inr n)
      show ?thesis
      proof (cases "length (take n (drop pos data)) = n")
        case False
        with assms(1) Some Inr show ?thesis by (auto simp: parse_item_def Let_def simp del: length_take length_drop)
      next
        case True
        then have "n \<le> length data - pos" by auto
        then have "pos + n \<le> length data" using assms(2) by simp
        from item_codec.exact [OF uap_item [OF e] Inr this] True Some Inr assms(1)
        show ?thesis by (auto simp: parse_item_def Let_def)
      qed
    qed
  qed
qed

section \<open>The items of a record\<close>

lemma slice_append:
  assumes "a \<le> b" "b \<le> c"
  shows "take (b - a) (drop a xs) @ take (c - b) (drop b xs) = take (c - a) (drop a xs)"
proof -
  have "c - a = (b - a) + (c - b)" using assms by simp
  then show ?thesis using assms(1) by (simp only: take_add drop_drop) simp
qed

definition frn_names :: "int list \<Rightarrow> string set" where
  "frn_names frns = {ue_item e |e. \<exists>f \<in> set frns. UAP_BY_FRN f = Some e}"

lemma parse_items_keep:
  "parse_items data start index frns pos items octets = Inr (items', octets', pos') \<Longrightarrow> name \<notin> frn_names frns \<Longrightarrow>
   map_of items' name = map_of items name \<and> map_of octets' name = map_of octets name"
proof (induction frns arbitrary: pos items octets)
  case (Cons frn frns)
  from Cons.prems(1) obtain n block v where i: "parse_item data start index frn pos = Inr (n, block, v)"
    "parse_items data start index frns (pos + length block) (AList.update n v items) (AList.update n (hex block) octets) =
       Inr (items', octets', pos')" by (auto simp: rbind_eq_Inr_iff)
  from i(1) have "n \<in> frn_names (frn # frns)"
    by (auto simp: parse_item_def frn_names_def rbind_eq_Inr_iff Let_def split: option.splits if_splits)
  with Cons.prems(2) have "name \<noteq> n" "name \<notin> frn_names frns" by (auto simp: frn_names_def)
  with Cons.IH [OF i(2)] show ?case by simp
qed simp

definition written :: "item_dict \<Rightarrow> (string, string) dict \<Rightarrow> int \<Rightarrow> bytes \<Rightarrow> bool" where
  "written items octets frn block \<longleftrightarrow>
     (\<exists>e v. UAP_BY_FRN frn = Some e \<and> map_of items (ue_item e) = Some v \<and>
            map_of octets (ue_item e) = Some (hex block) \<and> ue_encode e v = Inr block)"

lemma same_name:
  assumes "UAP_BY_FRN f = Some e" "UAP_BY_FRN g = Some e'" "ue_item e = ue_item e'"
  shows "f = g"
proof -
  from assms item_names_distinct have "e = e'"
    by (auto simp: distinct_map dest: inj_onD UAP_BY_FRN_Some)
  with assms show ?thesis using UAP_BY_FRN_Some by metis
qed

lemma parse_items_written:
  assumes "parse_items data start index frns pos items octets = Inr (items', octets', pos')"
    "distinct frns" "pos \<le> length data"
  shows "\<exists>blocks. list_all2 (written items' octets') frns blocks \<and> pos' \<le> length data \<and> pos \<le> pos' \<and>
    concat blocks = take (pos' - pos) (drop pos data)"
  using assms
proof (induction frns arbitrary: pos items octets)
  case (Cons frn frns)
  from Cons.prems(1) obtain n block v where i: "parse_item data start index frn pos = Inr (n, block, v)"
    "parse_items data start index frns (pos + length block) (AList.update n v items) (AList.update n (hex block) octets) =
       Inr (items', octets', pos')" by (auto simp: rbind_eq_Inr_iff)
  from parse_item_Inr [OF i(1) Cons.prems(3)] obtain e where e: "UAP_BY_FRN frn = Some e" "n = ue_item e"
    "block = take (length block) (drop pos data)" "pos + length block \<le> length data" "ue_encode e v = Inr block" .
  from Cons.IH [OF i(2) _ e(4)] Cons.prems(2) obtain blocks where b: "list_all2 (written items' octets') frns blocks"
    "pos' \<le> length data" "pos + length block \<le> pos'"
    "concat blocks = take (pos' - (pos + length block)) (drop (pos + length block) data)" by auto
  have "n \<notin> frn_names frns"
  proof
    assume "n \<in> frn_names frns"
    then obtain f e' where f: "f \<in> set frns" "UAP_BY_FRN f = Some e'" "ue_item e = ue_item e'"
      using e(2) by (auto simp: frn_names_def)
    from same_name [OF e(1) f(2,3)] f(1) Cons.prems(2) show False by simp
  qed
  from parse_items_keep [OF i(2) this] have "written items' octets' frn block"
    using e(1,2,5) by (auto simp: written_def)
  moreover have "block @ concat blocks = take (pos' - pos) (drop pos data)"
    using slice_append [of pos "pos + length block" pos' data] b(3,4) e(3) [symmetric] by simp
  ultimately show ?case using b by (intro exI [of _ "block # blocks"]) auto
qed simp

lemma written_builds:
  assumes "written (pc_items r) (pc_item_octets r) frn block"
  shows "build_item r frn = Inr block"
proof -
  obtain e v where e: "UAP_BY_FRN frn = Some e" "map_of (pc_items r) (ue_item e) = Some v"
    "map_of (pc_item_octets r) (ue_item e) = Some (hex block)" "ue_encode e v = Inr block"
    using assms by (auto simp: written_def)
  then show ?thesis
    using ENCODERS_item [of e] UAP_BY_FRN_Some [OF e(1)] by (simp add: build_item_def get_key_def Let_def)
qed

lemma build_record_irrelevant: "build_record (pc_record_count_update f r) = build_record r"
proof -
  have "build_item (pc_record_count_update f r) = build_item r" by (rule ext) (simp add: build_item_def)
  then show ?thesis by (simp add: build_record_def)
qed

lemma parse_record_builds:
  assumes "parse_record data offset index = Inr (r, pos)"
  shows "build_record r = Inr (take (pos - offset) (drop offset data)) \<and> offset < pos \<and> pos \<le> length data"
proof -
  from assms obtain frns fspec pos1 where f: "read_fspec data offset = Inr (frns, fspec, pos1)"
    "parse_items data offset index frns pos1 [] [] = Inr (pc_items r, pc_item_octets r, pos)" "pc_fspec r = hex fspec"
    by (auto simp: parse_record_def rbind_eq_Inr_iff Let_def split: sum.splits if_splits)
  note s = read_fspec_slice [OF f(1)]
  have "distinct frns" using read_fspec_ascending(1) [OF f(1)] by (simp add: strict_sorted_iff)
  from parse_items_written [OF f(2) this s(2)] obtain blocks where
    b: "list_all2 (written (pc_items r) (pc_item_octets r)) frns blocks" "pos \<le> length data" "pos1 \<le> pos"
      "concat blocks = take (pos - pos1) (drop pos1 data)" by blast
  have "rmap (build_item r) frns = Inr blocks"
    using b(1) by (intro rmap_nth) (auto dest: list_all2_lengthD list_all2_nthD intro: written_builds)
  with s(4) f(3) have "build_record r = Inr (fspec @ concat blocks)"
    by (simp add: build_record_def hex_out_def in_codec_def)
  then show ?thesis using s(1,3) b slice_append [of offset pos1 pos data] by simp
qed

lemma parse_records_build:
  assumes "parse_records data offset before = Inr records" "offset \<le> length data"
  shows "\<exists>new. records = before @ new \<and> (\<exists>parts. rmap build_record new = Inr parts \<and> concat parts = drop offset data)"
  using assms
proof (induction data offset before rule: parse_records.induct)
  case (1 data offset before)
  show ?case
  proof (cases "offset < length data")
    case True
    with 1(2) obtain r pos where r: "parse_record data offset (length before) = Inr (r, pos)"
      "parse_records data pos (before @ [r]) = Inr records"
      by (subst (asm) (1) parse_records.simps) (auto split: sum.splits)
    note p = parse_record_builds [OF r(1)]
    from 1(1) [OF True r(1) refl r(2)] p obtain new parts where n: "records = (before @ [r]) @ new"
      "rmap build_record new = Inr parts" "concat parts = drop pos data" by auto
    have "take (pos - offset) (drop offset data) @ drop pos data = drop offset data"
      using append_take_drop_id [of "pos - offset" "drop offset data"] p by simp
    with n p show ?thesis by (intro exI [of _ "r # new"]) auto
  next
    case False
    with 1(2,3) show ?thesis by (subst (asm) (1) parse_records.simps) auto
  qed
qed

section \<open>A block\<close>

lemma rmap_map: "rmap f (map g xs) = rmap (\<lambda>x. f (g x)) xs"
  by (induction xs) auto

lemma parse_block_Inr:
  assumes "parse_block data = Inr b"
  obtains records where "3 \<le> length data" "uint (data ! 0) = CATEGORY" "number_at data 1 2 = Inr (int (length data))"
    "parse_records data 3 [] = Inr records" "records \<noteq> []"
    "b = \<lparr>pb_category = CATEGORY, pb_length = int (length data), pb_record_count = length records,
          pb_records = map (pc_record_count_update (\<lambda>_. Some (length records))) records\<rparr>"
  using assms
  by (auto simp: parse_block_def BLOCK_HEADER_OCTETS_def Let_def rbind_eq_Inr_iff split: if_splits)

text \<open>
  C4. Whatever block the parser accepts, building the records it returned gives the same octets: every
  bit of every item, spare bits and FSPEC included, is in the parsed form, and the check against the
  parked octets never fails.
\<close>

theorem accepted_block_is_rebuilt:
  assumes "parse_block data = Inr b"
  shows "build_block (pb_records b) = Inr data"
proof -
  from parse_block_Inr [OF assms] obtain records where d: "3 \<le> length data" "uint (data ! 0) = CATEGORY"
    "number_at data 1 2 = Inr (int (length data))" "parse_records data 3 [] = Inr records"
    "pb_records b = map (pc_record_count_update (\<lambda>_. Some (length records))) records" by (metis parsed_block.select_convs(4))
  from parse_records_build [OF d(4,1)] obtain parts where p: "rmap build_record records = Inr parts" "concat parts = drop 3 data"
    by auto
  have l: "number_out (int (length data)) 2 = Inr (take 2 (drop 1 data))"
    using number_part [of 1 2 data] d(1,3) by simp
  have "data = data ! 0 # take 2 (drop 1 data) @ drop 3 data"
    using d(1) by (auto simp: Suc_le_length_iff numeral_3_eq_3 numeral_2_eq_2)
  moreover have "word_of_int CATEGORY = data ! 0" by (simp flip: d(2))
  moreover have "int (length (drop 3 data) + BLOCK_HEADER_OCTETS) = int (length data)"
    using d(1) by (simp add: BLOCK_HEADER_OCTETS_def)
  ultimately show ?thesis
    using d(5) p l by (simp add: build_block_def rmap_map build_record_irrelevant Let_def)
qed

section \<open>Refusals\<close>

definition report_typed :: "item_dict \<Rightarrow> bool" where
  "report_typed items \<longleftrightarrow> (\<forall>v. map_of items ''I048/020'' = Some v \<longrightarrow> (\<exists>r. v = I020 r))"

lemma parse_item_typed:
  assumes "parse_item data start index frn pos = Inr (''I048/020'', block, v)"
  shows "\<exists>r. v = I020 r"
proof -
  from assms obtain e where e: "e \<in> set UAP" "ue_item e = ''I048/020''" "ue_decode e block = Inr v"
    by (auto simp: parse_item_def rbind_eq_Inr_iff Let_def split: option.splits if_splits dest!: UAP_BY_FRN_Some)
  then have "ue_decode e = decode_020" by (auto simp: UAP_def uap_entry.defs)
  with e(3) show ?thesis by (auto simp: decode_020_def rbind_eq_Inr_iff)
qed

lemma parse_items_typed:
  "parse_items data start index frns pos items octets = Inr (items', octets', pos') \<Longrightarrow> report_typed items \<Longrightarrow> report_typed items'"
  by (induction frns arbitrary: pos items octets)
    (fastforce simp: rbind_eq_Inr_iff report_typed_def dest: parse_item_typed split: if_splits)+

lemma parse_items_Inl:
  "parse_items data start index frns pos items octets = Inl ex \<Longrightarrow> pos \<le> length data \<Longrightarrow> is_refusal data ex"
proof (induction frns arbitrary: pos items octets)
  case (Cons frn frns)
  show ?case
  proof (cases "parse_item data start index frn pos")
    case (Inl e)
    with Cons.prems show ?thesis using parse_item_Inl by auto
  next
    case (Inr x)
    obtain n block v where x: "x = (n, block, v)" by (cases x)
    with Inr parse_item_Inr Cons.prems(2) have "pos + length block \<le> length data" by metis
    with Cons Inr x show ?thesis by auto
  qed
qed simp

lemma parse_record_Inl:
  assumes "parse_record data offset index = Inl ex"
  shows "is_refusal data ex"
proof (cases "read_fspec data offset")
  case (Inl fault)
  with assms show ?thesis by (auto simp: parse_record_def)
next
  case (Inr x)
  obtain frns fspec pos where x: "x = (frns, fspec, pos)" by (cases x)
  note s = read_fspec_slice(2) [OF Inr [unfolded x]]
  show ?thesis
  proof (cases "parse_items data offset index frns pos [] []")
    case (Inl e)
    with assms Inr x s show ?thesis by (auto simp: parse_record_def dest: parse_items_Inl)
  next
    case p: (Inr y)
    obtain items octets pos' where y: "y = (items, octets, pos')" by (cases y)
    have "report_typed items" using parse_items_typed [OF p [unfolded y]] by (simp add: report_typed_def)
    with assms Inr x p y show ?thesis
      by (auto simp: parse_record_def Let_def check_mode_s_items_def MANDATORY_ITEMS_def report_typed_def rbind_eq_Inl_iff
          split: if_splits option.splits)
  qed
qed

lemma parse_records_Inl: "parse_records data offset before = Inl ex \<Longrightarrow> is_refusal data ex"
proof (induction data offset before rule: parse_records.induct)
  case (1 data offset before)
  show ?case
  proof (cases "parse_record data offset (length before)")
    case (Inl e)
    with 1(2) show ?thesis
      by (subst (asm) parse_records.simps) (auto split: if_splits dest: parse_record_Inl)
  next
    case (Inr x)
    with 1 show ?thesis
      by (cases x) (subst (asm) (2) parse_records.simps, auto split: if_splits)
  qed
qed

text \<open>
  C5. The parser raises nothing but its own error, which quotes the octets: no \<open>CodecError\<close>,
  \<open>IndexError\<close>, \<open>KeyError\<close> or \<open>ValueError\<close> of a decoder, a vocabulary or the profile leaves it, whatever
  the octets are.
\<close>

theorem parser_raises_only_refusals:
  assumes "parse_block data = Inl ex"
  shows "is_refusal data ex \<or> ex = BlockTooShort data \<or> (\<exists>stated. ex = BlockEmpty stated data)"
proof (cases "length data < 3")
  case True
  with assms show ?thesis by (auto simp: parse_block_def BLOCK_HEADER_OCTETS_def)
next
  case False
  then have "number_at data 1 2 = Inr (be_value (take 2 (drop 1 data)))" by (intro number_part) simp
  with assms False show ?thesis
    by (auto simp: parse_block_def BLOCK_HEADER_OCTETS_def Let_def rbind_eq_Inl_iff split: if_splits dest: parse_records_Inl)
qed

text \<open>Two records: one with seven items, among them extended ones with their spare bits set, and a bare plot.\<close>

definition sample_block :: bytes where
  "sample_block = [48, 0, 24, 0xA3, 0x03, 0x44, 1, 2, 0x21, 0x02, 0xC0, 0x10, 0x03, 0x81, 0x0E, 0x07, 0x26,
     0x80, 0xFC, 0x05, 0xA0, 3, 4, 0x20]"

lemma sample_block_read:
  "(case parse_block sample_block of
      Inr b \<Rightarrow> map (\<lambda>r. length (pc_items r)) (pb_records b) = [6, 2] | Inl ex \<Rightarrow> False)"
  by code_simp

theorem accepted_block_is_rebuilt_witness:
  "\<exists>b. parse_block sample_block = Inr b \<and> length (pb_records b) = 2 \<and> build_block (pb_records b) = Inr sample_block"
proof -
  obtain b where b: "parse_block sample_block = Inr b" "map (\<lambda>r. length (pc_items r)) (pb_records b) = [6, 2]"
    using sample_block_read by (auto split: sum.splits)
  from arg_cong [OF b(2), of length] accepted_block_is_rebuilt [OF b(1)] b(1) show ?thesis by auto
qed

lemma truncated_block_read:
  "parse_block [48, 0, 6, 0xA0, 3, 4] = Inl (Refused (ExtensionPastEnd ''I048/020'') 6 6 [3, 4])"
  by code_simp

theorem parser_raises_only_refusals_witness:
  "is_refusal [48, 0, 6, 0xA0, 3, 4] (Refused (ExtensionPastEnd ''I048/020'') 6 6 [3, 4])"
  using parser_raises_only_refusals [OF truncated_block_read] by simp

section \<open>What an accepted block holds\<close>

definition holds :: "parsed_record \<Rightarrow> string \<Rightarrow> bool" where
  "holds r item \<longleftrightarrow> map_of (pc_items r) item \<noteq> None"

lemma parse_record_contents:
  assumes "parse_record data offset index = Inr (r, pos)"
  shows "pc_index r = index \<and> holds r ''I048/010'' \<and>
    (\<exists>t. map_of (pc_items r) ''I048/020'' = Some (I020 t) \<and>
      (tr_typ t \<in> MODE_S_TYP \<longrightarrow> is_track_end (pc_items r) \<or> holds r ''I048/220'' \<and> holds r ''I048/230''))"
  using assms
  by (auto simp: parse_record_def rbind_eq_Inr_iff Let_def MANDATORY_ITEMS_def check_mode_s_items_def holds_def
      split: sum.splits if_splits option.splits item048.splits)

lemma parse_records_contents:
  assumes "parse_records data offset before = Inr records"
    "\<forall>i < length before. P i (before ! i)"
    "\<And>data offset index r pos. parse_record data offset index = Inr (r, pos) \<Longrightarrow> P index r"
  shows "\<forall>i < length records. P i (records ! i)"
  using assms(1,2)
proof (induction data offset before rule: parse_records.induct)
  case (1 data offset before)
  show ?case
  proof (cases "offset < length data")
    case True
    with 1(2) obtain r pos where r: "parse_record data offset (length before) = Inr (r, pos)"
      "parse_records data pos (before @ [r]) = Inr records"
      by (subst (asm) (1) parse_records.simps) (auto split: sum.splits)
    have "\<forall>i < length (before @ [r]). P i ((before @ [r]) ! i)"
      using 1(3) assms(3) [OF r(1)] by (auto simp: nth_append less_Suc_eq)
    from 1(1) [OF True r(1) refl r(2) this] show ?thesis .
  next
    case False
    with 1(2,3) show ?thesis by (subst (asm) (1) parse_records.simps) auto
  qed
qed

text \<open>
  The records of an accepted block are numbered in their order and know how many they are; each has
  the two mandatory items, and the record of a Mode S target has the aircraft address and the
  communications capability unless its track status ends the track.
\<close>

theorem accepted_records_complete:
  assumes "parse_block data = Inr b" "i < length (pb_records b)"
  shows "\<exists>t. map_of (pc_items (pb_records b ! i)) ''I048/020'' = Some (I020 t) \<and>
    pc_index (pb_records b ! i) = i \<and> pc_record_count (pb_records b ! i) = Some (length (pb_records b)) \<and>
    pb_record_count b = length (pb_records b) \<and> holds (pb_records b ! i) ''I048/010'' \<and>
    (tr_typ t \<in> MODE_S_TYP \<longrightarrow> is_track_end (pc_items (pb_records b ! i)) \<or>
       holds (pb_records b ! i) ''I048/220'' \<and> holds (pb_records b ! i) ''I048/230'')"
proof -
  from parse_block_Inr [OF assms(1)] obtain records where r: "parse_records data 3 [] = Inr records"
    "pb_records b = map (pc_record_count_update (\<lambda>_. Some (length records))) records" "pb_record_count b = length records"
    by (metis parsed_block.select_convs(3,4))
  from parse_records_contents [OF r(1), where P = "\<lambda>index r. pc_index r = index \<and> holds r ''I048/010'' \<and>
    (\<exists>t. map_of (pc_items r) ''I048/020'' = Some (I020 t) \<and>
      (tr_typ t \<in> MODE_S_TYP \<longrightarrow> is_track_end (pc_items r) \<or> holds r ''I048/220'' \<and> holds r ''I048/230''))"]
    parse_record_contents assms(2) r(2,3)
  show ?thesis by (fastforce simp: holds_def)
qed

theorem accepted_records_complete_witness:
  "\<exists>b t. parse_block sample_block = Inr b \<and> pc_index (pb_records b ! 1) = 1 \<and>
     map_of (pc_items (pb_records b ! 1)) ''I048/020'' = Some (I020 t)"
proof -
  obtain b where b: "parse_block sample_block = Inr b" "map (\<lambda>r. length (pc_items r)) (pb_records b) = [6, 2]"
    using sample_block_read by (auto split: sum.splits)
  then have "1 < length (pb_records b)" by auto
  from accepted_records_complete [OF b(1) this] b(1) show ?thesis by blast
qed

end
