(* ===== verification/Hla_Base.thy ===== *)
theory Hla_Base
  imports Prelude
begin

text \<open>
  The HLA observer's catalogue of codes and its fixed limits:
  \<^verbatim>\<open>packages/hla/src/synapse_hla/errors.py\<close> and \<^verbatim>\<open>limits.py\<close>. Codes are the source's own
  strings; an error is its code, its path and its one-line message.
\<close>

section \<open>Codes\<close>

definition CODES :: "string list" where
  "CODES = [
    ''E_CONFIG'', ''E_DEPENDENCY_PIN'', ''E_OUTPUT_EXISTS'',
    ''E_FOM_PROFILE'', ''E_FEDERATE_NAME'', ''E_RTI_CONNECT'', ''E_RTI_TIMEOUT'',
    ''E_ATTRIBUTE_LENGTH'', ''E_NONFINITE'', ''E_BOOLEAN'', ''E_SPATIAL_VARIANT'',
    ''E_UNSUBSCRIBED_ATTRIBUTE'',
    ''E_NULL_ID'', ''E_ECEF_RANGE'', ''E_GEODESY'', ''E_TIME_REGRESSION'',
    ''E_IDENTITY_CHANGED'', ''E_IDENTITY_COLLISION'', ''E_RETRACTION_UNSUPPORTED'',
    ''E_UNKNOWN_OBJECT'',
    ''E_LIMIT'', ''E_QUEUE_OVERFLOW'', ''E_IO'',
    ''E_CAPTURE_SCHEMA'', ''E_CAPTURE_HASH'', ''E_CAPTURE_SEQUENCE'', ''E_CAPTURE_INCOMPLETE'',
    ''W_FOM_UNVERIFIED'', ''W_TIME_UNRESOLVED'', ''W_FORCE_UNMAPPED'', ''W_DUPLICATE_DISCOVERY'',
    ''W_DUPLICATE_REMOVE'']"

datatype severity_level = ERROR | WARNING

definition is_code :: "string \<Rightarrow> bool" where
  "is_code value \<longleftrightarrow> value \<in> set CODES"

definition severity :: "string \<Rightarrow> severity_level option" where
  \<comment> \<open>\<open>None\<close> is the \<open>ValueError\<close> of a string outside the catalogue\<close>
  "severity code =
     (if \<not> is_code code then None
      else Some (if take 2 code = ''E_'' then ERROR else WARNING))"

datatype failure_policy =
    FAIL_BEFORE_CONNECTION | TERMINATE_ATTEMPT | REJECT_REFLECTION | SUPPRESS_PROJECTION
  | QUARANTINE | IGNORE_MUTATION | STOP_SESSION | REFUSE_REPLAY | PRESERVE_SOURCE

definition POLICY :: "(string, failure_policy) dict" where
  "POLICY =
    map (\<lambda>c. (c, FAIL_BEFORE_CONNECTION)) [''E_CONFIG'', ''E_DEPENDENCY_PIN'', ''E_OUTPUT_EXISTS''] @
    map (\<lambda>c. (c, TERMINATE_ATTEMPT))
      [''E_FOM_PROFILE'', ''E_FEDERATE_NAME'', ''E_RTI_CONNECT'', ''E_RTI_TIMEOUT''] @
    map (\<lambda>c. (c, REJECT_REFLECTION))
      [''E_ATTRIBUTE_LENGTH'', ''E_NONFINITE'', ''E_BOOLEAN'', ''E_SPATIAL_VARIANT'',
       ''E_UNSUBSCRIBED_ATTRIBUTE''] @
    map (\<lambda>c. (c, SUPPRESS_PROJECTION))
      [''E_NULL_ID'', ''E_ECEF_RANGE'', ''E_GEODESY'', ''E_TIME_REGRESSION''] @
    map (\<lambda>c. (c, QUARANTINE))
      [''E_IDENTITY_CHANGED'', ''E_IDENTITY_COLLISION'', ''E_RETRACTION_UNSUPPORTED''] @
    [(''E_UNKNOWN_OBJECT'', IGNORE_MUTATION)] @
    map (\<lambda>c. (c, STOP_SESSION)) [''E_LIMIT'', ''E_QUEUE_OVERFLOW'', ''E_IO''] @
    map (\<lambda>c. (c, REFUSE_REPLAY))
      [''E_CAPTURE_SCHEMA'', ''E_CAPTURE_HASH'', ''E_CAPTURE_SEQUENCE'', ''E_CAPTURE_INCOMPLETE''] @
    map (\<lambda>c. (c, PRESERVE_SOURCE))
      [''W_FOM_UNVERIFIED'', ''W_TIME_UNRESOLVED'', ''W_FORCE_UNMAPPED'',
       ''W_DUPLICATE_DISCOVERY'', ''W_DUPLICATE_REMOVE'']"

definition EXIT_CLASS :: "(string, nat) dict" where
  "EXIT_CLASS =
    map (\<lambda>c. (c, 2)) [''E_CONFIG'', ''E_OUTPUT_EXISTS''] @
    [(''E_DEPENDENCY_PIN'', 4)] @
    map (\<lambda>c. (c, 5)) [''E_FOM_PROFILE'', ''E_FEDERATE_NAME'', ''E_RTI_CONNECT'', ''E_RTI_TIMEOUT''] @
    map (\<lambda>c. (c, 3))
      [''E_ATTRIBUTE_LENGTH'', ''E_NONFINITE'', ''E_BOOLEAN'', ''E_SPATIAL_VARIANT'',
       ''E_UNSUBSCRIBED_ATTRIBUTE'', ''E_NULL_ID'', ''E_ECEF_RANGE'', ''E_GEODESY'',
       ''E_TIME_REGRESSION'', ''E_IDENTITY_CHANGED'', ''E_IDENTITY_COLLISION'',
       ''E_RETRACTION_UNSUPPORTED'', ''E_UNKNOWN_OBJECT'', ''E_CAPTURE_SCHEMA'',
       ''E_CAPTURE_HASH'', ''E_CAPTURE_SEQUENCE'', ''E_CAPTURE_INCOMPLETE''] @
    map (\<lambda>c. (c, 6)) [''E_LIMIT'', ''E_QUEUE_OVERFLOW'', ''E_IO'']"

section \<open>Text that may be quoted\<close>

definition REFUSED_IN_MESSAGE :: "(nat \<times> nat) list" where
  "REFUSED_IN_MESSAGE =
    [(0x0000, 0x001F), (0x007F, 0x009F), (0x061C, 0x061C), (0x200E, 0x200F),
     (0x2028, 0x202E), (0x2066, 0x2069), (0xD800, 0xDFFF)]"

definition REPLACEMENT :: nat where "REPLACEMENT = 0xFFFD"

definition refused :: "nat \<Rightarrow> bool" where
  "refused point \<longleftrightarrow> list_ex (\<lambda>(lo, hi). lo \<le> point \<and> point \<le> hi) REFUSED_IN_MESSAGE"

section \<open>Limits\<close>

record Limits =
  active_objects_per_generation :: nat
  object_tokens_per_session :: nat
  attributes_per_reflection :: nat
  attribute_value_bytes :: nat
  user_tag_bytes :: nat
  object_name_utf8_bytes :: nat
  class_name_utf8_bytes :: nat
  logical_time_bytes :: nat
  line_bytes :: nat
  queue_frames :: nat
  queue_bytes :: nat
  cached_attribute_bytes_per_generation :: nat
  capture_file_bytes :: nat
  frames_per_session :: nat
  dependency_xml_bytes :: nat
  dependency_xml_depth :: nat
  config_file_bytes :: nat
  capture_reserve_bytes :: nat
  diagnostic_message_utf8_bytes :: nat
  worker_rss_bytes :: nat
  host_rss_bytes :: nat
  error_message_chars :: nat
  error_message_input_chars :: nat

definition V1 :: Limits where
  "V1 = \<lparr>active_objects_per_generation = 10000, object_tokens_per_session = 100000,
    attributes_per_reflection = 4, attribute_value_bytes = 4096, user_tag_bytes = 4096,
    object_name_utf8_bytes = 1024, class_name_utf8_bytes = 1024, logical_time_bytes = 256,
    line_bytes = 65536, queue_frames = 4096, queue_bytes = 16 * (1024 * 1024),
    cached_attribute_bytes_per_generation = 32 * (1024 * 1024),
    capture_file_bytes = 1 * (1024 * (1024 * 1024)), frames_per_session = 10000000,
    dependency_xml_bytes = 2 * (1024 * 1024), dependency_xml_depth = 64,
    config_file_bytes = 64 * 1024, capture_reserve_bytes = 65536,
    diagnostic_message_utf8_bytes = 1024, worker_rss_bytes = 512 * (1024 * 1024),
    host_rss_bytes = 512 * (1024 * 1024), error_message_chars = 256,
    error_message_input_chars = 64\<rparr>"

definition safe_text :: "pytext \<Rightarrow> pytext" where
  "safe_text text =
     map (\<lambda>c. if refused c then REPLACEMENT else c) (take (error_message_input_chars V1) text)"

definition message_problem :: "pytext \<Rightarrow> string option" where
  "message_problem text =
     (if text = [] \<or> error_message_chars V1 < length text then Some ''length''
      else if list_ex refused text then Some ''character''
      else None)"

text \<open>
  Constructing an error checks its arguments: a code outside the catalogue, a warning code or a
  message that may not be shown raises \<open>ValueError\<close> in place of the error, a caller's bug.
\<close>

record hla_error =
  e_code :: string
  e_path :: pytext
  e_message :: pytext

datatype hla_exception =
    Refusal hla_error        \<comment> \<open>an \<open>HlaError\<close>\<close>
  | ValueError string        \<comment> \<open>a caller's bug\<close>
  | Defect string            \<comment> \<open>a \<open>ProjectionDefect\<close> or \<open>ReducerDefect\<close>\<close>

definition HlaError :: "string \<Rightarrow> pytext \<Rightarrow> pytext \<Rightarrow> hla_exception" where
  "HlaError code path message =
     (if \<not> is_code code \<or> take 2 code \<noteq> ''E_'' then ValueError ''HlaError takes an E_ catalogue code''
      else if message_problem message \<noteq> None
        then ValueError ''HlaError message must be one line of 1 to 256 printable characters''
      else Refusal \<lparr>e_code = code, e_path = path, e_message = message\<rparr>)"

section \<open>The catalogue is total and consistent\<close>

lemma distinct_CODES: "distinct CODES"
  by (simp add: CODES_def)

lemma severity_Some_iff: "(\<exists>s. severity c = Some s) \<longleftrightarrow> is_code c"
  by (simp add: severity_def)

text \<open>Quoted text is never refused, and never longer than the bound on quoted input.\<close>

lemma safe_text_ok: "list_all (\<lambda>c. \<not> refused c) (safe_text t) \<and> length (safe_text t) \<le> 64"
proof -
  have "\<not> refused REPLACEMENT" by (simp add: refused_def REFUSED_IN_MESSAGE_def REPLACEMENT_def)
  then show ?thesis by (auto simp: safe_text_def list_all_iff V1_def)
qed

lemma safe_text_idem: "safe_text (safe_text t) = safe_text t"
proof -
  have "\<not> refused REPLACEMENT" by (simp add: refused_def REFUSED_IN_MESSAGE_def REPLACEMENT_def)
  then show ?thesis by (simp add: safe_text_def take_map o_def)
qed

end
