(* ===== verification/Hla_Time.thy ===== *)
theory Hla_Time
  imports Hla_Base
begin

text \<open>
  UTC timestamps as integer microseconds: \<^verbatim>\<open>packages/hla/src/synapse_hla/_utc.py\<close>. The
  Gregorian calendar arithmetic, the two fixed text forms, and their parsing and writing.
\<close>

section \<open>The calendar\<close>

definition MIN_YEAR :: int where "MIN_YEAR = 1970"
definition MAX_YEAR :: int where "MAX_YEAR = 9998"
definition MICROSECONDS_PER_SECOND :: int where "MICROSECONDS_PER_SECOND = 1000000"
definition SECONDS_PER_DAY :: int where "SECONDS_PER_DAY = 86400"
definition MICROSECONDS_PER_DAY :: int where
  "MICROSECONDS_PER_DAY = SECONDS_PER_DAY * MICROSECONDS_PER_SECOND"

definition DAYS_IN_MONTH :: "int list" where
  "DAYS_IN_MONTH = [31, 28, 31, 30, 31, 30, 31, 31, 30, 31, 30, 31]"

definition is_leap_year :: "int \<Rightarrow> bool" where
  "is_leap_year year \<longleftrightarrow> year mod 4 = 0 \<and> (year mod 100 \<noteq> 0 \<or> year mod 400 = 0)"

definition days_in_month :: "int \<Rightarrow> int \<Rightarrow> int option" where
  "days_in_month year month =
     (if month = 2 \<and> is_leap_year year then Some 29 else py_get DAYS_IN_MONTH (month - 1))"

definition days_from_civil :: "int \<Rightarrow> int \<Rightarrow> int \<Rightarrow> int" where
  "days_from_civil year month day =
     (let year = year - (if month \<le> 2 then 1 else 0);
          era = (if 0 \<le> year then year else year - 399) div 400;
          year_of_era = year - era * 400;
          day_of_year = (153 * (month + (if 2 < month then -3 else 9)) + 2) div 5 + day - 1;
          day_of_era = year_of_era * 365 + year_of_era div 4 - year_of_era div 100 + day_of_year
      in era * 146097 + day_of_era - 719468)"

definition civil_from_days :: "int \<Rightarrow> int \<times> int \<times> int" where
  "civil_from_days days =
     (let days = days + 719468;
          era = (if 0 \<le> days then days else days - 146096) div 146097;
          day_of_era = days - era * 146097;
          year_of_era = (day_of_era - day_of_era div 1460 + day_of_era div 36524
                         - day_of_era div 146096) div 365;
          day_of_year = day_of_era - (365 * year_of_era + year_of_era div 4 - year_of_era div 100);
          shifted_month = (5 * day_of_year + 2) div 153;
          day = day_of_year - (153 * shifted_month + 2) div 5 + 1;
          month = shifted_month + (if shifted_month < 10 then 3 else -9);
          year = year_of_era + era * 400 + (if month \<le> 2 then 1 else 0)
      in (year, month, day))"

definition MIN_MICROSECOND :: int where "MIN_MICROSECOND = 0"
definition MAX_MICROSECOND :: int where
  "MAX_MICROSECOND = days_from_civil (MAX_YEAR + 1) 1 1 * MICROSECONDS_PER_DAY - 1"

section \<open>Text forms\<close>

text \<open>
  The two regular expressions are sequences of fixed-width digit groups and literals;
  \<open>match_form\<close> is \<open>re.fullmatch\<close> on such a sequence, returning the groups.
\<close>

datatype form_part = Digits nat | Lit char

fun match_form :: "form_part list \<Rightarrow> pytext \<Rightarrow> pytext list option" where
  "match_form [] text = (if text = [] then Some [] else None)"
| "match_form (Lit c # parts) text =
     (case text of [] \<Rightarrow> None
      | x # rest \<Rightarrow> if x = of_char c then match_form parts rest else None)"
| "match_form (Digits n # parts) text =
     (if n \<le> length text \<and> list_all is_digit (take n text)
      then map_option ((#) (take n text)) (match_form parts (drop n text)) else None)"

definition STAMP :: "nat \<Rightarrow> form_part list" where
  "STAMP n = [Digits 4, Lit CHR ''-'', Digits 2, Lit CHR ''-'', Digits 2, Lit CHR ''T'', Digits 2,
     Lit CHR '':'', Digits 2, Lit CHR '':'', Digits 2, Lit CHR ''.'', Digits n, Lit CHR ''Z'']"

definition FORM :: "form_part list" where "FORM = STAMP 6"
definition FORM_MILLISECOND :: "form_part list" where "FORM_MILLISECOND = STAMP 3"

datatype time_error =
    NotOfForm | YearOutside | NoSuchMonth | NoSuchDay | NoSuchTime | InstantOutside | TimeIndexError

definition parsed :: "pytext \<Rightarrow> form_part list \<Rightarrow> int \<Rightarrow> time_error + int" where
  "parsed text form unit =
     (case match_form form text of
        Some [g1, g2, g3, g4, g5, g6, g7] \<Rightarrow>
          (let year = int (undec g1); month = int (undec g2); day = int (undec g3);
               hour = int (undec g4); minute = int (undec g5); second = int (undec g6);
               fraction = int (undec g7) * unit in
           if \<not> (MIN_YEAR \<le> year \<and> year \<le> MAX_YEAR) then Inl YearOutside
           else if \<not> (1 \<le> month \<and> month \<le> 12) then Inl NoSuchMonth
           else case days_in_month year month of
             None \<Rightarrow> Inl TimeIndexError
           | Some dim \<Rightarrow>
               if \<not> (1 \<le> day \<and> day \<le> dim) then Inl NoSuchDay
               else if 23 < hour \<or> 59 < minute \<or> 59 < second then Inl NoSuchTime
               else
                 (let seconds = days_from_civil year month day * SECONDS_PER_DAY
                                + hour * 3600 + minute * 60
                  in Inr ((seconds + second) * MICROSECONDS_PER_SECOND + fraction)))
      | _ \<Rightarrow> Inl NotOfForm)"

definition parse_microsecond :: "pytext \<Rightarrow> time_error + int" where
  "parse_microsecond text = parsed text FORM 1"

definition parse_millisecond :: "pytext \<Rightarrow> time_error + int" where
  "parse_millisecond text = parsed text FORM_MILLISECOND 1000"

record time_fields =
  f_year :: int
  f_month :: int
  f_day :: int
  f_hour :: int
  f_minute :: int
  f_second :: int
  f_fraction :: int

definition fields :: "int \<Rightarrow> time_error + time_fields" where
  "fields microsecond =
     (if \<not> (MIN_MICROSECOND \<le> microsecond \<and> microsecond \<le> MAX_MICROSECOND) then Inl InstantOutside
      else
        (let days = microsecond div MICROSECONDS_PER_DAY;
             within = microsecond mod MICROSECONDS_PER_DAY;
             seconds = within div MICROSECONDS_PER_SECOND;
             fraction = within mod MICROSECONDS_PER_SECOND;
             (year, month, day) = civil_from_days days
         in Inr \<lparr>f_year = year, f_month = month, f_day = day, f_hour = seconds div 3600,
                 f_minute = seconds div 60 mod 60, f_second = seconds mod 60,
                 f_fraction = fraction\<rparr>))"

text \<open>\<open>f"{v:0wd}"\<close> of a non-negative integer: the decimal padded with zeros to width \<open>w\<close>.\<close>

definition zpad :: "nat \<Rightarrow> int \<Rightarrow> pytext" where
  "zpad w v = (let d = dec (nat v) in replicate (w - length d) 48 @ d)"

definition stamp_text :: "time_fields \<Rightarrow> pytext \<Rightarrow> pytext" where
  "stamp_text f fraction =
     zpad 4 (f_year f) @ asc ''-'' @ zpad 2 (f_month f) @ asc ''-'' @ zpad 2 (f_day f) @ asc ''T'' @
     zpad 2 (f_hour f) @ asc '':'' @ zpad 2 (f_minute f) @ asc '':'' @ zpad 2 (f_second f) @
     asc ''.'' @ fraction @ asc ''Z''"

definition format_microsecond :: "int \<Rightarrow> time_error + pytext" where
  "format_microsecond microsecond =
     rbind (fields microsecond) (\<lambda>f. Inr (stamp_text f (zpad 6 (f_fraction f))))"

definition format_millisecond :: "int \<Rightarrow> time_error + pytext" where
  "format_millisecond microsecond =
     rbind (fields microsecond) (\<lambda>f. Inr (stamp_text f (zpad 3 (f_fraction f div 1000))))"

end
