(* ===== verification/Hla_Time_Correct.thy ===== *)
theory Hla_Time_Correct
  imports Hla_Time
begin

text \<open>
  The calendar arithmetic is the proleptic Gregorian day count from year 1 on, inverse to
  itself, and the timestamp text forms are in bijection with the instants of 1970 to 9998.
\<close>

section \<open>Day counts\<close>

definition valid_date :: "int \<Rightarrow> int \<Rightarrow> int \<Rightarrow> bool" where
  "valid_date y m d \<longleftrightarrow> 1 \<le> m \<and> m \<le> 12 \<and> 1 \<le> d \<and> (\<exists>dim. days_in_month y m = Some dim \<and> d \<le> dim)"

definition next_date :: "int \<times> int \<times> int \<Rightarrow> int \<times> int \<times> int" where
  "next_date = (\<lambda>(y, m, d).
     if days_in_month y m \<noteq> Some d then (y, m, d + 1)
     else if m < 12 then (y, m + 1, 1) else (y + 1, 1, 1))"

lemma month_cases:
  assumes "1 \<le> (m :: int)" and "m \<le> 12"
  obtains "m = 1" | "m = 2" | "m = 3" | "m = 4" | "m = 5" | "m = 6" | "m = 7" | "m = 8"
    | "m = 9" | "m = 10" | "m = 11" | "m = 12"
proof -
  have "m \<in> set [1..12]" using assms by simp
  then have "m \<in> {1, 2, 3, 4, 5, 6, 7, 8, 9, 10, 11, 12}" by (simp add: upto.simps)
  with that show thesis by blast
qed

lemma days_in_month_simps [simp]:
  "days_in_month y 1 = Some 31" "days_in_month y 2 = Some (if is_leap_year y then 29 else 28)"
  "days_in_month y 3 = Some 31" "days_in_month y 4 = Some 30" "days_in_month y 5 = Some 31"
  "days_in_month y 6 = Some 30" "days_in_month y 7 = Some 31" "days_in_month y 8 = Some 31"
  "days_in_month y 9 = Some 30" "days_in_month y 10 = Some 31" "days_in_month y 11 = Some 30"
  "days_in_month y 12 = Some 31"
  by (simp_all add: days_in_month_def DAYS_IN_MONTH_def py_get_def)

text \<open>The days before a March-based year, in closed form.\<close>

definition days_before :: "int \<Rightarrow> int" where
  "days_before y = 365 * y + y div 4 - y div 100 + y div 400"

lemma div_pred:
  assumes "0 < (k :: int)"
  shows "y div k = (y - 1) div k + (if y mod k = 0 then 1 else 0)"
proof -
  have y: "y = k * (y div k) + y mod k" by simp
  show ?thesis
  proof (cases "y mod k = 0")
    case True
    have "(y - 1) div k = y div k - 1"
      by (rule int_div_pos_eq [where r = "k - 1"]) (use y True assms in \<open>auto simp: algebra_simps\<close>)
    with True show ?thesis by simp
  next
    case False
    have "0 \<le> y mod k" "y mod k < k" using assms by simp_all
    then have "(y - 1) div k = y div k"
      by (intro int_div_pos_eq [where r = "y mod k - 1"]) (use y False in auto)
    with False show ?thesis by simp
  qed
qed

lemma days_before_step:
  "days_before y = days_before (y - 1) + (if is_leap_year y then 366 else 365)"
proof -
  have c: "y mod 400 = 0 \<Longrightarrow> y mod 100 = 0" "y mod 100 = 0 \<Longrightarrow> y mod 4 = 0"
    using mod_mod_cancel [of "100 :: int" 400 y] mod_mod_cancel [of "4 :: int" 100 y] by auto
  define p q r p' q' r' where "p = y div 4" and "q = y div 100" and "r = y div 400"
    and "p' = (y - 1) div 4" and "q' = (y - 1) div 100" and "r' = (y - 1) div 400"
  have "p = p' + (if y mod 4 = 0 then 1 else 0)" "q = q' + (if y mod 100 = 0 then 1 else 0)"
    "r = r' + (if y mod 400 = 0 then 1 else 0)"
    unfolding p_def q_def r_def p'_def q'_def r'_def by (rule div_pred, simp)+
  moreover define A B C where "A \<longleftrightarrow> y mod 4 = 0" and "B \<longleftrightarrow> y mod 100 = 0" and "C \<longleftrightarrow> y mod 400 = 0"
  ultimately have "365 * y + p - q + r = 365 * (y - 1) + p' - q' + r' +
      (if A \<and> (\<not> B \<or> C) then 366 else 365)"
    using c by (cases A; cases B; cases C) simp_all
  then show ?thesis
    by (simp only: days_before_def is_leap_year_def p_def q_def r_def p'_def q'_def r'_def
      A_def B_def C_def)
qed

lemma days_from_civil_closed:
  assumes "0 \<le> y" and "1 \<le> m" and "m \<le> 12"
  shows "days_from_civil y m d =
    days_before (if m \<le> 2 then y - 1 else y) +
    (153 * (m + (if 2 < m then -3 else 9)) + 2) div 5 + d - 1 - 719468"
proof -
  define y' where "y' = (if m \<le> 2 then y - 1 else y)"
  have y': "-1 \<le> y'" using assms by (simp add: y'_def)
  define era where "era = y' div 400"
  have era: "(if 0 \<le> y' then y' else y' - 399) div 400 = era"
    using y' by (cases "y' = -1") (auto simp: era_def)
  have four: "(y' - era * 400) div 4 = y' div 4 - 100 * era"
    and hundred: "(y' - era * 400) div 100 = y' div 100 - 4 * era"
    using div_mult_self1 [of 4 y' "- (100 * era)"] div_mult_self1 [of 100 y' "- (4 * era)"]
    by (simp_all add: algebra_simps)
  have "y' - era * 400 = y' - 400 * era" by simp
  define p q where "p = y' div 4" and "q = y' div 100"
  have y'': "y - (if m \<le> 2 then 1 else 0) = y'" by (simp add: y'_def)
  have "days_from_civil y m d = era * 146097 +
      ((y' - era * 400) * 365 + (p - 100 * era) - (q - 4 * era) +
       ((153 * (m + (if 2 < m then -3 else 9)) + 2) div 5 + d - 1)) - 719468"
    unfolding days_from_civil_def Let_def y'' era four hundred p_def q_def by (rule refl)
  also have "\<dots> = days_before y' + (153 * (m + (if 2 < m then -3 else 9)) + 2) div 5 + d - 1 - 719468"
    unfolding days_before_def p_def [symmetric] q_def [symmetric] era_def [symmetric]
    by (simp only: left_diff_distrib)
  finally show ?thesis unfolding y'_def .
qed

text \<open>The day after a date is one day later: the count is the calendar's.\<close>

lemma days_from_civil_next:
  assumes "valid_date y m d" and "0 \<le> y" and "next_date (y, m, d) = (y', m', d')"
  shows "days_from_civil y' m' d' = days_from_civil y m d + 1"
proof -
  from assms(1) have m: "1 \<le> m" "m \<le> 12" by (simp_all add: valid_date_def)
  show ?thesis
  proof (cases "days_in_month y m = Some d")
    case False
    with assms(3) show ?thesis by (auto simp: next_date_def days_from_civil_def Let_def)
  next
    case True
    from m show ?thesis
    proof (cases rule: month_cases)
      assume "m = 2"
      with True assms days_before_step [of y] show ?thesis
        by (auto simp: next_date_def days_from_civil_closed split: if_splits)
    qed (use True assms in \<open>auto simp: next_date_def days_from_civil_closed\<close>)
  qed
qed

lemma valid_next_date:
  assumes "valid_date y m d" and "next_date (y, m, d) = (y', m', d')"
  shows "valid_date y' m' d' \<and> y \<le> y'"
proof -
  from assms(1) have m: "1 \<le> m" "m \<le> 12" by (simp_all add: valid_date_def)
  from m show ?thesis
    by (cases rule: month_cases) (use assms in \<open>auto simp: next_date_def valid_date_def split: if_splits\<close>)
qed

section \<open>Years and months are recovered from the count\<close>

lemma year_of_era_recovered:
  fixes c q r k :: int
  assumes "0 \<le> c" "c \<le> 3" and "0 \<le> q" "q \<le> 24" and "0 \<le> r" "r \<le> 3" and "0 \<le> k" "k \<le> 365"
    and last: "k = 365 \<Longrightarrow> r = 3 \<and> (q = 24 \<longrightarrow> c = 3)"
  defines "doe \<equiv> 36524 * c + 1461 * q + 365 * r + k"
  shows "(doe - doe div 1460 + doe div 36524 - doe div 146096) div 365 = 100 * c + 4 * q + r"
proof -
  define e where "e = (if q = 24 \<and> r = 3 \<and> k = 365 then 1 else 0 :: int)"
  define u where "u = (if 1460 \<le> 24 * c + q + 365 * r + k then 1 else 0 :: int)"
  have e_c: "e = 1 \<longrightarrow> c = 3" using last by (simp add: e_def)
  have eb: "e = 0 \<or> e = 1" by (simp add: e_def)
  have small: "e = 0 \<longrightarrow> 1461 * q + 365 * r + k < 36524"
    using assms(3-8) by (auto simp: e_def)
  have full: "e = 1 \<longrightarrow> 1461 * q + 365 * r + k = 36524" by (simp add: e_def split: if_splits)
  have "doe div 146096 = e"
    using eb e_c small full assms(1-8)
    by (intro int_div_pos_eq [where r = "doe - 146096 * e"]) (auto simp: doe_def)
  moreover have "doe div 36524 = c + e"
    using eb e_c small full assms(1-8)
    by (intro int_div_pos_eq [where r = "doe - 36524 * (c + e)"]) (auto simp: doe_def algebra_simps)
  moreover have "doe div 1460 = 25 * c + q + u"
    using assms(1-8)
    by (intro int_div_pos_eq [where r = "doe - 1460 * (25 * c + q + u)"])
      (auto simp: doe_def u_def algebra_simps)
  moreover have "0 \<le> k - u \<and> k - u < 365"
    using assms(1-8) last by (cases "k = 365") (auto simp: u_def)
  ultimately show ?thesis
    by (intro int_div_pos_eq [where r = "k - u"]) (auto simp: doe_def algebra_simps)
qed

lemma quarters:
  fixes n :: int
  assumes "0 \<le> n" "n < 400"
  obtains c q r where "0 \<le> c" "c \<le> 3" "0 \<le> q" "q \<le> 24" "0 \<le> r" "r \<le> 3"
    "n = 100 * c + 4 * q + r" "n div 4 = 25 * c + q" "n div 100 = c"
    "(n + 1) mod 4 = 0 \<longleftrightarrow> r = 3" "(n + 1) mod 100 = 0 \<longleftrightarrow> q = 24 \<and> r = 3"
    "(n + 1) mod 400 = 0 \<longleftrightarrow> c = 3 \<and> q = 24 \<and> r = 3"
proof -
  define c q r where "c = n div 100" and "q = n mod 100 div 4" and "r = n mod 100 mod 4"
  have n: "n = 100 * c + 4 * q + r" by (simp add: c_def q_def r_def)
  have b: "0 \<le> c" "c \<le> 3" "0 \<le> q" "q \<le> 24" "0 \<le> r" "r \<le> 3"
    using assms by (simp_all add: c_def q_def r_def)
  show thesis
  proof (rule that [OF b n])
    show "n div 4 = 25 * c + q" using n b by (intro int_div_pos_eq [where r = r]) auto
    show "n div 100 = c" by (simp add: c_def)
    have "(n + 1) mod 4 = (r + 1) mod 4"
      using mod_mult_self1 [of "r + 1" "25 * c + q" 4] n by (simp add: algebra_simps)
    with b show "(n + 1) mod 4 = 0 \<longleftrightarrow> r = 3" by (cases "r = 3") auto
    have "(n + 1) mod 100 = (4 * q + r + 1) mod 100"
      using mod_mult_self1 [of "4 * q + r + 1" c 100] n by (simp add: algebra_simps)
    also have "\<dots> = 0 \<longleftrightarrow> 4 * q + r + 1 = 100"
      using b by (cases "4 * q + r + 1 = 100") auto
    also have "\<dots> \<longleftrightarrow> q = 24 \<and> r = 3" using b by presburger
    finally show "(n + 1) mod 100 = 0 \<longleftrightarrow> q = 24 \<and> r = 3" .
    have "(n + 1) mod 400 = 0 \<longleftrightarrow> n + 1 = 400" using assms by (cases "n + 1 = 400") auto
    also have "\<dots> \<longleftrightarrow> c = 3 \<and> q = 24 \<and> r = 3" unfolding n using b by presburger
    finally show "(n + 1) mod 400 = 0 \<longleftrightarrow> c = 3 \<and> q = 24 \<and> r = 3" .
  qed
qed

text \<open>The day of a March-based year gives back its month and day.\<close>

definition march_month :: "int \<Rightarrow> int" where
  "march_month m = m + (if 2 < m then -3 else 9)"

lemma month_recovered:
  assumes "valid_date y m d"
  defines "k \<equiv> (153 * march_month m + 2) div 5 + d - 1"
  shows "0 \<le> k" and "k \<le> 365" and "(5 * k + 2) div 153 = march_month m"
    and "k = 365 \<Longrightarrow> m = 2 \<and> is_leap_year y"
    and "march_month m + (if march_month m < 10 then 3 else -9) = m"
proof -
  from assms(1) have m: "1 \<le> m" "m \<le> 12" by (simp_all add: valid_date_def)
  have "0 \<le> k \<and> k \<le> 365 \<and> 153 * march_month m \<le> 5 * k + 2 \<and>
      5 * k + 2 < 153 * march_month m + 153 \<and> (k = 365 \<longrightarrow> m = 2 \<and> is_leap_year y) \<and>
      march_month m + (if march_month m < 10 then 3 else -9) = m"
    using m
    by (cases rule: month_cases)
      (use assms in \<open>simp_all add: valid_date_def march_month_def split: if_splits\<close>)
  then show "0 \<le> k" and "k \<le> 365" and "(5 * k + 2) div 153 = march_month m"
    and "k = 365 \<Longrightarrow> m = 2 \<and> is_leap_year y"
    and "march_month m + (if march_month m < 10 then 3 else -9) = m"
    by (auto intro!: int_div_pos_eq [where r = "5 * k + 2 - 153 * march_month m"])
qed

lemma civil_from_days_inverse:
  assumes v: "valid_date y m d" and "1 \<le> y"
  shows "civil_from_days (days_from_civil y m d) = (y, m, d)"
proof -
  define Y k where "Y = (if m \<le> 2 then y - 1 else y)" and "k = (153 * march_month m + 2) div 5 + d - 1"
  have Y: "0 \<le> Y" using assms(2) by (simp add: Y_def)
  from v have m: "1 \<le> m" "m \<le> 12" by (simp_all add: valid_date_def)
  note k = month_recovered [OF v, folded k_def]
  define e n where "e = Y div 400" and "n = Y mod 400"
  have n: "0 \<le> n" "n < 400" and Yen: "Y = 400 * e + n" by (simp_all add: e_def n_def)
  from quarters [OF n] obtain c q r where cqr: "0 \<le> c" "c \<le> 3" "0 \<le> q" "q \<le> 24" "0 \<le> r" "r \<le> 3"
    "n = 100 * c + 4 * q + r" "n div 4 = 25 * c + q" "n div 100 = c"
    "(n + 1) mod 4 = 0 \<longleftrightarrow> r = 3" "(n + 1) mod 100 = 0 \<longleftrightarrow> q = 24 \<and> r = 3"
    "(n + 1) mod 400 = 0 \<longleftrightarrow> c = 3 \<and> q = 24 \<and> r = 3" by blast
  have leap: "is_leap_year (Y + 1) \<longleftrightarrow> r = 3 \<and> (q = 24 \<longrightarrow> c = 3)"
  proof -
    have "(Y + 1) mod 4 = (n + 1) mod 4" "(Y + 1) mod 100 = (n + 1) mod 100"
      "(Y + 1) mod 400 = (n + 1) mod 400"
      using mod_mult_self1 [of "n + 1" "100 * e" 4] mod_mult_self1 [of "n + 1" "4 * e" 100]
        mod_mult_self1 [of "n + 1" e 400] by (simp_all add: Yen algebra_simps)
    with cqr(10-12) show ?thesis by (simp only: is_leap_year_def) blast
  qed
  have last: "k = 365 \<Longrightarrow> r = 3 \<and> (q = 24 \<longrightarrow> c = 3)"
    using k(4) leap by (auto simp: Y_def)
  define doe where "doe = 36524 * c + 1461 * q + 365 * r + k"
  note yoe = year_of_era_recovered [OF cqr(1-6) k(1,2) last, folded doe_def]
  have Yd: "Y div 4 = 100 * e + (25 * c + q)" "Y div 100 = 4 * e + c"
    using div_mult_self1 [of 4 n "100 * e"] div_mult_self1 [of 100 n "4 * e"] cqr(8,9)
    by (simp_all add: Yen algebra_simps)
  have total: "days_from_civil y m d + 719468 = 146097 * e + doe"
    unfolding days_from_civil_closed [OF order_trans [OF zero_le_one assms(2)] m]
      march_month_def [symmetric] Y_def [symmetric] days_before_def Yd e_def [symmetric]
    by (simp add: k_def doe_def cqr(7) Yen)
  have doe: "0 \<le> doe" "doe < 146097"
    using cqr(1-6) k(1,2) last by (cases "k = 365"; simp add: doe_def)+
  have e: "0 \<le> e" using Y by (simp add: e_def pos_imp_zdiv_nonneg_iff)
  have era: "(146097 * e + doe) div 146097 = e" using doe by simp
  have "0 \<le> 146097 * e + doe" using e doe by simp
  then have "civil_from_days (days_from_civil y m d) =
      (let n' = n; doy = doe - (365 * n' + n' div 4 - n' div 100); mp = (5 * doy + 2) div 153;
           day = doy - (153 * mp + 2) div 5 + 1; mm = mp + (if mp < 10 then 3 else -9)
       in (n' + e * 400 + (if mm \<le> 2 then 1 else 0), mm, day))"
    unfolding civil_from_days_def Let_def total
    by (simp add: era yoe cqr(7) [symmetric])
  moreover have "doe - (365 * n + n div 4 - n div 100) = k"
    by (simp add: doe_def cqr(8,9)) (simp add: cqr(7))
  moreover have "n + e * 400 = Y" by (simp add: Yen)
  ultimately show ?thesis
    by (simp only: Let_def k(3,5)) (simp add: k_def Y_def)
qed

lemma day_count_surj:
  assumes "0 \<le> n"
  shows "\<exists>y m d. valid_date y m d \<and> 1970 \<le> y \<and> days_from_civil y m d = n"
  using assms
proof (induction n rule: int_ge_induct)
  case base
  have "valid_date 1970 1 1 \<and> days_from_civil 1970 1 1 = 0"
    by (simp add: valid_date_def days_from_civil_def)
  then show ?case by force
next
  case (step n)
  then obtain y m d where v: "valid_date y m d" "1970 \<le> y" "days_from_civil y m d = n" by blast
  obtain y' m' d' where nx: "next_date (y, m, d) = (y', m', d')" by (cases "next_date (y, m, d)")
  have "0 \<le> y" using v(2) by simp
  from days_from_civil_next [OF v(1) this nx] valid_next_date [OF v(1) nx] v
  show ?case by (metis order_trans)
qed

lemma days_before_mono: "a \<le> b \<Longrightarrow> days_before a \<le> days_before b"
proof (induction b rule: int_ge_induct)
  case (step b)
  then show ?case using days_before_step [of "b + 1"] by (simp split: if_splits)
qed simp

lemma year_start: "0 \<le> y \<Longrightarrow> days_from_civil y 1 1 = days_before (y - 1) + 306 - 719468"
  by (subst days_from_civil_closed) simp_all

text \<open>The days of a year lie between its first and the next year's first.\<close>

lemma day_within_year:
  assumes v: "valid_date y m d" and "0 \<le> y"
  shows "days_from_civil y 1 1 \<le> days_from_civil y m d"
    and "days_from_civil y m d < days_from_civil (y + 1) 1 1"
proof -
  from v have m: "1 \<le> m" "m \<le> 12" by (simp_all add: valid_date_def)
  define D L where "D = days_before (y - 1)" and "L \<longleftrightarrow> is_leap_year y"
  have Dy: "days_before y = D + (if L then 366 else 365)"
    unfolding D_def L_def by (rule days_before_step)
  have v': "\<exists>dim. days_in_month y m = Some dim \<and> d \<le> dim" "1 \<le> d" using v by (simp_all add: valid_date_def)
  have dfc: "days_from_civil y m d = (if m \<le> 2 then D else days_before y) +
      (153 * (m + (if 2 < m then -3 else 9)) + 2) div 5 + d - 1 - 719468"
    unfolding days_from_civil_closed [OF assms(2) m] D_def by simp
  have a: "days_from_civil y 1 1 = D + 306 - 719468"
    unfolding year_start [OF assms(2)] D_def by (rule refl)
  have b: "days_from_civil (y + 1) 1 1 = days_before y + 306 - 719468"
    using year_start [of "y + 1"] assms(2) by simp
  have "D + 306 - 719468 \<le> days_from_civil y m d \<and>
      days_from_civil y m d < D + (if L then 366 else 365) + 306 - 719468"
    using m unfolding dfc
    by (cases rule: month_cases)
      (use v' in \<open>simp_all add: Dy L_def [symmetric] split: if_splits\<close>)
  then show "days_from_civil y 1 1 \<le> days_from_civil y m d"
    and "days_from_civil y m d < days_from_civil (y + 1) 1 1"
    by (simp_all only: a b Dy)
qed

lemma year_start_mono: "0 \<le> a \<Longrightarrow> a \<le> b \<Longrightarrow> days_from_civil a 1 1 \<le> days_from_civil b 1 1"
  using days_before_mono [of "a - 1" "b - 1"] by (simp add: year_start)

lemma year_bounds:
  assumes "valid_date y m d" and "1970 \<le> y"
  shows "0 \<le> days_from_civil y m d"
    and "days_from_civil y m d < days_from_civil 9999 1 1 \<longleftrightarrow> y \<le> 9998"
proof -
  have "days_from_civil 1970 1 1 = 0" by (simp add: days_from_civil_def)
  then show "0 \<le> days_from_civil y m d"
    using year_start_mono [of 1970 y] day_within_year(1) [of y m d] assms by simp
  show "days_from_civil y m d < days_from_civil 9999 1 1 \<longleftrightarrow> y \<le> 9998"
  proof (cases "y \<le> 9998")
    case True
    then show ?thesis using year_start_mono [of "y + 1" 9999] day_within_year(2) [of y m d] assms by simp
  next
    case False
    then show ?thesis using year_start_mono [of 9999 y] day_within_year(1) [of y m d] assms by simp
  qed
qed

section \<open>Instants and their fields\<close>

definition valid_fields :: "time_fields \<Rightarrow> bool" where
  "valid_fields f \<longleftrightarrow> valid_date (f_year f) (f_month f) (f_day f) \<and>
     MIN_YEAR \<le> f_year f \<and> f_year f \<le> MAX_YEAR \<and> 0 \<le> f_hour f \<and> f_hour f \<le> 23 \<and>
     0 \<le> f_minute f \<and> f_minute f \<le> 59 \<and> 0 \<le> f_second f \<and> f_second f \<le> 59 \<and>
     0 \<le> f_fraction f \<and> f_fraction f < 1000000"

definition instant :: "time_fields \<Rightarrow> int" where
  "instant f =
     (days_from_civil (f_year f) (f_month f) (f_day f) * 86400 + f_hour f * 3600 + f_minute f * 60
      + f_second f) * 1000000 + f_fraction f"

lemmas utc_constants = MIN_YEAR_def MAX_YEAR_def MICROSECONDS_PER_SECOND_def SECONDS_PER_DAY_def
  MICROSECONDS_PER_DAY_def MIN_MICROSECOND_def MAX_MICROSECOND_def

lemma split_second:
  fixes h mi s :: int
  assumes "0 \<le> h" "0 \<le> mi" "mi \<le> 59" "0 \<le> s" "s \<le> 59"
  shows "(h * 3600 + mi * 60 + s) div 3600 = h" "(h * 3600 + mi * 60 + s) div 60 = h * 60 + mi"
    "(h * 3600 + mi * 60 + s) mod 60 = s" "(h * 60 + mi) mod 60 = mi"
proof -
  show "(h * 3600 + mi * 60 + s) div 3600 = h"
    by (rule int_div_pos_eq [where r = "mi * 60 + s"]) (use assms in simp_all)
  show "(h * 3600 + mi * 60 + s) div 60 = h * 60 + mi"
    by (rule int_div_pos_eq [where r = s]) (use assms in simp_all)
  show "(h * 3600 + mi * 60 + s) mod 60 = s"
    by (rule int_mod_pos_eq [where q = "h * 60 + mi"]) (use assms in simp_all)
  show "(h * 60 + mi) mod 60 = mi"
    by (rule int_mod_pos_eq [where q = h]) (use assms in simp_all)
qed

lemma int_div_less:
  fixes a b c :: int
  assumes "0 < b" "a < b * c"
  shows "a div b < c"
proof (rule ccontr)
  assume "\<not> a div b < c"
  then have "b * c \<le> b * (a div b)" using assms(1) by simp
  also have "\<dots> \<le> a" using div_mult_mod_eq [of a b] pos_mod_sign [OF assms(1), of a]
    by (simp only: mult.commute)
  finally show False using assms(2) by simp
qed

lemma mod_60: "(x :: int) mod 60 \<le> 59"
proof -
  have "x mod 60 < 60" by simp
  then show ?thesis by linarith
qed

lemma fields_units:
  "fields t =
     (if \<not> (0 \<le> t \<and> t \<le> days_from_civil 9999 1 1 * 86400000000 - 1) then Inl InstantOutside
      else case civil_from_days (t div 86400000000) of (y, m, d) \<Rightarrow>
        Inr \<lparr>f_year = y, f_month = m, f_day = d,
          f_hour = t mod 86400000000 div 1000000 div 3600,
          f_minute = t mod 86400000000 div 1000000 div 60 mod 60,
          f_second = t mod 86400000000 div 1000000 mod 60,
          f_fraction = t mod 86400000000 mod 1000000\<rparr>)"
proof -
  have "MICROSECONDS_PER_DAY = 86400000000" "MICROSECONDS_PER_SECOND = 1000000" "MIN_MICROSECOND = 0"
    "MAX_MICROSECOND = days_from_civil 9999 1 1 * 86400000000 - 1" by (simp_all add: utc_constants)
  then show ?thesis unfolding fields_def Let_def by (simp only:)
qed

lemma fields_of_instant:
  assumes "valid_fields f"
  shows "fields (instant f) = Inr f"
proof -
  define D where "D = days_from_civil (f_year f) (f_month f) (f_day f)"
  define S where "S = f_hour f * 3600 + f_minute f * 60 + f_second f"
  note v = assms [unfolded valid_fields_def utc_constants]
  have t: "instant f = 86400000000 * D + (1000000 * S + f_fraction f)"
    by (simp add: instant_def D_def S_def)
  have S: "0 \<le> S" "S < 86400" using v by (simp_all add: S_def)
  have D: "0 \<le> D" "D < days_from_civil 9999 1 1"
    using year_bounds [of "f_year f" "f_month f" "f_day f"] v by (simp_all add: D_def)
  have u: "0 \<le> f_fraction f" "f_fraction f < 1000000" using v by simp_all
  have w: "0 \<le> 1000000 * S + f_fraction f" "1000000 * S + f_fraction f < 86400000000"
    using S v by simp_all
  have days: "instant f div 86400000000 = D" "instant f mod 86400000000 = 1000000 * S + f_fraction f"
    using int_div_pos_eq [OF t w] int_mod_pos_eq [OF t w] .
  have secs: "(1000000 * S + f_fraction f) div 1000000 = S"
    "(1000000 * S + f_fraction f) mod 1000000 = f_fraction f"
    using int_div_pos_eq [OF refl u] int_mod_pos_eq [OF refl u] .
  have civ: "civil_from_days D = (f_year f, f_month f, f_day f)"
    unfolding D_def using v by (intro civil_from_days_inverse) simp_all
  have clock: "S div 3600 = f_hour f" "S div 60 mod 60 = f_minute f" "S mod 60 = f_second f"
    unfolding S_def using split_second [of "f_hour f" "f_minute f" "f_second f"] v by simp_all
  have "0 \<le> instant f \<and> instant f \<le> days_from_civil 9999 1 1 * 86400000000 - 1"
    using t w D by linarith
  then show ?thesis unfolding fields_units days secs civ clock by (simp only: if_False not_not if_P) simp
qed

lemma fields_valid:
  assumes "fields t = Inr f"
  shows "valid_fields f \<and> instant f = t"
proof -
  define n w where "n = t div 86400000000" and "w = t mod 86400000000"
  from assms have r: "0 \<le> t" "t \<le> days_from_civil 9999 1 1 * 86400000000 - 1"
    by (auto simp: fields_def utc_constants split: if_splits)
  have n: "0 \<le> n" using r(1) by (simp add: n_def pos_imp_zdiv_nonneg_iff)
  have tn: "t = 86400000000 * n + w" by (simp add: n_def w_def)
  have w: "0 \<le> w" "w < 86400000000" by (simp_all add: w_def)
  define s u where "s = w div 1000000" and "u = w mod 1000000"
  have ws: "w = 1000000 * s + u" and u: "0 \<le> u" "u < 1000000" by (simp_all add: s_def u_def)
  have s: "0 \<le> s" "s < 86400" using w u ws by linarith+
  from day_count_surj [OF n] obtain y m d where v: "valid_date y m d" "1970 \<le> y"
    "days_from_civil y m d = n" by blast
  have "n < days_from_civil 9999 1 1" using r tn w by linarith
  with year_bounds(2) [OF v(1,2)] v(3) have y: "y \<le> 9998" by simp
  have c: "civil_from_days n = (y, m, d)"
    using civil_from_days_inverse [OF v(1)] v(2,3) by simp
  have f: "f = \<lparr>f_year = y, f_month = m, f_day = d, f_hour = s div 3600, f_minute = s div 60 mod 60,
      f_second = s mod 60, f_fraction = u\<rparr>"
    using assms r unfolding fields_units n_def [symmetric] w_def [symmetric] s_def [symmetric]
      u_def [symmetric] c by simp
  have "s div 3600 < 24" by (rule int_div_less) (use s in simp_all)
  then have h: "0 \<le> s div 3600" "s div 3600 \<le> 23"
    using s(1) by (simp_all add: pos_imp_zdiv_nonneg_iff)
  have "s div 60 div 60 = s div 3600" by (simp add: zdiv_zmult2_eq [symmetric])
  then have "s = s div 3600 * 3600 + s div 60 mod 60 * 60 + s mod 60"
    using div_mult_mod_eq [of s 60] div_mult_mod_eq [of "s div 60" 60] by linarith
  then have "instant f = t" by (simp add: f instant_def v(3) tn ws)
  moreover have "valid_fields f"
    using v y h u mod_60 by (simp add: f valid_fields_def utc_constants)
  ultimately show ?thesis by simp
qed

lemma fields_iff: "fields t = Inr f \<longleftrightarrow> valid_fields f \<and> instant f = t"
  using fields_valid fields_of_instant by blast

section \<open>Digit groups and the text forms\<close>

lemma undec_Cons: "undec (c # t) = (c - 48) * 10 ^ length t + undec t"
  by (induction t rule: rev_induct) (simp_all add: undec_def algebra_simps)

lemma undec_zeros: "undec (replicate k 48 @ t) = undec t"
  by (induction k) (simp_all add: undec_Cons)

lemma undec_bound: "list_all is_digit g \<Longrightarrow> undec g < 10 ^ length g"
proof (induction g rule: rev_induct)
  case (snoc c g)
  then have "undec g < 10 ^ length g" "c \<in> {48..57}" by (simp_all add: is_digit_def)
  then have "undec g < 10 ^ length g" "c - 48 \<le> 9" by auto
  then have "undec g * 10 + (c - 48) < 10 * 10 ^ length g" by linarith
  then show ?case by simp
qed (simp add: undec_def)

lemma last_digit: "(p :: nat) * 10 + a = q * 10 + b \<Longrightarrow> a < 10 \<Longrightarrow> b < 10 \<Longrightarrow> p = q \<and> a = b"
  by presburger

lemma undec_inj:
  assumes "list_all is_digit g" "list_all is_digit h" "length g = length h" "undec g = undec h"
  shows "g = h"
  using assms(3,1,2,4)
proof (induction g h rule: rev_induct2)
  case (4 c g d h)
  then have "c \<in> {48..57}" "d \<in> {48..57}" and e: "undec g * 10 + (c - 48) = undec h * 10 + (d - 48)"
    by (simp_all add: is_digit_def)
  then have "c - 48 < 10" "d - 48 < 10" by auto
  with last_digit [OF e] have "undec g = undec h" "c - 48 = d - 48" by simp_all
  moreover from this \<open>c \<in> {48..57}\<close> \<open>d \<in> {48..57}\<close> have "c = d" by (simp add: eq_diff_iff)
  ultimately show ?case using 4 by simp
qed simp_all

lemma zpad_group:
  assumes "0 < w" "0 \<le> v" "v < 10 ^ w"
  shows "length (zpad w v) = w" "list_all is_digit (zpad w v)" "undec (zpad w v) = nat v"
proof -
  have "nat v < 10 ^ w" using assms(2,3) by (simp add: nat_less_iff)
  then show "length (zpad w v) = w"
    using length_dec_bound [of "nat v" w] assms(1) by (simp add: zpad_def Let_def)
  show "list_all is_digit (zpad w v)"
    using dec_digits by (auto simp: zpad_def Let_def list_all_iff is_digit_def)
  show "undec (zpad w v) = nat v" by (simp add: zpad_def Let_def undec_zeros)
qed

lemma zpad_undec: "list_all is_digit g \<Longrightarrow> g \<noteq> [] \<Longrightarrow> zpad (length g) (int (undec g)) = g"
proof -
  assume g: "list_all is_digit g" "g \<noteq> []"
  have "int (undec g) < 10 ^ length g"
    using undec_bound [OF g(1)] by (metis of_nat_less_iff of_nat_numeral of_nat_power)
  then show ?thesis
    using zpad_group [of "length g" "int (undec g)"] g by (intro undec_inj) simp_all
qed

text \<open>A form matches exactly the texts its groups spell.\<close>

fun spells :: "form_part list \<Rightarrow> pytext list \<Rightarrow> pytext \<Rightarrow> bool" where
  "spells [] gs text \<longleftrightarrow> gs = [] \<and> text = []"
| "spells (Lit c # ps) gs text \<longleftrightarrow> (\<exists>rest. text = of_char c # rest \<and> spells ps gs rest)"
| "spells (Digits n # ps) gs text \<longleftrightarrow>
     (\<exists>g gs' rest. gs = g # gs' \<and> text = g @ rest \<and> length g = n \<and> list_all is_digit g \<and> spells ps gs' rest)"

lemma match_form_iff: "match_form ps t = Some gs \<longleftrightarrow> spells ps gs t"
proof (induction ps t arbitrary: gs rule: match_form.induct)
  case (3 n ps t)
  show ?case
  proof
    assume "match_form (Digits n # ps) t = Some gs"
    then have n: "n \<le> length t" "list_all is_digit (take n t)"
      and "\<exists>gs'. match_form ps (drop n t) = Some gs' \<and> gs = take n t # gs'"
      by (auto split: if_splits)
    then obtain gs' where "spells ps gs' (drop n t)" "gs = take n t # gs'"
      using 3 by (auto simp: n)
    with n show "spells (Digits n # ps) gs t"
      by (auto intro!: exI [of _ "drop n t"])
  qed (use 3 in auto)
qed (auto split: list.splits if_splits)

lemma stamp_spelled:
  "match_form (STAMP w) text = Some [g1, g2, g3, g4, g5, g6, g7] \<longleftrightarrow>
   text = g1 @ asc ''-'' @ g2 @ asc ''-'' @ g3 @ asc ''T'' @ g4 @ asc '':'' @ g5 @ asc '':'' @ g6 @
     asc ''.'' @ g7 @ asc ''Z'' \<and>
   length g1 = 4 \<and> length g2 = 2 \<and> length g3 = 2 \<and> length g4 = 2 \<and> length g5 = 2 \<and>
   length g6 = 2 \<and> length g7 = w \<and>
   list_all (list_all is_digit) [g1, g2, g3, g4, g5, g6, g7]"
  unfolding match_form_iff STAMP_def by auto

lemma stamp_seven:
  assumes "match_form (STAMP w) text = Some gs"
  obtains g1 g2 g3 g4 g5 g6 g7 where "gs = [g1, g2, g3, g4, g5, g6, g7]"
  using assms unfolding match_form_iff STAMP_def by auto

text \<open>The fields that seven digit groups name, the fraction counted in \<open>unit\<close> microseconds.\<close>

definition named_fields :: "pytext list \<Rightarrow> int \<Rightarrow> time_fields" where
  "named_fields gs unit =
     \<lparr>f_year = int (undec (gs ! 0)), f_month = int (undec (gs ! 1)), f_day = int (undec (gs ! 2)),
      f_hour = int (undec (gs ! 3)), f_minute = int (undec (gs ! 4)), f_second = int (undec (gs ! 5)),
      f_fraction = int (undec (gs ! 6)) * unit\<rparr>"

lemma days_in_month_Some: "1 \<le> m \<Longrightarrow> m \<le> 12 \<Longrightarrow> \<exists>dim. days_in_month y m = Some dim \<and> dim \<le> 31"
  by (cases rule: month_cases [of m]) auto

lemma parsed_groups:
  assumes "match_form form t = Some [g1, g2, g3, g4, g5, g6, g7]"
    and "0 \<le> f_fraction (named_fields [g1, g2, g3, g4, g5, g6, g7] u)"
    and "f_fraction (named_fields [g1, g2, g3, g4, g5, g6, g7] u) < 1000000"
  shows "parsed t form u = Inr x \<longleftrightarrow> valid_fields (named_fields [g1, g2, g3, g4, g5, g6, g7] u) \<and>
    x = instant (named_fields [g1, g2, g3, g4, g5, g6, g7] u)"
  using assms days_in_month_Some [of "int (undec g2)" "int (undec g1)"]
  by (auto simp: parsed_def Let_def valid_fields_def valid_date_def instant_def utc_constants
      named_fields_def algebra_simps split: if_splits option.splits)

lemma parsed_shape: "parsed t (STAMP w) u = Inr x \<Longrightarrow>
    \<exists>g1 g2 g3 g4 g5 g6 g7. match_form (STAMP w) t = Some [g1, g2, g3, g4, g5, g6, g7]"
  by (cases "match_form (STAMP w) t") (auto simp: parsed_def elim: stamp_seven)

lemma parsed_exact:
  assumes "0 < u" "0 < w" "10 ^ w * u = 1000000"
  shows "parsed t (STAMP w) u = Inr x \<longleftrightarrow>
    (\<exists>f. fields x = Inr f \<and> u dvd f_fraction f \<and> t = stamp_text f (zpad w (f_fraction f div u)))"
    (is "?P \<longleftrightarrow> ?F")
proof
  assume P: ?P
  then obtain g1 g2 g3 g4 g5 g6 g7 where m: "match_form (STAMP w) t = Some [g1, g2, g3, g4, g5, g6, g7]"
    using parsed_shape by blast
  note sp = m [unfolded stamp_spelled]
  have "undec g7 < 10 ^ w" using sp undec_bound [of g7] by simp
  then have "int (undec g7) < 10 ^ w" by (metis of_nat_less_iff of_nat_numeral of_nat_power)
  then have fr: "int (undec g7) * u < 1000000" using assms by (metis mult_less_cancel_right_disj)
  let ?f = "named_fields [g1, g2, g3, g4, g5, g6, g7] u"
  have "valid_fields ?f" "x = instant ?f"
    using parsed_groups [OF m] P fr assms(1) by (simp_all add: named_fields_def)
  then have "fields x = Inr ?f" by (simp add: fields_iff)
  moreover have "t = stamp_text ?f (zpad w (f_fraction ?f div u))"
    using sp zpad_undec [of g1] zpad_undec [of g2] zpad_undec [of g3] zpad_undec [of g4]
      zpad_undec [of g5] zpad_undec [of g6] zpad_undec [of g7] assms(1,2)
    by (auto simp: stamp_text_def named_fields_def simp flip: length_greater_0_conv)
  moreover have "u dvd f_fraction ?f" by (simp add: named_fields_def)
  ultimately show ?F by blast
next
  assume ?F
  then obtain f where f: "valid_fields f" "instant f = x" "u dvd f_fraction f"
    "t = stamp_text f (zpad w (f_fraction f div u))" by (auto simp: fields_iff)
  note v = f(1) [unfolded valid_fields_def utc_constants valid_date_def]
  have ymd: "1 \<le> f_month f" "f_month f \<le> 12" "1 \<le> f_day f" "f_day f \<le> 31"
    using v days_in_month_Some [of "f_month f" "f_year f"] by auto
  define r where "r = f_fraction f div u"
  have ru: "f_fraction f = r * u" using f(3) by (simp add: r_def)
  have r: "0 \<le> r" using v assms(1) by (simp add: r_def pos_imp_zdiv_nonneg_iff)
  have "r * u < 10 ^ w * u" using v assms(3) ru by simp
  then have r': "r < 10 ^ w" using assms(1) by simp
  let ?gs = "[zpad 4 (f_year f), zpad 2 (f_month f), zpad 2 (f_day f), zpad 2 (f_hour f),
    zpad 2 (f_minute f), zpad 2 (f_second f), zpad w r]"
  have "match_form (STAMP w) t = Some ?gs"
    unfolding stamp_spelled using v ymd r r' assms(2)
    by (simp add: zpad_group f(4) stamp_text_def r_def [symmetric])
  moreover have "named_fields ?gs u = f"
    using v ymd r r' assms(2) by (simp add: named_fields_def zpad_group ru [symmetric])
  ultimately show ?P using parsed_groups [of "STAMP w" t] f(1,2) v by simp
qed

section \<open>Properties\<close>

lemma fields_total: "MIN_MICROSECOND \<le> t \<Longrightarrow> t \<le> MAX_MICROSECOND \<Longrightarrow> \<exists>f. fields t = Inr f"
  by (auto simp: fields_def Let_def split: prod.split)

lemma format_microsecond_parses: "format_microsecond t = Inr s \<Longrightarrow> parse_microsecond s = Inr t"
  unfolding parse_microsecond_def FORM_def
  by (subst parsed_exact) (auto simp: format_microsecond_def rbind_eq_Inr_iff)

lemma fields_cut:
  assumes "fields t = Inr f"
  shows "fields (t - t mod 1000) = Inr (f\<lparr>f_fraction := f_fraction f - f_fraction f mod 1000\<rparr>)"
proof -
  from assms have v: "valid_fields f" and i: "instant f = t" by (simp_all add: fields_iff)
  define k where "k = 1000 * (days_from_civil (f_year f) (f_month f) (f_day f) * 86400 +
      f_hour f * 3600 + f_minute f * 60 + f_second f)"
  have "t = f_fraction f + k * 1000" using i by (auto simp: instant_def k_def)
  then have "t mod 1000 = f_fraction f mod 1000" by simp
  moreover have "0 \<le> f_fraction f - f_fraction f mod 1000"
    using v by (simp add: valid_fields_def zmod_le_nonneg_dividend)
  moreover have "f_fraction f - f_fraction f mod 1000 < 1000000"
    using v pos_mod_sign [of 1000 "f_fraction f"] unfolding valid_fields_def by linarith
  ultimately show ?thesis using v i by (simp add: fields_iff valid_fields_def instant_def)
qed

lemma format_millisecond_parses:
  assumes "format_millisecond t = Inr s"
  shows "parse_millisecond s = Inr (t - t mod 1000)"
proof -
  from assms obtain f where f: "fields t = Inr f" and s: "s = stamp_text f (zpad 3 (f_fraction f div 1000))"
    by (auto simp: format_millisecond_def rbind_eq_Inr_iff)
  have c: "(f_fraction f - f_fraction f mod 1000) div 1000 = f_fraction f div 1000"
    by (simp add: minus_mod_eq_mult_div)
  have "1000 dvd f_fraction f - f_fraction f mod 1000" by (rule dvd_minus_mod)
  with fields_cut [OF f] show ?thesis
    unfolding parse_millisecond_def FORM_MILLISECOND_def
    by (subst parsed_exact) (auto simp: s stamp_text_def c intro!: exI)
qed

text \<open>
  C14. From year 1 on, \<open>days_from_civil\<close> is the Gregorian day count: the day after a date is one
  day later, across month ends, leap days and century years, and \<open>civil_from_days\<close> gives every
  date back.
\<close>

theorem calendar_counts_days:
  assumes "valid_date y m d" and "1 \<le> y"
  shows "civil_from_days (days_from_civil y m d) = (y, m, d) \<and>
    (case next_date (y, m, d) of (y', m', d') \<Rightarrow>
       days_from_civil y' m' d' = days_from_civil y m d + 1)"
proof -
  have "0 \<le> y" using assms(2) by simp
  with civil_from_days_inverse [OF assms] days_from_civil_next [OF assms(1)] show ?thesis
    by (simp split: prod.split)
qed

theorem calendar_counts_days_witness:
  "days_from_civil 2000 3 1 = days_from_civil 2000 2 29 + 1 \<and> civil_from_days 11016 = (2000, 2, 29)"
proof -
  have v: "valid_date 2000 2 29" by (simp add: valid_date_def is_leap_year_def)
  have "days_from_civil 2000 2 29 = 11016" by (simp add: days_from_civil_def)
  with calendar_counts_days [OF v] show ?thesis
    by (simp add: next_date_def is_leap_year_def)
qed

text \<open>
  C13. Parsing a microsecond timestamp is the inverse of writing one: a text is read as the
  instant \<open>t\<close> exactly when it is the text the writer gives for \<open>t\<close>. No second spelling of an
  instant is accepted, and every instant of 1970 to 9998 is.
\<close>

theorem parse_microsecond_exact:
  "parse_microsecond stamp = Inr t \<longleftrightarrow> format_microsecond t = Inr stamp"
proof -
  have "parse_microsecond stamp = Inr t \<longleftrightarrow>
      (\<exists>f. fields t = Inr f \<and> stamp = stamp_text f (zpad 6 (f_fraction f)))"
    unfolding parse_microsecond_def FORM_def by (subst parsed_exact) simp_all
  then show ?thesis by (auto simp: format_microsecond_def rbind_eq_Inr_iff)
qed

text \<open>
  The millisecond form is the same inverse on whole milliseconds: a text is read as \<open>t\<close>
  exactly when \<open>t\<close> is a whole number of milliseconds whose written form is that text.
\<close>

theorem parse_millisecond_exact:
  "parse_millisecond stamp = Inr t \<longleftrightarrow> format_millisecond t = Inr stamp \<and> t mod 1000 = 0"
proof -
  have "1000 dvd f_fraction f \<longleftrightarrow> t mod 1000 = 0" if "fields t = Inr f" for f
  proof -
    define k where "k = 1000 * (days_from_civil (f_year f) (f_month f) (f_day f) * 86400 +
        f_hour f * 3600 + f_minute f * 60 + f_second f)"
    from that have "t = f_fraction f + k * 1000"
      by (auto simp: fields_iff instant_def k_def)
    then show ?thesis by (simp add: dvd_eq_mod_eq_0)
  qed
  moreover have "parse_millisecond stamp = Inr t \<longleftrightarrow> (\<exists>f. fields t = Inr f \<and> 1000 dvd f_fraction f \<and>
      stamp = stamp_text f (zpad 3 (f_fraction f div 1000)))"
    unfolding parse_millisecond_def FORM_MILLISECOND_def by (subst parsed_exact) simp_all
  ultimately show ?thesis by (auto simp: format_millisecond_def rbind_eq_Inr_iff)
qed

end
