(* ===== verification/Hla_Codec.thy ===== *)
theory Hla_Codec
  imports Hla_Base
begin

text \<open>
  The four attribute decoders of the HLA observer, \<^verbatim>\<open>packages/hla/src/synapse_hla/codec.py\<close>.
  A value either decodes completely or raises one error, in a fixed order. Floats are their
  IEEE 754 binary64 bit patterns: what \<open>struct\<close> unpacks from eight octets, or widens exactly
  from the four octets of a binary32.
\<close>

unbundle bit_operations_syntax

section \<open>Names and layout\<close>

definition ENTITY_IDENTIFIER :: pytext where "ENTITY_IDENTIFIER = asc ''EntityIdentifier''"
definition ENTITY_TYPE :: pytext where "ENTITY_TYPE = asc ''EntityType''"
definition FORCE_IDENTIFIER :: pytext where "FORCE_IDENTIFIER = asc ''ForceIdentifier''"
definition SPATIAL :: pytext where "SPATIAL = asc ''Spatial''"

definition NAMES :: "pytext list" where
  "NAMES = [ENTITY_IDENTIFIER, ENTITY_TYPE, FORCE_IDENTIFIER, SPATIAL]"

definition FIXED_LENGTHS :: "(pytext, nat) dict" where
  "FIXED_LENGTHS = [(ENTITY_IDENTIFIER, 6), (ENTITY_TYPE, 8), (FORCE_IDENTIFIER, 1)]"

definition POSITION_OFFSETS :: "nat list" where "POSITION_OFFSETS = [8, 16, 24]"
definition FROZEN_OFFSET :: nat where "FROZEN_OFFSET = 32"
definition ORIENTATION_OFFSETS :: "nat list" where "ORIENTATION_OFFSETS = [36, 40, 44]"
definition PADDING_SLICES :: "(nat \<times> nat) \<times> (nat \<times> nat)" where
  "PADDING_SLICES = ((1, 8), (33, 36))"

datatype frame = WORLD | BODY

record SpatialVariant =
  sv_algorithm :: nat
  sv_frame :: frame
  total_bytes :: nat
  velocity_at :: "nat option"
  acceleration_at :: "nat option"
  angular_velocity_at :: "nat option"

definition variant ::
  "nat \<Rightarrow> frame \<Rightarrow> nat \<Rightarrow> nat option \<Rightarrow> nat option \<Rightarrow> nat option \<Rightarrow> SpatialVariant" where
  "variant a f n v c w = \<lparr>sv_algorithm = a, sv_frame = f, total_bytes = n, velocity_at = v,
     acceleration_at = c, angular_velocity_at = w\<rparr>"

definition VARIANTS :: "(nat, SpatialVariant) dict" where
  "VARIANTS = [
     (1, variant 1 WORLD 48 None None None),
     (2, variant 2 WORLD 60 (Some 48) None None),
     (3, variant 3 WORLD 72 (Some 48) None (Some 60)),
     (4, variant 4 WORLD 84 (Some 48) (Some 60) (Some 72)),
     (5, variant 5 WORLD 72 (Some 48) (Some 60) None),
     (6, variant 6 BODY 60 (Some 48) None None),
     (7, variant 7 BODY 72 (Some 48) None (Some 60)),
     (8, variant 8 BODY 84 (Some 48) (Some 60) (Some 72)),
     (9, variant 9 BODY 72 (Some 48) (Some 60) None)]"

section \<open>Floats\<close>

type_synonym float64 = "64 word"

text \<open>A binary64 from its sign, biased exponent and fraction, and the exponent of one.\<close>

definition float_of_parts :: "nat \<Rightarrow> nat \<Rightarrow> nat \<Rightarrow> float64" where
  "float_of_parts s e m = word_of_nat (s * 2 ^ 63 + e * 2 ^ 52 + m)"

definition float_exponent :: "float64 \<Rightarrow> nat" where
  "float_exponent w = unat w div 2 ^ 52 mod 2 ^ 11"

definition isfinite :: "float64 \<Rightarrow> bool" where
  "isfinite w \<longleftrightarrow> float_exponent w \<noteq> 2047"

text \<open>
  \<open>struct.unpack(">f", ...)\<close>: the double with the same value. A subnormal binary32 becomes a
  normal binary64, so its fraction is shifted up to its leading one.
\<close>

definition widen :: "nat \<Rightarrow> float64" where
  "widen w =
     (let s = w div 2 ^ 31 mod 2; e = w div 2 ^ 23 mod 2 ^ 8; m = w mod 2 ^ 23 in
      if e = 255 then float_of_parts s 2047 (m * 2 ^ 29)
      else if e = 0 then
        (if m = 0 then float_of_parts s 0 0
         else (let k = bit_length m
               in float_of_parts s (k + 873) ((m - 2 ^ (k - 1)) * 2 ^ (53 - k))))
      else float_of_parts s (e + 896) (m * 2 ^ 29))"

datatype float_reader = FLOAT64 | FLOAT32

text \<open>\<open>reader.unpack_from(value, offset)\<close>, the offset within the value.\<close>

fun unpack_float :: "float_reader \<Rightarrow> bytes \<Rightarrow> nat \<Rightarrow> float64" where
  "unpack_float FLOAT64 val offset = word_of_int (be_value (take 8 (drop offset val)))"
| "unpack_float FLOAT32 val offset = widen (nat (be_value (take 4 (drop offset val))))"

section \<open>Decoded values\<close>

record entity_identifier =
  site :: nat
  application :: nat
  entity :: nat

record entity_type =
  kind :: nat
  domain :: nat
  country :: nat
  category :: nat
  subcategory :: nat
  specific :: nat
  extra :: nat

record spatial =
  sp_algorithm :: nat
  sp_frame :: frame
  frozen :: bool
  position_ecef_m :: "float64 list"
  orientation_rad :: "float64 list"
  velocity_mps :: "float64 list option"
  acceleration_mps2 :: "float64 list option"
  angular_velocity_radps :: "float64 list option"
  padding_hex :: bytes

datatype decoded =
    DEntityIdentifier entity_identifier
  | DEntityType entity_type
  | DForceIdentifier nat
  | DSpatial spatial

section \<open>The decoders\<close>

definition floats :: "bytes \<Rightarrow> float_reader \<Rightarrow> nat list \<Rightarrow> hla_exception + float64 list" where
  "floats val reader offsets =
     rfold (\<lambda>out offset.
       let number = unpack_float reader val offset in
       if \<not> isfinite number then
         Inl (HlaError ''E_NONFINITE'' (SPATIAL @ asc ''/'' @ dec offset)
           (asc ''the float at byte offset '' @ dec offset @ asc '' is not finite''))
       else Inr (out @ [number])) [] offsets"

definition triple :: "bytes \<Rightarrow> nat option \<Rightarrow> hla_exception + float64 list option" where
  "triple val start =
     (case start of None \<Rightarrow> Inr None
      | Some a \<Rightarrow> rbind (floats val FLOAT32 [a, a + 4, a + 8]) (\<lambda>t. Inr (Some t)))"

definition exact_length :: "pytext \<Rightarrow> bytes \<Rightarrow> nat \<Rightarrow> hla_exception + unit" where
  "exact_length name val required =
     (if length val \<noteq> required then
        Inl (HlaError ''E_ATTRIBUTE_LENGTH'' name
          (asc ''the value holds '' @ dec (length val) @ asc '' bytes and must hold exactly '' @ dec required))
      else Inr ())"

definition spatial_value :: "bytes \<Rightarrow> hla_exception + spatial" where
  "spatial_value val =
     (if val = [] then
        Inl (HlaError ''E_ATTRIBUTE_LENGTH'' SPATIAL
          (asc ''the value is empty and has no dead-reckoning algorithm octet''))
      else
        (let algorithm = unat (val ! 0) in
         case map_of VARIANTS algorithm of
           None \<Rightarrow>
             Inl (HlaError ''E_SPATIAL_VARIANT'' SPATIAL
               (asc ''dead-reckoning algorithm '' @ dec algorithm @ asc '' is not one of 1 to 9''))
         | Some v \<Rightarrow>
             if length val \<noteq> total_bytes v then
               Inl (HlaError ''E_ATTRIBUTE_LENGTH'' SPATIAL
                 (asc ''algorithm '' @ dec algorithm @ asc '' needs exactly '' @ dec (total_bytes v) @
                  asc '' bytes, the value holds '' @ dec (length val)))
             else
               (let flag = unat (val ! FROZEN_OFFSET) in
                if 1 < flag then
                  Inl (HlaError ''E_BOOLEAN'' (SPATIAL @ asc ''/'' @ dec FROZEN_OFFSET)
                    (asc ''the frozen octet is '' @ dec flag @ asc '', and an RPRboolean is 0 or 1''))
                else
                  rbind (floats val FLOAT64 POSITION_OFFSETS) (\<lambda>position.
                  rbind (floats val FLOAT32 ORIENTATION_OFFSETS) (\<lambda>orientation.
                  rbind (triple val (velocity_at v)) (\<lambda>velocity.
                  rbind (triple val (acceleration_at v)) (\<lambda>acceleration.
                  rbind (triple val (angular_velocity_at v)) (\<lambda>angular_velocity.
                  let ((pad_a, pad_b), (pad_c, pad_d)) = PADDING_SLICES in
                  Inr \<lparr>sp_algorithm = algorithm, sp_frame = sv_frame v, frozen = (flag = 1),
                       position_ecef_m = position, orientation_rad = orientation,
                       velocity_mps = velocity, acceleration_mps2 = acceleration,
                       angular_velocity_radps = angular_velocity,
                       padding_hex = drop pad_a (take pad_b val) @ drop pad_c (take pad_d val)\<rparr>))))))))"

definition u16 :: "bytes \<Rightarrow> nat \<Rightarrow> nat" where
  "u16 val offset = nat (be_value (take 2 (drop offset val)))"

definition u8 :: "bytes \<Rightarrow> nat \<Rightarrow> nat" where
  "u8 val offset = unat (val ! offset)"

definition decode_attribute :: "pytext \<Rightarrow> bytes \<Rightarrow> hla_exception + decoded" where
  "decode_attribute name val =
     (let limit = attribute_value_bytes V1 in
      if limit < length val then
        Inl (HlaError ''E_LIMIT'' (safe_text name)
          (asc ''an attribute value of '' @ dec (length val) @ asc '' bytes exceeds the limit of '' @
           dec limit @ asc '' bytes''))
      else if name = SPATIAL then rbind (spatial_value val) (\<lambda>v. Inr (DSpatial v))
      else if name = ENTITY_IDENTIFIER then
        rbind (exact_length ENTITY_IDENTIFIER val (the (map_of FIXED_LENGTHS ENTITY_IDENTIFIER))) (\<lambda>_.
          Inr (DEntityIdentifier
            \<lparr>site = u16 val 0, application = u16 val 2, entity = u16 val 4\<rparr>))
      else if name = ENTITY_TYPE then
        rbind (exact_length ENTITY_TYPE val (the (map_of FIXED_LENGTHS ENTITY_TYPE))) (\<lambda>_.
          Inr (DEntityType
            \<lparr>kind = u8 val 0, domain = u8 val 1, country = u16 val 2, category = u8 val 4,
             subcategory = u8 val 5, specific = u8 val 6, extra = u8 val 7\<rparr>))
      else if name = FORCE_IDENTIFIER then
        rbind (exact_length FORCE_IDENTIFIER val (the (map_of FIXED_LENGTHS FORCE_IDENTIFIER))) (\<lambda>_.
          Inr (DForceIdentifier (u8 val 0)))
      else
        Inl (HlaError ''E_UNSUBSCRIBED_ATTRIBUTE'' (safe_text name)
          (asc ''the attribute is not one of the four this profile decodes'')))"

end
