(* ===== verification/Hla_Codec_Correct.thy ===== *)
theory Hla_Codec_Correct
  imports Hla_Codec
begin

text \<open>
  The decoders accept a value exactly when it has the layout of its attribute and only finite
  numbers, lose none of it, and otherwise raise the one error their order of checks fixes.
\<close>

section \<open>Floats\<close>

lemma digits_eq:
  fixes a b c d n :: nat
  assumes "a * n + b = c * n + d" "b < n" "d < n"
  shows "a = c \<and> b = d"
proof -
  have "(b + a * n) div n = (d + c * n) div n" "(b + a * n) mod n = (d + c * n) mod n"
    using assms(1) by (simp_all add: add.commute)
  then show ?thesis using assms(2,3) by simp
qed

lemma float_parts_inj:
  assumes "float_of_parts s e m = float_of_parts s' e' m'"
    and "s < 2" "e < 2 ^ 11" "m < 2 ^ 52" "s' < 2" "e' < 2 ^ 11" "m' < 2 ^ 52"
  shows "s = s' \<and> e = e' \<and> m = m'"
proof -
  have bound: "s * 2 ^ 63 + e * 2 ^ 52 + m < 2 ^ 64" if "s < 2" "e < 2 ^ 11" "m < 2 ^ 52" for s e m :: nat
    using that by simp
  have unat: "unat (float_of_parts s e m) = s * 2 ^ 63 + e * 2 ^ 52 + m"
    if "s < 2" "e < 2 ^ 11" "m < 2 ^ 52" for s e m :: nat
  proof -
    have "take_bit LENGTH(64) (s * 2 ^ 63 + e * 2 ^ 52 + m) = s * 2 ^ 63 + e * 2 ^ 52 + m"
      by (rule take_bit_nat_eq_self) (use bound [OF that] in simp)
    then show ?thesis unfolding float_of_parts_def unsigned_of_nat by (simp only: of_nat_id)
  qed
  have "s * 2 ^ 63 + e * 2 ^ 52 + m = s' * 2 ^ 63 + e' * 2 ^ 52 + m'"
    using arg_cong [OF assms(1), of unat] unat [OF assms(2-4)] unat [OF assms(5-7)] by simp
  then have eq: "(s * 2 ^ 11 + e) * 2 ^ 52 + m = (s' * 2 ^ 11 + e') * 2 ^ 52 + m'" by simp
  from digits_eq [OF eq assms(4,7)] digits_eq [OF _ assms(3,6), of s s'] show ?thesis by blast
qed

text \<open>The biased exponent and fraction of a widened binary32.\<close>

definition wide_parts :: "nat \<Rightarrow> nat \<Rightarrow> nat \<times> nat" where
  "wide_parts e m =
     (if e = 255 then (2047, m * 2 ^ 29)
      else if e = 0 then
        (if m = 0 then (0, 0)
         else (bit_length m + 873, (m - 2 ^ (bit_length m - 1)) * 2 ^ (53 - bit_length m)))
      else (e + 896, m * 2 ^ 29))"

lemma widen_parts:
  "widen w = float_of_parts (w div 2 ^ 31 mod 2)
     (fst (wide_parts (w div 2 ^ 23 mod 2 ^ 8) (w mod 2 ^ 23)))
     (snd (wide_parts (w div 2 ^ 23 mod 2 ^ 8) (w mod 2 ^ 23)))"
  by (simp add: widen_def wide_parts_def Let_def)

lemma bit_length_bound: "0 < m \<Longrightarrow> m < 2 ^ n \<Longrightarrow> 1 \<le> bit_length m \<and> bit_length m \<le> n"
proof -
  assume m: "0 < m" "m < 2 ^ n"
  have "bit_length m \<noteq> 0" using m by (simp add: bit_length.simps)
  moreover have "(2 :: nat) ^ (bit_length m - 1) < 2 ^ n"
    using two_power_bit_length_le [OF m(1)] m(2) by (rule le_less_trans)
  then have "bit_length m - 1 < n" by (rule power_less_imp_less_exp [rotated]) simp
  ultimately show ?thesis by simp
qed

lemma wide_parts_bound:
  assumes "e < 2 ^ 8" "m < 2 ^ 23"
  shows "fst (wide_parts e m) < 2 ^ 11" "snd (wide_parts e m) < 2 ^ 52"
proof -
  have mk: "(m - 2 ^ (k - 1)) * 2 ^ (53 - k) < 2 ^ 52" if "m < 2 ^ k" "1 \<le> k" "k \<le> 53" for k
  proof -
    have "(2 :: nat) ^ k = 2 * 2 ^ (k - 1)" using that(2) by (cases k) auto
    then have "m - 2 ^ (k - 1) < 2 ^ (k - 1)" using that(1) by simp
    then have "(m - 2 ^ (k - 1)) * 2 ^ (53 - k) < 2 ^ (k - 1) * 2 ^ (53 - k)" by simp
    also have "\<dots> = (2 :: nat) ^ 52" using that(2,3) by (simp flip: power_add)
    finally show ?thesis .
  qed
  have k: "0 < m \<Longrightarrow> 1 \<le> bit_length m \<and> bit_length m \<le> 23"
    using bit_length_bound assms(2) by blast
  then show "fst (wide_parts e m) < 2 ^ 11" using assms(1) by (auto simp: wide_parts_def)
  have "m * 2 ^ 29 < 2 ^ 52" using assms(2) by simp
  then show "snd (wide_parts e m) < 2 ^ 52"
    using mk [OF less_two_power_bit_length] k by (auto simp: wide_parts_def)
qed

lemma wide_parts_inj:
  assumes "wide_parts e m = wide_parts e' m'"
    and b: "e < 2 ^ 8" "m < 2 ^ 23" "e' < 2 ^ 8" "m' < 2 ^ 23"
  shows "e = e' \<and> m = m'"
proof -
  have k: "0 < m \<Longrightarrow> 1 \<le> bit_length m \<and> bit_length m \<le> 23"
      "0 < m' \<Longrightarrow> 1 \<le> bit_length m' \<and> bit_length m' \<le> 23"
    using bit_length_bound b(2,4) by blast+
  have e: "e = e'"
    using assms(1) b(1,3) k by (auto simp: wide_parts_def split: if_splits)
  have "m = m'" if "0 < m" "0 < m'" "bit_length m = bit_length m'"
    "(m - 2 ^ (bit_length m - 1)) * 2 ^ (53 - bit_length m) =
     (m' - 2 ^ (bit_length m' - 1)) * 2 ^ (53 - bit_length m')"
    using that two_power_bit_length_le [OF that(1)] two_power_bit_length_le [OF that(2)]
    by (auto simp: eq_diff_iff)
  with assms(1) e show ?thesis by (auto simp: wide_parts_def split: if_splits)
qed

lemma widen_inj:
  assumes "widen v = widen w" "v < 2 ^ 32" "w < 2 ^ 32"
  shows "v = w"
proof -
  have parts: "u = (u div 2 ^ 31 mod 2) * 2 ^ 31 + (u div 2 ^ 23 mod 2 ^ 8) * 2 ^ 23 + u mod 2 ^ 23"
    if "u < 2 ^ 32" for u :: nat
  proof -
    have "u div 2 ^ 31 = u div 2 ^ 23 div 2 ^ 8" by (simp add: div_mult2_eq [symmetric])
    moreover have "u div 2 ^ 31 mod 2 = u div 2 ^ 31" using that by simp
    ultimately have "u div 2 ^ 31 mod 2 = u div 2 ^ 23 div 2 ^ 8" by simp
    moreover define a b where "a = u div 2 ^ 23" and "b = a div 2 ^ 8"
    ultimately have top: "u div 2 ^ 31 mod 2 = b" by simp
    have "u = a * 2 ^ 23 + u mod 2 ^ 23" "a = b * 2 ^ 8 + a mod 2 ^ 8"
      by (simp_all only: a_def b_def div_mult_mod_eq)
    moreover define r t where "r = a mod 2 ^ 8" and "t = u mod 2 ^ 23"
    ultimately have "u = a * 2 ^ 23 + t" "a = b * 2 ^ 8 + r" by simp_all
    then have "u = b * 2 ^ 31 + r * 2 ^ 23 + t" by simp
    then show ?thesis unfolding top a_def [symmetric] r_def t_def .
  qed
  have "v div 2 ^ 31 mod 2 = w div 2 ^ 31 mod 2 \<and>
      wide_parts (v div 2 ^ 23 mod 2 ^ 8) (v mod 2 ^ 23) = wide_parts (w div 2 ^ 23 mod 2 ^ 8) (w mod 2 ^ 23)"
    using float_parts_inj [OF assms(1) [unfolded widen_parts]]
      wide_parts_bound [of "v div 2 ^ 23 mod 2 ^ 8" "v mod 2 ^ 23"]
      wide_parts_bound [of "w div 2 ^ 23 mod 2 ^ 8" "w mod 2 ^ 23"]
    by (simp add: prod_eq_iff)
  with wide_parts_inj [of "v div 2 ^ 23 mod 2 ^ 8" "v mod 2 ^ 23" "w div 2 ^ 23 mod 2 ^ 8" "w mod 2 ^ 23"]
  show ?thesis using parts [OF assms(2)] parts [OF assms(3)] by simp
qed

lemma unpack_float_inj:
  assumes "unpack_float r xs a = unpack_float r ys a"
    and "w = (case r of FLOAT64 \<Rightarrow> 8 | FLOAT32 \<Rightarrow> 4)" and "a + w \<le> length xs" "a + w \<le> length ys"
  shows "take w (drop a xs) = take w (drop a ys)"
proof (rule be_value_inj)
  define p q where "p = take w (drop a xs)" and "q = take w (drop a ys)"
  have len: "length p = w" "length q = w" using assms(3,4) by (simp_all add: p_def q_def)
  then show "length (take w (drop a xs)) = length (take w (drop a ys))" by (simp add: p_def q_def)
  have "be_value p = be_value q"
  proof (cases r)
    case FLOAT64
    with assms(1,2) have "(word_of_int (be_value p) :: 64 word) = word_of_int (be_value q)" "w = 8"
      by (simp_all add: p_def q_def)
    moreover have "be_value p < 256 ^ 8" "be_value q < 256 ^ 8"
      using be_value_bounds [of p] be_value_bounds [of q] len \<open>w = 8\<close> by simp_all
    ultimately show ?thesis
      using be_value_bounds [of p] be_value_bounds [of q]
      by (simp add: word_of_int_eq_iff take_bit_int_eq_self)
  next
    case FLOAT32
    with assms(1,2) have "widen (nat (be_value p)) = widen (nat (be_value q))" "w = 4"
      by (simp_all add: p_def q_def)
    moreover have "be_value p < 256 ^ 4" "be_value q < 256 ^ 4"
      using be_value_bounds [of p] be_value_bounds [of q] len \<open>w = 4\<close> by simp_all
    ultimately show ?thesis
      using widen_inj [of "nat (be_value p)" "nat (be_value q)"]
        be_value_bounds [of p] be_value_bounds [of q] by (simp add: nat_less_iff eq_nat_nat_iff)
  qed
  then show "be_value (take w (drop a xs)) = be_value (take w (drop a ys))" by (simp add: p_def q_def)
qed

section \<open>Reading several floats\<close>

definition nonfinite_at :: "nat \<Rightarrow> hla_exception" where
  "nonfinite_at offset =
     HlaError ''E_NONFINITE'' (SPATIAL @ asc ''/'' @ dec offset)
       (asc ''the float at byte offset '' @ dec offset @ asc '' is not finite'')"

lemma floats_find:
  "floats val r offsets =
     (case find (\<lambda>a. \<not> isfinite (unpack_float r val a)) offsets of
        Some a \<Rightarrow> Inl (nonfinite_at a)
      | None \<Rightarrow> Inr (map (unpack_float r val) offsets))"
proof -
  have "rfold (\<lambda>out offset. let number = unpack_float r val offset in
          if \<not> isfinite number then Inl (nonfinite_at offset) else Inr (out @ [number])) out offsets =
      (case find (\<lambda>a. \<not> isfinite (unpack_float r val a)) offsets of
        Some a \<Rightarrow> Inl (nonfinite_at a)
      | None \<Rightarrow> Inr (out @ map (unpack_float r val) offsets))" for out
    by (induction offsets arbitrary: out) (auto simp: Let_def split: option.split)
  from this [of "[]"] show ?thesis unfolding floats_def nonfinite_at_def by (simp only: append_Nil)
qed

lemma extend_prefix:
  "take a xs = take a ys \<Longrightarrow> take k (drop a xs) = take k (drop a ys) \<Longrightarrow> take (a + k) xs = take (a + k) ys"
  by (simp add: take_add)

lemma floats_prefix:
  assumes eq: "map (unpack_float r xs) [a, b, c] = map (unpack_float r ys) [a, b, c]"
    and w: "w = (case r of FLOAT64 \<Rightarrow> 8 | FLOAT32 \<Rightarrow> 4)" "b = a + w" "c = b + w"
    and "take a xs = take a ys" "c + w \<le> length xs" "c + w \<le> length ys"
  shows "take (c + w) xs = take (c + w) ys"
proof -
  have "take w (drop d xs) = take w (drop d ys)" if "d \<in> {a, b, c}" for d
    using that eq assms(3,4,6,7) by (intro unpack_float_inj [OF _ w(1)]) auto
  then have chunk: "take w (drop a xs) = take w (drop a ys)" "take w (drop b xs) = take w (drop b ys)"
    "take w (drop c xs) = take w (drop c ys)" by auto
  have "take b xs = take b ys" unfolding w(2) by (rule extend_prefix [OF assms(5) chunk(1)])
  then have "take c xs = take c ys" unfolding w(3) by (rule extend_prefix [OF _ chunk(2)])
  then show ?thesis by (rule extend_prefix [OF _ chunk(3)])
qed

section \<open>The layout of a Spatial value\<close>

definition float_fields :: "SpatialVariant \<Rightarrow> (float_reader \<times> nat) list" where
  "float_fields v =
     map (Pair FLOAT64) POSITION_OFFSETS @ map (Pair FLOAT32) ORIENTATION_OFFSETS @
     map (Pair FLOAT32) (concat (map (\<lambda>at. case at of None \<Rightarrow> [] | Some a \<Rightarrow> [a, a + 4, a + 8])
       [velocity_at v, acceleration_at v, angular_velocity_at v]))"

lemma variant_sel [simp]:
  "sv_algorithm (variant a f n v c w) = a" "sv_frame (variant a f n v c w) = f"
  "total_bytes (variant a f n v c w) = n" "velocity_at (variant a f n v c w) = v"
  "acceleration_at (variant a f n v c w) = c" "angular_velocity_at (variant a f n v c w) = w"
  by (simp_all add: variant_def)

definition layouts :: "(nat option \<times> nat option \<times> nat option \<times> nat) list" where
  "layouts = [(None, None, None, 48), (Some 48, None, None, 60), (Some 48, None, Some 60, 72),
     (Some 48, Some 60, Some 72, 84), (Some 48, Some 60, None, 72)]"

lemma variant_layout:
  assumes "map_of VARIANTS a = Some v"
  shows "(velocity_at v, acceleration_at v, angular_velocity_at v, total_bytes v) \<in> set layouts"
    and "1 \<le> a \<and> a \<le> 9"
proof -
  have "list_all (\<lambda>(a, v). (velocity_at v, acceleration_at v, angular_velocity_at v, total_bytes v)
      \<in> set layouts \<and> 1 \<le> a \<and> a \<le> 9) VARIANTS"
    by (simp add: VARIANTS_def layouts_def)
  with map_of_SomeD [OF assms]
  show "(velocity_at v, acceleration_at v, angular_velocity_at v, total_bytes v) \<in> set layouts"
    and "1 \<le> a \<and> a \<le> 9" by (auto simp: list_all_iff)
qed

lemma total_bytes_positive: "map_of VARIANTS a = Some v \<Longrightarrow> 48 \<le> total_bytes v"
  using variant_layout(1) [of a v] by (auto simp: layouts_def)

definition spatial_of :: "SpatialVariant \<Rightarrow> bytes \<Rightarrow> spatial" where
  "spatial_of v val =
     (let triple_at = map_option (\<lambda>a. map (unpack_float FLOAT32 val) [a, a + 4, a + 8]) in
      \<lparr>sp_algorithm = unat (val ! 0), sp_frame = sv_frame v, frozen = (val ! 32 = 1),
       position_ecef_m = map (unpack_float FLOAT64 val) [8, 16, 24],
       orientation_rad = map (unpack_float FLOAT32 val) [36, 40, 44],
       velocity_mps = triple_at (velocity_at v), acceleration_mps2 = triple_at (acceleration_at v),
       angular_velocity_radps = triple_at (angular_velocity_at v),
       padding_hex = drop 1 (take 8 val) @ drop 33 (take 36 val)\<rparr>)"

definition well_laid_out :: "SpatialVariant \<Rightarrow> bytes \<Rightarrow> bool" where
  "well_laid_out v val \<longleftrightarrow>
     map_of VARIANTS (unat (val ! 0)) = Some v \<and> length val = total_bytes v \<and> unat (val ! 32) \<le> 1"

text \<open>The outcome of a search for a refused offset, and a chain of such outcomes.\<close>

definition found_or :: "nat option \<Rightarrow> 'a \<Rightarrow> hla_exception + 'a" where
  "found_or f r = (case f of Some a \<Rightarrow> Inl (nonfinite_at a) | None \<Rightarrow> Inr r)"

definition or_else :: "'a option \<Rightarrow> 'a option \<Rightarrow> 'a option" where
  "or_else f g = (case f of Some a \<Rightarrow> Some a | None \<Rightarrow> g)"

lemma chain_found:
  "rbind (found_or f1 r1) (\<lambda>x1. rbind (found_or f2 r2) (\<lambda>x2. rbind (found_or f3 r3) (\<lambda>x3.
   rbind (found_or f4 r4) (\<lambda>x4. rbind (found_or f5 r5) (\<lambda>x5. Inr (k x1 x2 x3 x4 x5)))))) =
   found_or (or_else f1 (or_else f2 (or_else f3 (or_else f4 f5)))) (k r1 r2 r3 r4 r5)"
  by (simp add: found_or_def or_else_def split: option.split)

lemma find_map: "find P (map f xs) = map_option f (find (\<lambda>x. P (f x)) xs)"
  by (induction xs) auto

lemma find_append:
  "find P (xs @ ys) = or_else (find P xs) (find P ys)"
  by (induction xs) (auto simp: or_else_def)

lemma or_else_map: "map_option f (or_else a b) = or_else (map_option f a) (map_option f b)"
  by (cases a) (simp_all add: or_else_def)

definition triple_offsets :: "nat option \<Rightarrow> nat list" where
  "triple_offsets at = (case at of None \<Rightarrow> [] | Some a \<Rightarrow> [a, a + 4, a + 8])"

lemma floats_found:
  "floats val r offsets =
     found_or (find (\<lambda>a. \<not> isfinite (unpack_float r val a)) offsets) (map (unpack_float r val) offsets)"
  by (simp add: floats_find found_or_def)

lemma triple_found:
  "triple val at =
     found_or (find (\<lambda>a. \<not> isfinite (unpack_float FLOAT32 val a)) (triple_offsets at))
       (map_option (\<lambda>a. map (unpack_float FLOAT32 val) [a, a + 4, a + 8]) at)"
proof (cases "at")
  case (Some a)
  show ?thesis
    unfolding Some triple_def triple_offsets_def option.case floats_found option.map
    by (simp add: found_or_def split: option.split)
qed (simp add: triple_def triple_offsets_def found_or_def)

lemma small_byte: "unat (b :: byte) \<le> 1 \<Longrightarrow> unat b = 1 \<longleftrightarrow> b = 1"
  by (metis unat_1 unsigned_word_eqI)

lemma float_fields_offsets:
  "float_fields v = map (Pair FLOAT64) POSITION_OFFSETS @ map (Pair FLOAT32) ORIENTATION_OFFSETS @
     map (Pair FLOAT32) (triple_offsets (velocity_at v)) @
     map (Pair FLOAT32) (triple_offsets (acceleration_at v)) @
     map (Pair FLOAT32) (triple_offsets (angular_velocity_at v))"
  by (simp add: float_fields_def triple_offsets_def)

lemma find_field:
  "map_option snd (find (\<lambda>(r, a). \<not> isfinite (unpack_float r val a)) (map (Pair r) as)) =
   find (\<lambda>a. \<not> isfinite (unpack_float r val a)) as"
  by (simp add: find_map o_def option.map_comp option.map_ident)

lemma spatial_value_laid_out:
  assumes "well_laid_out v val"
  shows "spatial_value val =
    found_or (map_option snd (find (\<lambda>(r, a). \<not> isfinite (unpack_float r val a)) (float_fields v)))
      (spatial_of v val)"
proof -
  note a = assms [unfolded well_laid_out_def]
  have "val \<noteq> []" using a total_bytes_positive [of "unat (val ! 0)" v] by auto
  moreover have flag: "unat (val ! 32) = 1 \<longleftrightarrow> val ! 32 = 1" using a small_byte by blast
  ultimately show ?thesis
    unfolding float_fields_offsets find_append or_else_map find_field
    using a
    by (simp add: spatial_value_def Let_def FROZEN_OFFSET_def floats_found triple_found
        PADDING_SLICES_def spatial_of_def flag chain_found)
      (simp add: POSITION_OFFSETS_def ORIENTATION_OFFSETS_def)
qed

lemma spatial_value_Inr:
  assumes "spatial_value val = Inr x"
  obtains v where "well_laid_out v val" "x = spatial_of v val" "val \<noteq> []"
    "find (\<lambda>(r, a). \<not> isfinite (unpack_float r val a)) (float_fields v) = None"
proof -
  from assms obtain v where v: "well_laid_out v val" and ne: "val \<noteq> []"
    by (auto simp: spatial_value_def well_laid_out_def Let_def FROZEN_OFFSET_def
        split: if_splits option.splits)
  from assms [unfolded spatial_value_laid_out [OF v]] that [OF v _ ne] show thesis
    by (auto simp: found_or_def split: option.splits)
qed

lemma spatial_of_prefix:
  assumes "well_laid_out v xs" "well_laid_out v' ys" "spatial_of v xs = spatial_of v' ys"
  shows "v = v'" and "take 48 xs = take 48 ys"
proof -
  note x = assms(1) [unfolded well_laid_out_def] and y = assms(2) [unfolded well_laid_out_def]
  have algo': "unat (xs ! 0) = unat (ys ! 0)" and froz: "xs ! 32 = 1 \<longleftrightarrow> ys ! 32 = 1"
    and pos: "map (unpack_float FLOAT64 xs) [8, 16, 24] = map (unpack_float FLOAT64 ys) [8, 16, 24]"
    and ori: "map (unpack_float FLOAT32 xs) [36, 40, 44] = map (unpack_float FLOAT32 ys) [36, 40, 44]"
    and pad: "drop 1 (take 8 xs) @ drop 33 (take 36 xs) = drop 1 (take 8 ys) @ drop 33 (take 36 ys)"
    using assms(3) by (simp_all add: spatial_of_def Let_def)
  from algo' have algo: "xs ! 0 = ys ! 0" by (rule unsigned_word_eqI)
  from x y algo show "v = v'" by simp
  have len: "48 \<le> length xs" "48 \<le> length ys"
    using x y total_bytes_positive by (metis, metis)
  have pads: "drop 1 (take 8 xs) = drop 1 (take 8 ys)" "drop 33 (take 36 xs) = drop 33 (take 36 ys)"
    using pad len by (auto simp: append_eq_append_conv)
  have "xs \<noteq> []" "ys \<noteq> []" using len by auto
  then have "take 1 xs = take 1 ys" using algo by (cases xs; cases ys) simp_all
  then have "take (1 + 7) xs = take (1 + 7) ys"
    by (rule extend_prefix) (use pads(1) in \<open>simp add: drop_take\<close>)
  then have "take (24 + 8) xs = take (24 + 8) ys"
    by (intro floats_prefix [OF pos]) (use len in simp_all)
  moreover have "xs ! 32 = ys ! 32"
    using froz x y by (metis small_byte unat_1 unat_gt_0 unat_0 unsigned_word_eqI nat_le_linear le_less less_one le_antisym)
  then have "take 1 (drop 32 xs) = take 1 (drop 32 ys)" using len by (simp add: take_Suc hd_drop_conv_nth drop_eq_Nil)
  ultimately have "take (32 + 1) xs = take (32 + 1) ys" by (intro extend_prefix) simp_all
  then have "take (33 + 3) xs = take (33 + 3) ys"
    by (intro extend_prefix) (use pads(2) in \<open>simp_all add: drop_take\<close>)
  then have "take (44 + 4) xs = take (44 + 4) ys"
    by (intro floats_prefix [OF ori]) (use len in simp_all)
  then show "take 48 xs = take 48 ys" by simp
qed

lemma triple_prefix:
  assumes "map_option (\<lambda>a. map (unpack_float FLOAT32 xs) [a, a + 4, a + 8]) (Some c) =
      map_option (\<lambda>a. map (unpack_float FLOAT32 ys) [a, a + 4, a + 8]) (Some c)"
    and "take c xs = take c ys" "c + 12 \<le> length xs" "c + 12 \<le> length ys"
  shows "take (c + 12) xs = take (c + 12) ys"
proof -
  from assms(1) have "map (unpack_float FLOAT32 xs) [c, c + 4, c + 8] =
      map (unpack_float FLOAT32 ys) [c, c + 4, c + 8]" by simp
  from floats_prefix [OF this, of 4] assms(2-4) show ?thesis by (simp add: add.commute)
qed

lemma spatial_of_inj:
  assumes "well_laid_out v xs" "well_laid_out v' ys" "spatial_of v xs = spatial_of v' ys"
  shows "xs = ys"
proof -
  note p = spatial_of_prefix [OF assms]
  note x = assms(1) [unfolded well_laid_out_def] and y = assms(2) [unfolded well_laid_out_def]
  have len: "length xs = total_bytes v" "length ys = total_bytes v" using x y p(1) by simp_all
  define t where "t = (\<lambda>zs at. map_option (\<lambda>a. map (unpack_float FLOAT32 zs) [a, a + 4, a + 8]) at)"
  have t: "t xs (velocity_at v) = t ys (velocity_at v)" "t xs (acceleration_at v) = t ys (acceleration_at v)"
    "t xs (angular_velocity_at v) = t ys (angular_velocity_at v)"
    using assms(3) p(1) by (simp_all add: spatial_of_def Let_def t_def)
  have step: "take (c + 12) xs = take (c + 12) ys"
    if "t xs (Some c) = t ys (Some c)" "take c xs = take c ys" "c + 12 \<le> total_bytes v" for c
    using triple_prefix [OF that(1) [unfolded t_def] that(2)] that(3) len by simp
  have "take (total_bytes v) xs = take (total_bytes v) ys"
    using variant_layout(1) [of "unat (xs ! 0)" v] x t p(2) step [of 48] step [of 60] step [of 72]
    by (auto simp: layouts_def)
  then show ?thesis using len by simp
qed

section \<open>Fixed-length attributes\<close>

lemma names_distinct:
  "SPATIAL \<noteq> ENTITY_IDENTIFIER" "SPATIAL \<noteq> ENTITY_TYPE" "SPATIAL \<noteq> FORCE_IDENTIFIER"
  "ENTITY_IDENTIFIER \<noteq> ENTITY_TYPE" "ENTITY_IDENTIFIER \<noteq> FORCE_IDENTIFIER" "ENTITY_TYPE \<noteq> FORCE_IDENTIFIER"
  by (simp_all add: SPATIAL_def ENTITY_IDENTIFIER_def ENTITY_TYPE_def FORCE_IDENTIFIER_def)

lemma fixed_lengths:
  "map_of FIXED_LENGTHS ENTITY_IDENTIFIER = Some 6" "map_of FIXED_LENGTHS ENTITY_TYPE = Some 8"
  "map_of FIXED_LENGTHS FORCE_IDENTIFIER = Some 1"
  using names_distinct by (auto simp: FIXED_LENGTHS_def)

lemma exact_length_Inr: "exact_length n val k = Inr u \<longleftrightarrow> length val = k"
  by (simp add: exact_length_def)

lemma rbind_exact_length: "rbind (exact_length n val k) (\<lambda>_. Inr x) = Inr y \<longleftrightarrow> length val = k \<and> x = y"
  by (simp add: exact_length_def)

lemma decode_Inr_cases:
  assumes "decode_attribute n val = Inr x"
  obtains
    (Ident) "n = ENTITY_IDENTIFIER" "length val = 6"
      "x = DEntityIdentifier \<lparr>site = u16 val 0, application = u16 val 2, entity = u16 val 4\<rparr>"
  | (Typ) "n = ENTITY_TYPE" "length val = 8"
      "x = DEntityType \<lparr>kind = u8 val 0, domain = u8 val 1, country = u16 val 2, category = u8 val 4,
         subcategory = u8 val 5, specific = u8 val 6, extra = u8 val 7\<rparr>"
  | (Force) "n = FORCE_IDENTIFIER" "length val = 1" "x = DForceIdentifier (u8 val 0)"
  | (Spat) y where "n = SPATIAL" "spatial_value val = Inr y" "x = DSpatial y"
  using assms
  by (auto simp: decode_attribute_def Let_def fixed_lengths rbind_exact_length rbind_eq_Inr_iff
      exact_length_Inr split: if_splits)

lemma u16_inj:
  assumes "u16 xs a = u16 ys a" "a + 2 \<le> length xs" "a + 2 \<le> length ys"
  shows "take 2 (drop a xs) = take 2 (drop a ys)"
proof (rule be_value_inj)
  show "be_value (take 2 (drop a xs)) = be_value (take 2 (drop a ys))"
    using assms(1) be_value_bounds unfolding u16_def by (metis eq_nat_nat_iff)
qed (use assms in simp)

lemma u8_inj: "u8 xs a = u8 ys a \<Longrightarrow> xs ! a = ys ! a"
  by (simp add: u8_def unsigned_word_eqI)

lemma identifier_inj:
  assumes "length xs = 6" "length ys = 6" "u16 xs 0 = u16 ys 0" "u16 xs 2 = u16 ys 2" "u16 xs 4 = u16 ys 4"
  shows "xs = ys"
proof -
  have "take (0 + 2) xs = take (0 + 2) ys"
    by (rule extend_prefix) (use u16_inj [OF assms(3)] assms(1,2) in simp_all)
  then have "take 2 xs = take 2 ys" by (simp only: add_0)
  then have "take (2 + 2) xs = take (2 + 2) ys"
    by (rule extend_prefix) (use u16_inj [OF assms(4)] assms(1,2) in simp)
  then have "take 4 xs = take 4 ys" by simp
  then have "take (4 + 2) xs = take (4 + 2) ys"
    by (rule extend_prefix) (use u16_inj [OF assms(5)] assms(1,2) in simp)
  then show ?thesis using assms(1,2) by simp
qed

lemma take_two_nth: "a + 2 \<le> length xs \<Longrightarrow> take 2 (drop a xs) = [xs ! a, xs ! (a + 1)]"
  by (simp add: take_Suc_conv_app_nth numeral_2_eq_2 take_Suc hd_drop_conv_nth tl_drop drop_Suc [symmetric])

lemma entity_type_inj:
  assumes "length xs = 8" "length ys = 8" "u16 xs 2 = u16 ys 2"
    and b: "\<And>a. a \<in> {0, 1, 4, 5, 6, 7} \<Longrightarrow> u8 xs a = u8 ys a"
  shows "xs = ys"
proof (rule nth_equalityI)
  fix i assume i: "i < length xs"
  have "take 2 (drop 2 xs) = take 2 (drop 2 ys)" by (rule u16_inj) (use assms in simp_all)
  then have "xs ! 2 = ys ! 2 \<and> xs ! 3 = ys ! 3"
    using take_two_nth [of 2 xs] take_two_nth [of 2 ys] assms(1,2) by simp
  moreover have "i = 2 \<or> i = 3 \<or> i \<in> {0, 1, 4, 5, 6, 7}" using i assms(1) by auto
  moreover have "i \<in> {0, 1, 4, 5, 6, 7} \<Longrightarrow> xs ! i = ys ! i" using u8_inj [OF b] .
  ultimately show "xs ! i = ys ! i" by blast
qed (use assms in simp)

section \<open>Properties\<close>

text \<open>The values the decoders are meant to accept.\<close>

definition decodable :: "pytext \<Rightarrow> bytes \<Rightarrow> bool" where
  "decodable n val \<longleftrightarrow>
     n = ENTITY_IDENTIFIER \<and> length val = 6 \<or> n = ENTITY_TYPE \<and> length val = 8 \<or>
     n = FORCE_IDENTIFIER \<and> length val = 1 \<or>
     n = SPATIAL \<and> (\<exists>v. well_laid_out v val \<and>
       list_all (\<lambda>(r, a). isfinite (unpack_float r val a)) (float_fields v))"

lemma find_None_all: "find (\<lambda>(r, a). \<not> P r a) xs = None \<longleftrightarrow> list_all (\<lambda>(r, a). P r a) xs"
  by (auto simp: find_None_iff list_all_iff)

lemma well_laid_out_short: "well_laid_out v val \<Longrightarrow> length val \<le> 84"
  using variant_layout(1) [of "unat (val ! 0)" v] by (auto simp: well_laid_out_def layouts_def)

lemma V1_value_bytes [simp]: "attribute_value_bytes V1 = 4096"
  by (simp add: V1_def)

lemma decode_spatial_short:
  "length val \<le> 4096 \<Longrightarrow> decode_attribute SPATIAL val = rbind (spatial_value val) (\<lambda>v. Inr (DSpatial v))"
  by (simp add: decode_attribute_def Let_def)

text \<open>
  C12. The decoder returns a value exactly on the octets laid out as its attribute: six, eight
  and one octets for the fixed attributes, and for Spatial an algorithm of 1 to 9, that
  variant's exact length, a frozen octet of 0 or 1 and only finite numbers. Every other name or
  value raises.
\<close>

theorem decode_attribute_accepts:
  "(\<exists>x. decode_attribute n val = Inr x) \<longleftrightarrow> decodable n val"
proof
  assume "\<exists>x. decode_attribute n val = Inr x"
  then obtain x where "decode_attribute n val = Inr x" by blast
  then show "decodable n val"
  proof (cases rule: decode_Inr_cases)
    case (Spat y)
    from Spat(2) show ?thesis
      by (rule spatial_value_Inr) (use Spat(1) in \<open>auto simp: decodable_def find_None_all\<close>)
  qed (simp_all add: decodable_def)
next
  assume d: "decodable n val"
  show "\<exists>x. decode_attribute n val = Inr x"
  proof (cases "n = SPATIAL")
    case True
    with d names_distinct obtain v where v: "well_laid_out v val"
      "find (\<lambda>(r, a). \<not> isfinite (unpack_float r val a)) (float_fields v) = None"
      by (auto simp: decodable_def find_None_all)
    with True well_laid_out_short [OF v(1)] show ?thesis
      by (simp add: decode_spatial_short spatial_value_laid_out found_or_def)
  next
    case False
    with d show ?thesis
      using names_distinct
      by (auto simp: decodable_def decode_attribute_def Let_def fixed_lengths exact_length_def)
  qed
qed

text \<open>
  C11. Decoding loses nothing: two values that decode to the same result are the same octets of
  the same attribute, padding, negative zeros and NaN-free bit patterns included, although
  binary32 fields are widened.
\<close>

theorem decode_attribute_lossless:
  assumes "decode_attribute n xs = Inr x" and "decode_attribute n' ys = Inr x"
  shows "n = n' \<and> xs = ys"
  using assms(1)
proof (cases rule: decode_Inr_cases)
  case Ident
  with assms(2) show ?thesis
    by (elim decode_Inr_cases) (auto intro: identifier_inj)
next
  case Typ
  with assms(2) show ?thesis
    by (elim decode_Inr_cases) (auto intro!: entity_type_inj)
next
  case Force
  with assms(2) show ?thesis
  proof (elim decode_Inr_cases)
    assume f: "n' = FORCE_IDENTIFIER" "length ys = 1" "x = DForceIdentifier (u8 ys 0)"
    with Force u8_inj [of xs 0 ys] show ?thesis by (cases xs; cases ys) auto
  qed simp_all
next
  case (Spat y)
  with assms(2) have ys: "n' = SPATIAL" "spatial_value ys = Inr y" by (auto elim: decode_Inr_cases)
  from Spat(2) ys(2) show ?thesis
    using spatial_of_inj Spat(1) ys(1) by (elim spatial_value_Inr) auto
qed

text \<open>
  A Spatial value whose octets are laid out correctly decodes completely, or raises
  \<open>E_NONFINITE\<close> for the interpreted number at the lowest offset that is not finite; the
  interpreted offsets of every variant are strictly ascending.
\<close>

theorem spatial_first_nonfinite:
  assumes "well_laid_out v val"
  shows "decode_attribute SPATIAL val =
      (case find (\<lambda>(r, a). \<not> isfinite (unpack_float r val a)) (float_fields v) of
         Some (r, a) \<Rightarrow> Inl (HlaError ''E_NONFINITE'' (SPATIAL @ asc ''/'' @ dec a)
           (asc ''the float at byte offset '' @ dec a @ asc '' is not finite''))
       | None \<Rightarrow> Inr (DSpatial (spatial_of v val))) \<and>
    sorted_wrt (<) (map snd (float_fields v))"
proof
  show "decode_attribute SPATIAL val =
      (case find (\<lambda>(r, a). \<not> isfinite (unpack_float r val a)) (float_fields v) of
         Some (r, a) \<Rightarrow> Inl (HlaError ''E_NONFINITE'' (SPATIAL @ asc ''/'' @ dec a)
           (asc ''the float at byte offset '' @ dec a @ asc '' is not finite''))
       | None \<Rightarrow> Inr (DSpatial (spatial_of v val)))"
    unfolding nonfinite_at_def [symmetric] using well_laid_out_short [OF assms]
    by (auto simp: decode_spatial_short spatial_value_laid_out [OF assms] found_or_def
        split: option.split)
  have "map_of VARIANTS (unat (val ! 0)) = Some v" using assms by (simp add: well_laid_out_def)
  from variant_layout(1) [OF this] show "sorted_wrt (<) (map snd (float_fields v))"
    by (auto simp: layouts_def float_fields_def POSITION_OFFSETS_def ORIENTATION_OFFSETS_def)
qed

text \<open>Messages built from literals and decimals may always be shown.\<close>

definition showable :: "pytext \<Rightarrow> bool" where
  "showable m \<longleftrightarrow> m \<noteq> [] \<and> length m \<le> 256 \<and> list_all (\<lambda>c. \<not> refused c) m"

lemma dec_not_refused: "list_all (\<lambda>c. \<not> refused c) (dec n)"
  using dec_digits by (force simp: list_all_iff is_digit_def refused_def REFUSED_IN_MESSAGE_def)

lemma HlaError_showable:
  "is_code c \<Longrightarrow> take 2 c = ''E_'' \<Longrightarrow> showable m \<Longrightarrow>
   HlaError c p m = Refusal \<lparr>e_code = c, e_path = p, e_message = m\<rparr>"
  by (auto simp: HlaError_def message_problem_def showable_def V1_def list_all_iff list_ex_iff)

definition short_number :: "nat \<Rightarrow> bool" where
  "short_number n \<longleftrightarrow> n < 10 ^ 20"

lemma dec_short: "short_number n \<Longrightarrow> length (dec n) \<le> 20"
  by (simp add: short_number_def length_dec_bound)

lemma showable_one:
  "length p + length q \<le> 200 \<Longrightarrow> p \<noteq> [] \<Longrightarrow> list_all (\<lambda>c. \<not> refused c) p \<Longrightarrow>
   list_all (\<lambda>c. \<not> refused c) q \<Longrightarrow> short_number n \<Longrightarrow> showable (p @ dec n @ q)"
  using dec_short [of n] by (simp add: showable_def dec_not_refused)

lemma showable_two:
  "length p + length q + length r \<le> 200 \<Longrightarrow> p \<noteq> [] \<Longrightarrow> list_all (\<lambda>c. \<not> refused c) p \<Longrightarrow>
   list_all (\<lambda>c. \<not> refused c) q \<Longrightarrow> list_all (\<lambda>c. \<not> refused c) r \<Longrightarrow> short_number n \<Longrightarrow>
   short_number k \<Longrightarrow> showable (p @ dec n @ q @ dec k @ r)"
  using dec_short [of n] dec_short [of k] by (simp add: showable_def dec_not_refused)

definition DECODE_CODES :: "string list" where
  "DECODE_CODES = [''E_LIMIT'', ''E_UNSUBSCRIBED_ATTRIBUTE'', ''E_SPATIAL_VARIANT'',
     ''E_ATTRIBUTE_LENGTH'', ''E_BOOLEAN'', ''E_NONFINITE'']"

definition clean_refusal :: "hla_exception \<Rightarrow> bool" where
  "clean_refusal e \<longleftrightarrow> (\<exists>err. e = Refusal err \<and> e_code err \<in> set DECODE_CODES)"

lemma clean_HlaError: "c \<in> set DECODE_CODES \<Longrightarrow> showable m \<Longrightarrow> clean_refusal (HlaError c p m)"
  by (subst HlaError_showable) (auto simp: clean_refusal_def DECODE_CODES_def is_code_def CODES_def)

lemma short_byte: "short_number (unat (b :: byte))"
proof -
  have "unat b < 2 ^ LENGTH(8)" by (rule unsigned_less)
  then show ?thesis by (simp add: short_number_def)
qed

lemmas literal_checks = refused_def REFUSED_IN_MESSAGE_def

lemma clean_nonfinite: "short_number a \<Longrightarrow> clean_refusal (nonfinite_at a)"
  unfolding nonfinite_at_def
  by (rule clean_HlaError, simp add: DECODE_CODES_def, rule showable_one) (simp_all add: literal_checks)

lemma clean_exact_length:
  "exact_length n val k = Inl e \<Longrightarrow> short_number (length val) \<Longrightarrow> short_number k \<Longrightarrow> clean_refusal e"
proof -
  assume e: "exact_length n val k = Inl e" and s: "short_number (length val)" "short_number k"
  have "showable (asc ''the value holds '' @ dec (length val) @ asc '' bytes and must hold exactly '' @ dec k @ [])"
    by (rule showable_two) (use s in \<open>simp_all add: literal_checks\<close>)
  with e show ?thesis
    by (auto simp: exact_length_def DECODE_CODES_def split: if_splits intro!: clean_HlaError)
qed

lemma field_offsets_short:
  assumes "well_laid_out v val" "(r, a) \<in> set (float_fields v)"
  shows "short_number a"
  using assms(2) variant_layout(1) [of "unat (val ! 0)" v] assms(1)
  by (auto simp: well_laid_out_def layouts_def float_fields_def POSITION_OFFSETS_def
      ORIENTATION_OFFSETS_def short_number_def)

lemma clean_spatial:
  assumes e: "spatial_value val = Inl e" and s: "short_number (length val)"
  shows "clean_refusal e"
proof -
  define a where "a = unat (val ! 0)"
  have short_a: "short_number a" by (simp add: a_def short_byte)
  consider "val = []" | "val \<noteq> []" "map_of VARIANTS a = None"
    | v where "val \<noteq> []" "map_of VARIANTS a = Some v" "length val \<noteq> total_bytes v"
    | v where "val \<noteq> []" "map_of VARIANTS a = Some v" "length val = total_bytes v" "1 < unat (val ! 32)"
    | v where "well_laid_out v val"
    unfolding well_laid_out_def a_def by (metis not_le option.exhaust)
  then show ?thesis
  proof cases
    case 1
    have "showable (asc ''the value is empty and has no dead-reckoning algorithm octet'')"
      by (simp add: showable_def literal_checks)
    with 1 e show ?thesis by (auto simp: spatial_value_def DECODE_CODES_def intro!: clean_HlaError)
  next
    case 2
    have "showable (asc ''dead-reckoning algorithm '' @ dec a @ asc '' is not one of 1 to 9'')"
      by (rule showable_one) (use short_a in \<open>simp_all add: literal_checks\<close>)
    with 2 e show ?thesis
      by (auto simp: spatial_value_def Let_def a_def DECODE_CODES_def intro!: clean_HlaError)
  next
    case (3 v)
    have t: "length (dec (total_bytes v)) \<le> 20" "length (dec a) \<le> 20" "length (dec (length val)) \<le> 20"
      using variant_layout(1) [OF 3(2)] s short_a by (auto intro!: dec_short simp: layouts_def short_number_def)
    have "showable (asc ''algorithm '' @ dec a @ asc '' needs exactly '' @ dec (total_bytes v) @
        asc '' bytes, the value holds '' @ dec (length val))"
      using t by (simp add: showable_def dec_not_refused) (simp add: literal_checks)
    with 3 e show ?thesis
      by (auto simp: spatial_value_def Let_def a_def DECODE_CODES_def intro!: clean_HlaError)
  next
    case (4 v)
    have "showable (asc ''the frozen octet is '' @ dec (unat (val ! 32)) @ asc '', and an RPRboolean is 0 or 1'')"
      by (rule showable_one) (simp_all add: literal_checks short_byte)
    with 4 e show ?thesis
      by (auto simp: spatial_value_def Let_def a_def FROZEN_OFFSET_def DECODE_CODES_def intro!: clean_HlaError)
  next
    case (5 v)
    with e obtain f where f: "find (\<lambda>(r, a). \<not> isfinite (unpack_float r val a)) (float_fields v) = Some f"
      "e = nonfinite_at (snd f)"
      by (auto simp: spatial_value_laid_out found_or_def split: option.splits)
    have "(fst f, snd f) \<in> set (float_fields v)"
      using f(1) by (metis find_Some_iff nth_mem prod.collapse)
    from clean_nonfinite [OF field_offsets_short [OF 5 this]] f(2) show ?thesis by simp
  qed
qed

lemma decode_clean:
  assumes "decode_attribute n val = Inl e" and "length val < 10 ^ 20"
  shows "clean_refusal e"
proof -
  have s: "short_number (length val)" using assms(2) by (simp add: short_number_def)
  have ks: "short_number 6" "short_number 8" "short_number 1" by (simp_all add: short_number_def)
  have limit: "showable (asc ''an attribute value of '' @ dec (length val) @ asc '' bytes exceeds the limit of '' @
      dec 4096 @ asc '' bytes'')"
    by (rule showable_two) (use s in \<open>simp_all add: literal_checks short_number_def\<close>)
  have unsubscribed: "showable (asc ''the attribute is not one of the four this profile decodes'')"
    by (simp add: showable_def literal_checks)
  show ?thesis
    using assms(1) unfolding decode_attribute_def Let_def V1_value_bytes fixed_lengths option.sel
    by (auto simp only: rbind_eq_Inl_iff split: if_splits
        intro!: clean_HlaError [OF _ limit] clean_HlaError [OF _ unsubscribed]
        elim: clean_spatial [OF _ s] clean_exact_length [OF _ s] intro: ks)
      (simp_all add: DECODE_CODES_def)
qed

text \<open>
  A value that does not decode raises one of the six decoding codes: no message the decoder
  builds is itself refused by the error type, whatever the name and the octets.
\<close>

theorem decode_errors_are_refusals:
  assumes "decode_attribute n val = Inl e" and "length val < 10 ^ 20"
  shows "\<exists>err. e = Refusal err \<and>
    e_code err \<in> {''E_LIMIT'', ''E_UNSUBSCRIBED_ATTRIBUTE'', ''E_SPATIAL_VARIANT'',
      ''E_ATTRIBUTE_LENGTH'', ''E_BOOLEAN'', ''E_NONFINITE''}"
  using decode_clean [OF assms] by (simp add: clean_refusal_def DECODE_CODES_def)

section \<open>Witnesses\<close>

theorem decode_attribute_lossless_witness:
  "decode_attribute (asc ''ForceIdentifier'') [7] = Inr (DForceIdentifier 7) \<and>
   (decode_attribute (asc ''ForceIdentifier'') [9] \<noteq> Inr (DForceIdentifier 7))"
proof -
  have 7: "decode_attribute (asc ''ForceIdentifier'') [7] = Inr (DForceIdentifier 7)"
    using names_distinct
    by (simp add: decode_attribute_def Let_def FORCE_IDENTIFIER_def [symmetric] fixed_lengths
        exact_length_def u8_def del: asc_simps)
  have "decode_attribute (asc ''ForceIdentifier'') [9] \<noteq> Inr (DForceIdentifier 7)"
    using decode_attribute_lossless [OF 7, of "asc ''ForceIdentifier''" "[9]"] by auto
  with 7 show ?thesis by blast
qed

theorem spatial_first_nonfinite_witness:
  "decode_attribute SPATIAL [1, 0, 0, 0, 0, 0, 0, 0, 0, 0, 0, 0, 0, 0, 0, 0, 0, 0, 0, 0, 0, 
       0, 0, 0, 0, 0, 0, 0, 0, 0, 0, 0, 0, 0, 0, 0, 0x7f, 0x80, 0, 0, 0, 0, 0, 0, 0, 0, 0, 0] =
     Inl (HlaError ''E_NONFINITE'' (SPATIAL @ asc ''/36'')
       (asc ''the float at byte offset 36 is not finite''))"
proof -
  let ?v = "variant 1 WORLD 48 None None None"
  let ?val = "[1, 0, 0, 0, 0, 0, 0, 0, 0, 0, 0, 0, 0, 0, 0, 0, 0, 0, 0, 0, 0, 
       0, 0, 0, 0, 0, 0, 0, 0, 0, 0, 0, 0, 0, 0, 0, 0x7f, 0x80, 0, 0, 0, 0, 0, 0, 0, 0, 0, 0] :: bytes"
  have v: "well_laid_out ?v ?val"
    by (simp add: well_laid_out_def VARIANTS_def)
  have zero: "isfinite 0" by (simp add: isfinite_def float_exponent_def)
  have "widen 0x7F800000 = float_of_parts 0 2047 0" by (simp add: widen_def)
  then have inf: "\<not> isfinite (widen 0x7F800000)"
    by (simp add: isfinite_def float_exponent_def float_of_parts_def)
  have p: "isfinite (unpack_float FLOAT64 ?val 8)" "isfinite (unpack_float FLOAT64 ?val 16)"
    "isfinite (unpack_float FLOAT64 ?val 24)" using zero by (simp_all add: be_value_def)
  have "unpack_float FLOAT32 ?val 36 = widen 0x7F800000" by (simp add: be_value_def)
  with inf have "\<not> isfinite (unpack_float FLOAT32 ?val 36)" by simp
  with p have "find (\<lambda>(r, a). \<not> isfinite (unpack_float r ?val a)) (float_fields ?v) = Some (FLOAT32, 36)"
    by (simp add: float_fields_def POSITION_OFFSETS_def ORIENTATION_OFFSETS_def del: unpack_float.simps)
  moreover have "dec 36 = asc ''36''" by (simp add: dec.simps)
  ultimately show ?thesis using spatial_first_nonfinite [OF v] by simp
qed

theorem decode_errors_are_refusals_witness:
  "\<exists>err. decode_attribute SPATIAL [] = Inl (Refusal err)"
proof -
  have "decode_attribute SPATIAL [] \<noteq> Inr x" for x
    by (auto simp: decode_attribute_def spatial_value_def)
  then obtain e where e: "decode_attribute SPATIAL [] = Inl e"
    by (cases "decode_attribute SPATIAL []") auto
  then show ?thesis using decode_errors_are_refusals [OF e] by auto
qed

end
