(* ===== verification/Hla_Identity.thy ===== *)
theory Hla_Identity
  imports Hla_Base
begin

text \<open>
  The identity of an observed object, \<^verbatim>\<open>packages/hla/src/synapse_hla/_identity.py\<close>: the
  \<open>external_id\<close>, a canonical JSON array of six strings, the reading of its six values back,
  and the \<open>entity_id\<close>, its name-based UUID. The UUID function is a parameter.
\<close>

definition MAX_EXACT_INTEGER :: nat where "MAX_EXACT_INTEGER = 9007199254740991"
definition MAX_IDENTIFIER_FIELD :: nat where "MAX_IDENTIFIER_FIELD = 65535"
definition SYSTEM :: pytext where "SYSTEM = asc ''hla-rpr2''"
definition KIND :: pytext where "KIND = asc ''entity''"

type_synonym identity_triple = "nat \<times> nat \<times> nat"

definition session_char :: "nat \<Rightarrow> bool" where
  "session_char c \<longleftrightarrow> 65 \<le> c \<and> c \<le> 90 \<or> 97 \<le> c \<and> c \<le> 122 \<or> is_digit c \<or> c \<in> {46, 95, 45}"

definition session_id_form :: "pytext \<Rightarrow> bool" where
  "session_id_form t \<longleftrightarrow> 1 \<le> length t \<and> length t \<le> 64 \<and> list_all session_char t"

definition counter :: "nat \<Rightarrow> string \<Rightarrow> hla_exception + nat" where
  "counter v member =
     (if \<not> (1 \<le> v \<and> v \<le> MAX_EXACT_INTEGER)
      then Inl (ValueError (''the '' @ member @ '' must be between 1 and 2^53 - 1'')) else Inr v)"

definition identifier_fields :: "identity_triple \<Rightarrow> hla_exception + identity_triple" where
  "identifier_fields t =
     (case t of (site, application, entity) \<Rightarrow>
        if \<not> list_all (\<lambda>v. v \<le> MAX_IDENTIFIER_FIELD) [site, application, entity]
        then Inl (ValueError ''an identifier member must be between 0 and 65535'')
        else if t = (0, 0, 0)
        then Inl (ValueError ''the null identifier 0.0.0 is never an identity'')
        else Inr t)"

text \<open>Canonical JSON of an array of strings none of which needs an escape.\<close>

definition json_strings :: "pytext list \<Rightarrow> pytext" where
  "json_strings ps =
     asc ''['' @ concat (map (\<lambda>(i, p). (if i = 0 then [] else asc '','') @ [34] @ p @ [34])
       (enumerate 0 ps)) @ asc '']''"

definition external_id :: "pytext \<Rightarrow> nat \<Rightarrow> identity_triple \<Rightarrow> nat \<Rightarrow> hla_exception + pytext" where
  "external_id session_id generation identifier incarnation =
     (if \<not> session_id_form session_id then
        Inl (ValueError (''the session id is not 1 to 64 ASCII letters, digits, '.', '_' or '-'' @ [CHR 0x27]))
      else
        rbind (counter generation ''generation'') (\<lambda>_.
        rbind (identifier_fields identifier) (\<lambda>(site, application, entity).
        rbind (counter incarnation ''incarnation'') (\<lambda>_.
        Inr (json_strings [session_id, dec generation, dec site, dec application, dec entity,
               dec incarnation])))))"

text \<open>
  The form of an \<open>external_id\<close>: a session id and five canonical decimals of at most sixteen
  digits, each a JSON string. \<open>match_counters\<close> and \<open>match_external\<close> are the regular
  expression's \<open>fullmatch\<close>, returning what stands between the quotes.
\<close>

definition counter_form :: "pytext \<Rightarrow> bool" where
  "counter_form d \<longleftrightarrow> d \<noteq> [] \<and> list_all is_digit d \<and> (hd d = 48 \<longrightarrow> d = [48]) \<and> length d \<le> 16"

fun match_counters :: "nat \<Rightarrow> pytext \<Rightarrow> pytext list option" where
  "match_counters 0 text = (if text = asc '']'' then Some [] else None)"
| "match_counters (Suc n) text =
     (if take 2 text = [44, 34] then
        (let d = takeWhile is_digit (drop 2 text); rest = dropWhile is_digit (drop 2 text) in
         if counter_form d \<and> take 1 rest = [34]
         then map_option ((#) d) (match_counters n (drop 1 rest)) else None)
      else None)"

definition match_external :: "pytext \<Rightarrow> (pytext \<times> pytext list) option" where
  "match_external text =
     (if take 2 text = [91, 34] then
        (let s = takeWhile session_char (drop 2 text); rest = dropWhile session_char (drop 2 text) in
         if session_id_form s \<and> take 1 rest = [34]
         then map_option (Pair s) (match_counters 5 (drop 1 rest)) else None)
      else None)"

definition parts :: "pytext \<Rightarrow> hla_exception + pytext \<times> nat \<times> nat \<times> nat \<times> nat \<times> nat" where
  "parts external =
     (case match_external external of
        Some (s, [g, a, b, c, i]) \<Rightarrow> Inr (s, undec g, undec a, undec b, undec c, undec i)
      | _ \<Rightarrow> Inl (ValueError ''not an external_id of this profile''))"

definition entity_id :: "(pytext \<Rightarrow> pytext) \<Rightarrow> pytext \<Rightarrow> hla_exception + pytext" where
  "entity_id uuid5 external =
     (if match_external external = None then Inl (ValueError ''not an external_id of this profile'')
      else Inr (uuid5 (KIND @ asc ''|'' @ SYSTEM @ asc ''|'' @ external)))"

section \<open>The six values are recovered\<close>

lemma dec_counter_form: "n \<le> MAX_EXACT_INTEGER \<Longrightarrow> counter_form (dec n)"
proof -
  assume "n \<le> MAX_EXACT_INTEGER"
  then have "n < 10 ^ 16" by (simp add: MAX_EXACT_INTEGER_def)
  then have "length (dec n) \<le> 16" by (simp add: length_dec_bound)
  moreover have "hd (dec n) = 48 \<longrightarrow> dec n = [48]"
  proof (induction n rule: dec.induct)
    case (1 n)
    show ?case
    proof (cases "n < 10")
      case True
      then show ?thesis by (subst dec.simps, subst (2) dec.simps) simp
    next
      case False
      then have "dec n = dec (n div 10) @ [48 + n mod 10]" by (subst dec.simps) simp
      moreover have "dec (n div 10) \<noteq> [48]"
      proof
        assume "dec (n div 10) = [48]"
        then have "undec (dec (n div 10)) = undec [48]" by (rule arg_cong)
        then have "n div 10 = 0" unfolding undec_dec by (simp add: undec_def)
        with False show False by simp
      qed
      ultimately show ?thesis using 1 [OF False] by simp
    qed
  qed
  ultimately show ?thesis using dec_digits by (auto simp: counter_form_def list_all_iff)
qed

fun counters_text :: "pytext list \<Rightarrow> pytext" where
  "counters_text [] = asc '']''"
| "counters_text (d # ds) = [44, 34] @ d @ [34] @ counters_text ds"

lemma takeWhile_quote: "list_all P d \<Longrightarrow> \<not> P 34 \<Longrightarrow> takeWhile P (d @ 34 # r) = d \<and> dropWhile P (d @ 34 # r) = 34 # r"
  by (induction d) auto

lemma match_counters_text:
  "list_all counter_form ds \<Longrightarrow> match_counters (length ds) (counters_text ds) = Some ds"
proof (induction ds)
  case (Cons d ds)
  have "list_all is_digit d" using Cons.prems by (simp add: counter_form_def)
  moreover have "\<not> is_digit 34" by (simp add: is_digit_def)
  ultimately show ?case
    using takeWhile_quote [of is_digit d "counters_text ds"] Cons by simp
qed simp

lemma json_strings_counters:
  "json_strings (s # ds) = [91, 34] @ s @ [34] @ counters_text ds"
proof -
  have "concat (map (\<lambda>(i, p). (if i = 0 then [] else asc '','') @ [34] @ p @ [34]) (enumerate (Suc k) ds))
      @ asc '']'' = counters_text ds" for k
    by (induction ds arbitrary: k) simp_all
  from this [of 0] show ?thesis by (simp add: json_strings_def)
qed

lemma match_external_json:
  assumes "session_id_form s" "list_all counter_form ds" "length ds = 5"
  shows "match_external (json_strings (s # ds)) = Some (s, ds)"
proof -
  have "list_all session_char s" using assms(1) by (simp add: session_id_form_def)
  moreover have "\<not> session_char 34" by (simp add: session_char_def is_digit_def)
  ultimately show ?thesis
    using takeWhile_quote [of session_char s "counters_text ds"] match_counters_text [OF assms(2)] assms(1,3)
    by (simp add: match_external_def json_strings_counters)
qed

lemma external_id_match:
  assumes "external_id s g (a, b, c) i = Inr x"
  shows "match_external x = Some (s, map dec [g, a, b, c, i])"
proof -
  from assms have s: "session_id_form s" and x: "x = json_strings (s # map dec [g, a, b, c, i])"
    and le: "g \<le> MAX_EXACT_INTEGER" "i \<le> MAX_EXACT_INTEGER" "a \<le> 65535" "b \<le> 65535" "c \<le> 65535"
    by (auto simp: external_id_def counter_def identifier_fields_def MAX_IDENTIFIER_FIELD_def split: if_splits)
  have "a \<le> MAX_EXACT_INTEGER" "b \<le> MAX_EXACT_INTEGER" "c \<le> MAX_EXACT_INTEGER"
    using le by (simp_all add: MAX_EXACT_INTEGER_def)
  with le show ?thesis unfolding x by (intro match_external_json [OF s]) (simp_all add: dec_counter_form)
qed

lemma parts_external_id: "external_id s g (a, b, c) i = Inr x \<Longrightarrow> parts x = Inr (s, g, a, b, c, i)"
  by (drule external_id_match) (simp add: parts_def)

text \<open>
  C16. An \<open>external_id\<close> gives back the six values it was made from, so two objects share one
  exactly when session, generation, identifier and incarnation all agree, and the UUID of one
  is always defined.
\<close>

theorem external_id_parts:
  assumes "external_id s g (a, b, c) i = Inr x"
  shows "parts x = Inr (s, g, a, b, c, i) \<and>
    (\<exists>u. entity_id uuid5 x = Inr u) \<and>
    (external_id s' g' (a', b', c') i' = Inr x \<longleftrightarrow> (s', g', a', b', c', i') = (s, g, a, b, c, i))"
proof -
  have "(s', g', a', b', c', i') = (s, g, a, b, c, i)" if "external_id s' g' (a', b', c') i' = Inr x"
    using parts_external_id [OF assms] parts_external_id [OF that] by simp
  with assms parts_external_id [OF assms] external_id_match [OF assms] show ?thesis
    by (auto simp: entity_id_def)
qed

theorem external_id_parts_witness:
  "parts (asc ''['' @ [34] @ asc ''S1'' @ [34, 44, 34] @ asc ''2'' @ [34, 44, 34] @ asc ''7'' @ [34, 44, 34] @
     asc ''0'' @ [34, 44, 34] @ asc ''9'' @ [34, 44, 34] @ asc ''1'' @ [34] @ asc '']'') =
   Inr (asc ''S1'', 2, 7, 0, 9, 1)"
proof -
  have "external_id (asc ''S1'') 2 (7, 0, 9) 1 =
    Inr (asc ''['' @ [34] @ asc ''S1'' @ [34, 44, 34] @ asc ''2'' @ [34, 44, 34] @ asc ''7'' @ [34, 44, 34] @
     asc ''0'' @ [34, 44, 34] @ asc ''9'' @ [34, 44, 34] @ asc ''1'' @ [34] @ asc '']'')"
    by (simp add: external_id_def session_id_form_def session_char_def is_digit_def counter_def
        identifier_fields_def MAX_EXACT_INTEGER_def MAX_IDENTIFIER_FIELD_def json_strings_def dec.simps)
  from external_id_parts [OF this] show ?thesis by blast
qed

end
