(* ===== verification/Hla_Config.thy ===== *)
theory Hla_Config
  imports Hla_Time Hla_Identity "HOL-Library.Product_Lexorder"
begin

text \<open>
  The session configuration, \<^verbatim>\<open>packages/hla/src/synapse_hla/config.py\<close>: the endpoint rule, the
  semantic rules of a schema-valid document, its validation and its epoch. The JSON Schema check
  and the position of a member in the document are parameters.
\<close>

section \<open>The document\<close>

datatype config_mode = EXISTING | DEMO
datatype time_policy = TimeNone | ExternalElapsed (epoch: pytext) (basis: pytext)

record session_config =
  session_id :: pytext
  source_system :: pytext
  synthetic :: bool
  mode :: config_mode
  endpoint :: pytext
  allow_remote :: bool
  federation_name :: pytext
  federate_name :: pytext
  profile_declaration :: string
  time_policy :: time_policy
  force_map :: "(pytext, string) dict"

definition DECLARATION_FOR_MODE :: "config_mode \<Rightarrow> string" where
  "DECLARATION_FOR_MODE m =
     (case m of EXISTING \<Rightarrow> ''external-fom-unverified'' | DEMO \<Rightarrow> ''bundled-fom-created'')"

section \<open>Endpoints\<close>

definition MAX_OCTET :: nat where "MAX_OCTET = 255"
definition MAX_PORT :: nat where "MAX_PORT = 65535"
definition MAX_FORCE :: nat where "MAX_FORCE = 255"
definition LOOPBACK_FIRST_OCTET :: nat where "LOOPBACK_FIRST_OCTET = 127"
definition MULTICAST_FIRST_OCTETS :: "nat list" where "MULTICAST_FIRST_OCTETS = [224..<240]"

text \<open>
  One decimal group of the endpoint's grammar: \<open>0\<close> alone where zero is allowed, no leading
  zero, at most \<open>width\<close> digits. Each group is followed by a literal that is no digit, so the
  digits of a group are all the digits there.
\<close>

definition group_form :: "bool \<Rightarrow> nat \<Rightarrow> pytext \<Rightarrow> bool" where
  "group_form zero width d \<longleftrightarrow>
     d \<noteq> [] \<and> list_all is_digit d \<and> length d \<le> width \<and> (hd d = 48 \<longrightarrow> zero \<and> d = [48])"

fun match_octets :: "nat \<Rightarrow> pytext \<Rightarrow> (pytext list \<times> pytext) option" where
  "match_octets 0 t = Some ([], t)"
| "match_octets (Suc n) t =
     (let d = takeWhile is_digit t; rest = dropWhile is_digit t;
          separator = (if n = 0 then asc '':'' else asc ''.'') in
      if group_form True 3 d \<and> take 1 rest = separator
      then map_option (\<lambda>(ds, r). (d # ds, r)) (match_octets n (drop 1 rest)) else None)"

definition match_endpoint :: "pytext \<Rightarrow> (pytext list \<times> pytext) option" where
  "match_endpoint t =
     (if take 6 t = asc ''rti://'' then
        (case match_octets 4 (drop 6 t) of
           None \<Rightarrow> None
         | Some (ds, port) \<Rightarrow> if group_form False 5 port then Some (ds, port) else None)
      else None)"

definition endpoint_permitted :: "pytext \<Rightarrow> bool \<Rightarrow> bool" where
  "endpoint_permitted address remote =
     (case match_endpoint address of
        None \<Rightarrow> False
      | Some (groups, last_group) \<Rightarrow>
          (let octets = map undec groups; port = undec last_group in
           if list_ex (\<lambda>octet. MAX_OCTET < octet) octets \<or> MAX_PORT < port then False
           else if octets = [0, 0, 0, 0] \<or> octets = [MAX_OCTET, MAX_OCTET, MAX_OCTET, MAX_OCTET] then False
           else if octets ! 0 \<in> set MULTICAST_FIRST_OCTETS then False
           else octets ! 0 = LOOPBACK_FIRST_OCTET \<or> remote))"

section \<open>Semantic rules and validation\<close>

type_synonym pointer_tokens = "pytext list"

definition has_surrogate :: "pytext \<Rightarrow> bool" where
  "has_surrogate t \<longleftrightarrow> list_ex (\<lambda>c. 0xD800 \<le> c \<and> c \<le> 0xDFFF) t"

definition config_texts :: "session_config \<Rightarrow> (pointer_tokens \<times> pytext) list" where
  \<comment> \<open>every string of the document that the schema does not fix, with its pointer\<close>
  "config_texts d =
     [([asc ''session_id''], session_id d), ([asc ''source_system''], source_system d),
      ([asc ''endpoint''], endpoint d), ([asc ''federation_name''], federation_name d),
      ([asc ''federate_name''], federate_name d)] @
     (case time_policy d of TimeNone \<Rightarrow> []
      | ExternalElapsed e b \<Rightarrow>
          [([asc ''time_policy'', asc ''epoch''], e), ([asc ''time_policy'', asc ''basis''], b)]) @
     map (\<lambda>(k, _). ([asc ''force_map'', k], k)) (force_map d)"

definition surrogate_problems :: "session_config \<Rightarrow> (pointer_tokens \<times> string) list" where
  "surrogate_problems d =
     map (\<lambda>(p, _). (p, ''surrogate'')) (filter (\<lambda>(_, t). has_surrogate t) (config_texts d))"

definition semantic_problems :: "session_config \<Rightarrow> (pointer_tokens \<times> string) list" where
  "semantic_problems d =
     surrogate_problems d @
     (if list_ex (\<lambda>c. c \<le> 0x1F \<or> 0x7F \<le> c \<and> c \<le> 0x9F) (source_system d)
      then [([asc ''source_system''], ''control'')] else []) @
     (if \<not> endpoint_permitted (endpoint d) (allow_remote d)
      then [([asc ''endpoint''], ''endpoint'')] else []) @
     (if profile_declaration d \<noteq> DECLARATION_FOR_MODE (mode d)
      then [([asc ''profile_declaration''], ''declaration'')] else []) @
     (if mode d = DEMO \<and> \<not> synthetic d then [([asc ''synthetic''], ''synthetic'')] else []) @
     map (\<lambda>(k, _). ([asc ''force_map'', k], ''force_key''))
       (filter (\<lambda>(k, _). MAX_FORCE < undec k) (force_map d)) @
     (case time_policy d of TimeNone \<Rightarrow> []
      | ExternalElapsed e b \<Rightarrow>
          (case parse_microsecond e of
             Inl _ \<Rightarrow> [([asc ''time_policy'', asc ''epoch''], ''epoch'')] | Inr _ \<Rightarrow> []) @
          (if \<not> list_all (\<lambda>c. 0x20 \<le> c \<and> c \<le> 0x7E) b
           then [([asc ''time_policy'', asc ''basis''], ''basis'')] else []))"

definition SEMANTIC_MESSAGES :: "(string, string) dict" where
  "SEMANTIC_MESSAGES =
     [(''basis'', ''time_policy.basis must be printable ASCII (U+0020 to U+007E)''),
      (''control'', ''source_system must not hold a control character''),
      (''declaration'', ''profile_declaration does not match mode (R11)''),
      (''endpoint'', ''endpoint must be rti://, a canonical IPv4 unicast address and a port 1-65535, and a nonloopback address needs allow_remote true''),
      (''epoch'', ''time_policy.epoch must be a real UTC instant in the years 1970-9998''),
      (''force_key'', ''a force_map key must be a decimal integer from 0 to 255''),
      (''surrogate'', ''a string of the configuration holds a surrogate code point''),
      (''synthetic'', ''mode demo requires synthetic true'')]"

text \<open>RFC 6901 pointers, each token made safe and escaped.\<close>

definition escape_token :: "pytext \<Rightarrow> pytext" where
  "escape_token t =
     concat (map (\<lambda>c. if c = 126 then asc ''~0'' else if c = 47 then asc ''~1'' else [c]) t)"

definition json_pointer :: "pointer_tokens \<Rightarrow> pytext" where
  "json_pointer tokens = concat (map (\<lambda>t. asc ''/'' @ escape_token (safe_text t)) tokens)"

text \<open>
  \<open>schema_problem\<close> is the first schema error of a document (pointer and keyword),
  \<open>document_order\<close> the position of a pointer in it. Of the rules broken, the first in document
  order is reported, and of several at one place the first by name. The copy \<open>validate_config\<close> makes
  first (\<open>_copy\<close>) is the identity here: it refuses a value that nests too deep, an integer or a
  number out of range and whatever is not JSON, and a \<open>session_config\<close> nests three levels of
  objects, strings and booleans. A mapping that is no such document is refused by the copy or by the
  schema, so it has no counterpart in this type.
\<close>

definition least_problem ::
  "(pointer_tokens \<Rightarrow> nat list) \<Rightarrow> (pointer_tokens \<times> string) list \<Rightarrow> pointer_tokens \<times> string" where
  "least_problem order found =
     fold (\<lambda>p best. if (order (fst p), snd p) < (order (fst best), snd best) then p else best)
       (tl found) (hd found)"

definition validate_config ::
  "(session_config \<Rightarrow> (pointer_tokens \<times> pytext) option) \<Rightarrow>
   (session_config \<Rightarrow> pointer_tokens \<Rightarrow> nat list) \<Rightarrow> session_config \<Rightarrow> hla_exception + session_config" where
  "validate_config schema_problem document_order d =
     (case schema_problem d of
        Some (tokens, keyword) \<Rightarrow>
          Inl (HlaError ''E_CONFIG'' (json_pointer tokens)
            (asc ''the configuration does not satisfy its schema ('' @ keyword @ asc '')''))
      | None \<Rightarrow>
          (let found = semantic_problems d in
           if found \<noteq> [] then
             (let (tokens, rule) = least_problem (document_order d) found
              in Inl (HlaError ''E_CONFIG'' (json_pointer tokens)
                   (asc (the (map_of SEMANTIC_MESSAGES rule)))))
           else Inr d))"

definition epoch_microsecond :: "session_config \<Rightarrow> time_error + int option" where
  "epoch_microsecond d =
     (case time_policy d of TimeNone \<Rightarrow> Inr None
      | ExternalElapsed e b \<Rightarrow> rbind (parse_microsecond e) (\<lambda>t. Inr (Some t)))"

record ValidatedConfig =
  document :: session_config
  vc_epoch :: "int option"

definition validated_config ::
  "(session_config \<Rightarrow> (pointer_tokens \<times> pytext) option) \<Rightarrow>
   (session_config \<Rightarrow> pointer_tokens \<Rightarrow> nat list) \<Rightarrow> session_config \<Rightarrow> hla_exception + ValidatedConfig" where
  "validated_config schema_problem document_order d =
     rbind (validate_config schema_problem document_order d) (\<lambda>doc.
       case epoch_microsecond doc of
         Inl _ \<Rightarrow> Inl (ValueError ''parse_microsecond'')
       | Inr e \<Rightarrow> Inr \<lparr>document = doc, vc_epoch = e\<rparr>)"

section \<open>Properties\<close>

definition dotted_quad :: "nat \<Rightarrow> nat \<Rightarrow> nat \<Rightarrow> nat \<Rightarrow> nat \<Rightarrow> pytext" where
  "dotted_quad a b c d port =
     asc ''rti://'' @ dec a @ asc ''.'' @ dec b @ asc ''.'' @ dec c @ asc ''.'' @ dec d @ asc '':'' @ dec port"

lemma dec_unfold: "dec n = (if n < 10 then [48 + n] else dec (n div 10) @ [48 + n mod 10])"
  by (rule dec.simps)

lemma hd_dec: "hd (dec n) = 48 \<longleftrightarrow> n = 0"
proof (induction n rule: dec.induct)
  case (1 n)
  then show ?case by (subst dec_unfold) auto
qed

lemma dec_undec:
  "t \<noteq> [] \<Longrightarrow> list_all is_digit t \<Longrightarrow> (hd t = 48 \<longrightarrow> t = [48]) \<Longrightarrow> dec (undec t) = t"
proof (induction t rule: rev_induct)
  case (snoc c t)
  then have c: "48 \<le> c" "c \<le> 57" by (simp_all add: is_digit_def)
  show ?case
  proof (cases "t = []")
    case True
    with c show ?thesis by (subst dec_unfold) (simp add: undec_def)
  next
    case False
    with snoc.prems have h: "hd t \<noteq> 48" "list_all is_digit t" by auto
    with snoc.IH False have t: "dec (undec t) = t" by simp
    then have "undec t \<noteq> 0" using hd_dec [of "undec t"] h(1) by metis
    define e where "e = c - 48"
    with c have e: "e < 10" "c = 48 + e" by auto
    with \<open>undec t \<noteq> 0\<close> have "(undec t * 10 + e) div 10 = undec t" "(undec t * 10 + e) mod 10 = e"
      "\<not> undec t * 10 + e < 10" by auto
    with t e show ?thesis by (subst dec_unfold) simp
  qed
qed simp

lemma group_form_dec: "group_form zero w d \<longleftrightarrow>
    (\<exists>n. d = dec n \<and> length (dec n) \<le> w \<and> (n = 0 \<longrightarrow> zero))"
proof
  assume "group_form zero w d"
  then have "dec (undec d) = d" "length d \<le> w" "undec d = 0 \<longrightarrow> zero"
    using dec_undec [of d] hd_dec [of "undec d"] by (auto simp: group_form_def)
  then show "\<exists>n. d = dec n \<and> length (dec n) \<le> w \<and> (n = 0 \<longrightarrow> zero)" by metis
next
  assume "\<exists>n. d = dec n \<and> length (dec n) \<le> w \<and> (n = 0 \<longrightarrow> zero)"
  then obtain n where "d = dec n" "length (dec n) \<le> w" "n = 0 \<longrightarrow> zero" by blast
  moreover have "dec 0 = [48]" by (subst dec_unfold) simp
  ultimately show "group_form zero w d"
    using hd_dec [of n] dec_digits by (auto simp: group_form_def list_all_iff)
qed

lemma decimal_split:
  assumes "\<not> is_digit c"
  shows "takeWhile is_digit t = dec n \<and> take 1 (dropWhile is_digit t) = [c] \<and> drop 1 (dropWhile is_digit t) = r
    \<longleftrightarrow> t = dec n @ c # r"
proof
  assume a: "takeWhile is_digit t = dec n \<and> take 1 (dropWhile is_digit t) = [c] \<and> drop 1 (dropWhile is_digit t) = r"
  then have "dropWhile is_digit t = c # r" by (cases "dropWhile is_digit t") auto
  with a show "t = dec n @ c # r" using takeWhile_dropWhile_id [of is_digit t] by metis
next
  assume t: "t = dec n @ c # r"
  have "\<forall>x\<in>set (dec n). is_digit x" using dec_digits by blast
  with assms show "takeWhile is_digit t = dec n \<and> take 1 (dropWhile is_digit t) = [c] \<and>
      drop 1 (dropWhile is_digit t) = r" unfolding t by simp
qed

lemma match_octets_Suc:
  "match_octets (Suc n) t = Some (ds, r) \<longleftrightarrow>
     (\<exists>k ds' t'. ds = dec k # ds' \<and> length (dec k) \<le> 3 \<and>
        t = dec k @ (if n = 0 then 58 else 46) # t' \<and> match_octets n t' = Some (ds', r))"
proof -
  let ?c = "if n = 0 then 58 else 46 :: nat"
  have c: "\<not> is_digit ?c" by (simp add: is_digit_def)
  have "match_octets (Suc n) t = Some (ds, r) \<longleftrightarrow>
      (\<exists>d t' ds'. takeWhile is_digit t = d \<and> group_form True 3 d \<and>
        take 1 (dropWhile is_digit t) = [?c] \<and> drop 1 (dropWhile is_digit t) = t' \<and>
        match_octets n t' = Some (ds', r) \<and> ds = d # ds')"
    by (auto simp: Let_def)
  also have "\<dots> \<longleftrightarrow> (\<exists>k ds' t'. ds = dec k # ds' \<and> length (dec k) \<le> 3 \<and>
      (takeWhile is_digit t = dec k \<and> take 1 (dropWhile is_digit t) = [?c] \<and>
       drop 1 (dropWhile is_digit t) = t') \<and> match_octets n t' = Some (ds', r))"
    unfolding group_form_dec by blast
  also have "\<dots> \<longleftrightarrow> (\<exists>k ds' t'. ds = dec k # ds' \<and> length (dec k) \<le> 3 \<and>
        t = dec k @ ?c # t' \<and> match_octets n t' = Some (ds', r))"
    unfolding decimal_split [OF c] ..
  finally show ?thesis .
qed

lemma match_octets_step:
  "match_octets (Suc n) t = Some (ds, r) \<Longrightarrow>
     \<exists>k ds' t'. ds = dec k # ds' \<and> length (dec k) \<le> 3 \<and>
        t = dec k @ (if n = 0 then 58 else 46) # t' \<and> match_octets n t' = Some (ds', r)"
  "length (dec k) \<le> 3 \<Longrightarrow> match_octets n t' = Some (ds', r) \<Longrightarrow>
     match_octets (Suc n) (dec k @ (if n = 0 then 58 else 46) # t') = Some (dec k # ds', r)"
  unfolding match_octets_Suc by blast+

lemma match_four:
  "match_octets 4 u = Some (ds, p) \<longleftrightarrow>
     (\<exists>a b c d. ds = [dec a, dec b, dec c, dec d] \<and>
        u = dec a @ 46 # dec b @ 46 # dec c @ 46 # dec d @ 58 # p \<and>
        length (dec a) \<le> 3 \<and> length (dec b) \<le> 3 \<and> length (dec c) \<le> 3 \<and> length (dec d) \<le> 3)"
    (is "?m \<longleftrightarrow> ?r")
proof
  assume ?m
  then have "match_octets (Suc (Suc (Suc (Suc 0)))) u = Some (ds, p)" by (simp add: numeral_eq_Suc)
  from match_octets_step(1) [OF this] obtain a ds1 t1 where
    1: "ds = dec a # ds1" "length (dec a) \<le> 3" "u = dec a @ 46 # t1"
      "match_octets (Suc (Suc (Suc 0))) t1 = Some (ds1, p)" by auto
  from match_octets_step(1) [OF 1(4)] obtain b ds2 t2 where
    2: "ds1 = dec b # ds2" "length (dec b) \<le> 3" "t1 = dec b @ 46 # t2"
      "match_octets (Suc (Suc 0)) t2 = Some (ds2, p)" by auto
  from match_octets_step(1) [OF 2(4)] obtain c ds3 t3 where
    3: "ds2 = dec c # ds3" "length (dec c) \<le> 3" "t2 = dec c @ 46 # t3"
      "match_octets (Suc 0) t3 = Some (ds3, p)" by auto
  from match_octets_step(1) [OF 3(4)] obtain d where
    4: "ds3 = [dec d]" "length (dec d) \<le> 3" "t3 = dec d @ 58 # p" by auto
  show ?r
    by (intro exI [of _ a] exI [of _ b] exI [of _ c] exI [of _ d]) (simp add: 1 2 3 4)
next
  assume ?r
  then obtain a b c d where q: "ds = [dec a, dec b, dec c, dec d]"
    "u = dec a @ 46 # dec b @ 46 # dec c @ 46 # dec d @ 58 # p"
    "length (dec a) \<le> 3" "length (dec b) \<le> 3" "length (dec c) \<le> 3" "length (dec d) \<le> 3" by blast
  have "match_octets 0 p = Some ([], p)" by simp
  from match_octets_step(2) [OF q(6) this] have "match_octets 1 (dec d @ 58 # p) = Some ([dec d], p)"
    by simp
  from match_octets_step(2) [OF q(5) this]
  have "match_octets 2 (dec c @ 46 # dec d @ 58 # p) = Some ([dec c, dec d], p)"
    by (simp add: numeral_2_eq_2)
  from match_octets_step(2) [OF q(4) this]
  have "match_octets 3 (dec b @ 46 # dec c @ 46 # dec d @ 58 # p) = Some ([dec b, dec c, dec d], p)"
    by (simp add: numeral_3_eq_3 numeral_2_eq_2)
  from match_octets_step(2) [OF q(3) this] show ?m by (simp add: q(1,2) numeral_eq_Suc)
qed

lemma match_endpoint_iff:
  "match_endpoint t = Some (ds, p) \<longleftrightarrow>
     (\<exists>a b c d k. ds = [dec a, dec b, dec c, dec d] \<and> p = dec k \<and> t = dotted_quad a b c d k \<and>
        length (dec a) \<le> 3 \<and> length (dec b) \<le> 3 \<and> length (dec c) \<le> 3 \<and> length (dec d) \<le> 3 \<and>
        length (dec k) \<le> 5 \<and> k \<noteq> 0)"
proof -
  have split: "length s = n \<Longrightarrow> take n t = s \<and> drop n t = u \<longleftrightarrow> t = s @ u" for s u :: pytext and n
    by (metis append_eq_conv_conj)
  have pre: "take 6 t = asc ''rti://'' \<and> drop 6 t = u \<longleftrightarrow> t = asc ''rti://'' @ u" for u
    by (rule split) simp
  have "match_endpoint t = Some (ds, p) \<longleftrightarrow>
      take 6 t = asc ''rti://'' \<and> match_octets 4 (drop 6 t) = Some (ds, p) \<and> group_form False 5 p"
    by (auto simp: match_endpoint_def split: option.splits if_splits)
  also have "\<dots> \<longleftrightarrow> (\<exists>a b c d k. ds = [dec a, dec b, dec c, dec d] \<and> p = dec k \<and>
        (take 6 t = asc ''rti://'' \<and> drop 6 t = dec a @ 46 # dec b @ 46 # dec c @ 46 # dec d @ 58 # dec k) \<and>
        length (dec a) \<le> 3 \<and> length (dec b) \<le> 3 \<and> length (dec c) \<le> 3 \<and> length (dec d) \<le> 3 \<and>
        length (dec k) \<le> 5 \<and> k \<noteq> 0)"
    unfolding match_four group_form_dec by blast
  finally show ?thesis unfolding pre by (simp add: dotted_quad_def)
qed

lemma multicast_iff: "a \<in> set MULTICAST_FIRST_OCTETS \<longleftrightarrow> 224 \<le> a \<and> a < 240"
  by (simp only: MULTICAST_FIRST_OCTETS_def set_upt atLeastLessThan_iff)

lemma permitted_quad:
  assumes "match_endpoint t = Some ([dec a, dec b, dec c, dec d], dec k)"
  shows "endpoint_permitted t remote \<longleftrightarrow> a \<le> 255 \<and> b \<le> 255 \<and> c \<le> 255 \<and> d \<le> 255 \<and> k \<le> 65535 \<and>
    (a, b, c, d) \<noteq> (0, 0, 0, 0) \<and> (a, b, c, d) \<noteq> (255, 255, 255, 255) \<and> (a < 224 \<or> 240 \<le> a) \<and>
    (a = 127 \<or> remote)"
  by (auto simp: endpoint_permitted_def assms MAX_OCTET_def MAX_PORT_def Let_def
      multicast_iff LOOPBACK_FIRST_OCTET_def not_less not_le)

text \<open>
  A worker may be pointed at exactly the addresses written \<open>rti://a.b.c.d:port\<close> in
  canonical decimal with octets up to 255 and a port of 1 to 65535, other than 0.0.0.0, the
  limited broadcast and multicast, that are loopback unless remote endpoints are allowed.
\<close>

theorem endpoint_permitted_exact:
  "endpoint_permitted t remote \<longleftrightarrow>
     (\<exists>a b c d port. t = dotted_quad a b c d port \<and> a \<le> 255 \<and> b \<le> 255 \<and> c \<le> 255 \<and> d \<le> 255 \<and>
        1 \<le> port \<and> port \<le> 65535 \<and> (a, b, c, d) \<noteq> (0, 0, 0, 0) \<and>
        (a, b, c, d) \<noteq> (255, 255, 255, 255) \<and> (a < 224 \<or> 240 \<le> a) \<and> (a = 127 \<or> remote))"
    (is "_ \<longleftrightarrow> ?rhs")
proof
  assume "endpoint_permitted t remote"
  then obtain ds p where m: "match_endpoint t = Some (ds, p)"
    by (auto simp: endpoint_permitted_def split: option.splits)
  then obtain a b c d k where "ds = [dec a, dec b, dec c, dec d]" "p = dec k" "t = dotted_quad a b c d k" "k \<noteq> 0"
    unfolding match_endpoint_iff by blast
  moreover from this m permitted_quad [of t a b c d k remote] \<open>endpoint_permitted t remote\<close>
  have "a \<le> 255 \<and> b \<le> 255 \<and> c \<le> 255 \<and> d \<le> 255 \<and> k \<le> 65535 \<and>
    (a, b, c, d) \<noteq> (0, 0, 0, 0) \<and> (a, b, c, d) \<noteq> (255, 255, 255, 255) \<and> (a < 224 \<or> 240 \<le> a) \<and>
    (a = 127 \<or> remote)" by blast
  moreover have "1 \<le> k" using \<open>k \<noteq> 0\<close> by simp
  ultimately show ?rhs
    by (intro exI [of _ a] exI [of _ b] exI [of _ c] exI [of _ d] exI [of _ k]) simp
next
  assume ?rhs
  then obtain a b c d port where r: "t = dotted_quad a b c d port \<and> a \<le> 255 \<and> b \<le> 255 \<and> c \<le> 255 \<and>
      d \<le> 255 \<and> 1 \<le> port \<and> port \<le> 65535 \<and> (a, b, c, d) \<noteq> (0, 0, 0, 0) \<and>
      (a, b, c, d) \<noteq> (255, 255, 255, 255) \<and> (a < 224 \<or> 240 \<le> a) \<and> (a = 127 \<or> remote)"
    by (elim exE)
  have "length (dec n) \<le> 3" if "n \<le> 255" for n using that by (intro length_dec_bound) simp_all
  moreover have "length (dec port) \<le> 5" using r by (intro length_dec_bound) simp_all
  ultimately have "match_endpoint t = Some ([dec a, dec b, dec c, dec d], dec port)"
    unfolding match_endpoint_iff using r
    by (intro exI [of _ a] exI [of _ b] exI [of _ c] exI [of _ d] exI [of _ port]) simp
  from permitted_quad [OF this, of remote] r show "endpoint_permitted t remote" by simp
qed

text \<open>The epoch a document states, and the least of the problems found is one of them.\<close>

definition stated_epoch :: "session_config \<Rightarrow> int option \<Rightarrow> bool" where
  "stated_epoch d e \<longleftrightarrow>
     (case time_policy d of TimeNone \<Rightarrow> e = None
      | ExternalElapsed t b \<Rightarrow> (\<exists>x. e = Some x \<and> parse_microsecond t = Inr x))"

lemma least_problem_in:
  assumes "found \<noteq> []"
  shows "least_problem order found \<in> set found"
proof -
  have "fold (\<lambda>p best. if (order (fst p), snd p) < (order (fst best), snd best) then p else best) ps b
      \<in> insert b (set ps)" for ps b
    by (induction ps arbitrary: b) (auto split: if_splits)
  from this [of "tl found" "hd found"] assms show ?thesis
    by (cases found) (auto simp: least_problem_def)
qed

text \<open>
  What a sound configuration is, of a document its schema admits: no text holds a surrogate, the
  source system no control character; the endpoint is one a worker may be pointed at; the declaration
  is that of the mode, and a demonstration is synthetic; forces are octets; an epoch is an instant of
  the profile and its basis printable ASCII.
\<close>

definition free_of_surrogates :: "pytext \<Rightarrow> bool" where
  "free_of_surrogates t \<longleftrightarrow> (\<forall>c\<in>set t. c < 0xD800 \<or> 0xDFFF < c)"

definition permitted_address :: "pytext \<Rightarrow> bool \<Rightarrow> bool" where
  "permitted_address t remote \<longleftrightarrow>
     (\<exists>a b c d port. t = dotted_quad a b c d port \<and> a \<le> 255 \<and> b \<le> 255 \<and> c \<le> 255 \<and> d \<le> 255 \<and>
        1 \<le> port \<and> port \<le> 65535 \<and> (a, b, c, d) \<noteq> (0, 0, 0, 0) \<and>
        (a, b, c, d) \<noteq> (255, 255, 255, 255) \<and> (a < 224 \<or> 240 \<le> a) \<and> (a = 127 \<or> remote))"

definition sound_config :: "session_config \<Rightarrow> bool" where
  "sound_config d \<longleftrightarrow>
     (\<forall>t \<in> {session_id d, source_system d, endpoint d, federation_name d, federate_name d} \<union> fst ` set (force_map d).
        free_of_surrogates t) \<and>
     (\<forall>c \<in> set (source_system d). 0x20 \<le> c \<and> (c < 0x7F \<or> 0x9F < c)) \<and>
     permitted_address (endpoint d) (allow_remote d) \<and>
     (mode d = EXISTING \<longrightarrow> profile_declaration d = ''external-fom-unverified'') \<and>
     (mode d = DEMO \<longrightarrow> profile_declaration d = ''bundled-fom-created'' \<and> synthetic d) \<and>
     (\<forall>k \<in> fst ` set (force_map d). undec k \<le> 255) \<and>
     (\<forall>e b. time_policy d = ExternalElapsed e b \<longrightarrow>
        free_of_surrogates e \<and> (\<exists>t. parse_microsecond e = Inr t) \<and> (\<forall>c \<in> set b. 0x20 \<le> c \<and> c \<le> 0x7E))"

lemma surrogate_free: "has_surrogate t \<longleftrightarrow> \<not> free_of_surrogates t"
  by (auto simp: has_surrogate_def free_of_surrogates_def list_ex_iff not_less not_le)

lemma surrogate_problems_Nil:
  "surrogate_problems d = [] \<longleftrightarrow>
     (\<forall>t \<in> {session_id d, source_system d, endpoint d, federation_name d, federate_name d} \<union> fst ` set (force_map d).
        free_of_surrogates t) \<and>
     (\<forall>e b. time_policy d = ExternalElapsed e b \<longrightarrow> free_of_surrogates e \<and> free_of_surrogates b)"
  by (cases "time_policy d")
    (auto simp: surrogate_problems_def config_texts_def filter_empty_conv surrogate_free)

lemma printable_free: "\<forall>c \<in> set b. 0x20 \<le> c \<and> c \<le> 0x7E \<Longrightarrow> free_of_surrogates b"
  by (auto simp: free_of_surrogates_def)

lemma problems_Nil: "(if P then [x] else []) = [] \<longleftrightarrow> \<not> P"
  by simp

lemma semantic_problems_Nil: "semantic_problems d = [] \<longleftrightarrow> sound_config d"
proof -
  have control: "list_ex (\<lambda>c. c \<le> 0x1F \<or> 0x7F \<le> c \<and> c \<le> 0x9F) t \<longleftrightarrow>
      \<not> (\<forall>c \<in> set t. 0x20 \<le> c \<and> (c < 0x7F \<or> 0x9F < c))" for t :: pytext
  proof -
    have "c \<le> 0x1F \<longleftrightarrow> \<not> 0x20 \<le> c" for c :: nat by arith
    then show ?thesis unfolding list_ex_iff by (auto simp: not_less not_le)
  qed
  have address: "endpoint_permitted t remote \<longleftrightarrow> permitted_address t remote" for t remote
    unfolding permitted_address_def by (rule endpoint_permitted_exact)
  have declared: "profile_declaration d = DECLARATION_FOR_MODE (mode d) \<and> \<not> (mode d = DEMO \<and> \<not> synthetic d) \<longleftrightarrow>
      (mode d = EXISTING \<longrightarrow> profile_declaration d = ''external-fom-unverified'') \<and>
      (mode d = DEMO \<longrightarrow> profile_declaration d = ''bundled-fom-created'' \<and> synthetic d)"
    by (cases "mode d") (simp_all add: DECLARATION_FOR_MODE_def)
  have force: "map (\<lambda>(k, _). ([asc ''force_map'', k], ''force_key'')) (filter (\<lambda>(k, _). MAX_FORCE < undec k) (force_map d)) = []
      \<longleftrightarrow> (\<forall>k \<in> fst ` set (force_map d). undec k \<le> 255)"
    by (auto simp: filter_empty_conv MAX_FORCE_def not_less)
  have time: "(case time_policy d of TimeNone \<Rightarrow> []
      | ExternalElapsed e b \<Rightarrow>
          (case parse_microsecond e of
             Inl _ \<Rightarrow> [([asc ''time_policy'', asc ''epoch''], ''epoch'')] | Inr _ \<Rightarrow> []) @
          (if \<not> list_all (\<lambda>c. 0x20 \<le> c \<and> c \<le> 0x7E) b
           then [([asc ''time_policy'', asc ''basis''], ''basis'')] else [])) = [] \<longleftrightarrow>
      (\<forall>e b. time_policy d = ExternalElapsed e b \<longrightarrow>
         (\<exists>t. parse_microsecond e = Inr t) \<and> (\<forall>c \<in> set b. 0x20 \<le> c \<and> c \<le> 0x7E))"
    by (auto simp: list_all_iff split: time_policy.split sum.split)
  have times: "(\<forall>e b. time_policy d = ExternalElapsed e b \<longrightarrow> free_of_surrogates e \<and> free_of_surrogates b) \<and>
      (\<forall>e b. time_policy d = ExternalElapsed e b \<longrightarrow>
         (\<exists>t. parse_microsecond e = Inr t) \<and> (\<forall>c \<in> set b. 0x20 \<le> c \<and> c \<le> 0x7E)) \<longleftrightarrow>
      (\<forall>e b. time_policy d = ExternalElapsed e b \<longrightarrow>
         free_of_surrogates e \<and> (\<exists>t. parse_microsecond e = Inr t) \<and> (\<forall>c \<in> set b. 0x20 \<le> c \<and> c \<le> 0x7E))"
    using printable_free by (cases "time_policy d") auto
  show ?thesis
    unfolding semantic_problems_def append_is_Nil_conv problems_Nil surrogate_problems_Nil force time control address not_not
    unfolding sound_config_def times [symmetric] using declared by argo
qed

lemma epoch_of_sound: "sound_config d \<Longrightarrow> \<exists>e. epoch_microsecond d = Inr e \<and> stated_epoch d e"
  by (cases "time_policy d")
    (auto simp: sound_config_def epoch_microsecond_def stated_epoch_def)

lemma validate_config_Inr:
  "validate_config schema_problem order d = Inr x \<longleftrightarrow> schema_problem d = None \<and> sound_config d \<and> x = d"
  by (auto simp: validate_config_def Let_def semantic_problems_Nil split: option.splits prod.splits)

lemma validate_config_Inl:
  "validate_config schema_problem order d = Inl e \<Longrightarrow> \<exists>pointer message. e = HlaError ''E_CONFIG'' pointer message"
  unfolding validate_config_def Let_def by (auto split: option.splits prod.splits if_split_asm)

text \<open>
  C15. A configuration is validated exactly when its schema has no problem and it is sound; the
  wrapper then holds the document unchanged and the epoch it states, read once. Every other document
  is refused with \<open>E_CONFIG\<close>, and reading the epoch of a validated one never raises.
\<close>

theorem validated_config_exact:
  "(validated_config schema_problem order d = Inr v \<longleftrightarrow>
      schema_problem d = None \<and> sound_config d \<and> document v = d \<and>
      stated_epoch d (vc_epoch v) \<and> ValidatedConfig.more v = ()) \<and>
   (case validated_config schema_problem order d of
      Inl e \<Rightarrow> \<exists>pointer message. e = HlaError ''E_CONFIG'' pointer message
    | Inr w \<Rightarrow> document w = d)"
proof (cases "schema_problem d = None \<and> sound_config d")
  case True
  then obtain e where e: "epoch_microsecond d = Inr e" "stated_epoch d e" using epoch_of_sound by blast
  have "validate_config schema_problem order d = Inr d" using True by (simp add: validate_config_Inr)
  then have r: "validated_config schema_problem order d = Inr \<lparr>document = d, vc_epoch = e\<rparr>"
    by (simp add: validated_config_def e(1))
  have "stated_epoch d x \<longleftrightarrow> x = e" for x
    using e(2) by (auto simp: stated_epoch_def split: time_policy.splits)
  moreover have "\<lparr>document = d, vc_epoch = e\<rparr> = v \<longleftrightarrow> document v = d \<and> vc_epoch v = e \<and> ValidatedConfig.more v = ()"
    by (cases v) auto
  ultimately show ?thesis using True by (simp add: r)
next
  case False
  then obtain e where e: "validate_config schema_problem order d = Inl e"
    by (cases "validate_config schema_problem order d") (auto simp: validate_config_Inr)
  then have "validated_config schema_problem order d = Inl e" by (simp add: validated_config_def)
  with False validate_config_Inl [OF e] show ?thesis by auto
qed

end
