(* ===== verification/Hla_Capture.thy ===== *)
theory Hla_Capture
  imports Hla_Config
begin

text \<open>
  The capture file, \<^verbatim>\<open>packages/hla/src/synapse_hla/capture.py\<close>: its records, the rules of one
  line and the state between lines, the reader's loop and report, and the chain that writes.
  Reading a line's text as a record (\<^verbatim>\<open>canonical.py\<close> and the JSON Schemas) and the digests are
  parameters; from there on every rule is the code's.
\<close>

section \<open>Records\<close>

text \<open>Object tokens are \<open>o\<close> and a positive decimal; they are ordered by that number.\<close>

datatype token = Tok (token_number: nat)

instantiation token :: linorder
begin

definition less_eq_token :: "token \<Rightarrow> token \<Rightarrow> bool" where
  "less_eq_token a b \<longleftrightarrow> token_number a \<le> token_number b"

definition less_token :: "token \<Rightarrow> token \<Rightarrow> bool" where
  "less_token a b \<longleftrightarrow> token_number a < token_number b"

instance
  by standard (auto simp: less_eq_token_def less_token_def token.expand)

end

type_synonym digest = bytes

record delivery =
  tag_hex :: bytes
  sent_order :: string
  received_order :: string
  transport :: string
  logical_time :: "(pytext \<times> bytes) option"

record captured_diagnostic =
  cd_severity :: severity_level
  cd_code :: string
  cd_message :: pytext
  cd_attribute :: "pytext option"

datatype event =
    GenerationStart pytext
  | Discover token pytext pytext
  | Reflect token "(pytext \<times> bytes) list" delivery bool
  | Remove token delivery bool
  | Diagnostic "token option" captured_diagnostic
  | GenerationEnd string

record header =
  head_config :: session_config
  head_pins :: "(pytext, digest) dict"
  record_created_at :: pytext

record frame =
  frame_seq :: nat
  frame_generation :: nat
  frame_elapsed :: nat
  frame_event :: event
  frame_prev :: digest
  frame_sha :: digest

datatype footer_status = COMPLETE | FAILED

record footer =
  foot_seq :: nat
  foot_prev :: digest
  foot_sha :: digest
  foot_status :: footer_status
  foot_reason :: "string option"
  foot_last_generation :: nat

datatype capture_record = FrameRecord frame | FooterRecord footer | OtherRecord

text \<open>
  What the parser, the canonical form and the schema that applies say of a line: a refusal with
  its pointer and message, or the record.
\<close>

datatype 'r line_reading =
    Unreadable pointer_tokens pytext
  | NotObject
  | NotCanonical
  | SchemaBroken pytext pointer_tokens pytext
  | Reads 'r

record reading_env =
  read_header :: "bytes \<Rightarrow> header line_reading"
  read_record :: "bytes \<Rightarrow> capture_record line_reading"
  sha256_hex :: "bytes \<Rightarrow> digest"
  record_sha256 :: "capture_record \<Rightarrow> digest"   \<comment> \<open>of the record without its own digest\<close>
  schema_problem :: "session_config \<Rightarrow> (pointer_tokens \<times> pytext) option"
  document_order :: "session_config \<Rightarrow> pointer_tokens \<Rightarrow> nat list"

section \<open>One line's verdict\<close>

record Fault =
  fault_code :: string
  fault_path :: pytext
  fault_line :: nat
  fault_message :: pytext

definition at_line :: "nat \<Rightarrow> pointer_tokens \<Rightarrow> pytext" where
  "at_line n tokens =
     asc ''line:'' @ dec n @ (if tokens \<noteq> [] then asc ''#'' @ json_pointer tokens else [])"

definition fault :: "string \<Rightarrow> nat \<Rightarrow> pointer_tokens \<Rightarrow> pytext \<Rightarrow> Fault" where
  "fault code n tokens message =
     \<lparr>fault_code = code, fault_path = at_line n tokens, fault_line = n, fault_message = message\<rparr>"

definition MAX_ELAPSED_NS :: nat where "MAX_ELAPSED_NS = 10 ^ 24 - 1"
definition NANOSECONDS_PER_MICROSECOND :: nat where "NANOSECONDS_PER_MICROSECOND = 1000"

definition utf8_length :: "pytext \<Rightarrow> nat" where
  "utf8_length t =
     sum_list (map (\<lambda>c. if c < 0x80 then 1 else if c < 0x800 then 2 else if c < 0x10000 then 3 else 4) t)"

definition utf8_over :: "pytext \<Rightarrow> nat \<Rightarrow> bool" where
  "utf8_over t bound \<longleftrightarrow> bound < length t * 4 \<and> bound < utf8_length t"

record LineRules =
  elapsed_may_decrease :: bool
  r_limits :: Limits
  lines :: nat
  r_header :: "header option"
  header_sha256 :: "digest option"
  last_sha256 :: "digest option"
  next_seq :: nat
  frames :: nat
  r_footer :: "footer option"
  session :: "ValidatedConfig option"
  r_epoch :: "int option"
  open_generation :: "nat option"
  last_generation :: nat
  started :: bool
  last_elapsed :: nat

definition line_rules :: "Limits \<Rightarrow> bool \<Rightarrow> LineRules" where
  "line_rules limits may_decrease =
     \<lparr>elapsed_may_decrease = may_decrease, r_limits = limits, lines = 0, r_header = None,
      header_sha256 = None, last_sha256 = None, next_seq = 1, frames = 0, r_footer = None,
      session = None, r_epoch = None, open_generation = None, last_generation = 0,
      started = False, last_elapsed = 0\<rparr>"

definition strictly_ascending_at :: "pytext list \<Rightarrow> nat \<Rightarrow> bool" where
  "strictly_ascending_at names i \<longleftrightarrow> names ! (i - 1) < names ! i"

definition event_fault :: "LineRules \<Rightarrow> nat \<Rightarrow> event \<Rightarrow> Fault option" where
  "event_fault rules n event =
     (case event of
        Reflect token attributes d retractable \<Rightarrow>
          (let names = map fst attributes in
           case find (\<lambda>i. \<not> strictly_ascending_at names i) [1..<length names] of
             Some i \<Rightarrow> Some (fault ''E_CAPTURE_SCHEMA'' n
               [asc ''event'', asc ''attributes'', dec i, asc ''name'']
               (asc ''attribute names are not strictly ascending''))
           | None \<Rightarrow> None)
      | Discover token name reported_class \<Rightarrow>
          (if utf8_over name (object_name_utf8_bytes (r_limits rules))
             then Some (fault ''E_CAPTURE_SCHEMA'' n [asc ''event'', asc ''name'']
               (asc ''the object name is longer than its UTF-8 byte limit''))
           else if utf8_over reported_class (class_name_utf8_bytes (r_limits rules))
             then Some (fault ''E_CAPTURE_SCHEMA'' n [asc ''event'', asc ''reported_class'']
               (asc ''the reported class is longer than its UTF-8 byte limit''))
           else None)
      | Diagnostic token d \<Rightarrow>
          (if \<not> is_code (cd_code d)
             then Some (fault ''E_CAPTURE_SCHEMA'' n [asc ''event'', asc ''diagnostic'', asc ''code'']
               (asc ''the diagnostic code is not one of the catalogue's''))
           else if utf8_over (cd_message d) (diagnostic_message_utf8_bytes (r_limits rules))
             then Some (fault ''E_CAPTURE_SCHEMA'' n [asc ''event'', asc ''diagnostic'', asc ''message'']
               (asc ''the diagnostic message is longer than its UTF-8 byte limit''))
           else if Some (cd_severity d) \<noteq> severity (cd_code d)
             then Some (fault ''E_CAPTURE_SCHEMA'' n [asc ''event'', asc ''diagnostic'', asc ''severity'']
               (asc ''the diagnostic severity is not the one its code's prefix gives''))
           else None)
      | _ \<Rightarrow> None)"

fun is_generation_start :: "event \<Rightarrow> bool" where
  "is_generation_start (GenerationStart _) = True"
| "is_generation_start _ = False"

fun is_diagnostic :: "event \<Rightarrow> bool" where
  "is_diagnostic (Diagnostic _ _) = True"
| "is_diagnostic _ = False"

fun started_federation :: "event \<Rightarrow> pytext option" where
  "started_federation (GenerationStart f) = Some f"
| "started_federation _ = None"

definition framing_fault :: "LineRules \<Rightarrow> nat \<Rightarrow> frame \<Rightarrow> Fault option" where
  "framing_fault rules n frame =
     (let generation = frame_generation frame; elapsed = frame_elapsed frame;
          event = frame_event frame;
          expected = (case open_generation rules of
              None \<Rightarrow> if is_generation_start event then last_generation rules + 1 else 0
            | Some g \<Rightarrow> g) in
      if \<not> started rules \<and> elapsed \<noteq> 0
        then Some (fault ''E_CAPTURE_SCHEMA'' n [asc ''elapsed_ns'']
          (asc ''elapsed_ns is not 0 up to the first generation_start''))
      else if elapsed < last_elapsed rules \<and> \<not> elapsed_may_decrease rules
        then Some (fault ''E_CAPTURE_SCHEMA'' n [asc ''elapsed_ns''] (asc ''elapsed_ns decreases''))
      else if open_generation rules = None \<and> \<not> (is_generation_start event \<or> is_diagnostic event)
        then Some (fault ''E_CAPTURE_SCHEMA'' n [asc ''event'', asc ''type'']
          (asc ''only diagnostics and generation_start may come between generations''))
      else if open_generation rules \<noteq> None \<and> is_generation_start event
        then Some (fault ''E_CAPTURE_SCHEMA'' n [asc ''event'', asc ''type'']
          (asc ''generation_start inside an open generation''))
      else if generation \<noteq> expected
        then Some (fault ''E_CAPTURE_SCHEMA'' n [asc ''generation'']
          (asc ''the frame carries another generation than the lifecycle gives it''))
      else if is_generation_start event \<and>
          started_federation event \<noteq> map_option (\<lambda>s. federation_name (document s)) (session rules)
        then Some (fault ''E_CAPTURE_SCHEMA'' n [asc ''event'', asc ''federation_name'']
          (asc ''generation_start names another federation than the configured one''))
      else
        (case r_epoch rules of
           Some e \<Rightarrow>
             (if MAX_MICROSECOND < e + int (elapsed div NANOSECONDS_PER_MICROSECOND)
              then Some \<lparr>fault_code = ''E_CONFIG'',
                  fault_path = asc ''line:1#/config/time_policy/epoch'', fault_line = n,
                  fault_message = asc ''epoch plus elapsed time passes 9998-12-31T23:59:59.999999Z''\<rparr>
              else None)
         | None \<Rightarrow> None))"

definition footer_fault :: "LineRules \<Rightarrow> nat \<Rightarrow> footer \<Rightarrow> Fault option" where
  "footer_fault rules n foot =
     (if foot_last_generation foot \<noteq> last_generation rules
        then Some (fault ''E_CAPTURE_SCHEMA'' n [asc ''last_generation'']
          (asc ''last_generation is not the highest generation started''))
      else if \<not> (case foot_status foot of
            COMPLETE \<Rightarrow> foot_reason foot = None
          | FAILED \<Rightarrow> (case foot_reason foot of None \<Rightarrow> False
              | Some r \<Rightarrow> is_code r \<and> severity r = Some ERROR))
        then Some (fault ''E_CAPTURE_SCHEMA'' n [asc ''reason_code'']
          (asc ''a COMPLETE footer has no reason and a FAILED one an E_ catalogue code''))
      else if open_generation rules \<noteq> None
        then Some (fault ''E_CAPTURE_SCHEMA'' n [asc ''type'']
          (asc ''the footer comes while a generation is open''))
      else None)"

definition record_seq :: "capture_record \<Rightarrow> nat" where
  "record_seq r = (case r of FrameRecord f \<Rightarrow> frame_seq f | FooterRecord f \<Rightarrow> foot_seq f | OtherRecord \<Rightarrow> 0)"

definition record_prev :: "capture_record \<Rightarrow> digest" where
  "record_prev r = (case r of FrameRecord f \<Rightarrow> frame_prev f | FooterRecord f \<Rightarrow> foot_prev f | OtherRecord \<Rightarrow> [])"

definition record_sha :: "capture_record \<Rightarrow> digest" where
  "record_sha r = (case r of FrameRecord f \<Rightarrow> frame_sha f | FooterRecord f \<Rightarrow> foot_sha f | OtherRecord \<Rightarrow> [])"

definition record_fault :: "reading_env \<Rightarrow> LineRules \<Rightarrow> nat \<Rightarrow> capture_record \<Rightarrow> Fault option" where
  "record_fault env rules n rc =
     (let early = (case rc of FrameRecord f \<Rightarrow> event_fault rules n (frame_event f) | _ \<Rightarrow> None) in
      if rc = OtherRecord
        then Some (fault ''E_CAPTURE_SCHEMA'' n [asc ''type'']
          (asc ''only frames and one footer may follow the header''))
      else if early \<noteq> None then early
      else if record_seq rc \<noteq> next_seq rules
        then Some (fault ''E_CAPTURE_SEQUENCE'' n [asc ''seq'']
          (asc ''seq does not follow the previous record's''))
      else if Some (record_prev rc) \<noteq> last_sha256 rules
        then Some (fault ''E_CAPTURE_HASH'' n [asc ''prev_sha256'']
          (asc ''prev_sha256 is not the previous record's digest''))
      else if record_sha rc \<noteq> record_sha256 env rc
        then Some (fault ''E_CAPTURE_HASH'' n [asc ''sha256'']
          (asc ''sha256 is not the digest of the record''))
      else case rc of
        FrameRecord f \<Rightarrow>
          (case framing_fault rules n f of
             Some x \<Rightarrow> Some x
           | None \<Rightarrow>
               if frames_per_session (r_limits rules) < frames rules + 1
               then Some (fault ''E_LIMIT'' n []
                 (asc ''the capture holds more frames than a session may''))
               else None)
      | FooterRecord f \<Rightarrow> footer_fault rules n f
      | OtherRecord \<Rightarrow> None)"

text \<open>
  The header's own rules, after its schema: its audit time and its configuration. A refusal of
  the configuration is reported under the header; \<open>Inl\<close> is any other exception.
\<close>

definition header_fault ::
  "reading_env \<Rightarrow> header \<Rightarrow> hla_exception + (Fault + ValidatedConfig)" where
  "header_fault env h =
     (case parse_microsecond (record_created_at h) of
        Inl _ \<Rightarrow> Inr (Inl (fault ''E_CAPTURE_SCHEMA'' 1 [asc ''record_created_at'']
          (asc ''record_created_at is not a real UTC instant in the years 1970-9998'')))
      | Inr _ \<Rightarrow>
          (case validated_config (schema_problem env) (document_order env) (head_config h) of
             Inl (Refusal e) \<Rightarrow>
               Inr (Inl \<lparr>fault_code = ''E_CONFIG'', fault_path = asc ''line:1#/config'' @ e_path e,
                 fault_line = 1, fault_message = e_message e\<rparr>)
           | Inl other \<Rightarrow> Inl other
           | Inr s \<Rightarrow> Inr (Inr s)))"

definition take_header :: "reading_env \<Rightarrow> LineRules \<Rightarrow> bytes \<Rightarrow> header \<Rightarrow> ValidatedConfig \<Rightarrow> LineRules" where
  "take_header env rules raw h s =
     rules \<lparr>lines := 1, r_header := Some h, header_sha256 := Some (sha256_hex env raw),
       last_sha256 := Some (sha256_hex env raw), session := Some s, r_epoch := vc_epoch s\<rparr>"

definition take_record :: "LineRules \<Rightarrow> nat \<Rightarrow> capture_record \<Rightarrow> LineRules" where
  "take_record rules n rc =
     (let rules = rules \<lparr>lines := n, last_sha256 := Some (record_sha rc),
                          next_seq := next_seq rules + 1\<rparr> in
      case rc of
        FooterRecord f \<Rightarrow> rules \<lparr>r_footer := Some f\<rparr>
      | FrameRecord f \<Rightarrow>
          (let rules = rules \<lparr>frames := frames rules + 1,
                 started := started rules \<or> is_generation_start (frame_event f),
                 last_elapsed := frame_elapsed f\<rparr> in
           case frame_event f of
             GenerationStart _ \<Rightarrow> rules \<lparr>open_generation := Some (frame_generation f),
               last_generation := frame_generation f\<rparr>
           | GenerationEnd _ \<Rightarrow> rules \<lparr>open_generation := None\<rparr>
           | _ \<Rightarrow> rules)
      | OtherRecord \<Rightarrow> rules)"

definition reading_fault :: "nat \<Rightarrow> 'r line_reading \<Rightarrow> Fault + 'r" where
  "reading_fault n reading =
     (case reading of
        Unreadable tokens message \<Rightarrow> Inl (fault ''E_CAPTURE_SCHEMA'' n tokens message)
      | NotObject \<Rightarrow> Inl (fault ''E_CAPTURE_SCHEMA'' n [] (asc ''the line is not a JSON object''))
      | NotCanonical \<Rightarrow> Inl (fault ''E_CAPTURE_SCHEMA'' n [] (asc ''the line is not in canonical form''))
      | SchemaBroken kind tokens keyword \<Rightarrow>
          Inl (fault ''E_CAPTURE_SCHEMA'' n tokens
            (asc ''the '' @ kind @ asc '' does not satisfy its schema ('' @ keyword @ asc '')''))
      | Reads r \<Rightarrow> Inr r)"

definition size_fault :: "LineRules \<Rightarrow> nat \<Rightarrow> bytes \<Rightarrow> Fault option" where
  "size_fault rules n raw =
     (if line_bytes (r_limits rules) < length raw
        then Some (fault ''E_LIMIT'' n [] (asc ''the line is longer than the capture line limit''))
      else if r_footer rules \<noteq> None
        then Some (fault ''E_CAPTURE_SCHEMA'' n [] (asc ''a line follows the footer''))
      else None)"

text \<open>
  \<open>check\<close>: line 1 is the header, every later line a frame or the footer. The rules are
  committed only when the line passes.
\<close>

definition check_header :: "reading_env \<Rightarrow> LineRules \<Rightarrow> bytes \<Rightarrow> hla_exception + (Fault + LineRules \<times> header)" where
  "check_header env rules raw =
     (case size_fault rules 1 raw of
        Some x \<Rightarrow> Inr (Inl x)
      | None \<Rightarrow>
          (case reading_fault 1 (read_header env raw) of
             Inl x \<Rightarrow> Inr (Inl x)
           | Inr h \<Rightarrow>
               rbind (header_fault env h) (\<lambda>verdict.
                 case verdict of
                   Inl x \<Rightarrow> Inr (Inl x)
                 | Inr s \<Rightarrow> Inr (Inr (take_header env rules raw h s, h)))))"

definition check_record :: "reading_env \<Rightarrow> LineRules \<Rightarrow> nat \<Rightarrow> bytes \<Rightarrow> Fault + LineRules \<times> capture_record" where
  "check_record env rules n raw =
     (case size_fault rules n raw of
        Some x \<Rightarrow> Inl x
      | None \<Rightarrow>
          rbind (reading_fault n (read_record env raw)) (\<lambda>rc.
            case record_fault env rules n rc of
              Some x \<Rightarrow> Inl x
            | None \<Rightarrow> Inr (take_record rules n rc, rc)))"

datatype verified_record = VHeader header | VRecord capture_record

definition check :: "reading_env \<Rightarrow> LineRules \<Rightarrow> nat \<Rightarrow> bytes \<Rightarrow> hla_exception + (Fault + LineRules \<times> verified_record)" where
  "check env rules n raw =
     (if n = 1 then
        rbind (check_header env rules raw) (\<lambda>r.
          Inr (case r of Inl x \<Rightarrow> Inl x | Inr (rules', h) \<Rightarrow> Inr (rules', VHeader h)))
      else
        Inr (case check_record env rules n raw of
               Inl x \<Rightarrow> Inl x | Inr (rules', r) \<Rightarrow> Inr (rules', VRecord r)))"

section \<open>Reading a capture\<close>

text \<open>
  The file as \<open>readline\<close> gives it: a line with its LF (kept here without it), or, at the end or
  when a line passes the limit, the octets read of a line that has none. \<open>read_lines\<close> is the
  loop of \<open>CaptureReader.records\<close>: what it yields, the fault that stopped it and the octets
  verified.
\<close>

datatype chunk = Line bytes | Partial bytes

definition chunk_size :: "chunk \<Rightarrow> nat" where
  "chunk_size c = (case c of Line b \<Rightarrow> length b + 1 | Partial b \<Rightarrow> length b)"

record reading =
  yielded :: "(nat \<times> verified_record \<times> bytes) list"
  read_rules :: LineRules
  stopped :: "Fault option"
  verified_bytes :: nat

fun read_lines ::
  "reading_env \<Rightarrow> LineRules \<Rightarrow> nat \<Rightarrow> nat \<Rightarrow> chunk list \<Rightarrow> hla_exception + reading" where
  "read_lines env rules n verified [] =
     Inr \<lparr>yielded = [], read_rules = rules, stopped = None, verified_bytes = verified\<rparr>"
| "read_lines env rules n verified (c # cs) =
     (let n = n + 1;
          stop = (\<lambda>x. Inr \<lparr>yielded = [], read_rules = rules, stopped = Some x, verified_bytes = verified\<rparr>) in
      if capture_file_bytes (r_limits rules) < verified + chunk_size c
        then stop (fault ''E_LIMIT'' n [] (asc ''the capture is larger than the capture file limit''))
      else case c of
        Partial b \<Rightarrow>
          (if line_bytes (r_limits rules) < length b
             then stop (fault ''E_LIMIT'' n [] (asc ''the line is longer than the capture line limit''))
           else if r_footer rules \<noteq> None
             then stop (fault ''E_CAPTURE_SCHEMA'' n [] (asc ''a line follows the footer''))
           else stop (fault ''E_CAPTURE_INCOMPLETE'' n [] (asc ''the capture ends inside a line'')))
      | Line raw \<Rightarrow>
          rbind (check env rules n raw) (\<lambda>verdict.
            case verdict of
              Inl x \<Rightarrow> stop x
            | Inr (rules', r) \<Rightarrow>
                rbind (read_lines env rules' n (verified + chunk_size c) cs) (\<lambda>rest.
                  Inr (rest \<lparr>yielded := (n, r, raw) # yielded rest\<rparr>))))"

definition final_fault :: "reading \<Rightarrow> Fault option" where
  "final_fault r =
     (if stopped r = None \<and> r_footer (read_rules r) = None then
        (let missing = lines (read_rules r) + 1 in
         Some (fault ''E_CAPTURE_INCOMPLETE'' missing []
           (if r_header (read_rules r) \<noteq> None then asc ''the capture has no footer''
            else asc ''the capture has no header'')))
      else stopped r)"

datatype report_status = RComplete | RFailed | RIncomplete | RInvalid

record report =
  rep_status :: report_status
  rep_code :: "string option"
  rep_path :: "pytext option"
  rep_message :: "pytext option"
  rep_verified_seq :: "nat option"
  rep_verified_bytes :: nat
  rep_frames :: nat
  rep_header_sha256 :: "digest option"
  rep_last_sha256 :: "digest option"
  rep_capture_complete :: bool
  rep_footer :: "footer option"

definition report_of :: "LineRules \<Rightarrow> Fault option \<Rightarrow> nat \<Rightarrow> report" where
  "report_of rules flt verified =
     (let st = (case flt of
            None \<Rightarrow> (case map_option foot_status (r_footer rules) of
                Some COMPLETE \<Rightarrow> RComplete | _ \<Rightarrow> RFailed)
          | Some x \<Rightarrow> if fault_code x = ''E_CAPTURE_INCOMPLETE'' then RIncomplete else RInvalid)
      in \<lparr>rep_status = st, rep_code = map_option fault_code flt, rep_path = map_option fault_path flt,
          rep_message = map_option fault_message flt,
          rep_verified_seq = (if r_header rules = None then None else Some (next_seq rules - 1)),
          rep_verified_bytes = verified, rep_frames = frames rules,
          rep_header_sha256 = header_sha256 rules, rep_last_sha256 = last_sha256 rules,
          rep_capture_complete = (st = RComplete), rep_footer = r_footer rules\<rparr>)"

definition verify_capture :: "reading_env \<Rightarrow> Limits \<Rightarrow> chunk list \<Rightarrow> hla_exception + report" where
  "verify_capture env limits cs =
     rbind (read_lines env (line_rules limits False) 0 0 cs) (\<lambda>r.
       Inr (report_of (read_rules r) (final_fault r) (verified_bytes r)))"

section \<open>Writing a capture\<close>

text \<open>
  The chain seals each record with its digest and passes it through the reader's rules.
  \<open>line_of\<close> is the canonical line of a record (\<open>Inl\<close>: the pointer and message of what JSON
  cannot carry).
\<close>

record writing_env = reading_env +
  line_of :: "verified_record \<Rightarrow> (pointer_tokens \<times> pytext) + bytes"
  seal_problem :: "capture_record \<Rightarrow> (pointer_tokens \<times> pytext) option"

definition refusal_of :: "Fault \<Rightarrow> hla_exception" where
  "refusal_of x = HlaError (fault_code x) (fault_path x) (fault_message x)"

definition emit :: "writing_env \<Rightarrow> LineRules \<Rightarrow> verified_record \<Rightarrow> hla_exception + LineRules \<times> bytes" where
  "emit env rules rc =
     (let n = lines rules + 1 in
      case line_of env rc of
        Inl (tokens, message) \<Rightarrow> Inl (HlaError ''E_CAPTURE_SCHEMA'' (at_line n tokens) message)
      | Inr raw \<Rightarrow>
          rbind (check (reading_env.truncate env) rules n raw) (\<lambda>verdict.
            case verdict of
              Inl x \<Rightarrow> Inl (refusal_of x)
            | Inr (rules', _) \<Rightarrow> Inr (rules', raw @ [10])))"

definition seal :: "digest \<Rightarrow> capture_record \<Rightarrow> capture_record" where
  "seal d r = (case r of FrameRecord f \<Rightarrow> FrameRecord (f \<lparr>frame_sha := d\<rparr>)
     | FooterRecord f \<Rightarrow> FooterRecord (f \<lparr>foot_sha := d\<rparr>) | OtherRecord \<Rightarrow> OtherRecord)"

definition sealed :: "writing_env \<Rightarrow> LineRules \<Rightarrow> capture_record \<Rightarrow> hla_exception + capture_record" where
  "sealed env rules r =
     (case seal_problem env r of
        Some (tokens, message) \<Rightarrow>
          Inl (HlaError ''E_CAPTURE_SCHEMA'' (at_line (lines rules + 1) tokens) message)
      | None \<Rightarrow> Inr (seal (record_sha256 env r) r))"

definition chain_header :: "writing_env \<Rightarrow> LineRules \<Rightarrow> header \<Rightarrow> hla_exception + LineRules \<times> bytes" where
  "chain_header env rules h =
     (if lines rules \<noteq> 0 then Inl (ValueError ''the header is the first line and comes once'')
      else emit env rules (VHeader h))"

definition chain_frame ::
  "writing_env \<Rightarrow> LineRules \<Rightarrow> nat \<Rightarrow> nat \<Rightarrow> event \<Rightarrow> hla_exception + LineRules \<times> bytes" where
  "chain_frame env rules generation elapsed_ns event =
     (if r_header rules = None \<or> r_footer rules \<noteq> None
        then Inl (ValueError ''frames come after the header and before the footer'')
      else if MAX_ELAPSED_NS < elapsed_ns
        then Inl (ValueError ''elapsed_ns is outside 0 to 10^24 - 1'')
      else
        rbind (sealed env rules (FrameRecord \<lparr>frame_seq = next_seq rules, frame_generation = generation,
            frame_elapsed = elapsed_ns, frame_event = event, frame_prev = the (last_sha256 rules),
            frame_sha = []\<rparr>)) (\<lambda>r. emit env rules (VRecord r)))"

definition chain_footer ::
  "writing_env \<Rightarrow> LineRules \<Rightarrow> footer_status \<Rightarrow> string option \<Rightarrow> nat \<Rightarrow> hla_exception + LineRules \<times> bytes" where
  "chain_footer env rules status reason_code last_gen =
     (if r_header rules = None \<or> r_footer rules \<noteq> None
        then Inl (ValueError ''the footer comes once, after the header'')
      else
        rbind (sealed env rules (FooterRecord \<lparr>foot_seq = next_seq rules,
            foot_prev = the (last_sha256 rules), foot_sha = [], foot_status = status,
            foot_reason = reason_code, foot_last_generation = last_gen\<rparr>))
          (\<lambda>r. emit env rules (VRecord r)))"

end
