(* ===== verification/Hla_Capture_Correct.thy ===== *)
theory Hla_Capture_Correct
  imports Hla_Capture
begin

text \<open>
  What a verified capture is: a hash chain numbered from 1 whose generations are bracketed and
  whose time does not decrease. Two captures with the same head are the same capture or exhibit
  a digest collision, and what the chain writes the reader verifies.
\<close>

section \<open>The shape of a verified capture\<close>

fun is_footer :: "capture_record \<Rightarrow> bool" where
  "is_footer (FooterRecord _) = True"
| "is_footer _ = False"

fun frames_of :: "capture_record list \<Rightarrow> frame list" where
  "frames_of [] = []"
| "frames_of (FrameRecord f # rs) = f # frames_of rs"
| "frames_of (_ # rs) = frames_of rs"

text \<open>Records numbered from \<open>n\<close>, each naming the digest before it, the footer last.\<close>

fun chained :: "(capture_record \<Rightarrow> digest) \<Rightarrow> nat \<Rightarrow> digest \<Rightarrow> capture_record list \<Rightarrow> bool" where
  "chained dg n prev [] \<longleftrightarrow> True"
| "chained dg n prev (r # rs) \<longleftrightarrow>
     record_seq r = n \<and> record_prev r = prev \<and> record_sha r = dg r \<and> r \<noteq> OtherRecord \<and>
     (is_footer r \<longrightarrow> rs = []) \<and> chained dg (n + 1) (dg r) rs"

text \<open>
  The lifecycle of generations: \<open>current\<close> is the open generation, \<open>highest\<close> the last one
  started, and every frame carries the generation it belongs to.
\<close>

fun lifecycle :: "nat option \<Rightarrow> nat \<Rightarrow> frame list \<Rightarrow> bool" where
  "lifecycle current highest [] \<longleftrightarrow> True"
| "lifecycle current highest (f # fs) \<longleftrightarrow>
     (case frame_event f of
        GenerationStart _ \<Rightarrow>
          current = None \<and> frame_generation f = highest + 1 \<and>
          lifecycle (Some (highest + 1)) (highest + 1) fs
      | GenerationEnd _ \<Rightarrow> current = Some (frame_generation f) \<and> lifecycle None highest fs
      | Diagnostic _ _ \<Rightarrow>
          frame_generation f = (case current of None \<Rightarrow> 0 | Some g \<Rightarrow> g) \<and>
          lifecycle current highest fs
      | _ \<Rightarrow> current = Some (frame_generation f) \<and> lifecycle current highest fs)"

text \<open>Time stands still until the first generation starts and never goes back.\<close>

fun clocked :: "bool \<Rightarrow> nat \<Rightarrow> frame list \<Rightarrow> bool" where
  "clocked begun t [] \<longleftrightarrow> True"
| "clocked begun t (f # fs) \<longleftrightarrow>
     t \<le> frame_elapsed f \<and> (begun \<or> frame_elapsed f = 0) \<and>
     clocked (begun \<or> is_generation_start (frame_event f)) (frame_elapsed f) fs"

section \<open>One accepted record\<close>

lemma record_fault_None:
  assumes "record_fault env rules n r = None"
  shows "r \<noteq> OtherRecord" "record_seq r = next_seq rules" "Some (record_prev r) = last_sha256 rules"
    "record_sha r = record_sha256 env r"
    "r = FrameRecord f \<Longrightarrow> event_fault rules n (frame_event f) = None \<and> framing_fault rules n f = None \<and>
       frames rules + 1 \<le> frames_per_session (r_limits rules)"
    "r = FooterRecord g \<Longrightarrow> footer_fault rules n g = None"
  using assms by (auto simp: record_fault_def Let_def split: if_splits option.splits capture_record.splits)

lemma framing_fault_None:
  assumes "framing_fault rules n f = None"
  shows "started rules \<or> frame_elapsed f = 0"
    "\<not> elapsed_may_decrease rules \<Longrightarrow> last_elapsed rules \<le> frame_elapsed f"
    "open_generation rules = None \<Longrightarrow> is_generation_start (frame_event f) \<or> is_diagnostic (frame_event f)"
    "is_generation_start (frame_event f) \<Longrightarrow> open_generation rules = None \<and>
       frame_generation f = last_generation rules + 1"
    "\<not> is_generation_start (frame_event f) \<Longrightarrow>
       frame_generation f = (case open_generation rules of None \<Rightarrow> 0 | Some g \<Rightarrow> g)"
  using assms by (auto simp: framing_fault_def Let_def split: if_splits option.splits)

lemma check_record_Inr:
  assumes "check_record env rules n raw = Inr (rules', r)"
  shows "r_footer rules = None" "read_record env raw = Reads r" "record_fault env rules n r = None"
    "rules' = take_record rules n r" "length raw \<le> line_bytes (r_limits rules)"
  using assms
  by (auto simp: check_record_def size_fault_def reading_fault_def rbind_eq_Inr_iff
      split: option.splits if_splits line_reading.splits)

lemma take_record_simps [simp]:
  "lines (take_record rules n r) = n" "last_sha256 (take_record rules n r) = Some (record_sha r)"
  "next_seq (take_record rules n r) = next_seq rules + 1"
  "r_limits (take_record rules n r) = r_limits rules"
  "r_header (take_record rules n r) = r_header rules"
  "session (take_record rules n r) = session rules" "r_epoch (take_record rules n r) = r_epoch rules"
  "elapsed_may_decrease (take_record rules n r) = elapsed_may_decrease rules"
  "header_sha256 (take_record rules n r) = header_sha256 rules"
  by (auto simp: take_record_def Let_def split: capture_record.split event.split)

lemma take_frame_simps [simp]:
  "r_footer (take_record rules n (FrameRecord f)) = r_footer rules"
  "started (take_record rules n (FrameRecord f)) \<longleftrightarrow> started rules \<or> is_generation_start (frame_event f)"
  "last_elapsed (take_record rules n (FrameRecord f)) = frame_elapsed f"
  "frames (take_record rules n (FrameRecord f)) = frames rules + 1"
  "open_generation (take_record rules n (FrameRecord f)) =
     (case frame_event f of GenerationStart _ \<Rightarrow> Some (frame_generation f) | GenerationEnd _ \<Rightarrow> None
      | _ \<Rightarrow> open_generation rules)"
  "last_generation (take_record rules n (FrameRecord f)) =
     (if is_generation_start (frame_event f) then frame_generation f else last_generation rules)"
  by (auto simp: take_record_def Let_def split: event.split)

lemma take_footer_simps [simp]:
  "r_footer (take_record rules n (FooterRecord g)) = Some g"
  "open_generation (take_record rules n (FooterRecord g)) = open_generation rules"
  "last_generation (take_record rules n (FooterRecord g)) = last_generation rules"
  "started (take_record rules n (FooterRecord g)) = started rules"
  "last_elapsed (take_record rules n (FooterRecord g)) = last_elapsed rules"
  by (auto simp: take_record_def)

text \<open>What one accepted record contributes to each part of the shape.\<close>

lemma accepted_lifecycle:
  assumes "framing_fault rules n f = None"
    and "lifecycle (open_generation (take_record rules n (FrameRecord f)))
      (last_generation (take_record rules n (FrameRecord f))) fs"
  shows "lifecycle (open_generation rules) (last_generation rules) (f # fs)"
  using framing_fault_None [OF assms(1)] assms(2)
  by (cases "frame_event f") (auto split: option.splits)

lemma accepted_clocked:
  assumes "framing_fault rules n f = None" and "\<not> elapsed_may_decrease rules"
    and "clocked (started (take_record rules n (FrameRecord f)))
      (last_elapsed (take_record rules n (FrameRecord f))) fs"
  shows "clocked (started rules) (last_elapsed rules) (f # fs)"
  using framing_fault_None(1,2) [OF assms(1)] assms(2,3) by auto

section \<open>The reader's loop\<close>

fun records_of :: "(nat \<times> verified_record \<times> bytes) list \<Rightarrow> capture_record list" where
  "records_of [] = []"
| "records_of ((_, VRecord r, _) # ls) = r # records_of ls"
| "records_of ((_, VHeader _, _) # ls) = records_of ls"

definition head_of :: "digest \<Rightarrow> capture_record list \<Rightarrow> digest" where
  "head_of p rs = (if rs = [] then p else record_sha (last rs))"

lemma head_of_Cons [simp]: "head_of p (r # rs) = head_of (record_sha r) rs"
  by (simp add: head_of_def)

text \<open>The rules agree with what has been read: \<open>p\<close> is the head of the chain.\<close>

definition reading_shape :: "reading_env \<Rightarrow> LineRules \<Rightarrow> digest \<Rightarrow> reading \<Rightarrow> bool" where
  "reading_shape env rules p r \<longleftrightarrow>
     (let rs = records_of (yielded r) in
      chained (record_sha256 env) (next_seq rules) p rs \<and>
      lifecycle (open_generation rules) (last_generation rules) (frames_of rs) \<and>
      (\<not> elapsed_may_decrease rules \<longrightarrow> clocked (started rules) (last_elapsed rules) (frames_of rs)) \<and>
      last_sha256 (read_rules r) = Some (head_of p rs) \<and>
      next_seq (read_rules r) = next_seq rules + length rs \<and>
      list_all (\<lambda>(_, v, _). \<exists>x. v = VRecord x) (yielded r))"

lemma reading_shape_stop:
  "last_sha256 rules = Some p \<Longrightarrow>
   reading_shape env rules p \<lparr>yielded = [], read_rules = rules, stopped = x, verified_bytes = v\<rparr>"
  by (simp add: reading_shape_def head_of_def)

lemma check_after_footer:
  "r_footer rules \<noteq> None \<Longrightarrow> check_record env rules n raw \<noteq> Inr y"
  by (auto simp: check_record_def size_fault_def split: option.splits if_splits)

lemma read_lines_Line:
  assumes "read_lines env rules n v (c # cs) = Inr r" and "1 \<le> n"
  obtains (Stop) x where "r = \<lparr>yielded = [], read_rules = rules, stopped = Some x, verified_bytes = v\<rparr>"
  | (More) raw rules' rc rest where "c = Line raw" "check_record env rules (n + 1) raw = Inr (rules', rc)"
      "read_lines env rules' (n + 1) (v + chunk_size c) cs = Inr rest"
      "r = rest \<lparr>yielded := (n + 1, VRecord rc, raw) # yielded rest\<rparr>"
  using assms
  by (auto simp: Let_def check_def rbind_eq_Inr_iff split: if_splits chunk.splits sum.splits)

lemma read_lines_after_footer:
  assumes "read_lines env rules n v cs = Inr r" "1 \<le> n" "r_footer rules \<noteq> None"
  shows "yielded r = []"
proof (cases cs)
  case (Cons c cs')
  from assms(1) [unfolded Cons] assms(2) show ?thesis
    by (cases rule: read_lines_Line) (use check_after_footer [OF assms(3)] in auto)
qed (use assms in auto)

lemma read_lines_shape:
  assumes "read_lines env rules n v cs = Inr r" and "1 \<le> n" and "last_sha256 rules = Some p"
  shows "reading_shape env rules p r"
  using assms
proof (induction cs arbitrary: rules n v p r)
  case Nil
  then show ?case by (auto simp: reading_shape_def head_of_def)
next
  case (Cons c cs)
  from Cons.prems(1,2) show ?case
  proof (cases rule: read_lines_Line)
    case (Stop x)
    then show ?thesis using Cons.prems(3) by (simp add: reading_shape_stop)
  next
    case (More raw rules' rc rest)
    note a = check_record_Inr [OF More(2)]
    note b = record_fault_None [OF a(3)]
    have p: "record_prev rc = p" using b(3) Cons.prems(3) by simp
    have "reading_shape env rules' (record_sha rc) rest"
      by (rule Cons.IH [OF More(3)]) (simp_all add: a(4))
    moreover have "is_footer rc \<Longrightarrow> records_of (yielded rest) = []"
      using read_lines_after_footer [OF More(3)] a(4) by (cases rc) auto
    ultimately show ?thesis
      using a(4) b(1,2,4) p b(5)
      by (cases rc)
        (auto simp: reading_shape_def Let_def More(4) accepted_lifecycle accepted_clocked
          simp del: lifecycle.simps clocked.simps take_frame_simps)
  qed
qed

lemma line_rules_simps [simp]:
  "r_limits (line_rules l d) = l" "lines (line_rules l d) = 0" "r_footer (line_rules l d) = None"
  "r_header (line_rules l d) = None" "next_seq (line_rules l d) = 1" "open_generation (line_rules l d) = None"
  "last_generation (line_rules l d) = 0" "started (line_rules l d) = False" "last_elapsed (line_rules l d) = 0"
  "elapsed_may_decrease (line_rules l d) = d" "frames (line_rules l d) = 0" "last_sha256 (line_rules l d) = None"
  by (simp_all add: line_rules_def)

lemma rbind_verdict:
  "rbind r (\<lambda>v. case v of Inl a \<Rightarrow> f a | Inr b \<Rightarrow> g b) = Inr y \<longleftrightarrow>
     (\<exists>a. r = Inr (Inl a) \<and> f a = Inr y) \<or> (\<exists>b. r = Inr (Inr b) \<and> g b = Inr y)"
  by (cases r) (auto split: sum.split)

lemma check_header_Inr:
  assumes "check_header env rules raw = Inr (Inr (rules', h))"
  obtains s where "rules' = take_header env rules raw h s" "r_footer rules = None"
    "read_header env raw = Reads h" "header_fault env h = Inr (Inr s)"
  using assms
  by (auto simp: check_header_def size_fault_def reading_fault_def rbind_verdict
      split: option.splits if_splits line_reading.splits)

lemma take_header_simps [simp]:
  "lines (take_header env rules raw h s) = 1" "next_seq (take_header env rules raw h s) = next_seq rules"
  "last_sha256 (take_header env rules raw h s) = Some (sha256_hex env raw)"
  "r_footer (take_header env rules raw h s) = r_footer rules" "r_header (take_header env rules raw h s) = Some h"
  "open_generation (take_header env rules raw h s) = open_generation rules"
  "last_generation (take_header env rules raw h s) = last_generation rules"
  "started (take_header env rules raw h s) = started rules"
  "last_elapsed (take_header env rules raw h s) = last_elapsed rules"
  "elapsed_may_decrease (take_header env rules raw h s) = elapsed_may_decrease rules"
  "r_limits (take_header env rules raw h s) = r_limits rules"
  by (simp_all add: take_header_def)

lemma read_lines_first:
  assumes "read_lines env (line_rules l d) 0 0 cs = Inr r" and "yielded r \<noteq> []"
  obtains h raw s cs' rest where "cs = Line raw # cs'"
    "check_header env (line_rules l d) raw = Inr (Inr (take_header env (line_rules l d) raw h s, h))"
    "read_lines env (take_header env (line_rules l d) raw h s) 1 (length raw + 1) cs' = Inr rest"
    "r = rest \<lparr>yielded := (1, VHeader h, raw) # yielded rest\<rparr>"
proof (cases cs)
  case (Cons c cs')
  with assms obtain raw where c: "c = Line raw"
    by (cases c) (auto simp: Let_def split: if_splits)
  with assms Cons obtain rules' h rest where *: "check_header env (line_rules l d) raw = Inr (Inr (rules', h))"
    "read_lines env rules' 1 (length raw + 1) cs' = Inr rest"
    "r = rest \<lparr>yielded := (1, VHeader h, raw) # yielded rest\<rparr>"
    by (cases "check_header env (line_rules l d) raw")
      (auto simp: Let_def check_def rbind_eq_Inr_iff chunk_size_def split: if_splits sum.splits)
  from *(1) obtain s where "rules' = take_header env (line_rules l d) raw h s"
    by (rule check_header_Inr)
  with * that Cons c show thesis by blast
qed (use assms in auto)

section \<open>Properties\<close>

text \<open>
  C7. Whatever a reader yields before it stops is one header followed by a hash chain: records
  numbered from 1, each naming the digest of the one before it and carrying its own, the footer
  last. Generations are bracketed and numbered from 1, every frame carries the generation open at
  its place, and elapsed time is 0 until the first generation starts and never decreases.
\<close>

theorem verified_capture_shape:
  assumes "read_lines env (line_rules limits False) 0 0 cs = Inr r" and "yielded r \<noteq> []"
  shows "\<exists>h raw ls. yielded r = (1, VHeader h, raw) # ls \<and>
    chained (record_sha256 env) 1 (sha256_hex env raw) (records_of ls) \<and>
    lifecycle None 0 (frames_of (records_of ls)) \<and> clocked False 0 (frames_of (records_of ls)) \<and>
    last_sha256 (read_rules r) = Some (head_of (sha256_hex env raw) (records_of ls))"
  using assms
proof (rule read_lines_first)
  fix h raw s cs' rest
  assume rest: "read_lines env (take_header env (line_rules limits False) raw h s) 1 (length raw + 1) cs' = Inr rest"
    and r: "r = rest \<lparr>yielded := (1, VHeader h, raw) # yielded rest\<rparr>"
  have "reading_shape env (take_header env (line_rules limits False) raw h s) (sha256_hex env raw) rest"
    by (rule read_lines_shape [OF rest]) simp_all
  then show ?thesis by (auto simp: reading_shape_def Let_def r)
qed

lemma chained_eq_or_collision:
  assumes "chained dg n p xs" "chained dg n q ys" "length xs = length ys"
    and "head_of p xs = head_of q ys"
  shows "p = q \<and> xs = ys \<or> (\<exists>x\<in>set xs. \<exists>y\<in>set ys. x \<noteq> y \<and> dg x = dg y)"
  using assms(3,1,2,4)
proof (induction xs ys arbitrary: n p q rule: list_induct2)
  case (Cons x xs y ys)
  from Cons.prems have "chained dg (n + 1) (dg x) xs" "chained dg (n + 1) (dg y) ys"
    "head_of (dg x) xs = head_of (dg y) ys" by auto
  from Cons.IH [OF this] show ?case
  proof
    assume e: "dg x = dg y \<and> xs = ys"
    then show ?thesis using Cons.prems(1,2) by (cases "x = y") auto
  qed auto
qed (simp add: head_of_def)

text \<open>
  C8. Tampering shows: two verified captures with the same number of lines and the same final
  digest hold the same records over headers with the same digest, or they exhibit two different
  records with one digest.
\<close>

theorem capture_tamper_evident:
  assumes "read_lines env (line_rules limits False) 0 0 cs = Inr r" "yielded r = (1, VHeader h, raw) # ls"
    and "read_lines env (line_rules limits False) 0 0 cs' = Inr r'" "yielded r' = (1, VHeader h', raw') # ls'"
    and "length ls = length ls'" "last_sha256 (read_rules r) = last_sha256 (read_rules r')"
  shows "sha256_hex env raw = sha256_hex env raw' \<and> records_of ls = records_of ls' \<or>
    (\<exists>x\<in>set (records_of ls). \<exists>y\<in>set (records_of ls'). x \<noteq> y \<and> record_sha256 env x = record_sha256 env y)"
proof -
  have shape: "chained (record_sha256 env) 1 (sha256_hex env raw) (records_of ls) \<and>
      last_sha256 (read_rules r) = Some (head_of (sha256_hex env raw) (records_of ls)) \<and>
      length (records_of ls) = length ls"
    if "read_lines env (line_rules limits False) 0 0 cs = Inr r" "yielded r = (1, VHeader h, raw) # ls"
    for cs r h raw ls
  proof -
    have "yielded r \<noteq> []" using that(2) by simp
    with that(1) obtain h' raw' s cs' rest where
      rest: "read_lines env (take_header env (line_rules limits False) raw' h' s) 1 (length raw' + 1) cs' = Inr rest"
      and r: "r = rest \<lparr>yielded := (1, VHeader h', raw') # yielded rest\<rparr>" by (rule read_lines_first)
    have sh: "reading_shape env (take_header env (line_rules limits False) raw' h' s) (sha256_hex env raw') rest"
      by (rule read_lines_shape [OF rest]) simp_all
    have e: "raw' = raw" "yielded rest = ls" using that(2) r by simp_all
    have "list_all (\<lambda>(_, v, _). \<exists>x. v = VRecord x) zs \<Longrightarrow> length (records_of zs) = length zs"
      for zs :: "(nat \<times> verified_record \<times> bytes) list"
      by (induction zs rule: records_of.induct) auto
    with sh show ?thesis by (auto simp: reading_shape_def Let_def r e)
  qed
  from shape [OF assms(1,2)] shape [OF assms(3,4)] assms(5,6) show ?thesis
    using chained_eq_or_collision [of "record_sha256 env" 1 "sha256_hex env raw" "records_of ls"
        "sha256_hex env raw'" "records_of ls'"] by auto
qed

section \<open>Writing\<close>

text \<open>
  What the chain needs of canonical JSON: a line read back is the record written, and a record's
  digest does not depend on the digest it carries.
\<close>

definition faithful_writing :: "writing_env \<Rightarrow> bool" where
  "faithful_writing env \<longleftrightarrow>
     (\<forall>rc raw rc'. line_of env (VRecord rc) = Inr raw \<longrightarrow> read_record env raw = Reads rc' \<longrightarrow> rc' = rc) \<and>
     (\<forall>d rc. record_sha256 env (seal d rc) = record_sha256 env rc)"

datatype chain_op = WriteHeader header | WriteFrame nat nat event | WriteFooter footer_status "string option" nat

definition chain_step :: "writing_env \<Rightarrow> LineRules \<Rightarrow> chain_op \<Rightarrow> hla_exception + LineRules \<times> bytes" where
  "chain_step env rules op =
     (case op of WriteHeader h \<Rightarrow> chain_header env rules h
      | WriteFrame g e ev \<Rightarrow> chain_frame env rules g e ev
      | WriteFooter st rs g \<Rightarrow> chain_footer env rules st rs g)"

fun chain_run :: "writing_env \<Rightarrow> LineRules \<Rightarrow> chain_op list \<Rightarrow> hla_exception + LineRules \<times> bytes list" where
  "chain_run env rules [] = Inr (rules, [])"
| "chain_run env rules (op # ops) =
     rbind (chain_step env rules op) (\<lambda>(rules', line).
       rbind (chain_run env rules' ops) (\<lambda>(final, ls). Inr (final, line # ls)))"

lemma check_Inr:
  assumes "check env rules n raw = Inr (Inr (rules', v))"
  shows "lines rules' = n" "r_limits rules' = r_limits rules"
    "length raw \<le> line_bytes (r_limits rules)"
proof -
  show "lines rules' = n" "r_limits rules' = r_limits rules"
  proof (atomize (full), cases "n = 1")
    case True
    with assms obtain h where "check_header env rules raw = Inr (Inr (rules', h))"
      by (cases "check_header env rules raw") (auto simp: check_def split: sum.splits)
    then show "lines rules' = n \<and> r_limits rules' = r_limits rules"
      by (rule check_header_Inr) (simp add: True)
  next
    case False
    with assms obtain rc where "check_record env rules n raw = Inr (rules', rc)"
      by (auto simp: check_def split: sum.splits)
    from check_record_Inr(4) [OF this] show "lines rules' = n \<and> r_limits rules' = r_limits rules" by simp
  qed
  show "length raw \<le> line_bytes (r_limits rules)"
    using assms
    by (auto simp: check_def check_header_def check_record_def size_fault_def rbind_eq_Inr_iff
        split: if_splits sum.splits option.splits)
qed

lemma emit_Inr:
  assumes "emit env rules rc = Inr (rules', line)"
  obtains raw v where "line = raw @ [10]" "check (reading_env.truncate env) rules (lines rules + 1) raw = Inr (Inr (rules', v))"
  using assms
  by (auto simp: emit_def Let_def rbind_verdict split: sum.splits prod.splits)

lemma chain_step_emits:
  assumes "chain_step env rules op = Inr (rules', line)"
  obtains rc where "emit env rules rc = Inr (rules', line)"
  using assms
  by (auto simp: chain_step_def chain_header_def chain_frame_def chain_footer_def rbind_eq_Inr_iff
      split: chain_op.splits if_splits)

lemma read_back:
  assumes "chain_run env rules ops = Inr (final, ls)"
    and "lines rules = n" and "v + sum_list (map length ls) \<le> capture_file_bytes (r_limits rules)"
  shows "\<exists>r. read_lines (reading_env.truncate env) rules n v (map (Line \<circ> butlast) ls) = Inr r \<and>
    stopped r = None \<and> read_rules r = final \<and> verified_bytes r = v + sum_list (map length ls) \<and>
    map (\<lambda>(_, _, raw). raw @ [10]) (yielded r) = ls"
  using assms
proof (induction ops arbitrary: rules n v ls)
  case (Cons op ops)
  from Cons.prems(1) obtain rules' line ls' where st: "chain_step env rules op = Inr (rules', line)"
    and run: "chain_run env rules' ops = Inr (final, ls')" and ls: "ls = line # ls'"
    by (auto simp: rbind_eq_Inr_iff)
  from st obtain rc where "emit env rules rc = Inr (rules', line)" by (rule chain_step_emits)
  then obtain raw vr where line: "line = raw @ [10]"
    and ck: "check (reading_env.truncate env) rules (lines rules + 1) raw = Inr (Inr (rules', vr))"
    by (rule emit_Inr)
  note c = check_Inr [OF ck]
  have "v + length line + sum_list (map length ls') \<le> capture_file_bytes (r_limits rules')"
    using Cons.prems(3) by (simp add: ls c(2))
  note IH = Cons.IH [OF run _ this, of "n + 1"]
  have "lines rules' = n + 1" using c(1) Cons.prems(2) by simp
  from IH [OF this] obtain r where r:
    "read_lines (reading_env.truncate env) rules' (n + 1) (v + length line) (map (Line \<circ> butlast) ls') = Inr r \<and>
     stopped r = None \<and> read_rules r = final \<and>
     verified_bytes r = v + length line + sum_list (map length ls') \<and>
     map (\<lambda>(_, _, raw). raw @ [10]) (yielded r) = ls'" by (elim exE)
  have size: "\<not> capture_file_bytes (r_limits rules) < v + length line"
    using Cons.prems(3) by (simp add: ls)
  have ck': "check (reading_env.truncate env) rules (n + 1) raw = Inr (Inr (rules', vr))"
    using ck Cons.prems(2) by simp
  have v': "v + chunk_size (Line raw) = v + length line" by (simp add: line chunk_size_def)
  have "map (Line \<circ> butlast) ls = Line raw # map (Line \<circ> butlast) ls'" by (simp add: ls line)
  moreover have "read_lines (reading_env.truncate env) rules n v (Line raw # map (Line \<circ> butlast) ls') =
      Inr (r \<lparr>yielded := (n + 1, vr, raw) # yielded r\<rparr>)"
    unfolding read_lines.simps Let_def v' if_not_P [OF size] chunk.case ck' using r by simp
  ultimately show ?case
    using r by (intro exI [of _ "r \<lparr>yielded := (n + 1, vr, raw) # yielded r\<rparr>"])
      (simp add: ls line o_def del: read_lines.simps)
qed auto

lemma fault_code_fault [simp]: "fault_code (fault c n t m) = c"
  by (simp add: fault_def)

lemma event_fault_code: "event_fault rules n e = Some x \<Longrightarrow> fault_code x = ''E_CAPTURE_SCHEMA''"
  by (auto simp: event_fault_def Let_def split: event.splits if_splits option.splits)

lemma framing_fault_code:
  "framing_fault rules n f = Some x \<Longrightarrow> fault_code x \<in> {''E_CAPTURE_SCHEMA'', ''E_CONFIG''}"
  unfolding framing_fault_def Let_def by (auto split: if_splits option.splits)

lemma footer_fault_code: "footer_fault rules n f = Some x \<Longrightarrow> fault_code x = ''E_CAPTURE_SCHEMA''"
  unfolding footer_fault_def by (auto split: if_splits)

lemma record_fault_code:
  assumes "record_fault env rules n rc = Some x"
    and "record_seq rc = next_seq rules" "Some (record_prev rc) = last_sha256 rules"
    and "record_sha rc = record_sha256 env rc"
  shows "fault_code x \<noteq> ''E_CAPTURE_HASH'' \<and> fault_code x \<noteq> ''E_CAPTURE_SEQUENCE''"
proof (cases rc)
  case (FrameRecord f)
  then show ?thesis
    using assms event_fault_code [of rules n "frame_event f"] framing_fault_code [of rules n f]
    by (auto simp: record_fault_def Let_def split: if_splits option.splits)
next
  case (FooterRecord f)
  then show ?thesis
    using assms footer_fault_code [of rules n f] by (auto simp: record_fault_def Let_def)
next
  case OtherRecord
  then show ?thesis using assms by (auto simp: record_fault_def Let_def)
qed

lemma check_record_Inl:
  assumes "check_record env rules n raw = Inl x"
  shows "fault_code x \<in> {''E_LIMIT'', ''E_CAPTURE_SCHEMA''} \<or>
    (\<exists>rc. read_record env raw = Reads rc \<and> record_fault env rules n rc = Some x)"
  using assms
  by (auto simp: check_record_def size_fault_def reading_fault_def rbind_eq_Inl_iff
      split: option.splits if_splits line_reading.splits)

text \<open>
  C9. What the chain writes, the reader verifies: the lines of any run of a fresh chain that fit
  the file limit are read back without a fault, line for line, into the state of the chain.
\<close>

theorem chain_reads_back:
  assumes "chain_run env (line_rules limits False) ops = Inr (final, ls)"
    and "sum_list (map length ls) \<le> capture_file_bytes limits"
  shows "\<exists>r. read_lines (reading_env.truncate env) (line_rules limits False) 0 0 (map (Line \<circ> butlast) ls) = Inr r \<and>
    stopped r = None \<and> read_rules r = final \<and> map (\<lambda>(_, _, raw). raw @ [10]) (yielded r) = ls"
  using read_back [OF assms(1), of 0 0] assms(2) by auto

lemma refused_code: "HlaError c p m = Refusal e \<Longrightarrow> e_code e = c"
  by (auto simp: HlaError_def split: if_splits)

lemma emit_keeps_chain:
  assumes "faithful_writing env" and "1 \<le> lines rules" and "emit env rules (VRecord rc) = Inl (Refusal e)"
    and rc: "record_seq rc = next_seq rules" "Some (record_prev rc) = last_sha256 rules"
      "record_sha rc = record_sha256 env rc"
  shows "e_code e \<noteq> ''E_CAPTURE_HASH'' \<and> e_code e \<noteq> ''E_CAPTURE_SEQUENCE''"
proof -
  have codes: "fault_code x \<noteq> ''E_CAPTURE_HASH'' \<and> fault_code x \<noteq> ''E_CAPTURE_SEQUENCE''"
    if "record_fault (reading_env.truncate env) rules n rc = Some x" for n x
    by (rule record_fault_code [OF that]) (simp_all add: rc reading_env.truncate_def)
  from assms(3) consider
      tokens m where "HlaError ''E_CAPTURE_SCHEMA'' (at_line (lines rules + 1) tokens) m = Refusal e"
    | raw x where "line_of env (VRecord rc) = Inr raw" "refusal_of x = Refusal e"
        "check_record (reading_env.truncate env) rules (lines rules + 1) raw = Inl x"
    using assms(2)
    by (cases "line_of env (VRecord rc)")
      (auto simp: emit_def Let_def check_def split: prod.splits sum.splits)
  then show ?thesis
  proof cases
    case 1
    from refused_code [OF this] show ?thesis by simp
  next
    case (2 raw x)
    have "fault_code x \<noteq> ''E_CAPTURE_HASH'' \<and> fault_code x \<noteq> ''E_CAPTURE_SEQUENCE''"
      using check_record_Inl [OF 2(3)]
    proof
      assume "\<exists>rc'. read_record (reading_env.truncate env) raw = Reads rc' \<and>
        record_fault (reading_env.truncate env) rules (lines rules + 1) rc' = Some x"
      then obtain rc' where "read_record env raw = Reads rc'"
        "record_fault (reading_env.truncate env) rules (lines rules + 1) rc' = Some x"
        by (auto simp: reading_env.truncate_def)
      moreover from this(1) 2(1) assms(1) have "rc' = rc" by (simp add: faithful_writing_def)
      ultimately show ?thesis using codes by blast
    qed auto
    with refused_code 2(2) show ?thesis by (auto simp: refusal_of_def)
  qed
qed

text \<open>
  C10. The chain never refuses a frame for its own place in it: on a chain that holds a header, a
  frame may be refused by the schema, the lifecycle or a limit, but never as \<open>E_CAPTURE_HASH\<close> or
  \<open>E_CAPTURE_SEQUENCE\<close>.
\<close>

theorem chain_frame_keeps_chain:
  assumes "faithful_writing env" and "last_sha256 rules \<noteq> None" and "1 \<le> lines rules"
    and "chain_frame env rules g elapsed ev = Inl (Refusal e)"
  shows "e_code e \<noteq> ''E_CAPTURE_HASH'' \<and> e_code e \<noteq> ''E_CAPTURE_SEQUENCE''"
proof -
  define f where "f = FrameRecord \<lparr>frame_seq = next_seq rules, frame_generation = g, frame_elapsed = elapsed,
    frame_event = ev, frame_prev = the (last_sha256 rules), frame_sha = []\<rparr>"
  define rc where "rc = seal (record_sha256 env f) f"
  have "record_sha256 env rc = record_sha256 env f" using assms(1) by (simp add: rc_def faithful_writing_def)
  then have rc: "record_seq rc = next_seq rules" "Some (record_prev rc) = last_sha256 rules"
    "record_sha rc = record_sha256 env rc"
    using assms(2) by (auto simp: rc_def) (auto simp: f_def seal_def record_seq_def record_prev_def record_sha_def)
  from assms(4) consider
      tokens m where "HlaError ''E_CAPTURE_SCHEMA'' (at_line (lines rules + 1) tokens) m = Refusal e"
    | "emit env rules (VRecord rc) = Inl (Refusal e)"
    by (auto simp: chain_frame_def sealed_def rbind_eq_Inl_iff rc_def f_def split: if_splits option.splits)
  then show ?thesis
  proof cases
    case 1
    from refused_code [OF this] show ?thesis by simp
  next
    case 2
    from emit_keeps_chain [OF assms(1,3) this rc] show ?thesis .
  qed
qed

section \<open>Witnesses\<close>

text \<open>A session of one generation, written by a chain and read back, in a small environment.\<close>

definition sample_config :: session_config where
  "sample_config = \<lparr>session_id = asc ''S1'', source_system = asc ''lab'', synthetic = True,
     mode = EXISTING, endpoint = asc ''rti://127.0.0.1:14321'', allow_remote = False,
     federation_name = asc ''F'', federate_name = asc ''O'',
     profile_declaration = ''external-fom-unverified'', time_policy = TimeNone, force_map = []\<rparr>"

definition sample_header :: header where
  "sample_header = \<lparr>head_config = sample_config, head_pins = [],
     record_created_at = asc ''2024-01-02T03:04:05.000006Z''\<rparr>"

definition sample_start :: frame where
  "sample_start = \<lparr>frame_seq = 1, frame_generation = 1, frame_elapsed = 0,
     frame_event = GenerationStart (asc ''F''), frame_prev = [0], frame_sha = [1]\<rparr>"

definition sample_end :: frame where
  "sample_end = \<lparr>frame_seq = 2, frame_generation = 1, frame_elapsed = 5,
     frame_event = GenerationEnd ''stop'', frame_prev = [1], frame_sha = [2]\<rparr>"

definition sample_env :: writing_env where
  "sample_env = \<lparr>read_header = (\<lambda>_. Reads sample_header),
     read_record = (\<lambda>raw. if raw = [1] then Reads (FrameRecord sample_start)
       else if raw = [2] then Reads (FrameRecord sample_end) else NotObject),
     sha256_hex = (\<lambda>_. [0]), record_sha256 = (\<lambda>rc. [word_of_nat (record_seq rc)]),
     schema_problem = (\<lambda>_. None), document_order = (\<lambda>_ _. []),
     line_of = (\<lambda>v. if v = VHeader sample_header then Inr [0]
       else if v = VRecord (FrameRecord sample_start) then Inr [1]
       else if v = VRecord (FrameRecord sample_end) then Inr [2] else Inl ([], asc ''no'')),
     seal_problem = (\<lambda>_. None)\<rparr>"

lemma sample_endpoint: "endpoint_permitted (asc ''rti://127.0.0.1:14321'') False"
proof -
  have e: "asc ''rti://127.0.0.1:14321'' = dotted_quad 127 0 0 1 14321"
    by (simp add: dotted_quad_def dec.simps)
  have "match_endpoint (dotted_quad 127 0 0 1 14321) = Some ([dec 127, dec 0, dec 0, dec 1], dec 14321)"
    unfolding match_endpoint_iff
    by (intro exI [of _ 127] exI [of _ 0] exI [of _ 1] exI [of _ 14321]) (simp add: dec.simps)
  from permitted_quad [OF this, of False] show ?thesis unfolding e by simp
qed

lemma sample_valid: "semantic_problems sample_config = []"
  using sample_endpoint
  by (simp add: semantic_problems_def surrogate_problems_def config_texts_def sample_config_def
      has_surrogate_def DECLARATION_FOR_MODE_def)

lemma sample_time: "\<exists>t. parse_microsecond (asc ''2024-01-02T03:04:05.000006Z'') = Inr t"
  by (simp add: parse_microsecond_def parsed_def FORM_def STAMP_def is_digit_def undec_def
      MIN_YEAR_def MAX_YEAR_def days_in_month_def DAYS_IN_MONTH_def py_get_def Let_def)

definition sample_session :: ValidatedConfig where
  "sample_session = \<lparr>document = sample_config, vc_epoch = None\<rparr>"

definition sample_ops :: "chain_op list" where
  "sample_ops = [WriteHeader sample_header, WriteFrame 1 0 (GenerationStart (asc ''F'')),
     WriteFrame 1 5 (GenerationEnd ''stop'')]"

lemma sample_session_valid:
  "validated_config p q sample_config = (case p sample_config of None \<Rightarrow> Inr sample_session | Some _ \<Rightarrow> validated_config p q sample_config)"
proof (cases "p sample_config")
  case None
  have "time_policy sample_config = TimeNone" by (simp add: sample_config_def)
  with None sample_valid show ?thesis
    by (simp add: validated_config_def validate_config_def epoch_microsecond_def sample_session_def)
qed simp

lemma sample_header_ok: "header_fault (reading_env.truncate sample_env) sample_header = Inr (Inr sample_session)"
proof -
  have "schema_problem (reading_env.truncate sample_env) sample_config = None"
    by (simp add: sample_env_def reading_env.truncate_def)
  with sample_session_valid [of "schema_problem (reading_env.truncate sample_env)"]
  have "validated_config (schema_problem (reading_env.truncate sample_env)) q sample_config = Inr sample_session"
    for q by simp
  with sample_time show ?thesis by (auto simp: header_fault_def sample_header_def)
qed

definition sample_rules :: "nat \<Rightarrow> LineRules" where
  "sample_rules n =
     (let r1 = take_header (reading_env.truncate sample_env) (line_rules V1 False) [0] sample_header sample_session;
          r2 = take_record r1 2 (FrameRecord sample_start);
          r3 = take_record r2 3 (FrameRecord sample_end)
      in if n = 1 then r1 else if n = 2 then r2 else r3)"

lemma sample_env_simps [simp]:
  "read_header (reading_env.truncate sample_env) raw = Reads sample_header"
  "read_record (reading_env.truncate sample_env) [1] = Reads (FrameRecord sample_start)"
  "read_record (reading_env.truncate sample_env) [2] = Reads (FrameRecord sample_end)"
  "sha256_hex (reading_env.truncate sample_env) raw = [0]"
  "record_sha256 (reading_env.truncate sample_env) rc = [word_of_nat (record_seq rc)]"
  "seal_problem sample_env rc = None"
  "record_sha256 sample_env rc = [word_of_nat (record_seq rc)]"
  "line_of sample_env (VHeader sample_header) = Inr [0]"
  "line_of sample_env (VRecord (FrameRecord sample_start)) = Inr [1]"
  "line_of sample_env (VRecord (FrameRecord sample_end)) = Inr [2]"
  by (simp_all add: sample_env_def reading_env.truncate_def sample_start_def sample_end_def)

lemma sample_check_1: "check (reading_env.truncate sample_env) (line_rules V1 False) 1 [0] =
    Inr (Inr (sample_rules 1, VHeader sample_header))"
  by (simp add: check_def check_header_def size_fault_def reading_fault_def sample_header_ok
      sample_rules_def V1_def)

lemma sample_check_2: "check (reading_env.truncate sample_env) (sample_rules 1) 2 [1] =
    Inr (Inr (sample_rules 2, VRecord (FrameRecord sample_start)))"
  by (simp add: check_def check_record_def size_fault_def reading_fault_def sample_rules_def V1_def
      record_fault_def sample_start_def event_fault_def record_seq_def record_prev_def record_sha_def
      framing_fault_def take_header_def line_rules_def sample_session_def sample_config_def)

lemma sample_check_3: "check (reading_env.truncate sample_env) (sample_rules 2) 3 [2] =
    Inr (Inr (sample_rules 3, VRecord (FrameRecord sample_end)))"
  by (simp add: check_def check_record_def size_fault_def reading_fault_def sample_rules_def V1_def
      record_fault_def sample_end_def sample_start_def event_fault_def record_seq_def record_prev_def
      record_sha_def framing_fault_def take_header_def line_rules_def sample_session_def sample_config_def)

lemma sample_rules_lines: "lines (sample_rules 1) = 1" "lines (sample_rules 2) = 2"
  "r_limits (sample_rules n) = V1" "last_sha256 (sample_rules 1) = Some [0]" "next_seq (sample_rules 1) = 1"
  "last_sha256 (sample_rules 2) = Some [1]" "next_seq (sample_rules 2) = 2"
  "r_header (sample_rules 1) = Some sample_header" "r_header (sample_rules 2) = Some sample_header"
  "r_footer (sample_rules 1) = None" "r_footer (sample_rules 2) = None"
  by (simp_all add: sample_rules_def Let_def record_sha_def sample_start_def)

lemma sample_written: "chain_run sample_env (line_rules V1 False) sample_ops =
    Inr (sample_rules 3, [[0, 10], [1, 10], [2, 10]])"
proof -
  have 1: "chain_header sample_env (line_rules V1 False) sample_header = Inr (sample_rules 1, [0, 10])"
    using sample_check_1 by (simp add: chain_header_def emit_def del: One_nat_def)
  have f2: "seal [1] (FrameRecord \<lparr>frame_seq = 1, frame_generation = 1, frame_elapsed = 0,
      frame_event = GenerationStart (asc ''F''), frame_prev = [0], frame_sha = []\<rparr>) = FrameRecord sample_start"
    by (simp add: seal_def sample_start_def)
  have 2: "chain_frame sample_env (sample_rules 1) 1 0 (GenerationStart (asc ''F'')) = Inr (sample_rules 2, [1, 10])"
    using sample_check_2 f2
    by (simp add: chain_frame_def sealed_def sample_rules_lines emit_def record_seq_def del: One_nat_def)
  have f3: "seal [2] (FrameRecord \<lparr>frame_seq = 2, frame_generation = 1, frame_elapsed = 5,
      frame_event = GenerationEnd ''stop'', frame_prev = [1], frame_sha = []\<rparr>) = FrameRecord sample_end"
    by (simp add: seal_def sample_end_def)
  have 3: "chain_frame sample_env (sample_rules 2) 1 5 (GenerationEnd ''stop'') = Inr (sample_rules 3, [2, 10])"
    using sample_check_3 f3
    by (simp add: chain_frame_def sealed_def sample_rules_lines MAX_ELAPSED_NS_def emit_def record_seq_def
        del: One_nat_def)
  show ?thesis using 1 2 3 by (simp add: sample_ops_def chain_step_def del: One_nat_def)
qed

lemma sample_read: "\<exists>r. read_lines (reading_env.truncate sample_env) (line_rules V1 False) 0 0 [Line [0], Line [1], Line [2]] = Inr r \<and>
    yielded r = [(1, VHeader sample_header, [0]), (2, VRecord (FrameRecord sample_start), [1]),
      (3, VRecord (FrameRecord sample_end), [2])] \<and> last_sha256 (read_rules r) = Some [2]"
proof -
  have "capture_file_bytes V1 = 1073741824" by (simp add: V1_def)
  moreover have "last_sha256 (sample_rules 3) = Some [2]"
    by (simp add: sample_rules_def Let_def record_sha_def sample_end_def)
  ultimately show ?thesis
    using sample_check_1 sample_check_2 sample_check_3
    by (simp add: chunk_size_def sample_rules_lines Let_def del: One_nat_def)
qed

theorem verified_capture_shape_witness:
  "lifecycle None 0 [sample_start, sample_end] \<and> clocked False 0 [sample_start, sample_end]"
proof -
  from sample_read obtain r where r: "read_lines (reading_env.truncate sample_env) (line_rules V1 False) 0 0
      [Line [0], Line [1], Line [2]] = Inr r"
    "yielded r = [(1, VHeader sample_header, [0]), (2, VRecord (FrameRecord sample_start), [1]),
      (3, VRecord (FrameRecord sample_end), [2])]" by blast
  from verified_capture_shape [OF r(1)] r(2) show ?thesis by auto
qed

theorem capture_tamper_evident_witness:
  "\<exists>r. read_lines (reading_env.truncate sample_env) (line_rules V1 False) 0 0 [Line [0], Line [1], Line [2]] = Inr r \<and>
    (sha256_hex (reading_env.truncate sample_env) [0] = sha256_hex (reading_env.truncate sample_env) [0] \<and>
     records_of (tl (yielded r)) = records_of (tl (yielded r)) \<or>
     (\<exists>x. \<exists>y. x \<noteq> y \<and> record_sha256 sample_env x = record_sha256 sample_env y))"
proof -
  from sample_read obtain r where r: "read_lines (reading_env.truncate sample_env) (line_rules V1 False) 0 0
      [Line [0], Line [1], Line [2]] = Inr r"
    "yielded r = [(1, VHeader sample_header, [0]), (2, VRecord (FrameRecord sample_start), [1]),
      (3, VRecord (FrameRecord sample_end), [2])]" by blast
  from capture_tamper_evident [OF r r refl refl] r show ?thesis by auto
qed

theorem chain_reads_back_witness:
  "\<exists>r. read_lines (reading_env.truncate sample_env) (line_rules V1 False) 0 0 [Line [0], Line [1], Line [2]] = Inr r \<and>
    stopped r = None"
proof -
  have "sum_list (map length [[0, 10], [1, 10], [2, 10] :: bytes]) \<le> capture_file_bytes V1"
    by (simp add: V1_def)
  from chain_reads_back [OF sample_written this] show ?thesis
    by (auto simp del: read_lines.simps)
qed

theorem chain_frame_keeps_chain_witness:
  "\<exists>e. chain_frame sample_env (sample_rules 1) 7 0 (GenerationEnd ''stop'') = Inl (Refusal e) \<and>
    e_code e \<noteq> ''E_CAPTURE_HASH''"
proof -
  have f: "faithful_writing sample_env"
    by (auto simp: faithful_writing_def sample_env_def seal_def record_seq_def
        split: if_splits capture_record.split)
  have "line_of sample_env (VRecord (seal [1] (FrameRecord \<lparr>frame_seq = 1, frame_generation = 7, frame_elapsed = 0,
      frame_event = GenerationEnd ''stop'', frame_prev = [0], frame_sha = []\<rparr>))) = Inl ([], asc ''no'')"
    by (simp add: sample_env_def seal_def sample_start_def sample_end_def)
  then have "chain_frame sample_env (sample_rules 1) 7 0 (GenerationEnd ''stop'') =
      Inl (HlaError ''E_CAPTURE_SCHEMA'' (asc ''line:2'') (asc ''no''))"
    by (simp add: chain_frame_def sealed_def sample_rules_lines emit_def record_seq_def at_line_def dec.simps
        del: One_nat_def)
  also have "\<dots> = Inl (Refusal \<lparr>e_code = ''E_CAPTURE_SCHEMA'', e_path = asc ''line:2'', e_message = asc ''no''\<rparr>)"
    by (simp add: HlaError_def is_code_def CODES_def message_problem_def V1_def refused_def REFUSED_IN_MESSAGE_def)
  finally have e: "chain_frame sample_env (sample_rules 1) 7 0 (GenerationEnd ''stop'') =
      Inl (Refusal \<lparr>e_code = ''E_CAPTURE_SCHEMA'', e_path = asc ''line:2'', e_message = asc ''no''\<rparr>)" .
  from chain_frame_keeps_chain [OF f _ _ e] e show ?thesis
    by (simp add: sample_rules_lines del: One_nat_def)
qed

end
