(* ===== verification/Hla_Geodesy.thy ===== *)
theory Hla_Geodesy
  imports Hla_Codec
begin

text \<open>
  From a decoded Spatial value to a WGS84 position and its motion,
  \<^verbatim>\<open>packages/hla/src/synapse_hla/geodesy.py\<close>, operation for operation. Comparison, negation
  and absolute value of binary64 are computed on the bit patterns; the rounding arithmetic and the
  functions of Python's \<open>math\<close> are a parameter.
\<close>

section \<open>Binary64 numbers\<close>

text \<open>
  The order of floats is the order of their magnitudes with the sign, both zeros being equal; a
  NaN compares with nothing.
\<close>

definition fmagnitude :: "float64 \<Rightarrow> nat" where
  "fmagnitude w = unat w mod 2 ^ 63"

definition fnegative :: "float64 \<Rightarrow> bool" where
  "fnegative w \<longleftrightarrow> 2 ^ 63 \<le> unat w"

definition fkey :: "float64 \<Rightarrow> int" where
  "fkey w = (if fnegative w then - int (fmagnitude w) else int (fmagnitude w))"

definition fnan :: "float64 \<Rightarrow> bool" where
  "fnan w \<longleftrightarrow> float_exponent w = 2047 \<and> unat w mod 2 ^ 52 \<noteq> 0"

definition fle :: "float64 \<Rightarrow> float64 \<Rightarrow> bool" where
  "fle a b \<longleftrightarrow> \<not> fnan a \<and> \<not> fnan b \<and> fkey a \<le> fkey b"

definition flt :: "float64 \<Rightarrow> float64 \<Rightarrow> bool" where
  "flt a b \<longleftrightarrow> \<not> fnan a \<and> \<not> fnan b \<and> fkey a < fkey b"

definition feq :: "float64 \<Rightarrow> float64 \<Rightarrow> bool" where
  "feq a b \<longleftrightarrow> \<not> fnan a \<and> \<not> fnan b \<and> fkey a = fkey b"

definition fabs :: "float64 \<Rightarrow> float64" where
  "fabs w = word_of_nat (fmagnitude w)"

definition fneg :: "float64 \<Rightarrow> float64" where
  "fneg w = word_of_nat (if fnegative w then fmagnitude w else 2 ^ 63 + fmagnitude w)"

definition FZERO :: float64 where "FZERO = 0"
definition ONE :: float64 where "ONE = 0x3FF0000000000000"
definition TWO :: float64 where "TWO = 0x4000000000000000"
definition HALF :: float64 where "HALF = 0x3FE0000000000000"
definition PI :: float64 where "PI = 0x400921FB54442D18"
definition F90 :: float64 where "F90 = 0x4056800000000000"
definition MINUS_F90 :: float64 where "MINUS_F90 = 0xC056800000000000"
definition F180 :: float64 where "F180 = 0x4066800000000000"
definition MINUS_F180 :: float64 where "MINUS_F180 = 0xC066800000000000"
definition F360 :: float64 where "F360 = 0x4076800000000000"

record float_ops =
  fadd :: "float64 \<Rightarrow> float64 \<Rightarrow> float64"
  fsub :: "float64 \<Rightarrow> float64 \<Rightarrow> float64"
  fmul :: "float64 \<Rightarrow> float64 \<Rightarrow> float64"
  fdiv :: "float64 \<Rightarrow> float64 \<Rightarrow> float64"
  fmod :: "float64 \<Rightarrow> float64 \<Rightarrow> float64"
  fsquare :: "float64 \<Rightarrow> float64"        \<comment> \<open>\<open>x ** 2\<close>\<close>
  fsqrt :: "float64 \<Rightarrow> float64"
  fsin :: "float64 \<Rightarrow> float64"
  fcos :: "float64 \<Rightarrow> float64"
  fatan2 :: "float64 \<Rightarrow> float64 \<Rightarrow> float64"
  fhypot :: "float64 list \<Rightarrow> float64"
  fdegrees :: "float64 \<Rightarrow> float64"
  fround :: "float64 \<Rightarrow> nat \<Rightarrow> float64"

section \<open>WGS84 and the profile's bounds\<close>

definition WGS84_A :: float64 where "WGS84_A = 0x415854A640000000"
definition INVERSE_FLATTENING :: float64 where "INVERSE_FLATTENING = 0x4072A41D96746D88"

definition WGS84_F :: "float_ops \<Rightarrow> float64" where
  "WGS84_F m = fdiv m ONE INVERSE_FLATTENING"

definition WGS84_B :: "float_ops \<Rightarrow> float64" where
  "WGS84_B m = fmul m WGS84_A (fsub m ONE (WGS84_F m))"

definition WGS84_E2 :: "float_ops \<Rightarrow> float64" where
  "WGS84_E2 m = fmul m (WGS84_F m) (fsub m TWO (WGS84_F m))"

definition ECEF_NORM_MIN_M :: float64 where "ECEF_NORM_MIN_M = 0x412E848000000000"
definition ECEF_NORM_MAX_M :: float64 where "ECEF_NORM_MAX_M = 0x4197D78400000000"
definition POLE_AXIS_M :: float64 where "POLE_AXIS_M = 0x3E45798EE2308C3A"
definition CONVERGENCE_RAD :: float64 where "CONVERGENCE_RAD = 0x3D06849B86A12B9B"
definition MAX_ITERATIONS :: nat where "MAX_ITERATIONS = 32"
definition LATITUDE_ROUNDOFF_DEG :: float64 where "LATITUDE_ROUNDOFF_DEG = 0x3DDB7CDFD9D7BDBB"
definition SPEED_THRESHOLD_MPS :: float64 where "SPEED_THRESHOLD_MPS = 0x3EB0C6F7A0B5ED8D"
definition ANGLE_PLACES :: nat where "ANGLE_PLACES = 9"
definition LENGTH_PLACES :: nat where "LENGTH_PLACES = 6"
definition WORLD_VELOCITY_ALGORITHMS :: "nat list" where "WORLD_VELOCITY_ALGORITHMS = [2, 3, 4, 5]"

section \<open>The transform\<close>

record geodetic_result =
  latitude_deg :: float64
  longitude_deg :: float64
  height_m :: float64
  latitude_rad :: float64
  longitude_rad :: float64
  pole :: bool

record geo_position =
  lat :: float64
  lon :: float64
  alt_m :: float64

record kinematics =
  speed_mps :: float64
  course_deg :: "float64 option"
  climb_mps :: float64

record projection =
  geo_position :: geo_position
  motion :: "kinematics option"

definition geodesy_error :: "string \<Rightarrow> string \<Rightarrow> hla_exception" where
  "geodesy_error code message = HlaError code SPATIAL (asc message)"

definition check_ecef :: "float_ops \<Rightarrow> float64 \<Rightarrow> float64 \<Rightarrow> float64 \<Rightarrow> hla_exception + unit" where
  "check_ecef m x y z =
     (if \<not> (isfinite x \<and> isfinite y \<and> isfinite z) then
        Inl (geodesy_error ''E_ECEF_RANGE'' ''an ECEF position component is not finite'')
      else if \<not> (fle ECEF_NORM_MIN_M (fhypot m [x, y, z]) \<and> fle (fhypot m [x, y, z]) ECEF_NORM_MAX_M) then
        Inl (geodesy_error ''E_ECEF_RANGE'' ''the ECEF position is not between 1,000,000 and 100,000,000 metres from the centre of the Earth'')
      else Inr ())"

text \<open>
  The latitude loop: \<open>None\<close> is the \<open>else\<close> branch of the source's \<open>for\<close>, no convergence within
  the steps left.
\<close>

definition prime_radius :: "float_ops \<Rightarrow> float64 \<Rightarrow> float64" where
  "prime_radius m latitude =
     fdiv m WGS84_A (fsqrt m (fsub m ONE (fmul m (WGS84_E2 m) (fsquare m (fsin m latitude)))))"

fun latitude_loop :: "float_ops \<Rightarrow> nat \<Rightarrow> float64 \<Rightarrow> float64 \<Rightarrow> float64 \<Rightarrow> float64 option" where
  "latitude_loop m 0 z p latitude = None"
| "latitude_loop m (Suc k) z p latitude =
     (let n = prime_radius m latitude;
          following = fatan2 m (fadd m z (fmul m (fmul m (WGS84_E2 m) n) (fsin m latitude))) p;
          change = fabs (fsub m following latitude)
      in if fle change CONVERGENCE_RAD then Some following else latitude_loop m k z p following)"

definition settled ::
  "float_ops \<Rightarrow> float64 \<Rightarrow> float64 \<Rightarrow> float64 \<Rightarrow> float64 \<Rightarrow> float64 \<Rightarrow> bool \<Rightarrow> hla_exception + geodetic_result" where
  "settled m lat_d lon_d height lat_r lon_r at_pole =
     (if \<not> (isfinite lat_d \<and> isfinite lon_d \<and> isfinite height) then
        Inl (geodesy_error ''E_GEODESY'' ''the geodetic result is not finite'')
      else if flt F90 (fabs lat_d) \<and> flt LATITUDE_ROUNDOFF_DEG (fsub m (fabs lat_d) F90) then
        Inl (geodesy_error ''E_GEODESY'' ''the geodetic latitude lies beyond a pole by more than roundoff'')
      else
        Inr \<lparr>latitude_deg = (if flt F90 (fabs lat_d) then (if flt FZERO lat_d then F90 else MINUS_F90) else lat_d),
             longitude_deg = (if feq lon_d F180 then MINUS_F180 else lon_d), height_m = height,
             latitude_rad = lat_r, longitude_rad = lon_r, pole = at_pole\<rparr>)"

definition geodetic :: "float_ops \<Rightarrow> nat \<Rightarrow> float64 \<Rightarrow> float64 \<Rightarrow> float64 \<Rightarrow> hla_exception + geodetic_result" where
  "geodetic m max_iterations x y z =
     (if max_iterations < 1 then Inl (ValueError ''max_iterations must be a positive int'')
      else
        (let p = fhypot m [x, y] in
         if flt p POLE_AXIS_M then
           settled m (if flt FZERO z then F90 else MINUS_F90) FZERO (fsub m (fabs z) (WGS84_B m))
             (if flt FZERO z then fdiv m PI TWO else fdiv m (fneg PI) TWO) FZERO True
         else
           (let lon_r = fatan2 m y x;
                first = fatan2 m z (fmul m p (fsub m ONE (WGS84_E2 m))) in
            case latitude_loop m max_iterations z p first of
              None \<Rightarrow> Inl (geodesy_error ''E_GEODESY''
                ''the geodetic latitude did not converge within the allowed iterations'')
            | Some latitude \<Rightarrow>
                (let n = prime_radius m latitude;
                     height = (if fle HALF (fabs (fcos m latitude))
                       then fsub m (fdiv m p (fcos m latitude)) n
                       else fsub m (fdiv m z (fsin m latitude)) (fmul m n (fsub m ONE (WGS84_E2 m))))
                 in settled m (fdegrees m latitude) (fdegrees m lon_r) height latitude lon_r False))))"

definition positive_zero :: "float64 \<Rightarrow> float64" where
  "positive_zero v = (if feq v FZERO then FZERO else v)"

definition emitted_position :: "float_ops \<Rightarrow> float64 \<Rightarrow> float64 \<Rightarrow> float64 \<Rightarrow> geo_position" where
  "emitted_position m lat_d lon_d height =
     (let la = fround m lat_d ANGLE_PLACES;
          lo = fround m lon_d ANGLE_PLACES;
          lo = (if feq lo F180 then MINUS_F180 else lo);
          al = fround m height LENGTH_PLACES
      in \<lparr>lat = positive_zero la, lon = positive_zero lo, alt_m = positive_zero al\<rparr>)"

definition enu :: "float_ops \<Rightarrow> float64 \<Rightarrow> float64 \<Rightarrow> float64 \<Rightarrow> float64 \<Rightarrow> float64 \<Rightarrow> float64 \<times> float64 \<times> float64" where
  "enu m lat_r lon_r vx vy vz =
     (let east = fadd m (fmul m (fneg (fsin m lon_r)) vx) (fmul m (fcos m lon_r) vy);
          north = fadd m
            (fsub m (fmul m (fmul m (fneg (fsin m lat_r)) (fcos m lon_r)) vx)
               (fmul m (fmul m (fsin m lat_r) (fsin m lon_r)) vy))
            (fmul m (fcos m lat_r) vz);
          up = fadd m
            (fadd m (fmul m (fmul m (fcos m lat_r) (fcos m lon_r)) vx)
               (fmul m (fmul m (fcos m lat_r) (fsin m lon_r)) vy))
            (fmul m (fsin m lat_r) vz)
      in (east, north, up))"

definition emitted_kinematics :: "float_ops \<Rightarrow> float64 \<Rightarrow> float64 \<Rightarrow> float64 \<Rightarrow> hla_exception + kinematics" where
  "emitted_kinematics m east north up =
     (if \<not> (isfinite east \<and> isfinite north \<and> isfinite up) then
        Inl (geodesy_error ''E_GEODESY'' ''the projected velocity is not finite'')
      else
        (let speed = fhypot m [east, north];
             course =
               (if flt SPEED_THRESHOLD_MPS speed then
                  (let c = fround m (fmod m (fadd m (fdegrees m (fatan2 m east north)) F360) F360) ANGLE_PLACES;
                       c = (if feq c F360 then FZERO else c)
                   in Some (positive_zero c))
                else None)
         in Inr \<lparr>speed_mps = positive_zero (fround m speed LENGTH_PLACES), course_deg = course,
                 climb_mps = positive_zero (fround m up LENGTH_PLACES)\<rparr>))"

text \<open>
  Unpacking a position or a velocity that does not hold three numbers would be Python's
  \<open>ValueError\<close> or \<open>TypeError\<close>; a decoded value never gets there.
\<close>

definition project_spatial :: "float_ops \<Rightarrow> nat \<Rightarrow> spatial \<Rightarrow> hla_exception + projection" where
  "project_spatial m max_iterations s =
     (case position_ecef_m s of
        [x, y, z] \<Rightarrow>
          rbind (check_ecef m x y z) (\<lambda>_.
          rbind (geodetic m max_iterations x y z) (\<lambda>geo.
          let position = emitted_position m (latitude_deg geo) (longitude_deg geo) (height_m geo) in
          if pole geo \<or> sp_algorithm s \<notin> set WORLD_VELOCITY_ALGORITHMS
          then Inr \<lparr>geo_position = position, motion = None\<rparr>
          else case velocity_mps s of
            Some [vx, vy, vz] \<Rightarrow>
              (let (east, north, up) = enu m (latitude_rad geo) (longitude_rad geo) vx vy vz in
               rbind (emitted_kinematics m east north up) (\<lambda>k.
               Inr \<lparr>geo_position = position, motion = Some k\<rparr>))
          | _ \<Rightarrow> Inl (ValueError ''velocity_mps does not hold three numbers'')))
      | _ \<Rightarrow> Inl (ValueError ''position_ecef_m does not hold three numbers''))"

end
