(* ===== verification/Hla_Projector.thy ===== *)
theory Hla_Projector
  imports Hla_Geodesy Hla_Capture "HOL-Library.Char_ord"
begin

text \<open>
  The projector, \<^verbatim>\<open>packages/hla/src/synapse_hla/projector.py\<close>: one object's snapshot to a CDM
  Entity, or every reason why it is not one. Digests, the name-based UUID, the JSON Schemas and the
  CDM model are parameters; the profile's own checks of the Entity are the code's.
\<close>

section \<open>Snapshots and contexts\<close>

datatype slot_status = ABSENT | VALID | INVALID
datatype lifecycle = ACTIVE | QUARANTINED
datatype projection_status = ELIGIBLE | SUPPRESSED

record Slot =
  slot_status :: slot_status
  slot_value :: "decoded option"
  slot_hex :: "bytes option"
  slot_seq :: "nat option"
  slot_elapsed :: "nat option"
  slot_effective :: "pytext option"

definition ABSENT_SLOT :: Slot where
  "ABSENT_SLOT = \<lparr>slot_status = ABSENT, slot_value = None, slot_hex = None, slot_seq = None,
     slot_elapsed = None, slot_effective = None\<rparr>"

text \<open>The place of a name in \<open>NAMES\<close>, and an object's slots, one for each name.\<close>

definition name_index :: "pytext \<Rightarrow> nat" where
  "name_index name = length (takeWhile (\<lambda>n. n \<noteq> name) NAMES)"

record snapshot =
  sn_name :: pytext
  sn_class :: pytext
  sn_lifecycle :: lifecycle
  sn_identity :: "identity_triple option"
  sn_incarnation :: "nat option"
  sn_attributes :: "(pytext, Slot) dict"
  sn_changed :: "pytext list"
  sn_status :: projection_status
  sn_reasons :: "string list"
  sn_revision :: nat

datatype given_config = Unvalidated session_config | Validated ValidatedConfig

record projection_context =
  cx_config :: given_config
  cx_generation :: nat
  cx_token :: token
  cx_identity :: "identity_triple option"
  cx_incarnation :: "nat option"
  cx_seq :: nat
  cx_sha256 :: digest
  cx_complete :: "bool option"

section \<open>The Entity\<close>

record cdm_position =
  cp_geo :: geo_position
  position_source :: string
  accuracy_m :: "float64 option"
  vertical :: "float64 option"

record provenance =
  hb_profile :: string
  hb_session_id :: pytext
  hb_generation :: nat
  hb_token :: token
  hb_class :: pytext
  hb_name :: pytext
  hb_identifier :: entity_identifier
  hb_entity_type :: entity_type
  hb_force :: "nat option"
  hb_spatial :: spatial
  hb_sequences :: "(pytext, nat option) dict"
  hb_hashes :: "(pytext, digest option) dict"
  hb_time_kind :: string
  hb_basis :: pytext
  hb_effective_at :: pytext
  hb_spatial_seq :: "nat option"
  hb_verification :: string
  hb_complete :: "bool option"

record cdm_source =
  so_system :: pytext
  so_adapter :: pytext
  so_adapter_version :: string
  so_synthetic :: bool
  so_format_name :: string
  so_format_version :: string
  so_original_id :: pytext
  so_hash_algorithm :: string
  so_hash :: digest
  so_record_index :: nat
  so_observed_at :: "pytext option"
  so_transformations :: "string list"

record cdm_entity =
  en_schema_version :: string
  en_object_kind :: string
  en_entity_id :: pytext
  en_entity_type :: string
  en_affiliation :: string
  en_symbol :: "pytext option"
  en_position :: cdm_position
  en_kinematics :: "kinematics option"
  en_hla :: provenance
  en_ontology_types :: "pytext list"
  en_valid_from :: pytext
  en_valid_to :: "pytext option"
  en_confidence :: "float64 option"
  en_source :: cdm_source
  en_source_ids :: "(pytext \<times> pytext) list"   \<comment> \<open>system and external id\<close>
  en_integrity :: "pytext option"
  en_quality :: "pytext option"
  en_status :: "pytext option"
  en_residual :: "pytext option"

text \<open>
  \<open>snapshot_schema\<close> and \<open>provenance_schema\<close> give the first schema error; \<open>entity_problem\<close> is
  what the canonical form, the packaged CDM schema or the CDM model (pydantic, \<open>cdm/models.py\<close>)
  refuses of an Entity, the three checks \<open>_check_entity\<close> and \<open>_constructed\<close> make in turn taken as one.
\<close>

record projector_env =
  pj_math :: float_ops
  pj_uuid5 :: "pytext \<Rightarrow> pytext"
  pj_sha256 :: "bytes \<Rightarrow> digest"
  snapshot_schema :: "snapshot \<Rightarrow> string option"
  provenance_schema :: "provenance \<Rightarrow> string option"
  entity_problem :: "cdm_entity \<Rightarrow> string option"
  config_schema :: "session_config \<Rightarrow> (pointer_tokens \<times> pytext) option"
  config_order :: "session_config \<Rightarrow> pointer_tokens \<Rightarrow> nat list"

section \<open>Vocabulary\<close>

definition PROFILE :: string where "PROFILE = ''SC-HLA-RPR2-OBS-1''"
definition CDM_SCHEMA_VERSION :: string where "CDM_SCHEMA_VERSION = ''3.0.0''"
definition OBJECT_KIND :: string where "OBJECT_KIND = ''entity''"
definition ADAPTER_VERSION :: string where "ADAPTER_VERSION = ''1.0.0''"
definition FORMAT_NAME :: string where "FORMAT_NAME = ''HLA RPR FOM''"
definition FORMAT_VERSION :: string where
  "FORMAT_VERSION = ''IEEE 1516-2010 / RPR FOM 2.0 / SC-HLA-RPR2-OBS-1''"
definition POSITION_SOURCE :: string where "POSITION_SOURCE = ''ESTIMATED''"
definition HASH_ALGORITHM :: string where "HASH_ALGORITHM = ''sha256''"
definition TIME_KIND :: string where "TIME_KIND = ''external_elapsed''"
definition ENTITY_TYPE_BY_KIND :: "(nat, string) dict" where
  "ENTITY_TYPE_BY_KIND = [(1, ''PLATFORM''), (9, ''SENSOR'')]"
definition EXTERNAL_TIME_CONTEXT :: string where "EXTERNAL_TIME_CONTEXT = ''external-time-context''"
definition ECEF_TO_WGS84 :: string where "ECEF_TO_WGS84 = ''ecef-to-wgs84''"
definition ECEF_VELOCITY_TO_ENU :: string where "ECEF_VELOCITY_TO_ENU = ''ecef-velocity-to-enu''"

definition REASONS :: "string list" where
  "REASONS = [''MISSING_ENTITY_IDENTIFIER'', ''MISSING_ENTITY_TYPE'', ''MISSING_SPATIAL'',
     ''INVALID_ENTITY_IDENTIFIER'', ''INVALID_ENTITY_TYPE'', ''INVALID_SPATIAL'',
     ''INVALID_FORCE_IDENTIFIER'', ''NULL_ID'', ''QUARANTINED'', ''TIME_UNRESOLVED'',
     ''GEOGRAPHY_UNPROJECTABLE'']"

definition REQUIRED :: "(pytext \<times> string \<times> string) list" where
  "REQUIRED = [(ENTITY_IDENTIFIER, ''MISSING_ENTITY_IDENTIFIER'', ''INVALID_ENTITY_IDENTIFIER''),
     (ENTITY_TYPE, ''MISSING_ENTITY_TYPE'', ''INVALID_ENTITY_TYPE''),
     (SPATIAL, ''MISSING_SPATIAL'', ''INVALID_SPATIAL'')]"

definition GEOGRAPHY_CODES :: "string list" where
  "GEOGRAPHY_CODES = [''E_ECEF_RANGE'', ''E_GEODESY'']"

definition TOKEN_MAX_CHARS :: nat where "TOKEN_MAX_CHARS = 16"
definition EPOCH_POINTER :: pytext where "EPOCH_POINTER = asc ''/time_policy/epoch''"

record Suppression =
  su_reasons :: "string list"
  su_geography_code :: "string option"

definition suppression :: "string list \<Rightarrow> string option \<Rightarrow> hla_exception + Suppression" where
  "suppression reasons code =
     (if reasons = [] \<or> reasons \<noteq> sort (remdups reasons)
        then Inl (ValueError ''suppression reasons are non-empty, sorted and unique'')
      else if \<not> list_all (\<lambda>r. r \<in> set REASONS) reasons
        then Inl (ValueError ''a suppression reason outside the SPEC:285 vocabulary'')
      else if \<not> (if ''GEOGRAPHY_UNPROJECTABLE'' \<in> set reasons
                 then \<exists>c\<in>set GEOGRAPHY_CODES. code = Some c else code = None)
        then Inl (ValueError ''geography_code names section 9's code exactly when GEOGRAPHY_UNPROJECTABLE is a reason'')
      else Inr \<lparr>su_reasons = reasons, su_geography_code = code\<rparr>)"

datatype projected = Projected cdm_entity | Suppressed Suppression

section \<open>The arguments\<close>

text \<open>
  Copying the arguments refuses what JSON cannot carry: a lone surrogate, an integer beyond
  $2^{53} - 1$, a number that is not finite. A snapshot nests far less deep than the bound.
\<close>

datatype json_leaf = LText pytext | LWhole nat | LReal float64

definition leaf_problem :: "json_leaf \<Rightarrow> string option" where
  "leaf_problem l = (case l of
       LText t \<Rightarrow> if has_surrogate t then Some ''a string holds a lone surrogate'' else None
     | LWhole n \<Rightarrow> if MAX_EXACT_INTEGER < n then Some ''an integer lies beyond 2^53 - 1'' else None
     | LReal f \<Rightarrow> if \<not> isfinite f then Some ''a number is not finite'' else None)"

definition copied :: "json_leaf list \<Rightarrow> hla_exception + unit" where
  "copied ls = (case find (\<lambda>l. leaf_problem l \<noteq> None) ls of
       None \<Rightarrow> Inr () | Some l \<Rightarrow> Inl (ValueError (the (leaf_problem l))))"

definition optional :: "('a \<Rightarrow> 'b list) \<Rightarrow> 'a option \<Rightarrow> 'b list" where
  "optional f x = (case x of None \<Rightarrow> [] | Some v \<Rightarrow> f v)"

definition triple_leaves :: "identity_triple \<Rightarrow> json_leaf list" where
  "triple_leaves t = (case t of (a, b, c) \<Rightarrow> [LWhole a, LWhole b, LWhole c])"

definition decoded_leaves :: "decoded \<Rightarrow> json_leaf list" where
  "decoded_leaves d = (case d of
       DEntityIdentifier i \<Rightarrow> [LWhole (site i), LWhole (application i), LWhole (entity i)]
     | DEntityType e \<Rightarrow> map LWhole [kind e, domain e, country e, category e, subcategory e,
         specific e, extra e]
     | DForceIdentifier f \<Rightarrow> [LWhole f]
     | DSpatial s \<Rightarrow> [LWhole (sp_algorithm s)] @ map LReal (position_ecef_m s @ orientation_rad s) @
         concat (map (optional (map LReal)) [velocity_mps s, acceleration_mps2 s, angular_velocity_radps s]))"

definition slot_leaves :: "Slot \<Rightarrow> json_leaf list" where
  "slot_leaves s = optional decoded_leaves (slot_value s) @ optional (\<lambda>n. [LWhole n]) (slot_seq s) @
     optional (\<lambda>t. [LText t]) (slot_effective s)"

definition snapshot_leaves :: "snapshot \<Rightarrow> json_leaf list" where
  "snapshot_leaves s =
     [LText (sn_name s), LText (sn_class s)] @ optional triple_leaves (sn_identity s) @
     optional (\<lambda>n. [LWhole n]) (sn_incarnation s) @
     concat (map (\<lambda>(n, x). LText n # slot_leaves x) (sn_attributes s)) @
     map LText (sn_changed s) @ map (LText \<circ> asc) (sn_reasons s) @ [LWhole (sn_revision s)]"

definition context_leaves :: "projection_context \<Rightarrow> json_leaf list" where
  "context_leaves c =
     [LWhole (cx_generation c)] @ optional triple_leaves (cx_identity c) @
     optional (\<lambda>n. [LWhole n]) (cx_incarnation c) @ [LWhole (cx_seq c)]"

definition token_text :: "token \<Rightarrow> pytext" where
  "token_text t = asc ''o'' @ dec (token_number t)"

definition token_form :: "token \<Rightarrow> bool" where
  "token_form t \<longleftrightarrow> 1 \<le> token_number t \<and> length (token_text t) \<le> TOKEN_MAX_CHARS"

definition is_counter :: "nat \<Rightarrow> bool" where
  "is_counter n \<longleftrightarrow> 1 \<le> n \<and> n \<le> MAX_EXACT_INTEGER"

text \<open>A digest is held as its octets: its 64 hexadecimal digits are 32 of them.\<close>

definition check_context :: "projection_context \<Rightarrow> hla_exception + unit" where
  "check_context c =
     (if \<not> is_counter (cx_generation c)
        then Inl (ValueError ''the context's generation is an int from 1 to 2^53 - 1'')
      else if \<not> token_form (cx_token c)
        then Inl (ValueError ''the context's object_token is 'o' and a positive decimal, at most 16 characters'')
      else
        rbind (case cx_identity c of None \<Rightarrow> Inr () | Some t \<Rightarrow> rbind (identifier_fields t) (\<lambda>_. Inr ())) (\<lambda>_.
        if (case cx_incarnation c of None \<Rightarrow> False | Some n \<Rightarrow> \<not> is_counter n)
          then Inl (ValueError ''the context's incarnation is an int from 1 to 2^53 - 1, or null'')
        else if \<not> is_counter (cx_seq c)
          then Inl (ValueError ''the context's seq is an int from 1 to 2^53 - 1'')
        else if length (cx_sha256 c) \<noteq> 32
          then Inl (ValueError ''the context's sha256 is 64 lowercase hexadecimal digits'')
        else Inr ()))"

definition session_of :: "projector_env \<Rightarrow> given_config \<Rightarrow> hla_exception + session_config" where
  "session_of env given =
     (case given of
        Validated v \<Rightarrow> Inr (document v)
      | Unvalidated d \<Rightarrow> validate_config (config_schema env) (config_order env) d)"

text \<open>A \<open>ValueError\<close> of the time functions.\<close>

definition timed :: "time_error + 'a \<Rightarrow> hla_exception + 'a" where
  "timed r = (case r of Inl _ \<Rightarrow> Inl (ValueError ''not a UTC instant of the profile'') | Inr x \<Rightarrow> Inr x)"

definition expected_time :: "int option \<Rightarrow> nat \<Rightarrow> hla_exception + pytext option" where
  "expected_time ep elapsed =
     (case ep of None \<Rightarrow> Inr None
      | Some e \<Rightarrow>
          (let effective = e + int (elapsed div 1000) in
           if MAX_MICROSECOND < effective
           then Inl (HlaError ''E_CONFIG'' EPOCH_POINTER
             (asc ''the external effective time passes 9998-12-31T23:59:59.999999Z''))
           else rbind (timed (format_microsecond effective)) (\<lambda>t. Inr (Some t))))"

definition checked_attribute ::
  "pytext \<Rightarrow> Slot \<Rightarrow> int option \<Rightarrow> nat \<Rightarrow> hla_exception + decoded option" where
  "checked_attribute name s ep trigger_seq =
     (if slot_status s = ABSENT then
        (if s \<noteq> ABSENT_SLOT then Inl (ValueError ''the ABSENT attribute carries a value, source or time'')
         else Inr None)
      else case (slot_hex s, slot_seq s, slot_elapsed s) of
        (Some raw, Some from_seq, Some elapsed) \<Rightarrow>
          (if (slot_value s = None) \<noteq> (slot_status s = INVALID)
             then Inl (ValueError ''the attribute has a value exactly when it is VALID'')
           else if trigger_seq < from_seq
             then Inl (ValueError ''the attribute comes from a frame after the triggering frame'')
           else
             rbind (expected_time ep elapsed) (\<lambda>expected.
             if slot_effective s \<noteq> expected
               then Inl (ValueError ''the effective_at is not the configured epoch plus its elapsed time'')
             else if slot_status s = INVALID then Inr None
             else case decode_attribute name raw of
               Inl (Refusal _) \<Rightarrow> Inl (ValueError ''the VALID attribute does not decode from its hex'')
             | Inl other \<Rightarrow> Inl other
             | Inr v \<Rightarrow>
                 if Some v \<noteq> slot_value s
                 then Inl (ValueError ''the VALID attribute is not the value its hex decodes to, bit for bit'')
                 else Inr (Some v)))
      | _ \<Rightarrow> Inl (ValueError ''the attribute lacks its hex, seq or elapsed_ns''))"

definition check_names :: "snapshot \<Rightarrow> hla_exception + unit" where
  "check_names s =
     (if object_name_utf8_bytes V1 < utf8_length (sn_name s)
        then Inl (ValueError ''the object name is longer than its limit in UTF-8 bytes'')
      else if class_name_utf8_bytes V1 < utf8_length (sn_class s)
        then Inl (ValueError ''the reported class name is longer than its limit in UTF-8 bytes'')
      else Inr ())"

definition check_identity :: "snapshot \<Rightarrow> projection_context \<Rightarrow> hla_exception + unit" where
  "check_identity s c =
     (if sn_identity s \<noteq> cx_identity c \<or> sn_incarnation s \<noteq> cx_incarnation c
        then Inl (ValueError ''the snapshot's identity and incarnation are not the context's'')
      else if (sn_identity s = None) \<noteq> (sn_incarnation s = None)
        then Inl (ValueError ''an identity and its incarnation are both set or both null'')
      else case sn_identity s of None \<Rightarrow> Inr ()
        | Some t \<Rightarrow> rbind (identifier_fields t) (\<lambda>_. Inr ()))"

section \<open>Eligibility\<close>

definition decoded_identifier :: "(pytext, decoded) dict \<Rightarrow> entity_identifier option" where
  "decoded_identifier d = (case map_of d ENTITY_IDENTIFIER of Some (DEntityIdentifier i) \<Rightarrow> Some i | _ \<Rightarrow> None)"

definition decoded_type :: "(pytext, decoded) dict \<Rightarrow> entity_type option" where
  "decoded_type d = (case map_of d ENTITY_TYPE of Some (DEntityType e) \<Rightarrow> Some e | _ \<Rightarrow> None)"

definition decoded_force :: "(pytext, decoded) dict \<Rightarrow> nat option" where
  "decoded_force d = (case map_of d FORCE_IDENTIFIER of Some (DForceIdentifier f) \<Rightarrow> Some f | _ \<Rightarrow> None)"

definition decoded_spatial :: "(pytext, decoded) dict \<Rightarrow> spatial option" where
  "decoded_spatial d = (case map_of d SPATIAL of Some (DSpatial s) \<Rightarrow> Some s | _ \<Rightarrow> None)"

definition slot_at :: "(pytext, Slot) dict \<Rightarrow> pytext \<Rightarrow> Slot" where
  "slot_at attributes name = the (map_of attributes name)"

definition triple_of :: "entity_identifier \<Rightarrow> identity_triple" where
  "triple_of i = (site i, application i, entity i)"

definition state_reasons ::
  "(pytext, Slot) dict \<Rightarrow> (pytext, decoded) dict \<Rightarrow> lifecycle \<Rightarrow> bool \<Rightarrow> string list" where
  "state_reasons attributes decoded life time_unresolved =
     concat (map (\<lambda>(name, missing, invalid).
       case slot_status (slot_at attributes name) of
         ABSENT \<Rightarrow> [missing] | INVALID \<Rightarrow> [invalid] | VALID \<Rightarrow> []) REQUIRED) @
     (if slot_status (slot_at attributes FORCE_IDENTIFIER) = INVALID
      then [''INVALID_FORCE_IDENTIFIER''] else []) @
     (if map_option triple_of (decoded_identifier decoded) = Some (0, 0, 0) then [''NULL_ID''] else []) @
     (if life = QUARANTINED then [''QUARANTINED''] else []) @
     (if time_unresolved then [''TIME_UNRESOLVED''] else [])"

definition assess ::
  "projector_env \<Rightarrow> (pytext, Slot) dict \<Rightarrow> (pytext, decoded) dict \<Rightarrow> lifecycle \<Rightarrow> bool \<Rightarrow>
   hla_exception + string list \<times> string option \<times> projection option" where
  "assess env attributes decoded life time_unresolved =
     (let reasons = state_reasons attributes decoded life time_unresolved in
      case decoded_spatial decoded of
        None \<Rightarrow> Inr (sort (remdups reasons), None, None)
      | Some s \<Rightarrow>
          (case project_spatial (pj_math env) MAX_ITERATIONS s of
             Inr p \<Rightarrow> Inr (sort (remdups reasons), None, Some p)
           | Inl (Refusal e) \<Rightarrow>
               if e_code e \<notin> set GEOGRAPHY_CODES then Inl (Refusal e)
               else Inr (sort (remdups (reasons @ [''GEOGRAPHY_UNPROJECTABLE''])), Some (e_code e), None)
           | Inl other \<Rightarrow> Inl other))"

section \<open>The payload\<close>

text \<open>Python's \<open>d.get(k, default)\<close>.\<close>

definition dget :: "('k, 'v) dict \<Rightarrow> 'k \<Rightarrow> 'v \<Rightarrow> 'v" where
  "dget d k v = (case map_of d k of None \<Rightarrow> v | Some x \<Rightarrow> x)"

definition raw_hash :: "projector_env \<Rightarrow> Slot \<Rightarrow> digest option" where
  "raw_hash env s = (if slot_status s = ABSENT then None else Some (pj_sha256 env (the (slot_hex s))))"

definition original_id :: "pytext \<Rightarrow> nat \<Rightarrow> token \<Rightarrow> nat \<Rightarrow> pytext" where
  "original_id sid generation token seq =
     sid @ asc ''/'' @ dec generation @ asc ''/'' @ token_text token @ asc ''/'' @ dec seq"

definition payload_entity ::
  "projector_env \<Rightarrow> snapshot \<Rightarrow> projection_context \<Rightarrow> session_config \<Rightarrow> projection \<Rightarrow>
   entity_identifier \<Rightarrow> entity_type \<Rightarrow> nat option \<Rightarrow> spatial \<Rightarrow> pytext \<Rightarrow> pytext \<Rightarrow> pytext \<Rightarrow> pytext \<Rightarrow>
   pytext \<Rightarrow> cdm_entity" where
  "payload_entity env snap c doc projection identifier etype force sp time_basis external effective_at eid valid_from =
     (let attributes = sn_attributes snap;
         transformations = [EXTERNAL_TIME_CONTEXT, ECEF_TO_WGS84] @
           (if motion projection \<noteq> None then [ECEF_VELOCITY_TO_ENU] else []);
         hla = \<lparr>hb_profile = PROFILE, hb_session_id = session_id doc,
           hb_generation = cx_generation c, hb_token = cx_token c, hb_class = sn_class snap,
           hb_name = sn_name snap, hb_identifier = identifier, hb_entity_type = etype,
           hb_force = force, hb_spatial = sp,
           hb_sequences = map (\<lambda>n. (n, slot_seq (slot_at attributes n))) NAMES,
           hb_hashes = map (\<lambda>n. (n, raw_hash env (slot_at attributes n))) NAMES,
           hb_time_kind = TIME_KIND, hb_basis = time_basis, hb_effective_at = effective_at,
           hb_spatial_seq = slot_seq (slot_at attributes SPATIAL),
           hb_verification = profile_declaration doc, hb_complete = cx_complete c\<rparr>
      in \<lparr>en_schema_version = CDM_SCHEMA_VERSION, en_object_kind = OBJECT_KIND,
          en_entity_id = eid,
          en_entity_type = dget ENTITY_TYPE_BY_KIND (kind etype) ''UNKNOWN'',
          en_affiliation = (case force of None \<Rightarrow> ''UNKNOWN''
            | Some f \<Rightarrow> dget (force_map doc) (dec f) ''UNKNOWN''),
          en_symbol = None,
          en_position = \<lparr>cp_geo = geo_position projection, position_source = POSITION_SOURCE,
            accuracy_m = None, vertical = None\<rparr>,
          en_kinematics = motion projection, en_hla = hla, en_ontology_types = [],
          en_valid_from = valid_from, en_valid_to = None, en_confidence = None,
          en_source = \<lparr>so_system = source_system doc, so_adapter = SYSTEM,
            so_adapter_version = ADAPTER_VERSION, so_synthetic = synthetic doc,
            so_format_name = FORMAT_NAME, so_format_version = FORMAT_VERSION,
            so_original_id = original_id (session_id doc) (cx_generation c) (cx_token c) (cx_seq c),
            so_hash_algorithm = HASH_ALGORITHM, so_hash = cx_sha256 c,
            so_record_index = cx_seq c - 1, so_observed_at = None,
            so_transformations = transformations\<rparr>,
          en_source_ids = [(SYSTEM, external)], en_integrity = None, en_quality = None,
          en_status = None, en_residual = None\<rparr>)"

definition payload ::
  "projector_env \<Rightarrow> snapshot \<Rightarrow> (pytext, decoded) dict \<Rightarrow> projection_context \<Rightarrow> session_config \<Rightarrow>
   projection \<Rightarrow> int \<Rightarrow> hla_exception + cdm_entity" where
  "payload env snap decoded c doc projection spatial_effective =
     (case (cx_identity c, cx_incarnation c, decoded_identifier decoded, decoded_type decoded,
            decoded_spatial decoded, time_policy doc) of
        (Some identity, Some incarnation, Some identifier, Some etype, Some sp, ExternalElapsed _ time_basis) \<Rightarrow>
          rbind (external_id (session_id doc) (cx_generation c) identity incarnation) (\<lambda>external.
          rbind (timed (format_microsecond spatial_effective)) (\<lambda>effective_at.
          rbind (entity_id (pj_uuid5 env) external) (\<lambda>eid.
          rbind (timed (format_millisecond spatial_effective)) (\<lambda>valid_from.
          Inr (payload_entity env snap c doc projection identifier etype (decoded_force decoded) sp
            time_basis external effective_at eid valid_from)))))
      | _ \<Rightarrow> Inl (ValueError ''the payload of a state that is not eligible''))"

section \<open>The checks of an Entity\<close>

text \<open>
  The projector checks the document it built as plain JSON before it constructs the model. The
  checks that its objects have exactly their members (\<open>ENTITY_MEMBERS\<close>, \<open>SOURCE_MEMBERS\<close>,
  \<open>POSITION_MEMBERS\<close>, \<open>KINEMATICS_MEMBERS\<close>, \<open>attributes\<close> holding \<open>hla\<close> alone), that the position is
  there and that its \<open>alt_m\<close> is not null hold by the types here: \<open>cdm_entity\<close> has these members and
  no others, and its altitude is a number. Every other assertion is an entry of \<open>assertions\<close>, in the
  order of the source.
\<close>

definition identity_agrees :: "projector_env \<Rightarrow> cdm_entity \<Rightarrow> bool" where
  "identity_agrees env e =
     (case en_source_ids e of
        [(system, external)] \<Rightarrow>
          system = SYSTEM \<and>
          (case parts external of
             Inl _ \<Rightarrow> False
           | Inr (sid, generation, a, b, c, incarnation) \<Rightarrow>
               sid = hb_session_id (en_hla e) \<and> generation = hb_generation (en_hla e) \<and>
               (a, b, c) = triple_of (hb_identifier (en_hla e)) \<and>
               entity_id (pj_uuid5 env) external = Inr (en_entity_id e))
      | _ \<Rightarrow> False)"

definition dict_at :: "(pytext, 'v option) dict \<Rightarrow> pytext \<Rightarrow> 'v option" where
  "dict_at d name = the (map_of d name)"

definition assertions ::
  "projector_env \<Rightarrow> cdm_entity \<Rightarrow> int \<Rightarrow> int \<Rightarrow> (bool \<times> string) list" where
  "assertions env e valid_from effective =
     (let hla = en_hla e; source = en_source e; position = en_position e; kin = en_kinematics e;
          sp = hb_spatial hla; sequences = hb_sequences hla; hashes = hb_hashes hla;
          seq = so_record_index source + 1;
          base = [EXTERNAL_TIME_CONTEXT, ECEF_TO_WGS84] in
      [(en_schema_version e = CDM_SCHEMA_VERSION, ''schema_version is 3.0.0''),
       (en_object_kind e = OBJECT_KIND, ''object_kind is entity''),
       (en_symbol e = None, ''symbol is null''),
       (en_confidence e = None, ''confidence is null''),
       (en_quality e = None, ''quality is null''),
       (en_status e = None, ''status is null''),
       (en_residual e = None, ''residual is null''),
       (en_integrity e = None, ''integrity is null''),
       (en_valid_to e = None, ''valid_to is null''),
       (en_ontology_types e = [], ''ontology_types is empty''),
       (valid_from = effective - effective mod 1000,
          ''valid_from is the Spatial effective time cut to milliseconds''),
       (hb_time_kind hla = TIME_KIND, ''the time kind is external_elapsed''),
       (hb_spatial_seq hla = dict_at sequences SPATIAL, ''the time block names Spatial's seq''),
       (position_source position = POSITION_SOURCE \<and> accuracy_m position = None \<and>
          vertical position = None, ''position is ESTIMATED HAE with no accuracy or vertical''),
       (en_entity_type e = dget ENTITY_TYPE_BY_KIND (kind (hb_entity_type hla)) ''UNKNOWN'',
          ''entity_type follows EntityType.kind''),
       ((sp_frame sp = WORLD) = (sp_algorithm sp \<le> 5), ''the Spatial frame is its algorithm's''),
       (kin = None \<or> sp_algorithm sp \<in> set WORLD_VELOCITY_ALGORITHMS,
          ''only a WORLD velocity gives kinematics''),
       (so_transformations source = (if kin = None then base else base @ [ECEF_VELOCITY_TO_ENU]),
          ''the transformations are SPEC:134's, with the ENU step exactly when there is motion''),
       ((so_adapter source, so_adapter_version source, so_format_name source, so_format_version source)
          = (SYSTEM, ADAPTER_VERSION, FORMAT_NAME, FORMAT_VERSION),
          ''the adapter and format are R27's''),
       (so_observed_at source = None, ''observed_at is null''),
       (so_hash_algorithm source = HASH_ALGORITHM \<and> length (so_hash source) = 32,
          ''source_hash is the frame's SHA-256''),
       (so_original_id source =
          original_id (hb_session_id hla) (hb_generation hla) (hb_token hla) seq,
          ''original_id is session/generation/token/seq with record_index seq - 1''),
       (list_all (\<lambda>(n, s). case s of None \<Rightarrow> True | Some k \<Rightarrow> k \<le> seq) sequences,
          ''no attribute comes from a frame after the triggering frame''),
       (list_all (\<lambda>n. (dict_at sequences n = None) = (dict_at hashes n = None)) NAMES \<and>
        list_all (\<lambda>n. dict_at sequences n \<noteq> None) [ENTITY_IDENTIFIER, ENTITY_TYPE, SPATIAL],
          ''the three required attributes have a seq and a hash, an absent force has neither''),
       ((hb_force hla = None) = (dict_at sequences FORCE_IDENTIFIER = None),
          ''the force identifier is null exactly when ForceIdentifier is absent''),
       (triple_of (hb_identifier hla) \<noteq> (0, 0, 0), ''the identifier is not the null identifier''),
       (identity_agrees env e,
          ''source_ids is the one hla-rpr2 SourceId of R26 and entity_id is its UUID'')])"

definition check_entity :: "projector_env \<Rightarrow> bool \<Rightarrow> cdm_entity \<Rightarrow> hla_exception + unit" where
  "check_entity env with_provenance e =
     (case entity_problem env e of
        Some p \<Rightarrow> Inl (Defect p)
      | None \<Rightarrow>
          (case if with_provenance then provenance_schema env (en_hla e) else None of
             Some p \<Rightarrow> Inl (Defect p)
           | None \<Rightarrow>
               (case (parse_millisecond (en_valid_from e), parse_microsecond (hb_effective_at (en_hla e))) of
                  (Inr valid_from, Inr effective) \<Rightarrow>
                    (case find (\<lambda>a. \<not> fst a) (assertions env e valid_from effective) of
                       None \<Rightarrow> Inr () | Some a \<Rightarrow> Inl (Defect (snd a)))
                | _ \<Rightarrow> Inl (Defect ''an Entity timestamp is not a real UTC instant of the profile's form and range''))))"

definition constructed :: "projector_env \<Rightarrow> cdm_entity \<Rightarrow> hla_exception + cdm_entity" where
  "constructed env e = (case entity_problem env e of Some p \<Rightarrow> Inl (Defect p) | None \<Rightarrow> Inr e)"

section \<open>The projection\<close>

text \<open>The loop over \<open>NAMES\<close> that decodes every VALID slot afresh.\<close>

definition decoded_attributes ::
  "(pytext, Slot) dict \<Rightarrow> int option \<Rightarrow> nat \<Rightarrow> hla_exception + (pytext, decoded) dict" where
  "decoded_attributes attributes ep trigger_seq =
     rfold (\<lambda>decoded name.
       rbind (checked_attribute name (slot_at attributes name) ep trigger_seq) (\<lambda>v.
         Inr (case v of None \<Rightarrow> decoded | Some x \<Rightarrow> AList.update name x decoded))) [] NAMES"

definition verdict ::
  "projector_env \<Rightarrow> bool \<Rightarrow> snapshot \<Rightarrow> projection_context \<Rightarrow> session_config \<Rightarrow> int option \<Rightarrow>
   (pytext, decoded) dict \<Rightarrow> string list \<times> string option \<times> projection option \<Rightarrow> hla_exception + projected" where
  "verdict env from_reducer snap c doc ep decoded assessed =
     (let (reasons, geography_code, projection) = assessed in
      if reasons \<noteq> [] then
        rbind (suppression reasons geography_code) (\<lambda>s. Inr (Suppressed s))
      else if cx_identity c = None \<or> cx_identity c \<noteq> map_option triple_of (decoded_identifier decoded) then
        Inl (ValueError ''an eligible state's identity must be its VALID EntityIdentifier'')
      else
        (let spatial_effective =
           the ep + int (the (slot_elapsed (slot_at (sn_attributes snap) SPATIAL)) div 1000) in
         rbind (payload env snap decoded c doc (the projection) spatial_effective) (\<lambda>e.
         rbind (check_entity env (\<not> from_reducer) e) (\<lambda>_.
         rbind (constructed env e) (\<lambda>e.
         Inr (Projected e))))))"

definition project ::
  "projector_env \<Rightarrow> bool \<Rightarrow> snapshot \<Rightarrow> projection_context \<Rightarrow> hla_exception + projected" where
  "project env from_reducer snap c =
     rbind (copied (snapshot_leaves snap)) (\<lambda>_.
     rbind (copied (context_leaves c)) (\<lambda>_.
     rbind (check_context c) (\<lambda>_.
     rbind (session_of env (cx_config c)) (\<lambda>doc.
     rbind (if from_reducer then Inr () else
              case snapshot_schema env snap of Some p \<Rightarrow> Inl (ValueError p) | None \<Rightarrow> Inr ()) (\<lambda>_.
     rbind (timed (epoch_microsecond doc)) (\<lambda>ep.
     rbind (decoded_attributes (sn_attributes snap) ep (cx_seq c)) (\<lambda>decoded.
     rbind (check_names snap) (\<lambda>_.
     rbind (check_identity snap c) (\<lambda>_.
     rbind (assess env (sn_attributes snap) decoded (sn_lifecycle snap) (ep = None)) (\<lambda>assessed.
     verdict env from_reducer snap c doc ep decoded assessed))))))))))"

definition project_state :: "projector_env \<Rightarrow> snapshot \<Rightarrow> projection_context \<Rightarrow> hla_exception + projected" where
  "project_state env snap c = project env False snap c"

definition project_from_reducer :: "projector_env \<Rightarrow> snapshot \<Rightarrow> projection_context \<Rightarrow> hla_exception + projected" where
  "project_from_reducer env snap c = project env True snap c"

end
