(* ===== verification/Hla_Geodesy_Correct.thy ===== *)
theory Hla_Geodesy_Correct
  imports Hla_Geodesy Hla_Codec_Correct
begin

text \<open>
  What a decoded Spatial value is, and what the projection makes of it: its normal form, its
  range and its two refusals, whatever the floating-point functions return.
\<close>

section \<open>Decoded Spatial values\<close>

definition spatial_floats :: "spatial \<Rightarrow> float64 list" where
  "spatial_floats s = position_ecef_m s @ orientation_rad s @
     concat (map (\<lambda>t. case t of None \<Rightarrow> [] | Some v \<Rightarrow> v)
       [velocity_mps s, acceleration_mps2 s, angular_velocity_radps s])"

lemma variant_frames:
  assumes "map_of VARIANTS a = Some v"
  shows "sv_algorithm v = a" and "sv_frame v = WORLD \<longleftrightarrow> a \<le> 5"
    and "a \<in> set WORLD_VELOCITY_ALGORITHMS \<Longrightarrow> velocity_at v = Some 48"
proof -
  have "list_all (\<lambda>(a, v). sv_algorithm v = a \<and> (sv_frame v = WORLD \<longleftrightarrow> a \<le> 5) \<and>
      (a \<in> set WORLD_VELOCITY_ALGORITHMS \<longrightarrow> velocity_at v = Some 48)) VARIANTS"
    by (simp add: VARIANTS_def WORLD_VELOCITY_ALGORITHMS_def)
  with map_of_SomeD [OF assms] show "sv_algorithm v = a" "sv_frame v = WORLD \<longleftrightarrow> a \<le> 5"
    "a \<in> set WORLD_VELOCITY_ALGORITHMS \<Longrightarrow> velocity_at v = Some 48"
    by (auto simp: list_all_iff)
qed

lemma spatial_value_world:
  assumes "spatial_value val = Inr s"
  shows "sp_frame s = WORLD \<longleftrightarrow> sp_algorithm s \<le> 5"
    and "sp_algorithm s \<in> set WORLD_VELOCITY_ALGORITHMS \<Longrightarrow> \<exists>x y z. velocity_mps s = Some [x, y, z]"
    and "\<exists>x y z. position_ecef_m s = [x, y, z]" and "sp_algorithm s \<le> 9"
proof -
  from assms obtain v where v: "well_laid_out v val" and s: "s = spatial_of v val"
    by (rule spatial_value_Inr)
  from v have a: "map_of VARIANTS (unat (val ! 0)) = Some v" by (simp add: well_laid_out_def)
  show "sp_frame s = WORLD \<longleftrightarrow> sp_algorithm s \<le> 5"
    using variant_frames(2) [OF a] by (simp add: s spatial_of_def Let_def)
  show "\<exists>x y z. velocity_mps s = Some [x, y, z]" if "sp_algorithm s \<in> set WORLD_VELOCITY_ALGORITHMS"
    using variant_frames(3) [OF a] that by (simp add: s spatial_of_def Let_def)
  show "\<exists>x y z. position_ecef_m s = [x, y, z]" by (simp add: s spatial_of_def Let_def)
  show "sp_algorithm s \<le> 9" using variant_layout(2) [OF a] by (simp add: s spatial_of_def Let_def)
qed

lemma spatial_value_finite:
  assumes "spatial_value val = Inr s"
  shows "list_all isfinite (spatial_floats s)"
proof -
  from assms obtain v where s: "s = spatial_of v val"
    and f: "find (\<lambda>(r, a). \<not> isfinite (unpack_float r val a)) (float_fields v) = None"
    by (rule spatial_value_Inr)
  from f have "list_all (\<lambda>(r, a). isfinite (unpack_float r val a)) (float_fields v)"
    by (simp add: find_None_all)
  then show ?thesis
    by (cases "velocity_at v"; cases "acceleration_at v"; cases "angular_velocity_at v")
      (simp_all add: s spatial_of_def spatial_floats_def float_fields_offsets triple_offsets_def
        POSITION_OFFSETS_def ORIENTATION_OFFSETS_def Let_def)
qed

section \<open>Refusals\<close>

definition geodesy_refusal :: "hla_exception \<Rightarrow> bool" where
  "geodesy_refusal e \<longleftrightarrow>
     (\<exists>err. e = Refusal err \<and> e_code err \<in> {''E_ECEF_RANGE'', ''E_GEODESY''} \<and> e_path err = SPATIAL)"

lemma geodesy_refusalI:
  assumes "c \<in> {''E_ECEF_RANGE'', ''E_GEODESY''}" "showable (asc m)"
  shows "geodesy_refusal (geodesy_error c m)"
  using assms unfolding geodesy_error_def
  by (subst HlaError_showable) (auto simp: geodesy_refusal_def is_code_def CODES_def)

lemma check_ecef_refusal: "check_ecef m x y z = Inl e \<Longrightarrow> geodesy_refusal e"
  by (auto simp: check_ecef_def split: if_splits intro!: geodesy_refusalI)
    (simp_all add: showable_def literal_checks)

lemma settled_refusal: "settled m a b c d e f = Inl x \<Longrightarrow> geodesy_refusal x"
  by (auto simp: settled_def split: if_splits intro!: geodesy_refusalI)
    (simp_all add: showable_def literal_checks)

lemma geodetic_refusal: "0 < k \<Longrightarrow> geodetic m k x y z = Inl e \<Longrightarrow> geodesy_refusal e"
proof -
  assume k: "0 < k" and e: "geodetic m k x y z = Inl e"
  have "showable (asc ''the geodetic latitude did not converge within the allowed iterations'')"
    by (simp add: showable_def literal_checks)
  then have "geodesy_refusal
      (geodesy_error ''E_GEODESY'' ''the geodetic latitude did not converge within the allowed iterations'')"
    by (intro geodesy_refusalI) simp_all
  with k e show ?thesis
    by (auto simp only: geodetic_def Let_def split: if_splits option.splits intro: settled_refusal)
qed

lemma emitted_kinematics_refusal: "emitted_kinematics m x y z = Inl e \<Longrightarrow> geodesy_refusal e"
  by (auto simp: emitted_kinematics_def Let_def split: if_splits intro!: geodesy_refusalI)
    (simp_all add: showable_def literal_checks)

lemma project_spatial_refusal:
  assumes s: "spatial_value val = Inr s" and k: "0 < k" and e: "project_spatial m k s = Inl e"
  shows "geodesy_refusal e"
proof -
  obtain x y z where p: "position_ecef_m s = [x, y, z]" using spatial_value_world(3) [OF s] by blast
  show ?thesis
  proof (cases "sp_algorithm s \<in> set WORLD_VELOCITY_ALGORITHMS")
    case True
    then obtain a b c where "velocity_mps s = Some [a, b, c]" using spatial_value_world(2) [OF s] by blast
    with e p True k show ?thesis
      by (auto simp: project_spatial_def rbind_eq_Inl_iff Let_def split_def split: if_splits
          intro: check_ecef_refusal geodetic_refusal emitted_kinematics_refusal)
  next
    case False
    with e p k show ?thesis
      by (auto simp: project_spatial_def rbind_eq_Inl_iff Let_def intro: check_ecef_refusal geodetic_refusal)
  qed
qed

section \<open>The projection's normal form\<close>

lemma fkey_zero [simp]: "fkey FZERO = 0" "\<not> fnan FZERO"
  by (simp_all add: fkey_def fmagnitude_def fnegative_def FZERO_def fnan_def float_exponent_def)

lemma positive_zero_normal: "feq (positive_zero v) FZERO \<Longrightarrow> positive_zero v = FZERO"
  by (auto simp: positive_zero_def split: if_splits)

text \<open>The numbers an Entity takes over.\<close>

definition emitted_numbers :: "projection \<Rightarrow> float64 list" where
  "emitted_numbers p =
     [lat (geo_position p), lon (geo_position p), alt_m (geo_position p)] @
     (case motion p of None \<Rightarrow> [] | Some k \<Rightarrow> [speed_mps k, climb_mps k] @
        (case course_deg k of None \<Rightarrow> [] | Some c \<Rightarrow> [c]))"

lemma F_distinct: "\<not> feq MINUS_F180 F180" "\<not> feq FZERO F180" "\<not> feq FZERO F360"
  by (simp_all add: feq_def fkey_def fmagnitude_def fnegative_def FZERO_def F180_def MINUS_F180_def
      F360_def fnan_def float_exponent_def)

lemma project_spatial_Inr:
  assumes "project_spatial m k s = Inr p"
  obtains x y z geo where "geodetic m k x y z = Inr geo"
    and "geo_position p = emitted_position m (latitude_deg geo) (longitude_deg geo) (height_m geo)"
    and "motion p = None \<or> sp_algorithm s \<in> set WORLD_VELOCITY_ALGORITHMS \<and> \<not> pole geo \<and>
      (\<exists>e n u. emitted_kinematics m e n u = Inr (the (motion p)))"
  using assms unfolding project_spatial_def Let_def
  by (auto simp: rbind_eq_Inr_iff split: list.splits if_splits option.splits prod.splits) blast

lemma fabs_finite: "isfinite w \<Longrightarrow> \<not> fnan (fabs w)"
proof -
  have "unat (fabs w) = unat w mod 2 ^ 63"
    by (simp add: fabs_def fmagnitude_def unat_of_nat mod_mod_cancel)
  moreover have "unat w mod 2 ^ 63 div 2 ^ 52 mod 2 ^ 11 = unat w div 2 ^ 52 mod 2 ^ 11"
    using mod_mult2_eq [of "unat w" "2 ^ 52" "2 ^ 11"] by simp
  ultimately show "isfinite w \<Longrightarrow> ?thesis" by (simp add: fnan_def isfinite_def float_exponent_def)
qed

lemma F90_facts: "\<not> fnan F90" "fabs F90 = F90" "fabs MINUS_F90 = F90"
  by (simp_all add: F90_def MINUS_F90_def fnan_def float_exponent_def fabs_def fmagnitude_def)

lemma settled_range:
  "settled m a b c d e f = Inr g \<Longrightarrow> fle (fabs (latitude_deg g)) F90 \<and> \<not> feq (longitude_deg g) F180"
  using fabs_finite [of a] F_distinct(1)
  by (auto simp: settled_def F90_facts fle_def flt_def split: if_splits)

lemma geodetic_range:
  "geodetic m k x y z = Inr g \<Longrightarrow> fle (fabs (latitude_deg g)) F90 \<and> \<not> feq (longitude_deg g) F180"
  by (auto simp: geodetic_def Let_def split: if_splits option.splits dest: settled_range)

lemma emitted_kinematics_normal:
  assumes "emitted_kinematics m e n u = Inr k"
  shows "(feq (speed_mps k) FZERO \<longrightarrow> speed_mps k = FZERO) \<and> (feq (climb_mps k) FZERO \<longrightarrow> climb_mps k = FZERO) \<and>
    (\<forall>c. course_deg k = Some c \<longrightarrow> (feq c FZERO \<longrightarrow> c = FZERO) \<and> \<not> feq c F360)"
  using assms positive_zero_normal F_distinct(3)
  by (auto simp: emitted_kinematics_def Let_def positive_zero_def split: if_splits)

text \<open>
  C17. What is emitted is in normal form, whatever the floating-point functions return: no zero is
  negative, the longitude is never $+180$, the course never 360, the latitude before rounding lies
  within 90 degrees of the equator, and there is motion only for the WORLD velocities.
\<close>

theorem projection_normal_form:
  assumes "project_spatial m k s = Inr p"
  shows "(\<forall>v\<in>set (emitted_numbers p). feq v FZERO \<longrightarrow> v = FZERO) \<and>
    \<not> feq (lon (geo_position p)) F180 \<and>
    (\<forall>x. motion p = Some x \<longrightarrow>
       sp_algorithm s \<in> {2, 3, 4, 5} \<and> (\<forall>c. course_deg x = Some c \<longrightarrow> \<not> feq c F360)) \<and>
    (\<exists>d. lat (geo_position p) = positive_zero (fround m d ANGLE_PLACES) \<and> fle (fabs d) F90)"
proof -
  obtain x y z geo where g: "geodetic m k x y z = Inr geo"
    and p: "geo_position p = emitted_position m (latitude_deg geo) (longitude_deg geo) (height_m geo)"
    and mo: "motion p = None \<or> sp_algorithm s \<in> set WORLD_VELOCITY_ALGORITHMS \<and> \<not> pole geo \<and>
      (\<exists>e n u. emitted_kinematics m e n u = Inr (the (motion p)))"
    using project_spatial_Inr [OF assms] .
  have lon: "\<not> feq (lon (geo_position p)) F180"
    using F_distinct by (simp add: p emitted_position_def Let_def positive_zero_def)
  have la: "\<exists>d. lat (geo_position p) = positive_zero (fround m d ANGLE_PLACES) \<and> fle (fabs d) F90"
    using geodetic_range [OF g] by (auto simp: p emitted_position_def Let_def)
  have pos: "\<forall>v\<in>{lat (geo_position p), lon (geo_position p), alt_m (geo_position p)}. feq v FZERO \<longrightarrow> v = FZERO"
    using positive_zero_normal by (auto simp: p emitted_position_def Let_def)
  show ?thesis
  proof (cases "motion p")
    case None
    with pos lon la show ?thesis by (simp add: emitted_numbers_def)
  next
    case (Some x)
    with mo obtain e n u where "emitted_kinematics m e n u = Inr x"
      and "sp_algorithm s \<in> set WORLD_VELOCITY_ALGORITHMS" by auto
    with emitted_kinematics_normal [of m e n u x] pos lon la Some show ?thesis
      by (auto simp: emitted_numbers_def WORLD_VELOCITY_ALGORITHMS_def split: option.splits)
  qed
qed

text \<open>
  A value the decoder accepted is projected or refused with one of the two geographic codes at
  the path \<open>Spatial\<close>: nothing else escapes, whatever the floating-point functions return.
\<close>

theorem projection_refusals:
  assumes "decode_attribute SPATIAL raw = Inr (DSpatial s)"
    and "project_spatial m MAX_ITERATIONS s = Inl e"
  shows "\<exists>err. e = Refusal err \<and> e_code err \<in> {''E_ECEF_RANGE'', ''E_GEODESY''} \<and> e_path err = SPATIAL"
proof -
  have "spatial_value raw = Inr s" using assms(1) by (auto elim: decode_Inr_cases)
  from project_spatial_refusal [OF this _ assms(2)]
  show ?thesis by (simp add: MAX_ITERATIONS_def geodesy_refusal_def)
qed

section \<open>The ranges of what is emitted\<close>

definition within :: "float64 \<Rightarrow> float64 \<Rightarrow> float64 \<Rightarrow> bool" where
  "within low high v \<longleftrightarrow> fle low v \<and> fle v high"

text \<open>A number that was unpacked from four octets.\<close>

definition single :: "float64 \<Rightarrow> bool" where
  "single v \<longleftrightarrow> (\<exists>w. v = widen w) \<and> isfinite v"

text \<open>
  What is relied on of Python's arithmetic: rounding to decimal places keeps the intervals whose
  bounds are whole numbers, the sign and finiteness; the angle of an \<open>atan2\<close> is at most half a turn;
  a remainder by 360 lies in one turn; a norm is not negative; and the horizontal speed of three
  binary32 numbers, rotated, is a finite binary64 number.
\<close>

definition math_ranges :: "float_ops \<Rightarrow> bool" where
  "math_ranges m \<longleftrightarrow>
     (\<forall>v. within MINUS_F90 F90 v \<longrightarrow> within MINUS_F90 F90 (fround m v ANGLE_PLACES)) \<and>
     (\<forall>v. within MINUS_F180 F180 v \<longrightarrow> within MINUS_F180 F180 (fround m v ANGLE_PLACES)) \<and>
     (\<forall>v. within FZERO F360 v \<longrightarrow> within FZERO F360 (fround m v ANGLE_PLACES)) \<and>
     (\<forall>v. fle FZERO v \<longrightarrow> fle FZERO (fround m v LENGTH_PLACES)) \<and>
     (\<forall>v. isfinite v \<longrightarrow> isfinite (fround m v LENGTH_PLACES)) \<and>
     (\<forall>y x. isfinite y \<and> isfinite x \<longrightarrow> within MINUS_F180 F180 (fdegrees m (fatan2 m y x))) \<and>
     (\<forall>v. within MINUS_F180 F180 v \<longrightarrow> within FZERO F360 (fmod m (fadd m v F360) F360)) \<and>
     (\<forall>x y. isfinite x \<and> isfinite y \<longrightarrow> fle FZERO (fhypot m [x, y])) \<and>
     (\<forall>la lo vx vy vz. single vx \<and> single vy \<and> single vz \<longrightarrow>
        (case enu m la lo vx vy vz of (east, north, up) \<Rightarrow>
           isfinite east \<and> isfinite north \<longrightarrow> isfinite (fhypot m [east, north])))"

lemma math_rangesD:
  assumes "math_ranges m"
  shows "within MINUS_F90 F90 v \<Longrightarrow> within MINUS_F90 F90 (fround m v ANGLE_PLACES)"
    and "within MINUS_F180 F180 v \<Longrightarrow> within MINUS_F180 F180 (fround m v ANGLE_PLACES)"
    and "within FZERO F360 v \<Longrightarrow> within FZERO F360 (fround m v ANGLE_PLACES)"
    and "fle FZERO v \<Longrightarrow> fle FZERO (fround m v LENGTH_PLACES)"
    and "isfinite v \<Longrightarrow> isfinite (fround m v LENGTH_PLACES)"
    and "isfinite y \<Longrightarrow> isfinite x \<Longrightarrow> within MINUS_F180 F180 (fdegrees m (fatan2 m y x))"
    and "within MINUS_F180 F180 v \<Longrightarrow> within FZERO F360 (fmod m (fadd m v F360) F360)"
    and "isfinite x \<Longrightarrow> isfinite y \<Longrightarrow> fle FZERO (fhypot m [x, y])"
  using assms unfolding math_ranges_def by blast+

lemma math_ranges_speed:
  assumes "math_ranges m" "enu m la lo vx vy vz = (east, north, up)" "list_all single [vx, vy, vz]"
    "isfinite east" "isfinite north"
  shows "isfinite (fhypot m [east, north])"
proof -
  have "\<forall>la lo vx vy vz. single vx \<and> single vy \<and> single vz \<longrightarrow>
      (case enu m la lo vx vy vz of (east, north, up) \<Rightarrow>
         isfinite east \<and> isfinite north \<longrightarrow> isfinite (fhypot m [east, north]))"
    using assms(1) unfolding math_ranges_def by (elim conjE)
  from this [rule_format, of vx vy vz la lo] assms(2-5) show ?thesis by simp
qed

definition position_in_range :: "geo_position \<Rightarrow> bool" where
  "position_in_range q \<longleftrightarrow> within MINUS_F90 F90 (lat q) \<and> within MINUS_F180 F180 (lon q) \<and> isfinite (alt_m q)"

definition motion_in_range :: "kinematics \<Rightarrow> bool" where
  "motion_in_range k \<longleftrightarrow> isfinite (speed_mps k) \<and> fle FZERO (speed_mps k) \<and> isfinite (climb_mps k) \<and>
     (\<forall>c. course_deg k = Some c \<longrightarrow> fle FZERO c \<and> flt c F360)"

lemma whole_bounds:
  "within MINUS_F90 F90 FZERO" "within MINUS_F90 F90 F90" "within MINUS_F90 F90 MINUS_F90"
  "within MINUS_F180 F180 FZERO" "within MINUS_F180 F180 MINUS_F180" "within FZERO F360 FZERO" "fle FZERO FZERO"
  "isfinite FZERO"
  by (simp_all add: within_def fle_def fnan_def fkey_def fnegative_def fmagnitude_def float_exponent_def
      FZERO_def F90_def MINUS_F90_def F180_def MINUS_F180_def F360_def isfinite_def)

lemma positive_zero_within: "within low high FZERO \<Longrightarrow> within low high v \<Longrightarrow> within low high (positive_zero v)"
  by (simp add: positive_zero_def)

lemma magnitude_finite:
  assumes "fmagnitude v < 2047 * 2 ^ 52"
  shows "isfinite v"
proof -
  have "unat v div 2 ^ 52 mod 2 ^ 11 = unat v mod 2 ^ 63 div 2 ^ 52"
    using mod_mult2_eq [of "unat v" "2 ^ 52" "2 ^ 11"] by simp
  moreover have "unat v mod 2 ^ 63 div 2 ^ 52 < 2047"
    using assms by (simp add: fmagnitude_def less_mult_imp_div_less)
  ultimately show ?thesis by (simp add: isfinite_def float_exponent_def)
qed

lemma within_finite:
  assumes "within low high v" "fmagnitude low < 2047 * 2 ^ 52" "fmagnitude high < 2047 * 2 ^ 52"
  shows "isfinite v"
proof -
  have "fkey low \<le> fkey v" "fkey v \<le> fkey high" using assms(1) by (simp_all add: within_def fle_def)
  then show ?thesis using assms(2,3) by (intro magnitude_finite) (auto simp: fkey_def split: if_splits)
qed

lemma within_degrees:
  "within MINUS_F90 F90 v \<Longrightarrow> isfinite v" "within MINUS_F180 F180 v \<Longrightarrow> isfinite v" "within FZERO F360 v \<Longrightarrow> isfinite v"
  by (rule within_finite, assumption,
      simp_all add: fmagnitude_def FZERO_def F90_def MINUS_F90_def F180_def MINUS_F180_def F360_def)+

lemma fabs_within:
  assumes "fle (fabs v) F90" "\<not> fnan v"
  shows "within MINUS_F90 F90 v"
proof -
  have "fmagnitude (fabs v) = fmagnitude v"
    by (simp add: fabs_def fmagnitude_def unat_of_nat mod_mod_cancel)
  moreover have "\<not> fnegative (fabs v)"
  proof -
    have "unat (fabs v) = unat v mod 2 ^ 63"
      by (simp add: fabs_def fmagnitude_def unat_of_nat mod_mod_cancel)
    moreover have "unat v mod 2 ^ 63 < 2 ^ 63" by (rule mod_less_divisor) simp
    ultimately show ?thesis by (simp add: fnegative_def not_le)
  qed
  ultimately have "fkey (fabs v) = int (fmagnitude v)" by (simp add: fkey_def)
  moreover have "fkey F90 = int (fmagnitude F90)" "fkey MINUS_F90 = - int (fmagnitude F90)" "\<not> fnan MINUS_F90" "\<not> fnan F90"
    by (simp_all add: fkey_def fnegative_def fmagnitude_def fnan_def float_exponent_def F90_def MINUS_F90_def)
  moreover have "\<bar>fkey v\<bar> = int (fmagnitude v)" by (simp add: fkey_def)
  ultimately show ?thesis using assms by (auto simp: within_def fle_def)
qed

lemma isfinite_not_nan: "isfinite v \<Longrightarrow> \<not> fnan v"
  by (simp add: isfinite_def fnan_def)

lemma settled_in_range:
  assumes "settled m a b h c d e = Inr g" "within MINUS_F180 F180 b"
  shows "within MINUS_F90 F90 (latitude_deg g)" "within MINUS_F180 F180 (longitude_deg g)" "isfinite (height_m g)"
proof -
  from assms(1) have "fle (fabs (latitude_deg g)) F90" by (simp add: settled_range)
  moreover from assms(1) have "\<not> fnan (latitude_deg g)"
    using isfinite_not_nan whole_bounds by (auto simp: settled_def within_def fle_def split: if_splits)
  ultimately show "within MINUS_F90 F90 (latitude_deg g)" by (rule fabs_within)
  show "within MINUS_F180 F180 (longitude_deg g)" "isfinite (height_m g)"
    using assms whole_bounds by (auto simp: settled_def split: if_splits)
qed

lemma geodetic_in_range:
  assumes "geodetic m k x y z = Inr g" "math_ranges m" "isfinite x" "isfinite y"
  shows "within MINUS_F90 F90 (latitude_deg g) \<and> within MINUS_F180 F180 (longitude_deg g) \<and> isfinite (height_m g)"
proof -
  from assms(1) obtain a b h c d e where g: "settled m a b h c d e = Inr g"
    and b: "b = FZERO \<or> b = fdegrees m (fatan2 m y x)"
    by (auto simp: geodetic_def Let_def split: if_splits option.splits)
  have "within MINUS_F180 F180 b" using b whole_bounds math_rangesD(6) [OF assms(2,4,3)] by auto
  with settled_in_range [OF g] show ?thesis by blast
qed

lemma emitted_position_in_range:
  assumes "math_ranges m" "within MINUS_F90 F90 a" "within MINUS_F180 F180 b" "isfinite h"
  shows "position_in_range (emitted_position m a b h)"
  using math_rangesD(1,2,5) [OF assms(1)] assms(2-4) whole_bounds
  by (auto simp: emitted_position_def Let_def position_in_range_def positive_zero_def)

lemma emitted_kinematics_in_range:
  assumes "emitted_kinematics m e n u = Inr k" "math_ranges m" "isfinite (fhypot m [e, n])"
  shows "motion_in_range k"
proof -
  from assms(1) have f: "isfinite e" "isfinite n" "isfinite u"
    by (auto simp: emitted_kinematics_def Let_def split: if_splits)
  have turn: "within FZERO F360 (fround m (fmod m (fadd m (fdegrees m (fatan2 m e n)) F360) F360) ANGLE_PLACES)"
    by (intro math_rangesD [OF assms(2)] f)
  have keep: "isfinite (positive_zero v)" if "isfinite v" for v using that whole_bounds by (simp add: positive_zero_def)
  have sign: "fle FZERO (positive_zero v)" if "fle FZERO v" for v using that whole_bounds by (simp add: positive_zero_def)
  have less: "flt c F360" if "within FZERO F360 c" "\<not> feq c F360" for c
    using that by (auto simp: within_def fle_def flt_def feq_def)
  have course: "fle FZERO c \<and> flt c F360" if "course_deg k = Some c" for c
  proof -
    let ?c = "fround m (fmod m (fadd m (fdegrees m (fatan2 m e n)) F360) F360) ANGLE_PLACES"
    from that assms(1) have c: "c = positive_zero (if feq ?c F360 then FZERO else ?c)"
      by (auto simp: emitted_kinematics_def Let_def split: if_splits)
    have "within FZERO F360 c" unfolding c using turn whole_bounds by (simp add: positive_zero_within)
    moreover have "\<not> feq c F360" unfolding c using F_distinct(3) by (simp add: positive_zero_def)
    ultimately show ?thesis using less by (simp add: within_def)
  qed
  from assms(1) have "speed_mps k = positive_zero (fround m (fhypot m [e, n]) LENGTH_PLACES)"
    "climb_mps k = positive_zero (fround m u LENGTH_PLACES)"
    by (auto simp: emitted_kinematics_def Let_def split: if_splits)
  then show ?thesis
    unfolding motion_in_range_def
    using course math_rangesD(4,5) [OF assms(2)] math_rangesD(8) [OF assms(2) f(1,2)] assms(3) f(3) keep sign by simp
qed

lemma spatial_value_single:
  assumes "spatial_value val = Inr s" "velocity_mps s = Some vs"
  shows "list_all single vs"
proof -
  from assms(1) obtain v where s: "s = spatial_of v val" by (rule spatial_value_Inr)
  have "list_all isfinite (spatial_floats s)" by (rule spatial_value_finite [OF assms(1)])
  then have "list_all isfinite vs" using assms(2) by (simp add: spatial_floats_def)
  moreover have "\<exists>w. x = widen w" if "x \<in> set vs" for x
    using assms(2) that by (auto simp: s spatial_of_def Let_def)
  ultimately show ?thesis by (simp add: list_all_iff single_def)
qed

text \<open>A projected value of the decoder lies in the ranges of a WGS84 position and of a motion.\<close>

theorem projection_in_range:
  assumes "math_ranges m" and "spatial_value val = Inr s" and "project_spatial m k s = Inr p"
  shows "position_in_range (geo_position p)" and "motion p = Some x \<Longrightarrow> motion_in_range x"
proof -
  obtain a b c where pos: "position_ecef_m s = [a, b, c]" using spatial_value_world(3) [OF assms(2)] by blast
  with assms(3) have fin: "isfinite a" "isfinite b"
    by (auto simp: project_spatial_def rbind_eq_Inr_iff check_ecef_def split: if_splits)
  from assms(3) pos obtain g where g: "geodetic m k a b c = Inr g"
    and q: "geo_position p = emitted_position m (latitude_deg g) (longitude_deg g) (height_m g)"
    and mo: "\<And>x. motion p = Some x \<Longrightarrow> \<exists>vx vy vz e n u. velocity_mps s = Some [vx, vy, vz] \<and>
      enu m (latitude_rad g) (longitude_rad g) vx vy vz = (e, n, u) \<and> emitted_kinematics m e n u = Inr x"
    by (auto simp: project_spatial_def rbind_eq_Inr_iff Let_def split: if_splits option.splits list.splits prod.splits)
  show "position_in_range (geo_position p)"
    unfolding q using geodetic_in_range [OF g assms(1) fin] by (intro emitted_position_in_range assms(1)) blast+
  assume "motion p = Some x"
  with mo obtain vx vy vz e n u where v: "velocity_mps s = Some [vx, vy, vz]"
    "enu m (latitude_rad g) (longitude_rad g) vx vy vz = (e, n, u)" "emitted_kinematics m e n u = Inr x" by blast
  from v(3) have "isfinite e" "isfinite n" by (auto simp: emitted_kinematics_def Let_def split: if_splits)
  from math_ranges_speed [OF assms(1) v(2) spatial_value_single [OF assms(2) v(1)] this]
  show "motion_in_range x" by (rule emitted_kinematics_in_range [OF v(3) assms(1)])
qed

section \<open>Witnesses\<close>

text \<open>
  Floating-point functions that are right on the polar axis: a norm of one number and zeros, and
  roundings of whole numbers.
\<close>

definition axis_ops :: float_ops where
  "axis_ops = \<lparr>fadd = (\<lambda>a b. a), fsub = (\<lambda>a b. FZERO), fmul = (\<lambda>a b. a), fdiv = (\<lambda>a b. a),
     fmod = (\<lambda>a b. FZERO), fsquare = (\<lambda>a. a), fsqrt = (\<lambda>a. a), fsin = (\<lambda>a. FZERO), fcos = (\<lambda>a. ONE),
     fatan2 = (\<lambda>a b. FZERO), fhypot = (\<lambda>xs. fabs (last xs)), fdegrees = (\<lambda>a. a), fround = (\<lambda>a n. a)\<rparr>"

definition axis_spatial :: "float64 \<Rightarrow> spatial" where
  "axis_spatial z = \<lparr>sp_algorithm = 1, sp_frame = WORLD, frozen = False, position_ecef_m = [0, 0, z],
     orientation_rad = [0, 0, 0], velocity_mps = None, acceleration_mps2 = None,
     angular_velocity_radps = None, padding_hex = replicate 10 0\<rparr>"

lemmas float_bits = isfinite_def float_exponent_def fle_def flt_def feq_def fnan_def fkey_def
  fnegative_def fmagnitude_def fabs_def FZERO_def F90_def MINUS_F90_def F180_def WGS84_A_def
  ECEF_NORM_MIN_M_def ECEF_NORM_MAX_M_def POLE_AXIS_M_def LATITUDE_ROUNDOFF_DEG_def

lemma axis_bits:
  "isfinite 0" "isfinite WGS84_A" "isfinite F90" "fabs WGS84_A = WGS84_A" "fabs 0 = 0" "fabs F90 = F90"
  "fle ECEF_NORM_MIN_M WGS84_A" "fle WGS84_A ECEF_NORM_MAX_M" "\<not> fle ECEF_NORM_MIN_M 0"
  "flt 0 POLE_AXIS_M" "flt FZERO WGS84_A" "\<not> flt F90 F90" "\<not> feq 0 F180" "feq 0 FZERO" "\<not> feq F90 FZERO"
  by (simp_all add: float_bits)

lemma axis_projected:
  "project_spatial axis_ops MAX_ITERATIONS (axis_spatial WGS84_A) =
     Inr \<lparr>geo_position = \<lparr>lat = F90, lon = FZERO, alt_m = FZERO\<rparr>, motion = None\<rparr>"
  using axis_bits
  by (simp add: project_spatial_def axis_spatial_def check_ecef_def geodetic_def settled_def axis_ops_def
      emitted_position_def positive_zero_def MAX_ITERATIONS_def FZERO_def)

lemma axis_decoded:
  "decode_attribute SPATIAL (1 # replicate 47 0) = Inr (DSpatial (axis_spatial 0))"
proof -
  have v: "well_laid_out (variant 1 WORLD 48 None None None) (1 # replicate 47 0)"
    by (simp add: well_laid_out_def VARIANTS_def)
  have "widen 0 = 0" by (simp add: widen_def float_of_parts_def)
  moreover have "be_value (replicate n 0) = 0" for n
    by (induction n) (simp_all add: be_value_def)
  ultimately have "spatial_value (1 # replicate 47 0) = Inr (axis_spatial 0)"
    unfolding spatial_value_laid_out [OF v] using axis_bits(1)
    by (simp add: float_fields_def POSITION_OFFSETS_def ORIENTATION_OFFSETS_def
        found_or_def spatial_of_def axis_spatial_def Let_def replicate_add [symmetric])
  then show ?thesis by (simp add: decode_spatial_short)
qed

lemma axis_ranges: "math_ranges axis_ops"
proof -
  have "unat (fabs v) = unat v mod 2 ^ 63" for v
    by (simp add: fabs_def fmagnitude_def unat_of_nat mod_mod_cancel)
  then have key: "fmagnitude (fabs v) = fmagnitude v" "\<not> fnegative (fabs v)" for v
    using mod_less_divisor [of "2 ^ 63" "unat v"] by (simp_all add: fmagnitude_def fnegative_def not_le)
  then have "fle FZERO (fabs v)" if "isfinite v" for v
    using fabs_finite [OF that] by (simp add: fle_def fkey_def [of "fabs v"])
  moreover have "isfinite (fabs v)" if "isfinite v" for v
  proof (rule magnitude_finite)
    have "unat v div 2 ^ 52 mod 2 ^ 11 = unat v mod 2 ^ 63 div 2 ^ 52"
      using mod_mult2_eq [of "unat v" "2 ^ 52" "2 ^ 11"] by simp
    then have "unat v mod 2 ^ 63 div 2 ^ 52 \<noteq> 2047" using that by (simp add: isfinite_def float_exponent_def)
    moreover have "unat v mod 2 ^ 63 div 2 ^ 52 < 2048"
      by (rule less_mult_imp_div_less) (use mod_less_divisor [of "2 ^ 63" "unat v"] in simp)
    ultimately have "unat v mod 2 ^ 63 div 2 ^ 52 < 2047" by linarith
    then show "fmagnitude (fabs v) < 2047 * 2 ^ 52"
      unfolding key(1) by (simp add: fmagnitude_def div_less_iff_less_mult)
  qed
  ultimately show ?thesis
    using whole_bounds by (simp add: math_ranges_def axis_ops_def enu_def Let_def)
qed

theorem projection_normal_form_witness:
  "\<exists>p. project_spatial axis_ops MAX_ITERATIONS (axis_spatial WGS84_A) = Inr p \<and>
     \<not> feq (lon (geo_position p)) F180"
  using axis_projected projection_normal_form [OF axis_projected] by blast

theorem projection_refusals_witness:
  "\<exists>err. project_spatial axis_ops MAX_ITERATIONS (axis_spatial 0) = Inl (Refusal err)"
proof -
  obtain e where e: "project_spatial axis_ops MAX_ITERATIONS (axis_spatial 0) = Inl e"
    using axis_bits by (simp add: project_spatial_def axis_spatial_def check_ecef_def axis_ops_def)
  with projection_refusals [OF axis_decoded e] show ?thesis by auto
qed

end
