(* ===== verification/Hla_Projector_Correct.thy ===== *)
theory Hla_Projector_Correct
  imports Hla_Projector Hla_Geodesy_Correct Hla_Time_Correct
begin

text \<open>
  What the projector promises: it decides eligibility exactly, the Entity it builds passes every
  check of its own, and it never raises on a state the reducer keeps.
\<close>

section \<open>Attribute slots\<close>

text \<open>A slot whose members agree with its status and with the octets it keeps.\<close>

definition sound_slot :: "pytext \<Rightarrow> int option \<Rightarrow> nat \<Rightarrow> Slot \<Rightarrow> bool" where
  "sound_slot name ep trigger s \<longleftrightarrow>
     s = ABSENT_SLOT \<or>
     (slot_status s \<noteq> ABSENT \<and>
      (\<exists>raw n el. slot_hex s = Some raw \<and> slot_seq s = Some n \<and> n \<le> trigger \<and>
        slot_elapsed s = Some el \<and> expected_time ep el = Inr (slot_effective s) \<and>
        (slot_status s = INVALID \<longrightarrow> slot_value s = None) \<and>
        (slot_status s = VALID \<longrightarrow> (\<exists>v. slot_value s = Some v \<and> decode_attribute name raw = Inr v))))"

lemma ABSENT_SLOT_simps [simp]:
  "slot_status ABSENT_SLOT = ABSENT" "slot_value ABSENT_SLOT = None" "slot_hex ABSENT_SLOT = None"
  "slot_seq ABSENT_SLOT = None" "slot_elapsed ABSENT_SLOT = None" "slot_effective ABSENT_SLOT = None"
  by (simp_all add: ABSENT_SLOT_def)

lemma sound_slot_ABSENT [simp]: "sound_slot name ep trigger ABSENT_SLOT"
  by (simp add: sound_slot_def)

lemma sound_slot_status: "sound_slot name ep trigger s \<Longrightarrow> slot_status s = ABSENT \<longleftrightarrow> s = ABSENT_SLOT"
  by (auto simp: sound_slot_def)

lemma sound_slot_value:
  "sound_slot name ep trigger s \<Longrightarrow> slot_value s = Some v \<longleftrightarrow>
     slot_status s = VALID \<and> (\<exists>raw. slot_hex s = Some raw \<and> decode_attribute name raw = Inr v)"
  by (auto simp: sound_slot_def; cases "slot_status s"; force)

lemma checked_attribute_Inr:
  "checked_attribute name s ep trigger = Inr v \<longleftrightarrow> sound_slot name ep trigger s \<and> v = slot_value s"
proof (cases "slot_status s = ABSENT")
  case True
  then show ?thesis by (auto simp: checked_attribute_def sound_slot_def)
next
  case False
  show ?thesis
  proof (cases "(slot_hex s, slot_seq s, slot_elapsed s)")
    case (fields h n e)
    then show ?thesis using False
      by (cases "slot_status s"; cases "slot_value s"; cases h; cases n; cases e)
        (auto simp: checked_attribute_def sound_slot_def rbind_eq_Inr_iff
          split: if_splits sum.splits hla_exception.splits)
  qed
qed

section \<open>The decoded attributes\<close>

lemma NAMES_simps:
  "NAMES = [ENTITY_IDENTIFIER, ENTITY_TYPE, FORCE_IDENTIFIER, SPATIAL]" "distinct NAMES"
  using names_distinct by (auto simp: NAMES_def)

lemma decoded_loop:
  assumes "distinct ns" "dkeys d0 \<inter> set ns = {}" "keys_distinct d0"
  shows "rfold (\<lambda>decoded name.
       rbind (checked_attribute name (slot_at attrs name) ep trigger) (\<lambda>v.
         Inr (case v of None \<Rightarrow> decoded | Some x \<Rightarrow> AList.update name x decoded))) d0 ns = Inr d \<Longrightarrow>
     (\<forall>n\<in>set ns. sound_slot n ep trigger (slot_at attrs n)) \<and>
     (\<forall>n. map_of d n = (if n \<in> set ns then slot_value (slot_at attrs n) else map_of d0 n))"
  using assms
proof (induction ns arbitrary: d0)
  case (Cons n ns)
  let ?s = "slot_at attrs n"
  define d1 where "d1 = (case slot_value ?s of None \<Rightarrow> d0 | Some x \<Rightarrow> AList.update n x d0)"
  have sound: "sound_slot n ep trigger ?s" and rest: "rfold (\<lambda>decoded name.
       rbind (checked_attribute name (slot_at attrs name) ep trigger) (\<lambda>v.
         Inr (case v of None \<Rightarrow> decoded | Some x \<Rightarrow> AList.update name x decoded))) d1 ns = Inr d"
    using Cons.prems(1) by (auto simp: rbind_eq_Inr_iff checked_attribute_Inr d1_def)
  have "dkeys d1 \<inter> set ns = {}" "keys_distinct d1" "map_of d1 n = slot_value ?s"
    and other: "\<And>k. k \<noteq> n \<Longrightarrow> map_of d1 k = map_of d0 k"
    using Cons.prems by (auto simp: d1_def in_dkeys_iff split: option.splits)
  with Cons.IH [OF rest] Cons.prems(2) sound show ?case by auto
qed simp

lemma decoded_attributes_Inr:
  assumes "decoded_attributes attrs ep trigger = Inr d"
  shows "\<And>n. n \<in> set NAMES \<Longrightarrow> sound_slot n ep trigger (slot_at attrs n)"
    and "\<And>n. n \<in> set NAMES \<Longrightarrow> map_of d n = slot_value (slot_at attrs n)"
  using decoded_loop [of NAMES "[]" attrs ep trigger d] assms NAMES_simps(2)
  by (auto simp: decoded_attributes_def)

lemma decoded_attributes_total:
  assumes "\<And>n. n \<in> set NAMES \<Longrightarrow> sound_slot n ep trigger (slot_at attrs n)"
  shows "\<exists>d. decoded_attributes attrs ep trigger = Inr d"
proof -
  have "set ns \<subseteq> set NAMES \<Longrightarrow> \<exists>d. rfold (\<lambda>decoded name.
       rbind (checked_attribute name (slot_at attrs name) ep trigger) (\<lambda>v.
         Inr (case v of None \<Rightarrow> decoded | Some x \<Rightarrow> AList.update name x decoded))) d0 ns = Inr d" for ns d0
  proof (induction ns arbitrary: d0)
    case (Cons n ns)
    then have "checked_attribute n (slot_at attrs n) ep trigger = Inr (slot_value (slot_at attrs n))"
      using assms by (simp add: checked_attribute_Inr)
    with Cons show ?case by simp
  qed simp
  from this [of NAMES "[]"] show ?thesis by (simp add: decoded_attributes_def)
qed

text \<open>Each name's decoded value has the constructor of its attribute.\<close>

lemma slot_value_shape:
  assumes "sound_slot n ep trigger s" "slot_value s = Some v"
  shows "n = ENTITY_IDENTIFIER \<Longrightarrow> \<exists>i. v = DEntityIdentifier i"
    and "n = ENTITY_TYPE \<Longrightarrow> \<exists>e. v = DEntityType e"
    and "n = FORCE_IDENTIFIER \<Longrightarrow> \<exists>f. v = DForceIdentifier f"
    and "n = SPATIAL \<Longrightarrow> \<exists>x. v = DSpatial x"
proof -
  obtain raw where r: "decode_attribute n raw = Inr v" using assms by (auto simp: sound_slot_value)
  show "\<exists>i. v = DEntityIdentifier i" if "n = ENTITY_IDENTIFIER"
    using r that names_distinct by (auto elim: decode_Inr_cases)
  show "\<exists>e. v = DEntityType e" if "n = ENTITY_TYPE" using r that names_distinct by (auto elim: decode_Inr_cases)
  show "\<exists>f. v = DForceIdentifier f" if "n = FORCE_IDENTIFIER" using r that names_distinct by (auto elim: decode_Inr_cases)
  show "\<exists>x. v = DSpatial x" if "n = SPATIAL" using r that names_distinct by (auto elim: decode_Inr_cases)
qed

text \<open>The typed readings of a slot.\<close>

definition the_identifier :: "Slot \<Rightarrow> entity_identifier option" where
  "the_identifier s = (case slot_value s of Some (DEntityIdentifier i) \<Rightarrow> Some i | _ \<Rightarrow> None)"

definition the_spatial :: "Slot \<Rightarrow> spatial option" where
  "the_spatial s = (case slot_value s of Some (DSpatial x) \<Rightarrow> Some x | _ \<Rightarrow> None)"

definition the_type :: "Slot \<Rightarrow> entity_type option" where
  "the_type s = (case slot_value s of Some (DEntityType e) \<Rightarrow> Some e | _ \<Rightarrow> None)"

definition the_force :: "Slot \<Rightarrow> nat option" where
  "the_force s = (case slot_value s of Some (DForceIdentifier f) \<Rightarrow> Some f | _ \<Rightarrow> None)"

lemma decoded_readings:
  assumes "decoded_attributes attrs ep trigger = Inr d"
  shows "decoded_identifier d = the_identifier (slot_at attrs ENTITY_IDENTIFIER)"
    "decoded_type d = the_type (slot_at attrs ENTITY_TYPE)"
    "decoded_force d = the_force (slot_at attrs FORCE_IDENTIFIER)"
    "decoded_spatial d = the_spatial (slot_at attrs SPATIAL)"
  using decoded_attributes_Inr(2) [OF assms]
  by (simp_all add: NAMES_def decoded_identifier_def decoded_type_def decoded_force_def
      decoded_spatial_def the_identifier_def the_type_def the_force_def the_spatial_def)

lemma valid_readings:
  assumes "sound_slot n ep trigger s"
  shows "n = ENTITY_IDENTIFIER \<Longrightarrow> slot_status s = VALID \<longleftrightarrow> the_identifier s \<noteq> None"
    and "n = ENTITY_TYPE \<Longrightarrow> slot_status s = VALID \<longleftrightarrow> the_type s \<noteq> None"
    and "n = FORCE_IDENTIFIER \<Longrightarrow> slot_status s = VALID \<longleftrightarrow> the_force s \<noteq> None"
    and "n = SPATIAL \<Longrightarrow> slot_status s = VALID \<longleftrightarrow> the_spatial s \<noteq> None"
proof -
  have v: "slot_status s = VALID \<longleftrightarrow> slot_value s \<noteq> None"
    using assms by (cases "slot_status s") (auto simp: sound_slot_def)
  note sh = slot_value_shape [OF assms]
  show "slot_status s = VALID \<longleftrightarrow> the_identifier s \<noteq> None" if "n = ENTITY_IDENTIFIER"
    using v sh(1) that by (cases "slot_value s") (fastforce simp: the_identifier_def)+
  show "slot_status s = VALID \<longleftrightarrow> the_type s \<noteq> None" if "n = ENTITY_TYPE"
    using v sh(2) that by (cases "slot_value s") (fastforce simp: the_type_def)+
  show "slot_status s = VALID \<longleftrightarrow> the_force s \<noteq> None" if "n = FORCE_IDENTIFIER"
    using v sh(3) that by (cases "slot_value s") (fastforce simp: the_force_def)+
  show "slot_status s = VALID \<longleftrightarrow> the_spatial s \<noteq> None" if "n = SPATIAL"
    using v sh(4) that by (cases "slot_value s") (fastforce simp: the_spatial_def)+
qed

lemma valid_spatial:
  assumes "sound_slot SPATIAL ep trigger s" "the_spatial s = Some x"
  shows "\<exists>raw. spatial_value raw = Inr x"
proof -
  have "slot_value s = Some (DSpatial x)"
    using assms(2) by (auto simp: the_spatial_def split: option.splits decoded.splits)
  then obtain raw where "decode_attribute SPATIAL raw = Inr (DSpatial x)"
    using assms(1) by (auto simp: sound_slot_value)
  then show ?thesis by (auto elim: decode_Inr_cases)
qed

section \<open>The Entity passes the projector's own checks\<close>

lemma find_assertion: "find (\<lambda>a. \<not> fst a) xs = None \<longleftrightarrow> list_all fst xs"
  by (auto simp: find_None_iff list_all_iff)

text \<open>What an eligible state gives \<open>payload\<close>.\<close>

definition payload_ready ::
  "projector_env \<Rightarrow> snapshot \<Rightarrow> (pytext, decoded) dict \<Rightarrow> projection_context \<Rightarrow> projection \<Rightarrow> bool" where
  "payload_ready env snap d c pr \<longleftrightarrow>
     (\<exists>ep. decoded_attributes (sn_attributes snap) ep (cx_seq c) = Inr d) \<and>
     1 \<le> cx_seq c \<and> length (cx_sha256 c) = 32 \<and>
     cx_identity c = map_option triple_of (decoded_identifier d) \<and> cx_identity c \<noteq> Some (0, 0, 0) \<and>
     (\<exists>x. decoded_spatial d = Some x \<and> project_spatial (pj_math env) MAX_ITERATIONS x = Inr pr)"

lemma slot_seq_le: "sound_slot n ep trigger s \<Longrightarrow> slot_seq s = Some k \<Longrightarrow> k \<le> trigger"
  by (auto simp: sound_slot_def)

lemma slot_seq_None: "sound_slot n ep trigger s \<Longrightarrow> slot_seq s = None \<longleftrightarrow> slot_status s = ABSENT"
  by (auto simp: sound_slot_def)

lemma payload_sequences:
  assumes "\<And>n. n \<in> set NAMES \<Longrightarrow> sound_slot n ep trigger (slot_at attrs n)"
    and seqs: "q = map (\<lambda>n. (n, slot_seq (slot_at attrs n))) NAMES"
    and hashes: "h = map (\<lambda>n. (n, raw_hash env (slot_at attrs n))) NAMES"
  shows "list_all (\<lambda>(n, s). case s of None \<Rightarrow> True | Some k \<Rightarrow> k \<le> trigger) q"
    and "list_all (\<lambda>n. (dict_at q n = None) = (dict_at h n = None)) NAMES"
    and "n \<in> set NAMES \<Longrightarrow> dict_at q n = slot_seq (slot_at attrs n)"
proof -
  have at: "dict_at (map (\<lambda>n. (n, f n)) NAMES) n = f n" if "n \<in> set NAMES" for n and f :: "pytext \<Rightarrow> 'x option"
    using that by (simp add: dict_at_def map_of_map_restrict)
  show "list_all (\<lambda>(n, s). case s of None \<Rightarrow> True | Some k \<Rightarrow> k \<le> trigger) q"
    using assms(1) by (auto simp: seqs list_all_iff split: option.split dest: slot_seq_le)
  show "list_all (\<lambda>n. (dict_at q n = None) = (dict_at h n = None)) NAMES"
    using slot_seq_None [OF assms(1)] by (auto simp: list_all_iff seqs hashes at raw_hash_def)
  show "n \<in> set NAMES \<Longrightarrow> dict_at q n = slot_seq (slot_at attrs n)"
    by (simp add: seqs at)
qed

lemma payload_Inr:
  assumes "payload env snap d c doc pr eff = Inr e"
  obtains id inc i et x ep b ext at eid vf where
    "cx_identity c = Some id" "cx_incarnation c = Some inc" "decoded_identifier d = Some i"
    "decoded_type d = Some et" "decoded_spatial d = Some x" "time_policy doc = ExternalElapsed ep b"
    "external_id (session_id doc) (cx_generation c) id inc = Inr ext"
    "format_microsecond eff = Inr at" "entity_id (pj_uuid5 env) ext = Inr eid"
    "format_millisecond eff = Inr vf"
    "e = payload_entity env snap c doc pr i et (decoded_force d) x b ext at eid vf"
  using assms
  by (auto simp: payload_def rbind_eq_Inr_iff timed_def
      split: option.splits time_policy.splits sum.splits)

lemma payload_entity_sel:
  fixes env snap c doc pr i et force x b ext at eid vf
  defines "e \<equiv> payload_entity env snap c doc pr i et force x b ext at eid vf"
  shows "en_schema_version e = CDM_SCHEMA_VERSION" "en_object_kind e = OBJECT_KIND"
    "en_entity_id e = eid" "en_entity_type e = dget ENTITY_TYPE_BY_KIND (kind et) ''UNKNOWN''"
    "en_symbol e = None" "en_kinematics e = motion pr" "en_ontology_types e = []" "en_valid_from e = vf"
    "en_valid_to e = None" "en_confidence e = None" "en_source_ids e = [(SYSTEM, ext)]"
    "en_integrity e = None" "en_quality e = None" "en_status e = None" "en_residual e = None"
    "position_source (en_position e) = POSITION_SOURCE" "accuracy_m (en_position e) = None"
    "vertical (en_position e) = None"
    "hb_session_id (en_hla e) = session_id doc" "hb_generation (en_hla e) = cx_generation c"
    "hb_token (en_hla e) = cx_token c" "hb_identifier (en_hla e) = i" "hb_entity_type (en_hla e) = et"
    "hb_force (en_hla e) = force" "hb_spatial (en_hla e) = x"
    "hb_sequences (en_hla e) = map (\<lambda>n. (n, slot_seq (slot_at (sn_attributes snap) n))) NAMES"
    "hb_hashes (en_hla e) = map (\<lambda>n. (n, raw_hash env (slot_at (sn_attributes snap) n))) NAMES"
    "hb_time_kind (en_hla e) = TIME_KIND" "hb_effective_at (en_hla e) = at"
    "hb_spatial_seq (en_hla e) = slot_seq (slot_at (sn_attributes snap) SPATIAL)"
    "so_adapter (en_source e) = SYSTEM" "so_adapter_version (en_source e) = ADAPTER_VERSION"
    "so_format_name (en_source e) = FORMAT_NAME" "so_format_version (en_source e) = FORMAT_VERSION"
    "so_original_id (en_source e) = original_id (session_id doc) (cx_generation c) (cx_token c) (cx_seq c)"
    "so_hash_algorithm (en_source e) = HASH_ALGORITHM" "so_hash (en_source e) = cx_sha256 c"
    "so_record_index (en_source e) = cx_seq c - 1" "so_observed_at (en_source e) = None"
    "so_transformations (en_source e) = [EXTERNAL_TIME_CONTEXT, ECEF_TO_WGS84] @
       (if motion pr \<noteq> None then [ECEF_VELOCITY_TO_ENU] else [])"
  by (simp_all only: e_def payload_entity_def Let_def cdm_entity.select_convs provenance.select_convs
      cdm_source.select_convs cdm_position.select_convs)

lemma payload_entity_asserted:
  assumes sound: "\<And>n. n \<in> set NAMES \<Longrightarrow> sound_slot n ep (cx_seq c) (slot_at (sn_attributes snap) n)"
    and reads: "the_identifier (slot_at (sn_attributes snap) ENTITY_IDENTIFIER) = Some i"
      "the_type (slot_at (sn_attributes snap) ENTITY_TYPE) = Some et"
      "the_force (slot_at (sn_attributes snap) FORCE_IDENTIFIER) = force"
      "the_spatial (slot_at (sn_attributes snap) SPATIAL) = Some x"
    and "slot_status (slot_at (sn_attributes snap) FORCE_IDENTIFIER) \<noteq> INVALID"
    and "1 \<le> cx_seq c" "length (cx_sha256 c) = 32" "triple_of i \<noteq> (0, 0, 0)"
    and motion: "motion pr = None \<or> sp_algorithm x \<in> set WORLD_VELOCITY_ALGORITHMS"
    and ext: "external_id (session_id doc) (cx_generation c) (triple_of i) inc = Inr ext"
    and eid: "entity_id (pj_uuid5 env) ext = Inr eid"
  shows "list_all fst (assertions env (payload_entity env snap c doc pr i et force x b ext at eid vf)
    (eff - eff mod 1000) eff)"
proof -
  let ?at = "slot_at (sn_attributes snap)"
  let ?e = "payload_entity env snap c doc pr i et force x b ext at eid vf"
  have sl: "sound_slot ENTITY_IDENTIFIER ep (cx_seq c) (?at ENTITY_IDENTIFIER)"
    "sound_slot ENTITY_TYPE ep (cx_seq c) (?at ENTITY_TYPE)"
    "sound_slot FORCE_IDENTIFIER ep (cx_seq c) (?at FORCE_IDENTIFIER)"
    "sound_slot SPATIAL ep (cx_seq c) (?at SPATIAL)" using sound by (simp_all add: NAMES_def)
  obtain raw where "spatial_value raw = Inr x" using valid_spatial [OF sl(4) reads(4)] by blast
  note world = spatial_value_world(1) [OF this]
  have valid: "slot_status (?at ENTITY_IDENTIFIER) = VALID" "slot_status (?at ENTITY_TYPE) = VALID"
    "slot_status (?at SPATIAL) = VALID"
    using valid_readings(1) [OF sl(1)] valid_readings(2) [OF sl(2)] valid_readings(4) [OF sl(4)] reads by simp_all
  have force: "force = None \<longleftrightarrow> slot_seq (?at FORCE_IDENTIFIER) = None"
    using valid_readings(3) [OF sl(3)] reads(3) assms(6) slot_seq_None [OF sl(3)]
    by (cases "slot_status (?at FORCE_IDENTIFIER)") auto
  have some: "slot_seq (?at n) \<noteq> None" if "n \<in> {ENTITY_IDENTIFIER, ENTITY_TYPE, SPATIAL}" for n
    using that valid slot_seq_None [OF sl(1)] slot_seq_None [OF sl(2)] slot_seq_None [OF sl(4)] by auto
  have agrees: "identity_agrees env ?e"
    using parts_external_id [of "session_id doc" "cx_generation c" "site i" "application i" "entity i" inc ext]
      ext eid by (simp add: identity_agrees_def payload_entity_sel triple_of_def)
  have in_names: "ENTITY_IDENTIFIER \<in> set NAMES" "ENTITY_TYPE \<in> set NAMES" "FORCE_IDENTIFIER \<in> set NAMES"
    "SPATIAL \<in> set NAMES" by (simp_all add: NAMES_def)
  note lists = payload_sequences(1) [OF sound refl refl] payload_sequences(2) [OF sound refl refl]
  note at = payload_sequences(3) [OF sound refl refl]
  have seq: "cx_seq c - 1 + 1 = cx_seq c" using assms(7) by simp
  show ?thesis
    unfolding assertions_def Let_def payload_entity_sel seq
    using agrees lists some force world motion assms(8,9) in_names
    by (simp add: at)
qed

section \<open>Eligibility\<close>

text \<open>When each reason applies, read off the snapshot itself.\<close>

definition state_table :: "snapshot \<Rightarrow> bool \<Rightarrow> (string \<times> bool) list" where
  "state_table snap timeless =
     (let attr = slot_at (sn_attributes snap) in
      [(''MISSING_ENTITY_IDENTIFIER'', slot_status (attr ENTITY_IDENTIFIER) = ABSENT),
       (''INVALID_ENTITY_IDENTIFIER'', slot_status (attr ENTITY_IDENTIFIER) = INVALID),
       (''MISSING_ENTITY_TYPE'', slot_status (attr ENTITY_TYPE) = ABSENT),
       (''INVALID_ENTITY_TYPE'', slot_status (attr ENTITY_TYPE) = INVALID),
       (''MISSING_SPATIAL'', slot_status (attr SPATIAL) = ABSENT),
       (''INVALID_SPATIAL'', slot_status (attr SPATIAL) = INVALID),
       (''INVALID_FORCE_IDENTIFIER'', slot_status (attr FORCE_IDENTIFIER) = INVALID),
       (''NULL_ID'', map_option triple_of (the_identifier (attr ENTITY_IDENTIFIER)) = Some (0, 0, 0)),
       (''QUARANTINED'', sn_lifecycle snap = QUARANTINED),
       (''TIME_UNRESOLVED'', timeless)])"

definition unprojectable :: "projector_env \<Rightarrow> snapshot \<Rightarrow> bool" where
  "unprojectable env snap \<longleftrightarrow>
     (case the_spatial (slot_at (sn_attributes snap) SPATIAL) of None \<Rightarrow> False
      | Some x \<Rightarrow> isl (project_spatial (pj_math env) MAX_ITERATIONS x))"

definition applying_reasons :: "projector_env \<Rightarrow> snapshot \<Rightarrow> bool \<Rightarrow> string list" where
  "applying_reasons env snap timeless =
     map fst (filter snd (state_table snap timeless @ [(''GEOGRAPHY_UNPROJECTABLE'', unprojectable env snap)]))"

lemma sort_remdups_sort [simp]: "sort (remdups (sort (remdups xs))) = sort (remdups (xs :: string list))"
proof -
  have "distinct (sort (remdups xs))" by simp
  then show ?thesis by (simp add: distinct_remdups_id sorted_sort_id)
qed

lemma state_reasons_table:
  assumes d: "decoded_attributes (sn_attributes snap) ep trigger = Inr d"
  shows "state_reasons (sn_attributes snap) d (sn_lifecycle snap) timeless =
    map fst (filter snd (state_table snap timeless))"
  unfolding state_reasons_def state_table_def Let_def REQUIRED_def decoded_readings [OF d]
  by (cases "slot_status (slot_at (sn_attributes snap) ENTITY_IDENTIFIER)";
      cases "slot_status (slot_at (sn_attributes snap) ENTITY_TYPE)";
      cases "slot_status (slot_at (sn_attributes snap) SPATIAL)") simp_all

lemma state_table_names:
  "''GEOGRAPHY_UNPROJECTABLE'' \<notin> set (map fst (state_table snap timeless))"
  "set (map fst (state_table snap timeless)) \<subseteq> set REASONS"
  by (simp_all add: state_table_def Let_def REASONS_def)

lemma chosen_names:
  "set (map fst xs) \<subseteq> A \<Longrightarrow> k \<in> A \<Longrightarrow> set (map fst (filter snd (xs @ [(k, b)]))) \<subseteq> A"
  "k \<notin> set (map fst xs) \<Longrightarrow> k \<in> set (map fst (filter snd (xs @ [(k, b)]))) \<longleftrightarrow> b"
  by auto

lemma applying_vocabulary: "set (applying_reasons env snap timeless) \<subseteq> set REASONS"
  unfolding applying_reasons_def
  by (rule chosen_names(1) [OF state_table_names(2)]) (simp add: REASONS_def)

lemma geography_applies:
  "''GEOGRAPHY_UNPROJECTABLE'' \<in> set (applying_reasons env snap timeless) \<longleftrightarrow> unprojectable env snap"
  unfolding applying_reasons_def by (rule chosen_names(2) [OF state_table_names(1)])

lemma assess_Inr:
  assumes d: "decoded_attributes (sn_attributes snap) ep trigger = Inr d"
    and a: "assess env (sn_attributes snap) d (sn_lifecycle snap) timeless = Inr (rs, code, pr)"
  shows "rs = sort (remdups (applying_reasons env snap timeless))"
    and "if unprojectable env snap then \<exists>c\<in>set GEOGRAPHY_CODES. code = Some c else code = None"
    and "decoded_spatial d = Some x \<Longrightarrow> \<not> unprojectable env snap \<Longrightarrow>
      \<exists>p. pr = Some p \<and> project_spatial (pj_math env) MAX_ITERATIONS x = Inr p"
proof -
  let ?g = "project_spatial (pj_math env) MAX_ITERATIONS"
  have un: "unprojectable env snap \<longleftrightarrow> (\<exists>x e. decoded_spatial d = Some x \<and> ?g x = Inl e)"
    unfolding unprojectable_def decoded_readings(4) [OF d] by (auto split: option.splits sum.splits simp: isl_def)
  show "rs = sort (remdups (applying_reasons env snap timeless))"
    using a un unfolding assess_def Let_def state_reasons_table [OF d] applying_reasons_def
    by (cases "unprojectable env snap") (auto split: option.splits sum.splits hla_exception.splits if_splits)
  show "if unprojectable env snap then \<exists>c\<in>set GEOGRAPHY_CODES. code = Some c else code = None"
    using a un unfolding assess_def Let_def
    by (auto split: option.splits sum.splits hla_exception.splits if_splits)
  show "\<exists>p. pr = Some p \<and> ?g x = Inr p" if "decoded_spatial d = Some x" "\<not> unprojectable env snap"
    using a un that unfolding assess_def Let_def
    by (auto split: option.splits sum.splits hla_exception.splits if_splits)
qed

lemma suppression_total:
  assumes rs: "rs = sort (remdups (applying_reasons env snap timeless))" "rs \<noteq> []"
    and code: "if unprojectable env snap then \<exists>c\<in>set GEOGRAPHY_CODES. code = Some c else code = None"
  shows "suppression rs code = Inr \<lparr>su_reasons = rs, su_geography_code = code\<rparr>"
proof -
  have set: "set rs = set (applying_reasons env snap timeless)" by (simp add: rs(1))
  have "rs = sort (remdups rs)" by (simp add: rs(1))
  moreover have "list_all (\<lambda>r. r \<in> set REASONS) rs"
    using applying_vocabulary [of env snap timeless] set by (auto simp: list_all_iff)
  ultimately show ?thesis
    using rs(2) code geography_applies [of env snap timeless] by (simp add: suppression_def set split: if_splits)
qed

section \<open>No defect\<close>

text \<open>Computations that may refuse or raise, but never report a defect of their own.\<close>

definition no_defect :: "hla_exception + 'a \<Rightarrow> bool" where
  "no_defect r \<longleftrightarrow> (\<forall>d. r \<noteq> Inl (Defect d))"

lemma no_defect_simps [simp]:
  "no_defect (Inr x)" "no_defect (Inl (ValueError v))" "no_defect (Inl (Refusal e))"
  "no_defect (Inl (HlaError c p m))" "\<not> no_defect (Inl (Defect d))"
  by (auto simp: no_defect_def HlaError_def)

lemma no_defect_rbind [intro]:
  "no_defect r \<Longrightarrow> (\<And>x. r = Inr x \<Longrightarrow> no_defect (f x)) \<Longrightarrow> no_defect (rbind r f)"
  by (cases r) (auto simp: no_defect_def)

lemma no_defect_if [intro]: "(P \<Longrightarrow> no_defect a) \<Longrightarrow> (\<not> P \<Longrightarrow> no_defect b) \<Longrightarrow> no_defect (if P then a else b)"
  by simp

lemma no_defect_rfold: "(\<And>s i. no_defect (f s i)) \<Longrightarrow> no_defect (rfold f s xs)"
  by (induction xs arbitrary: s) (auto intro!: no_defect_rbind)

lemma no_defect_timed [simp]: "no_defect (timed r)"
  by (simp add: timed_def split: sum.split)

lemma no_defect_floats [simp]: "no_defect (floats val r os)"
  unfolding floats_def by (rule no_defect_rfold) (simp add: Let_def)

lemma no_defect_option: "no_defect a \<Longrightarrow> (\<And>y. x = Some y \<Longrightarrow> no_defect (f y)) \<Longrightarrow> no_defect (case x of None \<Rightarrow> a | Some y \<Rightarrow> f y)"
  by (cases x) simp_all

lemma no_defect_prod: "(\<And>a b. no_defect (f a b)) \<Longrightarrow> no_defect (case p of (a, b) \<Rightarrow> f a b)"
  by (cases p) simp

lemmas no_defect_rules = no_defect_if no_defect_option no_defect_prod no_defect_rbind

lemma no_defect_spatial [simp]: "no_defect (spatial_value val)"
  unfolding spatial_value_def triple_def Let_def PADDING_SLICES_def prod.case
  by (intro no_defect_rules no_defect_floats no_defect_simps)

lemma no_defect_decode [simp]: "no_defect (decode_attribute n val)"
  unfolding decode_attribute_def exact_length_def Let_def
  by (intro no_defect_rules no_defect_spatial no_defect_simps)

lemma no_defect_geodesy: "spatial_value raw = Inr x \<Longrightarrow> no_defect (project_spatial m MAX_ITERATIONS x)"
  using project_spatial_refusal [of raw x MAX_ITERATIONS m]
  by (auto simp: no_defect_def geodesy_refusal_def MAX_ITERATIONS_def)

lemma no_defect_recover:
  "no_defect r \<Longrightarrow> (\<And>e. no_defect (f e)) \<Longrightarrow> (\<And>x. no_defect (g x)) \<Longrightarrow>
   no_defect (case r of Inl (Refusal e) \<Rightarrow> f e | Inl other \<Rightarrow> Inl other | Inr x \<Rightarrow> g x)"
  by (auto simp: no_defect_def split: sum.splits hla_exception.splits)

lemma no_defect_expected: "no_defect (expected_time ep elapsed)"
  unfolding expected_time_def Let_def
  by (intro no_defect_rules no_defect_timed no_defect_simps)

lemma no_defect_checked: "no_defect (checked_attribute name s ep trigger)"
  unfolding checked_attribute_def prod.case
  by (intro no_defect_rules no_defect_recover no_defect_expected no_defect_decode no_defect_simps)

lemma no_defect_decoded_attributes: "no_defect (decoded_attributes attrs ep trigger)"
  unfolding decoded_attributes_def
  by (rule no_defect_rfold) (auto intro!: no_defect_rbind no_defect_checked)

lemma no_defect_identity [simp]:
  "no_defect (identifier_fields t)" "no_defect (external_id s g t i)" "no_defect (entity_id u x)"
  by (auto simp: identifier_fields_def external_id_def entity_id_def counter_def split: prod.split intro!: no_defect_rbind)

lemma no_defect_arguments:
  "no_defect (copied ls)" "no_defect (check_context c)" "no_defect (session_of env g)"
  "no_defect (check_names s)" "no_defect (check_identity s c)" "no_defect (suppression rs code)"
  "no_defect (payload env snap d c doc pr eff)"
  by (auto simp: copied_def check_context_def session_of_def validate_config_def check_names_def
      check_identity_def suppression_def payload_def Let_def
      split: option.splits given_config.splits prod.splits time_policy.splits intro!: no_defect_rbind)

lemma no_defect_assess:
  assumes "decoded_attributes attrs ep trigger = Inr d"
  shows "no_defect (assess env attrs d life timeless)"
proof (cases "decoded_spatial d")
  case (Some x)
  have "sound_slot SPATIAL ep trigger (slot_at attrs SPATIAL)"
    using decoded_attributes_Inr(1) [OF assms] by (simp add: NAMES_def)
  then obtain raw where "spatial_value raw = Inr x"
    using valid_spatial Some decoded_readings(4) [OF assms] by metis
  from no_defect_geodesy [OF this, of "pj_math env"] Some show ?thesis
    by (auto simp: assess_def Let_def no_defect_def split: sum.splits hla_exception.splits)
qed (simp add: assess_def)

section \<open>The projection\<close>

text \<open>
  The stages an accepted projection has passed, up to the verdict on its reasons; the time policy
  is the validated configuration's.
\<close>

lemma project_stages:
  assumes "project_from_reducer env snap c = Inr r" and "cx_config c = Validated v"
  obtains ep d t where
    "epoch_microsecond (document v) = Inr ep" "check_context c = Inr ()" "check_identity snap c = Inr ()"
    "decoded_attributes (sn_attributes snap) ep (cx_seq c) = Inr d"
    "assess env (sn_attributes snap) d (sn_lifecycle snap) (ep = None) = Inr t"
    "verdict env True snap c (document v) ep d t = Inr r"
  using assms unfolding project_from_reducer_def project_def
  by (auto simp: rbind_eq_Inr_iff session_of_def timed_def split: sum.splits)

lemma verdict_cases:
  assumes "verdict env b snap c doc ep d (rs, code, pr) = Inr r"
  obtains "rs \<noteq> []" "r = Suppressed \<lparr>su_reasons = rs, su_geography_code = code\<rparr>"
  | e where "rs = []" "r = Projected e" "cx_identity c = map_option triple_of (decoded_identifier d)"
    "payload env snap d c doc (the pr)
       (the ep + int (the (slot_elapsed (slot_at (sn_attributes snap) SPATIAL)) div 1000)) = Inr e"
  using assms unfolding verdict_def
  by (auto simp: rbind_eq_Inr_iff suppression_def constructed_def split: if_splits option.splits)

lemma epoch_timeless: "epoch_microsecond doc = Inr ep \<Longrightarrow> ep = None \<longleftrightarrow> time_policy doc = TimeNone"
  by (auto simp: epoch_microsecond_def rbind_eq_Inr_iff split: time_policy.splits)

lemma applying_Nil:
  "applying_reasons env snap timeless = [] \<longleftrightarrow>
     slot_status (slot_at (sn_attributes snap) ENTITY_IDENTIFIER) = VALID \<and>
     slot_status (slot_at (sn_attributes snap) ENTITY_TYPE) = VALID \<and>
     slot_status (slot_at (sn_attributes snap) SPATIAL) = VALID \<and>
     slot_status (slot_at (sn_attributes snap) FORCE_IDENTIFIER) \<noteq> INVALID \<and>
     map_option triple_of (the_identifier (slot_at (sn_attributes snap) ENTITY_IDENTIFIER)) \<noteq> Some (0, 0, 0) \<and>
     sn_lifecycle snap = ACTIVE \<and> \<not> timeless \<and> \<not> unprojectable env snap"
proof -
  have status: "s \<noteq> ABSENT \<and> s \<noteq> INVALID \<longleftrightarrow> s = VALID" for s by (cases s) simp_all
  have life: "l \<noteq> QUARANTINED \<longleftrightarrow> l = ACTIVE" for l by (cases l) simp_all
  show ?thesis
    unfolding applying_reasons_def state_table_def Let_def
    by (simp only: map_is_Nil_conv filter_empty_conv) (auto simp: status [symmetric] life)
qed

lemma eligible_payload:
  assumes d: "decoded_attributes (sn_attributes snap) ep (cx_seq c) = Inr d"
    and a: "assess env (sn_attributes snap) d (sn_lifecycle snap) (ep = None) = Inr ([], code, pr)"
    and id: "cx_identity c = map_option triple_of (decoded_identifier d)"
    and ctx: "check_context c = Inr u"
    and p: "payload env snap d c doc (the pr) eff = Inr e"
    and problem: "entity_problem env e = None"
  shows "check_entity env False e = Inr ()"
proof -
  let ?at = "slot_at (sn_attributes snap)"
  have none: "applying_reasons env snap (ep = None) = []"
    using assess_Inr(1) [OF d a] by (metis remdups_eq_nil_iff set_empty set_sort)
  note ok = none [unfolded applying_Nil]
  from p obtain id inc i et x tp b ext at eid vf where pay:
    "cx_identity c = Some id" "decoded_identifier d = Some i" "decoded_type d = Some et" "decoded_spatial d = Some x"
    "external_id (session_id doc) (cx_generation c) id inc = Inr ext"
    "format_microsecond eff = Inr at" "entity_id (pj_uuid5 env) ext = Inr eid" "format_millisecond eff = Inr vf"
    "e = payload_entity env snap c doc (the pr) i et (decoded_force d) x b ext at eid vf" by (rule payload_Inr)
  obtain q where q: "pr = Some q" "project_spatial (pj_math env) MAX_ITERATIONS x = Inr q"
    using assess_Inr(3) [OF d a pay(4)] ok by blast
  have motion: "motion (the pr) = None \<or> sp_algorithm x \<in> set WORLD_VELOCITY_ALGORITHMS"
    using q by (auto elim: project_spatial_Inr)
  have c: "1 \<le> cx_seq c" "length (cx_sha256 c) = 32"
    using ctx by (auto simp: check_context_def is_counter_def rbind_eq_Inr_iff split: if_splits)
  have "list_all fst (assertions env e (eff - eff mod 1000) eff)"
    unfolding pay(9) using pay ok id
    by (intro payload_entity_asserted [OF decoded_attributes_Inr(1) [OF d] _ _ _ _ _ c _ motion])
      (simp_all add: decoded_readings [OF d])
  moreover have "parse_millisecond (en_valid_from e) = Inr (eff - eff mod 1000)"
    "parse_microsecond (hb_effective_at (en_hla e)) = Inr eff"
    using format_millisecond_parses [OF pay(8)] format_microsecond_parses [OF pay(6)]
    by (simp_all add: pay(9) payload_entity_sel)
  moreover from calculation(1) have "find (\<lambda>a. \<not> fst a) (assertions env e (eff - eff mod 1000) eff) = None"
    by (simp only: find_assertion)
  ultimately show ?thesis by (simp add: check_entity_def problem)
qed

section \<open>States the projector never raises on\<close>

definition claimed_identity :: "snapshot \<Rightarrow> projection_context \<Rightarrow> bool" where
  "claimed_identity snap c \<longleftrightarrow>
     sn_identity snap = cx_identity c \<and> sn_incarnation snap = cx_incarnation c \<and>
     (case cx_identity c of None \<Rightarrow> cx_incarnation c = None
      | Some t \<Rightarrow> identifier_fields t = Inr t \<and> (\<exists>k. cx_incarnation c = Some k \<and> is_counter k)) \<and>
     (\<forall>i. sn_lifecycle snap = ACTIVE \<longrightarrow>
        the_identifier (slot_at (sn_attributes snap) ENTITY_IDENTIFIER) = Some i \<longrightarrow>
        triple_of i \<noteq> (0, 0, 0) \<longrightarrow> cx_identity c = Some (triple_of i))"

definition carriable_text :: "pytext \<Rightarrow> bool" where
  "carriable_text t \<longleftrightarrow> \<not> has_surrogate t \<and> utf8_length t \<le> 1024"

definition projectable_state :: "ValidatedConfig \<Rightarrow> snapshot \<Rightarrow> projection_context \<Rightarrow> bool" where
  "projectable_state v snap c \<longleftrightarrow>
     cx_config c = Validated v \<and> epoch_microsecond (document v) = Inr (vc_epoch v) \<and>
     session_id_form (session_id (document v)) \<and>
     is_counter (cx_generation c) \<and> token_form (cx_token c) \<and> is_counter (cx_seq c) \<and>
     length (cx_sha256 c) = 32 \<and> claimed_identity snap c \<and>
     (\<forall>n\<in>set NAMES. sound_slot n (vc_epoch v) (cx_seq c) (slot_at (sn_attributes snap) n)) \<and>
     map fst (sn_attributes snap) = NAMES \<and> carriable_text (sn_name snap) \<and> carriable_text (sn_class snap) \<and>
     set (sn_changed snap) \<subseteq> set NAMES \<and> sn_reasons snap = [] \<and> sn_revision snap \<le> MAX_EXACT_INTEGER"

lemma in_optional: "l \<in> set (optional f x) \<longleftrightarrow> (\<exists>v. x = Some v \<and> l \<in> set (f v))"
  by (cases x) (simp_all add: optional_def)

lemma find_None_copied: "(\<forall>l\<in>set ls. leaf_problem l = None) \<longleftrightarrow> copied ls = Inr ()"
proof (cases "find (\<lambda>l. leaf_problem l \<noteq> None) ls")
  case None
  then have "copied ls = Inr ()" by (simp add: copied_def)
  moreover have "\<forall>l\<in>set ls. leaf_problem l = None" using None unfolding find_None_iff by blast
  ultimately show ?thesis by blast
next
  case (Some l)
  then have "copied ls \<noteq> Inr ()" by (simp add: copied_def)
  moreover have "\<exists>l\<in>set ls. leaf_problem l \<noteq> None" using Some unfolding find_Some_iff by (metis nth_mem)
  ultimately show ?thesis by simp
qed

lemma u16_small: "u16 val a \<le> MAX_EXACT_INTEGER"
proof -
  have "be_value (take 2 (drop a val)) < 256 ^ length (take 2 (drop a val))" using be_value_bounds by blast
  also have "\<dots> \<le> (256 :: int) ^ 2" by (rule power_increasing) auto
  finally show ?thesis using be_value_bounds by (simp add: u16_def MAX_EXACT_INTEGER_def nat_le_iff)
qed

lemma u8_small: "u8 val a \<le> MAX_EXACT_INTEGER"
proof -
  have "unat (val ! a) < 2 ^ LENGTH(8)" by (rule unsigned_less)
  then show ?thesis by (simp add: u8_def MAX_EXACT_INTEGER_def)
qed

lemma decoded_leaves_clean:
  assumes "decode_attribute n val = Inr v" "l \<in> set (decoded_leaves v)"
  shows "leaf_problem l = None"
  using assms(1)
proof (cases rule: decode_Inr_cases)
  case (Spat y)
  have "list_all isfinite (spatial_floats y)" "sp_algorithm y \<le> 9"
    using spatial_value_finite [OF Spat(2)] spatial_value_world(4) [OF Spat(2)] by auto
  with Spat assms(2) show ?thesis
    by (auto simp: decoded_leaves_def leaf_problem_def spatial_floats_def optional_def list_all_iff
        MAX_EXACT_INTEGER_def split: option.splits)
qed (use assms(2) u16_small u8_small in \<open>auto simp: decoded_leaves_def leaf_problem_def not_less\<close>)

lemma digits_no_surrogate: "list_all (\<lambda>c. c < 128) t \<Longrightarrow> \<not> has_surrogate t"
  by (auto simp: has_surrogate_def list_all_iff list_ex_iff)

lemma zpad_ascii: "list_all (\<lambda>c. c < 128) (zpad w v)"
  using dec_digits by (fastforce simp: zpad_def Let_def list_all_iff is_digit_def)

lemma format_ascii: "format_microsecond t = Inr s \<Longrightarrow> \<not> has_surrogate s"
  by (rule digits_no_surrogate) (auto simp: format_microsecond_def rbind_eq_Inr_iff stamp_text_def zpad_ascii)

lemma names_ascii: "n \<in> set NAMES \<Longrightarrow> \<not> has_surrogate n"
  by (rule digits_no_surrogate)
    (auto simp: NAMES_def ENTITY_IDENTIFIER_def ENTITY_TYPE_def FORCE_IDENTIFIER_def SPATIAL_def)

lemma slot_leaves_clean:
  assumes "sound_slot n ep trigger s" "trigger \<le> MAX_EXACT_INTEGER" "l \<in> set (slot_leaves s)"
  shows "leaf_problem l = None"
proof -
  from assms(3) consider v where "slot_value s = Some v" "l \<in> set (decoded_leaves v)"
    | k where "slot_seq s = Some k" "l = LWhole k" | t where "slot_effective s = Some t" "l = LText t"
    by (auto simp: slot_leaves_def in_optional)
  then show ?thesis
  proof cases
    case 1
    with assms(1) show ?thesis by (auto simp: sound_slot_value intro: decoded_leaves_clean)
  next
    case 2
    with slot_seq_le [OF assms(1)] assms(2) show ?thesis by (simp add: leaf_problem_def not_less)
  next
    case 3
    with assms(1) obtain el where "expected_time ep el = Inr (Some t)"
      by (auto simp: sound_slot_def)
    then have "\<not> has_surrogate t"
      by (auto simp: expected_time_def Let_def rbind_eq_Inr_iff timed_def dest: format_ascii
          split: option.splits if_splits sum.splits)
    with 3 show ?thesis by (simp add: leaf_problem_def)
  qed
qed

lemma identity_leaves_clean:
  assumes "identifier_fields t = Inr u" "l \<in> set (triple_leaves t)"
  shows "leaf_problem l = None"
  using assms by (auto simp: identifier_fields_def triple_leaves_def leaf_problem_def MAX_IDENTIFIER_FIELD_def
      MAX_EXACT_INTEGER_def split: prod.splits if_splits)

lemma projectable_copied:
  assumes "projectable_state v snap c"
  shows "copied (snapshot_leaves snap) = Inr ()" "copied (context_leaves c) = Inr ()"
proof -
  note st = assms [unfolded projectable_state_def claimed_identity_def]
  have ident: "identifier_fields t = Inr t" "\<exists>k. cx_incarnation c = Some k \<and> is_counter k"
    if "cx_identity c = Some t" for t using st that by simp_all
  have inc: "is_counter k" if "cx_incarnation c = Some k" for k
    using st ident(2) that by (cases "cx_identity c") auto
  have whole: "leaf_problem (LWhole n) = None" if "n \<le> MAX_EXACT_INTEGER" for n
    using that by (simp add: leaf_problem_def not_less)
  have attr: "leaf_problem l = None" if "(n, x) \<in> set (sn_attributes snap)" "l \<in> set (LText n # slot_leaves x)" for n x l
  proof -
    have keys: "map fst (sn_attributes snap) = NAMES" using st by blast
    have "fst (n, x) \<in> set (map fst (sn_attributes snap))" using that(1) by (simp only: set_map imageI)
    then have n: "n \<in> set NAMES" unfolding keys by simp
    have "distinct (map fst (sn_attributes snap))" unfolding keys by (rule NAMES_simps(2))
    then have "slot_at (sn_attributes snap) n = x" using that(1) by (simp add: slot_at_def)
    with st n have "sound_slot n (vc_epoch v) (cx_seq c) x" by blast
    moreover have "cx_seq c \<le> MAX_EXACT_INTEGER" using st by (simp add: is_counter_def)
    ultimately show ?thesis
      using that(2) names_ascii [OF n] by (auto simp: leaf_problem_def dest: slot_leaves_clean)
  qed
  show "copied (snapshot_leaves snap) = Inr ()"
    unfolding find_None_copied [symmetric]
  proof
    fix l assume "l \<in> set (snapshot_leaves snap)"
    then consider "l \<in> {LText (sn_name snap), LText (sn_class snap), LWhole (sn_revision snap)}"
      | t where "sn_identity snap = Some t" "l \<in> set (triple_leaves t)"
      | k where "sn_incarnation snap = Some k" "l = LWhole k"
      | n x where "(n, x) \<in> set (sn_attributes snap)" "l \<in> set (LText n # slot_leaves x)"
      | n where "n \<in> set NAMES" "l = LText n"
      using st unfolding snapshot_leaves_def by (simp add: in_optional) blast
    then show "leaf_problem l = None"
    proof cases
      case 1
      with st show ?thesis by (auto simp: leaf_problem_def carriable_text_def)
    next
      case 2
      have "cx_identity c = Some t" using st 2(1) by simp
      from identity_leaves_clean [OF ident(1) [OF this] 2(2)] show ?thesis .
    next
      case 3
      have "cx_incarnation c = Some k" using st 3(1) by simp
      from inc [OF this] show ?thesis by (simp add: 3(2) leaf_problem_def is_counter_def not_less)
    next
      case 4
      then show ?thesis by (rule attr)
    next
      case 5
      then show ?thesis by (simp add: leaf_problem_def names_ascii)
    qed
  qed
  show "copied (context_leaves c) = Inr ()"
    unfolding find_None_copied [symmetric] context_leaves_def
    using st inc whole by (auto simp: in_optional is_counter_def intro: identity_leaves_clean [OF ident(1)])
qed

lemma verdict_exact:
  assumes "project_from_reducer env snap c = Inr r" and "cx_config c = Validated v"
    and rs: "rs = sort (remdups (applying_reasons env snap (time_policy (document v) = TimeNone)))"
  shows "(rs = [] \<longrightarrow> (\<exists>e. r = Projected e)) \<and>
    (rs \<noteq> [] \<longrightarrow> (\<exists>code. r = Suppressed \<lparr>su_reasons = rs, su_geography_code = code\<rparr> \<and>
       (code \<noteq> None \<longleftrightarrow> unprojectable env snap)))"
proof -
  from assms(1,2) obtain ep d t where ep: "epoch_microsecond (document v) = Inr ep"
    and d: "decoded_attributes (sn_attributes snap) ep (cx_seq c) = Inr d"
    and a: "assess env (sn_attributes snap) d (sn_lifecycle snap) (ep = None) = Inr t"
    and t: "verdict env True snap c (document v) ep d t = Inr r" by (rule project_stages)
  obtain rs' code pr where t': "t = (rs', code, pr)" by (cases t)
  note a' = a [unfolded t']
  have "rs' = rs" using assess_Inr(1) [OF d a'] epoch_timeless [OF ep] by (simp add: rs)
  moreover have "code \<noteq> None \<longleftrightarrow> unprojectable env snap"
    using assess_Inr(2) [OF d a'] by (auto split: if_splits)
  ultimately show ?thesis using t [unfolded t'] by (elim verdict_cases) simp_all
qed

text \<open>
  C18. The projector decides eligibility exactly: a state is suppressed with the sorted list of
  every reason that applies to its snapshot, geography included, and is projected exactly when
  none does.
\<close>

theorem projection_decides:
  assumes "project_from_reducer env snap c = Inr r" and "cx_config c = Validated v"
  defines "rs \<equiv> sort (remdups (applying_reasons env snap (time_policy (document v) = TimeNone)))"
  shows "case r of Projected e \<Rightarrow> rs = [] | Suppressed s \<Rightarrow> rs \<noteq> [] \<and> su_reasons s = rs \<and>
    (su_geography_code s \<noteq> None \<longleftrightarrow> unprojectable env snap)"
proof -
  have "rs = sort (remdups (applying_reasons env snap (time_policy (document v) = TimeNone)))" by (simp add: rs_def)
  from verdict_exact [OF assms(1,2) this] show ?thesis by (cases "rs = []") auto
qed

text \<open>
  C19. The Entity the projector builds always passes the projector's own checks: unless the CDM
  schema or model itself refuses an Entity, a projection never reports a defect, whatever its
  arguments are.
\<close>

theorem own_checks_hold:
  assumes "\<And>e. entity_problem env e = None"
  shows "project_from_reducer env snap c \<noteq> Inl (Defect m)"
proof -
  have v: "no_defect (verdict env True snap c doc ep d t)"
    if ctx: "check_context c = Inr u"
      and d: "decoded_attributes (sn_attributes snap) ep (cx_seq c) = Inr d"
      and a: "assess env (sn_attributes snap) d (sn_lifecycle snap) (ep = None) = Inr t" for u doc ep d t
  proof -
    obtain rs code pr where t: "t = (rs, code, pr)" by (cases t)
    show ?thesis unfolding t verdict_def Let_def prod.case
      using eligible_payload [OF d _ _ ctx] a
      by (intro no_defect_rules no_defect_arguments no_defect_simps)
        (auto simp: t constructed_def assms)
  qed
  have "no_defect (project_from_reducer env snap c)"
    unfolding project_from_reducer_def project_def
    by (intro no_defect_rules no_defect_arguments no_defect_simps no_defect_timed no_defect_assess
        no_defect_decoded_attributes) (simp_all add: v)
  then show ?thesis by (simp add: no_defect_def)
qed

lemma expected_time_Some:
  assumes "expected_time ep el = Inr t" "ep \<noteq> None"
  shows "\<exists>at vf. format_microsecond (the ep + int el div 1000) = Inr at \<and>
    format_millisecond (the ep + int el div 1000) = Inr vf"
  using assms
  by (auto simp: expected_time_def Let_def rbind_eq_Inr_iff timed_def format_microsecond_def
      format_millisecond_def zdiv_int split: if_splits sum.splits)

lemma check_context_total:
  assumes "projectable_state v snap c"
  shows "check_context c = Inr ()" "check_identity snap c = Inr ()" "check_names snap = Inr ()"
proof -
  note st = assms [unfolded projectable_state_def claimed_identity_def]
  show "check_context c = Inr ()" using st
    by (cases "cx_identity c") (auto simp: check_context_def)
  show "check_identity snap c = Inr ()" using st
    by (cases "cx_identity c") (auto simp: check_identity_def)
  show "check_names snap = Inr ()" using st
    by (simp add: check_names_def carriable_text_def V1_def)
qed

lemma payload_total:
  assumes st: "projectable_state v snap c"
    and d: "decoded_attributes (sn_attributes snap) (vc_epoch v) (cx_seq c) = Inr d"
    and a: "assess env (sn_attributes snap) d (sn_lifecycle snap) (vc_epoch v = None) = Inr ([], code, pr)"
  shows "cx_identity c = map_option triple_of (decoded_identifier d)" "cx_identity c \<noteq> None"
    "\<exists>e. payload env snap d c (document v) (the pr)
       (the (vc_epoch v) + int (the (slot_elapsed (slot_at (sn_attributes snap) SPATIAL)) div 1000)) = Inr e"
proof -
  let ?at = "slot_at (sn_attributes snap)"
  note st' = st [unfolded projectable_state_def claimed_identity_def]
  have none: "applying_reasons env snap (vc_epoch v = None) = []"
    using assess_Inr(1) [OF d a] by (metis remdups_eq_nil_iff set_empty set_sort)
  note ok = none [unfolded applying_Nil] and rd = decoded_readings [OF d] and sound = decoded_attributes_Inr(1) [OF d]
  have sl: "sound_slot ENTITY_IDENTIFIER (vc_epoch v) (cx_seq c) (?at ENTITY_IDENTIFIER)"
    "sound_slot ENTITY_TYPE (vc_epoch v) (cx_seq c) (?at ENTITY_TYPE)"
    "sound_slot SPATIAL (vc_epoch v) (cx_seq c) (?at SPATIAL)" using sound by (simp_all add: NAMES_def)
  obtain i et x where r: "decoded_identifier d = Some i" "decoded_type d = Some et" "decoded_spatial d = Some x"
    using valid_readings(1) [OF sl(1)] valid_readings(2) [OF sl(2)] valid_readings(4) [OF sl(3)] ok rd by auto
  have id: "cx_identity c = Some (triple_of i)" using st' ok r(1) rd(1) by simp
  then show "cx_identity c = map_option triple_of (decoded_identifier d)" "cx_identity c \<noteq> None"
    using r(1) by simp_all
  obtain k where k: "cx_incarnation c = Some k" "is_counter k" and f: "identifier_fields (triple_of i) = Inr (triple_of i)"
    using st' id by auto
  have "session_id_form (session_id (document v))" "is_counter (cx_generation c)" using st' by blast+
  with k f obtain ext where ext: "external_id (session_id (document v)) (cx_generation c) (triple_of i) k = Inr ext"
    by (auto simp: external_id_def counter_def is_counter_def triple_of_def)
  obtain eid where eid: "entity_id (pj_uuid5 env) ext = Inr eid"
    using external_id_match ext by (fastforce simp: entity_id_def triple_of_def)
  obtain el t where el: "slot_elapsed (?at SPATIAL) = Some el" "expected_time (vc_epoch v) el = Inr t"
    using sl(3) ok by (auto simp: sound_slot_def)
  then obtain at vf where g: "format_microsecond (the (vc_epoch v) + int el div 1000) = Inr at"
    "format_millisecond (the (vc_epoch v) + int el div 1000) = Inr vf"
    using expected_time_Some [OF el(2)] ok by blast
  obtain tp b where tp: "time_policy (document v) = ExternalElapsed tp b"
    using ok st' by (cases "time_policy (document v)") (auto simp: epoch_microsecond_def)
  show "\<exists>e. payload env snap d c (document v) (the pr)
       (the (vc_epoch v) + int (the (slot_elapsed (?at SPATIAL)) div 1000)) = Inr e"
    using id k(1) r ext eid g el(1) tp
    by (simp add: payload_def timed_def zdiv_int)
qed

lemma assess_total:
  assumes d: "decoded_attributes attrs ep trigger = Inr d"
  shows "\<exists>t. assess env attrs d life timeless = Inr t"
proof (cases "decoded_spatial d")
  case (Some x)
  have "sound_slot SPATIAL ep trigger (slot_at attrs SPATIAL)"
    using decoded_attributes_Inr(1) [OF d] by (simp add: NAMES_def)
  then obtain raw where "spatial_value raw = Inr x"
    using valid_spatial Some decoded_readings(4) [OF d] by metis
  then have "project_spatial (pj_math env) MAX_ITERATIONS x = Inl e \<Longrightarrow> geodesy_refusal e" for e
    by (rule project_spatial_refusal) (simp_all add: MAX_ITERATIONS_def)
  with Some show ?thesis
    by (cases "project_spatial (pj_math env) MAX_ITERATIONS x")
      (fastforce simp: assess_def Let_def geodesy_refusal_def GEOGRAPHY_CODES_def)+
qed (simp add: assess_def)

section \<open>What the CDM accepts\<close>

text \<open>
  What \<^verbatim>\<open>packages/cdm/synapse_cdm/models.py\<close> and \<^verbatim>\<open>enums.py\<close> ask of the members the profile
  fills: the closed vocabularies, the ranges of a \<open>Position\<close> and of \<open>Kinematics\<close>, texts that are not
  empty, a real timestamp, an entity id that is a name-based UUID, the empty members empty; and what the
  canonical form asks of every text and number, that JSON can carry it.
\<close>

definition ENTITY_TYPES :: "string list" where
  "ENTITY_TYPES = [''UNIT'', ''PLATFORM'', ''SENSOR'', ''FACILITY'', ''EVACUEE_GROUP'', ''INTERFERENCE_SOURCE'',
     ''OVERLAY_OBJECT'', ''UNKNOWN'']"

definition AFFILIATIONS :: "string list" where
  "AFFILIATIONS = [''FRIENDLY'', ''HOSTILE'', ''NEUTRAL'', ''UNKNOWN'']"

definition motion_leaves :: "kinematics \<Rightarrow> json_leaf list" where
  "motion_leaves k = map LReal [speed_mps k, climb_mps k] @ optional (\<lambda>c. [LReal c]) (course_deg k)"

definition entity_leaves :: "cdm_entity \<Rightarrow> json_leaf list" where
  "entity_leaves e =
     (let h = en_hla e; so = en_source e; q = cp_geo (en_position e) in
      [LText (en_valid_from e), LText (so_system so), LText (so_adapter so), LText (so_original_id so),
       LWhole (so_record_index so)] @
      concat (map (\<lambda>(a, b). [LText a, LText b]) (en_source_ids e)) @
      map LReal [lat q, lon q, alt_m q] @ optional motion_leaves (en_kinematics e) @
      [LText (hb_session_id h), LWhole (hb_generation h), LText (token_text (hb_token h)), LText (hb_class h),
       LText (hb_name h), LText (hb_basis h), LText (hb_effective_at h)] @
      decoded_leaves (DEntityIdentifier (hb_identifier h)) @ decoded_leaves (DEntityType (hb_entity_type h)) @
      optional (\<lambda>f. decoded_leaves (DForceIdentifier f)) (hb_force h) @ decoded_leaves (DSpatial (hb_spatial h)) @
      concat (map (\<lambda>(n, x). optional (\<lambda>k. [LWhole k]) x) (hb_sequences h)) @
      optional (\<lambda>k. [LWhole k]) (hb_spatial_seq h))"

definition well_made :: "projector_env \<Rightarrow> cdm_entity \<Rightarrow> bool" where
  "well_made env e \<longleftrightarrow>
     en_schema_version e = CDM_SCHEMA_VERSION \<and> en_object_kind e = OBJECT_KIND \<and>
     (\<exists>ext. entity_id (pj_uuid5 env) ext = Inr (en_entity_id e)) \<and>
     en_entity_type e \<in> set ENTITY_TYPES \<and> en_affiliation e \<in> set AFFILIATIONS \<and>
     position_in_range (cp_geo (en_position e)) \<and> position_source (en_position e) = POSITION_SOURCE \<and>
     accuracy_m (en_position e) = None \<and> vertical (en_position e) = None \<and>
     (\<forall>k. en_kinematics e = Some k \<longrightarrow> motion_in_range k) \<and>
     (\<exists>t. parse_millisecond (en_valid_from e) = Inr t) \<and>
     so_system (en_source e) \<noteq> [] \<and> so_adapter (en_source e) = SYSTEM \<and>
     so_adapter_version (en_source e) = ADAPTER_VERSION \<and> so_hash_algorithm (en_source e) = HASH_ALGORITHM \<and>
     length (so_hash (en_source e)) = 32 \<and> so_observed_at (en_source e) = None \<and>
     en_source_ids e \<noteq> [] \<and> (\<forall>(system, ext) \<in> set (en_source_ids e). system \<noteq> [] \<and> ext \<noteq> []) \<and>
     en_symbol e = None \<and> en_ontology_types e = [] \<and> en_valid_to e = None \<and> en_confidence e = None \<and>
     en_integrity e = None \<and> en_quality e = None \<and> en_status e = None \<and> en_residual e = None \<and>
     (\<forall>l \<in> set (entity_leaves e). leaf_problem l = None)"

definition cdm_accepts :: "projector_env \<Rightarrow> bool" where
  "cdm_accepts env \<longleftrightarrow> (\<forall>e. well_made env e \<longrightarrow> entity_problem env e = None)"

text \<open>
  What the configuration's schema (\<open>minLength\<close> 1, the affiliations) and \<open>validate_config\<close> leave of the
  texts an Entity takes over.
\<close>

definition carriable_session :: "session_config \<Rightarrow> bool" where
  "carriable_session d \<longleftrightarrow>
     source_system d \<noteq> [] \<and> free_of_surrogates (source_system d) \<and> snd ` set (force_map d) \<subseteq> set AFFILIATIONS \<and>
     (\<forall>e b. time_policy d = ExternalElapsed e b \<longrightarrow> free_of_surrogates b)"

lemma sound_carriable:
  "sound_config d \<Longrightarrow> source_system d \<noteq> [] \<Longrightarrow> snd ` set (force_map d) \<subseteq> set AFFILIATIONS \<Longrightarrow> carriable_session d"
  by (auto simp: sound_config_def carriable_session_def intro: printable_free)

lemma ascii_carried: "list_all (\<lambda>c. c < 128) t \<Longrightarrow> leaf_problem (LText t) = None"
  by (simp add: leaf_problem_def digits_no_surrogate)

lemma dec_ascii: "list_all (\<lambda>c. c < 128) (dec n)"
  using dec_digits by (fastforce simp: list_all_iff is_digit_def)

lemma session_ascii: "session_id_form t \<Longrightarrow> list_all (\<lambda>c. c < 128) t"
  by (auto simp: session_id_form_def session_char_def is_digit_def list_all_iff)

lemma external_ascii:
  assumes "external_id s g (a, b, c) k = Inr x"
  shows "list_all (\<lambda>c. c < 128) x" "x \<noteq> []"
proof -
  from assms have "session_id_form s" and x: "x = json_strings (s # map dec [g, a, b, c, k])"
    by (auto simp: external_id_def counter_def identifier_fields_def split: if_splits)
  moreover have "list_all (\<lambda>c. c < 128) (counters_text (map dec ns))" for ns
    using dec_ascii by (induction ns) auto
  ultimately show "list_all (\<lambda>c. c < 128) x" "x \<noteq> []"
    using session_ascii by (simp_all only: x json_strings_counters list_all_append) simp_all
qed

lemma millisecond_ascii: "format_millisecond t = Inr s \<Longrightarrow> list_all (\<lambda>c. c < 128) s"
  by (auto simp: format_millisecond_def rbind_eq_Inr_iff stamp_text_def zpad_ascii)

lemma microsecond_ascii: "format_microsecond t = Inr s \<Longrightarrow> list_all (\<lambda>c. c < 128) s"
  by (auto simp: format_microsecond_def rbind_eq_Inr_iff stamp_text_def zpad_ascii)

lemma reading_clean:
  assumes "sound_slot n ep trigger s" "slot_value s = Some v" "l \<in> set (decoded_leaves v)"
  shows "leaf_problem l = None"
  using assms by (auto simp: sound_slot_value intro: decoded_leaves_clean)

lemma the_readings:
  "the_identifier s = Some i \<longleftrightarrow> slot_value s = Some (DEntityIdentifier i)"
  "the_type s = Some e \<longleftrightarrow> slot_value s = Some (DEntityType e)"
  "the_force s = Some f \<longleftrightarrow> slot_value s = Some (DForceIdentifier f)"
  "the_spatial s = Some x \<longleftrightarrow> slot_value s = Some (DSpatial x)"
  by (auto simp: the_identifier_def the_type_def the_force_def the_spatial_def
      split: option.splits decoded.splits)

text \<open>The Entity of a projectable state is well made.\<close>

lemma payload_leaves_clean:
  assumes st: "projectable_state v snap c" and carry: "carriable_session (document v)"
    and d: "decoded_attributes (sn_attributes snap) (vc_epoch v) (cx_seq c) = Inr d"
    and p: "payload env snap d c (document v) pr eff = Inr e"
    and range: "position_in_range (geo_position pr)" "\<And>k. motion pr = Some k \<Longrightarrow> motion_in_range k"
    and l: "l \<in> set (entity_leaves e)"
  shows "leaf_problem l = None"
proof -
  note st' = st [unfolded projectable_state_def] and sound = decoded_attributes_Inr [OF d] and rd = decoded_readings [OF d]
  from p obtain id inc i et x ep b ext stamp eid vf where pay:
    "cx_identity c = Some id" "cx_incarnation c = Some inc" "decoded_identifier d = Some i"
    "decoded_type d = Some et" "decoded_spatial d = Some x" "time_policy (document v) = ExternalElapsed ep b"
    "external_id (session_id (document v)) (cx_generation c) id inc = Inr ext"
    "format_microsecond eff = Inr stamp" "entity_id (pj_uuid5 env) ext = Inr eid" "format_millisecond eff = Inr vf"
    "e = payload_entity env snap c (document v) pr i et (decoded_force d) x b ext stamp eid vf" by (rule payload_Inr)
  let ?at = "slot_at (sn_attributes snap)"
  have names: "ENTITY_IDENTIFIER \<in> set NAMES" "ENTITY_TYPE \<in> set NAMES" "FORCE_IDENTIFIER \<in> set NAMES" "SPATIAL \<in> set NAMES"
    by (simp_all add: NAMES_def)
  have decoded: "leaf_problem l = None"
    if "l \<in> set (decoded_leaves w)" "n \<in> set NAMES" "slot_value (?at n) = Some w" for l w n
    using reading_clean [OF sound(1) [OF that(2)] that(3,1)] .
  have vals: "slot_value (?at ENTITY_IDENTIFIER) = Some (DEntityIdentifier i)" "slot_value (?at ENTITY_TYPE) = Some (DEntityType et)"
    "slot_value (?at SPATIAL) = Some (DSpatial x)" "\<And>f. decoded_force d = Some f \<Longrightarrow> slot_value (?at FORCE_IDENTIFIER) = Some (DForceIdentifier f)"
    using pay rd the_readings by simp_all
  have whole: "leaf_problem (LWhole n) = None" if "n \<le> MAX_EXACT_INTEGER" for n
    using that by (simp add: leaf_problem_def not_less)
  have counters: "cx_generation c \<le> MAX_EXACT_INTEGER" "cx_seq c \<le> MAX_EXACT_INTEGER" "cx_seq c - 1 \<le> MAX_EXACT_INTEGER"
    using st' by (auto simp: is_counter_def)
  have seqs: "k \<le> MAX_EXACT_INTEGER" if "n \<in> set NAMES" "slot_seq (?at n) = Some k" for n k
    using slot_seq_le [OF sound(1) [OF that(1)] that(2)] counters(2) by simp
  have sid: "list_all (\<lambda>c. c < 128) (session_id (document v))" using st' by (blast intro: session_ascii)
  have tok: "list_all (\<lambda>c. c < 128) (token_text (cx_token c))" using dec_ascii by (simp add: token_text_def)
  have texts: "leaf_problem (LText t) = None"
    if "t \<in> {vf, source_system (document v), SYSTEM, original_id (session_id (document v)) (cx_generation c) (cx_token c) (cx_seq c),
        ext, session_id (document v), token_text (cx_token c), sn_class snap, sn_name snap, b, stamp}" for t
  proof -
    have "leaf_problem (LText t) = None"
      if "t \<in> {vf, SYSTEM, original_id (session_id (document v)) (cx_generation c) (cx_token c) (cx_seq c),
        ext, session_id (document v), token_text (cx_token c), stamp}"
      using that millisecond_ascii [OF pay(10)] microsecond_ascii [OF pay(8)] sid tok dec_ascii pay(7)
        external_ascii(1) [of "session_id (document v)" "cx_generation c" "fst id" "fst (snd id)" "snd (snd id)" inc ext]
      by (intro ascii_carried) (auto simp: SYSTEM_def original_id_def)
    moreover have "leaf_problem (LText t) = None" if "t \<in> {source_system (document v), sn_class snap, sn_name snap, b}"
      using that st' carry pay(6) surrogate_free
      by (auto simp: leaf_problem_def carriable_text_def carriable_session_def)
    ultimately show ?thesis using that by blast
  qed
  have reals: "leaf_problem (LReal w) = None" if "isfinite w" for w using that by (simp add: leaf_problem_def)
  have pos: "leaf_problem m = None"
    if "m \<in> set (map LReal [lat (geo_position pr), lon (geo_position pr), alt_m (geo_position pr)])" for m
    using that range(1) within_degrees reals by (auto simp: position_in_range_def)
  have mot: "leaf_problem m = None" if "motion pr = Some k" "m \<in> set (motion_leaves k)" for m k
  proof -
    have "isfinite c" if "course_deg k = Some c" for c
      using range(2) [OF \<open>motion pr = Some k\<close>] that
      by (intro within_degrees(3)) (auto simp: motion_in_range_def within_def fle_def flt_def)
    with that range(2) [OF that(1)] reals show ?thesis
      by (auto simp: motion_leaves_def motion_in_range_def in_optional)
  qed
  note parts = payload_entity_sel [of env snap c "document v" pr i et "decoded_force d" x b ext stamp eid vf, folded pay(11)]
  have more: "cp_geo (en_position e) = geo_position pr" "so_system (en_source e) = source_system (document v)"
    "so_adapter (en_source e) = SYSTEM" "so_record_index (en_source e) = cx_seq c - 1"
    "so_original_id (en_source e) = original_id (session_id (document v)) (cx_generation c) (cx_token c) (cx_seq c)"
    "hb_class (en_hla e) = sn_class snap" "hb_name (en_hla e) = sn_name snap" "hb_basis (en_hla e) = b"
    "hb_effective_at (en_hla e) = stamp"
    by (simp_all add: pay(11) payload_entity_def Let_def)
  let ?clean = "list_all (\<lambda>l. leaf_problem l = None)"
  have "?clean [LText vf, LText (source_system (document v)), LText SYSTEM,
      LText (original_id (session_id (document v)) (cx_generation c) (cx_token c) (cx_seq c)), LWhole (cx_seq c - 1)]"
    "?clean (concat (map (\<lambda>(a, b). [LText a, LText b]) [(SYSTEM, ext)]))"
    "?clean [LText (session_id (document v)), LWhole (cx_generation c), LText (token_text (cx_token c)),
       LText (sn_class snap), LText (sn_name snap), LText b, LText stamp]"
    using texts whole counters by simp_all
  moreover have "?clean (map LReal [lat (geo_position pr), lon (geo_position pr), alt_m (geo_position pr)])"
    unfolding list_all_iff using pos by blast
  moreover have "?clean (optional motion_leaves (motion pr))"
    using mot by (auto simp: list_all_iff in_optional)
  moreover have "?clean (decoded_leaves (DEntityIdentifier i))" "?clean (decoded_leaves (DEntityType et))"
    "?clean (decoded_leaves (DSpatial x))"
    unfolding list_all_iff
    using decoded [OF _ names(1) vals(1)] decoded [OF _ names(2) vals(2)] decoded [OF _ names(4) vals(3)] by blast+
  moreover have "?clean (optional (\<lambda>f. decoded_leaves (DForceIdentifier f)) (decoded_force d))"
    using decoded [OF _ names(3) vals(4)] by (auto simp: list_all_iff in_optional)
  moreover have one: "?clean (optional (\<lambda>k. [LWhole k]) (slot_seq (?at n)))" if "n \<in> set NAMES" for n
    using whole seqs [OF that] by (auto simp: list_all_iff in_optional)
  moreover have "?clean (concat (map (\<lambda>(n, x). optional (\<lambda>k. [LWhole k]) x) (map (\<lambda>n. (n, slot_seq (?at n))) NAMES)))"
    using one by (auto simp: list_all_iff)
  moreover note one [OF names(4)]
  ultimately have "?clean (entity_leaves e)"
    unfolding entity_leaves_def Let_def parts more by (simp only: list_all_append simp_thms)
  with l show ?thesis by (simp add: list_all_iff)
qed

lemma payload_well_made:
  assumes st: "projectable_state v snap c" and carry: "carriable_session (document v)" and ranges: "math_ranges (pj_math env)"
    and d: "decoded_attributes (sn_attributes snap) (vc_epoch v) (cx_seq c) = Inr d"
    and a: "assess env (sn_attributes snap) d (sn_lifecycle snap) (vc_epoch v = None) = Inr ([], code, pr)"
    and p: "payload env snap d c (document v) (the pr) eff = Inr e"
  shows "well_made env e"
proof -
  have none: "applying_reasons env snap (vc_epoch v = None) = []"
    using assess_Inr(1) [OF d a] by (metis remdups_eq_nil_iff set_empty set_sort)
  note ok = none [unfolded applying_Nil]
  from p obtain id inc i et x ep b ext stamp eid vf where pay:
    "decoded_identifier d = Some i" "decoded_type d = Some et" "decoded_spatial d = Some x"
    "external_id (session_id (document v)) (cx_generation c) id inc = Inr ext" "entity_id (pj_uuid5 env) ext = Inr eid"
    "format_millisecond eff = Inr vf"
    "e = payload_entity env snap c (document v) (the pr) i et (decoded_force d) x b ext stamp eid vf" by (rule payload_Inr)
  obtain q where q: "pr = Some q" "project_spatial (pj_math env) MAX_ITERATIONS x = Inr q"
    using assess_Inr(3) [OF d a pay(3)] ok by blast
  have "sound_slot SPATIAL (vc_epoch v) (cx_seq c) (slot_at (sn_attributes snap) SPATIAL)"
    using decoded_attributes_Inr(1) [OF d] by (simp add: NAMES_def)
  then obtain raw where raw: "spatial_value raw = Inr x"
    using valid_spatial pay(3) decoded_readings(4) [OF d] by metis
  have range: "position_in_range (geo_position (the pr))" "\<And>k. motion (the pr) = Some k \<Longrightarrow> motion_in_range k"
    using projection_in_range [OF ranges raw q(2)] q(1) by simp_all
  have ext: "ext \<noteq> []"
    using external_ascii(2) [of "session_id (document v)" "cx_generation c" "fst id" "fst (snd id)" "snd (snd id)" inc ext]
      pay(4) by simp
  have type: "dget ENTITY_TYPE_BY_KIND n ''UNKNOWN'' \<in> set ENTITY_TYPES" for n
    by (simp add: dget_def ENTITY_TYPE_BY_KIND_def ENTITY_TYPES_def)
  have "a \<in> set AFFILIATIONS" if "map_of (force_map (document v)) k = Some a" for k a
    using map_of_SomeD [OF that] carry unfolding carriable_session_def by force
  then have side: "dget (force_map (document v)) k ''UNKNOWN'' \<in> set AFFILIATIONS" for k
    by (simp add: dget_def AFFILIATIONS_def split: option.split)
  have aff: "en_affiliation e \<in> set AFFILIATIONS"
    using side by (simp add: pay(7) payload_entity_def Let_def AFFILIATIONS_def split: option.split)
  have sha: "length (cx_sha256 c) = 32" and sys: "source_system (document v) \<noteq> []"
    using st carry by (simp_all add: projectable_state_def carriable_session_def)
  note leaves = payload_leaves_clean [OF st carry d p range]
  have "SYSTEM \<noteq> []" by (simp add: SYSTEM_def)
  moreover have "cp_geo (en_position e) = geo_position (the pr)" "so_system (en_source e) = source_system (document v)"
    "so_adapter (en_source e) = SYSTEM" "so_adapter_version (en_source e) = ADAPTER_VERSION"
    "so_hash_algorithm (en_source e) = HASH_ALGORITHM" "so_hash (en_source e) = cx_sha256 c" "so_observed_at (en_source e) = None"
    by (simp_all add: pay(7) payload_entity_def Let_def)
  moreover note parts = payload_entity_sel [of env snap c "document v" "the pr" i et "decoded_force d" x b ext stamp eid vf, folded pay(7)]
  ultimately show ?thesis
    unfolding well_made_def parts
    using range ext type aff sha sys leaves pay(5) format_millisecond_parses [OF pay(6)]
    by (intro conjI) (simp_all, blast+)
qed

lemma projection_answers:
  assumes st: "projectable_state v snap c"
    and env: "\<And>d code pr e eff. decoded_attributes (sn_attributes snap) (vc_epoch v) (cx_seq c) = Inr d \<Longrightarrow>
      assess env (sn_attributes snap) d (sn_lifecycle snap) (vc_epoch v = None) = Inr ([], code, pr) \<Longrightarrow>
      payload env snap d c (document v) (the pr) eff = Inr e \<Longrightarrow> entity_problem env e = None"
  shows "\<exists>r. project_from_reducer env snap c = Inr r"
proof -
  note st' = st [unfolded projectable_state_def]
  obtain d where d: "decoded_attributes (sn_attributes snap) (vc_epoch v) (cx_seq c) = Inr d"
    using decoded_attributes_total st' by blast
  obtain t where a: "assess env (sn_attributes snap) d (sn_lifecycle snap) (vc_epoch v = None) = Inr t"
    using assess_total [OF d] by blast
  obtain rs code pr where t: "t = (rs, code, pr)" by (cases t)
  note a' = a [unfolded t]
  have "\<exists>r. verdict env True snap c (document v) (vc_epoch v) d t = Inr r"
  proof (cases "rs = []")
    case False
    with suppression_total [OF assess_Inr(1) [OF d a'] _ assess_Inr(2) [OF d a']]
    show ?thesis by (simp add: t verdict_def)
  next
    case True
    note a0 = a' [unfolded True]
    obtain e where e: "payload env snap d c (document v) (the pr)
       (the (vc_epoch v) + int (the (slot_elapsed (slot_at (sn_attributes snap) SPATIAL)) div 1000)) = Inr e"
      using payload_total(3) [OF st d a0] by blast
    have "check_entity env False e = Inr ()"
      by (rule eligible_payload [OF d a0 payload_total(1) [OF st d a0] check_context_total(1) [OF st] e env [OF d a0 e]])
    with e payload_total(1,2) [OF st d a0] env [OF d a0 e] show ?thesis
      by (simp add: True t verdict_def constructed_def)
  qed
  moreover have "epoch_microsecond (document v) = Inr (vc_epoch v)" "cx_config c = Validated v"
    using st' by blast+
  ultimately show ?thesis
    unfolding project_from_reducer_def project_def
    using projectable_copied [OF st] check_context_total [OF st] d a by (simp add: session_of_def timed_def)
qed

text \<open>The projector answers every state of a session the reducer can keep.\<close>

definition answers :: "projector_env \<Rightarrow> ValidatedConfig \<Rightarrow> bool" where
  "answers env v \<longleftrightarrow> (\<forall>snap c. projectable_state v snap c \<longrightarrow> (\<exists>r. project_from_reducer env snap c = Inr r))"

lemma answers_accepted:
  assumes "math_ranges (pj_math env)" "cdm_accepts env" "carriable_session (document v)"
  shows "answers env v"
proof -
  have "\<exists>r. project_from_reducer env snap c = Inr r" if st: "projectable_state v snap c" for snap c
    by (rule projection_answers [OF st])
      (use assms(2) in \<open>auto simp: cdm_accepts_def intro: payload_well_made [OF st assms(3,1)]\<close>)
  then show ?thesis by (simp add: answers_def)
qed

lemma answers_unrefused: "(\<And>e. entity_problem env e = None) \<Longrightarrow> answers env v"
  unfolding answers_def by (blast intro: projection_answers)

text \<open>What the CDM refuses only takes answers away: the same projector under a CDM that refuses nothing.\<close>

definition unrefusing :: "projector_env \<Rightarrow> projector_env" where
  "unrefusing env = env\<lparr>entity_problem := (\<lambda>_. None)\<rparr>"

lemma unrefusing_fields [simp]:
  "entity_problem (unrefusing env) e = None" "pj_uuid5 (unrefusing env) = pj_uuid5 env"
  "pj_sha256 (unrefusing env) = pj_sha256 env" "pj_math (unrefusing env) = pj_math env"
  "config_schema (unrefusing env) = config_schema env" "config_order (unrefusing env) = config_order env"
  "snapshot_schema (unrefusing env) = snapshot_schema env"
  "provenance_schema (unrefusing env) = provenance_schema env"
  by (simp_all add: unrefusing_def)

lemma unrefusing_parts [simp]:
  "session_of (unrefusing env) = session_of env" "assess (unrefusing env) = assess env"
  "payload (unrefusing env) = payload env" "assertions (unrefusing env) = assertions env"
  unfolding fun_eq_iff session_of_def assess_def payload_def payload_entity_def raw_hash_def assertions_def
    identity_agrees_def unrefusing_fields by (rule allI refl)+

lemma unrefusing_check:
  "check_entity env False e = Inr u \<Longrightarrow> check_entity (unrefusing env) False e = Inr u"
  unfolding check_entity_def unrefusing_parts unrefusing_fields by (cases "entity_problem env e") simp_all

lemma unrefusing_constructed: "constructed env e = Inr x \<Longrightarrow> constructed (unrefusing env) e = Inr x"
  by (simp add: constructed_def split: option.splits)

lemma unrefusing_answer:
  assumes "project_from_reducer env snap c = Inr r"
  shows "project_from_reducer (unrefusing env) snap c = Inr r"
proof -
  have "verdict (unrefusing env) True snap c d ep dec a = Inr r" if "verdict env True snap c d ep dec a = Inr r" for d ep dec a
    using that unfolding verdict_def unrefusing_parts
    by (auto simp: Let_def rbind_eq_Inr_iff intro: unrefusing_check unrefusing_constructed split: prod.splits if_splits)
  with assms show ?thesis
    unfolding project_from_reducer_def project_def by (auto simp: rbind_eq_Inr_iff)
qed

text \<open>
  C20. The projector never raises on a state the reducer keeps: identity and incarnation agree with
  the context, every slot agrees with its octets, and an active object with a valid non-null
  identifier holds it as its identity. It then answers with an Entity or with a suppression. What is
  relied on: that Python's arithmetic keeps its ranges, that the configuration's texts are those its
  schema and \<open>validate_config\<close> let through, and that the CDM refuses no well made Entity (one whose
  position, motion, vocabulary, texts and times are what \<open>models.py\<close> asks of them); that the built
  Entity is one, its latitude and longitude in their ranges, is proved.
\<close>

theorem projection_total:
  assumes "projectable_state v snap c" and "carriable_session (document v)" and "math_ranges (pj_math env)"
    and "cdm_accepts env"
  shows "(\<exists>e. project_from_reducer env snap c = Inr (Projected e)) \<or>
    (\<exists>s. project_from_reducer env snap c = Inr (Suppressed s))"
proof -
  obtain r where "project_from_reducer env snap c = Inr r"
    using answers_accepted [OF assms(3,4,2)] assms(1) by (auto simp: answers_def)
  then show ?thesis by (cases r) auto
qed

lemma force_reading:
  assumes "sound_slot FORCE_IDENTIFIER ep trigger s" "slot_status s \<noteq> INVALID"
  shows "slot_value s = map_option DForceIdentifier (the_force s)"
  using valid_readings(3) [OF assms(1) refl] assms the_readings(3) [of s]
  by (cases "slot_status s"; cases "the_force s") (auto simp: sound_slot_def)

lemma sound_hash:
  "sound_slot n ep trigger s \<Longrightarrow> raw_hash env s = map_option (pj_sha256 env) (slot_hex s)"
  by (auto simp: sound_slot_def raw_hash_def)

text \<open>The affiliation of a force, and the CDM class of an entity kind.\<close>

definition side_of :: "session_config \<Rightarrow> nat option \<Rightarrow> string" where
  "side_of d force =
     (case force of None \<Rightarrow> ''UNKNOWN''
      | Some f \<Rightarrow> (case map_of (force_map d) (dec f) of None \<Rightarrow> ''UNKNOWN'' | Some a \<Rightarrow> a))"

definition class_of :: "nat \<Rightarrow> string" where
  "class_of k = (if k = 1 then ''PLATFORM'' else if k = 9 then ''SENSOR'' else ''UNKNOWN'')"

lemma payload_carries:
  fixes env snap c doc pr i et force x b ext stamp eid vf
  assumes "e = payload_entity env snap c doc pr i et force x b ext stamp eid vf" and "1 \<le> cx_seq c"
  shows "en_position e = \<lparr>cp_geo = \<lparr>lat = lat (geo_position pr), lon = lon (geo_position pr), alt_m = alt_m (geo_position pr)\<rparr>,
      position_source = ''ESTIMATED'', accuracy_m = None, vertical = None\<rparr>"
    and "en_entity_type e = class_of (kind et)" "en_affiliation e = side_of doc force" "hb_basis (en_hla e) = b"
    and "hb_name (en_hla e) = sn_name snap" "hb_class (en_hla e) = sn_class snap"
      "hb_verification (en_hla e) = profile_declaration doc" "hb_complete (en_hla e) = cx_complete c"
    and "so_system (en_source e) = source_system doc" "so_adapter (en_source e) = asc ''hla-rpr2''"
      "so_adapter_version (en_source e) = ''1.0.0''" "so_synthetic (en_source e) = synthetic doc"
      "so_original_id (en_source e) = session_id doc @ asc ''/'' @ dec (cx_generation c) @ asc ''/'' @
         token_text (cx_token c) @ asc ''/'' @ dec (cx_seq c)"
      "so_hash_algorithm (en_source e) = ''sha256''" "so_hash (en_source e) = cx_sha256 c"
      "so_record_index (en_source e) + 1 = cx_seq c"
      "so_transformations (en_source e) = [''external-time-context'', ''ecef-to-wgs84''] @
         (case motion pr of None \<Rightarrow> [] | Some k \<Rightarrow> [''ecef-velocity-to-enu''])"
  using assms(2)
  by (simp_all add: assms(1) payload_entity_def Let_def POSITION_SOURCE_def class_of_def side_of_def dget_def
      ENTITY_TYPE_BY_KIND_def SYSTEM_def ADAPTER_VERSION_def original_id_def HASH_ALGORITHM_def
      EXTERNAL_TIME_CONTEXT_def ECEF_TO_WGS84_def ECEF_VELOCITY_TO_ENU_def split: option.split)

text \<open>What the eligible state of an Entity is, read off its slots and the context.\<close>

lemma projected_stages:
  assumes "project_from_reducer env snap c = Inr (Projected e)" and "cx_config c = Validated v"
  obtains ep el tp b i et x force p inc ext stamp vf eid where
    "epoch_microsecond (document v) = Inr (Some ep)" "slot_elapsed (slot_at (sn_attributes snap) SPATIAL) = Some el"
    "time_policy (document v) = ExternalElapsed tp b" "1 \<le> cx_seq c"
    "\<forall>n\<in>set NAMES. sound_slot n (Some ep) (cx_seq c) (slot_at (sn_attributes snap) n)"
    "slot_value (slot_at (sn_attributes snap) ENTITY_IDENTIFIER) = Some (DEntityIdentifier i)"
    "slot_value (slot_at (sn_attributes snap) ENTITY_TYPE) = Some (DEntityType et)"
    "slot_value (slot_at (sn_attributes snap) SPATIAL) = Some (DSpatial x)"
    "slot_value (slot_at (sn_attributes snap) FORCE_IDENTIFIER) = map_option DForceIdentifier force"
    "project_spatial (pj_math env) MAX_ITERATIONS x = Inr p"
    "cx_identity c = Some (triple_of i)" "cx_incarnation c = Some inc"
    "external_id (session_id (document v)) (cx_generation c) (triple_of i) inc = Inr ext"
    "format_microsecond (ep + int (el div 1000)) = Inr stamp" "format_millisecond (ep + int (el div 1000)) = Inr vf"
    "entity_id (pj_uuid5 env) ext = Inr eid"
    "e = payload_entity env snap c (document v) p i et force x b ext stamp eid vf"
proof -
  let ?at = "slot_at (sn_attributes snap)"
  from assms obtain ep d t where ep: "epoch_microsecond (document v) = Inr ep" and ctx: "check_context c = Inr ()"
    and d: "decoded_attributes (sn_attributes snap) ep (cx_seq c) = Inr d"
    and a: "assess env (sn_attributes snap) d (sn_lifecycle snap) (ep = None) = Inr t"
    and t: "verdict env True snap c (document v) ep d t = Inr (Projected e)" by (rule project_stages)
  obtain rs code pr where t': "t = (rs, code, pr)" by (cases t)
  define eff where "eff = the ep + int (the (slot_elapsed (?at SPATIAL)) div 1000)"
  from t [unfolded t'] have v: "rs = []" "cx_identity c = map_option triple_of (decoded_identifier d)"
    "payload env snap d c (document v) (the pr) eff = Inr e"
    unfolding eff_def by (auto elim: verdict_cases)
  note a' = a [unfolded t' v(1)] and rd = decoded_readings [OF d] and sound = decoded_attributes_Inr(1) [OF d]
  have "applying_reasons env snap (ep = None) = []"
    using assess_Inr(1) [OF d a'] by (metis remdups_eq_nil_iff set_empty set_sort)
  note ok = this [unfolded applying_Nil]
  from v(3) obtain id inc i et x tp b ext stamp eid vf where pay:
    "cx_identity c = Some id" "cx_incarnation c = Some inc" "decoded_identifier d = Some i"
    "decoded_type d = Some et" "decoded_spatial d = Some x" "time_policy (document v) = ExternalElapsed tp b"
    "external_id (session_id (document v)) (cx_generation c) id inc = Inr ext"
    "format_microsecond eff = Inr stamp" "entity_id (pj_uuid5 env) ext = Inr eid" "format_millisecond eff = Inr vf"
    "e = payload_entity env snap c (document v) (the pr) i et (decoded_force d) x b ext stamp eid vf"
    by (rule payload_Inr)
  have sl: "sound_slot FORCE_IDENTIFIER ep (cx_seq c) (?at FORCE_IDENTIFIER)"
    "sound_slot SPATIAL ep (cx_seq c) (?at SPATIAL)" using sound by (simp_all add: NAMES_def)
  obtain el where el: "slot_elapsed (?at SPATIAL) = Some el" using sl(2) ok by (auto simp: sound_slot_def)
  obtain e0 where e0: "ep = Some e0" using ok by blast
  obtain q where q: "pr = Some q" "project_spatial (pj_math env) MAX_ITERATIONS x = Inr q"
    using assess_Inr(3) [OF d a' pay(5)] ok by blast
  have "1 \<le> cx_seq c" using ctx by (auto simp: check_context_def is_counter_def rbind_eq_Inr_iff split: if_splits)
  moreover have "slot_value (?at FORCE_IDENTIFIER) = map_option DForceIdentifier (decoded_force d)"
    using rd(3) force_reading [OF sl(1)] ok by simp
  moreover have "id = triple_of i" "eff = e0 + int (el div 1000)" using pay(1,3) v(2) by (simp_all add: eff_def e0 el)
  ultimately show thesis
    using that [of e0 el tp b i et x "decoded_force d" q inc ext stamp vf eid] ep pay sound el q(2) rd the_readings q(1)
    by (simp add: e0)
qed

text \<open>
  C21. What a projected Entity carries. Its position is the geodetic one of the decoded Spatial
  value, latitude, longitude and height in their members, estimated and without accuracy, and its
  kinematics are the projected motion. Its class follows the entity kind and its affiliation the force
  through the configuration's map. The provenance block holds the snapshot's decoded values bit for
  bit, its names, the digest of each attribute's raw octets and the frame each came from; the one
  external id names the identity the object claims; the times are the epoch plus the elapsed time of
  the frame that supplied Spatial, cut to milliseconds in \<open>valid_from\<close>. The source names the
  configured system, this adapter, the layer, the record of the triggering frame with its digest, and
  the steps that were taken, the velocity step exactly when there is motion.
\<close>

theorem projected_content:
  assumes "project_from_reducer env snap c = Inr (Projected e)" and "cx_config c = Validated v"
  defines "at \<equiv> slot_at (sn_attributes snap)" and "h \<equiv> en_hla e" and "so \<equiv> en_source e" and "doc \<equiv> document v"
  shows "(\<exists>p. project_spatial (pj_math env) MAX_ITERATIONS (hb_spatial h) = Inr p \<and>
       en_position e = \<lparr>cp_geo = \<lparr>lat = lat (geo_position p), lon = lon (geo_position p), alt_m = alt_m (geo_position p)\<rparr>,
         position_source = ''ESTIMATED'', accuracy_m = None, vertical = None\<rparr> \<and>
       en_kinematics e = motion p) \<and>
    en_entity_type e = class_of (kind (hb_entity_type h)) \<and> en_affiliation e = side_of doc (hb_force h) \<and>
    slot_value (at ENTITY_IDENTIFIER) = Some (DEntityIdentifier (hb_identifier h)) \<and>
    slot_value (at ENTITY_TYPE) = Some (DEntityType (hb_entity_type h)) \<and>
    slot_value (at SPATIAL) = Some (DSpatial (hb_spatial h)) \<and>
    slot_value (at FORCE_IDENTIFIER) = map_option DForceIdentifier (hb_force h) \<and>
    hb_name h = sn_name snap \<and> hb_class h = sn_class snap \<and> hb_verification h = profile_declaration doc \<and>
    hb_token h = cx_token c \<and> hb_session_id h = session_id doc \<and> hb_generation h = cx_generation c \<and>
    hb_complete h = cx_complete c \<and>
    (\<exists>ext inc i. en_source_ids e = [(SYSTEM, ext)] \<and> i = hb_identifier h \<and>
       parts ext = Inr (session_id doc, cx_generation c, site i, application i, entity i, inc) \<and>
       entity_id (pj_uuid5 env) ext = Inr (en_entity_id e) \<and>
       cx_identity c = Some (triple_of i) \<and> cx_incarnation c = Some inc) \<and>
    (\<forall>n\<in>set NAMES. map_of (hb_hashes h) n = Some (map_option (pj_sha256 env) (slot_hex (at n))) \<and>
       map_of (hb_sequences h) n = Some (slot_seq (at n))) \<and>
    (\<exists>t ep el. epoch_microsecond doc = Inr (Some ep) \<and> slot_elapsed (at SPATIAL) = Some el \<and>
       t = ep + int (el div 1000) \<and> parse_microsecond (hb_effective_at h) = Inr t \<and>
       parse_millisecond (en_valid_from e) = Inr (t - t mod 1000) \<and>
       (\<exists>stated. time_policy doc = ExternalElapsed stated (hb_basis h))) \<and>
    so_system so = source_system doc \<and> so_adapter so = asc ''hla-rpr2'' \<and> so_adapter_version so = ''1.0.0'' \<and>
    so_synthetic so = synthetic doc \<and>
    so_original_id so = session_id doc @ asc ''/'' @ dec (cx_generation c) @ asc ''/'' @ token_text (cx_token c) @
      asc ''/'' @ dec (cx_seq c) \<and>
    so_hash_algorithm so = ''sha256'' \<and> so_hash so = cx_sha256 c \<and> so_record_index so + 1 = cx_seq c \<and>
    so_transformations so = [''external-time-context'', ''ecef-to-wgs84''] @
      (case en_kinematics e of None \<Rightarrow> [] | Some k \<Rightarrow> [''ecef-velocity-to-enu''])"
proof -
  from assms(1,2) obtain ep el tp b i et x force p inc ext stamp vf eid where
    time: "epoch_microsecond doc = Inr (Some ep)" "slot_elapsed (at SPATIAL) = Some el"
      "time_policy doc = ExternalElapsed tp b" "1 \<le> cx_seq c"
    and sound: "\<forall>n\<in>set NAMES. sound_slot n (Some ep) (cx_seq c) (at n)"
    and vals: "slot_value (at ENTITY_IDENTIFIER) = Some (DEntityIdentifier i)"
      "slot_value (at ENTITY_TYPE) = Some (DEntityType et)" "slot_value (at SPATIAL) = Some (DSpatial x)"
      "slot_value (at FORCE_IDENTIFIER) = map_option DForceIdentifier force"
    and p: "project_spatial (pj_math env) MAX_ITERATIONS x = Inr p"
    and id: "cx_identity c = Some (triple_of i)" "cx_incarnation c = Some inc"
      "external_id (session_id doc) (cx_generation c) (triple_of i) inc = Inr ext"
    and st: "format_microsecond (ep + int (el div 1000)) = Inr stamp" "format_millisecond (ep + int (el div 1000)) = Inr vf"
      "entity_id (pj_uuid5 env) ext = Inr eid"
    and e: "e = payload_entity env snap c doc p i et force x b ext stamp eid vf"
    unfolding at_def doc_def by (rule projected_stages)
  have own: "en_entity_id e = eid" "en_kinematics e = motion p" "en_valid_from e = vf" "en_source_ids e = [(SYSTEM, ext)]"
    "hb_session_id (en_hla e) = session_id doc" "hb_generation (en_hla e) = cx_generation c"
    "hb_token (en_hla e) = cx_token c" "hb_identifier (en_hla e) = i" "hb_entity_type (en_hla e) = et"
    "hb_force (en_hla e) = force" "hb_spatial (en_hla e) = x" "hb_effective_at (en_hla e) = stamp"
    "hb_sequences (en_hla e) = map (\<lambda>n. (n, slot_seq (slot_at (sn_attributes snap) n))) NAMES"
    "hb_hashes (en_hla e) = map (\<lambda>n. (n, raw_hash env (slot_at (sn_attributes snap) n))) NAMES"
    by (simp_all add: e payload_entity_sel)
  note sel = own payload_carries [OF e time(4)]
  have "parts ext = Inr (session_id doc, cx_generation c, site i, application i, entity i, inc)"
    using id(3) by (intro parts_external_id) (simp add: triple_of_def)
  moreover have "\<forall>n\<in>set NAMES. map_of (hb_hashes h) n = Some (map_option (pj_sha256 env) (slot_hex (at n))) \<and>
       map_of (hb_sequences h) n = Some (slot_seq (at n))"
    using sound_hash [OF bspec [OF sound]] by (simp add: h_def sel map_of_map_restrict at_def)
  ultimately show ?thesis
    unfolding h_def so_def sel
    using time vals p id st format_microsecond_parses [OF st(1)] format_millisecond_parses [OF st(2)] by simp
qed

section \<open>Witnesses\<close>

text \<open>An object on the polar axis, at the epoch, with every attribute it needs.\<close>

definition axis_octets :: bytes where
  "axis_octets = [1, 0, 0, 0, 0, 0, 0, 0, 0, 0, 0, 0, 0, 0, 0, 0, 0, 0, 0, 0, 0, 0, 0, 0,
     0x41, 0x58, 0x54, 0xA6, 0x40, 0, 0, 0, 0, 0, 0, 0, 0, 0, 0, 0, 0, 0, 0, 0, 0, 0, 0, 0]"

definition axis_stamp :: pytext where "axis_stamp = asc ''1970-01-01T00:00:00.000000Z''"

definition axis_document :: session_config where
  "axis_document = \<lparr>session_id = asc ''S'', source_system = asc ''x'', synthetic = False, mode = EXISTING,
     endpoint = [], allow_remote = False, federation_name = [], federate_name = [],
     profile_declaration = [], time_policy = ExternalElapsed axis_stamp (asc ''UTC''), force_map = []\<rparr>"

definition axis_config :: ValidatedConfig where
  "axis_config = \<lparr>document = axis_document, vc_epoch = Some 0\<rparr>"

definition axis_env :: projector_env where
  "axis_env = \<lparr>pj_math = axis_ops, pj_uuid5 = (\<lambda>t. t), pj_sha256 = (\<lambda>b. replicate 32 0),
     snapshot_schema = (\<lambda>_. None), provenance_schema = (\<lambda>_. None), entity_problem = (\<lambda>_. None),
     config_schema = (\<lambda>_. None), config_order = (\<lambda>_ _. [])\<rparr>"

definition axis_slot :: "decoded \<Rightarrow> bytes \<Rightarrow> Slot" where
  "axis_slot v raw = \<lparr>slot_status = VALID, slot_value = Some v, slot_hex = Some raw, slot_seq = Some 1,
     slot_elapsed = Some 0, slot_effective = Some axis_stamp\<rparr>"

definition axis_snapshot :: snapshot where
  "axis_snapshot = \<lparr>sn_name = asc ''n'', sn_class = asc ''c'', sn_lifecycle = ACTIVE,
     sn_identity = Some (1, 2, 3), sn_incarnation = Some 1,
     sn_attributes =
       [(ENTITY_IDENTIFIER, axis_slot (DEntityIdentifier \<lparr>site = 1, application = 2, entity = 3\<rparr>) [0, 1, 0, 2, 0, 3]),
        (ENTITY_TYPE, axis_slot (DEntityType \<lparr>kind = 1, domain = 0, country = 0, category = 0, subcategory = 0,
           specific = 0, extra = 0\<rparr>) [1, 0, 0, 0, 0, 0, 0, 0]),
        (FORCE_IDENTIFIER, ABSENT_SLOT), (SPATIAL, axis_slot (DSpatial (axis_spatial WGS84_A)) axis_octets)],
     sn_changed = [], sn_status = SUPPRESSED, sn_reasons = [], sn_revision = 0\<rparr>"

definition axis_context :: projection_context where
  "axis_context = \<lparr>cx_config = Validated axis_config, cx_generation = 1, cx_token = Tok 1,
     cx_identity = Some (1, 2, 3), cx_incarnation = Some 1, cx_seq = 1, cx_sha256 = replicate 32 0,
     cx_complete = None\<rparr>"

lemma axis_time: "format_microsecond 0 = Inr axis_stamp"
proof -
  have "Hla_Time.fields 0 = Inr \<lparr>f_year = 1970, f_month = 1, f_day = 1, f_hour = 0, f_minute = 0,
      f_second = 0, f_fraction = 0\<rparr>"
    by code_simp
  moreover have "zpad 4 1970 = asc ''1970''" "zpad 2 1 = asc ''01''" "zpad 2 0 = asc ''00''"
    "zpad 6 0 = asc ''000000''"
    by (simp_all add: zpad_def Let_def dec.simps) (simp_all add: numeral_nat)
  ultimately show ?thesis
    by (simp add: format_microsecond_def stamp_text_def axis_stamp_def)
qed

lemma axis_octets_decoded: "decode_attribute SPATIAL axis_octets = Inr (DSpatial (axis_spatial WGS84_A))"
proof -
  have v: "well_laid_out (variant 1 WORLD 48 None None None) axis_octets"
    by (simp add: well_laid_out_def VARIANTS_def axis_octets_def)
  have "unpack_float FLOAT64 axis_octets 24 = WGS84_A" "unpack_float FLOAT64 axis_octets 16 = 0"
    "unpack_float FLOAT64 axis_octets 8 = 0"
    by (simp_all add: axis_octets_def be_value_def WGS84_A_def)
  moreover have "unpack_float FLOAT32 axis_octets 36 = 0" "unpack_float FLOAT32 axis_octets 40 = 0"
    "unpack_float FLOAT32 axis_octets 44 = 0"
    by (simp_all add: axis_octets_def be_value_def widen_def float_of_parts_def)
  moreover have "drop 1 (take 8 axis_octets) @ drop 33 (take 36 axis_octets) = replicate 10 0"
    "axis_octets ! 0 = 1" "axis_octets ! 32 = 0"
    by (simp_all add: axis_octets_def numeral_nat)
  ultimately have "spatial_value axis_octets = Inr (axis_spatial WGS84_A)"
    unfolding spatial_value_laid_out [OF v] using axis_bits(1,2)
    by (simp add: float_fields_def POSITION_OFFSETS_def ORIENTATION_OFFSETS_def
        found_or_def spatial_of_def axis_spatial_def Let_def del: unpack_float.simps)
  then show ?thesis by (simp add: decode_spatial_short axis_octets_def)
qed

lemma axis_sound:
  "n \<in> set NAMES \<Longrightarrow> sound_slot n (Some 0) 1 (slot_at (sn_attributes axis_snapshot) n)"
proof -
  have t: "expected_time (Some 0) 0 = Inr (Some axis_stamp)"
    by (simp add: expected_time_def utc_constants axis_time timed_def days_from_civil_def)
  have i: "decode_attribute ENTITY_IDENTIFIER [0, 1, 0, 2, 0, 3] =
      Inr (DEntityIdentifier \<lparr>site = 1, application = 2, entity = 3\<rparr>)"
    "decode_attribute ENTITY_TYPE [1, 0, 0, 0, 0, 0, 0, 0] = Inr (DEntityType \<lparr>kind = 1, domain = 0, country = 0,
       category = 0, subcategory = 0, specific = 0, extra = 0\<rparr>)"
    using names_distinct
    by (simp_all add: decode_attribute_def Let_def fixed_lengths exact_length_def u16_def u8_def be_value_def)
  show "n \<in> set NAMES \<Longrightarrow> ?thesis"
    using t i axis_octets_decoded names_distinct
    by (auto simp: NAMES_def axis_snapshot_def slot_at_def axis_slot_def sound_slot_def)
qed

lemma axis_epoch: "epoch_microsecond axis_document = Inr (Some 0)"
  using format_microsecond_parses [OF axis_time]
  by (simp add: epoch_microsecond_def axis_document_def)

lemma axis_projectable: "projectable_state axis_config axis_snapshot axis_context"
proof -
  have "slot_at (sn_attributes axis_snapshot) ENTITY_IDENTIFIER =
      axis_slot (DEntityIdentifier \<lparr>site = 1, application = 2, entity = 3\<rparr>) [0, 1, 0, 2, 0, 3]"
    by (simp add: axis_snapshot_def slot_at_def)
  then have "claimed_identity axis_snapshot axis_context"
    by (simp add: claimed_identity_def axis_context_def the_identifier_def axis_slot_def triple_of_def
        identifier_fields_def MAX_IDENTIFIER_FIELD_def is_counter_def MAX_EXACT_INTEGER_def)
      (simp add: axis_snapshot_def)
  moreover have "map fst (sn_attributes axis_snapshot) = NAMES" by (simp add: axis_snapshot_def NAMES_def)
  moreover have "token_form (Tok 1)" by (simp add: token_form_def token_text_def dec.simps TOKEN_MAX_CHARS_def)
  moreover have "carriable_text (asc ''n'')" "carriable_text (asc ''c'')"
    by (simp_all add: carriable_text_def has_surrogate_def utf8_length_def)
  ultimately show ?thesis
    using axis_sound axis_epoch unfolding projectable_state_def
    by (simp add: axis_config_def axis_context_def axis_document_def is_counter_def MAX_EXACT_INTEGER_def
        session_id_form_def session_char_def) (simp add: axis_snapshot_def)
qed

lemma axis_eligible: "applying_reasons axis_env axis_snapshot False = []"
proof -
  have "unprojectable axis_env axis_snapshot \<longleftrightarrow> False"
    using axis_projected names_distinct
    by (simp add: unprojectable_def axis_snapshot_def slot_at_def axis_slot_def the_spatial_def axis_env_def)
  then show ?thesis using names_distinct unfolding applying_Nil
    by (simp add: axis_snapshot_def slot_at_def axis_slot_def the_identifier_def triple_of_def)
qed

lemma axis_answers: "\<exists>r. project_from_reducer axis_env axis_snapshot axis_context = Inr r"
  using answers_unrefused [of axis_env axis_config] axis_projectable by (simp add: answers_def axis_env_def)

lemma axis_policy: "cx_config axis_context = Validated axis_config"
  "(time_policy (document axis_config) = TimeNone) = False"
  by (simp_all add: axis_context_def axis_config_def axis_document_def)

text \<open>A CDM that refuses every Entity which is not well made.\<close>

definition strict_env :: projector_env where
  "strict_env = axis_env\<lparr>entity_problem := (\<lambda>e. if well_made axis_env e then None else Some ''not well made'')\<rparr>"

lemma strict_accepts: "cdm_accepts strict_env" "math_ranges (pj_math strict_env)"
  using axis_ranges by (simp_all add: cdm_accepts_def strict_env_def well_made_def axis_env_def)

lemma axis_carriable: "carriable_session (document axis_config)"
  by (simp add: carriable_session_def axis_config_def axis_document_def free_of_surrogates_def)

theorem projection_total_witness:
  "\<exists>r. project_from_reducer strict_env axis_snapshot axis_context = Inr r"
  using projection_total [OF axis_projectable axis_carriable strict_accepts(2,1)] by auto

theorem own_checks_hold_witness:
  "\<forall>m. project_from_reducer axis_env axis_snapshot axis_context \<noteq> Inl (Defect m)"
  using own_checks_hold [of axis_env axis_snapshot axis_context] by (simp add: axis_env_def)

theorem projection_decides_witness:
  "\<exists>e. project_from_reducer axis_env axis_snapshot axis_context = Inr (Projected e)"
proof -
  obtain r where r: "project_from_reducer axis_env axis_snapshot axis_context = Inr r"
    using axis_answers by blast
  from projection_decides [OF r axis_policy(1)] show ?thesis
    unfolding axis_policy(2) axis_eligible using r by (cases r) simp_all
qed

theorem projected_content_witness:
  "\<exists>e. project_from_reducer axis_env axis_snapshot axis_context = Inr (Projected e) \<and>
     hb_spatial (en_hla e) = axis_spatial WGS84_A"
proof -
  obtain r where r: "project_from_reducer axis_env axis_snapshot axis_context = Inr r"
    using axis_answers by blast
  obtain e where e: "r = Projected e"
    using verdict_exact [OF r axis_policy(1) refl] unfolding axis_policy(2) axis_eligible by auto
  have "slot_value (slot_at (sn_attributes axis_snapshot) SPATIAL) = Some (DSpatial (axis_spatial WGS84_A))"
    using names_distinct by (simp add: axis_snapshot_def slot_at_def axis_slot_def)
  with projected_content [OF r [unfolded e] axis_policy(1)] r e show ?thesis by auto
qed

end
