(* ===== verification/Hla_Reducer.thy ===== *)
theory Hla_Reducer
  imports Hla_Projector "HOL-Library.Product_Lexorder"
begin

text \<open>
  The state reducer, \<^verbatim>\<open>packages/hla/src/synapse_hla/reducer.py\<close>: one capture frame turns a
  state into the next and the frame's ordered output records. Dictionaries keep the source's
  insertion order; a frozenset is a list without repetitions. The work of one frame (\<open>_Step\<close>) is
  the state extended with what the frame has gathered so far.
\<close>

section \<open>The state\<close>

definition ABSENT_SLOTS :: "Slot list" where
  "ABSENT_SLOTS = replicate (length NAMES) ABSENT_SLOT"

definition raw_bytes :: "Slot \<Rightarrow> nat" where
  "raw_bytes s = (case slot_hex s of None \<Rightarrow> 0 | Some h \<Rightarrow> length h)"

record ObjectState =
  ob_name :: pytext
  ob_class :: pytext
  ob_lifecycle :: lifecycle
  ob_identity :: "identity_triple option"
  ob_incarnation :: "nat option"
  ob_entity_id :: "pytext option"
  ob_slots :: "Slot list"
  ob_revision :: nat
  ob_eligible :: bool
  ob_warned :: "nat list"
  ob_mark :: "int option"

definition ob_slot :: "ObjectState \<Rightarrow> pytext \<Rightarrow> Slot" where
  "ob_slot obj name = ob_slots obj ! name_index name"

definition cached_bytes :: "ObjectState \<Rightarrow> nat" where
  "cached_bytes obj = sum_list (map raw_bytes (ob_slots obj))"

record ReducerState =
  rs_limits :: Limits
  rs_config :: ValidatedConfig
  rs_complete :: "bool option"
  rs_rules :: LineRules
  rs_generation :: "nat option"
  rs_objects :: "(token, ObjectState) dict"
  rs_removed :: "token list"
  rs_seen :: "token list"
  rs_index :: "(identity_triple, token) dict"
  rs_incarnations :: "(identity_triple, nat) dict"
  rs_cache :: int
  rs_terminal :: bool
  rs_tokens_before :: nat

definition distinct_tokens :: "'a ReducerState_scheme \<Rightarrow> nat" where
  "distinct_tokens st = rs_tokens_before st + length (rs_seen st)"

datatype lifecycle_reason =
    REASON_REMOVED | GENERATION_END | INVALID_REQUIRED_ATTRIBUTE | IDENTITY_CHANGED
  | IDENTITY_COLLISION | RETRACTION_UNSUPPORTED | PROJECTION_UNAVAILABLE

datatype record_kind = KDiagnostic | KInvalidated | KRemoved | KSnapshot | KUpsert

datatype output_payload =
    PDiagnostic severity_level string pytext nat nat "token option" "pytext option"
  | PEnd lifecycle_reason nat
  | PSnapshot snapshot
  | PUpsert cdm_entity

record output_record =
  or_version :: nat
  or_session :: pytext
  or_seq :: nat
  or_ordinal :: nat
  or_generation :: nat
  or_kind :: record_kind
  or_token :: "token option"
  or_entity_id :: "pytext option"
  or_revision :: "nat option"
  or_complete :: "bool option"
  or_payload :: output_payload

type_synonym pending_diagnostic = "string \<times> pytext option \<times> token option \<times> pytext"

record Step = ReducerState +
  st_frame :: frame
  st_diagnostics :: "pending_diagnostic list"
  st_invalidations :: "(token \<times> lifecycle_reason \<times> pytext option \<times> nat) list"
  st_removals :: "(token \<times> pytext option \<times> nat) list"
  st_snapshot :: "(token \<times> snapshot) option"
  st_upsert :: "(token \<times> pytext option \<times> nat \<times> cdm_entity) option"

record reducer_env =
  rd_capture :: writing_env
  rd_projector :: projector_env

section \<open>Messages\<close>

definition OUTPUT_VERSION :: nat where "OUTPUT_VERSION = 1"

definition FOM_UNVERIFIED_DECLARATION :: string where
  "FOM_UNVERIFIED_DECLARATION = DECLARATION_FOR_MODE EXISTING"

definition MESSAGES :: "(string, string) dict" where
  "MESSAGES =
    [(''W_FOM_UNVERIFIED'', ''the federation's FOM is declared unverified: names were resolved, type definitions were not proven''),
     (''W_DUPLICATE_DISCOVERY'', ''the object was discovered again with the same name and reported class''),
     (''W_DUPLICATE_REMOVE'', ''the object was already removed in this generation''),
     (''E_UNKNOWN_OBJECT'', ''the frame names a token that is not a discovered, unremoved object''),
     (''E_RETRACTION_UNSUPPORTED'', ''a retractable update cannot be undone by replay and is not applied''),
     (''E_IDENTITY_CHANGED'', ''the object asserted another EntityIdentifier than the identity it established''),
     (''E_IDENTITY_COLLISION'', ''another object of the generation holds this EntityIdentifier''),
     (''E_NULL_ID'', ''the EntityIdentifier is the null identifier and identifies no entity''),
     (''E_ECEF_RANGE'', ''the Spatial position lies outside the geographic projection gate''),
     (''E_GEODESY'', ''the Spatial position does not convert to WGS84 coordinates''),
     (''E_TIME_REGRESSION'', ''the Spatial effective time is earlier than that of the last accepted Spatial value''),
     (''W_TIME_UNRESOLVED'', ''the state is complete but has no external time context''),
     (''W_FORCE_UNMAPPED'', ''the ForceIdentifier value is not in the configured force_map'')]"

definition REDISCOVERED :: string where
  "REDISCOVERED = ''the object was discovered again with another name or reported class''"
definition DISCOVERED_REMOVED :: string where
  "DISCOVERED_REMOVED = ''a removed object's token was discovered again''"
definition TOO_MANY_ATTRIBUTES :: string where
  "TOO_MANY_ATTRIBUTES = ''the reflection supplies more attributes than a reflection may''"
definition TOO_MANY_BYTES :: string where
  "TOO_MANY_BYTES = ''the reflection would take the generation's cached attribute bytes past their limit''"
definition TOO_MANY_OBJECTS :: string where
  "TOO_MANY_OBJECTS = ''the generation already holds as many active objects as it may''"
definition TOO_MANY_TOKENS :: string where
  "TOO_MANY_TOKENS = ''the session already holds as many object tokens as it may''"

section \<open>Small steps\<close>

definition put :: "token \<Rightarrow> ObjectState \<Rightarrow> Step \<Rightarrow> Step" where
  "put tok obj s = s \<lparr>rs_objects := AList.update tok obj (rs_objects s)\<rparr>"

definition see :: "token \<Rightarrow> Step \<Rightarrow> Step" where
  "see tok s = s \<lparr>rs_seen := List.insert tok (rs_seen s)\<rparr>"

definition clear_generation :: "nat option \<Rightarrow> Step \<Rightarrow> Step" where
  "clear_generation generation s =
     s \<lparr>rs_tokens_before := rs_tokens_before s + length (rs_seen s), rs_generation := generation,
        rs_objects := [], rs_removed := [], rs_seen := [], rs_index := [], rs_incarnations := [],
        rs_cache := 0, rs_terminal := False\<rparr>"

definition diagnose_with :: "string \<Rightarrow> pytext option \<Rightarrow> token option \<Rightarrow> pytext \<Rightarrow> Step \<Rightarrow> Step" where
  "diagnose_with code attribute tok message s =
     s \<lparr>st_diagnostics := st_diagnostics s @ [(code, attribute, tok, message)]\<rparr>"

definition diagnose :: "string \<Rightarrow> pytext option \<Rightarrow> token option \<Rightarrow> Step \<Rightarrow> Step" where
  "diagnose code attribute tok s = diagnose_with code attribute tok (asc (the (map_of MESSAGES code))) s"

definition limit_reached :: "token \<Rightarrow> string \<Rightarrow> Step \<Rightarrow> Step" where
  "limit_reached tok message s =
     (diagnose_with ''E_LIMIT'' None (Some tok) (asc message) s) \<lparr>rs_terminal := True\<rparr>"

definition invalidate :: "token \<Rightarrow> lifecycle_reason \<Rightarrow> ObjectState \<Rightarrow> Step \<Rightarrow> Step" where
  "invalidate tok reason obj s =
     s \<lparr>st_invalidations := st_invalidations s @ [(tok, reason, ob_entity_id obj, ob_revision obj)]\<rparr>"

text \<open>\<open>_token_admitted\<close>: the verdict and the step, with E_LIMIT when it is one token too many.\<close>

definition token_admitted :: "token \<Rightarrow> Step \<Rightarrow> bool \<times> Step" where
  "token_admitted tok s =
     (if tok \<in> set (rs_seen s) then (True, s)
      else if object_tokens_per_session (rs_limits s) < rs_tokens_before s + length (rs_seen s) + 1
        then (False, limit_reached tok TOO_MANY_TOKENS s)
      else (True, s))"

section \<open>Discovery, removal and unknown objects\<close>

definition new_object :: "pytext \<Rightarrow> pytext \<Rightarrow> ObjectState" where
  "new_object name reported_class =
     \<lparr>ob_name = name, ob_class = reported_class, ob_lifecycle = ACTIVE, ob_identity = None,
      ob_incarnation = None, ob_entity_id = None, ob_slots = ABSENT_SLOTS, ob_revision = 0,
      ob_eligible = False, ob_warned = [], ob_mark = None\<rparr>"

definition discover :: "token \<Rightarrow> pytext \<Rightarrow> pytext \<Rightarrow> Step \<Rightarrow> Step" where
  "discover tok name reported_class s =
     (case map_of (rs_objects s) tok of
        Some known \<Rightarrow>
          (if ob_name known = name \<and> ob_class known = reported_class
           then diagnose ''W_DUPLICATE_DISCOVERY'' None (Some tok) s
           else (diagnose_with ''E_CAPTURE_SCHEMA'' None (Some tok) (asc REDISCOVERED) s)
                  \<lparr>rs_terminal := True\<rparr>)
      | None \<Rightarrow>
          (if tok \<in> set (rs_removed s)
           then (diagnose_with ''E_CAPTURE_SCHEMA'' None (Some tok) (asc DISCOVERED_REMOVED) s)
                  \<lparr>rs_terminal := True\<rparr>
           else
             (let (admitted, s) = token_admitted tok s in
              if \<not> admitted then s
              else if active_objects_per_generation (rs_limits s) < length (rs_objects s) + 1
                then limit_reached tok TOO_MANY_OBJECTS s
              else put tok (new_object name reported_class) (see tok s))))"

definition unknown_object :: "token \<Rightarrow> Step \<Rightarrow> Step" where
  "unknown_object tok s =
     (let (admitted, s) = token_admitted tok s in
      if admitted then diagnose ''E_UNKNOWN_OBJECT'' None (Some tok) (see tok s) else s)"

definition remove_object :: "token \<Rightarrow> bool \<Rightarrow> Step \<Rightarrow> Step" where
  "remove_object tok retractable s =
     (case map_of (rs_objects s) tok of
        None \<Rightarrow>
          (if tok \<in> set (rs_removed s) then diagnose ''W_DUPLICATE_REMOVE'' None (Some tok) s
           else unknown_object tok s)
      | Some obj \<Rightarrow>
          (if retractable then
             (let s = diagnose ''E_RETRACTION_UNSUPPORTED'' None (Some tok) s;
                  s = (if ob_eligible obj then invalidate tok RETRACTION_UNSUPPORTED obj s else s)
              in put tok (obj \<lparr>ob_lifecycle := QUARANTINED, ob_eligible := False\<rparr>) s)
           else
             (let s = s \<lparr>st_removals := st_removals s @ [(tok, ob_entity_id obj, ob_revision obj)]\<rparr>;
                  s = (case ob_identity obj of
                         None \<Rightarrow> s
                       | Some t \<Rightarrow> if map_of (rs_index s) t = Some tok
                                   then s \<lparr>rs_index := AList.delete t (rs_index s)\<rparr> else s)
              in s \<lparr>rs_cache := rs_cache s - int (cached_bytes obj),
                    rs_objects := AList.delete tok (rs_objects s),
                    rs_removed := List.insert tok (rs_removed s)\<rparr>)))"

section \<open>Evaluation\<close>

definition starts_with :: "string \<Rightarrow> string \<Rightarrow> bool" where
  "starts_with p t \<longleftrightarrow> take (length p) t = p"

definition snapshot_of :: "ObjectState \<Rightarrow> pytext list \<Rightarrow> snapshot" where
  "snapshot_of obj changed =
     \<lparr>sn_name = ob_name obj, sn_class = ob_class obj, sn_lifecycle = ob_lifecycle obj,
      sn_identity = ob_identity obj, sn_incarnation = ob_incarnation obj,
      sn_attributes = zip NAMES (ob_slots obj), sn_changed = changed, sn_status = SUPPRESSED,
      sn_reasons = [], sn_revision = ob_revision obj\<rparr>"

definition context_of :: "token \<Rightarrow> ObjectState \<Rightarrow> Step \<Rightarrow> projection_context" where
  "context_of tok obj s =
     \<lparr>cx_config = Validated (rs_config s), cx_generation = the (rs_generation s), cx_token = tok,
      cx_identity = ob_identity obj, cx_incarnation = ob_incarnation obj,
      cx_seq = frame_seq (st_frame s), cx_sha256 = frame_sha (st_frame s), cx_complete = rs_complete s\<rparr>"

text \<open>
  What follows the projector's answer: the diagnostics its reasons carry, the transition of an
  object that was eligible, the snapshot and the upsert.
\<close>

definition answer_reasons :: "projected \<Rightarrow> string list" where
  "answer_reasons answer = (case answer of Projected _ \<Rightarrow> [] | Suppressed u \<Rightarrow> su_reasons u)"

definition answer_geography :: "projected \<Rightarrow> string option" where
  "answer_geography answer = (case answer of Projected _ \<Rightarrow> None | Suppressed u \<Rightarrow> su_geography_code u)"

definition answer_eligible :: "projected \<Rightarrow> bool" where
  "answer_eligible answer = (case answer of Projected _ \<Rightarrow> True | Suppressed _ \<Rightarrow> False)"

definition reason_diagnostics :: "token \<Rightarrow> projected \<Rightarrow> Step \<Rightarrow> Step" where
  "reason_diagnostics tok answer s =
     (let reasons = answer_reasons answer;
          s = (if ''NULL_ID'' \<in> set reasons
               then diagnose ''E_NULL_ID'' (Some ENTITY_IDENTIFIER) (Some tok) s else s);
          s = (if ''GEOGRAPHY_UNPROJECTABLE'' \<in> set reasons \<and>
                  \<not> list_ex (\<lambda>r. starts_with ''MISSING_'' r \<or> starts_with ''INVALID_'' r) reasons
               then diagnose (the (answer_geography answer)) (Some SPATIAL) (Some tok) s else s)
      in if reasons = [''TIME_UNRESOLVED'']
         then diagnose ''W_TIME_UNRESOLVED'' None (Some tok) s else s)"

definition transition ::
  "token \<Rightarrow> bool \<Rightarrow> lifecycle_reason option \<Rightarrow> projected \<Rightarrow> ObjectState \<Rightarrow> Step \<Rightarrow> Step" where
  "transition tok was_eligible reason answer obj s =
     (if was_eligible \<and> \<not> answer_eligible answer
      then invalidate tok
        (case reason of Some r \<Rightarrow> r
         | None \<Rightarrow> if list_ex (starts_with ''INVALID_'') (answer_reasons answer)
                   then INVALID_REQUIRED_ATTRIBUTE else PROJECTION_UNAVAILABLE) obj s
      else s)"

definition answered :: "token \<Rightarrow> ObjectState \<Rightarrow> pytext list \<Rightarrow> bool \<Rightarrow> projected \<Rightarrow> Step \<Rightarrow> Step" where
  "answered tok obj changed supplied answer s =
     (let eligible = answer_eligible answer;
          s = s \<lparr>st_snapshot := Some (tok, snapshot_of obj changed
                  \<lparr>sn_status := (if eligible then ELIGIBLE else SUPPRESSED),
                   sn_reasons := answer_reasons answer\<rparr>)\<rparr> in
      case answer of
        Projected e \<Rightarrow>
          if supplied then
            put tok (obj \<lparr>ob_eligible := eligible, ob_revision := ob_revision obj + 1\<rparr>)
              (s \<lparr>st_upsert := Some (tok, ob_entity_id obj, ob_revision obj + 1, e)\<rparr>)
          else put tok (obj \<lparr>ob_eligible := eligible\<rparr>) s
      | Suppressed _ \<Rightarrow> put tok (obj \<lparr>ob_eligible := eligible\<rparr>) s)"

definition evaluate ::
  "reducer_env \<Rightarrow> token \<Rightarrow> bool \<Rightarrow> pytext list \<Rightarrow> bool \<Rightarrow> lifecycle_reason option \<Rightarrow> Step \<Rightarrow>
   hla_exception + Step" where
  "evaluate env tok was_eligible changed supplied reason s =
     (case map_of (rs_objects s) tok of
        None \<Rightarrow> Inl (ValueError ''KeyError'')
      | Some obj \<Rightarrow>
          rbind (project_from_reducer (rd_projector env) (snapshot_of obj changed) (context_of tok obj s)) (\<lambda>answer.
          let s = reason_diagnostics tok answer s;
              s = transition tok was_eligible reason answer obj s
          in Inr (answered tok obj changed supplied answer s)))"

section \<open>Identity\<close>

text \<open>
  \<open>_identify\<close> on the object being updated: the step, the object and the transition reason.
\<close>

definition identify ::
  "reducer_env \<Rightarrow> token \<Rightarrow> entity_identifier \<Rightarrow> ObjectState \<Rightarrow> Step \<Rightarrow>
   hla_exception + Step \<times> ObjectState \<times> lifecycle_reason option" where
  "identify env tok ident obj s =
     (let triple = triple_of ident in
      case ob_identity obj of
        Some t \<Rightarrow>
          (if triple = t then Inr (s, obj, None)
           else
             (let s = diagnose ''E_IDENTITY_CHANGED'' (Some ENTITY_IDENTIFIER) (Some tok) s in
              if ob_lifecycle obj = QUARANTINED then Inr (s, obj, None)
              else Inr (s, obj \<lparr>ob_lifecycle := QUARANTINED\<rparr>, Some IDENTITY_CHANGED)))
      | None \<Rightarrow>
          (if ob_lifecycle obj = QUARANTINED \<or> triple = (0, 0, 0) then Inr (s, obj, None)
           else case map_of (rs_index s) triple of
             Some holder \<Rightarrow>
               (let s = diagnose ''E_IDENTITY_COLLISION'' (Some ENTITY_IDENTIFIER) (Some tok) s in
                case map_of (rs_objects s) holder of
                  None \<Rightarrow> Inl (ValueError ''KeyError'')
                | Some held \<Rightarrow>
                    (let s = (if ob_lifecycle held \<noteq> QUARANTINED
                              then diagnose ''E_IDENTITY_COLLISION'' (Some ENTITY_IDENTIFIER) (Some holder) s
                              else s);
                         s = (if ob_eligible held then invalidate holder IDENTITY_COLLISION held s else s);
                         s = put holder (held \<lparr>ob_lifecycle := QUARANTINED, ob_eligible := False\<rparr>) s
                     in Inr (s, obj \<lparr>ob_lifecycle := QUARANTINED\<rparr>, Some IDENTITY_COLLISION)))
           | None \<Rightarrow>
               (let incarnation = dget (rs_incarnations s) triple 0 + 1;
                    s = s \<lparr>rs_incarnations := AList.update triple incarnation (rs_incarnations s),
                           rs_index := AList.update triple tok (rs_index s)\<rparr> in
                rbind (external_id (session_id (document (rs_config s))) (the (rs_generation s)) triple incarnation)
                  (\<lambda>external.
                rbind (entity_id (pj_uuid5 (rd_projector env)) external) (\<lambda>eid.
                Inr (s, obj \<lparr>ob_identity := Some triple, ob_incarnation := Some incarnation,
                             ob_entity_id := Some eid\<rparr>, None))))))"

section \<open>Reflection\<close>

text \<open>Every supplied attribute is decoded before anything changes.\<close>

definition decode_supplied ::
  "(pytext \<times> bytes) list \<Rightarrow>
   hla_exception + (pytext, decoded) dict \<times> (string \<times> pytext \<times> pytext) list" where
  "decode_supplied attributes =
     rfold (\<lambda>(decoded, failures) (name, raw).
       case decode_attribute name raw of
         Inr v \<Rightarrow> Inr (AList.update name v decoded, failures)
       | Inl (Refusal e) \<Rightarrow> Inr (decoded, failures @ [(e_code e, name, e_message e)])
       | Inl other \<Rightarrow> Inl other) ([], []) attributes"

definition supplied_slot :: "slot_status \<Rightarrow> decoded option \<Rightarrow> bytes \<Rightarrow> frame \<Rightarrow> pytext option \<Rightarrow> Slot" where
  "supplied_slot status v raw frame effective_at =
     \<lparr>slot_status = status, slot_value = v, slot_hex = Some raw, slot_seq = Some (frame_seq frame),
      slot_elapsed = Some (frame_elapsed frame), slot_effective = effective_at\<rparr>"

definition set_slots :: "(pytext \<times> Slot) list \<Rightarrow> Slot list \<Rightarrow> Slot list" where
  "set_slots supplied slots = fold (\<lambda>(name, x) slots. slots[name_index name := x]) supplied slots"

definition effective_of :: "Step \<Rightarrow> int option" where
  "effective_of s =
     map_option (\<lambda>e. e + int (frame_elapsed (st_frame s) div NANOSECONDS_PER_MICROSECOND)) (vc_epoch (rs_config s))"

definition apply_values ::
  "reducer_env \<Rightarrow> token \<Rightarrow> ObjectState \<Rightarrow> (pytext \<times> bytes) list \<Rightarrow> (pytext, decoded) dict \<Rightarrow>
   pytext option \<Rightarrow> Step \<Rightarrow> hla_exception + Step" where
  "apply_values env tok obj known decoded effective_at s =
     (let slots = set_slots (map (\<lambda>(name, raw).
            (name, supplied_slot VALID (map_of decoded name) raw (st_frame s) effective_at)) known) (ob_slots obj);
          effective = effective_of s;
          (slots, mark, s) =
            (if map_of decoded SPATIAL \<noteq> None \<and> effective \<noteq> None then
               (if ob_mark obj \<noteq> None \<and> the effective < the (ob_mark obj) then
                  (slots[name_index SPATIAL :=
                     (slots ! name_index SPATIAL) \<lparr>slot_status := INVALID, slot_value := None\<rparr>],
                   ob_mark obj, diagnose ''E_TIME_REGRESSION'' (Some SPATIAL) (Some tok) s)
                else (slots, effective, s))
             else (slots, ob_mark obj, s));
          updated = obj \<lparr>ob_slots := slots, ob_mark := mark\<rparr> in
      rbind (case decoded_identifier decoded of
               None \<Rightarrow> Inr (s, updated, None)
             | Some ident \<Rightarrow> identify env tok ident updated s) (\<lambda>(s, updated, reason).
      let (updated, s) =
            (case decoded_force decoded of
               None \<Rightarrow> (updated, s)
             | Some f \<Rightarrow>
                 if map_of (force_map (document (rs_config s))) (dec f) = None \<and> f \<notin> set (ob_warned obj)
                 then (updated \<lparr>ob_warned := List.insert f (ob_warned obj)\<rparr>,
                       diagnose ''W_FORCE_UNMAPPED'' (Some FORCE_IDENTIFIER) (Some tok) s)
                 else (updated, s))
      in evaluate env tok (ob_eligible obj) (map fst known) True reason (put tok updated s)))"

definition apply_reflection ::
  "reducer_env \<Rightarrow> token \<Rightarrow> ObjectState \<Rightarrow> (pytext \<times> bytes) list \<Rightarrow> (pytext \<times> bytes) list \<Rightarrow> Step \<Rightarrow>
   hla_exception + Step" where
  "apply_reflection env tok obj attributes known s =
     rbind (decode_supplied attributes) (\<lambda>(decoded, failures).
     rbind (case effective_of s of None \<Rightarrow> Inr None
            | Some e \<Rightarrow> rbind (timed (format_microsecond e)) (\<lambda>t. Inr (Some t))) (\<lambda>effective_at.
     if failures \<noteq> [] then
       (let s = fold (\<lambda>(code, name, message). diagnose_with code (Some name) (Some tok) message) failures s;
            slots = set_slots (map (\<lambda>(name, raw).
              (name, supplied_slot INVALID None raw (st_frame s) effective_at)) known) (ob_slots obj)
        in evaluate env tok (ob_eligible obj) (map fst known) False None
             (put tok (obj \<lparr>ob_slots := slots\<rparr>) s))
     else apply_values env tok obj known decoded effective_at s))"

definition reflect ::
  "reducer_env \<Rightarrow> token \<Rightarrow> (pytext \<times> bytes) list \<Rightarrow> bool \<Rightarrow> Step \<Rightarrow> hla_exception + Step" where
  "reflect env tok attributes retractable s =
     (if attributes_per_reflection (rs_limits s) < length attributes
        then Inr (limit_reached tok TOO_MANY_ATTRIBUTES s)
      else case map_of (rs_objects s) tok of
        None \<Rightarrow> Inr (unknown_object tok s)
      | Some obj \<Rightarrow>
          (let known = filter (\<lambda>(name, _). name \<in> set NAMES) attributes in
           if retractable then
             (let s = diagnose ''E_RETRACTION_UNSUPPORTED'' None (Some tok) s;
                  quarantined = obj \<lparr>ob_lifecycle := QUARANTINED\<rparr> in
              if attributes \<noteq> [] then
                evaluate env tok (ob_eligible obj) (map fst known) False (Some RETRACTION_UNSUPPORTED)
                  (put tok quarantined s)
              else
                (let s = (if ob_eligible obj then invalidate tok RETRACTION_UNSUPPORTED obj s else s)
                 in Inr (put tok (quarantined \<lparr>ob_eligible := False\<rparr>) s)))
           else if attributes = [] then Inr s
           else
             (let budget = rs_cache s +
                sum_list (map (\<lambda>(name, raw). int (length raw) - int (raw_bytes (ob_slot obj name))) known) in
              if int (cached_attribute_bytes_per_generation (rs_limits s)) < budget
                then Inr (limit_reached tok TOO_MANY_BYTES s)
              else apply_reflection env tok obj attributes known (s \<lparr>rs_cache := budget\<rparr>))))"

section \<open>One frame\<close>

definition run_event :: "reducer_env \<Rightarrow> Step \<Rightarrow> hla_exception + Step" where
  "run_event env s =
     (case frame_event (st_frame s) of
        GenerationStart federation \<Rightarrow>
          (let s = clear_generation (Some (frame_generation (st_frame s))) s in
           if profile_declaration (document (rs_config s)) = FOM_UNVERIFIED_DECLARATION
           then Inr (diagnose ''W_FOM_UNVERIFIED'' None None s) else Inr s)
      | GenerationEnd why \<Rightarrow>
          (let s = s \<lparr>st_invalidations := st_invalidations s @
                 map (\<lambda>(tok, obj). (tok, GENERATION_END, ob_entity_id obj, ob_revision obj))
                   (filter (\<lambda>(tok, obj). ob_entity_id obj \<noteq> None) (rs_objects s))\<rparr>
           in Inr (clear_generation None s))
      | Diagnostic tok captured \<Rightarrow>
          Inr (diagnose_with (cd_code captured) (cd_attribute captured) tok (cd_message captured) s)
      | Discover tok name reported_class \<Rightarrow> Inr (discover tok name reported_class s)
      | Reflect tok attributes how retractable \<Rightarrow> reflect env tok attributes retractable s
      | Remove tok how retractable \<Rightarrow> Inr (remove_object tok retractable s))"

definition token_order :: "token option \<Rightarrow> int" where
  "token_order tok = (case tok of None \<Rightarrow> -1 | Some t \<Rightarrow> int (token_number t))"

definition diagnostic_key :: "pending_diagnostic \<Rightarrow> string \<times> bool \<times> pytext \<times> int" where
  "diagnostic_key d =
     (case d of (code, attribute, tok, message) \<Rightarrow>
        (code, attribute \<noteq> None, (case attribute of None \<Rightarrow> [] | Some a \<Rightarrow> a), token_order tok))"

definition entity_id_after :: "Step \<Rightarrow> token option \<Rightarrow> pytext option" where
  "entity_id_after s tok =
     (case tok of None \<Rightarrow> None
      | Some t \<Rightarrow> (case map_of (rs_objects s) t of None \<Rightarrow> None | Some obj \<Rightarrow> ob_entity_id obj))"

text \<open>A record before its envelope: kind, token, entity id, revision and payload.\<close>

type_synonym record_body =
  "record_kind \<times> token option \<times> pytext option \<times> nat option \<times> output_payload"

definition diagnostic_body :: "Step \<Rightarrow> pending_diagnostic \<Rightarrow> hla_exception + record_body" where
  "diagnostic_body s d =
     (case d of (code, attribute, tok, message) \<Rightarrow>
        (case severity code of
           None \<Rightarrow> Inl (ValueError ''not a catalogue code'')
         | Some sev \<Rightarrow>
             Inr (KDiagnostic, tok, entity_id_after s tok, None,
               PDiagnostic sev code message (frame_seq (st_frame s)) (frame_generation (st_frame s)) tok attribute)))"

definition diagnostic_bodies :: "Step \<Rightarrow> hla_exception + record_body list" where
  "diagnostic_bodies s =
     rfold (\<lambda>bodies d. rbind (diagnostic_body s d) (\<lambda>b. Inr (bodies @ [b]))) []
       (sort_key diagnostic_key (st_diagnostics s))"

definition other_bodies :: "Step \<Rightarrow> record_body list" where
  "other_bodies s =
     map (\<lambda>(tok, reason, eid, revision). (KInvalidated, Some tok, eid, None, PEnd reason revision))
       (sort_key (\<lambda>(tok, _). token_order (Some tok)) (st_invalidations s)) @
     map (\<lambda>(tok, eid, revision). (KRemoved, Some tok, eid, None, PEnd REASON_REMOVED revision))
       (st_removals s) @
     (case st_snapshot s of None \<Rightarrow> []
      | Some (tok, p) \<Rightarrow> [(KSnapshot, Some tok, entity_id_after s (Some tok), None, PSnapshot p)]) @
     (case st_upsert s of None \<Rightarrow> []
      | Some (tok, eid, revision, p) \<Rightarrow> [(KUpsert, Some tok, eid, Some revision, PUpsert p)])"

definition envelope :: "Step \<Rightarrow> nat \<Rightarrow> record_body \<Rightarrow> output_record" where
  "envelope s ordinal body =
     (case body of (knd, tok, eid, revision, p) \<Rightarrow>
        \<lparr>or_version = OUTPUT_VERSION, or_session = session_id (document (rs_config s)),
         or_seq = frame_seq (st_frame s), or_ordinal = ordinal,
         or_generation = frame_generation (st_frame s), or_kind = knd, or_token = tok,
         or_entity_id = eid, or_revision = revision, or_complete = rs_complete s, or_payload = p\<rparr>)"

section \<open>The checks of a frame's records\<close>

definition RANK :: "record_kind \<Rightarrow> nat" where
  "RANK k = (case k of KDiagnostic \<Rightarrow> 0 | KInvalidated \<Rightarrow> 1 | KRemoved \<Rightarrow> 2 | KSnapshot \<Rightarrow> 3 | KUpsert \<Rightarrow> 4)"

definition sorted_unique :: "'a::linorder list \<Rightarrow> bool" where
  "sorted_unique values = (values = sort (remdups values))"

definition end_reason :: "output_payload \<Rightarrow> lifecycle_reason option" where
  "end_reason p = (case p of PEnd r _ \<Rightarrow> Some r | _ \<Rightarrow> None)"

fun is_remove :: "event \<Rightarrow> bool" where
  "is_remove (Remove _ _ _) = True"
| "is_remove _ = False"

fun is_generation_end :: "event \<Rightarrow> bool" where
  "is_generation_end (GenerationEnd _) = True"
| "is_generation_end _ = False"

definition record_problem_list :: "frame \<Rightarrow> nat \<Rightarrow> output_record \<Rightarrow> (bool \<times> string) list" where
  "record_problem_list frame ordinal r =
     (let p = or_payload r; ends = is_generation_end (frame_event frame) in
      [(or_version r \<noteq> OUTPUT_VERSION \<or> or_ordinal r \<noteq> ordinal \<or> or_seq r \<noteq> frame_seq frame \<or>
          or_generation r \<noteq> frame_generation frame,
          ''the envelope's version, ordinal, seq or generation is not the frame's''),
       ((or_revision r \<noteq> None) \<noteq> (or_kind r = KUpsert),
          ''a revision on a record other than an upsert, or an upsert without one''),
       (or_kind r = KRemoved \<and> (end_reason p \<noteq> Some REASON_REMOVED \<or> \<not> is_remove (frame_event frame)),
          ''a removed record whose reason is not removed or whose frame is not a remove''),
       (or_kind r = KInvalidated \<and> (end_reason p = Some REASON_REMOVED \<or>
            (end_reason p = Some GENERATION_END) \<noteq> ends),
          ''an invalidated record with reason removed, or generation_end out of place''),
       (case p of PUpsert e \<Rightarrow> or_entity_id r \<noteq> Some (en_entity_id e) | _ \<Rightarrow> False,
          ''an upsert whose envelope entity_id is not its Entity's''),
       (case p of PDiagnostic sev code _ _ _ tok _ \<Rightarrow>
            \<not> is_code code \<or> severity code \<noteq> Some sev \<or> tok \<noteq> or_token r
          | _ \<Rightarrow> False,
          ''a diagnostic whose code, severity or token contradicts the contract''),
       (case p of PSnapshot sn \<Rightarrow>
            \<not> sorted_unique (sn_reasons sn) \<or> \<not> list_all (\<lambda>x. x \<in> set REASONS) (sn_reasons sn) \<or>
            (sn_status sn = ELIGIBLE) \<noteq> (sn_reasons sn = []) \<or> \<not> sorted_unique (sn_changed sn)
          | _ \<Rightarrow> False,
          ''a snapshot's reasons or changed attributes are not sorted, unique and of the vocabulary, or its status contradicts them'')])"

definition count_kind :: "record_kind \<Rightarrow> output_record list \<Rightarrow> nat" where
  "count_kind k rs = length (filter (\<lambda>r. or_kind r = k) rs)"

definition frame_problem_list :: "frame \<Rightarrow> output_record list \<Rightarrow> (bool \<times> string) list" where
  "frame_problem_list frame rs =
     [(\<not> sorted (map (RANK \<circ> or_kind) rs), ''the records are not in R33's order''),
      (1 < count_kind KSnapshot rs \<or> 1 < count_kind KUpsert rs,
         ''more than one snapshot or upsert in one frame''),
      (0 < count_kind KUpsert rs \<and> (count_kind KSnapshot rs = 0 \<or>
         or_token (rs ! (length rs - 1)) \<noteq> or_token (rs ! (length rs - 2))),
         ''an upsert that does not follow its object's snapshot''),
      (is_generation_end (frame_event frame) \<and> list_ex (\<lambda>r. or_kind r \<noteq> KInvalidated) rs,
         ''a generation_end frame emits something other than invalidated records'')]"

definition check_records :: "frame \<Rightarrow> output_record list \<Rightarrow> hla_exception + unit" where
  "check_records frame rs =
     (case find fst (concat (map (\<lambda>(i, r). record_problem_list frame i r) (enumerate 0 rs)) @
         frame_problem_list frame rs) of
        None \<Rightarrow> Inr () | Some (_, problem) \<Rightarrow> Inl (Defect problem))"

section \<open>The reducer\<close>

definition step_result :: "Step \<Rightarrow> hla_exception + ReducerState \<times> output_record list" where
  "step_result s =
     rbind (diagnostic_bodies s) (\<lambda>diagnostics.
     let records = map (\<lambda>(i, b). envelope s i b) (enumerate 0 (diagnostics @ other_bodies s)) in
     rbind (check_records (st_frame s) records) (\<lambda>_.
     Inr (ReducerState.truncate s, records)))"

definition start_step :: "ReducerState \<Rightarrow> LineRules \<Rightarrow> frame \<Rightarrow> Step" where
  "start_step st rules frame =
     ReducerState.extend (st \<lparr>rs_rules := rules\<rparr>)
       (Step.fields frame [] [] [] None None)"

definition reduce_step ::
  "reducer_env \<Rightarrow> ReducerState \<Rightarrow> LineRules \<Rightarrow> frame \<Rightarrow> hla_exception + ReducerState \<times> output_record list" where
  "reduce_step env st rules frame = rbind (run_event env (start_step st rules frame)) step_result"

definition line_bytes_of :: "reducer_env \<Rightarrow> verified_record \<Rightarrow> nat \<Rightarrow> hla_exception + bytes" where
  "line_bytes_of env r n =
     (case line_of (rd_capture env) r of
        Inl (tokens, message) \<Rightarrow> Inl (HlaError ''E_CAPTURE_SCHEMA'' (at_line n tokens) message)
      | Inr raw \<Rightarrow> Inr raw)"

definition initial_state ::
  "reducer_env \<Rightarrow> header \<Rightarrow> bool option \<Rightarrow> Limits \<Rightarrow> hla_exception + ReducerState" where
  "initial_state env h complete limits =
     (let rules = line_rules limits True in
      rbind (line_bytes_of env (VHeader h) 1) (\<lambda>raw.
      rbind (check (reading_env.truncate (rd_capture env)) rules 1 raw) (\<lambda>verdict.
      case verdict of
        Inl x \<Rightarrow> Inl (refusal_of x)
      | Inr (rules, _) \<Rightarrow>
          Inr \<lparr>rs_limits = limits, rs_config = the (session rules), rs_complete = complete,
               rs_rules = rules, rs_generation = None, rs_objects = [], rs_removed = [], rs_seen = [],
               rs_index = [], rs_incarnations = [], rs_cache = 0, rs_terminal = False,
               rs_tokens_before = 0\<rparr>)))"

definition reduce_frame ::
  "reducer_env \<Rightarrow> ReducerState \<Rightarrow> verified_record \<Rightarrow> hla_exception + ReducerState \<times> output_record list" where
  "reduce_frame env st r =
     (let n = lines (rs_rules st) + 1 in
      rbind (line_bytes_of env r n) (\<lambda>raw.
      rbind (check (reading_env.truncate (rd_capture env)) (rs_rules st) n raw) (\<lambda>verdict.
      case verdict of
        Inl x \<Rightarrow> Inl (refusal_of x)
      | Inr (rules, VRecord (FrameRecord frame)) \<Rightarrow> reduce_step env st rules frame
      | Inr (rules, _) \<Rightarrow>
          Inl (HlaError ''E_CAPTURE_SCHEMA'' (at_line n [asc ''type''])
            (asc ''reduce_frame reduces frames; the footer produces no observations'')))))"

definition reduce_admitted ::
  "reducer_env \<Rightarrow> ReducerState \<Rightarrow> capture_record \<Rightarrow> hla_exception + ReducerState \<times> output_record list" where
  "reduce_admitted env st r =
     (let rules = rs_rules st in
      case r of
        FrameRecord frame \<Rightarrow>
          (if frame_seq frame \<noteq> next_seq rules \<or> Some (frame_prev frame) \<noteq> last_sha256 rules
           then Inl (ValueError ''reduce_admitted takes the next frame of this state's capture'')
           else reduce_step env st (take_record rules (lines rules + 1) (FrameRecord frame)) frame)
      | _ \<Rightarrow> Inl (ValueError ''reduce_admitted takes the next frame of this state's capture''))"

end
