(* ===== verification/Hla_Reducer_Inv.thy ===== *)
theory Hla_Reducer_Inv
  imports Hla_Reducer Hla_Projector_Correct
begin

text \<open>
  The reducer's invariant and the lemmas that each operation of a frame keeps it: what an object
  holds, how objects, index, removed and seen tokens relate, and what the cache counts.
\<close>

declare split_paired_All [simp del] split_paired_Ex [simp del]

section \<open>Slots by name\<close>

lemma name_index_simps [simp]:
  "name_index ENTITY_IDENTIFIER = 0" "name_index ENTITY_TYPE = 1" "name_index FORCE_IDENTIFIER = 2"
  "name_index SPATIAL = 3"
  using names_distinct by (simp_all add: name_index_def NAMES_def)

lemma name_index_less: "n \<in> set NAMES \<Longrightarrow> name_index n < 4"
  by (auto simp: NAMES_def)

lemma name_index_inj: "n \<in> set NAMES \<Longrightarrow> m \<in> set NAMES \<Longrightarrow> name_index n = name_index m \<longleftrightarrow> n = m"
  by (auto simp: NAMES_def)

lemma length_NAMES [simp]: "length NAMES = 4"
  by (simp add: NAMES_def)

lemma NAMES_nth: "n \<in> set NAMES \<Longrightarrow> NAMES ! name_index n = n"
  by (auto simp: NAMES_def)

lemma slot_at_zip: "length slots = 4 \<Longrightarrow> n \<in> set NAMES \<Longrightarrow> slot_at (zip NAMES slots) n = slots ! name_index n"
proof -
  assume l: "length slots = 4" and n: "n \<in> set NAMES"
  have "map_of (zip NAMES slots) (NAMES ! name_index n) = Some (slots ! name_index n)"
    by (rule map_of_zip_nth) (simp_all add: l NAMES_simps(2) name_index_less [OF n])
  then show ?thesis by (simp add: NAMES_nth [OF n] slot_at_def)
qed

lemma set_slots_simps [simp]:
  "set_slots [] slots = slots"
  "set_slots ((n, x) # supp) slots = set_slots supp (slots[name_index n := x])"
  by (simp_all add: set_slots_def)

lemma length_set_slots [simp]: "length (set_slots supp slots) = length slots"
  by (induction supp arbitrary: slots) auto

lemma set_slots_nth:
  assumes "distinct (map fst supp)" "set (map fst supp) \<subseteq> set NAMES" "n \<in> set NAMES" "length slots = 4"
  shows "set_slots supp slots ! name_index n =
    (case map_of supp n of Some x \<Rightarrow> x | None \<Rightarrow> slots ! name_index n)"
  using assms
proof (induction supp arbitrary: slots)
  case (Cons p supp)
  obtain m x where p: "p = (m, x)" by (cases p)
  have m: "m \<in> set NAMES" "m \<notin> fst ` set supp" using Cons.prems(1,2) p by auto
  have "set_slots supp (slots[name_index m := x]) ! name_index n =
      (case map_of supp n of Some x \<Rightarrow> x | None \<Rightarrow> slots[name_index m := x] ! name_index n)"
    by (rule Cons.IH) (use Cons.prems p in auto)
  moreover have "map_of supp m = None" using m(2) by (simp add: map_of_eq_None_iff)
  moreover have "slots[name_index m := x] ! name_index n = (if n = m then x else slots ! name_index n)"
    using name_index_inj [OF m(1) Cons.prems(3)] name_index_less [OF m(1)] Cons.prems(4)
    by (auto simp: nth_list_update)
  ultimately show ?case by (auto simp: p split: option.split)
qed simp

lemma sum_raw_update:
  "k < length slots \<Longrightarrow> int (sum_list (map raw_bytes (slots[k := x]))) =
     int (sum_list (map raw_bytes slots)) + int (raw_bytes x) - int (raw_bytes (slots ! k))"
proof (induction slots arbitrary: k)
  case (Cons y ys)
  then show ?case by (cases k) simp_all
qed simp

lemma sum_raw_set_slots:
  assumes "distinct (map fst supp)" "set (map fst supp) \<subseteq> set NAMES" "length slots = 4"
  shows "int (sum_list (map raw_bytes (set_slots supp slots))) = int (sum_list (map raw_bytes slots)) +
    sum_list (map (\<lambda>(n, x). int (raw_bytes x) - int (raw_bytes (slots ! name_index n))) supp)"
  using assms
proof (induction supp arbitrary: slots)
  case (Cons p supp)
  obtain m x where p: "p = (m, x)" by (cases p)
  let ?s = "slots[name_index m := x]"
  have m: "m \<in> set NAMES" "name_index m < 4" using Cons.prems(2) p name_index_less by auto
  have same: "?s ! name_index n = slots ! name_index n" if "(n, y) \<in> set supp" for n y
  proof -
    have "fst (n, y) \<in> set (map fst supp)" using that by (simp only: set_map imageI)
    then have "n \<in> set NAMES" "n \<noteq> m" using Cons.prems(1,2) p by auto
    with name_index_inj [of m n] m show ?thesis by simp
  qed
  have "int (sum_list (map raw_bytes (set_slots supp ?s))) = int (sum_list (map raw_bytes ?s)) +
      sum_list (map (\<lambda>(n, x). int (raw_bytes x) - int (raw_bytes (?s ! name_index n))) supp)"
    by (rule Cons.IH) (use Cons.prems p in auto)
  moreover have "map (\<lambda>(n, x). int (raw_bytes x) - int (raw_bytes (?s ! name_index n))) supp =
      map (\<lambda>(n, x). int (raw_bytes x) - int (raw_bytes (slots ! name_index n))) supp"
    using same by auto
  ultimately show ?case using sum_raw_update [of "name_index m" slots x] m Cons.prems(3) by (simp add: p)
qed simp

section \<open>Objects\<close>

text \<open>
  What an object holds, given the configuration, the open generation and its incarnation counters.
  \<open>sb\<close> bounds the sequence numbers of its slots, \<open>rb\<close> its revision.
\<close>

definition identity_ok ::
  "reducer_env \<Rightarrow> ValidatedConfig \<Rightarrow> nat option \<Rightarrow> (identity_triple \<Rightarrow> nat) \<Rightarrow> ObjectState \<Rightarrow> bool" where
  "identity_ok env cfg gen counts obj \<longleftrightarrow>
     (case ob_identity obj of
        None \<Rightarrow> ob_incarnation obj = None \<and> ob_entity_id obj = None
      | Some t \<Rightarrow>
          (\<exists>k ext eid. identifier_fields t = Inr t \<and> ob_incarnation obj = Some k \<and> is_counter k \<and> k \<le> counts t \<and>
             external_id (session_id (document cfg)) (the gen) t k = Inr ext \<and>
             entity_id (pj_uuid5 (rd_projector env)) ext = Inr eid \<and> ob_entity_id obj = Some eid))"

definition claims_ok :: "ObjectState \<Rightarrow> bool" where
  "claims_ok obj \<longleftrightarrow>
     (\<forall>i. ob_lifecycle obj = ACTIVE \<longrightarrow> the_identifier (ob_slot obj ENTITY_IDENTIFIER) = Some i \<longrightarrow>
        triple_of i \<noteq> (0, 0, 0) \<longrightarrow> ob_identity obj = Some (triple_of i))"

definition slots_ok :: "ValidatedConfig \<Rightarrow> nat \<Rightarrow> Slot list \<Rightarrow> bool" where
  "slots_ok cfg sb slots \<longleftrightarrow> length slots = 4 \<and>
     (\<forall>n\<in>set NAMES. sound_slot n (vc_epoch cfg) sb (slots ! name_index n))"

definition object_ok ::
  "reducer_env \<Rightarrow> ValidatedConfig \<Rightarrow> nat option \<Rightarrow> (identity_triple \<Rightarrow> nat) \<Rightarrow> nat \<Rightarrow> nat \<Rightarrow>
   token \<Rightarrow> ObjectState \<Rightarrow> bool" where
  "object_ok env cfg gen counts sb rb tok obj \<longleftrightarrow>
     token_form tok \<and> carriable_text (ob_name obj) \<and> carriable_text (ob_class obj) \<and>
     slots_ok cfg sb (ob_slots obj) \<and> identity_ok env cfg gen counts obj \<and>
     claims_ok obj \<and> ob_revision obj \<le> rb"

definition eligible_ok :: "ObjectState \<Rightarrow> bool" where
  "eligible_ok obj \<longleftrightarrow> (ob_eligible obj \<longrightarrow> ob_lifecycle obj = ACTIVE \<and> ob_identity obj \<noteq> None)"

lemma sound_slot_mono: "sound_slot n ep a s \<Longrightarrow> a \<le> b \<Longrightarrow> sound_slot n ep b s"
  unfolding sound_slot_def by (elim disjE conjE exE) (blast intro: order_trans)+

lemma object_ok_mono:
  assumes "object_ok env cfg gen counts sb rb tok obj" "sb \<le> sb'" "rb \<le> rb'" "\<And>t. counts t \<le> counts' t"
  shows "object_ok env cfg gen counts' sb' rb' tok obj"
proof -
  have "identity_ok env cfg gen counts' obj"
    using assms(1,4) unfolding object_ok_def identity_ok_def
    by (cases "ob_identity obj") (auto intro: order_trans [OF _ assms(4)])
  with assms(1-3) show ?thesis
    unfolding object_ok_def slots_ok_def by (auto intro: sound_slot_mono)
qed

section \<open>States\<close>

definition count_of :: "'a ReducerState_scheme \<Rightarrow> identity_triple \<Rightarrow> nat" where
  "count_of s t = dget (rs_incarnations s) t 0"

definition tokens_ok :: "'a ReducerState_scheme \<Rightarrow> bool" where
  "tokens_ok s \<longleftrightarrow>
     keys_distinct (rs_objects s) \<and> distinct (rs_removed s) \<and> distinct (rs_seen s) \<and>
     dkeys (rs_objects s) \<inter> set (rs_removed s) = {} \<and>
     dkeys (rs_objects s) \<union> set (rs_removed s) \<subseteq> set (rs_seen s) \<and>
     length (rs_objects s) \<le> active_objects_per_generation (rs_limits s) \<and>
     distinct_tokens s \<le> object_tokens_per_session (rs_limits s)"

definition index_ok :: "'a ReducerState_scheme \<Rightarrow> bool" where
  "index_ok s \<longleftrightarrow> keys_distinct (rs_index s) \<and>
     (\<forall>t tok. map_of (rs_index s) t = Some tok \<longleftrightarrow>
        (\<exists>obj. map_of (rs_objects s) tok = Some obj \<and> ob_identity obj = Some t))"

definition objects_ok :: "reducer_env \<Rightarrow> nat \<Rightarrow> nat \<Rightarrow> token set \<Rightarrow> 'a ReducerState_scheme \<Rightarrow> bool" where
  "objects_ok env sb rb X s \<longleftrightarrow>
     (\<forall>tok obj. map_of (rs_objects s) tok = Some obj \<longrightarrow>
        object_ok env (rs_config s) (rs_generation s) (count_of s) sb rb tok obj \<and>
        (tok \<notin> X \<longrightarrow> eligible_ok obj))"

definition session_ok :: "'a ReducerState_scheme \<Rightarrow> bool" where
  "session_ok s \<longleftrightarrow>
     epoch_microsecond (document (rs_config s)) = Inr (vc_epoch (rs_config s)) \<and>
     session_id_form (session_id (document (rs_config s))) \<and>
     (case rs_generation s of
        None \<Rightarrow> rs_objects s = [] \<and> rs_removed s = [] \<and> rs_seen s = [] \<and> rs_index s = [] \<and> rs_incarnations s = []
      | Some g \<Rightarrow> is_counter g)"

definition cache_ok :: "'a ReducerState_scheme \<Rightarrow> bool" where
  "cache_ok s \<longleftrightarrow> rs_cache s = int (dsum cached_bytes (rs_objects s)) \<and>
     rs_cache s \<le> int (cached_attribute_bytes_per_generation (rs_limits s))"

text \<open>
  \<open>sb\<close>, \<open>ib\<close> and \<open>rb\<close> bound sequence numbers, incarnation counters and revisions; the objects
  of \<open>X\<close> are those between their change and their evaluation.
\<close>

definition step_inv :: "reducer_env \<Rightarrow> nat \<Rightarrow> nat \<Rightarrow> nat \<Rightarrow> token set \<Rightarrow> 'a ReducerState_scheme \<Rightarrow> bool" where
  "step_inv env sb ib rb X s \<longleftrightarrow>
     tokens_ok s \<and> index_ok s \<and> objects_ok env sb rb X s \<and> (\<forall>t. count_of s t \<le> ib) \<and> session_ok s"

text \<open>The capture rules a state holds describe the same session as the state itself.\<close>

definition linked :: "ReducerState \<Rightarrow> bool" where
  "linked st \<longleftrightarrow>
     open_generation (rs_rules st) = rs_generation st \<and> session (rs_rules st) = Some (rs_config st) \<and>
     r_epoch (rs_rules st) = vc_epoch (rs_config st) \<and> r_limits (rs_rules st) = rs_limits st \<and>
     object_name_utf8_bytes (rs_limits st) \<le> object_name_utf8_bytes V1 \<and>
     class_name_utf8_bytes (rs_limits st) \<le> class_name_utf8_bytes V1 \<and>
     1 \<le> next_seq (rs_rules st) \<and> 1 \<le> lines (rs_rules st)"

definition reducer_inv :: "reducer_env \<Rightarrow> ReducerState \<Rightarrow> bool" where
  "reducer_inv env st \<longleftrightarrow>
     (let n = next_seq (rs_rules st) - 1 in step_inv env n n n {} st) \<and> cache_ok st \<and> linked st"

lemma step_inv_mono:
  assumes "step_inv env sb ib rb X s" "sb \<le> sb'" "ib \<le> ib'" "rb \<le> rb'" "X \<subseteq> X'"
  shows "step_inv env sb' ib' rb' X' s"
proof -
  have "count_of s t \<le> ib'" for t using assms(1,3) by (auto simp: step_inv_def intro: order_trans)
  moreover have "objects_ok env sb' rb' X' s"
    using assms unfolding step_inv_def objects_ok_def by (auto intro: object_ok_mono [OF _ assms(2,4)])
  ultimately show ?thesis using assms(1) by (simp add: step_inv_def)
qed

text \<open>What no operation within a frame changes.\<close>

definition fixed :: "Step \<Rightarrow> _" where
  "fixed s = (rs_limits s, rs_config s, rs_complete s, rs_rules s, rs_generation s, st_frame s)"

text \<open>Operations that only gather output keep the state.\<close>

definition state_part :: "Step \<Rightarrow> _" where
  "state_part s = (rs_limits s, rs_config s, rs_complete s, rs_rules s, rs_generation s, rs_objects s,
     rs_removed s, rs_seen s, rs_index s, rs_incarnations s, rs_cache s, rs_tokens_before s, st_frame s)"

lemma state_part_diagnose [simp]:
  "state_part (diagnose_with c a t m s) = state_part s" "state_part (diagnose c a t s) = state_part s"
  "state_part (limit_reached tok msg s) = state_part s" "state_part (invalidate tok r obj s) = state_part s"
  "state_part (s\<lparr>rs_terminal := b\<rparr>) = state_part s" "state_part (s\<lparr>st_snapshot := x\<rparr>) = state_part s"
  "state_part (s\<lparr>st_upsert := y\<rparr>) = state_part s" "state_part (s\<lparr>st_invalidations := i\<rparr>) = state_part s"
  "state_part (s\<lparr>st_removals := z\<rparr>) = state_part s"
  by (simp_all add: state_part_def diagnose_def diagnose_with_def limit_reached_def invalidate_def)

lemma state_partD:
  assumes "state_part s = state_part s'"
  shows "step_inv env sb ib rb X s = step_inv env sb ib rb X s'" "cache_ok s = cache_ok s'" "fixed s = fixed s'"
    "rs_objects s = rs_objects s'" "rs_index s = rs_index s'" "rs_cache s = rs_cache s'"
    "rs_incarnations s = rs_incarnations s'" "rs_seen s = rs_seen s'" "rs_removed s = rs_removed s'"
    "rs_tokens_before s = rs_tokens_before s'" "rs_limits s = rs_limits s'" "rs_config s = rs_config s'"
    "rs_generation s = rs_generation s'" "st_frame s = st_frame s'"
proof -
  from assms have fields: "rs_limits s = rs_limits s'" "rs_config s = rs_config s'" "rs_generation s = rs_generation s'"
    "rs_objects s = rs_objects s'" "rs_removed s = rs_removed s'" "rs_seen s = rs_seen s'" "rs_index s = rs_index s'"
    "rs_incarnations s = rs_incarnations s'" "rs_cache s = rs_cache s'" "rs_tokens_before s = rs_tokens_before s'"
    by (simp_all add: state_part_def)
  have counts: "count_of s = count_of s'" by (simp add: count_of_def fields fun_eq_iff)
  show "step_inv env sb ib rb X s = step_inv env sb ib rb X s'" "cache_ok s = cache_ok s'"
    unfolding counts step_inv_def tokens_ok_def index_ok_def objects_ok_def session_ok_def distinct_tokens_def
      cache_ok_def fields by (rule refl)+
qed (use assms in \<open>simp_all add: state_part_def fixed_def\<close>)

lemma fixedD:
  assumes "fixed s = fixed s'"
  shows "rs_limits s = rs_limits s'" "rs_config s = rs_config s'" "rs_generation s = rs_generation s'"
    "st_frame s = st_frame s'" "rs_rules s = rs_rules s'" "rs_complete s = rs_complete s'"
  using assms by (auto simp: fixed_def)

lemma put_simps [simp]:
  "rs_objects (put tok obj s) = AList.update tok obj (rs_objects s)" "fixed (put tok obj s) = fixed s"
  "rs_index (put tok obj s) = rs_index s" "rs_cache (put tok obj s) = rs_cache s"
  "rs_removed (put tok obj s) = rs_removed s" "rs_seen (put tok obj s) = rs_seen s"
  "rs_incarnations (put tok obj s) = rs_incarnations s" "rs_tokens_before (put tok obj s) = rs_tokens_before s"
  "rs_limits (put tok obj s) = rs_limits s" "rs_config (put tok obj s) = rs_config s"
  "rs_generation (put tok obj s) = rs_generation s" "st_frame (put tok obj s) = st_frame s"
  "rs_rules (put tok obj s) = rs_rules s" "count_of (put tok obj s) = count_of s"
  by (simp_all add: put_def fixed_def count_of_def fun_eq_iff)

text \<open>Replacing an object that is there, with the identity it has.\<close>

lemma step_inv_put:
  assumes inv: "step_inv env sb ib rb X s" and old: "map_of (rs_objects s) tok = Some old"
    and "ob_identity obj = ob_identity old"
    and ok: "object_ok env (rs_config s) (rs_generation s) (count_of s) sb rb tok obj"
    and el: "tok \<in> Y \<or> eligible_ok obj" and sub: "X \<subseteq> insert tok Y"
  shows "step_inv env sb ib rb Y (put tok obj s)"
proof -
  have in_keys: "tok \<in> dkeys (rs_objects s)" using old by (simp add: in_dkeys_iff)
  have "tokens_ok (put tok obj s)"
    using inv in_keys by (auto simp: step_inv_def tokens_ok_def distinct_tokens_def length_update)
  moreover have "index_ok (put tok obj s)"
    using inv old assms(3) unfolding step_inv_def index_ok_def by auto
  moreover have "objects_ok env sb rb Y (put tok obj s)"
    using inv ok el sub unfolding step_inv_def objects_ok_def by (auto split: if_splits)
  moreover have "session_ok (put tok obj s)"
    using inv in_keys unfolding step_inv_def session_ok_def by (auto split: option.splits)
  ultimately show ?thesis using inv by (simp add: step_inv_def)
qed

lemma dsum_put:
  assumes "keys_distinct (rs_objects s)" "map_of (rs_objects s) tok = Some old"
  shows "int (dsum cached_bytes (rs_objects (put tok obj s))) =
    int (dsum cached_bytes (rs_objects s)) + int (cached_bytes obj) - int (cached_bytes old)"
  using dsum_update_old [OF assms, of cached_bytes obj] by simp

section \<open>Output gathered so far\<close>

definition snapshot_good :: "snapshot \<Rightarrow> bool" where
  "snapshot_good sn \<longleftrightarrow> sorted_unique (sn_reasons sn) \<and> list_all (\<lambda>x. x \<in> set REASONS) (sn_reasons sn) \<and>
     (sn_status sn = ELIGIBLE \<longleftrightarrow> sn_reasons sn = []) \<and> sorted_unique (sn_changed sn)"

definition output_ok :: "Step \<Rightarrow> bool" where
  "output_ok s \<longleftrightarrow>
     list_all (\<lambda>d. is_code (fst d)) (st_diagnostics s) \<and>
     list_all (\<lambda>(tok, r, eid, k). r \<noteq> REASON_REMOVED \<and>
        (r = GENERATION_END \<longleftrightarrow> is_generation_end (frame_event (st_frame s)))) (st_invalidations s) \<and>
     (st_removals s \<noteq> [] \<longrightarrow> is_remove (frame_event (st_frame s))) \<and>
     (\<forall>tok sn. st_snapshot s = Some (tok, sn) \<longrightarrow> snapshot_good sn) \<and>
     (\<forall>tok eid k e. st_upsert s = Some (tok, eid, k, e) \<longrightarrow>
        eid = Some (en_entity_id e) \<and> (\<exists>sn. st_snapshot s = Some (tok, sn))) \<and>
     (is_generation_end (frame_event (st_frame s)) \<longrightarrow>
        st_diagnostics s = [] \<and> st_removals s = [] \<and> st_snapshot s = None \<and> st_upsert s = None)"

definition fault_reason :: "lifecycle_reason \<Rightarrow> bool" where
  "fault_reason r \<longleftrightarrow> r \<noteq> REASON_REMOVED \<and> r \<noteq> GENERATION_END"

text \<open>The frame is not the end of the generation, whose output is its own.\<close>

abbreviation within_generation :: "Step \<Rightarrow> bool" where
  "within_generation s \<equiv> \<not> is_generation_end (frame_event (st_frame s))"

lemma frame_simps [simp]:
  "st_frame (diagnose_with c a t m s) = st_frame s" "st_frame (diagnose c a t s) = st_frame s"
  "st_frame (limit_reached tok msg s) = st_frame s" "st_frame (invalidate tok r obj s) = st_frame s"
  by (simp_all add: diagnose_def diagnose_with_def limit_reached_def invalidate_def)

lemma output_ok_diagnose_with [simp]:
  "is_code c \<Longrightarrow> within_generation s \<Longrightarrow> output_ok s \<Longrightarrow> output_ok (diagnose_with c a t m s)"
  by (simp add: output_ok_def diagnose_with_def)

lemma output_ok_diagnose [simp]:
  "is_code c \<Longrightarrow> within_generation s \<Longrightarrow> output_ok s \<Longrightarrow> output_ok (diagnose c a t s)"
  by (simp add: diagnose_def)

lemma output_ok_terminal [simp]: "output_ok (s\<lparr>rs_terminal := b\<rparr>) = output_ok s"
  by (simp add: output_ok_def)

lemma output_ok_limit [simp]:
  "within_generation s \<Longrightarrow> output_ok s \<Longrightarrow> output_ok (limit_reached tok msg s)"
  by (simp add: limit_reached_def is_code_def CODES_def)

lemma output_ok_invalidate [simp]:
  "fault_reason r \<Longrightarrow> within_generation s \<Longrightarrow> output_ok s \<Longrightarrow> output_ok (invalidate tok r obj s)"
  by (simp add: output_ok_def invalidate_def fault_reason_def)

lemma output_ok_state:
  "output_ok s \<Longrightarrow> st_diagnostics s' = st_diagnostics s \<Longrightarrow> st_invalidations s' = st_invalidations s \<Longrightarrow>
   st_removals s' = st_removals s \<Longrightarrow> st_snapshot s' = st_snapshot s \<Longrightarrow> st_upsert s' = st_upsert s \<Longrightarrow>
   st_frame s' = st_frame s \<Longrightarrow> output_ok s'"
  by (simp add: output_ok_def)

lemma output_ok_put [simp]: "output_ok (put tok obj s) = output_ok s"
  by (simp add: output_ok_def put_def)

lemma catalogue_codes:
  "is_code ''E_NULL_ID''" "is_code ''W_TIME_UNRESOLVED''" "is_code ''E_ECEF_RANGE''" "is_code ''E_GEODESY''"
  "is_code ''W_DUPLICATE_DISCOVERY''" "is_code ''E_CAPTURE_SCHEMA''" "is_code ''W_DUPLICATE_REMOVE''"
  "is_code ''E_UNKNOWN_OBJECT''" "is_code ''E_RETRACTION_UNSUPPORTED''" "is_code ''E_IDENTITY_CHANGED''"
  "is_code ''E_IDENTITY_COLLISION''" "is_code ''E_TIME_REGRESSION''" "is_code ''W_FORCE_UNMAPPED''"
  "is_code ''W_FOM_UNVERIFIED''" "is_code ''E_LIMIT''"
  by (simp_all add: is_code_def CODES_def)

section \<open>Evaluation\<close>

definition answer_good :: "projected \<Rightarrow> bool" where
  "answer_good answer \<longleftrightarrow> sorted_unique (answer_reasons answer) \<and>
     list_all (\<lambda>x. x \<in> set REASONS) (answer_reasons answer) \<and>
     (answer_eligible answer \<longleftrightarrow> answer_reasons answer = []) \<and>
     (''GEOGRAPHY_UNPROJECTABLE'' \<in> set (answer_reasons answer) \<longrightarrow>
        (\<exists>c\<in>set GEOGRAPHY_CODES. answer_geography answer = Some c))"

lemma reason_diagnostics_simps [simp]:
  "state_part (reason_diagnostics tok answer s) = state_part s"
  "st_frame (reason_diagnostics tok answer s) = st_frame s"
  "st_upsert (reason_diagnostics tok answer s) = st_upsert s"
  by (simp_all add: reason_diagnostics_def Let_def) (simp add: diagnose_def diagnose_with_def)

lemma transition_simps [simp]:
  "state_part (transition tok w r answer obj s) = state_part s"
  "st_frame (transition tok w r answer obj s) = st_frame s"
  "st_upsert (transition tok w r answer obj s) = st_upsert s"
  by (simp_all add: transition_def) (simp add: invalidate_def)

lemma output_ok_reasons:
  assumes "answer_good answer" "within_generation s" "output_ok s"
  shows "output_ok (reason_diagnostics tok answer s)"
proof -
  have "''GEOGRAPHY_UNPROJECTABLE'' \<in> set (answer_reasons answer) \<Longrightarrow> is_code (the (answer_geography answer))"
    using assms(1) catalogue_codes by (auto simp: answer_good_def GEOGRAPHY_CODES_def)
  then show ?thesis using assms(2,3) catalogue_codes by (simp add: reason_diagnostics_def Let_def)
qed

lemma output_ok_transition:
  assumes "\<And>r. reason = Some r \<Longrightarrow> fault_reason r" "within_generation s" "output_ok s"
  shows "output_ok (transition tok w reason answer obj s)"
  using assms by (auto simp: transition_def fault_reason_def split: option.split)

lemma answer_simps [simp]:
  "answer_reasons (Projected e) = []" "answer_eligible (Projected e)"
  "answer_reasons (Suppressed u) = su_reasons u" "\<not> answer_eligible (Suppressed u)"
  "answer_geography (Suppressed u) = su_geography_code u"
  by (simp_all add: answer_reasons_def answer_eligible_def answer_geography_def)

lemma projected_answer:
  assumes "project_from_reducer env snap c = Inr answer" and "cx_config c = Validated v"
  shows "answer_good answer"
    and "answer = Projected e \<Longrightarrow> sn_lifecycle snap = ACTIVE \<and>
      (\<exists>id inc ext. cx_identity c = Some id \<and> cx_incarnation c = Some inc \<and>
         external_id (session_id (document v)) (cx_generation c) id inc = Inr ext \<and>
         entity_id (pj_uuid5 env) ext = Inr (en_entity_id e))"
proof -
  from assms obtain ep d t where
    d: "decoded_attributes (sn_attributes snap) ep (cx_seq c) = Inr d"
    and a: "assess env (sn_attributes snap) d (sn_lifecycle snap) (ep = None) = Inr t"
    and t: "verdict env True snap c (document v) ep d t = Inr answer" by (rule project_stages)
  obtain rs code pr where t': "t = (rs, code, pr)" by (cases t)
  note as = assess_Inr [OF d a [unfolded t']]
  have set: "set rs = set (applying_reasons env snap (ep = None))" by (simp add: as(1))
  have "sorted_unique rs" by (simp add: sorted_unique_def as(1))
  moreover have "list_all (\<lambda>x. x \<in> set REASONS) rs"
    using applying_vocabulary [of env snap "ep = None"] set by (auto simp: list_all_iff)
  moreover have "''GEOGRAPHY_UNPROJECTABLE'' \<in> set rs \<Longrightarrow> \<exists>c\<in>set GEOGRAPHY_CODES. code = Some c"
    using as(2) geography_applies [of env snap "ep = None"] set by simp
  ultimately show "answer_good answer"
    using t [unfolded t'] by (auto elim!: verdict_cases simp: answer_good_def sorted_unique_def)
  assume "answer = Projected e"
  with t [unfolded t'] have v: "rs = []"
    "payload env snap d c (document v) (the pr)
       (the ep + int (the (slot_elapsed (slot_at (sn_attributes snap) SPATIAL)) div 1000)) = Inr e"
    by (auto elim: verdict_cases)
  have "applying_reasons env snap (ep = None) = []"
    using as(1) v(1) by (metis remdups_eq_nil_iff set_empty set_sort)
  then have "sn_lifecycle snap = ACTIVE" by (simp add: applying_Nil)
  with v(2) show "sn_lifecycle snap = ACTIVE \<and>
      (\<exists>id inc ext. cx_identity c = Some id \<and> cx_incarnation c = Some inc \<and>
         external_id (session_id (document v)) (cx_generation c) id inc = Inr ext \<and>
         entity_id (pj_uuid5 env) ext = Inr (en_entity_id e))"
    by (elim payload_Inr) (auto simp: payload_entity_sel)
qed

text \<open>What a frame that reaches an object brings with it.\<close>

definition frame_ok :: "nat \<Rightarrow> 'a ReducerState_scheme \<Rightarrow> frame \<Rightarrow> bool" where
  "frame_ok sb s frame \<longleftrightarrow> frame_seq frame = sb \<and> is_counter sb \<and> length (frame_sha frame) = 32 \<and>
     (\<exists>g. rs_generation s = Some g) \<and>
     (\<forall>e. vc_epoch (rs_config s) = Some e \<longrightarrow>
        MIN_MICROSECOND \<le> e \<and> e + int (frame_elapsed frame div 1000) \<le> MAX_MICROSECOND)"

lemma snapshot_projectable:
  assumes inv: "step_inv env sb ib rb X s" and obj: "map_of (rs_objects s) tok = Some obj"
    and f: "frame_ok sb s (st_frame s)" and ch: "set changed \<subseteq> set NAMES" and rb: "rb \<le> MAX_EXACT_INTEGER"
  shows "projectable_state (rs_config s) (snapshot_of obj changed) (context_of tok obj s)"
proof -
  obtain g where g: "rs_generation s = Some g" using f by (auto simp: frame_ok_def)
  have ok: "object_ok env (rs_config s) (Some g) (count_of s) sb rb tok obj"
    using inv obj g by (simp add: step_inv_def objects_ok_def)
  then have sl: "length (ob_slots obj) = 4" "n \<in> set NAMES \<Longrightarrow> sound_slot n (vc_epoch (rs_config s)) sb (ob_slot obj n)" for n
    by (simp_all add: object_ok_def slots_ok_def ob_slot_def)
  have at: "slot_at (sn_attributes (snapshot_of obj changed)) n = ob_slot obj n" if "n \<in> set NAMES" for n
    using slot_at_zip [OF sl(1) that] by (simp add: snapshot_of_def ob_slot_def)
  have id: "ENTITY_IDENTIFIER \<in> set NAMES" by (simp add: NAMES_def)
  have "claimed_identity (snapshot_of obj changed) (context_of tok obj s)"
    using ok unfolding claimed_identity_def at [OF id] object_ok_def claims_ok_def identity_ok_def
    by (cases "ob_identity obj") (auto simp: snapshot_of_def context_of_def)
  moreover have "map fst (sn_attributes (snapshot_of obj changed)) = NAMES"
    using sl(1) by (simp add: snapshot_of_def)
  moreover have "is_counter g" "session_id_form (session_id (document (rs_config s)))"
    "epoch_microsecond (document (rs_config s)) = Inr (vc_epoch (rs_config s))"
    using inv g by (auto simp: step_inv_def session_ok_def)
  ultimately show ?thesis
    using f g sl(2) at ch rb ok unfolding projectable_state_def
    by (auto simp: frame_ok_def context_of_def object_ok_def snapshot_of_def)
qed

lemma object_ok_evaluated:
  assumes "object_ok env cfg gen counts sb rb tok obj" "k \<le> rb'"
  shows "object_ok env cfg gen counts sb rb' tok (obj\<lparr>ob_eligible := b, ob_revision := k\<rparr>)"
  using assms by (simp add: object_ok_def identity_ok_def claims_ok_def ob_slot_def cong: option.case_cong)

lemma answered_ok:
  assumes inv: "step_inv env sb ib rb X s" and obj: "map_of (rs_objects s) tok = Some obj"
    and X: "X \<subseteq> {tok}" and el: "answer_eligible answer \<Longrightarrow> ob_lifecycle obj = ACTIVE \<and> ob_identity obj \<noteq> None"
    and up: "\<And>e. answer = Projected e \<Longrightarrow> ob_entity_id obj = Some (en_entity_id e)"
    and out: "output_ok s" "within_generation s" "st_upsert s = None"
    and good: "answer_good answer" and ch: "sorted_unique changed"
  shows "step_inv env sb ib (rb + 1) {} (answered tok obj changed supplied answer s) \<and>
    fixed (answered tok obj changed supplied answer s) = fixed s \<and>
    output_ok (answered tok obj changed supplied answer s) \<and>
    rs_cache (answered tok obj changed supplied answer s) = rs_cache s \<and>
    dsum cached_bytes (rs_objects (answered tok obj changed supplied answer s)) = dsum cached_bytes (rs_objects s)"
proof -
  define sn where "sn = snapshot_of obj changed
    \<lparr>sn_status := (if answer_eligible answer then ELIGIBLE else SUPPRESSED), sn_reasons := answer_reasons answer\<rparr>"
  have sn: "snapshot_good sn"
    using good ch by (simp add: sn_def snapshot_good_def answer_good_def snapshot_of_def)
  define s1 where "s1 = s\<lparr>st_snapshot := Some (tok, sn)\<rparr>"
  have ok: "object_ok env (rs_config s) (rs_generation s) (count_of s) sb rb tok obj" "keys_distinct (rs_objects s)"
    using inv obj by (simp_all add: step_inv_def objects_ok_def tokens_ok_def)
  have mono: "step_inv env sb ib (rb + 1) X t" if "state_part t = state_part s" for t
    using step_inv_mono [OF inv order_refl order_refl _ order_refl] state_partD(1) [OF that] by simp
  have key: "step_inv env sb ib (rb + 1) {} (put tok (obj\<lparr>ob_eligible := b, ob_revision := k\<rparr>) t) \<and>
      fixed (put tok (obj\<lparr>ob_eligible := b, ob_revision := k\<rparr>) t) = fixed s \<and>
      rs_cache (put tok (obj\<lparr>ob_eligible := b, ob_revision := k\<rparr>) t) = rs_cache s \<and>
      dsum cached_bytes (rs_objects (put tok (obj\<lparr>ob_eligible := b, ob_revision := k\<rparr>) t)) = dsum cached_bytes (rs_objects s)"
    if t: "state_part t = state_part s" and b: "b \<Longrightarrow> ob_lifecycle obj = ACTIVE \<and> ob_identity obj \<noteq> None"
      and k: "k \<le> rb + 1" for t b k
  proof -
    note part = state_partD [OF t]
    have counts: "count_of t = count_of s" by (simp add: count_of_def part(7) fun_eq_iff)
    have "step_inv env sb ib (rb + 1) {} (put tok (obj\<lparr>ob_eligible := b, ob_revision := k\<rparr>) t)"
      using obj b X by (intro step_inv_put [OF mono [OF t], of tok obj])
        (simp_all add: part(4,12,13) counts object_ok_evaluated [OF ok(1) k, simplified] eligible_ok_def)
    moreover have "int (dsum cached_bytes (rs_objects (put tok (obj\<lparr>ob_eligible := b, ob_revision := k\<rparr>) t))) =
        int (dsum cached_bytes (rs_objects s))"
      using dsum_put [of t tok obj "obj\<lparr>ob_eligible := b, ob_revision := k\<rparr>"] obj ok(2)
      by (simp add: part(4) cached_bytes_def)
    ultimately show ?thesis using part(3,6) by simp
  qed
  have le: "ob_revision obj \<le> rb" using ok(1) by (simp add: object_ok_def)
  have same: "obj\<lparr>ob_eligible := b\<rparr> = obj\<lparr>ob_eligible := b, ob_revision := ob_revision obj\<rparr>" for b by simp
  have o1: "output_ok s1" using out sn by (simp add: output_ok_def s1_def)
  have o2: "output_ok (s1\<lparr>st_upsert := Some (tok, ob_entity_id obj, Suc (ob_revision obj), e)\<rparr>)" if "answer = Projected e" for e
    using o1 out up [OF that] by (simp add: output_ok_def s1_def)
  have p1: "state_part s1 = state_part s" "state_part (s1\<lparr>st_upsert := u\<rparr>) = state_part s" for u
    by (simp_all add: s1_def)
  show ?thesis
  proof (cases answer)
    case (Projected e)
    note k = key [OF p1(2), of True "ob_revision obj + 1"] key [OF p1(1), of True "ob_revision obj"]
    show ?thesis
      unfolding answered_def Let_def unfolding sn_def [symmetric] unfolding s1_def [symmetric]
      unfolding Projected projected.case
      using k el o2 [OF Projected] o1 le Projected same [of True] by simp
  next
    case (Suppressed u)
    note k = key [OF p1(1), of False "ob_revision obj"]
    show ?thesis
      unfolding answered_def Let_def unfolding sn_def [symmetric] unfolding s1_def [symmetric]
      unfolding Suppressed projected.case
      using k el o1 le Suppressed same [of False] by simp
  qed
qed

lemma evaluate_ok:
  assumes inv: "step_inv env sb ib rb X s" and obj: "map_of (rs_objects s) tok = Some obj"
    and f: "frame_ok sb s (st_frame s)" and ch: "set changed \<subseteq> set NAMES" "sorted_unique changed"
    and rb: "rb \<le> MAX_EXACT_INTEGER" and X: "X \<subseteq> {tok}"
    and env: "answers (rd_projector env) (rs_config s)"
    and out: "output_ok s" "within_generation s" "st_upsert s = None"
    and reason: "\<And>r. reason = Some r \<Longrightarrow> fault_reason r"
  obtains s' where "evaluate env tok w changed supplied reason s = Inr s'"
    "step_inv env sb ib (rb + 1) {} s'" "fixed s' = fixed s" "output_ok s'" "rs_cache s' = rs_cache s"
    "dsum cached_bytes (rs_objects s') = dsum cached_bytes (rs_objects s)"
proof -
  obtain answer where ans: "project_from_reducer (rd_projector env) (snapshot_of obj changed) (context_of tok obj s) = Inr answer"
    using env snapshot_projectable [OF inv obj f ch(1) rb] by (auto simp: answers_def)
  have cfg: "cx_config (context_of tok obj s) = Validated (rs_config s)" by (simp add: context_of_def)
  note good = projected_answer(1) [OF ans cfg] and proj = projected_answer(2) [OF ans cfg]
  define s1 where "s1 = transition tok w reason answer obj (reason_diagnostics tok answer s)"
  have sp: "state_part s1 = state_part s" by (simp add: s1_def)
  have o1: "output_ok s1" using out good reason
    by (simp add: s1_def output_ok_transition output_ok_reasons)
  have u1: "st_upsert s1 = None" "st_frame s1 = st_frame s" using out(3) by (simp_all add: s1_def)
  note part = state_partD [OF sp]
  have ok: "object_ok env (rs_config s) (rs_generation s) (count_of s) sb rb tok obj"
    using inv obj by (simp add: step_inv_def objects_ok_def)
  have id: "ob_lifecycle obj = ACTIVE \<and> ob_identity obj \<noteq> None \<and> ob_entity_id obj = Some (en_entity_id e)"
    if "answer = Projected e" for e
    using proj [OF that] ok f
    by (auto simp: snapshot_of_def context_of_def object_ok_def identity_ok_def frame_ok_def)
  have el: "answer_eligible answer \<Longrightarrow> ob_lifecycle obj = ACTIVE \<and> ob_identity obj \<noteq> None"
    using id by (cases answer) simp_all
  have "step_inv env sb ib rb X s1" "map_of (rs_objects s1) tok = Some obj" "within_generation s1"
    using inv obj part(1,4) out(2) u1(2) by simp_all
  note res = answered_ok [OF this(1,2) X el conjunct2 [OF conjunct2 [OF id]] o1 this(3) u1(1) good ch(2), of supplied]
  have "evaluate env tok w changed supplied reason s = Inr (answered tok obj changed supplied answer s1)"
    using obj ans by (simp add: evaluate_def s1_def)
  then show thesis
    by (rule that [of "answered tok obj changed supplied answer s1"]) (use res part(3,4,6) in simp_all)
qed

section \<open>Identity\<close>

lemma u16_bound: "u16 val a \<le> MAX_IDENTIFIER_FIELD"
proof -
  have "be_value (take 2 (drop a val)) < 256 ^ length (take 2 (drop a val))" using be_value_bounds by blast
  also have "\<dots> \<le> (256 :: int) ^ 2" by (rule power_increasing) auto
  finally show ?thesis using be_value_bounds by (simp add: u16_def MAX_IDENTIFIER_FIELD_def nat_le_iff)
qed

lemma identifier_established:
  assumes "sound_slot ENTITY_IDENTIFIER ep trigger s" "the_identifier s = Some i" "triple_of i \<noteq> (0, 0, 0)"
  shows "identifier_fields (triple_of i) = Inr (triple_of i)"
proof -
  have "slot_value s = Some (DEntityIdentifier i)"
    using assms(2) by (auto simp: the_identifier_def split: option.splits decoded.splits)
  then obtain raw where "decode_attribute ENTITY_IDENTIFIER raw = Inr (DEntityIdentifier i)"
    using assms(1) by (auto simp: sound_slot_value)
  then have "\<exists>a b c. i = \<lparr>site = u16 raw a, application = u16 raw b, entity = u16 raw c\<rparr>"
    by (cases rule: decode_Inr_cases) auto
  then show ?thesis using assms(3) by (auto simp: identifier_fields_def triple_of_def u16_bound)
qed

lemma external_id_total:
  assumes "session_id_form sid" "is_counter g" "identifier_fields t = Inr t" "is_counter k"
  shows "\<exists>ext eid. external_id sid g t k = Inr ext \<and> entity_id u ext = Inr eid"
proof -
  obtain a b c where t: "t = (a, b, c)" by (cases t)
  obtain ext where ext: "external_id sid g (a, b, c) k = Inr ext"
    using assms by (auto simp: t external_id_def counter_def is_counter_def)
  then show ?thesis using external_id_match [OF ext] by (auto simp: t entity_id_def)
qed

text \<open>An object without identity takes one nobody holds.\<close>

lemma step_inv_establish:
  assumes inv: "step_inv env sb ib rb {} s" and old: "map_of (rs_objects s) tok = Some old" "ob_identity old = None"
    and free: "map_of (rs_index s) t = None"
    and s': "s' = s\<lparr>rs_incarnations := AList.update t (count_of s t + 1) (rs_incarnations s),
        rs_index := AList.update t tok (rs_index s)\<rparr>"
    and obj: "ob_identity obj = Some t" "object_ok env (rs_config s) (rs_generation s) (count_of s') sb rb tok obj"
    and gen: "rs_generation s = Some g"
  shows "step_inv env sb (ib + 1) rb {tok} (put tok obj s')"
proof -
  have simps: "rs_objects s' = rs_objects s" "rs_config s' = rs_config s" "rs_generation s' = rs_generation s"
    "rs_removed s' = rs_removed s" "rs_seen s' = rs_seen s" "rs_limits s' = rs_limits s"
    "rs_tokens_before s' = rs_tokens_before s" "rs_index s' = AList.update t tok (rs_index s)"
    by (simp_all add: s')
  have count: "count_of s' x = (if x = t then count_of s t + 1 else count_of s x)" for x
    by (simp add: s' count_of_def dget_def)
  have le: "count_of s x \<le> count_of s' x" "count_of s x \<le> ib" for x using inv by (simp_all add: count step_inv_def)
  have in_keys: "tok \<in> dkeys (rs_objects s)" using old by (simp add: in_dkeys_iff)
  have "tokens_ok (put tok obj s')"
    using inv in_keys by (auto simp: step_inv_def tokens_ok_def distinct_tokens_def length_update simps)
  moreover have "index_ok (put tok obj s')"
  proof -
    have "keys_distinct (rs_index s)"
      and ix: "map_of (rs_index s) x = Some tk \<longleftrightarrow> (\<exists>o'. map_of (rs_objects s) tk = Some o' \<and> ob_identity o' = Some x)" for x tk
      using inv by (simp_all add: step_inv_def index_ok_def)
    moreover have "\<not> (\<exists>o'. map_of (rs_objects s) tk = Some o' \<and> ob_identity o' = Some t)" for tk
      using ix [of t tk] free by simp
    ultimately show ?thesis using old obj(1) by (auto simp: index_ok_def simps)
  qed
  moreover have "objects_ok env sb rb {tok} (put tok obj s')"
    using inv obj(2) object_ok_mono [OF _ order_refl order_refl le(1)]
    unfolding step_inv_def objects_ok_def by (auto simp: simps)
  moreover have "session_ok (put tok obj s')"
    using inv gen by (simp add: step_inv_def session_ok_def simps)
  moreover have "count_of s' x \<le> ib + 1" for x using le(2) [of x] le(2) [of t] by (simp add: count)
  ultimately show ?thesis by (simp add: step_inv_def)
qed

text \<open>A holder in a collision: quarantined, invalidated when it was eligible.\<close>

lemma quarantined_ok:
  "object_ok env cfg gen counts sb rb tok obj \<Longrightarrow>
   object_ok env cfg gen counts sb rb tok (obj\<lparr>ob_lifecycle := QUARANTINED, ob_eligible := b\<rparr>)"
  "object_ok env cfg gen counts sb rb tok obj \<Longrightarrow>
   object_ok env cfg gen counts sb rb tok (obj\<lparr>ob_lifecycle := QUARANTINED\<rparr>)"
  by (simp_all add: object_ok_def identity_ok_def claims_ok_def cong: option.case_cong)

text \<open>Operations on the object \<open>tok\<close> other than its own replacement.\<close>

definition beside :: "token \<Rightarrow> Step \<Rightarrow> Step \<Rightarrow> bool" where
  "beside tok s s' \<longleftrightarrow> fixed s' = fixed s \<and> rs_cache s' = rs_cache s \<and> st_upsert s' = st_upsert s \<and>
     map_of (rs_objects s') tok = map_of (rs_objects s) tok \<and> keys_distinct (rs_objects s') \<and>
     dsum cached_bytes (rs_objects s') = dsum cached_bytes (rs_objects s)"

lemma upsert_simps [simp]:
  "st_upsert (diagnose_with c a t m s) = st_upsert s" "st_upsert (diagnose c a t s) = st_upsert s"
  "st_upsert (limit_reached tok msg s) = st_upsert s" "st_upsert (invalidate tok r obj s) = st_upsert s"
  "st_upsert (put tok obj s) = st_upsert s"
  by (simp_all add: diagnose_def diagnose_with_def limit_reached_def invalidate_def put_def)

lemma besideI:
  "state_part s' = state_part s \<Longrightarrow> st_upsert s' = st_upsert s \<Longrightarrow> keys_distinct (rs_objects s) \<Longrightarrow> beside tok s s'"
proof -
  assume a: "state_part s' = state_part s" and u: "st_upsert s' = st_upsert s" "keys_distinct (rs_objects s)"
  show ?thesis using u by (simp add: beside_def state_partD(3,4,6) [OF a])
qed

lemma identify_collides:
  assumes inv: "step_inv env sb ib rb {} s" and old: "map_of (rs_objects s) tok = Some old"
    and same: "ob_identity obj = ob_identity old"
    and ok: "object_ok env (rs_config s) (rs_generation s) (count_of s) sb rb tok (obj\<lparr>ob_lifecycle := QUARANTINED\<rparr>)"
    and none: "ob_identity obj = None"
    and live: "\<not> (ob_lifecycle obj = QUARANTINED \<or> triple_of ident = (0, 0, 0))"
    and taken: "map_of (rs_index s) (triple_of ident) = Some holder"
    and out: "output_ok s" "within_generation s"
  obtains s' obj' r where "identify env tok ident obj s = Inr (s', obj', r)"
    "step_inv env sb (ib + 1) rb {tok} (put tok obj' s')" "beside tok s s'" "output_ok s'"
    "\<And>x. r = Some x \<Longrightarrow> fault_reason x" "ob_slots obj' = ob_slots obj"
proof -
  obtain held where held: "map_of (rs_objects s) holder = Some held" "ob_identity held = Some (triple_of ident)"
    using inv taken by (auto simp: step_inv_def index_ok_def)
  have ne: "holder \<noteq> tok" using held old same none by auto
  define s1 where "s1 = diagnose ''E_IDENTITY_COLLISION'' (Some ENTITY_IDENTIFIER) (Some tok) s"
  define s2 where "s2 = (if ob_lifecycle held \<noteq> QUARANTINED
    then diagnose ''E_IDENTITY_COLLISION'' (Some ENTITY_IDENTIFIER) (Some holder) s1 else s1)"
  define s3 where "s3 = (if ob_eligible held then invalidate holder IDENTITY_COLLISION held s2 else s2)"
  let ?held = "held\<lparr>ob_lifecycle := QUARANTINED, ob_eligible := False\<rparr>"
  define s4 where "s4 = put holder ?held s3"
  have sp: "state_part s3 = state_part s" by (simp add: s3_def s2_def s1_def)
  have o3: "output_ok s3" "st_upsert s3 = st_upsert s"
    using out by (simp_all add: s3_def s2_def s1_def catalogue_codes fault_reason_def)
  note part = state_partD [OF sp]
  have c3: "count_of s3 = count_of s" by (simp add: count_of_def part(7) fun_eq_iff)
  have keys: "keys_distinct (rs_objects s)" using inv by (simp add: step_inv_def tokens_ok_def)
  have hok: "object_ok env (rs_config s) (rs_generation s) (count_of s) sb rb holder held"
    using inv held(1) by (simp add: step_inv_def objects_ok_def)
  have i4: "step_inv env sb ib rb {} s4"
    unfolding s4_def
    by (rule step_inv_put [of _ _ _ _ "{}" _ _ held])
      (use inv held(1) quarantined_ok(1) [OF hok] in \<open>simp_all add: part c3 eligible_ok_def\<close>)
  have res: "identify env tok ident obj s = Inr (s4, obj\<lparr>ob_lifecycle := QUARANTINED\<rparr>, Some IDENTITY_COLLISION)"
  proof -
    have "rs_objects s1 = rs_objects s" by (rule state_partD(4)) (simp add: s1_def)
    with held(1) live taken none show ?thesis
      unfolding identify_def Let_def s4_def s3_def s2_def s1_def by simp
  qed
  have i5: "step_inv env sb ib rb {tok} (put tok (obj\<lparr>ob_lifecycle := QUARANTINED\<rparr>) s4)"
    by (rule step_inv_put [OF i4, of _ old]) (use old ne same ok in \<open>simp_all add: s4_def part c3\<close>)
  have "int (dsum cached_bytes (rs_objects s4)) = int (dsum cached_bytes (rs_objects s))"
    using dsum_put [of s3 holder held ?held] held(1) keys by (simp add: s4_def part(4) cached_bytes_def)
  then have "beside tok s s4"
    using ne keys o3(2) by (simp add: beside_def s4_def part(3,4,6))
  moreover have "output_ok s4" using o3 by (simp add: s4_def)
  moreover have "step_inv env sb (ib + 1) rb {tok} (put tok (obj\<lparr>ob_lifecycle := QUARANTINED\<rparr>) s4)"
    by (rule step_inv_mono [OF i5]) simp_all
  ultimately show thesis using that [OF res] by (simp add: fault_reason_def)
qed

lemma identify_establishes:
  assumes inv: "step_inv env sb ib rb {} s" and old: "map_of (rs_objects s) tok = Some old"
    and same: "ob_identity obj = ob_identity old"
    and ok: "object_ok env (rs_config s) (rs_generation s) (count_of s) sb rb tok (obj\<lparr>ob_lifecycle := QUARANTINED\<rparr>)"
    and claim: "the_identifier (ob_slot obj ENTITY_IDENTIFIER) = Some ident"
    and gen: "rs_generation s = Some g" and ib: "ib < MAX_EXACT_INTEGER"
    and out: "output_ok s" "within_generation s"
    and none: "ob_identity obj = None"
    and live: "\<not> (ob_lifecycle obj = QUARANTINED \<or> triple_of ident = (0, 0, 0))"
    and free: "map_of (rs_index s) (triple_of ident) = None"
  obtains s' obj' r where "identify env tok ident obj s = Inr (s', obj', r)"
    "step_inv env sb (ib + 1) rb {tok} (put tok obj' s')" "beside tok s s'" "output_ok s'"
    "\<And>x. r = Some x \<Longrightarrow> fault_reason x" "ob_slots obj' = ob_slots obj"
proof -
  let ?t = "triple_of ident" and ?k = "count_of s (triple_of ident) + 1"
  have slots: "slots_ok (rs_config s) sb (ob_slots obj)" using ok by (simp add: object_ok_def)
  have "sound_slot ENTITY_IDENTIFIER (vc_epoch (rs_config s)) sb (ob_slot obj ENTITY_IDENTIFIER)"
    using slots by (simp add: slots_ok_def NAMES_def ob_slot_def)
  from identifier_established [OF this claim] live have t: "identifier_fields ?t = Inr ?t" by simp
  have "count_of s ?t \<le> ib" using inv by (simp add: step_inv_def)
  then have k: "is_counter ?k" using ib by (simp add: is_counter_def)
  have ses: "session_id_form (session_id (document (rs_config s)))" "is_counter g"
    using inv gen by (auto simp: step_inv_def session_ok_def)
  obtain ext eid where ext: "external_id (session_id (document (rs_config s))) g ?t ?k = Inr ext"
    "entity_id (pj_uuid5 (rd_projector env)) ext = Inr eid"
    using external_id_total [OF ses t k] by blast
  define s1 where "s1 = s\<lparr>rs_incarnations := AList.update ?t ?k (rs_incarnations s),
      rs_index := AList.update ?t tok (rs_index s)\<rparr>"
  define obj' where "obj' = obj\<lparr>ob_identity := Some ?t, ob_incarnation := Some ?k, ob_entity_id := Some eid\<rparr>"
  have count: "count_of s1 x = (if x = ?t then ?k else count_of s x)" for x
    by (simp add: s1_def count_of_def dget_def)
  have res: "identify env tok ident obj s = Inr (s1, obj', None)"
    using none live free gen ext by (simp add: identify_def s1_def obj'_def count_of_def Let_def)
  have ok': "object_ok env (rs_config s) (rs_generation s) (count_of s1) sb rb tok obj'"
    using ok claim t k ext gen
    by (auto simp: object_ok_def identity_ok_def claims_ok_def obj'_def count ob_slot_def)
  have "step_inv env sb (ib + 1) rb {tok} (put tok obj' s1)"
    by (rule step_inv_establish [OF inv old _ free s1_def _ ok' gen]) (use same none in \<open>simp_all add: obj'_def\<close>)
  moreover have "beside tok s s1" "output_ok s1"
    using inv out by (simp_all add: beside_def s1_def fixed_def step_inv_def tokens_ok_def output_ok_def)
  moreover have "ob_slots obj' = ob_slots obj" by (simp add: obj'_def)
  ultimately show thesis using that [OF res] by simp
qed

lemma identify_ok:
  assumes inv: "step_inv env sb ib rb {} s" and old: "map_of (rs_objects s) tok = Some old"
    and same: "ob_identity obj = ob_identity old"
    and ok: "object_ok env (rs_config s) (rs_generation s) (count_of s) sb rb tok (obj\<lparr>ob_lifecycle := QUARANTINED\<rparr>)"
    and claim: "the_identifier (ob_slot obj ENTITY_IDENTIFIER) = Some ident"
    and gen: "rs_generation s = Some g" and ib: "ib < MAX_EXACT_INTEGER"
    and out: "output_ok s" "within_generation s"
  obtains s' obj' r where "identify env tok ident obj s = Inr (s', obj', r)"
    "step_inv env sb (ib + 1) rb {tok} (put tok obj' s')" "beside tok s s'" "output_ok s'"
    "\<And>x. r = Some x \<Longrightarrow> fault_reason x" "ob_slots obj' = ob_slots obj"
proof -
  note parts = ok [unfolded object_ok_def identity_ok_def, simplified, simplified]
  have keys: "keys_distinct (rs_objects s)" using inv by (simp add: step_inv_def tokens_ok_def)
  have inv': "step_inv env sb (ib + 1) rb {tok} s" by (rule step_inv_mono [OF inv]) simp_all
  have stay: "step_inv env sb (ib + 1) rb {tok} (put tok obj' s')"
    if "state_part s' = state_part s" "ob_identity obj' = ob_identity old"
      "object_ok env (rs_config s) (rs_generation s) (count_of s) sb rb tok obj'" for s' obj'
  proof -
    note part = state_partD [OF that(1)]
    have "count_of s' = count_of s" by (simp add: count_of_def part(7) fun_eq_iff)
    then show ?thesis
      using inv' old that(2,3) by (intro step_inv_put [of _ _ _ _ "{tok}" _ _ old]) (simp_all add: part)
  qed
  have claims: "object_ok env (rs_config s) (rs_generation s) (count_of s) sb rb tok obj"
    if "ob_lifecycle obj = QUARANTINED \<or> triple_of ident = (0, 0, 0) \<or> ob_identity obj = Some (triple_of ident)"
    using ok that claim by (auto simp: object_ok_def identity_ok_def claims_ok_def cong: option.case_cong)
  show thesis
  proof (cases "ob_identity obj")
    case (Some t)
    show thesis
    proof (cases "triple_of ident = t")
      case True
      show thesis
        by (rule that [of s obj None])
          (use True Some stay same claims besideI keys out in \<open>simp_all add: identify_def\<close>)
    next
      case False
      define s1 where "s1 = diagnose ''E_IDENTITY_CHANGED'' (Some ENTITY_IDENTIFIER) (Some tok) s"
      have s1: "state_part s1 = state_part s" "output_ok s1" "beside tok s s1"
        using out keys by (simp_all add: s1_def catalogue_codes besideI)
      show thesis
      proof (cases "ob_lifecycle obj = QUARANTINED")
        case True
        show thesis
          by (rule that [of s1 obj None])
            (use True False Some stay [OF s1(1)] same claims s1 in \<open>simp_all add: identify_def Let_def s1_def\<close>)
      next
        case live: False
        show thesis
          by (rule that [of s1 "obj\<lparr>ob_lifecycle := QUARANTINED\<rparr>" "Some IDENTITY_CHANGED"])
            (use live False Some stay [OF s1(1)] same ok s1 in
              \<open>simp_all add: identify_def Let_def s1_def fault_reason_def\<close>)
      qed
    qed
  next
    case None
    show thesis
    proof (cases "ob_lifecycle obj = QUARANTINED \<or> triple_of ident = (0, 0, 0)")
      case True
      show thesis
        by (rule that [of s obj None])
          (use True None stay same claims besideI keys out in \<open>auto simp: identify_def\<close>)
    next
      case False
      show thesis
      proof (cases "map_of (rs_index s) (triple_of ident)")
        case (Some holder)
        show thesis by (rule identify_collides [OF inv old same ok None False Some out]) (rule that)
      next
        case free: None
        show thesis
          by (rule identify_establishes [OF inv old same ok claim gen ib out None False free]) (rule that)
      qed
    qed
  qed
qed

section \<open>What an event keeps\<close>

definition kept :: "reducer_env \<Rightarrow> nat \<Rightarrow> nat \<Rightarrow> nat \<Rightarrow> Step \<Rightarrow> Step \<Rightarrow> bool" where
  "kept env sb ib rb s s' \<longleftrightarrow>
     step_inv env sb (ib + 1) (rb + 1) {} s' \<and> cache_ok s' \<and> output_ok s' \<and> fixed s' = fixed s"

lemma kept_state_part:
  assumes "state_part s' = state_part s" "step_inv env sb ib rb {} s" "cache_ok s" "output_ok s'"
  shows "kept env sb ib rb s s'"
proof -
  have "step_inv env sb (ib + 1) (rb + 1) {} s" by (rule step_inv_mono [OF assms(2)]) simp_all
  with assms(3,4) show ?thesis by (simp add: kept_def state_partD [OF assms(1)])
qed

lemma kept_trans: "fixed t = fixed s \<Longrightarrow> kept env sb ib rb t s' \<Longrightarrow> kept env sb ib rb s s'"
  by (simp add: kept_def)

text \<open>The tokens a session may still hold.\<close>

lemma token_admitted_cases:
  assumes "token_admitted tok s = (b, s')"
  obtains "b" "s' = s" "tok \<in> set (rs_seen s) \<or> distinct_tokens s + 1 \<le> object_tokens_per_session (rs_limits s)"
  | "\<not> b" "s' = limit_reached tok TOO_MANY_TOKENS s"
  using assms by (auto simp: token_admitted_def distinct_tokens_def split: if_splits)

lemma see_simps [simp]:
  "rs_objects (see tok s) = rs_objects s" "rs_index (see tok s) = rs_index s"
  "rs_removed (see tok s) = rs_removed s" "rs_seen (see tok s) = List.insert tok (rs_seen s)"
  "rs_limits (see tok s) = rs_limits s" "rs_config (see tok s) = rs_config s"
  "rs_generation (see tok s) = rs_generation s" "st_frame (see tok s) = st_frame s"
  "rs_incarnations (see tok s) = rs_incarnations s" "rs_cache (see tok s) = rs_cache s"
  "rs_tokens_before (see tok s) = rs_tokens_before s" "fixed (see tok s) = fixed s"
  "count_of (see tok s) = count_of s" "output_ok (see tok s) = output_ok s" "st_upsert (see tok s) = st_upsert s"
  by (simp_all add: see_def fixed_def count_of_def fun_eq_iff output_ok_def)

lemma step_inv_see:
  assumes inv: "step_inv env sb ib rb X s" and gen: "rs_generation s = Some g"
    and room: "tok \<in> set (rs_seen s) \<or> distinct_tokens s + 1 \<le> object_tokens_per_session (rs_limits s)"
  shows "step_inv env sb ib rb X (see tok s)"
proof -
  have "tokens_ok (see tok s)"
    using inv room by (auto simp: step_inv_def tokens_ok_def distinct_tokens_def length_list_insert)
  moreover have "index_ok (see tok s)" "objects_ok env sb rb X (see tok s)" "session_ok (see tok s)"
    using inv gen by (simp_all add: step_inv_def index_ok_def objects_ok_def session_ok_def)
  ultimately show ?thesis using inv by (simp add: step_inv_def)
qed

lemma unknown_object_ok:
  assumes inv: "step_inv env sb ib rb {} s" "cache_ok s" and out: "output_ok s" "within_generation s"
    and gen: "rs_generation s = Some g"
  shows "kept env sb ib rb s (unknown_object tok s)"
proof -
  obtain b s' where a: "token_admitted tok s = (b, s')" by (cases "token_admitted tok s")
  from a show ?thesis
  proof (cases rule: token_admitted_cases)
    case 1
    have "kept env sb ib rb (see tok s) (diagnose ''E_UNKNOWN_OBJECT'' None (Some tok) (see tok s))"
      by (rule kept_state_part) (use step_inv_see [OF inv(1) gen 1(3)] inv(2) out in \<open>simp_all add: catalogue_codes cache_ok_def\<close>)
    then show ?thesis using a 1 by (simp add: unknown_object_def kept_def)
  next
    case 2
    then show ?thesis using a inv out by (simp add: unknown_object_def kept_state_part)
  qed
qed

section \<open>Discovery\<close>

lemma new_object_ok:
  assumes "token_form tok" "carriable_text name" "carriable_text cls"
  shows "object_ok env cfg gen counts sb rb tok (new_object name cls)" "eligible_ok (new_object name cls)"
    "ob_identity (new_object name cls) = None" "cached_bytes (new_object name cls) = 0"
proof -
  have "ABSENT_SLOTS ! name_index n = ABSENT_SLOT" if "n \<in> set NAMES" for n
    using name_index_less [OF that] by (simp add: ABSENT_SLOTS_def)
  then show "object_ok env cfg gen counts sb rb tok (new_object name cls)"
    using assms by (simp add: object_ok_def new_object_def slots_ok_def identity_ok_def claims_ok_def ob_slot_def
        ABSENT_SLOTS_def the_identifier_def)
  show "eligible_ok (new_object name cls)" "ob_identity (new_object name cls) = None"
    "cached_bytes (new_object name cls) = 0"
    by (simp_all add: eligible_ok_def new_object_def cached_bytes_def ABSENT_SLOTS_def raw_bytes_def)
qed

lemma step_inv_new:
  assumes inv: "step_inv env sb ib rb {} s" "cache_ok s" and new: "map_of (rs_objects s) tok = None" "tok \<notin> set (rs_removed s)"
    and room: "tok \<in> set (rs_seen s) \<or> distinct_tokens s + 1 \<le> object_tokens_per_session (rs_limits s)"
      "length (rs_objects s) + 1 \<le> active_objects_per_generation (rs_limits s)"
    and gen: "rs_generation s = Some g" and names: "token_form tok" "carriable_text name" "carriable_text cls"
  shows "step_inv env sb ib rb {} (put tok (new_object name cls) (see tok s))"
    "cache_ok (put tok (new_object name cls) (see tok s))"
proof -
  let ?s = "see tok s" and ?obj = "new_object name cls"
  note obj = new_object_ok(1) [OF names, of env "rs_config s" "rs_generation s" "count_of s" sb rb] new_object_ok(2-4) [OF names]
  have inv': "step_inv env sb ib rb {} ?s" by (rule step_inv_see [OF inv(1) gen room(1)])
  have fresh: "tok \<notin> dkeys (rs_objects s)" using new by (simp add: in_dkeys_iff)
  have "tokens_ok (put tok ?obj ?s)"
    using inv' fresh new(2) room(2) by (auto simp: step_inv_def tokens_ok_def distinct_tokens_def length_update)
  moreover have "index_ok (put tok ?obj ?s)" using inv' obj(3) new(1) by (auto simp: step_inv_def index_ok_def)
  moreover have "objects_ok env sb rb {} (put tok ?obj ?s)" using inv' obj(1,2) by (simp add: step_inv_def objects_ok_def)
  moreover have "session_ok (put tok ?obj ?s)" using inv' gen by (simp add: step_inv_def session_ok_def)
  ultimately show "step_inv env sb ib rb {} (put tok ?obj ?s)" using inv' by (simp add: step_inv_def)
  show "cache_ok (put tok ?obj ?s)"
    using inv(2) new(1) obj(4) by (simp add: cache_ok_def dsum_update_new)
qed

lemma discover_ok:
  assumes inv: "step_inv env sb ib rb {} s" "cache_ok s" and out: "output_ok s" "within_generation s"
    and gen: "rs_generation s = Some g" and names: "token_form tok" "carriable_text name" "carriable_text cls"
  shows "kept env sb ib rb s (discover tok name cls s)"
proof (cases "map_of (rs_objects s) tok")
  case (Some known)
  then show ?thesis using inv out by (simp add: discover_def kept_state_part catalogue_codes)
next
  case new: None
  show ?thesis
  proof (cases "tok \<in> set (rs_removed s)")
    case True
    then show ?thesis using new inv out by (simp add: discover_def kept_state_part catalogue_codes)
  next
    case False
    obtain b s' where a: "token_admitted tok s = (b, s')" by (cases "token_admitted tok s")
    from a show ?thesis
    proof (cases rule: token_admitted_cases)
      case 1
      show ?thesis
      proof (cases "active_objects_per_generation (rs_limits s) < length (rs_objects s) + 1")
        case True
        then show ?thesis using False new a 1 inv out by (simp add: discover_def kept_state_part)
      next
        case room: False
        let ?t = "put tok (new_object name cls) (see tok s)"
        have "step_inv env sb (ib + 1) (rb + 1) {} ?t" "cache_ok ?t"
          using step_inv_new [OF inv new False 1(3) _ gen names] room
          by (auto intro: step_inv_mono [of env sb ib rb "{}" ?t])
        then show ?thesis using False new a 1 room out by (simp add: discover_def kept_def)
      qed
    next
      case 2
      then show ?thesis using False new a inv out by (simp add: discover_def kept_state_part)
    qed
  qed
qed

section \<open>Removal\<close>

text \<open>The state without the object \<open>tok\<close>.\<close>

definition dropped :: "token \<Rightarrow> ObjectState \<Rightarrow> Step \<Rightarrow> Step" where
  "dropped tok obj s =
     (let s = s\<lparr>st_removals := st_removals s @ [(tok, ob_entity_id obj, ob_revision obj)]\<rparr>;
          s = (case ob_identity obj of None \<Rightarrow> s
               | Some t \<Rightarrow> if map_of (rs_index s) t = Some tok then s \<lparr>rs_index := AList.delete t (rs_index s)\<rparr> else s)
      in s \<lparr>rs_cache := rs_cache s - int (cached_bytes obj), rs_objects := AList.delete tok (rs_objects s),
            rs_removed := List.insert tok (rs_removed s)\<rparr>)"

lemma dropped_simps:
  "rs_objects (dropped tok obj s) = AList.delete tok (rs_objects s)"
  "rs_removed (dropped tok obj s) = List.insert tok (rs_removed s)"
  "rs_cache (dropped tok obj s) = rs_cache s - int (cached_bytes obj)"
  "rs_seen (dropped tok obj s) = rs_seen s" "rs_tokens_before (dropped tok obj s) = rs_tokens_before s"
  "count_of (dropped tok obj s) = count_of s" "fixed (dropped tok obj s) = fixed s"
  "rs_limits (dropped tok obj s) = rs_limits s" "rs_config (dropped tok obj s) = rs_config s"
  "rs_generation (dropped tok obj s) = rs_generation s" "st_frame (dropped tok obj s) = st_frame s"
  "st_removals (dropped tok obj s) = st_removals s @ [(tok, ob_entity_id obj, ob_revision obj)]"
  "st_diagnostics (dropped tok obj s) = st_diagnostics s" "st_invalidations (dropped tok obj s) = st_invalidations s"
  "st_snapshot (dropped tok obj s) = st_snapshot s" "st_upsert (dropped tok obj s) = st_upsert s"
  by (auto simp: dropped_def Let_def fixed_def count_of_def fun_eq_iff split: option.split)

lemma dropped_index:
  assumes "index_ok s" "map_of (rs_objects s) tok = Some obj"
  shows "rs_index (dropped tok obj s) =
    (case ob_identity obj of None \<Rightarrow> rs_index s | Some t \<Rightarrow> AList.delete t (rs_index s))"
  using assms by (auto simp: dropped_def Let_def index_ok_def split: option.split)

lemma dropped_ok:
  assumes inv: "step_inv env sb ib rb {} s" "cache_ok s" and obj: "map_of (rs_objects s) tok = Some obj"
    and out: "output_ok s" "is_remove (frame_event (st_frame s))" and gen: "rs_generation s = Some g"
  shows "kept env sb ib rb s (dropped tok obj s)"
proof -
  let ?s = "dropped tok obj s"
  have ix: "index_ok s" and keys: "keys_distinct (rs_objects s)" and tk: "tokens_ok s"
    using inv by (simp_all add: step_inv_def tokens_ok_def)
  have "tok \<in> dkeys (rs_objects s)" using obj by (simp add: in_dkeys_iff)
  then have "tokens_ok ?s"
    using tk length_delete_le [of tok "rs_objects s"]
    by (auto simp: tokens_ok_def dropped_simps distinct_tokens_def)
  moreover have "index_ok ?s"
  proof -
    have ik: "keys_distinct (rs_index s)"
      and i: "map_of (rs_index s) t = Some k \<longleftrightarrow> (\<exists>o'. map_of (rs_objects s) k = Some o' \<and> ob_identity o' = Some t)" for t k
      using ix by (simp_all add: index_ok_def)
    show ?thesis
    proof (cases "ob_identity obj")
      case None
      then show ?thesis using ik i obj by (auto simp: index_ok_def dropped_index [OF ix obj] dropped_simps)
    next
      case (Some t)
      have "map_of (rs_index s) t = Some tok" using i obj Some by simp
      then have only: "k = tok" if "map_of (rs_objects s) k = Some o'" "ob_identity o' = Some t" for k o'
        using i [of t k] that by simp
      have "map_of (AList.delete t (rs_index s)) u = Some k \<longleftrightarrow>
          (\<exists>o'. map_of (AList.delete tok (rs_objects s)) k = Some o' \<and> ob_identity o' = Some u)" for u k
      proof (cases "k = tok")
        case True
        then show ?thesis using i [of u k] obj Some by (cases "u = t") simp_all
      next
        case False
        then show ?thesis using i [of u k] only [of k] by (cases "u = t") auto
      qed
      then show ?thesis using ik Some by (simp add: index_ok_def dropped_index [OF ix obj] dropped_simps)
    qed
  qed
  moreover have "objects_ok env sb rb {} ?s" using inv by (simp add: step_inv_def objects_ok_def dropped_simps)
  moreover have "session_ok ?s" using inv gen by (simp add: step_inv_def session_ok_def dropped_simps)
  ultimately have "step_inv env sb ib rb {} ?s" using inv by (simp add: step_inv_def dropped_simps)
  then have "step_inv env sb (ib + 1) (rb + 1) {} ?s" by (rule step_inv_mono) simp_all
  moreover have "cache_ok ?s"
    using inv(2) dsum_delete [OF keys obj, of cached_bytes] by (simp add: cache_ok_def dropped_simps)
  moreover have "output_ok ?s"
    using out by (auto simp: output_ok_def dropped_simps elim: is_remove.elims)
  ultimately show ?thesis by (simp add: kept_def dropped_simps)
qed

end
