(* ===== verification/Hla_Reducer_Steps.thy ===== *)
theory Hla_Reducer_Steps
  imports Hla_Reducer_Inv
begin

text \<open>
  Removal, reflection and the generation events keep the reducer's invariant, and none of them
  raises: every event of an admitted frame has an answer.
\<close>

section \<open>Removal\<close>

text \<open>A retractable update or removal quarantines the object.\<close>

definition retracted :: "token \<Rightarrow> ObjectState \<Rightarrow> Step \<Rightarrow> Step" where
  "retracted tok obj s =
     (let s = diagnose ''E_RETRACTION_UNSUPPORTED'' None (Some tok) s;
          s = (if ob_eligible obj then invalidate tok RETRACTION_UNSUPPORTED obj s else s)
      in put tok (obj\<lparr>ob_lifecycle := QUARANTINED, ob_eligible := False\<rparr>) s)"

lemma retracted_kept:
  assumes inv: "step_inv env sb ib rb {} s" "cache_ok s" and obj: "map_of (rs_objects s) tok = Some obj"
    and out: "output_ok s" "within_generation s"
  shows "kept env sb ib rb s (retracted tok obj s)"
proof -
  define s1 where "s1 = (if ob_eligible obj
    then invalidate tok RETRACTION_UNSUPPORTED obj (diagnose ''E_RETRACTION_UNSUPPORTED'' None (Some tok) s)
    else diagnose ''E_RETRACTION_UNSUPPORTED'' None (Some tok) s)"
  let ?obj = "obj\<lparr>ob_lifecycle := QUARANTINED, ob_eligible := False\<rparr>"
  have eq: "retracted tok obj s = put tok ?obj s1" by (simp add: retracted_def s1_def Let_def)
  have sp: "state_part s1 = state_part s" by (simp add: s1_def)
  note part = state_partD [OF sp]
  have counts: "count_of s1 = count_of s" by (simp add: count_of_def part(7) fun_eq_iff)
  have ok: "object_ok env (rs_config s) (rs_generation s) (count_of s) sb rb tok obj"
    and keys: "keys_distinct (rs_objects s)"
    using inv(1) obj by (simp_all add: step_inv_def objects_ok_def tokens_ok_def)
  have "step_inv env sb ib rb {} (put tok ?obj s1)"
    by (rule step_inv_put [of _ _ _ _ "{}" _ _ obj])
      (use inv(1) obj quarantined_ok(1) [OF ok] in \<open>simp_all add: part counts eligible_ok_def\<close>)
  then have "step_inv env sb (ib + 1) (rb + 1) {} (put tok ?obj s1)" by (rule step_inv_mono) simp_all
  moreover have "cache_ok (put tok ?obj s1)"
    using inv(2) dsum_put [of s1 tok obj ?obj] obj keys
    by (simp add: cache_ok_def part(4,6,11) cached_bytes_def)
  moreover have "output_ok s1" using out by (simp add: s1_def catalogue_codes fault_reason_def)
  ultimately show ?thesis by (simp add: eq kept_def part(3))
qed

lemma remove_object_ok:
  assumes inv: "step_inv env sb ib rb {} s" "cache_ok s" and out: "output_ok s" "is_remove (frame_event (st_frame s))"
    and gen: "rs_generation s = Some g"
  shows "kept env sb ib rb s (remove_object tok retractable s)"
proof -
  have within: "within_generation s" using out(2) by (auto elim: is_remove.elims)
  show ?thesis
  proof (cases "map_of (rs_objects s) tok")
    case None
    then show ?thesis
      using inv out(1) within gen unknown_object_ok by (simp add: remove_object_def kept_state_part catalogue_codes)
  next
    case (Some obj)
    then show ?thesis
      using dropped_ok [OF inv Some out gen] retracted_kept [OF inv Some out(1) within]
      by (simp add: remove_object_def dropped_def retracted_def)
  qed
qed

section \<open>Decoding what a reflection supplies\<close>

lemma decode_supplied_ok:
  assumes "\<forall>(n, raw)\<in>set attributes. length raw < 10 ^ 20" "distinct (map fst attributes)"
  obtains decoded failures where "decode_supplied attributes = Inr (decoded, failures)"
    "list_all (\<lambda>(c, _). is_code c) failures"
    "\<And>n. map_of decoded n = (case map_of attributes n of None \<Rightarrow> None
       | Some raw \<Rightarrow> (case decode_attribute n raw of Inr v \<Rightarrow> Some v | Inl _ \<Rightarrow> None))"
    "failures = [] \<longrightarrow> (\<forall>(n, raw)\<in>set attributes. \<exists>v. decode_attribute n raw = Inr v)"
proof -
  let ?f = "\<lambda>(decoded, failures) (name, raw).
       case decode_attribute name raw of
         Inr v \<Rightarrow> Inr (AList.update name v decoded, failures)
       | Inl (Refusal e) \<Rightarrow> Inr (decoded, failures @ [(e_code e, name, e_message e)])
       | Inl other \<Rightarrow> Inl other"
  have loop: "\<exists>d f. rfold ?f (d0, f0) attributes = Inr (d, f0 @ f) \<and> list_all (\<lambda>(c, _). is_code c) f \<and>
      (\<forall>n. map_of d n = (case map_of attributes n of None \<Rightarrow> map_of d0 n
       | Some raw \<Rightarrow> (case decode_attribute n raw of Inr v \<Rightarrow> Some v | Inl _ \<Rightarrow> map_of d0 n))) \<and>
      (f = [] \<longrightarrow> (\<forall>(n, raw)\<in>set attributes. \<exists>v. decode_attribute n raw = Inr v))" for d0 f0
    using assms
  proof (induction attributes arbitrary: d0 f0)
    case (Cons p attributes)
    obtain n raw where p: "p = (n, raw)" by (cases p)
    have fresh: "map_of attributes n = None" using Cons.prems(2) by (auto simp: p map_of_eq_None_iff)
    have len: "length raw < 10 ^ 20" using Cons.prems(1) by (simp add: p)
    show ?case
    proof (cases "decode_attribute n raw")
      case (Inr v)
      obtain d f where IH: "rfold ?f (AList.update n v d0, f0) attributes = Inr (d, f0 @ f)"
        "list_all (\<lambda>(c, _). is_code c) f"
        "\<forall>m. map_of d m = (case map_of attributes m of None \<Rightarrow> map_of (AList.update n v d0) m
         | Some raw \<Rightarrow> (case decode_attribute m raw of Inr v \<Rightarrow> Some v | Inl _ \<Rightarrow> map_of (AList.update n v d0) m))"
        "f = [] \<longrightarrow> (\<forall>(n, raw)\<in>set attributes. \<exists>v. decode_attribute n raw = Inr v)"
        using Cons.IH [of "AList.update n v d0" f0] Cons.prems by auto
      have "map_of d m = (case map_of (p # attributes) m of None \<Rightarrow> map_of d0 m
         | Some raw \<Rightarrow> (case decode_attribute m raw of Inr v \<Rightarrow> Some v | Inl _ \<Rightarrow> map_of d0 m))" for m
        using IH(3) fresh Inr by (cases "m = n") (auto simp: p split: option.split sum.split)
      then show ?thesis using IH(1,2,4) Inr by (auto simp: p intro!: exI [of _ d] exI [of _ f])
    next
      case (Inl x)
      obtain e where e: "x = Refusal e" "is_code (e_code e)"
        using decode_clean [OF Inl len] by (auto simp: clean_refusal_def DECODE_CODES_def is_code_def CODES_def)
      obtain d f where IH: "rfold ?f (d0, f0 @ [(e_code e, n, e_message e)]) attributes =
          Inr (d, (f0 @ [(e_code e, n, e_message e)]) @ f)"
        "list_all (\<lambda>(c, _). is_code c) f"
        "\<forall>m. map_of d m = (case map_of attributes m of None \<Rightarrow> map_of d0 m
         | Some raw \<Rightarrow> (case decode_attribute m raw of Inr v \<Rightarrow> Some v | Inl _ \<Rightarrow> map_of d0 m))"
        using Cons.IH [of d0 "f0 @ [(e_code e, n, e_message e)]"] Cons.prems by auto
      have "map_of d m = (case map_of (p # attributes) m of None \<Rightarrow> map_of d0 m
         | Some raw \<Rightarrow> (case decode_attribute m raw of Inr v \<Rightarrow> Some v | Inl _ \<Rightarrow> map_of d0 m))" for m
        using IH(3) fresh Inl by (cases "m = n") (auto simp: p split: option.split sum.split)
      then show ?thesis using IH(1,2) Inl e
        by (intro exI [of _ d] exI [of _ "(e_code e, n, e_message e) # f"]) (auto simp: p)
    qed
  qed (auto split: option.split)
  obtain d f where "rfold ?f ([], []) attributes = Inr (d, [] @ f) \<and> list_all (\<lambda>(c, _). is_code c) f \<and>
      (\<forall>n. map_of d n = (case map_of attributes n of None \<Rightarrow> map_of [] n
       | Some raw \<Rightarrow> (case decode_attribute n raw of Inr v \<Rightarrow> Some v | Inl _ \<Rightarrow> map_of [] n))) \<and>
      (f = [] \<longrightarrow> (\<forall>(n, raw)\<in>set attributes. \<exists>v. decode_attribute n raw = Inr v))"
    using loop [of "[]" "[]"] by blast
  then show thesis by (intro that [of d f]) (simp_all add: decode_supplied_def split: option.split sum.split)
qed

text \<open>Only the four names of the profile decode.\<close>

lemma decode_known: "decode_attribute n raw = Inr v \<Longrightarrow> n \<in> set NAMES"
  by (erule decode_Inr_cases) (auto simp: NAMES_def)

lemma decoded_identifier_iff:
  assumes "\<And>n v. map_of decoded n = Some v \<Longrightarrow> \<exists>raw. decode_attribute n raw = Inr v"
  shows "map_of decoded ENTITY_IDENTIFIER = Some v \<Longrightarrow> \<exists>i. v = DEntityIdentifier i \<and> decoded_identifier decoded = Some i"
proof -
  assume v: "map_of decoded ENTITY_IDENTIFIER = Some v"
  then obtain raw where "decode_attribute ENTITY_IDENTIFIER raw = Inr v" using assms by blast
  then have "\<exists>i. v = DEntityIdentifier i" using names_distinct by (auto elim: decode_Inr_cases)
  with v show ?thesis by (auto simp: decoded_identifier_def)
qed

section \<open>The slots a reflection writes\<close>

lemma supplied_slots_ok:
  assumes "slots_ok cfg sb slots" "distinct (map fst supp)" "set (map fst supp) \<subseteq> set NAMES"
    "\<forall>(n, x)\<in>set supp. sound_slot n (vc_epoch cfg) sb x"
  shows "slots_ok cfg sb (set_slots supp slots)"
proof -
  have "sound_slot n (vc_epoch cfg) sb (set_slots supp slots ! name_index n)" if n: "n \<in> set NAMES" for n
    using set_slots_nth [OF assms(2,3) n] assms(1,4) n
    by (auto simp: slots_ok_def split: option.split dest!: map_of_SomeD)
  with assms(1) show ?thesis by (simp add: slots_ok_def)
qed

lemma format_microsecond_total:
  assumes "MIN_MICROSECOND \<le> t" "t \<le> MAX_MICROSECOND"
  shows "\<exists>at. format_microsecond t = Inr at"
proof -
  obtain f where "Hla_Time.fields t = Inr f"
    using assms by (cases "civil_from_days (t div MICROSECONDS_PER_DAY)") (simp add: Hla_Time.fields_def Let_def)
  then show ?thesis by (simp add: format_microsecond_def)
qed

lemma effective_ok:
  assumes "frame_ok sb s (st_frame s)"
  obtains at where "(case effective_of s of None \<Rightarrow> Inr None
      | Some e \<Rightarrow> rbind (timed (format_microsecond e)) (\<lambda>t. Inr (Some t))) = Inr at"
    "expected_time (vc_epoch (rs_config s)) (frame_elapsed (st_frame s)) = Inr at"
proof (cases "vc_epoch (rs_config s)")
  case None
  then show thesis using that [of None] by (simp add: effective_of_def expected_time_def)
next
  case (Some e)
  let ?t = "e + int (frame_elapsed (st_frame s) div 1000)"
  have le: "MIN_MICROSECOND \<le> ?t" "?t \<le> MAX_MICROSECOND"
    using assms Some by (auto simp: frame_ok_def intro: order_trans)
  then obtain at where "format_microsecond ?t = Inr at" using format_microsecond_total by blast
  then show thesis
    using that [of "Some at"] Some le by (simp add: effective_of_def expected_time_def timed_def NANOSECONDS_PER_MICROSECOND_def)
qed

lemma supplied_slot_sound:
  assumes "frame_ok sb s (st_frame s)" "expected_time (vc_epoch (rs_config s)) (frame_elapsed (st_frame s)) = Inr at"
  shows "decode_attribute n raw = Inr v \<Longrightarrow>
      sound_slot n (vc_epoch (rs_config s)) sb (supplied_slot VALID (Some v) raw (st_frame s) at)"
    "sound_slot n (vc_epoch (rs_config s)) sb (supplied_slot INVALID None raw (st_frame s) at)"
  using assms by (auto simp: sound_slot_def supplied_slot_def frame_ok_def)

lemma supplied_slot_simps [simp]:
  "raw_bytes (supplied_slot st v raw f at) = length raw" "slot_value (supplied_slot st v raw f at) = v"
  "slot_status (supplied_slot st v raw f at) = st" "slot_hex (supplied_slot st v raw f at) = Some raw"
  by (simp_all add: supplied_slot_def raw_bytes_def)

lemma sound_slot_invalidated:
  "sound_slot n ep sb x \<Longrightarrow> slot_status x \<noteq> ABSENT \<Longrightarrow> sound_slot n ep sb (x\<lparr>slot_status := INVALID, slot_value := None\<rparr>)"
  by (auto simp: sound_slot_def)

lemma slots_ok_invalidated:
  assumes "slots_ok cfg sb slots" "n \<in> set NAMES" "slot_status (slots ! name_index n) \<noteq> ABSENT"
  shows "slots_ok cfg sb (slots[name_index n := (slots ! name_index n)\<lparr>slot_status := INVALID, slot_value := None\<rparr>])"
proof -
  let ?x = "(slots ! name_index n)\<lparr>slot_status := INVALID, slot_value := None\<rparr>"
  have x: "sound_slot n (vc_epoch cfg) sb ?x" using assms by (intro sound_slot_invalidated) (simp_all add: slots_ok_def)
  have "slots[name_index n := ?x] ! name_index m = (if m = n then ?x else slots ! name_index m)" if "m \<in> set NAMES" for m
    using name_index_inj [OF assms(2) that] name_index_less [OF that] assms(1) by (auto simp: slots_ok_def nth_list_update)
  then show ?thesis using assms(1) x by (simp add: slots_ok_def)
qed

section \<open>Reflection\<close>

text \<open>The stages before evaluation end with \<open>evaluate\<close> on the object put back.\<close>

lemma evaluated_kept:
  assumes inv: "step_inv env sb (ib + 1) rb {tok} (put tok upd s2)" and beside: "beside tok s s2" and o2: "output_ok s2"
    and old: "map_of (rs_objects s) tok = Some old" "keys_distinct (rs_objects s)"
    and f: "frame_ok sb s (st_frame s)" and ch: "set changed \<subseteq> set NAMES" "sorted_unique changed"
    and rb: "rb \<le> MAX_EXACT_INTEGER" and env: "answers (rd_projector env) (rs_config s)"
    and s: "within_generation s" "st_upsert s = None" and reason: "\<And>r. reason = Some r \<Longrightarrow> fault_reason r"
    and cache: "rs_cache s = int (dsum cached_bytes (rs_objects s)) + int (cached_bytes upd) - int (cached_bytes old)"
      "rs_cache s \<le> int (cached_attribute_bytes_per_generation (rs_limits s))"
  shows "\<exists>s'. evaluate env tok w changed supplied reason (put tok upd s2) = Inr s' \<and> kept env sb ib rb s s'"
proof -
  have fx: "fixed s2 = fixed s" using beside by (simp add: beside_def)
  note fd = fixedD [OF fx]
  have f2: "frame_ok sb (put tok upd s2) (st_frame (put tok upd s2))" using f by (simp add: frame_ok_def fd)
  have env2: "answers (rd_projector env) (rs_config (put tok upd s2))" using env by (simp add: fd)
  have old2: "map_of (rs_objects s2) tok = Some old" "keys_distinct (rs_objects s2)" "st_upsert s2 = None"
      "rs_cache s2 = rs_cache s" "dsum cached_bytes (rs_objects s2) = dsum cached_bytes (rs_objects s)"
    using beside old s(2) by (simp_all add: beside_def)
  have there: "map_of (rs_objects (put tok upd s2)) tok = Some upd" by simp
  obtain s' where s': "evaluate env tok w changed supplied reason (put tok upd s2) = Inr s'"
    "step_inv env sb (ib + 1) (rb + 1) {} s'" "fixed s' = fixed (put tok upd s2)" "output_ok s'"
    "rs_cache s' = rs_cache (put tok upd s2)"
    "dsum cached_bytes (rs_objects s') = dsum cached_bytes (rs_objects (put tok upd s2))"
    by (rule evaluate_ok [OF inv there f2 ch rb subset_refl env2, of reason w supplied])
      (use o2 s(1) fd(4) old2(3) reason in simp_all)
  have "int (dsum cached_bytes (rs_objects s')) =
      int (dsum cached_bytes (rs_objects s)) + int (cached_bytes upd) - int (cached_bytes old)"
    using dsum_put [OF old2(2,1), of upd] s'(6) old2(5) by simp
  moreover have "rs_cache s' = rs_cache s" "rs_limits s' = rs_limits s"
    using s'(3,5) old2(4) fx fixedD(1) [of s' s] by simp_all
  ultimately have "cache_ok s'" using cache by (simp add: cache_ok_def)
  with s' fx show ?thesis by (auto simp: kept_def)
qed

text \<open>\<open>identify\<close> when the reflection supplies an identifier, and the object's claims either way.\<close>

definition identified ::
  "reducer_env \<Rightarrow> token \<Rightarrow> entity_identifier option \<Rightarrow> ObjectState \<Rightarrow> Step \<Rightarrow>
   hla_exception + Step \<times> ObjectState \<times> lifecycle_reason option" where
  "identified env tok ident obj s = (case ident of None \<Rightarrow> Inr (s, obj, None) | Some i \<Rightarrow> identify env tok i obj s)"

lemma identified_ok:
  assumes inv: "step_inv env sb ib rb {} s" and old: "map_of (rs_objects s) tok = Some old"
    and slots: "slots_ok (rs_config s) sb slots"
    and claim: "\<And>i. ident = Some i \<Longrightarrow> the_identifier (slots ! 0) = Some i"
    and unclaimed: "ident = None \<Longrightarrow> slots ! 0 = ob_slots old ! 0"
    and gen: "rs_generation s = Some g" and ib: "ib < MAX_EXACT_INTEGER"
    and out: "output_ok s" "within_generation s"
  obtains s' obj' r where "identified env tok ident (old\<lparr>ob_slots := slots, ob_mark := mark\<rparr>) s = Inr (s', obj', r)"
    "step_inv env sb (ib + 1) rb {tok} (put tok obj' s')" "beside tok s s'" "output_ok s'"
    "\<And>x. r = Some x \<Longrightarrow> fault_reason x" "ob_slots obj' = slots"
proof -
  let ?obj = "old\<lparr>ob_slots := slots, ob_mark := mark\<rparr>"
  have old_ok: "object_ok env (rs_config s) (rs_generation s) (count_of s) sb rb tok old"
    and keys: "keys_distinct (rs_objects s)"
    using inv old by (simp_all add: step_inv_def objects_ok_def tokens_ok_def)
  have quar: "object_ok env (rs_config s) (rs_generation s) (count_of s) sb rb tok (?obj\<lparr>ob_lifecycle := QUARANTINED\<rparr>)"
    using old_ok slots by (simp add: object_ok_def identity_ok_def claims_ok_def cong: option.case_cong)
  show thesis
  proof (cases ident)
    case (Some i)
    have "the_identifier (ob_slot ?obj ENTITY_IDENTIFIER) = Some i" using claim [OF Some] by (simp add: ob_slot_def)
    from identify_ok [OF inv old _ quar this gen ib out] obtain s' obj' r where
      "identify env tok i ?obj s = Inr (s', obj', r)" "step_inv env sb (ib + 1) rb {tok} (put tok obj' s')"
      "beside tok s s'" "output_ok s'" "\<And>x. r = Some x \<Longrightarrow> fault_reason x" "ob_slots obj' = ob_slots ?obj"
      by auto
    then show thesis by (intro that [of s' obj' r]) (simp_all add: identified_def Some)
  next
    case None
    have "object_ok env (rs_config s) (rs_generation s) (count_of s) sb rb tok ?obj"
      using old_ok slots unclaimed [OF None]
      by (simp add: object_ok_def identity_ok_def claims_ok_def ob_slot_def cong: option.case_cong)
    then have "step_inv env sb ib rb {tok} (put tok ?obj s)"
      by (intro step_inv_put [OF inv old]) simp_all
    then have "step_inv env sb (ib + 1) rb {tok} (put tok ?obj s)" by (rule step_inv_mono) simp_all
    moreover have "beside tok s s" using keys by (simp add: besideI)
    ultimately show thesis using out by (intro that [of s ?obj None]) (simp_all add: identified_def None)
  qed
qed

text \<open>The warning of an unmapped force leaves the object as it was evaluated.\<close>

lemma step_inv_warned:
  assumes "step_inv env sb ib rb {tok} (put tok upd s)" "state_part s' = state_part s"
  shows "step_inv env sb ib rb {tok} (put tok (upd\<lparr>ob_warned := w\<rparr>) s')"
proof -
  note part = state_partD [OF assms(2)]
  let ?s = "put tok upd s"
  have counts: "count_of s' = count_of s" by (simp add: count_of_def part(7) fun_eq_iff)
  have "object_ok env (rs_config s) (rs_generation s) (count_of s) sb rb tok upd"
    using assms(1) by (simp add: step_inv_def objects_ok_def)
  then have "object_ok env (rs_config s) (rs_generation s) (count_of s) sb rb tok (upd\<lparr>ob_warned := w\<rparr>)"
    by (simp add: object_ok_def identity_ok_def claims_ok_def ob_slot_def cong: option.case_cong)
  then have "step_inv env sb ib rb {tok} (put tok (upd\<lparr>ob_warned := w\<rparr>) ?s)"
    by (intro step_inv_put [OF assms(1), of _ upd]) simp_all
  moreover have "state_part (put tok (upd\<lparr>ob_warned := w\<rparr>) s') = state_part (put tok (upd\<lparr>ob_warned := w\<rparr>) ?s)"
    using assms(2) by (simp add: put_def state_part_def)
  ultimately show ?thesis using state_partD(1) by metis
qed

text \<open>The slots of a reflection whose values all decode, and its regression in time.\<close>

definition made_slots ::
  "slot_status \<Rightarrow> (pytext \<Rightarrow> decoded option) \<Rightarrow> (pytext \<times> bytes) list \<Rightarrow> frame \<Rightarrow> pytext option \<Rightarrow> (pytext \<times> Slot) list" where
  "made_slots st val known f at = map (\<lambda>(name, raw). (name, supplied_slot st (val name) raw f at)) known"

lemma made_slots_names [simp]: "map fst (made_slots st val known f at) = map fst known"
  by (simp add: made_slots_def case_prod_beta comp_def)

lemma made_slots_lookup:
  "map_of (made_slots st val known f at) n = map_option (\<lambda>raw. supplied_slot st (val n) raw f at) (map_of known n)"
  by (induction known) (auto simp: made_slots_def)

text \<open>Names of the profile, each once.\<close>

definition known_ok :: "(pytext \<times> bytes) list \<Rightarrow> bool" where
  "known_ok known \<longleftrightarrow> distinct (map fst known) \<and> set (map fst known) \<subseteq> set NAMES"

lemma made_slots_nth:
  assumes "known_ok known" "length slots = 4" "n \<in> set NAMES"
  shows "set_slots (made_slots st val known f at) slots ! name_index n =
    (case map_of known n of None \<Rightarrow> slots ! name_index n | Some raw \<Rightarrow> supplied_slot st (val n) raw f at)"
proof -
  have "set_slots (made_slots st val known f at) slots ! name_index n =
      (case map_of (made_slots st val known f at) n of Some x \<Rightarrow> x | None \<Rightarrow> slots ! name_index n)"
    by (rule set_slots_nth) (use assms in \<open>simp_all only: made_slots_names\<close>, simp_all add: known_ok_def)
  then show ?thesis by (simp add: made_slots_lookup split: option.split)
qed

lemma made_slots_bytes:
  assumes "known_ok known" "length slots = 4"
  shows "int (sum_list (map raw_bytes (set_slots (made_slots st val known f at) slots))) =
    int (sum_list (map raw_bytes slots)) +
    sum_list (map (\<lambda>(n, raw). int (length raw) - int (raw_bytes (slots ! name_index n))) known)"
proof -
  have "map (\<lambda>(n, x). int (raw_bytes x) - int (raw_bytes (slots ! name_index n))) (made_slots st val known f at) =
      map (\<lambda>(n, raw). int (length raw) - int (raw_bytes (slots ! name_index n))) known"
    by (simp add: made_slots_def case_prod_beta)
  with sum_raw_set_slots [of "made_slots st val known f at" slots] assms show ?thesis
    unfolding made_slots_names by (simp add: known_ok_def)
qed

lemma made_slots_ok:
  assumes "slots_ok cfg sb slots" "known_ok known"
    "\<And>n raw. (n, raw) \<in> set known \<Longrightarrow> sound_slot n (vc_epoch cfg) sb (supplied_slot st (val n) raw f at)"
  shows "slots_ok cfg sb (set_slots (made_slots st val known f at) slots)"
  by (rule supplied_slots_ok [OF assms(1)])
    (use assms(2,3) in \<open>auto simp: known_ok_def made_slots_def case_prod_beta comp_def\<close>)

definition decoding_of :: "(pytext \<times> bytes) list \<Rightarrow> (pytext, decoded) dict \<Rightarrow> bool" where
  "decoding_of known decoded \<longleftrightarrow>
     known_ok known \<and>
     (\<forall>n. map_of decoded n = (case map_of known n of None \<Rightarrow> None
        | Some raw \<Rightarrow> (case decode_attribute n raw of Inr v \<Rightarrow> Some v | Inl _ \<Rightarrow> None))) \<and>
     (\<forall>(n, raw)\<in>set known. \<exists>v. decode_attribute n raw = Inr v)"

lemma decoding_lookup:
  assumes "decoding_of known decoded"
  shows "map_of decoded n = Some v \<longleftrightarrow> (\<exists>raw. map_of known n = Some raw \<and> decode_attribute n raw = Inr v)"
    "map_of decoded n = None \<longleftrightarrow> map_of known n = None"
proof -
  have d: "map_of decoded n = (case map_of known n of None \<Rightarrow> None
        | Some raw \<Rightarrow> (case decode_attribute n raw of Inr v \<Rightarrow> Some v | Inl _ \<Rightarrow> None))"
    and k: "map_of known n = Some raw \<Longrightarrow> \<exists>v. decode_attribute n raw = Inr v" for raw
    using assms by (auto simp: decoding_of_def dest!: map_of_SomeD)
  show "map_of decoded n = Some v \<longleftrightarrow> (\<exists>raw. map_of known n = Some raw \<and> decode_attribute n raw = Inr v)"
    unfolding d by (auto split: option.split sum.split)
  show "map_of decoded n = None \<longleftrightarrow> map_of known n = None"
    using d k by (auto split: option.splits sum.splits)
qed

lemma valid_slots_ok:
  assumes "decoding_of known decoded" "slots_ok (rs_config s) sb slots" "frame_ok sb s (st_frame s)"
    "expected_time (vc_epoch (rs_config s)) (frame_elapsed (st_frame s)) = Inr at"
  shows "slots_ok (rs_config s) sb (set_slots (made_slots VALID (map_of decoded) known (st_frame s) at) slots)"
proof (rule made_slots_ok [OF assms(2)])
  show known: "known_ok known" using assms(1) by (simp add: decoding_of_def)
  fix n raw
  assume raw: "(n, raw) \<in> set known"
  have "map_of known n = Some raw" using raw known by (simp add: known_ok_def)
  moreover have "\<forall>(n, raw)\<in>set known. \<exists>v. decode_attribute n raw = Inr v" using assms(1) by (simp add: decoding_of_def)
  with raw obtain v where "decode_attribute n raw = Inr v" by blast
  ultimately show "sound_slot n (vc_epoch (rs_config s)) sb (supplied_slot VALID (map_of decoded n) raw (st_frame s) at)"
    using decoding_lookup(1) [OF assms(1)] supplied_slot_sound(1) [OF assms(3,4)] by metis
qed

definition regressed ::
  "token \<Rightarrow> (pytext, decoded) dict \<Rightarrow> ObjectState \<Rightarrow> Slot list \<Rightarrow> Step \<Rightarrow> Slot list \<times> int option \<times> Step" where
  "regressed tok decoded obj slots s =
     (let effective = effective_of s in
      if map_of decoded SPATIAL \<noteq> None \<and> effective \<noteq> None then
        (if ob_mark obj \<noteq> None \<and> the effective < the (ob_mark obj) then
           (slots[name_index SPATIAL :=
              (slots ! name_index SPATIAL) \<lparr>slot_status := INVALID, slot_value := None\<rparr>],
            ob_mark obj, diagnose ''E_TIME_REGRESSION'' (Some SPATIAL) (Some tok) s)
         else (slots, effective, s))
      else (slots, ob_mark obj, s))"

lemma regressed_ok:
  assumes r: "regressed tok decoded obj slots s = (slots', mark, s')"
    and slots: "slots_ok (rs_config s) sb slots"
    and sp: "map_of decoded SPATIAL \<noteq> None \<Longrightarrow> slot_status (slots ! name_index SPATIAL) \<noteq> ABSENT"
    and out: "output_ok s" "within_generation s"
  shows "slots_ok (rs_config s) sb slots'" "slots' ! 0 = slots ! 0" "state_part s' = state_part s"
    "output_ok s'" "st_upsert s' = st_upsert s" "sum_list (map raw_bytes slots') = sum_list (map raw_bytes slots)"
proof -
  have names: "SPATIAL \<in> set NAMES" by (simp add: NAMES_def)
  have len: "length slots = 4" using slots by (simp add: slots_ok_def)
  have raw: "raw_bytes (x\<lparr>slot_status := st, slot_value := v\<rparr>) = raw_bytes x" for x st v by (simp add: raw_bytes_def)
  have "int (sum_list (map raw_bytes (slots[3 := (slots ! 3)\<lparr>slot_status := INVALID, slot_value := None\<rparr>]))) =
      int (sum_list (map raw_bytes slots))"
    using sum_raw_update [of 3 slots] len by (simp add: raw)
  with r sp out slots slots_ok_invalidated [OF slots names] show
    "slots_ok (rs_config s) sb slots'" "slots' ! 0 = slots ! 0" "state_part s' = state_part s"
    "output_ok s'" "st_upsert s' = st_upsert s" "sum_list (map raw_bytes slots') = sum_list (map raw_bytes slots)"
    by (auto simp: regressed_def Let_def catalogue_codes split: if_splits)
qed

lemma apply_values_stages:
  "apply_values env tok obj known decoded at s =
     (case regressed tok decoded obj (set_slots (made_slots VALID (map_of decoded) known (st_frame s) at) (ob_slots obj)) s of
        (slots, mark, s1) \<Rightarrow>
          rbind (identified env tok (decoded_identifier decoded) (obj\<lparr>ob_slots := slots, ob_mark := mark\<rparr>) s1)
            (\<lambda>(s2, updated, reason).
             case (case decoded_force decoded of
                 None \<Rightarrow> (updated, s2)
               | Some f \<Rightarrow>
                   if map_of (force_map (document (rs_config s2))) (dec f) = None \<and> f \<notin> set (ob_warned obj)
                   then (updated \<lparr>ob_warned := List.insert f (ob_warned obj)\<rparr>,
                         diagnose ''W_FORCE_UNMAPPED'' (Some FORCE_IDENTIFIER) (Some tok) s2)
                   else (updated, s2)) of
               (updated, s3) \<Rightarrow>
                 evaluate env tok (ob_eligible obj) (map fst known) True reason (put tok updated s3)))"
  unfolding apply_values_def regressed_def identified_def made_slots_def Let_def by (simp add: case_prod_beta)

lemma beside_trans_state:
  "beside tok s s2 \<Longrightarrow> state_part s3 = state_part s2 \<Longrightarrow> st_upsert s3 = st_upsert s2 \<Longrightarrow> beside tok s s3"
  by (simp add: beside_def state_partD(3,4,6) [of s3 s2])

lemma beside_before_state:
  "beside tok s1 s2 \<Longrightarrow> state_part s1 = state_part s \<Longrightarrow> st_upsert s1 = st_upsert s \<Longrightarrow> beside tok s s2"
  by (simp add: beside_def state_partD(3,4,6) [of s1 s])

lemma apply_values_ok:
  assumes inv: "step_inv env sb ib rb {} s" and old: "map_of (rs_objects s) tok = Some obj"
    and known: "decoding_of known decoded" "sorted_unique (map fst known)"
    and time: "expected_time (vc_epoch (rs_config s)) (frame_elapsed (st_frame s)) = Inr at"
    and f: "frame_ok sb s (st_frame s)" and bounds: "ib < MAX_EXACT_INTEGER" "rb \<le> MAX_EXACT_INTEGER"
    and env: "answers (rd_projector env) (rs_config s)"
    and out: "output_ok s" "within_generation s" "st_upsert s = None"
    and cache: "rs_cache s = int (dsum cached_bytes (rs_objects s)) +
        sum_list (map (\<lambda>(n, raw). int (length raw) - int (raw_bytes (ob_slots obj ! name_index n))) known)"
      "rs_cache s \<le> int (cached_attribute_bytes_per_generation (rs_limits s))"
  shows "\<exists>s'. apply_values env tok obj known decoded at s = Inr s' \<and> kept env sb ib rb s s'"
proof -
  have names: "ENTITY_IDENTIFIER \<in> set NAMES" "SPATIAL \<in> set NAMES" by (simp_all add: NAMES_def)
  have slots: "slots_ok (rs_config s) sb (ob_slots obj)" and keys: "keys_distinct (rs_objects s)"
    using inv old by (simp_all add: step_inv_def objects_ok_def object_ok_def tokens_ok_def)
  then have len: "length (ob_slots obj) = 4" by (simp add: slots_ok_def)
  obtain g where gen: "rs_generation s = Some g" using f by (auto simp: frame_ok_def)
  let ?slots = "set_slots (made_slots VALID (map_of decoded) known (st_frame s) at) (ob_slots obj)"
  have ok: "known_ok known" using known(1) by (simp add: decoding_of_def)
  note nth = made_slots_nth [OF ok len, of _ VALID "map_of decoded" "st_frame s" at]
  obtain slots' mark s1 where r: "regressed tok decoded obj ?slots s = (slots', mark, s1)"
    by (cases "regressed tok decoded obj ?slots s")
  have "slot_status (?slots ! name_index SPATIAL) \<noteq> ABSENT" if "map_of decoded SPATIAL \<noteq> None"
    using nth [OF names(2)] that decoding_lookup(2) [OF known(1), of SPATIAL] by (auto split: option.splits)
  note reg = regressed_ok [OF r valid_slots_ok [OF known(1) slots f time] this out(1,2)]
  note part = state_partD [OF reg(3)]
  have readings: "\<exists>raw. decode_attribute n raw = Inr v" if "map_of decoded n = Some v" for n v
    using decoding_lookup(1) [OF known(1)] that by blast
  have claim: "the_identifier (slots' ! 0) = Some i" if "decoded_identifier decoded = Some i" for i
  proof -
    have d: "map_of decoded ENTITY_IDENTIFIER = Some (DEntityIdentifier i)"
      using that by (auto simp: decoded_identifier_def split: option.splits decoded.splits)
    then obtain raw where "map_of known ENTITY_IDENTIFIER = Some raw"
      using decoding_lookup(1) [OF known(1)] by blast
    with nth [OF names(1)] d reg(2) show ?thesis by (simp add: the_identifier_def)
  qed
  have unclaimed: "slots' ! 0 = ob_slots obj ! 0" if "decoded_identifier decoded = None"
  proof -
    have "map_of decoded ENTITY_IDENTIFIER = None"
      using decoded_identifier_iff [of decoded, OF readings] that by (cases "map_of decoded ENTITY_IDENTIFIER") auto
    then show ?thesis using nth [OF names(1)] decoding_lookup(2) [OF known(1)] reg(2) by simp
  qed
  have inv1: "step_inv env sb ib rb {} s1" "map_of (rs_objects s1) tok = Some obj" "rs_generation s1 = Some g"
    "slots_ok (rs_config s1) sb slots'" "within_generation s1"
    using inv old gen reg(1) out(2) by (simp_all add: part)
  obtain s2 upd reason where id:
    "identified env tok (decoded_identifier decoded) (obj\<lparr>ob_slots := slots', ob_mark := mark\<rparr>) s1 = Inr (s2, upd, reason)"
    "step_inv env sb (ib + 1) rb {tok} (put tok upd s2)" "beside tok s1 s2" "output_ok s2"
    "\<And>x. reason = Some x \<Longrightarrow> fault_reason x" "ob_slots upd = slots'"
    using identified_ok [OF inv1(1,2,4) claim unclaimed inv1(3) bounds(1) reg(4) inv1(5), where mark = mark] by metis
  have b2: "beside tok s s2" by (rule beside_before_state [OF id(3) reg(3,5)])
  then have w2: "within_generation s2" using fixedD(4) [of s2 s] out(2) by (simp add: beside_def)
  define final where "final = (case decoded_force decoded of None \<Rightarrow> (upd, s2)
    | Some f \<Rightarrow> if map_of (force_map (document (rs_config s2))) (dec f) = None \<and> f \<notin> set (ob_warned obj)
        then (upd \<lparr>ob_warned := List.insert f (ob_warned obj)\<rparr>,
              diagnose ''W_FORCE_UNMAPPED'' (Some FORCE_IDENTIFIER) (Some tok) s2) else (upd, s2))"
  obtain upd' s3 where fin: "final = (upd', s3)" by (cases final)
  then have warned: "upd' = upd \<and> s3 = s2 \<or> (\<exists>w. upd' = upd\<lparr>ob_warned := w\<rparr>) \<and>
      s3 = diagnose ''W_FORCE_UNMAPPED'' (Some FORCE_IDENTIFIER) (Some tok) s2"
    by (auto simp: final_def split: option.splits if_splits)
  then have s3: "state_part s3 = state_part s2" "st_upsert s3 = st_upsert s2" "output_ok s3"
      "ob_slots upd' = slots'" using id(4,6) w2 by (auto simp: catalogue_codes)
  have i3: "step_inv env sb (ib + 1) rb {tok} (put tok upd' s3)"
    using warned id(2) step_inv_warned [OF id(2)] by auto
  have "rs_cache s = int (dsum cached_bytes (rs_objects s)) + int (cached_bytes upd') - int (cached_bytes obj)"
    using made_slots_bytes [OF ok len, of VALID "map_of decoded" "st_frame s" at] cache(1) reg(6) s3(4) by (simp add: cached_bytes_def)
  then have "\<exists>s'. evaluate env tok (ob_eligible obj) (map fst known) True reason (put tok upd' s3) = Inr s' \<and>
      kept env sb ib rb s s'"
    by (intro evaluated_kept [OF i3 beside_trans_state [OF b2 s3(1,2)] s3(3) old keys f _ known(2) bounds(2) env out(2,3) id(5) _ cache(2)])
      (use ok in \<open>auto simp: known_ok_def\<close>)
  then show ?thesis
    unfolding apply_values_stages r prod.case id(1) rbind_simps unfolding final_def [symmetric] fin by auto
qed

text \<open>A reflection with a value that does not decode writes INVALID slots and identifies nothing.\<close>

lemma invalid_values_ok:
  assumes inv: "step_inv env sb ib rb {} s" and old: "map_of (rs_objects s) tok = Some obj"
    and known: "known_ok known" "sorted_unique (map fst known)"
    and time: "expected_time (vc_epoch (rs_config s)) (frame_elapsed (st_frame s)) = Inr at"
    and f: "frame_ok sb s (st_frame s)" and bounds: "rb \<le> MAX_EXACT_INTEGER"
    and env: "answers (rd_projector env) (rs_config s)"
    and out: "output_ok s" "within_generation s" "st_upsert s = None"
    and cache: "rs_cache s = int (dsum cached_bytes (rs_objects s)) +
        sum_list (map (\<lambda>(n, raw). int (length raw) - int (raw_bytes (ob_slots obj ! name_index n))) known)"
      "rs_cache s \<le> int (cached_attribute_bytes_per_generation (rs_limits s))"
    and s2: "state_part s2 = state_part s" "st_upsert s2 = st_upsert s" "output_ok s2"
  shows "\<exists>s'. evaluate env tok (ob_eligible obj) (map fst known) False None
      (put tok (obj\<lparr>ob_slots := set_slots (made_slots INVALID (\<lambda>_. None) known (st_frame s) at) (ob_slots obj)\<rparr>) s2) = Inr s' \<and>
    kept env sb ib rb s s'"
proof -
  have names: "ENTITY_IDENTIFIER \<in> set NAMES" by (simp add: NAMES_def)
  have ok: "object_ok env (rs_config s) (rs_generation s) (count_of s) sb rb tok obj" and keys: "keys_distinct (rs_objects s)"
    using inv old by (simp_all add: step_inv_def objects_ok_def tokens_ok_def)
  then have slots: "slots_ok (rs_config s) sb (ob_slots obj)" "length (ob_slots obj) = 4"
    by (simp_all add: object_ok_def slots_ok_def)
  let ?slots = "set_slots (made_slots INVALID (\<lambda>_. None) known (st_frame s) at) (ob_slots obj)"
  let ?obj = "obj\<lparr>ob_slots := ?slots\<rparr>"
  note part = state_partD [OF s2(1)]
  have counts: "count_of s2 = count_of s" by (simp add: count_of_def part(7) fun_eq_iff)
  have "slots_ok (rs_config s) sb ?slots"
    by (rule made_slots_ok [OF slots(1) known(1)]) (rule supplied_slot_sound(2) [OF f time])
  moreover have "the_identifier (?slots ! 0) = Some i \<Longrightarrow> the_identifier (ob_slots obj ! 0) = Some i" for i
    using made_slots_nth [OF known(1) slots(2) names, of INVALID "\<lambda>_. None" "st_frame s" at]
    by (auto simp: the_identifier_def split: option.splits)
  ultimately have "object_ok env (rs_config s) (rs_generation s) (count_of s) sb rb tok ?obj"
    using ok by (simp add: object_ok_def identity_ok_def claims_ok_def ob_slot_def cong: option.case_cong)
  then have "step_inv env sb ib rb {tok} (put tok ?obj s2)"
    by (intro step_inv_put [of _ _ _ _ "{}" _ _ obj]) (use inv old in \<open>simp_all add: part counts\<close>)
  then have inv2: "step_inv env sb (ib + 1) rb {tok} (put tok ?obj s2)" by (rule step_inv_mono) simp_all
  have "rs_cache s = int (dsum cached_bytes (rs_objects s)) + int (cached_bytes ?obj) - int (cached_bytes obj)"
    using made_slots_bytes [OF known(1) slots(2), of INVALID "\<lambda>_. None" "st_frame s" at] cache(1)
    by (simp add: cached_bytes_def)
  then show ?thesis
    using evaluated_kept [OF inv2 besideI [OF s2(1,2) keys] s2(3) old keys f _ known(2) bounds env out(2,3) _ _ cache(2)]
      known(1) by (auto simp: known_ok_def)
qed

lemma gathered_failures:
  assumes "list_all (\<lambda>(c, _). is_code c) failures" "output_ok s" "within_generation s"
  shows "state_part (fold (\<lambda>(code, name, message). diagnose_with code (Some name) (Some tok) message) failures s) = state_part s"
    "st_upsert (fold (\<lambda>(code, name, message). diagnose_with code (Some name) (Some tok) message) failures s) = st_upsert s"
    "output_ok (fold (\<lambda>(code, name, message). diagnose_with code (Some name) (Some tok) message) failures s)"
  using assms by (induction failures arbitrary: s) auto

lemma apply_reflection_ok:
  assumes inv: "step_inv env sb ib rb {} s" and old: "map_of (rs_objects s) tok = Some obj"
    and sizes: "\<forall>(n, raw)\<in>set attributes. length raw < 10 ^ 20" and names: "sorted_wrt (<) (map fst attributes)"
    and known: "known = filter (\<lambda>(name, _). name \<in> set NAMES) attributes"
    and f: "frame_ok sb s (st_frame s)" and bounds: "ib < MAX_EXACT_INTEGER" "rb \<le> MAX_EXACT_INTEGER"
    and env: "answers (rd_projector env) (rs_config s)"
    and out: "output_ok s" "within_generation s" "st_upsert s = None"
    and cache: "rs_cache s = int (dsum cached_bytes (rs_objects s)) +
        sum_list (map (\<lambda>(n, raw). int (length raw) - int (raw_bytes (ob_slots obj ! name_index n))) known)"
      "rs_cache s \<le> int (cached_attribute_bytes_per_generation (rs_limits s))"
  shows "\<exists>s'. apply_reflection env tok obj attributes known s = Inr s' \<and> kept env sb ib rb s s'"
proof -
  have asc: "sorted_wrt (<) (map fst known)"
    unfolding known filter_map [symmetric] using names by (simp add: sorted_wrt_filter case_prod_beta sorted_wrt_map)
  have dist: "distinct (map fst attributes)" "distinct (map fst known)"
    using names asc by (simp_all add: strict_sorted_iff)
  have ok: "known_ok known" using dist(2) by (auto simp: known_ok_def known)
  have su: "sorted_unique (map fst known)"
    using asc dist(2) by (simp add: sorted_unique_def distinct_remdups_id strict_sorted_iff sort_key_id_if_sorted)
  obtain decoded failures where dec: "decode_supplied attributes = Inr (decoded, failures)"
    "list_all (\<lambda>(c, _). is_code c) failures"
    "\<And>n. map_of decoded n = (case map_of attributes n of None \<Rightarrow> None
       | Some raw \<Rightarrow> (case decode_attribute n raw of Inr v \<Rightarrow> Some v | Inl _ \<Rightarrow> None))"
    "failures = [] \<longrightarrow> (\<forall>(n, raw)\<in>set attributes. \<exists>v. decode_attribute n raw = Inr v)"
    by (rule decode_supplied_ok [OF sizes dist(1)]) (rule that)
  obtain at where at: "(case effective_of s of None \<Rightarrow> Inr None
      | Some e \<Rightarrow> rbind (timed (format_microsecond e)) (\<lambda>t. Inr (Some t))) = Inr at"
    "expected_time (vc_epoch (rs_config s)) (frame_elapsed (st_frame s)) = Inr at"
    by (rule effective_ok [OF f])
  show ?thesis
  proof (cases "failures = []")
    case True
    have "known = attributes"
      using mp [OF dec(4) True] decode_known unfolding known by (intro filter_True) blast
    then have "decoding_of known decoded" using ok dec(3) mp [OF dec(4) True] by (simp add: decoding_of_def)
    from apply_values_ok [OF inv old this su at(2) f bounds env out cache] True show ?thesis
      by (simp add: apply_reflection_def dec(1) at(1))
  next
    case False
    note g = gathered_failures [OF dec(2) out(1,2), of tok]
    from invalid_values_ok [OF inv old ok su at(2) f bounds(2) env out cache g] False show ?thesis
      by (simp add: apply_reflection_def dec(1) at(1) made_slots_def state_partD(14) [OF g(1)])
  qed
qed

lemma reflect_stages:
  assumes "map_of (rs_objects s) tok = Some obj" "known = filter (\<lambda>(name, _). name \<in> set NAMES) attributes"
    "\<not> attributes_per_reflection (rs_limits s) < length attributes"
  shows "reflect env tok attributes retractable s =
    (if retractable then
       if attributes \<noteq> [] then
         evaluate env tok (ob_eligible obj) (map fst known) False (Some RETRACTION_UNSUPPORTED)
           (put tok (obj\<lparr>ob_lifecycle := QUARANTINED\<rparr>) (diagnose ''E_RETRACTION_UNSUPPORTED'' None (Some tok) s))
       else Inr (retracted tok obj s)
     else if attributes = [] then Inr s
     else
       (let budget = rs_cache s +
          sum_list (map (\<lambda>(name, raw). int (length raw) - int (raw_bytes (ob_slots obj ! name_index name))) known) in
        if int (cached_attribute_bytes_per_generation (rs_limits s)) < budget
          then Inr (limit_reached tok TOO_MANY_BYTES s)
        else apply_reflection env tok obj attributes known (s \<lparr>rs_cache := budget\<rparr>)))"
  using assms by (simp add: reflect_def Let_def retracted_def ob_slot_def)

lemma cache_irrelevant:
  "step_inv env sb ib rb X (s\<lparr>rs_cache := c\<rparr>) = step_inv env sb ib rb X s" "output_ok (s\<lparr>rs_cache := c\<rparr>) = output_ok s"
  "fixed (s\<lparr>rs_cache := c\<rparr>) = fixed s" "kept env sb ib rb (s\<lparr>rs_cache := c\<rparr>) s' = kept env sb ib rb s s'"
  by (simp_all add: step_inv_def tokens_ok_def index_ok_def objects_ok_def session_ok_def distinct_tokens_def
      count_of_def [abs_def] output_ok_def fixed_def kept_def cong: option.case_cong)

lemma reflect_ok:
  assumes inv: "step_inv env sb ib rb {} s" "cache_ok s"
    and sizes: "\<forall>(n, raw)\<in>set attributes. length raw < 10 ^ 20" and names: "sorted_wrt (<) (map fst attributes)"
    and f: "frame_ok sb s (st_frame s)" and bounds: "ib < MAX_EXACT_INTEGER" "rb \<le> MAX_EXACT_INTEGER"
    and env: "answers (rd_projector env) (rs_config s)"
    and out: "output_ok s" "within_generation s" "st_upsert s = None"
  shows "\<exists>s'. reflect env tok attributes retractable s = Inr s' \<and> kept env sb ib rb s s'"
proof -
  obtain g where gen: "rs_generation s = Some g" using f by (auto simp: frame_ok_def)
  have stay: "kept env sb ib rb s s'" if "state_part s' = state_part s" "output_ok s'" for s'
    using kept_state_part [OF that(1) inv that(2)] .
  show ?thesis
  proof (cases "attributes_per_reflection (rs_limits s) < length attributes")
    case True
    then show ?thesis using stay out by (simp add: reflect_def)
  next
    case few: False
    show ?thesis
    proof (cases "map_of (rs_objects s) tok")
      case None
      then show ?thesis using few unknown_object_ok [OF inv out(1,2) gen] by (simp add: reflect_def)
    next
      case (Some obj)
      define known where "known = filter (\<lambda>(name, _). name \<in> set NAMES) attributes"
      have asc: "sorted_wrt (<) (map fst known)" "set (map fst known) \<subseteq> set NAMES"
        using names by (auto simp: known_def sorted_wrt_filter case_prod_beta sorted_wrt_map)
      then have su: "sorted_unique (map fst known)"
        by (simp add: sorted_unique_def distinct_remdups_id strict_sorted_iff sort_key_id_if_sorted)
      note stages = reflect_stages [OF Some known_def few, of env retractable]
      have keys: "keys_distinct (rs_objects s)" using inv(1) by (simp add: step_inv_def tokens_ok_def)
      consider "retractable" "attributes \<noteq> []" | "retractable" "attributes = []"
        | "\<not> retractable" "attributes = []" | "\<not> retractable" "attributes \<noteq> []" by blast
      then show ?thesis
      proof cases
        case 1
        let ?s2 = "diagnose ''E_RETRACTION_UNSUPPORTED'' None (Some tok) s"
        let ?obj = "obj\<lparr>ob_lifecycle := QUARANTINED\<rparr>"
        have sp: "state_part ?s2 = state_part s" by simp
        note part = state_partD [OF sp]
        have counts: "count_of ?s2 = count_of s" by (simp add: count_of_def part(7) fun_eq_iff)
        have "object_ok env (rs_config s) (rs_generation s) (count_of s) sb rb tok obj"
          using inv(1) Some by (simp add: step_inv_def objects_ok_def)
        then have "step_inv env sb ib rb {tok} (put tok ?obj ?s2)"
          by (intro step_inv_put [of _ _ _ _ "{}" _ _ obj])
            (use inv(1) Some quarantined_ok(2) in \<open>simp_all add: part counts\<close>)
        then have "step_inv env sb (ib + 1) rb {tok} (put tok ?obj ?s2)" by (rule step_inv_mono) simp_all
        then have "\<exists>s'. evaluate env tok (ob_eligible obj) (map fst known) False (Some RETRACTION_UNSUPPORTED)
            (put tok ?obj ?s2) = Inr s' \<and> kept env sb ib rb s s'"
          by (rule evaluated_kept [OF _ besideI [OF sp _ keys] _ Some keys f asc(2) su bounds(2) env out(2,3)])
            (use inv(2) out in \<open>auto simp: catalogue_codes fault_reason_def cache_ok_def cached_bytes_def\<close>)
        with 1 show ?thesis unfolding stages by auto
      next
        case 2
        then show ?thesis using retracted_kept [OF inv Some out(1,2)] unfolding stages by simp
      next
        case 3
        then show ?thesis using stay out(1) unfolding stages by simp
      next
        case 4
        define budget where "budget = rs_cache s + sum_list (map (\<lambda>(name, raw).
          int (length raw) - int (raw_bytes (ob_slots obj ! name_index name))) known)"
        show ?thesis
        proof (cases "int (cached_attribute_bytes_per_generation (rs_limits s)) < budget")
          case True
          then show ?thesis using 4 stay out unfolding stages by (simp add: budget_def)
        next
          case False
          have f1: "frame_ok sb (s\<lparr>rs_cache := budget\<rparr>) (st_frame (s\<lparr>rs_cache := budget\<rparr>))"
            using f by (simp add: frame_ok_def)
          have "\<exists>s'. apply_reflection env tok obj attributes known (s\<lparr>rs_cache := budget\<rparr>) = Inr s' \<and>
              kept env sb ib rb (s\<lparr>rs_cache := budget\<rparr>) s'"
            by (rule apply_reflection_ok [OF _ _ sizes names known_def f1 bounds])
              (use inv Some out False env in \<open>simp_all add: cache_irrelevant cache_ok_def budget_def\<close>)
          then show ?thesis using 4 False unfolding stages by (simp add: budget_def cache_irrelevant)
        qed
      qed
    qed
  qed
qed

section \<open>One event\<close>

text \<open>
  What the frame schema gives (canonical tokens, texts without surrogates, members in range), and
  what the line's own rules add: ascending names, bounded texts, catalogue codes.
\<close>

fun schema_event :: "event \<Rightarrow> bool" where
  "schema_event (Discover tok name cls) \<longleftrightarrow> token_form tok \<and> \<not> has_surrogate name \<and> \<not> has_surrogate cls"
| "schema_event (Reflect tok attributes d r) \<longleftrightarrow> (\<forall>(n, raw)\<in>set attributes. length raw < 10 ^ 20)"
| "schema_event _ \<longleftrightarrow> True"

definition schema_frame :: "frame \<Rightarrow> bool" where
  "schema_frame f \<longleftrightarrow> is_counter (frame_seq f) \<and> frame_generation f \<le> MAX_EXACT_INTEGER \<and>
     length (frame_sha f) = 32 \<and> schema_event (frame_event f)"

fun event_ok :: "event \<Rightarrow> bool" where
  "event_ok (Discover tok name cls) \<longleftrightarrow> token_form tok \<and> carriable_text name \<and> carriable_text cls"
| "event_ok (Reflect tok attributes d r) \<longleftrightarrow>
     (\<forall>(n, raw)\<in>set attributes. length raw < 10 ^ 20) \<and> sorted_wrt (<) (map fst attributes)"
| "event_ok (Diagnostic tok d) \<longleftrightarrow> is_code (cd_code d)"
| "event_ok _ \<longleftrightarrow> True"

definition generation_after :: "frame \<Rightarrow> nat option \<Rightarrow> nat option" where
  "generation_after f gen =
     (case frame_event f of GenerationStart _ \<Rightarrow> Some (frame_generation f) | GenerationEnd _ \<Rightarrow> None | _ \<Rightarrow> gen)"

definition session_part :: "Step \<Rightarrow> _" where
  "session_part s = (rs_limits s, rs_config s, rs_complete s, rs_rules s, st_frame s)"

lemma session_part_fixed:
  assumes "fixed s' = fixed s"
  shows "session_part s' = session_part s" "rs_generation s' = rs_generation s"
  using assms by (simp_all add: session_part_def fixed_def)

lemma cleared_inv:
  assumes "step_inv env sb ib rb {} s" "\<And>g. gen = Some g \<Longrightarrow> is_counter g"
  shows "step_inv env sb' ib' rb' {} (clear_generation gen s)" "cache_ok (clear_generation gen s)"
  using assms by (auto simp: step_inv_def tokens_ok_def index_ok_def objects_ok_def session_ok_def cache_ok_def
      clear_generation_def distinct_tokens_def count_of_def dget_def split: option.split)

definition run_kept :: "reducer_env \<Rightarrow> nat \<Rightarrow> nat \<Rightarrow> nat \<Rightarrow> Step \<Rightarrow> Step \<Rightarrow> bool" where
  "run_kept env sb ib rb s s' \<longleftrightarrow>
     step_inv env sb (ib + 1) (rb + 1) {} s' \<and> cache_ok s' \<and> output_ok s' \<and> session_part s' = session_part s \<and>
     rs_generation s' = generation_after (st_frame s) (rs_generation s)"

lemma run_kept_within:
  "kept env sb ib rb s s' \<Longrightarrow> generation_after (st_frame s) (rs_generation s) = rs_generation s \<Longrightarrow> run_kept env sb ib rb s s'"
proof -
  assume k: "kept env sb ib rb s s'" and g: "generation_after (st_frame s) (rs_generation s) = rs_generation s"
  then have "fixed s' = fixed s" by (simp add: kept_def)
  from session_part_fixed [OF this] k g show ?thesis by (simp add: kept_def run_kept_def)
qed

lemma run_event_ok:
  assumes inv: "step_inv env sb ib rb {} s" "cache_ok s"
    and ev: "event_ok (frame_event (st_frame s))"
    and start: "is_generation_start (frame_event (st_frame s)) \<Longrightarrow> is_counter (frame_generation (st_frame s))"
    and open': "\<not> is_generation_start (frame_event (st_frame s)) \<Longrightarrow> \<not> is_diagnostic (frame_event (st_frame s)) \<Longrightarrow>
       frame_ok sb s (st_frame s)"
    and bounds: "ib < MAX_EXACT_INTEGER" "rb \<le> MAX_EXACT_INTEGER"
    and env: "\<And>tok attributes d r. frame_event (st_frame s) = Reflect tok attributes d r \<Longrightarrow>
      answers (rd_projector env) (rs_config s)"
    and out: "st_diagnostics s = []" "st_invalidations s = []" "st_removals s = []" "st_snapshot s = None" "st_upsert s = None"
  shows "\<exists>s'. run_event env s = Inr s' \<and> run_kept env sb ib rb s s'"
proof (cases "frame_event (st_frame s)")
  case (GenerationStart fed)
  let ?s = "clear_generation (Some (frame_generation (st_frame s))) s"
  have c: "step_inv env sb (ib + 1) (rb + 1) {} ?s" "cache_ok ?s" "session_part ?s = session_part s"
    "rs_generation ?s = Some (frame_generation (st_frame s))" "st_frame ?s = st_frame s"
    using cleared_inv [OF inv(1), of "Some (frame_generation (st_frame s))"] start GenerationStart
    by (simp_all add: clear_generation_def session_part_def)
  have o: "output_ok ?s" using out GenerationStart by (simp add: output_ok_def clear_generation_def)
  have "run_kept env sb ib rb s t" if t: "state_part t = state_part ?s" "output_ok t" "session_part t = session_part ?s" for t
  proof -
    note part = state_partD [OF t(1)]
    show ?thesis unfolding run_kept_def part(1,2) part(13) t(3)
      using c t(2) GenerationStart by (simp add: generation_after_def)
  qed
  note key = this
  let ?t = "diagnose ''W_FOM_UNVERIFIED'' None None ?s"
  have "session_part ?t = session_part ?s" by (rule session_part_fixed(1) [OF state_partD(3)]) simp
  then have "run_kept env sb ib rb s ?t"
    using key [of ?t] o c(5) GenerationStart by (simp add: catalogue_codes)
  moreover have "run_kept env sb ib rb s ?s" using key [of ?s] o by simp
  ultimately show ?thesis using GenerationStart by (auto simp: run_event_def Let_def)
next
  case (Discover tok name cls)
  with open' obtain g where "rs_generation s = Some g" by (auto simp: frame_ok_def)
  with Discover discover_ok [OF inv _ _ this] ev out show ?thesis
    by (simp add: run_event_def output_ok_def run_kept_within generation_after_def)
next
  case (Reflect tok attributes d r)
  with reflect_ok [OF inv _ _ _ bounds env [OF Reflect]] open' ev out show ?thesis
    by (fastforce simp: run_event_def output_ok_def run_kept_within generation_after_def)
next
  case (Remove tok d r)
  with open' obtain g where "rs_generation s = Some g" by (auto simp: frame_ok_def)
  with Remove remove_object_ok [OF inv _ _ this] out show ?thesis
    by (simp add: run_event_def output_ok_def run_kept_within generation_after_def)
next
  case (Diagnostic tok d)
  have "kept env sb ib rb s (diagnose_with (cd_code d) (cd_attribute d) tok (cd_message d) s)"
    by (rule kept_state_part [OF _ inv]) (use Diagnostic ev out in \<open>simp_all add: output_ok_def diagnose_with_def state_part_def\<close>)
  with Diagnostic show ?thesis by (simp add: run_event_def run_kept_within generation_after_def)
next
  case (GenerationEnd why)
  let ?i = "map (\<lambda>(tok, obj). (tok, GENERATION_END, ob_entity_id obj, ob_revision obj))
    (filter (\<lambda>(tok, obj). ob_entity_id obj \<noteq> None) (rs_objects s))"
  let ?s = "clear_generation None (s\<lparr>st_invalidations := ?i\<rparr>)"
  have "step_inv env sb ib rb {} (s\<lparr>st_invalidations := ?i\<rparr>)"
    using inv(1) by (simp add: state_partD(1) [OF state_part_diagnose(8)])
  then have "step_inv env sb (ib + 1) (rb + 1) {} ?s" "cache_ok ?s" by (rule cleared_inv; simp)+
  moreover have "output_ok ?s"
    using out GenerationEnd by (auto simp: output_ok_def clear_generation_def list_all_iff)
  moreover have "session_part ?s = session_part s" "rs_generation ?s = None"
    by (simp_all add: session_part_def clear_generation_def)
  ultimately show ?thesis
    using GenerationEnd out(2) by (simp add: run_event_def Let_def run_kept_def generation_after_def)
qed

end
