(* ===== verification/Hla_Reducer_Correct.thy ===== *)
theory Hla_Reducer_Correct
  imports Hla_Reducer_Steps Hla_Capture_Correct
begin

text \<open>
  What the reducer promises: every admitted frame is reduced, the records of a frame pass the
  reducer's own checks, and the state keeps its invariant.
\<close>

section \<open>The records of a frame\<close>

text \<open>What the checks of one record ask of its body.\<close>

definition body_ok :: "Step \<Rightarrow> record_body \<Rightarrow> bool" where
  "body_ok s b \<longleftrightarrow>
     (case b of (knd, tok, eid, revision, p) \<Rightarrow>
        ((revision \<noteq> None) = (knd = KUpsert)) \<and>
        (knd = KRemoved \<longrightarrow> end_reason p = Some REASON_REMOVED \<and> is_remove (frame_event (st_frame s))) \<and>
        (knd = KInvalidated \<longrightarrow> end_reason p \<noteq> Some REASON_REMOVED \<and>
           (end_reason p = Some GENERATION_END) = is_generation_end (frame_event (st_frame s))) \<and>
        (case p of PUpsert e \<Rightarrow> eid = Some (en_entity_id e)
         | PDiagnostic sev code m q g t a \<Rightarrow> is_code code \<and> severity code = Some sev \<and> t = tok
         | PSnapshot sn \<Rightarrow> snapshot_good sn | PEnd r k \<Rightarrow> True))"

lemma envelope_sel [simp]:
  "or_kind (envelope s i b) = fst b" "or_ordinal (envelope s i b) = i" "or_token (envelope s i b) = fst (snd b)"
  "or_seq (envelope s i b) = frame_seq (st_frame s)" "or_entity_id (envelope s i b) = fst (snd (snd b))"
  "or_generation (envelope s i b) = frame_generation (st_frame s)" "or_version (envelope s i b) = OUTPUT_VERSION"
  "or_revision (envelope s i b) = fst (snd (snd (snd b)))" "or_payload (envelope s i b) = snd (snd (snd (snd b)))"
  by (simp_all add: envelope_def case_prod_beta)

lemma record_passes:
  assumes "body_ok s b"
  shows "list_all (\<lambda>p. \<not> fst p) (record_problem_list (st_frame s) i (envelope s i b))"
  using assms
  by (cases b) (auto simp: record_problem_list_def Let_def body_ok_def snapshot_good_def split: output_payload.splits)

lemma diagnostic_bodies_total:
  assumes "list_all (\<lambda>d. is_code (fst d)) (st_diagnostics s)"
  obtains ds where "diagnostic_bodies s = Inr ds" "list_all (body_ok s) ds" "list_all (\<lambda>b. fst b = KDiagnostic) ds"
    "length ds = length (st_diagnostics s)"
proof -
  have one: "\<exists>b. diagnostic_body s d = Inr b \<and> body_ok s b \<and> fst b = KDiagnostic" if c: "is_code (fst d)" for d
  proof -
    obtain sev where "severity (fst d) = Some sev" using iffD2 [OF severity_Some_iff c] ..
    moreover obtain code a t m where "d = (code, a, t, m)" by (cases d)
    ultimately show ?thesis using c by (simp add: diagnostic_body_def body_ok_def)
  qed
  have "\<exists>ds. rfold (\<lambda>bodies d. rbind (diagnostic_body s d) (\<lambda>b. Inr (bodies @ [b]))) bs xs = Inr (bs @ ds) \<and>
      list_all (body_ok s) ds \<and> list_all (\<lambda>b. fst b = KDiagnostic) ds \<and> length ds = length xs"
    if "list_all (\<lambda>d. is_code (fst d)) xs" for bs xs
    using that
  proof (induction xs arbitrary: bs)
    case (Cons d xs)
    have "is_code (fst d)" using Cons.prems by simp
    from one [OF this] obtain b where b: "diagnostic_body s d = Inr b" "body_ok s b" "fst b = KDiagnostic" by blast
    obtain ds where "rfold (\<lambda>bodies d. rbind (diagnostic_body s d) (\<lambda>b. Inr (bodies @ [b]))) (bs @ [b]) xs =
        Inr ((bs @ [b]) @ ds)" "list_all (body_ok s) ds" "list_all (\<lambda>b. fst b = KDiagnostic) ds" "length ds = length xs"
      using Cons.IH [of "bs @ [b]"] Cons.prems by auto
    with b show ?case by (intro exI [of _ "b # ds"]) simp
  qed simp
  from this [of "sort_key diagnostic_key (st_diagnostics s)" "[]"] assms that show thesis
    by (auto simp: diagnostic_bodies_def list_all_iff)
qed

lemma other_bodies_ok:
  assumes "output_ok s"
  shows "list_all (body_ok s) (other_bodies s)"
proof -
  note out = assms [unfolded output_ok_def]
  have "list_all (body_ok s) (case st_snapshot s of None \<Rightarrow> []
      | Some (tok, p) \<Rightarrow> [(KSnapshot, Some tok, entity_id_after s (Some tok), None, PSnapshot p)])"
    using out by (cases "st_snapshot s") (auto simp: body_ok_def)
  moreover have "list_all (body_ok s) (case st_upsert s of None \<Rightarrow> []
      | Some (tok, eid, revision, p) \<Rightarrow> [(KUpsert, Some tok, eid, Some revision, PUpsert p)])"
    using out by (cases "st_upsert s") (auto simp: body_ok_def)
  moreover have "list_all (body_ok s) (map (\<lambda>(tok, eid, revision). (KRemoved, Some tok, eid, None, PEnd REASON_REMOVED revision))
       (st_removals s))"
    using out by (auto simp: list_all_iff body_ok_def end_reason_def)
  moreover have "list_all (body_ok s) (map (\<lambda>(tok, reason, eid, revision). (KInvalidated, Some tok, eid, None, PEnd reason revision))
       (sort_key (\<lambda>(tok, _). token_order (Some tok)) (st_invalidations s)))"
    using out by (auto simp: list_all_iff body_ok_def end_reason_def)
  ultimately show ?thesis by (simp add: other_bodies_def)
qed

lemma other_kinds:
  "map fst (other_bodies s) = replicate (length (st_invalidations s)) KInvalidated @
     replicate (length (st_removals s)) KRemoved @
     (if st_snapshot s = None then [] else [KSnapshot]) @ (if st_upsert s = None then [] else [KUpsert])"
  by (simp add: other_bodies_def comp_def case_prod_beta map_replicate_const split: option.split)

lemma sorted_ranks:
  "sorted (map RANK (replicate a KDiagnostic @ replicate b KInvalidated @ replicate c KRemoved @
     (if p then [] else [KSnapshot]) @ (if q then [] else [KUpsert])))"
  by (auto simp: RANK_def sorted_append map_replicate_const)

lemma count_kinds: "count_kind k rs = count_list (map or_kind rs) k"
  by (induction rs) (simp_all add: count_kind_def)

lemma kinds_of: "map or_kind (map (\<lambda>(i, b). envelope s i b) (enumerate n bs)) = map fst bs"
  by (induction bs arbitrary: n) simp_all

text \<open>The records of a frame: what the step returns, and that its checks pass.\<close>

definition frame_records :: "Step \<Rightarrow> record_body list \<Rightarrow> output_record list" where
  "frame_records s ds = map (\<lambda>(i, b). envelope s i b) (enumerate 0 (ds @ other_bodies s))"

lemma frame_kinds:
  assumes "list_all (\<lambda>b. fst b = KDiagnostic) ds"
  shows "map or_kind (frame_records s ds) = replicate (length ds) KDiagnostic @
    replicate (length (st_invalidations s)) KInvalidated @ replicate (length (st_removals s)) KRemoved @
    (if st_snapshot s = None then [] else [KSnapshot]) @ (if st_upsert s = None then [] else [KUpsert])"
proof -
  have "map fst ds = replicate (length ds) KDiagnostic"
    using assms by (intro replicate_eqI) (auto simp: list_all_iff)
  then show ?thesis unfolding frame_records_def kinds_of by (simp add: other_kinds)
qed

lemma frame_records_nth:
  "i < length (frame_records s ds) \<Longrightarrow> frame_records s ds ! i = envelope s i ((ds @ other_bodies s) ! i)"
  by (simp add: frame_records_def nth_enumerate_eq)

lemma length_frame_records [simp]: "length (frame_records s ds) = length ds + length (other_bodies s)"
  by (simp add: frame_records_def)

lemma count_replicate: "count_list (replicate n x) y = (if x = y then n else 0)"
  by (induction n) auto

text \<open>An upsert comes last, right after the snapshot of its own object.\<close>

lemma upsert_after_snapshot:
  assumes "output_ok s" "st_upsert s = Some (tok, eid, k, e)"
  shows "length (frame_records s ds) \<ge> 2"
    "or_token (frame_records s ds ! (length (frame_records s ds) - 1)) = Some tok"
    "or_token (frame_records s ds ! (length (frame_records s ds) - 2)) = Some tok"
proof -
  obtain sn where sn: "st_snapshot s = Some (tok, sn)" using assms by (auto simp: output_ok_def)
  define bs where "bs = ds @ map (\<lambda>(tok, reason, eid, revision). (KInvalidated, Some tok, eid, None, PEnd reason revision))
       (sort_key (\<lambda>(tok, _). token_order (Some tok)) (st_invalidations s)) @
     map (\<lambda>(tok, eid, revision). (KRemoved, Some tok, eid, None, PEnd REASON_REMOVED revision)) (st_removals s)"
  have eq: "ds @ other_bodies s = bs @ [(KSnapshot, Some tok, entity_id_after s (Some tok), None, PSnapshot sn),
      (KUpsert, Some tok, eid, Some k, PUpsert e)]"
    by (simp add: bs_def other_bodies_def sn assms(2))
  have len: "length (frame_records s ds) = length bs + 2"
    using arg_cong [OF eq, of length] by simp
  then show "length (frame_records s ds) \<ge> 2" by simp
  show "or_token (frame_records s ds ! (length (frame_records s ds) - 1)) = Some tok"
    "or_token (frame_records s ds ! (length (frame_records s ds) - 2)) = Some tok"
    using frame_records_nth [of _ s ds] len by (simp_all add: eq nth_append)
qed

lemma check_records_pass:
  assumes out: "output_ok s" and ds: "list_all (body_ok s) ds" "list_all (\<lambda>b. fst b = KDiagnostic) ds"
    "length ds = length (st_diagnostics s)"
  shows "check_records (st_frame s) (frame_records s ds) = Inr ()"
proof -
  let ?rs = "frame_records s ds"
  note kinds = frame_kinds [OF ds(2), of s]
  have "\<not> fst p" if p: "p \<in> set (concat (map (\<lambda>(i, r). record_problem_list (st_frame s) i r) (enumerate 0 ?rs)))" for p
  proof -
    obtain i r where r: "(i, r) \<in> set (enumerate 0 ?rs)" "p \<in> set (record_problem_list (st_frame s) i r)"
      using p by auto
    then have i: "i < length ?rs" "r = ?rs ! i" by (auto simp: in_set_enumerate_eq)
    then have r': "r = envelope s i ((ds @ other_bodies s) ! i)" by (simp add: frame_records_nth)
    have "list_all (body_ok s) (ds @ other_bodies s)" using ds(1) other_bodies_ok [OF out] by simp
    then have "body_ok s ((ds @ other_bodies s) ! i)" using i(1) by (simp add: list_all_length)
    from record_passes [OF this, of i] r(2) show ?thesis by (auto simp: r' list_all_iff)
  qed
  moreover have "\<not> fst p" if p: "p \<in> set (frame_problem_list (st_frame s) ?rs)" for p
  proof -
    have "map (RANK \<circ> or_kind) ?rs = map RANK (map or_kind ?rs)" by simp
    then have "sorted (map (RANK \<circ> or_kind) ?rs)" unfolding kinds by (simp only: sorted_ranks)
    moreover have "count_kind KSnapshot ?rs = (if st_snapshot s = None then 0 else 1)"
      "count_kind KUpsert ?rs = (if st_upsert s = None then 0 else 1)"
      unfolding count_kinds kinds by (simp_all add: count_replicate)
    moreover have "st_upsert s \<noteq> None \<Longrightarrow> st_snapshot s \<noteq> None \<and>
        or_token (?rs ! (length ?rs - 1)) = or_token (?rs ! (length ?rs - 2))"
      using upsert_after_snapshot(2,3) [OF out, of _ _ _ _ ds] out by (auto simp: output_ok_def)
    moreover have "is_generation_end (frame_event (st_frame s)) \<Longrightarrow> list_all (\<lambda>r. or_kind r = KInvalidated) ?rs"
    proof -
      assume "is_generation_end (frame_event (st_frame s))"
      with out have "ds = []" "st_removals s = []" "st_snapshot s = None" "st_upsert s = None"
        using ds(3) by (simp_all add: output_ok_def)
      with kinds have "map or_kind ?rs = replicate (length (st_invalidations s)) KInvalidated" by simp
      then have "set (map or_kind ?rs) \<subseteq> {KInvalidated}" by auto
      then show ?thesis by (auto simp: list_all_iff)
    qed
    ultimately show ?thesis using p
      by (auto simp: frame_problem_list_def list_all_iff list_ex_iff split: if_splits)
  qed
  ultimately have "find fst (concat (map (\<lambda>(i, r). record_problem_list (st_frame s) i r) (enumerate 0 ?rs)) @
      frame_problem_list (st_frame s) ?rs) = None"
    unfolding find_None_iff by (metis Un_iff set_append)
  then show ?thesis by (simp add: check_records_def)
qed

lemma step_result_ok:
  assumes "output_ok s"
  obtains ds where "diagnostic_bodies s = Inr ds" "step_result s = Inr (ReducerState.truncate s, frame_records s ds)"
    "list_all (\<lambda>b. fst b = KDiagnostic) ds"
proof -
  have "list_all (\<lambda>d. is_code (fst d)) (st_diagnostics s)" using assms by (simp add: output_ok_def)
  from diagnostic_bodies_total [OF this] obtain ds where ds: "diagnostic_bodies s = Inr ds" "list_all (body_ok s) ds"
    "list_all (\<lambda>b. fst b = KDiagnostic) ds" "length ds = length (st_diagnostics s)" .
  from check_records_pass [OF assms ds(2-4)] have "step_result s = Inr (ReducerState.truncate s, frame_records s ds)"
    by (simp add: step_result_def ds(1) frame_records_def)
  with ds show thesis using that by blast
qed

section \<open>What does not depend on the CDM's refusals\<close>

definition unrefused :: "reducer_env \<Rightarrow> reducer_env" where
  "unrefused env = env\<lparr>rd_projector := unrefusing (rd_projector env)\<rparr>"

lemma unrefused_projector [simp]: "rd_projector (unrefused env) = unrefusing (rd_projector env)"
  by (simp add: unrefused_def)

lemma unrefused_identify [simp]: "identify (unrefused env) = identify env"
  unfolding fun_eq_iff identify_def unrefused_projector unrefusing_fields by (rule allI refl)+

lemma unrefused_answers: "answers (rd_projector (unrefused env)) v"
  by (simp add: answers_unrefused)

lemma unrefused_inv: "reducer_inv (unrefused env) st = reducer_inv env st"
  unfolding reducer_inv_def step_inv_def objects_ok_def object_ok_def identity_ok_def unrefused_projector
    unrefusing_fields by (rule refl)

lemma rbind_keeps: "rbind m f = Inr y \<Longrightarrow> (\<And>x. f x = Inr y \<Longrightarrow> g x = Inr y) \<Longrightarrow> rbind m g = Inr y"
  by (cases m) simp_all

lemma case_prod_keeps:
  "(case p of (a, b) \<Rightarrow> f a b) = y \<Longrightarrow> (\<And>a b. f a b = y \<Longrightarrow> g a b = y) \<Longrightarrow> (case p of (a, b) \<Rightarrow> g a b) = y"
  by (cases p) simp

lemma if_keeps:
  "(if c then a else b) = y \<Longrightarrow> (a = y \<Longrightarrow> a' = y) \<Longrightarrow> (b = y \<Longrightarrow> b' = y) \<Longrightarrow> (if c then a' else b') = y"
  by (cases c) simp_all

lemma case_option_keeps:
  "(case x of None \<Rightarrow> a | Some z \<Rightarrow> f z) = y \<Longrightarrow> (a = y \<Longrightarrow> a' = y) \<Longrightarrow> (\<And>z. f z = y \<Longrightarrow> g z = y) \<Longrightarrow>
   (case x of None \<Rightarrow> a' | Some z \<Rightarrow> g z) = y"
  by (cases x) simp_all

lemma evaluate_unrefused:
  "evaluate env tok we ch supplied rsn s = Inr s' \<Longrightarrow> evaluate (unrefused env) tok we ch supplied rsn s = Inr s'"
  by (auto simp: evaluate_def rbind_eq_Inr_iff intro: unrefusing_answer split: option.splits)

lemma apply_values_unrefused:
  "apply_values env tok obj known decoded eff s = Inr s' \<Longrightarrow> apply_values (unrefused env) tok obj known decoded eff s = Inr s'"
  unfolding apply_values_def Let_def unrefused_identify
  by (erule case_prod_keeps rbind_keeps evaluate_unrefused)+

lemma apply_reflection_unrefused:
  "apply_reflection env tok obj attributes known s = Inr s' \<Longrightarrow>
   apply_reflection (unrefused env) tok obj attributes known s = Inr s'"
  unfolding apply_reflection_def Let_def
  by (erule case_prod_keeps rbind_keeps if_keeps evaluate_unrefused apply_values_unrefused)+

lemma reflect_unrefused: "reflect env tok attributes d s = Inr s' \<Longrightarrow> reflect (unrefused env) tok attributes d s = Inr s'"
  unfolding reflect_def Let_def
  by (assumption | erule if_keeps case_option_keeps evaluate_unrefused apply_reflection_unrefused)+

lemma run_event_unrefused: "run_event env s = Inr s' \<Longrightarrow> run_event (unrefused env) s = Inr s'"
  by (cases "frame_event (st_frame s)") (simp_all add: run_event_def Let_def reflect_unrefused)

lemma reduce_unrefused:
  "reduce_admitted env st (FrameRecord f) = Inr r \<Longrightarrow> reduce_admitted (unrefused env) st (FrameRecord f) = Inr r"
  by (auto simp: reduce_admitted_def reduce_step_def Let_def rbind_eq_Inr_iff run_event_unrefused split: if_splits)

section \<open>One admitted frame\<close>

lemma start_step_simps [simp]:
  "rs_limits (start_step st rules f) = rs_limits st" "rs_config (start_step st rules f) = rs_config st"
  "rs_complete (start_step st rules f) = rs_complete st" "rs_rules (start_step st rules f) = rules"
  "rs_generation (start_step st rules f) = rs_generation st" "rs_objects (start_step st rules f) = rs_objects st"
  "rs_removed (start_step st rules f) = rs_removed st" "rs_seen (start_step st rules f) = rs_seen st"
  "rs_index (start_step st rules f) = rs_index st" "rs_incarnations (start_step st rules f) = rs_incarnations st"
  "rs_cache (start_step st rules f) = rs_cache st" "rs_tokens_before (start_step st rules f) = rs_tokens_before st"
  "rs_terminal (start_step st rules f) = rs_terminal st"
  "st_frame (start_step st rules f) = f" "st_diagnostics (start_step st rules f) = []"
  "st_invalidations (start_step st rules f) = []" "st_removals (start_step st rules f) = []"
  "st_snapshot (start_step st rules f) = None" "st_upsert (start_step st rules f) = None"
  by (simp_all add: start_step_def ReducerState.extend_def Step.fields_def)

lemma truncate_simps [simp]:
  "rs_limits (ReducerState.truncate s) = rs_limits s" "rs_config (ReducerState.truncate s) = rs_config s"
  "rs_complete (ReducerState.truncate s) = rs_complete s" "rs_rules (ReducerState.truncate s) = rs_rules s"
  "rs_generation (ReducerState.truncate s) = rs_generation s" "rs_objects (ReducerState.truncate s) = rs_objects s"
  "rs_removed (ReducerState.truncate s) = rs_removed s" "rs_seen (ReducerState.truncate s) = rs_seen s"
  "rs_index (ReducerState.truncate s) = rs_index s" "rs_incarnations (ReducerState.truncate s) = rs_incarnations s"
  "rs_cache (ReducerState.truncate s) = rs_cache s" "rs_tokens_before (ReducerState.truncate s) = rs_tokens_before s"
  "rs_terminal (ReducerState.truncate s) = rs_terminal s"
  by (simp_all add: ReducerState.truncate_def)

lemma step_inv_cong:
  assumes "rs_limits s = rs_limits t" "rs_config s = rs_config t" "rs_generation s = rs_generation t"
    "rs_objects s = rs_objects t" "rs_removed s = rs_removed t" "rs_seen s = rs_seen t" "rs_index s = rs_index t"
    "rs_incarnations s = rs_incarnations t" "rs_cache s = rs_cache t" "rs_tokens_before s = rs_tokens_before t"
  shows "step_inv env sb ib rb X s = step_inv env sb ib rb X t" "cache_ok s = cache_ok t"
proof -
  have c: "count_of s = count_of t" by (simp add: count_of_def assms fun_eq_iff)
  show "step_inv env sb ib rb X s = step_inv env sb ib rb X t" "cache_ok s = cache_ok t"
    unfolding step_inv_def tokens_ok_def index_ok_def objects_ok_def session_ok_def distinct_tokens_def cache_ok_def c assms
    by (rule refl)+
qed

lemma step_inv_start [simp]:
  "step_inv env sb ib rb X (start_step st rules f) = step_inv env sb ib rb X st"
  "cache_ok (start_step st rules f) = cache_ok st"
  by (rule step_inv_cong; simp)+

lemma step_inv_truncate [simp]:
  "step_inv env sb ib rb X (ReducerState.truncate s) = step_inv env sb ib rb X s"
  "cache_ok (ReducerState.truncate s) = cache_ok s"
  by (rule step_inv_cong; simp)+

lemma utf8_length_le: "utf8_length t \<le> 4 * length t"
  by (induction t) (auto simp: utf8_length_def)

lemma utf8_over_bound: "\<not> utf8_over t b \<Longrightarrow> utf8_length t \<le> b"
  using utf8_length_le [of t] by (auto simp: utf8_over_def)

lemma ascending_names:
  assumes "find (\<lambda>i. \<not> strictly_ascending_at names i) [1..<length names] = None"
  shows "sorted_wrt (<) names"
proof -
  have "names ! k < names ! Suc k" if "Suc k < length names" for k
    using assms that by (auto simp: find_None_iff strictly_ascending_at_def dest: bspec [of _ _ "Suc k"])
  then show ?thesis by (subst sorted_wrt_iff_nth_Suc_transp) (auto simp: transp_def)
qed

lemma accepted_event:
  assumes "event_fault rules n ev = None" "schema_event ev"
    "object_name_utf8_bytes (r_limits rules) \<le> 1024" "class_name_utf8_bytes (r_limits rules) \<le> 1024"
  shows "event_ok ev"
proof (cases ev)
  case (Discover tok name cls)
  with assms show ?thesis
    by (auto simp: event_fault_def carriable_text_def split: if_splits dest!: utf8_over_bound)
next
  case (Reflect tok attributes d r)
  with assms show ?thesis by (auto simp: event_fault_def Let_def ascending_names split: option.splits)
next
  case (Diagnostic tok d)
  with assms show ?thesis by (auto simp: event_fault_def split: if_splits)
qed auto

lemma framing_epoch:
  "framing_fault rules n f = None \<Longrightarrow> r_epoch rules = Some e \<Longrightarrow> e + int (frame_elapsed f div 1000) \<le> MAX_MICROSECOND"
  by (auto simp: framing_fault_def Let_def NANOSECONDS_PER_MICROSECOND_def split: if_splits)

lemma epoch_minimum: "epoch_microsecond d = Inr (Some e) \<Longrightarrow> MIN_MICROSECOND \<le> e"
proof -
  assume "epoch_microsecond d = Inr (Some e)"
  then obtain t where "parse_microsecond t = Inr e"
    by (auto simp: epoch_microsecond_def rbind_eq_Inr_iff split: time_policy.splits)
  then have "parsed t (STAMP 6) 1 = Inr e" by (simp add: parse_microsecond_def FORM_def)
  then obtain f where "Hla_Time.fields e = Inr f" by (subst (asm) parsed_exact) auto
  then show ?thesis by (auto simp: Hla_Time.fields_def split: if_splits)
qed

text \<open>The frame the capture rules of this state admit next.\<close>

definition admitted :: "reading_env \<Rightarrow> ReducerState \<Rightarrow> frame \<Rightarrow> bool" where
  "admitted renv st f \<longleftrightarrow> schema_frame f \<and>
     record_fault renv (rs_rules st) (lines (rs_rules st) + 1) (FrameRecord f) = None"

definition next_rules :: "ReducerState \<Rightarrow> frame \<Rightarrow> LineRules" where
  "next_rules st f = take_record (rs_rules st) (lines (rs_rules st) + 1) (FrameRecord f)"

lemma admitted_run:
  assumes inv: "reducer_inv env st" and adm: "admitted renv st f"
    and env: "\<And>tok attributes d r. frame_event f = Reflect tok attributes d r \<Longrightarrow>
      answers (rd_projector env) (rs_config st)"
  obtains s where "run_event env (start_step st (next_rules st f) f) = Inr s"
    "run_kept env (frame_seq f) (frame_seq f - 1) (frame_seq f - 1) (start_step st (next_rules st f) f) s"
    "frame_seq f = next_seq (rs_rules st)" "Some (frame_prev f) = last_sha256 (rs_rules st)"
proof -
  let ?s = "start_step st (next_rules st f) f" and ?n = "next_seq (rs_rules st)"
  note rf = record_fault_None [OF conjunct2 [OF adm [unfolded admitted_def]]]
  have seq: "frame_seq f = ?n" and prev: "Some (frame_prev f) = last_sha256 (rs_rules st)"
    using rf(2,3) by (simp_all add: record_seq_def record_prev_def)
  have ev: "event_fault (rs_rules st) (lines (rs_rules st) + 1) (frame_event f) = None"
    and fr: "framing_fault (rs_rules st) (lines (rs_rules st) + 1) f = None" using rf(5) [OF refl] by simp_all
  have sch: "is_counter ?n" "frame_generation f \<le> MAX_EXACT_INTEGER" "length (frame_sha f) = 32" "schema_event (frame_event f)"
    using adm seq by (simp_all add: admitted_def schema_frame_def)
  have link: "linked st" and inv0: "step_inv env (?n - 1) (?n - 1) (?n - 1) {} st" "cache_ok st"
    using inv by (simp_all add: reducer_inv_def Let_def)
  have inv1: "step_inv env ?n (?n - 1) (?n - 1) {} ?s" using step_inv_mono [OF inv0(1), of ?n] by simp
  have names: "event_ok (frame_event f)"
    by (rule accepted_event [OF ev sch(4)]) (use link in \<open>simp_all add: linked_def V1_def\<close>)
  have gen: "is_generation_start (frame_event f) \<Longrightarrow> is_counter (frame_generation f)"
    using framing_fault_None(4) [OF fr] sch(2) by (simp add: is_counter_def)
  have time: "frame_ok ?n ?s f" if "\<not> is_generation_start (frame_event f)" "\<not> is_diagnostic (frame_event f)"
  proof -
    have "open_generation (rs_rules st) \<noteq> None" using framing_fault_None(3) [OF fr] that by blast
    moreover have "MIN_MICROSECOND \<le> e" if "vc_epoch (rs_config st) = Some e" for e
    proof (rule epoch_minimum)
      show "epoch_microsecond (document (rs_config st)) = Inr (Some e)"
        using inv0(1) that by (simp add: step_inv_def session_ok_def)
    qed
    ultimately show ?thesis
      using link sch seq framing_epoch [OF fr] by (auto simp: frame_ok_def linked_def)
  qed
  have "?n - 1 < MAX_EXACT_INTEGER" "?n - 1 \<le> MAX_EXACT_INTEGER" using sch(1) by (auto simp: is_counter_def)
  moreover have "answers (rd_projector env) (rs_config ?s)"
    if "frame_event (st_frame ?s) = Reflect tok attributes d r" for tok attributes d r
    using env [of tok attributes d r] that by simp
  ultimately obtain s where "run_event env ?s = Inr s" "run_kept env ?n (?n - 1) (?n - 1) ?s s"
    using run_event_ok [OF inv1] inv0(2) names gen time by fastforce
  with seq prev show thesis using that by simp
qed

lemma admitted_step:
  assumes inv: "reducer_inv env st" and adm: "admitted renv st f"
    and env: "\<And>tok attributes d r. frame_event f = Reflect tok attributes d r \<Longrightarrow>
      answers (rd_projector env) (rs_config st)"
  obtains s ds where "run_event env (start_step st (next_rules st f) f) = Inr s"
    "run_kept env (frame_seq f) (frame_seq f - 1) (frame_seq f - 1) (start_step st (next_rules st f) f) s"
    "list_all (\<lambda>b. fst b = KDiagnostic) ds" "diagnostic_bodies s = Inr ds"
    "reduce_admitted env st (FrameRecord f) = Inr (ReducerState.truncate s, frame_records s ds)"
    "reducer_inv env (ReducerState.truncate s)"
proof -
  obtain s where run: "run_event env (start_step st (next_rules st f) f) = Inr s"
    and kept: "run_kept env (frame_seq f) (frame_seq f - 1) (frame_seq f - 1) (start_step st (next_rules st f) f) s"
    and at: "frame_seq f = next_seq (rs_rules st)" "Some (frame_prev f) = last_sha256 (rs_rules st)"
    by (rule admitted_run [OF assms])
  have out: "output_ok s" using kept by (simp add: run_kept_def)
  obtain ds where ds: "diagnostic_bodies s = Inr ds" "step_result s = Inr (ReducerState.truncate s, frame_records s ds)"
    "list_all (\<lambda>b. fst b = KDiagnostic) ds" by (rule step_result_ok [OF out])
  have red: "reduce_admitted env st (FrameRecord f) = Inr (ReducerState.truncate s, frame_records s ds)"
    using at run ds(2) by (simp add: reduce_admitted_def Let_def reduce_step_def next_rules_def)
  have same: "rs_rules s = next_rules st f" "rs_config s = rs_config st" "rs_limits s = rs_limits st"
    "rs_generation s = generation_after f (rs_generation st)"
    using kept by (simp_all add: run_kept_def session_part_def)
  have link: "linked st" using inv by (simp add: reducer_inv_def)
  have seq: "1 \<le> frame_seq f" using at(1) link by (simp add: linked_def)
  have "linked (ReducerState.truncate s)"
    using link by (auto simp: linked_def same next_rules_def generation_after_def split: event.split)
  moreover have "step_inv env (frame_seq f) (frame_seq f) (frame_seq f) {} s" "cache_ok s"
    using kept seq by (simp_all add: run_kept_def)
  ultimately have "reducer_inv env (ReducerState.truncate s)"
    using at(1) by (simp add: reducer_inv_def Let_def same next_rules_def)
  with that run kept ds red show thesis by blast
qed

text \<open>
  C22. Every frame the capture rules admit is reduced: no operation raises and no check of the
  reducer's own records fails (\<open>ReducerDefect\<close> is unreachable), and the state's invariant holds
  again. The invariant relates objects, index, removed and seen tokens, bounds them and the cache
  by the limits, and says of every object what its slots, identity and incarnation must be. What is
  relied on is what the projector relies on: Python's arithmetic keeps its ranges, the session's
  texts are those its schema and \<open>validate_config\<close> let through, and the CDM refuses no well made
  Entity. That every Entity built from a state of the invariant is well made, its position and
  motion in their ranges, is proved.
\<close>

theorem reducer_total_and_invariant:
  assumes "reducer_inv env st" and "admitted renv st f"
    and "carriable_session (document (rs_config st))" and "math_ranges (pj_math (rd_projector env))"
    and "cdm_accepts (rd_projector env)"
  shows "\<exists>st' records. reduce_admitted env st (FrameRecord f) = Inr (st', records) \<and> reducer_inv env st' \<and>
    next_seq (rs_rules st') = next_seq (rs_rules st) + 1 \<and> length (rs_objects st') \<le> active_objects_per_generation (rs_limits st) \<and>
    distinct_tokens st' \<le> object_tokens_per_session (rs_limits st) \<and>
    rs_cache st' \<le> int (cached_attribute_bytes_per_generation (rs_limits st))"
proof -
  obtain s ds where r: "reduce_admitted env st (FrameRecord f) = Inr (ReducerState.truncate s, frame_records s ds)"
    "reducer_inv env (ReducerState.truncate s)"
    and k: "run_kept env (frame_seq f) (frame_seq f - 1) (frame_seq f - 1) (start_step st (next_rules st f) f) s"
    by (rule admitted_step [OF assms(1,2) answers_accepted [OF assms(4,5,3)]])
  have same: "rs_rules s = next_rules st f" "rs_limits s = rs_limits st"
    using k by (simp_all add: run_kept_def session_part_def)
  from r(2) have "tokens_ok (ReducerState.truncate s)" "cache_ok (ReducerState.truncate s)"
    by (simp_all add: reducer_inv_def Let_def step_inv_def)
  with r same show ?thesis
    by (intro exI [of _ "ReducerState.truncate s"] exI [of _ "frame_records s ds"])
      (simp add: tokens_ok_def cache_ok_def next_rules_def)
qed

section \<open>The frame judged twice\<close>

text \<open>The rules that let elapsed time decrease refuse no frame the stricter rules admit.\<close>

lemma relaxed_event: "event_fault (rules\<lparr>elapsed_may_decrease := True\<rparr>) n ev = event_fault rules n ev"
proof -
  have "r_limits (rules\<lparr>elapsed_may_decrease := True\<rparr>) = r_limits rules" by simp
  then show ?thesis unfolding event_fault_def by (simp only:)
qed

lemma relaxed_chain:
  "(if p then Some x else if q then Some y else r) = None \<Longrightarrow>
   (if p then Some x else if q' \<and> \<not> True then Some z else r) = None"
  by (simp split: if_splits)

lemma relaxed_framing:
  assumes "framing_fault rules n f = None"
  shows "framing_fault (rules\<lparr>elapsed_may_decrease := True\<rparr>) n f = None"
proof -
  let ?rules = "rules\<lparr>elapsed_may_decrease := True\<rparr>"
  have same: "started ?rules = started rules" "open_generation ?rules = open_generation rules"
    "last_generation ?rules = last_generation rules" "session ?rules = session rules"
    "r_epoch ?rules = r_epoch rules" "last_elapsed ?rules = last_elapsed rules" "elapsed_may_decrease ?rules = True"
    by simp_all
  show ?thesis using assms unfolding framing_fault_def Let_def same by (rule relaxed_chain)
qed

lemma relaxed_record_fault:
  assumes "record_fault renv rules n (FrameRecord f) = None"
  shows "record_fault renv (rules\<lparr>elapsed_may_decrease := True\<rparr>) n (FrameRecord f) = None"
proof -
  note rf = record_fault_None(2-5) [OF assms]
  have "event_fault rules n (frame_event f) = None" "framing_fault rules n f = None"
    "frames rules + 1 \<le> frames_per_session (r_limits rules)" using rf(4) [OF refl] by simp_all
  with rf(1-3) relaxed_framing show ?thesis by (simp add: record_fault_def relaxed_event)
qed

text \<open>
  C23. \<open>reduce_admitted\<close> answers as \<open>reduce_frame\<close> does: for a frame whose canonical line the caller's own
  capture rules accepted at this state's position (stricter only in elapsed time), judging it a
  second time reaches the same state and records, or the same error.
\<close>

theorem reduce_admitted_is_reduce_frame:
  assumes "check_record (reading_env.truncate (rd_capture env)) rules (lines rules + 1) raw = Inr (rules', FrameRecord f)"
    and "rs_rules st = rules\<lparr>elapsed_may_decrease := True\<rparr>" and "1 \<le> lines rules"
    and "line_of (rd_capture env) (VRecord (FrameRecord f)) = Inr raw"
  shows "reduce_frame env st (VRecord (FrameRecord f)) = reduce_admitted env st (FrameRecord f)"
proof -
  let ?renv = "reading_env.truncate (rd_capture env)" and ?n = "lines rules + 1"
  note c = check_record_Inr [OF assms(1)]
  have faults: "record_fault ?renv (rs_rules st) ?n (FrameRecord f) = None"
    using relaxed_record_fault [OF c(3)] by (simp add: assms(2))
  have "check_record ?renv (rs_rules st) ?n raw = Inr (take_record (rs_rules st) ?n (FrameRecord f), FrameRecord f)"
    using c faults by (simp add: check_record_def size_fault_def reading_fault_def assms(2))
  then have "check ?renv (rs_rules st) ?n raw =
      Inr (Inr (take_record (rs_rules st) ?n (FrameRecord f), VRecord (FrameRecord f)))"
    using assms(3) by (simp add: check_def)
  moreover have "frame_seq f = next_seq (rs_rules st)" "Some (frame_prev f) = last_sha256 (rs_rules st)"
    using record_fault_None(2,3) [OF faults] by (simp_all add: record_seq_def record_prev_def)
  ultimately show ?thesis
    using assms(2,4) by (simp add: reduce_frame_def reduce_admitted_def line_bytes_of_def Let_def)
qed

section \<open>The end of a generation\<close>

lemma sort_key_map: "sort_key f (map g xs) = map g (sort_key (f \<circ> g) xs)"
proof (induction xs)
  case (Cons x xs)
  have "insort_key f (g x) (map g ys) = map g (insort_key (f \<circ> g) x ys)" for ys by (induction ys) auto
  with Cons show ?case by (simp only: list.map sort_key_simps)
qed simp

lemma frame_records_map:
  "(\<And>i b. h (envelope s i b) = k b) \<Longrightarrow> map h (frame_records s ds) = map k (ds @ other_bodies s)"
proof -
  assume h: "\<And>i b. h (envelope s i b) = k b"
  have "map h (map (\<lambda>(i, b). envelope s i b) (enumerate n bs)) = map k bs" for n bs
    by (induction bs arbitrary: n) (simp_all add: h)
  then show ?thesis by (simp add: frame_records_def)
qed

text \<open>
  C24. The frame that ends a generation emits one \<open>invalidated\<close> record for each object that has an
  identity, in token order and with its entity id and last revision, and nothing else; the state
  forgets every object, index entry and counter, and keeps the number of tokens the session has held.
\<close>

theorem generation_end_exact:
  assumes "reducer_inv env st" and "admitted renv st f" and "frame_event f = GenerationEnd why"
  shows "\<exists>st' records. reduce_admitted env st (FrameRecord f) = Inr (st', records) \<and>
    map (\<lambda>r. (or_kind r, or_token r, or_entity_id r, or_payload r)) records =
      map (\<lambda>(tok, obj). (KInvalidated, Some tok, ob_entity_id obj, PEnd GENERATION_END (ob_revision obj)))
        (sort_key (\<lambda>(tok, obj). token_number tok) (filter (\<lambda>(tok, obj). ob_identity obj \<noteq> None) (rs_objects st))) \<and>
    rs_generation st' = None \<and> rs_objects st' = [] \<and> rs_index st' = [] \<and> rs_incarnations st' = [] \<and>
    rs_cache st' = 0 \<and> \<not> rs_terminal st' \<and> distinct_tokens st' = distinct_tokens st"
proof -
  obtain s ds where run: "run_event env (start_step st (next_rules st f) f) = Inr s"
    and ds: "list_all (\<lambda>b. fst b = KDiagnostic) ds" "diagnostic_bodies s = Inr ds"
    and red: "reduce_admitted env st (FrameRecord f) = Inr (ReducerState.truncate s, frame_records s ds)"
    by (rule admitted_step [OF assms(1,2)]) (use assms(3) in auto)
  have inv: "objects_ok env (next_seq (rs_rules st) - 1) (next_seq (rs_rules st) - 1) {} st" "keys_distinct (rs_objects st)"
    using assms(1) by (simp_all add: reducer_inv_def Let_def step_inv_def tokens_ok_def)
  have none: "(ob_entity_id obj = None) = (ob_identity obj = None)" if "(tok, obj) \<in> set (rs_objects st)" for tok obj
  proof -
    have "map_of (rs_objects st) tok = Some obj" using that inv(2) by (simp add: map_of_mem)
    with inv(1) have "identity_ok env (rs_config st) (rs_generation st) (count_of st) obj"
      by (simp add: objects_ok_def object_ok_def)
    then show ?thesis by (cases "ob_identity obj") (auto simp: identity_ok_def)
  qed
  then have held: "filter (\<lambda>(tok, obj). ob_entity_id obj \<noteq> None) (rs_objects st) =
      filter (\<lambda>(tok, obj). ob_identity obj \<noteq> None) (rs_objects st)"
  proof (intro filter_cong refl)
    fix x
    assume "x \<in> set (rs_objects st)"
    with none [of "fst x" "snd x"] have "(ob_entity_id (snd x) = None) = (ob_identity (snd x) = None)" by simp
    then show "(case x of (tok, obj) \<Rightarrow> ob_entity_id obj \<noteq> None) = (case x of (tok, obj) \<Rightarrow> ob_identity obj \<noteq> None)"
      unfolding case_prod_beta by (rule arg_cong [of _ _ Not])
  qed
  have s: "s = clear_generation None ((start_step st (next_rules st f) f)\<lparr>st_invalidations :=
      map (\<lambda>(tok, obj). (tok, GENERATION_END, ob_entity_id obj, ob_revision obj))
        (filter (\<lambda>(tok, obj). ob_identity obj \<noteq> None) (rs_objects st))\<rparr>)"
    using run assms(3) held by (simp add: run_event_def Let_def)
  then have "st_diagnostics s = []" by (simp add: clear_generation_def)
  then have "ds = []" using ds(2) by (simp add: diagnostic_bodies_def)
  have "token_order (Some tok) = int (token_number tok)" for tok by (simp add: token_order_def)
  then have sorts: "sort_key (\<lambda>x. int (token_number (fst x))) xs = sort_key (\<lambda>(tok, obj). token_number tok) xs" for xs :: "(token \<times> ObjectState) list"
  proof -
    have "insort_key (\<lambda>x. int (token_number (fst x))) x ys = insort_key (\<lambda>(tok, obj). token_number tok) x ys"
      for x and ys :: "(token \<times> ObjectState) list" by (induction ys) (auto simp: case_prod_beta)
    then show ?thesis by (induction xs) simp_all
  qed
  have "map (\<lambda>r. (or_kind r, or_token r, or_entity_id r, or_payload r)) (frame_records s ds) =
      map (\<lambda>(knd, tok, eid, revision, p). (knd, tok, eid, p)) (other_bodies s)"
    using frame_records_map [of "\<lambda>r. (or_kind r, or_token r, or_entity_id r, or_payload r)" s
      "\<lambda>(knd, tok, eid, revision, p). (knd, tok, eid, p)" ds] \<open>ds = []\<close>
    by (simp add: case_prod_beta)
  also have "\<dots> = map (\<lambda>(tok, obj). (KInvalidated, Some tok, ob_entity_id obj, PEnd GENERATION_END (ob_revision obj)))
        (sort_key (\<lambda>(tok, obj). token_number tok) (filter (\<lambda>(tok, obj). ob_identity obj \<noteq> None) (rs_objects st)))"
    by (simp add: s clear_generation_def other_bodies_def sort_key_map comp_def case_prod_unfold token_order_def
        sorts [unfolded case_prod_unfold])
  finally show ?thesis using red
    by (intro exI [of _ "ReducerState.truncate s"] exI [of _ "frame_records s ds"])
      (simp add: s clear_generation_def distinct_tokens_def ReducerState.truncate_def)
qed

end
