(* ===== verification/Hla_Reducer_History.thy ===== *)
theory Hla_Reducer_History
  imports Hla_Reducer_Correct
begin

text \<open>
  How one object changes over a frame: its name and class never, its identity once established
  never, its quarantine never back, its revision by one with each upsert of it and not otherwise.
  These facts hold of every step the reducer takes, whatever its state.
\<close>

section \<open>One object before and after\<close>

definition advances :: "ObjectState \<Rightarrow> ObjectState \<Rightarrow> bool" where
  "advances a b \<longleftrightarrow>
     ob_name b = ob_name a \<and> ob_class b = ob_class a \<and>
     (ob_lifecycle a = QUARANTINED \<longrightarrow> ob_lifecycle b = QUARANTINED) \<and>
     (ob_identity a \<noteq> None \<longrightarrow> ob_identity b = ob_identity a \<and> ob_incarnation b = ob_incarnation a \<and>
        ob_entity_id b = ob_entity_id a)"

lemma advances_refl [simp]: "advances a a"
  by (simp add: advances_def)

lemma advances_trans: "advances a b \<Longrightarrow> advances b c \<Longrightarrow> advances a c"
  by (auto simp: advances_def)

lemma advances_updates [simp]:
  "advances a (b\<lparr>ob_slots := x\<rparr>) = advances a b" "advances a (b\<lparr>ob_mark := m\<rparr>) = advances a b"
  "advances a (b\<lparr>ob_warned := w\<rparr>) = advances a b" "advances a (b\<lparr>ob_eligible := e\<rparr>) = advances a b"
  "advances a (b\<lparr>ob_revision := k\<rparr>) = advances a b"
  "advances a b \<Longrightarrow> advances a (b\<lparr>ob_lifecycle := QUARANTINED\<rparr>)"
  by (simp_all add: advances_def)

text \<open>
  Every object of \<open>s'\<close> was in \<open>s\<close> and advances from what it was there, at the same revision.
\<close>

definition advanced :: "Step \<Rightarrow> Step \<Rightarrow> bool" where
  "advanced s s' \<longleftrightarrow>
     (\<forall>tok b. map_of (rs_objects s') tok = Some b \<longrightarrow>
        (\<exists>a. map_of (rs_objects s) tok = Some a \<and> advances a b \<and> ob_revision b = ob_revision a))"

lemma advanced_same: "rs_objects s' = rs_objects s \<Longrightarrow> advanced s s'"
  by (simp add: advanced_def)

lemma advanced_put:
  "advanced s t \<Longrightarrow> map_of (rs_objects s) tok = Some a \<Longrightarrow> advances a b \<Longrightarrow> ob_revision b = ob_revision a \<Longrightarrow>
   advanced s (put tok b t)"
  by (auto simp: advanced_def)

lemma objects_simps [simp]:
  "rs_objects (diagnose_with c a t m s) = rs_objects s" "rs_objects (diagnose c a t s) = rs_objects s"
  "rs_objects (limit_reached tok msg s) = rs_objects s" "rs_objects (invalidate tok r obj s) = rs_objects s"
  "rs_objects (reason_diagnostics tok answer s) = rs_objects s"
  "rs_objects (transition tok w why answer obj s) = rs_objects s"
  by (simp_all add: diagnose_def diagnose_with_def limit_reached_def invalidate_def reason_diagnostics_def
      transition_def Let_def)

section \<open>Evaluation\<close>

text \<open>
  \<open>evolved\<close> is \<open>advanced\<close> up to the one revision an upsert adds, and the upsert is of an object
  left eligible, with its entity id and its new revision.
\<close>

definition upserts :: "Step \<Rightarrow> token \<Rightarrow> bool" where
  "upserts s tok \<longleftrightarrow> (\<exists>eid k e. st_upsert s = Some (tok, eid, k, e))"

definition upsert_held :: "Step \<Rightarrow> bool" where
  "upsert_held s \<longleftrightarrow> (\<forall>tok eid k e. st_upsert s = Some (tok, eid, k, e) \<longrightarrow>
     (\<exists>b. map_of (rs_objects s) tok = Some b \<and> ob_eligible b \<and> ob_entity_id b = eid \<and> ob_revision b = k))"

definition evolved :: "Step \<Rightarrow> Step \<Rightarrow> bool" where
  "evolved s s' \<longleftrightarrow> upsert_held s' \<and>
     (\<forall>tok b. map_of (rs_objects s') tok = Some b \<longrightarrow>
        (\<exists>a. map_of (rs_objects s) tok = Some a \<and> advances a b \<and>
           ob_revision b = ob_revision a + of_bool (upserts s' tok)))"

lemma evolved_quiet: "advanced s s' \<Longrightarrow> st_upsert s' = None \<Longrightarrow> evolved s s'"
  by (auto simp: advanced_def evolved_def upserts_def upsert_held_def)

lemma advanced_evolved:
  assumes "advanced s t" "evolved t u"
  shows "evolved s u"
proof -
  have "\<exists>a. map_of (rs_objects s) tok = Some a \<and> advances a c \<and> ob_revision c = ob_revision a + of_bool (upserts u tok)"
    if c: "map_of (rs_objects u) tok = Some c" for tok c
  proof -
    obtain b where b: "map_of (rs_objects t) tok = Some b" "advances b c"
      "ob_revision c = ob_revision b + of_bool (upserts u tok)"
      using assms(2) c unfolding evolved_def by blast
    obtain a where "map_of (rs_objects s) tok = Some a" "advances a b" "ob_revision b = ob_revision a"
      using assms(1) b(1) unfolding advanced_def by blast
    with b advances_trans [of a b c] show ?thesis by simp
  qed
  with assms(2) show ?thesis by (simp add: evolved_def)
qed

lemma evolvedD:
  assumes "evolved s s'" "map_of (rs_objects s) tok = Some a" "map_of (rs_objects s') tok = Some b"
  shows "advances a b \<and> ob_revision b = ob_revision a + of_bool (upserts s' tok)"
proof -
  obtain c where "map_of (rs_objects s) tok = Some c" "advances c b" "ob_revision b = ob_revision c + of_bool (upserts s' tok)"
    using assms(1,3) unfolding evolved_def by blast
  with assms(2) show ?thesis by simp
qed

lemma answered_evolves:
  assumes "map_of (rs_objects s) tok = Some obj" "st_upsert s = None"
  shows "evolved s (answered tok obj changed supplied answer s)"
proof (cases answer)
  case (Projected e)
  show ?thesis
  proof (cases supplied)
    case True
    then show ?thesis using Projected assms
      by (auto simp: answered_def Let_def evolved_def upsert_held_def upserts_def put_def)
  next
    case False
    then show ?thesis using Projected assms
      by (auto simp: answered_def Let_def evolved_def upsert_held_def upserts_def put_def)
  qed
next
  case (Suppressed u)
  then show ?thesis using assms
    by (auto simp: answered_def Let_def evolved_def upsert_held_def upserts_def put_def)
qed

lemma evaluate_evolves:
  assumes "evaluate env tok w changed supplied reason s = Inr s'" "st_upsert s = None"
  shows "evolved s s'"
proof -
  obtain obj answer where obj: "map_of (rs_objects s) tok = Some obj"
    and s': "s' = answered tok obj changed supplied answer (transition tok w reason answer obj (reason_diagnostics tok answer s))"
    using assms(1) by (auto simp: evaluate_def Let_def rbind_eq_Inr_iff split: option.splits)
  let ?t = "transition tok w reason answer obj (reason_diagnostics tok answer s)"
  have "evolved ?t s'" unfolding s' by (rule answered_evolves) (simp_all add: obj assms(2))
  from advanced_evolved [OF advanced_same this] show ?thesis by simp
qed

section \<open>Identity and reflection\<close>

lemma identify_advances:
  assumes "identify env tok ident obj s = Inr (s', obj', r)"
  shows "advanced s s'" "advances obj obj'" "ob_revision obj' = ob_revision obj"
    "st_upsert s' = st_upsert s"
proof -
  have put: "advanced s (put holder (held\<lparr>ob_lifecycle := QUARANTINED, ob_eligible := False\<rparr>) t)"
    if "map_of (rs_objects s) holder = Some held" "rs_objects t = rs_objects s" for holder held t
    using advanced_put [OF advanced_same [OF that(2)] that(1)] by simp
  from assms show "advanced s s'" "advances obj obj'" "ob_revision obj' = ob_revision obj"
    "st_upsert s' = st_upsert s"
    by (auto simp: identify_def Let_def rbind_eq_Inr_iff advances_def advanced_same put split: option.splits if_splits)
qed

lemma identified_advances:
  assumes "identified env tok ident obj s = Inr (s', obj', r)"
  shows "advanced s s'" "advances obj obj'" "ob_revision obj' = ob_revision obj" "st_upsert s' = st_upsert s"
  using assms identify_advances [of env tok _ obj s s' obj' r] by (auto simp: identified_def advanced_same split: option.splits)

lemma apply_values_evolves:
  assumes "apply_values env tok obj known decoded at s = Inr s'" "map_of (rs_objects s) tok = Some obj" "st_upsert s = None"
  shows "evolved s s'"
proof -
  obtain slots mark s1 where r: "regressed tok decoded obj (set_slots (made_slots VALID (map_of decoded) known (st_frame s) at) (ob_slots obj)) s =
      (slots, mark, s1)" by (cases "regressed tok decoded obj (set_slots (made_slots VALID (map_of decoded) known (st_frame s) at) (ob_slots obj)) s")
  then have s1: "rs_objects s1 = rs_objects s" "st_upsert s1 = st_upsert s"
    by (auto simp: regressed_def Let_def split: if_splits)
  obtain s2 upd reason where id: "identified env tok (decoded_identifier decoded) (obj\<lparr>ob_slots := slots, ob_mark := mark\<rparr>) s1 =
      Inr (s2, upd, reason)"
    using assms(1) by (auto simp: apply_values_stages r rbind_eq_Inr_iff)
  note adv = identified_advances [OF id]
  obtain w s3 where ev: "evaluate env tok (ob_eligible obj) (map fst known) True reason (put tok w s3) = Inr s'"
    and w: "advances obj w" "ob_revision w = ob_revision obj" "rs_objects s3 = rs_objects s2" "st_upsert s3 = st_upsert s2"
    using assms(1) adv(2,3) unfolding apply_values_stages r prod.case id rbind_simps
    by (auto simp: advances_def split: option.splits if_splits)
  have "advanced s s3" using adv(1) s1(1) w(3) by (simp add: advanced_def)
  then have "advanced s (put tok w s3)" using assms(2) w(1,2) by (rule advanced_put)
  moreover have "evolved (put tok w s3) s'" by (rule evaluate_evolves [OF ev]) (simp add: w(4) adv(4) s1(2) assms(3))
  ultimately show ?thesis by (rule advanced_evolved)
qed

lemma gathered_same:
  "rs_objects (fold (\<lambda>(code, name, message). diagnose_with code (Some name) (Some tok) message) failures s) = rs_objects s"
  "st_upsert (fold (\<lambda>(code, name, message). diagnose_with code (Some name) (Some tok) message) failures s) = st_upsert s"
  by (induction failures arbitrary: s) auto

lemma apply_reflection_evolves:
  assumes "apply_reflection env tok obj attributes known s = Inr s'" "map_of (rs_objects s) tok = Some obj" "st_upsert s = None"
  shows "evolved s s'"
proof -
  obtain decoded failures at where d: "decode_supplied attributes = Inr (decoded, failures)"
    and eff: "(case effective_of s of None \<Rightarrow> Inr None
      | Some e \<Rightarrow> rbind (timed (format_microsecond e)) (\<lambda>t. Inr (Some t))) = Inr at"
    using assms(1) by (auto simp: apply_reflection_def rbind_eq_Inr_iff)
  show ?thesis
  proof (cases "failures = []")
    case True
    with assms(1) have "apply_values env tok obj known decoded at s = Inr s'" by (simp add: apply_reflection_def d eff)
    then show ?thesis using assms(2,3) by (rule apply_values_evolves)
  next
    case False
    let ?t = "fold (\<lambda>(code, name, message). diagnose_with code (Some name) (Some tok) message) failures s"
    obtain slots where ev: "evaluate env tok (ob_eligible obj) (map fst known) False None (put tok (obj\<lparr>ob_slots := slots\<rparr>) ?t) = Inr s'"
      using assms(1) False by (simp add: apply_reflection_def d eff Let_def)
    have "advanced s (put tok (obj\<lparr>ob_slots := slots\<rparr>) ?t)"
      by (rule advanced_put [OF advanced_same assms(2)]) (simp_all add: gathered_same)
    moreover have "evolved (put tok (obj\<lparr>ob_slots := slots\<rparr>) ?t) s'"
      by (rule evaluate_evolves [OF ev]) (simp add: gathered_same assms(3))
    ultimately show ?thesis by (rule advanced_evolved)
  qed
qed

lemma retracted_evolves:
  assumes "map_of (rs_objects s) tok = Some obj" "st_upsert s = None"
  shows "evolved s (retracted tok obj s)"
proof (rule evolved_quiet)
  show "advanced s (retracted tok obj s)"
    unfolding retracted_def Let_def
    by (rule advanced_put [OF advanced_same assms(1)]) simp_all
  show "st_upsert (retracted tok obj s) = None" using assms(2) by (simp add: retracted_def Let_def)
qed

lemma unknown_object_same:
  "rs_objects (unknown_object tok s) = rs_objects s" "st_upsert (unknown_object tok s) = st_upsert s"
  by (auto simp: unknown_object_def token_admitted_def Let_def)

lemma reflect_evolves:
  assumes "reflect env tok attributes retractable s = Inr s'" "st_upsert s = None"
  shows "evolved s s'"
proof (cases "attributes_per_reflection (rs_limits s) < length attributes")
  case True
  with assms show ?thesis by (auto simp: reflect_def intro!: evolved_quiet advanced_same)
next
  case few: False
  show ?thesis
  proof (cases "map_of (rs_objects s) tok")
    case None
    with few assms show ?thesis by (auto simp: reflect_def unknown_object_same intro!: evolved_quiet advanced_same)
  next
    case (Some obj)
    define known where "known = filter (\<lambda>(name, _). name \<in> set NAMES) attributes"
    define budget where "budget = rs_cache s + sum_list (map (\<lambda>(name, raw).
          int (length raw) - int (raw_bytes (ob_slots obj ! name_index name))) known)"
    note r = assms(1) [unfolded reflect_stages [OF Some known_def few] budget_def [symmetric] Let_def]
    consider "retractable" "attributes \<noteq> []" | "retractable" "attributes = []" | "\<not> retractable" "attributes = []"
      | "\<not> retractable" "int (cached_attribute_bytes_per_generation (rs_limits s)) < budget" "attributes \<noteq> []"
      | "\<not> retractable" "\<not> int (cached_attribute_bytes_per_generation (rs_limits s)) < budget" "attributes \<noteq> []" by blast
    then show ?thesis
    proof cases
      case 1
      let ?t = "put tok (obj\<lparr>ob_lifecycle := QUARANTINED\<rparr>) (diagnose ''E_RETRACTION_UNSUPPORTED'' None (Some tok) s)"
      have "advanced s ?t" by (rule advanced_put [OF advanced_same Some]) simp_all
      moreover have "evolved ?t s'" by (rule evaluate_evolves) (use r 1 assms(2) in \<open>auto split: if_splits\<close>)
      ultimately show ?thesis by (rule advanced_evolved)
    next
      case 2
      with r have "s' = retracted tok obj s" by simp
      with retracted_evolves [OF Some assms(2)] show ?thesis by simp
    next
      case 3
      with r assms(2) show ?thesis by (auto intro!: evolved_quiet advanced_same)
    next
      case 4
      with r assms(2) show ?thesis by (auto intro!: evolved_quiet advanced_same)
    next
      case 5
      with r have "apply_reflection env tok obj attributes known (s\<lparr>rs_cache := budget\<rparr>) = Inr s'" by simp
      then have "evolved (s\<lparr>rs_cache := budget\<rparr>) s'" by (rule apply_reflection_evolves) (simp_all add: Some assms(2))
      then show ?thesis by (simp add: evolved_def)
    qed
  qed
qed

lemma remove_object_evolves:
  assumes "st_upsert s = None"
  shows "evolved s (remove_object tok retractable s)"
proof (cases "map_of (rs_objects s) tok")
  case None
  then show ?thesis using assms
    by (auto simp: remove_object_def unknown_object_same intro!: evolved_quiet advanced_same)
next
  case (Some obj)
  have "advanced s (dropped tok obj s)" by (auto simp: advanced_def dropped_simps)
  then have "evolved s (dropped tok obj s)" by (rule evolved_quiet) (simp add: dropped_simps assms)
  moreover have "remove_object tok retractable s = (if retractable then retracted tok obj s else dropped tok obj s)"
    using Some by (simp add: remove_object_def retracted_def dropped_def)
  ultimately show ?thesis using retracted_evolves [OF Some assms] by simp
qed

section \<open>One frame\<close>

text \<open>Discovery puts only an object that was not there.\<close>

lemma discover_keeps:
  "map_of (rs_objects s) k = Some a \<Longrightarrow> map_of (rs_objects (discover tok name cls s)) k = Some a"
  "st_upsert (discover tok name cls s) = st_upsert s"
  by (auto simp: discover_def token_admitted_def Let_def split: option.split)

lemma cleared_simps:
  "rs_objects (clear_generation gen s) = []" "st_upsert (clear_generation gen s) = st_upsert s"
  by (simp_all add: clear_generation_def)

lemma run_event_evolves:
  assumes "run_event env s = Inr s'" "st_upsert s = None"
  shows "upsert_held s'"
    "map_of (rs_objects s) tok = Some a \<Longrightarrow> map_of (rs_objects s') tok = Some b \<Longrightarrow>
     advances a b \<and> ob_revision b = ob_revision a + of_bool (upserts s' tok)"
proof -
  have quiet: "upsert_held t" "\<not> upserts t tok" if "st_upsert t = None" for t
    using that by (simp_all add: upsert_held_def upserts_def)
  have both: "upsert_held s' \<and> (map_of (rs_objects s) tok = Some a \<longrightarrow> map_of (rs_objects s') tok = Some b \<longrightarrow>
     advances a b \<and> ob_revision b = ob_revision a + of_bool (upserts s' tok))"
  proof (cases "frame_event (st_frame s)")
    case (Discover tok name cls)
    with assms discover_keeps quiet [of s'] show ?thesis by (auto simp: run_event_def upserts_def)
  next
    case (Reflect tok attributes d r)
    with assms have e: "evolved s s'" by (auto simp: run_event_def intro: reflect_evolves)
    then have "upsert_held s'" by (simp add: evolved_def)
    with evolvedD [OF e] show ?thesis by blast
  next
    case (Remove tok d r)
    with assms have e: "evolved s s'" by (auto simp: run_event_def intro: remove_object_evolves)
    then have "upsert_held s'" by (simp add: evolved_def)
    with evolvedD [OF e] show ?thesis by blast
  next
    case (Diagnostic tok d)
    with assms quiet [of s'] show ?thesis by (auto simp: run_event_def)
  qed (use assms quiet [of s'] in \<open>auto simp: run_event_def Let_def cleared_simps split: if_splits\<close>)
  then show "upsert_held s'" by simp
  from both show "map_of (rs_objects s) tok = Some a \<Longrightarrow> map_of (rs_objects s') tok = Some b \<Longrightarrow>
     advances a b \<and> ob_revision b = ob_revision a + of_bool (upserts s' tok)" by simp
qed

lemma diagnostic_bodies_kinds:
  assumes "diagnostic_bodies s = Inr ds"
  shows "list_all (\<lambda>b. fst b = KDiagnostic) ds \<and> length ds = length (st_diagnostics s)"
proof -
  have one: "diagnostic_body s d = Inr b \<Longrightarrow> fst b = KDiagnostic" for d b
    by (auto simp: diagnostic_body_def split: prod.splits option.splits)
  have loop: "list_all (\<lambda>b. fst b = KDiagnostic) bs \<Longrightarrow>
      rfold (\<lambda>bodies d. rbind (diagnostic_body s d) (\<lambda>b. Inr (bodies @ [b]))) bs xs = Inr ds \<Longrightarrow>
      list_all (\<lambda>b. fst b = KDiagnostic) ds \<and> length ds = length bs + length xs" for bs xs
  proof (induction xs arbitrary: bs)
    case (Cons d xs)
    then obtain b where b: "diagnostic_body s d = Inr b" by (auto simp: rbind_eq_Inr_iff)
    have "list_all (\<lambda>b. fst b = KDiagnostic) ds \<and> length ds = length (bs @ [b]) + length xs"
      by (rule Cons.IH) (use b Cons.prems one [OF b] in \<open>simp_all\<close>)
    then show ?case by simp
  qed simp
  show ?thesis using loop [of "[]"] assms by (simp add: diagnostic_bodies_def)
qed

lemma reduced_step:
  assumes "reduce_admitted env st (FrameRecord f) = Inr (st', records)"
  obtains s ds where "run_event env (start_step st (next_rules st f) f) = Inr s" "st' = ReducerState.truncate s"
    "records = frame_records s ds" "list_all (\<lambda>b. fst b = KDiagnostic) ds" "length ds = length (st_diagnostics s)"
proof -
  obtain s ds where "run_event env (start_step st (next_rules st f) f) = Inr s" "diagnostic_bodies s = Inr ds"
    "st' = ReducerState.truncate s" "records = frame_records s ds"
    using assms by (auto simp: reduce_admitted_def reduce_step_def step_result_def rbind_eq_Inr_iff Let_def
        next_rules_def frame_records_def split: if_splits)
  with that diagnostic_bodies_kinds show thesis by blast
qed

text \<open>The upsert record of a frame is the upsert the step gathered.\<close>

lemma upsert_record:
  assumes "list_all (\<lambda>b. fst b = KDiagnostic) ds"
  shows "(\<exists>r\<in>set (frame_records s ds). or_kind r = KUpsert \<and> or_token r = t \<and> or_entity_id r = eid \<and> or_revision r = k \<and> or_payload r = p) \<longleftrightarrow>
    (\<exists>tok j e. st_upsert s = Some (tok, eid, j, e) \<and> t = Some tok \<and> k = Some j \<and> p = PUpsert e)"
proof -
  let ?h = "\<lambda>r. (or_kind r, or_token r, or_entity_id r, or_revision r, or_payload r)"
  have "map ?h (frame_records s ds) = map (\<lambda>b. b) (ds @ other_bodies s)"
    by (rule frame_records_map) (simp add: prod_eq_iff)
  from arg_cong [OF this, of set] have bodies: "?h ` set (frame_records s ds) = set (ds @ other_bodies s)"
    by (simp only: list.set_map image_ident)
  have "(\<exists>r\<in>set (frame_records s ds). or_kind r = KUpsert \<and> or_token r = t \<and> or_entity_id r = eid \<and> or_revision r = k \<and> or_payload r = p) \<longleftrightarrow>
      (KUpsert, t, eid, k, p) \<in> ?h ` set (frame_records s ds)"
    unfolding image_iff prod.inject by (intro bex_cong refl) auto
  also have "\<dots> \<longleftrightarrow> (KUpsert, t, eid, k, p) \<in> set (ds @ other_bodies s)" by (simp only: bodies)
  also have "\<dots> \<longleftrightarrow> (\<exists>tok j e. st_upsert s = Some (tok, eid, j, e) \<and> t = Some tok \<and> k = Some j \<and> p = PUpsert e)"
  proof -
    have "(KUpsert, t, eid, k, p) \<notin> set ds" using assms by (auto simp: list_all_iff)
    then show ?thesis by (cases "st_upsert s"; cases "st_snapshot s") (auto simp: other_bodies_def)
  qed
  finally show ?thesis .
qed

lemma upserts_record:
  assumes "list_all (\<lambda>b. fst b = KDiagnostic) ds"
  shows "(\<exists>r\<in>set (frame_records s ds). or_kind r = KUpsert \<and> or_token r = Some tok) \<longleftrightarrow> upserts s tok"
proof -
  have "(\<exists>r\<in>set (frame_records s ds). or_kind r = KUpsert \<and> or_token r = Some tok) \<longleftrightarrow>
      (\<exists>eid k p. \<exists>r\<in>set (frame_records s ds). or_kind r = KUpsert \<and> or_token r = Some tok \<and> or_entity_id r = eid \<and>
         or_revision r = k \<and> or_payload r = p)" by blast
  also have "\<dots> \<longleftrightarrow> upserts s tok" unfolding upsert_record [OF assms] upserts_def by auto
  finally show ?thesis .
qed

text \<open>
  C25. Over one frame an object keeps its name and class; an identity it has established, with its
  incarnation and entity id, never changes; once quarantined it stays so; and its revision grows by
  one when the frame's records hold an upsert of it, and not otherwise.
\<close>

theorem object_history:
  assumes "reduce_admitted env st (FrameRecord f) = Inr (st', records)"
    and "map_of (rs_objects st) tok = Some a" and "map_of (rs_objects st') tok = Some b"
  shows "ob_name b = ob_name a \<and> ob_class b = ob_class a \<and>
    (ob_lifecycle a = QUARANTINED \<longrightarrow> ob_lifecycle b = QUARANTINED) \<and>
    (ob_identity a \<noteq> None \<longrightarrow> (ob_identity b, ob_incarnation b, ob_entity_id b) = (ob_identity a, ob_incarnation a, ob_entity_id a)) \<and>
    ob_revision b = ob_revision a + of_bool (\<exists>r\<in>set records. or_kind r = KUpsert \<and> or_token r = Some tok)"
proof -
  obtain s ds where s: "run_event env (start_step st (next_rules st f) f) = Inr s" "st' = ReducerState.truncate s"
    "records = frame_records s ds" "list_all (\<lambda>b. fst b = KDiagnostic) ds"
    by (rule reduced_step [OF assms(1)])
  have "advances a b \<and> ob_revision b = ob_revision a + of_bool (upserts s tok)"
    by (rule run_event_evolves(2) [OF s(1)]) (use assms(2,3) s(2) in simp_all)
  then show ?thesis unfolding s(3) upserts_record [OF s(4)] by (simp add: advances_def)
qed

text \<open>
  C26. Every upsert record is of an object that is active, eligible and identified after the frame,
  carries that object's entity id in its envelope and in its Entity, and the revision one above the
  object's before the frame.
\<close>

theorem upsert_sound:
  assumes "reducer_inv env st" and "admitted renv st f"
    and "reduce_admitted env st (FrameRecord f) = Inr (st', records)" and "r \<in> set records" and "or_kind r = KUpsert"
  shows "\<exists>tok b e. or_token r = Some tok \<and> map_of (rs_objects st') tok = Some b \<and> ob_lifecycle b = ACTIVE \<and>
    ob_eligible b \<and> ob_identity b \<noteq> None \<and> or_payload r = PUpsert e \<and> or_entity_id r = ob_entity_id b \<and>
    ob_entity_id b = Some (en_entity_id e) \<and> or_revision r = Some (ob_revision b) \<and>
    (\<forall>a. map_of (rs_objects st) tok = Some a \<longrightarrow> ob_revision b = ob_revision a + 1)"
proof -
  let ?env = "unrefused env"
  have inv: "reducer_inv ?env st" using assms(1) by (simp add: unrefused_inv)
  obtain s ds where s: "run_event ?env (start_step st (next_rules st f) f) = Inr s"
    "run_kept ?env (frame_seq f) (frame_seq f - 1) (frame_seq f - 1) (start_step st (next_rules st f) f) s"
    "list_all (\<lambda>b. fst b = KDiagnostic) ds" "reduce_admitted ?env st (FrameRecord f) = Inr (ReducerState.truncate s, frame_records s ds)"
    by (rule admitted_step [OF inv assms(2) unrefused_answers])
  have st': "st' = ReducerState.truncate s" "records = frame_records s ds" using s(4) reduce_unrefused [OF assms(3)] by simp_all
  obtain tok k e where up: "st_upsert s = Some (tok, or_entity_id r, k, e)" "or_token r = Some tok"
    "or_revision r = Some k" "or_payload r = PUpsert e"
    using upsert_record [OF s(3), of s "or_token r" "or_entity_id r" "or_revision r" "or_payload r"] assms(4,5) st'(2) by blast
  note ev = run_event_evolves [OF s(1)]
  have "upsert_held s" by (rule ev(1)) simp
  then obtain b where b: "map_of (rs_objects s) tok = Some b" "ob_eligible b" "ob_entity_id b = or_entity_id r" "ob_revision b = k"
    using up(1) by (auto simp: upsert_held_def)
  have "objects_ok ?env (frame_seq f) (frame_seq f - 1 + 1) {} s" "output_ok s"
    using s(2) by (simp_all add: run_kept_def step_inv_def)
  then have "ob_lifecycle b = ACTIVE" "ob_identity b \<noteq> None" "or_entity_id r = Some (en_entity_id e)"
    using b(1,2) up(1) by (auto simp: objects_ok_def eligible_ok_def output_ok_def)
  moreover have "ob_revision b = ob_revision a + 1" if "map_of (rs_objects st) tok = Some a" for a
    using ev(2) [of tok a b] that b(1) up(1) by (auto simp: upserts_def)
  ultimately show ?thesis using b up st' by auto
qed

end
