(* ===== verification/Hla_Reducer_Runs.thy ===== *)
theory Hla_Reducer_Runs
  imports Hla_Reducer_History Interfaces
begin

text \<open>
  Sessions: the state a header starts has the invariant, every run of admitted frames keeps it, and
  what that gives over a whole session. The last section runs one object from discovery to upsert.
\<close>

declare split_paired_All [simp del] split_paired_Ex [simp del]

section \<open>The first state\<close>

definition bounded_names :: "Limits \<Rightarrow> bool" where
  "bounded_names limits \<longleftrightarrow> object_name_utf8_bytes limits \<le> object_name_utf8_bytes V1 \<and>
     class_name_utf8_bytes limits \<le> class_name_utf8_bytes V1"

text \<open>The configuration schema gives the session id its form.\<close>

definition schema_names_session :: "reducer_env \<Rightarrow> bool" where
  "schema_names_session env \<longleftrightarrow>
     (\<forall>d. schema_problem (rd_capture env) d = None \<longrightarrow> session_id_form (session_id d))"

lemma take_header_session [simp]:
  "session (take_header env rules raw h s) = Some s" "r_epoch (take_header env rules raw h s) = vc_epoch s"
  by (simp_all add: take_header_def)

lemma initial_state_inv:
  assumes init: "initial_state env h complete limits = Inr st" and "bounded_names limits" "schema_names_session env"
  shows "reducer_inv env st" "rs_limits st = limits" "next_seq (rs_rules st) = 1" "rs_objects st = []"
proof -
  let ?renv = "reading_env.truncate (rd_capture env)"
  obtain raw rules v where c: "check ?renv (line_rules limits True) 1 raw = Inr (Inr (rules, v))"
    and st: "st = \<lparr>rs_limits = limits, rs_config = the (session rules), rs_complete = complete,
       rs_rules = rules, rs_generation = None, rs_objects = [], rs_removed = [], rs_seen = [],
       rs_index = [], rs_incarnations = [], rs_cache = 0, rs_terminal = False, rs_tokens_before = 0\<rparr>"
  proof -
    obtain raw verdict where c: "check ?renv (line_rules limits True) 1 raw = Inr verdict"
      and r: "(case verdict of Inl x \<Rightarrow> Inl (refusal_of x) | Inr (rules, v) \<Rightarrow>
        Inr \<lparr>rs_limits = limits, rs_config = the (session rules), rs_complete = complete,
         rs_rules = rules, rs_generation = None, rs_objects = [], rs_removed = [], rs_seen = [],
         rs_index = [], rs_incarnations = [], rs_cache = 0, rs_terminal = False, rs_tokens_before = 0\<rparr>) = Inr st"
      using init by (auto simp: initial_state_def Let_def rbind_eq_Inr_iff)
    from r obtain rules v where "verdict = Inr (rules, v)" by (cases verdict) auto
    with c r that show thesis by simp
  qed
  obtain h' where "check_header ?renv (line_rules limits True) raw = Inr (Inr (rules, h'))"
  proof -
    obtain x where "check_header ?renv (line_rules limits True) raw = Inr x"
      "(case x of Inl y \<Rightarrow> Inl y | Inr (rules', h) \<Rightarrow> Inr (rules', VHeader h)) = Inr (rules, v)"
      using c by (auto simp: check_def rbind_eq_Inr_iff)
    with that show thesis by (cases x) auto
  qed
  then obtain s where rules: "rules = take_header ?renv (line_rules limits True) raw h' s"
    and hf: "header_fault ?renv h' = Inr (Inr s)" by (rule check_header_Inr)
  have "validated_config (schema_problem ?renv) (document_order ?renv) (head_config h') = Inr s"
    using hf by (auto simp: header_fault_def split: sum.splits hla_exception.splits)
  then have s: "schema_problem (rd_capture env) (document s) = None" "epoch_microsecond (document s) = Inr (vc_epoch s)"
    by (auto simp: validated_config_def rbind_eq_Inr_iff validate_config_Inr reading_env.truncate_def split: sum.splits)
  have "session_id_form (session_id (document s))" using assms(3) s(1) by (simp add: schema_names_session_def)
  then show "reducer_inv env st"
    using s(2) assms(2)
    by (simp add: st rules reducer_inv_def step_inv_def tokens_ok_def index_ok_def objects_ok_def session_ok_def
        cache_ok_def linked_def distinct_tokens_def count_of_def dget_def bounded_names_def)
  show "rs_limits st = limits" "next_seq (rs_rules st) = 1" "rs_objects st = []" by (simp_all add: st rules)
qed

section \<open>Runs\<close>

definition reducer_step ::
  "reading_env \<Rightarrow> reducer_env \<Rightarrow> ReducerState \<Rightarrow> frame \<Rightarrow> hla_exception + ReducerState" where
  "reducer_step renv env st f =
     (if admitted renv st f then rbind (reduce_admitted env st (FrameRecord f)) (\<lambda>(st', records). Inr st')
      else Inl (ValueError ''the capture rules refuse the frame''))"

definition session_inv :: "reducer_env \<Rightarrow> Limits \<Rightarrow> ReducerState \<Rightarrow> bool" where
  "session_inv env limits st \<longleftrightarrow> reducer_inv env st \<and> rs_limits st = limits"

lemma reducer_step_inv:
  assumes "session_inv env limits st" "reducer_step renv env st f = Inr st'"
  shows "session_inv env limits st'" "next_seq (rs_rules st') = next_seq (rs_rules st) + 1"
proof -
  have adm: "admitted renv st f" using assms(2) by (auto simp: reducer_step_def split: if_splits)
  have inv: "reducer_inv (unrefused env) st" using assms(1) by (simp add: session_inv_def unrefused_inv)
  obtain s ds where s: "reduce_admitted (unrefused env) st (FrameRecord f) = Inr (ReducerState.truncate s, frame_records s ds)"
    "reducer_inv (unrefused env) (ReducerState.truncate s)"
    and k: "run_kept (unrefused env) (frame_seq f) (frame_seq f - 1) (frame_seq f - 1) (start_step st (next_rules st f) f) s"
    by (rule admitted_step [OF inv adm unrefused_answers])
  have "rs_rules s = next_rules st f" "rs_limits s = rs_limits st"
    using k by (simp_all add: run_kept_def session_part_def)
  with s assms adm reduce_unrefused show "session_inv env limits st'" "next_seq (rs_rules st') = next_seq (rs_rules st) + 1"
    by (auto simp: reducer_step_def session_inv_def next_rules_def unrefused_inv rbind_eq_Inr_iff dest: reduce_unrefused)
qed

interpretation reducer: monotone_machine "reducer_step renv env" "session_inv env limits"
    "\<lambda>st. next_seq (rs_rules st)" for renv env limits
  by unfold_locales (auto intro: reducer_step_inv simp: reducer_step_inv(2))

text \<open>
  C27. Over any session, from the header's first state through any frames the capture rules admit, no
  two discovered objects hold one identity, the eligible ones are active and identified, and the
  numbers of active objects, of tokens and of cached octets stay within their limits.
\<close>

theorem reducer_session:
  assumes "bounded_names limits" and "schema_names_session env"
    and "initial_state env h complete limits = Inr st0" and "rfold (reducer_step renv env) st0 frs = Inr st"
  shows "(\<forall>tok tok' a b. map_of (rs_objects st) tok = Some a \<and> map_of (rs_objects st) tok' = Some b \<and>
      ob_identity a \<noteq> None \<and> ob_identity a = ob_identity b \<longrightarrow> tok = tok') \<and>
    (\<forall>tok a. map_of (rs_objects st) tok = Some a \<and> ob_eligible a \<longrightarrow> ob_lifecycle a = ACTIVE \<and> ob_identity a \<noteq> None) \<and>
    length (rs_objects st) \<le> active_objects_per_generation limits \<and>
    distinct_tokens st \<le> object_tokens_per_session limits \<and>
    rs_cache st \<le> int (cached_attribute_bytes_per_generation limits) \<and>
    rs_cache st = int (dsum cached_bytes (rs_objects st)) \<and> 1 \<le> next_seq (rs_rules st)"
proof -
  note init = initial_state_inv [OF assms(3,1,2)]
  have "session_inv env limits st0" using init by (simp add: session_inv_def)
  note run = reducer.run_inv [OF this assms(4)] reducer.run_level [OF this assms(4)]
  have inv: "tokens_ok st" "index_ok st" "cache_ok st" "rs_limits st = limits"
    and obs: "objects_ok env (next_seq (rs_rules st) - 1) (next_seq (rs_rules st) - 1) {} st"
    using run(1) by (simp_all add: session_inv_def reducer_inv_def Let_def step_inv_def)
  have "tok = tok'" if "map_of (rs_objects st) tok = Some a" "map_of (rs_objects st) tok' = Some b"
    "ob_identity a = Some t" "ob_identity b = Some t" for tok tok' a b t
  proof -
    have ix: "map_of (rs_index st) t = Some k \<longleftrightarrow> (\<exists>o'. map_of (rs_objects st) k = Some o' \<and> ob_identity o' = Some t)" for k
      using inv(2) by (simp add: index_ok_def)
    show ?thesis using ix [of tok] ix [of tok'] that by simp
  qed
  then have one: "\<forall>tok tok' a b. map_of (rs_objects st) tok = Some a \<and> map_of (rs_objects st) tok' = Some b \<and>
      ob_identity a \<noteq> None \<and> ob_identity a = ob_identity b \<longrightarrow> tok = tok'"
    by (metis option.exhaust)
  have two: "\<forall>tok a. map_of (rs_objects st) tok = Some a \<and> ob_eligible a \<longrightarrow> ob_lifecycle a = ACTIVE \<and> ob_identity a \<noteq> None"
    using obs by (auto simp: objects_ok_def eligible_ok_def)
  have "length (rs_objects st) \<le> active_objects_per_generation limits"
    "distinct_tokens st \<le> object_tokens_per_session limits"
    "rs_cache st \<le> int (cached_attribute_bytes_per_generation limits)"
    "rs_cache st = int (dsum cached_bytes (rs_objects st))" "1 \<le> next_seq (rs_rules st)"
    using inv init(3) run(2) by (simp_all add: tokens_ok_def cache_ok_def)
  with one two show ?thesis by (intro conjI)
qed

section \<open>Reflections that change nothing\<close>

definition reflection_budget :: "ReducerState \<Rightarrow> token \<Rightarrow> (pytext \<times> bytes) list \<Rightarrow> int" where
  "reflection_budget st tok attributes =
     rs_cache st + sum_list (map (\<lambda>(name, raw). int (length raw) - int (raw_bytes (ob_slot (the (map_of (rs_objects st) tok)) name)))
       (filter (\<lambda>(name, _). name \<in> set NAMES) attributes))"

definition reflection_refused :: "ReducerState \<Rightarrow> token \<Rightarrow> (pytext \<times> bytes) list \<Rightarrow> bool \<Rightarrow> bool" where
  "reflection_refused st tok attributes retractable \<longleftrightarrow>
     attributes_per_reflection (rs_limits st) < length attributes \<or> map_of (rs_objects st) tok = None \<or>
     \<not> retractable \<and> attributes \<noteq> [] \<and>
       int (cached_attribute_bytes_per_generation (rs_limits st)) < reflection_budget st tok attributes"

lemma reflect_refused:
  assumes "reflect env tok attributes retractable (start_step st rules f) = Inr s"
    and "reflection_refused st tok attributes retractable"
  shows "rs_objects s = rs_objects st" "rs_index s = rs_index st" "rs_incarnations s = rs_incarnations st"
    "rs_cache s = rs_cache st" "rs_removed s = rs_removed st"
    "length (st_diagnostics s) = 1" "st_invalidations s = []" "st_removals s = []" "st_snapshot s = None" "st_upsert s = None"
proof -
  let ?s = "start_step st rules f"
  consider "attributes_per_reflection (rs_limits st) < length attributes"
    | "\<not> attributes_per_reflection (rs_limits st) < length attributes" "map_of (rs_objects st) tok = None"
    | obj where "\<not> attributes_per_reflection (rs_limits st) < length attributes" "map_of (rs_objects st) tok = Some obj"
      "\<not> retractable" "attributes \<noteq> []" "int (cached_attribute_bytes_per_generation (rs_limits st)) < reflection_budget st tok attributes"
    using assms(2) by (auto simp: reflection_refused_def)
  then have "(\<exists>msg. s = limit_reached tok msg ?s) \<or> s = unknown_object tok ?s"
    using assms(1) by cases (auto simp: reflect_def reflection_budget_def Let_def)
  moreover have "unknown_object tok ?s = limit_reached tok TOO_MANY_TOKENS ?s \<or>
      unknown_object tok ?s = diagnose ''E_UNKNOWN_OBJECT'' None (Some tok) (see tok ?s)"
    by (auto simp: unknown_object_def token_admitted_def Let_def)
  ultimately consider msg where "s = limit_reached tok msg ?s" | "s = diagnose ''E_UNKNOWN_OBJECT'' None (Some tok) (see tok ?s)"
    by blast
  then show "rs_objects s = rs_objects st" "rs_index s = rs_index st" "rs_incarnations s = rs_incarnations st"
    "rs_cache s = rs_cache st" "rs_removed s = rs_removed st"
    "length (st_diagnostics s) = 1" "st_invalidations s = []" "st_removals s = []" "st_snapshot s = None" "st_upsert s = None"
    by (cases; simp add: limit_reached_def diagnose_def diagnose_with_def see_def)+
qed

text \<open>
  C28. A reflection with too many attributes, of a token that is no discovered object, or past the
  cache limit is refused whole: objects, index, incarnation counters, cache and removed tokens are as
  they were, and the frame's one record is a diagnostic.
\<close>

theorem refused_reflection_atomic:
  assumes "reduce_admitted env st (FrameRecord f) = Inr (st', records)"
    and "frame_event f = Reflect tok attributes how retractable" and "reflection_refused st tok attributes retractable"
  shows "(rs_objects st', rs_index st', rs_incarnations st', rs_cache st', rs_removed st') =
      (rs_objects st, rs_index st, rs_incarnations st, rs_cache st, rs_removed st) \<and>
    map or_kind records = [KDiagnostic]"
proof -
  obtain s ds where s: "run_event env (start_step st (next_rules st f) f) = Inr s" "st' = ReducerState.truncate s"
    "records = frame_records s ds" "list_all (\<lambda>b. fst b = KDiagnostic) ds" and ds: "length ds = length (st_diagnostics s)"
    by (rule reduced_step [OF assms(1)])
  have "reflect env tok attributes retractable (start_step st (next_rules st f) f) = Inr s"
    using s(1) assms(2) by (simp add: run_event_def)
  note r = reflect_refused [OF this assms(3)]
  have "map or_kind records = [KDiagnostic]" unfolding s(3) frame_kinds [OF s(4)] using ds r(6-10) by simp
  with r(1-5) s(2) show ?thesis by simp
qed

section \<open>Witnesses\<close>

text \<open>A session in which one object is discovered, reflected with all it needs, and upserted.\<close>

definition live_document :: session_config where
  "live_document = sample_config \<lparr>time_policy := ExternalElapsed axis_stamp (asc ''UTC'')\<rparr>"

definition live_header :: header where
  "live_header = sample_header \<lparr>head_config := live_document\<rparr>"

definition live_digest :: "nat \<Rightarrow> digest" where
  "live_digest n = replicate 32 (word_of_nat n)"

definition live_frame :: "nat \<Rightarrow> event \<Rightarrow> frame" where
  "live_frame n e = \<lparr>frame_seq = n, frame_generation = 1, frame_elapsed = 0, frame_event = e,
     frame_prev = (if n = 1 then [0] else live_digest (n - 1)), frame_sha = live_digest n\<rparr>"

definition live_attributes :: "(pytext \<times> bytes) list" where
  "live_attributes = [(ENTITY_IDENTIFIER, [0, 1, 0, 2, 0, 3]), (ENTITY_TYPE, [1, 0, 0, 0, 0, 0, 0, 0]),
     (SPATIAL, axis_octets)]"

definition live_delivery :: delivery where
  "live_delivery = \<lparr>tag_hex = [], sent_order = ''receive'', received_order = ''receive'', transport = ''reliable'',
     logical_time = None\<rparr>"

definition live_start :: frame where "live_start = live_frame 1 (GenerationStart (asc ''F''))"
definition live_discover :: frame where "live_discover = live_frame 2 (Discover (Tok 1) (asc ''n'') (asc ''c''))"
definition live_reflect :: frame where
  "live_reflect = live_frame 3 (Reflect (Tok 1) live_attributes live_delivery False)"
definition live_end :: frame where "live_end = live_frame 4 (GenerationEnd ''stop'')"

definition live_capture :: writing_env where
  "live_capture = sample_env \<lparr>read_header := (\<lambda>_. Reads live_header),
     record_sha256 := (\<lambda>rc. live_digest (record_seq rc)),
     line_of := (\<lambda>v. Inr [0]), schema_problem := (\<lambda>d. if d = live_document then None else Some ([], []))\<rparr>"

definition live_env :: reducer_env where
  "live_env = \<lparr>rd_capture = live_capture, rd_projector = strict_env\<rparr>"

definition live_config :: ValidatedConfig where
  "live_config = \<lparr>document = live_document, vc_epoch = Some 0\<rparr>"

definition live_rules :: LineRules where
  "live_rules = take_header (reading_env.truncate live_capture) (line_rules V1 True) [0] live_header live_config"

definition live_state :: ReducerState where
  "live_state = \<lparr>rs_limits = V1, rs_config = live_config, rs_complete = None, rs_rules = live_rules,
     rs_generation = None, rs_objects = [], rs_removed = [], rs_seen = [], rs_index = [],
     rs_incarnations = [], rs_cache = 0, rs_terminal = False, rs_tokens_before = 0\<rparr>"

lemma live_env_simps [simp]:
  "rd_capture live_env = live_capture" "rd_projector live_env = strict_env"
  by (simp_all add: live_env_def)

lemma live_carriable: "carriable_session (document live_config)"
  by (simp add: carriable_session_def live_config_def live_document_def sample_config_def free_of_surrogates_def asc_def)

lemma live_answers: "answers (rd_projector live_env) live_config"
  using answers_accepted [OF strict_accepts(2,1) live_carriable] by simp

lemma live_schema: "schema_names_session live_env" "bounded_names V1"
  by (auto simp: schema_names_session_def live_capture_def live_document_def sample_config_def session_id_form_def
      session_char_def is_digit_def bounded_names_def split: if_splits)

lemma live_initial: "initial_state live_env live_header None V1 = Inr live_state"
proof -
  let ?renv = "reading_env.truncate live_capture"
  have stamp: "parse_microsecond axis_stamp = Inr 0" by (rule format_microsecond_parses [OF axis_time])
  have "semantic_problems live_document = []"
    using sample_endpoint stamp
    by (simp add: semantic_problems_def surrogate_problems_def config_texts_def live_document_def sample_config_def
        has_surrogate_def DECLARATION_FOR_MODE_def) (simp add: axis_stamp_def)
  moreover have "epoch_microsecond live_document = Inr (Some 0)"
    using stamp by (simp add: epoch_microsecond_def live_document_def)
  ultimately have "validated_config (schema_problem ?renv) (document_order ?renv) live_document = Inr live_config"
    by (simp add: validated_config_def validate_config_def live_config_def live_capture_def reading_env.truncate_def)
  then have "header_fault ?renv live_header = Inr (Inr live_config)"
    using sample_time by (auto simp: header_fault_def live_header_def sample_header_def)
  then have "check_header ?renv (line_rules V1 True) [0] = Inr (Inr (live_rules, live_header))"
    by (simp add: check_header_def size_fault_def reading_fault_def live_rules_def V1_def)
      (simp add: live_capture_def reading_env.truncate_def)
  then show ?thesis
    by (simp add: initial_state_def line_bytes_of_def check_def live_state_def live_rules_def)
      (simp add: live_capture_def)
qed

definition live_1 :: ReducerState where
  "live_1 = live_state \<lparr>rs_rules := next_rules live_state live_start, rs_generation := Some 1\<rparr>"

definition live_2 :: ReducerState where
  "live_2 = live_1 \<lparr>rs_rules := next_rules live_1 live_discover,
     rs_objects := [(Tok 1, new_object (asc ''n'') (asc ''c''))], rs_seen := [Tok 1]\<rparr>"

lemma live_configs [simp]:
  "rs_config live_state = live_config" "rs_config live_1 = live_config" "rs_config live_2 = live_config"
  by (simp_all add: live_2_def live_1_def live_state_def)

definition live_reader :: reading_env where
  "live_reader = reading_env.truncate live_capture"

lemma live_reader_simps [simp]: "record_sha256 live_reader rc = live_digest (record_seq rc)"
  by (simp add: live_reader_def live_capture_def reading_env.truncate_def)

lemma live_rules_simps [simp]:
  "next_seq live_rules = 1" "lines live_rules = 1" "open_generation live_rules = None" "last_generation live_rules = 0"
  "started live_rules = False" "last_elapsed live_rules = 0" "elapsed_may_decrease live_rules" "frames live_rules = 0"
  "r_limits live_rules = V1" "session live_rules = Some live_config" "r_epoch live_rules = Some 0"
  "last_sha256 live_rules = Some [0]"
  by (simp_all add: live_rules_def) (simp_all add: take_header_def line_rules_def live_config_def live_capture_def sample_env_def reading_env.truncate_def)

lemma live_frame_simps [simp]:
  "frame_seq (live_frame n e) = n" "frame_generation (live_frame n e) = 1" "frame_elapsed (live_frame n e) = 0"
  "frame_event (live_frame n e) = e" "frame_sha (live_frame n e) = live_digest n"
  "frame_prev (live_frame n e) = (if n = 1 then [0] else live_digest (n - 1))" "length (live_digest n) = 32"
  by (simp_all add: live_frame_def live_digest_def)

lemma live_federation: "federation_name (document live_config) = asc ''F''"
  by (simp add: live_config_def live_document_def sample_config_def)

lemma token_form_1 [simp]: "token_form (Tok (Suc 0))"
  by (simp add: token_form_def token_text_def dec.simps TOKEN_MAX_CHARS_def)

lemma axis_octets_length: "length axis_octets = 48"
  by (simp add: axis_octets_def)

lemma live_max: "\<not> MAX_MICROSECOND < 0"
  by (simp add: utc_constants days_from_civil_def)

lemma live_profile: "profile_declaration (document live_config) = FOM_UNVERIFIED_DECLARATION"
  by (simp add: live_config_def live_document_def sample_config_def FOM_UNVERIFIED_DECLARATION_def DECLARATION_FOR_MODE_def)

lemma clear_config: "rs_config (clear_generation g s) = rs_config s"
  by (simp add: clear_generation_def)

lemma live_admits_1: "admitted live_reader live_state live_start"
  by (simp add: admitted_def schema_frame_def is_counter_def MAX_EXACT_INTEGER_def live_start_def live_state_def
      record_fault_def record_seq_def record_prev_def record_sha_def event_fault_def framing_fault_def
      live_federation live_max) (simp add: V1_def)

lemma live_stepped:
  assumes "reducer_inv live_env st" "admitted renv st f" "run_event live_env (start_step st (next_rules st f) f) = Inr s"
    and "rs_config st = live_config"
  shows "\<exists>records. reduce_admitted live_env st (FrameRecord f) = Inr (ReducerState.truncate s, records)"
    "reducer_inv live_env (ReducerState.truncate s)"
    "reducer_step renv live_env st f = Inr (ReducerState.truncate s)"
proof -
  obtain s' ds where s': "run_event live_env (start_step st (next_rules st f) f) = Inr s'"
    "reduce_admitted live_env st (FrameRecord f) = Inr (ReducerState.truncate s', frame_records s' ds)"
    "reducer_inv live_env (ReducerState.truncate s')"
    by (rule admitted_step [OF assms(1,2)]) (use assms(4) live_answers in simp_all)
  with assms(2,3) show "\<exists>records. reduce_admitted live_env st (FrameRecord f) = Inr (ReducerState.truncate s, records)"
    "reducer_inv live_env (ReducerState.truncate s)"
    "reducer_step renv live_env st f = Inr (ReducerState.truncate s)" by (simp_all add: reducer_step_def)
qed

lemma live_inv: "reducer_inv live_env live_state"
  by (rule initial_state_inv(1) [OF live_initial live_schema(2,1)])

lemma live_run_1: "reducer_inv live_env live_1" "reducer_step live_reader live_env live_state live_start = Inr live_1"
proof -
  let ?s = "diagnose ''W_FOM_UNVERIFIED'' None None
    (clear_generation (Some 1) (start_step live_state (next_rules live_state live_start) live_start))"
  have "run_event live_env (start_step live_state (next_rules live_state live_start) live_start) = Inr ?s"
    by (simp add: run_event_def live_start_def Let_def clear_config live_state_def live_profile)
  moreover have "ReducerState.truncate ?s = live_1"
    by (simp add: live_1_def live_state_def ReducerState.truncate_def diagnose_def diagnose_with_def clear_generation_def)
  ultimately show "reducer_inv live_env live_1" "reducer_step live_reader live_env live_state live_start = Inr live_1"
    using live_stepped(2,3) [OF live_inv live_admits_1] by simp_all
qed

lemma live_1_rules [simp]:
  "next_seq (rs_rules live_1) = 2" "lines (rs_rules live_1) = 2" "open_generation (rs_rules live_1) = Some 1"
  "started (rs_rules live_1)" "last_elapsed (rs_rules live_1) = 0" "elapsed_may_decrease (rs_rules live_1)"
  "frames (rs_rules live_1) = 1" "r_limits (rs_rules live_1) = V1" "session (rs_rules live_1) = Some live_config"
  "r_epoch (rs_rules live_1) = Some 0" "last_sha256 (rs_rules live_1) = Some (live_digest 1)"
  by (simp_all add: live_1_def next_rules_def live_state_def live_start_def record_sha_def)

lemma live_2_rules [simp]:
  "next_seq (rs_rules live_2) = 3" "lines (rs_rules live_2) = 3" "open_generation (rs_rules live_2) = Some 1"
  "started (rs_rules live_2)" "last_elapsed (rs_rules live_2) = 0" "elapsed_may_decrease (rs_rules live_2)"
  "frames (rs_rules live_2) = 2" "r_limits (rs_rules live_2) = V1" "session (rs_rules live_2) = Some live_config"
  "r_epoch (rs_rules live_2) = Some 0" "last_sha256 (rs_rules live_2) = Some (live_digest 2)"
  by (simp_all add: live_2_def next_rules_def live_discover_def record_sha_def)

lemma live_admits_2: "admitted live_reader live_1 live_discover"
  by (simp add: admitted_def schema_frame_def is_counter_def MAX_EXACT_INTEGER_def live_discover_def
      record_fault_def record_seq_def record_prev_def record_sha_def event_fault_def framing_fault_def
      live_max has_surrogate_def utf8_over_def) (simp add: V1_def)

lemma live_run_2: "reducer_inv live_env live_2" "reducer_step live_reader live_env live_1 live_discover = Inr live_2"
proof -
  let ?s = "put (Tok 1) (new_object (asc ''n'') (asc ''c'')) (see (Tok 1) (start_step live_1 (next_rules live_1 live_discover) live_discover))"
  have "run_event live_env (start_step live_1 (next_rules live_1 live_discover) live_discover) = Inr ?s"
    by (simp add: run_event_def live_discover_def discover_def token_admitted_def Let_def live_1_def live_state_def)
      (simp add: V1_def)
  moreover have "ReducerState.truncate ?s = live_2"
    by (simp add: live_2_def live_1_def live_state_def ReducerState.truncate_def put_def see_def start_step_def
        ReducerState.extend_def)
  ultimately show "reducer_inv live_env live_2" "reducer_step live_reader live_env live_1 live_discover = Inr live_2"
    using live_stepped(2,3) [OF live_run_1(1) live_admits_2] by simp_all
qed

lemma names_ascending: "ENTITY_IDENTIFIER < ENTITY_TYPE" "ENTITY_TYPE < SPATIAL"
  by (simp_all add: ENTITY_IDENTIFIER_def ENTITY_TYPE_def SPATIAL_def)

lemma live_admits_3: "admitted live_reader live_2 live_reflect"
proof -
  have "find (\<lambda>i. \<not> strictly_ascending_at (map fst live_attributes) i) [1..<length (map fst live_attributes)] = None"
    using names_ascending by (simp add: live_attributes_def strictly_ascending_at_def upt_rec)
  moreover have "\<forall>(n, raw)\<in>set live_attributes. length raw < 10 ^ 20"
    by (simp add: live_attributes_def axis_octets_length)
  ultimately show ?thesis
    by (simp add: admitted_def schema_frame_def is_counter_def MAX_EXACT_INTEGER_def live_reflect_def
      record_fault_def record_seq_def record_prev_def record_sha_def event_fault_def framing_fault_def
      live_max) (simp add: V1_def)
qed

text \<open>An evaluation with attributes supplied and no reason against it upserts.\<close>

lemma evaluate_upserts:
  assumes "evaluate env tok w ch True reason s = Inr s'" "map_of (rs_objects s) tok = Some obj"
    and "applying_reasons (rd_projector env) (snapshot_of obj ch) (time_policy (document (rs_config s)) = TimeNone) = []"
  shows "upserts s' tok"
proof -
  obtain answer where a: "project_from_reducer (rd_projector env) (snapshot_of obj ch) (context_of tok obj s) = Inr answer"
    and s': "s' = answered tok obj ch True answer (transition tok w reason answer obj (reason_diagnostics tok answer s))"
    using assms(1,2) by (auto simp: evaluate_def Let_def rbind_eq_Inr_iff)
  have "cx_config (context_of tok obj s) = Validated (rs_config s)" by (simp add: context_of_def)
  from verdict_exact [OF a this refl] assms(3) obtain e where "answer = Projected e" by auto
  then show ?thesis by (simp add: s' answered_def Let_def upserts_def put_def)
qed

definition live_decoded :: "(pytext, decoded) dict" where
  "live_decoded = [(ENTITY_IDENTIFIER, DEntityIdentifier \<lparr>site = 1, application = 2, entity = 3\<rparr>),
     (ENTITY_TYPE, DEntityType \<lparr>kind = 1, domain = 0, country = 0, category = 0, subcategory = 0, specific = 0, extra = 0\<rparr>),
     (SPATIAL, DSpatial (axis_spatial WGS84_A))]"

definition live_slots :: "Slot list" where
  "live_slots = [supplied_slot VALID (map_of live_decoded ENTITY_IDENTIFIER) [0, 1, 0, 2, 0, 3] live_reflect (Some axis_stamp),
     supplied_slot VALID (map_of live_decoded ENTITY_TYPE) [1, 0, 0, 0, 0, 0, 0, 0] live_reflect (Some axis_stamp),
     ABSENT_SLOT, supplied_slot VALID (map_of live_decoded SPATIAL) axis_octets live_reflect (Some axis_stamp)]"

lemma live_decodes: "decode_supplied live_attributes = Inr (live_decoded, [])"
proof -
  have "decode_attribute ENTITY_IDENTIFIER [0, 1, 0, 2, 0, 3] = Inr (DEntityIdentifier \<lparr>site = 1, application = 2, entity = 3\<rparr>)"
    "decode_attribute ENTITY_TYPE [1, 0, 0, 0, 0, 0, 0, 0] = Inr (DEntityType \<lparr>kind = 1, domain = 0, country = 0,
       category = 0, subcategory = 0, specific = 0, extra = 0\<rparr>)"
    using names_distinct
    by (simp_all add: decode_attribute_def Let_def fixed_lengths exact_length_def u16_def u8_def be_value_def)
  with axis_octets_decoded names_distinct show ?thesis
    by (simp add: decode_supplied_def live_attributes_def live_decoded_def)
qed

lemma live_slots_made:
  "set_slots (made_slots VALID (map_of live_decoded) live_attributes live_reflect (Some axis_stamp)) ABSENT_SLOTS = live_slots"
  by (simp add: made_slots_def live_attributes_def live_slots_def ABSENT_SLOTS_def NAMES_simps numeral_nat)

definition live_object :: "pytext \<Rightarrow> ObjectState" where
  "live_object eid = (new_object (asc ''n'') (asc ''c'')) \<lparr>ob_slots := live_slots, ob_mark := Some 0,
     ob_identity := Some (1, 2, 3), ob_incarnation := Some 1, ob_entity_id := Some eid\<rparr>"

lemma live_eligible: "applying_reasons strict_env (snapshot_of (live_object eid) ch) False = []"
proof -
  have at: "slot_at (zip NAMES live_slots) n = live_slots ! name_index n" if "n \<in> set NAMES" for n
    by (rule slot_at_zip [OF _ that]) (simp add: live_slots_def)
  have names: "ENTITY_IDENTIFIER \<in> set NAMES" "ENTITY_TYPE \<in> set NAMES" "FORCE_IDENTIFIER \<in> set NAMES" "SPATIAL \<in> set NAMES"
    by (simp_all add: NAMES_def)
  have sl: "live_slots ! 3 = supplied_slot VALID (map_of live_decoded SPATIAL) axis_octets live_reflect (Some axis_stamp)"
    "live_slots ! 2 = ABSENT_SLOT" by (simp_all add: live_slots_def numeral_nat)
  have d: "map_of live_decoded SPATIAL = Some (DSpatial (axis_spatial WGS84_A))"
    "map_of live_decoded ENTITY_IDENTIFIER = Some (DEntityIdentifier \<lparr>site = 1, application = 2, entity = 3\<rparr>)"
    using names_distinct by (simp_all add: live_decoded_def)
  have "unprojectable strict_env (snapshot_of (live_object eid) ch) \<longleftrightarrow> False"
    using axis_projected
    by (simp add: unprojectable_def snapshot_of_def live_object_def at [OF names(4)] sl d the_spatial_def strict_env_def axis_env_def)
  then show ?thesis unfolding applying_Nil
    by (simp add: snapshot_of_def live_object_def at [OF names(1)] at [OF names(2)] at [OF names(3)] at [OF names(4)] sl d)
      (simp add: live_slots_def d the_identifier_def triple_of_def new_object_def)
qed

definition live_step :: Step where
  "live_step = start_step live_2 (next_rules live_2 live_reflect) live_reflect"

lemma live_step_simps [simp]:
  "rs_limits live_step = V1" "rs_config live_step = live_config" "rs_generation live_step = Some 1"
  "rs_objects live_step = [(Tok 1, new_object (asc ''n'') (asc ''c''))]" "rs_index live_step = []"
  "rs_incarnations live_step = []" "rs_cache live_step = 0" "st_frame live_step = live_reflect"
  by (simp_all add: live_step_def live_2_def live_1_def live_state_def)

lemma live_names: "set (map fst live_attributes) \<subseteq> set NAMES"
  by (simp add: live_attributes_def NAMES_def)

lemma live_reflected:
  assumes "reflect live_env (Tok 1) live_attributes False live_step = Inr s"
  shows "upserts s (Tok 1)"
proof -
  let ?obj = "new_object (asc ''n'') (asc ''c'')" and ?s = "live_step\<lparr>rs_cache := 62\<rparr>"
  have there: "map_of (rs_objects live_step) (Tok 1) = Some ?obj" by simp
  have all: "live_attributes = filter (\<lambda>(name, _). name \<in> set NAMES) live_attributes"
    using live_names by (auto intro!: filter_True [symmetric])
  have few: "\<not> attributes_per_reflection (rs_limits live_step) < length live_attributes"
    by (simp add: live_attributes_def V1_def)
  have budget: "rs_cache live_step + sum_list (map (\<lambda>(name, raw). int (length raw) - int (raw_bytes (ob_slots ?obj ! name_index name)))
      live_attributes) = 62"
    by (simp add: live_attributes_def new_object_def ABSENT_SLOTS_def NAMES_simps raw_bytes_def axis_octets_length numeral_nat)
  have "live_attributes \<noteq> []" "\<not> int (cached_attribute_bytes_per_generation (rs_limits live_step)) < 62"
    by (simp_all add: live_attributes_def V1_def)
  then have "apply_reflection live_env (Tok 1) ?obj live_attributes live_attributes ?s = Inr s"
    using assms unfolding reflect_stages [OF there all few] budget by (simp add: Let_def)
  moreover have eff: "effective_of ?s = Some 0" by (simp add: effective_of_def live_config_def live_reflect_def)
  ultimately have "apply_values live_env (Tok 1) ?obj live_attributes live_decoded (Some axis_stamp) ?s = Inr s"
    by (simp add: apply_reflection_def live_decodes timed_def axis_time)
  moreover have "regressed (Tok 1) live_decoded ?obj live_slots ?s = (live_slots, Some 0, ?s)"
    using eff names_distinct by (simp add: regressed_def live_decoded_def new_object_def)
  moreover have "decoded_identifier live_decoded = Some \<lparr>site = 1, application = 2, entity = 3\<rparr>"
    "decoded_force live_decoded = None"
    using names_distinct by (simp_all add: decoded_identifier_def decoded_force_def live_decoded_def)
  moreover obtain ext eid where ext: "external_id (session_id live_document) 1 (1, 2, 3) 1 = Inr ext"
    "entity_id (pj_uuid5 strict_env) ext = Inr eid"
    using external_id_total [of "session_id live_document" 1 "(1, 2, 3)" 1 "pj_uuid5 strict_env"] live_schema(1)
    by (auto simp: schema_names_session_def live_capture_def is_counter_def MAX_EXACT_INTEGER_def identifier_fields_def
        MAX_IDENTIFIER_FIELD_def)
  moreover have "ob_slots ?obj = ABSENT_SLOTS" by (simp add: new_object_def)
  moreover define s2 where "s2 = ?s\<lparr>rs_incarnations := [((1, 2, 3), 1)], rs_index := [((1, 2, 3), Tok 1)]\<rparr>"
  moreover have "identify live_env (Tok 1) \<lparr>site = 1, application = 2, entity = 3\<rparr> (?obj\<lparr>ob_slots := live_slots, ob_mark := Some 0\<rparr>) ?s =
      Inr (s2, live_object eid, None)"
    using ext by (simp add: identify_def Let_def triple_of_def live_config_def dget_def s2_def live_object_def new_object_def)
  ultimately have "evaluate live_env (Tok 1) (ob_eligible ?obj) (map fst live_attributes) True None (put (Tok 1) (live_object eid) s2) = Inr s"
    by (simp add: apply_values_stages identified_def live_slots_made)
  then show ?thesis
  proof (rule evaluate_upserts)
    show "map_of (rs_objects (put (Tok 1) (live_object eid) s2)) (Tok 1) = Some (live_object eid)" by simp
    show "applying_reasons (rd_projector live_env) (snapshot_of (live_object eid) (map fst live_attributes))
       (time_policy (document (rs_config (put (Tok 1) (live_object eid) s2))) = TimeNone) = []"
      using live_eligible by (simp add: s2_def live_config_def live_document_def)
  qed
qed

lemma live_run_3:
  obtains st records r where "reduce_admitted live_env live_2 (FrameRecord live_reflect) = Inr (st, records)"
    "reducer_inv live_env st" "reducer_step live_reader live_env live_2 live_reflect = Inr st"
    "r \<in> set records" "or_kind r = KUpsert" "or_token r = Some (Tok 1)"
proof -
  obtain s ds where s: "run_event live_env (start_step live_2 (next_rules live_2 live_reflect) live_reflect) = Inr s"
    "list_all (\<lambda>b. fst b = KDiagnostic) ds"
    "reduce_admitted live_env live_2 (FrameRecord live_reflect) = Inr (ReducerState.truncate s, frame_records s ds)"
    "reducer_inv live_env (ReducerState.truncate s)"
    by (rule admitted_step [OF live_run_2(1) live_admits_3]) (use live_answers in simp_all)
  have "reflect live_env (Tok 1) live_attributes False live_step = Inr s"
    using s(1) by (simp add: run_event_def live_reflect_def live_step_def)
  from live_reflected [OF this] obtain r where "r \<in> set (frame_records s ds)" "or_kind r = KUpsert" "or_token r = Some (Tok 1)"
    using upserts_record [OF s(2), of s "Tok 1"] by blast
  moreover have "reducer_step live_reader live_env live_2 live_reflect = Inr (ReducerState.truncate s)"
    using s(3) live_admits_3 by (simp add: reducer_step_def)
  ultimately show thesis using that s(3,4) by blast
qed

theorem reducer_total_and_invariant_witness:
  "\<exists>st records. reduce_admitted live_env live_2 (FrameRecord live_reflect) = Inr (st, records) \<and>
     reducer_inv live_env st \<and> next_seq (rs_rules st) = 4"
  using reducer_total_and_invariant [OF live_run_2(1) live_admits_3] live_carriable strict_accepts by fastforce

theorem upsert_sound_witness:
  "\<exists>st records b. reduce_admitted live_env live_2 (FrameRecord live_reflect) = Inr (st, records) \<and>
     map_of (rs_objects st) (Tok 1) = Some b \<and> ob_eligible b \<and> ob_revision b = 1"
proof -
  obtain st records r where r: "reduce_admitted live_env live_2 (FrameRecord live_reflect) = Inr (st, records)"
    "r \<in> set records" "or_kind r = KUpsert" "or_token r = Some (Tok 1)" by (rule live_run_3)
  from upsert_sound [OF live_run_2(1) live_admits_3 r(1-3)] r(1,4) show ?thesis
    by (auto simp: live_2_def new_object_def)
qed

theorem object_history_witness:
  "\<exists>st records b. reduce_admitted live_env live_2 (FrameRecord live_reflect) = Inr (st, records) \<and>
     map_of (rs_objects st) (Tok 1) = Some b \<and> ob_name b = asc ''n'' \<and> ob_revision b = 1"
proof -
  obtain st records r where r: "reduce_admitted live_env live_2 (FrameRecord live_reflect) = Inr (st, records)"
    "reducer_inv live_env st" "r \<in> set records" "or_kind r = KUpsert" "or_token r = Some (Tok 1)" by (rule live_run_3)
  obtain s ds where s: "run_event live_env live_step = Inr s" "st = ReducerState.truncate s" "records = frame_records s ds"
    "list_all (\<lambda>b. fst b = KDiagnostic) ds"
    unfolding live_step_def by (rule reduced_step [OF r(1)])
  have "upserts s (Tok 1)" using upserts_record [OF s(4), of s "Tok 1"] r(3-5) s(3) by blast
  moreover have "upsert_held s" by (rule run_event_evolves(1) [OF s(1)]) (simp add: live_step_def)
  ultimately obtain b where b: "map_of (rs_objects st) (Tok 1) = Some b" using s(2) by (auto simp: upserts_def upsert_held_def)
  have "map_of (rs_objects live_2) (Tok 1) = Some (new_object (asc ''n'') (asc ''c''))" by (simp add: live_2_def)
  from object_history [OF r(1) this b] r(3-5) have "ob_name b = asc ''n''" "ob_revision b = 1"
    by (auto simp: new_object_def)
  with r(1) b show ?thesis by blast
qed

theorem reducer_session_witness:
  "\<exists>st. rfold (reducer_step live_reader live_env) live_state [live_start, live_discover, live_reflect] = Inr st \<and>
     rs_cache st \<le> 67108864 \<and> rs_cache st = int (dsum cached_bytes (rs_objects st))"
proof -
  obtain st where "reducer_step live_reader live_env live_2 live_reflect = Inr st" by (rule live_run_3)
  then have run: "rfold (reducer_step live_reader live_env) live_state [live_start, live_discover, live_reflect] = Inr st"
    using live_run_1(2) live_run_2(2) by simp
  from reducer_session [OF live_schema(2,1) live_initial this] run show ?thesis by (simp add: V1_def)
qed

text \<open>The object's generation ends where it stands.\<close>

definition live_stop :: frame where "live_stop = live_frame 3 (GenerationEnd ''stop'')"

lemma live_admits_stop: "admitted live_reader live_2 live_stop"
  by (simp add: admitted_def schema_frame_def is_counter_def MAX_EXACT_INTEGER_def live_stop_def
      record_fault_def record_seq_def record_prev_def record_sha_def event_fault_def framing_fault_def
      live_max) (simp add: V1_def)

theorem generation_end_exact_witness:
  "\<exists>st. reduce_admitted live_env live_2 (FrameRecord live_stop) = Inr (st, []) \<and> rs_objects st = [] \<and> distinct_tokens st = 1"
proof -
  have "frame_event live_stop = GenerationEnd ''stop''" by (simp add: live_stop_def)
  from generation_end_exact [OF live_run_2(1) live_admits_stop this] show ?thesis
    by (auto simp: live_2_def live_1_def live_state_def new_object_def distinct_tokens_def)
qed

definition live_stranger :: frame where
  "live_stranger = live_frame 3 (Reflect (Tok 2) live_attributes live_delivery False)"

theorem refused_reflection_atomic_witness:
  "\<exists>st records. reduce_admitted live_env live_2 (FrameRecord live_stranger) = Inr (st, records) \<and>
     rs_objects st = rs_objects live_2 \<and> map or_kind records = [KDiagnostic]"
proof -
  have ev: "frame_event live_stranger = Reflect (Tok 2) live_attributes live_delivery False" by (simp add: live_stranger_def)
  have "admitted live_reader live_2 live_stranger"
    using live_admits_3
    by (simp add: admitted_def schema_frame_def live_stranger_def live_reflect_def record_fault_def Let_def
        record_seq_def record_prev_def record_sha_def event_fault_def framing_fault_def split: if_splits option.splits)
  then obtain st records where r: "reduce_admitted live_env live_2 (FrameRecord live_stranger) = Inr (st, records)"
    using admitted_step [OF live_run_2(1)] live_answers by (metis live_configs(3))
  have "reflection_refused live_2 (Tok 2) live_attributes False" by (simp add: reflection_refused_def live_2_def)
  from refused_reflection_atomic [OF r ev this] r show ?thesis by auto
qed

text \<open>The second line of the written sample session, judged once and twice.\<close>

definition twice_env :: reducer_env where
  "twice_env = \<lparr>rd_capture = sample_env, rd_projector = axis_env\<rparr>"

definition twice_state :: ReducerState where
  "twice_state = live_state \<lparr>rs_rules := (sample_rules 1) \<lparr>elapsed_may_decrease := True\<rparr>\<rparr>"

theorem reduce_admitted_is_reduce_frame_witness:
  "reduce_frame twice_env twice_state (VRecord (FrameRecord sample_start)) =
     reduce_admitted twice_env twice_state (FrameRecord sample_start)"
proof (rule reduce_admitted_is_reduce_frame)
  show "check_record (reading_env.truncate (rd_capture twice_env)) (sample_rules 1) (lines (sample_rules 1) + 1) [1] =
      Inr (sample_rules 2, FrameRecord sample_start)"
    using sample_check_2 sample_rules_lines(1)
    by (auto simp: check_def twice_env_def simp del: One_nat_def split: sum.splits)
qed (simp_all add: twice_state_def twice_env_def sample_rules_lines del: One_nat_def)

end
