(* ===== verification/Link16_Contract.thy ===== *)
theory Link16_Contract
  imports Hla_Time
begin

text \<open>
  The Link 16 bridge's view of the gateway API: JSON values as the strict reader hands them
  over, the hand-written validators of \<^verbatim>\<open>packages/link16_bridge/synapse_link16_bridge/contract.py\<close>,
  the contract's instants (\<^verbatim>\<open>adapters/link16_gateway.py\<close>, \<^verbatim>\<open>clock.py\<close>) and the batch parser of
  \<^verbatim>\<open>jsonstrict.py\<close>. The text-level JSON decoder, UTF-8, the canonical writer and SHA-256 are the
  parameters of \<open>json_env\<close>.
\<close>

declare asc_simps(2) [simp del]

lemma asc_eq_iff [simp]: "asc a = asc b \<longleftrightarrow> a = b"
  unfolding asc_def by (rule inj_map_eq_map) (rule inj_onI, simp)

section \<open>JSON values\<close>

text \<open>
  A decoded value. \<open>JFault\<close> is the reader's \<open>_Fault\<close>, a defect kept in the tree in place of
  the value it spoiled, with its rule and detail. The API's bodies hold integers only as counts,
  so a float is kept as its 64 bits and never computed with.
\<close>

datatype json =
    JNull
  | JBool bool
  | JInt int
  | JFloat "64 word"
  | JStr pytext
  | JArr "json list"
  | JObj "(pytext, json) dict"
  | JFault string json

type_synonym jobject = "(pytext, json) dict"

definition jget :: "jobject \<Rightarrow> string \<Rightarrow> json option" where
  "jget doc key = map_of doc (asc key)"

definition jstr :: "json option \<Rightarrow> pytext option" where
  "jstr v = (case v of Some (JStr t) \<Rightarrow> Some t | _ \<Rightarrow> None)"

definition jbool :: "json option \<Rightarrow> bool option" where
  "jbool v = (case v of Some (JBool b) \<Rightarrow> Some b | _ \<Rightarrow> None)"

definition jobj :: "json option \<Rightarrow> jobject option" where
  "jobj v = (case v of Some (JObj d) \<Rightarrow> Some d | _ \<Rightarrow> None)"

lemma jstr_eq_Some [simp]: "jstr v = Some t \<longleftrightarrow> v = Some (JStr t)"
  by (auto simp: jstr_def split: option.splits json.splits)

lemma jbool_eq_Some [simp]: "jbool v = Some b \<longleftrightarrow> v = Some (JBool b)"
  by (auto simp: jbool_def split: option.splits json.splits)

lemma jobj_eq_Some [simp]: "jobj v = Some d \<longleftrightarrow> v = Some (JObj d)"
  by (auto simp: jobj_def split: option.splits json.splits)

section \<open>Refusals and patterns\<close>

datatype contract_error = ContractError (ce_code: string) (ce_path: string) (ce_rule: string)

definition fail_at :: "string \<Rightarrow> string \<Rightarrow> contract_error" where
  "fail_at path rule = ContractError ''SCHEMA_INVALID'' path rule"

definition UINT64_MAX :: nat where "UINT64_MAX = 2 ^ 64 - 1"

definition OPERATIONS :: "string list" where
  "OPERATIONS = [''DROP_SOURCE'', ''REKEY'', ''GAP'', ''RESET_SCOPE'']"

definition TRANSMISSION_STATES :: "string list" where
  "TRANSMISSION_STATES = [''REJECTED'', ''ACCEPTED'', ''ENCODED'', ''SENT'', ''DELIVERY_CONFIRMED'',
     ''EXPIRED'', ''FAILED'', ''UNKNOWN'']"

definition IDENTITY_KEYS :: "string list" where
  "IDENTITY_KEYS =
     [''tenant'', ''realm'', ''synthetic'', ''origin_scope'', ''track_number'', ''incarnation'']"

definition NOTICE_KEYS :: "string list" where
  "NOTICE_KEYS = [''record_id'', ''session_id'', ''sequence'', ''received_at'', ''effective_at'',
     ''tenant'', ''realm'', ''synthetic'', ''origin_scope'', ''security_context'', ''track_number'',
     ''incarnation'', ''operation'', ''reason'']"

definition PROFILE_TEXT :: string where "PROFILE_TEXT = ''sc-link16-gateway/1.0.0''"

text \<open>The three patterns, as \<open>re.fullmatch\<close> with ASCII classes applies them.\<close>

definition is_alnum :: "nat \<Rightarrow> bool" where
  "is_alnum c \<longleftrightarrow> is_digit c \<or> (65 \<le> c \<and> c \<le> 90) \<or> (97 \<le> c \<and> c \<le> 122)"

definition IDENTIFIER :: "pytext \<Rightarrow> bool" where
  "IDENTIFIER t \<longleftrightarrow>
     (case t of [] \<Rightarrow> False
      | c # rest \<Rightarrow> is_alnum c \<and> length rest \<le> 127 \<and>
          list_all (\<lambda>d. is_alnum d \<or> d \<in> set (asc ''_.:-'')) rest)"

definition is_hex :: "nat \<Rightarrow> bool" where
  "is_hex c \<longleftrightarrow> is_digit c \<or> (97 \<le> c \<and> c \<le> 102)"

definition uuid_form :: "pytext \<Rightarrow> bool" where
  "uuid_form t \<longleftrightarrow> length t = 36 \<and>
     (\<forall>i \<in> {0..<36}. if i \<in> {8, 13, 18, 23} then t ! i = 45 else is_hex (t ! i))"

definition DECIMAL :: "pytext \<Rightarrow> bool" where
  "DECIMAL t \<longleftrightarrow>
     t = asc ''0'' \<or>
     (case t of [] \<Rightarrow> False
      | c # rest \<Rightarrow> 49 \<le> c \<and> c \<le> 57 \<and> length rest \<le> 19 \<and> list_all is_digit rest)"

section \<open>Instants\<close>

text \<open>
  \<open>instant\<close> reads a contract timestamp on a strict calendar: the years a \<open>datetime\<close> holds
  (1 to 9999), no second 60, no hour 24. The value is the UTC datetime as microseconds since
  1970. \<open>ms\<close> and \<open>parse_ms\<close> are the store's integer milliseconds.
\<close>

datatype refusal = Refusal (rf_code: string) (rf_path: string) (rf_rule: string)

definition instant :: "json \<Rightarrow> string \<Rightarrow> refusal + int" where
  "instant v path =
     (case v of
        JStr t \<Rightarrow>
          (case match_form FORM_MILLISECOND t of
             Some [g1, g2, g3, g4, g5, g6, g7] \<Rightarrow>
               (let y = int (undec g1); mo = int (undec g2); d = int (undec g3); h = int (undec g4);
                    mi = int (undec g5); s = int (undec g6); f = int (undec g7) in
                case days_in_month y mo of
                  None \<Rightarrow> Inl (Refusal ''TIME_UNRESOLVED'' path ''not a calendar instant'')
                | Some dim \<Rightarrow>
                    if 1 \<le> y \<and> 1 \<le> mo \<and> mo \<le> 12 \<and> 1 \<le> d \<and> d \<le> dim \<and> h \<le> 23 \<and> mi \<le> 59 \<and> s \<le> 59
                    then Inr ((days_from_civil y mo d * SECONDS_PER_DAY + h * 3600 + mi * 60 + s)
                                * MICROSECONDS_PER_SECOND + f * 1000)
                    else Inl (Refusal ''TIME_UNRESOLVED'' path ''not a calendar instant''))
           | _ \<Rightarrow> Inl (Refusal ''TIME_UNRESOLVED'' path ''not YYYY-MM-DDTHH:mm:ss.sssZ''))
      | _ \<Rightarrow> Inl (Refusal ''TIME_UNRESOLVED'' path ''not YYYY-MM-DDTHH:mm:ss.sssZ''))"

definition ms :: "int \<Rightarrow> int" where
  "ms stamp =
     (let days = stamp div 86400000000; within = stamp mod 86400000000
      in (days * 86400 + within div 1000000) * 1000 + within mod 1000000 div 1000)"

definition parse_ms :: "json \<Rightarrow> string \<Rightarrow> refusal + int" where
  "parse_ms v path = rbind (instant v path) (\<lambda>stamp. Inr (ms stamp))"

lemma div_1000_split: "((a :: int) * (k * 1000) + b) div 1000 = a * k + b div 1000"
proof -
  have "(a * (k * 1000) + b) div 1000 = (b + (a * k) * 1000) div 1000"
    by (simp only: mult.assoc add.commute)
  then show ?thesis by (simp only: div_mult_self1 [of 1000 b "a * k"])
qed

lemma ms_eq_div: "ms stamp = stamp div 1000"
proof -
  define w where "w = stamp mod 86400000000"
  have "stamp div 86400000000 * 86400000000 + w = stamp" unfolding w_def by simp
  then have "stamp div 1000 = stamp div 86400000000 * 86400000 + w div 1000"
    using div_1000_split [of "stamp div 86400000000" 86400000 w] by simp
  moreover have "w div 1000000 * 1000000 + w mod 1000000 = w" by simp
  then have "w div 1000 = w div 1000000 * 1000 + w mod 1000000 div 1000"
    using div_1000_split [of "w div 1000000" 1000 "w mod 1000000"] by simp
  ultimately show ?thesis unfolding ms_def Let_def w_def [symmetric] by simp
qed

section \<open>Validators\<close>

text \<open>Each validator returns the value it was given or raises; \<open>v\<close> is a value that is present.\<close>

definition object_at :: "json \<Rightarrow> string \<Rightarrow> string list \<Rightarrow> string list \<Rightarrow> contract_error + jobject" where
  "object_at doc path required optional =
     (case doc of
        JObj d \<Rightarrow>
          (case find (\<lambda>k. jget d k = None) required of
             Some k \<Rightarrow> Inl (fail_at (if path = '''' then k else path @ ''.'' @ k) ''required'')
           | None \<Rightarrow>
               if list_all (\<lambda>(k, _). k \<in> asc ` set (required @ optional)) d then Inr d
               else Inl (fail_at path ''a key the schema does not define''))
      | _ \<Rightarrow> Inl (fail_at path ''a JSON object''))"

definition text_at :: "json \<Rightarrow> string \<Rightarrow> nat \<Rightarrow> nat \<Rightarrow> contract_error + pytext" where
  "text_at v path low high =
     (case v of
        JStr t \<Rightarrow> if length t < low \<or> high < length t then Inl (fail_at path ''string length'') else Inr t
      | _ \<Rightarrow> Inl (fail_at path ''type string''))"

definition identifier_at :: "json \<Rightarrow> string \<Rightarrow> contract_error + pytext" where
  "identifier_at v path =
     (case v of JStr t \<Rightarrow> if IDENTIFIER t then Inr t else Inl (fail_at path ''identifier pattern'')
      | _ \<Rightarrow> Inl (fail_at path ''identifier pattern''))"

definition uuid_text :: "json \<Rightarrow> string \<Rightarrow> contract_error + pytext" where
  "uuid_text v path =
     (case v of JStr t \<Rightarrow> if uuid_form t then Inr t else Inl (fail_at path ''canonical lowercase UUID'')
      | _ \<Rightarrow> Inl (fail_at path ''canonical lowercase UUID''))"

definition decimal_u64 :: "json \<Rightarrow> string \<Rightarrow> contract_error + pytext" where
  "decimal_u64 v path =
     (case v of
        JStr t \<Rightarrow> if DECIMAL t \<and> undec t \<le> UINT64_MAX then Inr t
                 else Inl (fail_at path ''decimal uint64 without leading zeroes'')
      | _ \<Rightarrow> Inl (fail_at path ''decimal uint64 without leading zeroes''))"

definition timestamp :: "json \<Rightarrow> string \<Rightarrow> string \<Rightarrow> contract_error + pytext" where
  "timestamp v path code =
     (case v of
        JStr t \<Rightarrow>
          (case instant v path of
             Inl _ \<Rightarrow> Inl (ContractError code path ''YYYY-MM-DDTHH:mm:ss.sssZ on a strict calendar'')
           | Inr _ \<Rightarrow> Inr t)
      | _ \<Rightarrow> Inl (fail_at path ''type string''))"

definition boolean_at :: "json \<Rightarrow> string \<Rightarrow> contract_error + bool" where
  "boolean_at v path = (case v of JBool b \<Rightarrow> Inr b | _ \<Rightarrow> Inl (fail_at path ''type boolean''))"

definition integer_at :: "json \<Rightarrow> string \<Rightarrow> int \<Rightarrow> int option \<Rightarrow> contract_error + int" where
  "integer_at v path low high =
     (case v of
        JInt n \<Rightarrow> if n < low \<or> (case high of None \<Rightarrow> False | Some h \<Rightarrow> h < n) then Inl (fail_at path ''integer in range'')
                 else Inr n
      | _ \<Rightarrow> Inl (fail_at path ''integer in range''))"

definition index_text :: "nat \<Rightarrow> string" where
  "index_text n = map char_of (dec n)"

fun texts_from :: "nat \<Rightarrow> json list \<Rightarrow> string \<Rightarrow> nat \<Rightarrow> nat \<Rightarrow> contract_error + pytext list" where
  "texts_from i [] path low high = Inr []"
| "texts_from i (v # vs) path low high =
     rbind (text_at v (path @ ''['' @ index_text i @ '']'') low high) (\<lambda>t.
     rbind (texts_from (Suc i) vs path low high) (\<lambda>ts. Inr (t # ts)))"

definition strings_at :: "json \<Rightarrow> string \<Rightarrow> nat \<Rightarrow> nat \<Rightarrow> nat \<Rightarrow> contract_error + pytext list" where
  "strings_at v path low high most =
     (case v of
        JArr vs \<Rightarrow> if most < length vs then Inl (fail_at path ''array of bounded length'')
                  else texts_from 0 vs path low high
      | _ \<Rightarrow> Inl (fail_at path ''array of bounded length''))"

text \<open>\<open>doc[k]\<close> of a key \<open>_object\<close> has required.\<close>

definition the_key :: "jobject \<Rightarrow> string \<Rightarrow> json" where
  "the_key d k = (case jget d k of Some v \<Rightarrow> v | None \<Rightarrow> JNull)"

record capabilities =
  cap_gateway_id :: pytext
  cap_native_profiles :: "pytext list"
  cap_receive_families :: "pytext list"
  cap_transmit_families :: "pytext list"
  cap_max_batch :: int
  cap_replay_window_seconds :: int

definition validate_capabilities :: "json \<Rightarrow> contract_error + capabilities" where
  "validate_capabilities doc =
     rbind (object_at doc '''' [''profile'', ''gateway_id'', ''native_profiles'', ''receive_families'',
              ''transmit_families'', ''max_batch'', ''replay_window_seconds''] []) (\<lambda>d.
     if the_key d ''profile'' \<noteq> JStr (asc PROFILE_TEXT) then Inl (fail_at ''profile'' ''const'') else
     rbind (identifier_at (the_key d ''gateway_id'') ''gateway_id'') (\<lambda>g.
     rbind (strings_at (the_key d ''native_profiles'') ''native_profiles'' 1 128 64) (\<lambda>np.
     rbind (strings_at (the_key d ''receive_families'') ''receive_families'' 1 32 256) (\<lambda>rf.
     rbind (strings_at (the_key d ''transmit_families'') ''transmit_families'' 1 32 256) (\<lambda>tf.
     rbind (integer_at (the_key d ''max_batch'') ''max_batch'' 1 (Some 1000)) (\<lambda>mb.
     rbind (integer_at (the_key d ''replay_window_seconds'') ''replay_window_seconds'' 0 None) (\<lambda>rw.
     Inr \<lparr>cap_gateway_id = g, cap_native_profiles = np, cap_receive_families = rf,
          cap_transmit_families = tf, cap_max_batch = mb, cap_replay_window_seconds = rw\<rparr>)))))))"

definition validate_ack :: "json \<Rightarrow> contract_error + jobject" where
  "validate_ack doc =
     rbind (object_at doc '''' [''consumer_id'', ''cursor''] []) (\<lambda>d.
     rbind (identifier_at (the_key d ''consumer_id'') ''consumer_id'') (\<lambda>_.
     rbind (text_at (the_key d ''cursor'') ''cursor'' 1 512) (\<lambda>_. Inr d)))"

definition validate_transmission :: "json \<Rightarrow> contract_error + jobject" where
  "validate_transmission doc =
     rbind (object_at doc '''' [''request_id'', ''peer_id'', ''expires_at'', ''policy_revision'', ''report'']
              []) (\<lambda>d.
     rbind (uuid_text (the_key d ''request_id'') ''request_id'') (\<lambda>_.
     rbind (identifier_at (the_key d ''peer_id'') ''peer_id'') (\<lambda>_.
     rbind (timestamp (the_key d ''expires_at'') ''expires_at'' ''SCHEMA_INVALID'') (\<lambda>_.
     rbind (text_at (the_key d ''policy_revision'') ''policy_revision'' 1 128) (\<lambda>_.
     case the_key d ''report'' of JObj _ \<Rightarrow> Inr d | _ \<Rightarrow> Inl (fail_at ''report'' ''a JSON object''))))))"

definition validate_status :: "json \<Rightarrow> contract_error + jobject" where
  "validate_status doc =
     rbind (object_at doc '''' [''request_id'', ''state'', ''reason'', ''changed_at''] []) (\<lambda>d.
     rbind (uuid_text (the_key d ''request_id'') ''request_id'') (\<lambda>_.
     if the_key d ''state'' \<notin> (JStr \<circ> asc) ` set TRANSMISSION_STATES then Inl (fail_at ''state'' ''enum'') else
     rbind (if the_key d ''reason'' = JNull then Inr [] else text_at (the_key d ''reason'') ''reason'' 1 1024)
       (\<lambda>_.
     rbind (timestamp (the_key d ''changed_at'') ''changed_at'' ''SCHEMA_INVALID'') (\<lambda>_. Inr d))))"

definition validate_health :: "json \<Rightarrow> contract_error + jobject" where
  "validate_health doc =
     rbind (object_at doc '''' [''ready'', ''provider_ready'', ''blocked_reasons'', ''queue_depth'',
              ''oldest_unacked_ms''] []) (\<lambda>d.
     rbind (boolean_at (the_key d ''ready'') ''ready'') (\<lambda>_.
     rbind (boolean_at (the_key d ''provider_ready'') ''provider_ready'') (\<lambda>_.
     rbind (strings_at (the_key d ''blocked_reasons'') ''blocked_reasons'' 1 128 128) (\<lambda>_.
     rbind (integer_at (the_key d ''queue_depth'') ''queue_depth'' 0 None) (\<lambda>_.
     rbind (if the_key d ''oldest_unacked_ms'' = JNull then Inr 0
            else integer_at (the_key d ''oldest_unacked_ms'') ''oldest_unacked_ms'' 0 None) (\<lambda>_.
     Inr d))))))"

definition validate_error :: "json \<Rightarrow> contract_error + jobject" where
  "validate_error doc =
     rbind (object_at doc '''' [''code'', ''message'', ''correlation_id'', ''retryable'']
              [''earliest_cursor'']) (\<lambda>d.
     rbind (text_at (the_key d ''code'') ''code'' 1 128) (\<lambda>_.
     rbind (text_at (the_key d ''message'') ''message'' 1 1024) (\<lambda>_.
     rbind (uuid_text (the_key d ''correlation_id'') ''correlation_id'') (\<lambda>_.
     rbind (boolean_at (the_key d ''retryable'') ''retryable'') (\<lambda>_.
     case jget d ''earliest_cursor'' of None \<Rightarrow> Inr d
     | Some v \<Rightarrow> rbind (text_at v ''earliest_cursor'' 1 512) (\<lambda>_. Inr d))))))"

definition identity_object :: "json \<Rightarrow> string \<Rightarrow> contract_error + jobject" where
  "identity_object v path =
     rbind (object_at v path IDENTITY_KEYS []) (\<lambda>d.
     rbind (identifier_at (the_key d ''tenant'') (path @ ''.tenant'')) (\<lambda>_.
     rbind (identifier_at (the_key d ''realm'') (path @ ''.realm'')) (\<lambda>_.
     rbind (identifier_at (the_key d ''origin_scope'') (path @ ''.origin_scope'')) (\<lambda>_.
     rbind (boolean_at (the_key d ''synthetic'') (path @ ''.synthetic'')) (\<lambda>_.
     rbind (text_at (the_key d ''track_number'') (path @ ''.track_number'') 1 64) (\<lambda>_.
     rbind (decimal_u64 (the_key d ''incarnation'') (path @ ''.incarnation'')) (\<lambda>_. Inr d)))))))"

definition rekey_rule :: "jobject \<Rightarrow> contract_error + unit" where
  "rekey_rule d =
     (case jget d ''old_identity'' of
        None \<Rightarrow> Inl (fail_at ''old_identity'' ''required for REKEY'')
      | Some old \<Rightarrow> rbind (identity_object old ''old_identity'') (\<lambda>_.
          case jget d ''new_identity'' of
            None \<Rightarrow> Inl (fail_at ''new_identity'' ''required for REKEY'')
          | Some new \<Rightarrow> rbind (identity_object new ''new_identity'') (\<lambda>_. Inr ())))"

definition operation_rule :: "jobject \<Rightarrow> string \<Rightarrow> contract_error + unit" where
  "operation_rule d op =
     (if op = ''REKEY'' then rekey_rule d
      else if jget d ''old_identity'' \<noteq> None
      then Inl (fail_at ''old_identity'' ''only REKEY carries identity objects'')
      else if jget d ''new_identity'' \<noteq> None
      then Inl (fail_at ''new_identity'' ''only REKEY carries identity objects'')
      else Inr ())"

definition track_rule :: "jobject \<Rightarrow> string \<Rightarrow> contract_error + unit" where
  "track_rule d op =
     (if op \<in> {''GAP'', ''RESET_SCOPE''} then
        (if the_key d ''track_number'' \<noteq> JNull
         then Inl (fail_at ''track_number'' ''null for a channel-scoped notice'')
         else if the_key d ''incarnation'' \<noteq> JNull
         then Inl (fail_at ''incarnation'' ''null for a channel-scoped notice'')
         else Inr ())
      else rbind (text_at (the_key d ''track_number'') ''track_number'' 1 64) (\<lambda>_.
           rbind (decimal_u64 (the_key d ''incarnation'') ''incarnation'') (\<lambda>_. Inr ())))"

text \<open>The operation a validated notice names, as its index in \<open>OPERATIONS\<close>.\<close>

definition operation_of :: "json \<Rightarrow> string option" where
  "operation_of v = find (\<lambda>op. v = JStr (asc op)) OPERATIONS"

definition validate_notice :: "jobject \<Rightarrow> contract_error + jobject" where
  "validate_notice doc =
     rbind (object_at (JObj doc) '''' NOTICE_KEYS [''old_identity'', ''new_identity'']) (\<lambda>d.
     rbind (uuid_text (the_key d ''record_id'') ''record_id'') (\<lambda>_.
     rbind (uuid_text (the_key d ''session_id'') ''session_id'') (\<lambda>_.
     rbind (decimal_u64 (the_key d ''sequence'') ''sequence'') (\<lambda>_.
     rbind (identifier_at (the_key d ''tenant'') ''tenant'') (\<lambda>_.
     rbind (identifier_at (the_key d ''realm'') ''realm'') (\<lambda>_.
     rbind (identifier_at (the_key d ''origin_scope'') ''origin_scope'') (\<lambda>_.
     rbind (identifier_at (the_key d ''security_context'') ''security_context'') (\<lambda>_.
     rbind (boolean_at (the_key d ''synthetic'') ''synthetic'') (\<lambda>_.
     case operation_of (the_key d ''operation'') of
       None \<Rightarrow> Inl (fail_at ''operation'' ''enum'')
     | Some op \<Rightarrow>
         rbind (text_at (the_key d ''reason'') ''reason'' 1 1024) (\<lambda>_.
         rbind (operation_rule d op) (\<lambda>_.
         rbind (track_rule d op) (\<lambda>_.
         rbind (timestamp (the_key d ''received_at'') ''received_at'' ''TIME_UNRESOLVED'') (\<lambda>_.
         rbind (timestamp (the_key d ''effective_at'') ''effective_at'' ''TIME_UNRESOLVED'') (\<lambda>_.
         Inr d))))))))))))))"

end
