(* ===== verification/Link16_Batch.thy ===== *)
theory Link16_Batch
  imports Link16_Contract
begin

text \<open>
  The strict reader of \<^verbatim>\<open>jsonstrict.py\<close> above the JSON grammar: the octet bounds, the first
  defect of a decoded tree, and the parser of one batch into records that are judged one by one.
\<close>

definition MAX_BODY_BYTES :: nat where "MAX_BODY_BYTES = 8 * 1024 * 1024"
definition BATCH_DEPTH :: nat where "BATCH_DEPTH = 67"
definition BODY_DEPTH :: nat where "BODY_DEPTH = 32"
definition MAX_RECORDS :: nat where "MAX_RECORDS = 1000"

text \<open>
  What the reader takes from the standard library and \<^verbatim>\<open>synapse_cdm\<close>: the UTF-8 decoder, the
  nesting depth read off the characters, \<open>json.loads\<close> with the reader's hooks (so that a spoiled
  value is a \<open>JFault\<close>), the canonical encoding, SHA-256 in hexadecimal and the marker encoding
  of a faulty body.
\<close>

record json_env =
  je_utf8 :: "bytes \<Rightarrow> pytext option"
  je_depth :: "pytext \<Rightarrow> nat"
  je_loads :: "pytext \<Rightarrow> json option"
  je_canonical :: "json \<Rightarrow> bytes"
  je_sha256 :: "bytes \<Rightarrow> pytext"
  je_fault_bytes :: "json \<Rightarrow> bytes"

definition scalar_ok :: "pytext \<Rightarrow> bool" where
  "scalar_ok t \<longleftrightarrow> \<not> list_ex (\<lambda>c. 0xD800 \<le> c \<and> c \<le> 0xDFFF) t"

text \<open>The walk over the tree: \<open>pending\<close> is a stack, its top first.\<close>

lemma size_list_rev [simp]: "size_list f (rev xs) = size_list f xs"
  by (induction xs) auto

lemma size_list_append_json [simp]: "size_list f (xs @ ys) = size_list f xs + size_list f ys"
  by (induction xs) auto

lemma size_list_values:
  "size_list size (map snd d) \<le> size_list (size_prod g (size :: json \<Rightarrow> nat)) d"
  by (induction d) auto

function first_fault :: "json list \<Rightarrow> string option" where
  "first_fault [] = None"
| "first_fault (JFault rule detail # rest) = Some rule"
| "first_fault (JObj d # rest) =
     (if list_all (\<lambda>(k, _). scalar_ok k) d then first_fault (rev (map snd d) @ rest)
      else Some ''lone surrogate'')"
| "first_fault (JArr vs # rest) = first_fault (rev vs @ rest)"
| "first_fault (JStr t # rest) = (if scalar_ok t then first_fault rest else Some ''lone surrogate'')"
| "first_fault (JNull # rest) = first_fault rest"
| "first_fault (JBool b # rest) = first_fault rest"
| "first_fault (JInt n # rest) = first_fault rest"
| "first_fault (JFloat w # rest) = first_fault rest"
  by pat_completeness auto

termination
proof (relation "measure (size_list size)")
  fix d :: jobject and rest :: "json list"
  have "size_list size (map snd d) \<le> size_list (size_prod (\<lambda>k. 0) size) d"
    by (rule size_list_values)
  then show "(rev (map snd d) @ rest, JObj d # rest) \<in> measure (size_list size)"
    by (auto intro: le_less_trans)
qed auto

section \<open>Bodies\<close>

definition decode_body :: "json_env \<Rightarrow> bytes \<Rightarrow> nat \<Rightarrow> contract_error + json" where
  "decode_body je octets depth =
     (if MAX_BODY_BYTES < length octets then Inl (ContractError ''LIMIT_EXCEEDED'' '''' ''body above 8 MiB'')
      else if take 3 octets = [0xEF, 0xBB, 0xBF]
      then Inl (ContractError ''JSON_INVALID'' '''' ''byte order mark'')
      else case je_utf8 je octets of
        None \<Rightarrow> Inl (ContractError ''JSON_INVALID'' '''' ''not UTF-8'')
      | Some t \<Rightarrow>
          if depth < je_depth je t
          then Inl (ContractError ''LIMIT_EXCEEDED'' '''' (''nesting above '' @ index_text depth))
          else case je_loads je t of
            None \<Rightarrow> Inl (ContractError ''JSON_INVALID'' '''' ''not a JSON text'')
          | Some v \<Rightarrow> Inr v)"

definition loads_strict :: "json_env \<Rightarrow> bytes \<Rightarrow> nat \<Rightarrow> contract_error + json" where
  "loads_strict je octets depth =
     rbind (decode_body je octets depth) (\<lambda>document.
       case first_fault [document] of
         Some rule \<Rightarrow> Inl (ContractError ''JSON_INVALID'' '''' rule)
       | None \<Rightarrow> Inr document)"

section \<open>One batch\<close>

record raw_record =
  rr_index :: nat
  rr_kind :: string
  rr_body :: "jobject option"
  rr_fault :: "string option"
  rr_digest :: pytext
  rr_record_id :: "pytext option"

record batch =
  bt_session_id :: pytext
  bt_next_cursor :: pytext
  bt_has_more :: bool
  bt_records :: "raw_record list"
  bt_sha256 :: pytext
  bt_size :: nat

definition ENVELOPE_KEYS :: "string list" where
  "ENVELOPE_KEYS = [''session_id'', ''records'', ''next_cursor'', ''has_more'']"

definition record_fields :: "json \<Rightarrow> string \<Rightarrow> contract_error + json \<times> json" where
  "record_fields item path =
     (case item of
        JObj d \<Rightarrow>
          if sort (map fst d) = [asc ''body'', asc ''kind''] then Inr (the_key d ''kind'', the_key d ''body'')
          else Inl (fail_at path ''a record is exactly kind and body'')
      | _ \<Rightarrow> Inl (fail_at path ''a record is exactly kind and body''))"

definition sound_record :: "json_env \<Rightarrow> nat \<Rightarrow> string \<Rightarrow> jobject \<Rightarrow> raw_record" where
  "sound_record je index kind d =
     \<lparr>rr_index = index, rr_kind = kind, rr_body = Some d, rr_fault = None,
      rr_digest = je_sha256 je (je_canonical je (JObj d)),
      rr_record_id = (case jstr (jget d ''record_id'') of
        Some t \<Rightarrow> if length t \<le> 128 then Some t else None | None \<Rightarrow> None)\<rparr>"

definition faulty_record :: "json_env \<Rightarrow> nat \<Rightarrow> string \<Rightarrow> json \<Rightarrow> string \<Rightarrow> raw_record" where
  "faulty_record je index kind body rule =
     \<lparr>rr_index = index, rr_kind = kind, rr_body = None, rr_fault = Some rule,
      rr_digest = je_sha256 je (je_fault_bytes je body), rr_record_id = None\<rparr>"

definition judged_body ::
    "json_env \<Rightarrow> pytext \<Rightarrow> string \<Rightarrow> nat \<Rightarrow> string \<Rightarrow> json \<Rightarrow> contract_error + raw_record" where
  "judged_body je session path index k body =
     (case body of
        JObj d \<Rightarrow>
          (case first_fault [body] of
             Some rule \<Rightarrow> Inr (faulty_record je index k body rule)
           | None \<Rightarrow>
               if jstr (jget d ''session_id'') \<notin> {None, Some session}
               then Inl (fail_at (path @ ''.body.session_id'')
                           ''a record of another session inside this batch'')
               else Inr (sound_record je index k d))
      | JFault rule (JArr _) \<Rightarrow> Inr (faulty_record je index k body rule)
      | _ \<Rightarrow> Inl (fail_at (path @ ''.body'') ''a JSON object''))"

definition raw_record_of :: "json_env \<Rightarrow> pytext \<Rightarrow> nat \<Rightarrow> json \<Rightarrow> contract_error + raw_record" where
  "raw_record_of je session index item =
     (let path = ''records['' @ index_text index @ '']'' in
      rbind (record_fields item path) (\<lambda>(kind, body).
      case find (\<lambda>k. kind = JStr (asc k)) [''report'', ''notice''] of
        None \<Rightarrow> Inl (fail_at (path @ ''.kind'') ''report or notice'')
      | Some k \<Rightarrow> judged_body je session path index k body))"

fun raw_records :: "json_env \<Rightarrow> pytext \<Rightarrow> nat \<Rightarrow> json list \<Rightarrow> contract_error + raw_record list" where
  "raw_records je session i [] = Inr []"
| "raw_records je session i (item # items) =
     rbind (raw_record_of je session i item) (\<lambda>r.
     rbind (raw_records je session (Suc i) items) (\<lambda>rs. Inr (r # rs)))"

definition envelope_records :: "json_env \<Rightarrow> bytes \<Rightarrow> jobject \<Rightarrow> contract_error + batch" where
  "envelope_records je octets d =
     (case the_key d ''session_id'' of
        JStr session \<Rightarrow>
          if \<not> uuid_form session then Inl (fail_at ''session_id'' ''canonical lowercase UUID'') else
          (case the_key d ''next_cursor'' of
             JStr cursor \<Rightarrow>
               if \<not> (1 \<le> length cursor \<and> length cursor \<le> 512) \<or> \<not> scalar_ok cursor
               then Inl (fail_at ''next_cursor'' ''string of 1 to 512 characters'') else
               (case the_key d ''has_more'' of
                  JBool fetch_again \<Rightarrow>
                    (case the_key d ''records'' of
                       JArr items \<Rightarrow>
                         if MAX_RECORDS < length items
                         then Inl (ContractError ''LIMIT_EXCEEDED'' ''records'' ''more than 1000 records'')
                         else rbind (raw_records je session 0 items) (\<lambda>rs.
                           Inr \<lparr>bt_session_id = session, bt_next_cursor = cursor, bt_has_more = fetch_again,
                                bt_records = rs, bt_sha256 = je_sha256 je octets, bt_size = length octets\<rparr>)
                     | _ \<Rightarrow> Inl (fail_at ''records'' ''array''))
                | _ \<Rightarrow> Inl (fail_at ''has_more'' ''boolean''))
           | _ \<Rightarrow> Inl (fail_at ''next_cursor'' ''string of 1 to 512 characters''))
      | _ \<Rightarrow> Inl (fail_at ''session_id'' ''canonical lowercase UUID''))"

definition parse_batch :: "json_env \<Rightarrow> bytes \<Rightarrow> contract_error + batch" where
  "parse_batch je octets =
     rbind (decode_body je octets BATCH_DEPTH) (\<lambda>document.
       case document of
         JObj d \<Rightarrow>
           if sort (map fst d) = sort (map asc ENVELOPE_KEYS) then envelope_records je octets d
           else Inl (fail_at '''' ''batch keys are not exactly the API's'')
       | JFault _ _ \<Rightarrow> Inl (ContractError ''JSON_INVALID'' '''' ''the batch is not one JSON object'')
       | _ \<Rightarrow> Inl (fail_at '''' ''the batch is not one JSON object''))"

section \<open>What a parsed batch holds\<close>

lemma judged_body_cases:
  assumes "judged_body je session path i k body = Inr r"
  obtains (sound) d where "body = JObj d" "r = sound_record je i k d" "first_fault [JObj d] = None"
      "\<And>s. jget d ''session_id'' = Some (JStr s) \<Longrightarrow> s = session"
  | (faulty) rule where "r = faulty_record je i k body rule" "first_fault [body] = Some rule"
  using assms unfolding judged_body_def
  by (cases body) (auto simp del: first_fault.simps(3) split: option.splits json.splits if_splits)

lemma raw_record_of_cases:
  assumes "raw_record_of je session i item = Inr r"
  obtains k body where "judged_body je session (''records['' @ index_text i @ '']'') i k body = Inr r"
    and "k \<in> {''report'', ''notice''}"
proof -
  from assms obtain kind body k where
    "find (\<lambda>k. kind = JStr (asc k)) [''report'', ''notice''] = Some k"
    "judged_body je session (''records['' @ index_text i @ '']'') i k body = Inr r"
    unfolding raw_record_of_def Let_def by (auto simp: rbind_eq_Inr_iff split: option.splits)
  moreover from this(1) have "k \<in> {''report'', ''notice''}" by (auto split: if_splits)
  ultimately show thesis using that by blast
qed

lemma raw_records_nth:
  "raw_records je session i items = Inr rs \<Longrightarrow>
     length rs = length items \<and>
     (\<forall>k < length items. raw_record_of je session (i + k) (items ! k) = Inr (rs ! k))"
proof (induction items arbitrary: i rs)
  case (Cons item items)
  from Cons.prems obtain r rs' where r: "raw_record_of je session i item = Inr r"
    "raw_records je session (Suc i) items = Inr rs'" "rs = r # rs'"
    by (auto simp: rbind_eq_Inr_iff)
  from Cons.IH [OF r(2)] r show ?case
    by (auto simp: less_Suc_eq_0_disj nth_Cons')
qed simp

end
