(* ===== verification/Link16_Store.thy ===== *)
theory Link16_Store
  imports Link16_Batch "HOL-Library.Product_Lexorder"
begin

text \<open>
  The bridge's durable store, \<^verbatim>\<open>store.py\<close>: one SQLite file per channel. A table is the list of its
  rows in row-id order, or a dictionary where the code only ever reads it by its key; each
  \<open>SQL_\<close> constant of the source is the function its statement computes, with the placeholders as
  arguments. Instants are integer milliseconds.
\<close>

section \<open>Rows\<close>

record lease_row =
  ls_holder :: pytext
  ls_fence :: int
  ls_expires_at :: int

record raw_row =
  rw_sha256 :: pytext
  rw_received_at :: int
  rw_cursor_before :: "pytext option"
  rw_bytes :: nat
  rw_body :: "bytes option"
  rw_fence :: int

record ingest_row =
  ig_key :: pytext
  ig_kind :: string
  ig_sha256 :: pytext
  ig_session :: "pytext option"
  ig_sequence :: "pytext option"
  ig_batch :: pytext
  ig_index :: nat
  ig_disposition :: string
  ig_code :: "string option"
  ig_identity :: "pytext option"
  ig_fence :: int
  ig_committed_at :: int

record identity_row =
  id_key :: pytext
  id_tenant :: pytext
  id_realm :: pytext
  id_synthetic :: bool
  id_scope :: pytext
  id_number :: pytext
  id_incarnation :: pytext
  id_entity :: pytext
  id_track :: pytext
  id_status :: string
  id_epoch :: int
  id_tombstone_at :: "int option"
  id_tombstone_record :: "pytext option"
  id_first_effective :: "int option"
  id_reuse_decision :: "string option"
  id_fence :: int
  id_reuse_scope :: "nat option"

record observation_row =
  hs_key :: pytext
  hs_record :: pytext
  hs_effective_at :: int
  hs_pos_at :: "int option"
  hs_kin_at :: "int option"
  hs_sha256 :: pytext
  hs_late :: bool
  hs_flag :: "string option"
  hs_conflict :: "nat option"
  hs_ingested_at :: int
  hs_fence :: int

record sample_row =
  sm_sha256 :: pytext
  sm_first_record :: pytext
  sm_refreshes :: nat

record current_row =
  cu_record :: pytext
  cu_effective_at :: int
  cu_sha256 :: pytext
  cu_pos_at :: "int option"
  cu_kin_at :: "int option"
  cu_domain :: pytext
  cu_contribution :: string
  cu_conflict :: "nat option"
  cu_freshness :: "string option"
  cu_motion :: "string option"
  cu_payload :: bytes
  cu_fence :: int

record conflict_row =
  cf_key :: pytext
  cf_effective_at :: int
  cf_established :: pytext
  cf_conflicting :: pytext

record relation_row =
  rl_old :: pytext
  rl_new :: pytext
  rl_notice :: pytext
  rl_effective_at :: int
  rl_reason :: pytext
  rl_fence :: int

record quarantine_row =
  qu_id :: nat
  qu_key :: pytext
  qu_kind :: string
  qu_code :: string
  qu_path :: "string option"
  qu_rule :: "string option"
  qu_identity :: "pytext option"
  qu_batch :: pytext
  qu_index :: nat
  qu_body :: "bytes option"
  qu_bytes :: nat
  qu_metadata_only :: bool
  qu_created_at :: int
  qu_resolved_at :: "int option"
  qu_resolution :: "string option"
  qu_fence :: int

record opaque_row =
  op_key :: pytext
  op_kind :: string
  op_code :: string
  op_batch :: pytext
  op_index :: nat
  op_body :: "bytes option"
  op_created_at :: int
  op_fence :: int

record outbox_row =
  ox_key :: pytext
  ox_kind :: string
  ox_payload :: bytes
  ox_schema :: "pytext option"
  ox_flags :: "string list"
  ox_bytes :: nat
  ox_created_at :: int
  ox_dispatched_at :: "int option"
  ox_fence :: int

datatype channel_state = NORMAL | INCOMPLETE | OVERLOADED | STOPPED | RESYNC_REQUIRED

record channel_row =
  ch_cursor :: "pytext option"
  ch_acked_cursor :: "pytext option"
  ch_session_id :: "pytext option"
  ch_state :: channel_state
  ch_reason :: "string option"
  ch_degraded :: bool
  ch_epoch :: int
  ch_earliest :: "pytext option"
  ch_stopped_revision :: "pytext option"
  ch_retry_sha :: "pytext option"
  ch_retry_count :: int
  ch_committed_any :: bool
  ch_gap_from :: "pytext option"
  ch_gap_to :: "pytext option"
  ch_incomplete :: "string option"
  ch_fence :: int

datatype job_state =
    PENDING | REVALIDATE | ACCEPTED | ENCODED | SENT | DELIVERY_CONFIRMED | UNKNOWN
  | REJECTED | EXPIRED | FAILED | DENIED

record job_row =
  jb_request :: pytext
  jb_body :: "bytes option"
  jb_body_sha256 :: "pytext option"
  jb_peer :: pytext
  jb_source :: "pytext option"
  jb_expires_at :: "int option"
  jb_policy :: "pytext option"
  jb_state :: job_state
  jb_reason :: "pytext option"
  jb_fence :: int
  jb_created_at :: int
  jb_changed_at :: int
  jb_attempts :: nat
  jb_in_flight :: bool
  jb_losses :: "json list"
  jb_digest :: pytext
  jb_entity :: "bytes option"
  jb_track :: "bytes option"

record allocation_row =
  al_identity :: jobject
  al_allocated_by :: pytext
  al_evidence :: pytext
  al_recorded_at :: int
  al_fence :: int

record audit_row =
  au_at :: int
  au_kind :: string
  au_subject :: "pytext option"
  au_code :: "string option"
  au_result :: "string option"
  au_raw_ref :: "pytext option"
  au_revision :: pytext
  au_fence :: int

record db =
  db_binding :: "pytext option"
  db_lease :: "lease_row option"
  db_raw :: "raw_row list"
  db_ingest :: "ingest_row list"
  db_session :: "(pytext, nat) dict"
  db_identity :: "identity_row list"
  db_observation :: "observation_row list"
  db_sample :: "(pytext \<times> int, sample_row) dict"
  db_sample_conflict :: "(pytext \<times> int \<times> pytext \<times> pytext) list"
  db_current :: "(pytext, current_row) dict"
  db_conflict :: "conflict_row list"
  db_relation :: "relation_row list"
  db_quarantine :: "quarantine_row list"
  db_opaque :: "opaque_row list"
  db_outbox :: "outbox_row list"
  db_channel :: channel_row
  db_allocation :: "(pytext \<times> pytext \<times> pytext, allocation_row) dict"
  db_jobs :: "job_row list"
  db_audit :: "audit_row list"
  db_counter :: "(string, int) dict"

section \<open>What a call may raise\<close>

datatype exn =
    LeaseLost
  | LeaseHeld
  | IntegrityError
  | OperationalError
  | SqliteOverflow
  | StoreBindingMismatch
  | StructuralRefusal contract_error pytext
  | ContractRefused contract_error
  | ChannelStop string string pytext
  | CapacityStop string
  | TimeRefused refusal
  | BodyKeyError string
  | OperatorRefusal string
  | SimulatedCrash string
  | ModelInvalid
  | PyTypeError
  | PyOverflowError
  | PyAttributeError

section \<open>Statements\<close>

definition update_where :: "('r \<Rightarrow> bool) \<Rightarrow> ('r \<Rightarrow> 'r) \<Rightarrow> 'r list \<Rightarrow> 'r list" where
  "update_where p f rows = map (\<lambda>r. if p r then f r else r) rows"

text \<open>\<open>INSERT\<close> into a table with a primary key, and \<open>INSERT OR IGNORE\<close>.\<close>

definition insert_row :: "('r \<Rightarrow> 'k) \<Rightarrow> 'r \<Rightarrow> 'r list \<Rightarrow> exn + 'r list" where
  "insert_row pk r rows = (if pk r \<in> pk ` set rows then Inl IntegrityError else Inr (rows @ [r]))"

definition insert_or_ignore :: "('r \<Rightarrow> 'k) \<Rightarrow> 'r \<Rightarrow> 'r list \<Rightarrow> 'r list" where
  "insert_or_ignore pk r rows = (if pk r \<in> pk ` set rows then rows else rows @ [r])"

subsection \<open>Counters and the lease\<close>

definition counter :: "string \<Rightarrow> db \<Rightarrow> int" where
  "counter name d = (case map_of (db_counter d) name of Some v \<Rightarrow> v | None \<Rightarrow> 0)"

definition counter_add :: "string \<Rightarrow> int \<Rightarrow> db \<Rightarrow> db" where
  "counter_add name v d = d\<lparr>db_counter := AList.update name (counter name d + v) (db_counter d)\<rparr>"

definition SQL_LEASE_INSERT :: "pytext \<Rightarrow> int \<Rightarrow> int \<Rightarrow> db \<Rightarrow> db" where
  "SQL_LEASE_INSERT holder fence expires d =
     d\<lparr>db_lease := Some \<lparr>ls_holder = holder, ls_fence = fence, ls_expires_at = expires\<rparr>\<rparr>"

definition SQL_LEASE_UPDATE :: "pytext \<Rightarrow> int \<Rightarrow> int \<Rightarrow> db \<Rightarrow> db" where
  "SQL_LEASE_UPDATE holder fence expires d =
     d\<lparr>db_lease := map_option
         (\<lambda>_. \<lparr>ls_holder = holder, ls_fence = fence, ls_expires_at = expires\<rparr>) (db_lease d)\<rparr>"

definition SQL_LEASE_EXPIRE :: "int \<Rightarrow> db \<Rightarrow> db" where
  "SQL_LEASE_EXPIRE expires d = d\<lparr>db_lease := map_option (ls_expires_at_update (\<lambda>_. expires)) (db_lease d)\<rparr>"

definition SQL_JOBS_REVALIDATE :: "int \<Rightarrow> int \<Rightarrow> int \<Rightarrow> db \<Rightarrow> db" where
  "SQL_JOBS_REVALIDATE now fence below d =
     d\<lparr>db_jobs := update_where
         (\<lambda>j. jb_state j \<in> {PENDING, ACCEPTED} \<and> \<not> jb_in_flight j \<and> jb_fence j < below)
         (\<lambda>j. j\<lparr>jb_state := REVALIDATE, jb_changed_at := now, jb_fence := fence\<rparr>) (db_jobs d)\<rparr>"

definition SQL_JOBS_INFLIGHT_UNKNOWN :: "int \<Rightarrow> int \<Rightarrow> int \<Rightarrow> db \<Rightarrow> db" where
  "SQL_JOBS_INFLIGHT_UNKNOWN now fence below d =
     d\<lparr>db_jobs := update_where (\<lambda>j. jb_in_flight j \<and> jb_fence j < below)
         (\<lambda>j. j\<lparr>jb_state := UNKNOWN, jb_in_flight := False,
                jb_reason := Some (asc ''SEND_OUTCOME_UNKNOWN''), jb_changed_at := now, jb_fence := fence\<rparr>)
         (db_jobs d)\<rparr>"

subsection \<open>The channel row\<close>

definition SQL_CHANNEL_INIT :: "int \<Rightarrow> channel_row" where
  "SQL_CHANNEL_INIT fence =
     \<lparr>ch_cursor = None, ch_acked_cursor = None, ch_session_id = None, ch_state = NORMAL,
      ch_reason = None, ch_degraded = False, ch_epoch = 0, ch_earliest = None,
      ch_stopped_revision = None, ch_retry_sha = None, ch_retry_count = 0, ch_committed_any = False,
      ch_gap_from = None, ch_gap_to = None, ch_incomplete = None, ch_fence = fence\<rparr>"

definition SQL_CHANNEL_CURSOR :: "pytext \<Rightarrow> pytext \<Rightarrow> int \<Rightarrow> channel_row \<Rightarrow> channel_row" where
  "SQL_CHANNEL_CURSOR cursor session fence c =
     c\<lparr>ch_cursor := Some cursor, ch_session_id := Some session, ch_committed_any := True,
       ch_retry_sha := None, ch_retry_count := 0, ch_fence := fence\<rparr>"

definition SQL_CHANNEL_ACKED :: "pytext option \<Rightarrow> int \<Rightarrow> channel_row \<Rightarrow> channel_row" where
  "SQL_CHANNEL_ACKED cursor fence c = c\<lparr>ch_acked_cursor := cursor, ch_fence := fence\<rparr>"

definition SQL_CHANNEL_STATE :: "channel_state \<Rightarrow> string \<Rightarrow> int \<Rightarrow> channel_row \<Rightarrow> channel_row" where
  "SQL_CHANNEL_STATE st reason fence c = c\<lparr>ch_state := st, ch_reason := Some reason, ch_fence := fence\<rparr>"

definition SQL_CHANNEL_SETTLE :: "int \<Rightarrow> channel_row \<Rightarrow> channel_row" where
  "SQL_CHANNEL_SETTLE fence c =
     c\<lparr>ch_state := (if ch_incomplete c = None then NORMAL else INCOMPLETE),
       ch_reason := ch_incomplete c, ch_fence := fence\<rparr>"

definition SQL_CHANNEL_STOP :: "string \<Rightarrow> pytext \<Rightarrow> int \<Rightarrow> channel_row \<Rightarrow> channel_row" where
  "SQL_CHANNEL_STOP reason revision fence c =
     c\<lparr>ch_state := STOPPED, ch_reason := Some reason, ch_stopped_revision := Some revision,
       ch_fence := fence\<rparr>"

definition SQL_CHANNEL_DEGRADE :: "int \<Rightarrow> channel_row \<Rightarrow> channel_row" where
  "SQL_CHANNEL_DEGRADE fence c = c\<lparr>ch_degraded := True, ch_fence := fence\<rparr>"

definition SQL_CHANNEL_EXPIRED :: "pytext option \<Rightarrow> int \<Rightarrow> channel_row \<Rightarrow> channel_row" where
  "SQL_CHANNEL_EXPIRED earliest fence c =
     c\<lparr>ch_state := RESYNC_REQUIRED, ch_reason := Some ''CURSOR_EXPIRED'', ch_earliest := earliest,
       ch_fence := fence\<rparr>"

definition coalesce :: "'a option \<Rightarrow> 'a option \<Rightarrow> 'a option" where
  "coalesce a b = (case a of Some _ \<Rightarrow> a | None \<Rightarrow> b)"

definition SQL_CHANNEL_RESYNC :: "pytext option \<Rightarrow> int \<Rightarrow> channel_row \<Rightarrow> channel_row" where
  "SQL_CHANNEL_RESYNC cursor fence c =
     c\<lparr>ch_cursor := cursor, ch_state := INCOMPLETE, ch_reason := Some ''CURSOR_EXPIRED'',
       ch_incomplete := coalesce (ch_incomplete c) (Some ''CURSOR_EXPIRED''), ch_earliest := None,
       ch_fence := fence\<rparr>"

definition SQL_CHANNEL_EPOCH :: "int \<Rightarrow> channel_row \<Rightarrow> channel_row" where
  "SQL_CHANNEL_EPOCH fence c =
     c\<lparr>ch_epoch := ch_epoch c + 1, ch_state := RESYNC_REQUIRED, ch_reason := Some ''RESET_SCOPE'',
       ch_fence := fence\<rparr>"

definition SQL_CHANNEL_GAP ::
    "string \<Rightarrow> pytext option \<Rightarrow> pytext option \<Rightarrow> int \<Rightarrow> channel_row \<Rightarrow> channel_row" where
  "SQL_CHANNEL_GAP code gap_from gap_to fence c =
     c\<lparr>ch_state := (if ch_state c = NORMAL then INCOMPLETE else ch_state c),
       ch_reason := (if ch_state c = NORMAL then Some code else ch_reason c),
       ch_incomplete := coalesce (ch_incomplete c) (Some code),
       ch_gap_from := coalesce (ch_gap_from c) gap_from, ch_gap_to := gap_to, ch_fence := fence\<rparr>"

definition SQL_CHANNEL_RECOVER :: "int \<Rightarrow> channel_row \<Rightarrow> channel_row" where
  "SQL_CHANNEL_RECOVER fence c =
     (let there = ch_state c = INCOMPLETE in
      c\<lparr>ch_state := (if there then NORMAL else ch_state c),
        ch_reason := (if there then None else ch_reason c),
        ch_incomplete := (if there then None else ch_incomplete c),
        ch_gap_from := (if there then None else ch_gap_from c),
        ch_gap_to := (if there then None else ch_gap_to c),
        ch_degraded := False, ch_fence := fence\<rparr>)"

definition SQL_CHANNEL_RETRY :: "pytext \<Rightarrow> int \<Rightarrow> int \<Rightarrow> channel_row \<Rightarrow> channel_row" where
  "SQL_CHANNEL_RETRY sha count fence c =
     c\<lparr>ch_retry_sha := Some sha, ch_retry_count := count, ch_degraded := True, ch_fence := fence\<rparr>"

definition on_channel :: "(channel_row \<Rightarrow> channel_row) \<Rightarrow> db \<Rightarrow> db" where
  "on_channel f d = d\<lparr>db_channel := f (db_channel d)\<rparr>"

subsection \<open>Raw batches, dispositions and sequences\<close>

definition SQL_RAW_INSERT :: "raw_row \<Rightarrow> db \<Rightarrow> db" where
  "SQL_RAW_INSERT r d = d\<lparr>db_raw := insert_or_ignore rw_sha256 r (db_raw d)\<rparr>"

definition SQL_RAW_KEEP :: "bytes \<Rightarrow> pytext \<Rightarrow> db \<Rightarrow> db" where
  "SQL_RAW_KEEP body sha d =
     d\<lparr>db_raw := update_where (\<lambda>r. rw_sha256 r = sha \<and> rw_body r = None)
         (rw_body_update (\<lambda>_. Some body)) (db_raw d)\<rparr>"

definition SQL_RAW_BYTES :: "db \<Rightarrow> nat" where
  "SQL_RAW_BYTES d = sum_list (map rw_bytes (filter (\<lambda>r. rw_body r \<noteq> None) (db_raw d)))"

definition SQL_INGEST_GET :: "pytext \<Rightarrow> db \<Rightarrow> ingest_row option" where
  "SQL_INGEST_GET key d = find (\<lambda>r. ig_key r = key) (db_ingest d)"

definition SQL_INGEST_INSERT :: "ingest_row \<Rightarrow> db \<Rightarrow> exn + db" where
  "SQL_INGEST_INSERT r d =
     rbind (insert_row ig_key r (db_ingest d)) (\<lambda>rows. Inr (d\<lparr>db_ingest := rows\<rparr>))"

definition SQL_INGEST_SET :: "string \<Rightarrow> string \<Rightarrow> int \<Rightarrow> pytext \<Rightarrow> db \<Rightarrow> db" where
  "SQL_INGEST_SET disposition code fence key d =
     d\<lparr>db_ingest := update_where (\<lambda>r. ig_key r = key)
         (\<lambda>r. r\<lparr>ig_disposition := disposition, ig_code := Some code, ig_fence := fence\<rparr>) (db_ingest d)\<rparr>"

definition SQL_SESSION_PUT :: "pytext \<Rightarrow> nat \<Rightarrow> db \<Rightarrow> db" where
  "SQL_SESSION_PUT session seq d = d\<lparr>db_session := AList.update session seq (db_session d)\<rparr>"

definition SQL_QUARANTINE_INSERT :: "(nat \<Rightarrow> quarantine_row) \<Rightarrow> db \<Rightarrow> db" where
  \<comment> \<open>the row takes the next id of the \<open>AUTOINCREMENT\<close> key; no row is ever deleted\<close>
  "SQL_QUARANTINE_INSERT row d =
     d\<lparr>db_quarantine := db_quarantine d @ [row (Suc (length (db_quarantine d)))]\<rparr>"

definition SQL_QUARANTINE_BYTES :: "db \<Rightarrow> nat" where
  "SQL_QUARANTINE_BYTES d = sum_list (map qu_bytes (filter (\<lambda>q. \<not> qu_metadata_only q) (db_quarantine d)))"

definition SQL_QUARANTINE_REUSE :: "pytext \<Rightarrow> db \<Rightarrow> quarantine_row list" where
  "SQL_QUARANTINE_REUSE key d =
     filter (\<lambda>q. qu_code q = ''REUSE_AMBIGUOUS'' \<and> qu_identity q = Some key \<and> qu_resolved_at q = None)
       (db_quarantine d)"

definition SQL_QUARANTINE_RESOLVE :: "int \<Rightarrow> string \<Rightarrow> int \<Rightarrow> nat \<Rightarrow> db \<Rightarrow> db" where
  "SQL_QUARANTINE_RESOLVE now resolution fence qid d =
     d\<lparr>db_quarantine := update_where (\<lambda>q. qu_id q = qid)
         (\<lambda>q. q\<lparr>qu_resolved_at := Some now, qu_resolution := Some resolution, qu_fence := fence\<rparr>)
         (db_quarantine d)\<rparr>"

definition SQL_OPAQUE_INSERT :: "opaque_row \<Rightarrow> db \<Rightarrow> db" where
  "SQL_OPAQUE_INSERT r d = d\<lparr>db_opaque := insert_or_ignore op_key r (db_opaque d)\<rparr>"

subsection \<open>Identity, history and current state\<close>

definition SQL_IDENTITY_GET :: "pytext \<Rightarrow> db \<Rightarrow> identity_row option" where
  "SQL_IDENTITY_GET key d = find (\<lambda>r. id_key r = key) (db_identity d)"

definition SQL_IDENTITY_INSERT :: "identity_row \<Rightarrow> db \<Rightarrow> exn + db" where
  "SQL_IDENTITY_INSERT r d =
     rbind (insert_row id_key r (db_identity d)) (\<lambda>rows. Inr (d\<lparr>db_identity := rows\<rparr>))"

definition SQL_IDENTITY_STATUS :: "string \<Rightarrow> string \<Rightarrow> nat option \<Rightarrow> int \<Rightarrow> pytext \<Rightarrow> db \<Rightarrow> exn + db" where
  \<comment> \<open>\<open>reuse_scope\<close> is an INTEGER column: the driver refuses a value of 64 bits or more\<close>
  "SQL_IDENTITY_STATUS status decision scope fence key d =
     (if (case scope of Some n \<Rightarrow> 2 ^ 63 \<le> n | None \<Rightarrow> False) then Inl SqliteOverflow
      else Inr (d\<lparr>db_identity := update_where (\<lambda>r. id_key r = key)
         (\<lambda>r. r\<lparr>id_status := status, id_reuse_decision := Some decision, id_reuse_scope := scope,
                id_fence := fence\<rparr>) (db_identity d)\<rparr>))"

definition SQL_IDENTITY_TOMBSTONE :: "int \<Rightarrow> pytext \<Rightarrow> int \<Rightarrow> pytext \<Rightarrow> db \<Rightarrow> db" where
  "SQL_IDENTITY_TOMBSTONE at record_id fence key d =
     d\<lparr>db_identity := update_where (\<lambda>r. id_key r = key)
         (\<lambda>r. r\<lparr>id_status := ''TOMBSTONED'', id_tombstone_at := Some at,
                id_tombstone_record := Some record_id, id_fence := fence\<rparr>) (db_identity d)\<rparr>"

definition SQL_IDENTITY_SCOPE ::
    "pytext \<Rightarrow> pytext \<Rightarrow> bool \<Rightarrow> pytext \<Rightarrow> pytext \<Rightarrow> db \<Rightarrow> identity_row list" where
  "SQL_IDENTITY_SCOPE tenant realm synthetic scope number d =
     filter (\<lambda>r. id_tenant r = tenant \<and> id_realm r = realm \<and> id_synthetic r = synthetic \<and>
                 id_scope r = scope \<and> id_number r = number) (db_identity d)"

definition SQL_IDENTITY_COUNT_LIVE :: "db \<Rightarrow> nat" where
  "SQL_IDENTITY_COUNT_LIVE d = length (filter (\<lambda>r. id_status r = ''LIVE'') (db_identity d))"

definition SQL_IDENTITY_EPOCH_RESET :: "int \<Rightarrow> int \<Rightarrow> db \<Rightarrow> db" where
  "SQL_IDENTITY_EPOCH_RESET fence epoch d =
     d\<lparr>db_identity := update_where (\<lambda>r. id_status r = ''LIVE'' \<and> id_epoch r < epoch)
         (\<lambda>r. r\<lparr>id_status := ''RESET'', id_fence := fence\<rparr>) (db_identity d)\<rparr>"

definition SQL_IDENTITY_EPOCH_KEEP :: "int \<Rightarrow> int \<Rightarrow> int \<Rightarrow> db \<Rightarrow> db" where
  "SQL_IDENTITY_EPOCH_KEEP epoch fence below d =
     d\<lparr>db_identity := update_where (\<lambda>r. id_epoch r < below)
         (\<lambda>r. r\<lparr>id_epoch := epoch, id_fence := fence\<rparr>) (db_identity d)\<rparr>"

definition SQL_OBSERVATION_INSERT :: "observation_row \<Rightarrow> db \<Rightarrow> exn + db" where
  "SQL_OBSERVATION_INSERT r d =
     rbind (insert_row (\<lambda>h. (hs_key h, hs_record h)) r (db_observation d))
       (\<lambda>rows. Inr (d\<lparr>db_observation := rows\<rparr>))"

definition SQL_OBSERVATION_STATE :: "pytext \<Rightarrow> pytext \<Rightarrow> db \<Rightarrow> observation_row option" where
  "SQL_OBSERVATION_STATE key record_id d =
     find (\<lambda>h. hs_key h = key \<and> hs_record h = record_id) (db_observation d)"

definition SQL_SAMPLE_INSERT :: "pytext \<Rightarrow> int \<Rightarrow> pytext \<Rightarrow> pytext \<Rightarrow> db \<Rightarrow> db" where
  "SQL_SAMPLE_INSERT key at sha record_id d =
     d\<lparr>db_sample := AList.update (key, at)
         \<lparr>sm_sha256 = sha, sm_first_record = record_id, sm_refreshes = 0\<rparr> (db_sample d)\<rparr>"

definition SQL_SAMPLE_REFRESH :: "pytext \<Rightarrow> int \<Rightarrow> db \<Rightarrow> db" where
  "SQL_SAMPLE_REFRESH key at d =
     d\<lparr>db_sample := map (\<lambda>(k, s). (k, if k = (key, at) then sm_refreshes_update Suc s else s)) (db_sample d)\<rparr>"

definition SQL_SAMPLE_CONFLICT :: "pytext \<Rightarrow> int \<Rightarrow> pytext \<Rightarrow> pytext \<Rightarrow> db \<Rightarrow> db" where
  "SQL_SAMPLE_CONFLICT key at record_id sha d =
     d\<lparr>db_sample_conflict := db_sample_conflict d @ [(key, at, record_id, sha)]\<rparr>"

definition SQL_CURRENT_GET :: "pytext \<Rightarrow> db \<Rightarrow> current_row option" where
  "SQL_CURRENT_GET key d = map_of (db_current d) key"

definition SQL_CURRENT_PUT ::
    "pytext \<Rightarrow> pytext \<Rightarrow> int \<Rightarrow> pytext \<Rightarrow> int option \<Rightarrow> int option \<Rightarrow> pytext \<Rightarrow> bytes \<Rightarrow> int \<Rightarrow> db \<Rightarrow> db" where
  "SQL_CURRENT_PUT key record_id at sha pos_at kin_at domain payload fence d =
     d\<lparr>db_current := AList.update key
         \<lparr>cu_record = record_id, cu_effective_at = at, cu_sha256 = sha, cu_pos_at = pos_at,
          cu_kin_at = kin_at, cu_domain = domain, cu_contribution = ''ACTIVE'', cu_conflict = None,
          cu_freshness = None, cu_motion = None, cu_payload = payload, cu_fence = fence\<rparr> (db_current d)\<rparr>"

definition on_current :: "pytext \<Rightarrow> (current_row \<Rightarrow> current_row) \<Rightarrow> db \<Rightarrow> db" where
  "on_current key f d = d\<lparr>db_current := map (\<lambda>(k, c). (k, if k = key then f c else c)) (db_current d)\<rparr>"

definition SQL_CURRENT_CONFLICT :: "nat \<Rightarrow> int \<Rightarrow> pytext \<Rightarrow> db \<Rightarrow> db" where
  "SQL_CURRENT_CONFLICT cid fence key = on_current key (\<lambda>c. c\<lparr>cu_conflict := Some cid, cu_fence := fence\<rparr>)"

definition SQL_CURRENT_CLOSE :: "int \<Rightarrow> pytext \<Rightarrow> db \<Rightarrow> db" where
  "SQL_CURRENT_CLOSE fence key = on_current key (\<lambda>c. c\<lparr>cu_contribution := ''CLOSED'', cu_fence := fence\<rparr>)"

definition SQL_CURRENT_FRESHNESS :: "string \<Rightarrow> string option \<Rightarrow> int \<Rightarrow> pytext \<Rightarrow> db \<Rightarrow> db" where
  "SQL_CURRENT_FRESHNESS main motion fence key =
     on_current key (\<lambda>c. c\<lparr>cu_freshness := Some main, cu_motion := motion, cu_fence := fence\<rparr>)"

definition SQL_CURRENT_ALL :: "db \<Rightarrow> (pytext \<times> current_row) list" where
  "SQL_CURRENT_ALL d = sort_key fst (db_current d)"

definition SQL_CONFLICT_INSERT :: "pytext \<Rightarrow> int \<Rightarrow> pytext \<Rightarrow> pytext \<Rightarrow> db \<Rightarrow> nat \<times> db" where
  \<comment> \<open>with the row id that \<open>SQL_LAST_ROWID\<close> then reads\<close>
  "SQL_CONFLICT_INSERT key at established conflicting d =
     (Suc (length (db_conflict d)),
      d\<lparr>db_conflict := db_conflict d @
          [\<lparr>cf_key = key, cf_effective_at = at, cf_established = established,
            cf_conflicting = conflicting\<rparr>]\<rparr>)"

definition SQL_RELATION_INSERT :: "relation_row \<Rightarrow> db \<Rightarrow> db" where
  "SQL_RELATION_INSERT r d = d\<lparr>db_relation := db_relation d @ [r]\<rparr>"

subsection \<open>Outbox and export jobs\<close>

definition SQL_OUTBOX_INSERT :: "outbox_row \<Rightarrow> db \<Rightarrow> db" where
  "SQL_OUTBOX_INSERT r d = d\<lparr>db_outbox := insert_or_ignore ox_key r (db_outbox d)\<rparr>"

definition SQL_OUTBOX_PENDING :: "db \<Rightarrow> outbox_row list" where
  "SQL_OUTBOX_PENDING d =
     sort_key (\<lambda>r. (ox_created_at r, ox_key r)) (filter (\<lambda>r. ox_dispatched_at r = None) (db_outbox d))"

definition SQL_OUTBOX_MARK :: "int \<Rightarrow> pytext \<Rightarrow> db \<Rightarrow> db" where
  "SQL_OUTBOX_MARK now key d =
     d\<lparr>db_outbox := update_where (\<lambda>r. ox_key r = key) (ox_dispatched_at_update (\<lambda>_. Some now)) (db_outbox d)\<rparr>"

definition SQL_OUTBOX_PAYLOAD :: "pytext \<Rightarrow> db \<Rightarrow> bytes option" where
  "SQL_OUTBOX_PAYLOAD key d = map_option ox_payload (find (\<lambda>r. ox_key r = key) (db_outbox d))"

definition SQL_OUTBOX_QUEUE :: "db \<Rightarrow> nat \<times> nat" where
  "SQL_OUTBOX_QUEUE d =
     (let pending = filter (\<lambda>r. ox_dispatched_at r = None) (db_outbox d)
      in (length pending, sum_list (map ox_bytes pending)))"

definition SQL_JOBS_QUEUE :: "db \<Rightarrow> nat \<times> nat" where
  "SQL_JOBS_QUEUE d =
     (let queued = filter (\<lambda>j. jb_state j \<in> {PENDING, REVALIDATE, ACCEPTED, ENCODED, UNKNOWN}) (db_jobs d)
      in (length queued, sum_list (map (\<lambda>j. case jb_body j of Some b \<Rightarrow> length b | None \<Rightarrow> 0) queued)))"

definition SQL_ALLOCATION_GET :: "pytext \<Rightarrow> pytext \<Rightarrow> pytext \<Rightarrow> db \<Rightarrow> allocation_row option" where
  "SQL_ALLOCATION_GET peer_id dest_realm source_key d = map_of (db_allocation d) (peer_id, dest_realm, source_key)"

definition SQL_ALLOCATION_PUT :: "pytext \<Rightarrow> pytext \<Rightarrow> pytext \<Rightarrow> allocation_row \<Rightarrow> db \<Rightarrow> db" where
  "SQL_ALLOCATION_PUT peer_id dest_realm source_key row d =
     d\<lparr>db_allocation := AList.update (peer_id, dest_realm, source_key) row (db_allocation d)\<rparr>"

definition SQL_JOB_GET :: "pytext \<Rightarrow> db \<Rightarrow> job_row option" where
  "SQL_JOB_GET request_id d = find (\<lambda>j. jb_request j = request_id) (db_jobs d)"

definition SQL_JOB_INSERT :: "job_row \<Rightarrow> db \<Rightarrow> exn + db" where
  "SQL_JOB_INSERT j d = rbind (insert_row jb_request j (db_jobs d)) (\<lambda>rows. Inr (d\<lparr>db_jobs := rows\<rparr>))"

definition SQL_JOB_STATE :: "job_state \<Rightarrow> pytext option \<Rightarrow> int \<Rightarrow> int \<Rightarrow> pytext \<Rightarrow> db \<Rightarrow> db" where
  "SQL_JOB_STATE st reason now fence request_id d =
     d\<lparr>db_jobs := update_where (\<lambda>j. jb_request j = request_id)
         (\<lambda>j. j\<lparr>jb_state := st, jb_reason := reason, jb_changed_at := now, jb_in_flight := False,
                jb_fence := fence\<rparr>) (db_jobs d)\<rparr>"

definition SQL_JOB_INFLIGHT :: "int \<Rightarrow> int \<Rightarrow> pytext \<Rightarrow> db \<Rightarrow> db" where
  "SQL_JOB_INFLIGHT now fence request_id d =
     d\<lparr>db_jobs := update_where (\<lambda>j. jb_request j = request_id)
         (\<lambda>j. j\<lparr>jb_in_flight := True, jb_attempts := Suc (jb_attempts j), jb_changed_at := now,
                jb_fence := fence\<rparr>) (db_jobs d)\<rparr>"

definition SQL_JOB_REBODY :: "int \<Rightarrow> int \<Rightarrow> pytext \<Rightarrow> db \<Rightarrow> db" where
  "SQL_JOB_REBODY now fence request_id d =
     d\<lparr>db_jobs := update_where (\<lambda>j. jb_request j = request_id)
         (\<lambda>j. j\<lparr>jb_state := PENDING, jb_reason := None, jb_changed_at := now, jb_fence := fence\<rparr>)
         (db_jobs d)\<rparr>"

definition SQL_JOBS_BY_STATE :: "job_state \<Rightarrow> db \<Rightarrow> pytext list" where
  "SQL_JOBS_BY_STATE st d =
     map jb_request (sort_key jb_created_at (filter (\<lambda>j. jb_state j = st) (db_jobs d)))"

definition SQL_AUDIT_INSERT :: "audit_row \<Rightarrow> db \<Rightarrow> db" where
  "SQL_AUDIT_INSERT r d = d\<lparr>db_audit := db_audit d @ [r]\<rparr>"

end
