(* ===== verification/Link16_Lease.thy ===== *)
theory Link16_Lease
  imports Link16_Store
begin

text \<open>
  Transactions and the channel-writer lease: \<open>Store.transaction\<close> and \<open>Store.bind\<close> of
  \<^verbatim>\<open>store.py\<close>, \<^verbatim>\<open>lease.py\<close>, the audit rows of \<^verbatim>\<open>observe.py\<close> and the fault flags of
  \<^verbatim>\<open>faults.py\<close>. A process is the part of a bridge that outlives a transaction: the \<open>Lease\<close> and
  \<open>Store\<close> objects' fields. Every operation reads the injected clock as the argument \<open>now\<close>.
\<close>

section \<open>Processes and transactions\<close>

record proc =
  pr_holder :: pytext
  pr_ttl_ms :: int
  pr_fence :: int
  pr_held :: bool
  pr_store_fence :: int
  pr_on_begin :: bool
  pr_commit_failed :: bool

text \<open>The two conditions a test can switch on; both are false in production.\<close>

record fault_flags =
  expire_now :: bool
  commit_fails :: bool

definition NO_FAULTS :: fault_flags where
  "NO_FAULTS = \<lparr>expire_now = False, commit_fails = False\<rparr>"

definition new_proc :: "pytext \<Rightarrow> int \<Rightarrow> proc" where
  "new_proc holder ttl_ms =
     \<lparr>pr_holder = holder, pr_ttl_ms = ttl_ms, pr_fence = 0, pr_held = False, pr_store_fence = 0,
      pr_on_begin = False, pr_commit_failed = False\<rparr>"

definition lease_check :: "fault_flags \<Rightarrow> int \<Rightarrow> proc \<Rightarrow> db \<Rightarrow> (exn + unit) \<times> proc" where
  "lease_check flt now p d =
     (let p = (if expire_now flt then p\<lparr>pr_held := False\<rparr> else p) in
      case db_lease d of
        None \<Rightarrow> (Inl LeaseLost, p\<lparr>pr_held := False\<rparr>)
      | Some l \<Rightarrow>
          if \<not> pr_held p \<or> ls_holder l \<noteq> pr_holder p \<or> ls_fence l \<noteq> pr_fence p \<or> ls_expires_at l \<le> now
          then (Inl LeaseLost, p\<lparr>pr_held := False\<rparr>) else (Inr (), p))"

text \<open>
  A body returns its value with the changed store, or raises; an exception rolls back, and a
  commit that fails rolls back and leaves its mark on the process.
\<close>

definition transaction ::
    "fault_flags \<Rightarrow> int \<Rightarrow> bool \<Rightarrow> proc \<Rightarrow> db \<Rightarrow> (db \<Rightarrow> exn + 'a \<times> db) \<Rightarrow> (exn + 'a) \<times> proc \<times> db" where
  "transaction flt now fenced p d body =
     (case (if fenced \<and> pr_on_begin p then lease_check flt now p d else (Inr (), p)) of
        (Inl e, p') \<Rightarrow> (Inl e, p', d)
      | (Inr _, p') \<Rightarrow>
          (case body d of
             Inl e \<Rightarrow> (Inl e, p', d)
           | Inr (x, d') \<Rightarrow>
               if commit_fails flt then (Inl OperationalError, p'\<lparr>pr_commit_failed := True\<rparr>, d)
               else (Inr x, p'\<lparr>pr_commit_failed := False\<rparr>, d')))"

text \<open>
  The empty file, with the channel row that the first \<open>bind\<close> inserts. \<open>bind\<close> records the channel
  binding, or checks it on every later open.
\<close>

definition empty_db :: db where
  "empty_db =
     \<lparr>db_binding = None, db_lease = None, db_raw = [], db_ingest = [], db_session = [],
      db_identity = [], db_observation = [], db_sample = [], db_sample_conflict = [],
      db_current = [], db_conflict = [], db_relation = [], db_quarantine = [], db_opaque = [],
      db_outbox = [], db_channel = SQL_CHANNEL_INIT 0, db_allocation = [], db_jobs = [],
      db_audit = [], db_counter = []\<rparr>"

definition bind_store :: "fault_flags \<Rightarrow> int \<Rightarrow> pytext \<Rightarrow> proc \<Rightarrow> db \<Rightarrow> (exn + unit) \<times> proc \<times> db" where
  "bind_store flt now binding p d =
     transaction flt now False p d (\<lambda>d.
       case db_binding d of
         None \<Rightarrow> Inr ((), d\<lparr>db_binding := Some binding\<rparr>)
       | Some b \<Rightarrow> if b \<noteq> binding then Inl StoreBindingMismatch else Inr ((), d))"

section \<open>The lease\<close>

definition lease_take :: "int \<Rightarrow> proc \<Rightarrow> db \<Rightarrow> exn + int \<times> db" where
  "lease_take now p d =
     (case db_lease d of
        Some l \<Rightarrow>
          if ls_holder l \<noteq> pr_holder p \<and> now < ls_expires_at l then Inl LeaseHeld
          else
            (let fence = ls_fence l + 1;
                 d = SQL_LEASE_UPDATE (pr_holder p) fence (now + pr_ttl_ms p) d
             in Inr (fence, SQL_JOBS_REVALIDATE now fence fence (SQL_JOBS_INFLIGHT_UNKNOWN now fence fence d)))
      | None \<Rightarrow>
          (let fence = 1; d = SQL_LEASE_INSERT (pr_holder p) fence (now + pr_ttl_ms p) d
           in Inr (fence, SQL_JOBS_REVALIDATE now fence fence (SQL_JOBS_INFLIGHT_UNKNOWN now fence fence d))))"

definition lease_acquire :: "fault_flags \<Rightarrow> int \<Rightarrow> proc \<Rightarrow> db \<Rightarrow> (exn + int) \<times> proc \<times> db" where
  "lease_acquire flt now p d =
     (case transaction flt now False p d (lease_take now p) of
        (Inl e, p', d') \<Rightarrow> (Inl e, p', d')
      | (Inr fence, p', d') \<Rightarrow>
          (Inr fence, p'\<lparr>pr_fence := fence, pr_held := True, pr_store_fence := fence,
                        pr_on_begin := True\<rparr>, d'))"

definition lease_renew :: "fault_flags \<Rightarrow> int \<Rightarrow> proc \<Rightarrow> db \<Rightarrow> (exn + unit) \<times> proc \<times> db" where
  "lease_renew flt now p d =
     transaction flt now True p d
       (\<lambda>d. Inr ((), SQL_LEASE_UPDATE (pr_holder p) (pr_fence p) (now + pr_ttl_ms p) d))"

definition lease_release :: "fault_flags \<Rightarrow> int \<Rightarrow> proc \<Rightarrow> db \<Rightarrow> (exn + unit) \<times> proc \<times> db" where
  "lease_release flt now p d =
     (if \<not> pr_held p then (Inr (), p, d)
      else case transaction flt now True p d (\<lambda>d. Inr ((), SQL_LEASE_EXPIRE 0 d)) of
        (Inl LeaseLost, p', d') \<Rightarrow> (Inr (), p'\<lparr>pr_held := False\<rparr>, d')
      | (Inl e, p', d') \<Rightarrow> (Inl e, p', d')
      | (Inr _, p', d') \<Rightarrow> (Inr (), p'\<lparr>pr_held := False\<rparr>, d'))"

text \<open>An audit row inside the caller's transaction; its correlation id is a random UUID and is left out.\<close>

definition audit_record ::
    "int \<Rightarrow> int \<Rightarrow> pytext \<Rightarrow> string \<Rightarrow> pytext option \<Rightarrow> string option \<Rightarrow> string option \<Rightarrow>
     pytext option \<Rightarrow> db \<Rightarrow> db" where
  "audit_record now fence revision kind subject code result raw_ref =
     SQL_AUDIT_INSERT \<lparr>au_at = now, au_kind = kind, au_subject = subject, au_code = code,
       au_result = result, au_raw_ref = raw_ref, au_revision = revision, au_fence = fence\<rparr>"

section \<open>Branches\<close>

lemma lease_check_Inr_iff:
  "lease_check flt now p d = (Inr (), p') \<longleftrightarrow>
     (\<exists>l. db_lease d = Some l \<and> \<not> expire_now flt \<and> pr_held p \<and> ls_holder l = pr_holder p \<and>
          ls_fence l = pr_fence p \<and> now < ls_expires_at l \<and> p' = p)"
  unfolding lease_check_def Let_def by (auto split: option.splits)

lemma lease_check_Inl:
  "lease_check flt now p d = (Inl e, p') \<Longrightarrow> e = LeaseLost \<and> p' = p\<lparr>pr_held := False\<rparr>"
  unfolding lease_check_def Let_def by (auto split: option.splits if_splits)

lemma transaction_cases:
  assumes "transaction flt now fenced p d body = (r, p', d')"
  obtains (committed) x where "r = Inr x" "body d = Inr (x, d')" "p' = p\<lparr>pr_commit_failed := False\<rparr>"
      "fenced \<Longrightarrow> pr_on_begin p \<Longrightarrow> lease_check flt now p d = (Inr (), p)"
  | (raised) e where "r = Inl e" "d' = d" "pr_fence p' = pr_fence p" "pr_holder p' = pr_holder p"
      "pr_held p' \<Longrightarrow> pr_held p" "pr_store_fence p' = pr_store_fence p" "pr_on_begin p' = pr_on_begin p"
proof (cases "if fenced \<and> pr_on_begin p then lease_check flt now p d else (Inr (), p)")
  case (Pair c q)
  show thesis
  proof (cases c)
    case (Inl e)
    with Pair have lost: "lease_check flt now p d = (Inl e, q)" by (auto split: if_splits)
    then have q: "q = p\<lparr>pr_held := False\<rparr>" by (auto dest: lease_check_Inl)
    from assms Pair Inl have "r = Inl e" "d' = d" "p' = q" unfolding transaction_def by auto
    with q show thesis by (intro raised [of e]) auto
  next
    case (Inr u)
    with Pair have q: "q = p" and passed: "fenced \<Longrightarrow> pr_on_begin p \<Longrightarrow> lease_check flt now p d = (Inr (), p)"
      by (auto split: if_splits simp: lease_check_Inr_iff)
    show thesis
    proof (cases "body d")
      case body: (Inl e)
      from assms Pair Inr q body have "r = Inl e" "d' = d" "p' = p" unfolding transaction_def by auto
      then show thesis by (intro raised [of e]) auto
    next
      case body: (Inr xd)
      obtain x d1 where xd: "xd = (x, d1)" by (cases xd)
      show thesis
      proof (cases "commit_fails flt")
        case True
        from assms Pair Inr q body xd True
        have "r = Inl OperationalError" "d' = d" "p' = p\<lparr>pr_commit_failed := True\<rparr>"
          unfolding transaction_def by auto
        then show thesis by (intro raised [of OperationalError]) auto
      next
        case False
        from assms Pair Inr q body xd False
        have "r = Inr x" "d' = d1" "p' = p\<lparr>pr_commit_failed := False\<rparr>"
          unfolding transaction_def by auto
        with body xd passed show thesis by (intro committed [of x]) auto
      qed
    qed
  qed
qed

text \<open>A fenced transaction either leaves the store as it found it or ran its body under the lease.\<close>

lemma transaction_atomic:
  "transaction flt now fenced p d body = (r, p', d') \<Longrightarrow> d' \<noteq> d \<Longrightarrow> \<exists>x. r = Inr x \<and> body d = Inr (x, d')"
  by (erule transaction_cases) auto

lemma lease_take_Inr:
  assumes "lease_take now p d = Inr (fence, d')"
  shows "fence = (case db_lease d of Some l \<Rightarrow> ls_fence l + 1 | None \<Rightarrow> 1)"
    and "db_lease d' = Some \<lparr>ls_holder = pr_holder p, ls_fence = fence, ls_expires_at = now + pr_ttl_ms p\<rparr>"
    and "\<And>l. db_lease d = Some l \<Longrightarrow> ls_holder l = pr_holder p \<or> ls_expires_at l \<le> now"
  using assms unfolding lease_take_def
  by (auto simp: Let_def SQL_LEASE_UPDATE_def SQL_LEASE_INSERT_def SQL_JOBS_REVALIDATE_def
      SQL_JOBS_INFLIGHT_UNKNOWN_def split: option.splits if_splits)

lemma lease_acquire_cases:
  assumes "lease_acquire flt now p d = (r, p', d')"
  obtains (taken) fence where "r = Inr fence" "lease_take now p d = Inr (fence, d')"
      "p' = p\<lparr>pr_commit_failed := False, pr_fence := fence, pr_held := True, pr_store_fence := fence,
              pr_on_begin := True\<rparr>"
  | (refused) e where "r = Inl e" "d' = d" "pr_fence p' = pr_fence p" "pr_holder p' = pr_holder p"
      "pr_held p' \<Longrightarrow> pr_held p" "pr_store_fence p' = pr_store_fence p" "pr_on_begin p' = pr_on_begin p"
proof -
  obtain c q d1 where t: "transaction flt now False p d (lease_take now p) = (c, q, d1)"
    by (metis prod_cases3)
  show thesis
    using t
  proof (cases rule: transaction_cases)
    case (committed fence)
    with assms t show thesis
      by (intro taken [of fence]) (auto simp: lease_acquire_def)
  next
    case (raised e)
    with assms t show thesis
      by (intro refused [of e]) (auto simp: lease_acquire_def)
  qed
qed

end
