(* ===== verification/Link16_Fencing.thy ===== *)
theory Link16_Fencing
  imports Link16_Lease
begin

text \<open>
  Any number of bridge processes over one store file. Each transaction is atomic
  (\<open>BEGIN IMMEDIATE\<close>), so a run of the system is an interleaving of whole transactions, of clock
  readings that need not agree, and of crashes. The abstract side is a fencing lock: a token that
  only grows, the process it was granted to, and the log of what was written under which token.
\<close>

declare split_paired_All [simp del] split_paired_Ex [simp del]

section \<open>The fencing lock\<close>

record fence_lock =
  fl_token :: int
  fl_owner :: "nat option"
  fl_log :: "(nat \<times> int) list"

inductive lock_step :: "fence_lock \<Rightarrow> fence_lock \<Rightarrow> bool" where
  grant: "lock_step a (a\<lparr>fl_token := fl_token a + 1, fl_owner := Some i\<rparr>)"
| writes: "fl_owner a = Some i \<Longrightarrow> lock_step a (a\<lparr>fl_log := fl_log a @ [(i, fl_token a)]\<rparr>)"
| revoke: "lock_step a (a\<lparr>fl_owner := None\<rparr>)"

inductive lock_run :: "fence_lock \<Rightarrow> bool" where
  start: "lock_run \<lparr>fl_token = 0, fl_owner = None, fl_log = []\<rparr>"
| step: "lock_run a \<Longrightarrow> lock_step a b \<Longrightarrow> lock_run b"

definition lock_inv :: "fence_lock \<Rightarrow> bool" where
  "lock_inv a \<longleftrightarrow>
     sorted (map snd (fl_log a)) \<and>
     (\<forall>w \<in> set (fl_log a). snd w \<le> fl_token a \<and>
        (snd w = fl_token a \<longrightarrow> fl_owner a \<in> {None, Some (fst w)})) \<and>
     (\<forall>v \<in> set (fl_log a). \<forall>w \<in> set (fl_log a). snd v = snd w \<longrightarrow> fst v = fst w)"

lemma lock_step_inv: "lock_step a b \<Longrightarrow> lock_inv a \<Longrightarrow> lock_inv b"
proof (induction rule: lock_step.induct)
  case (grant a i)
  have le: "snd w \<le> fl_token a" if "w \<in> set (fl_log a)" for w
    using grant that by (simp add: lock_inv_def)
  have "snd w \<le> fl_token a + 1 \<and> snd w \<noteq> fl_token a + 1" if "w \<in> set (fl_log a)" for w
    using le [OF that] by simp
  then have new: "\<forall>w \<in> set (fl_log a). snd w \<le> fl_token a + 1 \<and>
      (snd w = fl_token a + 1 \<longrightarrow> Some i \<in> {None, Some (fst w)})" by blast
  have log: "fl_log (a\<lparr>fl_token := fl_token a + 1, fl_owner := Some i\<rparr>) = fl_log a"
    and rest: "fl_token (a\<lparr>fl_token := fl_token a + 1, fl_owner := Some i\<rparr>) = fl_token a + 1"
      "fl_owner (a\<lparr>fl_token := fl_token a + 1, fl_owner := Some i\<rparr>) = Some i" by simp_all
  show ?case
    using grant new unfolding lock_inv_def log rest by blast
next
  case (writes a i)
  let ?b = "a\<lparr>fl_log := fl_log a @ [(i, fl_token a)]\<rparr>"
  have same: "fst w = i" if "w \<in> set (fl_log a)" "snd w = fl_token a" for w
    using writes that unfolding lock_inv_def by fastforce
  have le: "snd w \<le> fl_token a" if "w \<in> set (fl_log a)" for w
    using writes that unfolding lock_inv_def by blast
  have log: "fl_log ?b = fl_log a @ [(i, fl_token a)]" and rest: "fl_token ?b = fl_token a" "fl_owner ?b = Some i"
    using writes by simp_all
  have last_one: "fst u = i" if "u \<in> set (fl_log ?b)" "snd u = fl_token a" for u
  proof -
    from that(1) have "u \<in> set (fl_log a) \<or> u = (i, fl_token a)" unfolding log by auto
    with same [of u] that(2) show ?thesis by auto
  qed
  have "sorted (map snd (fl_log a))" using writes unfolding lock_inv_def by blast
  then have "sorted (map snd (fl_log ?b))"
    unfolding log by (simp add: sorted_append le)
  moreover have "\<forall>w \<in> set (fl_log ?b). snd w \<le> fl_token ?b \<and>
      (snd w = fl_token ?b \<longrightarrow> fl_owner ?b \<in> {None, Some (fst w)})"
    using same le unfolding log rest by auto
  moreover
  have "\<forall>v \<in> set (fl_log ?b). \<forall>w \<in> set (fl_log ?b). snd v = snd w \<longrightarrow> fst v = fst w"
  proof (intro ballI impI)
    fix v w assume "v \<in> set (fl_log ?b)" "w \<in> set (fl_log ?b)" and eq: "snd v = snd w"
    then consider "v \<in> set (fl_log a)" "w \<in> set (fl_log a)" | "v = (i, fl_token a)" | "w = (i, fl_token a)"
      unfolding log by auto
    then show "fst v = fst w"
    proof cases
      case 1
      with eq writes show ?thesis unfolding lock_inv_def by blast
    next
      case 2
      then show ?thesis using eq last_one [of w] \<open>w \<in> set (fl_log ?b)\<close> by (metis fst_conv snd_conv)
    next
      case 3
      then show ?thesis using eq last_one [of v] \<open>v \<in> set (fl_log ?b)\<close> by (metis fst_conv snd_conv)
    qed
  qed
  ultimately show ?case unfolding lock_inv_def by blast
next
  case (revoke a)
  have log: "fl_log (a\<lparr>fl_owner := None\<rparr>) = fl_log a"
    and rest: "fl_token (a\<lparr>fl_owner := None\<rparr>) = fl_token a" "fl_owner (a\<lparr>fl_owner := None\<rparr>) = None"
    by simp_all
  show ?case using revoke unfolding lock_inv_def log rest by blast
qed

lemma lock_run_inv: "lock_run a \<Longrightarrow> lock_inv a"
proof (induction rule: lock_run.induct)
  case start
  show ?case by (simp add: lock_inv_def)
next
  case (step a b)
  then show ?case by (blast intro: lock_step_inv)
qed

section \<open>Processes over one store\<close>

record bridges =
  bs_procs :: "nat \<Rightarrow> proc"
  bs_db :: db
  bs_log :: "(nat \<times> int) list"

text \<open>
  \<open>commits\<close> is a fenced transaction with any body of the bridge's: a body never touches the
  lease row, and the rows it writes carry the store's fence, which the log records.
\<close>

definition keeps_lease :: "(db \<Rightarrow> exn + 'a \<times> db) \<Rightarrow> bool" where
  "keeps_lease body \<longleftrightarrow> (\<forall>d x d'. body d = Inr (x, d') \<longrightarrow> db_lease d' = db_lease d)"

inductive bridge_step :: "bridges \<Rightarrow> bridges \<Rightarrow> bool" where
  acquires: "lease_acquire flt now (bs_procs s i) (bs_db s) = (r, p, d) \<Longrightarrow>
     bridge_step s (s\<lparr>bs_procs := (bs_procs s)(i := p), bs_db := d\<rparr>)"
| renews: "pr_on_begin (bs_procs s i) \<Longrightarrow> lease_renew flt now (bs_procs s i) (bs_db s) = (r, p, d) \<Longrightarrow>
     bridge_step s (s\<lparr>bs_procs := (bs_procs s)(i := p), bs_db := d\<rparr>)"
| releases: "lease_release flt now (bs_procs s i) (bs_db s) = (r, p, d) \<Longrightarrow>
     bridge_step s (s\<lparr>bs_procs := (bs_procs s)(i := p), bs_db := d\<rparr>)"
| commits: "pr_on_begin (bs_procs s i) \<Longrightarrow> keeps_lease (body :: db \<Rightarrow> exn + unit \<times> db) \<Longrightarrow>
     transaction flt now True (bs_procs s i) (bs_db s) body = (r, p, d) \<Longrightarrow>
     bridge_step s (s\<lparr>bs_procs := (bs_procs s)(i := p), bs_db := d,
       bs_log := bs_log s @ (if r = Inr () then [(i, pr_store_fence (bs_procs s i))] else [])\<rparr>)"
| crashes: "bridge_step s (s\<lparr>bs_procs := (bs_procs s)(i := new_proc holder ttl)\<rparr>)"

inductive_cases bridge_stepE: "bridge_step s t"

inductive bridge_run :: "bridges \<Rightarrow> bool" where
  start: "db_lease d = None \<Longrightarrow> (\<And>i. \<exists>holder ttl. ps i = new_proc holder ttl) \<Longrightarrow>
     bridge_run \<lparr>bs_procs = ps, bs_db = d, bs_log = []\<rparr>"
| step: "bridge_run s \<Longrightarrow> bridge_step s t \<Longrightarrow> bridge_run t"

text \<open>Process \<open>i\<close> would pass the check of a fenced transaction at time \<open>now\<close>.\<close>

definition may_write :: "bridges \<Rightarrow> int \<Rightarrow> nat \<Rightarrow> bool" where
  "may_write s now i \<longleftrightarrow>
     pr_on_begin (bs_procs s i) \<and> fst (lease_check NO_FAULTS now (bs_procs s i) (bs_db s)) = Inr ()"

subsection \<open>The invariant\<close>

definition lease_fence :: "db \<Rightarrow> int" where
  "lease_fence d = (case db_lease d of Some l \<Rightarrow> ls_fence l | None \<Rightarrow> 0)"

text \<open>The process that took the row's fence and has not noticed losing it.\<close>

definition fence_owner :: "bridges \<Rightarrow> nat \<Rightarrow> bool" where
  "fence_owner s i \<longleftrightarrow> pr_held (bs_procs s i) \<and> pr_fence (bs_procs s i) = lease_fence (bs_db s)"

definition fencing_inv :: "bridges \<Rightarrow> bool" where
  "fencing_inv s \<longleftrightarrow>
     0 \<le> lease_fence (bs_db s) \<and>
     (\<forall>i. pr_held (bs_procs s i) \<longrightarrow> pr_fence (bs_procs s i) \<le> lease_fence (bs_db s)) \<and>
     (\<forall>i. pr_store_fence (bs_procs s i) = pr_fence (bs_procs s i)) \<and>
     (\<forall>i j. fence_owner s i \<longrightarrow> fence_owner s j \<longrightarrow> i = j)"

text \<open>How a concrete state shows the lock: same token, same log, the owner if there is one.\<close>

definition shows_lock :: "bridges \<Rightarrow> fence_lock \<Rightarrow> bool" where
  "shows_lock s a \<longleftrightarrow>
     fl_token a = lease_fence (bs_db s) \<and> fl_log a = bs_log s \<and>
     (\<forall>i. fence_owner s i \<longrightarrow> fl_owner a = Some i)"

text \<open>A step that leaves the fence and only makes process \<open>i\<close> lose what it held.\<close>

lemma quiet_step:
  assumes "fencing_inv s" and "shows_lock s a"
    and "lease_fence d = lease_fence (bs_db s)"
    and "pr_held p \<longrightarrow> pr_held (bs_procs s i) \<and> pr_fence p = pr_fence (bs_procs s i)"
    and "pr_store_fence p = pr_fence p"
  shows "fencing_inv (s\<lparr>bs_procs := (bs_procs s)(i := p), bs_db := d\<rparr>) \<and>
         shows_lock (s\<lparr>bs_procs := (bs_procs s)(i := p), bs_db := d\<rparr>) a"
proof -
  let ?t = "s\<lparr>bs_procs := (bs_procs s)(i := p), bs_db := d\<rparr>"
  have owners: "fence_owner ?t j \<Longrightarrow> fence_owner s j" for j
    using assms(3,4) by (auto simp: fence_owner_def split: if_splits)
  have "fencing_inv ?t"
    using assms owners unfolding fencing_inv_def by auto
  moreover have "shows_lock ?t a"
    using assms owners unfolding shows_lock_def by auto
  ultimately show ?thesis ..
qed

lemma log_update_simps [simp]:
  "fence_owner (s\<lparr>bs_log := l\<rparr>) i = fence_owner s i"
  "fencing_inv (s\<lparr>bs_log := l\<rparr>) = fencing_inv s"
  by (simp_all add: fencing_inv_def fence_owner_def)

lemma lease_fence_simps [simp]:
  "lease_fence (SQL_LEASE_EXPIRE e d) = lease_fence d"
  "db_lease d = Some l \<Longrightarrow> lease_fence (SQL_LEASE_UPDATE h f e d) = f"
  by (auto simp: lease_fence_def SQL_LEASE_EXPIRE_def SQL_LEASE_UPDATE_def split: option.splits)

lemma renew_fence:
  assumes "lease_renew flt now p d = (r, p', d')" and "pr_on_begin p"
  shows "(pr_held p' \<longrightarrow> pr_held p) \<and> pr_fence p' = pr_fence p \<and> pr_store_fence p' = pr_store_fence p
    \<and> lease_fence d' = lease_fence d"
  using assms(1) unfolding lease_renew_def
proof (cases rule: transaction_cases)
  case (committed x)
  from committed(4) assms(2) obtain l where "db_lease d = Some l" "ls_fence l = pr_fence p"
    by (auto simp: lease_check_Inr_iff)
  with committed show ?thesis by (auto simp: lease_fence_def SQL_LEASE_UPDATE_def)
qed auto

lemma release_fence:
  assumes "lease_release flt now p d = (r, p', d')"
  shows "(pr_held p' \<longrightarrow> pr_held p) \<and> pr_fence p' = pr_fence p \<and> pr_store_fence p' = pr_store_fence p
    \<and> lease_fence d' = lease_fence d"
proof (cases "pr_held p")
  case True
  obtain c q d1 where t: "transaction flt now True p d (\<lambda>d. Inr ((), SQL_LEASE_EXPIRE 0 d)) = (c, q, d1)"
    by (metis prod_cases3)
  from t have "(pr_held q \<longrightarrow> pr_held p) \<and> pr_fence q = pr_fence p \<and> pr_store_fence q = pr_store_fence p
      \<and> lease_fence d1 = lease_fence d"
    by (cases rule: transaction_cases) auto
  with assms t True show ?thesis
    unfolding lease_release_def by (auto split: sum.splits exn.splits)
qed (use assms in \<open>simp add: lease_release_def\<close>)

lemma commit_fence:
  assumes "transaction flt now True p d body = (r, p', d')" and "keeps_lease body" and "pr_on_begin p"
  shows "(pr_held p' \<longrightarrow> pr_held p) \<and> pr_fence p' = pr_fence p \<and> pr_store_fence p' = pr_store_fence p
    \<and> lease_fence d' = lease_fence d \<and> (r = Inr x \<longrightarrow> pr_held p \<and> pr_fence p = lease_fence d)"
  using assms(1)
proof (cases rule: transaction_cases)
  case (committed y)
  with assms(2) have "db_lease d' = db_lease d" by (auto simp: keeps_lease_def)
  moreover from committed(4) assms(3) obtain l where "db_lease d = Some l" "pr_held p" "ls_fence l = pr_fence p"
    by (auto simp: lease_check_Inr_iff)
  ultimately show ?thesis using committed by (auto simp: lease_fence_def)
qed auto

lemma take_fence:
  "lease_take now p d = Inr (fence, d') \<Longrightarrow> fence = lease_fence d + 1 \<and> lease_fence d' = fence"
  by (frule lease_take_Inr(1), drule lease_take_Inr(2)) (auto simp: lease_fence_def split: option.splits)

subsection \<open>Every step is a step of the lock, or none\<close>

lemma acquire_step:
  assumes inv: "fencing_inv s" "shows_lock s a"
    and acq: "lease_acquire flt now (bs_procs s i) (bs_db s) = (r, p, d)"
  defines "t \<equiv> s\<lparr>bs_procs := (bs_procs s)(i := p), bs_db := d\<rparr>"
  shows "fencing_inv t \<and> (\<exists>b. (b = a \<or> lock_step a b) \<and> shows_lock t b)"
  using acq
proof (cases rule: lease_acquire_cases)
  case (taken fence)
  let ?b = "a\<lparr>fl_token := fl_token a + 1, fl_owner := Some i\<rparr>"
  from taken(2) have f: "fence = lease_fence (bs_db s) + 1" "lease_fence d = fence"
    by (auto dest: take_fence)
  have owner: "fence_owner t j \<longleftrightarrow> j = i" for j
    using inv(1) taken f unfolding t_def fence_owner_def fencing_inv_def by fastforce
  have "fencing_inv t"
    unfolding fencing_inv_def owner using inv(1) taken f
    by (fastforce simp: t_def fencing_inv_def)
  moreover have "shows_lock t ?b"
    unfolding shows_lock_def owner using inv(2) f by (simp add: t_def shows_lock_def)
  ultimately show ?thesis using lock_step.grant by blast
next
  case (refused e)
  have "lease_fence d = lease_fence (bs_db s)" using refused by simp
  moreover have "pr_store_fence p = pr_fence p" using inv(1) refused by (simp add: fencing_inv_def)
  ultimately show ?thesis
    unfolding t_def using quiet_step [OF inv, of d p i] refused by blast
qed

lemma bridge_step_lock:
  assumes "bridge_step s t" and inv: "fencing_inv s" "shows_lock s a"
  shows "fencing_inv t \<and> (\<exists>b. (b = a \<or> lock_step a b) \<and> shows_lock t b)"
  using assms(1)
proof cases
  case (acquires flt now i r p d)
  with acquire_step [OF inv acquires(2)] show ?thesis by simp
next
  case (renews i flt now r p d)
  have sf: "pr_store_fence p = pr_fence p"
    using inv(1) renew_fence [OF renews(3,2)] by (simp add: fencing_inv_def)
  have "fencing_inv t \<and> shows_lock t a"
    unfolding renews(1) by (rule quiet_step [OF inv]) (use renew_fence [OF renews(3,2)] sf in auto)
  then show ?thesis by blast
next
  case (releases flt now i r p d)
  have sf: "pr_store_fence p = pr_fence p"
    using inv(1) release_fence [OF releases(2)] by (simp add: fencing_inv_def)
  have "fencing_inv t \<and> shows_lock t a"
    unfolding releases(1) by (rule quiet_step [OF inv]) (use release_fence [OF releases(2)] sf in auto)
  then show ?thesis by blast
next
  case (commits i body flt now r p d)
  note f = commit_fence [OF commits(4,3,2), of "()"]
  let ?u = "s\<lparr>bs_procs := (bs_procs s)(i := p), bs_db := d\<rparr>"
  have sf: "pr_store_fence p = pr_fence p" using inv(1) f by (simp add: fencing_inv_def)
  have u: "fencing_inv ?u \<and> shows_lock ?u a"
  proof (rule quiet_step [OF inv _ _ sf])
    show "lease_fence d = lease_fence (bs_db s)" using f by blast
    show "pr_held p \<longrightarrow> pr_held (bs_procs s i) \<and> pr_fence p = pr_fence (bs_procs s i)" using f by blast
  qed
  have tu: "t = ?u\<lparr>bs_log := bs_log s @ (if r = Inr () then [(i, pr_store_fence (bs_procs s i))] else [])\<rparr>"
    unfolding commits(1) by simp
  have t: "fencing_inv t"
    unfolding tu log_update_simps using u by blast
  show ?thesis
  proof (cases "r = Inr ()")
    case True
    let ?b = "a\<lparr>fl_log := fl_log a @ [(i, fl_token a)]\<rparr>"
    from True have own: "fence_owner s i" using f by (simp add: fence_owner_def)
    then have "fl_owner a = Some i" using inv(2) by (simp add: shows_lock_def)
    then have step: "lock_step a ?b" by (rule lock_step.writes)
    have "pr_store_fence (bs_procs s i) = fl_token a"
      using inv own by (simp add: fencing_inv_def shows_lock_def fence_owner_def)
    then have "shows_lock t ?b"
      using u True unfolding tu shows_lock_def log_update_simps by simp
    with t step show ?thesis by blast
  next
    case False
    then have "shows_lock t a"
      using u unfolding tu shows_lock_def log_update_simps by simp
    with t show ?thesis by blast
  qed
next
  case (crashes i holder ttl)
  have "t = s\<lparr>bs_procs := (bs_procs s)(i := new_proc holder ttl), bs_db := bs_db s\<rparr>"
    using crashes by simp
  moreover have "fencing_inv (s\<lparr>bs_procs := (bs_procs s)(i := new_proc holder ttl), bs_db := bs_db s\<rparr>) \<and>
      shows_lock (s\<lparr>bs_procs := (bs_procs s)(i := new_proc holder ttl), bs_db := bs_db s\<rparr>) a"
    by (rule quiet_step [OF inv]) (auto simp: new_proc_def)
  ultimately show ?thesis by blast
qed

lemma bridge_run_lock: "bridge_run s \<Longrightarrow> fencing_inv s \<and> (\<exists>a. lock_run a \<and> shows_lock s a)"
proof (induction rule: bridge_run.induct)
  case (start d ps)
  let ?s = "\<lparr>bs_procs = ps, bs_db = d, bs_log = []\<rparr>"
  have p: "\<not> pr_held (ps i)" "pr_store_fence (ps i) = pr_fence (ps i)" for i
    using start(2) [of i] by (auto simp: new_proc_def)
  have "fencing_inv ?s"
    using start(1) p by (simp add: fencing_inv_def fence_owner_def lease_fence_def)
  moreover have "shows_lock ?s \<lparr>fl_token = 0, fl_owner = None, fl_log = []\<rparr>"
    using start(1) p by (simp add: shows_lock_def fence_owner_def lease_fence_def)
  ultimately show ?case using lock_run.start by blast
next
  case (step s t)
  then obtain a where "lock_run a" "shows_lock s a" "fencing_inv s" by blast
  with bridge_step_lock [OF step(2)] show ?case by (blast intro: lock_run.step)
qed

lemma may_write_owner: "may_write s now i \<Longrightarrow> fence_owner s i"
  unfolding may_write_def fence_owner_def lease_fence_def lease_check_def
  by (auto simp: NO_FAULTS_def Let_def split: option.splits if_splits)

text \<open>
  C29. Refinement of a fencing lock. In every run of any number of bridge processes over one
  store file, whatever their clocks read and whenever they crash, the log of committed fenced
  transactions is a log of the lock: writes are ordered by their fence, one fence is used by one
  process only, so a process that lost the lease can never write after its successor did; and at
  any state at most one process would pass the check, namely the one the lock was granted to.
\<close>

theorem lease_refines_fencing_lock:
  assumes "bridge_run s"
  shows "(\<exists>a. lock_run a \<and> fl_log a = bs_log s \<and> fl_token a = lease_fence (bs_db s) \<and>
            (\<forall>now i. may_write s now i \<longrightarrow> fl_owner a = Some i)) \<and>
         sorted (map snd (bs_log s)) \<and>
         (\<forall>v \<in> set (bs_log s). \<forall>w \<in> set (bs_log s). snd v = snd w \<longrightarrow> fst v = fst w)"
proof -
  from bridge_run_lock [OF assms] obtain a where a: "lock_run a" "shows_lock s a" by blast
  have log: "fl_log a = bs_log s" and token: "fl_token a = lease_fence (bs_db s)"
    using a(2) by (simp_all add: shows_lock_def)
  have owner: "\<forall>now i. may_write s now i \<longrightarrow> fl_owner a = Some i"
    using may_write_owner a(2) unfolding shows_lock_def by blast
  have "lock_inv a" by (rule lock_run_inv [OF a(1)])
  then have "sorted (map snd (bs_log s))"
    and "\<forall>v \<in> set (bs_log s). \<forall>w \<in> set (bs_log s). snd v = snd w \<longrightarrow> fst v = fst w"
    unfolding lock_inv_def log by blast+
  with a(1) log token owner show ?thesis by blast
qed


section \<open>A run with two holders\<close>

definition does_acquire :: "nat \<Rightarrow> int \<Rightarrow> bridges \<Rightarrow> bridges" where
  "does_acquire i now s =
     (case lease_acquire NO_FAULTS now (bs_procs s i) (bs_db s) of
        (r, p, d) \<Rightarrow> s\<lparr>bs_procs := (bs_procs s)(i := p), bs_db := d\<rparr>)"

definition does_commit :: "nat \<Rightarrow> int \<Rightarrow> bridges \<Rightarrow> bridges" where
  "does_commit i now s =
     (case transaction NO_FAULTS now True (bs_procs s i) (bs_db s) (\<lambda>d. Inr ((), counter_add ''fed'' 1 d)) of
        (r, p, d) \<Rightarrow> s\<lparr>bs_procs := (bs_procs s)(i := p), bs_db := d,
          bs_log := bs_log s @ (if r = Inr () then [(i, pr_store_fence (bs_procs s i))] else [])\<rparr>)"

lemma does_acquire_step: "bridge_run s \<Longrightarrow> bridge_run (does_acquire i now s)"
proof -
  obtain r p d where r: "lease_acquire NO_FAULTS now (bs_procs s i) (bs_db s) = (r, p, d)"
    by (metis prod_cases3)
  assume "bridge_run s"
  with bridge_step.acquires [OF r] r show ?thesis
    unfolding does_acquire_def by (auto intro: bridge_run.step)
qed

lemma does_commit_step:
  assumes "bridge_run s" and "pr_on_begin (bs_procs s i)"
  shows "bridge_run (does_commit i now s)"
proof -
  let ?body = "\<lambda>d. Inr ((), counter_add ''fed'' 1 d) :: exn + unit \<times> db"
  obtain r p d where r: "transaction NO_FAULTS now True (bs_procs s i) (bs_db s) ?body = (r, p, d)"
    by (metis prod_cases3)
  have "keeps_lease ?body" by (simp add: keeps_lease_def counter_add_def)
  from bridge_step.commits [OF assms(2) this r] r assms(1) show ?thesis
    unfolding does_commit_def by (auto intro: bridge_run.step)
qed

definition two_bridges :: bridges where
  "two_bridges = \<lparr>bs_procs = (\<lambda>i. new_proc (if i = 0 then asc ''a'' else asc ''b'') 100),
     bs_db = empty_db, bs_log = []\<rparr>"

definition takeover :: bridges where
  "takeover = does_commit 0 205 (does_commit 1 204 (does_acquire 1 200 (does_commit 0 50
     (does_acquire 0 10 two_bridges))))"

lemmas takeover_simps = does_acquire_def does_commit_def lease_acquire_def transaction_def lease_take_def
  lease_check_def two_bridges_def empty_db_def new_proc_def NO_FAULTS_def SQL_LEASE_INSERT_def
  SQL_LEASE_UPDATE_def SQL_JOBS_REVALIDATE_def SQL_JOBS_INFLIGHT_UNKNOWN_def counter_add_def Let_def

lemma takeover_run: "bridge_run takeover"
proof -
  have 0: "bridge_run two_bridges"
    unfolding two_bridges_def by (rule bridge_run.start) (auto simp: empty_db_def)
  note 1 = does_acquire_step [OF 0, of 0 10]
  have 2: "bridge_run (does_commit 0 50 (does_acquire 0 10 two_bridges))"
    by (rule does_commit_step [OF 1]) (simp add: takeover_simps)
  note 3 = does_acquire_step [OF 2, of 1 200]
  have 4: "bridge_run (does_commit 1 204 (does_acquire 1 200 (does_commit 0 50 (does_acquire 0 10 two_bridges))))"
    by (rule does_commit_step [OF 3]) (simp add: takeover_simps)
  show ?thesis
    unfolding takeover_def by (rule does_commit_step [OF 4]) (simp add: takeover_simps)
qed

text \<open>
  The first process commits under fence 1; its lease runs out, the second takes it under fence 2
  and commits; the first tries again and is refused.
\<close>

lemma lease_refines_fencing_lock_witness:
  "bs_log takeover = [(0, 1), (1, 2)] \<and>
   (\<exists>a. lock_run a \<and> fl_log a = [(0, 1), (1, 2)] \<and> fl_token a = 2)"
proof -
  have log: "bs_log takeover = [(0, 1), (1, 2)]"
    unfolding takeover_def by (simp add: takeover_simps)
  have token: "lease_fence (bs_db takeover) = 2"
    unfolding takeover_def lease_fence_def by (simp add: takeover_simps)
  from lease_refines_fencing_lock [OF takeover_run] log token show ?thesis by metis
qed

end
