(* ===== verification/Link16_State.thy ===== *)
theory Link16_State
  imports Link16_Lease
begin

text \<open>
  Source identities, \<^verbatim>\<open>identity.py\<close>, and the history and current state kept for each,
  \<^verbatim>\<open>state.py\<close>, as changes of the store inside an open transaction. \<open>bridge_env\<close> holds what these
  modules take from elsewhere: the JSON functions, the UUID derivation of \<^verbatim>\<open>synapse_cdm.ids\<close> and
  the inverse of the identity key, \<open>json.loads\<close>.
\<close>

section \<open>Identity keys\<close>

record ident =
  it_tenant :: pytext
  it_realm :: pytext
  it_synthetic :: bool
  it_scope :: pytext
  it_number :: pytext
  it_incarnation :: pytext

text \<open>
  \<open>json.dumps\<close> of the six values with \<open>ensure_ascii\<close> and no spaces. A code point above 16 bits
  is written as two escapes.
\<close>

definition hex_digit :: "nat \<Rightarrow> nat" where
  "hex_digit v = (if v < 10 then 48 + v else 87 + v)"

definition u_escape :: "nat \<Rightarrow> pytext" where
  "u_escape c = [92, 117, hex_digit (c div 4096 mod 16), hex_digit (c div 256 mod 16),
     hex_digit (c div 16 mod 16), hex_digit (c mod 16)]"

definition escape_char :: "nat \<Rightarrow> pytext" where
  "escape_char c =
     (if c = 34 then [92, 34] else if c = 92 then [92, 92] else if c = 10 then [92, 110]
      else if c = 13 then [92, 114] else if c = 9 then [92, 116] else if c = 12 then [92, 102]
      else if c = 8 then [92, 98] else if 32 \<le> c \<and> c \<le> 126 then [c]
      else if c < 65536 then u_escape c
      else u_escape (55296 + (c - 65536) div 1024) @ u_escape (56320 + (c - 65536) mod 1024))"

definition json_quote :: "pytext \<Rightarrow> pytext" where
  "json_quote t = [34] @ concat (map escape_char t) @ [34]"

definition key_of :: "ident \<Rightarrow> pytext" where
  "key_of f =
     asc ''['' @ json_quote (it_tenant f) @ asc '','' @ json_quote (it_realm f) @ asc '','' @
     (if it_synthetic f then asc ''true'' else asc ''false'') @ asc '','' @ json_quote (it_scope f) @
     asc '','' @ json_quote (it_number f) @ asc '','' @ json_quote (it_incarnation f) @ asc '']''"

text \<open>The six values of a report, a notice or an identity object, which its reader has validated.\<close>

definition text_of :: "jobject \<Rightarrow> string \<Rightarrow> exn + pytext" where
  "text_of d k = (case jget d k of Some (JStr t) \<Rightarrow> Inr t | _ \<Rightarrow> Inl (BodyKeyError k))"

definition flag_of :: "jobject \<Rightarrow> string \<Rightarrow> exn + bool" where
  "flag_of d k = (case jget d k of Some (JBool b) \<Rightarrow> Inr b | _ \<Rightarrow> Inl (BodyKeyError k))"

definition ident_of :: "jobject \<Rightarrow> exn + ident" where
  "ident_of d =
     rbind (text_of d ''tenant'') (\<lambda>tenant. rbind (text_of d ''realm'') (\<lambda>realm.
     rbind (flag_of d ''synthetic'') (\<lambda>synthetic. rbind (text_of d ''origin_scope'') (\<lambda>scope.
     rbind (text_of d ''track_number'') (\<lambda>number. rbind (text_of d ''incarnation'') (\<lambda>incarnation.
     Inr \<lparr>it_tenant = tenant, it_realm = realm, it_synthetic = synthetic, it_scope = scope,
          it_number = number, it_incarnation = incarnation\<rparr>))))))"

text \<open>
  \<open>be_closed\<close> reads a stored Entity back, gives it its end and dumps it for the sink: its octets and
  its schema version, or what the CDM model or the time conversion raises.
\<close>

record bridge_env =
  be_json :: json_env
  be_derive :: "string \<Rightarrow> pytext \<Rightarrow> pytext"
  be_fields_of :: "pytext \<Rightarrow> ident"
  be_closed :: "bytes \<Rightarrow> int \<Rightarrow> exn + bytes \<times> pytext"

definition entity_ids :: "bridge_env \<Rightarrow> pytext \<Rightarrow> pytext \<times> pytext" where
  "entity_ids be key = (be_derive be ''entity'' key, be_derive be ''track'' key)"

section \<open>Admission of identities\<close>

datatype decision = Decision (dc_accept: bool) (dc_late: bool) (dc_code: "string option")

definition insert_identity ::
    "bridge_env \<Rightarrow> int \<Rightarrow> pytext \<Rightarrow> ident \<Rightarrow> string \<Rightarrow> int \<Rightarrow> int option \<Rightarrow> int option \<Rightarrow>
     pytext option \<Rightarrow> db \<Rightarrow> exn + db" where
  "insert_identity be fence key f status epoch first_effective tombstone_at tombstone_record =
     SQL_IDENTITY_INSERT
       \<lparr>id_key = key, id_tenant = it_tenant f, id_realm = it_realm f, id_synthetic = it_synthetic f,
        id_scope = it_scope f, id_number = it_number f, id_incarnation = it_incarnation f,
        id_entity = fst (entity_ids be key), id_track = snd (entity_ids be key), id_status = status,
        id_epoch = epoch, id_tombstone_at = tombstone_at, id_tombstone_record = tombstone_record,
        id_first_effective = first_effective, id_reuse_decision = None, id_fence = fence,
        id_reuse_scope = None\<rparr>"

definition highest_incarnation :: "identity_row list \<Rightarrow> nat option" where
  "highest_incarnation siblings =
     (case siblings of [] \<Rightarrow> None | _ \<Rightarrow> Some (foldr max (map (undec \<circ> id_incarnation) siblings) 0))"

definition newer_incarnation_first :: "identity_row list \<Rightarrow> nat \<Rightarrow> int \<Rightarrow> bool" where
  "newer_incarnation_first siblings incarnation effective_at \<longleftrightarrow>
     list_ex (\<lambda>r. incarnation < undec (id_incarnation r) \<and>
       (case id_first_effective r of Some first \<Rightarrow> first < effective_at | None \<Rightarrow> False)) siblings"

definition supersede :: "int \<Rightarrow> int \<Rightarrow> pytext \<Rightarrow> db \<Rightarrow> db" where
  "supersede now fence sibling d =
     fold (\<lambda>q. SQL_QUARANTINE_RESOLVE now ''SUPERSEDED_BY_INCARNATION'' fence (qu_id q))
       (SQL_QUARANTINE_REUSE sibling d) d"

definition supersede_below :: "int \<Rightarrow> int \<Rightarrow> nat \<Rightarrow> identity_row list \<Rightarrow> db \<Rightarrow> db" where
  "supersede_below now fence incarnation siblings =
     fold (\<lambda>r. supersede now fence (id_key r))
       (filter (\<lambda>r. undec (id_incarnation r) < incarnation) siblings)"

definition known_decision :: "identity_row \<Rightarrow> identity_row list \<Rightarrow> nat \<Rightarrow> int \<Rightarrow> decision" where
  "known_decision row siblings incarnation effective_at =
     (if id_status row = ''LIVE'' then
        (let floor = (if id_reuse_decision row = Some ''continue'' then
                        (case id_reuse_scope row of Some s \<Rightarrow> max incarnation s | None \<Rightarrow> incarnation)
                      else incarnation)
         in if newer_incarnation_first siblings floor effective_at
            then Decision False False (Some ''REUSE_AMBIGUOUS'') else Decision True False None)
      else if id_status row = ''TOMBSTONED'' then
        (case id_tombstone_at row of
           Some closed \<Rightarrow> if effective_at \<le> closed then Decision True True None
                         else Decision False False (Some ''REUSE_AMBIGUOUS'')
         | None \<Rightarrow> Decision False False (Some ''REUSE_AMBIGUOUS''))
      else Decision False False (Some ''REUSE_AMBIGUOUS''))"

definition resolve_identity ::
    "bridge_env \<Rightarrow> int \<Rightarrow> int \<Rightarrow> int \<Rightarrow> nat \<Rightarrow> ident \<Rightarrow> int \<Rightarrow> db \<Rightarrow> exn + decision \<times> db" where
  "resolve_identity be now fence epoch max_identities f effective_at d =
     (let key = key_of f;
          incarnation = undec (it_incarnation f);
          siblings = SQL_IDENTITY_SCOPE (it_tenant f) (it_realm f) (it_synthetic f) (it_scope f)
                       (it_number f) d in
      case SQL_IDENTITY_GET key d of
        Some row \<Rightarrow> Inr (known_decision row siblings incarnation effective_at, d)
      | None \<Rightarrow>
          if newer_incarnation_first siblings incarnation effective_at
          then Inr (Decision False False (Some ''REUSE_AMBIGUOUS''), d)
          else if max_identities \<le> SQL_IDENTITY_COUNT_LIVE d then Inl (CapacityStop ''CAPACITY_IDENTITIES'')
          else rbind (insert_identity be fence key f ''LIVE'' epoch (Some effective_at) None None d) (\<lambda>d.
               Inr (Decision True False None, supersede_below now fence incarnation siblings d)))"

section \<open>History and current state\<close>

definition PROVENANCE_KEYS :: "string list" where
  "PROVENANCE_KEYS = [''record_id'', ''gateway_id'', ''session_id'', ''sequence'', ''received_at'',
     ''reporter'', ''time_evidence'']"

definition state_sha256 :: "json_env \<Rightarrow> jobject \<Rightarrow> pytext" where
  "state_sha256 je report =
     je_sha256 je (je_canonical je
       (JObj (filter (\<lambda>(k, _). k \<notin> asc ` set PROVENANCE_KEYS) report)))"

text \<open>
  A CDM object as the bridge hands it on: its canonical octets under the negotiated projection
  and the schema version stamped on it.
\<close>

record cdm_object =
  co_payload :: bytes
  co_schema :: pytext

definition publish ::
    "int \<Rightarrow> int \<Rightarrow> pytext \<Rightarrow> string \<Rightarrow> bytes \<Rightarrow> pytext option \<Rightarrow> string list \<Rightarrow> db \<Rightarrow> db" where
  "publish now fence event_key kind payload schema flags =
     SQL_OUTBOX_INSERT
       \<lparr>ox_key = event_key, ox_kind = kind, ox_payload = payload, ox_schema = schema,
        ox_flags = sort (remdups flags), ox_bytes = length payload, ox_created_at = now,
        ox_dispatched_at = None, ox_fence = fence\<rparr>"

text \<open>What \<open>apply\<close> reads off the accepted report before it touches the store.\<close>

record report_view =
  rv_record :: pytext
  rv_effective_at :: int
  rv_position :: "json option"
  rv_pos_at :: "int option"
  rv_kin_at :: "int option"
  rv_digest :: pytext
  rv_domain :: pytext

definition to_exn :: "refusal + 'a \<Rightarrow> exn + 'a" where
  "to_exn r = (case r of Inl e \<Rightarrow> Inl (TimeRefused e) | Inr x \<Rightarrow> Inr x)"

definition time_of :: "jobject \<Rightarrow> string \<Rightarrow> exn + int" where
  "time_of d k = (case jget d k of Some v \<Rightarrow> to_exn (parse_ms v k) | None \<Rightarrow> Inl (BodyKeyError k))"

definition component :: "jobject \<Rightarrow> string \<Rightarrow> exn + (json \<times> int) option" where
  "component report k =
     (case jget report k of
        Some JNull \<Rightarrow> Inr None
      | Some (JObj p) \<Rightarrow>
          (case jget p ''observed_at'' of
             Some v \<Rightarrow> rbind (to_exn (parse_ms v k)) (\<lambda>t. Inr (Some (JObj p, t)))
           | None \<Rightarrow> Inl (BodyKeyError ''observed_at''))
      | _ \<Rightarrow> Inl (BodyKeyError k))"

definition read_report :: "json_env \<Rightarrow> jobject \<Rightarrow> exn + report_view" where
  "read_report je report =
     rbind (text_of report ''record_id'') (\<lambda>record_id.
     rbind (time_of report ''effective_at'') (\<lambda>effective_at.
     rbind (component report ''position'') (\<lambda>position.
     rbind (component report ''kinematics'') (\<lambda>motion.
     rbind (text_of report ''domain'') (\<lambda>domain.
     Inr \<lparr>rv_record = record_id, rv_effective_at = effective_at, rv_position = map_option fst position,
          rv_pos_at = map_option snd position, rv_kin_at = map_option snd motion,
          rv_digest = state_sha256 je report, rv_domain = domain\<rparr>)))))"

definition put_current :: "int \<Rightarrow> pytext \<Rightarrow> report_view \<Rightarrow> bytes \<Rightarrow> db \<Rightarrow> db" where
  "put_current fence key v payload =
     SQL_CURRENT_PUT key (rv_record v) (rv_effective_at v) (rv_digest v) (rv_pos_at v) (rv_kin_at v)
       (rv_domain v) payload fence"

text \<open>The flag, the conflict and the change of the current row.\<close>

definition move_current ::
    "int \<Rightarrow> pytext \<Rightarrow> report_view \<Rightarrow> bytes \<Rightarrow> bool \<Rightarrow> db \<Rightarrow> (string option \<times> nat option) \<times> db" where
  "move_current fence key v payload force_late d =
     (case SQL_CURRENT_GET key d of
        None \<Rightarrow>
          if force_late then ((Some ''LATE'', None), d)
          else ((None, None), put_current fence key v payload d)
      | Some c \<Rightarrow>
          if force_late \<or> rv_effective_at v < cu_effective_at c then ((Some ''LATE'', None), d)
          else if rv_effective_at v = cu_effective_at c then
            (if rv_digest v = cu_sha256 c then ((Some ''REFRESH'', None), d)
             else case SQL_CONFLICT_INSERT key (rv_effective_at v) (cu_record c) (rv_record v) d of
               (cid, d) \<Rightarrow> ((Some ''CONFLICT'', Some cid), SQL_CURRENT_CONFLICT cid fence key d))
          else ((None, None), put_current fence key v payload d))"

definition record_sample :: "json_env \<Rightarrow> pytext \<Rightarrow> report_view \<Rightarrow> db \<Rightarrow> db" where
  "record_sample je key v d =
     (case (rv_position v, rv_pos_at v) of
        (Some position, Some pos_at) \<Rightarrow>
          (let sample = je_sha256 je (je_canonical je position) in
           case map_of (db_sample d) (key, pos_at) of
             None \<Rightarrow> SQL_SAMPLE_INSERT key pos_at sample (rv_record v) d
           | Some known \<Rightarrow>
               if sm_sha256 known = sample then SQL_SAMPLE_REFRESH key pos_at d
               else SQL_SAMPLE_CONFLICT key pos_at (rv_record v) sample d)
      | _ \<Rightarrow> d)"

definition event_key :: "pytext \<Rightarrow> nat \<Rightarrow> pytext" where
  "event_key record_id i = record_id @ asc '':'' @ dec i"

definition publish_objects :: "int \<Rightarrow> int \<Rightarrow> pytext \<Rightarrow> cdm_object list \<Rightarrow> string list \<Rightarrow> db \<Rightarrow> db" where
  "publish_objects now fence record_id objects flags =
     fold (\<lambda>(i, x). publish now fence (event_key record_id i) ''cdm'' (co_payload x) (Some (co_schema x)) flags)
       (enumerate 0 objects)"

definition apply_view ::
    "bridge_env \<Rightarrow> int \<Rightarrow> int \<Rightarrow> pytext \<Rightarrow> report_view \<Rightarrow> cdm_object list \<Rightarrow> bool \<Rightarrow> string list \<Rightarrow>
     db \<Rightarrow> exn + string option \<times> db" where
  "apply_view be now fence key v objects force_late flags d =
     (case objects of
        [] \<Rightarrow> Inl (BodyKeyError ''objects'')
      | entity # _ \<Rightarrow>
          (case move_current fence key v (co_payload entity) force_late d of
             ((flag, conflict), d) \<Rightarrow>
               rbind (SQL_OBSERVATION_INSERT
                  \<lparr>hs_key = key, hs_record = rv_record v, hs_effective_at = rv_effective_at v,
                   hs_pos_at = rv_pos_at v, hs_kin_at = rv_kin_at v, hs_sha256 = rv_digest v,
                   hs_late = (flag = Some ''LATE''), hs_flag = flag, hs_conflict = conflict,
                   hs_ingested_at = now, hs_fence = fence\<rparr> d) (\<lambda>d.
               let d = record_sample (be_json be) key v d;
                   d = publish_objects now fence (rv_record v) objects
                         (flags @ (case flag of Some fl \<Rightarrow> [fl] | None \<Rightarrow> [])) d;
                   d = counter_add ''accepted'' 1 d
               in Inr (flag, if flag = Some ''LATE'' then counter_add ''late'' 1 d else d))))"

definition apply_state ::
    "bridge_env \<Rightarrow> int \<Rightarrow> int \<Rightarrow> pytext \<Rightarrow> jobject \<Rightarrow> cdm_object list \<Rightarrow> bool \<Rightarrow> string list \<Rightarrow>
     db \<Rightarrow> exn + string option \<times> db" where
  "apply_state be now fence key report objects force_late flags d =
     rbind (read_report (be_json be) report) (\<lambda>v.
       apply_view be now fence key v objects force_late flags d)"

end
