(* ===== verification/Link16_Policy.thy ===== *)
theory Link16_Policy
  imports Link16_State Complex_Main
begin

text \<open>
  The deployment configuration the bridge acts on (\<^verbatim>\<open>config.py\<close>) and the pure decisions taken
  from it: the export policy (\<^verbatim>\<open>policy.py\<close>), the capacity limits (\<^verbatim>\<open>limits.py\<close>), the freshness
  of a contribution (\<^verbatim>\<open>freshness.py\<close>), the negotiation of the schema (\<^verbatim>\<open>negotiate.py\<close>), the
  checks in front of the adapter (\<^verbatim>\<open>translate.py\<close>) and the reconnect backoff (\<^verbatim>\<open>backoff.py\<close>).
  A configured number of seconds is a double: it is kept as the rational it is, in milliseconds
  where the code compares it with milliseconds.
\<close>

section \<open>Configuration\<close>

record destination =
  ds_peer_id :: pytext
  ds_tenant :: pytext
  ds_realm :: pytext
  ds_synthetic :: bool
  ds_security_context :: pytext
  ds_vertical_forms :: "(pytext \<times> pytext) list"
  ds_vertical_required :: bool

record policy_rule =
  pl_revision :: pytext
  pl_source_tenant :: pytext
  pl_source_realm :: pytext
  pl_source_synthetic :: bool
  pl_label_set :: "pytext set"
  pl_destination :: destination
  pl_families :: "pytext list"

record caps =
  max_identities :: nat
  max_queued_reports :: nat
  max_queued_report_bytes :: nat
  max_queued_exports :: nat
  max_queued_export_bytes :: nat
  max_quarantine_bytes :: nat
  fetch_limit :: nat
  batch_retry_max :: int
  max_body_bytes :: nat

datatype bridge_mode = INGEST | BIDIRECTIONAL
datatype realm_kind = LIVE_REALM | EXERCISE_REALM | REPLAY_REALM

record bridge_config =
  bc_revision :: pytext
  bc_mode :: bridge_mode
  bc_gateway_base_url :: pytext
  bc_gateway_id :: pytext
  bc_consumer_id :: pytext
  bc_credential_ref :: pytext
  bc_tenant :: pytext
  bc_realm :: pytext
  bc_realm_kind :: realm_kind
  bc_synthetic :: bool
  bc_security_context :: pytext
  bc_scopes :: "pytext list"
  bc_native_profile :: pytext
  bc_cdm_schema_version :: "pytext list"
  bc_receive_families :: "pytext list"
  bc_required_families :: "pytext list"
  bc_transmit_families :: "pytext list"
  bc_export_policy :: "policy_rule list"
  bc_number_allocations_ref :: "pytext option"
  bc_peer_profile :: "jobject option"
  bc_freshness_ms :: "(pytext, rat) dict"
  bc_request_deadline :: rat
  bc_long_poll :: rat
  bc_connect_timeout :: rat
  bc_transport_allowance :: rat
  bc_outbound_max_age_ms :: rat
  bc_limits :: caps
  bc_store_path :: pytext
  bc_lease_ttl :: rat
  bc_idle_poll :: rat

section \<open>Export policy\<close>

definition source_labels :: "bridge_config \<Rightarrow> pytext set" where
  "source_labels cfg = {bc_security_context cfg}"

definition policy_candidates :: "bridge_config \<Rightarrow> pytext \<Rightarrow> bool \<Rightarrow> policy_rule list" where
  "policy_candidates cfg peer_id source_synthetic =
     filter (\<lambda>r. ds_peer_id (pl_destination r) = peer_id \<and> pl_source_tenant r = bc_tenant cfg \<and>
        pl_source_realm r = bc_realm cfg \<and> pl_source_synthetic r = source_synthetic \<and>
        pl_label_set r = source_labels cfg) (bc_export_policy cfg)"

text \<open>The reason is left, the rule right.\<close>

definition policy_resolve :: "bridge_config \<Rightarrow> pytext \<Rightarrow> bool \<Rightarrow> string + policy_rule" where
  "policy_resolve cfg peer_id source_synthetic =
     (case policy_candidates cfg peer_id source_synthetic of
        [] \<Rightarrow> Inl ''POLICY_DENIED''
      | candidates \<Rightarrow>
          (case filter (\<lambda>r. ds_synthetic (pl_destination r) = source_synthetic) candidates of
             [] \<Rightarrow> Inl ''SYNTHETIC_MISMATCH''
           | r # _ \<Rightarrow> if ds_realm (pl_destination r) = bc_realm cfg then Inl ''REALM_LOOP'' else Inr r))"

definition policy_family :: "policy_rule \<Rightarrow> bridge_config \<Rightarrow> pytext list \<Rightarrow> pytext option" where
  "policy_family rule cfg gateway_transmit =
     find (\<lambda>name. name \<in> set (bc_transmit_families cfg) \<and> name \<in> set gateway_transmit) (pl_families rule)"

section \<open>Limits\<close>

record usage =
  us_reports :: nat
  us_report_bytes :: nat
  us_exports :: nat
  us_export_bytes :: nat
  us_identities :: nat
  us_quarantine :: nat

definition STOPS_FETCHING :: "string list" where "STOPS_FETCHING = [''CAPACITY_REPORTS'']"

definition quarantine_bytes :: "db \<Rightarrow> nat" where
  "quarantine_bytes d = SQL_QUARANTINE_BYTES d + SQL_RAW_BYTES d"

definition usage_of :: "db \<Rightarrow> usage" where
  "usage_of d =
     \<lparr>us_reports = fst (SQL_OUTBOX_QUEUE d), us_report_bytes = snd (SQL_OUTBOX_QUEUE d),
      us_exports = fst (SQL_JOBS_QUEUE d), us_export_bytes = snd (SQL_JOBS_QUEUE d),
      us_identities = SQL_IDENTITY_COUNT_LIVE d, us_quarantine = quarantine_bytes d\<rparr>"

definition limit_pairs :: "usage \<Rightarrow> caps \<Rightarrow> (string \<times> nat \<times> nat) list" where
  "limit_pairs u c =
     [(''CAPACITY_REPORTS'', us_reports u, max_queued_reports c),
      (''CAPACITY_REPORTS'', us_report_bytes u, max_queued_report_bytes c),
      (''CAPACITY_EXPORTS'', us_exports u, max_queued_exports c),
      (''CAPACITY_EXPORTS'', us_export_bytes u, max_queued_export_bytes c),
      (''CAPACITY_IDENTITIES'', us_identities u, max_identities c),
      (''CAPACITY_QUARANTINE'', us_quarantine u, max_quarantine_bytes c)]"

definition codes_over :: "(nat \<Rightarrow> nat \<Rightarrow> bool) \<Rightarrow> usage \<Rightarrow> caps \<Rightarrow> string list" where
  "codes_over over u c =
     fold (\<lambda>(code, v, cap) out. if over v cap \<and> code \<notin> set out then out @ [code] else out) (limit_pairs u c) []"

definition full_codes :: "usage \<Rightarrow> caps \<Rightarrow> string list" where
  "full_codes = codes_over (\<lambda>v cap. cap \<le> v)"

definition warning_codes :: "(nat \<Rightarrow> rat) \<Rightarrow> usage \<Rightarrow> caps \<Rightarrow> string list" where
  \<comment> \<open>\<open>eighty cap\<close> is the double \<open>WARNING_FRACTION * cap\<close>\<close>
  "warning_codes eighty = codes_over (\<lambda>v cap. eighty cap \<le> of_nat v)"

definition exports_full :: "usage \<Rightarrow> caps \<Rightarrow> bool" where
  "exports_full u c \<longleftrightarrow> max_queued_exports c \<le> us_exports u \<or> max_queued_export_bytes c \<le> us_export_bytes u"

definition quarantine_full :: "db \<Rightarrow> caps \<Rightarrow> bool" where
  "quarantine_full d c \<longleftrightarrow> max_quarantine_bytes c \<le> quarantine_bytes d"

section \<open>Freshness\<close>

definition SKEW_MS :: int where "SKEW_MS = 5000"

definition freshness_status :: "int \<Rightarrow> int \<Rightarrow> rat \<Rightarrow> string" where
  "freshness_status now observed_at threshold =
     (let age = now - observed_at in
      if age < - SKEW_MS then ''TIME_SKEW''
      else if 4 * threshold \<le> of_int age then ''EXPIRED''
      else if threshold \<le> of_int age then ''STALE''
      else ''ACTIVE'')"

definition threshold_of :: "bridge_config \<Rightarrow> pytext \<Rightarrow> rat" where
  \<comment> \<open>the table has every domain of the contract; a \<open>KeyError\<close> of another is not reached\<close>
  "threshold_of cfg domain = (case map_of (bc_freshness_ms cfg) domain of Some t \<Rightarrow> t | None \<Rightarrow> 0)"

definition of_current :: "bridge_config \<Rightarrow> int \<Rightarrow> current_row \<Rightarrow> string \<times> string option" where
  "of_current cfg now c =
     (let threshold = threshold_of cfg (cu_domain c) in
      (freshness_status now (case cu_pos_at c of Some t \<Rightarrow> t | None \<Rightarrow> cu_effective_at c) threshold,
       map_option (\<lambda>t. freshness_status now t threshold) (cu_kin_at c)))"

definition freshness_key :: "pytext \<Rightarrow> string \<Rightarrow> string option \<Rightarrow> pytext" where
  "freshness_key record_id main motion =
     record_id @ asc '':freshness:'' @ asc main @ asc '':'' @
     asc (case motion of Some m \<Rightarrow> m | None \<Rightarrow> ''NONE'')"

definition freshness_payload :: "json_env \<Rightarrow> pytext \<Rightarrow> current_row \<Rightarrow> string \<Rightarrow> string option \<Rightarrow> bytes" where
  "freshness_payload je key c main motion =
     je_canonical je (JObj
       [(asc ''identity_key'', JStr key), (asc ''record_id'', JStr (cu_record c)),
        (asc ''status'', JStr (asc main)),
        (asc ''motion_status'', case motion of Some m \<Rightarrow> JStr (asc m) | None \<Rightarrow> JNull)])"

definition freshness_change ::
    "json_env \<Rightarrow> int \<Rightarrow> int \<Rightarrow> pytext \<Rightarrow> current_row \<Rightarrow> string \<Rightarrow> string option \<Rightarrow> db \<Rightarrow> db" where
  "freshness_change je now fence key c main motion d =
     (let d = SQL_CURRENT_FRESHNESS main motion fence key d;
          d = (if main = ''TIME_SKEW'' \<and> cu_freshness c \<noteq> Some ''TIME_SKEW''
               then counter_add ''time_skew'' 1 d else d)
      in publish now fence (freshness_key (cu_record c) main motion) ''freshness''
           (freshness_payload je key c main motion) None [] d)"

definition freshness_row ::
    "json_env \<Rightarrow> bridge_config \<Rightarrow> int \<Rightarrow> int \<Rightarrow> pytext \<times> current_row \<Rightarrow>
     (pytext \<times> string \<times> string option) list \<times> db \<Rightarrow> (pytext \<times> string \<times> string option) list \<times> db" where
  "freshness_row je cfg now fence row acc =
     (case (row, acc) of ((key, c), (changes, d)) \<Rightarrow>
        if cu_contribution c \<noteq> ''ACTIVE'' then acc
        else (case of_current cfg now c of (main, motion) \<Rightarrow>
           if (Some main, motion) = (cu_freshness c, cu_motion c) then acc
           else (changes @ [(key, main, motion)], freshness_change je now fence key c main motion d)))"

definition evaluate_freshness ::
    "json_env \<Rightarrow> bridge_config \<Rightarrow> int \<Rightarrow> int \<Rightarrow> db \<Rightarrow> (pytext \<times> string \<times> string option) list \<times> db" where
  "evaluate_freshness je cfg now fence d =
     fold (freshness_row je cfg now fence) (SQL_CURRENT_ALL d) ([], d)"

section \<open>Negotiation\<close>

datatype projection_choice = FULL | COMPAT_3_0 | NEGOTIATION_FAILED

definition COMPAT_VERSION :: pytext where "COMPAT_VERSION = asc ''3.0.0''"
definition FIRST_FULL :: "nat \<times> nat \<times> nat" where "FIRST_FULL = (3, 1, 0)"

fun split_dots :: "pytext \<Rightarrow> pytext list" where
  "split_dots [] = [[]]"
| "split_dots (c # t) =
     (if c = 46 then [] # split_dots t
      else case split_dots t of w # ws \<Rightarrow> (c # w) # ws | [] \<Rightarrow> [[c]])"

definition version_triple :: "pytext \<Rightarrow> (nat \<times> nat \<times> nat) option" where
  "version_triple version =
     (case split_dots version of
        [a, b, c] \<Rightarrow>
          if list_all (\<lambda>p. p \<noteq> [] \<and> list_all is_digit p) [a, b, c]
          then Some (undec a, undec b, undec c) else None
      | _ \<Rightarrow> None)"

definition choose_projection :: "pytext list \<Rightarrow> pytext \<Rightarrow> projection_choice" where
  "choose_projection accepts installed =
     (if installed \<in> set accepts \<and>
         (case version_triple installed of Some t \<Rightarrow> FIRST_FULL \<le> t | None \<Rightarrow> False) then FULL
      else if COMPAT_VERSION \<in> set accepts then COMPAT_3_0
      else NEGOTIATION_FAILED)"

definition adapter_schema :: "projection_choice \<Rightarrow> pytext option option" where
  \<comment> \<open>\<open>None\<close> is the \<open>ValueError\<close> of a failed negotiation\<close>
  "adapter_schema p =
     (case p of FULL \<Rightarrow> Some None | COMPAT_3_0 \<Rightarrow> Some (Some COMPAT_VERSION) | NEGOTIATION_FAILED \<Rightarrow> None)"

section \<open>The checks in front of the adapter\<close>

datatype action = ACCEPT | QUARANTINE | OPAQUE | STOP

record verdict =
  vd_action :: action
  vd_code :: "string option"
  vd_path :: "string option"
  vd_rule :: "string option"
  vd_objects :: "cdm_object list"
  vd_flags :: "string list"

definition refused_as :: "action \<Rightarrow> string \<Rightarrow> string \<Rightarrow> string \<Rightarrow> verdict" where
  "refused_as action code path rule =
     \<lparr>vd_action = action, vd_code = Some code, vd_path = Some path, vd_rule = Some rule,
      vd_objects = [], vd_flags = []\<rparr>"

definition COMPAT_FLAG :: string where "COMPAT_FLAG = ''POSITION_NOT_PROJECTED_CDM3''"

definition channel_expected :: "bridge_config \<Rightarrow> (string \<times> pytext) list" where
  "channel_expected cfg =
     [(''gateway_id'', bc_gateway_id cfg), (''tenant'', bc_tenant cfg), (''realm'', bc_realm cfg),
      (''security_context'', bc_security_context cfg)]"

definition channel_check :: "bridge_config \<Rightarrow> string \<Rightarrow> jobject \<Rightarrow> verdict option" where
  "channel_check cfg kind body =
     (if jbool (jget body ''synthetic'') = Some (\<not> bc_synthetic cfg)
      then Some (refused_as STOP ''SYNTHETIC_MISMATCH'' ''synthetic'' ''differs from the channel'')
      else
        (let keys = (if kind = ''report'' then channel_expected cfg else tl (channel_expected cfg)) in
         case find (\<lambda>(k, expected). case jstr (jget body k) of Some t \<Rightarrow> t \<noteq> expected | None \<Rightarrow> False) keys of
           Some (k, _) \<Rightarrow> Some (refused_as STOP ''SECURITY_CONTEXT_MISMATCH'' k ''differs from the channel'')
         | None \<Rightarrow> None))"

definition scope_check :: "bridge_config \<Rightarrow> jobject \<Rightarrow> verdict option" where
  "scope_check cfg body =
     (case jstr (jget body ''origin_scope'') of
        Some scope \<Rightarrow>
          if scope \<notin> set (bc_scopes cfg)
          then Some (refused_as QUARANTINE ''IDENTITY_SCOPE_UNRESOLVED'' ''origin_scope''
                      ''scope not approved for this channel'')
          else None
      | None \<Rightarrow> None)"

definition family_check :: "pytext list \<Rightarrow> jobject \<Rightarrow> verdict option" where
  "family_check families body =
     (case jstr (jget body ''message_family'') of
        Some family \<Rightarrow>
          if family \<notin> set families
          then Some (refused_as OPAQUE ''UNSUPPORTED_MESSAGE'' ''message_family''
                      ''family not supported on this channel'')
          else None
      | None \<Rightarrow> None)"

text \<open>
  The adapter's answer to a report's canonical octets: a refusal of the contract, a body above
  the base class's bounds, or the objects with the note that the position was not projected.
\<close>

datatype adapter_answer =
    AdapterRefusal string string string
  | AdapterInputTooLarge
  | AdapterObjects "cdm_object list" bool

definition translate :: "(jobject \<Rightarrow> adapter_answer) \<Rightarrow> jobject \<Rightarrow> verdict" where
  "translate adapter body =
     (case adapter body of
        AdapterRefusal code path rule \<Rightarrow>
          refused_as (if code = ''TIME_UNRESOLVED'' then OPAQUE
                      else if code = ''SYNTHETIC_MISMATCH'' then STOP else QUARANTINE) code path rule
      | AdapterInputTooLarge \<Rightarrow> refused_as QUARANTINE ''LIMIT_EXCEEDED'' '''' ''above the contract's bounds''
      | AdapterObjects objects unprojected \<Rightarrow>
          \<lparr>vd_action = ACCEPT, vd_code = None, vd_path = None, vd_rule = None, vd_objects = objects,
           vd_flags = (if unprojected then [COMPAT_FLAG] else [])\<rparr>)"

section \<open>Backoff\<close>

definition SCHEDULE :: "rat list" where "SCHEDULE = [1, 2, 4, 8, 16, 30]"
definition STABLE_RESET_MS :: int where "STABLE_RESET_MS = 60000"

record backoff =
  bo_step :: nat
  bo_stable_since :: "int option"

definition backoff_success :: "int \<Rightarrow> backoff \<Rightarrow> backoff" where
  "backoff_success now b =
     (case bo_stable_since b of None \<Rightarrow> b\<lparr>bo_stable_since := Some now\<rparr> | Some _ \<Rightarrow> b)"

text \<open>\<open>jitter\<close> is the factor drawn from 0.8 to 1.2.\<close>

definition backoff_failure :: "int \<Rightarrow> rat \<Rightarrow> backoff \<Rightarrow> rat \<times> backoff" where
  "backoff_failure now jitter b =
     (let step = (case bo_stable_since b of
                    Some since \<Rightarrow> if STABLE_RESET_MS \<le> now - since then 0 else bo_step b
                  | None \<Rightarrow> bo_step b)
      in (SCHEDULE ! min step (length SCHEDULE - 1) * jitter, \<lparr>bo_step = Suc step, bo_stable_since = None\<rparr>))"

end
