(* ===== verification/Link16_Config.thy ===== *)
theory Link16_Config
  imports Link16_Policy
begin

text \<open>
  The reader of the bridge's configuration file, the functions of \<^verbatim>\<open>config.py\<close>: every key checked,
  unknown keys refused, the defaults filled in and the rules across keys applied last. A number of
  seconds is kept as the rational the double is; \<open>config_env\<close> is what the reader takes of the
  standard library: \<open>urllib.parse.urlsplit\<close> and the two double operations on a number of seconds.
\<close>

declare split_paired_All [simp del] split_paired_Ex [simp del]

section \<open>Errors, defaults and patterns\<close>

datatype config_error = ConfigError (ce_key: string) (ce_reason: string)

type_synonym 'a checked = "config_error + 'a"

record url_parts =
  up_scheme :: pytext
  up_hostname :: "pytext option"
  up_query :: pytext
  up_fragment :: pytext
  up_username :: "pytext option"
  up_password :: "pytext option"

record config_env =
  cv_urlsplit :: "pytext \<Rightarrow> url_parts option"
  cv_times_1000 :: "rat \<Rightarrow> rat"
  cv_add :: "rat \<Rightarrow> rat \<Rightarrow> rat"

definition DOMAINS :: "string list" where
  "DOMAINS = [''AIR'', ''SURFACE'', ''SUBSURFACE'', ''LAND'', ''UNKNOWN'']"

definition DEFAULT_FRESHNESS :: "(pytext, rat) dict" where
  "DEFAULT_FRESHNESS = [(asc ''AIR'', 30), (asc ''SURFACE'', 120), (asc ''SUBSURFACE'', 120),
     (asc ''LAND'', 120), (asc ''UNKNOWN'', 120)]"

definition DEFAULT_RECEIVE_FAMILIES :: "string list" where
  "DEFAULT_RECEIVE_FAMILIES = [''J3.2'', ''J3.3'', ''J3.4'', ''J3.5'']"

definition LOOPBACK_HOSTS :: "string list" where
  "LOOPBACK_HOSTS = [''127.0.0.1'', ''::1'', ''localhost'']"

definition DEFAULT_LIMITS :: "(pytext, int) dict" where
  "DEFAULT_LIMITS =
     [(asc ''max_identities'', 100000), (asc ''max_queued_reports'', 10000),
      (asc ''max_queued_report_bytes'', 64 * 1024 * 1024), (asc ''max_queued_exports'', 4096),
      (asc ''max_queued_export_bytes'', 16 * 1024 * 1024),
      (asc ''max_quarantine_bytes'', 1024 * 1024 * 1024), (asc ''fetch_limit'', 100),
      (asc ''batch_retry_max'', 3), (asc ''max_body_bytes'', int MAX_BODY_BYTES)]"

definition LIMIT_BOUNDS :: "(pytext, int \<times> int) dict" where
  "LIMIT_BOUNDS = [(asc ''fetch_limit'', (1, 1000)), (asc ''batch_retry_max'', (1, 100)),
     (asc ''max_body_bytes'', (1024, int MAX_BODY_BYTES))]"

definition CONFIG_KEYS :: "string list" where
  "CONFIG_KEYS =
     [''config_revision'', ''mode'', ''gateway_base_url'', ''gateway_id'', ''consumer_id'',
      ''credential_ref'', ''tenant'', ''realm'', ''realm_kind'', ''synthetic'', ''security_context'',
      ''approved_origin_scopes'', ''native_profile'', ''cdm_schema_version'', ''receive_families'',
      ''required_families'', ''transmit_families'', ''export_policy'', ''number_allocations_ref'',
      ''peer_profile'', ''freshness_seconds'', ''request_deadline_seconds'', ''long_poll_seconds'',
      ''connect_timeout_seconds'', ''transport_allowance_seconds'', ''outbound_max_age_seconds'',
      ''limits'', ''store_path'', ''lease_ttl_seconds'', ''idle_poll_seconds'']"

definition REQUIRED_KEYS :: "string list" where
  "REQUIRED_KEYS =
     [''config_revision'', ''gateway_base_url'', ''gateway_id'', ''consumer_id'', ''credential_ref'',
      ''tenant'', ''realm'', ''realm_kind'', ''synthetic'', ''security_context'',
      ''approved_origin_scopes'', ''native_profile'', ''cdm_schema_version'', ''store_path'']"

definition RULE_KEYS :: "string list" where
  "RULE_KEYS = [''policy_revision'', ''source'', ''destination'', ''families'', ''forwarding'']"

definition SOURCE_KEYS :: "string list" where
  "SOURCE_KEYS = [''tenant'', ''realm'', ''synthetic'', ''label_set'']"

definition DEST_KEYS :: "string list" where
  "DEST_KEYS = [''peer_id'', ''tenant'', ''realm'', ''synthetic'', ''security_context'',
     ''vertical_forms'', ''vertical_required'']"

text \<open>The pattern of an environment reference and that of a version.\<close>

definition env_ref :: "pytext \<Rightarrow> bool" where
  "env_ref t \<longleftrightarrow> take 4 t = asc ''env:'' \<and>
     (case drop 4 t of
        [] \<Rightarrow> False
      | c # rest \<Rightarrow> (65 \<le> c \<and> c \<le> 90 \<or> c = 95) \<and> length rest \<le> 127 \<and>
          list_all (\<lambda>d. 65 \<le> d \<and> d \<le> 90 \<or> is_digit d \<or> d = 95) rest)"

definition semver_number :: "pytext \<Rightarrow> bool" where
  "semver_number t \<longleftrightarrow> t = asc ''0'' \<or>
     (case t of [] \<Rightarrow> False | c # rest \<Rightarrow> 49 \<le> c \<and> c \<le> 57 \<and> list_all is_digit rest)"

definition semver :: "pytext \<Rightarrow> bool" where
  "semver t \<longleftrightarrow> length (split_dots t) = 3 \<and> list_all semver_number (split_dots t)"

text \<open>The rational a finite double is.\<close>

definition double_value :: "64 word \<Rightarrow> rat option" where
  "double_value w =
     (let e = unat w div 2 ^ 52 mod 2 ^ 11; m = unat w mod 2 ^ 52;
          magnitude =
            (if e = 0 then of_nat m / of_nat (2 ^ 1074)
             else if e < 1075 then of_nat (2 ^ 52 + m) / of_nat (2 ^ (1075 - e))
             else of_nat ((2 ^ 52 + m) * 2 ^ (e - 1075)) :: rat)
      in if e = 2047 then None else Some (if 2 ^ 63 \<le> unat w then - magnitude else magnitude))"

section \<open>One value\<close>

definition text_key :: "jobject \<Rightarrow> string \<Rightarrow> nat \<Rightarrow> nat \<Rightarrow> pytext checked" where
  "text_key d key low high =
     (case the_key d key of
        JStr t \<Rightarrow> if low \<le> length t \<and> length t \<le> high then Inr t
                 else Inl (ConfigError key (''a string of '' @ index_text low @ '' to '' @ index_text high @ '' characters''))
      | _ \<Rightarrow> Inl (ConfigError key (''a string of '' @ index_text low @ '' to '' @ index_text high @ '' characters'')))"

definition ident_value :: "json \<Rightarrow> string \<Rightarrow> pytext checked" where
  "ident_value v key =
     (case v of JStr t \<Rightarrow> if IDENTIFIER t then Inr t else Inl (ConfigError key ''an identifier'')
      | _ \<Rightarrow> Inl (ConfigError key ''an identifier''))"

definition bool_value :: "json \<Rightarrow> string \<Rightarrow> bool checked" where
  "bool_value v key = (case v of JBool b \<Rightarrow> Inr b | _ \<Rightarrow> Inl (ConfigError key ''a boolean''))"

definition number_of :: "json \<Rightarrow> rat option" where
  "number_of v = (case v of JInt n \<Rightarrow> Some (of_int n) | JFloat w \<Rightarrow> double_value w | _ \<Rightarrow> None)"

definition seconds_value :: "json \<Rightarrow> string \<Rightarrow> rat \<Rightarrow> rat \<Rightarrow> bool \<Rightarrow> rat checked" where
  "seconds_value v key low high low_open =
     (case number_of v of
        None \<Rightarrow> Inl (ConfigError key ''a finite number of seconds'')
      | Some x \<Rightarrow>
          if (if low_open then x \<le> low else x < low) \<or> high < x
          then Inl (ConfigError key ''out of the deployment bounds'') else Inr x)"

fun texts_of :: "json list \<Rightarrow> pytext list option" where
  "texts_of [] = Some []"
| "texts_of (JStr t # vs) = map_option ((#) t) (texts_of vs)"
| "texts_of (_ # vs) = None"

definition families_value :: "json \<Rightarrow> string \<Rightarrow> pytext list checked" where
  "families_value v key =
     (case (case v of JArr vs \<Rightarrow> if length vs \<le> 256 then texts_of vs else None | _ \<Rightarrow> None) of
        Some fs \<Rightarrow>
          if list_all (\<lambda>f. 1 \<le> length f \<and> length f \<le> 32) fs \<and> distinct fs then Inr fs
          else Inl (ConfigError key ''a list of distinct family labels of 1 to 32 characters'')
      | None \<Rightarrow> Inl (ConfigError key ''a list of distinct family labels of 1 to 32 characters''))"

fun idents_value :: "json list \<Rightarrow> string \<Rightarrow> pytext list checked" where
  "idents_value [] key = Inr []"
| "idents_value (v # vs) key =
     rbind (ident_value v key) (\<lambda>t. rbind (idents_value vs key) (\<lambda>ts. Inr (t # ts)))"

definition url_value :: "config_env \<Rightarrow> json \<Rightarrow> pytext checked" where
  "url_value cv v =
     (let key = ''gateway_base_url'' in
      case v of
        JStr t \<Rightarrow>
          if \<not> (1 \<le> length t \<and> length t \<le> 2048) then Inl (ConfigError key ''an explicit URL'')
          else (case cv_urlsplit cv t of
             None \<Rightarrow> Inl (ConfigError key ''an explicit URL'')
           | Some p \<Rightarrow>
               if up_query p \<noteq> [] \<or> up_fragment p \<noteq> [] \<or> up_username p \<noteq> None \<or> up_password p \<noteq> None \<or>
                  up_hostname p = None \<or> up_hostname p = Some []
               then Inl (ConfigError key ''scheme, host, optional port and path only'')
               else if up_scheme p = asc ''https'' then Inr t
               else if up_scheme p = asc ''http'' \<and> the (up_hostname p) \<in> asc ` set LOOPBACK_HOSTS then Inr t
               else Inl (ConfigError key ''https, or http to a loopback host only''))
      | _ \<Rightarrow> Inl (ConfigError key ''an explicit URL''))"

section \<open>The export policy\<close>

definition exact_keys :: "jobject \<Rightarrow> string list \<Rightarrow> bool" where
  "exact_keys d keys \<longleftrightarrow> sort (map fst d) = sort (map asc keys)"

fun forms_of :: "json list \<Rightarrow> (pytext \<times> pytext) list option" where
  "forms_of [] = Some []"
| "forms_of (JArr [JStr u, JStr r] # vs) = map_option ((#) (u, r)) (forms_of vs)"
| "forms_of (_ # vs) = None"

definition destination_value :: "jobject \<Rightarrow> (pytext \<times> pytext) list \<Rightarrow> string \<Rightarrow> destination checked" where
  "destination_value d forms where =
     rbind (ident_value (the_key d ''peer_id'') (where @ ''.destination.peer_id'')) (\<lambda>peer.
     rbind (ident_value (the_key d ''tenant'') (where @ ''.destination.tenant'')) (\<lambda>tenant.
     rbind (ident_value (the_key d ''realm'') (where @ ''.destination.realm'')) (\<lambda>realm.
     rbind (bool_value (the_key d ''synthetic'') (where @ ''.destination.synthetic'')) (\<lambda>synthetic.
     rbind (ident_value (the_key d ''security_context'') (where @ ''.destination.security_context'')) (\<lambda>context.
     rbind (bool_value (the_key d ''vertical_required'') (where @ ''.destination.vertical_required'')) (\<lambda>required.
     Inr \<lparr>ds_peer_id = peer, ds_tenant = tenant, ds_realm = realm, ds_synthetic = synthetic,
          ds_security_context = context, ds_vertical_forms = forms, ds_vertical_required = required\<rparr>))))))"

definition revision_value :: "json \<Rightarrow> string \<Rightarrow> pytext checked" where
  "revision_value v where =
     (case v of
        JStr t \<Rightarrow> if 1 \<le> length t \<and> length t \<le> 128 then Inr t
                 else Inl (ConfigError (where @ ''.policy_revision'') ''a string of 1 to 128 characters'')
      | _ \<Rightarrow> Inl (ConfigError (where @ ''.policy_revision'') ''a string of 1 to 128 characters''))"

definition source_value :: "json \<Rightarrow> string \<Rightarrow> (jobject \<times> json list) checked" where
  "source_value v where =
     (case v of
        JObj source \<Rightarrow>
          if \<not> exact_keys source SOURCE_KEYS
          then Inl (ConfigError (where @ ''.source'') ''exactly tenant, realm, synthetic, label_set'')
          else (case the_key source ''label_set'' of
             JArr labels \<Rightarrow>
               if labels = [] then Inl (ConfigError (where @ ''.source.label_set'') ''a non-empty list of labels'')
               else rbind (idents_value labels (where @ ''.source.label_set'')) (\<lambda>_. Inr (source, labels))
           | _ \<Rightarrow> Inl (ConfigError (where @ ''.source.label_set'') ''a non-empty list of labels''))
      | _ \<Rightarrow> Inl (ConfigError (where @ ''.source'') ''exactly tenant, realm, synthetic, label_set''))"

definition dest_object :: "json \<Rightarrow> string \<Rightarrow> jobject checked" where
  "dest_object v where =
     (case v of
        JObj dest \<Rightarrow> if exact_keys dest DEST_KEYS then Inr dest
                    else Inl (ConfigError (where @ ''.destination'') ''exactly the destination keys'')
      | _ \<Rightarrow> Inl (ConfigError (where @ ''.destination'') ''exactly the destination keys''))"

definition forms_value :: "json \<Rightarrow> string \<Rightarrow> (pytext \<times> pytext) list checked" where
  "forms_value v where =
     (case (case v of JArr vs \<Rightarrow> forms_of vs | _ \<Rightarrow> None) of
        Some forms \<Rightarrow> Inr forms
      | None \<Rightarrow> Inl (ConfigError (where @ ''.destination.vertical_forms'') ''a list of [unit, reference] pairs''))"

definition rule_of :: "jobject \<Rightarrow> string \<Rightarrow> policy_rule checked" where
  "rule_of rule where =
     rbind (revision_value (the_key rule ''policy_revision'') where) (\<lambda>revision.
     rbind (source_value (the_key rule ''source'') where) (\<lambda>(source, labels).
     rbind (dest_object (the_key rule ''destination'') where) (\<lambda>dest.
     rbind (forms_value (the_key dest ''vertical_forms'') where) (\<lambda>forms.
     rbind (families_value (the_key rule ''families'') (where @ ''.families'')) (\<lambda>families.
     if families = [] then Inl (ConfigError (where @ ''.families'') ''at least one family'') else
     rbind (ident_value (the_key source ''tenant'') (where @ ''.source.tenant'')) (\<lambda>tenant.
     rbind (ident_value (the_key source ''realm'') (where @ ''.source.realm'')) (\<lambda>realm.
     rbind (bool_value (the_key source ''synthetic'') (where @ ''.source.synthetic'')) (\<lambda>synthetic.
     rbind (idents_value labels (where @ ''.source.label_set'')) (\<lambda>label_list.
     rbind (destination_value dest forms where) (\<lambda>destination.
     Inr \<lparr>pl_revision = revision, pl_source_tenant = tenant, pl_source_realm = realm,
          pl_source_synthetic = synthetic, pl_label_set = set label_list, pl_destination = destination,
          pl_families = families\<rparr>))))))))))"

definition rule_value :: "json \<Rightarrow> string \<Rightarrow> policy_rule checked" where
  "rule_value v where =
     (case v of
        JObj rule \<Rightarrow>
          if \<not> exact_keys rule RULE_KEYS then Inl (ConfigError where ''exactly the rule keys'')
          else if the_key rule ''forwarding'' \<noteq> JBool False
          then Inl (ConfigError (where @ ''.forwarding'') ''false: no forwarding profile is implemented (REQ133)'')
          else rule_of rule where
      | _ \<Rightarrow> Inl (ConfigError where ''exactly the rule keys''))"

fun rules_from :: "nat \<Rightarrow> json list \<Rightarrow> policy_rule list checked" where
  "rules_from i [] = Inr []"
| "rules_from i (v # vs) =
     rbind (rule_value v (''export_policy['' @ index_text i @ '']'')) (\<lambda>rule.
     rbind (rules_from (Suc i) vs) (\<lambda>rules. Inr (rule # rules)))"

definition policy_value :: "json \<Rightarrow> policy_rule list checked" where
  "policy_value v =
     (case v of
        JArr vs \<Rightarrow> if 1024 < length vs then Inl (ConfigError ''export_policy'' ''a list of rules'')
                  else rules_from 0 vs
      | _ \<Rightarrow> Inl (ConfigError ''export_policy'' ''a list of rules''))"

section \<open>Limits and freshness\<close>

definition limit_entry :: "(pytext, int) dict \<Rightarrow> pytext \<times> json \<Rightarrow> (pytext, int) dict checked" where
  "limit_entry out entry =
     (case entry of (name, given) \<Rightarrow>
        if map_of DEFAULT_LIMITS name = None
        then Inl (ConfigError ''limits'' ''a key the configuration does not define'')
        else
          (let (low, high) = (case map_of LIMIT_BOUNDS name of Some b \<Rightarrow> b | None \<Rightarrow> (1, 2 ^ 62)) in
           case given of
             JInt n \<Rightarrow>
               if low \<le> n \<and> n \<le> high then Inr (AList.update name n out)
               else Inl (ConfigError (''limits.'' @ map char_of name) ''an integer within its bounds'')
           | _ \<Rightarrow> Inl (ConfigError (''limits.'' @ map char_of name) ''an integer within its bounds'')))"

definition limits_value :: "json \<Rightarrow> (pytext, int) dict checked" where
  "limits_value v =
     (case v of JObj d \<Rightarrow> rfold limit_entry DEFAULT_LIMITS d
      | _ \<Rightarrow> Inl (ConfigError ''limits'' ''an object''))"

definition limit_of :: "(pytext, int) dict \<Rightarrow> string \<Rightarrow> int" where
  "limit_of d name = (case map_of d (asc name) of Some n \<Rightarrow> n | None \<Rightarrow> 0)"

definition caps_of :: "(pytext, int) dict \<Rightarrow> caps" where
  "caps_of d =
     \<lparr>max_identities = nat (limit_of d ''max_identities''),
      max_queued_reports = nat (limit_of d ''max_queued_reports''),
      max_queued_report_bytes = nat (limit_of d ''max_queued_report_bytes''),
      max_queued_exports = nat (limit_of d ''max_queued_exports''),
      max_queued_export_bytes = nat (limit_of d ''max_queued_export_bytes''),
      max_quarantine_bytes = nat (limit_of d ''max_quarantine_bytes''),
      fetch_limit = nat (limit_of d ''fetch_limit''),
      batch_retry_max = limit_of d ''batch_retry_max'',
      max_body_bytes = nat (limit_of d ''max_body_bytes'')\<rparr>"

definition freshness_entry :: "(pytext, rat) dict \<Rightarrow> pytext \<times> json \<Rightarrow> (pytext, rat) dict checked" where
  "freshness_entry out entry =
     (case entry of (domain, seconds) \<Rightarrow>
        if domain \<notin> asc ` set DOMAINS
        then Inl (ConfigError ''freshness_seconds'' ''a domain the contract does not define'')
        else rbind (seconds_value seconds (''freshness_seconds.'' @ map char_of domain) 0 86400 False)
               (\<lambda>x. Inr (AList.update domain x out)))"

definition freshness_value :: "json \<Rightarrow> (pytext, rat) dict checked" where
  "freshness_value v =
     (case v of JObj d \<Rightarrow> rfold freshness_entry DEFAULT_FRESHNESS d
      | _ \<Rightarrow> Inl (ConfigError ''freshness_seconds'' ''an object of domain -> seconds''))"

section \<open>The whole document\<close>

definition key_or :: "jobject \<Rightarrow> string \<Rightarrow> json \<Rightarrow> json" where
  "key_or d key fallback = (case jget d key of Some v \<Rightarrow> v | None \<Rightarrow> fallback)"

definition mode_value :: "json \<Rightarrow> bridge_mode checked" where
  "mode_value v =
     (if v = JStr (asc ''ingest'') then Inr INGEST
      else if v = JStr (asc ''bidirectional'') then Inr BIDIRECTIONAL
      else Inl (ConfigError ''mode'' ''ingest or bidirectional''))"

definition realm_kind_value :: "json \<Rightarrow> realm_kind checked" where
  "realm_kind_value v =
     (if v = JStr (asc ''live'') then Inr LIVE_REALM
      else if v = JStr (asc ''exercise'') then Inr EXERCISE_REALM
      else if v = JStr (asc ''replay'') then Inr REPLAY_REALM
      else Inl (ConfigError ''realm_kind'' ''live, exercise or replay''))"

definition scopes_value :: "json \<Rightarrow> pytext list checked" where
  "scopes_value v =
     (case v of JArr (s # ss) \<Rightarrow> idents_value (s # ss) ''approved_origin_scopes''
      | _ \<Rightarrow> Inl (ConfigError ''approved_origin_scopes'' ''a non-empty list of identifiers''))"

definition versions_value :: "json \<Rightarrow> pytext list checked" where
  "versions_value v =
     (case (case v of JArr vs \<Rightarrow> texts_of vs | _ \<Rightarrow> None) of
        Some (t # ts) \<Rightarrow>
          if list_all semver (t # ts) then Inr (t # ts)
          else Inl (ConfigError ''cdm_schema_version'' ''an explicit non-empty list of versions'')
      | _ \<Rightarrow> Inl (ConfigError ''cdm_schema_version'' ''an explicit non-empty list of versions''))"

text \<open>The checks in front of the constructor.\<close>

definition early_checks ::
    "jobject \<Rightarrow> (bridge_mode \<times> pytext \<times> realm_kind \<times> pytext list \<times> pytext list \<times> jobject option \<times>
     pytext option) checked" where
  "early_checks d =
     (if \<not> list_all (\<lambda>(k, _). k \<in> asc ` set CONFIG_KEYS) d
      then Inl (ConfigError ''(file)'' ''a key the configuration does not define'')
      else case find (\<lambda>k. jget d k = None) REQUIRED_KEYS of
        Some k \<Rightarrow> Inl (ConfigError k ''required'')
      | None \<Rightarrow>
          rbind (mode_value (key_or d ''mode'' (JStr (asc ''ingest'')))) (\<lambda>mode.
          rbind (case the_key d ''credential_ref'' of
                   JStr t \<Rightarrow> if env_ref t then Inr t
                            else Inl (ConfigError ''credential_ref'' ''env:NAME, a reference and never a value'')
                 | _ \<Rightarrow> Inl (ConfigError ''credential_ref'' ''env:NAME, a reference and never a value''))
            (\<lambda>credential.
          rbind (realm_kind_value (the_key d ''realm_kind'')) (\<lambda>kind.
          rbind (scopes_value (the_key d ''approved_origin_scopes'')) (\<lambda>scopes.
          rbind (versions_value (the_key d ''cdm_schema_version'')) (\<lambda>versions.
          rbind (case key_or d ''peer_profile'' JNull of
                   JNull \<Rightarrow> Inr None
                 | JObj p \<Rightarrow> Inr (Some p)
                 | _ \<Rightarrow> Inl (ConfigError ''peer_profile'' ''null or an object'')) (\<lambda>peer.
          rbind (case key_or d ''number_allocations_ref'' JNull of
                   JNull \<Rightarrow> Inr None
                 | v \<Rightarrow> rbind (ident_value v ''number_allocations_ref'') (\<lambda>t. Inr (Some t))) (\<lambda>allocations.
          Inr (mode, credential, kind, scopes, versions, peer, allocations)))))))))"

definition seconds_key :: "jobject \<Rightarrow> string \<Rightarrow> int \<Rightarrow> rat \<Rightarrow> bool \<Rightarrow> rat checked" where
  "seconds_key d key fallback high low_open =
     seconds_value (key_or d key (JInt fallback)) key 0 high low_open"

definition built ::
    "config_env \<Rightarrow> jobject \<Rightarrow> bridge_mode \<times> pytext \<times> realm_kind \<times> pytext list \<times> pytext list \<times>
     jobject option \<times> pytext option \<Rightarrow> bridge_config checked" where
  "built cv d early =
     (case early of (mode, credential, kind, scopes, versions, peer, allocations) \<Rightarrow>
      rbind (text_key d ''config_revision'' 1 128) (\<lambda>revision.
      rbind (url_value cv (the_key d ''gateway_base_url'')) (\<lambda>url.
      rbind (ident_value (the_key d ''gateway_id'') ''gateway_id'') (\<lambda>gateway.
      rbind (ident_value (the_key d ''consumer_id'') ''consumer_id'') (\<lambda>consumer.
      rbind (ident_value (the_key d ''tenant'') ''tenant'') (\<lambda>tenant.
      rbind (ident_value (the_key d ''realm'') ''realm'') (\<lambda>realm.
      rbind (bool_value (the_key d ''synthetic'') ''synthetic'') (\<lambda>synthetic.
      rbind (ident_value (the_key d ''security_context'') ''security_context'') (\<lambda>context.
      rbind (text_key d ''native_profile'' 1 128) (\<lambda>profile.
      rbind (families_value (key_or d ''receive_families'' (JArr (map (JStr \<circ> asc) DEFAULT_RECEIVE_FAMILIES)))
               ''receive_families'') (\<lambda>receive.
      rbind (families_value (key_or d ''required_families'' (JArr [])) ''required_families'') (\<lambda>required.
      rbind (families_value (key_or d ''transmit_families'' (JArr [])) ''transmit_families'') (\<lambda>transmit.
      rbind (policy_value (key_or d ''export_policy'' (JArr []))) (\<lambda>policy.
      rbind (freshness_value (key_or d ''freshness_seconds'' (JObj []))) (\<lambda>freshness.
      rbind (seconds_key d ''request_deadline_seconds'' 25 3600 True) (\<lambda>deadline.
      rbind (seconds_key d ''long_poll_seconds'' 20 300 False) (\<lambda>long_poll.
      rbind (seconds_key d ''connect_timeout_seconds'' 5 300 True) (\<lambda>connect.
      rbind (seconds_key d ''transport_allowance_seconds'' 2 300 True) (\<lambda>allowance.
      rbind (seconds_key d ''outbound_max_age_seconds'' 10 3600 True) (\<lambda>max_age.
      rbind (limits_value (key_or d ''limits'' (JObj []))) (\<lambda>limits.
      rbind (text_key d ''store_path'' 1 4096) (\<lambda>path.
      rbind (seconds_key d ''lease_ttl_seconds'' 30 3600 True) (\<lambda>ttl.
      rbind (seconds_key d ''idle_poll_seconds'' 1 300 True) (\<lambda>idle.
      Inr \<lparr>bc_revision = revision, bc_mode = mode, bc_gateway_base_url = url, bc_gateway_id = gateway,
           bc_consumer_id = consumer, bc_credential_ref = credential, bc_tenant = tenant, bc_realm = realm,
           bc_realm_kind = kind, bc_synthetic = synthetic, bc_security_context = context, bc_scopes = scopes,
           bc_native_profile = profile, bc_cdm_schema_version = versions, bc_receive_families = receive,
           bc_required_families = required, bc_transmit_families = transmit, bc_export_policy = policy,
           bc_number_allocations_ref = allocations, bc_peer_profile = peer,
           bc_freshness_ms = map (\<lambda>(k, x). (k, cv_times_1000 cv x)) freshness,
           bc_request_deadline = deadline, bc_long_poll = long_poll, bc_connect_timeout = connect,
           bc_transport_allowance = allowance, bc_outbound_max_age_ms = cv_times_1000 cv max_age,
           bc_limits = caps_of limits, bc_store_path = path, bc_lease_ttl = ttl, bc_idle_poll = idle\<rparr>
      ))))))))))))))))))))))))"

text \<open>The rules across keys, in the order they are looked at.\<close>

definition cross_rules :: "config_env \<Rightarrow> bridge_config \<Rightarrow> config_error option" where
  "cross_rules cv c =
     (if bc_request_deadline c \<le> cv_add cv (bc_long_poll c) (bc_transport_allowance c)
      then Some (ConfigError ''request_deadline_seconds''
                  ''must exceed long_poll_seconds plus transport_allowance_seconds'')
      else if bc_request_deadline c \<le> bc_connect_timeout c
      then Some (ConfigError ''connect_timeout_seconds'' ''must be below request_deadline_seconds'')
      else if bc_lease_ttl c \<le> bc_idle_poll c
      then Some (ConfigError ''idle_poll_seconds'' ''must be below lease_ttl_seconds'')
      else if bc_lease_ttl c \<le> bc_request_deadline c
      then Some (ConfigError ''lease_ttl_seconds'' ''must exceed request_deadline_seconds'')
      else if bc_mode c = BIDIRECTIONAL \<and> bc_export_policy c = []
      then Some (ConfigError ''export_policy'' ''bidirectional mode requires a transmit policy'')
      else if bc_realm_kind c = REPLAY_REALM then
        (if \<not> bc_synthetic c then Some (ConfigError ''synthetic'' ''a replay realm is synthetic (REQ132)'')
         else if bc_mode c \<noteq> INGEST then Some (ConfigError ''mode'' ''a replay realm never exports (REQ132)'')
         else if bc_transmit_families c \<noteq> []
         then Some (ConfigError ''transmit_families'' ''empty in a replay realm (REQ132)'')
         else if bc_peer_profile c \<noteq> None
         then Some (ConfigError ''peer_profile'' ''null in a replay realm (REQ132)'')
         else None)
      else None)"

definition config_from_dict :: "config_env \<Rightarrow> json \<Rightarrow> bridge_config checked" where
  "config_from_dict cv doc =
     (case doc of
        JObj d \<Rightarrow>
          rbind (early_checks d) (\<lambda>early.
          rbind (built cv d early) (\<lambda>c.
          case cross_rules cv c of Some e \<Rightarrow> Inl e | None \<Rightarrow> Inr c))
      | _ \<Rightarrow> Inl (ConfigError ''(file)'' ''a JSON object''))"

definition config_from_octets :: "json_env \<Rightarrow> config_env \<Rightarrow> bytes \<Rightarrow> bridge_config checked" where
  "config_from_octets je cv octets =
     (case loads_strict je octets BODY_DEPTH of
        Inl e \<Rightarrow> Inl (ConfigError ''(file)'' (''not strict JSON ('' @ ce_rule e @ '')''))
      | Inr doc \<Rightarrow> config_from_dict cv doc)"

end
