(* ===== verification/Link16_Config_Correct.thy ===== *)
theory Link16_Config_Correct
  imports Link16_Config "HOL-Library.Code_Target_Nat"
begin

text \<open>
  What a configuration that was read is: every value within the bounds its key has, the freshness
  table total on the contract's domains, the rules across keys in force.
\<close>

declare split_paired_All [simp del] split_paired_Ex [simp del]

section \<open>The type of a configuration\<close>

definition family_list :: "pytext list \<Rightarrow> bool" where
  "family_list fs \<longleftrightarrow> (\<forall>f \<in> set fs. 1 \<le> length f \<and> length f \<le> 32) \<and> distinct fs \<and> length fs \<le> 256"

definition well_formed_rule :: "policy_rule \<Rightarrow> bool" where
  "well_formed_rule r \<longleftrightarrow>
     1 \<le> length (pl_revision r) \<and> length (pl_revision r) \<le> 128 \<and>
     IDENTIFIER (pl_source_tenant r) \<and> IDENTIFIER (pl_source_realm r) \<and>
     pl_label_set r \<noteq> {} \<and> (\<forall>l \<in> pl_label_set r. IDENTIFIER l) \<and>
     pl_families r \<noteq> [] \<and> family_list (pl_families r) \<and>
     (\<forall>t \<in> {ds_peer_id (pl_destination r), ds_tenant (pl_destination r), ds_realm (pl_destination r),
            ds_security_context (pl_destination r)}. IDENTIFIER t)"

definition well_formed_caps :: "caps \<Rightarrow> bool" where
  "well_formed_caps c \<longleftrightarrow>
     (\<forall>n \<in> {max_identities c, max_queued_reports c, max_queued_report_bytes c, max_queued_exports c,
            max_queued_export_bytes c, max_quarantine_bytes c}. 1 \<le> n \<and> n \<le> 2 ^ 62) \<and>
     1 \<le> fetch_limit c \<and> fetch_limit c \<le> 1000 \<and> 1 \<le> batch_retry_max c \<and> batch_retry_max c \<le> 100 \<and>
     1024 \<le> max_body_bytes c \<and> max_body_bytes c \<le> MAX_BODY_BYTES"

definition well_formed_windows :: "config_env \<Rightarrow> bridge_config \<Rightarrow> bool" where
  "well_formed_windows cv c \<longleftrightarrow>
     0 < bc_connect_timeout c \<and> bc_connect_timeout c \<le> 300 \<and>
     bc_connect_timeout c < bc_request_deadline c \<and> bc_request_deadline c \<le> 3600 \<and>
     0 \<le> bc_long_poll c \<and> bc_long_poll c \<le> 300 \<and>
     0 < bc_transport_allowance c \<and> bc_transport_allowance c \<le> 300 \<and>
     cv_add cv (bc_long_poll c) (bc_transport_allowance c) < bc_request_deadline c \<and>
     bc_request_deadline c < bc_lease_ttl c \<and> bc_lease_ttl c \<le> 3600 \<and>
     0 < bc_idle_poll c \<and> bc_idle_poll c \<le> 300 \<and> bc_idle_poll c < bc_lease_ttl c \<and>
     (\<exists>x. 0 < x \<and> x \<le> 3600 \<and> bc_outbound_max_age_ms c = cv_times_1000 cv x)"

text \<open>An https URL, or an http one to a loopback host, of scheme, host, port and path only.\<close>

definition permitted_url :: "config_env \<Rightarrow> pytext \<Rightarrow> bool" where
  "permitted_url cv t \<longleftrightarrow> 1 \<le> length t \<and> length t \<le> 2048 \<and>
     (\<exists>u host. cv_urlsplit cv t = Some u \<and> up_hostname u = Some host \<and> host \<noteq> [] \<and> up_query u = [] \<and>
        up_fragment u = [] \<and> up_username u = None \<and> up_password u = None \<and>
        (up_scheme u = asc ''https'' \<or>
         up_scheme u = asc ''http'' \<and> host \<in> {asc ''127.0.0.1'', asc ''::1'', asc ''localhost''}))"

definition well_formed_config :: "config_env \<Rightarrow> bridge_config \<Rightarrow> bool" where
  "well_formed_config cv c \<longleftrightarrow>
     1 \<le> length (bc_revision c) \<and> length (bc_revision c) \<le> 128 \<and> env_ref (bc_credential_ref c) \<and>
     1 \<le> length (bc_native_profile c) \<and> length (bc_native_profile c) \<le> 128 \<and>
     1 \<le> length (bc_store_path c) \<and> length (bc_store_path c) \<le> 4096 \<and>
     permitted_url cv (bc_gateway_base_url c) \<and>
     (\<forall>t. bc_number_allocations_ref c = Some t \<longrightarrow> IDENTIFIER t) \<and>
     (\<forall>t \<in> {bc_gateway_id c, bc_consumer_id c, bc_tenant c, bc_realm c, bc_security_context c} \<union>
          set (bc_scopes c). IDENTIFIER t) \<and>
     bc_scopes c \<noteq> [] \<and> bc_cdm_schema_version c \<noteq> [] \<and> (\<forall>v \<in> set (bc_cdm_schema_version c). semver v) \<and>
     family_list (bc_receive_families c) \<and> family_list (bc_required_families c) \<and>
     family_list (bc_transmit_families c) \<and>
     (\<forall>r \<in> set (bc_export_policy c). well_formed_rule r) \<and> length (bc_export_policy c) \<le> 1024 \<and>
     fst ` set (bc_freshness_ms c) = asc ` set DOMAINS \<and>
     (\<forall>domain \<in> set DOMAINS. \<exists>x. 0 \<le> x \<and> x \<le> 86400 \<and>
        map_of (bc_freshness_ms c) (asc domain) = Some (cv_times_1000 cv x)) \<and>
     well_formed_windows cv c \<and> well_formed_caps (bc_limits c) \<and>
     (bc_mode c = BIDIRECTIONAL \<longrightarrow> bc_export_policy c \<noteq> []) \<and>
     (bc_realm_kind c = REPLAY_REALM \<longrightarrow>
        bc_synthetic c \<and> bc_mode c = INGEST \<and> bc_transmit_families c = [] \<and> bc_peer_profile c = None)"

section \<open>One value\<close>

lemma text_key_Inr: "text_key d key low high = Inr t \<Longrightarrow> low \<le> length t \<and> length t \<le> high"
  by (auto simp: text_key_def split: json.splits if_splits)

lemma ident_value_Inr: "ident_value v key = Inr t \<Longrightarrow> IDENTIFIER t"
  by (auto simp: ident_value_def split: json.splits if_splits)

lemma idents_value_Inr:
  "idents_value vs key = Inr ts \<Longrightarrow> (\<forall>t \<in> set ts. IDENTIFIER t) \<and> length ts = length vs"
  by (induction vs arbitrary: ts) (auto simp: rbind_eq_Inr_iff dest: ident_value_Inr)

lemma length_texts_of: "texts_of vs = Some ts \<Longrightarrow> length ts = length vs"
  by (induction vs arbitrary: ts rule: texts_of.induct) auto

lemma families_value_Inr: "families_value v key = Inr fs \<Longrightarrow> family_list fs"
  unfolding families_value_def family_list_def
  by (auto simp: list_all_iff dest!: length_texts_of split: json.splits option.splits if_splits)

lemma seconds_value_Inr:
  "seconds_value v key low high low_open = Inr x \<Longrightarrow> (if low_open then low < x else low \<le> x) \<and> x \<le> high"
  by (auto simp: seconds_value_def split: option.splits if_splits)

lemma seconds_key_Inr:
  "seconds_key d key n high low_open = Inr x \<Longrightarrow> (if low_open then 0 < x else 0 \<le> x) \<and> x \<le> high"
  unfolding seconds_key_def by (rule seconds_value_Inr)

lemma scopes_value_Inr: "scopes_value v = Inr ts \<Longrightarrow> ts \<noteq> [] \<and> (\<forall>t \<in> set ts. IDENTIFIER t)"
  by (auto simp: scopes_value_def simp del: idents_value.simps dest: idents_value_Inr split: json.splits list.splits)

lemma versions_value_Inr: "versions_value v = Inr ts \<Longrightarrow> ts \<noteq> [] \<and> (\<forall>t \<in> set ts. semver t)"
  by (auto simp: versions_value_def list_all_iff split: json.splits option.splits list.splits if_splits)

lemma destination_value_Inr:
  "destination_value d forms w = Inr x \<Longrightarrow>
     \<forall>t \<in> {ds_peer_id x, ds_tenant x, ds_realm x, ds_security_context x}. IDENTIFIER t"
  by (auto simp: destination_value_def rbind_eq_Inr_iff dest: ident_value_Inr)

lemma revision_value_Inr: "revision_value v w = Inr t \<Longrightarrow> 1 \<le> length t \<and> length t \<le> 128"
  by (auto simp: revision_value_def split: json.splits if_splits)

lemma source_value_Inr: "source_value v w = Inr (source, labels) \<Longrightarrow> labels \<noteq> []"
  by (auto simp: source_value_def rbind_eq_Inr_iff split: json.splits if_splits)

lemma rule_of_Inr:
  assumes "rule_of rule w = Inr r"
  shows "well_formed_rule r"
proof -
  from assms obtain revision source labels dest families tenant realm label_list destination forms synthetic where
    p: "revision_value (the_key rule ''policy_revision'') w = Inr revision"
      "source_value (the_key rule ''source'') w = Inr (source, labels)"
    and f: "families_value (the_key rule ''families'') (w @ ''.families'') = Inr families" "families \<noteq> []"
    and i: "ident_value (the_key source ''tenant'') (w @ ''.source.tenant'') = Inr tenant"
      "ident_value (the_key source ''realm'') (w @ ''.source.realm'') = Inr realm"
      "idents_value labels (w @ ''.source.label_set'') = Inr label_list"
    and d: "destination_value dest forms w = Inr destination"
    and r: "r = \<lparr>pl_revision = revision, pl_source_tenant = tenant, pl_source_realm = realm,
          pl_source_synthetic = synthetic, pl_label_set = set label_list, pl_destination = destination,
          pl_families = families\<rparr>"
    unfolding rule_of_def by (auto simp: rbind_eq_Inr_iff split: if_split_asm)
  show ?thesis
    using revision_value_Inr [OF p(1)] source_value_Inr [OF p(2)] families_value_Inr [OF f(1)] f(2)
      ident_value_Inr [OF i(1)] ident_value_Inr [OF i(2)] idents_value_Inr [OF i(3)] destination_value_Inr [OF d]
    unfolding r well_formed_rule_def by auto
qed

lemma rule_value_Inr: "rule_value v w = Inr r \<Longrightarrow> well_formed_rule r"
  by (auto simp: rule_value_def dest: rule_of_Inr split: json.splits if_splits)

lemma rules_from_Inr: "rules_from i vs = Inr rs \<Longrightarrow> \<forall>r \<in> set rs. well_formed_rule r"
  by (induction vs arbitrary: i rs) (auto simp: rbind_eq_Inr_iff dest: rule_value_Inr)

lemma length_rules_from: "rules_from i vs = Inr rs \<Longrightarrow> length rs = length vs"
  by (induction vs arbitrary: i rs) (auto simp: rbind_eq_Inr_iff)

lemma policy_value_Inr:
  "policy_value v = Inr rs \<Longrightarrow> (\<forall>r \<in> set rs. well_formed_rule r) \<and> length rs \<le> 1024"
  by (auto simp: policy_value_def dest: rules_from_Inr length_rules_from split: json.splits if_splits)

lemma url_value_Inr: "url_value cv v = Inr t \<Longrightarrow> permitted_url cv t"
  by (auto simp: url_value_def permitted_url_def Let_def LOOPBACK_HOSTS_def
      split: json.splits if_splits option.splits)

section \<open>Tables with defaults\<close>

definition freshness_total :: "(pytext, rat) dict \<Rightarrow> bool" where
  "freshness_total out \<longleftrightarrow> fst ` set out = asc ` set DOMAINS \<and> (\<forall>domain \<in> set DOMAINS. \<exists>x. 0 \<le> x \<and> x \<le> 86400 \<and> map_of out (asc domain) = Some x)"

lemma freshness_entry_total:
  assumes "freshness_entry out entry = Inr out'" and "freshness_total out"
  shows "freshness_total out'"
proof -
  obtain domain v where entry: "entry = (domain, v)" by (cases entry)
  from assms(1) entry obtain x where x: "seconds_value v (''freshness_seconds.'' @ map char_of domain) 0 86400 False = Inr x"
    and known: "domain \<in> asc ` set DOMAINS" and out': "out' = AList.update domain x out"
    by (auto simp: freshness_entry_def rbind_eq_Inr_iff split: if_split_asm)
  have "fst ` set out' = asc ` set DOMAINS"
    using assms(2) known by (auto simp: out' dom_update freshness_total_def)
  with seconds_value_Inr [OF x] assms(2) show ?thesis
    unfolding out' freshness_total_def by (auto simp: AList.update_conv')
qed

lemma freshness_value_Inr: "freshness_value v = Inr out \<Longrightarrow> freshness_total out"
proof -
  have fold: "rfold freshness_entry acc d = Inr out \<Longrightarrow> freshness_total acc \<Longrightarrow> freshness_total out" for acc d
    by (induction d arbitrary: acc) (auto simp: rbind_eq_Inr_iff dest: freshness_entry_total)
  have "freshness_total DEFAULT_FRESHNESS"
    by (simp add: freshness_total_def DEFAULT_FRESHNESS_def DOMAINS_def)
  then show "freshness_value v = Inr out \<Longrightarrow> freshness_total out"
    unfolding freshness_value_def by (auto split: json.splits dest: fold)
qed

definition limit_range :: "pytext \<Rightarrow> int \<times> int" where
  "limit_range name = (case map_of LIMIT_BOUNDS name of Some b \<Rightarrow> b | None \<Rightarrow> (1, 2 ^ 62))"

definition limits_total :: "(pytext, int) dict \<Rightarrow> bool" where
  "limits_total out \<longleftrightarrow> (\<forall>name \<in> fst ` set DEFAULT_LIMITS. \<exists>n. map_of out name = Some n \<and>
     fst (limit_range name) \<le> n \<and> n \<le> snd (limit_range name))"

lemma limit_entry_total:
  assumes "limit_entry out entry = Inr out'" and "limits_total out"
  shows "limits_total out'"
proof -
  obtain name v where entry: "entry = (name, v)" by (cases entry)
  from assms(1) entry obtain n where "fst (limit_range name) \<le> n" "n \<le> snd (limit_range name)"
    and out': "out' = AList.update name n out"
    unfolding limit_entry_def limit_range_def
    by (auto simp: Let_def split: if_split_asm json.splits option.splits prod.splits)
  with assms(2) show ?thesis
    unfolding out' limits_total_def by (auto simp: AList.update_conv')
qed

lemma limits_value_Inr: "limits_value v = Inr out \<Longrightarrow> limits_total out"
proof -
  have fold: "rfold limit_entry acc d = Inr out \<Longrightarrow> limits_total acc \<Longrightarrow> limits_total out" for acc d
    by (induction d arbitrary: acc) (auto simp: rbind_eq_Inr_iff dest: limit_entry_total)
  have "limits_total DEFAULT_LIMITS"
    by (simp add: limits_total_def limit_range_def DEFAULT_LIMITS_def LIMIT_BOUNDS_def MAX_BODY_BYTES_def)
  then show "limits_value v = Inr out \<Longrightarrow> limits_total out"
    unfolding limits_value_def by (auto split: json.splits dest: fold)
qed

lemma limits_total_caps:
  assumes "limits_total out"
  shows "well_formed_caps (caps_of out)"
proof -
  have range: "limit_range (asc ''max_identities'') = (1, 2 ^ 62)" "limit_range (asc ''max_queued_reports'') = (1, 2 ^ 62)"
    "limit_range (asc ''max_queued_report_bytes'') = (1, 2 ^ 62)" "limit_range (asc ''max_queued_exports'') = (1, 2 ^ 62)"
    "limit_range (asc ''max_queued_export_bytes'') = (1, 2 ^ 62)" "limit_range (asc ''max_quarantine_bytes'') = (1, 2 ^ 62)"
    "limit_range (asc ''fetch_limit'') = (1, 1000)" "limit_range (asc ''batch_retry_max'') = (1, 100)"
    "limit_range (asc ''max_body_bytes'') = (1024, int MAX_BODY_BYTES)"
    by (simp_all add: limit_range_def LIMIT_BOUNDS_def)
  have *: "fst (limit_range (asc name)) \<le> limit_of out name \<and> limit_of out name \<le> snd (limit_range (asc name))"
    if "asc name \<in> fst ` set DEFAULT_LIMITS" for name
    using assms that unfolding limits_total_def limit_of_def by fastforce
  have names: "asc name \<in> fst ` set DEFAULT_LIMITS" if "name \<in> {''max_identities'', ''max_queued_reports'',
      ''max_queued_report_bytes'', ''max_queued_exports'', ''max_queued_export_bytes'',
      ''max_quarantine_bytes'', ''fetch_limit'', ''batch_retry_max'', ''max_body_bytes''}" for name
    using that by (auto simp: DEFAULT_LIMITS_def)
  note bounds = * [OF names, of "''max_identities''"] * [OF names, of "''max_queued_reports''"]
    * [OF names, of "''max_queued_report_bytes''"] * [OF names, of "''max_queued_exports''"]
    * [OF names, of "''max_queued_export_bytes''"] * [OF names, of "''max_quarantine_bytes''"]
    * [OF names, of "''fetch_limit''"] * [OF names, of "''batch_retry_max''"] * [OF names, of "''max_body_bytes''"]
  show ?thesis
    using bounds unfolding well_formed_caps_def caps_of_def range by (simp add: nat_le_iff le_nat_iff)
qed

section \<open>The whole document\<close>

lemma early_checks_Inr:
  assumes "early_checks d = Inr (mode, credential, kind, scopes, versions, peer, allocations)"
  shows "env_ref credential \<and> scopes \<noteq> [] \<and> (\<forall>t \<in> set scopes. IDENTIFIER t) \<and>
         versions \<noteq> [] \<and> (\<forall>v \<in> set versions. semver v) \<and> (\<forall>t. allocations = Some t \<longrightarrow> IDENTIFIER t)"
proof -
  from assms have "(case key_or d ''number_allocations_ref'' JNull of
        JNull \<Rightarrow> Inr None
      | v \<Rightarrow> rbind (ident_value v ''number_allocations_ref'') (\<lambda>t. Inr (Some t))) = Inr allocations"
    unfolding early_checks_def
    by (auto simp only: rbind_eq_Inr_iff prod.inject sum.inject split: if_split_asm option.split_asm)
  then have "\<forall>t. allocations = Some t \<longrightarrow> IDENTIFIER t"
    by (auto simp: rbind_eq_Inr_iff dest: ident_value_Inr split: json.splits)
  moreover from assms have "scopes_value (the_key d ''approved_origin_scopes'') = Inr scopes"
    and "versions_value (the_key d ''cdm_schema_version'') = Inr versions"
    and "(case the_key d ''credential_ref'' of
            JStr t \<Rightarrow> if env_ref t then Inr t
                     else Inl (ConfigError ''credential_ref'' ''env:NAME, a reference and never a value'')
          | _ \<Rightarrow> Inl (ConfigError ''credential_ref'' ''env:NAME, a reference and never a value'')) = Inr credential"
    unfolding early_checks_def
    by (auto simp only: rbind_eq_Inr_iff prod.inject sum.inject split: if_split_asm option.split_asm)
  ultimately show ?thesis
    using scopes_value_Inr versions_value_Inr by (auto split: json.splits if_splits)
qed

lemma map_of_scaled: "map_of (map (\<lambda>(k, x). (k, f x)) d) k = map_option f (map_of d k)"
  by (induction d) auto

lemma keys_scaled: "fst ` set (map (\<lambda>(k, x). (k, f x)) d) = fst ` set d"
  by (induction d) auto

lemma built_Inr:
  assumes "built cv d (mode, credential, kind, scopes, versions, peer, allocations) = Inr c"
  shows "bc_mode c = mode \<and> bc_credential_ref c = credential \<and> bc_scopes c = scopes \<and>
         bc_cdm_schema_version c = versions"
    and "1 \<le> length (bc_revision c) \<and> length (bc_revision c) \<le> 128"
    and "IDENTIFIER (bc_gateway_id c) \<and> IDENTIFIER (bc_consumer_id c) \<and> IDENTIFIER (bc_tenant c) \<and>
         IDENTIFIER (bc_realm c) \<and> IDENTIFIER (bc_security_context c)"
    and "family_list (bc_receive_families c) \<and> family_list (bc_required_families c) \<and>
         family_list (bc_transmit_families c) \<and>
         (\<forall>r \<in> set (bc_export_policy c). well_formed_rule r) \<and> length (bc_export_policy c) \<le> 1024"
    and "\<exists>out. freshness_total out \<and> bc_freshness_ms c = map (\<lambda>(k, x). (k, cv_times_1000 cv x)) out"
    and "well_formed_caps (bc_limits c)"
    and "0 \<le> bc_long_poll c \<and> bc_long_poll c \<le> 300 \<and> 0 < bc_connect_timeout c \<and> bc_connect_timeout c \<le> 300 \<and>
         0 < bc_transport_allowance c \<and> bc_transport_allowance c \<le> 300 \<and> bc_request_deadline c \<le> 3600 \<and>
         0 < bc_idle_poll c \<and> bc_idle_poll c \<le> 300 \<and> bc_lease_ttl c \<le> 3600 \<and>
         (\<exists>x. 0 < x \<and> x \<le> 3600 \<and> bc_outbound_max_age_ms c = cv_times_1000 cv x)"
    and "1 \<le> length (bc_native_profile c) \<and> length (bc_native_profile c) \<le> 128 \<and>
         1 \<le> length (bc_store_path c) \<and> length (bc_store_path c) \<le> 4096 \<and>
         permitted_url cv (bc_gateway_base_url c) \<and> bc_number_allocations_ref c = allocations"
proof -
  from assms obtain revision url gateway consumer tenant realm synthetic label profile receive required transmit
      policy freshness deadline long_poll connect allowance max_age limits path ttl idle where
    v: "text_key d ''config_revision'' 1 128 = Inr revision" "ident_value (the_key d ''gateway_id'') ''gateway_id'' = Inr gateway"
      "ident_value (the_key d ''consumer_id'') ''consumer_id'' = Inr consumer"
      "ident_value (the_key d ''tenant'') ''tenant'' = Inr tenant" "ident_value (the_key d ''realm'') ''realm'' = Inr realm"
      "ident_value (the_key d ''security_context'') ''security_context'' = Inr label"
      "families_value (key_or d ''receive_families'' (JArr (map (JStr \<circ> asc) DEFAULT_RECEIVE_FAMILIES)))
         ''receive_families'' = Inr receive"
      "families_value (key_or d ''required_families'' (JArr [])) ''required_families'' = Inr required"
      "families_value (key_or d ''transmit_families'' (JArr [])) ''transmit_families'' = Inr transmit"
      "policy_value (key_or d ''export_policy'' (JArr [])) = Inr policy"
      "freshness_value (key_or d ''freshness_seconds'' (JObj [])) = Inr freshness"
      "limits_value (key_or d ''limits'' (JObj [])) = Inr limits"
      "text_key d ''native_profile'' 1 128 = Inr profile" "text_key d ''store_path'' 1 4096 = Inr path"
      "url_value cv (the_key d ''gateway_base_url'') = Inr url"
    and s: "seconds_key d ''long_poll_seconds'' 20 300 False = Inr long_poll"
      "seconds_key d ''connect_timeout_seconds'' 5 300 True = Inr connect"
      "seconds_key d ''transport_allowance_seconds'' 2 300 True = Inr allowance"
      "seconds_key d ''outbound_max_age_seconds'' 10 3600 True = Inr max_age"
      "seconds_key d ''lease_ttl_seconds'' 30 3600 True = Inr ttl"
      "seconds_key d ''idle_poll_seconds'' 1 300 True = Inr idle"
      "seconds_key d ''request_deadline_seconds'' 25 3600 True = Inr deadline"
    and c: "c = \<lparr>bc_revision = revision, bc_mode = mode, bc_gateway_base_url = url, bc_gateway_id = gateway,
           bc_consumer_id = consumer, bc_credential_ref = credential, bc_tenant = tenant, bc_realm = realm,
           bc_realm_kind = kind, bc_synthetic = synthetic, bc_security_context = label, bc_scopes = scopes,
           bc_native_profile = profile, bc_cdm_schema_version = versions, bc_receive_families = receive,
           bc_required_families = required, bc_transmit_families = transmit, bc_export_policy = policy,
           bc_number_allocations_ref = allocations, bc_peer_profile = peer,
           bc_freshness_ms = map (\<lambda>(k, x). (k, cv_times_1000 cv x)) freshness,
           bc_request_deadline = deadline, bc_long_poll = long_poll, bc_connect_timeout = connect,
           bc_transport_allowance = allowance, bc_outbound_max_age_ms = cv_times_1000 cv max_age,
           bc_limits = caps_of limits, bc_store_path = path, bc_lease_ttl = ttl, bc_idle_poll = idle\<rparr>"
    unfolding built_def by (auto simp only: rbind_eq_Inr_iff prod.case sum.inject)
  show "bc_mode c = mode \<and> bc_credential_ref c = credential \<and> bc_scopes c = scopes \<and>
      bc_cdm_schema_version c = versions" by (simp add: c)
  show "1 \<le> length (bc_revision c) \<and> length (bc_revision c) \<le> 128" using text_key_Inr [OF v(1)] by (simp add: c)
  show "IDENTIFIER (bc_gateway_id c) \<and> IDENTIFIER (bc_consumer_id c) \<and> IDENTIFIER (bc_tenant c) \<and>
      IDENTIFIER (bc_realm c) \<and> IDENTIFIER (bc_security_context c)"
    using v(2-6) by (simp add: c ident_value_Inr)
  show "family_list (bc_receive_families c) \<and> family_list (bc_required_families c) \<and>
      family_list (bc_transmit_families c) \<and>
      (\<forall>r \<in> set (bc_export_policy c). well_formed_rule r) \<and> length (bc_export_policy c) \<le> 1024"
    using families_value_Inr [OF v(7)] families_value_Inr [OF v(8)] families_value_Inr [OF v(9)]
      policy_value_Inr [OF v(10)] by (simp add: c)
  show "\<exists>out. freshness_total out \<and> bc_freshness_ms c = map (\<lambda>(k, x). (k, cv_times_1000 cv x)) out"
    using freshness_value_Inr [OF v(11)] by (auto simp: c)
  show "well_formed_caps (bc_limits c)" using limits_value_Inr [OF v(12)] by (simp add: c limits_total_caps)
  show "0 \<le> bc_long_poll c \<and> bc_long_poll c \<le> 300 \<and> 0 < bc_connect_timeout c \<and> bc_connect_timeout c \<le> 300 \<and>
      0 < bc_transport_allowance c \<and> bc_transport_allowance c \<le> 300 \<and> bc_request_deadline c \<le> 3600 \<and>
      0 < bc_idle_poll c \<and> bc_idle_poll c \<le> 300 \<and> bc_lease_ttl c \<le> 3600 \<and>
      (\<exists>x. 0 < x \<and> x \<le> 3600 \<and> bc_outbound_max_age_ms c = cv_times_1000 cv x)"
    using s [THEN seconds_key_Inr] by (auto simp: c)
  show "1 \<le> length (bc_native_profile c) \<and> length (bc_native_profile c) \<le> 128 \<and>
      1 \<le> length (bc_store_path c) \<and> length (bc_store_path c) \<le> 4096 \<and>
      permitted_url cv (bc_gateway_base_url c) \<and> bc_number_allocations_ref c = allocations"
    using text_key_Inr [OF v(13)] text_key_Inr [OF v(14)] url_value_Inr [OF v(15)] by (simp add: c)
qed

lemma cross_rules_None:
  assumes "cross_rules cv c = None"
  shows "bc_connect_timeout c < bc_request_deadline c"
    and "cv_add cv (bc_long_poll c) (bc_transport_allowance c) < bc_request_deadline c"
    and "bc_idle_poll c < bc_lease_ttl c" and "bc_request_deadline c < bc_lease_ttl c"
    and "bc_mode c = BIDIRECTIONAL \<longrightarrow> bc_export_policy c \<noteq> []"
    and "bc_realm_kind c = REPLAY_REALM \<longrightarrow>
      bc_synthetic c \<and> bc_mode c = INGEST \<and> bc_transmit_families c = [] \<and> bc_peer_profile c = None"
  using assms unfolding cross_rules_def by (auto split: if_split_asm)

text \<open>
  C36. A configuration that was read is well formed. Whatever file is loaded, either it is refused
  with an error or every value is within the bounds of its key: identifiers, labels and texts have
  their forms and lengths, the gateway is reached by https or on a loopback host, credentials are
  references; every duration lies between the bounds of its key (300 seconds for the long poll, its
  allowance, the connection and the idle wait, 3600 for the request, the lease and the outbound age)
  and within the windows it must exceed or stay below; every limit is within its range and there are
  at most 1024 export rules; the freshness table has exactly the domains of the contract; a
  bidirectional bridge has a policy, and a replay realm is synthetic and cannot transmit.
\<close>

theorem config_is_well_formed:
  assumes "config_from_octets je cv octets = Inr c"
  shows "well_formed_config cv c"
proof -
  from assms obtain d mode credential kind scopes versions peer allocations where
    e: "early_checks d = Inr (mode, credential, kind, scopes, versions, peer, allocations)"
    and b: "built cv d (mode, credential, kind, scopes, versions, peer, allocations) = Inr c"
    and x: "cross_rules cv c = None"
    unfolding config_from_octets_def config_from_dict_def
    by (auto simp: rbind_eq_Inr_iff split: sum.splits json.splits option.splits)
  note v = built_Inr [OF b] and r = cross_rules_None [OF x]
  have "well_formed_windows cv c"
    using v(7) r(1-4) unfolding well_formed_windows_def by blast
  moreover have "fst ` set (bc_freshness_ms c) = asc ` set DOMAINS"
    using v(5) keys_scaled unfolding freshness_total_def by metis
  moreover have "\<forall>domain \<in> set DOMAINS. \<exists>x. 0 \<le> x \<and> x \<le> 86400 \<and>
      map_of (bc_freshness_ms c) (asc domain) = Some (cv_times_1000 cv x)"
    using v(5) by (auto simp: freshness_total_def map_of_scaled) blast
  ultimately show ?thesis
    using v(1-4,6,8) r(5,6) early_checks_Inr [OF e] unfolding well_formed_config_def by simp
qed

text \<open>A configuration as small as one can be, over a reader that knows this one document.\<close>

definition small_config :: json where
  "small_config = JObj
     [(asc ''config_revision'', JStr (asc ''1'')), (asc ''gateway_base_url'', JStr (asc ''https://gw'')),
      (asc ''gateway_id'', JStr (asc ''gw'')), (asc ''consumer_id'', JStr (asc ''me'')),
      (asc ''credential_ref'', JStr (asc ''env:GW'')), (asc ''tenant'', JStr (asc ''t'')),
      (asc ''realm'', JStr (asc ''r'')), (asc ''realm_kind'', JStr (asc ''replay'')),
      (asc ''synthetic'', JBool True), (asc ''security_context'', JStr (asc ''s'')),
      (asc ''approved_origin_scopes'', JArr [JStr (asc ''o'')]), (asc ''native_profile'', JStr (asc ''n'')),
      (asc ''cdm_schema_version'', JArr [JStr (asc ''3.1.0'')]), (asc ''store_path'', JStr (asc ''p'')),
      (asc ''limits'', JObj [(asc ''fetch_limit'', JInt 5)]),
      (asc ''freshness_seconds'', JObj [(asc ''AIR'', JFloat 0x3FE0000000000000)])]"

definition small_json :: json_env where
  "small_json = \<lparr>je_utf8 = (\<lambda>octets. Some (map unat octets)), je_depth = (\<lambda>_. 2),
     je_loads = (\<lambda>_. Some small_config), je_canonical = (\<lambda>_. []), je_sha256 = (\<lambda>_. []), je_fault_bytes = (\<lambda>_. [])\<rparr>"

definition small_split :: config_env where
  "small_split =
     \<lparr>cv_urlsplit = (\<lambda>_. Some \<lparr>up_scheme = asc ''https'', up_hostname = Some (asc ''gw''), up_query = [],
        up_fragment = [], up_username = None, up_password = None\<rparr>),
      cv_times_1000 = (*) 1000, cv_add = (+)\<rparr>"

lemma small_config_read:
  "(case config_from_octets small_json small_split [1] of
      Inr c \<Rightarrow> fetch_limit (bc_limits c) = 5 \<and> map_of (bc_freshness_ms c) (asc ''AIR'') = Some 500
    | Inl e \<Rightarrow> False)"
  by code_simp

theorem config_is_well_formed_witness:
  "\<exists>c. config_from_octets small_json small_split [1] = Inr c \<and> well_formed_config small_split c"
  using config_is_well_formed [of small_json small_split "[1]"] small_config_read
  by (auto split: sum.splits)

end
