(* ===== verification/Link16_Ingest.thy ===== *)
theory Link16_Ingest
  imports Link16_Policy
begin

text \<open>
  Lifecycle notices, \<^verbatim>\<open>lifecycle.py\<close>, and the transactional ingest of one batch with the
  dispatch of the outbox, \<^verbatim>\<open>ingest.py\<close>. Inside the transaction every operation is a function of
  the store that may raise; \<open>work\<close> is the open transaction with the two fields the \<open>Ingestor\<close>
  keeps for one batch.
\<close>

section \<open>Lifecycle notices\<close>

datatype outcome = Outcome (oc_accept: bool) (oc_code: "string option") (oc_path: "string option")

definition lifecycle_drop ::
    "bridge_env \<Rightarrow> int \<Rightarrow> int \<Rightarrow> jobject \<Rightarrow> int \<Rightarrow> int \<Rightarrow> db \<Rightarrow> exn + outcome \<times> db" where
  "lifecycle_drop be now fence notice effective_at epoch d =
     rbind (ident_of notice) (\<lambda>f. rbind (text_of notice ''record_id'') (\<lambda>record_id.
     let key = key_of f in
     case SQL_IDENTITY_GET key d of
       None \<Rightarrow>
         rbind (insert_identity be fence key f ''TOMBSTONED'' epoch None (Some effective_at)
                  (Some record_id) d) (\<lambda>d.
           Inr (Outcome True None None, counter_add ''source_drop'' 1 d))
     | Some _ \<Rightarrow>
         (let close = (\<lambda>d. Inr (Outcome True None None,
                counter_add ''source_drop'' 1 (SQL_IDENTITY_TOMBSTONE effective_at record_id fence key d))) in
          case SQL_CURRENT_GET key d of
            None \<Rightarrow> close d
          | Some c \<Rightarrow>
              if effective_at < cu_effective_at c
              then Inr (Outcome False (Some ''LIFECYCLE_CONTRADICTION'') (Some ''effective_at''), d)
              else if cu_contribution c = ''ACTIVE'' then
                rbind (be_closed be (cu_payload c) effective_at) (\<lambda>(payload, schema).
                   close (SQL_CURRENT_CLOSE fence key
                     (publish now fence (event_key record_id 0) ''close'' payload (Some schema) [] d)))
              else close d)))"

definition relation_payload :: "bridge_env \<Rightarrow> pytext \<Rightarrow> pytext \<Rightarrow> jobject \<Rightarrow> bytes" where
  "relation_payload be old_key new_key notice =
     je_canonical (be_json be) (JObj
       [(asc ''relation'', JStr (asc ''REKEY'')),
        (asc ''old_entity_id'', JStr (fst (entity_ids be old_key))),
        (asc ''new_entity_id'', JStr (fst (entity_ids be new_key))),
        (asc ''effective_at'', the_key notice ''effective_at'')])"

definition out_of_channel :: "bridge_config \<Rightarrow> ident \<Rightarrow> bool" where
  "out_of_channel cfg f \<longleftrightarrow>
     (it_tenant f, it_realm f, it_synthetic f) \<noteq> (bc_tenant cfg, bc_realm cfg, bc_synthetic cfg)"

definition rekey_refusal :: "bridge_config \<Rightarrow> jobject \<Rightarrow> jobject \<Rightarrow> ident \<Rightarrow> ident \<Rightarrow> outcome option" where
  "rekey_refusal cfg notice old_object old new =
     (if out_of_channel cfg old
      then Some (Outcome False (Some ''IDENTITY_SCOPE_UNRESOLVED'') (Some ''old_identity''))
      else if out_of_channel cfg new
      then Some (Outcome False (Some ''IDENTITY_SCOPE_UNRESOLVED'') (Some ''new_identity''))
      else case find (\<lambda>k. the_key notice k \<noteq> the_key old_object k)
                  [''origin_scope'', ''track_number'', ''incarnation''] of
        Some k \<Rightarrow> Some (Outcome False (Some ''SCHEMA_INVALID'') (Some (''old_identity.'' @ k)))
      | None \<Rightarrow>
          if key_of old = key_of new
          then Some (Outcome False (Some ''SCHEMA_INVALID'') (Some ''new_identity''))
          else None)"

definition object_of :: "jobject \<Rightarrow> string \<Rightarrow> exn + jobject" where
  "object_of d k = (case jget d k of Some (JObj x) \<Rightarrow> Inr x | _ \<Rightarrow> Inl (BodyKeyError k))"

definition lifecycle_rekey ::
    "bridge_env \<Rightarrow> bridge_config \<Rightarrow> int \<Rightarrow> int \<Rightarrow> jobject \<Rightarrow> int \<Rightarrow> int \<Rightarrow> db \<Rightarrow> exn + outcome \<times> db" where
  "lifecycle_rekey be cfg now fence notice effective_at epoch d =
     rbind (object_of notice ''old_identity'') (\<lambda>old_object.
     rbind (object_of notice ''new_identity'') (\<lambda>new_object.
     rbind (ident_of old_object) (\<lambda>old. rbind (ident_of new_object) (\<lambda>new.
     case rekey_refusal cfg notice old_object old new of
       Some refusal \<Rightarrow> Inr (refusal, d)
     | None \<Rightarrow>
         rbind (text_of notice ''record_id'') (\<lambda>record_id. rbind (text_of notice ''reason'') (\<lambda>reason.
         rbind (if SQL_IDENTITY_GET (key_of new) d \<noteq> None then Inr d
                else if max_identities (bc_limits cfg) \<le> SQL_IDENTITY_COUNT_LIVE d
                then Inl (CapacityStop ''CAPACITY_IDENTITIES'')
                else insert_identity be fence (key_of new) new ''LIVE'' epoch (Some effective_at) None None d)
           (\<lambda>d.
         let d = SQL_RELATION_INSERT
               \<lparr>rl_old = key_of old, rl_new = key_of new, rl_notice = record_id,
                rl_effective_at = effective_at, rl_reason = reason, rl_fence = fence\<rparr> d
         in Inr (Outcome True None None,
              publish now fence (event_key record_id 0) ''relation''
                (relation_payload be (key_of old) (key_of new) notice) None [] d))))))))"

definition lifecycle_apply ::
    "bridge_env \<Rightarrow> bridge_config \<Rightarrow> int \<Rightarrow> int \<Rightarrow> jobject \<Rightarrow> int \<Rightarrow> db \<Rightarrow> exn + outcome \<times> db" where
  "lifecycle_apply be cfg now fence notice epoch d =
     rbind (time_of notice ''effective_at'') (\<lambda>effective_at.
       case operation_of (the_key notice ''operation'') of
         Some op \<Rightarrow>
           if op = ''DROP_SOURCE'' then lifecycle_drop be now fence notice effective_at epoch d
           else if op = ''REKEY'' then lifecycle_rekey be cfg now fence notice effective_at epoch d
           else if op = ''GAP''
           then Inr (Outcome True None None, on_channel (SQL_CHANNEL_GAP ''GAP'' None None fence) d)
           else Inr (Outcome True None None, on_channel (SQL_CHANNEL_EPOCH fence) d)
       | None \<Rightarrow> Inl (BodyKeyError ''operation''))"

section \<open>One record\<close>

text \<open>What the \<open>Ingestor\<close> and its \<open>Translator\<close> are built from.\<close>

record ingestor =
  ii_env :: bridge_env
  ii_config :: bridge_config
  ii_adapter :: "jobject \<Rightarrow> adapter_answer"
  ii_families :: "pytext list"

record work =
  wk_db :: db
  wk_evidence :: bool
  wk_used :: "nat option"

text \<open>The clock and the fence are the same for every statement of one transaction.\<close>

record tick =
  tk_now :: int
  tk_fence :: int

definition on_db :: "(db \<Rightarrow> db) \<Rightarrow> work \<Rightarrow> work" where
  "on_db f w = w\<lparr>wk_db := f (wk_db w)\<rparr>"

definition record_row ::
    "tick \<Rightarrow> pytext \<Rightarrow> raw_record \<Rightarrow> pytext \<Rightarrow> string \<Rightarrow> string option \<Rightarrow> pytext option \<Rightarrow> db \<Rightarrow> exn + db" where
  "record_row tk batch_sha r key disposition code identity =
     SQL_INGEST_INSERT
       \<lparr>ig_key = key, ig_kind = rr_kind r, ig_sha256 = rr_digest r,
        ig_session = (case rr_body r of Some b \<Rightarrow> jstr (jget b ''session_id'') | None \<Rightarrow> None),
        ig_sequence = (case rr_body r of Some b \<Rightarrow> jstr (jget b ''sequence'') | None \<Rightarrow> None),
        ig_batch = batch_sha, ig_index = rr_index r, ig_disposition = disposition, ig_code = code,
        ig_identity = identity, ig_fence = tk_fence tk, ig_committed_at = tk_now tk\<rparr>"

definition canonical_body :: "ingestor \<Rightarrow> raw_record \<Rightarrow> bytes option" where
  "canonical_body ii r = map_option (\<lambda>b. je_canonical (be_json (ii_env ii)) (JObj b)) (rr_body r)"

definition refusal_audit ::
    "ingestor \<Rightarrow> tick \<Rightarrow> pytext \<Rightarrow> pytext \<Rightarrow> string \<Rightarrow> string \<Rightarrow> db \<Rightarrow> db" where
  "refusal_audit ii tk batch_sha key code result =
     audit_record (tk_now tk) (tk_fence tk) (bc_revision (ii_config ii)) ''refusal'' (Some key)
       (Some code) (Some result) (Some batch_sha)"

definition metadata_only :: "ingestor \<Rightarrow> work \<Rightarrow> bool" where
  "metadata_only ii w \<longleftrightarrow> max_quarantine_bytes (bc_limits (ii_config ii)) \<le>
     (case wk_used w of Some n \<Rightarrow> n | None \<Rightarrow> quarantine_bytes (wk_db w))"

definition body_size :: "ingestor \<Rightarrow> raw_record \<Rightarrow> nat" where
  "body_size ii r = (case canonical_body ii r of Some b \<Rightarrow> length b | None \<Rightarrow> 0)"

definition count_body :: "ingestor \<Rightarrow> raw_record \<Rightarrow> work \<Rightarrow> work" where
  "count_body ii r w =
     (if metadata_only ii w then on_db (counter_add ''quarantine_metadata_only'' 1) w
      else w\<lparr>wk_used := map_option ((+) (body_size ii r)) (wk_used w)\<rparr>)"

definition quarantine_entry ::
    "ingestor \<Rightarrow> tick \<Rightarrow> pytext \<Rightarrow> raw_record \<Rightarrow> pytext \<Rightarrow> string \<Rightarrow> string option \<Rightarrow> string option \<Rightarrow>
     pytext option \<Rightarrow> bool \<Rightarrow> nat \<Rightarrow> quarantine_row" where
  "quarantine_entry ii tk batch_sha r key code path rule identity meta qid =
     \<lparr>qu_id = qid, qu_key = key, qu_kind = rr_kind r, qu_code = code, qu_path = path,
      qu_rule = rule, qu_identity = identity, qu_batch = batch_sha, qu_index = rr_index r,
      qu_body = (if meta then None else canonical_body ii r),
      qu_bytes = (if meta then 0 else body_size ii r), qu_metadata_only = meta,
      qu_created_at = tk_now tk, qu_resolved_at = None, qu_resolution = None, qu_fence = tk_fence tk\<rparr>"

definition quarantine_record ::
    "ingestor \<Rightarrow> tick \<Rightarrow> pytext \<Rightarrow> raw_record \<Rightarrow> pytext \<Rightarrow> string \<Rightarrow> string option \<Rightarrow> string option \<Rightarrow>
     pytext option \<Rightarrow> bool \<Rightarrow> work \<Rightarrow> exn + work" where
  "quarantine_record ii tk batch_sha r key code path rule identity insert_row_too w =
     (let d = SQL_QUARANTINE_INSERT
            (quarantine_entry ii tk batch_sha r key code path rule identity (metadata_only ii w))
            (wk_db (count_body ii r w)) in
      rbind (if insert_row_too then record_row tk batch_sha r key ''QUARANTINED'' (Some code) identity d
             else Inr d) (\<lambda>d.
        Inr ((count_body ii r w)\<lparr>wk_evidence := True,
               wk_db := refusal_audit ii tk batch_sha key code ''QUARANTINED'' (counter_add ''refused'' 1 d)\<rparr>)))"

definition opaque_record ::
    "ingestor \<Rightarrow> tick \<Rightarrow> pytext \<Rightarrow> raw_record \<Rightarrow> pytext \<Rightarrow> string \<Rightarrow> work \<Rightarrow> exn + work" where
  "opaque_record ii tk batch_sha r key code w =
     (let d = SQL_OPAQUE_INSERT
            \<lparr>op_key = key, op_kind = rr_kind r, op_code = code, op_batch = batch_sha,
             op_index = rr_index r, op_body = canonical_body ii r, op_created_at = tk_now tk,
             op_fence = tk_fence tk\<rparr> (wk_db w) in
      rbind (record_row tk batch_sha r key ''OPAQUE'' (Some code) None d) (\<lambda>d.
        let d = counter_add ''refused'' 1 d;
            d = (if code = ''UNSUPPORTED_MESSAGE'' then counter_add ''unsupported'' 1 d else d)
        in Inr (w\<lparr>wk_evidence := True, wk_db := refusal_audit ii tk batch_sha key code ''OPAQUE'' d\<rparr>)))"

text \<open>Sequence contiguity of a session. A body that is no sound JSON takes the next sequence.\<close>

definition readable_sequence :: "jobject \<Rightarrow> (pytext \<times> nat) option" where
  "readable_sequence body =
     (case (jstr (jget body ''session_id''), jstr (jget body ''sequence'')) of
        (Some session, Some t) \<Rightarrow>
          if DECIMAL t \<and> undec t \<le> UINT64_MAX then Some (session, undec t) else None
      | _ \<Rightarrow> None)"

definition stream_gap :: "ingestor \<Rightarrow> tick \<Rightarrow> pytext \<Rightarrow> jobject \<Rightarrow> nat \<Rightarrow> nat \<Rightarrow> db \<Rightarrow> db" where
  "stream_gap ii tk batch_sha body expected given d =
     audit_record (tk_now tk) (tk_fence tk) (bc_revision (ii_config ii)) ''stream_gap''
       (jstr (jget body ''record_id'')) (Some ''STREAM_GAP'') None (Some batch_sha)
       (on_channel (SQL_CHANNEL_GAP ''STREAM_GAP'' (Some (dec expected)) (Some (dec given)) (tk_fence tk)) d)"

definition contiguity :: "ingestor \<Rightarrow> tick \<Rightarrow> batch \<Rightarrow> jobject option \<Rightarrow> db \<Rightarrow> db" where
  "contiguity ii tk b body d =
     (case body of
        None \<Rightarrow>
          (case map_of (db_session d) (bt_session_id b) of
             Some seen \<Rightarrow> SQL_SESSION_PUT (bt_session_id b) (Suc seen) d
           | None \<Rightarrow> d)
      | Some body \<Rightarrow>
          (case readable_sequence body of
             None \<Rightarrow> d
           | Some (session, given) \<Rightarrow>
               (case map_of (db_session d) session of
                  None \<Rightarrow>
                    (let first_ever = \<not> ch_committed_any (db_channel d) \<and> db_session d = [];
                         d = (if given \<noteq> 0 \<and> \<not> first_ever
                              then stream_gap ii tk (bt_sha256 b) body 0 given d else d)
                     in SQL_SESSION_PUT session given d)
                | Some seen \<Rightarrow>
                    (let d = (if Suc seen < given
                              then stream_gap ii tk (bt_sha256 b) body (Suc seen) given d else d)
                     in SQL_SESSION_PUT session (max given seen) d))))"

text \<open>The rest of \<open>accept\<close> once the identity is decided.\<close>

definition accept_decided ::
    "ingestor \<Rightarrow> tick \<Rightarrow> pytext \<Rightarrow> raw_record \<Rightarrow> pytext \<Rightarrow> jobject \<Rightarrow> verdict \<Rightarrow> bool \<Rightarrow> ident \<Rightarrow> decision \<Rightarrow>
     work \<Rightarrow> exn + (string \<times> string option) \<times> work" where
  "accept_decided ii tk batch_sha r key body vd insert_row_too f dc w =
     (if \<not> dc_accept dc then
        (let code = (case dc_code dc of Some c \<Rightarrow> c | None \<Rightarrow> '''') in
         rbind (quarantine_record ii tk batch_sha r key code (Some ''incarnation'')
                  (Some ''ambiguous reuse of a source track number'') (Some (key_of f)) insert_row_too w)
           (\<lambda>w. Inr ((''QUARANTINED'', Some code), w)))
      else
        rbind (apply_state (ii_env ii) (tk_now tk) (tk_fence tk) (key_of f) body (vd_objects vd)
                 (dc_late dc) (vd_flags vd) (wk_db w)) (\<lambda>(flag, d).
        rbind (if insert_row_too
               then record_row tk batch_sha r key ''ACCEPTED'' flag (Some (key_of f)) d
               else Inr d) (\<lambda>d.
        Inr ((''ACCEPTED'', flag), w\<lparr>wk_db := d\<rparr>))))"

definition accept_report ::
    "ingestor \<Rightarrow> tick \<Rightarrow> pytext \<Rightarrow> raw_record \<Rightarrow> pytext \<Rightarrow> jobject \<Rightarrow> verdict \<Rightarrow> int \<Rightarrow> bool \<Rightarrow> work \<Rightarrow>
     exn + (string \<times> string option) \<times> work" where
  "accept_report ii tk batch_sha r key body vd epoch insert_row_too w =
     rbind (time_of body ''effective_at'') (\<lambda>effective_at. rbind (ident_of body) (\<lambda>f.
     rbind (resolve_identity (ii_env ii) (tk_now tk) (tk_fence tk) epoch
              (max_identities (bc_limits (ii_config ii))) f effective_at (wk_db w)) (\<lambda>(dc, d).
     accept_decided ii tk batch_sha r key body vd insert_row_too f dc (w\<lparr>wk_db := d\<rparr>))))"

text \<open>The disposition of a notice once \<open>lifecycle\<close> has answered.\<close>

definition settle_notice ::
    "ingestor \<Rightarrow> tick \<Rightarrow> pytext \<Rightarrow> raw_record \<Rightarrow> pytext \<Rightarrow> jobject \<Rightarrow> outcome \<Rightarrow> work \<Rightarrow>
     exn + (string \<times> string option) \<times> work" where
  "settle_notice ii tk batch_sha r key body oc w =
     (if \<not> oc_accept oc then
        (let code = (case oc_code oc of Some c \<Rightarrow> c | None \<Rightarrow> '''') in
         rbind (quarantine_record ii tk batch_sha r key code (oc_path oc)
                  (Some ''lifecycle notice refused'') None True w)
           (\<lambda>w. Inr ((''QUARANTINED'', Some code), w)))
      else
        (let op = operation_of (the_key body ''operation'') in
         rbind (record_row tk batch_sha r key ''ACCEPTED'' op None
                  (counter_add ''accepted'' 1 (wk_db w))) (\<lambda>d.
         Inr ((''ACCEPTED'', op), w\<lparr>wk_db := d\<rparr>))))"

definition ingest_notice ::
    "ingestor \<Rightarrow> tick \<Rightarrow> pytext \<Rightarrow> raw_record \<Rightarrow> pytext \<Rightarrow> jobject \<Rightarrow> int \<Rightarrow> work \<Rightarrow>
     exn + (string \<times> string option) \<times> work" where
  "ingest_notice ii tk batch_sha r key body epoch w =
     (case validate_notice body of
        Inl e \<Rightarrow>
          if ce_code e = ''TIME_UNRESOLVED''
          then rbind (opaque_record ii tk batch_sha r key (ce_code e) w)
                 (\<lambda>w. Inr ((''OPAQUE'', Some (ce_code e)), w))
          else rbind (quarantine_record ii tk batch_sha r key (ce_code e) (Some (ce_path e))
                        (Some (ce_rule e)) None True w)
                 (\<lambda>w. Inr ((''QUARANTINED'', Some (ce_code e)), w))
      | Inr _ \<Rightarrow>
          (case scope_check (ii_config ii) body of
             Some vd \<Rightarrow>
               (let code = (case vd_code vd of Some c \<Rightarrow> c | None \<Rightarrow> '''') in
                rbind (quarantine_record ii tk batch_sha r key code (vd_path vd) (vd_rule vd) None True w)
                  (\<lambda>w. Inr ((''QUARANTINED'', Some code), w)))
           | None \<Rightarrow>
               rbind (lifecycle_apply (ii_env ii) (ii_config ii) (tk_now tk) (tk_fence tk)
                        body epoch (wk_db w)) (\<lambda>(oc, d).
               settle_notice ii tk batch_sha r key body oc (w\<lparr>wk_db := d\<rparr>))))"

definition record_key :: "raw_record \<Rightarrow> pytext" where
  "record_key r = (case rr_record_id r of Some t \<Rightarrow> t | None \<Rightarrow> asc ''raw:'' @ rr_digest r)"

text \<open>A report that passed the channel check: scope, family, adapter, then its disposition.\<close>

definition ingest_report ::
    "ingestor \<Rightarrow> tick \<Rightarrow> pytext \<Rightarrow> raw_record \<Rightarrow> pytext \<Rightarrow> jobject \<Rightarrow> int \<Rightarrow> work \<Rightarrow>
     exn + (string \<times> string option) \<times> work" where
  "ingest_report ii tk batch_sha r key body epoch w =
     (let vd = (case scope_check (ii_config ii) body of
                  Some vd \<Rightarrow> vd
                | None \<Rightarrow> (case family_check (ii_families ii) body of
                    Some vd \<Rightarrow> vd | None \<Rightarrow> translate (ii_adapter ii) body));
          code = (case vd_code vd of Some c \<Rightarrow> c | None \<Rightarrow> '''') in
      case vd_action vd of
        STOP \<Rightarrow> Inl (ChannelStop code (case vd_path vd of Some p \<Rightarrow> p | None \<Rightarrow> '''') key)
      | OPAQUE \<Rightarrow> rbind (opaque_record ii tk batch_sha r key code w)
                   (\<lambda>w. Inr ((''OPAQUE'', Some code), w))
      | QUARANTINE \<Rightarrow> rbind (quarantine_record ii tk batch_sha r key code (vd_path vd) (vd_rule vd) None True w)
                   (\<lambda>w. Inr ((''QUARANTINED'', Some code), w))
      | ACCEPT \<Rightarrow> accept_report ii tk batch_sha r key body vd epoch True w)"

text \<open>A record whose key is new, after the deduplication.\<close>

definition ingest_new ::
    "ingestor \<Rightarrow> tick \<Rightarrow> batch \<Rightarrow> raw_record \<Rightarrow> int \<Rightarrow> work \<Rightarrow>
     exn + (string \<times> string option) \<times> work" where
  "ingest_new ii tk b r epoch w =
     (let key = record_key r; batch_sha = bt_sha256 b in
      case rr_body r of
        None \<Rightarrow>
          rbind (quarantine_record ii tk batch_sha r key ''JSON_INVALID'' (Some '''') (rr_fault r) None True w)
            (\<lambda>w. Inr ((''QUARANTINED'', Some ''JSON_INVALID''), w))
      | Some body \<Rightarrow>
          (case channel_check (ii_config ii) (rr_kind r) body of
             Some vd \<Rightarrow>
               Inl (ChannelStop (case vd_code vd of Some c \<Rightarrow> c | None \<Rightarrow> '''')
                                (case vd_path vd of Some p \<Rightarrow> p | None \<Rightarrow> '''') key)
           | None \<Rightarrow>
               if rr_kind r = ''notice'' then ingest_notice ii tk batch_sha r key body epoch w
               else ingest_report ii tk batch_sha r key body epoch w))"

definition ingest_record ::
    "ingestor \<Rightarrow> tick \<Rightarrow> batch \<Rightarrow> raw_record \<Rightarrow> int \<Rightarrow> work \<Rightarrow>
     exn + (string \<times> string option) \<times> work" where
  "ingest_record ii tk b r epoch w =
     (let key = record_key r;
          w = on_db (contiguity ii tk b (rr_body r) \<circ> counter_add ''fed'' 1) w in
      case SQL_INGEST_GET key (wk_db w) of
        Some known \<Rightarrow>
          if ig_sha256 known = rr_digest r
          then Inr ((''DUPLICATE'', None), on_db (counter_add ''duplicate'' 1) w)
          else
            rbind (quarantine_record ii tk (bt_sha256 b) r key ''DUPLICATE_CONFLICT'' (Some ''record_id'')
                     (Some ''same record_id, different content'') None False
                     (on_db (counter_add ''duplicate_conflict'' 1 \<circ>
                             on_channel (SQL_CHANNEL_DEGRADE (tk_fence tk))) w))
              (\<lambda>w. Inr ((''QUARANTINED'', Some ''DUPLICATE_CONFLICT''), w))
      | None \<Rightarrow> ingest_new ii tk b r epoch w)"

section \<open>One batch, one transaction\<close>

type_synonym disposition = "pytext \<times> string \<times> string option"

text \<open>The delivery epoch is read again after every notice.\<close>

fun ingest_records ::
    "ingestor \<Rightarrow> tick \<Rightarrow> batch \<Rightarrow> int \<Rightarrow> raw_record list \<Rightarrow> work \<Rightarrow> exn + disposition list \<times> work" where
  "ingest_records ii tk b epoch [] w = Inr ([], w)"
| "ingest_records ii tk b epoch (r # rs) w =
     rbind (ingest_record ii tk b r epoch w) (\<lambda>((disposition, code), w).
     rbind (ingest_records ii tk b
              (if rr_kind r = ''notice'' then ch_epoch (db_channel (wk_db w)) else epoch) rs w) (\<lambda>(ds, w).
     Inr ((case rr_record_id r of Some (c # t) \<Rightarrow> c # t | _ \<Rightarrow> rr_digest r, disposition, code) # ds, w)))"

definition ingest_batch ::
    "ingestor \<Rightarrow> tick \<Rightarrow> batch \<Rightarrow> bytes \<Rightarrow> pytext option \<Rightarrow> db \<Rightarrow> exn + disposition list \<times> db" where
  "ingest_batch ii tk b octets cursor_before d =
     (let d = SQL_RAW_INSERT \<lparr>rw_sha256 = bt_sha256 b, rw_received_at = tk_now tk,
            rw_cursor_before = cursor_before, rw_bytes = bt_size b, rw_body = None, rw_fence = tk_fence tk\<rparr> d;
          w = \<lparr>wk_db = d, wk_evidence = False, wk_used = Some (quarantine_bytes d)\<rparr> in
      rbind (ingest_records ii tk b (ch_epoch (db_channel d)) (bt_records b) w) (\<lambda>(ds, w).
      let d = wk_db w;
          d = (if wk_evidence w \<and>
                  (case wk_used w of Some n \<Rightarrow> n < max_quarantine_bytes (bc_limits (ii_config ii)) | None \<Rightarrow> False)
               then SQL_RAW_KEEP octets (bt_sha256 b) d else d)
      in Inr (ds, on_channel (SQL_CHANNEL_CURSOR (bt_next_cursor b) (bt_session_id b) (tk_fence tk)) d)))"

definition process ::
    "ingestor \<Rightarrow> fault_flags \<Rightarrow> int \<Rightarrow> bytes \<Rightarrow> pytext option \<Rightarrow> proc \<Rightarrow> db \<Rightarrow>
     (exn + batch \<times> disposition list) \<times> proc \<times> db" where
  "process ii flt now octets cursor_before p d =
     (case parse_batch (be_json (ii_env ii)) octets of
        Inl e \<Rightarrow> (Inl (StructuralRefusal e (je_sha256 (be_json (ii_env ii)) octets)), p, d)
      | Inr b \<Rightarrow>
          transaction flt now True p d (\<lambda>d.
            rbind (ingest_batch ii \<lparr>tk_now = now, tk_fence = pr_store_fence p\<rparr> b octets cursor_before d)
              (\<lambda>(ds, d). Inr ((b, ds), d))))"

section \<open>Dispatch\<close>

text \<open>
  The sink takes an event (\<open>True\<close>) or raises. Each event that was taken is marked in a fenced
  transaction of its own; a lost lease ends the pass without naming a failed event.
\<close>

fun dispatch_events ::
    "fault_flags \<Rightarrow> int \<Rightarrow> (outbox_row \<Rightarrow> bool) \<Rightarrow> outbox_row list \<Rightarrow> nat \<Rightarrow> proc \<Rightarrow> db \<Rightarrow>
     (exn + nat \<times> pytext option) \<times> proc \<times> db" where
  "dispatch_events flt now sink [] delivered p d = (Inr (delivered, None), p, d)"
| "dispatch_events flt now sink (e # es) delivered p d =
     (if \<not> sink e then (Inr (delivered, Some (ox_key e)), p, d)
      else case transaction flt now True p d (\<lambda>d. Inr ((), SQL_OUTBOX_MARK now (ox_key e) d)) of
        (Inl LeaseLost, p, d) \<Rightarrow> (Inr (delivered, None), p, d)
      | (Inl x, p, d) \<Rightarrow> (Inl x, p, d)
      | (Inr _, p, d) \<Rightarrow> dispatch_events flt now sink es (Suc delivered) p d)"

definition dispatch ::
    "fault_flags \<Rightarrow> int \<Rightarrow> (outbox_row \<Rightarrow> bool) \<Rightarrow> proc \<Rightarrow> db \<Rightarrow> (exn + nat \<times> pytext option) \<times> proc \<times> db" where
  "dispatch flt now sink p d = dispatch_events flt now sink (SQL_OUTBOX_PENDING d) 0 p d"

end
