(* ===== verification/Link16_Bridge.thy ===== *)
theory Link16_Bridge
  imports Link16_Ingest
begin

text \<open>
  The bridge itself, \<^verbatim>\<open>bridge.py\<close>: startup, one pass of the ingest loop, health and the operator's
  records. A method is a function of the bridge's state that returns or raises and leaves the
  state as it was changed up to then, because a raise does not undo an earlier transaction.
\<close>

section \<open>The bridge and its methods\<close>

datatype bridge_status = READY | DEGRADED_INGEST_ONLY | BLOCKED

record bridge =
  br_proc :: proc
  br_db :: db
  br_status :: bridge_status
  br_blocked :: "string list"
  br_started :: bool
  br_provider_ready :: bool
  br_projection :: "projection_choice option"
  br_exports :: bool
  br_refetch :: "bool \<times> pytext option"
  br_sink_failed :: "pytext option"
  br_warned :: "string list"
  br_waited :: bool
  br_backoff :: backoff

type_synonym ('s, 'a) state_meth = "'s \<Rightarrow> (exn + 'a) \<times> 's"
type_synonym 'a meth = "(bridge, 'a) state_meth"

definition ret :: "'a \<Rightarrow> ('s, 'a) state_meth" where
  "ret x s = (Inr x, s)"

definition mbind :: "('s, 'a) state_meth \<Rightarrow> ('a \<Rightarrow> ('s, 'b) state_meth) \<Rightarrow> ('s, 'b) state_meth" where
  "mbind m f s = (case m s of (Inl e, s') \<Rightarrow> (Inl e, s') | (Inr x, s') \<Rightarrow> f x s')"

definition handle :: "('s, 'a) state_meth \<Rightarrow> (exn \<Rightarrow> ('s, 'a) state_meth) \<Rightarrow> ('s, 'a) state_meth" where
  "handle m h s = (case m s of (Inl e, s') \<Rightarrow> h e s' | (Inr x, s') \<Rightarrow> (Inr x, s'))"

definition set_state :: "('s \<Rightarrow> 's) \<Rightarrow> ('s, unit) state_meth" where
  "set_state f s = (Inr (), f s)"

definition look :: "('s \<Rightarrow> ('s, 'a) state_meth) \<Rightarrow> ('s, 'a) state_meth" where
  "look f s = f s s"

text \<open>
  What one pass meets: the clock, the faults, the gateway's answers, the sink, the jitter drawn
  and the double arithmetic of the warning fraction.
\<close>

datatype fetch_answer =
    Fetched bytes
  | CursorExpired "pytext option"
  | AuthFailure string
  | GatewayRefused string bool
  | TransportFailed

record surroundings =
  su_now :: int
  su_faults :: fault_flags
  su_reports :: "pytext option \<Rightarrow> fetch_answer"
  su_ack :: "pytext \<Rightarrow> bool"
  su_sink :: "outbox_row \<Rightarrow> bool"
  su_jitter :: rat
  su_eighty :: "nat \<Rightarrow> rat"

definition txn :: "surroundings \<Rightarrow> (int \<Rightarrow> db \<Rightarrow> exn + 'a \<times> db) \<Rightarrow> 'a meth" where
  "txn su body s =
     (case transaction (su_faults su) (su_now su) True (br_proc s) (br_db s)
             (body (pr_store_fence (br_proc s))) of
        (r, p, d) \<Rightarrow> (r, s\<lparr>br_proc := p, br_db := d\<rparr>))"

definition on_proc :: "(proc \<Rightarrow> db \<Rightarrow> (exn + 'a) \<times> proc \<times> db) \<Rightarrow> 'a meth" where
  "on_proc f s = (case f (br_proc s) (br_db s) of (r, p, d) \<Rightarrow> (r, s\<lparr>br_proc := p, br_db := d\<rparr>))"

definition block :: "string \<Rightarrow> unit meth" where
  "block reason = set_state (\<lambda>s. s\<lparr>br_status := BLOCKED,
     br_blocked := (if reason \<in> set (br_blocked s) then br_blocked s else br_blocked s @ [reason])\<rparr>)"

section \<open>Channel changes and their audit rows\<close>

definition audit_only ::
    "ingestor \<Rightarrow> surroundings \<Rightarrow> (int \<Rightarrow> channel_row \<Rightarrow> channel_row) \<Rightarrow> string \<Rightarrow> string \<Rightarrow>
     pytext option \<Rightarrow> (int \<Rightarrow> raw_row) option \<Rightarrow> unit meth" where
  "audit_only ii su change kind code subject raw =
     txn su (\<lambda>fence d.
       let d = (case raw of Some row \<Rightarrow> SQL_RAW_INSERT (row fence) d | None \<Rightarrow> d);
           d = on_channel (change fence) d
       in Inr ((), audit_record (su_now su) fence (bc_revision (ii_config ii)) kind subject (Some code) None
            (map_option (\<lambda>row. rw_sha256 (row fence)) raw) d))"

definition stop_channel ::
    "ingestor \<Rightarrow> surroundings \<Rightarrow> string \<Rightarrow> pytext option \<Rightarrow> (int \<Rightarrow> raw_row) option \<Rightarrow> unit meth" where
  "stop_channel ii su code subject raw =
     audit_only ii su (SQL_CHANNEL_STOP code (bc_revision (ii_config ii))) ''channel_stop'' code subject raw"

definition hold_overloaded :: "ingestor \<Rightarrow> surroundings \<Rightarrow> channel_row \<Rightarrow> string \<Rightarrow> unit meth" where
  "hold_overloaded ii su ch code =
     (if ch_state ch \<notin> {NORMAL, OVERLOADED} then ret ()
      else if (ch_state ch, ch_reason ch) \<noteq> (OVERLOADED, Some code)
      then audit_only ii su (SQL_CHANNEL_STATE OVERLOADED code) ''capacity'' code None None
      else ret ())"

definition cleared :: "ingestor \<Rightarrow> surroundings \<Rightarrow> channel_row \<Rightarrow> unit meth" where
  "cleared ii su ch =
     audit_only ii su SQL_CHANNEL_SETTLE ''capacity_cleared''
       (case ch_reason ch of Some r \<Rightarrow> if r = '''' then ''CAPACITY_REPORTS'' else r
        | None \<Rightarrow> ''CAPACITY_REPORTS'') None None"

definition count_warnings :: "ingestor \<Rightarrow> surroundings \<Rightarrow> usage \<Rightarrow> unit meth" where
  "count_warnings ii su used = look (\<lambda>s.
     let now_over = warning_codes (su_eighty su) used (bc_limits (ii_config ii));
         entered = filter (\<lambda>c. c \<notin> set (br_warned s)) now_over in
     mbind (if entered \<noteq> []
            then txn su (\<lambda>_ d. Inr ((), counter_add ''capacity_warning'' (int (length entered)) d))
            else ret ()) (\<lambda>_. set_state (br_warned_update (\<lambda>_. now_over))))"

definition backoff_wait :: "surroundings \<Rightarrow> unit meth" where
  "backoff_wait su = set_state (\<lambda>s. s\<lparr>br_waited := True,
     br_backoff := snd (backoff_failure (su_now su) (su_jitter su) (br_backoff s))\<rparr>)"

definition sink_state :: "ingestor \<Rightarrow> surroundings \<Rightarrow> pytext option \<Rightarrow> unit meth" where
  "sink_state ii su failed = look (\<lambda>s.
     let was = br_sink_failed s in
     if (failed = None) = (was = None) then set_state (br_sink_failed_update (\<lambda>_. failed))
     else mbind (txn su (\<lambda>fence d. Inr ((), audit_record (su_now su) fence (bc_revision (ii_config ii))
                   (if failed \<noteq> None then ''sink_failed'' else ''sink_recovered'')
                   (if failed \<noteq> None then failed else was) (Some ''SINK_FAILED'')
                   (Some (if failed \<noteq> None then ''FAILED'' else ''DELIVERED'')) None d)))
            (\<lambda>_. set_state (br_sink_failed_update (\<lambda>_. failed))))"

text \<open>A lost lease blocks and a failed commit of the freshness pass ends it; neither raises.\<close>

definition housekeeping :: "ingestor \<Rightarrow> surroundings \<Rightarrow> unit meth" where
  "housekeeping ii su s =
     (case txn su (\<lambda>fence d. Inr (evaluate_freshness (be_json (ii_env ii)) (ii_config ii) (su_now su) fence d)) s of
        (Inl LeaseLost, s) \<Rightarrow> block ''LEASE_LOST'' s
      | (Inl OperationalError, s) \<Rightarrow> (Inr (), s)
      | (Inl e, s) \<Rightarrow> (Inl e, s)
      | (Inr _, s) \<Rightarrow>
          mbind (on_proc (dispatch (su_faults su) (su_now su) (su_sink su)))
            (\<lambda>(_, failed). sink_state ii su failed) s)"

section \<open>One pass\<close>

record pass_result =
  ps_fetched :: bool
  ps_reason :: "string option"
  ps_acked :: bool
  ps_more :: bool
  ps_dispositions :: "disposition list"

definition ended :: "bool \<Rightarrow> string \<Rightarrow> pass_result" where
  "ended fetched reason = \<lparr>ps_fetched = fetched, ps_reason = Some reason, ps_acked = False,
     ps_more = False, ps_dispositions = []\<rparr>"

definition state_text :: "channel_state \<Rightarrow> string" where
  "state_text st = (case st of NORMAL \<Rightarrow> ''NORMAL'' | INCOMPLETE \<Rightarrow> ''INCOMPLETE''
     | OVERLOADED \<Rightarrow> ''OVERLOADED'' | STOPPED \<Rightarrow> ''STOPPED'' | RESYNC_REQUIRED \<Rightarrow> ''RESYNC_REQUIRED'')"

definition structural ::
    "ingestor \<Rightarrow> surroundings \<Rightarrow> contract_error \<Rightarrow> pytext \<Rightarrow> bytes \<Rightarrow> pytext option \<Rightarrow> pass_result meth" where
  "structural ii su e digest octets cursor_before = look (\<lambda>s.
     let ch = db_channel (br_db s);
         count = (if ch_retry_sha ch = Some digest then ch_retry_count ch + 1 else 1);
         raw = (\<lambda>fence. \<lparr>rw_sha256 = digest, rw_received_at = su_now su, rw_cursor_before = cursor_before,
                  rw_bytes = length octets,
                  rw_body = (if quarantine_full (br_db s) (bc_limits (ii_config ii)) then None else Some octets),
                  rw_fence = fence\<rparr>) in
     mbind (audit_only ii su (SQL_CHANNEL_RETRY digest count) ''structural_batch'' (ce_code e) None (Some raw)) (\<lambda>_.
     if batch_retry_max (bc_limits (ii_config ii)) \<le> count
     then mbind (stop_channel ii su ''STRUCTURAL_BATCH'' None None) (\<lambda>_. ret (ended True ''STRUCTURAL_BATCH''))
     else mbind (backoff_wait su) (\<lambda>_. ret (ended True (ce_code e)))))"

text \<open>After the batch is committed: the capacity state, the acknowledgement and its record.\<close>

definition after_commit ::
    "ingestor \<Rightarrow> surroundings \<Rightarrow> batch \<Rightarrow> disposition list \<Rightarrow> pass_result meth" where
  "after_commit ii su b ds =
     mbind (set_state (br_refetch_update (\<lambda>_. (False, None)))) (\<lambda>_. look (\<lambda>s.
     let ch = db_channel (br_db s) in
     mbind (if ch_state ch = OVERLOADED \<and> ch_reason ch = Some ''CAPACITY_IDENTITIES''
            then cleared ii su ch else ret ()) (\<lambda>_.
     let acked = su_ack su (bt_next_cursor b);
         result = \<lparr>ps_fetched = True, ps_reason = None, ps_acked = acked, ps_more = bt_has_more b,
                   ps_dispositions = ds\<rparr> in
     if \<not> acked then mbind (housekeeping ii su) (\<lambda>_. ret result)
     else (\<lambda>s.
       case txn su (\<lambda>fence d. Inr ((), on_channel (SQL_CHANNEL_ACKED (Some (bt_next_cursor b)) fence) d)) s of
         (Inl LeaseLost, s) \<Rightarrow>
           mbind (block ''LEASE_LOST'') (\<lambda>_. ret (result\<lparr>ps_reason := Some ''LEASE_LOST''\<rparr>)) s
       | (Inl e, s) \<Rightarrow> (Inl e, s)
       | (Inr _, s) \<Rightarrow> mbind (housekeeping ii su) (\<lambda>_. ret result) s))))"

definition ingest_octets :: "ingestor \<Rightarrow> surroundings \<Rightarrow> bytes \<Rightarrow> pytext option \<Rightarrow> pass_result meth" where
  "ingest_octets ii su octets cursor_before s =
     (case on_proc (process ii (su_faults su) (su_now su) octets cursor_before) s of
        (Inr (b, ds), s) \<Rightarrow> after_commit ii su b ds s
      | (Inl (StructuralRefusal e digest), s) \<Rightarrow> structural ii su e digest octets cursor_before s
      | (Inl (ChannelStop code path key), s) \<Rightarrow>
          mbind (stop_channel ii su code (Some key) (Some (\<lambda>fence.
             \<lparr>rw_sha256 = je_sha256 (be_json (ii_env ii)) octets, rw_received_at = su_now su,
              rw_cursor_before = cursor_before, rw_bytes = length octets, rw_body = Some octets,
              rw_fence = fence\<rparr>))) (\<lambda>_. ret (ended True code)) s
      | (Inl (CapacityStop code), s) \<Rightarrow>
          mbind (hold_overloaded ii su (db_channel (br_db s)) code) (\<lambda>_. ret (ended True code)) s
      | (Inl OperationalError, s) \<Rightarrow> (Inr (ended True ''DURABLE_COMMIT_FAILED''), s)
      | (Inl LeaseLost, s) \<Rightarrow> mbind (block ''LEASE_LOST'') (\<lambda>_. ret (ended True ''LEASE_LOST'')) s
      | (Inl e, s) \<Rightarrow> (Inl e, s))"

definition fetch_and_ingest :: "ingestor \<Rightarrow> surroundings \<Rightarrow> pass_result meth" where
  "fetch_and_ingest ii su = look (\<lambda>s.
     let after = (if fst (br_refetch s) then snd (br_refetch s) else ch_cursor (db_channel (br_db s))) in
     case su_reports su after of
       CursorExpired earliest \<Rightarrow>
         mbind (audit_only ii su (SQL_CHANNEL_EXPIRED earliest) ''cursor_expired'' ''CURSOR_EXPIRED'' None None)
           (\<lambda>_. ret (ended False ''CURSOR_EXPIRED''))
     | AuthFailure code \<Rightarrow> mbind (stop_channel ii su code None None) (\<lambda>_. ret (ended False code))
     | GatewayRefused code retryable \<Rightarrow>
         if retryable then mbind (backoff_wait su) (\<lambda>_. ret (ended False code))
         else mbind (stop_channel ii su code None None) (\<lambda>_. ret (ended False code))
     | TransportFailed \<Rightarrow>
         mbind (set_state (br_provider_ready_update (\<lambda>_. False))) (\<lambda>_.
         mbind (backoff_wait su) (\<lambda>_. ret (ended False ''TRANSPORT'')))
     | Fetched octets \<Rightarrow>
         mbind (set_state (\<lambda>s. s\<lparr>br_provider_ready := True,
                  br_backoff := backoff_success (su_now su) (br_backoff s)\<rparr>)) (\<lambda>_.
         ingest_octets ii su octets after))"

definition stopping_code :: "ingestor \<Rightarrow> usage \<Rightarrow> string option" where
  "stopping_code ii used =
     find (\<lambda>c. c \<in> set STOPS_FETCHING) (full_codes used (bc_limits (ii_config ii)))"

definition admitted_pass :: "ingestor \<Rightarrow> surroundings \<Rightarrow> pass_result meth" where
  "admitted_pass ii su = look (\<lambda>s.
     let ch = db_channel (br_db s) in
     if ch_state ch \<in> {STOPPED, RESYNC_REQUIRED}
     then mbind (housekeeping ii su) (\<lambda>_. ret (ended False (state_text (ch_state ch))))
     else
       (let used = usage_of (br_db s) in
        mbind (count_warnings ii su used) (\<lambda>_.
        case stopping_code ii used of
          Some code \<Rightarrow>
            mbind (hold_overloaded ii su ch code) (\<lambda>_.
            mbind (housekeeping ii su) (\<lambda>_. ret (ended False code)))
        | None \<Rightarrow>
            mbind (if ch_state ch = OVERLOADED \<and> ch_reason ch \<noteq> Some ''CAPACITY_IDENTITIES''
                   then cleared ii su ch else ret ()) (\<lambda>_.
            fetch_and_ingest ii su))))"

definition hold_lease :: "surroundings \<Rightarrow> bool meth" where
  \<comment> \<open>renew, or take the lease again; \<open>False\<close> when another instance holds it\<close>
  "hold_lease su s =
     (case on_proc (lease_renew (su_faults su) (su_now su)) s of
        (Inr _, s) \<Rightarrow> (Inr True, s)
      | (Inl LeaseLost, s) \<Rightarrow>
          (case on_proc (lease_acquire (su_faults su) (su_now su)) s of
             (Inr _, s) \<Rightarrow> (Inr True, s)
           | (Inl LeaseHeld, s) \<Rightarrow> mbind (block ''LEASE_LOST'') (\<lambda>_. ret False) s
           | (Inl e, s) \<Rightarrow> (Inl e, s))
      | (Inl e, s) \<Rightarrow> (Inl e, s))"

definition pass_body :: "ingestor \<Rightarrow> surroundings \<Rightarrow> pass_result meth" where
  "pass_body ii su = look (\<lambda>s.
     if br_status s = BLOCKED \<or> \<not> br_started s then ret (ended False ''BLOCKED'')
     else mbind (hold_lease su) (\<lambda>held.
       if held then admitted_pass ii su else ret (ended False ''LEASE_LOST'')))"

definition internal_error :: "ingestor \<Rightarrow> surroundings \<Rightarrow> unit meth" where
  "internal_error ii su =
     mbind (handle (txn su (\<lambda>fence d. Inr ((), audit_record (su_now su) fence (bc_revision (ii_config ii))
                     ''internal_error'' None (Some ''INTERNAL_ERROR'') (Some ''BLOCKED'') None d)))
              (\<lambda>_. ret ()))
       (\<lambda>_. block ''INTERNAL_ERROR'')"

definition run_once :: "ingestor \<Rightarrow> surroundings \<Rightarrow> pass_result meth" where
  "run_once ii su =
     handle (pass_body ii su) (\<lambda>e.
       case e of
         OperationalError \<Rightarrow> ret (ended False ''DURABLE_COMMIT_FAILED'')
       | LeaseLost \<Rightarrow> mbind (block ''LEASE_LOST'') (\<lambda>_. ret (ended False ''LEASE_LOST''))
       | _ \<Rightarrow> mbind (internal_error ii su) (\<lambda>_. ret (ended False ''INTERNAL_ERROR'')))"

end
