(* ===== verification/Link16_Operator.thy ===== *)
theory Link16_Operator
  imports Link16_Bridge
begin

text \<open>
  The rest of \<^verbatim>\<open>bridge.py\<close>: startup in its fixed order, health, and the operator's records,
  each of which changes the store only in a fenced transaction with an audit row.
\<close>

section \<open>Startup\<close>

text \<open>
  What startup finds: whether the installed adapter and enumeration are there, the gateway's
  capabilities when it answers, whether a native profile activates, and the sink's versions.
\<close>

record start_surroundings =
  ss_installed_ok :: bool
  ss_capabilities :: "capabilities option"
  ss_native_active :: bool
  ss_accepts :: "pytext list"
  ss_installed :: pytext
  ss_binding :: pytext

definition exports_ready :: "bridge_config \<Rightarrow> start_surroundings \<Rightarrow> capabilities \<Rightarrow> bool" where
  "exports_ready cfg ss cap \<longleftrightarrow>
     bc_mode cfg = BIDIRECTIONAL \<and> bc_native_profile cfg \<in> set (cap_native_profiles cap) \<and>
     (bc_synthetic cfg \<or> ss_native_active ss)"

definition blocked_as :: "string \<Rightarrow> bridge_status meth" where
  "blocked_as reason = mbind (block reason) (\<lambda>_. ret BLOCKED)"

definition restart_stopped :: "ingestor \<Rightarrow> surroundings \<Rightarrow> unit meth" where
  "restart_stopped ii su = look (\<lambda>s.
     let ch = db_channel (br_db s) in
     if ch_state ch = STOPPED \<and> ch_stopped_revision ch \<noteq> Some (bc_revision (ii_config ii))
     then txn su (\<lambda>fence d. Inr ((), audit_record (su_now su) fence (bc_revision (ii_config ii))
            ''channel_restart'' None (Some ''CONFIG_REVISION_RESTART'') None None
            (on_channel (SQL_CHANNEL_SETTLE fence) d)))
     else ret ())"

definition restore_state :: "ingestor \<Rightarrow> surroundings \<Rightarrow> bool \<Rightarrow> bridge_status meth" where
  "restore_state ii su ready =
     mbind (restart_stopped ii su) (\<lambda>_. look (\<lambda>s.
     let ch = db_channel (br_db s);
         st = (if bc_mode (ii_config ii) = BIDIRECTIONAL \<and> \<not> ready then DEGRADED_INGEST_ONLY else READY) in
     mbind (set_state (\<lambda>s. s\<lparr>br_started := True, br_exports := ready, br_status := st,
        br_refetch := (if ch_committed_any ch \<and> ch_acked_cursor ch \<noteq> ch_cursor ch
                       then (True, ch_acked_cursor ch) else br_refetch s)\<rparr>)) (\<lambda>_. ret st)))"

definition check_gateway :: "ingestor \<Rightarrow> surroundings \<Rightarrow> start_surroundings \<Rightarrow> bridge_status meth" where
  "check_gateway ii su ss =
     (case ss_capabilities ss of
        None \<Rightarrow> mbind (set_state (br_provider_ready_update (\<lambda>_. False))) (\<lambda>_. blocked_as ''PROVIDER_UNAVAILABLE'')
      | Some cap \<Rightarrow>
          mbind (set_state (br_provider_ready_update (\<lambda>_. True))) (\<lambda>_.
          if cap_gateway_id cap \<noteq> bc_gateway_id (ii_config ii) then blocked_as ''GATEWAY_IDENTITY_MISMATCH''
          else
            (let chosen = choose_projection (ss_accepts ss) (ss_installed ss) in
             mbind (set_state (br_projection_update (\<lambda>_. Some chosen))) (\<lambda>_.
             if chosen = NEGOTIATION_FAILED then blocked_as ''SCHEMA_NEGOTIATION_FAILED''
             else restore_state ii su (exports_ready (ii_config ii) ss cap)))))"

text \<open>Opening the store makes a new connection and a new lease object: nothing is held yet.\<close>

definition open_store :: "surroundings \<Rightarrow> pytext \<Rightarrow> unit meth" where
  "open_store su binding =
     mbind (set_state (\<lambda>s. s\<lparr>br_proc := new_proc (pr_holder (br_proc s)) (pr_ttl_ms (br_proc s))\<rparr>)) (\<lambda>_.
       on_proc (bind_store (su_faults su) (su_now su) binding))"

definition start :: "ingestor \<Rightarrow> surroundings \<Rightarrow> start_surroundings \<Rightarrow> bridge_status meth" where
  "start ii su ss =
     (if \<not> ss_installed_ok ss then blocked_as ''SCHEMA_NEGOTIATION_FAILED''
      else
        mbind (open_store su (ss_binding ss)) (\<lambda>_. (\<lambda>s.
        case on_proc (lease_acquire (su_faults su) (su_now su)) s of
          (Inl LeaseHeld, s) \<Rightarrow> blocked_as ''LEASE_LOST'' s
        | (Inl e, s) \<Rightarrow> (Inl e, s)
        | (Inr _, s) \<Rightarrow> check_gateway ii su ss s)))"

section \<open>Health\<close>

definition UNREADY :: "string list" where
  "UNREADY = [''PROVIDER_UNAVAILABLE'', ''SCHEMA_NEGOTIATION_FAILED'', ''DURABLE_COMMIT_FAILED'',
     ''CHANNEL_INCOMPLETE'', ''RESYNC_REQUIRED'', ''CHANNEL_STOPPED'', ''GATEWAY_IDENTITY_MISMATCH'',
     ''LEASE_LOST'', ''SINK_FAILED'', ''INTERNAL_ERROR'']"

definition health_reasons :: "bridge \<Rightarrow> string list" where
  "health_reasons s =
     (let ch = db_channel (br_db s);
          reasons = br_blocked s @
            (if ch_state ch = INCOMPLETE \<or> ch_incomplete ch \<noteq> None then [''CHANNEL_INCOMPLETE''] else []) @
            (case ch_state ch of
               RESYNC_REQUIRED \<Rightarrow> [''RESYNC_REQUIRED'']
             | STOPPED \<Rightarrow> [''CHANNEL_STOPPED'']
             | OVERLOADED \<Rightarrow> [case ch_reason ch of Some r \<Rightarrow> if r = '''' then ''CAPACITY_REPORTS'' else r
                               | None \<Rightarrow> ''CAPACITY_REPORTS'']
             | _ \<Rightarrow> []) @
            (if pr_commit_failed (br_proc s) then [''DURABLE_COMMIT_FAILED''] else []) @
            (if br_sink_failed s \<noteq> None then [''SINK_FAILED''] else []);
          reasons = reasons @ (if \<not> br_provider_ready s \<and> ''PROVIDER_UNAVAILABLE'' \<notin> set reasons
                               then [''PROVIDER_UNAVAILABLE''] else [])
      in reasons @ (if br_projection s = Some NEGOTIATION_FAILED \<and>
                       ''SCHEMA_NEGOTIATION_FAILED'' \<notin> set reasons
                    then [''SCHEMA_NEGOTIATION_FAILED''] else []))"

definition health_ready :: "bridge \<Rightarrow> bool" where
  "health_ready s \<longleftrightarrow> set UNREADY \<inter> set (health_reasons s) = {} \<and> br_status s \<noteq> BLOCKED"

section \<open>Operator records\<close>

text \<open>\<open>blank\<close> says that \<open>str.strip\<close> leaves nothing of the evidence text.\<close>

definition with_evidence :: "(pytext \<Rightarrow> bool) \<Rightarrow> pytext \<Rightarrow> 'a meth \<Rightarrow> 'a meth" where
  "with_evidence blank evidence m =
     (if blank evidence then (\<lambda>s. (Inl (OperatorRefusal ''operator evidence text is required''), s)) else m)"

definition refuse :: "string \<Rightarrow> 'a meth" where
  "refuse why s = (Inl (OperatorRefusal why), s)"

definition recover :: "ingestor \<Rightarrow> surroundings \<Rightarrow> (pytext \<Rightarrow> bool) \<Rightarrow> pytext \<Rightarrow> unit meth" where
  "recover ii su blank evidence = with_evidence blank evidence (look (\<lambda>s.
     let ch = db_channel (br_db s) in
     if ch_state ch \<noteq> INCOMPLETE \<and> \<not> ch_degraded ch
     then refuse ''recover applies to an INCOMPLETE or degraded channel''
     else txn su (\<lambda>fence d. Inr ((), audit_record (su_now su) fence (bc_revision (ii_config ii)) ''recover'' None
            (if ch_state ch = INCOMPLETE then ch_reason ch else None) None None
            (on_channel (SQL_CHANNEL_RECOVER fence) d)))))"

definition resync :: "ingestor \<Rightarrow> surroundings \<Rightarrow> (pytext \<Rightarrow> bool) \<Rightarrow> pytext \<Rightarrow> int option \<Rightarrow> unit meth" where
  "resync ii su blank evidence lost_count = with_evidence blank evidence (look (\<lambda>s.
     let ch = db_channel (br_db s) in
     if ch_state ch \<noteq> RESYNC_REQUIRED \<or> ch_reason ch \<noteq> Some ''CURSOR_EXPIRED''
     then refuse ''resync applies after an expired cursor''
     else
       mbind (txn su (\<lambda>fence d.
         let d = on_channel (SQL_CHANNEL_ACKED (ch_earliest ch) fence \<circ> SQL_CHANNEL_RESYNC (ch_earliest ch) fence) d;
             d = (case lost_count of
                    Some n \<Rightarrow> if n \<noteq> 0 then counter_add ''dropped_by_capacity'' n (counter_add ''fed'' n d) else d
                  | None \<Rightarrow> d)
         in Inr ((), audit_record (su_now su) fence (bc_revision (ii_config ii)) ''resync'' None
              (Some ''CURSOR_EXPIRED'') None None d)))
       (\<lambda>_. set_state (br_refetch_update (\<lambda>_. (False, None))))))"

definition resync_identities ::
    "ingestor \<Rightarrow> surroundings \<Rightarrow> (pytext \<Rightarrow> bool) \<Rightarrow> pytext \<Rightarrow> string \<Rightarrow> unit meth" where
  "resync_identities ii su blank evidence how = with_evidence blank evidence (look (\<lambda>s.
     let ch = db_channel (br_db s) in
     if how \<notin> {''keep'', ''advance''} then refuse ''decision is keep or advance''
     else if ch_state ch \<noteq> RESYNC_REQUIRED \<or> ch_reason ch \<noteq> Some ''RESET_SCOPE''
     then refuse ''resync-identities applies after RESET_SCOPE''
     else txn su (\<lambda>fence d.
       let d = (if how = ''advance'' then SQL_IDENTITY_EPOCH_RESET fence (ch_epoch ch) d
                else SQL_IDENTITY_EPOCH_KEEP (ch_epoch ch) fence (ch_epoch ch) d)
       in Inr ((), audit_record (su_now su) fence (bc_revision (ii_config ii)) ''resync_identities'' None
            (Some ''RESET_SCOPE'') (Some how) None (on_channel (SQL_CHANNEL_SETTLE fence) d)))))"

text \<open>The quarantined bodies are read back strictly; a refused one ends the record.\<close>

definition stored_report :: "json_env \<Rightarrow> bytes \<Rightarrow> exn + jobject" where
  "stored_report je octets =
     (case loads_strict je octets BODY_DEPTH of
        Inl e \<Rightarrow> Inl (ContractRefused e)
      | Inr (JObj d) \<Rightarrow> Inr d
      | Inr _ \<Rightarrow> Inl (BodyKeyError ''effective_at''))"

fun stored_reports :: "json_env \<Rightarrow> quarantine_row list \<Rightarrow> exn + jobject list" where
  "stored_reports je [] = Inr []"
| "stored_reports je (q # qs) =
     (case qu_body q of
        None \<Rightarrow> stored_reports je qs
      | Some octets \<Rightarrow>
          rbind (stored_report je octets) (\<lambda>d. rbind (stored_reports je qs) (\<lambda>ds. Inr (d # ds))))"

fun times_of :: "jobject list \<Rightarrow> exn + int list" where
  "times_of [] = Inr []"
| "times_of (d # ds) = rbind (time_of d ''effective_at'') (\<lambda>t. rbind (times_of ds) (\<lambda>ts. Inr (t # ts)))"

definition earliest :: "int list \<Rightarrow> int option" where
  "earliest ts = (case ts of [] \<Rightarrow> None | t # ts \<Rightarrow> Some (foldr min ts t))"

text \<open>\<open>continue\<close>: the tuple is admitted or made LIVE again, with the scope of the decision.\<close>

definition admit_tuple ::
    "ingestor \<Rightarrow> int \<Rightarrow> pytext \<Rightarrow> int \<Rightarrow> jobject list \<Rightarrow> db \<Rightarrow> exn + db" where
  "admit_tuple ii fence key epoch bodies d =
     rbind (if SQL_IDENTITY_GET key d \<noteq> None then Inr d
            else if max_identities (bc_limits (ii_config ii)) \<le> SQL_IDENTITY_COUNT_LIVE d
            then Inl (OperatorRefusal ''the identity cap is reached'')
            else rbind (times_of bodies) (\<lambda>ts.
              insert_identity (ii_env ii) fence key (be_fields_of (ii_env ii) key) ''LIVE'' epoch (earliest ts)
                None None d)) (\<lambda>d.
       let f = be_fields_of (ii_env ii) key;
           scope = highest_incarnation (SQL_IDENTITY_SCOPE (it_tenant f) (it_realm f) (it_synthetic f)
                     (it_scope f) (it_number f) d)
       in SQL_IDENTITY_STATUS ''LIVE'' ''continue'' scope fence key d)"

definition released_record :: "json_env \<Rightarrow> jobject \<Rightarrow> raw_record" where
  "released_record je report =
     \<lparr>rr_index = 0, rr_kind = ''report'', rr_body = Some report, rr_fault = None,
      rr_digest = je_sha256 je (je_canonical je (JObj report)),
      rr_record_id = jstr (jget report ''record_id'')\<rparr>"

definition release_one ::
    "ingestor \<Rightarrow> tick \<Rightarrow> int \<Rightarrow> quarantine_row \<Rightarrow> nat \<times> db \<Rightarrow> exn + nat \<times> db" where
  "release_one ii tk epoch q acc =
     (case (qu_body q, acc) of
        (None, _) \<Rightarrow> Inr acc
      | (Some octets, (released, d)) \<Rightarrow>
          rbind (stored_report (be_json (ii_env ii)) octets) (\<lambda>report.
          let vd = translate (ii_adapter ii) report in
          if vd_action vd \<noteq> ACCEPT then Inr acc
          else rbind (accept_report ii tk (qu_batch q) (released_record (be_json (ii_env ii)) report) (qu_key q)
                 report vd epoch False \<lparr>wk_db = d, wk_evidence = False, wk_used = None\<rparr>) (\<lambda>((disposition, _), w).
            if disposition = ''ACCEPTED'' then
              Inr (Suc released,
                counter_add ''refused'' (- 1)
                  (SQL_INGEST_SET ''ACCEPTED'' ''RELEASED'' (tk_fence tk) (qu_key q)
                    (SQL_QUARANTINE_RESOLVE (tk_now tk) ''CONTINUED_BY_OPERATOR'' (tk_fence tk) (qu_id q) (wk_db w))))
            else Inr (released, wk_db w))))"

definition continue_reuse :: "ingestor \<Rightarrow> tick \<Rightarrow> pytext \<Rightarrow> quarantine_row list \<Rightarrow> db \<Rightarrow> exn + nat \<times> db" where
  "continue_reuse ii tk key pending d =
     (let epoch = ch_epoch (db_channel d) in
      rbind (stored_reports (be_json (ii_env ii)) pending) (\<lambda>bodies.
      rbind (admit_tuple ii (tk_fence tk) key epoch bodies d) (\<lambda>d.
      rfold (\<lambda>acc q. release_one ii tk epoch q acc) (0, d) pending)))"

definition reject_reuse :: "tick \<Rightarrow> quarantine_row list \<Rightarrow> db \<Rightarrow> db" where
  "reject_reuse tk pending d =
     fold (\<lambda>q. SQL_QUARANTINE_RESOLVE (tk_now tk) ''REJECTED_BY_OPERATOR'' (tk_fence tk) (qu_id q)) pending d"

definition resolve_reuse_txn ::
    "ingestor \<Rightarrow> tick \<Rightarrow> pytext \<Rightarrow> string \<Rightarrow> db \<Rightarrow> exn + nat \<times> db" where
  "resolve_reuse_txn ii tk key how d =
     (let pending = SQL_QUARANTINE_REUSE key d in
      if pending = [] then Inl (OperatorRefusal ''no quarantined reuse for this identity'')
      else rbind (if how = ''reject'' then Inr (0, reject_reuse tk pending d)
                  else continue_reuse ii tk key pending d) (\<lambda>(released, d).
        Inr (released, audit_record (tk_now tk) (tk_fence tk) (bc_revision (ii_config ii)) ''resolve_reuse'' None
          (Some ''REUSE_AMBIGUOUS'') (Some how) None d)))"

definition resolve_reuse ::
    "ingestor \<Rightarrow> surroundings \<Rightarrow> (pytext \<Rightarrow> bool) \<Rightarrow> pytext \<Rightarrow> pytext \<Rightarrow> string \<Rightarrow> nat meth" where
  "resolve_reuse ii su blank evidence key how = with_evidence blank evidence
     (if how \<notin> {''continue'', ''reject''} then refuse ''decision is continue or reject''
      else txn su (\<lambda>fence. resolve_reuse_txn ii \<lparr>tk_now = su_now su, tk_fence = fence\<rparr> key how))"

definition read_evidence ::
    "ingestor \<Rightarrow> surroundings \<Rightarrow> (pytext \<Rightarrow> bool) \<Rightarrow> pytext \<Rightarrow> pytext \<Rightarrow> bytes option meth" where
  "read_evidence ii su blank evidence sha = with_evidence blank evidence (look (\<lambda>s.
     mbind (txn su (\<lambda>fence d. Inr ((), audit_record (su_now su) fence (bc_revision (ii_config ii))
              ''evidence_read'' (Some sha) None None None d)))
       (\<lambda>_. ret (case find (\<lambda>r. rw_sha256 r = sha) (db_raw (br_db s)) of
                   Some r \<Rightarrow> rw_body r | None \<Rightarrow> None))))"

end
