(* ===== verification/Link16_Client.thy ===== *)
theory Link16_Client
  imports Link16_Operator
begin

text \<open>
  The bridge's client for the gateway API, \<^verbatim>\<open>gateway/client.py\<close>: what one exchange on the wire
  becomes for the caller. The connection itself (sockets, TLS and the deadline on each read and send)
  is the parameter \<open>ct_exchange\<close>, which says how far a request got.
\<close>

section \<open>Exchanges and typed outcomes\<close>

datatype http_method = GET | POST

datatype exchange_answer = ConnectFailed | NoAnswer | Answered int bytes

datatype gateway_kind =
  AuthFailureKind | NotFoundKind | ConflictKind | CursorExpiredKind | CapacityKind | UnavailableKind | OtherKind

datatype client_error =
    TransportError
  | TransportTimeout
  | SendOutcomeUnknown
  | GatewayProtocolError string
  | GatewayError (ge_kind: gateway_kind) (ge_code: pytext) (ge_retryable: bool) (ge_earliest: "pytext option")

record client_env =
  ct_json :: json_env
  ct_exchange :: "http_method \<Rightarrow> pytext \<Rightarrow> bytes option \<Rightarrow> exchange_answer"
  ct_urlencode :: "(string \<times> pytext) list \<Rightarrow> pytext"
  ct_max_body_bytes :: nat

definition BY_STATUS :: "int \<Rightarrow> gateway_kind" where
  "BY_STATUS status =
     (if status = 401 \<or> status = 403 then AuthFailureKind
      else if status = 404 then NotFoundKind
      else if status = 409 then ConflictKind
      else if status = 410 then CursorExpiredKind
      else if status = 429 then CapacityKind
      else if status = 503 then UnavailableKind
      else OtherKind)"

definition exchange :: "client_env \<Rightarrow> http_method \<Rightarrow> pytext \<Rightarrow> bytes option \<Rightarrow> client_error + int \<times> bytes" where
  "exchange ct verb path body =
     (case ct_exchange ct verb path body of
        ConnectFailed \<Rightarrow> Inl TransportError
      | NoAnswer \<Rightarrow> Inl (if verb = POST then SendOutcomeUnknown else TransportTimeout)
      | Answered status octets \<Rightarrow>
          (let octets = take (ct_max_body_bytes ct + 1) octets in
           if 300 \<le> status \<and> status < 400
           then Inl (GatewayProtocolError ''a redirect, which is never followed'')
           else if ct_max_body_bytes ct < length octets
           then Inl (GatewayProtocolError ''a response above the body limit'')
           else Inr (status, octets)))"

definition text_value :: "jobject \<Rightarrow> string \<Rightarrow> pytext" where
  "text_value d k = (case the_key d k of JStr t \<Rightarrow> t | _ \<Rightarrow> [])"

definition expect_status ::
    "client_env \<Rightarrow> http_method \<Rightarrow> pytext \<Rightarrow> int \<Rightarrow> bytes option \<Rightarrow> client_error + bytes" where
  "expect_status ct verb path expected body =
     rbind (exchange ct verb path body) (\<lambda>(status, octets).
       if status = expected then Inr octets
       else case rbind (loads_strict (ct_json ct) octets BODY_DEPTH) validate_error of
         Inl _ \<Rightarrow> Inl (GatewayProtocolError ''an error answer that is not the API's error form'')
       | Inr d \<Rightarrow> Inl (GatewayError (BY_STATUS status) (text_value d ''code'')
                       (the_key d ''retryable'' = JBool True) (jstr (jget d ''earliest_cursor''))))"

definition document_of :: "client_env \<Rightarrow> bytes \<Rightarrow> client_error + json" where
  "document_of ct octets =
     (case loads_strict (ct_json ct) octets BODY_DEPTH of
        Inl _ \<Rightarrow> Inl (GatewayProtocolError ''a body that is not strict JSON'')
      | Inr v \<Rightarrow> Inr v)"

definition validated :: "string \<Rightarrow> (json \<Rightarrow> contract_error + 'a) \<Rightarrow> json \<Rightarrow> client_error + 'a" where
  "validated rule check v = (case check v of Inl _ \<Rightarrow> Inl (GatewayProtocolError rule) | Inr x \<Rightarrow> Inr x)"

section \<open>The API's operations\<close>

definition client_capabilities :: "client_env \<Rightarrow> client_error + capabilities" where
  "client_capabilities ct =
     rbind (expect_status ct GET (asc ''/v1/capabilities'') 200 None) (\<lambda>octets.
     rbind (document_of ct octets) (validated ''capabilities outside the API contract'' validate_capabilities))"

definition client_reports :: "client_env \<Rightarrow> nat \<Rightarrow> pytext option \<Rightarrow> client_error + bytes" where
  "client_reports ct limit after =
     (let query = (''limit'', dec limit) # (case after of Some c \<Rightarrow> [(''after'', c)] | None \<Rightarrow> [])
      in expect_status ct GET (asc ''/v1/reports?'' @ ct_urlencode ct query) 200 None)"

definition client_ack :: "client_env \<Rightarrow> pytext \<Rightarrow> pytext \<Rightarrow> client_error + unit" where
  "client_ack ct consumer cursor =
     (let body = je_canonical (ct_json ct) (JObj [(asc ''consumer_id'', JStr consumer), (asc ''cursor'', JStr cursor)])
      in rbind (expect_status ct POST (asc ''/v1/ack'') 200 (Some body)) (\<lambda>_. Inr ()))"

definition client_transmit :: "client_env \<Rightarrow> bytes \<Rightarrow> client_error + jobject" where
  "client_transmit ct body =
     rbind (expect_status ct POST (asc ''/v1/transmissions'') 202 (Some body)) (\<lambda>octets.
     rbind (document_of ct octets) (validated ''a status outside the API contract'' validate_status))"

definition client_transmission_status :: "client_env \<Rightarrow> pytext \<Rightarrow> client_error + jobject" where
  "client_transmission_status ct request_id =
     rbind (expect_status ct GET (asc ''/v1/transmissions/'' @ request_id) 200 None) (\<lambda>octets.
     rbind (document_of ct octets) (validated ''a status outside the API contract'' validate_status))"

definition client_health :: "client_env \<Rightarrow> client_error + jobject" where
  "client_health ct =
     rbind (expect_status ct GET (asc ''/v1/health'') 200 None) (\<lambda>octets.
     rbind (document_of ct octets) (validated ''health outside the API contract'' validate_health))"

section \<open>What the ingest loop and startup make of them\<close>

text \<open>A code is ASCII in the contract's error table, so it is kept as a string.\<close>

definition code_text :: "pytext \<Rightarrow> string" where
  "code_text t = map char_of t"

definition fetched_as :: "client_error + bytes \<Rightarrow> fetch_answer" where
  "fetched_as r =
     (case r of
        Inr octets \<Rightarrow> Fetched octets
      | Inl (GatewayError CursorExpiredKind _ _ oldest) \<Rightarrow> CursorExpired oldest
      | Inl (GatewayError AuthFailureKind code _ _) \<Rightarrow> AuthFailure (code_text code)
      | Inl (GatewayError _ code retryable _) \<Rightarrow> GatewayRefused (code_text code) retryable
      | Inl _ \<Rightarrow> TransportFailed)"

text \<open>The surroundings of a pass and of a start when this client talks to the gateway.\<close>

definition with_client :: "client_env \<Rightarrow> bridge_config \<Rightarrow> surroundings \<Rightarrow> surroundings" where
  "with_client ct cfg su =
     su\<lparr>su_reports := (\<lambda>after. fetched_as (client_reports ct (fetch_limit (bc_limits cfg)) after)),
        su_ack := (\<lambda>cursor. client_ack ct (bc_consumer_id cfg) cursor = Inr ())\<rparr>"

definition start_with_client :: "client_env \<Rightarrow> start_surroundings \<Rightarrow> start_surroundings" where
  "start_with_client ct ss =
     ss\<lparr>ss_capabilities := (case client_capabilities ct of Inr cap \<Rightarrow> Some cap | Inl _ \<Rightarrow> None)\<rparr>"

section \<open>What an answer of the client means\<close>

text \<open>
  A write whose outcome is unknown is one that may have left: no other error of \<open>transmit\<close> arises
  from a POST without an answer, and a success or a refusal is an answer of the gateway's.
\<close>

lemma transmit_unknown_iff:
  "client_transmit ct body = Inl SendOutcomeUnknown \<longleftrightarrow>
     ct_exchange ct POST (asc ''/v1/transmissions'') (Some body) = NoAnswer"
  unfolding client_transmit_def expect_status_def exchange_def document_of_def validated_def Let_def
  by (auto simp: rbind_def split: exchange_answer.splits sum.splits if_splits)

lemma expect_status_Inr:
  assumes "expect_status ct verb path expected body = Inr octets"
  shows "\<exists>answer. ct_exchange ct verb path body = Answered expected answer"
proof (cases "ct_exchange ct verb path body")
  case (Answered status answer)
  from assms obtain r where r: "exchange ct verb path body = Inr r"
    and "fst r = expected"
    unfolding expect_status_def by (auto simp: rbind_eq_Inr_iff split: if_splits sum.splits prod.splits)
  with Answered show ?thesis unfolding exchange_def Let_def by (auto split: if_splits)
qed (use assms in \<open>auto simp: expect_status_def exchange_def rbind_eq_Inr_iff\<close>)

lemma validated_Inr [simp]: "validated rule check v = Inr x \<longleftrightarrow> check v = Inr x"
  by (simp add: validated_def split: sum.split)

lemma transmit_answered:
  assumes "client_transmit ct body = Inr d"
  shows "\<exists>octets. ct_exchange ct POST (asc ''/v1/transmissions'') (Some body) = Answered 202 octets"
    and "\<exists>v. validate_status v = Inr d"
  using assms unfolding client_transmit_def by (auto simp: rbind_eq_Inr_iff dest: expect_status_Inr)

lemma status_answered:
  "client_transmission_status ct request_id = Inr d \<Longrightarrow> \<exists>v. validate_status v = Inr d"
  unfolding client_transmission_status_def by (auto simp: rbind_eq_Inr_iff)

end
