(* ===== verification/Link16_Invariants.thy ===== *)
theory Link16_Invariants
  imports Link16_Operator
begin

text \<open>
  The interface between the transactions and what is kept of the store: a predicate that every
  elementary change keeps is kept by a whole batch (\<open>batch_invariant\<close>), and one that a batch and
  the bridge's own channel changes keep is kept by a whole pass of the loop, whatever the
  gateway, the sink and the faults do (\<open>pass_invariant\<close>).
\<close>

declare split_paired_All [simp del] split_paired_Ex [simp del]

section \<open>Changes outside identity, history, channel and export jobs\<close>

definition quiet :: "db \<Rightarrow> db \<Rightarrow> bool" where
  "quiet d d' \<longleftrightarrow> db_identity d' = db_identity d \<and> db_observation d' = db_observation d \<and>
     db_current d' = db_current d \<and> db_channel d' = db_channel d \<and> db_jobs d' = db_jobs d"

named_theorems quiet_rules \<open>operations that leave identity, history, channel and export jobs alone\<close>

lemma quiet_refl [simp, intro]: "quiet d d"
  by (simp add: quiet_def)

lemma quiet_trans: "quiet d e \<Longrightarrow> quiet e f \<Longrightarrow> quiet d f"
  by (simp add: quiet_def)

lemma quiet_ops [quiet_rules]:
  "quiet d (counter_add name v d)"
  "quiet d (SQL_RAW_INSERT raw d)" "quiet d (SQL_RAW_KEEP octets sha d)"
  "quiet d (SQL_SESSION_PUT session seq d)"
  "quiet d (SQL_QUARANTINE_INSERT row d)"
  "quiet d (SQL_QUARANTINE_RESOLVE now resolution fence qid d)"
  "quiet d (SQL_OPAQUE_INSERT op d)"
  "quiet d (SQL_INGEST_SET disposition code fence key d)"
  "quiet d (SQL_SAMPLE_INSERT key t sha record_id d)" "quiet d (SQL_SAMPLE_REFRESH key t d)"
  "quiet d (SQL_SAMPLE_CONFLICT key t record_id sha d)"
  "quiet d (SQL_RELATION_INSERT rel d)"
  "quiet d (SQL_OUTBOX_INSERT ev d)" "quiet d (SQL_OUTBOX_MARK now key d)"
  "quiet d (SQL_AUDIT_INSERT au d)"
  "quiet d (audit_record now fence revision kind subject cd result raw_ref d)"
  "quiet d (publish now fence ek kind payload schema flags d)"
  "quiet d (refusal_audit ii tk batch_sha key cdx res d)"
  by (simp_all add: quiet_def counter_add_def SQL_RAW_INSERT_def SQL_RAW_KEEP_def SQL_SESSION_PUT_def
      SQL_QUARANTINE_INSERT_def SQL_QUARANTINE_RESOLVE_def SQL_OPAQUE_INSERT_def SQL_INGEST_SET_def
      SQL_SAMPLE_INSERT_def SQL_SAMPLE_REFRESH_def SQL_SAMPLE_CONFLICT_def SQL_RELATION_INSERT_def
      SQL_OUTBOX_INSERT_def SQL_OUTBOX_MARK_def SQL_AUDIT_INSERT_def audit_record_def publish_def
      refusal_audit_def)

lemma quiet_ingest_insert: "SQL_INGEST_INSERT r d = Inr d' \<Longrightarrow> quiet d d'"
  by (auto simp: SQL_INGEST_INSERT_def quiet_def rbind_eq_Inr_iff)

lemma quiet_record_row: "record_row tk sha r key disposition code identity d = Inr d' \<Longrightarrow> quiet d d'"
  unfolding record_row_def by (rule quiet_ingest_insert)

lemma quiet_fold: "(\<And>x d. x \<in> set xs \<Longrightarrow> quiet d (f x d)) \<Longrightarrow> quiet d (fold f xs d)"
proof (induction xs arbitrary: d)
  case (Cons x xs)
  have "quiet d (f x d)" using Cons.prems by simp
  moreover have "quiet (f x d) (fold f xs (f x d))" using Cons by simp
  ultimately show ?case by (simp add: quiet_trans)
qed simp

lemma quiet_supersede: "quiet d (supersede_below now fence incarnation siblings d)"
  unfolding supersede_below_def supersede_def by (intro quiet_fold quiet_rules)

lemma quiet_sample: "quiet d (record_sample je key v d)"
  unfolding record_sample_def Let_def by (auto intro: quiet_rules split: option.splits)

lemma quiet_publish_objects: "quiet d (publish_objects now fence record_id objects flags d)"
  unfolding publish_objects_def by (intro quiet_fold) (auto intro: quiet_rules)

lemma quiet_count_body: "quiet (wk_db w) (wk_db (count_body ii r w))"
  unfolding count_body_def by (auto simp: on_db_def intro: quiet_rules)

lemma quarantine_record_Inr:
  assumes "quarantine_record ii tk sha r key code path rule identity row w = Inr w'"
  obtains entry d where
    "(if row then record_row tk sha r key ''QUARANTINED'' (Some code) identity
        (SQL_QUARANTINE_INSERT entry (wk_db (count_body ii r w)))
      else Inr (SQL_QUARANTINE_INSERT entry (wk_db (count_body ii r w)))) = Inr d"
    "wk_db w' = refusal_audit ii tk sha key code ''QUARANTINED'' (counter_add ''refused'' 1 d)"
  using assms unfolding quarantine_record_def Let_def by (auto simp: rbind_eq_Inr_iff)

lemma quarantine_record_quiet:
  assumes "quarantine_record ii tk sha r key code path rule identity row w = Inr w'"
  shows "quiet (wk_db w) (wk_db w')"
  using assms
proof (rule quarantine_record_Inr)
  fix entry d
  let ?q = "SQL_QUARANTINE_INSERT entry (wk_db (count_body ii r w))"
  assume "(if row then record_row tk sha r key ''QUARANTINED'' (Some code) identity ?q else Inr ?q) = Inr d"
    and w': "wk_db w' = refusal_audit ii tk sha key code ''QUARANTINED'' (counter_add ''refused'' 1 d)"
  then have "quiet ?q d" by (auto split: if_splits intro: quiet_record_row)
  moreover have "quiet (wk_db w) ?q" by (rule quiet_trans [OF quiet_count_body]) (rule quiet_ops)
  moreover have "quiet d (wk_db w')"
    unfolding w' by (rule quiet_trans [of d "counter_add ''refused'' 1 d"]) (rule quiet_ops)+
  ultimately show ?thesis by (blast intro: quiet_trans)
qed

lemma opaque_record_Inr:
  assumes "opaque_record ii tk sha r key code w = Inr w'"
  obtains row d where "record_row tk sha r key ''OPAQUE'' (Some code) None (SQL_OPAQUE_INSERT row (wk_db w)) = Inr d"
    "wk_db w' = refusal_audit ii tk sha key code ''OPAQUE''
       (if code = ''UNSUPPORTED_MESSAGE'' then counter_add ''unsupported'' 1 (counter_add ''refused'' 1 d)
        else counter_add ''refused'' 1 d)"
  using assms unfolding opaque_record_def Let_def by (auto simp: rbind_eq_Inr_iff)

lemma opaque_record_quiet:
  assumes "opaque_record ii tk sha r key code w = Inr w'"
  shows "quiet (wk_db w) (wk_db w')"
  using assms
proof (rule opaque_record_Inr)
  fix row d
  let ?d = "if code = ''UNSUPPORTED_MESSAGE'' then counter_add ''unsupported'' 1 (counter_add ''refused'' 1 d)
        else counter_add ''refused'' 1 d"
  assume "record_row tk sha r key ''OPAQUE'' (Some code) None (SQL_OPAQUE_INSERT row (wk_db w)) = Inr d"
    and w': "wk_db w' = refusal_audit ii tk sha key code ''OPAQUE'' ?d"
  then have "quiet (SQL_OPAQUE_INSERT row (wk_db w)) d" by (auto intro: quiet_record_row)
  moreover have "quiet (wk_db w) (SQL_OPAQUE_INSERT row (wk_db w))" by (rule quiet_ops)
  moreover have "quiet d ?d" by (auto simp: quiet_def counter_add_def)
  moreover have "quiet ?d (wk_db w')" unfolding w' by (rule quiet_ops)
  ultimately show ?thesis by (blast intro: quiet_trans)
qed

text \<open>The store after a report was applied, in its steps.\<close>

lemma apply_view_Inr:
  assumes "apply_view be now fence key v objects late flags d = Inr (flag, d')"
  obtains payload conflict d1 row published where
    "move_current fence key v payload late d = ((flag, conflict), d1)"
    "hs_key row = key" "hs_record row = rv_record v" "hs_effective_at row = rv_effective_at v"
    "hs_sha256 row = rv_digest v" "hs_pos_at row = rv_pos_at v" "hs_kin_at row = rv_kin_at v"
    "hs_late row = (flag = Some ''LATE'')"
    "d' = (if flag = Some ''LATE'' then counter_add ''late'' 1 else id) (counter_add ''accepted'' 1
       (publish_objects now fence (rv_record v) objects published
         (record_sample (be_json be) key v (d1\<lparr>db_observation := db_observation d1 @ [row]\<rparr>))))"
proof (cases objects)
  case Nil
  with assms show thesis by (simp add: apply_view_def)
next
  case (Cons entity rest)
  obtain conflict d1 fl where m: "move_current fence key v (co_payload entity) late d = ((fl, conflict), d1)"
    by (metis prod.collapse)
  let ?row = "\<lparr>hs_key = key, hs_record = rv_record v, hs_effective_at = rv_effective_at v,
                   hs_pos_at = rv_pos_at v, hs_kin_at = rv_kin_at v, hs_sha256 = rv_digest v,
                   hs_late = (fl = Some ''LATE''), hs_flag = fl, hs_conflict = conflict,
                   hs_ingested_at = now, hs_fence = fence\<rparr>"
  from assms m Cons have fl: "flag = fl"
    and d': "d' = (if fl = Some ''LATE'' then counter_add ''late'' 1 else id) (counter_add ''accepted'' 1
       (publish_objects now fence (rv_record v) objects (flags @ (case fl of Some x \<Rightarrow> [x] | None \<Rightarrow> []))
         (record_sample (be_json be) key v (d1\<lparr>db_observation := db_observation d1 @ [?row]\<rparr>))))"
    unfolding apply_view_def Let_def SQL_OBSERVATION_INSERT_def insert_row_def
    by (auto simp: rbind_eq_Inr_iff split: if_split_asm)
  show thesis by (rule that [OF m [folded fl], of ?row]) (simp_all add: fl d')
qed

section \<open>What a batch keeps\<close>

locale batch_invariant =
  fixes I :: "db \<Rightarrow> bool" and ii :: ingestor
  assumes quiet_change: "I d \<Longrightarrow> quiet d d' \<Longrightarrow> I d'"
    and gap: "I d \<Longrightarrow> I (on_channel (SQL_CHANNEL_GAP code gap_from gap_to fence) d)"
    and degrade: "I d \<Longrightarrow> I (on_channel (SQL_CHANNEL_DEGRADE fence) d)"
    and new_epoch: "I d \<Longrightarrow> I (on_channel (SQL_CHANNEL_EPOCH fence) d)"
    and cursor: "I d \<Longrightarrow> I (on_channel (SQL_CHANNEL_CURSOR next_cursor session fence) d)"
    and resolved: "I d \<Longrightarrow> resolve_identity (ii_env ii) now fence epoch (max_identities (bc_limits (ii_config ii)))
        f effective_at d = Inr (dc, d') \<Longrightarrow> I d'"
    and applied: "I d \<Longrightarrow> apply_view (ii_env ii) now fence key v objects late flags d = Inr (flag, d') \<Longrightarrow> I d'"
    and dropped: "I d \<Longrightarrow> lifecycle_drop (ii_env ii) now fence notice effective_at epoch d = Inr (oc, d') \<Longrightarrow> I d'"
    and rekeyed: "I d \<Longrightarrow> lifecycle_rekey (ii_env ii) (ii_config ii) now fence notice effective_at epoch d
        = Inr (oc, d') \<Longrightarrow> I d'"
begin

lemma quarantine_I:
  "quarantine_record ii tk sha r key code path rule identity row w = Inr w' \<Longrightarrow> I (wk_db w) \<Longrightarrow> I (wk_db w')"
  using quarantine_record_quiet quiet_change by blast

lemma opaque_I: "opaque_record ii tk sha r key code w = Inr w' \<Longrightarrow> I (wk_db w) \<Longrightarrow> I (wk_db w')"
  using opaque_record_quiet quiet_change by blast

lemma row_I: "record_row tk sha r key disposition code identity d = Inr d' \<Longrightarrow> I d \<Longrightarrow> I d'"
  using quiet_record_row quiet_change by blast

lemma counter_I: "I d \<Longrightarrow> I (counter_add name v d)"
  using quiet_ops(1) quiet_change by blast

lemma contiguity_I:
  assumes "I d"
  shows "I (contiguity ii tk b body d)"
proof -
  have put: "I d' \<Longrightarrow> I (SQL_SESSION_PUT session seq d')" for d' session seq
    using quiet_ops(4) quiet_change by blast
  have sg: "I d' \<Longrightarrow> I (stream_gap ii tk sha bd e g d')" for d' sha bd e g
    unfolding stream_gap_def by (rule quiet_change [OF gap quiet_ops(16)])
  show ?thesis
    using assms unfolding contiguity_def Let_def
    by (simp split: option.splits prod.splits) (intro conjI allI impI put sg; assumption)
qed

lemma apply_I:
  "apply_state (ii_env ii) now fence key report objects late flags d = Inr (flag, d') \<Longrightarrow> I d \<Longrightarrow> I d'"
  unfolding apply_state_def by (auto simp: rbind_eq_Inr_iff dest: applied [rotated])

lemma accept_decided_I:
  assumes "accept_decided ii tk sha r key body vd row f dc w = Inr (res, w')" and "I (wk_db w)"
  shows "I (wk_db w')"
proof (cases "dc_accept dc")
  case False
  with assms show ?thesis
    unfolding accept_decided_def Let_def by (auto simp: rbind_eq_Inr_iff dest: quarantine_I)
next
  case True
  with assms(1) obtain flag d2 d3 where
    ap: "apply_state (ii_env ii) (tk_now tk) (tk_fence tk) (key_of f) body (vd_objects vd)
              (dc_late dc) (vd_flags vd) (wk_db w) = Inr (flag, d2)"
    and rw: "(if row then record_row tk sha r key ''ACCEPTED'' flag (Some (key_of f)) d2 else Inr d2) = Inr d3"
    and w': "w' = w\<lparr>wk_db := d3\<rparr>"
    unfolding accept_decided_def by (auto simp: rbind_eq_Inr_iff)
  have "I d2" by (rule apply_I [OF ap assms(2)])
  with rw have "I d3" by (cases row) (auto dest: row_I)
  with w' show ?thesis by simp
qed

lemma accept_I:
  assumes "accept_report ii tk sha r key body vd epoch row w = Inr (res, w')" and "I (wk_db w)"
  shows "I (wk_db w')"
proof -
  from assms(1) obtain t f dc d1 where
    res: "resolve_identity (ii_env ii) (tk_now tk) (tk_fence tk) epoch
            (max_identities (bc_limits (ii_config ii))) f t (wk_db w) = Inr (dc, d1)"
    and rest: "accept_decided ii tk sha r key body vd row f dc (w\<lparr>wk_db := d1\<rparr>) = Inr (res, w')"
    unfolding accept_report_def by (auto simp: rbind_eq_Inr_iff)
  have "I d1" by (rule resolved [OF assms(2) res])
  then show ?thesis using accept_decided_I [OF rest] by simp
qed

lemma lifecycle_I:
  assumes "lifecycle_apply (ii_env ii) (ii_config ii) now fence notice epoch d = Inr (oc, d')" and "I d"
  shows "I d'"
proof -
  from assms(1) obtain t op where
    "(if op = ''DROP_SOURCE'' then lifecycle_drop (ii_env ii) now fence notice t epoch d
      else if op = ''REKEY'' then lifecycle_rekey (ii_env ii) (ii_config ii) now fence notice t epoch d
      else if op = ''GAP''
      then Inr (Outcome True None None, on_channel (SQL_CHANNEL_GAP ''GAP'' None None fence) d)
      else Inr (Outcome True None None, on_channel (SQL_CHANNEL_EPOCH fence) d)) = Inr (oc, d')"
    unfolding lifecycle_apply_def
    by (cases "operation_of (the_key notice ''operation'')") (auto simp only: rbind_eq_Inr_iff option.case sum.distinct)
  then consider "lifecycle_drop (ii_env ii) now fence notice t epoch d = Inr (oc, d')"
    | "lifecycle_rekey (ii_env ii) (ii_config ii) now fence notice t epoch d = Inr (oc, d')"
    | "d' = on_channel (SQL_CHANNEL_GAP ''GAP'' None None fence) d"
    | "d' = on_channel (SQL_CHANNEL_EPOCH fence) d"
    by (simp only: sum.inject prod.inject split: if_split_asm)
  then show ?thesis
    by cases (use assms(2) in \<open>auto simp only: intro: dropped rekeyed gap new_epoch\<close>)
qed

lemma settle_I:
  assumes "settle_notice ii tk sha r key body oc w = Inr (res, w')" and "I (wk_db w)"
  shows "I (wk_db w')"
proof (cases "oc_accept oc")
  case True
  with assms(1) obtain d2 where "record_row tk sha r key ''ACCEPTED'' (operation_of (the_key body ''operation'')) None
      (counter_add ''accepted'' 1 (wk_db w)) = Inr d2" "w' = w\<lparr>wk_db := d2\<rparr>"
    unfolding settle_notice_def Let_def by (auto simp: rbind_eq_Inr_iff)
  with assms(2) show ?thesis by (auto dest: row_I intro: counter_I)
next
  case False
  with assms show ?thesis
    unfolding settle_notice_def Let_def by (auto simp: rbind_eq_Inr_iff dest: quarantine_I)
qed

lemma notice_I:
  assumes "ingest_notice ii tk sha r key body epoch w = Inr (res, w')" and "I (wk_db w)"
  shows "I (wk_db w')"
proof (cases "validate_notice body")
  case (Inl e)
  with assms show ?thesis
    unfolding ingest_notice_def
    by (auto simp: rbind_eq_Inr_iff split: if_splits dest: quarantine_I opaque_I)
next
  case (Inr x)
  show ?thesis
  proof (cases "scope_check (ii_config ii) body")
    case (Some vd)
    with Inr assms show ?thesis
      unfolding ingest_notice_def by (auto simp: rbind_eq_Inr_iff Let_def dest: quarantine_I)
  next
    case None
    with Inr assms(1) obtain oc d1 where
      lc: "lifecycle_apply (ii_env ii) (ii_config ii) (tk_now tk) (tk_fence tk) body epoch (wk_db w) = Inr (oc, d1)"
      and rest: "settle_notice ii tk sha r key body oc (w\<lparr>wk_db := d1\<rparr>) = Inr (res, w')"
      unfolding ingest_notice_def by (auto simp: rbind_eq_Inr_iff)
    have "I d1" by (rule lifecycle_I [OF lc assms(2)])
    then show ?thesis using settle_I [OF rest] by simp
  qed
qed

lemma report_I:
  assumes "ingest_report ii tk sha r key body epoch w = Inr (res, w')" and "I (wk_db w)"
  shows "I (wk_db w')"
  using assms unfolding ingest_report_def Let_def
  by (auto simp: rbind_eq_Inr_iff split: action.splits dest: quarantine_I opaque_I accept_I)

lemma new_record_I:
  assumes "ingest_new ii tk b r epoch w = Inr (res, w')" and "I (wk_db w)"
  shows "I (wk_db w')"
  using assms unfolding ingest_new_def Let_def
  by (auto simp: rbind_eq_Inr_iff split: option.splits if_splits dest: quarantine_I notice_I report_I)

lemma record_I:
  assumes "ingest_record ii tk b r epoch w = Inr (res, w')" and "I (wk_db w)"
  shows "I (wk_db w')"
proof -
  let ?w = "on_db (contiguity ii tk b (rr_body r) \<circ> counter_add ''fed'' 1) w"
  have fed: "I (wk_db ?w)"
    using assms(2) by (auto simp: on_db_def intro: contiguity_I counter_I)
  show ?thesis
  proof (cases "SQL_INGEST_GET (record_key r) (wk_db ?w)")
    case None
    with assms(1) fed show ?thesis
      unfolding ingest_record_def Let_def by (auto dest: new_record_I)
  next
    case (Some known)
    have "I (counter_add ''duplicate_conflict'' 1 (on_channel (SQL_CHANNEL_DEGRADE (tk_fence tk)) (wk_db ?w)))"
      by (intro counter_I degrade fed)
    then have 1: "I (wk_db (on_db (counter_add ''duplicate_conflict'' 1 \<circ>
        on_channel (SQL_CHANNEL_DEGRADE (tk_fence tk))) ?w))"
      by (simp add: on_db_def)
    have 2: "I (wk_db (on_db (counter_add ''duplicate'' 1) ?w))"
      using counter_I [OF fed] by (simp add: on_db_def)
    show ?thesis
    proof (cases "ig_sha256 known = rr_digest r")
      case True
      with assms(1) Some 2 show ?thesis unfolding ingest_record_def Let_def by auto
    next
      case False
      with assms(1) Some obtain code path rule where
        "quarantine_record ii tk (bt_sha256 b) r (record_key r) code path rule None False
           (on_db (counter_add ''duplicate_conflict'' 1 \<circ> on_channel (SQL_CHANNEL_DEGRADE (tk_fence tk))) ?w) = Inr w'"
        unfolding ingest_record_def Let_def by (auto simp: rbind_eq_Inr_iff)
      then show ?thesis using 1 by (rule quarantine_I)
    qed
  qed
qed

lemma records_I:
  "ingest_records ii tk b epoch rs w = Inr (ds, w') \<Longrightarrow> I (wk_db w) \<Longrightarrow> I (wk_db w')"
proof (induction rs arbitrary: w epoch ds)
  case (Cons r rs)
  from Cons.prems(1) obtain res w1 ds1 where "ingest_record ii tk b r epoch w = Inr (res, w1)"
    "ingest_records ii tk b (if rr_kind r = ''notice'' then ch_epoch (db_channel (wk_db w1)) else epoch) rs w1
       = Inr (ds1, w')"
    by (auto simp: rbind_eq_Inr_iff)
  with Cons.IH Cons.prems(2) show ?case by (blast dest: record_I)
qed simp

lemma batch_I:
  assumes "ingest_batch ii tk b octets cursor_before d = Inr (ds, d')" and "I d"
  shows "I d'"
proof -
  let ?d = "SQL_RAW_INSERT \<lparr>rw_sha256 = bt_sha256 b, rw_received_at = tk_now tk,
            rw_cursor_before = cursor_before, rw_bytes = bt_size b, rw_body = None, rw_fence = tk_fence tk\<rparr> d"
  have 1: "I ?d" using quiet_ops(2) quiet_change assms(2) by blast
  from assms(1) obtain w' where rs: "ingest_records ii tk b (ch_epoch (db_channel ?d)) (bt_records b)
      \<lparr>wk_db = ?d, wk_evidence = False, wk_used = Some (quarantine_bytes ?d)\<rparr> = Inr (ds, w')"
    and d': "d' = on_channel (SQL_CHANNEL_CURSOR (bt_next_cursor b) (bt_session_id b) (tk_fence tk))
       (if wk_evidence w' \<and>
           (case wk_used w' of Some n \<Rightarrow> n < max_quarantine_bytes (bc_limits (ii_config ii)) | None \<Rightarrow> False)
        then SQL_RAW_KEEP octets (bt_sha256 b) (wk_db w') else wk_db w')"
    unfolding ingest_batch_def Let_def by (auto simp: rbind_eq_Inr_iff)
  have 2: "I (wk_db w')" using records_I [OF rs] 1 by simp
  have "I (SQL_RAW_KEEP octets (bt_sha256 b) (wk_db w'))" using quiet_ops(3) quiet_change 2 by blast
  with 2 show ?thesis unfolding d' by (auto intro: cursor)
qed

end

section \<open>What a pass keeps\<close>

text \<open>
  What a takeover of the lease does to an export job: one whose POST may have left becomes UNKNOWN,
  a queued one is to be checked again, every other one stays.
\<close>

inductive taken_row :: "job_row \<Rightarrow> job_row \<Rightarrow> bool" where
  kept: "taken_row j j"
| unknown: "jb_in_flight j \<Longrightarrow>
    taken_row j (j\<lparr>jb_state := UNKNOWN, jb_in_flight := False, jb_reason := Some (asc ''SEND_OUTCOME_UNKNOWN''),
                   jb_changed_at := now, jb_fence := fence\<rparr>)"
| queued: "\<not> jb_in_flight j \<Longrightarrow> jb_state j \<in> {PENDING, ACCEPTED} \<Longrightarrow>
    taken_row j (j\<lparr>jb_state := REVALIDATE, jb_changed_at := now, jb_fence := fence\<rparr>)"

definition taken :: "job_row list \<Rightarrow> job_row list \<Rightarrow> bool" where
  "taken = list_all2 taken_row"

lemma taken_refl [simp]: "taken js js"
  by (simp add: taken_def list.rel_refl taken_row.kept)

lemma taken_row_settled: "taken_row k l \<Longrightarrow> \<not> jb_in_flight k \<Longrightarrow> jb_state k \<notin> {PENDING, ACCEPTED} \<Longrightarrow> l = k"
  by (erule taken_row.cases) simp_all

lemma taken_row_trans:
  assumes "taken_row j k" and "taken_row k l"
  shows "taken_row j l"
  using assms(1)
proof cases
  case kept
  with assms(2) show ?thesis by simp
next
  case (unknown now fence)
  with taken_row_settled [OF assms(2)] have "l = k" by simp
  with assms(1) show ?thesis by simp
next
  case (queued now fence)
  with taken_row_settled [OF assms(2)] have "l = k" by simp
  with assms(1) show ?thesis by simp
qed

lemma taken_trans: "taken js ks \<Longrightarrow> taken ks ls \<Longrightarrow> taken js ls"
  unfolding taken_def by (rule list_all2_trans [OF taken_row_trans])

lemma taken_lease_take:
  assumes "lease_take now p d = Inr (fence, d')"
  shows "taken (db_jobs d) (db_jobs d')"
proof -
  have "taken_row j (if jb_state k \<in> {PENDING, ACCEPTED} \<and> \<not> jb_in_flight k \<and> jb_fence k < below
        then k\<lparr>jb_state := REVALIDATE, jb_changed_at := now, jb_fence := fence\<rparr> else k)"
    if "k = (if jb_in_flight j \<and> jb_fence j < below
        then j\<lparr>jb_state := UNKNOWN, jb_in_flight := False, jb_reason := Some (asc ''SEND_OUTCOME_UNKNOWN''),
               jb_changed_at := now, jb_fence := fence\<rparr> else j)" for j k below
    using that by (auto intro: taken_row.intros)
  then have "taken (db_jobs e) (db_jobs (SQL_JOBS_REVALIDATE now fence below (SQL_JOBS_INFLIGHT_UNKNOWN now fence below e)))"
    for below e
    unfolding taken_def list_all2_conv_all_nth SQL_JOBS_REVALIDATE_def SQL_JOBS_INFLIGHT_UNKNOWN_def update_where_def
    by simp
  from this [of "SQL_LEASE_INSERT (pr_holder p) fence (now + pr_ttl_ms p) d" fence]
    this [of "SQL_LEASE_UPDATE (pr_holder p) fence (now + pr_ttl_ms p) d" fence]
  show ?thesis
    using assms unfolding lease_take_def
    by (auto simp: Let_def SQL_LEASE_INSERT_def SQL_LEASE_UPDATE_def split: option.splits if_splits)
qed

text \<open>The counters of the accounting identity, and changes that touch none of what is kept.\<close>

definition ACCOUNTED :: "string list" where
  "ACCOUNTED = [''fed'', ''accepted'', ''refused'', ''duplicate'', ''dropped_by_capacity'']"

definition idle_change :: "db \<Rightarrow> db \<Rightarrow> bool" where
  "idle_change d d' \<longleftrightarrow> quiet (d\<lparr>db_jobs := db_jobs d'\<rparr>) d' \<and> taken (db_jobs d) (db_jobs d') \<and>
     (\<forall>name \<in> set ACCOUNTED. counter name d' = counter name d)"

lemma idle_refl [simp, intro]: "idle_change d d"
  by (simp add: idle_change_def)

lemma idle_trans: "idle_change d e \<Longrightarrow> idle_change e f \<Longrightarrow> idle_change d f"
  by (auto simp: idle_change_def quiet_def intro: taken_trans)

lemma idle_sameI: "quiet d d' \<Longrightarrow> db_counter d' = db_counter d \<Longrightarrow> idle_change d d'"
  by (simp add: idle_change_def counter_def quiet_def)

lemma counter_add_other: "name \<noteq> name' \<Longrightarrow> counter name' (counter_add name v d) = counter name' d"
  by (simp add: counter_def counter_add_def)

lemma idle_ops:
  "idle_change d (SQL_RAW_INSERT raw d)"
  "idle_change d (audit_record now fence revision kind subject cd result raw_ref d)"
  "idle_change d (SQL_OUTBOX_MARK now key d)"
  "idle_change d (publish now fence ek kind payload schema flags d)"
  "idle_change d (SQL_LEASE_UPDATE holder fence expires d)"
  "idle_change d (counter_add ''capacity_warning'' v d)"
  "idle_change d (counter_add ''time_skew'' v d)"
proof -
  show "idle_change d (counter_add ''capacity_warning'' v d)" "idle_change d (counter_add ''time_skew'' v d)"
    by (auto simp: idle_change_def quiet_def counter_add_def ACCOUNTED_def counter_def)
qed (rule idle_sameI, simp_all add: quiet_def SQL_RAW_INSERT_def audit_record_def SQL_AUDIT_INSERT_def
      SQL_OUTBOX_MARK_def publish_def SQL_OUTBOX_INSERT_def SQL_LEASE_UPDATE_def)+

lemma idle_lease_take:
  assumes "lease_take now p d = Inr (fence, d')"
  shows "idle_change d d'"
proof -
  have "quiet (d\<lparr>db_jobs := db_jobs d'\<rparr>) d'" "db_counter d' = db_counter d"
    using assms unfolding lease_take_def
    by (auto simp: Let_def quiet_def SQL_LEASE_UPDATE_def SQL_LEASE_INSERT_def
        SQL_JOBS_REVALIDATE_def SQL_JOBS_INFLIGHT_UNKNOWN_def split: option.splits if_splits)
  then show ?thesis using taken_lease_take [OF assms] by (simp add: idle_change_def counter_def)
qed

text \<open>A method keeps a predicate of the store when it does so returning and raising.\<close>

definition method_keeps :: "(db \<Rightarrow> bool) \<Rightarrow> 'a meth \<Rightarrow> bool" where
  "method_keeps I m \<longleftrightarrow> (\<forall>s. I (br_db s) \<longrightarrow> I (br_db (snd (m s))))"

lemma method_keepsD: "method_keeps I m \<Longrightarrow> m s = (r, s') \<Longrightarrow> I (br_db s) \<Longrightarrow> I (br_db s')"
  by (metis method_keeps_def snd_conv)

lemma method_keepsI: "(\<And>s r s'. m s = (r, s') \<Longrightarrow> I (br_db s) \<Longrightarrow> I (br_db s')) \<Longrightarrow> method_keeps I m"
  unfolding method_keeps_def by (metis prod.collapse)

named_theorems keeps_rules \<open>methods that keep a predicate of the store\<close>

lemma keeps_ret [keeps_rules]: "method_keeps I (ret x)"
  by (simp add: method_keeps_def ret_def)

lemma keeps_mbind [keeps_rules]:
  "method_keeps I m \<Longrightarrow> (\<And>x. method_keeps I (f x)) \<Longrightarrow> method_keeps I (mbind m f)"
  unfolding method_keeps_def mbind_def by (auto split: prod.splits sum.splits)

lemma keeps_handle [keeps_rules]:
  "method_keeps I m \<Longrightarrow> (\<And>e. method_keeps I (h e)) \<Longrightarrow> method_keeps I (handle m h)"
  unfolding method_keeps_def handle_def by (auto split: prod.splits sum.splits)

lemma keeps_look [keeps_rules]: "(\<And>s. method_keeps I (f s)) \<Longrightarrow> method_keeps I (look f)"
  by (simp add: method_keeps_def look_def)

lemma keeps_set_state: "(\<And>s. br_db (f s) = br_db s) \<Longrightarrow> method_keeps I (set_state f)"
  by (simp add: method_keeps_def set_state_def)

lemma keeps_block [keeps_rules]: "method_keeps I (block reason)"
  unfolding block_def by (rule keeps_set_state) simp

lemma keeps_backoff_wait [keeps_rules]: "method_keeps I (backoff_wait su)"
  unfolding backoff_wait_def by (rule keeps_set_state) simp

lemma keeps_txn:
  assumes "\<And>fence d x d'. I d \<Longrightarrow> body fence d = Inr (x, d') \<Longrightarrow> I d'"
  shows "method_keeps I (txn su body)"
proof (rule method_keepsI)
  fix s r s' assume m: "txn su body s = (r, s')" and I: "I (br_db s)"
  obtain c p d where t: "transaction (su_faults su) (su_now su) True (br_proc s) (br_db s)
      (body (pr_store_fence (br_proc s))) = (c, p, d)" by (metis prod_cases3)
  with m have "br_db s' = d" by (auto simp: txn_def)
  with t I assms show "I (br_db s')" by (cases rule: transaction_cases) auto
qed

lemma keeps_on_proc:
  assumes "\<And>p d r p' d'. I d \<Longrightarrow> f p d = (r, p', d') \<Longrightarrow> I d'"
  shows "method_keeps I (on_proc f)"
proof (rule method_keepsI)
  fix s r s' assume m: "on_proc f s = (r, s')" and I: "I (br_db s)"
  obtain c p d where t: "f (br_proc s) (br_db s) = (c, p, d)" by (metis prod_cases3)
  with m have "br_db s' = d" by (auto simp: on_proc_def)
  with t I assms show "I (br_db s')" by blast
qed

locale pass_invariant =
  fixes I :: "db \<Rightarrow> bool" and ii :: ingestor
  assumes idle: "I d \<Longrightarrow> idle_change d d' \<Longrightarrow> I d'"
    and batch: "I d \<Longrightarrow> ingest_batch ii tk b octets cursor_before d = Inr (ds, d') \<Longrightarrow> I d'"
    and acked: "I d \<Longrightarrow> I (on_channel (SQL_CHANNEL_ACKED cursor fence) d)"
    and stopped: "I d \<Longrightarrow> I (on_channel (SQL_CHANNEL_STOP code revision fence) d)"
    and settled: "I d \<Longrightarrow> I (on_channel (SQL_CHANNEL_SETTLE fence) d)"
    and expired: "I d \<Longrightarrow> I (on_channel (SQL_CHANNEL_EXPIRED earliest_cursor fence) d)"
    and retried: "I d \<Longrightarrow> I (on_channel (SQL_CHANNEL_RETRY sha count fence) d)"
    and held: "I d \<Longrightarrow> I (on_channel (SQL_CHANNEL_STATE OVERLOADED code fence) d)"
    and fresh: "I d \<Longrightarrow> I (SQL_CURRENT_FRESHNESS main motion fence key d)"
begin

lemma keeps_audit_only:
  assumes "\<And>fence d. I d \<Longrightarrow> I (on_channel (change fence) d)"
  shows "method_keeps I (audit_only ii su change kind code subject raw)"
  unfolding audit_only_def
proof (rule keeps_txn)
  fix fence d x d'
  assume I: "I d" and "(let d = (case raw of Some row \<Rightarrow> SQL_RAW_INSERT (row fence) d | None \<Rightarrow> d);
           d = on_channel (change fence) d
       in Inr ((), audit_record (su_now su) fence (bc_revision (ii_config ii)) kind subject (Some code) None
            (map_option (\<lambda>row. rw_sha256 (row fence)) raw) d)) = (Inr (x, d') :: exn + unit \<times> db)"
  then obtain e where e: "e = (case raw of Some row \<Rightarrow> SQL_RAW_INSERT (row fence) d | None \<Rightarrow> d)"
    and d': "idle_change (on_channel (change fence) e) d'"
    using idle_ops(2) by (auto simp: Let_def)
  have "I e" unfolding e using I idle idle_ops(1) by (cases raw) auto
  then show "I d'" using d' assms idle by blast
qed

lemma keeps_audit_txn:
  assumes "\<And>fence d. I d \<Longrightarrow> I (f fence d)"
  shows "method_keeps I (txn su (\<lambda>fence d. Inr (x, audit_record now fence revision kind subject cd result raw_ref (f fence d))))"
  by (rule keeps_txn) (auto intro: idle [OF assms idle_ops(2)])

lemma freshness_change_I: "I d \<Longrightarrow> I (freshness_change je now fence key c main motion d)"
  unfolding freshness_change_def Let_def
  by (rule idle [OF _ idle_ops(4)]) (auto intro: idle [OF _ idle_ops(7)] fresh)

lemma freshness_I:
  assumes "I d"
  shows "I (snd (evaluate_freshness je cfg now fence d))"
proof -
  have "I (snd acc) \<Longrightarrow> I (snd (fold (freshness_row je cfg now fence) rows acc))" for rows acc
  proof (induction rows arbitrary: acc)
    case (Cons row rows)
    have "I (snd (freshness_row je cfg now fence row acc))"
      using Cons.prems unfolding freshness_row_def
      by (auto split: prod.splits intro: freshness_change_I)
    then show ?case using Cons.IH by simp
  qed simp
  with assms show ?thesis unfolding evaluate_freshness_def by simp
qed

lemma dispatch_events_I:
  "dispatch_events flt now sink es n p d = (r, p', d') \<Longrightarrow> I d \<Longrightarrow> I d'"
proof (induction es arbitrary: n p d)
  case (Cons e es)
  show ?case
  proof (cases "sink e")
    case True
    obtain c q d1 where t: "transaction flt now True p d (\<lambda>d. Inr ((), SQL_OUTBOX_MARK now (ox_key e) d)) = (c, q, d1)"
      by (metis prod_cases3)
    have "I d1"
      using t Cons.prems(2) idle idle_ops(3) by (cases rule: transaction_cases) auto
    with Cons True t show ?thesis by (auto split: sum.splits exn.splits)
  next
    case False
    with Cons.prems show ?thesis by simp
  qed
qed simp

lemma keeps_sink_state: "method_keeps I (sink_state ii su failed)"
  unfolding sink_state_def Let_def
  by (auto intro!: keeps_rules keeps_set_state keeps_audit_txn)

lemma keeps_housekeeping: "method_keeps I (housekeeping ii su)"
proof (rule method_keepsI)
  fix s r s' assume m: "housekeeping ii su s = (r, s')" and I: "I (br_db s)"
  let ?fresh = "txn su (\<lambda>fence d. Inr (evaluate_freshness (be_json (ii_env ii)) (ii_config ii) (su_now su) fence d))"
  have f: "method_keeps I ?fresh"
    by (rule keeps_txn) (metis freshness_I old.sum.inject(2) snd_conv)
  have rest: "method_keeps I (mbind (on_proc (dispatch (su_faults su) (su_now su) (su_sink su)))
            (\<lambda>(_, failed). sink_state ii su failed))"
    by (intro keeps_mbind keeps_on_proc)
      (auto simp: dispatch_def split: prod.splits intro: dispatch_events_I keeps_sink_state)
  obtain c s1 where c: "?fresh s = (c, s1)" by (cases "?fresh s")
  have I1: "I (br_db s1)" using method_keepsD [OF f c I] .
  show "I (br_db s')"
    using m c I1 method_keepsD [OF rest] method_keepsD [OF keeps_block]
    unfolding housekeeping_def by (auto split: sum.splits exn.splits)
qed

lemma keeps_stop: "method_keeps I (stop_channel ii su code subject raw)"
  unfolding stop_channel_def by (rule keeps_audit_only) (rule stopped)

lemma keeps_hold: "method_keeps I (hold_overloaded ii su ch code)"
  unfolding hold_overloaded_def by (auto intro!: keeps_rules keeps_audit_only held)

lemma keeps_cleared: "method_keeps I (cleared ii su ch)"
  unfolding cleared_def by (rule keeps_audit_only) (rule settled)

lemma keeps_warnings: "method_keeps I (count_warnings ii su used)"
  unfolding count_warnings_def Let_def
  by (auto intro!: keeps_rules keeps_set_state keeps_txn intro: idle [OF _ idle_ops(6)])

lemma keeps_structural: "method_keeps I (structural ii su e digest octets cursor_before)"
  unfolding structural_def Let_def
  by (auto intro!: keeps_rules keeps_audit_only keeps_stop retried)

lemma keeps_process: "method_keeps I (on_proc (process ii flt now octets cursor_before))"
proof (rule keeps_on_proc)
  fix p d r p' d' assume I: "I d" and m: "process ii flt now octets cursor_before p d = (r, p', d')"
  show "I d'"
  proof (cases "parse_batch (be_json (ii_env ii)) octets")
    case (Inl e)
    with m I show ?thesis by (simp add: process_def)
  next
    case (Inr b)
    with m have "transaction flt now True p d (\<lambda>d.
            rbind (ingest_batch ii \<lparr>tk_now = now, tk_fence = pr_store_fence p\<rparr> b octets cursor_before d)
              (\<lambda>(ds, d). Inr ((b, ds), d))) = (r, p', d')"
      by (simp add: process_def)
    then show ?thesis
    proof (cases rule: transaction_cases)
      case (committed x)
      then obtain ds where "ingest_batch ii \<lparr>tk_now = now, tk_fence = pr_store_fence p\<rparr> b octets cursor_before d
          = Inr (ds, d')" by (auto simp: rbind_eq_Inr_iff)
      with I show ?thesis by (rule batch)
    qed (use I in simp)
  qed
qed

lemma keeps_after_commit: "method_keeps I (after_commit ii su b ds)"
proof -
  let ?ack = "txn su (\<lambda>fence d. Inr ((), on_channel (SQL_CHANNEL_ACKED (Some (bt_next_cursor b)) fence) d))"
  have ack: "method_keeps I ?ack" by (rule keeps_txn) (auto intro: acked)
  have recorded: "method_keeps I (\<lambda>s. case ?ack s of
         (Inl LeaseLost, s) \<Rightarrow> mbind (block ''LEASE_LOST'') (\<lambda>_. ret lost) s
       | (Inl e, s) \<Rightarrow> (Inl e, s)
       | (Inr _, s) \<Rightarrow> mbind (housekeeping ii su) (\<lambda>_. ret result) s)" for lost result :: pass_result
  proof (rule method_keepsI)
    fix s r s' assume m: "(case ?ack s of
         (Inl LeaseLost, s) \<Rightarrow> mbind (block ''LEASE_LOST'') (\<lambda>_. ret lost) s
       | (Inl e, s) \<Rightarrow> (Inl e, s)
       | (Inr _, s) \<Rightarrow> mbind (housekeeping ii su) (\<lambda>_. ret result) s) = (r, s')" and I: "I (br_db s)"
    obtain c s1 where c: "?ack s = (c, s1)" by (cases "?ack s")
    have I1: "I (br_db s1)" using method_keepsD [OF ack c I] .
    have b: "method_keeps I (mbind (block ''LEASE_LOST'') (\<lambda>_. ret lost))" by (intro keeps_rules)
    have h: "method_keeps I (mbind (housekeeping ii su) (\<lambda>_. ret result))"
      by (intro keeps_rules keeps_housekeeping)
    show "I (br_db s')"
      using m c I1 method_keepsD [OF b] method_keepsD [OF h] by (auto split: sum.splits exn.splits)
  qed
  show ?thesis
    unfolding after_commit_def Let_def
    by (auto intro!: keeps_rules keeps_set_state keeps_cleared keeps_housekeeping recorded)
qed

lemma keeps_ingest: "method_keeps I (ingest_octets ii su octets cursor_before)"
proof (rule method_keepsI)
  fix s r s' assume m: "ingest_octets ii su octets cursor_before s = (r, s')" and I: "I (br_db s)"
  let ?p = "on_proc (process ii (su_faults su) (su_now su) octets cursor_before)"
  obtain c s1 where c: "?p s = (c, s1)" by (cases "?p s")
  have I1: "I (br_db s1)" using method_keepsD [OF keeps_process c I] .
  show "I (br_db s')"
  proof (cases c)
    case (Inr x)
    obtain b ds where "x = (b, ds)" by (cases x)
    with m c Inr I1 keeps_after_commit show ?thesis
      unfolding ingest_octets_def by (auto dest: method_keepsD)
  next
    case (Inl e)
    have blocked: "method_keeps I (mbind (block ''LEASE_LOST'') (\<lambda>_. ret (ended True ''LEASE_LOST'')))"
      by (intro keeps_rules)
    have stop: "method_keeps I (mbind (stop_channel ii su code subject raw) (\<lambda>_. ret x))"
      for code subject raw and x :: pass_result by (intro keeps_rules keeps_stop)
    have hold: "method_keeps I (mbind (hold_overloaded ii su ch code) (\<lambda>_. ret x))"
      for ch code and x :: pass_result by (intro keeps_rules keeps_hold)
    show ?thesis
      using m c Inl I1 method_keepsD [OF blocked] method_keepsD [OF stop] method_keepsD [OF hold]
        method_keepsD [OF keeps_structural]
      unfolding ingest_octets_def by (cases e) auto
  qed
qed

lemma keeps_fetch: "method_keeps I (fetch_and_ingest ii su)"
  unfolding fetch_and_ingest_def Let_def
proof (rule keeps_look)
  fix s
  let ?after = "if fst (br_refetch s) then snd (br_refetch s) else ch_cursor (db_channel (br_db s))"
  show "method_keeps I (case su_reports su ?after of
       CursorExpired oldest \<Rightarrow>
         mbind (audit_only ii su (SQL_CHANNEL_EXPIRED oldest) ''cursor_expired'' ''CURSOR_EXPIRED'' None None)
           (\<lambda>_. ret (ended False ''CURSOR_EXPIRED''))
     | AuthFailure code \<Rightarrow> mbind (stop_channel ii su code None None) (\<lambda>_. ret (ended False code))
     | GatewayRefused code retryable \<Rightarrow>
         if retryable then mbind (backoff_wait su) (\<lambda>_. ret (ended False code))
         else mbind (stop_channel ii su code None None) (\<lambda>_. ret (ended False code))
     | TransportFailed \<Rightarrow>
         mbind (set_state (br_provider_ready_update (\<lambda>_. False))) (\<lambda>_.
         mbind (backoff_wait su) (\<lambda>_. ret (ended False ''TRANSPORT'')))
     | Fetched octets \<Rightarrow>
         mbind (set_state (\<lambda>s. s\<lparr>br_provider_ready := True,
                  br_backoff := backoff_success (su_now su) (br_backoff s)\<rparr>)) (\<lambda>_.
         ingest_octets ii su octets ?after))"
    by (cases "su_reports su ?after")
      (auto intro!: keeps_rules keeps_set_state keeps_audit_only keeps_stop keeps_ingest expired)
qed

lemma keeps_admitted: "method_keeps I (admitted_pass ii su)"
  unfolding admitted_pass_def Let_def
  by (rule keeps_look)
    (auto intro!: keeps_rules keeps_housekeeping keeps_warnings keeps_hold keeps_cleared keeps_fetch
      split: option.splits)

lemma keeps_renew: "method_keeps I (on_proc (lease_renew flt now))"
proof (rule keeps_on_proc)
  fix p d r p' d' assume "I d" and "lease_renew flt now p d = (r, p', d')"
  from this(2) have "d' = d \<or> d' = SQL_LEASE_UPDATE (pr_holder p) (pr_fence p) (now + pr_ttl_ms p) d"
    unfolding lease_renew_def by (cases rule: transaction_cases) auto
  with \<open>I d\<close> show "I d'" by (auto intro: idle [OF _ idle_ops(5)])
qed

lemma keeps_acquire: "method_keeps I (on_proc (lease_acquire flt now))"
proof (rule keeps_on_proc)
  fix p d r p' d' assume I: "I d" and "lease_acquire flt now p d = (r, p', d')"
  from this(2) show "I d'"
    by (cases rule: lease_acquire_cases) (use I in \<open>auto intro: idle [OF _ idle_lease_take]\<close>)
qed

lemma keeps_hold_lease: "method_keeps I (hold_lease su)"
proof (rule method_keepsI)
  fix s r s' assume m: "hold_lease su s = (r, s')" and I: "I (br_db s)"
  obtain c s1 where c: "on_proc (lease_renew (su_faults su) (su_now su)) s = (c, s1)"
    by (cases "on_proc (lease_renew (su_faults su) (su_now su)) s")
  obtain c2 s2 where c2: "on_proc (lease_acquire (su_faults su) (su_now su)) s1 = (c2, s2)"
    by (cases "on_proc (lease_acquire (su_faults su) (su_now su)) s1")
  have I1: "I (br_db s1)" using method_keepsD [OF keeps_renew c I] .
  have I2: "I (br_db s2)" using method_keepsD [OF keeps_acquire c2 I1] .
  have b: "method_keeps I (mbind (block ''LEASE_LOST'') (\<lambda>_. ret False))" by (intro keeps_rules)
  show "I (br_db s')"
    using m c c2 I1 I2 method_keepsD [OF b] unfolding hold_lease_def
    by (auto split: sum.splits exn.splits)
qed

lemma keeps_internal_error: "method_keeps I (internal_error ii su)"
  unfolding internal_error_def by (intro keeps_rules keeps_audit_txn)

theorem keeps_run_once: "method_keeps I (run_once ii su)"
proof -
  have body: "method_keeps I (pass_body ii su)"
    unfolding pass_body_def
    by (rule keeps_look) (auto intro!: keeps_rules keeps_hold_lease keeps_admitted)
  show ?thesis
    unfolding run_once_def
    by (rule keeps_handle [OF body]) (auto intro!: keeps_rules keeps_internal_error split: exn.splits)
qed

end

end
