(* ===== verification/Link16_Actions.thy ===== *)
theory Link16_Actions
  imports Link16_Invariants
begin

text \<open>
  A bridge's life: starts, passes of the loop and operator's records in any order, each in
  surroundings of its own. A predicate of the store that every change keeps is kept by a whole
  life (\<open>store_invariant\<close>).
\<close>

declare split_paired_All [simp del] split_paired_Ex [simp del]

datatype life_event =
    Start start_surroundings
  | Pass
  | is_Recover: Recover pytext
  | Resync pytext "int option"
  | ResyncIdentities pytext string
  | is_ResolveReuse: ResolveReuse pytext pytext string
  | ReadEvidence pytext pytext

definition act :: "ingestor \<Rightarrow> (pytext \<Rightarrow> bool) \<Rightarrow> surroundings \<times> life_event \<Rightarrow> bridge \<Rightarrow> bridge" where
  "act ii blank x s =
     (case snd x of
        Start ss \<Rightarrow> snd (start ii (fst x) ss s)
      | Pass \<Rightarrow> snd (run_once ii (fst x) s)
      | Recover evidence \<Rightarrow> snd (recover ii (fst x) blank evidence s)
      | Resync evidence lost_count \<Rightarrow> snd (resync ii (fst x) blank evidence lost_count s)
      | ResyncIdentities evidence how \<Rightarrow> snd (resync_identities ii (fst x) blank evidence how s)
      | ResolveReuse evidence key how \<Rightarrow> snd (resolve_reuse ii (fst x) blank evidence key how s)
      | ReadEvidence evidence sha \<Rightarrow> snd (read_evidence ii (fst x) blank evidence sha s))"

definition acts :: "ingestor \<Rightarrow> (pytext \<Rightarrow> bool) \<Rightarrow> (surroundings \<times> life_event) list \<Rightarrow> bridge \<Rightarrow> bridge" where
  "acts ii blank = fold (act ii blank)"

lemma acts_simps [simp]:
  "acts ii blank [] s = s"
  "acts ii blank (x # xs) s = acts ii blank xs (act ii blank x s)"
  by (simp_all add: acts_def)

section \<open>Startup and the operator under a pass invariant\<close>

lemma method_keeps_snd: "method_keeps I m \<Longrightarrow> I (br_db s) \<Longrightarrow> I (br_db (snd (m s)))"
  by (simp add: method_keeps_def)

lemma keeps_refuse [keeps_rules]: "method_keeps I (refuse why)"
  by (simp add: method_keeps_def refuse_def)

lemma keeps_with_evidence [keeps_rules]: "method_keeps I m \<Longrightarrow> method_keeps I (with_evidence blank evidence m)"
  by (simp add: method_keeps_def with_evidence_def)

lemma keeps_blocked_as [keeps_rules]: "method_keeps I (blocked_as reason)"
  unfolding blocked_as_def by (intro keeps_rules)

text \<open>
  What two of the operator's records need that not every kept predicate bears: to recover clears
  the memory of a gap, and to continue a reuse makes an identity LIVE and files what it releases.
\<close>

definition recovers_in :: "(db \<Rightarrow> bool) \<Rightarrow> bool" where
  "recovers_in I \<longleftrightarrow> (\<forall>fence d. I d \<longrightarrow> I (on_channel (SQL_CHANNEL_RECOVER fence) d))"

definition reuses_in :: "ingestor \<Rightarrow> (db \<Rightarrow> bool) \<Rightarrow> bool" where
  "reuses_in ii I \<longleftrightarrow>
     (\<forall>tk key how d n d'. I d \<longrightarrow> resolve_reuse_txn ii tk key how d = Inr (n, d') \<longrightarrow> I d')"

definition continues_in :: "ingestor \<Rightarrow> (db \<Rightarrow> bool) \<Rightarrow> bool" where
  "continues_in ii I \<longleftrightarrow>
     (\<forall>fence key epoch bodies d d'. I d \<longrightarrow> admit_tuple ii fence key epoch bodies d = Inr d' \<longrightarrow> I d')"

locale life_invariant = pass_invariant I ii for I :: "db \<Rightarrow> bool" and ii :: ingestor +
  assumes bound: "I d \<Longrightarrow> I (d\<lparr>db_binding := Some binding\<rparr>)"
    and resynced: "I d \<Longrightarrow> I (on_channel (SQL_CHANNEL_RESYNC restart_cursor fence) d)"
    and lost: "I d \<Longrightarrow> I (counter_add ''dropped_by_capacity'' n (counter_add ''fed'' n d))"
    and advanced: "I d \<Longrightarrow> I (SQL_IDENTITY_EPOCH_RESET fence epoch d)"
    and retained: "I d \<Longrightarrow> I (SQL_IDENTITY_EPOCH_KEEP epoch fence below d)"
begin

lemma bound_I: "bind_store flt now binding p d = (r, p', d') \<Longrightarrow> I d \<Longrightarrow> I d'"
  unfolding bind_store_def
  by (erule transaction_cases) (auto split: option.splits if_splits intro: bound)

lemma keeps_restore: "method_keeps I (restore_state ii su ready)"
  unfolding restore_state_def restart_stopped_def Let_def
  by (auto intro!: keeps_rules keeps_set_state keeps_audit_txn settled)

lemma keeps_gateway: "method_keeps I (check_gateway ii su ss)"
  unfolding check_gateway_def Let_def
  by (auto intro!: keeps_rules keeps_set_state keeps_restore split: option.splits)

lemma keeps_start: "method_keeps I (start ii su ss)"
proof -
  have 1: "method_keeps I (open_store su (ss_binding ss))"
    unfolding open_store_def by (intro keeps_rules keeps_set_state keeps_on_proc) (auto dest: bound_I)
  have 2: "method_keeps I (\<lambda>s. case on_proc (lease_acquire (su_faults su) (su_now su)) s of
          (Inl LeaseHeld, s) \<Rightarrow> blocked_as ''LEASE_LOST'' s
        | (Inl e, s) \<Rightarrow> (Inl e, s)
        | (Inr _, s) \<Rightarrow> check_gateway ii su ss s)"
  proof (rule method_keepsI)
    fix s r s' assume m: "(case on_proc (lease_acquire (su_faults su) (su_now su)) s of
          (Inl LeaseHeld, s) \<Rightarrow> blocked_as ''LEASE_LOST'' s
        | (Inl e, s) \<Rightarrow> (Inl e, s)
        | (Inr _, s) \<Rightarrow> check_gateway ii su ss s) = (r, s')" and I: "I (br_db s)"
    obtain c s1 where c: "on_proc (lease_acquire (su_faults su) (su_now su)) s = (c, s1)"
      by (cases "on_proc (lease_acquire (su_faults su) (su_now su)) s")
    have I1: "I (br_db s1)" using method_keepsD [OF keeps_acquire c I] .
    show "I (br_db s')"
      using m c I1 method_keepsD [OF keeps_gateway] method_keepsD [OF keeps_blocked_as]
      by (auto split: sum.splits exn.splits)
  qed
  show ?thesis unfolding start_def by (auto intro!: keeps_mbind keeps_rules 1 2)
qed

lemma keeps_resync: "method_keeps I (resync ii su blank evidence lost_count)"
proof -
  have counted: "I d \<Longrightarrow> I (case lost_count of
        Some n \<Rightarrow> if n \<noteq> 0 then counter_add ''dropped_by_capacity'' n (counter_add ''fed'' n d) else d
      | None \<Rightarrow> d)" for d by (auto intro: lost split: option.splits)
  have moved: "I d \<Longrightarrow> I (on_channel (SQL_CHANNEL_ACKED c fence \<circ> SQL_CHANNEL_RESYNC c fence) d)" for c fence d
    using acked [OF resynced] by (simp add: on_channel_def)
  show ?thesis
    unfolding resync_def Let_def
    by (auto intro!: keeps_rules keeps_set_state keeps_audit_txn counted moved)
qed

lemma keeps_resync_identities: "method_keeps I (resync_identities ii su blank evidence how)"
  unfolding resync_identities_def Let_def
  by (auto intro!: keeps_rules keeps_audit_txn settled advanced retained)

lemma keeps_read_evidence: "method_keeps I (read_evidence ii su blank evidence sha)"
  unfolding read_evidence_def Let_def by (intro keeps_rules keeps_audit_txn)

lemma keeps_resolve_reuse: "reuses_in ii I \<Longrightarrow> method_keeps I (resolve_reuse ii su blank evidence key how)"
  unfolding resolve_reuse_def reuses_in_def by (auto intro!: keeps_rules intro: keeps_txn)

lemma keeps_recover: "recovers_in I \<Longrightarrow> method_keeps I (recover ii su blank evidence)"
  unfolding recover_def recovers_in_def Let_def by (auto intro!: keeps_rules keeps_audit_txn)

theorem act_I:
  assumes "I (br_db s)" and "is_Recover (snd x) \<Longrightarrow> recovers_in I"
    and "is_ResolveReuse (snd x) \<Longrightarrow> reuses_in ii I"
  shows "I (br_db (act ii blank x s))"
proof (cases "snd x")
  case (Recover evidence)
  then have "method_keeps I (recover ii (fst x) blank evidence)" using assms(2) by (intro keeps_recover) simp
  with assms(1) Recover show ?thesis by (simp add: act_def method_keeps_def)
next
  case (ResolveReuse evidence key how)
  then have "method_keeps I (resolve_reuse ii (fst x) blank evidence key how)"
    using assms(3) by (intro keeps_resolve_reuse) simp
  with assms(1) ResolveReuse show ?thesis by (simp add: act_def method_keeps_def)
qed (use assms(1) keeps_start keeps_run_once keeps_resync keeps_resync_identities
       keeps_read_evidence in \<open>simp_all add: act_def method_keeps_def\<close>)

theorem acts_I:
  "I (br_db s) \<Longrightarrow> (\<And>x. x \<in> set xs \<Longrightarrow> is_Recover (snd x) \<Longrightarrow> recovers_in I) \<Longrightarrow>
   (\<And>x. x \<in> set xs \<Longrightarrow> is_ResolveReuse (snd x) \<Longrightarrow> reuses_in ii I) \<Longrightarrow>
   I (br_db (acts ii blank xs s))"
proof (induction xs arbitrary: s)
  case (Cons x xs)
  have "I (br_db (act ii blank x s))"
    by (rule act_I) (simp_all add: Cons.prems(1) Cons.prems(2) [of x] Cons.prems(3) [of x])
  then have "I (br_db (acts ii blank xs (act ii blank x s)))"
    by (rule Cons.IH) (blast intro: Cons.prems(2,3) list.set_intros(2))+
  then show ?case by simp
qed simp

end

section \<open>A predicate that does not see the counters\<close>

locale store_invariant = batch_invariant I ii for I :: "db \<Rightarrow> bool" and ii :: ingestor +
  assumes store_acked: "I d \<Longrightarrow> I (on_channel (SQL_CHANNEL_ACKED acked_cursor fence) d)"
    and store_stopped: "I d \<Longrightarrow> I (on_channel (SQL_CHANNEL_STOP code revision fence) d)"
    and store_settled: "I d \<Longrightarrow> I (on_channel (SQL_CHANNEL_SETTLE fence) d)"
    and store_expired: "I d \<Longrightarrow> I (on_channel (SQL_CHANNEL_EXPIRED earliest_cursor fence) d)"
    and store_retried: "I d \<Longrightarrow> I (on_channel (SQL_CHANNEL_RETRY sha count fence) d)"
    and store_held: "I d \<Longrightarrow> I (on_channel (SQL_CHANNEL_STATE OVERLOADED code fence) d)"
    and store_resynced: "I d \<Longrightarrow> I (on_channel (SQL_CHANNEL_RESYNC restart_cursor fence) d)"
    and store_fresh: "I d \<Longrightarrow> I (SQL_CURRENT_FRESHNESS main motion fence key d)"
    and store_taken: "I d \<Longrightarrow> taken (db_jobs d) js \<Longrightarrow> I (d\<lparr>db_jobs := js\<rparr>)"
    and store_advanced: "I d \<Longrightarrow> I (SQL_IDENTITY_EPOCH_RESET fence epoch d)"
    and store_retained: "I d \<Longrightarrow> I (SQL_IDENTITY_EPOCH_KEEP epoch fence below d)"

sublocale store_invariant \<subseteq> life_invariant I ii
proof unfold_locales
  fix d d' :: db
  show "I d \<Longrightarrow> idle_change d d' \<Longrightarrow> I d'"
    unfolding idle_change_def by (blast intro: quiet_change store_taken)
next
  show "I d \<Longrightarrow> ingest_batch ii tk b octets cursor_before d = Inr (ds, d') \<Longrightarrow> I d'"
    for d tk b octets cursor_before ds d' by (rule batch_I)
next
  show "I d \<Longrightarrow> I (d\<lparr>db_binding := Some binding\<rparr>)" for d binding
    by (erule quiet_change) (simp add: quiet_def)
next
  show "I d \<Longrightarrow> I (counter_add ''dropped_by_capacity'' n (counter_add ''fed'' n d))" for d n
    by (intro counter_I)
qed (fact store_acked store_stopped store_settled store_expired store_retried store_held store_fresh
  store_resynced store_advanced store_retained)+

context store_invariant
begin

lemma release_I:
  assumes "release_one ii tk epoch q acc = Inr acc'" and "I (snd acc)"
  shows "I (snd acc')"
proof (cases "qu_body q")
  case None
  with assms show ?thesis by (auto simp: release_one_def)
next
  case (Some octets)
  obtain n d where acc: "acc = (n, d)" by (cases acc)
  with assms(1) Some obtain report where
    *: "(if vd_action (translate (ii_adapter ii) report) \<noteq> ACCEPT then Inr acc
          else rbind (accept_report ii tk (qu_batch q) (released_record (be_json (ii_env ii)) report) (qu_key q)
                 report (translate (ii_adapter ii) report) epoch False
                 \<lparr>wk_db = d, wk_evidence = False, wk_used = None\<rparr>) (\<lambda>((disposition, _), w).
            if disposition = ''ACCEPTED'' then
              Inr (Suc n,
                counter_add ''refused'' (- 1)
                  (SQL_INGEST_SET ''ACCEPTED'' ''RELEASED'' (tk_fence tk) (qu_key q)
                    (SQL_QUARANTINE_RESOLVE (tk_now tk) ''CONTINUED_BY_OPERATOR'' (tk_fence tk) (qu_id q) (wk_db w))))
            else Inr (n, wk_db w))) = Inr acc'"
    by (auto simp: release_one_def Let_def rbind_eq_Inr_iff)
  show ?thesis
  proof (cases "vd_action (translate (ii_adapter ii) report) = ACCEPT")
    case False
    with * assms(2) show ?thesis by simp
  next
    case True
    with * obtain disposition code w where
      a: "accept_report ii tk (qu_batch q) (released_record (be_json (ii_env ii)) report) (qu_key q)
                 report (translate (ii_adapter ii) report) epoch False
                 \<lparr>wk_db = d, wk_evidence = False, wk_used = None\<rparr> = Inr ((disposition, code), w)"
      and acc': "snd acc' = wk_db w \<or> snd acc' = counter_add ''refused'' (- 1)
                  (SQL_INGEST_SET ''ACCEPTED'' ''RELEASED'' (tk_fence tk) (qu_key q)
                    (SQL_QUARANTINE_RESOLVE (tk_now tk) ''CONTINUED_BY_OPERATOR'' (tk_fence tk) (qu_id q) (wk_db w)))"
      by (auto simp: rbind_eq_Inr_iff split: if_split_asm)
    have "I (wk_db w)" using accept_I [OF a] assms(2) acc by simp
    with acc' show ?thesis
      using quiet_ops(1,6,8) by (metis quiet_change)
  qed
qed

lemma releases_I:
  "rfold (\<lambda>acc q. release_one ii tk epoch q acc) acc qs = Inr acc' \<Longrightarrow> I (snd acc) \<Longrightarrow> I (snd acc')"
  by (induction qs arbitrary: acc) (auto simp: rbind_eq_Inr_iff dest: release_I)

lemma reject_I: "I d \<Longrightarrow> I (reject_reuse tk pending d)"
  unfolding reject_reuse_def by (rule quiet_change) (auto intro!: quiet_fold quiet_ops)

lemma reuse_I:
  assumes "resolve_reuse_txn ii tk key how d = Inr (n, d')" and "I d" and "continues_in ii I"
  shows "I d'"
proof -
  from assms(1) obtain e where e: "(if how = ''reject'' then Inr (0, reject_reuse tk (SQL_QUARANTINE_REUSE key d) d)
                  else continue_reuse ii tk key (SQL_QUARANTINE_REUSE key d) d) = Inr (n, e)"
    and d': "quiet e d'"
    unfolding resolve_reuse_txn_def Let_def
    by (auto simp: rbind_eq_Inr_iff quiet_ops split: if_split_asm)
  have "I e"
  proof (cases "how = ''reject''")
    case True
    with e assms(2) show ?thesis by (auto intro: reject_I)
  next
    case False
    with e obtain bodies d1 where
      "admit_tuple ii (tk_fence tk) key (ch_epoch (db_channel d)) bodies d = Inr d1"
      "rfold (\<lambda>acc q. release_one ii tk (ch_epoch (db_channel d)) q acc) (0, d1)
         (SQL_QUARANTINE_REUSE key d) = Inr (n, e)"
      unfolding continue_reuse_def Let_def by (auto simp: rbind_eq_Inr_iff)
    with assms(2,3) show ?thesis unfolding continues_in_def by (metis releases_I snd_conv)
  qed
  then show ?thesis using d' by (rule quiet_change)
qed

lemma reuses_I: "continues_in ii I \<Longrightarrow> reuses_in ii I"
  unfolding reuses_in_def by (blast intro: reuse_I)

end

end
