(* ===== verification/Link16_Egress.thy ===== *)
theory Link16_Egress
  imports Link16_Client Link16_Actions
begin

text \<open>
  Authorised export, \<^verbatim>\<open>egress.py\<close>: the ordered checks, the durable job, the one POST of it and what
  its answer makes of the job, reconciliation, revalidation after a takeover and the operator's
  records, with the bridge's wrappers of them. A CDM Entity is seen through the fields this module
  reads and the JSON dump of its model, a Track through its dump; the parsers of both, the
  construction check of \<open>ExportContext\<close> and the export mode of the gateway adapter are the parameters
  of \<open>export_env\<close>. Every reading of the clock, every draw of a UUID and every exchange with the
  gateway happens at a tick of its own, so nothing is assumed of two of them being alike.
\<close>

section \<open>Objects and surroundings\<close>

record entity_view =
  ev_dump :: json
  ev_id :: pytext
  ev_source_ids :: "(pytext \<times> pytext) list"
  ev_original_id :: "pytext option"
  ev_transformations :: "pytext list"
  ev_synthetic :: bool
  ev_position :: bool
  ev_kinematics :: bool

record export_context =
  xc_record_id :: pytext
  xc_gateway_id :: pytext
  xc_session_id :: pytext
  xc_sequence :: pytext
  xc_received_at :: pytext
  xc_time_basis :: pytext
  xc_time_evidence :: pytext
  xc_tenant :: json
  xc_realm :: json
  xc_synthetic :: json
  xc_origin_scope :: json
  xc_track_number :: json
  xc_incarnation :: json
  xc_reporter :: pytext
  xc_message_family :: pytext
  xc_native_profile :: pytext
  xc_domain :: pytext
  xc_security_context :: pytext
  xc_source_field_profile :: pytext
  xc_source_fields :: jobject
  xc_provenance :: jobject
  xc_position_observed_at :: "pytext option"
  xc_kinematics_observed_at :: "pytext option"
  xc_vertical_forms :: "(pytext \<times> pytext) list"
  xc_vertical_required :: bool

text \<open>The adapter's refusal has its code, its loss record and its path.\<close>

record export_env =
  xe_entity :: "bytes \<Rightarrow> entity_view option"
  xe_track :: "bytes \<Rightarrow> json option"
  xe_context_ok :: "export_context \<Rightarrow> bool"
  xe_from_cdm :: "bool \<Rightarrow> export_context \<Rightarrow> entity_view \<Rightarrow> json option \<Rightarrow> (pytext \<times> json list \<times> pytext) + json"

record export_surroundings =
  xs_clock :: "nat \<Rightarrow> int"
  xs_faults :: "nat \<Rightarrow> fault_flags"
  xs_uuid :: "nat \<Rightarrow> pytext"
  xs_client :: "nat \<Rightarrow> client_env"
  xs_crash :: "string \<Rightarrow> bool"

record egress_state =
  eg_session_id :: pytext
  eg_next_sequence :: nat
  eg_exports_ready :: bool
  eg_capabilities :: "capabilities option"
  eg_client :: bool

text \<open>A POST as it was made: the job, the body, the reading its expiry was checked at, the fence.\<close>

record post =
  po_request :: pytext
  po_body :: bytes
  po_checked :: int
  po_fence :: int

record exporter =
  xp_bridge :: bridge
  xp_egress :: "egress_state option"
  xp_tick :: nat
  xp_posts :: "post list"

type_synonym 'a export_meth = "(exporter, 'a) state_meth"

abbreviation xp_db :: "exporter \<Rightarrow> db" where
  "xp_db x \<equiv> br_db (xp_bridge x)"

definition raising :: "exn \<Rightarrow> ('s, 'a) state_meth" where
  "raising e s = (Inl e, s)"

definition from_sum :: "exn + 'a \<Rightarrow> ('s, 'a) state_meth" where
  "from_sum r s = (r, s)"

definition at_tick :: "(nat \<Rightarrow> 'a) \<Rightarrow> 'a export_meth" where
  "at_tick f x = (Inr (f (xp_tick x)), x\<lparr>xp_tick := Suc (xp_tick x)\<rparr>)"

definition reading :: "export_surroundings \<Rightarrow> int export_meth" where
  "reading xs = at_tick (xs_clock xs)"

definition drawn :: "export_surroundings \<Rightarrow> pytext export_meth" where
  "drawn xs = at_tick (xs_uuid xs)"

text \<open>A transaction reads the clock for the lease and again in its body.\<close>

definition xtxn :: "export_surroundings \<Rightarrow> (int \<Rightarrow> int \<Rightarrow> db \<Rightarrow> exn + 'a \<times> db) \<Rightarrow> 'a export_meth" where
  "xtxn xs body x =
     (let b = xp_bridge x; t = xp_tick x in
      case transaction (xs_faults xs t) (xs_clock xs t) True (br_proc b) (br_db b)
             (body (pr_store_fence (br_proc b)) (xs_clock xs (Suc t))) of
        (r, p, d) \<Rightarrow> (r, x\<lparr>xp_bridge := b\<lparr>br_proc := p, br_db := d\<rparr>, xp_tick := t + 2\<rparr>))"

definition on_bridge :: "'a meth \<Rightarrow> 'a export_meth" where
  "on_bridge m x = (case m (xp_bridge x) of (r, b) \<Rightarrow> (r, x\<lparr>xp_bridge := b\<rparr>))"

definition hit :: "export_surroundings \<Rightarrow> string \<Rightarrow> unit export_meth" where
  "hit xs point = (if xs_crash xs point then raising (SimulatedCrash point) else ret ())"

text \<open>\<open>render_ms\<close>: the contract's timestamp form, in the years a \<open>datetime\<close> holds.\<close>

definition render_ms :: "int \<Rightarrow> exn + pytext" where
  "render_ms v =
     (let rest = v mod 86400000; seconds = rest div 1000 in
      case civil_from_days (v div 86400000) of
        (year, month, day) \<Rightarrow>
          if year < 1 \<or> 9999 < year then Inl PyOverflowError
          else Inr (stamp_text \<lparr>f_year = year, f_month = month, f_day = day, f_hour = seconds div 3600,
                      f_minute = seconds div 60 mod 60, f_second = seconds mod 60,
                      f_fraction = rest mod 1000 * 1000\<rparr> (zpad 3 (rest mod 1000))))"

definition state_name :: "job_state \<Rightarrow> string" where
  "state_name st = (case st of PENDING \<Rightarrow> ''PENDING'' | REVALIDATE \<Rightarrow> ''REVALIDATE'' | ACCEPTED \<Rightarrow> ''ACCEPTED''
     | ENCODED \<Rightarrow> ''ENCODED'' | SENT \<Rightarrow> ''SENT'' | DELIVERY_CONFIRMED \<Rightarrow> ''DELIVERY_CONFIRMED''
     | UNKNOWN \<Rightarrow> ''UNKNOWN'' | REJECTED \<Rightarrow> ''REJECTED'' | EXPIRED \<Rightarrow> ''EXPIRED'' | FAILED \<Rightarrow> ''FAILED''
     | DENIED \<Rightarrow> ''DENIED'')"

text \<open>The state of a validated status document is one of the eight of the contract.\<close>

definition answered_state :: "jobject \<Rightarrow> job_state" where
  "answered_state d =
     (case find (\<lambda>st. the_key d ''state'' = JStr (asc (state_name st)))
             [REJECTED, ACCEPTED, ENCODED, SENT, DELIVERY_CONFIRMED, EXPIRED, FAILED] of
        Some st \<Rightarrow> st | None \<Rightarrow> UNKNOWN)"

definition answered_reason :: "jobject \<Rightarrow> pytext option" where
  "answered_reason d = jstr (jget d ''reason'')"

record export_result =
  er_request :: "pytext option"
  er_state :: job_state
  er_reason :: "pytext option"
  er_losses :: "json list"
  er_path :: "pytext option"

definition outcome :: "pytext \<Rightarrow> job_state \<Rightarrow> pytext option \<Rightarrow> export_result" where
  "outcome request_id st reason =
     \<lparr>er_request = Some request_id, er_state = st, er_reason = reason, er_losses = [], er_path = None\<rparr>"

section \<open>The checks\<close>

definition not_projected :: "entity_view \<Rightarrow> bool" where
  "not_projected e \<longleftrightarrow> list_ex (\<lambda>step. take (length COMPAT_FLAG) step = asc COMPAT_FLAG) (ev_transformations e)"

definition permission :: "bridge_config \<Rightarrow> egress_state \<Rightarrow> string option" where
  "permission cfg eg =
     (if bc_mode cfg \<noteq> BIDIRECTIONAL \<or> bc_realm_kind cfg = REPLAY_REALM then Some ''POLICY_DENIED''
      else if \<not> eg_exports_ready eg \<or> eg_capabilities eg = None \<or> \<not> eg_client eg then Some ''PROFILE_NOT_READY''
      else None)"

definition source_key :: "entity_view \<Rightarrow> pytext option" where
  "source_key e = map_option snd (find (\<lambda>(system, _). system = asc ''Link16Track'') (ev_source_ids e))"

definition source_of :: "entity_view \<Rightarrow> db \<Rightarrow> (pytext \<times> current_row) option" where
  "source_of e d =
     (case source_key e of
        None \<Rightarrow> None
      | Some key \<Rightarrow>
          (case (SQL_IDENTITY_GET key d, SQL_CURRENT_GET key d) of
             (Some identity, Some current) \<Rightarrow>
               if id_status identity \<noteq> ''LIVE'' \<or> cu_contribution current \<noteq> ''ACTIVE'' then None
               else Some (key, current)
           | _ \<Rightarrow> None))"

definition remodelled :: "json_env \<Rightarrow> (bytes \<Rightarrow> json option) \<Rightarrow> bytes option \<Rightarrow> exn + bytes option" where
  "remodelled je model stored =
     (case stored of
        None \<Rightarrow> Inr None
      | Some octets \<Rightarrow>
          (case model octets of None \<Rightarrow> Inl ModelInvalid | Some v \<Rightarrow> Inr (Some (je_canonical je v))))"

definition entity_dump :: "export_env \<Rightarrow> bytes \<Rightarrow> json option" where
  "entity_dump xe octets = map_option ev_dump (xe_entity xe octets)"

definition published :: "pytext \<Rightarrow> string \<Rightarrow> db \<Rightarrow> bytes option" where
  "published record_id index d = SQL_OUTBOX_PAYLOAD (record_id @ asc index) d"

text \<open>The record the Entity is the published form of: the current one, or an equal state's.\<close>

definition equal_record ::
    "json_env \<Rightarrow> export_env \<Rightarrow> pytext \<Rightarrow> entity_view \<Rightarrow> current_row \<Rightarrow> db \<Rightarrow> exn + pytext option" where
  "equal_record je xe key e current d =
     (case ev_original_id e of
        None \<Rightarrow> Inr None
      | Some record_id \<Rightarrow>
          if record_id = cu_record current then Inr None
          else
            (case SQL_OBSERVATION_STATE key record_id d of
               None \<Rightarrow> Inr None
             | Some h \<Rightarrow>
                 if hs_effective_at h \<noteq> cu_effective_at current \<or> hs_sha256 h \<noteq> cu_sha256 current \<or> hs_late h
                 then Inr None
                 else rbind (remodelled je (entity_dump xe) (published record_id '':0'' d)) (\<lambda>stored.
                   Inr (if stored \<noteq> Some (je_canonical je (ev_dump e)) then None else Some record_id))))"

definition stored_snapshot ::
    "json_env \<Rightarrow> export_env \<Rightarrow> json option \<Rightarrow> current_row \<Rightarrow> pytext \<Rightarrow> db \<Rightarrow>
     exn + (entity_view \<times> json option) option" where
  "stored_snapshot je xe track current record_id d =
     (case xe_entity xe (cu_payload current) of
        None \<Rightarrow> Inl ModelInvalid
      | Some stored_entity \<Rightarrow>
          (case track of
             None \<Rightarrow> Inr (Some (stored_entity, None))
           | Some t \<Rightarrow>
               rbind (remodelled je (xe_track xe) (published record_id '':1'' d)) (\<lambda>stored.
               if stored \<noteq> Some (je_canonical je t) then Inr None
               else
                 (case published (cu_record current) '':1'' d of
                    None \<Rightarrow> Inr None
                  | Some octets \<Rightarrow>
                      (case xe_track xe octets of
                         None \<Rightarrow> Inl ModelInvalid
                       | Some stored_track \<Rightarrow> Inr (Some (stored_entity, Some stored_track)))))))"

definition current_snapshot ::
    "json_env \<Rightarrow> export_env \<Rightarrow> pytext \<Rightarrow> entity_view \<Rightarrow> json option \<Rightarrow> current_row \<Rightarrow> db \<Rightarrow>
     exn + (entity_view \<times> json option) option" where
  "current_snapshot je xe key e track current d =
     rbind (remodelled je (entity_dump xe) (Some (cu_payload current))) (\<lambda>stored.
     rbind (if stored = Some (je_canonical je (ev_dump e)) then Inr (Some (cu_record current))
            else equal_record je xe key e current d) (\<lambda>record.
     case record of
       None \<Rightarrow> Inr None
     | Some record_id \<Rightarrow> stored_snapshot je xe track current record_id d))"

definition too_old :: "bridge_config \<Rightarrow> int \<Rightarrow> int \<Rightarrow> bool" where
  "too_old cfg now t \<longleftrightarrow> bc_outbound_max_age_ms cfg \<le> of_int (now - t)"

definition age_refusal :: "bridge_config \<Rightarrow> int \<Rightarrow> current_row \<Rightarrow> string option" where
  "age_refusal cfg now c =
     (case of_current cfg now c of (status, motion) \<Rightarrow>
        if status = ''TIME_SKEW'' \<or> motion = Some ''TIME_SKEW'' then Some ''TIME_SKEW''
        else if status \<noteq> ''ACTIVE'' \<or> motion \<notin> {None, Some ''ACTIVE''} then Some ''SOURCE_STALE''
        else if too_old cfg now (case cu_pos_at c of Some t \<Rightarrow> t | None \<Rightarrow> cu_effective_at c)
        then Some ''SOURCE_STALE''
        else if (case cu_kin_at c of Some t \<Rightarrow> too_old cfg now t | None \<Rightarrow> False) then Some ''SOURCE_STALE''
        else None)"

record export_parts =
  pt_key :: pytext
  pt_current :: current_row
  pt_rule :: policy_rule
  pt_family :: pytext
  pt_allocation :: jobject
  pt_entity :: entity_view
  pt_track :: "json option"

text \<open>Checks 5 to 9: policy, family, native profile, allocation and room in the queue.\<close>

definition granted ::
    "bridge_config \<Rightarrow> capabilities \<Rightarrow> pytext \<Rightarrow> bool \<Rightarrow> pytext \<Rightarrow> current_row \<Rightarrow>
     entity_view \<times> json option \<Rightarrow> db \<Rightarrow> string + export_parts" where
  "granted cfg cap peer_id synthetic key current snapshot d =
     (case policy_resolve cfg peer_id synthetic of
        Inl reason \<Rightarrow> Inl reason
      | Inr rule \<Rightarrow>
          (case policy_family rule cfg (cap_transmit_families cap) of
             None \<Rightarrow> Inl ''FAMILY_NOT_ALLOWED''
           | Some family \<Rightarrow>
               if bc_native_profile cfg \<notin> set (cap_native_profiles cap) then Inl ''PROFILE_NOT_READY''
               else
                 (case SQL_ALLOCATION_GET peer_id (ds_realm (pl_destination rule)) key d of
                    None \<Rightarrow> Inl ''NUMBER_UNALLOCATED''
                  | Some allocation \<Rightarrow>
                      if exports_full (usage_of d) (bc_limits cfg) then Inl ''CAPACITY_EXPORTS''
                      else Inr \<lparr>pt_key = key, pt_current = current, pt_rule = rule, pt_family = family,
                             pt_allocation = al_identity allocation, pt_entity = fst snapshot,
                             pt_track = snd snapshot\<rparr>)))"

definition check_source ::
    "ingestor \<Rightarrow> export_env \<Rightarrow> export_surroundings \<Rightarrow> capabilities \<Rightarrow> entity_view \<Rightarrow> json option \<Rightarrow> pytext \<Rightarrow>
     (string + export_parts) export_meth" where
  "check_source ii xe xs cap e track peer_id = look (\<lambda>x.
     case source_of e (xp_db x) of
       None \<Rightarrow> ret (Inl ''POLICY_DENIED'')
     | Some (key, current) \<Rightarrow>
         mbind (from_sum (current_snapshot (be_json (ii_env ii)) xe key e track current (xp_db x))) (\<lambda>snapshot.
         case snapshot of
           None \<Rightarrow> ret (Inl ''SOURCE_STALE'')
         | Some snap \<Rightarrow>
             if not_projected (fst snap) then ret (Inl ''PROFILE_NOT_READY'')
             else mbind (reading xs) (\<lambda>now.
               case age_refusal (ii_config ii) now current of
                 Some reason \<Rightarrow> ret (Inl reason)
               | None \<Rightarrow> ret (granted (ii_config ii) cap peer_id (ev_synthetic e) key current snap (xp_db x)))))"

definition check ::
    "ingestor \<Rightarrow> export_env \<Rightarrow> export_surroundings \<Rightarrow> egress_state \<Rightarrow> entity_view \<Rightarrow> json option \<Rightarrow> pytext \<Rightarrow>
     (string + export_parts) export_meth" where
  "check ii xe xs eg e track peer_id =
     (case (permission (ii_config ii) eg, eg_capabilities eg) of
        (Some reason, _) \<Rightarrow> ret (Inl reason)
      | (None, None) \<Rightarrow> ret (Inl ''PROFILE_NOT_READY'')
      | (None, Some cap) \<Rightarrow>
          if not_projected e then ret (Inl ''PROFILE_NOT_READY'')
          else mbind (handle (mbind (xtxn xs (\<lambda>fence now d. Inr ((), d))) (\<lambda>_. ret True))
                       (\<lambda>error. case error of LeaseLost \<Rightarrow> ret False | _ \<Rightarrow> raising error)) (\<lambda>held.
               if \<not> held then ret (Inl ''LEASE_LOST'')
               else look (\<lambda>x.
                 if ch_state (db_channel (xp_db x)) \<noteq> NORMAL then ret (Inl ''CHANNEL_INCOMPLETE'')
                 else check_source ii xe xs cap e track peer_id)))"

section \<open>Sending\<close>

abbreviation audited ::
    "ingestor \<Rightarrow> int \<Rightarrow> int \<Rightarrow> string \<Rightarrow> pytext \<Rightarrow> pytext option \<Rightarrow> string option \<Rightarrow> db \<Rightarrow> db" where
  "audited ii now fence kind subject code result \<equiv>
     audit_record now fence (bc_revision (ii_config ii)) kind (Some subject) (map_option code_text code) result None"

definition set_job ::
    "ingestor \<Rightarrow> export_surroundings \<Rightarrow> pytext \<Rightarrow> job_state \<Rightarrow> pytext option \<Rightarrow> string \<Rightarrow> pytext option \<Rightarrow>
     unit export_meth" where
  "set_job ii xs request_id st reason audit code =
     xtxn xs (\<lambda>fence now d. Inr ((), audited ii now fence audit request_id code (Some (state_name st))
       (SQL_JOB_STATE st reason now fence request_id d)))"

definition unknown_outcome :: "ingestor \<Rightarrow> export_surroundings \<Rightarrow> pytext \<Rightarrow> export_result export_meth" where
  "unknown_outcome ii xs request_id =
     mbind (hit xs ''egress.after_send_before_record'') (\<lambda>_.
     mbind (xtxn xs (\<lambda>fence now d. Inr ((),
        audited ii now fence ''transmission'' request_id (Some (asc ''SEND_OUTCOME_UNKNOWN'')) (Some ''UNKNOWN'')
          (counter_add ''unknown_send_outcome'' 1
             (SQL_JOB_STATE UNKNOWN (Some (asc ''SEND_OUTCOME_UNKNOWN'')) now fence request_id d))))) (\<lambda>_.
     ret (outcome request_id UNKNOWN (Some (asc ''SEND_OUTCOME_UNKNOWN'')))))"

definition settle ::
    "ingestor \<Rightarrow> export_surroundings \<Rightarrow> pytext \<Rightarrow> job_state \<Rightarrow> pytext option \<Rightarrow> string \<Rightarrow> pytext option \<Rightarrow>
     export_result export_meth" where
  "settle ii xs request_id st reason audit code =
     mbind (set_job ii xs request_id st reason audit code) (\<lambda>_. ret (outcome request_id st reason))"

definition record_answer ::
    "ingestor \<Rightarrow> export_surroundings \<Rightarrow> pytext \<Rightarrow> jobject \<Rightarrow> export_result export_meth" where
  "record_answer ii xs request_id status =
     (let st = answered_state status; reason = answered_reason status in
      mbind (hit xs ''egress.after_send_before_record'') (\<lambda>_.
      mbind (xtxn xs (\<lambda>fence now d.
        let d = SQL_JOB_STATE st reason now fence request_id d;
            d = (if st \<in> {ENCODED, SENT, DELIVERY_CONFIRMED} then counter_add ''encoded'' 1 d else d);
            d = (if st \<in> {SENT, DELIVERY_CONFIRMED} then counter_add ''sent'' 1 d else d)
        in Inr ((), audited ii now fence ''transmission'' request_id None (Some (state_name st)) d))) (\<lambda>_.
      ret (outcome request_id st reason))))"

definition record_outcome ::
    "ingestor \<Rightarrow> export_surroundings \<Rightarrow> pytext \<Rightarrow> client_error + jobject \<Rightarrow> export_result export_meth" where
  "record_outcome ii xs request_id answer =
     (case answer of
        Inr status \<Rightarrow> record_answer ii xs request_id status
      | Inl SendOutcomeUnknown \<Rightarrow> unknown_outcome ii xs request_id
      | Inl (GatewayProtocolError _) \<Rightarrow> unknown_outcome ii xs request_id
      | Inl TransportError \<Rightarrow>
          settle ii xs request_id PENDING (Some (asc ''TRANSPORT'')) ''transmission_retry'' (Some (asc ''TRANSPORT''))
      | Inl TransportTimeout \<Rightarrow>
          settle ii xs request_id PENDING (Some (asc ''TRANSPORT'')) ''transmission_retry'' (Some (asc ''TRANSPORT''))
      | Inl (GatewayError ConflictKind code _ _) \<Rightarrow>
          settle ii xs request_id REJECTED (Some code) ''transmission'' (Some code)
      | Inl (GatewayError kind code _ _) \<Rightarrow>
          if kind \<in> {CapacityKind, UnavailableKind}
          then settle ii xs request_id PENDING (Some code) ''transmission_retry'' (Some code)
          else settle ii xs request_id (if code = asc ''REQUEST_EXPIRED'' then EXPIRED else REJECTED) (Some code)
                 ''transmission'' (Some code))"

text \<open>The POST leaves a trace in \<open>xp_posts\<close>, whatever comes back.\<close>

definition transmit :: "export_surroundings \<Rightarrow> pytext \<Rightarrow> bytes \<Rightarrow> int \<Rightarrow> (client_error + jobject) export_meth" where
  "transmit xs request_id body checked x =
     (Inr (client_transmit (xs_client xs (xp_tick x)) body),
      x\<lparr>xp_tick := Suc (xp_tick x),
        xp_posts := xp_posts x @ [\<lparr>po_request = request_id, po_body = body, po_checked = checked,
                                   po_fence = pr_store_fence (br_proc (xp_bridge x))\<rparr>]\<rparr>)"

text \<open>Expiry and the lease, immediately before the POST: the early result, or the reading to go on with.\<close>

definition before_post ::
    "ingestor \<Rightarrow> export_surroundings \<Rightarrow> pytext \<Rightarrow> job_row \<Rightarrow> (export_result + int) export_meth" where
  "before_post ii xs request_id job =
     handle
       (mbind (reading xs) (\<lambda>now.
        case jb_expires_at job of
          None \<Rightarrow> raising PyTypeError
        | Some expires_at \<Rightarrow>
            if expires_at \<le> now
            then mbind (settle ii xs request_id EXPIRED (Some (asc ''REQUEST_EXPIRED'')) ''export_expired''
                          (Some (asc ''REQUEST_EXPIRED''))) (\<lambda>r. ret (Inl r))
            else mbind (xtxn xs (\<lambda>fence now_at d. Inr ((), SQL_JOB_INFLIGHT now_at fence request_id d)))
                   (\<lambda>_. ret (Inr now))))
       (\<lambda>error. case error of
          LeaseLost \<Rightarrow> ret (Inl (outcome request_id PENDING (Some (asc ''LEASE_LOST''))))
        | _ \<Rightarrow> raising error)"

definition job_of :: "pytext \<Rightarrow> exporter \<Rightarrow> job_row option" where
  "job_of request_id x = SQL_JOB_GET request_id (xp_db x)"

definition send ::
    "ingestor \<Rightarrow> export_surroundings \<Rightarrow> egress_state \<Rightarrow> pytext \<Rightarrow> export_result export_meth" where
  "send ii xs eg request_id = look (\<lambda>x.
     case job_of request_id x of
       None \<Rightarrow> raising (BodyKeyError ''no such export job'')
     | Some job \<Rightarrow>
         if jb_state job \<noteq> PENDING then ret (outcome request_id (jb_state job) (jb_reason job))
         else mbind (before_post ii xs request_id job) (\<lambda>early.
           case early of
             Inl r \<Rightarrow> ret r
           | Inr now \<Rightarrow>
               if \<not> eg_client eg then raising PyAttributeError
               else
                 (case jb_body job of
                    None \<Rightarrow> raising PyTypeError
                  | Some body \<Rightarrow>
                      mbind (transmit xs request_id body now) (record_outcome ii xs request_id))))"

section \<open>Export\<close>

definition deny ::
    "ingestor \<Rightarrow> export_surroundings \<Rightarrow> pytext \<Rightarrow> pytext \<Rightarrow> pytext \<Rightarrow> pytext \<Rightarrow> json list \<Rightarrow> pytext option \<Rightarrow>
     export_result export_meth" where
  "deny ii xs request_id peer_id reason digest losses path =
     mbind (handle (xtxn xs (\<lambda>fence now d.
       rbind (SQL_JOB_INSERT
         \<lparr>jb_request = request_id, jb_body = None, jb_body_sha256 = None, jb_peer = peer_id, jb_source = None,
          jb_expires_at = None, jb_policy = None, jb_state = DENIED, jb_reason = Some reason, jb_fence = fence,
          jb_created_at = now, jb_changed_at = now, jb_attempts = 0, jb_in_flight = False, jb_losses = losses,
          jb_digest = digest, jb_entity = None, jb_track = None\<rparr> d) (\<lambda>d.
       Inr ((), audited ii now fence ''export_denied'' request_id (Some reason) (Some ''DENIED'')
         (counter_add ''export_denied'' 1 d)))))
       (\<lambda>error. case error of LeaseLost \<Rightarrow> ret () | _ \<Rightarrow> raising error)) (\<lambda>_.
     ret \<lparr>er_request = Some request_id, er_state = DENIED, er_reason = Some reason, er_losses = losses,
          er_path = path\<rparr>)"

definition objects_digest :: "json_env \<Rightarrow> entity_view \<Rightarrow> json option \<Rightarrow> pytext" where
  "objects_digest je e track =
     je_sha256 je (je_canonical je (JArr (ev_dump e # (case track of Some t \<Rightarrow> [t] | None \<Rightarrow> []))))"

definition optional_time :: "bool \<Rightarrow> int option \<Rightarrow> exn + pytext option" where
  "optional_time present t =
     (case t of Some v \<Rightarrow> if present then rbind (render_ms v) (\<lambda>text. Inr (Some text)) else Inr None
      | None \<Rightarrow> Inr None)"

definition context_of ::
    "bridge_config \<Rightarrow> egress_state \<Rightarrow> export_parts \<Rightarrow> int \<Rightarrow> pytext \<Rightarrow> exn + export_context" where
  "context_of cfg eg pt now record_id =
     (let rule = pt_rule pt; current = pt_current pt; a = pt_allocation pt in
      rbind (render_ms now) (\<lambda>received_at.
      rbind (optional_time (ev_position (pt_entity pt)) (cu_pos_at current)) (\<lambda>position_at.
      rbind (optional_time (ev_kinematics (pt_entity pt)) (cu_kin_at current)) (\<lambda>kinematics_at.
      Inr \<lparr>xc_record_id = record_id, xc_gateway_id = bc_gateway_id cfg, xc_session_id = eg_session_id eg,
           xc_sequence = dec (eg_next_sequence eg), xc_received_at = received_at, xc_time_basis = asc ''SOURCE'',
           xc_time_evidence = asc ''the source state's effective time, exported by the runtime'',
           xc_tenant = the_key a ''tenant'', xc_realm = the_key a ''realm'', xc_synthetic = the_key a ''synthetic'',
           xc_origin_scope = the_key a ''origin_scope'', xc_track_number = the_key a ''track_number'',
           xc_incarnation = the_key a ''incarnation'', xc_reporter = bc_consumer_id cfg,
           xc_message_family = pt_family pt, xc_native_profile = bc_native_profile cfg, xc_domain = cu_domain current,
           xc_security_context = ds_security_context (pl_destination rule),
           xc_source_field_profile = asc ''sc-link16-bridge/export-1'', xc_source_fields = [],
           xc_provenance = [(asc ''source_entity_id'', JStr (ev_id (pt_entity pt))),
                            (asc ''source_record_id'', JStr (cu_record current)),
                            (asc ''policy_revision'', JStr (pl_revision rule))],
           xc_position_observed_at = position_at, xc_kinematics_observed_at = kinematics_at,
           xc_vertical_forms = ds_vertical_forms (pl_destination rule),
           xc_vertical_required = ds_vertical_required (pl_destination rule)\<rparr>))))"

definition losses_of :: "json \<Rightarrow> exn + json list" where
  "losses_of report =
     (case report of
        JObj r \<Rightarrow>
          (case the_key r ''extensions'' of
             JObj x \<Rightarrow>
               (case the_key x ''sc-link16-export/1'' of
                  JObj y \<Rightarrow> (case the_key y ''losses'' of JArr losses \<Rightarrow> Inr losses | _ \<Rightarrow> Inl (BodyKeyError ''losses''))
                | _ \<Rightarrow> Inl (BodyKeyError ''sc-link16-export/1''))
           | _ \<Rightarrow> Inl (BodyKeyError ''extensions''))
      | _ \<Rightarrow> Inl (BodyKeyError ''extensions''))"

definition body_of :: "json_env \<Rightarrow> pytext \<Rightarrow> pytext \<Rightarrow> int \<Rightarrow> policy_rule \<Rightarrow> json \<Rightarrow> exn + bytes" where
  "body_of je request_id peer_id expires_at rule report =
     rbind (render_ms expires_at) (\<lambda>expires.
     Inr (je_canonical je (JObj
       [(asc ''request_id'', JStr request_id), (asc ''peer_id'', JStr peer_id), (asc ''expires_at'', JStr expires),
        (asc ''policy_revision'', JStr (pl_revision rule)), (asc ''report'', report)])))"

definition queued_row ::
    "json_env \<Rightarrow> pytext \<Rightarrow> pytext \<Rightarrow> export_parts \<Rightarrow> int \<Rightarrow> int \<Rightarrow> bytes \<Rightarrow> json list \<Rightarrow> int \<Rightarrow> job_row" where
  "queued_row je request_id peer_id pt now expires_at body losses fence =
     \<lparr>jb_request = request_id, jb_body = Some body, jb_body_sha256 = Some (je_sha256 je body), jb_peer = peer_id,
      jb_source = Some (pt_key pt), jb_expires_at = Some expires_at, jb_policy = Some (pl_revision (pt_rule pt)),
      jb_state = PENDING, jb_reason = None, jb_fence = fence, jb_created_at = now, jb_changed_at = now,
      jb_attempts = 0, jb_in_flight = False, jb_losses = losses,
      jb_digest = objects_digest je (pt_entity pt) (pt_track pt),
      jb_entity = Some (je_canonical je (ev_dump (pt_entity pt))),
      jb_track = map_option (je_canonical je) (pt_track pt)\<rparr>"

definition next_sequence :: "unit export_meth" where
  "next_sequence = set_state (xp_egress_update (map_option (eg_next_sequence_update Suc)))"

definition queue_and_send ::
    "ingestor \<Rightarrow> export_surroundings \<Rightarrow> egress_state \<Rightarrow> pytext \<Rightarrow> pytext \<Rightarrow> export_parts \<Rightarrow> int \<Rightarrow> json \<Rightarrow>
     export_result export_meth" where
  "queue_and_send ii xs eg request_id peer_id pt now report =
     (let je = be_json (ii_env ii); expires_at = now + \<lfloor>bc_outbound_max_age_ms (ii_config ii)\<rfloor> in
      mbind (from_sum (body_of je request_id peer_id expires_at (pt_rule pt) report)) (\<lambda>body.
      mbind (from_sum (losses_of report)) (\<lambda>losses.
      mbind (handle (mbind (xtxn xs (\<lambda>fence now_at d.
          rbind (SQL_JOB_INSERT (queued_row je request_id peer_id pt now expires_at body losses fence) d) (\<lambda>d.
          Inr ((), audited ii now_at fence ''export_queued'' request_id None (Some ''ALLOWED'') d)))) (\<lambda>_. ret True))
        (\<lambda>error. case error of LeaseLost \<Rightarrow> ret False | _ \<Rightarrow> raising error)) (\<lambda>committed.
      if \<not> committed then ret (outcome request_id DENIED (Some (asc ''LEASE_LOST'')))
      else
        mbind next_sequence (\<lambda>_.
        mbind (hit xs ''egress.after_job_commit_before_send'') (\<lambda>_.
        send ii xs eg request_id))))))"

definition export_allowed ::
    "ingestor \<Rightarrow> export_env \<Rightarrow> export_surroundings \<Rightarrow> egress_state \<Rightarrow> pytext \<Rightarrow> pytext \<Rightarrow> export_parts \<Rightarrow>
     export_result export_meth" where
  "export_allowed ii xe xs eg request_id peer_id pt =
     (let cfg = ii_config ii; digest = objects_digest (be_json (ii_env ii)) (pt_entity pt) (pt_track pt) in
      mbind (reading xs) (\<lambda>now.
      mbind (drawn xs) (\<lambda>record_id.
      mbind (from_sum (context_of cfg eg pt now record_id)) (\<lambda>ctx.
      if \<not> xe_context_ok xe ctx
      then deny ii xs request_id peer_id (asc ''NUMBER_UNALLOCATED'') digest [] None
      else
        (case xe_from_cdm xe (bc_synthetic cfg) ctx (pt_entity pt) (pt_track pt) of
           Inl (code, losses, path) \<Rightarrow> deny ii xs request_id peer_id code digest losses (Some path)
         | Inr report \<Rightarrow> queue_and_send ii xs eg request_id peer_id pt now report)))))"

definition chosen_id :: "export_surroundings \<Rightarrow> pytext option \<Rightarrow> pytext export_meth" where
  "chosen_id xs request_id =
     (case request_id of Some r \<Rightarrow> if r = [] then drawn xs else ret r | None \<Rightarrow> drawn xs)"

definition egress_export ::
    "ingestor \<Rightarrow> export_env \<Rightarrow> export_surroundings \<Rightarrow> egress_state \<Rightarrow> entity_view \<Rightarrow> json option \<Rightarrow> pytext \<Rightarrow>
     pytext option \<Rightarrow> export_result export_meth" where
  "egress_export ii xe xs eg e track peer_id request_id =
     mbind (chosen_id xs request_id) (\<lambda>rid. look (\<lambda>x.
     case job_of rid x of
       Some known \<Rightarrow> ret (outcome rid (jb_state known) (jb_reason known))
     | None \<Rightarrow>
         mbind (check ii xe xs eg e track peer_id) (\<lambda>verdict.
         case verdict of
           Inl reason \<Rightarrow>
             deny ii xs rid peer_id (asc reason) (objects_digest (be_json (ii_env ii)) e track) [] None
         | Inr pt \<Rightarrow> export_allowed ii xe xs eg rid peer_id pt)))"

section \<open>Open outcomes\<close>

definition reconcile_job ::
    "ingestor \<Rightarrow> export_surroundings \<Rightarrow> job_state \<Rightarrow> pytext \<Rightarrow> (pytext \<times> job_state) list export_meth" where
  "reconcile_job ii xs st request_id =
     mbind (at_tick (\<lambda>t. client_transmission_status (xs_client xs t) request_id)) (\<lambda>answer.
     case answer of
       Inl _ \<Rightarrow> ret []
     | Inr status \<Rightarrow>
         if answered_state status = st then ret []
         else mbind (set_job ii xs request_id (answered_state status) (answered_reason status) ''reconciled'' None)
                (\<lambda>_. ret [(request_id, answered_state status)]))"

fun each :: "('a \<Rightarrow> ('s, 'b list) state_meth) \<Rightarrow> 'a list \<Rightarrow> ('s, 'b list) state_meth" where
  "each m [] = ret []"
| "each m (a # as) = mbind (m a) (\<lambda>bs. mbind (each m as) (\<lambda>cs. ret (bs @ cs)))"

definition reconcile_state ::
    "ingestor \<Rightarrow> export_surroundings \<Rightarrow> egress_state \<Rightarrow> job_state \<Rightarrow> (pytext \<times> job_state) list export_meth" where
  "reconcile_state ii xs eg st = look (\<lambda>x.
     let ids = SQL_JOBS_BY_STATE st (xp_db x) in
     if ids \<noteq> [] \<and> \<not> eg_client eg then raising PyAttributeError else each (reconcile_job ii xs st) ids)"

definition egress_reconcile ::
    "ingestor \<Rightarrow> export_surroundings \<Rightarrow> egress_state \<Rightarrow> (pytext \<times> job_state) list export_meth" where
  "egress_reconcile ii xs eg = each (reconcile_state ii xs eg) [UNKNOWN, ACCEPTED, ENCODED]"

definition stored_objects :: "export_env \<Rightarrow> job_row \<Rightarrow> exn + entity_view \<times> json option" where
  "stored_objects xe job =
     rbind (case map_option (xe_entity xe) (jb_entity job) of Some (Some e) \<Rightarrow> Inr e | _ \<Rightarrow> Inl ModelInvalid) (\<lambda>e.
     case jb_track job of
       None \<Rightarrow> Inr (e, None)
     | Some octets \<Rightarrow> (case xe_track xe octets of Some t \<Rightarrow> Inr (e, Some t) | None \<Rightarrow> Inl ModelInvalid))"

definition revalidate_checked ::
    "ingestor \<Rightarrow> export_env \<Rightarrow> export_surroundings \<Rightarrow> egress_state \<Rightarrow> pytext \<Rightarrow> job_row \<Rightarrow> entity_view \<times> json option \<Rightarrow>
     export_result export_meth" where
  "revalidate_checked ii xe xs eg request_id job objects =
     mbind (check ii xe xs eg (fst objects) (snd objects) (jb_peer job)) (\<lambda>verdict.
     case verdict of
       Inl reason \<Rightarrow>
         mbind (set_job ii xs request_id DENIED (Some (asc reason)) ''export_denied'' (Some (asc reason))) (\<lambda>_.
         mbind (xtxn xs (\<lambda>fence now d. Inr ((), counter_add ''export_denied'' 1 d))) (\<lambda>_.
         ret (outcome request_id DENIED (Some (asc reason)))))
     | Inr _ \<Rightarrow>
         mbind (xtxn xs (\<lambda>fence now d. Inr ((),
            audited ii now fence ''export_revalidated'' request_id None (Some ''ALLOWED'')
              (SQL_JOB_REBODY now fence request_id d)))) (\<lambda>_.
         send ii xs eg request_id))"

definition revalidate_job ::
    "ingestor \<Rightarrow> export_env \<Rightarrow> export_surroundings \<Rightarrow> egress_state \<Rightarrow> pytext \<Rightarrow> export_result list export_meth" where
  "revalidate_job ii xe xs eg request_id = look (\<lambda>x.
     case job_of request_id x of
       None \<Rightarrow> raising PyTypeError
     | Some job \<Rightarrow>
         mbind (from_sum (stored_objects xe job)) (\<lambda>objects.
         mbind (reading xs) (\<lambda>now.
         mbind (case jb_expires_at job of
             None \<Rightarrow> raising PyTypeError
           | Some expires_at \<Rightarrow>
               if expires_at \<le> now
               then settle ii xs request_id EXPIRED (Some (asc ''REQUEST_EXPIRED'')) ''export_expired''
                      (Some (asc ''REQUEST_EXPIRED''))
               else revalidate_checked ii xe xs eg request_id job objects) (\<lambda>r. ret [r]))))"

definition egress_revalidate ::
    "ingestor \<Rightarrow> export_env \<Rightarrow> export_surroundings \<Rightarrow> egress_state \<Rightarrow> export_result list export_meth" where
  "egress_revalidate ii xe xs eg = look (\<lambda>x.
     each (revalidate_job ii xe xs eg) (SQL_JOBS_BY_STATE REVALIDATE (xp_db x)))"

section \<open>Operator records\<close>

definition egress_resolve_send ::
    "ingestor \<Rightarrow> export_surroundings \<Rightarrow> pytext \<Rightarrow> string \<Rightarrow> string export_meth" where
  "egress_resolve_send ii xs request_id how = look (\<lambda>x.
     if (case job_of request_id x of Some job \<Rightarrow> jb_state job \<noteq> UNKNOWN | None \<Rightarrow> True) \<or> how \<noteq> ''abandon''
     then raising (OperatorRefusal ''resolve-send applies to an UNKNOWN job with --decision abandon'')
     else mbind (xtxn xs (\<lambda>fence now d. Inr ((),
            audited ii now fence ''resolve_send'' request_id None (Some ''FAILED'')
              (SQL_JOB_STATE FAILED (Some (asc ''ABANDONED_BY_OPERATOR'')) now fence request_id d))))
            (\<lambda>_. ret ''FAILED''))"

definition contract_refusal :: "contract_error + 'a \<Rightarrow> exn + 'a" where
  "contract_refusal r =
     (case r of
        Inl e \<Rightarrow> Inl (OperatorRefusal (ce_code e @ '': '' @ (if ce_path e = '''' then ''(body)'' else ce_path e)
                  @ '' -- '' @ ce_rule e))
      | Inr v \<Rightarrow> Inr v)"

text \<open>The provider's destination tuple: exactly the six identity keys, each of its form.\<close>

definition destination_tuple :: "pytext \<Rightarrow> json \<Rightarrow> exn + jobject" where
  "destination_tuple realm dest_tuple =
     (case dest_tuple of
        JObj d \<Rightarrow>
          if fst ` set d \<noteq> asc ` set IDENTITY_KEYS
          then Inl (OperatorRefusal ''the destination tuple holds exactly the six identity keys'')
          else
            rbind (contract_refusal (identifier_at (the_key d ''tenant'') ''tenant'')) (\<lambda>_.
            rbind (contract_refusal (identifier_at (the_key d ''realm'') ''realm'')) (\<lambda>_.
            rbind (contract_refusal (identifier_at (the_key d ''origin_scope'') ''origin_scope'')) (\<lambda>_.
            rbind (contract_refusal (decimal_u64 (the_key d ''incarnation'') ''incarnation'')) (\<lambda>_.
            if jbool (jget d ''synthetic'') = None \<or>
               (case jstr (jget d ''track_number'') of Some t \<Rightarrow> length t < 1 \<or> 64 < length t | None \<Rightarrow> True)
            then Inl (OperatorRefusal ''the destination tuple's synthetic or track_number is malformed'')
            else if the_key d ''realm'' \<noteq> JStr realm
            then Inl (OperatorRefusal ''the destination tuple's realm is the allocation's realm'')
            else Inr d))))
      | _ \<Rightarrow> Inl (OperatorRefusal ''the destination tuple holds exactly the six identity keys''))"

definition egress_allocate ::
    "ingestor \<Rightarrow> export_surroundings \<Rightarrow> pytext \<Rightarrow> pytext \<Rightarrow> pytext \<Rightarrow> json \<Rightarrow> pytext \<Rightarrow> unit export_meth" where
  "egress_allocate ii xs peer_id realm source dest_tuple evidence =
     mbind (from_sum (destination_tuple realm dest_tuple)) (\<lambda>tuple.
     xtxn xs (\<lambda>fence now d. Inr ((),
       audited ii now fence ''allocation'' peer_id None None
         (SQL_ALLOCATION_PUT peer_id realm source
            \<lparr>al_identity = tuple,
             al_allocated_by = (case bc_number_allocations_ref (ii_config ii) of
                Some t \<Rightarrow> if t = [] then asc ''operator'' else t | None \<Rightarrow> asc ''operator''),
             al_evidence = take 1024 evidence, al_recorded_at = now, al_fence = fence\<rparr> d))))"

section \<open>The bridge's wrappers\<close>

text \<open>
  A \<open>ValueError\<close> of the two operator's records is shown above as the \<open>OperatorRefusal\<close> its wrapper
  turns it into.
\<close>

definition with_egress :: "(egress_state \<Rightarrow> 'a export_meth) \<Rightarrow> 'a export_meth" where
  "with_egress m = look (\<lambda>x. case xp_egress x of Some eg \<Rightarrow> m eg | None \<Rightarrow> raising PyAttributeError)"

definition with_text :: "(pytext \<Rightarrow> bool) \<Rightarrow> pytext \<Rightarrow> 'a export_meth \<Rightarrow> 'a export_meth" where
  "with_text blank evidence m =
     (if blank evidence then raising (OperatorRefusal ''operator evidence text is required'') else m)"

definition bridge_export ::
    "ingestor \<Rightarrow> export_env \<Rightarrow> export_surroundings \<Rightarrow> entity_view \<Rightarrow> json option \<Rightarrow> pytext \<Rightarrow> pytext option \<Rightarrow>
     export_result export_meth" where
  "bridge_export ii xe xs e track peer_id request_id = look (\<lambda>x.
     case xp_egress x of
       None \<Rightarrow> ret \<lparr>er_request = request_id, er_state = DENIED, er_reason = Some (asc ''PROFILE_NOT_READY''),
                  er_losses = [], er_path = None\<rparr>
     | Some eg \<Rightarrow> egress_export ii xe xs eg e track peer_id request_id)"

definition bridge_reconcile :: "ingestor \<Rightarrow> export_surroundings \<Rightarrow> (pytext \<times> job_state) list export_meth" where
  "bridge_reconcile ii xs = with_egress (egress_reconcile ii xs)"

definition bridge_revalidate :: "ingestor \<Rightarrow> export_env \<Rightarrow> export_surroundings \<Rightarrow> export_result list export_meth" where
  "bridge_revalidate ii xe xs = with_egress (egress_revalidate ii xe xs)"

definition bridge_resolve_send ::
    "ingestor \<Rightarrow> export_surroundings \<Rightarrow> (pytext \<Rightarrow> bool) \<Rightarrow> pytext \<Rightarrow> pytext \<Rightarrow> string \<Rightarrow> string export_meth" where
  "bridge_resolve_send ii xs blank evidence request_id how =
     with_text blank evidence (with_egress (\<lambda>_. egress_resolve_send ii xs request_id how))"

definition bridge_allocate ::
    "ingestor \<Rightarrow> export_surroundings \<Rightarrow> (pytext \<Rightarrow> bool) \<Rightarrow> pytext \<Rightarrow> pytext \<Rightarrow> pytext \<Rightarrow> pytext \<Rightarrow> json \<Rightarrow>
     unit export_meth" where
  "bridge_allocate ii xs blank evidence peer_id realm source dest_tuple =
     with_text blank evidence (with_egress (\<lambda>_. egress_allocate ii xs peer_id realm source dest_tuple evidence))"

text \<open>
  A new process: the bridge is built and started, and its \<open>Egress\<close> opens an outbound session when
  the start gets that far.
\<close>

definition launch :: "ingestor \<Rightarrow> surroundings \<Rightarrow> start_surroundings \<Rightarrow> export_surroundings \<Rightarrow> bridge_status export_meth" where
  "launch ii su ss xs =
     mbind (set_state (xp_egress_update (\<lambda>_. None))) (\<lambda>_.
     mbind (on_bridge (start ii su ss)) (\<lambda>status.
     if status = BLOCKED then ret status
     else
       mbind (drawn xs) (\<lambda>session_id.
       mbind (set_state (\<lambda>x. x\<lparr>xp_egress := Some
          \<lparr>eg_session_id = session_id, eg_next_sequence = 0, eg_exports_ready = br_exports (xp_bridge x),
           eg_capabilities = ss_capabilities ss, eg_client = True\<rparr>\<rparr>)) (\<lambda>_.
       ret status))))"

definition open_bridge :: "surroundings \<Rightarrow> start_surroundings \<Rightarrow> unit meth" where
  "open_bridge su ss =
     mbind (open_store su (ss_binding ss)) (\<lambda>_.
     mbind (handle (on_proc (lease_acquire (su_faults su) (su_now su)))
       (\<lambda>error. case error of
          LeaseHeld \<Rightarrow> refuse ''the channel-writer lease is held by another instance''
        | _ \<Rightarrow> raising error)) (\<lambda>_.
     (let chosen = choose_projection (ss_accepts ss) (ss_installed ss) in
      mbind (set_state (br_projection_update (\<lambda>_. Some chosen))) (\<lambda>_.
      if chosen = NEGOTIATION_FAILED then refuse ''no CDM schema version is shared with the sink'' else ret ()))))"

definition open_for_operator :: "surroundings \<Rightarrow> start_surroundings \<Rightarrow> export_surroundings \<Rightarrow> unit export_meth" where
  "open_for_operator su ss xs =
     mbind (set_state (xp_egress_update (\<lambda>_. None))) (\<lambda>_.
     mbind (on_bridge (open_bridge su ss)) (\<lambda>_.
     mbind (drawn xs) (\<lambda>session_id.
     set_state (xp_egress_update (\<lambda>_. Some
       \<lparr>eg_session_id = session_id, eg_next_sequence = 0, eg_exports_ready = False, eg_capabilities = None,
        eg_client = False\<rparr>)))))"

end
