(* ===== verification/Link16_Jobs.thy ===== *)
theory Link16_Jobs
  imports Link16_Egress
begin

text \<open>
  The life of export jobs as a state machine of its own: which state a job may take from which, when a
  POST of it may be made, what a takeover does to it. What the machine keeps is proved here once; that
  every method of the bridge is a run of it is \<^verbatim>\<open>Link16_Exports\<close>.
\<close>

section \<open>The machine\<close>

record outbox =
  ob_jobs :: "job_row list"
  ob_posts :: "post list"

definition outbox_of :: "exporter \<Rightarrow> outbox" where
  "outbox_of x = \<lparr>ob_jobs = db_jobs (xp_db x), ob_posts = xp_posts x\<rparr>"

definition FINAL_STATES :: "job_state set" where
  "FINAL_STATES = {REJECTED, SENT, DELIVERY_CONFIRMED, EXPIRED, FAILED, DENIED}"

definition ANSWERS :: "job_state set" where
  "ANSWERS = {REJECTED, ACCEPTED, ENCODED, SENT, DELIVERY_CONFIRMED, EXPIRED, FAILED, UNKNOWN}"

text \<open>The states a recorded outcome may give a job: after a send, a reconciliation, a second check.\<close>

fun becomes :: "job_state \<Rightarrow> job_state set" where
  "becomes PENDING = insert PENDING ANSWERS"
| "becomes REVALIDATE = {EXPIRED, DENIED}"
| "becomes UNKNOWN = ANSWERS"
| "becomes ACCEPTED = ANSWERS"
| "becomes ENCODED = ANSWERS"
| "becomes _ = {}"

lemma becomes_final: "st \<in> FINAL_STATES \<Longrightarrow> becomes st = {}"
  by (auto simp: FINAL_STATES_def)

inductive job_change :: "job_row \<Rightarrow> job_row \<Rightarrow> bool" where
  recorded: "st \<in> becomes (jb_state j) \<Longrightarrow>
    job_change j (j\<lparr>jb_state := st, jb_reason := reason, jb_changed_at := now, jb_in_flight := False, jb_fence := fence\<rparr>)"
| armed: "jb_state j = PENDING \<Longrightarrow>
    job_change j (j\<lparr>jb_in_flight := True, jb_attempts := Suc (jb_attempts j), jb_changed_at := now, jb_fence := fence\<rparr>)"
| requeued: "jb_state j = REVALIDATE \<Longrightarrow>
    job_change j (j\<lparr>jb_state := PENDING, jb_reason := None, jb_changed_at := now, jb_fence := fence\<rparr>)"

inductive_cases job_change_cases: "job_change j k"

definition posts_of :: "pytext \<Rightarrow> outbox \<Rightarrow> post list" where
  "posts_of r v = filter (\<lambda>p. po_request p = r) (ob_posts v)"

inductive job_step :: "outbox \<Rightarrow> outbox \<Rightarrow> bool" where
  filed: "jb_request j \<notin> jb_request ` set (ob_jobs v) \<Longrightarrow> jb_attempts j = 0 \<Longrightarrow> \<not> jb_in_flight j \<Longrightarrow>
    jb_state j = DENIED \<or> jb_state j = PENDING \<and> jb_body j \<noteq> None \<and> jb_expires_at j \<noteq> None \<Longrightarrow>
    job_step v (v\<lparr>ob_jobs := ob_jobs v @ [j]\<rparr>)"
| changed: "(\<And>j. j \<in> set (ob_jobs v) \<Longrightarrow> jb_request j = r \<Longrightarrow> job_change j (f j)) \<Longrightarrow>
    job_step v (v\<lparr>ob_jobs := update_where (\<lambda>j. jb_request j = r) f (ob_jobs v)\<rparr>)"
| posted: "j \<in> set (ob_jobs v) \<Longrightarrow> jb_in_flight j \<Longrightarrow> length (posts_of (jb_request j) v) < jb_attempts j \<Longrightarrow>
    po_request p = jb_request j \<Longrightarrow> jb_body j = Some (po_body p) \<Longrightarrow> jb_expires_at j = Some t \<Longrightarrow> po_checked p < t \<Longrightarrow>
    job_step v (v\<lparr>ob_posts := ob_posts v @ [p]\<rparr>)"
| taken_over: "taken (ob_jobs v) js \<Longrightarrow> job_step v (v\<lparr>ob_jobs := js\<rparr>)"

section \<open>What the machine keeps\<close>

text \<open>What every change leaves as it was at the commit of the job.\<close>

definition fixed_part :: "job_row \<Rightarrow> pytext \<times> bytes option \<times> pytext \<times> int option \<times> pytext option \<times> pytext" where
  "fixed_part j = (jb_request j, jb_body j, jb_peer j, jb_expires_at j, jb_policy j, jb_digest j)"

definition flight_ok :: "job_row \<Rightarrow> bool" where
  "flight_ok j \<longleftrightarrow> (jb_in_flight j \<longrightarrow> jb_state j = PENDING)"

lemma job_change_fixed: "job_change j k \<Longrightarrow> fixed_part k = fixed_part j \<and> jb_attempts j \<le> jb_attempts k"
  by (erule job_change_cases) (auto simp: fixed_part_def)

lemma taken_row_fixed: "taken_row j k \<Longrightarrow> fixed_part k = fixed_part j \<and> jb_attempts k = jb_attempts j"
  by (erule taken_row.cases) (auto simp: fixed_part_def)

lemma job_change_flight: "job_change j k \<Longrightarrow> flight_ok j \<Longrightarrow> flight_ok k"
  by (erule job_change_cases) (auto simp: flight_ok_def)

lemma taken_row_flight: "taken_row j k \<Longrightarrow> flight_ok j \<Longrightarrow> flight_ok k"
  by (erule taken_row.cases) (auto simp: flight_ok_def)

text \<open>A change of the table, row by row, keeps a relation of the rows.\<close>

lemma update_where_rel:
  assumes "\<And>j. j \<in> set js \<Longrightarrow> P j \<Longrightarrow> R j (f j)" and "\<And>j. R j j"
  shows "list_all2 R js (update_where P f js)"
  using assms unfolding update_where_def list_all2_conv_all_nth by auto

definition row_grows :: "job_row \<Rightarrow> job_row \<Rightarrow> bool" where
  "row_grows j k \<longleftrightarrow> fixed_part k = fixed_part j \<and> jb_attempts j \<le> jb_attempts k \<and>
     (flight_ok j \<longrightarrow> flight_ok k) \<and> (flight_ok j \<and> jb_state j \<in> FINAL_STATES \<longrightarrow> k = j)"

lemma row_grows_refl [simp]: "row_grows j j"
  by (simp add: row_grows_def)

lemma job_change_grows: "job_change j k \<Longrightarrow> row_grows j k"
proof -
  assume c: "job_change j k"
  have "jb_state j \<notin> FINAL_STATES"
    using c by cases (auto simp: FINAL_STATES_def)
  with c show ?thesis by (simp add: row_grows_def job_change_fixed job_change_flight)
qed

lemma taken_row_grows: "taken_row j k \<Longrightarrow> row_grows j k"
proof -
  assume t: "taken_row j k"
  have "flight_ok j \<and> jb_state j \<in> FINAL_STATES \<Longrightarrow> k = j"
    using taken_row_settled [OF t] by (auto simp: flight_ok_def FINAL_STATES_def)
  with t taken_row_fixed [OF t] taken_row_flight [OF t] show ?thesis by (simp add: row_grows_def)
qed

text \<open>
  Sound outboxes: one row per request, a job in flight is PENDING, and every POST was of the committed
  body of its job, before its expiry and one of the attempts counted in the row.
\<close>

definition covered :: "job_row list \<Rightarrow> post \<Rightarrow> bool" where
  "covered js p \<longleftrightarrow> (\<exists>j \<in> set js. jb_request j = po_request p \<and> jb_body j = Some (po_body p) \<and>
     (\<exists>t. jb_expires_at j = Some t \<and> po_checked p < t))"

definition sound :: "outbox \<Rightarrow> bool" where
  "sound v \<longleftrightarrow> distinct (map jb_request (ob_jobs v)) \<and> list_all flight_ok (ob_jobs v) \<and>
     list_all (covered (ob_jobs v)) (ob_posts v) \<and>
     list_all (\<lambda>j. length (posts_of (jb_request j) v) \<le> jb_attempts j) (ob_jobs v)"

lemma grown_rows:
  assumes "list_all2 row_grows js ks"
  shows "map jb_request ks = map jb_request js"
    and "list_all flight_ok js \<Longrightarrow> list_all flight_ok ks"
    and "covered js p \<Longrightarrow> covered ks p"
    and "list_all (\<lambda>j. n (jb_request j) \<le> jb_attempts j) js \<Longrightarrow> list_all (\<lambda>j. n (jb_request j) \<le> jb_attempts j) ks"
  using assms
proof (induction rule: list_all2_induct)
  case (Cons j js k ks)
  have fixed: "jb_request k = jb_request j" "jb_body k = jb_body j" "jb_expires_at k = jb_expires_at j"
    using Cons.hyps(1) by (simp_all add: row_grows_def fixed_part_def)
  { case 1 then show ?case using Cons fixed by simp
  next
    case 2 then show ?case using Cons by (simp add: row_grows_def)
  next
    case 3 then show ?case using Cons fixed by (auto simp: covered_def)
  next
    case 4
    have "jb_attempts j \<le> jb_attempts k" using Cons.hyps(1) by (simp add: row_grows_def)
    with 4 Cons fixed show ?case by auto
  }
qed (simp_all add: covered_def)

lemma sound_grown:
  assumes "sound v" and "list_all2 row_grows (ob_jobs v) js"
  shows "sound (v\<lparr>ob_jobs := js\<rparr>)"
  using assms grown_rows [OF assms(2)] unfolding sound_def
  by (auto simp: posts_of_def list.pred_mono_strong)

lemma sound_no_posts:
  assumes "sound v" and "r \<notin> jb_request ` set (ob_jobs v)"
  shows "posts_of r v = []"
  using assms unfolding sound_def posts_of_def filter_empty_conv list_all_iff covered_def by force

lemma same_request:
  assumes "sound v" and "j \<in> set (ob_jobs v)" and "k \<in> set (ob_jobs v)" and "jb_request j = jb_request k"
  shows "j = k"
proof -
  have "inj_on jb_request (set (ob_jobs v))" using assms(1) unfolding sound_def distinct_map by blast
  then show ?thesis using assms(2-) by (auto dest: inj_onD)
qed

lemma step_sound:
  assumes "job_step v w" and "sound v"
  shows "sound w"
  using assms(1)
proof cases
  case (filed j)
  have "posts_of (jb_request j) v = []" by (rule sound_no_posts [OF assms(2) filed(2)])
  moreover have "covered (ob_jobs v) p \<Longrightarrow> covered (ob_jobs v @ [j]) p" for p by (auto simp: covered_def)
  ultimately show ?thesis
    using assms(2) filed unfolding sound_def posts_of_def
    by (auto simp: flight_ok_def list.pred_mono_strong)
next
  case (changed r f)
  have "list_all2 row_grows (ob_jobs v) (update_where (\<lambda>j. jb_request j = r) f (ob_jobs v))"
    by (rule update_where_rel) (auto intro: job_change_grows changed(2))
  with assms(2) changed(1) show ?thesis by (simp add: sound_grown)
next
  case (posted j p t)
  have row: "k = j" if "k \<in> set (ob_jobs v)" "jb_request k = jb_request j" for k
    using same_request [OF assms(2) that(1) posted(2)] that(2) .
  have "covered (ob_jobs v) p" using posted by (auto simp: covered_def)
  moreover have "length (posts_of (jb_request k) w) \<le> jb_attempts k" if "k \<in> set (ob_jobs v)" for k
  proof (cases "jb_request k = jb_request j")
    case True
    with row [OF that] have "k = j" by simp
    with posted(1,4,5) show ?thesis by (simp add: posts_of_def)
  next
    case False
    have "length (posts_of (jb_request k) v) \<le> jb_attempts k"
      using assms(2) that by (simp add: sound_def list_all_iff)
    with False posted(1,5) show ?thesis by (simp add: posts_of_def)
  qed
  ultimately show ?thesis
    using assms(2) posted(1) unfolding sound_def list_all_iff by simp
next
  case (taken_over js)
  have "list_all2 row_grows (ob_jobs v) js"
    using taken_over(2) unfolding taken_def by (rule list_all2_mono) (rule taken_row_grows)
  with assms(2) taken_over(1) show ?thesis by (simp add: sound_grown)
qed

lemma steps_sound: "job_step\<^sup>*\<^sup>* v w \<Longrightarrow> sound v \<Longrightarrow> sound w"
  by (induction rule: rtranclp_induct) (auto intro: step_sound)

text \<open>A settled job keeps its row, and no POST of it is made.\<close>

lemma step_settled:
  assumes "job_step v w" and "sound v" and "j \<in> set (ob_jobs v)" and "jb_state j \<in> FINAL_STATES"
  shows "j \<in> set (ob_jobs w) \<and> posts_of (jb_request j) w = posts_of (jb_request j) v"
proof -
  have ok: "flight_ok j" using assms(2,3) by (simp add: sound_def list_all_iff)
  have kept: "j \<in> set ks" if grown: "list_all2 row_grows (ob_jobs v) ks" for ks
  proof -
    obtain k where "k \<in> set ks" "row_grows j k"
      using grown assms(3) unfolding list_all2_conv_all_nth in_set_conv_nth by metis
    with ok assms(4) show ?thesis by (simp add: row_grows_def)
  qed
  show ?thesis
    using assms(1)
  proof cases
    case (filed k)
    with assms(3) show ?thesis by (simp add: posts_of_def)
  next
    case (changed r f)
    have "list_all2 row_grows (ob_jobs v) (update_where (\<lambda>j. jb_request j = r) f (ob_jobs v))"
      by (rule update_where_rel) (auto intro: job_change_grows changed(2))
    with changed(1) kept show ?thesis by (simp add: posts_of_def)
  next
    case (posted k p t)
    have "jb_state k = PENDING" using posted(2,3) assms(2) by (simp add: sound_def list_all_iff flight_ok_def)
    then have "k \<noteq> j" using assms(4) by (auto simp: FINAL_STATES_def)
    then have "jb_request k \<noteq> jb_request j"
      using same_request [OF assms(2) posted(2) assms(3)] by blast
    with posted assms(3) show ?thesis by (simp add: posts_of_def)
  next
    case (taken_over js)
    have "list_all2 row_grows (ob_jobs v) js"
      using taken_over(2) unfolding taken_def by (rule list_all2_mono) (rule taken_row_grows)
    with taken_over(1) kept show ?thesis by (simp add: posts_of_def)
  qed
qed

lemma steps_settled:
  assumes "job_step\<^sup>*\<^sup>* v w" and "sound v" and "j \<in> set (ob_jobs v)" and "jb_state j \<in> FINAL_STATES"
  shows "j \<in> set (ob_jobs w) \<and> posts_of (jb_request j) w = posts_of (jb_request j) v"
  using assms(1)
proof (induction rule: rtranclp_induct)
  case (step w u)
  then show ?case using step_settled [OF step.hyps(2) steps_sound [OF step.hyps(1) assms(2)]] assms(4) by auto
qed (use assms(3) in simp)

end
