(* ===== verification/Link16_Kept.thy ===== *)
theory Link16_Kept
  imports Link16_Actions
begin

text \<open>
  What is kept of a store over a bridge's life: the channel's memory of a gap, the cap on LIVE
  identities, and the current state as a function of the history. Each is an instance of the
  interface of \<open>Link16_Actions\<close> or \<open>Link16_Invariants\<close>.
\<close>

declare split_paired_All [simp del] split_paired_Ex [simp del]

section \<open>What the operations leave alone\<close>

lemma insert_identity_Inr:
  assumes "insert_identity be fence key f status epoch first_at closed_at record_id d = Inr d'"
  obtains row where "d' = d\<lparr>db_identity := db_identity d @ [row]\<rparr>" "id_status row = status" "id_key row = key"
  using assms unfolding insert_identity_def SQL_IDENTITY_INSERT_def insert_row_def
  by (auto simp: rbind_eq_Inr_iff split: if_splits)

text \<open>An identity row is added under the cap, if any is.\<close>

definition admits :: "nat \<Rightarrow> db \<Rightarrow> db \<Rightarrow> bool" where
  "admits cap d d' \<longleftrightarrow> db_identity d' = db_identity d \<or>
     SQL_IDENTITY_COUNT_LIVE d < cap \<and> (\<exists>row. db_identity d' = db_identity d @ [row])"

lemma resolve_frame:
  assumes "resolve_identity be now fence epoch cap f t d = Inr (dc, d')"
  shows "db_channel d' = db_channel d" "db_observation d' = db_observation d" "db_current d' = db_current d"
    "admits cap d d'" "db_jobs d' = db_jobs d"
proof -
  have "db_channel d' = db_channel d \<and> db_observation d' = db_observation d \<and> db_current d' = db_current d \<and>
      admits cap d d' \<and> db_jobs d' = db_jobs d"
  proof (cases "d' = d")
    case False
    with assms obtain d1 siblings where ins: "insert_identity be fence (key_of f) f ''LIVE'' epoch (Some t) None None d = Inr d1"
      and d': "d' = supersede_below now fence (undec (it_incarnation f)) siblings d1"
      and cap: "\<not> cap \<le> SQL_IDENTITY_COUNT_LIVE d"
      unfolding resolve_identity_def Let_def
      by (auto simp: rbind_eq_Inr_iff split: option.splits if_splits)
    have "quiet d1 d'" unfolding d' by (rule quiet_supersede)
    with ins cap show ?thesis
      by (elim insert_identity_Inr) (auto simp: quiet_def admits_def)
  qed (simp add: admits_def)
  then show "db_channel d' = db_channel d" "db_observation d' = db_observation d" "db_current d' = db_current d"
    "admits cap d d'" "db_jobs d' = db_jobs d" by blast+
qed

lemma rekey_frame:
  assumes "lifecycle_rekey be cfg now fence notice t epoch d = Inr (oc, d')"
  shows "db_channel d' = db_channel d" "db_observation d' = db_observation d" "db_current d' = db_current d"
    "admits (max_identities (bc_limits cfg)) d d'" "db_jobs d' = db_jobs d"
proof -
  have "db_channel d' = db_channel d \<and> db_observation d' = db_observation d \<and> db_current d' = db_current d \<and>
      admits (max_identities (bc_limits cfg)) d d' \<and> db_jobs d' = db_jobs d"
  proof (cases "d' = d")
    case False
    with assms obtain old new record_id reason d1 where
      ins: "(if SQL_IDENTITY_GET (key_of new) d \<noteq> None then Inr d
                else if max_identities (bc_limits cfg) \<le> SQL_IDENTITY_COUNT_LIVE d
                then Inl (CapacityStop ''CAPACITY_IDENTITIES'')
                else insert_identity be fence (key_of new) new ''LIVE'' epoch (Some t) None None d) = Inr d1"
      and d': "d' = publish now fence (event_key record_id 0) ''relation''
                (relation_payload be (key_of old) (key_of new) notice) None []
         (SQL_RELATION_INSERT
               \<lparr>rl_old = key_of old, rl_new = key_of new, rl_notice = record_id,
                rl_effective_at = t, rl_reason = reason, rl_fence = fence\<rparr> d1)"
      unfolding lifecycle_rekey_def Let_def
      by (auto simp: rbind_eq_Inr_iff split: option.splits)
    have "quiet d1 d'" unfolding d' by (rule quiet_trans) (rule quiet_ops)+
    with ins show ?thesis
      by (auto simp: quiet_def admits_def split: if_split_asm elim!: insert_identity_Inr)
  qed (simp add: admits_def)
  then show "db_channel d' = db_channel d" "db_observation d' = db_observation d" "db_current d' = db_current d"
    "admits (max_identities (bc_limits cfg)) d d'" "db_jobs d' = db_jobs d" by blast+
qed

text \<open>What a drop does to an identity row, and to the current row of its key.\<close>

lemma drop_frame:
  assumes "lifecycle_drop be now fence notice t epoch d = Inr (oc, d')"
  obtains key where "db_channel d' = db_channel d" "db_observation d' = db_observation d" "db_jobs d' = db_jobs d"
    "db_current d' = db_current d \<or> db_current d' = db_current (SQL_CURRENT_CLOSE fence key d)"
    "db_identity d' = db_identity d
     \<or> (\<exists>row. db_identity d' = db_identity d @ [row] \<and> id_status row = ''TOMBSTONED'')
     \<or> (\<exists>record_id. db_identity d' = db_identity (SQL_IDENTITY_TOMBSTONE t record_id fence key d))"
proof -
  note flat = counter_add_def publish_def SQL_OUTBOX_INSERT_def SQL_CURRENT_CLOSE_def on_current_def
    SQL_IDENTITY_TOMBSTONE_def
  from assms obtain f record_id where rest: "(case SQL_IDENTITY_GET (key_of f) d of
       None \<Rightarrow>
         rbind (insert_identity be fence (key_of f) f ''TOMBSTONED'' epoch None (Some t)
                  (Some record_id) d) (\<lambda>d.
           Inr (Outcome True None None, counter_add ''source_drop'' 1 d))
     | Some _ \<Rightarrow>
         (let close = (\<lambda>d. Inr (Outcome True None None,
                counter_add ''source_drop'' 1 (SQL_IDENTITY_TOMBSTONE t record_id fence (key_of f) d))) in
          case SQL_CURRENT_GET (key_of f) d of
            None \<Rightarrow> close d
          | Some c \<Rightarrow>
              if t < cu_effective_at c
              then Inr (Outcome False (Some ''LIFECYCLE_CONTRADICTION'') (Some ''effective_at''), d)
              else if cu_contribution c = ''ACTIVE'' then
                rbind (be_closed be (cu_payload c) t) (\<lambda>(payload, schema).
                   close (SQL_CURRENT_CLOSE fence (key_of f)
                     (publish now fence (event_key record_id 0) ''close'' payload (Some schema) [] d)))
              else close d)) = Inr (oc, d')"
    unfolding lifecycle_drop_def Let_def by (auto simp: rbind_eq_Inr_iff)
  show thesis
  proof (cases "SQL_IDENTITY_GET (key_of f) d")
    case None
    with rest show thesis
      by (intro that [of "key_of f"]) (auto simp: rbind_eq_Inr_iff flat elim!: insert_identity_Inr)
  next
    case (Some row)
    then show thesis
    proof (cases "SQL_CURRENT_GET (key_of f) d")
      case None
      with rest Some show thesis
        by (intro that [of "key_of f"]) (auto simp: flat Let_def)
    next
      case (Some c)
      with rest \<open>SQL_IDENTITY_GET (key_of f) d = Some row\<close> show thesis
        by (intro that [of "key_of f"])
          (auto simp: flat Let_def rbind_def split: if_split_asm prod.splits sum.splits)
    qed
  qed
qed

lemma apply_view_quiet:
  assumes "apply_view be now fence key v objects late flags d = Inr (flag, d')"
  obtains payload conflict d1 row where
    "move_current fence key v payload late d = ((flag, conflict), d1)"
    "hs_key row = key" "hs_record row = rv_record v" "hs_effective_at row = rv_effective_at v"
    "hs_sha256 row = rv_digest v" "hs_pos_at row = rv_pos_at v" "hs_kin_at row = rv_kin_at v"
    "hs_late row = (flag = Some ''LATE'')"
    "quiet (d1\<lparr>db_observation := db_observation d1 @ [row]\<rparr>) d'"
proof (rule apply_view_Inr [OF assms])
  fix payload conflict d1 row published
  assume m: "move_current fence key v payload late d = ((flag, conflict), d1)"
    and row: "hs_key row = key" "hs_record row = rv_record v" "hs_effective_at row = rv_effective_at v"
    "hs_sha256 row = rv_digest v" "hs_pos_at row = rv_pos_at v" "hs_kin_at row = rv_kin_at v"
    "hs_late row = (flag = Some ''LATE'')"
    and d': "d' = (if flag = Some ''LATE'' then counter_add ''late'' 1 else id) (counter_add ''accepted'' 1
       (publish_objects now fence (rv_record v) objects published
         (record_sample (be_json be) key v (d1\<lparr>db_observation := db_observation d1 @ [row]\<rparr>))))"
  let ?o = "d1\<lparr>db_observation := db_observation d1 @ [row]\<rparr>"
  let ?p = "publish_objects now fence (rv_record v) objects published (record_sample (be_json be) key v ?o)"
  have "quiet ?o ?p" by (rule quiet_trans [OF quiet_sample quiet_publish_objects])
  moreover have "quiet ?p d'" unfolding d' by (simp add: quiet_def counter_add_def)
  ultimately show thesis by (intro that [OF m row]) (rule quiet_trans)
qed

lemma move_frame:
  assumes "move_current fence key v payload late d = (fc, d')"
  shows "db_channel d' = db_channel d" "db_identity d' = db_identity d" "db_observation d' = db_observation d"
    "db_jobs d' = db_jobs d"
  using assms unfolding move_current_def put_current_def SQL_CURRENT_PUT_def SQL_CONFLICT_INSERT_def
    SQL_CURRENT_CONFLICT_def on_current_def
  by (auto split: option.splits if_splits)

lemma apply_frame:
  assumes "apply_view be now fence key v objects late flags d = Inr (flag, d')"
  shows "db_channel d' = db_channel d" "db_identity d' = db_identity d" "db_jobs d' = db_jobs d"
  using assms by (auto elim!: apply_view_quiet simp: quiet_def dest: move_frame)

lemma admit_tuple_frame:
  assumes "admit_tuple ii fence key epoch bodies d = Inr d'"
  shows "db_channel d' = db_channel d" "db_observation d' = db_observation d" "db_current d' = db_current d"
    "db_jobs d' = db_jobs d"
proof -
  from assms obtain d1 scope where
    1: "(if SQL_IDENTITY_GET key d \<noteq> None then Inr d
            else if max_identities (bc_limits (ii_config ii)) \<le> SQL_IDENTITY_COUNT_LIVE d
            then Inl (OperatorRefusal ''the identity cap is reached'')
            else rbind (times_of bodies) (\<lambda>ts.
              insert_identity (ii_env ii) fence key (be_fields_of (ii_env ii) key) ''LIVE'' epoch (earliest ts)
                None None d)) = Inr d1"
    and 2: "SQL_IDENTITY_STATUS ''LIVE'' ''continue'' scope fence key d1 = Inr d'"
    unfolding admit_tuple_def Let_def by (auto simp: rbind_eq_Inr_iff)
  from 2 have "db_channel d' = db_channel d1 \<and> db_observation d' = db_observation d1 \<and>
      db_current d' = db_current d1 \<and> db_jobs d' = db_jobs d1"
    unfolding SQL_IDENTITY_STATUS_def by (auto split: if_split_asm)
  moreover from 1 have "db_channel d1 = db_channel d \<and> db_observation d1 = db_observation d \<and>
      db_current d1 = db_current d \<and> db_jobs d1 = db_jobs d"
    by (cases "SQL_IDENTITY_GET key d \<noteq> None")
      (auto simp: rbind_eq_Inr_iff split: if_split_asm elim!: insert_identity_Inr)
  ultimately show "db_channel d' = db_channel d" "db_observation d' = db_observation d"
    "db_current d' = db_current d" "db_jobs d' = db_jobs d" by simp_all
qed

section \<open>The channel's memory of a gap\<close>

text \<open>A predicate of the channel row that every channel statement but \<open>SQL_CHANNEL_RECOVER\<close> keeps.\<close>

locale channel_invariant =
  fixes J :: "channel_row \<Rightarrow> bool"
  assumes J_cursor: "J c \<Longrightarrow> J (SQL_CHANNEL_CURSOR cursor session fence c)"
    and J_acked: "J c \<Longrightarrow> J (SQL_CHANNEL_ACKED acked_cursor fence c)"
    and J_state: "J c \<Longrightarrow> J (SQL_CHANNEL_STATE OVERLOADED code fence c)"
    and J_settle: "J c \<Longrightarrow> J (SQL_CHANNEL_SETTLE fence c)"
    and J_stop: "J c \<Longrightarrow> J (SQL_CHANNEL_STOP code revision fence c)"
    and J_degrade: "J c \<Longrightarrow> J (SQL_CHANNEL_DEGRADE fence c)"
    and J_expired: "J c \<Longrightarrow> J (SQL_CHANNEL_EXPIRED acked_cursor fence c)"
    and J_resync: "J c \<Longrightarrow> J (SQL_CHANNEL_RESYNC acked_cursor fence c)"
    and J_epoch: "J c \<Longrightarrow> J (SQL_CHANNEL_EPOCH fence c)"
    and J_gap: "J c \<Longrightarrow> J (SQL_CHANNEL_GAP code gap_from gap_to fence c)"
    and J_retry: "J c \<Longrightarrow> J (SQL_CHANNEL_RETRY sha count fence c)"

lemma channel_of [simp]: "db_channel (on_channel f d) = f (db_channel d)"
  by (simp add: on_channel_def)

lemma channel_kept:
  "db_channel (SQL_CURRENT_FRESHNESS main motion fence key d) = db_channel d"
  "db_channel (SQL_IDENTITY_EPOCH_RESET fence epoch d) = db_channel d"
  "db_channel (SQL_IDENTITY_EPOCH_KEEP epoch fence below d) = db_channel d"
  by (simp_all add: SQL_CURRENT_FRESHNESS_def on_current_def SQL_IDENTITY_EPOCH_RESET_def
      SQL_IDENTITY_EPOCH_KEEP_def)

lemma drop_channel: "lifecycle_drop be now fence notice t epoch d = Inr (oc, d') \<Longrightarrow> db_channel d' = db_channel d"
  by (erule drop_frame)

sublocale channel_invariant \<subseteq> store_invariant "\<lambda>d. J (db_channel d)" ii for ii
  by unfold_locales
    (simp_all add: channel_kept J_cursor J_acked J_state J_settle J_stop J_degrade J_expired J_resync J_epoch
      J_gap J_retry resolve_frame(1) rekey_frame(1) apply_frame(1) drop_channel
      quiet_def)

definition channel_sound :: "channel_row \<Rightarrow> bool" where
  "channel_sound c \<longleftrightarrow> (ch_state c = NORMAL \<longrightarrow> ch_incomplete c = None)"

definition gap_open :: "string \<Rightarrow> channel_row \<Rightarrow> bool" where
  "gap_open code c \<longleftrightarrow> ch_incomplete c = Some code \<and> ch_state c \<noteq> NORMAL"

lemmas channel_statements = SQL_CHANNEL_CURSOR_def SQL_CHANNEL_ACKED_def SQL_CHANNEL_STATE_def
  SQL_CHANNEL_SETTLE_def SQL_CHANNEL_STOP_def SQL_CHANNEL_DEGRADE_def SQL_CHANNEL_EXPIRED_def
  SQL_CHANNEL_RESYNC_def SQL_CHANNEL_EPOCH_def SQL_CHANNEL_GAP_def SQL_CHANNEL_RETRY_def coalesce_def

interpretation sound: channel_invariant channel_sound
  by unfold_locales (auto simp: channel_sound_def channel_statements split: if_splits option.splits)

interpretation gap: channel_invariant "gap_open code" for code
  by unfold_locales (auto simp: gap_open_def channel_statements split: if_splits option.splits)

lemma gap_admission: "continues_in ii (\<lambda>d. J (db_channel d))"
  by (auto simp: continues_in_def dest: admit_tuple_frame(1))

lemma sound_recovery: "recovers_in (\<lambda>d. channel_sound (db_channel d))"
  by (auto simp: recovers_in_def channel_sound_def SQL_CHANNEL_RECOVER_def Let_def split: if_splits)

text \<open>
  C30. A gap is never forgotten. Once a bridge that began on an empty store has recorded a cause of
  incompleteness, be it a \<open>GAP\<close> notice, a missing sequence number or an expired cursor, then
  through any further starts, passes and operator's records other than \<open>recover\<close>, whatever the
  gateway answers and whatever faults strike, the same cause stays on record, the channel does
  not return to NORMAL and health reports the bridge as incomplete and not ready.
\<close>

theorem gap_persists:
  assumes "br_db s = empty_db"
    and "ch_incomplete (db_channel (br_db (acts ii blank xs s))) = Some code"
    and "\<forall>y \<in> set ys. \<not> is_Recover (snd y)"
  shows "ch_incomplete (db_channel (br_db (acts ii blank (xs @ ys) s))) = Some code \<and>
         ch_state (db_channel (br_db (acts ii blank (xs @ ys) s))) \<noteq> NORMAL \<and>
         ''CHANNEL_INCOMPLETE'' \<in> set (health_reasons (acts ii blank (xs @ ys) s)) \<and>
         \<not> health_ready (acts ii blank (xs @ ys) s)"
proof -
  let ?s = "acts ii blank xs s" and ?t = "acts ii blank (xs @ ys) s"
  have t: "?t = acts ii blank ys ?s" by (simp add: acts_def)
  have "channel_sound (db_channel (br_db ?s))"
    by (rule sound.acts_I [OF _ sound_recovery sound.reuses_I [OF gap_admission]])
      (simp add: assms(1) empty_db_def channel_sound_def SQL_CHANNEL_INIT_def)
  with assms(2) have "gap_open code (db_channel (br_db ?s))"
    by (auto simp: channel_sound_def gap_open_def)
  then have "gap_open code (db_channel (br_db ?t))"
    unfolding t by (rule gap.acts_I) (use assms(3) gap.reuses_I [OF gap_admission] in auto)
  then have kept: "ch_incomplete (db_channel (br_db ?t)) = Some code" "ch_state (db_channel (br_db ?t)) \<noteq> NORMAL"
    by (auto simp: gap_open_def)
  then have reason: "''CHANNEL_INCOMPLETE'' \<in> set (health_reasons ?t)"
    by (simp add: health_reasons_def Let_def)
  then have "\<not> health_ready ?t" by (auto simp: health_ready_def UNREADY_def)
  with kept reason show ?thesis by blast
qed

section \<open>The cap on LIVE identities\<close>

definition identity_capped :: "ingestor \<Rightarrow> db \<Rightarrow> bool" where
  "identity_capped ii d \<longleftrightarrow> SQL_IDENTITY_COUNT_LIVE d \<le> max_identities (bc_limits (ii_config ii))"

lemma live_update_where:
  assumes "\<And>r. p r \<Longrightarrow> id_status (f r) = ''LIVE'' \<Longrightarrow> id_status r = ''LIVE''"
  shows "length (filter (\<lambda>r. id_status r = ''LIVE'') (update_where p f rows))
       \<le> length (filter (\<lambda>r. id_status r = ''LIVE'') rows)"
  using assms by (induction rows) (auto simp: update_where_def)

lemma live_rows_update:
  assumes "\<And>r. p r \<Longrightarrow> id_status (f r) = ''LIVE'' \<Longrightarrow> id_status r = ''LIVE''"
  shows "SQL_IDENTITY_COUNT_LIVE (d\<lparr>db_identity := update_where p f (db_identity d)\<rparr>) \<le> SQL_IDENTITY_COUNT_LIVE d"
  using live_update_where [of p f "db_identity d"] assms by (simp add: SQL_IDENTITY_COUNT_LIVE_def)

lemma admits_capped:
  "admits (max_identities (bc_limits (ii_config ii))) d d' \<Longrightarrow> identity_capped ii d \<Longrightarrow> identity_capped ii d'"
  by (auto simp: admits_def identity_capped_def SQL_IDENTITY_COUNT_LIVE_def)

lemma drop_capped:
  assumes "lifecycle_drop be now fence notice t epoch d = Inr (oc, d')" and "identity_capped ii d"
  shows "identity_capped ii d'"
  using assms(1)
proof (rule drop_frame)
  fix key
  have "SQL_IDENTITY_COUNT_LIVE (SQL_IDENTITY_TOMBSTONE t record_id fence key d) \<le> SQL_IDENTITY_COUNT_LIVE d"
    for record_id
    unfolding SQL_IDENTITY_TOMBSTONE_def by (rule live_rows_update) simp
  then have tomb: "identity_capped ii (SQL_IDENTITY_TOMBSTONE t record_id fence key d)" for record_id
    using assms(2) le_trans unfolding identity_capped_def by blast
  assume "db_identity d' = db_identity d
     \<or> (\<exists>row. db_identity d' = db_identity d @ [row] \<and> id_status row = ''TOMBSTONED'')
     \<or> (\<exists>record_id. db_identity d' = db_identity (SQL_IDENTITY_TOMBSTONE t record_id fence key d))"
  with assms(2) tomb show ?thesis
    by (auto simp: identity_capped_def SQL_IDENTITY_COUNT_LIVE_def)
qed

lemma capped_same: "db_identity d' = db_identity d \<Longrightarrow> identity_capped ii d' = identity_capped ii d"
  by (simp add: identity_capped_def SQL_IDENTITY_COUNT_LIVE_def)

lemma epoch_capped:
  "identity_capped ii d \<Longrightarrow> identity_capped ii (SQL_IDENTITY_EPOCH_RESET fence epoch d)"
  "identity_capped ii d \<Longrightarrow> identity_capped ii (SQL_IDENTITY_EPOCH_KEEP epoch fence below d)"
  unfolding identity_capped_def SQL_IDENTITY_EPOCH_RESET_def SQL_IDENTITY_EPOCH_KEEP_def
  by (erule le_trans [OF live_rows_update, rotated]; simp)+

interpretation cap: store_invariant "identity_capped ii" ii for ii
proof unfold_locales
  show "identity_capped ii d'" if "identity_capped ii d" "quiet d d'" for d d'
    using that capped_same [of d' d ii] by (simp add: quiet_def)
next
  show "identity_capped ii d'" if "identity_capped ii d"
    "resolve_identity (ii_env ii) now fence epoch (max_identities (bc_limits (ii_config ii))) f t d = Inr (dc, d')"
    for d now fence epoch f t dc d' using that by (blast intro: admits_capped resolve_frame(4))
next
  show "identity_capped ii d'" if "identity_capped ii d"
    "lifecycle_rekey (ii_env ii) (ii_config ii) now fence notice t epoch d = Inr (oc, d')"
    for d now fence notice t epoch oc d' using that by (blast intro: admits_capped rekey_frame(4))
next
  show "identity_capped ii d'" if "identity_capped ii d"
    "apply_view (ii_env ii) now fence key v objects late flags d = Inr (flag, d')"
    for d now fence key v objects late flags flag d' using that capped_same apply_frame(2) by metis
next
  show "identity_capped ii d'" if "identity_capped ii d"
    "lifecycle_drop (ii_env ii) now fence notice t epoch d = Inr (oc, d')"
    for d now fence notice t epoch oc d' using that by (blast intro: drop_capped)
qed (simp_all add: epoch_capped, simp_all add: identity_capped_def SQL_IDENTITY_COUNT_LIVE_def on_channel_def
      SQL_CURRENT_FRESHNESS_def on_current_def)

text \<open>
  C31. The identity cap holds. Whatever arrives, a store never has more LIVE identities than the
  configured maximum, through starts, passes and every operator's record but \<open>resolve_reuse\<close>, whose
  \<open>continue\<close> may revive a closed identity.
\<close>

theorem live_identities_capped:
  assumes "SQL_IDENTITY_COUNT_LIVE (br_db s) \<le> max_identities (bc_limits (ii_config ii))"
    and "\<forall>x \<in> set xs. \<not> is_ResolveReuse (snd x)"
  shows "SQL_IDENTITY_COUNT_LIVE (br_db (acts ii blank xs s)) \<le> max_identities (bc_limits (ii_config ii))"
proof -
  have "recovers_in (identity_capped ii)" by (simp add: recovers_in_def identity_capped_def SQL_IDENTITY_COUNT_LIVE_def on_channel_def)
  then have "identity_capped ii (br_db (acts ii blank xs s))"
    by (intro cap.acts_I) (use assms in \<open>auto simp: identity_capped_def\<close>)
  then show ?thesis by (simp add: identity_capped_def)
qed

end
