(* ===== verification/Link16_Exports.thy ===== *)
theory Link16_Exports
  imports Link16_Jobs Link16_Kept
begin

text \<open>
  Every method of the exporting bridge is a run of the job machine of \<^verbatim>\<open>Link16_Jobs\<close>. A method is
  reasoned about by what it ensures of the outbox: from a state with \<open>P\<close> it returns with \<open>Q\<close> or raises
  with \<open>E\<close>.
\<close>

declare split_paired_All [simp del] split_paired_Ex [simp del]

section \<open>What a method ensures\<close>

definition ensures ::
    "(outbox \<Rightarrow> bool) \<Rightarrow> 'a export_meth \<Rightarrow> ('a \<Rightarrow> outbox \<Rightarrow> bool) \<Rightarrow> (outbox \<Rightarrow> bool) \<Rightarrow> bool" where
  "ensures P m Q E \<longleftrightarrow> (\<forall>x. P (outbox_of x) \<longrightarrow>
     (case m x of (Inr a, y) \<Rightarrow> Q a (outbox_of y) | (Inl e, y) \<Rightarrow> E (outbox_of y)))"

named_theorems ensures_rules \<open>methods that leave the outbox alone, and their composition\<close>

lemma ensuresI:
  assumes "\<And>x r y. m x = (r, y) \<Longrightarrow> P (outbox_of x) \<Longrightarrow>
    (case r of Inr a \<Rightarrow> Q a (outbox_of y) | Inl e \<Rightarrow> E (outbox_of y))"
  shows "ensures P m Q E"
  unfolding ensures_def
proof (intro allI impI)
  fix x assume P: "P (outbox_of x)"
  obtain r y where m: "m x = (r, y)" by (cases "m x")
  show "case m x of (Inr a, y) \<Rightarrow> Q a (outbox_of y) | (Inl e, y) \<Rightarrow> E (outbox_of y)"
    using assms [OF m P] m by (simp split: sum.splits)
qed

lemma ensuresD:
  "ensures P m Q E \<Longrightarrow> m x = (r, y) \<Longrightarrow> P (outbox_of x) \<Longrightarrow>
   (case r of Inr a \<Rightarrow> Q a (outbox_of y) | Inl e \<Rightarrow> E (outbox_of y))"
  unfolding ensures_def by (auto split: sum.splits)

lemma ensures_exact: "(\<And>v. P v \<Longrightarrow> ensures (\<lambda>w. w = v) m Q E) \<Longrightarrow> ensures P m Q E"
  unfolding ensures_def by simp

lemma ensures_weaken:
  "ensures P m Q E \<Longrightarrow> (\<And>v. P' v \<Longrightarrow> P v) \<Longrightarrow> (\<And>a v. Q a v \<Longrightarrow> Q' a v) \<Longrightarrow> (\<And>v. E v \<Longrightarrow> E' v) \<Longrightarrow>
   ensures P' m Q' E'"
proof (rule ensuresI)
  fix x r y
  assume e: "ensures P m Q E" and w: "\<And>v. P' v \<Longrightarrow> P v" "\<And>a v. Q a v \<Longrightarrow> Q' a v" "\<And>v. E v \<Longrightarrow> E' v"
    and m: "m x = (r, y)" and "P' (outbox_of x)"
  then have "case r of Inr a \<Rightarrow> Q a (outbox_of y) | Inl e \<Rightarrow> E (outbox_of y)" using ensuresD [OF e m] by blast
  then show "case r of Inr a \<Rightarrow> Q' a (outbox_of y) | Inl e \<Rightarrow> E' (outbox_of y)"
    using w(2,3) by (cases r) simp_all
qed

lemma ensures_mbind [ensures_rules]:
  assumes "ensures P m R E" and "\<And>a. ensures (R a) (f a) Q E"
  shows "ensures P (mbind m f) Q E"
proof (rule ensuresI)
  fix x r z assume m: "mbind m f x = (r, z)" and P: "P (outbox_of x)"
  obtain c y where c: "m x = (c, y)" by (cases "m x")
  show "case r of Inr a \<Rightarrow> Q a (outbox_of z) | Inl e \<Rightarrow> E (outbox_of z)"
  proof (cases c)
    case (Inl e)
    with m c have "r = Inl e" "z = y" by (simp_all add: mbind_def)
    with Inl ensuresD [OF assms(1) c P] show ?thesis by simp
  next
    case (Inr a)
    with m c have fa: "f a y = (r, z)" by (simp add: mbind_def)
    from Inr ensuresD [OF assms(1) c P] have "R a (outbox_of y)" by simp
    then show ?thesis by (rule ensuresD [OF assms(2) fa])
  qed
qed

lemma ensures_handle:
  assumes "ensures P m Q R" and "\<And>e. ensures R (h e) Q E"
  shows "ensures P (handle m h) Q E"
proof (rule ensuresI)
  fix x r z assume m: "handle m h x = (r, z)" and P: "P (outbox_of x)"
  obtain c y where c: "m x = (c, y)" by (cases "m x")
  show "case r of Inr a \<Rightarrow> Q a (outbox_of z) | Inl e \<Rightarrow> E (outbox_of z)"
  proof (cases c)
    case (Inl e)
    with m c have he: "h e y = (r, z)" by (simp add: handle_def)
    from Inl ensuresD [OF assms(1) c P] have "R (outbox_of y)" by simp
    then show ?thesis by (rule ensuresD [OF assms(2) he])
  next
    case (Inr a)
    with m c have "r = Inr a" "z = y" by (simp_all add: handle_def)
    with Inr ensuresD [OF assms(1) c P] show ?thesis by simp
  qed
qed

lemma ensures_look [ensures_rules]: "(\<And>x. ensures P (f x) Q E) \<Longrightarrow> ensures P (look f) Q E"
  by (rule ensuresI) (auto simp: look_def dest: ensuresD)

lemma ensures_look_exact:
  "(\<And>x. outbox_of x = v \<Longrightarrow> ensures (\<lambda>w. w = v) (f x) Q E) \<Longrightarrow> ensures (\<lambda>w. w = v) (look f) Q E"
  by (rule ensuresI) (auto simp: look_def dest: ensuresD)

lemma ensures_ret: "(\<And>v. P v \<Longrightarrow> Q a v) \<Longrightarrow> ensures P (ret a) Q E"
  by (simp add: ensures_def ret_def)

lemma ensures_raising: "(\<And>v. P v \<Longrightarrow> E v) \<Longrightarrow> ensures P (raising e) Q E"
  by (simp add: ensures_def raising_def)

lemma ensures_ret_same [ensures_rules]: "ensures P (ret a) (\<lambda>_. P) E"
  by (rule ensures_ret)

lemma ensures_raising_same [ensures_rules]: "ensures P (raising e) Q P"
  by (rule ensures_raising)

lemma ensures_then_ret: "ensures P m (\<lambda>_. Q) E \<Longrightarrow> ensures P (mbind m (\<lambda>a. ret (g a))) (\<lambda>_. Q) E"
  by (rule ensures_mbind) (auto intro: ensures_ret)

lemma ensures_from_sum [ensures_rules]: "ensures P (from_sum r) (\<lambda>_. P) P"
  by (simp add: ensures_def from_sum_def split: sum.split)

lemma ensures_at_tick [ensures_rules]: "ensures P (at_tick f) (\<lambda>_. P) E"
  by (simp add: ensures_def at_tick_def outbox_of_def)

lemma ensures_reading [ensures_rules]: "ensures P (reading xs) (\<lambda>_. P) E"
  unfolding reading_def by (rule ensures_at_tick)

lemma ensures_drawn [ensures_rules]: "ensures P (drawn xs) (\<lambda>_. P) E"
  unfolding drawn_def by (rule ensures_at_tick)

lemma ensures_hit [ensures_rules]: "ensures P (hit xs point) (\<lambda>_. P) P"
  unfolding hit_def by (auto intro: ensures_rules)

lemma ensures_set_state: "(\<And>x. outbox_of (f x) = outbox_of x) \<Longrightarrow> ensures P (set_state f) (\<lambda>_. P) E"
  by (simp add: ensures_def set_state_def)

lemma ensures_next_sequence [ensures_rules]: "ensures P next_sequence (\<lambda>_. P) E"
  unfolding next_sequence_def by (rule ensures_set_state) (simp add: outbox_of_def)

text \<open>A transaction commits what its body makes of the jobs, or leaves the outbox as it was.\<close>

lemma ensures_xtxn:
  assumes "\<And>fence now d a d' v. P v \<Longrightarrow> body fence now d = Inr (a, d') \<Longrightarrow> ob_jobs v = db_jobs d \<Longrightarrow>
    Q a (v\<lparr>ob_jobs := db_jobs d'\<rparr>)" and "\<And>v. P v \<Longrightarrow> E v"
  shows "ensures P (xtxn xs body) Q E"
proof (rule ensuresI)
  fix x r y assume m: "xtxn xs body x = (r, y)" and P: "P (outbox_of x)"
  obtain c p d where t: "transaction (xs_faults xs (xp_tick x)) (xs_clock xs (xp_tick x)) True (br_proc (xp_bridge x))
      (xp_db x) (body (pr_store_fence (br_proc (xp_bridge x))) (xs_clock xs (Suc (xp_tick x)))) = (c, p, d)"
    by (metis prod_cases3)
  with m have y: "r = c" "outbox_of y = (outbox_of x)\<lparr>ob_jobs := db_jobs d\<rparr>"
    by (auto simp: xtxn_def Let_def outbox_of_def)
  show "case r of Inr a \<Rightarrow> Q a (outbox_of y) | Inl e \<Rightarrow> E (outbox_of y)"
    using t
  proof (cases rule: transaction_cases)
    case (committed a)
    with y assms(1) [OF P committed(2)] show ?thesis by (simp add: outbox_of_def)
  next
    case (raised e)
    with y have "outbox_of y = outbox_of x" by (simp add: outbox_of_def)
    with raised(1) y assms(2) [OF P] show ?thesis by simp
  qed
qed

lemma ensures_quiet_txn:
  assumes "\<And>fence now d a d'. body fence now d = Inr (a, d') \<Longrightarrow> db_jobs d' = db_jobs d"
  shows "ensures P (xtxn xs body) (\<lambda>_. P) P"
proof (rule ensures_xtxn)
  fix fence now d a d' v
  assume P: "P v" and b: "body fence now d = Inr (a, d')" and "ob_jobs v = db_jobs d"
  then have "v\<lparr>ob_jobs := db_jobs d'\<rparr> = v" using assms [OF b] by simp
  with P show "P (v\<lparr>ob_jobs := db_jobs d'\<rparr>)" by simp
qed

section \<open>Runs that touch one job\<close>

definition elsewhere :: "pytext \<Rightarrow> outbox \<Rightarrow> job_row list" where
  "elsewhere r v = filter (\<lambda>j. jb_request j \<noteq> r) (ob_jobs v)"

definition confined :: "pytext \<Rightarrow> outbox \<Rightarrow> outbox \<Rightarrow> bool" where
  "confined r v w \<longleftrightarrow> job_step\<^sup>*\<^sup>* v w \<and> elsewhere r w = elsewhere r v"

definition standing :: "pytext \<Rightarrow> job_state \<Rightarrow> outbox \<Rightarrow> bool" where
  "standing r st v \<longleftrightarrow> (\<forall>j \<in> set (ob_jobs v). jb_request j = r \<longrightarrow> jb_state j = st)"

lemma confined_refl [simp]: "confined r v v"
  by (simp add: confined_def)

lemma confined_trans: "confined r u v \<Longrightarrow> confined r v w \<Longrightarrow> confined r u w"
  by (auto simp: confined_def)

lemma confined_steps: "confined r v w \<Longrightarrow> job_step\<^sup>*\<^sup>* v w"
  by (simp add: confined_def)

lemma confined_standing:
  assumes "confined r v w" and "q \<noteq> r" and "standing q st v"
  shows "standing q st w"
  unfolding standing_def
proof (intro ballI impI)
  fix j assume "j \<in> set (ob_jobs w)" "jb_request j = q"
  then have "j \<in> set (elsewhere r w)" using assms(2) by (simp add: elsewhere_def)
  then have "j \<in> set (elsewhere r v)" using assms(1) by (simp add: confined_def)
  then show "jb_state j = st" using assms(3) \<open>jb_request j = q\<close> by (auto simp: elsewhere_def standing_def)
qed

lemma elsewhere_update:
  assumes "\<And>j. jb_request (f j) = jb_request j"
  shows "filter (\<lambda>j. jb_request j \<noteq> r) (update_where (\<lambda>j. jb_request j = r) f js)
       = filter (\<lambda>j. jb_request j \<noteq> r) js"
  using assms by (induction js) (simp_all add: update_where_def)

lemma confined_update:
  assumes "\<And>j. jb_request (f j) = jb_request j"
    and "\<And>j. j \<in> set (ob_jobs v) \<Longrightarrow> jb_request j = r \<Longrightarrow> job_change j (f j)"
  shows "confined r v (v\<lparr>ob_jobs := update_where (\<lambda>j. jb_request j = r) f (ob_jobs v)\<rparr>)"
  using job_step.changed [of v r f, OF assms(2)] elsewhere_update [of f r "ob_jobs v"] assms(1)
  by (auto simp: confined_def elsewhere_def)

lemma confined_filed:
  "jb_request j = r \<Longrightarrow> job_step v (v\<lparr>ob_jobs := ob_jobs v @ [j]\<rparr>) \<Longrightarrow> confined r v (v\<lparr>ob_jobs := ob_jobs v @ [j]\<rparr>)"
  by (auto simp: confined_def elsewhere_def)

lemma jobs_of_statement [simp]:
  "db_jobs (audit_record now fence revision kind subject cd result raw_ref d) = db_jobs d"
  "db_jobs (counter_add name n d) = db_jobs d"
  "db_jobs (SQL_ALLOCATION_PUT peer_id realm source row d) = db_jobs d"
  by (simp_all add: audit_record_def SQL_AUDIT_INSERT_def counter_add_def SQL_ALLOCATION_PUT_def)

text \<open>A transaction that records a state of one job.\<close>

lemma ensures_record:
  assumes body: "\<And>fence now d a d'. body fence now d = Inr (a, d') \<Longrightarrow>
      \<exists>reason. db_jobs d' = db_jobs (SQL_JOB_STATE st reason now fence r d)"
    and before: "\<And>v. P v \<Longrightarrow> confined r u v \<and> standing r from v" and step: "st \<in> becomes from"
  shows "ensures P (xtxn xs body) (\<lambda>_. confined r u) (confined r u)"
proof (rule ensures_xtxn)
  fix fence now d a d' v
  assume P: "P v" and b: "body fence now d = Inr (a, d')" and v: "ob_jobs v = db_jobs d"
  from body [OF b] obtain reason where
    d': "db_jobs d' = update_where (\<lambda>j. jb_request j = r)
       (\<lambda>j. j\<lparr>jb_state := st, jb_reason := reason, jb_changed_at := now, jb_in_flight := False, jb_fence := fence\<rparr>)
       (ob_jobs v)"
    by (auto simp: SQL_JOB_STATE_def v)
  have "confined r v (v\<lparr>ob_jobs := db_jobs d'\<rparr>)"
    unfolding d' using before [OF P] step
    by (intro confined_update) (auto simp: standing_def intro: job_change.recorded)
  then show "confined r u (v\<lparr>ob_jobs := db_jobs d'\<rparr>)"
    using before [OF P] confined_trans by blast
qed (use before in blast)

lemma ensures_set_job:
  assumes "\<And>v. P v \<Longrightarrow> confined r u v \<and> standing r from v" and "st \<in> becomes from"
  shows "ensures P (set_job ii xs r st reason audit code) (\<lambda>_. confined r u) (confined r u)"
  unfolding set_job_def by (rule ensures_record [OF _ assms]) auto

lemma ensures_settle:
  assumes "\<And>v. P v \<Longrightarrow> confined r u v \<and> standing r from v" and "st \<in> becomes from"
  shows "ensures P (settle ii xs r st reason audit code) (\<lambda>_. confined r u) (confined r u)"
  unfolding settle_def by (rule ensures_mbind [OF ensures_set_job [OF assms] ensures_ret_same])

section \<open>Sending\<close>

lemma answered_state_answers: "answered_state d \<in> ANSWERS"
  by (simp add: answered_state_def ANSWERS_def)

abbreviation sending :: "pytext \<Rightarrow> outbox \<Rightarrow> outbox \<Rightarrow> bool" where
  "sending r u v \<equiv> confined r u v \<and> standing r PENDING v"

lemma ensures_unknown:
  "ensures (sending r u) (unknown_outcome ii xs r) (\<lambda>_. confined r u) (confined r u)"
proof -
  have "ensures (sending r u) (hit xs ''egress.after_send_before_record'') (\<lambda>_. sending r u) (confined r u)"
    by (rule ensures_weaken [OF ensures_hit [of "sending r u"]]) auto
  moreover have "ensures (sending r u) (xtxn xs (\<lambda>fence now d. Inr ((),
        audited ii now fence ''transmission'' r (Some (asc ''SEND_OUTCOME_UNKNOWN'')) (Some ''UNKNOWN'')
          (counter_add ''unknown_send_outcome'' 1
             (SQL_JOB_STATE UNKNOWN (Some (asc ''SEND_OUTCOME_UNKNOWN'')) now fence r d)))))
       (\<lambda>_. confined r u) (confined r u)"
    by (rule ensures_record [of _ UNKNOWN _ _ _ PENDING]) (auto simp: ANSWERS_def)
  ultimately show ?thesis
    unfolding unknown_outcome_def by (intro ensures_mbind [where R = "\<lambda>_. sending r u"] ensures_then_ret)
qed

lemma ensures_answer:
  "ensures (sending r u) (record_answer ii xs r status) (\<lambda>_. confined r u) (confined r u)"
proof -
  have "ensures (sending r u) (hit xs ''egress.after_send_before_record'') (\<lambda>_. sending r u) (confined r u)"
    by (rule ensures_weaken [OF ensures_hit [of "sending r u"]]) auto
  then show ?thesis
    unfolding record_answer_def Let_def
    by (intro ensures_mbind [where R = "\<lambda>_. sending r u"] ensures_then_ret
        ensures_record [of _ "answered_state status" _ _ _ PENDING]) (auto simp: answered_state_answers)
qed

lemma ensures_outcome:
  "ensures (sending r u) (record_outcome ii xs r answer) (\<lambda>_. confined r u) (confined r u)"
proof -
  have s: "ensures (sending r u) (settle ii xs r st reason audit code) (\<lambda>_. confined r u) (confined r u)"
    if "st \<in> {PENDING, REJECTED, EXPIRED}" for st reason audit code
    by (rule ensures_settle [of _ _ _ PENDING]) (use that in \<open>auto simp: ANSWERS_def\<close>)
  show ?thesis
  proof (cases answer)
    case (Inr status)
    then show ?thesis by (simp add: record_outcome_def ensures_answer)
  next
    case (Inl e)
    show ?thesis
    proof (cases e)
      case (GatewayError kind code retryable oldest)
      with Inl show ?thesis by (cases kind) (simp_all add: record_outcome_def s)
    qed (use Inl in \<open>simp_all add: record_outcome_def s ensures_unknown\<close>)
  qed
qed

definition arm :: "int \<Rightarrow> int \<Rightarrow> job_row \<Rightarrow> job_row" where
  "arm now fence j = j\<lparr>jb_in_flight := True, jb_attempts := Suc (jb_attempts j), jb_changed_at := now, jb_fence := fence\<rparr>"

definition armed_outbox :: "pytext \<Rightarrow> int \<Rightarrow> int \<Rightarrow> outbox \<Rightarrow> outbox" where
  "armed_outbox r now fence v = v\<lparr>ob_jobs := update_where (\<lambda>j. jb_request j = r) (arm now fence) (ob_jobs v)\<rparr>"

lemma arm_eta: "arm now fence = (\<lambda>j. j\<lparr>jb_in_flight := True, jb_attempts := Suc (jb_attempts j),
    jb_changed_at := now, jb_fence := fence\<rparr>)"
  by (simp add: fun_eq_iff arm_def)

lemma armed_confined: "standing r PENDING v \<Longrightarrow> confined r v (armed_outbox r now fence v)"
  unfolding armed_outbox_def
  by (rule confined_update) (auto simp: arm_def standing_def intro: job_change.armed)

lemma ensures_before_post:
  assumes "standing r PENDING u"
  shows "ensures (\<lambda>v. v = u) (before_post ii xs r job)
    (\<lambda>early v. case early of Inl _ \<Rightarrow> confined r u v
       | Inr now \<Rightarrow> (\<exists>t. jb_expires_at job = Some t \<and> now < t) \<and> (\<exists>a fence. v = armed_outbox r a fence u))
    (confined r u)" (is "ensures _ _ ?Q _")
proof -
  have settled: "ensures (\<lambda>v. v = u) (mbind (settle ii xs r EXPIRED reason audit code) (\<lambda>x. ret (Inl x))) ?Q (confined r u)"
    for reason audit code
    by (rule ensures_mbind [OF ensures_settle [of _ _ u PENDING]])
      (use assms in \<open>auto simp: ANSWERS_def intro: ensures_ret\<close>)
  have arming: "ensures (\<lambda>v. v = u) (mbind (xtxn xs (\<lambda>fence now_at d. Inr ((), SQL_JOB_INFLIGHT now_at fence r d)))
        (\<lambda>_. ret (Inr now))) ?Q (confined r u)" if "jb_expires_at job = Some t" "now < t" for t now
  proof (rule ensures_mbind)
    show "ensures (\<lambda>v. v = u) (xtxn xs (\<lambda>fence now_at d. Inr ((), SQL_JOB_INFLIGHT now_at fence r d)))
        (\<lambda>_ v. \<exists>a fence. v = armed_outbox r a fence u) (confined r u)"
    proof (rule ensures_xtxn)
      fix fence at_now d a d' v
      assume "v = u" "Inr ((), SQL_JOB_INFLIGHT at_now fence r d) = (Inr (a, d') :: exn + unit \<times> db)" "ob_jobs v = db_jobs d"
      then have "v\<lparr>ob_jobs := db_jobs d'\<rparr> = armed_outbox r at_now fence u"
        by (auto simp: SQL_JOB_INFLIGHT_def armed_outbox_def arm_eta)
      then show "\<exists>a fence. v\<lparr>ob_jobs := db_jobs d'\<rparr> = armed_outbox r a fence u" by blast
    qed simp
    show "ensures (\<lambda>v. \<exists>a fence. v = armed_outbox r a fence u) (ret (Inr now)) ?Q (confined r u)"
      by (rule ensures_ret) (use that in simp)
  qed
  have "ensures (\<lambda>v. v = u) (case jb_expires_at job of
          None \<Rightarrow> raising PyTypeError
        | Some expires_at \<Rightarrow>
            if expires_at \<le> now
            then mbind (settle ii xs r EXPIRED (Some (asc ''REQUEST_EXPIRED'')) ''export_expired''
                          (Some (asc ''REQUEST_EXPIRED''))) (\<lambda>r. ret (Inl r))
            else mbind (xtxn xs (\<lambda>fence now_at d. Inr ((), SQL_JOB_INFLIGHT now_at fence r d)))
                   (\<lambda>_. ret (Inr now))) ?Q (confined r u)" for now
    using settled arming by (auto split: option.split intro: ensures_raising)
  then have "ensures (\<lambda>v. v = u) (mbind (reading xs) (\<lambda>now. case jb_expires_at job of
          None \<Rightarrow> raising PyTypeError
        | Some expires_at \<Rightarrow>
            if expires_at \<le> now
            then mbind (settle ii xs r EXPIRED (Some (asc ''REQUEST_EXPIRED'')) ''export_expired''
                          (Some (asc ''REQUEST_EXPIRED''))) (\<lambda>r. ret (Inl r))
            else mbind (xtxn xs (\<lambda>fence now_at d. Inr ((), SQL_JOB_INFLIGHT now_at fence r d)))
                   (\<lambda>_. ret (Inr now)))) ?Q (confined r u)"
    by (rule ensures_mbind [OF ensures_reading])
  then show ?thesis
    unfolding before_post_def
    by (rule ensures_handle) (auto split: exn.split intro: ensures_ret ensures_raising)
qed

lemma armed_post:
  assumes "sound u" and j: "j \<in> set (ob_jobs u)" "jb_request j = r" "jb_state j = PENDING" "jb_body j = Some body"
    "jb_expires_at j = Some t" "now < t" and p: "po_request p = r" "po_body p = body" "po_checked p = now"
    and u': "v = armed_outbox r a fence u"
  shows "sending r u (v\<lparr>ob_posts := ob_posts v @ [p]\<rparr>)"
proof -
  have standing: "standing r PENDING u"
    using same_request [OF assms(1) j(1)] j(2,3) unfolding standing_def by metis
  have row: "arm a fence j \<in> set (ob_jobs v)"
    using j(1,2) by (auto simp: u' armed_outbox_def update_where_def)
  have "length (posts_of r u) \<le> jb_attempts j"
    using assms(1) j(1,2) by (auto simp: sound_def list_all_iff)
  then have "length (posts_of r v) < jb_attempts (arm a fence j)"
    by (simp add: u' armed_outbox_def arm_def posts_of_def)
  then have "job_step v (v\<lparr>ob_posts := ob_posts v @ [p]\<rparr>)"
    by (intro job_step.posted [OF row]) (use j p in \<open>simp_all add: arm_def\<close>)
  with armed_confined [OF standing, of a fence] have "confined r u (v\<lparr>ob_posts := ob_posts v @ [p]\<rparr>)"
    by (auto simp: confined_def elsewhere_def u')
  moreover have "standing r PENDING (v\<lparr>ob_posts := ob_posts v @ [p]\<rparr>)"
    unfolding standing_def
  proof (intro ballI impI)
    fix k assume "k \<in> set (ob_jobs (v\<lparr>ob_posts := ob_posts v @ [p]\<rparr>))" and r: "jb_request k = r"
    then obtain i where i: "i \<in> set (ob_jobs u)" "k = (if jb_request i = r then arm a fence i else i)"
      by (auto simp: u' armed_outbox_def update_where_def)
    then have "jb_request i = r" "jb_state k = jb_state i" using r by (auto simp: arm_def split: if_splits)
    then show "jb_state k = PENDING" using standing i(1) by (simp add: standing_def)
  qed
  ultimately show ?thesis ..
qed

lemma job_of_outbox:
  assumes "job_of r x = Some j"
  shows "j \<in> set (ob_jobs (outbox_of x))" and "jb_request j = r"
  using assms unfolding job_of_def SQL_JOB_GET_def outbox_of_def
  by (auto simp: find_Some_iff)

lemma ensures_send:
  assumes "sound u"
  shows "ensures (\<lambda>v. v = u) (send ii xs eg r) (\<lambda>_. confined r u) (confined r u)"
  unfolding send_def
proof (rule ensures_look_exact)
  fix x assume x: "outbox_of x = u"
  show "ensures (\<lambda>v. v = u) (case job_of r x of
       None \<Rightarrow> raising (BodyKeyError ''no such export job'')
     | Some job \<Rightarrow>
         if jb_state job \<noteq> PENDING then ret (outcome r (jb_state job) (jb_reason job))
         else mbind (before_post ii xs r job) (\<lambda>early.
           case early of
             Inl y \<Rightarrow> ret y
           | Inr now \<Rightarrow>
               if \<not> eg_client eg then raising PyAttributeError
               else
                 (case jb_body job of
                    None \<Rightarrow> raising PyTypeError
                  | Some body \<Rightarrow> mbind (transmit xs r body now) (record_outcome ii xs r))))
      (\<lambda>_. confined r u) (confined r u)"
  proof (cases "job_of r x")
    case None
    then show ?thesis by (auto intro: ensures_raising)
  next
    case (Some job)
    note job = job_of_outbox [OF Some, unfolded x]
    show ?thesis
    proof (cases "jb_state job = PENDING")
      case False
      with Some show ?thesis by (auto intro: ensures_ret)
    next
      case True
      have standing: "standing r PENDING u"
        using same_request [OF assms job(1)] job(2) True unfolding standing_def by metis
      have sent: "ensures (\<lambda>v. (\<exists>t. jb_expires_at job = Some t \<and> now < t) \<and> (\<exists>a fence. v = armed_outbox r a fence u))
          (if \<not> eg_client eg then raising PyAttributeError
               else
                 (case jb_body job of
                    None \<Rightarrow> raising PyTypeError
                  | Some body \<Rightarrow> mbind (transmit xs r body now) (record_outcome ii xs r)))
          (\<lambda>_. confined r u) (confined r u)" (is "ensures ?P _ _ _") for now
      proof (cases "jb_body job")
        case None
        then show ?thesis by (auto intro!: ensures_raising armed_confined [OF standing])
      next
        case (Some body)
        have "ensures ?P (transmit xs r body now) (\<lambda>_. sending r u) (confined r u)"
        proof (rule ensuresI)
          fix x c y assume m: "transmit xs r body now x = (c, y)" and P: "?P (outbox_of x)"
          define p where "p = \<lparr>po_request = r, po_body = body, po_checked = now,
             po_fence = pr_store_fence (br_proc (xp_bridge x))\<rparr>"
          have y: "outbox_of y = (outbox_of x)\<lparr>ob_posts := ob_posts (outbox_of x) @ [p]\<rparr>"
            and c: "c = Inr (client_transmit (xs_client xs (xp_tick x)) body)"
            using m by (auto simp: transmit_def outbox_of_def p_def)
          from P obtain t a fence where t: "jb_expires_at job = Some t" "now < t"
            and a: "outbox_of x = armed_outbox r a fence u" by blast
          have "sending r u (outbox_of y)"
            unfolding y
            by (rule armed_post [OF assms job True Some t _ _ _ a]) (simp_all add: p_def)
          with c show "case c of Inr _ \<Rightarrow> sending r u (outbox_of y) | Inl e \<Rightarrow> confined r u (outbox_of y)"
            by simp
        qed
        with Some show ?thesis
          by (auto intro!: ensures_mbind ensures_outcome ensures_raising armed_confined [OF standing])
      qed
      have after_check: "ensures (case early of Inl _ \<Rightarrow> confined r u
         | Inr now \<Rightarrow> (\<lambda>v. (\<exists>t. jb_expires_at job = Some t \<and> now < t) \<and> (\<exists>a fence. v = armed_outbox r a fence u)))
          (case early of
             Inl y \<Rightarrow> ret y
           | Inr now \<Rightarrow>
               if \<not> eg_client eg then raising PyAttributeError
               else
                 (case jb_body job of
                    None \<Rightarrow> raising PyTypeError
                  | Some body \<Rightarrow> mbind (transmit xs r body now) (record_outcome ii xs r)))
          (\<lambda>_. confined r u) (confined r u)" for early
        using sent by (cases early) (simp_all add: ensures_ret)
      show ?thesis
        unfolding Some option.case using True
        by (simp only: simp_thms if_False)
          (rule ensures_mbind [OF ensures_weaken [OF ensures_before_post [OF standing]] after_check], auto split: sum.splits)
    qed
  qed
qed

end
