(* ===== verification/Link16_Export_Runs.thy ===== *)
theory Link16_Export_Runs
  imports Link16_Exports
begin

text \<open>
  Whole lives of an exporting bridge: starts, passes of the ingest loop, operator's records and every
  method of \<^verbatim>\<open>egress.py\<close> in any order. Each is a run of the job machine, so what the machine keeps
  holds of the store and of the POSTs made.
\<close>

declare split_paired_All [simp del] split_paired_Ex [simp del]

section \<open>Export\<close>

lemma ensures_check: "ensures P (check ii xe xs eg e track peer_id) (\<lambda>_. P) P"
proof -
  have source: "ensures P (check_source ii xe xs cap e track peer_id) (\<lambda>_. P) P" for cap
    unfolding check_source_def
    by (rule ensures_look) (auto intro!: ensures_rules split: option.split)
  have lease: "ensures P (handle (mbind (xtxn xs (\<lambda>fence now d. Inr ((), d))) (\<lambda>_. ret True))
                       (\<lambda>error. case error of LeaseLost \<Rightarrow> ret False | _ \<Rightarrow> raising error)) (\<lambda>_. P) P"
  proof (rule ensures_handle [where R = P])
    show "ensures P (mbind (xtxn xs (\<lambda>fence now d. Inr ((), d))) (\<lambda>_. ret True)) (\<lambda>_. P) P"
      by (rule ensures_then_ret) (rule ensures_quiet_txn, simp)
  qed (auto intro: ensures_rules split: exn.split)
  have rest: "ensures P (if \<not> held then ret (Inl ''LEASE_LOST'')
               else look (\<lambda>x.
                 if ch_state (db_channel (xp_db x)) \<noteq> NORMAL then ret (Inl ''CHANNEL_INCOMPLETE'')
                 else check_source ii xe xs cap e track peer_id)) (\<lambda>_. P) P" for held cap
    by (auto intro!: ensures_rules source)
  show ?thesis
    unfolding check_def
    by (auto split: option.split intro!: ensures_rules ensures_mbind [OF lease rest])
qed

lemma ensures_insert:
  assumes row: "\<And>fence now. jb_request (j fence now) = r \<and> jb_attempts (j fence now) = 0 \<and>
      \<not> jb_in_flight (j fence now) \<and> (jb_state (j fence now) = DENIED \<or> jb_state (j fence now) = PENDING \<and>
        jb_body (j fence now) \<noteq> None \<and> jb_expires_at (j fence now) \<noteq> None)"
    and g: "\<And>fence now d. db_jobs (g fence now d) = db_jobs d"
  shows "ensures (confined r u) (xtxn xs (\<lambda>fence now d.
      rbind (SQL_JOB_INSERT (j fence now) d) (\<lambda>d. Inr ((), g fence now d)))) (\<lambda>_. confined r u) (confined r u)"
proof (rule ensures_xtxn)
  fix fence now d a d' v
  let ?j = "j fence now"
  assume v: "confined r u v" and "rbind (SQL_JOB_INSERT ?j d) (\<lambda>d. Inr ((), g fence now d)) = Inr (a, d')"
    and d: "ob_jobs v = db_jobs d"
  then have new: "jb_request ?j \<notin> jb_request ` set (ob_jobs v)" "db_jobs d' = ob_jobs v @ [?j]"
    by (auto simp: SQL_JOB_INSERT_def insert_row_def rbind_eq_Inr_iff g split: if_split_asm)
  have "job_step v (v\<lparr>ob_jobs := ob_jobs v @ [?j]\<rparr>)"
    by (rule job_step.filed [OF new(1)]) (use row [of fence now] in auto)
  then have "confined r v (v\<lparr>ob_jobs := db_jobs d'\<rparr>)"
    unfolding new(2) by (rule confined_filed [rotated]) (simp add: row)
  with v show "confined r u (v\<lparr>ob_jobs := db_jobs d'\<rparr>)" by (rule confined_trans)
qed

lemma ensures_deny:
  "ensures (confined r u) (deny ii xs r peer_id reason digest losses path) (\<lambda>_. confined r u) (confined r u)"
  unfolding deny_def
  by (rule ensures_then_ret, rule ensures_handle [where R = "confined r u"], rule ensures_insert)
    (auto intro: ensures_rules split: exn.split)

lemma ensures_send_from:
  assumes "sound u"
  shows "ensures (confined r u) (send ii xs eg r) (\<lambda>_. confined r u) (confined r u)"
proof (rule ensures_exact)
  fix v assume v: "confined r u v"
  have "sound v" using assms v by (blast intro: steps_sound confined_steps)
  from ensures_send [OF this] show "ensures (\<lambda>w. w = v) (send ii xs eg r) (\<lambda>_. confined r u) (confined r u)"
    by (rule ensures_weaken) (use v confined_trans in blast)+
qed

lemma ensures_queue:
  assumes "sound u"
  shows "ensures (confined r u) (queue_and_send ii xs eg r peer_id pt now report) (\<lambda>_. confined r u) (confined r u)"
proof -
  have commit: "ensures (confined r u) (handle (mbind (xtxn xs (\<lambda>fence now_at d.
          rbind (SQL_JOB_INSERT (queued_row je r peer_id pt now expires_at body losses fence) d) (\<lambda>d.
          Inr ((), audited ii now_at fence ''export_queued'' r None (Some ''ALLOWED'') d)))) (\<lambda>_. ret True))
        (\<lambda>error. case error of LeaseLost \<Rightarrow> ret False | _ \<Rightarrow> raising error)) (\<lambda>_. confined r u) (confined r u)"
    for je expires_at body losses
    by (rule ensures_handle [where R = "confined r u"], rule ensures_then_ret, rule ensures_insert)
      (auto simp: queued_row_def intro: ensures_rules split: exn.split)
  have rest: "ensures (confined r u) (if \<not> committed then ret (outcome r DENIED (Some (asc ''LEASE_LOST'')))
      else mbind next_sequence (\<lambda>_. mbind (hit xs ''egress.after_job_commit_before_send'') (\<lambda>_. send ii xs eg r)))
      (\<lambda>_. confined r u) (confined r u)" for committed
    by (auto intro!: ensures_rules ensures_mbind [OF ensures_next_sequence] ensures_mbind [OF ensures_hit]
        ensures_send_from [OF assms])
  show ?thesis
    unfolding queue_and_send_def Let_def
    by (rule ensures_mbind [OF ensures_from_sum ensures_mbind [OF ensures_from_sum ensures_mbind [OF commit rest]]])
qed

lemma ensures_allowed:
  assumes "sound u"
  shows "ensures (confined r u) (export_allowed ii xe xs eg r peer_id pt) (\<lambda>_. confined r u) (confined r u)"
proof -
  have rest: "ensures (confined r u) (if \<not> xe_context_ok xe ctx
      then deny ii xs r peer_id (asc ''NUMBER_UNALLOCATED'') digest [] None
      else (case xe_from_cdm xe synthetic ctx (pt_entity pt) (pt_track pt) of
           Inl (code, losses, path) \<Rightarrow> deny ii xs r peer_id code digest losses (Some path)
         | Inr report \<Rightarrow> queue_and_send ii xs eg r peer_id pt now report))
      (\<lambda>_. confined r u) (confined r u)" for ctx digest synthetic now
    by (auto intro!: ensures_deny ensures_queue [OF assms] split: sum.split)
  show ?thesis
    unfolding export_allowed_def Let_def
    by (rule ensures_mbind [OF ensures_reading ensures_mbind [OF ensures_drawn ensures_mbind [OF ensures_from_sum rest]]])
qed

definition runs :: "outbox \<Rightarrow> 'a export_meth \<Rightarrow> bool" where
  "runs u m \<longleftrightarrow> ensures (job_step\<^sup>*\<^sup>* u) m (\<lambda>_. job_step\<^sup>*\<^sup>* u) (job_step\<^sup>*\<^sup>* u)"

lemma runsI:
  assumes "\<And>v. sound v \<Longrightarrow> ensures (\<lambda>w. w = v) m (\<lambda>_. job_step\<^sup>*\<^sup>* v) (job_step\<^sup>*\<^sup>* v)" and "sound u"
  shows "runs u m"
  unfolding runs_def
proof (rule ensures_exact)
  fix v assume v: "job_step\<^sup>*\<^sup>* u v"
  from assms(1) [OF steps_sound [OF this assms(2)]]
  show "ensures (\<lambda>w. w = v) m (\<lambda>_. job_step\<^sup>*\<^sup>* u) (job_step\<^sup>*\<^sup>* u)"
    by (rule ensures_weaken) (use v in \<open>auto intro: rtranclp_trans\<close>)
qed

lemma ensures_export:
  assumes "sound u"
  shows "ensures (\<lambda>w. w = u) (egress_export ii xe xs eg e track peer_id request_id)
    (\<lambda>_. job_step\<^sup>*\<^sup>* u) (job_step\<^sup>*\<^sup>* u)"
proof -
  have chosen: "ensures P (chosen_id xs request_id) (\<lambda>_. P) E" for P E
    unfolding chosen_id_def by (auto intro: ensures_rules split: option.split)
  have main: "ensures (\<lambda>w. w = u) (look (\<lambda>x. case job_of rid x of
       Some known \<Rightarrow> ret (outcome rid (jb_state known) (jb_reason known))
     | None \<Rightarrow>
         mbind (check ii xe xs eg e track peer_id) (\<lambda>verdict.
         case verdict of
           Inl reason \<Rightarrow>
             deny ii xs rid peer_id (asc reason) (objects_digest (be_json (ii_env ii)) e track) [] None
         | Inr pt \<Rightarrow> export_allowed ii xe xs eg rid peer_id pt)))
     (\<lambda>_. confined rid u) (confined rid u)" for rid
  proof (rule ensures_look)
    fix x
    show "ensures (\<lambda>w. w = u) (case job_of rid x of
       Some known \<Rightarrow> ret (outcome rid (jb_state known) (jb_reason known))
     | None \<Rightarrow>
         mbind (check ii xe xs eg e track peer_id) (\<lambda>verdict.
         case verdict of
           Inl reason \<Rightarrow>
             deny ii xs rid peer_id (asc reason) (objects_digest (be_json (ii_env ii)) e track) [] None
         | Inr pt \<Rightarrow> export_allowed ii xe xs eg rid peer_id pt)) (\<lambda>_. confined rid u) (confined rid u)"
      by (rule ensures_weaken [of "confined rid u" _ "\<lambda>_. confined rid u" "confined rid u"])
        (auto intro!: ensures_ret ensures_mbind [OF ensures_check] ensures_deny ensures_allowed [OF assms]
          split: option.split sum.split)
  qed
  show ?thesis
    unfolding egress_export_def
    by (rule ensures_mbind [OF chosen], rule ensures_weaken [OF main]) (auto dest: confined_steps)
qed

lemma runs_export: "sound u \<Longrightarrow> runs u (bridge_export ii xe xs e track peer_id request_id)"
  unfolding bridge_export_def
  by (rule runsI, rule ensures_look) (auto intro: ensures_ret ensures_export split: option.split)

section \<open>Open outcomes\<close>

lemma ensures_each:
  assumes "\<And>a as. ensures (I (a # as)) (m a) (\<lambda>_. I as) E" and "\<And>v. I [] v \<Longrightarrow> Q v"
  shows "ensures (I as) (each m as) (\<lambda>_. Q) E"
proof (induction as)
  case Nil
  show ?case by (simp add: ensures_ret assms(2))
next
  case (Cons a as)
  show ?case
    unfolding each.simps by (rule ensures_mbind [OF assms(1)], rule ensures_then_ret [OF Cons.IH])
qed

lemma ensures_each_job:
  assumes job: "\<And>r v. sound v \<Longrightarrow> standing r st v \<Longrightarrow> ensures (\<lambda>w. w = v) (m r) (\<lambda>_. confined r v) (confined r v)"
    and "sound u" and "distinct rs" and "\<forall>r \<in> set rs. standing r st u"
  shows "ensures (\<lambda>w. w = u) (each m rs) (\<lambda>_. job_step\<^sup>*\<^sup>* u) (job_step\<^sup>*\<^sup>* u)"
proof -
  define I where "I rs v \<longleftrightarrow> job_step\<^sup>*\<^sup>* u v \<and> distinct rs \<and> (\<forall>r \<in> set rs. standing r st v)" for rs v
  have "ensures (I (r # rs)) (m r) (\<lambda>_. I rs) (job_step\<^sup>*\<^sup>* u)" for r rs
  proof (rule ensures_exact)
    fix v assume v: "I (r # rs) v"
    then have "sound v" "standing r st v" using assms(2) by (auto simp: I_def intro: steps_sound)
    from job [OF this] show "ensures (\<lambda>w. w = v) (m r) (\<lambda>_. I rs) (job_step\<^sup>*\<^sup>* u)"
    proof (rule ensures_weaken)
      fix w assume w: "confined r v w"
      with v show "job_step\<^sup>*\<^sup>* u w" by (auto simp: I_def confined_def intro: rtranclp_trans)
      have "standing q st w" if "q \<in> set rs" for q
        by (rule confined_standing [OF w]) (use v that in \<open>auto simp: I_def\<close>)
      with v \<open>job_step\<^sup>*\<^sup>* u w\<close> show "I rs w" by (simp add: I_def)
    qed
  qed
  then have "ensures (I rs) (each m rs) (\<lambda>_. job_step\<^sup>*\<^sup>* u) (job_step\<^sup>*\<^sup>* u)"
    by (rule ensures_each) (simp add: I_def)
  then show ?thesis by (rule ensures_weaken) (use assms(3,4) in \<open>auto simp: I_def\<close>)
qed

lemma jobs_by_state:
  assumes "sound (outbox_of x)"
  shows "distinct (SQL_JOBS_BY_STATE st (xp_db x))"
    and "r \<in> set (SQL_JOBS_BY_STATE st (xp_db x)) \<Longrightarrow> standing r st (outbox_of x)"
proof -
  have jobs: "ob_jobs (outbox_of x) = db_jobs (xp_db x)" by (simp add: outbox_of_def)
  have "inj_on jb_request (set (db_jobs (xp_db x)))" "distinct (db_jobs (xp_db x))"
    using assms by (simp_all add: sound_def distinct_map jobs)
  then show "distinct (SQL_JOBS_BY_STATE st (xp_db x))"
    unfolding SQL_JOBS_BY_STATE_def by (auto simp: distinct_map intro: inj_on_subset)
  assume "r \<in> set (SQL_JOBS_BY_STATE st (xp_db x))"
  then obtain j where j: "j \<in> set (ob_jobs (outbox_of x))" "jb_request j = r" "jb_state j = st"
    by (auto simp: SQL_JOBS_BY_STATE_def jobs)
  show "standing r st (outbox_of x)"
    unfolding standing_def using same_request [OF assms j(1)] j(2,3) by metis
qed

lemma ensures_reconcile_job:
  assumes "st \<in> {UNKNOWN, ACCEPTED, ENCODED}" and "standing r st v"
  shows "ensures (\<lambda>w. w = v) (reconcile_job ii xs st r) (\<lambda>_. confined r v) (confined r v)"
proof -
  have "ANSWERS = becomes st" using assms(1) by auto
  then have set: "ensures (\<lambda>w. w = v) (set_job ii xs r (answered_state d) reason audit code) (\<lambda>_. confined r v) (confined r v)"
    for d reason audit code
    using assms(2) answered_state_answers [of d] by (intro ensures_set_job [of _ r v st]) auto
  have "ensures (\<lambda>w. w = v) (case answer of
       Inl _ \<Rightarrow> ret []
     | Inr status \<Rightarrow>
         if answered_state status = st then ret []
         else mbind (set_job ii xs r (answered_state status) (answered_reason status) ''reconciled'' None)
                (\<lambda>_. ret [(r, answered_state status)])) (\<lambda>_. confined r v) (confined r v)" for answer
    by (auto intro!: ensures_ret ensures_then_ret set split: sum.split)
  then show ?thesis
    unfolding reconcile_job_def by (rule ensures_mbind [OF ensures_at_tick])
qed

lemma ensures_reconcile:
  assumes "sound u"
  shows "ensures (\<lambda>w. w = u) (egress_reconcile ii xs eg) (\<lambda>_. job_step\<^sup>*\<^sup>* u) (job_step\<^sup>*\<^sup>* u)"
proof -
  have state: "ensures (\<lambda>w. w = v) (reconcile_state ii xs eg st) (\<lambda>_. job_step\<^sup>*\<^sup>* v) (job_step\<^sup>*\<^sup>* v)"
    if "sound v" "st \<in> {UNKNOWN, ACCEPTED, ENCODED}" for v st
    unfolding reconcile_state_def Let_def
  proof (rule ensures_look_exact)
    fix x assume x: "outbox_of x = v"
    let ?ids = "SQL_JOBS_BY_STATE st (xp_db x)"
    have "ensures (\<lambda>w. w = v) (each (reconcile_job ii xs st) ?ids) (\<lambda>_. job_step\<^sup>*\<^sup>* v) (job_step\<^sup>*\<^sup>* v)"
      by (rule ensures_each_job [where st = st, OF ensures_reconcile_job [OF that(2)] that(1)])
        (use jobs_by_state [where x = x and st = st] x that(1) in auto)
    then show "ensures (\<lambda>w. w = v) (if ?ids \<noteq> [] \<and> \<not> eg_client eg then raising PyAttributeError
        else each (reconcile_job ii xs st) ?ids) (\<lambda>_. job_step\<^sup>*\<^sup>* v) (job_step\<^sup>*\<^sup>* v)"
      by (auto intro: ensures_raising)
  qed
  have run: "ensures (job_step\<^sup>*\<^sup>* u) (reconcile_state ii xs eg st) (\<lambda>_. job_step\<^sup>*\<^sup>* u) (job_step\<^sup>*\<^sup>* u)"
    if "st \<in> {UNKNOWN, ACCEPTED, ENCODED}" for st
    using runsI [OF state [OF _ that] assms] by (simp add: runs_def)
  have "ensures (job_step\<^sup>*\<^sup>* u) (egress_reconcile ii xs eg) (\<lambda>_. job_step\<^sup>*\<^sup>* u) (job_step\<^sup>*\<^sup>* u)"
    unfolding egress_reconcile_def each.simps
    by (intro ensures_mbind [where R = "\<lambda>_. job_step\<^sup>*\<^sup>* u"] run ensures_ret) simp_all
  then show ?thesis by (rule ensures_weaken) simp_all
qed

lemma ensures_checked:
  assumes "sound u" and "standing r REVALIDATE u"
  shows "ensures (\<lambda>w. w = u) (revalidate_checked ii xe xs eg r job objects) (\<lambda>_. confined r u) (confined r u)"
proof -
  have denied: "ensures (\<lambda>w. w = u) (mbind (set_job ii xs r DENIED reason audit code) (\<lambda>_.
         mbind (xtxn xs (\<lambda>fence now d. Inr ((), counter_add ''export_denied'' 1 d))) (\<lambda>_. ret x)))
      (\<lambda>_. confined r u) (confined r u)" for reason audit code and x :: export_result
    by (rule ensures_mbind [OF ensures_set_job [of _ r u REVALIDATE] ensures_then_ret [OF ensures_quiet_txn]])
      (use assms(2) in auto)
  have "ensures (\<lambda>w. w = u) (xtxn xs (\<lambda>fence now d. Inr ((),
            audited ii now fence ''export_revalidated'' r None (Some ''ALLOWED'')
              (SQL_JOB_REBODY now fence r d)))) (\<lambda>_. confined r u) (confined r u)"
  proof (rule ensures_xtxn)
    fix fence now d a d' v
    assume v: "v = u" and "Inr ((), audited ii now fence ''export_revalidated'' r None (Some ''ALLOWED'')
              (SQL_JOB_REBODY now fence r d)) = (Inr (a, d') :: exn + unit \<times> db)" and "ob_jobs v = db_jobs d"
    then have d': "db_jobs d' = update_where (\<lambda>j. jb_request j = r)
        (\<lambda>j. j\<lparr>jb_state := PENDING, jb_reason := None, jb_changed_at := now, jb_fence := fence\<rparr>) (ob_jobs u)"
      by (auto simp: SQL_JOB_REBODY_def)
    show "confined r u (v\<lparr>ob_jobs := db_jobs d'\<rparr>)"
      unfolding v d' using assms(2) by (intro confined_update) (auto simp: standing_def intro: job_change.requeued)
  qed simp
  then have again: "ensures (\<lambda>w. w = u) (mbind (xtxn xs (\<lambda>fence now d. Inr ((),
            audited ii now fence ''export_revalidated'' r None (Some ''ALLOWED'')
              (SQL_JOB_REBODY now fence r d)))) (\<lambda>_. send ii xs eg r)) (\<lambda>_. confined r u) (confined r u)"
    by (rule ensures_mbind) (rule ensures_send_from [OF assms(1)])
  have decided: "ensures (\<lambda>w. w = u) (case verdict of
       Inl reason \<Rightarrow>
         mbind (set_job ii xs r DENIED (Some (asc reason)) ''export_denied'' (Some (asc reason))) (\<lambda>_.
         mbind (xtxn xs (\<lambda>fence now d. Inr ((), counter_add ''export_denied'' 1 d))) (\<lambda>_.
         ret (outcome r DENIED (Some (asc reason)))))
     | Inr _ \<Rightarrow>
         mbind (xtxn xs (\<lambda>fence now d. Inr ((),
            audited ii now fence ''export_revalidated'' r None (Some ''ALLOWED'')
              (SQL_JOB_REBODY now fence r d)))) (\<lambda>_. send ii xs eg r))
     (\<lambda>_. confined r u) (confined r u)" for verdict :: "string + export_parts"
    using denied again by (cases verdict) (simp_all only: sum.case)
  have check: "ensures (\<lambda>w. w = u) (check ii xe xs eg e track peer_id) (\<lambda>_ w. w = u) (confined r u)" for e track peer_id
    by (rule ensures_weaken [OF ensures_check [of "\<lambda>w. w = u"]]) simp_all
  show ?thesis
    unfolding revalidate_checked_def by (rule ensures_mbind [OF check]) (rule decided)
qed

lemma ensures_revalidate_job:
  assumes "sound u" and "standing r REVALIDATE u"
  shows "ensures (\<lambda>w. w = u) (revalidate_job ii xe xs eg r) (\<lambda>_. confined r u) (confined r u)"
proof -
  have "ensures (\<lambda>w. w = u) (case jb_expires_at job of
             None \<Rightarrow> raising PyTypeError
           | Some expires_at \<Rightarrow>
               if expires_at \<le> now
               then settle ii xs r EXPIRED (Some (asc ''REQUEST_EXPIRED'')) ''export_expired''
                      (Some (asc ''REQUEST_EXPIRED''))
               else revalidate_checked ii xe xs eg r job objects) (\<lambda>_. confined r u) (confined r u)" for job now objects
    by (auto intro!: ensures_raising ensures_settle [of _ r u REVALIDATE] ensures_checked [OF assms]
        simp: assms(2) split: option.split)
  note one = this
  have two: "ensures (\<lambda>w. w = u) (mbind (from_sum (stored_objects xe job)) (\<lambda>objects.
         mbind (reading xs) (\<lambda>now.
         mbind (case jb_expires_at job of
             None \<Rightarrow> raising PyTypeError
           | Some expires_at \<Rightarrow>
               if expires_at \<le> now
               then settle ii xs r EXPIRED (Some (asc ''REQUEST_EXPIRED'')) ''export_expired''
                      (Some (asc ''REQUEST_EXPIRED''))
               else revalidate_checked ii xe xs eg r job objects) (\<lambda>r. ret [r])))) (\<lambda>_. confined r u) (confined r u)" for job
  proof (rule ensures_mbind)
    show "ensures (\<lambda>w. w = u) (from_sum (stored_objects xe job)) (\<lambda>_ w. w = u) (confined r u)"
      by (rule ensures_weaken [OF ensures_from_sum [of "\<lambda>w. w = u"]]) simp_all
  qed (rule ensures_mbind [OF ensures_reading], rule ensures_then_ret, rule one)
  show ?thesis
    unfolding revalidate_job_def
    by (rule ensures_look) (auto intro: ensures_raising two split: option.split)
qed

lemma ensures_revalidate:
  assumes "sound u"
  shows "ensures (\<lambda>w. w = u) (egress_revalidate ii xe xs eg) (\<lambda>_. job_step\<^sup>*\<^sup>* u) (job_step\<^sup>*\<^sup>* u)"
  unfolding egress_revalidate_def
proof (rule ensures_look_exact)
  fix x assume x: "outbox_of x = u"
  show "ensures (\<lambda>w. w = u) (each (revalidate_job ii xe xs eg) (SQL_JOBS_BY_STATE REVALIDATE (xp_db x)))
      (\<lambda>_. job_step\<^sup>*\<^sup>* u) (job_step\<^sup>*\<^sup>* u)"
    by (rule ensures_each_job [where st = REVALIDATE, OF ensures_revalidate_job assms])
      (use jobs_by_state [where x = x and st = REVALIDATE] x assms in auto)
qed

lemma ensures_resolve_send:
  assumes "sound u"
  shows "ensures (\<lambda>w. w = u) (egress_resolve_send ii xs r how) (\<lambda>_. job_step\<^sup>*\<^sup>* u) (job_step\<^sup>*\<^sup>* u)"
  unfolding egress_resolve_send_def
proof (rule ensures_look_exact)
  fix x assume x: "outbox_of x = u"
  show "ensures (\<lambda>w. w = u) (if (case job_of r x of Some job \<Rightarrow> jb_state job \<noteq> UNKNOWN | None \<Rightarrow> True) \<or> how \<noteq> ''abandon''
     then raising (OperatorRefusal ''resolve-send applies to an UNKNOWN job with --decision abandon'')
     else mbind (xtxn xs (\<lambda>fence now d. Inr ((),
            audited ii now fence ''resolve_send'' r None (Some ''FAILED'')
              (SQL_JOB_STATE FAILED (Some (asc ''ABANDONED_BY_OPERATOR'')) now fence r d))))
            (\<lambda>_. ret ''FAILED'')) (\<lambda>_. job_step\<^sup>*\<^sup>* u) (job_step\<^sup>*\<^sup>* u)" (is "ensures _ (if ?c then _ else ?m) _ _")
  proof (cases ?c)
    case True
    then show ?thesis by (auto intro: ensures_raising)
  next
    case False
    then obtain job where job: "job_of r x = Some job" "jb_state job = UNKNOWN" by (auto split: option.splits)
    have standing: "standing r UNKNOWN u"
      unfolding standing_def using job_of_outbox [OF job(1)] same_request [OF assms] job(2) x by metis
    have "ensures (\<lambda>w. w = u) ?m (\<lambda>_. confined r u) (confined r u)"
      by (rule ensures_then_ret, rule ensures_record [of _ FAILED _ _ _ UNKNOWN])
        (auto simp: standing ANSWERS_def)
    then have "ensures (\<lambda>w. w = u) ?m (\<lambda>_. job_step\<^sup>*\<^sup>* u) (job_step\<^sup>*\<^sup>* u)"
      by (rule ensures_weaken) (auto dest: confined_steps)
    then show ?thesis unfolding if_not_P [OF False] .
  qed
qed

lemma runs_allocate: "runs u (egress_allocate ii xs peer_id realm source dest_tuple evidence)"
  unfolding runs_def egress_allocate_def
  by (intro ensures_mbind [OF ensures_from_sum] ensures_quiet_txn) auto

end
