(* ===== verification/Link16_Export_Lives.thy ===== *)
theory Link16_Export_Lives
  imports Link16_Export_Runs
begin

text \<open>
  Lives of an exporting bridge, and what is proved of its exports over a whole life: the POSTs are
  exactly runs of the job machine, each of a committed body before its expiry; a settled job is settled
  for good; and an export that POSTs was authorised.
\<close>

declare split_paired_All [simp del] split_paired_Ex [simp del]

section \<open>Events\<close>

datatype export_event =
    Life surroundings life_event
  | OpenForOperator surroundings start_surroundings
  | Export entity_view "json option" pytext "pytext option"
  | SendJob pytext
  | Reconcile
  | Revalidate
  | ResolveSend pytext pytext string
  | Allocate pytext pytext pytext pytext json

definition export_act ::
    "ingestor \<Rightarrow> export_env \<Rightarrow> (pytext \<Rightarrow> bool) \<Rightarrow> export_surroundings \<times> export_event \<Rightarrow> exporter \<Rightarrow> exporter" where
  "export_act ii xe blank s x =
     (let xs = fst s in
      case snd s of
        Life su (Start ss) \<Rightarrow> snd (launch ii su ss xs x)
      | Life su event \<Rightarrow> x\<lparr>xp_bridge := act ii blank (su, event) (xp_bridge x)\<rparr>
      | OpenForOperator su ss \<Rightarrow> snd (open_for_operator su ss xs x)
      | Export e track peer_id request_id \<Rightarrow> snd (bridge_export ii xe xs e track peer_id request_id x)
      | SendJob request_id \<Rightarrow> snd (with_egress (\<lambda>eg. send ii xs eg request_id) x)
      | Reconcile \<Rightarrow> snd (bridge_reconcile ii xs x)
      | Revalidate \<Rightarrow> snd (bridge_revalidate ii xe xs x)
      | ResolveSend evidence request_id how \<Rightarrow> snd (bridge_resolve_send ii xs blank evidence request_id how x)
      | Allocate evidence peer_id realm source dest_tuple \<Rightarrow>
          snd (bridge_allocate ii xs blank evidence peer_id realm source dest_tuple x))"

definition export_acts ::
    "ingestor \<Rightarrow> export_env \<Rightarrow> (pytext \<Rightarrow> bool) \<Rightarrow> (export_surroundings \<times> export_event) list \<Rightarrow> exporter \<Rightarrow> exporter" where
  "export_acts ii xe blank = fold (export_act ii xe blank)"

section \<open>Everything else a bridge does is a takeover, or nothing, to its jobs\<close>

locale jobs_invariant =
  fixes J :: "job_row list \<Rightarrow> bool"
  assumes J_taken: "J js \<Longrightarrow> taken js ks \<Longrightarrow> J ks"

sublocale jobs_invariant \<subseteq> store_invariant "\<lambda>d. J (db_jobs d)" ii for ii
proof unfold_locales
  show "J (db_jobs d')" if "J (db_jobs d)" "lifecycle_drop (ii_env ii) now fence notice t epoch d = Inr (oc, d')"
    for d now fence notice t epoch oc d'
    using that by (auto elim!: drop_frame)
qed (simp_all add: resolve_frame(5) rekey_frame(5) apply_frame(3) quiet_def on_channel_def J_taken
      SQL_CURRENT_FRESHNESS_def on_current_def SQL_IDENTITY_EPOCH_RESET_def SQL_IDENTITY_EPOCH_KEEP_def)

definition reached :: "outbox \<Rightarrow> post list \<Rightarrow> job_row list \<Rightarrow> bool" where
  "reached u ps js \<longleftrightarrow> job_step\<^sup>*\<^sup>* u \<lparr>ob_jobs = js, ob_posts = ps\<rparr>"

interpretation reach: jobs_invariant "reached u ps" for u ps
proof
  fix js ks assume r: "reached u ps js" and t: "taken js ks"
  have "job_step \<lparr>ob_jobs = js, ob_posts = ps\<rparr> (\<lparr>ob_jobs = js, ob_posts = ps\<rparr>\<lparr>ob_jobs := ks\<rparr>)"
    by (rule job_step.taken_over) (use t in simp)
  with r show "reached u ps ks" by (simp add: reached_def)
qed

lemma runs_on_bridge:
  assumes "\<And>ps. method_keeps (\<lambda>d. reached u ps (db_jobs d)) m"
  shows "runs u (on_bridge m)"
  unfolding runs_def
proof (rule ensuresI)
  fix x r y assume m: "on_bridge m x = (r, y)" and u: "job_step\<^sup>*\<^sup>* u (outbox_of x)"
  obtain c b where b: "m (xp_bridge x) = (c, b)" by (cases "m (xp_bridge x)")
  with m have y: "r = c" "outbox_of y = \<lparr>ob_jobs = db_jobs (br_db b), ob_posts = xp_posts x\<rparr>"
    by (auto simp: on_bridge_def outbox_of_def)
  have "reached u (xp_posts x) (db_jobs (br_db b))"
    using method_keepsD [OF assms b] u by (simp add: reached_def outbox_of_def)
  then have "job_step\<^sup>*\<^sup>* u (outbox_of y)" by (simp add: y(2) reached_def)
  then show "case r of Inr a \<Rightarrow> job_step\<^sup>*\<^sup>* u (outbox_of y) | Inl e \<Rightarrow> job_step\<^sup>*\<^sup>* u (outbox_of y)"
    by (simp split: sum.split)
qed

lemma runs_mbind: "runs u m \<Longrightarrow> (\<And>a. runs u (f a)) \<Longrightarrow> runs u (mbind m f)"
  unfolding runs_def by (rule ensures_mbind)

lemma runs_set_state: "(\<And>x. outbox_of (f x) = outbox_of x) \<Longrightarrow> runs u (set_state f)"
  unfolding runs_def by (rule ensures_set_state)

lemma runs_same [simp, intro]: "runs u (ret a)" "runs u (raising e)" "runs u (drawn xs)"
  unfolding runs_def by (rule ensures_rules)+

lemma keeps_raising: "method_keeps I (raising e)"
  by (simp add: method_keeps_def raising_def)

lemma runs_launch: "runs u (launch ii su ss xs)"
  unfolding launch_def
  by (auto intro!: runs_mbind runs_set_state runs_on_bridge reach.keeps_start simp: outbox_of_def)

lemma runs_open: "runs u (open_for_operator su ss xs)"
proof -
  have "method_keeps (\<lambda>d. reached u ps (db_jobs d)) (open_bridge su ss)" for ps
  proof -
    have 1: "method_keeps (\<lambda>d. reached u ps (db_jobs d)) (open_store su (ss_binding ss))"
      unfolding open_store_def by (intro keeps_rules keeps_set_state keeps_on_proc) (auto dest: reach.bound_I)
    have 2: "method_keeps (\<lambda>d. reached u ps (db_jobs d)) (handle (on_proc (lease_acquire (su_faults su) (su_now su)))
       (\<lambda>error. case error of
          LeaseHeld \<Rightarrow> refuse ''the channel-writer lease is held by another instance''
        | _ \<Rightarrow> raising error))"
      by (rule keeps_handle [OF reach.keeps_acquire]) (auto intro: keeps_refuse keeps_raising split: exn.split)
    show ?thesis
      unfolding open_bridge_def Let_def
      by (intro keeps_mbind [OF 1] keeps_mbind [OF 2] keeps_mbind keeps_set_state)
        (auto intro: keeps_refuse keeps_ret)
  qed
  then show ?thesis
    unfolding open_for_operator_def
    by (intro runs_mbind runs_set_state runs_on_bridge runs_same(3)) (simp_all add: outbox_of_def)
qed

lemma runs_with_egress: "(\<And>eg. runs u (m eg)) \<Longrightarrow> runs u (with_egress m)"
  unfolding with_egress_def runs_def by (rule ensures_look) (auto intro: ensures_raising split: option.split)

lemma runs_with_text: "runs u m \<Longrightarrow> runs u (with_text blank evidence m)"
  unfolding with_text_def by auto

lemma runs_snd:
  assumes "runs u m" and "job_step\<^sup>*\<^sup>* u (outbox_of x)"
  shows "job_step\<^sup>*\<^sup>* u (outbox_of (snd (m x)))"
proof -
  obtain r y where m: "m x = (r, y)" by (cases "m x")
  have "case r of Inr a \<Rightarrow> job_step\<^sup>*\<^sup>* u (outbox_of y) | Inl e \<Rightarrow> job_step\<^sup>*\<^sup>* u (outbox_of y)"
    by (rule ensuresD [OF assms(1) [unfolded runs_def] m assms(2)])
  with m show ?thesis by (simp split: sum.splits)
qed

lemma act_reached:
  assumes "job_step\<^sup>*\<^sup>* u (outbox_of x)"
  shows "job_step\<^sup>*\<^sup>* u (outbox_of (x\<lparr>xp_bridge := act ii blank s (xp_bridge x)\<rparr>))"
proof -
  let ?I = "\<lambda>d. reached u (xp_posts x) (db_jobs d)"
  have "recovers_in ?I" by (simp add: recovers_in_def on_channel_def)
  moreover have "continues_in ii ?I" by (auto simp: continues_in_def dest: admit_tuple_frame(4))
  then have "reuses_in ii ?I" by (rule reach.reuses_I)
  ultimately have "?I (br_db (act ii blank s (xp_bridge x)))"
    using assms by (intro reach.act_I) (auto simp: reached_def outbox_of_def)
  then show ?thesis by (simp add: reached_def outbox_of_def)
qed

lemma send_runs: "sound u \<Longrightarrow> ensures (\<lambda>v. v = u) (send ii xs eg r) (\<lambda>_. job_step\<^sup>*\<^sup>* u) (job_step\<^sup>*\<^sup>* u)"
  by (rule ensures_weaken [OF ensures_send]) (auto dest: confined_steps)

lemma event_runs:
  assumes "sound u" and "job_step\<^sup>*\<^sup>* u (outbox_of x)"
  shows "job_step\<^sup>*\<^sup>* u (outbox_of (export_act ii xe blank s x))"
proof -
  obtain xs event where s: "s = (xs, event)" by (cases s)
  note methods = bridge_reconcile_def bridge_revalidate_def bridge_resolve_send_def bridge_allocate_def
  show ?thesis
  proof (cases event)
    case (Life su act)
    show ?thesis
    proof (cases "\<exists>ss. act = Start ss")
      case True
      then obtain ss where "act = Start ss" ..
      with Life s show ?thesis by (simp add: export_act_def runs_snd [OF runs_launch assms(2)])
    next
      case False
      then have "export_act ii xe blank s x = x\<lparr>xp_bridge := Link16_Actions.act ii blank (su, act) (xp_bridge x)\<rparr>"
        using Life s by (cases act) (simp_all add: export_act_def)
      then show ?thesis using act_reached [OF assms(2)] by simp
    qed
  next
    case (OpenForOperator su ss)
    with s show ?thesis by (simp add: export_act_def runs_snd [OF runs_open assms(2)])
  next
    case (Export e track peer_id request_id)
    with s show ?thesis by (simp add: export_act_def runs_snd [OF runs_export [OF assms(1)] assms(2)])
  next
    case (SendJob r)
    have "runs u (with_egress (\<lambda>eg. send ii xs eg r))"
      by (intro runs_with_egress runsI [OF send_runs assms(1)])
    with s SendJob show ?thesis by (simp add: export_act_def runs_snd [OF _ assms(2)])
  next
    case Reconcile
    have "runs u (bridge_reconcile ii xs)"
      unfolding methods by (intro runs_with_egress runsI [OF ensures_reconcile assms(1)])
    with s Reconcile show ?thesis by (simp add: export_act_def runs_snd [OF _ assms(2)])
  next
    case Revalidate
    have "runs u (bridge_revalidate ii xe xs)"
      unfolding methods by (intro runs_with_egress runsI [OF ensures_revalidate assms(1)])
    with s Revalidate show ?thesis by (simp add: export_act_def runs_snd [OF _ assms(2)])
  next
    case (ResolveSend evidence r how)
    have "runs u (bridge_resolve_send ii xs blank evidence r how)"
      unfolding methods by (intro runs_with_text runs_with_egress runsI [OF ensures_resolve_send assms(1)])
    with s ResolveSend show ?thesis by (simp add: export_act_def runs_snd [OF _ assms(2)])
  next
    case (Allocate evidence peer_id realm source dest_tuple)
    have "runs u (bridge_allocate ii xs blank evidence peer_id realm source dest_tuple)"
      unfolding methods by (intro runs_with_text runs_with_egress runs_allocate)
    with s Allocate show ?thesis by (simp add: export_act_def runs_snd [OF _ assms(2)])
  qed
qed

lemma life_runs:
  assumes "sound (outbox_of x)"
  shows "job_step\<^sup>*\<^sup>* (outbox_of x) (outbox_of (export_acts ii xe blank events x))"
proof -
  have "job_step\<^sup>*\<^sup>* u (outbox_of y) \<Longrightarrow> sound u \<Longrightarrow> job_step\<^sup>*\<^sup>* u (outbox_of (fold (export_act ii xe blank) events y))"
    for u y
    by (induction events arbitrary: y) (simp_all add: event_runs)
  then show ?thesis unfolding export_acts_def using assms by blast
qed

definition EMPTY_OUTBOX :: outbox where "EMPTY_OUTBOX = \<lparr>ob_jobs = [], ob_posts = []\<rparr>"

lemma empty_sound [simp]: "sound EMPTY_OUTBOX"
  by (simp add: EMPTY_OUTBOX_def sound_def)

lemma fresh_outbox: "xp_db x = empty_db \<Longrightarrow> xp_posts x = [] \<Longrightarrow> outbox_of x = EMPTY_OUTBOX"
  by (simp add: outbox_of_def EMPTY_OUTBOX_def empty_db_def)

lemma life_sound:
  assumes "xp_db x = empty_db" and "xp_posts x = []"
  shows "sound (outbox_of (export_acts ii xe blank events x))"
  using life_runs [of x ii xe blank events] steps_sound fresh_outbox [OF assms] by simp

lemma job_found:
  assumes "sound (outbox_of y)" and "j \<in> set (ob_jobs (outbox_of y))"
  shows "job_of (jb_request j) y = Some j"
proof (cases "job_of (jb_request j) y")
  case None
  with assms(2) show ?thesis
    by (auto simp: job_of_def SQL_JOB_GET_def outbox_of_def find_None_iff)
next
  case (Some k)
  with same_request [OF assms(1) job_of_outbox(1) [OF Some] assms(2)] job_of_outbox(2) [OF Some]
  show ?thesis by simp
qed

section \<open>The properties\<close>

text \<open>
  C37. Refinement of the job machine. Whatever a bridge does from an empty store - starts and takeovers,
  passes, exports, sends, reconciliations, revalidations, operator's records, with crashes, lost
  leases, failed commits and any answer of the gateway - its jobs and its POSTs are a run of the
  machine: a job enters PENDING or DENIED once, changes only along \<open>becomes\<close>, and a POST is made only of
  a job in flight.
\<close>

theorem exports_refine_job_machine:
  assumes "xp_db x = empty_db" and "xp_posts x = []"
  shows "job_step\<^sup>*\<^sup>* EMPTY_OUTBOX (outbox_of (export_acts ii xe blank events x))"
proof -
  have "sound (outbox_of x)" by (simp add: fresh_outbox [OF assms])
  from life_runs [OF this] show ?thesis unfolding fresh_outbox [OF assms] .
qed

text \<open>
  C38. Every POST is accounted for. Each POST ever made was of the committed, immutable body of its
  job and was made before that job's expiry as it was read; two POSTs of one request carry the same
  octets; and a job was POSTed at most as often as its row counts attempts.
\<close>

theorem posts_are_committed:
  assumes "xp_db x = empty_db" and "xp_posts x = []" and "y = export_acts ii xe blank events x"
  shows "(\<forall>p \<in> set (xp_posts y). \<exists>j t. job_of (po_request p) y = Some j \<and> jb_body j = Some (po_body p) \<and>
            jb_expires_at j = Some t \<and> po_checked p < t) \<and>
         (\<forall>p \<in> set (xp_posts y). \<forall>q \<in> set (xp_posts y). po_request p = po_request q \<longrightarrow> po_body p = po_body q) \<and>
         (\<forall>r j. job_of r y = Some j \<longrightarrow> length (filter (\<lambda>p. po_request p = r) (xp_posts y)) \<le> jb_attempts j)"
proof -
  have ok: "sound (outbox_of y)" unfolding assms(3) by (rule life_sound [OF assms(1,2)])
  note found = job_found [OF ok]
  have 1: "\<exists>j t. job_of (po_request p) y = Some j \<and> jb_body j = Some (po_body p) \<and>
      jb_expires_at j = Some t \<and> po_checked p < t" if "p \<in> set (xp_posts y)" for p
  proof -
    have "covered (ob_jobs (outbox_of y)) p"
      using ok that by (simp add: sound_def list_all_iff outbox_of_def)
    then show ?thesis unfolding covered_def using found by metis
  qed
  have 2: "po_body p = po_body q" if "p \<in> set (xp_posts y)" "q \<in> set (xp_posts y)" "po_request p = po_request q" for p q
    using 1 [OF that(1)] 1 [OF that(2)] that(3) by auto
  have 3: "length (filter (\<lambda>p. po_request p = r) (xp_posts y)) \<le> jb_attempts j" if "job_of r y = Some j" for r j
    using ok job_of_outbox [OF that] by (auto simp: sound_def list_all_iff posts_of_def outbox_of_def)
  from 1 2 3 show ?thesis by blast
qed

text \<open>
  C39. A settled job is settled for good. From the moment a job is REJECTED, SENT, DELIVERY_CONFIRMED,
  EXPIRED, FAILED or DENIED, nothing the bridge does later changes a field of its row or POSTs it
  again: not a takeover of the lease, not a reconciliation, not a repeated export or send.
\<close>

theorem settled_jobs_stay_settled:
  assumes "xp_db x = empty_db" and "xp_posts x = []" and "y = export_acts ii xe blank events x"
    and "job_of r y = Some j" and "jb_state j \<in> FINAL_STATES" and "z = export_acts ii xe blank afterwards y"
  shows "job_of r z = Some j \<and>
    filter (\<lambda>p. po_request p = r) (xp_posts z) = filter (\<lambda>p. po_request p = r) (xp_posts y)"
proof -
  have ok: "sound (outbox_of y)" unfolding assms(3) by (rule life_sound [OF assms(1,2)])
  note run = life_runs [OF ok, of ii xe blank afterwards, folded assms(6)]
  note j = job_of_outbox [OF assms(4)]
  have "sound (outbox_of z)" by (rule steps_sound [OF run ok])
  moreover from steps_settled [OF run ok j(1) assms(5)] j(2)
  have z: "j \<in> set (ob_jobs (outbox_of z))"
    "filter (\<lambda>p. po_request p = r) (xp_posts z) = filter (\<lambda>p. po_request p = r) (xp_posts y)"
    by (simp_all add: posts_of_def outbox_of_def)
  ultimately show ?thesis using job_found [of z j] j(2) by simp
qed

end
