(* ===== verification/Link16_Authorised.thy ===== *)
theory Link16_Authorised
  imports Link16_Export_Runs
begin

text \<open>
  What an export needs before anything leaves: the conditions of the module's header, stated
  declaratively, and that an export which POSTs met every one of them.
\<close>

declare split_paired_All [simp del] split_paired_Ex [simp del]

section \<open>The conditions\<close>

definition fresh_at :: "bridge_config \<Rightarrow> pytext \<Rightarrow> int \<Rightarrow> int \<Rightarrow> bool" where
  "fresh_at cfg domain now t \<longleftrightarrow> - SKEW_MS \<le> now - t \<and> of_int (now - t) < threshold_of cfg domain \<and>
     of_int (now - t) < bc_outbound_max_age_ms cfg"

text \<open>
  What was given is stored: \<open>octets\<close> hold an object of the model whose canonical form is that of \<open>v\<close>.
\<close>

definition stored_as :: "json_env \<Rightarrow> (bytes \<Rightarrow> json option) \<Rightarrow> bytes option \<Rightarrow> json \<Rightarrow> bool" where
  "stored_as je model octets v \<longleftrightarrow>
     (\<exists>b w. octets = Some b \<and> model b = Some w \<and> je_canonical je w = je_canonical je v)"

text \<open>
  The Entity is the snapshot of the current row, or the one published for another record of the same
  identity whose state is the current one and was not late; the Track is the one published with it.
\<close>

definition record_of ::
    "json_env \<Rightarrow> export_env \<Rightarrow> pytext \<Rightarrow> entity_view \<Rightarrow> current_row \<Rightarrow> db \<Rightarrow> pytext \<Rightarrow> bool" where
  "record_of je xe key e current d record_id \<longleftrightarrow>
     record_id = cu_record current \<and> stored_as je (entity_dump xe) (Some (cu_payload current)) (ev_dump e) \<or>
     record_id \<noteq> cu_record current \<and> ev_original_id e = Some record_id \<and>
       (\<exists>h. SQL_OBSERVATION_STATE key record_id d = Some h \<and> hs_effective_at h = cu_effective_at current \<and>
          hs_sha256 h = cu_sha256 current \<and> \<not> hs_late h) \<and>
       stored_as je (entity_dump xe) (SQL_OUTBOX_PAYLOAD (record_id @ asc '':0'') d) (ev_dump e)"

definition is_snapshot ::
    "json_env \<Rightarrow> export_env \<Rightarrow> pytext \<Rightarrow> entity_view \<Rightarrow> json option \<Rightarrow> current_row \<Rightarrow> db \<Rightarrow> bool" where
  "is_snapshot je xe key e track current d \<longleftrightarrow>
     (\<exists>record_id. record_of je xe key e current d record_id \<and>
        (\<forall>t. track = Some t \<longrightarrow>
           stored_as je (xe_track xe) (SQL_OUTBOX_PAYLOAD (record_id @ asc '':1'') d) t)) \<and>
     (\<exists>stored. xe_entity xe (cu_payload current) = Some stored \<and> \<not> not_projected stored)"

text \<open>
  The source identity is open, the Entity and the Track are its stored snapshot, and its contribution,
  position and motion are fresh.
\<close>

definition source_current ::
    "ingestor \<Rightarrow> export_env \<Rightarrow> entity_view \<Rightarrow> json option \<Rightarrow> int \<Rightarrow> pytext \<Rightarrow> db \<Rightarrow> bool" where
  "source_current ii xe e track now key d \<longleftrightarrow> source_key e = Some key \<and>
     (\<exists>identity current cfg. cfg = ii_config ii \<and>
        SQL_IDENTITY_GET key d = Some identity \<and> id_status identity = ''LIVE'' \<and>
        SQL_CURRENT_GET key d = Some current \<and> cu_contribution current = ''ACTIVE'' \<and>
        is_snapshot (be_json (ii_env ii)) xe key e track current d \<and>
        fresh_at cfg (cu_domain current) now
          (case cu_pos_at current of Some t \<Rightarrow> t | None \<Rightarrow> cu_effective_at current) \<and>
        (\<forall>t. cu_kin_at current = Some t \<longrightarrow> fresh_at cfg (cu_domain current) now t))"

text \<open>A rule names exactly this source and this peer, in one synthetic layer and outside the ingress realm.\<close>

definition rule_permits :: "bridge_config \<Rightarrow> pytext \<Rightarrow> bool \<Rightarrow> policy_rule \<Rightarrow> bool" where
  "rule_permits cfg peer_id synthetic rule \<longleftrightarrow> rule \<in> set (bc_export_policy cfg) \<and>
     pl_source_tenant rule = bc_tenant cfg \<and> pl_source_realm rule = bc_realm cfg \<and>
     pl_source_synthetic rule = synthetic \<and> pl_label_set rule = source_labels cfg \<and>
     ds_peer_id (pl_destination rule) = peer_id \<and> ds_synthetic (pl_destination rule) = synthetic \<and>
     ds_realm (pl_destination rule) \<noteq> bc_realm cfg"

definition export_authorised ::
    "ingestor \<Rightarrow> export_env \<Rightarrow> capabilities \<Rightarrow> entity_view \<Rightarrow> json option \<Rightarrow> pytext \<Rightarrow> int \<Rightarrow> db \<Rightarrow> bool" where
  "export_authorised ii xe cap e track peer_id now d \<longleftrightarrow> (\<exists>cfg. cfg = ii_config ii \<and>
     bc_mode cfg = BIDIRECTIONAL \<and> bc_realm_kind cfg \<noteq> REPLAY_REALM \<and> \<not> not_projected e \<and>
     ch_state (db_channel d) = NORMAL \<and> bc_native_profile cfg \<in> set (cap_native_profiles cap) \<and>
     us_exports (usage_of d) < max_queued_exports (bc_limits cfg) \<and>
     us_export_bytes (usage_of d) < max_queued_export_bytes (bc_limits cfg) \<and>
     (\<exists>key rule. source_current ii xe e track now key d \<and> rule_permits cfg peer_id (ev_synthetic e) rule \<and>
        set (pl_families rule) \<inter> set (bc_transmit_families cfg) \<inter> set (cap_transmit_families cap) \<noteq> {} \<and>
        SQL_ALLOCATION_GET peer_id (ds_realm (pl_destination rule)) key d \<noteq> None))"

text \<open>
  The tick of the reading every age is measured against: the first after the draw of a request id
  that was not given and the two readings of the transaction that checks the lease.
\<close>

definition age_tick :: "pytext option \<Rightarrow> nat \<Rightarrow> nat" where
  "age_tick request_id begun = begun + (if request_id \<in> {None, Some []} then 1 else 0) + 2"

definition holds_lease :: "proc \<Rightarrow> db \<Rightarrow> bool" where
  "holds_lease p d \<longleftrightarrow> (pr_on_begin p \<longrightarrow> (\<exists>l. db_lease d = Some l \<and> pr_held p \<and>
     ls_holder l = pr_holder p \<and> ls_fence l = pr_fence p))"

section \<open>What the checks establish\<close>

lemma freshness_active:
  "freshness_status now t threshold = ''ACTIVE'' \<longleftrightarrow> - SKEW_MS \<le> now - t \<and>
     of_int (now - t) < threshold \<and> of_int (now - t) < 4 * threshold"
  by (auto simp: freshness_status_def Let_def)

lemma age_admitted:
  assumes "age_refusal cfg now c = None"
  shows "fresh_at cfg (cu_domain c) now (case cu_pos_at c of Some t \<Rightarrow> t | None \<Rightarrow> cu_effective_at c)"
    and "cu_kin_at c = Some t \<Longrightarrow> fresh_at cfg (cu_domain c) now t"
proof -
  obtain status motion where oc: "of_current cfg now c = (status, motion)"
    by (cases "of_current cfg now c")
  with assms have a: "status = ''ACTIVE''" "motion = None \<or> motion = Some ''ACTIVE''"
    "\<not> too_old cfg now (case cu_pos_at c of Some t \<Rightarrow> t | None \<Rightarrow> cu_effective_at c)"
    "\<not> (case cu_kin_at c of Some t \<Rightarrow> too_old cfg now t | None \<Rightarrow> False)"
    by (simp_all add: age_refusal_def split: if_splits)
  show "fresh_at cfg (cu_domain c) now (case cu_pos_at c of Some t \<Rightarrow> t | None \<Rightarrow> cu_effective_at c)"
    using oc a(1,3) by (auto simp: of_current_def Let_def fresh_at_def freshness_active too_old_def not_le)
  assume "cu_kin_at c = Some t"
  with oc a(2,4) show "fresh_at cfg (cu_domain c) now t"
    by (auto simp: of_current_def Let_def fresh_at_def freshness_active too_old_def not_le)
qed

lemma resolved_rule:
  assumes "policy_resolve cfg peer_id synthetic = Inr rule"
  shows "rule_permits cfg peer_id synthetic rule"
proof -
  let ?cs = "policy_candidates cfg peer_id synthetic"
  from assms obtain rs where rs: "filter (\<lambda>r. ds_synthetic (pl_destination r) = synthetic) ?cs = rule # rs"
    and realm: "ds_realm (pl_destination rule) \<noteq> bc_realm cfg"
    by (auto simp: policy_resolve_def split: list.splits if_splits)
  have "rule \<in> set (filter (\<lambda>r. ds_synthetic (pl_destination r) = synthetic) ?cs)" unfolding rs by simp
  with realm show ?thesis by (auto simp: rule_permits_def policy_candidates_def)
qed

lemma family_allowed:
  "policy_family rule cfg families = Some f \<Longrightarrow> f \<in> set (pl_families rule) \<inter> set (bc_transmit_families cfg) \<inter> set families"
  by (auto simp: policy_family_def find_Some_iff)

lemma granted_conditions:
  assumes "granted cfg cap peer_id synthetic key current snapshot d = Inr pt"
  shows "\<exists>rule. rule_permits cfg peer_id synthetic rule \<and>
      set (pl_families rule) \<inter> set (bc_transmit_families cfg) \<inter> set (cap_transmit_families cap) \<noteq> {} \<and>
      SQL_ALLOCATION_GET peer_id (ds_realm (pl_destination rule)) key d \<noteq> None"
    and "bc_native_profile cfg \<in> set (cap_native_profiles cap)"
    and "us_exports (usage_of d) < max_queued_exports (bc_limits cfg)"
    and "us_export_bytes (usage_of d) < max_queued_export_bytes (bc_limits cfg)"
proof -
  from assms obtain rule family allocation where
    g: "policy_resolve cfg peer_id synthetic = Inr rule"
      "policy_family rule cfg (cap_transmit_families cap) = Some family"
      "SQL_ALLOCATION_GET peer_id (ds_realm (pl_destination rule)) key d = Some allocation"
      "bc_native_profile cfg \<in> set (cap_native_profiles cap)" "\<not> exports_full (usage_of d) (bc_limits cfg)"
    by (auto simp: granted_def split: sum.splits option.splits if_splits)
  show "\<exists>rule. rule_permits cfg peer_id synthetic rule \<and>
      set (pl_families rule) \<inter> set (bc_transmit_families cfg) \<inter> set (cap_transmit_families cap) \<noteq> {} \<and>
      SQL_ALLOCATION_GET peer_id (ds_realm (pl_destination rule)) key d \<noteq> None"
    using resolved_rule [OF g(1)] family_allowed [OF g(2)] g(3) by blast
  show "bc_native_profile cfg \<in> set (cap_native_profiles cap)"
    "us_exports (usage_of d) < max_queued_exports (bc_limits cfg)"
    "us_export_bytes (usage_of d) < max_queued_export_bytes (bc_limits cfg)"
    using g(4,5) by (simp_all add: exports_full_def not_le)
qed

lemma mbind_Inr:
  "mbind m f x = (Inr a, z) \<longleftrightarrow> (\<exists>b y. m x = (Inr b, y) \<and> f b y = (Inr a, z))"
  by (auto simp: mbind_def split: prod.splits sum.splits)

lemma method_simps [simp]:
  "ret a x = (Inr b, y) \<longleftrightarrow> b = a \<and> y = x"
  "raising e x = (Inr c, z) \<longleftrightarrow> False"
  "look g x = g x x"
  "from_sum s x = (Inr d, w) \<longleftrightarrow> s = Inr d \<and> w = x"
  by (auto simp: ret_def raising_def look_def from_sum_def)

lemma reading_Inr: "reading xs x = (Inr now, y) \<longleftrightarrow> now = xs_clock xs (xp_tick x) \<and> y = x\<lparr>xp_tick := Suc (xp_tick x)\<rparr>"
  by (auto simp: reading_def at_tick_def)

lemma remodelled_stored:
  "remodelled je model octets = Inr (Some (je_canonical je v)) \<Longrightarrow> stored_as je model octets v"
  by (auto simp: remodelled_def stored_as_def split: option.splits)

lemma snapshot_stored:
  assumes "current_snapshot je xe key e track current d = Inr (Some snap)" and "\<not> not_projected (fst snap)"
  shows "is_snapshot je xe key e track current d"
proof -
  from assms(1) obtain stored r where st: "remodelled je (entity_dump xe) (Some (cu_payload current)) = Inr stored"
    and r: "(if stored = Some (je_canonical je (ev_dump e)) then Inr (Some (cu_record current))
            else equal_record je xe key e current d) = Inr (Some r)"
    and s: "stored_snapshot je xe track current r d = Inr (Some snap)"
    by (auto simp: current_snapshot_def rbind_eq_Inr_iff split: option.splits)
  have "record_of je xe key e current d r"
  proof (cases "stored = Some (je_canonical je (ev_dump e))")
    case True
    with r st show ?thesis by (simp add: record_of_def remodelled_stored)
  next
    case False
    with r have "ev_original_id e = Some r" "r \<noteq> cu_record current"
      "\<exists>h. SQL_OBSERVATION_STATE key r d = Some h \<and> hs_effective_at h = cu_effective_at current \<and>
          hs_sha256 h = cu_sha256 current \<and> \<not> hs_late h"
      "remodelled je (entity_dump xe) (published r '':0'' d) = Inr (Some (je_canonical je (ev_dump e)))"
      by (auto simp: equal_record_def rbind_eq_Inr_iff split: option.splits if_splits)
    then show ?thesis by (auto simp: record_of_def published_def intro: remodelled_stored)
  qed
  moreover have "stored_as je (xe_track xe) (SQL_OUTBOX_PAYLOAD (r @ asc '':1'') d) t" if "track = Some t" for t
  proof -
    from s that have "remodelled je (xe_track xe) (published r '':1'' d) = Inr (Some (je_canonical je t))"
      by (auto simp: stored_snapshot_def rbind_eq_Inr_iff split: option.splits if_splits)
    then show ?thesis unfolding published_def by (rule remodelled_stored)
  qed
  moreover from s have "xe_entity xe (cu_payload current) = Some (fst snap)"
    by (auto simp: stored_snapshot_def rbind_eq_Inr_iff split: option.splits if_splits)
  ultimately show ?thesis using assms(2) unfolding is_snapshot_def by blast
qed

lemma source_checked:
  assumes "check_source ii xe xs cap e track peer_id x = (Inr (Inr pt), y)"
  shows "\<exists>key rule. source_current ii xe e track (xs_clock xs (xp_tick x)) key (xp_db x) \<and>
      rule_permits (ii_config ii) peer_id (ev_synthetic e) rule \<and>
      set (pl_families rule) \<inter> set (bc_transmit_families (ii_config ii)) \<inter> set (cap_transmit_families cap) \<noteq> {} \<and>
      SQL_ALLOCATION_GET peer_id (ds_realm (pl_destination rule)) key (xp_db x) \<noteq> None"
    and "bc_native_profile (ii_config ii) \<in> set (cap_native_profiles cap)"
    and "us_exports (usage_of (xp_db x)) < max_queued_exports (bc_limits (ii_config ii))"
    and "us_export_bytes (usage_of (xp_db x)) < max_queued_export_bytes (bc_limits (ii_config ii))"
proof -
  from assms obtain key current where s: "source_of e (xp_db x) = Some (key, current)"
    by (cases "source_of e (xp_db x)") (auto simp: check_source_def)
  let ?now = "xs_clock xs (xp_tick x)"
  from s assms obtain snap where sn: "current_snapshot (be_json (ii_env ii)) xe key e track current (xp_db x) = Inr (Some snap)"
      "\<not> not_projected (fst snap)"
    and r: "age_refusal (ii_config ii) ?now current = None"
    and g: "granted (ii_config ii) cap peer_id (ev_synthetic e) key current snap (xp_db x) = Inr pt"
    by (auto simp: check_source_def mbind_Inr reading_Inr split: option.splits if_splits)
  from s obtain identity where "source_key e = Some key" "SQL_IDENTITY_GET key (xp_db x) = Some identity"
    "id_status identity = ''LIVE''" "SQL_CURRENT_GET key (xp_db x) = Some current" "cu_contribution current = ''ACTIVE''"
    by (auto simp: source_of_def split: option.splits if_splits)
  then have "source_current ii xe e track ?now key (xp_db x)"
    using age_admitted [OF r] snapshot_stored [OF sn] unfolding source_current_def by blast
  with granted_conditions [OF g] show "\<exists>key rule. source_current ii xe e track ?now key (xp_db x) \<and>
      rule_permits (ii_config ii) peer_id (ev_synthetic e) rule \<and>
      set (pl_families rule) \<inter> set (bc_transmit_families (ii_config ii)) \<inter> set (cap_transmit_families cap) \<noteq> {} \<and>
      SQL_ALLOCATION_GET peer_id (ds_realm (pl_destination rule)) key (xp_db x) \<noteq> None"
    "bc_native_profile (ii_config ii) \<in> set (cap_native_profiles cap)"
    "us_exports (usage_of (xp_db x)) < max_queued_exports (bc_limits (ii_config ii))"
    "us_export_bytes (usage_of (xp_db x)) < max_queued_export_bytes (bc_limits (ii_config ii))"
    by blast+
qed

lemma lease_checked:
  assumes "handle (mbind (xtxn xs (\<lambda>fence now d. Inr ((), d))) (\<lambda>_. ret True))
     (\<lambda>error. case error of LeaseLost \<Rightarrow> ret False | _ \<Rightarrow> raising error) x = (Inr True, y)"
  shows "xp_db y = xp_db x" and "xp_tick y = xp_tick x + 2" and "holds_lease (br_proc (xp_bridge x)) (xp_db x)"
proof -
  let ?t = "transaction (xs_faults xs (xp_tick x)) (xs_clock xs (xp_tick x)) True (br_proc (xp_bridge x)) (xp_db x)
      (\<lambda>d. Inr ((), d))"
  obtain c p d where t: "?t = (c, p, d)" by (metis prod_cases3)
  have "xp_db y = xp_db x \<and> xp_tick y = xp_tick x + 2 \<and> holds_lease (br_proc (xp_bridge x)) (xp_db x)"
    using t
  proof (cases rule: transaction_cases)
    case (committed a)
    from assms t committed(1,2) have "xp_db y = xp_db x \<and> xp_tick y = xp_tick x + 2"
      by (auto simp: handle_def mbind_def xtxn_def Let_def ret_def)
    moreover have "holds_lease (br_proc (xp_bridge x)) (xp_db x)"
      using committed(4) by (auto simp: holds_lease_def lease_check_Inr_iff)
    ultimately show ?thesis by blast
  next
    case (raised e)
    from assms t raised(1) show ?thesis
      by (cases e) (auto simp: handle_def mbind_def xtxn_def Let_def ret_def raising_def)
  qed
  then show "xp_db y = xp_db x" "xp_tick y = xp_tick x + 2" "holds_lease (br_proc (xp_bridge x)) (xp_db x)" by blast+
qed

lemma check_granted:
  assumes "check ii xe xs eg e track peer_id x = (Inr (Inr pt), y)"
  shows "\<exists>cap. eg_exports_ready eg \<and> eg_capabilities eg = Some cap \<and>
     export_authorised ii xe cap e track peer_id (xs_clock xs (xp_tick x + 2)) (xp_db x) \<and>
     holds_lease (br_proc (xp_bridge x)) (xp_db x)"
proof -
  let ?lease = "handle (mbind (xtxn xs (\<lambda>fence now d. Inr ((), d))) (\<lambda>_. ret True))
     (\<lambda>error. case error of LeaseLost \<Rightarrow> ret False | _ \<Rightarrow> raising error)"
  from assms have p: "permission (ii_config ii) eg = None"
    by (auto simp: check_def split: option.splits)
  with assms obtain cap where c: "eg_capabilities eg = Some cap" "\<not> not_projected e"
    by (auto simp: check_def split: option.splits if_splits)
  with assms p obtain held z where l: "?lease x = (Inr held, z)"
    and r: "(if \<not> held then ret (Inl ''LEASE_LOST'')
               else look (\<lambda>x.
                 if ch_state (db_channel (xp_db x)) \<noteq> NORMAL then ret (Inl ''CHANNEL_INCOMPLETE'')
                 else check_source ii xe xs cap e track peer_id)) z = (Inr (Inr pt), y)"
    by (auto simp: check_def mbind_Inr)
  then have held: "held" by (auto split: if_splits)
  with l have l': "?lease x = (Inr True, z)" by simp
  from r held have n: "ch_state (db_channel (xp_db z)) = NORMAL"
    and s: "check_source ii xe xs cap e track peer_id z = (Inr (Inr pt), y)"
    by (auto split: if_splits)
  note db = lease_checked(1,2) [OF l']
  from p have m: "bc_mode (ii_config ii) = BIDIRECTIONAL" "bc_realm_kind (ii_config ii) \<noteq> REPLAY_REALM"
    "eg_exports_ready eg"
    by (auto simp: permission_def split: if_splits)
  have "export_authorised ii xe cap e track peer_id (xs_clock xs (xp_tick x + 2)) (xp_db x)"
    using source_checked [OF s] m c(2) n unfolding export_authorised_def db by blast
  with m(3) c(1) lease_checked(3) [OF l'] show ?thesis by blast
qed

section \<open>Nothing leaves otherwise\<close>

lemma ensures_posts_txn:
  "ensures (\<lambda>v. ob_posts v = ps) (xtxn xs body) (\<lambda>_ v. ob_posts v = ps) (\<lambda>v. ob_posts v = ps)"
  by (rule ensures_xtxn) simp_all

lemma denied_posts_nothing:
  "ensures (\<lambda>v. ob_posts v = ps) (deny ii xs r peer_id reason digest losses path)
     (\<lambda>_ v. ob_posts v = ps) (\<lambda>v. ob_posts v = ps)"
  unfolding deny_def
  by (rule ensures_then_ret, rule ensures_handle [OF ensures_posts_txn])
    (auto intro: ensures_rules split: exn.split)

lemma ensures_posts_snd:
  assumes "ensures (\<lambda>v. ob_posts v = ps) m (\<lambda>_ v. ob_posts v = ps) (\<lambda>v. ob_posts v = ps)" and "xp_posts x = ps"
  shows "xp_posts (snd (m x)) = ps"
proof -
  obtain r y where m: "m x = (r, y)" by (cases "m x")
  have "case r of Inr a \<Rightarrow> ob_posts (outbox_of y) = ps | Inl e \<Rightarrow> ob_posts (outbox_of y) = ps"
    by (rule ensuresD [OF assms(1) m]) (simp add: outbox_of_def assms(2))
  with m show ?thesis by (simp add: outbox_of_def split: sum.splits)
qed

lemma check_posts_nothing:
  "ensures (\<lambda>v. ob_posts v = ps) (check ii xe xs eg e track peer_id) (\<lambda>_ v. ob_posts v = ps) (\<lambda>v. ob_posts v = ps)"
  by (rule ensures_check)

lemma chosen_id_frame:
  "chosen_id xs request_id x = (c, y) \<Longrightarrow>
     \<exists>rid t. c = Inr rid \<and> y = x\<lparr>xp_tick := t\<rparr> \<and> t + 2 = age_tick request_id (xp_tick x)"
  by (auto simp: chosen_id_def drawn_def at_tick_def ret_def age_tick_def split: option.splits if_splits)

text \<open>
  C40. Nothing leaves without authority. An export that makes a POST was asked of a bridge whose start
  enabled exports and which held the lease, with a NORMAL channel in bidirectional mode outside
  replay; the Entity's source identity was LIVE with an open contribution, the Entity and the Track
  were the stored snapshot of it, projected with its position, and its state, position and motion were
  each fresh at the clock's reading that followed the lease check; a rule named exactly this source and this peer in one synthetic layer outside
  the ingress realm, with a family that the rule, the configuration and the gateway all allow; the
  native profile was one the gateway offers, a number was allocated and the queue had room.
\<close>

theorem export_posts_only_authorised:
  assumes "bridge_export ii xe xs e track peer_id request_id x = (r, y)" and "xp_posts y \<noteq> xp_posts x"
  shows "\<exists>eg cap. xp_egress x = Some eg \<and> eg_exports_ready eg \<and> eg_capabilities eg = Some cap \<and>
    export_authorised ii xe cap e track peer_id (xs_clock xs (age_tick request_id (xp_tick x))) (xp_db x) \<and>
    holds_lease (br_proc (xp_bridge x)) (xp_db x)"
proof -
  obtain eg where eg: "xp_egress x = Some eg"
    and ex: "egress_export ii xe xs eg e track peer_id request_id x = (r, y)"
    using assms by (cases "xp_egress x") (auto simp: bridge_export_def look_def ret_def)
  obtain c w where c: "chosen_id xs request_id x = (c, w)" by (cases "chosen_id xs request_id x")
  from chosen_id_frame [OF c] obtain rid t where w: "c = Inr rid" "w = x\<lparr>xp_tick := t\<rparr>"
    and t: "t + 2 = age_tick request_id (xp_tick x)" by blast
  have posts: "xp_posts w = xp_posts x" by (simp add: w(2))
  let ?check = "check ii xe xs eg e track peer_id"
  let ?deny = "\<lambda>reason. deny ii xs rid peer_id (asc reason) (objects_digest (be_json (ii_env ii)) e track) [] None"
  obtain v z where v: "?check w = (v, z)" by (cases "?check w")
  have pz: "xp_posts z = xp_posts x"
    using ensures_posts_snd [OF check_posts_nothing posts, of ii xe xs eg e track peer_id] v by simp
  have "job_of rid w = None"
    using ex c w assms(2) by (auto simp: egress_export_def mbind_def look_def ret_def split: option.splits)
  with ex c w(1) v have y: "(case v of Inl er \<Rightarrow> (Inl er, z) | Inr (Inl reason) \<Rightarrow> ?deny reason z
      | Inr (Inr pt) \<Rightarrow> export_allowed ii xe xs eg rid peer_id pt z) = (r, y)"
    by (simp add: egress_export_def mbind_def look_def split: sum.splits)
  have "\<exists>pt. v = Inr (Inr pt)"
  proof (rule ccontr)
    assume no: "\<nexists>pt. v = Inr (Inr pt)"
    then consider er where "v = Inl er" | reason where "v = Inr (Inl reason)" by (metis sum.exhaust)
    then have "xp_posts y = xp_posts x"
    proof cases
      case 1
      with y pz show ?thesis by simp
    next
      case 2
      with y have "?deny reason z = (r, y)" by simp
      then show ?thesis using ensures_posts_snd [OF denied_posts_nothing pz] by (metis snd_conv)
    qed
    with assms(2) show False by simp
  qed
  then obtain pt where "?check w = (Inr (Inr pt), z)" using v by blast
  from check_granted [OF this] eg w(2) t show ?thesis by simp
qed

end
