(* ===== verification/Link16_History.thy ===== *)
theory Link16_History
  imports Link16_Kept
begin

text \<open>
  The current state as a function of the history: what \<open>move_current\<close> does by comparing with one
  stored row refines the choice of the latest observation among all of an identity.
\<close>

declare split_paired_All [simp del] split_paired_Ex [simp del]

section \<open>The specification\<close>

text \<open>The earliest arrival among the observations of the greatest effective time.\<close>

definition later :: "observation_row \<Rightarrow> observation_row option \<Rightarrow> observation_row option" where
  "later h m = (case m of None \<Rightarrow> Some h | Some c \<Rightarrow> if hs_effective_at c < hs_effective_at h then Some h else m)"

definition latest :: "observation_row list \<Rightarrow> observation_row option" where
  "latest hs = fold later hs None"

definition timely :: "pytext \<Rightarrow> db \<Rightarrow> observation_row list" where
  "timely key d = filter (\<lambda>h. hs_key h = key \<and> \<not> hs_late h) (db_observation d)"

type_synonym state_view = "pytext \<times> int \<times> pytext \<times> int option \<times> int option"

definition observed_view :: "observation_row \<Rightarrow> state_view" where
  "observed_view h = (hs_record h, hs_effective_at h, hs_sha256 h, hs_pos_at h, hs_kin_at h)"

definition current_view :: "current_row \<Rightarrow> state_view" where
  "current_view c = (cu_record c, cu_effective_at c, cu_sha256 c, cu_pos_at c, cu_kin_at c)"

definition shows_latest :: "db \<Rightarrow> bool" where
  "shows_latest d \<longleftrightarrow>
     (\<forall>key. map_option current_view (SQL_CURRENT_GET key d) = map_option observed_view (latest (timely key d)))"

lemma latest_append: "latest (hs @ [h]) = later h (latest hs)"
  by (simp add: latest_def)

lemma latest_None: "latest hs = None \<longleftrightarrow> hs = []"
proof (cases hs rule: rev_cases)
  case (snoc hs' h)
  then show ?thesis by (simp add: latest_append later_def split: option.splits)
qed (simp add: latest_def)

lemma latest_greatest: "latest hs = Some m \<Longrightarrow> m \<in> set hs \<and> (\<forall>h \<in> set hs. hs_effective_at h \<le> hs_effective_at m)"
proof (induction hs arbitrary: m rule: rev_induct)
  case (snoc h hs)
  show ?case
  proof (cases "latest hs")
    case None
    then have "hs = []" by (simp add: latest_None)
    with snoc.prems show ?thesis by (auto simp: latest_def later_def)
  next
    case (Some c)
    with snoc.IH [OF Some] snoc.prems show ?thesis by (fastforce simp: latest_append later_def split: if_splits)
  qed
qed (simp add: latest_def)

section \<open>The operations under the specification\<close>

lemma get_on_current:
  "SQL_CURRENT_GET key' (on_current key f d) =
     map_option (if key' = key then f else id) (SQL_CURRENT_GET key' d)"
proof -
  have "map_of (map (\<lambda>(k, c). (k, if k = key then f c else c)) xs) key' =
      map_option (if key' = key then f else id) (map_of xs key')" for xs :: "(pytext \<times> current_row) list"
    by (induction xs) auto
  then show ?thesis by (simp add: SQL_CURRENT_GET_def on_current_def)
qed

lemma view_on_current:
  assumes "\<And>c. current_view (f c) = current_view c"
  shows "map_option current_view (SQL_CURRENT_GET key' (on_current key f d)) =
      map_option current_view (SQL_CURRENT_GET key' d)"
  using assms by (simp add: get_on_current option.map_comp comp_def)

lemma shows_latest_cong:
  assumes "db_observation d' = db_observation d"
    and "\<And>key. map_option current_view (SQL_CURRENT_GET key d') = map_option current_view (SQL_CURRENT_GET key d)"
  shows "shows_latest d' = shows_latest d"
  using assms by (simp add: shows_latest_def timely_def)

lemma shows_latest_same:
  "db_observation d' = db_observation d \<Longrightarrow> db_current d' = db_current d \<Longrightarrow> shows_latest d' = shows_latest d"
  by (rule shows_latest_cong) (simp_all add: SQL_CURRENT_GET_def)

lemma shows_latest_on_current:
  "(\<And>c. current_view (f c) = current_view c) \<Longrightarrow> shows_latest (on_current key f d) = shows_latest d"
  by (rule shows_latest_cong) (simp add: on_current_def, rule view_on_current)

lemma view_put_current:
  "map_option current_view (SQL_CURRENT_GET key' (put_current fence key v payload d)) =
     (if key' = key then Some (rv_record v, rv_effective_at v, rv_digest v, rv_pos_at v, rv_kin_at v)
      else map_option current_view (SQL_CURRENT_GET key' d))"
  by (simp add: put_current_def SQL_CURRENT_PUT_def SQL_CURRENT_GET_def update_conv' current_view_def)

lemma move_current_view:
  assumes "move_current fence key v payload late d = ((flag, conflict), d')"
  shows "map_option current_view (SQL_CURRENT_GET key' d') =
      (if key' = key \<and> flag \<noteq> Some ''LATE'' \<and>
          (case SQL_CURRENT_GET key d of None \<Rightarrow> True | Some c \<Rightarrow> cu_effective_at c < rv_effective_at v)
       then Some (rv_record v, rv_effective_at v, rv_digest v, rv_pos_at v, rv_kin_at v)
       else map_option current_view (SQL_CURRENT_GET key' d))"
proof (cases "SQL_CURRENT_GET key d")
  case None
  with assms show ?thesis
    using view_put_current [of key' fence key v payload d]
    unfolding move_current_def by (auto split: if_split_asm)
next
  case (Some c)
  have conflicted: "map_option current_view (SQL_CURRENT_GET key' (SQL_CURRENT_CONFLICT cid fence key
      (d\<lparr>db_conflict := rows\<rparr>))) = map_option current_view (SQL_CURRENT_GET key' d)" for cid rows
    unfolding SQL_CURRENT_CONFLICT_def
    by (subst view_on_current) (simp_all add: current_view_def SQL_CURRENT_GET_def)
  from assms Some consider "d' = d" "flag = Some ''LATE''"
    | "d' = d" "rv_effective_at v = cu_effective_at c"
    | cid rows where "d' = SQL_CURRENT_CONFLICT cid fence key (d\<lparr>db_conflict := rows\<rparr>)"
        "rv_effective_at v = cu_effective_at c"
    | "d' = put_current fence key v payload d" "flag = None" "cu_effective_at c < rv_effective_at v"
    unfolding move_current_def SQL_CONFLICT_INSERT_def by (auto split: if_split_asm)
  then show ?thesis
    by cases (simp_all add: Some view_put_current conflicted del: map_option_eq_Some)
qed

lemma apply_shows_latest:
  assumes "apply_view be now fence key v objects late flags d = Inr (flag, d')" and "shows_latest d"
  shows "shows_latest d'"
  using assms(1)
proof (rule apply_view_quiet)
  fix payload conflict d1 row
  assume m: "move_current fence key v payload late d = ((flag, conflict), d1)"
    and row: "hs_key row = key" "hs_record row = rv_record v" "hs_effective_at row = rv_effective_at v"
    "hs_sha256 row = rv_digest v" "hs_pos_at row = rv_pos_at v" "hs_kin_at row = rv_kin_at v"
    "hs_late row = (flag = Some ''LATE'')"
    and q: "quiet (d1\<lparr>db_observation := db_observation d1 @ [row]\<rparr>) d'"
  have current: "SQL_CURRENT_GET key' d' = SQL_CURRENT_GET key' d1" for key'
    using q by (simp add: quiet_def SQL_CURRENT_GET_def)
  have history: "db_observation d' = db_observation d @ [row]"
    using q move_frame(3) [OF m] by (simp add: quiet_def)
  show "shows_latest d'"
    unfolding shows_latest_def
  proof
    fix key'
    have old: "map_option current_view (SQL_CURRENT_GET key' d) = map_option observed_view (latest (timely key' d))"
      using assms(2) by (simp add: shows_latest_def)
    show "map_option current_view (SQL_CURRENT_GET key' d') = map_option observed_view (latest (timely key' d'))"
    proof (cases "key' = key \<and> flag \<noteq> Some ''LATE''")
      case False
      then have "timely key' d' = timely key' d" using history row by (auto simp: timely_def)
      with False old show ?thesis
        unfolding current move_current_view [OF m] by auto
    next
      case True
      then have "timely key' d' = timely key' d @ [row]" using history row by (simp add: timely_def)
      moreover have "observed_view row = (rv_record v, rv_effective_at v, rv_digest v, rv_pos_at v, rv_kin_at v)"
        using row by (simp add: observed_view_def)
      ultimately show ?thesis
        unfolding current move_current_view [OF m] using True old row(3)
        by (auto simp: latest_append later_def observed_view_def current_view_def split: option.splits)
    qed
  qed
qed

interpretation history: store_invariant shows_latest ii for ii
proof unfold_locales
  show "shows_latest d'" if "shows_latest d" "quiet d d'" for d d'
    using that shows_latest_same [of d' d] by (simp add: quiet_def)
next
  show "shows_latest d'" if "shows_latest d"
    "resolve_identity (ii_env ii) now fence epoch (max_identities (bc_limits (ii_config ii))) f t d = Inr (dc, d')"
    for d now fence epoch f t dc d' using that by (blast intro: shows_latest_same [THEN iffD2] resolve_frame(2,3))
next
  show "shows_latest d'" if "shows_latest d"
    "lifecycle_rekey (ii_env ii) (ii_config ii) now fence notice t epoch d = Inr (oc, d')"
    for d now fence notice t epoch oc d' using that by (blast intro: shows_latest_same [THEN iffD2] rekey_frame(2,3))
next
  show "shows_latest d'" if "shows_latest d"
    "apply_view (ii_env ii) now fence key v objects late flags d = Inr (flag, d')"
    for d now fence key v objects late flags flag d' using that by (blast intro: apply_shows_latest)
next
  fix d now fence notice t epoch oc d'
  assume I: "shows_latest d" and drop: "lifecycle_drop (ii_env ii) now fence notice t epoch d = Inr (oc, d')"
  from drop show "shows_latest d'"
  proof (rule drop_frame)
    fix key
    assume o: "db_observation d' = db_observation d"
      and c: "db_current d' = db_current d \<or> db_current d' = db_current (SQL_CURRENT_CLOSE fence key d)"
    have closed: "shows_latest (SQL_CURRENT_CLOSE fence key d)"
      unfolding SQL_CURRENT_CLOSE_def using I by (subst shows_latest_on_current) (simp_all add: current_view_def)
    have "db_observation (SQL_CURRENT_CLOSE fence key d) = db_observation d"
      by (simp add: SQL_CURRENT_CLOSE_def on_current_def)
    with o c I closed show ?thesis by (metis shows_latest_same)
  qed
next
  show "shows_latest (SQL_CURRENT_FRESHNESS main motion fence key d)" if "shows_latest d"
    for main motion fence key d
    unfolding SQL_CURRENT_FRESHNESS_def using that
    by (subst shows_latest_on_current) (simp_all add: current_view_def)
qed (simp_all add: shows_latest_def timely_def SQL_CURRENT_GET_def on_channel_def SQL_IDENTITY_EPOCH_RESET_def
    SQL_IDENTITY_EPOCH_KEEP_def)

lemma history_recovery: "recovers_in shows_latest"
  by (simp add: recovers_in_def shows_latest_def timely_def SQL_CURRENT_GET_def on_channel_def)

lemma history_admission: "continues_in ii shows_latest"
  unfolding continues_in_def by (blast intro: shows_latest_same [THEN iffD2] admit_tuple_frame(2,3))

text \<open>
  C32. The current state is the latest of the history. Over any life of a bridge that began on an
  empty store, with every order of arrival, late reports, refreshes, conflicts, drops, resets and
  released reuses, the current row of an identity shows exactly the earliest recorded of its
  timely observations of the greatest effective time; there is no row exactly when there is no
  timely observation; and no timely observation is newer than the row.
\<close>

theorem current_refines_history:
  assumes "br_db s = empty_db"
  shows "map_option current_view (SQL_CURRENT_GET key (br_db (acts ii blank xs s))) =
           map_option observed_view (latest (timely key (br_db (acts ii blank xs s)))) \<and>
         (SQL_CURRENT_GET key (br_db (acts ii blank xs s)) = None \<longleftrightarrow> timely key (br_db (acts ii blank xs s)) = []) \<and>
         (\<forall>c. SQL_CURRENT_GET key (br_db (acts ii blank xs s)) = Some c \<longrightarrow>
            (\<forall>h \<in> set (timely key (br_db (acts ii blank xs s))). hs_effective_at h \<le> cu_effective_at c))"
proof -
  let ?d = "br_db (acts ii blank xs s)"
  have "shows_latest ?d"
    by (rule history.acts_I [OF _ history_recovery history.reuses_I [OF history_admission]])
      (simp add: assms shows_latest_def timely_def empty_db_def SQL_CURRENT_GET_def latest_def)
  then have eq: "map_option current_view (SQL_CURRENT_GET key ?d) = map_option observed_view (latest (timely key ?d))"
    by (simp add: shows_latest_def)
  then have none: "SQL_CURRENT_GET key ?d = None \<longleftrightarrow> timely key ?d = []"
    by (metis latest_None option.map_disc_iff)
  have "hs_effective_at h \<le> cu_effective_at c"
    if c: "SQL_CURRENT_GET key ?d = Some c" and h: "h \<in> set (timely key ?d)" for c h
  proof -
    from eq c obtain m where m: "latest (timely key ?d) = Some m" "observed_view m = current_view c"
      by (cases "latest (timely key ?d)") auto
    with latest_greatest [OF m(1)] h show ?thesis by (auto simp: observed_view_def current_view_def)
  qed
  with eq none show ?thesis by blast
qed

end
