(* ===== verification/Link16_Accounting.thy ===== *)
theory Link16_Accounting
  imports Link16_Actions
begin

text \<open>
  Every record that is fed to the bridge is accounted for once: accepted, refused, a duplicate, or
  reported as dropped for want of capacity.
\<close>

declare split_paired_All [simp del] split_paired_Ex [simp del]

section \<open>Records not yet accounted for\<close>

definition owed :: "db \<Rightarrow> int" where
  "owed d = counter ''fed'' d -
     (counter ''accepted'' d + counter ''refused'' d + counter ''duplicate'' d + counter ''dropped_by_capacity'' d)"

lemma counter_counter_add: "counter name' (counter_add name v d) = counter name' d + (if name' = name then v else 0)"
  by (simp add: counter_def counter_add_def update_conv')

lemma owed_counter_add [simp]:
  "owed (counter_add ''fed'' v d) = owed d + v"
  "owed (counter_add ''accepted'' v d) = owed d - v"
  "owed (counter_add ''refused'' v d) = owed d - v"
  "owed (counter_add ''duplicate'' v d) = owed d - v"
  "owed (counter_add ''dropped_by_capacity'' v d) = owed d - v"
  "owed (counter_add ''late'' v d) = owed d"
  "owed (counter_add ''unsupported'' v d) = owed d"
  "owed (counter_add ''source_drop'' v d) = owed d"
  "owed (counter_add ''duplicate_conflict'' v d) = owed d"
  "owed (counter_add ''quarantine_metadata_only'' v d) = owed d"
  by (simp_all add: owed_def counter_counter_add)

lemma owed_same: "db_counter d' = db_counter d \<Longrightarrow> owed d' = owed d"
  by (simp add: owed_def counter_def)

lemma counters_same:
  "db_counter (on_channel f d) = db_counter d"
  "db_counter (SQL_RAW_INSERT raw d) = db_counter d" "db_counter (SQL_RAW_KEEP octets sha d) = db_counter d"
  "db_counter (SQL_SESSION_PUT session seq d) = db_counter d"
  "db_counter (SQL_QUARANTINE_INSERT row d) = db_counter d"
  "db_counter (SQL_QUARANTINE_RESOLVE now resolution fence qid d) = db_counter d"
  "db_counter (SQL_OPAQUE_INSERT op d) = db_counter d"
  "db_counter (SQL_IDENTITY_TOMBSTONE t record_id fence key d) = db_counter d"
  "db_counter (SQL_IDENTITY_EPOCH_RESET fence epoch d) = db_counter d"
  "db_counter (SQL_IDENTITY_EPOCH_KEEP epoch fence below d) = db_counter d"
  "db_counter (SQL_SAMPLE_INSERT key t sha record_id d) = db_counter d"
  "db_counter (SQL_SAMPLE_REFRESH key t d) = db_counter d"
  "db_counter (SQL_SAMPLE_CONFLICT key t record_id sha d) = db_counter d"
  "db_counter (SQL_RELATION_INSERT rel d) = db_counter d"
  "db_counter (SQL_CURRENT_CLOSE fence key d) = db_counter d"
  "db_counter (SQL_CURRENT_FRESHNESS main motion fence key d) = db_counter d"
  "db_counter (audit_record now fence revision kind subject cd result raw_ref d) = db_counter d"
  "db_counter (publish now fence ek kind payload schema flags d) = db_counter d"
  "db_counter (refusal_audit ii tk batch_sha key cdx res d) = db_counter d"
  by (simp_all add: on_channel_def SQL_RAW_INSERT_def SQL_RAW_KEEP_def SQL_SESSION_PUT_def
      SQL_QUARANTINE_INSERT_def SQL_QUARANTINE_RESOLVE_def SQL_OPAQUE_INSERT_def SQL_IDENTITY_TOMBSTONE_def
      SQL_IDENTITY_EPOCH_RESET_def SQL_IDENTITY_EPOCH_KEEP_def SQL_SAMPLE_INSERT_def SQL_SAMPLE_REFRESH_def
      SQL_SAMPLE_CONFLICT_def SQL_RELATION_INSERT_def SQL_CURRENT_CLOSE_def SQL_CURRENT_FRESHNESS_def
      on_current_def audit_record_def SQL_AUDIT_INSERT_def publish_def SQL_OUTBOX_INSERT_def refusal_audit_def)

lemmas owed_statement [simp] = counters_same [THEN owed_same]

lemma owed_row: "record_row tk sha r key disposition code identity d = Inr d' \<Longrightarrow> owed d' = owed d"
  unfolding record_row_def SQL_INGEST_INSERT_def by (rule owed_same) (auto simp: rbind_eq_Inr_iff)

lemma owed_insert_identity: "insert_identity be fence key f status epoch t1 t2 t3 d = Inr d' \<Longrightarrow> owed d' = owed d"
  unfolding insert_identity_def SQL_IDENTITY_INSERT_def by (rule owed_same) (auto simp: rbind_eq_Inr_iff)

lemma owed_fold: "(\<And>x d. x \<in> set xs \<Longrightarrow> owed (f x d) = owed d) \<Longrightarrow> owed (fold f xs d) = owed d"
  by (induction xs arbitrary: d) auto

lemma owed_supersede [simp]: "owed (supersede_below now fence incarnation siblings d) = owed d"
  unfolding supersede_below_def supersede_def by (intro owed_fold) simp

lemma owed_publish_objects [simp]: "owed (publish_objects now fence record_id objects flags d) = owed d"
  unfolding publish_objects_def by (intro owed_fold) (auto split: prod.splits)

lemma owed_sample [simp]: "owed (record_sample je key v d) = owed d"
  unfolding record_sample_def Let_def by (auto split: option.splits)

lemma owed_contiguity [simp]: "owed (contiguity ii tk b body d) = owed d"
  unfolding contiguity_def stream_gap_def Let_def by (auto split: option.splits prod.splits)

lemma owed_count_body [simp]: "owed (wk_db (count_body ii r w)) = owed (wk_db w)"
  by (simp add: count_body_def on_db_def)

section \<open>What one record pays\<close>

lemma owed_quarantine:
  "quarantine_record ii tk sha r key code path rule identity row w = Inr w' \<Longrightarrow> owed (wk_db w') = owed (wk_db w) - 1"
  by (erule quarantine_record_Inr) (auto dest: owed_row split: if_splits)

lemma owed_opaque: "opaque_record ii tk sha r key code w = Inr w' \<Longrightarrow> owed (wk_db w') = owed (wk_db w) - 1"
  by (erule opaque_record_Inr) (auto dest: owed_row)

lemma owed_move: "move_current fence key v payload late d = (fc, d') \<Longrightarrow> owed d' = owed d"
  unfolding move_current_def put_current_def SQL_CURRENT_PUT_def SQL_CONFLICT_INSERT_def
    SQL_CURRENT_CONFLICT_def on_current_def
  by (auto split: option.splits if_splits intro: owed_same)

lemma owed_apply_view:
  assumes "apply_view be now fence key v objects late flags d = Inr (flag, d')"
  shows "owed d' = owed d - 1"
  using assms
proof (rule apply_view_Inr)
  fix payload conflict d1 row published
  assume m: "move_current fence key v payload late d = ((flag, conflict), d1)"
    and d': "d' = (if flag = Some ''LATE'' then counter_add ''late'' 1 else id) (counter_add ''accepted'' 1
       (publish_objects now fence (rv_record v) objects published
         (record_sample (be_json be) key v (d1\<lparr>db_observation := db_observation d1 @ [row]\<rparr>))))"
  have "owed (d1\<lparr>db_observation := db_observation d1 @ [row]\<rparr>) = owed d1" by (rule owed_same) simp
  with owed_move [OF m] show ?thesis unfolding d' by simp
qed

lemma owed_resolve:
  "resolve_identity be now fence epoch cap f t d = Inr (dc, d') \<Longrightarrow> owed d' = owed d"
  unfolding resolve_identity_def Let_def
  by (auto simp: rbind_eq_Inr_iff owed_insert_identity split: option.splits if_splits)

lemma owed_accept:
  assumes "accept_report ii tk sha r key body vd epoch row w = Inr (res, w')"
  shows "owed (wk_db w') = owed (wk_db w) - 1"
proof -
  from assms obtain t f dc d1 where
    res: "resolve_identity (ii_env ii) (tk_now tk) (tk_fence tk) epoch
            (max_identities (bc_limits (ii_config ii))) f t (wk_db w) = Inr (dc, d1)"
    and rest: "accept_decided ii tk sha r key body vd row f dc (w\<lparr>wk_db := d1\<rparr>) = Inr (res, w')"
    unfolding accept_report_def by (auto simp: rbind_eq_Inr_iff)
  have "owed (wk_db w') = owed d1 - 1"
  proof (cases "dc_accept dc")
    case False
    with rest show ?thesis
      unfolding accept_decided_def Let_def by (auto simp: rbind_eq_Inr_iff dest: owed_quarantine)
  next
    case True
    with rest show ?thesis
      unfolding accept_decided_def apply_state_def
      by (auto simp: rbind_eq_Inr_iff split: if_split_asm dest!: owed_apply_view owed_row)
  qed
  with owed_resolve [OF res] show ?thesis by simp
qed

lemma owed_drop: "lifecycle_drop be now fence notice t epoch d = Inr (oc, d') \<Longrightarrow> owed d' = owed d"
  unfolding lifecycle_drop_def Let_def
  by (auto simp: rbind_eq_Inr_iff owed_insert_identity split: option.splits if_split_asm prod.splits)

lemma owed_rekey: "lifecycle_rekey be cfg now fence notice t epoch d = Inr (oc, d') \<Longrightarrow> owed d' = owed d"
  unfolding lifecycle_rekey_def Let_def
  by (auto simp: rbind_eq_Inr_iff owed_insert_identity split: option.splits if_split_asm)

lemma owed_lifecycle:
  assumes "lifecycle_apply be cfg now fence notice epoch d = Inr (oc, d')"
  shows "owed d' = owed d"
proof -
  from assms obtain t op where
    "(if op = ''DROP_SOURCE'' then lifecycle_drop be now fence notice t epoch d
      else if op = ''REKEY'' then lifecycle_rekey be cfg now fence notice t epoch d
      else if op = ''GAP''
      then Inr (Outcome True None None, on_channel (SQL_CHANNEL_GAP ''GAP'' None None fence) d)
      else Inr (Outcome True None None, on_channel (SQL_CHANNEL_EPOCH fence) d)) = Inr (oc, d')"
    unfolding lifecycle_apply_def
    by (cases "operation_of (the_key notice ''operation'')") (auto simp only: rbind_eq_Inr_iff option.case sum.distinct)
  then show ?thesis
    by (auto simp only: sum.inject prod.inject owed_statement split: if_split_asm dest: owed_drop owed_rekey)
qed

lemma owed_settle:
  "settle_notice ii tk sha r key body oc w = Inr (res, w') \<Longrightarrow> owed (wk_db w') = owed (wk_db w) - 1"
  unfolding settle_notice_def Let_def
  by (auto simp: rbind_eq_Inr_iff split: if_split_asm dest!: owed_quarantine owed_row)

lemma owed_notice:
  assumes "ingest_notice ii tk sha r key body epoch w = Inr (res, w')"
  shows "owed (wk_db w') = owed (wk_db w) - 1"
proof (cases "validate_notice body")
  case (Inl e)
  with assms show ?thesis
    unfolding ingest_notice_def
    by (auto simp: rbind_eq_Inr_iff split: if_split_asm dest: owed_quarantine owed_opaque)
next
  case (Inr x)
  with assms show ?thesis
    unfolding ingest_notice_def
    by (auto simp: rbind_eq_Inr_iff Let_def split: option.splits
        dest!: owed_quarantine owed_settle owed_lifecycle)
qed

lemma owed_report:
  "ingest_report ii tk sha r key body epoch w = Inr (res, w') \<Longrightarrow> owed (wk_db w') = owed (wk_db w) - 1"
  unfolding ingest_report_def Let_def
  by (auto simp: rbind_eq_Inr_iff split: action.splits dest: owed_quarantine owed_opaque owed_accept)

lemma owed_new:
  "ingest_new ii tk b r epoch w = Inr (res, w') \<Longrightarrow> owed (wk_db w') = owed (wk_db w) - 1"
  unfolding ingest_new_def Let_def
  by (auto simp: rbind_eq_Inr_iff split: option.splits if_splits dest: owed_quarantine owed_notice owed_report)

lemma owed_record:
  assumes "ingest_record ii tk b r epoch w = Inr (res, w')"
  shows "owed (wk_db w') = owed (wk_db w)"
proof -
  let ?w = "on_db (contiguity ii tk b (rr_body r) \<circ> counter_add ''fed'' 1) w"
  have fed: "owed (wk_db ?w) = owed (wk_db w) + 1" by (simp add: on_db_def)
  have on: "wk_db (on_db f v) = f (wk_db v)" for f v by (simp add: on_db_def)
  from assms have "owed (wk_db w') = owed (wk_db ?w) - 1"
    unfolding ingest_record_def Let_def
    by (auto simp: rbind_eq_Inr_iff on split: option.splits if_split_asm dest!: owed_quarantine owed_new)
  with fed show ?thesis by simp
qed

lemma owed_records: "ingest_records ii tk b epoch rs w = Inr (ds, w') \<Longrightarrow> owed (wk_db w') = owed (wk_db w)"
proof (induction rs arbitrary: w epoch ds)
  case (Cons r rs)
  from Cons.prems obtain res w1 ds1 where "ingest_record ii tk b r epoch w = Inr (res, w1)"
    "ingest_records ii tk b (if rr_kind r = ''notice'' then ch_epoch (db_channel (wk_db w1)) else epoch) rs w1
       = Inr (ds1, w')"
    by (auto simp: rbind_eq_Inr_iff)
  with Cons.IH show ?case by (metis owed_record)
qed simp

lemma owed_batch: "ingest_batch ii tk b octets cursor_before d = Inr (ds, d') \<Longrightarrow> owed d' = owed d"
  unfolding ingest_batch_def Let_def
  by (auto simp: rbind_eq_Inr_iff dest!: owed_records split: if_split_asm)

lemma owed_idle: "idle_change d d' \<Longrightarrow> owed d' = owed d"
  by (simp add: idle_change_def owed_def ACCOUNTED_def)

interpretation account: life_invariant "\<lambda>d. owed d = n" ii for n ii
proof unfold_locales
  show "owed d' = n" if "owed d = n" "ingest_batch ii tk b octets cursor_before d = Inr (ds, d')"
    for tk b octets cursor_before d ds d' using that owed_batch by metis
next
  show "owed d' = n" if "owed d = n" "idle_change d d'" for d d' using that owed_idle by metis
next
  show "owed (d\<lparr>db_binding := Some binding\<rparr>) = n" if "owed d = n" for d binding
    using that owed_same [of "d\<lparr>db_binding := Some binding\<rparr>" d] by simp
qed simp_all

text \<open>
  C33. Every record is accounted for. Through starts, passes and operator's records, with refused
  and redelivered records, lifecycle notices, batches rolled back, commits that fail and a lost
  count reported at a resynchronisation, the records fed are at every moment exactly those
  accepted, refused, recognised as duplicates or dropped. Only \<open>resolve_reuse\<close> is left out.
\<close>

theorem records_accounted_for:
  assumes "br_db s = empty_db" and "\<forall>x \<in> set xs. \<not> is_ResolveReuse (snd x)"
  shows "counter ''fed'' (br_db (acts ii blank xs s)) =
           counter ''accepted'' (br_db (acts ii blank xs s)) + counter ''refused'' (br_db (acts ii blank xs s)) +
           counter ''duplicate'' (br_db (acts ii blank xs s)) +
           counter ''dropped_by_capacity'' (br_db (acts ii blank xs s))"
proof -
  have "recovers_in (\<lambda>d. owed d = 0)" by (simp add: recovers_in_def)
  then have "owed (br_db (acts ii blank xs s)) = 0"
    by (intro account.acts_I) (use assms in \<open>auto simp: owed_def counter_def empty_db_def\<close>)
  then show ?thesis by (simp add: owed_def)
qed

end
