(* ===== verification/Link16_Redelivery.thy ===== *)
theory Link16_Redelivery
  imports Link16_Invariants
begin

text \<open>
  At-least-once delivery: what a batch has filed under its record keys, and what happens when the
  same batch arrives again, after a lost acknowledgement or a restart.
\<close>

declare split_paired_All [simp del] split_paired_Ex [simp del]

section \<open>The file of dispositions\<close>

definition filed :: "pytext \<Rightarrow> db \<Rightarrow> bool" where
  "filed key d \<longleftrightarrow> key \<in> ig_key ` set (db_ingest d)"

lemma filed_get: "filed key d \<longleftrightarrow> (\<exists>row. SQL_INGEST_GET key d = Some row)"
proof -
  have "SQL_INGEST_GET key d = None \<longleftrightarrow> \<not> filed key d"
    by (auto simp: filed_def SQL_INGEST_GET_def find_None_iff)
  then show ?thesis by fastforce
qed

lemma file_statement [simp]:
  "db_ingest (counter_add name v d) = db_ingest d"
  "db_ingest (on_channel f d) = db_ingest d"
  "db_ingest (SQL_RAW_INSERT raw d) = db_ingest d" "db_ingest (SQL_RAW_KEEP octets sha d) = db_ingest d"
  "db_ingest (SQL_SESSION_PUT session seq d) = db_ingest d"
  "db_ingest (SQL_QUARANTINE_INSERT row d) = db_ingest d"
  "db_ingest (SQL_QUARANTINE_RESOLVE now resolution fence qid d) = db_ingest d"
  "db_ingest (SQL_OPAQUE_INSERT op d) = db_ingest d"
  "db_ingest (SQL_IDENTITY_TOMBSTONE t record_id fence key d) = db_ingest d"
  "db_ingest (SQL_SAMPLE_INSERT key t sha record_id d) = db_ingest d"
  "db_ingest (SQL_SAMPLE_REFRESH key t d) = db_ingest d"
  "db_ingest (SQL_SAMPLE_CONFLICT key t record_id sha d) = db_ingest d"
  "db_ingest (SQL_RELATION_INSERT rel d) = db_ingest d"
  "db_ingest (SQL_CURRENT_CLOSE fence key d) = db_ingest d"
  "db_ingest (audit_record now fence revision kind subject cd result raw_ref d) = db_ingest d"
  "db_ingest (publish now fence ek kind payload schema flags d) = db_ingest d"
  "db_ingest (refusal_audit ii tk batch_sha key cdx res d) = db_ingest d"
  by (simp_all add: counter_add_def on_channel_def SQL_RAW_INSERT_def SQL_RAW_KEEP_def SQL_SESSION_PUT_def
      SQL_QUARANTINE_INSERT_def SQL_QUARANTINE_RESOLVE_def SQL_OPAQUE_INSERT_def SQL_IDENTITY_TOMBSTONE_def
      SQL_SAMPLE_INSERT_def SQL_SAMPLE_REFRESH_def SQL_SAMPLE_CONFLICT_def SQL_RELATION_INSERT_def
      SQL_CURRENT_CLOSE_def on_current_def audit_record_def SQL_AUDIT_INSERT_def publish_def
      SQL_OUTBOX_INSERT_def refusal_audit_def)

lemma file_fold: "(\<And>x d. x \<in> set xs \<Longrightarrow> db_ingest (f x d) = db_ingest d) \<Longrightarrow> db_ingest (fold f xs d) = db_ingest d"
  by (induction xs arbitrary: d) auto

lemma file_composite [simp]:
  "db_ingest (supersede_below now fence incarnation siblings d) = db_ingest d"
  "db_ingest (publish_objects now fence record_id objects flags d) = db_ingest d"
  "db_ingest (record_sample je key v d) = db_ingest d"
  "db_ingest (contiguity ii tk b body d) = db_ingest d"
  "db_ingest (wk_db (count_body ii r w)) = db_ingest (wk_db w)"
proof -
  show "db_ingest (supersede_below now fence incarnation siblings d) = db_ingest d"
    unfolding supersede_below_def supersede_def by (intro file_fold) simp
  show "db_ingest (publish_objects now fence record_id objects flags d) = db_ingest d"
    unfolding publish_objects_def by (intro file_fold) (auto split: prod.splits)
  show "db_ingest (record_sample je key v d) = db_ingest d"
    unfolding record_sample_def Let_def by (auto split: option.splits)
  show "db_ingest (contiguity ii tk b body d) = db_ingest d"
    unfolding contiguity_def stream_gap_def Let_def by (auto split: option.splits prod.splits)
  show "db_ingest (wk_db (count_body ii r w)) = db_ingest (wk_db w)"
    by (simp add: count_body_def on_db_def)
qed

lemma file_insert_identity:
  "insert_identity be fence key f status epoch t1 t2 t3 d = Inr d' \<Longrightarrow> db_ingest d' = db_ingest d"
  unfolding insert_identity_def SQL_IDENTITY_INSERT_def by (auto simp: rbind_eq_Inr_iff)

lemma file_row: "record_row tk sha r key disposition code identity d = Inr d' \<Longrightarrow>
    \<exists>row. ig_key row = key \<and> db_ingest d' = db_ingest d @ [row]"
  unfolding record_row_def SQL_INGEST_INSERT_def insert_row_def
  by (auto simp: rbind_eq_Inr_iff split: if_split_asm)

text \<open>The file after a record: what was there, and the record's key.\<close>

definition files :: "pytext \<Rightarrow> db \<Rightarrow> db \<Rightarrow> bool" where
  "files key d d' \<longleftrightarrow> (\<exists>row. ig_key row = key \<and> db_ingest d' = db_ingest d @ [row])"

lemma files_row:
  "record_row tk sha r key disposition code identity d1 = Inr d2 \<Longrightarrow> db_ingest d1 = db_ingest d \<Longrightarrow>
     db_ingest d' = db_ingest d2 \<Longrightarrow> files key d d'"
  by (drule file_row) (simp add: files_def)

lemma files_filed: "files key d d' \<Longrightarrow> filed key' d' \<longleftrightarrow> key' = key \<or> filed key' d"
  by (auto simp: files_def filed_def)

lemma file_quarantine:
  assumes "quarantine_record ii tk sha r key code path rule identity row w = Inr w'"
  shows "if row then files key (wk_db w) (wk_db w') else db_ingest (wk_db w') = db_ingest (wk_db w)"
  using assms by (elim quarantine_record_Inr) (auto intro: files_row split: if_split_asm)

lemma file_opaque:
  assumes "opaque_record ii tk sha r key code w = Inr w'"
  shows "files key (wk_db w) (wk_db w')"
  using assms by (elim opaque_record_Inr) (auto intro: files_row)

lemma file_move: "move_current fence key v payload late d = (fc, d') \<Longrightarrow> db_ingest d' = db_ingest d"
  unfolding move_current_def put_current_def SQL_CURRENT_PUT_def SQL_CONFLICT_INSERT_def
    SQL_CURRENT_CONFLICT_def on_current_def
  by (auto split: option.splits if_splits)

lemma file_apply_view:
  "apply_view be now fence key v objects late flags d = Inr (flag, d') \<Longrightarrow> db_ingest d' = db_ingest d"
  by (erule apply_view_Inr) (auto dest: file_move)

lemma file_resolve:
  "resolve_identity be now fence epoch cap f t d = Inr (dc, d') \<Longrightarrow> db_ingest d' = db_ingest d"
  unfolding resolve_identity_def Let_def
  by (auto simp: rbind_eq_Inr_iff dest: file_insert_identity split: option.splits if_splits)

lemma file_accept:
  assumes "accept_report ii tk sha r key body vd epoch True w = Inr (res, w')"
  shows "files key (wk_db w) (wk_db w')"
proof -
  from assms obtain t f dc d1 where
    res: "resolve_identity (ii_env ii) (tk_now tk) (tk_fence tk) epoch
            (max_identities (bc_limits (ii_config ii))) f t (wk_db w) = Inr (dc, d1)"
    and rest: "accept_decided ii tk sha r key body vd True f dc (w\<lparr>wk_db := d1\<rparr>) = Inr (res, w')"
    unfolding accept_report_def by (auto simp: rbind_eq_Inr_iff)
  have "files key d1 (wk_db w')"
  proof (cases "dc_accept dc")
    case False
    with rest show ?thesis
      unfolding accept_decided_def Let_def by (auto simp: rbind_eq_Inr_iff dest: file_quarantine)
  next
    case True
    with rest show ?thesis
      unfolding accept_decided_def apply_state_def
      by (auto simp: rbind_eq_Inr_iff dest!: file_apply_view file_row simp: files_def)
  qed
  with file_resolve [OF res] show ?thesis by (simp add: files_def)
qed

lemma file_drop: "lifecycle_drop be now fence notice t epoch d = Inr (oc, d') \<Longrightarrow> db_ingest d' = db_ingest d"
  unfolding lifecycle_drop_def Let_def
  by (auto simp: rbind_eq_Inr_iff dest: file_insert_identity split: option.splits if_split_asm prod.splits)

lemma file_rekey: "lifecycle_rekey be cfg now fence notice t epoch d = Inr (oc, d') \<Longrightarrow> db_ingest d' = db_ingest d"
  unfolding lifecycle_rekey_def Let_def
  by (auto simp: rbind_eq_Inr_iff dest: file_insert_identity split: option.splits if_split_asm)

lemma file_lifecycle:
  assumes "lifecycle_apply be cfg now fence notice epoch d = Inr (oc, d')"
  shows "db_ingest d' = db_ingest d"
proof -
  from assms obtain t op where
    "(if op = ''DROP_SOURCE'' then lifecycle_drop be now fence notice t epoch d
      else if op = ''REKEY'' then lifecycle_rekey be cfg now fence notice t epoch d
      else if op = ''GAP''
      then Inr (Outcome True None None, on_channel (SQL_CHANNEL_GAP ''GAP'' None None fence) d)
      else Inr (Outcome True None None, on_channel (SQL_CHANNEL_EPOCH fence) d)) = Inr (oc, d')"
    unfolding lifecycle_apply_def
    by (cases "operation_of (the_key notice ''operation'')") (auto simp only: rbind_eq_Inr_iff option.case sum.distinct)
  then show ?thesis
    by (auto simp only: sum.inject prod.inject file_statement split: if_split_asm dest: file_drop file_rekey)
qed

lemma file_settle:
  "settle_notice ii tk sha r key body oc w = Inr (res, w') \<Longrightarrow> files key (wk_db w) (wk_db w')"
  unfolding settle_notice_def Let_def
  by (auto simp: rbind_eq_Inr_iff split: if_split_asm dest!: file_quarantine intro: files_row)

lemma file_notice:
  assumes "ingest_notice ii tk sha r key body epoch w = Inr (res, w')"
  shows "files key (wk_db w) (wk_db w')"
proof (cases "validate_notice body")
  case (Inl e)
  with assms show ?thesis
    unfolding ingest_notice_def
    by (auto simp: rbind_eq_Inr_iff split: if_split_asm dest: file_quarantine file_opaque)
next
  case (Inr x)
  show ?thesis
  proof (cases "scope_check (ii_config ii) body")
    case (Some vd)
    with Inr assms show ?thesis
      unfolding ingest_notice_def by (auto simp: rbind_eq_Inr_iff Let_def dest: file_quarantine)
  next
    case None
    with Inr assms obtain oc d1 where
      lc: "lifecycle_apply (ii_env ii) (ii_config ii) (tk_now tk) (tk_fence tk) body epoch (wk_db w) = Inr (oc, d1)"
      and rest: "settle_notice ii tk sha r key body oc (w\<lparr>wk_db := d1\<rparr>) = Inr (res, w')"
      unfolding ingest_notice_def by (auto simp: rbind_eq_Inr_iff)
    from file_settle [OF rest] file_lifecycle [OF lc] show ?thesis by (simp add: files_def)
  qed
qed

lemma file_report:
  "ingest_report ii tk sha r key body epoch w = Inr (res, w') \<Longrightarrow> files key (wk_db w) (wk_db w')"
  unfolding ingest_report_def Let_def
  by (auto simp: rbind_eq_Inr_iff split: action.splits dest: file_quarantine file_opaque file_accept)

lemma file_new:
  "ingest_new ii tk b r epoch w = Inr (res, w') \<Longrightarrow> files (record_key r) (wk_db w) (wk_db w')"
  unfolding ingest_new_def Let_def
  by (auto simp: rbind_eq_Inr_iff split: option.splits if_splits dest: file_quarantine file_notice file_report)

section \<open>A record that arrives again\<close>

text \<open>What the rest of the system can see of a store, and what was decided of earlier records.\<close>

definition outcome_of_ingest where
  "outcome_of_ingest d =
     ((db_outbox d, db_identity d, db_observation d, db_current d, db_sample d),
      (db_conflict d, db_relation d, db_opaque d, db_ingest d, counter ''accepted'' d))"

lemma outcome_statement [simp]:
  "name \<noteq> ''accepted'' \<Longrightarrow> outcome_of_ingest (counter_add name v d) = outcome_of_ingest d"
  "outcome_of_ingest (on_channel f d) = outcome_of_ingest d"
  "outcome_of_ingest (SQL_RAW_INSERT raw d) = outcome_of_ingest d"
  "outcome_of_ingest (SQL_RAW_KEEP octets sha d) = outcome_of_ingest d"
  "outcome_of_ingest (SQL_SESSION_PUT session seq d) = outcome_of_ingest d"
  "outcome_of_ingest (SQL_QUARANTINE_INSERT row d) = outcome_of_ingest d"
  "outcome_of_ingest (audit_record now fence revision kind subject cd result raw_ref d) = outcome_of_ingest d"
  "outcome_of_ingest (refusal_audit ii tk batch_sha key cdx res d) = outcome_of_ingest d"
  by (simp_all add: outcome_of_ingest_def counter_def counter_add_def update_conv' on_channel_def
      SQL_RAW_INSERT_def SQL_RAW_KEEP_def SQL_SESSION_PUT_def SQL_QUARANTINE_INSERT_def audit_record_def
      SQL_AUDIT_INSERT_def refusal_audit_def)

lemma outcome_contiguity [simp]: "outcome_of_ingest (contiguity ii tk b body d) = outcome_of_ingest d"
  unfolding contiguity_def stream_gap_def Let_def by (auto split: option.splits prod.splits)

lemma outcome_quarantine:
  "\<exists>w'. quarantine_record ii tk sha r key code path rule identity False w = Inr w' \<and>
        outcome_of_ingest (wk_db w') = outcome_of_ingest (wk_db w)"
  unfolding quarantine_record_def Let_def by (simp add: count_body_def on_db_def)

definition repeated :: "string \<times> string option \<Rightarrow> bool" where
  "repeated res \<longleftrightarrow> res = (''DUPLICATE'', None) \<or> res = (''QUARANTINED'', Some ''DUPLICATE_CONFLICT'')"

lemma record_again:
  assumes "filed (record_key r) (wk_db w)"
  shows "\<exists>res w'. ingest_record ii tk b r epoch w = Inr (res, w') \<and> repeated res \<and>
           outcome_of_ingest (wk_db w') = outcome_of_ingest (wk_db w)"
proof -
  let ?w = "on_db (contiguity ii tk b (rr_body r) \<circ> counter_add ''fed'' 1) w"
  let ?c = "on_db (counter_add ''duplicate_conflict'' 1 \<circ> on_channel (SQL_CHANNEL_DEGRADE (tk_fence tk))) ?w"
  have on: "wk_db (on_db f v) = f (wk_db v)" for f v by (simp add: on_db_def)
  have same: "outcome_of_ingest (wk_db ?w) = outcome_of_ingest (wk_db w)" by (simp add: on)
  have conflict: "outcome_of_ingest (wk_db ?c) = outcome_of_ingest (wk_db w)" by (simp add: on)
  from assms have "filed (record_key r) (wk_db ?w)" by (simp add: on filed_def)
  then obtain known where known: "SQL_INGEST_GET (record_key r) (wk_db ?w) = Some known"
    by (auto simp: filed_get)
  show ?thesis
  proof (cases "ig_sha256 known = rr_digest r")
    case True
    with known same show ?thesis by (simp add: ingest_record_def Let_def on repeated_def)
  next
    case False
    obtain w' where "quarantine_record ii tk (bt_sha256 b) r (record_key r) ''DUPLICATE_CONFLICT'' (Some ''record_id'')
                     (Some ''same record_id, different content'') None False ?c = Inr w'"
      and "outcome_of_ingest (wk_db w') = outcome_of_ingest (wk_db ?c)"
      using outcome_quarantine by blast
    with False known conflict show ?thesis by (simp add: ingest_record_def Let_def repeated_def)
  qed
qed

lemma record_files:
  assumes "ingest_record ii tk b r epoch w = Inr (res, w')"
  shows "filed (record_key r) (wk_db w')" and "filed key (wk_db w) \<Longrightarrow> filed key (wk_db w')"
proof -
  have "filed (record_key r) (wk_db w') \<and> (filed key (wk_db w) \<longrightarrow> filed key (wk_db w'))"
  proof (cases "filed (record_key r) (wk_db w)")
    case True
    from record_again [OF True, of ii tk b epoch] assms
    have "outcome_of_ingest (wk_db w') = outcome_of_ingest (wk_db w)" by auto
    then have "db_ingest (wk_db w') = db_ingest (wk_db w)" by (simp add: outcome_of_ingest_def)
    with True show ?thesis by (simp add: filed_def)
  next
    case False
    let ?w = "on_db (contiguity ii tk b (rr_body r) \<circ> counter_add ''fed'' 1) w"
    have same: "db_ingest (wk_db ?w) = db_ingest (wk_db w)" by (simp add: on_db_def)
    with False have "SQL_INGEST_GET (record_key r) (wk_db ?w) = None"
      using filed_get [of "record_key r" "wk_db ?w"] by (auto simp: filed_def)
    with assms have "ingest_new ii tk b r epoch ?w = Inr (res, w')" by (simp add: ingest_record_def Let_def)
    with same show ?thesis by (auto dest!: file_new simp: files_def filed_def)
  qed
  then show "filed (record_key r) (wk_db w')" "filed key (wk_db w) \<Longrightarrow> filed key (wk_db w')" by blast+
qed

lemma records_file:
  "ingest_records ii tk b epoch rs w = Inr (ds, w') \<Longrightarrow>
     (\<forall>r \<in> set rs. filed (record_key r) (wk_db w')) \<and> (\<forall>key. filed key (wk_db w) \<longrightarrow> filed key (wk_db w'))"
proof (induction rs arbitrary: w epoch ds)
  case (Cons r rs)
  from Cons.prems obtain res w1 ds1 where 1: "ingest_record ii tk b r epoch w = Inr (res, w1)"
    and 2: "ingest_records ii tk b (if rr_kind r = ''notice'' then ch_epoch (db_channel (wk_db w1)) else epoch) rs w1
       = Inr (ds1, w')"
    by (auto simp: rbind_eq_Inr_iff)
  from record_files [OF 1] Cons.IH [OF 2] show ?case by auto
qed simp

lemma records_again:
  "\<forall>r \<in> set rs. filed (record_key r) (wk_db w) \<Longrightarrow>
   \<exists>ds w'. ingest_records ii tk b epoch rs w = Inr (ds, w') \<and> length ds = length rs \<and>
     (\<forall>x \<in> set ds. repeated (snd x)) \<and> outcome_of_ingest (wk_db w') = outcome_of_ingest (wk_db w)"
proof (induction rs arbitrary: w epoch)
  case (Cons r rs)
  from Cons.prems obtain res w1 where 1: "ingest_record ii tk b r epoch w = Inr (res, w1)" "repeated res"
    "outcome_of_ingest (wk_db w1) = outcome_of_ingest (wk_db w)"
    using record_again by (metis list.set_intros(1))
  have "\<forall>r \<in> set rs. filed (record_key r) (wk_db w1)"
    using Cons.prems record_files(2) [OF 1(1)] by simp
  from Cons.IH [OF this, of "if rr_kind r = ''notice'' then ch_epoch (db_channel (wk_db w1)) else epoch"]
  obtain ds w' where 2: "ingest_records ii tk b
      (if rr_kind r = ''notice'' then ch_epoch (db_channel (wk_db w1)) else epoch) rs w1 = Inr (ds, w')"
    "length ds = length rs" "\<forall>x \<in> set ds. repeated (snd x)"
    "outcome_of_ingest (wk_db w') = outcome_of_ingest (wk_db w1)" by blast
  obtain disposition code where "res = (disposition, code)" by (cases res)
  with 1 2 show ?case by (simp add: Let_def)
qed simp

text \<open>
  C34. Redelivery is harmless. When a batch that was committed arrives again, at any later time and
  under any fence, at a store that still has the dispositions filed by the first delivery, it is
  consumed without an error; every one of its records is found to be a duplicate or a conflicting
  duplicate; and nothing else that was derived from the first delivery changes: no event is
  published, no identity, observation, current row, sample, conflict, relation or disposition is
  touched and nothing is counted as accepted twice.
\<close>

theorem redelivery_publishes_nothing:
  assumes "ingest_batch ii tk b octets cursor_before d = Inr (ds, d1)"
    and "\<forall>key. filed key d1 \<longrightarrow> filed key e"
  shows "\<exists>ds' e'. ingest_batch ii tk' b octets' cursor_before' e = Inr (ds', e') \<and>
           length ds' = length (bt_records b) \<and> (\<forall>x \<in> set ds'. repeated (snd x)) \<and>
           outcome_of_ingest e' = outcome_of_ingest e"
proof -
  let ?raw = "\<lambda>tk c. \<lparr>rw_sha256 = bt_sha256 b, rw_received_at = tk_now tk,
            rw_cursor_before = c, rw_bytes = bt_size b, rw_body = None, rw_fence = tk_fence tk\<rparr>"
  from assms(1) obtain w' where first: "ingest_records ii tk b (ch_epoch (db_channel (SQL_RAW_INSERT (?raw tk cursor_before) d)))
      (bt_records b) \<lparr>wk_db = SQL_RAW_INSERT (?raw tk cursor_before) d, wk_evidence = False,
        wk_used = Some (quarantine_bytes (SQL_RAW_INSERT (?raw tk cursor_before) d))\<rparr> = Inr (ds, w')"
    and "db_ingest d1 = db_ingest (wk_db w')"
    unfolding ingest_batch_def Let_def by (auto simp: rbind_eq_Inr_iff split: if_split_asm)
  then have "\<forall>r \<in> set (bt_records b). filed (record_key r) d1"
    using records_file [OF first] by (simp add: filed_def)
  with assms(2) have again: "\<forall>r \<in> set (bt_records b). filed (record_key r) (SQL_RAW_INSERT (?raw tk' cursor_before') e)"
    by (simp add: filed_def)
  let ?e = "SQL_RAW_INSERT (?raw tk' cursor_before') e"
  from again records_again [of "bt_records b" "\<lparr>wk_db = ?e, wk_evidence = False, wk_used = Some (quarantine_bytes ?e)\<rparr>"
      ii tk' b "ch_epoch (db_channel ?e)"]
  obtain ds' v where "ingest_records ii tk' b (ch_epoch (db_channel ?e)) (bt_records b)
      \<lparr>wk_db = ?e, wk_evidence = False, wk_used = Some (quarantine_bytes ?e)\<rparr> = Inr (ds', v)"
    "length ds' = length (bt_records b)" "\<forall>x \<in> set ds'. repeated (snd x)"
    "outcome_of_ingest (wk_db v) = outcome_of_ingest ?e" by auto
  then show ?thesis unfolding ingest_batch_def Let_def by auto
qed

text \<open>
  The sequence check is not part of what deduplication protects: a body that is no sound JSON takes
  the next sequence each time it arrives. After one delivery of it a jump over a missing record is
  reported as a gap; after a redelivery the same jump is not.
\<close>

lemma faulty_redelivery_masks_gap:
  assumes "map_of (db_session d) (bt_session_id b) = Some n"
    and "readable_sequence body = Some (bt_session_id b, n + 3)" and "ch_incomplete (db_channel d) = None"
  shows "ch_incomplete (db_channel (contiguity ii tk b (Some body) (contiguity ii tk b None d))) = Some ''STREAM_GAP''"
    and "ch_incomplete (db_channel (contiguity ii tk b (Some body)
           (contiguity ii tk b None (contiguity ii tk b None d)))) = None"
  using assms
  by (simp_all add: contiguity_def SQL_SESSION_PUT_def update_conv' stream_gap_def on_channel_def
      SQL_CHANNEL_GAP_def coalesce_def audit_record_def SQL_AUDIT_INSERT_def)

end
