(* ===== verification/Link16_Dispatch.thy ===== *)
theory Link16_Dispatch
  imports Link16_Ingest
begin

text \<open>
  The dispatch of the outbox: which events a pass hands to the sink, in which order, and what it
  leaves pending for the next one.
\<close>

lemma pending_mark:
  "SQL_OUTBOX_PENDING (SQL_OUTBOX_MARK now key d) = filter (\<lambda>r. ox_key r \<noteq> key) (SQL_OUTBOX_PENDING d)"
proof -
  have "filter (\<lambda>r. ox_dispatched_at r = None)
      (update_where (\<lambda>r. ox_key r = key) (ox_dispatched_at_update (\<lambda>_. Some now)) rows) =
    filter (\<lambda>r. ox_key r \<noteq> key) (filter (\<lambda>r. ox_dispatched_at r = None) rows)" for rows :: "outbox_row list"
    by (induction rows) (auto simp: update_where_def)
  then show ?thesis
    unfolding SQL_OUTBOX_PENDING_def SQL_OUTBOX_MARK_def by (simp add: filter_sort)
qed

lemma pending_keys: "distinct (map ox_key (db_outbox d)) \<Longrightarrow> distinct (map ox_key (SQL_OUTBOX_PENDING d))"
proof -
  assume "distinct (map ox_key (db_outbox d))"
  then have "distinct (map ox_key (filter (\<lambda>r. ox_dispatched_at r = None) (db_outbox d)))"
    by (induction "db_outbox d" arbitrary: d) (auto simp: distinct_map_filter)
  then show ?thesis
    unfolding SQL_OUTBOX_PENDING_def by (simp add: distinct_map inj_on_def)
qed

lemma mark_keys: "map ox_key (db_outbox (SQL_OUTBOX_MARK now key d)) = map ox_key (db_outbox d)"
  by (auto simp: SQL_OUTBOX_MARK_def update_where_def)

definition mark_all :: "int \<Rightarrow> pytext set \<Rightarrow> db \<Rightarrow> db" where
  "mark_all now keys d = d\<lparr>db_outbox :=
     update_where (\<lambda>r. ox_key r \<in> keys) (ox_dispatched_at_update (\<lambda>_. Some now)) (db_outbox d)\<rparr>"

lemma mark_all_empty [simp]: "mark_all now {} d = d"
  by (simp add: mark_all_def update_where_def)

lemma mark_all_mark: "mark_all now keys (SQL_OUTBOX_MARK now key d) = mark_all now (insert key keys) d"
  unfolding mark_all_def SQL_OUTBOX_MARK_def update_where_def by auto

definition refused_event :: "outbox_row list \<Rightarrow> pytext option" where
  "refused_event rest = (case rest of [] \<Rightarrow> None | e # _ \<Rightarrow> Some (ox_key e))"

text \<open>The check of the lease does not see the outbox or the mark a commit leaves.\<close>

lemma lease_check_mark:
  assumes "lease_check flt now p d = (Inr (), p)"
  shows "lease_check flt now (p\<lparr>pr_commit_failed := x\<rparr>) (SQL_OUTBOX_MARK now key d)
       = (Inr (), p\<lparr>pr_commit_failed := x\<rparr>)"
  using assms by (auto simp: lease_check_Inr_iff SQL_OUTBOX_MARK_def)

lemma dispatch_events_pending:
  assumes "lease_check flt now p d = (Inr (), p)" "\<not> commit_fails flt"
    and "distinct (map ox_key (db_outbox d))" "es = SQL_OUTBOX_PENDING d"
  shows "\<exists>p'. dispatch_events flt now sink es n p d =
           (Inr (n + length (takeWhile sink es), refused_event (dropWhile sink es)), p',
            mark_all now (ox_key ` set (takeWhile sink es)) d) \<and>
         SQL_OUTBOX_PENDING (mark_all now (ox_key ` set (takeWhile sink es)) d) = dropWhile sink es"
  using assms
proof (induction es arbitrary: n p d)
  case Nil
  then show ?case by (simp add: refused_event_def)
next
  case (Cons e es)
  show ?case
  proof (cases "sink e")
    case False
    with Cons.prems(4) [symmetric] show ?thesis by (simp add: refused_event_def)
  next
    case True
    let ?p = "p\<lparr>pr_commit_failed := False\<rparr>" and ?d = "SQL_OUTBOX_MARK now (ox_key e) d"
    have "transaction flt now True p d (\<lambda>d. Inr ((), SQL_OUTBOX_MARK now (ox_key e) d)) = (Inr (), ?p, ?d)"
      using Cons.prems(1,2) by (simp add: transaction_def)
    then have step: "dispatch_events flt now sink (e # es) n p d = dispatch_events flt now sink es (Suc n) ?p ?d"
      using True by simp
    have keys: "distinct (map ox_key (e # es))" using pending_keys [OF Cons.prems(3)] Cons.prems(4) by simp
    then have rest: "es = SQL_OUTBOX_PENDING ?d"
      unfolding pending_mark Cons.prems(4) [symmetric] by (auto intro!: filter_True [symmetric] simp: image_iff)
    have "distinct (map ox_key (db_outbox ?d))" using Cons.prems(3) by (simp add: mark_keys)
    from Cons.IH [OF lease_check_mark [OF Cons.prems(1)] Cons.prems(2) this rest, of "Suc n"]
    show ?thesis using True step by (simp add: mark_all_mark)
  qed
qed

text \<open>
  C35. The outbox is delivered in order and drained. While the lease is held and commits succeed, a
  dispatch hands the sink the pending events by age and key up to the first it refuses, marks
  exactly those it took as dispatched, reports their number and the refused event, and leaves the
  rest pending in the same order; a sink that takes everything leaves nothing pending.
\<close>

theorem dispatch_drains_in_order:
  assumes "lease_check flt now p d = (Inr (), p)" "\<not> commit_fails flt" "distinct (map ox_key (db_outbox d))"
  shows "(\<exists>p' d'. dispatch flt now sink p d =
            (Inr (length (takeWhile sink (SQL_OUTBOX_PENDING d)), refused_event (dropWhile sink (SQL_OUTBOX_PENDING d))),
             p', d') \<and>
          SQL_OUTBOX_PENDING d' = dropWhile sink (SQL_OUTBOX_PENDING d) \<and>
          d' = mark_all now (ox_key ` set (takeWhile sink (SQL_OUTBOX_PENDING d))) d) \<and>
         ((\<forall>e. sink e) \<longrightarrow> SQL_OUTBOX_PENDING (snd (snd (dispatch flt now sink p d))) = [])"
proof -
  from dispatch_events_pending [OF assms refl, of sink 0] obtain p' where
    *: "dispatch flt now sink p d =
            (Inr (length (takeWhile sink (SQL_OUTBOX_PENDING d)), refused_event (dropWhile sink (SQL_OUTBOX_PENDING d))),
             p', mark_all now (ox_key ` set (takeWhile sink (SQL_OUTBOX_PENDING d))) d)"
    "SQL_OUTBOX_PENDING (mark_all now (ox_key ` set (takeWhile sink (SQL_OUTBOX_PENDING d))) d)
       = dropWhile sink (SQL_OUTBOX_PENDING d)" by (auto simp: dispatch_def)
  have "dropWhile sink es = []" if "\<forall>e. sink e" for es :: "outbox_row list"
    using that by (simp add: dropWhile_eq_Nil_conv)
  with * show ?thesis by auto
qed

end
