(* ===== verification/Link16_Samples.thy ===== *)
theory Link16_Samples
  imports Link16_Kept Link16_History Link16_Accounting Link16_Redelivery Link16_Dispatch "HOL-Library.Code_Target_Nat"
begin

text \<open>
  A concrete channel, gateway and run on which the properties of the bridge are shown to apply: a
  start, a pass that ingests one report, the redelivery of its batch, an expired cursor and a lost
  connection.
\<close>

definition sample_caps :: caps where
  "sample_caps = \<lparr>max_identities = 1, max_queued_reports = 10, max_queued_report_bytes = 100,
     max_queued_exports = 10, max_queued_export_bytes = 100, max_quarantine_bytes = 100,
     fetch_limit = 100, batch_retry_max = 3, max_body_bytes = 1024\<rparr>"

definition sample_config :: bridge_config where
  "sample_config =
     \<lparr>bc_revision = asc ''rev1'', bc_mode = INGEST, bc_gateway_base_url = asc ''https://gw'',
      bc_gateway_id = asc ''gw'', bc_consumer_id = asc ''me'', bc_credential_ref = asc ''env:GW'', bc_tenant = asc ''t'', bc_realm = asc ''r'', bc_realm_kind = EXERCISE_REALM, bc_synthetic = True,
      bc_security_context = asc ''s'', bc_scopes = [asc ''o''], bc_native_profile = asc ''n'',
      bc_cdm_schema_version = [asc ''3.1.0''], bc_receive_families = [], bc_required_families = [],
      bc_transmit_families = [], bc_export_policy = [], bc_number_allocations_ref = None, bc_peer_profile = None,
      bc_freshness_ms = [(asc ''AIR'', 60000)], bc_request_deadline = 25, bc_long_poll = 20,
      bc_connect_timeout = 5, bc_transport_allowance = 2, bc_outbound_max_age_ms = 1000,
      bc_limits = sample_caps, bc_store_path = asc ''s'', bc_lease_ttl = 30, bc_idle_poll = 1\<rparr>"

definition sample_session :: pytext where
  "sample_session = asc ''01234567-89ab-cdef-0123-456789abcdef''"

definition sample_body :: jobject where
  "sample_body =
     [(asc ''record_id'', JStr (asc ''r1'')), (asc ''session_id'', JStr sample_session),
      (asc ''sequence'', JStr (asc ''0'')), (asc ''tenant'', JStr (asc ''t'')), (asc ''realm'', JStr (asc ''r'')),
      (asc ''synthetic'', JBool True), (asc ''origin_scope'', JStr (asc ''o'')),
      (asc ''track_number'', JStr (asc ''00001'')), (asc ''incarnation'', JStr (asc ''0'')),
      (asc ''effective_at'', JStr (asc ''1970-01-01T00:00:01.000Z'')), (asc ''position'', JNull),
      (asc ''kinematics'', JNull), (asc ''domain'', JStr (asc ''AIR''))]"

definition sample_document :: json where
  "sample_document = JObj
     [(asc ''session_id'', JStr sample_session), (asc ''next_cursor'', JStr (asc ''c1'')),
      (asc ''has_more'', JBool False),
      (asc ''records'', JArr [JObj [(asc ''kind'', JStr (asc ''report'')), (asc ''body'', JObj sample_body)]])]"

text \<open>The functions of the library at hand: a reader that knows this one document.\<close>

definition sample_json :: json_env where
  "sample_json = \<lparr>je_utf8 = (\<lambda>octets. Some (map unat octets)), je_depth = (\<lambda>_. 4), je_loads = (\<lambda>_. Some sample_document),
     je_canonical = (\<lambda>_. [1]), je_sha256 = map unat, je_fault_bytes = (\<lambda>_. [])\<rparr>"

definition sample_env :: bridge_env where
  "sample_env = \<lparr>be_json = sample_json, be_derive = (\<lambda>kind key. asc kind @ key),
     be_fields_of = (\<lambda>_. \<lparr>it_tenant = [], it_realm = [], it_synthetic = True, it_scope = [], it_number = [],
       it_incarnation = []\<rparr>),
     be_closed = (\<lambda>payload t. Inr (payload, asc ''3.1.0''))\<rparr>"

definition sample_ingestor :: ingestor where
  "sample_ingestor = \<lparr>ii_env = sample_env, ii_config = sample_config,
     ii_adapter = (\<lambda>_. AdapterObjects [\<lparr>co_payload = [7], co_schema = asc ''3.1.0''\<rparr>] False), ii_families = []\<rparr>"

definition sample_surroundings :: "int \<Rightarrow> fetch_answer \<Rightarrow> surroundings" where
  "sample_surroundings now answer =
     \<lparr>su_now = now, su_faults = NO_FAULTS, su_reports = (\<lambda>_. answer), su_ack = (\<lambda>_. True),
      su_sink = (\<lambda>_. True), su_jitter = 1, su_eighty = (\<lambda>n. of_nat n)\<rparr>"

definition sample_start :: start_surroundings where
  "sample_start =
     \<lparr>ss_installed_ok = True,
      ss_capabilities = Some \<lparr>cap_gateway_id = asc ''gw'', cap_native_profiles = [], cap_receive_families = [],
        cap_transmit_families = [], cap_max_batch = 100, cap_replay_window_seconds = 60\<rparr>,
      ss_native_active = False, ss_accepts = [asc ''3.1.0''], ss_installed = asc ''3.1.0'',
      ss_binding = asc ''b''\<rparr>"

definition sample_bridge :: bridge where
  "sample_bridge =
     \<lparr>br_proc = new_proc (asc ''h'') 10000, br_db = empty_db, br_status = BLOCKED, br_blocked = [],
      br_started = False, br_provider_ready = False, br_projection = None, br_exports = False,
      br_refetch = (False, None), br_sink_failed = None, br_warned = [], br_waited = False,
      br_backoff = \<lparr>bo_step = 0, bo_stable_since = None\<rparr>\<rparr>"

definition sample_run :: "(surroundings \<times> life_event) list" where
  "sample_run =
     [(sample_surroundings 0 TransportFailed, Start sample_start),
      (sample_surroundings 1000 (Fetched [1, 2, 3]), Pass)]"

definition sample_gap :: "(surroundings \<times> life_event) list" where
  "sample_gap =
     [(sample_surroundings 0 TransportFailed, Start sample_start),
      (sample_surroundings 2000 (CursorExpired None), Pass),
      (sample_surroundings 3000 TransportFailed, Resync (asc ''seen'') (Some 5))]"

abbreviation sample_acts :: "(surroundings \<times> life_event) list \<Rightarrow> bridge" where
  "sample_acts xs \<equiv> acts sample_ingestor (\<lambda>evidence. evidence = []) xs sample_bridge"

definition sample_key :: pytext where
  "sample_key = key_of \<lparr>it_tenant = asc ''t'', it_realm = asc ''r'', it_synthetic = True, it_scope = asc ''o'',
     it_number = asc ''00001'', it_incarnation = asc ''0''\<rparr>"

definition summary :: "db \<Rightarrow> (int \<times> int \<times> int \<times> nat) \<times> state_view option" where
  "summary d = ((counter ''fed'' d, counter ''accepted'' d, counter ''duplicate'' d, SQL_IDENTITY_COUNT_LIVE d),
     map_option observed_view (latest (timely sample_key d)))"

lemma sample_starts_empty: "br_db sample_bridge = empty_db"
  by (simp add: sample_bridge_def)

lemma sample_summary:
  "summary (br_db (sample_acts sample_run)) = ((1, 1, 0, 1), Some (asc ''r1'', 1000, [1], None, None))"
  by code_simp

lemma sample_gap_recorded: "ch_incomplete (db_channel (br_db (sample_acts sample_gap))) = Some ''CURSOR_EXPIRED''"
  by code_simp

lemma gap_persists_witness:
  "\<not> health_ready (sample_acts (sample_gap @ [(sample_surroundings 4000 TransportFailed, Pass)])) \<and>
   ch_incomplete (db_channel (br_db (sample_acts (sample_gap @ [(sample_surroundings 4000 TransportFailed, Pass)]))))
     = Some ''CURSOR_EXPIRED''"
  using gap_persists [OF sample_starts_empty sample_gap_recorded,
      of "[(sample_surroundings 4000 TransportFailed, Pass)]"] by simp

lemma live_identities_capped_witness:
  "SQL_IDENTITY_COUNT_LIVE (br_db (sample_acts sample_run)) = 1 \<and>
   SQL_IDENTITY_COUNT_LIVE (br_db (sample_acts sample_run)) \<le> max_identities sample_caps"
proof
  show "SQL_IDENTITY_COUNT_LIVE (br_db (sample_acts sample_run)) = 1"
    using sample_summary by (simp add: summary_def)
  have "SQL_IDENTITY_COUNT_LIVE (br_db sample_bridge) \<le> max_identities (bc_limits (ii_config sample_ingestor))"
    by code_simp
  from live_identities_capped [OF this, of sample_run]
  show "SQL_IDENTITY_COUNT_LIVE (br_db (sample_acts sample_run)) \<le> max_identities sample_caps"
    by (simp add: sample_run_def sample_ingestor_def sample_config_def)
qed

lemma current_refines_history_witness:
  "map_option current_view (SQL_CURRENT_GET sample_key (br_db (sample_acts sample_run))) =
     Some (asc ''r1'', 1000, [1], None, None)"
proof -
  have "map_option observed_view (latest (timely sample_key (br_db (sample_acts sample_run)))) =
      Some (asc ''r1'', 1000, [1], None, None)"
    using sample_summary by (simp only: summary_def prod.inject)
  with current_refines_history [OF sample_starts_empty, of sample_key sample_ingestor "\<lambda>evidence. evidence = []" sample_run]
  show ?thesis by argo
qed

lemma records_accounted_for_witness:
  "counter ''fed'' (br_db (sample_acts sample_run)) = 1 \<and>
   counter ''refused'' (br_db (sample_acts sample_run)) +
     counter ''dropped_by_capacity'' (br_db (sample_acts sample_run)) = 0"
proof -
  have "\<forall>x \<in> set sample_run. \<not> is_ResolveReuse (snd x)" by (simp add: sample_run_def)
  from records_accounted_for [OF sample_starts_empty this, of sample_ingestor "\<lambda>evidence. evidence = []"] sample_summary
  show ?thesis by (simp add: summary_def)
qed

definition sample_batch :: batch where
  "sample_batch = \<lparr>bt_session_id = sample_session, bt_next_cursor = asc ''c1'', bt_has_more = False,
     bt_records = [sound_record sample_json 0 ''report'' sample_body], bt_sha256 = [1, 2, 3], bt_size = 3\<rparr>"

lemma sample_first_delivery:
  "case ingest_batch sample_ingestor \<lparr>tk_now = 1000, tk_fence = 1\<rparr> sample_batch [1, 2, 3] None empty_db of
     Inr (ds, d1) \<Rightarrow> map snd ds = [(''ACCEPTED'', None)] | Inl e \<Rightarrow> False"
  by code_simp

lemma redelivery_publishes_nothing_witness:
  "\<exists>ds d1 ds' e'. ingest_batch sample_ingestor \<lparr>tk_now = 1000, tk_fence = 1\<rparr> sample_batch [1, 2, 3] None empty_db
        = Inr (ds, d1) \<and> map snd ds = [(''ACCEPTED'', None)] \<and>
     ingest_batch sample_ingestor \<lparr>tk_now = 2000, tk_fence = 2\<rparr> sample_batch [1, 2, 3] None d1 = Inr (ds', e') \<and>
     (\<forall>x \<in> set ds'. repeated (snd x)) \<and> outcome_of_ingest e' = outcome_of_ingest d1"
proof -
  from sample_first_delivery obtain ds d1 where
    1: "ingest_batch sample_ingestor \<lparr>tk_now = 1000, tk_fence = 1\<rparr> sample_batch [1, 2, 3] None empty_db = Inr (ds, d1)"
      "map snd ds = [(''ACCEPTED'', None)]"
    by (auto split: sum.splits)
  have 2: "\<forall>key. filed key d1 \<longrightarrow> filed key d1" by simp
  obtain ds' e' where 3: "ingest_batch sample_ingestor \<lparr>tk_now = 2000, tk_fence = 2\<rparr> sample_batch [1, 2, 3] None d1
      = Inr (ds', e')" "\<forall>x \<in> set ds'. repeated (snd x)" "outcome_of_ingest e' = outcome_of_ingest d1"
    using redelivery_publishes_nothing [OF 1(1) 2, of "\<lparr>tk_now = 2000, tk_fence = 2\<rparr>" "[1, 2, 3]" None] by blast
  show ?thesis by (intro exI conjI) (rule 1 3)+
qed

definition sample_event :: "string \<Rightarrow> int \<Rightarrow> outbox_row" where
  "sample_event key t = \<lparr>ox_key = asc key, ox_kind = ''cdm'', ox_payload = [], ox_schema = None, ox_flags = [],
     ox_bytes = 0, ox_created_at = t, ox_dispatched_at = None, ox_fence = 1\<rparr>"

definition sample_queue :: db where
  "sample_queue = empty_db\<lparr>db_lease := Some \<lparr>ls_holder = asc ''h'', ls_fence = 1, ls_expires_at = 100\<rparr>,
     db_outbox := [sample_event ''b'' 2, sample_event ''a'' 1]\<rparr>"

definition sample_holder :: proc where
  "sample_holder = (new_proc (asc ''h'') 100)\<lparr>pr_fence := 1, pr_held := True, pr_store_fence := 1, pr_on_begin := True\<rparr>"

lemma dispatch_drains_in_order_witness:
  "fst (dispatch NO_FAULTS 10 (\<lambda>e. ox_key e = asc ''a'') sample_holder sample_queue) = Inr (1, Some (asc ''b'')) \<and>
   SQL_OUTBOX_PENDING (snd (snd (dispatch NO_FAULTS 10 (\<lambda>e. True) sample_holder sample_queue))) = []"
proof -
  have h: "lease_check NO_FAULTS 10 sample_holder sample_queue = (Inr (), sample_holder)" "\<not> commit_fails NO_FAULTS"
    "distinct (map ox_key (db_outbox sample_queue))"
    by (simp_all add: lease_check_Inr_iff sample_queue_def sample_holder_def new_proc_def NO_FAULTS_def empty_db_def)
      code_simp
  have "SQL_OUTBOX_PENDING sample_queue = [sample_event ''a'' 1, sample_event ''b'' 2]" by code_simp
  with dispatch_drains_in_order [OF h, of "\<lambda>e. ox_key e = asc ''a''"] dispatch_drains_in_order [OF h, of "\<lambda>e. True"]
  show ?thesis by (auto simp: sample_event_def refused_event_def)
qed

section \<open>Continuing a reuse beyond the cap\<close>

text \<open>\<open>continue\<close> checks the cap when it admits a tuple, not when it revives a closed identity.\<close>

definition sample_identity :: "string \<Rightarrow> string \<Rightarrow> identity_row" where
  "sample_identity key status =
     \<lparr>id_key = asc key, id_tenant = [], id_realm = [], id_synthetic = True, id_scope = [], id_number = [],
      id_incarnation = asc ''0'', id_entity = [], id_track = [], id_status = status, id_epoch = 0,
      id_tombstone_at = None, id_tombstone_record = None, id_first_effective = None,
      id_reuse_decision = None, id_fence = 1, id_reuse_scope = None\<rparr>"

lemma continue_exceeds_cap:
  "let d = empty_db\<lparr>db_identity := [sample_identity ''a'' ''LIVE'', sample_identity ''b'' ''TOMBSTONED'']\<rparr> in
   SQL_IDENTITY_COUNT_LIVE d = max_identities sample_caps \<and>
   (case admit_tuple sample_ingestor 1 (asc ''b'') 0 [] d of
      Inr d' \<Rightarrow> max_identities sample_caps < SQL_IDENTITY_COUNT_LIVE d' | Inl e \<Rightarrow> False)"
  by code_simp

end
