(* ===== verification/Link16_Export_Samples.thy ===== *)
theory Link16_Export_Samples
  imports Link16_Export_Lives Link16_Authorised Link16_Samples
begin

text \<open>
  A bridge that starts with exports enabled, ingests one report, records a destination allocation and
  exports the Entity of that report: the run on which the properties of egress are shown to apply.
\<close>

definition export_rule :: policy_rule where
  "export_rule =
     \<lparr>pl_revision = asc ''p1'', pl_source_tenant = asc ''t'', pl_source_realm = asc ''r'', pl_source_synthetic = True,
      pl_label_set = {asc ''s''},
      pl_destination = \<lparr>ds_peer_id = asc ''peer'', ds_tenant = asc ''t'', ds_realm = asc ''d'', ds_synthetic = True,
        ds_security_context = asc ''s'', ds_vertical_forms = [], ds_vertical_required = False\<rparr>,
      pl_families = [asc ''J3.2'']\<rparr>"

definition export_config :: bridge_config where
  "export_config = sample_config\<lparr>bc_mode := BIDIRECTIONAL, bc_transmit_families := [asc ''J3.2''],
     bc_export_policy := [export_rule]\<rparr>"

definition export_ingestor :: ingestor where
  "export_ingestor = sample_ingestor\<lparr>ii_config := export_config\<rparr>"

definition export_start :: start_surroundings where
  "export_start = sample_start\<lparr>ss_capabilities := Some
     \<lparr>cap_gateway_id = asc ''gw'', cap_native_profiles = [asc ''n''], cap_receive_families = [],
      cap_transmit_families = [asc ''J3.2''], cap_max_batch = 100, cap_replay_window_seconds = 60\<rparr>\<rparr>"

definition sample_entity :: entity_view where
  "sample_entity =
     \<lparr>ev_dump = JNull, ev_id = asc ''e'', ev_source_ids = [(asc ''Link16Track'', sample_key)], ev_original_id = None,
      ev_transformations = [], ev_synthetic = True, ev_position = False, ev_kinematics = False\<rparr>"

definition sample_report :: json where
  "sample_report = JObj [(asc ''extensions'', JObj [(asc ''sc-link16-export/1'', JObj [(asc ''losses'', JArr [])])])]"

definition sample_objects :: export_env where
  "sample_objects = \<lparr>xe_entity = (\<lambda>_. Some sample_entity), xe_track = (\<lambda>_. None), xe_context_ok = (\<lambda>_. True),
     xe_from_cdm = (\<lambda>_ _ _ _. Inr sample_report)\<rparr>"

definition sent_document :: json where
  "sent_document = JObj
     [(asc ''request_id'', JStr sample_session), (asc ''state'', JStr (asc ''SENT'')), (asc ''reason'', JNull),
      (asc ''changed_at'', JStr (asc ''1970-01-01T00:00:01.000Z''))]"

definition sample_gateway :: "exchange_answer \<Rightarrow> client_env" where
  "sample_gateway answer =
     \<lparr>ct_json = sample_json\<lparr>je_loads := (\<lambda>_. Some sent_document)\<rparr>, ct_exchange = (\<lambda>_ _ _. answer),
      ct_urlencode = (\<lambda>_. []), ct_max_body_bytes = 1024\<rparr>"

definition export_time :: "int \<Rightarrow> exchange_answer \<Rightarrow> export_surroundings" where
  "export_time now answer =
     \<lparr>xs_clock = (\<lambda>_. now), xs_faults = (\<lambda>_. NO_FAULTS), xs_uuid = (\<lambda>_. sample_session),
      xs_client = (\<lambda>_. sample_gateway answer), xs_crash = (\<lambda>_. False)\<rparr>"

definition fresh_exporter :: exporter where
  "fresh_exporter = \<lparr>xp_bridge = sample_bridge, xp_egress = None, xp_tick = 0, xp_posts = []\<rparr>"

definition sample_tuple :: json where
  "sample_tuple = JObj
     [(asc ''tenant'', JStr (asc ''t'')), (asc ''realm'', JStr (asc ''d'')), (asc ''synthetic'', JBool True),
      (asc ''origin_scope'', JStr (asc ''o'')), (asc ''track_number'', JStr (asc ''00002'')),
      (asc ''incarnation'', JStr (asc ''0''))]"

definition before_export :: "(export_surroundings \<times> export_event) list" where
  "before_export =
     [(export_time 0 NoAnswer, Life (sample_surroundings 0 TransportFailed) (Start export_start)),
      (export_time 1000 NoAnswer, Life (sample_surroundings 1000 (Fetched [1, 2, 3])) Pass),
      (export_time 1100 NoAnswer, Allocate (asc ''seen'') (asc ''peer'') (asc ''d'') sample_key sample_tuple)]"

definition sample_export :: "export_surroundings \<times> export_event" where
  "sample_export = (export_time 1500 (Answered 202 [1]), Export sample_entity None (asc ''peer'') (Some (asc ''q1'')))"

definition the_post :: post where
  "the_post = \<lparr>po_request = asc ''q1'', po_body = [1], po_checked = 1500, po_fence = 1\<rparr>"

abbreviation export_run :: "(export_surroundings \<times> export_event) list \<Rightarrow> exporter" where
  "export_run events \<equiv> export_acts export_ingestor sample_objects (\<lambda>evidence. evidence = []) events fresh_exporter"

lemma fresh_is_empty: "xp_db fresh_exporter = empty_db" "xp_posts fresh_exporter = []"
  by (simp_all add: fresh_exporter_def sample_starts_empty)

text \<open>The same export when the commit that records its outcome, at tick 14, fails; then the job is sent again.\<close>

definition unrecorded_export :: "export_surroundings \<times> export_event" where
  "unrecorded_export = (let (xs, event) = sample_export in
     (xs\<lparr>xs_faults := (\<lambda>t. NO_FAULTS\<lparr>commit_fails := (t = 14)\<rparr>)\<rparr>, event))"

definition before_after ::
    "exporter \<Rightarrow> post list \<times> post list \<times> (job_state \<times> nat \<times> bytes option) option \<times> (job_state \<times> bool) option \<times> post list" where
  "before_after x =
     (let act = export_act export_ingestor sample_objects (\<lambda>evidence. evidence = []);
          y = act sample_export x; z = act unrecorded_export x in
      (xp_posts x, xp_posts y, map_option (\<lambda>j. (jb_state j, jb_attempts j, jb_body j)) (job_of (asc ''q1'') y),
       map_option (\<lambda>j. (jb_state j, jb_in_flight j)) (job_of (asc ''q1'') z),
       xp_posts (act (export_time 1600 (Answered 202 [1]), SendJob (asc ''q1'')) z)))"

lemma before_after_run:
  "before_after (export_run before_export) =
     ([], [the_post], Some (SENT, 1, Some [1]), Some (PENDING, True), [the_post, the_post\<lparr>po_checked := 1600\<rparr>])"
  by code_simp

lemma unrecorded_post_is_repeated:
  "xp_posts (export_run (before_export @ [unrecorded_export, (export_time 1600 (Answered 202 [1]), SendJob (asc ''q1''))])) =
     [the_post, the_post\<lparr>po_checked := 1600\<rparr>]"
  using before_after_run by (simp add: before_after_def Let_def export_acts_def)

abbreviation exported :: exporter where
  "exported \<equiv> export_run (before_export @ [sample_export])"

lemma exported_step:
  "exported = export_act export_ingestor sample_objects (\<lambda>evidence. evidence = []) sample_export (export_run before_export)"
  by (simp add: export_acts_def)

lemma exported_posts: "xp_posts exported = [the_post]" "xp_posts (export_run before_export) = []"
  and exported_job: "\<exists>j. job_of (asc ''q1'') exported = Some j \<and> jb_state j = SENT"
  using before_after_run unfolding exported_step by (auto simp: before_after_def Let_def)

lemma exports_refine_job_machine_witness:
  "job_step\<^sup>*\<^sup>* EMPTY_OUTBOX (outbox_of exported) \<and> ob_posts (outbox_of exported) = [the_post]"
  using exports_refine_job_machine [OF fresh_is_empty, of export_ingestor sample_objects "\<lambda>evidence. evidence = []"
      "before_export @ [sample_export]"] exported_posts(1)
  by (simp add: outbox_of_def)

lemma posts_are_committed_witness:
  "\<exists>j t. job_of (asc ''q1'') exported = Some j \<and> jb_body j = Some [1] \<and> jb_expires_at j = Some t \<and> 1500 < t"
  using posts_are_committed [OF fresh_is_empty refl, of export_ingestor sample_objects "\<lambda>evidence. evidence = []"
      "before_export @ [sample_export]"] exported_posts(1)
  by (simp add: the_post_def)

text \<open>After the export: another instance takes the lease over, revalidates, reconciles and sends again.\<close>

definition afterwards :: "(export_surroundings \<times> export_event) list" where
  "afterwards =
     [(export_time 20000 NoAnswer, Life (sample_surroundings 20000 TransportFailed) (Start export_start)),
      (export_time 20001 NoAnswer, Revalidate), (export_time 20002 (Answered 200 [1]), Reconcile),
      (export_time 20003 (Answered 202 [1]), SendJob (asc ''q1''))]"

lemma settled_jobs_stay_settled_witness:
  "\<exists>j. jb_state j = SENT \<and>
     job_of (asc ''q1'') (export_acts export_ingestor sample_objects (\<lambda>evidence. evidence = []) afterwards exported) = Some j \<and>
     filter (\<lambda>p. po_request p = asc ''q1'')
       (xp_posts (export_acts export_ingestor sample_objects (\<lambda>evidence. evidence = []) afterwards exported)) = [the_post]"
proof -
  obtain j where j: "job_of (asc ''q1'') exported = Some j" "jb_state j = SENT" using exported_job by blast
  then have "jb_state j \<in> FINAL_STATES" by (simp add: FINAL_STATES_def)
  from settled_jobs_stay_settled [OF fresh_is_empty refl j(1) this refl, where afterwards = afterwards] j(2) exported_posts(1)
  show ?thesis by (auto simp: the_post_def)
qed

lemma export_posts_only_authorised_witness:
  "\<exists>cap. export_authorised export_ingestor sample_objects cap sample_entity None (asc ''peer'') 1500
     (xp_db (export_run before_export))"
proof -
  let ?m = "bridge_export export_ingestor sample_objects (export_time 1500 (Answered 202 [1])) sample_entity None
      (asc ''peer'') (Some (asc ''q1''))"
  obtain r y where m: "?m (export_run before_export) = (r, y)" by (cases "?m (export_run before_export)")
  then have "y = exported" unfolding exported_step by (simp add: export_act_def sample_export_def)
  then have "xp_posts y \<noteq> xp_posts (export_run before_export)" using exported_posts by simp
  from export_posts_only_authorised [OF m this] show ?thesis by (auto simp: export_time_def)
qed

end
