(* ===== verification/Spec2Isabelle.thy ===== *)
theory Spec2Isabelle
  imports
    Klv_Framing_Correct Cat048_Correct
    Hla_Time_Correct Hla_Codec_Correct Hla_Capture_Correct Hla_Projector_Correct Hla_Reducer_Runs
    Link16_Fencing Link16_Config_Correct Link16_Export_Samples
begin

text \<open>
  A verification development for SynapseCommand. Four parts of the repository that carry its own
  core logic are modelled, each as the source writes it:

  \<^item> the KLV framing layer of the UAS Datalink Local Set,
    \<^verbatim>\<open>packages/cdm/synapse_cdm/adapters/klv_codec.py\<close>;
  \<^item> the wire format of ASTERIX category 048, a radar's target reports,
    \<^verbatim>\<open>packages/cdm/synapse_cdm/adapters/asterix_cat048.py\<close> and \<^verbatim>\<open>cat048_codec.py\<close>;
  \<^item> the HLA observer, \<^verbatim>\<open>packages/hla/src/synapse_hla/\<close>: from the octets of an attribute
    through the capture file and the state reducer to a CDM Entity;
  \<^item> the Link 16 bridge, \<^verbatim>\<open>packages/link16_bridge/synapse_link16_bridge/\<close>: one SQLite file per
    channel, a lease over it, at-least-once ingest of a gateway's batches, identities, history and
    current state, an outbox, and the authorised export of what was ingested, through a durable job
    that is settled once.

  \<^bold>\<open>Shared theories.\<close> \<open>Prelude\<close> has results as \<open>error + value\<close>, Python's indexing and
  slicing, big-endian octets, decimal numerals and dictionaries as association lists, with their
  lemmas in the collections \<open>guard_simps\<close>, \<open>octet_simps\<close> and \<open>invariant_intros\<close>.
  \<open>Interfaces\<close> has the contracts that more than one component meets: \<open>prefix_codec\<close>
  (an encoder and a decoder that consumes a prefix; interpreted by the two KLV codecs),
  \<open>guarded_machine\<close> and \<open>monotone_machine\<close> (a step that may refuse, its invariant and a
  relation that only grows; interpreted by the reducer).

  \<^bold>\<open>KLV framing.\<close> \<open>Klv_Framing\<close> has the key, BER-OID tags, BER lengths, the 16-bit
  checksum and \<open>walk_local_set\<close>; the loops are functions with a measure, as the code's loops
  consume an octet each. \<open>Klv_Framing_Correct\<close> shows that both codecs are exact inverses of
  their encoders on one canonical spelling, that a walk reads back what a packet was assembled
  from, and accepts nothing else. Octets are \<open>8 word\<close>, offsets are Python's integers.

  \<^bold>\<open>ASTERIX category 048.\<close> \<open>Bit_Fields\<close> has the numbered bit fields of a format, how they
  are packed, and hexadecimal text. \<open>Cat048_Codec\<close> is the FSPEC, the integers, the scaled forms (a
  decoded value is an exact rational, as every product of doubles there is exact) and the two
  alphabets; \<open>Cat048_Items\<close> a record and a decoder for each item, \<open>Cat048_Block\<close> the encoders, the
  length rules, the profile \<open>UAP\<close> and the block, \<open>parse_block\<close> and \<open>build_block\<close>.
  \<open>Cat048_Exact\<close> has the contract of an item's codec, the locale \<open>item_codec\<close>, with its case
  \<open>fixed_codec\<close>, and interprets it for the codec of every item: on the octets its length rule finds
  a decoder returns and its encoder gives them back. \<open>Cat048_Fspec\<close> is the FSPEC written and read,
  and \<open>Cat048_Correct\<close> draws the consequences for a block: what is accepted is rebuilt octet for
  octet, what is refused is refused with the adapter's own error, and an accepted record has the items
  its rules ask for.

  \<^bold>\<open>HLA observer.\<close> \<open>Hla_Base\<close> (\<^verbatim>\<open>errors.py\<close>, \<^verbatim>\<open>limits.py\<close>), \<open>Hla_Time\<close> (\<^verbatim>\<open>_utc.py\<close>),
  \<open>Hla_Codec\<close> (\<^verbatim>\<open>codec.py\<close>), \<open>Hla_Identity\<close> (\<^verbatim>\<open>_identity.py\<close>), \<open>Hla_Config\<close>
  (\<^verbatim>\<open>config.py\<close>), \<open>Hla_Capture\<close> (\<^verbatim>\<open>capture.py\<close>), \<open>Hla_Geodesy\<close> (\<^verbatim>\<open>geodesy.py\<close>),
  \<open>Hla_Projector\<close> (\<^verbatim>\<open>projector.py\<close>) and \<open>Hla_Reducer\<close> (\<^verbatim>\<open>reducer.py\<close>) are the
  model; the theories whose names go on with \<open>_Correct\<close>, \<open>_Inv\<close>, \<open>_Steps\<close>,
  \<open>_History\<close> and \<open>_Runs\<close> are its lemmas and properties. A capture is a hash chain of
  records; each frame of it goes through the reducer, which keeps the objects of a federation
  generation, decodes what a reflection supplies, and asks the projector whether an object's
  slots make an Entity. The lemmas show the round trips of time and attributes, that a verified
  capture is tamper evident, that a configuration is validated exactly when it is sound
  (\<open>sound_config\<close>, stated apart from the rules of the code), that the projector decides eligibility
  exactly and always answers, with an Entity whose members are the projected slots, and that the
  reducer keeps its invariant over any session of admitted frames: identities are
  never shared, limits never exceeded, a refused reflection changes nothing.
  The exception classes, record fields and codes are the source's. That the projector and the
  reducer always answer rests on three named conditions. \<open>math_ranges\<close>: Python's arithmetic keeps
  its ranges (an arc tangent within half a turn, a rounding within its interval, a norm that is not
  negative). \<open>carriable_session\<close>: the texts of the session are those its schema and
  \<open>validate_config\<close> let through. \<open>cdm_accepts\<close>: the CDM refuses no Entity that is \<open>well_made\<close>, which
  lists what \<^verbatim>\<open>models.py\<close> asks of one (latitude within 90 and longitude within 180 degrees, a course
  below 360, vocabulary, texts, times). That every Entity the projector builds is well made is
  proved, from the ranges of the geodesy (\<open>projection_in_range\<close>). What a successful frame does
  (history, upserts, sessions, ends of generations) assumes nothing of the CDM: refusing less only
  adds answers (\<open>unrefusing\<close>).

  \<^bold>\<open>Link 16 bridge, the model.\<close>
  \<^item> \<open>Link16_Contract\<close>: JSON values, the instants of \<^verbatim>\<open>clock.py\<close> and the validators of
    \<^verbatim>\<open>contract.py\<close>; \<open>Link16_Batch\<close>: \<^verbatim>\<open>jsonstrict.py\<close>, from the octets of a body to the
    records of a batch, each sound or faulty by itself.
  \<^item> \<open>Link16_Store\<close>: \<^verbatim>\<open>store.py\<close>. A table is a list of rows in the order of insertion, a
    statement is a function on the database named as in the source, a constraint that fails is
    the exception \<open>IntegrityError\<close>, an integer SQLite cannot hold is \<open>SqliteOverflow\<close>.
  \<^item> \<open>Link16_Lease\<close>: transactions, binding, \<^verbatim>\<open>lease.py\<close>, \<^verbatim>\<open>faults.py\<close> and the audit rows of
    \<^verbatim>\<open>observe.py\<close>. A transaction checks the fence, runs its body and keeps the body's database only
    when no exception is raised.
  \<^item> \<open>Link16_State\<close>: \<^verbatim>\<open>identity.py\<close> (admission, reuse rules) and \<^verbatim>\<open>state.py\<close> (history, current
    state, samples, events). \<open>Link16_Policy\<close>: the record of the configuration, \<^verbatim>\<open>policy.py\<close>,
    \<^verbatim>\<open>limits.py\<close>, \<^verbatim>\<open>freshness.py\<close>, \<^verbatim>\<open>negotiate.py\<close>, \<^verbatim>\<open>translate.py\<close> and \<^verbatim>\<open>backoff.py\<close>.
  \<^item> \<open>Link16_Ingest\<close>: \<^verbatim>\<open>lifecycle.py\<close> and \<^verbatim>\<open>ingest.py\<close>, one record, one batch, the
    transaction around it and the dispatch of the outbox. \<open>Link16_Bridge\<close> and
    \<open>Link16_Operator\<close>: \<^verbatim>\<open>bridge.py\<close>, one pass of the loop (\<open>run_once\<close>), startup, health
    and the operator's records.
  \<^item> \<open>Link16_Config\<close>: the parser of \<^verbatim>\<open>config.py\<close>, from the octets of the file to the
    record or the first error, in the source's order; \<open>Link16_Client\<close>: what \<^verbatim>\<open>client.py\<close>
    makes of an exchange with the gateway, and the operations of the client.
  \<^item> \<open>Link16_Egress\<close>: \<^verbatim>\<open>egress.py\<close> and the bridge's wrappers of it, methods on
    \<open>exporter\<close>, which is the bridge with its \<open>Egress\<close>, a count of the surroundings used
    up, and the POSTs made so far.

  \<^bold>\<open>Link 16 bridge, the lemmas.\<close> The interfaces are locales, each interpreted on the
  model. \<open>batch_invariant\<close> (\<open>Link16_Invariants\<close>): a predicate of the store that every
  elementary change keeps is kept by a record, a batch and its transaction;
  \<open>pass_invariant\<close>: by a pass of the loop; \<open>life_invariant\<close> and \<open>store_invariant\<close>
  (\<open>Link16_Actions\<close>, with \<open>sublocale\<close>s between them): by every life of starts, passes and
  operator's records; \<open>channel_invariant\<close> (\<open>Link16_Kept\<close>): the predicates of the channel
  row alone. Their instances are the gap that stays on record and the cap on LIVE identities
  (\<open>Link16_Kept\<close>), the current state as a function of the history (\<open>Link16_History\<close>)
  and the balance of the counters (\<open>Link16_Accounting\<close>). \<open>Link16_Fencing\<close> is a step
  relation of any number of processes over one store, with clocks and crashes, refined to an
  abstract fencing lock. \<open>Link16_Redelivery\<close> is at-least-once delivery, \<open>Link16_Dispatch\<close>
  the outbox, \<open>Link16_Samples\<close> the concrete run on which the witnesses stand.
  \<open>Link16_Config_Correct\<close>: a configuration that is read is well formed, every number within
  its lower and upper bound. A dropped or closed track's Entity is revalidated by the CDM, which may
  refuse it (\<open>be_closed\<close>), and the exception then ends the record as any other does.

  \<^bold>\<open>Link 16 export, the lemmas.\<close> \<open>Link16_Jobs\<close> is the abstract machine of the export
  jobs: the steps a job may take and the POSTs among them, with no store, lease or transaction.
  \<open>Link16_Exports\<close> has the triples \<open>ensures\<close> for the methods of an exporter and shows that
  one send is a run of the machine, \<open>Link16_Export_Runs\<close> the same for export, reconciliation,
  revalidation and the operator's records, and \<open>Link16_Export_Lives\<close> for any sequence of
  starts, passes, ingest, exports and operator's records, crashes included; the locale
  \<open>jobs_invariant\<close> is there the interface through which a pass of the bridge leaves the jobs
  alone. What the machine promises (a settled job stays so, a POST is of the committed body and
  before its expiry) is then so of the bridge. \<open>Link16_Authorised\<close>: a POST made by an export
  met every condition of authorisation, with a source equal to its stored snapshot and its age measured
  at the very reading of the clock the check made (\<open>age_tick\<close>). \<open>Link16_Export_Samples\<close> is the run of its witnesses.

  \<^bold>\<open>Parameters.\<close> What is not under the source directory, or is a library's, is an argument
  of the definitions that use it: the JSON text, the JSON Schema validator and SHA-256
  (\<open>reading_env\<close>, \<open>writing_env\<close>, \<open>json_env\<close>), the arithmetic and the trigonometry of
  doubles, which are bit patterns here (\<open>float_ops\<close>), the name-based UUIDs and the validation
  of CDM objects (\<open>projector_env\<close>, \<open>bridge_env\<close>), the splitting of URLs and the sum of two doubles in a
  configuration (\<open>config_env\<close>), the exchange itself (\<open>client_env\<close>), the parsers of the CDM
  models with \<open>ExportContext\<close> and the adapter's export mode (\<open>export_env\<close>), the answer of the
  Link 16 gateway's adapter, and the surroundings of a pass: the clock, the injected faults, the gateway's answers,
  the sink, the jitter and the double nearest to eighty percent of a limit
  (\<open>surroundings\<close>, \<open>start_surroundings\<close>). Where a property needs a law of them it is a
  named hypothesis of it, and the property's witness instantiates the parameter.

  \<^bold>\<open>Bounds and abstractions.\<close> No fuel is used: the KLV and ASTERIX loops and the integrity walk
  of a JSON value have measures, and the latitude iteration is bounded by the source's own
  \<open>MAX_ITERATIONS\<close>. A pass of the bridge reads its clock once, and its transactions happen at
  one instant; in an export every reading of the clock, every UUID and every exchange has a tick of
  its own (\<open>export_surroundings\<close>), and no order of the readings is assumed; a crash is a transaction that does not happen, as \<open>BEGIN IMMEDIATE\<close> gives it,
  and the next start finds the store of the last commit. Python's integers are \<open>int\<close> or
  \<open>nat\<close>; SQLite's are checked against 64 bits where they are bound. The loop \<open>run\<close> of the
  bridge is any sequence of passes.

  \<^bold>\<open>Not modelled.\<close> Of the bridge: the sockets, TLS, deadlines and the check of the credential in
  \<^verbatim>\<open>client.py\<close>; the CDM Entity of an export beyond the fields \<^verbatim>\<open>egress.py\<close> reads; waiting
  and signals, gauges, histograms and log lines, the two concrete sinks, listing queries, PRAGMAs and
  file permissions; \<^verbatim>\<open>cli.py\<close>, \<^verbatim>\<open>native.py\<close> and \<^verbatim>\<open>perf.py\<close>, which parse arguments, print or
  time. Of the HLA package: the native worker's process control (\<^verbatim>\<open>host.py\<close>), replay and the
  writer of output directories, the command line and packaged resources, which are input and
  output around the modelled parts. Of category 048: the translation of a parsed record into CDM
  objects, the geodesy and the snapping of a value to a form. The CDM's pydantic models, its sixty
  other format adapters, which are independent translators, and the conformance harness, which tests the code.

  \<^bold>\<open>What the model showed.\<close> \<open>faulty_redelivery_masks_gap\<close> (\<open>Link16_Redelivery\<close>): a
  redelivered record without a sound body advances its session again, so that a later gap may go
  unreported. \<open>unrecorded_post_is_repeated\<close> (\<open>Link16_Export_Samples\<close>): when the outcome of a POST
  cannot be recorded, the job stays pending and in flight, and a further \<open>send\<close> of it POSTs
  again. No shipped code sends a pending job a second time or revalidates one after a takeover,
  though the module's text speaks of both. \<open>continue_exceeds_cap\<close> (\<open>Link16_Samples\<close>): an operator's \<open>continue\<close>
  on a known identity does not look at the cap. An incarnation of \<open>2 ^ 63\<close> or more does not fit
  the column \<open>reuse_scope\<close>. \<open>days_from_civil\<close> counts years below -1 one era too early, out
  of reach of the parsers.
\<close>

end
